(* ===== verification/Prelude.thy ===== *)
theory Prelude
  imports Complex_Main
begin

text \<open>
  Shared vocabulary of the development: results of fallible operations, the slicing of a
  list into consecutive batches (the shape of every batch loop of the backend), the named
  collections the component proofs feed to the simplifier, and the generic lemmas on lists
  and sums that several components use.
\<close>

named_theorems guard_simps "equations that evaluate the guards of an operation"
named_theorems store_simps "effect of the store operations on the rows they touch"

section \<open>Results\<close>

text \<open>
  A TypeScript function that may throw returns a sum: \<open>Inl\<close> carries the thrown error,
  \<open>Inr\<close> the value. Sequencing stops at the first error.
\<close>

definition bindR :: "'e + 'a \<Rightarrow> ('a \<Rightarrow> 'e + 'b) \<Rightarrow> 'e + 'b" where
  "bindR r f = (case r of Inl e \<Rightarrow> Inl e | Inr a \<Rightarrow> f a)"

lemma bindR_simps [simp]:
  "bindR (Inl e) f = Inl e"
  "bindR (Inr a) f = f a"
  by (simp_all add: bindR_def)

lemma bindR_Inr_iff: "bindR r f = Inr b \<longleftrightarrow> (\<exists>a. r = Inr a \<and> f a = Inr b)"
  by (cases r) auto

lemma bindR_Inl_iff:
  "bindR r f = Inl e \<longleftrightarrow> r = Inl e \<or> (\<exists>a. r = Inr a \<and> f a = Inl e)"
  by (cases r) auto

definition is_ok :: "'e + 'a \<Rightarrow> bool" where
  "is_ok r = (case r of Inl _ \<Rightarrow> False | Inr _ \<Rightarrow> True)"

lemma is_ok_simps [simp]: "\<not> is_ok (Inl e)" "is_ok (Inr a)"
  by (simp_all add: is_ok_def)

text \<open>A conditional throw: \<open>if (c) throw e\<close>.\<close>

definition throw_if :: "bool \<Rightarrow> 'e \<Rightarrow> 'e + unit" where
  "throw_if c e = (if c then Inl e else Inr ())"

lemma throw_if_Inr_iff [simp]: "throw_if c e = Inr u \<longleftrightarrow> \<not> c"
  by (simp add: throw_if_def)

lemma throw_if_Inl_iff [simp]: "throw_if c e = Inl e' \<longleftrightarrow> c \<and> e' = e"
  by (auto simp: throw_if_def)

text \<open>
  A handler that keeps the state it has reached when a later step throws: \<open>bail r s k\<close> stops with the
  error of \<open>r\<close> in state \<open>s\<close>, or goes on with its value.
\<close>

definition bail :: "'e + 'a \<Rightarrow> 's \<Rightarrow> ('a \<Rightarrow> ('e + 'b) \<times> 's) \<Rightarrow> ('e + 'b) \<times> 's" where
  "bail r s k = (case r of Inl e \<Rightarrow> (Inl e, s) | Inr a \<Rightarrow> k a)"

lemma bail_simps [simp]:
  "bail (Inl e) s k = (Inl e, s)"
  "bail (Inr a) s k = k a"
  by (simp_all add: bail_def)

lemma bail_split:
  "P (bail r s k) \<longleftrightarrow> (\<forall>e. r = Inl e \<longrightarrow> P (Inl e, s)) \<and> (\<forall>a. r = Inr a \<longrightarrow> P (k a))"
  by (cases r) auto

lemma bail_Inr_iff: "bail r s k = (Inr b, s') \<longleftrightarrow> (\<exists>a. r = Inr a \<and> k a = (Inr b, s'))"
  by (cases r) auto

text \<open>Errors of a called component, renamed into the caller's.\<close>

definition map_err :: "('e \<Rightarrow> 'f) \<Rightarrow> 'e + 'a \<Rightarrow> 'f + 'a" where
  "map_err g r = (case r of Inl e \<Rightarrow> Inl (g e) | Inr a \<Rightarrow> Inr a)"

lemma map_err_simps [simp]:
  "map_err g (Inl e) = Inl (g e)"
  "map_err g (Inr a) = Inr a"
  by (simp_all add: map_err_def)

lemma map_err_Inr_iff [simp]: "map_err g r = Inr a \<longleftrightarrow> r = Inr a"
  by (cases r) auto

lemma map_err_Inl_iff: "map_err g r = Inl f \<longleftrightarrow> (\<exists>e. r = Inl e \<and> f = g e)"
  by (cases r) auto

section \<open>Batches\<close>

text \<open>
  \<open>for (let start = 0; start < xs.length; start += n) \<dots> xs.slice(start, start + n)\<close>:
  the list of slices the loop visits. The loop advances only when \<open>n\<close> is positive, so
  the batch size is given as \<open>Suc k\<close>.
\<close>

function batches :: "nat \<Rightarrow> 'a list \<Rightarrow> 'a list list" where
  "batches k [] = []"
| "batches k (x # xs) = take (Suc k) (x # xs) # batches k (drop (Suc k) (x # xs))"
  by pat_completeness auto
termination
  by (relation "measure (\<lambda>(k, xs). length xs)") auto

lemma batches_eq_Nil_iff [simp]: "batches k xs = [] \<longleftrightarrow> xs = []"
  by (cases xs) auto

lemma batches_unfold:
  "xs \<noteq> [] \<Longrightarrow> batches k xs = take (Suc k) xs # batches k (drop (Suc k) xs)"
  by (cases xs) auto

declare batches.simps(2) [simp del]

lemma concat_batches [simp]: "concat (batches k xs) = xs"
proof (induction k xs rule: batches.induct)
  case (1 k)
  then show ?case by simp
next
  case (2 k x xs)
  have "concat (batches k (x # xs))
      = take (Suc k) (x # xs) @ concat (batches k (drop (Suc k) (x # xs)))"
    by (simp add: batches.simps(2))
  also have "\<dots> = take (Suc k) (x # xs) @ drop (Suc k) (x # xs)"
    using "2" by simp
  finally show ?case by simp
qed

lemma batches_length: "b \<in> set (batches k xs) \<Longrightarrow> 0 < length b \<and> length b \<le> Suc k"
proof (induction k xs rule: batches.induct)
  case (1 k)
  then show ?case by simp
next
  case (2 k x xs)
  then show ?case by (auto simp: batches.simps(2))
qed

lemma batches_cover: "\<Union> (set ` set (batches k xs)) = set xs"
  by (metis concat_batches set_concat)

section \<open>Lists\<close>

lemma find_SomeD: "find P xs = Some x \<Longrightarrow> x \<in> set xs \<and> P x"
  by (auto simp: find_Some_iff in_set_conv_nth)

lemma find_None_iff': "find P xs = None \<longleftrightarrow> (\<forall>x \<in> set xs. \<not> P x)"
  by (auto simp: find_None_iff)

lemma find_append:
  "find P (xs @ ys) = (case find P xs of None \<Rightarrow> find P ys | Some x \<Rightarrow> Some x)"
  by (induction xs) auto

lemma length_filter_partition3:
  assumes "\<And>x. x \<in> set xs \<Longrightarrow> P x \<or> Q x \<or> R x"
    and "\<And>x. \<not> (P x \<and> Q x)" and "\<And>x. \<not> (P x \<and> R x)" and "\<And>x. \<not> (Q x \<and> R x)"
  shows "length (filter P xs) + length (filter Q xs) + length (filter R xs) = length xs"
  using assms(1)
proof (induction xs)
  case Nil
  then show ?case by simp
next
  case (Cons x xs)
  have "P x \<or> Q x \<or> R x" using Cons.prems by simp
  moreover have "length (filter P xs) + length (filter Q xs) + length (filter R xs) = length xs"
    using Cons by simp
  ultimately show ?case using assms(2-4) [of x] by auto
qed

lemma sum_list_nonneg_rat: "(\<And>x. x \<in> set xs \<Longrightarrow> 0 \<le> f x) \<Longrightarrow> 0 \<le> (\<Sum>x\<leftarrow>xs. f x :: rat)"
  by (induction xs) auto

end
