(* ===== verification/JsNum.thy ===== *)
theory JsNum
  imports Prelude
begin

text \<open>
  Numbers of the program. A JavaScript \<open>number\<close> is an IEEE double: a finite value is
  modelled by the rational it denotes, and every arithmetic operation rounds its exact
  result with \<open>f64\<close> (53 significant bits, ties to even; the exponent range is not
  bounded, so overflow to infinity and subnormals are outside the model). Where the source
  tests for \<open>NaN\<close> and infinities the value is a \<open>jsnum\<close>.

  The \<open>Decimal\<close> classes of \<open>decimal.js\<close> and of the Prisma runtime are third-party code.
  They document that each operation returns the exact result rounded to the configured number
  of significant digits; a definition that uses one takes the rounding as an argument, and its
  properties assume of it only the laws of the locale \<open>rounding\<close> below. The locale is
  interpreted on the double rounding and on the two decimal configurations in use.
\<close>

section \<open>Rounding to an integer\<close>

datatype round_mode = HalfEven | HalfUp | Down

definition round_int :: "round_mode \<Rightarrow> rat \<Rightarrow> int" where
  "round_int m q = (let k = \<lfloor>q\<rfloor>; r = q - of_int k in
     (case m of
        Down \<Rightarrow> k
      | HalfUp \<Rightarrow> (if r < 1 / 2 then k else k + 1)
      | HalfEven \<Rightarrow> (if r < 1 / 2 \<or> (r = 1 / 2 \<and> even k) then k else k + 1)))"

lemma round_int_of_int [simp]: "round_int m (of_int k) = k"
  by (cases m) (simp_all add: round_int_def Let_def)

lemma round_int_bounds: "\<lfloor>q\<rfloor> \<le> round_int m q \<and> round_int m q \<le> \<lfloor>q\<rfloor> + 1"
  by (cases m) (auto simp: round_int_def Let_def)

lemma round_int_mono:
  assumes "x \<le> y"
  shows "round_int m x \<le> round_int m y"
proof (cases "\<lfloor>x\<rfloor> = \<lfloor>y\<rfloor>")
  case True
  with assms show ?thesis by (cases m) (auto simp: round_int_def Let_def)
next
  case False
  with assms have "\<lfloor>x\<rfloor> + 1 \<le> \<lfloor>y\<rfloor>" using floor_mono by fastforce
  with round_int_bounds [of x m] round_int_bounds [of y m] show ?thesis by linarith
qed

section \<open>The exponent of a positive rational\<close>

function ilog :: "int \<Rightarrow> int \<Rightarrow> nat" where
  "ilog b n = (if b < 2 \<or> n < b then 0 else Suc (ilog b (n div b)))"
  by pat_completeness auto
termination
proof (relation "measure (nat \<circ> snd)")
  fix b n :: int
  assume "\<not> (b < 2 \<or> n < b)"
  then have "2 \<le> b" "0 < n" by auto
  then have "n div b < n" by (simp add: int_div_less_self)
  with \<open>0 < n\<close> show "((b, n div b), (b, n)) \<in> measure (nat \<circ> snd)" by simp
qed simp

declare ilog.simps [simp del]

lemma ilog_bounds: "2 \<le> b \<Longrightarrow> 0 < n \<Longrightarrow> b ^ ilog b n \<le> n \<and> n < b ^ Suc (ilog b n)"
proof (induction b n rule: ilog.induct)
  case (1 b n)
  show ?case
  proof (cases "n < b")
    case True
    with "1.prems" show ?thesis by (simp add: ilog.simps [of b n])
  next
    case False
    with "1.prems" have pos: "0 < n div b" by (simp add: pos_imp_zdiv_pos_iff)
    let ?k = "ilog b (n div b)"
    have k: "ilog b n = Suc ?k"
      using False "1.prems" by (simp add: ilog.simps [of b n])
    have IH: "b ^ ?k \<le> n div b" "n div b + 1 \<le> b ^ Suc ?k"
      using "1.IH" False "1.prems" pos by auto
    have n: "n = b * (n div b) + n mod b" "0 \<le> n mod b" "n mod b < b" using "1.prems" by auto
    have "b * b ^ ?k \<le> b * (n div b)" using IH(1) "1.prems" by (intro mult_left_mono) auto
    then have lo: "b ^ Suc ?k \<le> n" using n(1,2) unfolding power_Suc by linarith
    have "n < b * (n div b) + b" using n by linarith
    then have "n < b * (n div b + 1)" by (simp add: distrib_left)
    also have "\<dots> \<le> b * b ^ Suc ?k" using IH(2) "1.prems" by (intro mult_left_mono) auto
    finally show ?thesis using lo k by simp
  qed
qed

definition clog :: "int \<Rightarrow> int \<Rightarrow> nat" where
  "clog b n = (if n \<le> 1 then 0 else Suc (ilog b (n - 1)))"

lemma clog_bounds: "2 \<le> b \<Longrightarrow> 2 \<le> n \<Longrightarrow> 0 < clog b n \<and> n \<le> b ^ clog b n \<and> b ^ (clog b n - 1) < n"
  using ilog_bounds [of b "n - 1"] by (auto simp: clog_def)

definition expo :: "int \<Rightarrow> rat \<Rightarrow> int" where
  "expo b x = (if 1 \<le> x then int (ilog b \<lfloor>x\<rfloor>) else - int (clog b \<lceil>1 / x\<rceil>))"

lemma powi_mono: "2 \<le> b \<Longrightarrow> i \<le> j \<Longrightarrow> (of_int b :: rat) powi i \<le> of_int b powi j"
  by (intro power_int_increasing) auto

lemma powi_pos [simp]: "0 < b \<Longrightarrow> 0 < (of_int b :: rat) powi i"
  by simp

lemma expo_bounds:
  assumes b: "2 \<le> b" and x: "0 < x"
  shows "of_int b powi expo b x \<le> x" and "x < of_int b powi (expo b x + 1)"
proof -
  have "of_int b powi expo b x \<le> x \<and> x < of_int b powi (expo b x + 1)"
  proof (cases "1 \<le> x")
    case True
    define n where "n = \<lfloor>x\<rfloor>"
    from True have n: "0 < n" and nx: "of_int n \<le> x" and xn: "x < of_int (n + 1)"
      unfolding n_def by linarith+
    from ilog_bounds [OF b n] have lo: "b ^ ilog b n \<le> n" and hi: "n + 1 \<le> b ^ Suc (ilog b n)"
      by auto
    have e: "expo b x = int (ilog b n)" using True by (simp add: expo_def n_def)
    have "of_int b powi expo b x = (of_int (b ^ ilog b n) :: rat)" by (simp add: e)
    also have "\<dots> \<le> of_int n" using lo by (simp only: of_int_le_iff)
    finally have A: "of_int b powi expo b x \<le> x" using nx by linarith
    have "(of_int (n + 1) :: rat) \<le> of_int (b ^ Suc (ilog b n))" using hi by (simp only: of_int_le_iff)
    also have "\<dots> = of_int b powi (expo b x + 1)" using b by (simp add: e power_int_add_1)
    finally show ?thesis using A xn by linarith
  next
    case False
    define n where "n = \<lceil>1 / x\<rceil>"
    from False x have "1 < 1 / x" by simp
    then have n: "2 \<le> n" and nx: "1 / x \<le> of_int n" and xn: "of_int (n - 1) < 1 / x"
      unfolding n_def by linarith+
    define k where "k = clog b n"
    from clog_bounds [OF b n] have k: "0 < k" "n \<le> b ^ k" "b ^ (k - 1) \<le> n - 1"
      by (auto simp: k_def)
    have e: "expo b x = - int k" using False by (simp add: expo_def n_def k_def)
    have bp: "(0::rat) < of_int b" using b by simp
    have "1 / x \<le> of_int (b ^ k)" using nx k(2) of_int_le_iff [of n "b ^ k", where ?'a = rat] by linarith
    then have "1 / of_int (b ^ k) \<le> x" using x bp by (simp add: field_simps)
    then have A: "of_int b powi expo b x \<le> x" by (simp add: e power_int_minus field_simps)
    have "of_int (b ^ (k - 1)) < 1 / x" using xn k(3) of_int_le_iff [of "b ^ (k - 1)" "n - 1", where ?'a = rat] by linarith
    then have "x < 1 / of_int (b ^ (k - 1))" using x bp by (simp add: field_simps)
    also have "\<dots> = of_int b powi (expo b x + 1)"
    proof -
      have "expo b x + 1 = - int (k - 1)" using e k(1) by simp
      then show ?thesis by (simp add: power_int_minus field_simps)
    qed
    finally show ?thesis using A by simp
  qed
  then show "of_int b powi expo b x \<le> x" and "x < of_int b powi (expo b x + 1)" by auto
qed

lemma expo_mono:
  assumes b: "2 \<le> b" and x: "0 < x" and xy: "x \<le> y"
  shows "expo b x \<le> expo b y"
proof (rule ccontr)
  assume "\<not> ?thesis"
  then have "expo b y + 1 \<le> expo b x" by simp
  then have "of_int b powi (expo b y + 1) \<le> (of_int b powi expo b x :: rat)" by (rule powi_mono [OF b])
  with expo_bounds(1) [OF b x] expo_bounds(2) [OF b, of y] x xy show False by linarith
qed

section \<open>Rounding to significant digits\<close>

definition ulp :: "int \<Rightarrow> nat \<Rightarrow> rat \<Rightarrow> rat" where
  "ulp b p a = of_int b powi (expo b a + 1 - int p)"

definition sig_round :: "round_mode \<Rightarrow> int \<Rightarrow> nat \<Rightarrow> rat \<Rightarrow> rat" where
  "sig_round m b p x =
     (if x = 0 then 0
      else let a = \<bar>x\<bar>; u = ulp b p a in sgn x * (of_int (round_int m (a / u)) * u))"

abbreviation mag_round :: "round_mode \<Rightarrow> int \<Rightarrow> nat \<Rightarrow> rat \<Rightarrow> rat" where
  "mag_round m b p a \<equiv> of_int (round_int m (a / ulp b p a)) * ulp b p a"

lemma ulp_pos: "2 \<le> b \<Longrightarrow> 0 < ulp b p a"
  by (simp add: ulp_def)

lemma sig_round_0 [simp]: "sig_round m b p 0 = 0"
  by (simp add: sig_round_def)

lemma sig_round_minus [simp]: "sig_round m b p (- x) = - sig_round m b p x"
  by (simp add: sig_round_def Let_def)

lemma sig_round_pos: "0 < x \<Longrightarrow> sig_round m b p x = mag_round m b p x"
  by (simp add: sig_round_def Let_def)

lemma ulp_power: "2 \<le> b \<Longrightarrow> of_int (b ^ p) * ulp b p a = of_int b powi (expo b a + 1)"
proof -
  assume b: "2 \<le> b"
  have "of_int (b ^ p) * ulp b p a = of_int b powi int p * of_int b powi (expo b a + 1 - int p)"
    by (simp add: ulp_def)
  also have "\<dots> = of_int b powi (int p + (expo b a + 1 - int p))"
    using b by (intro power_int_add [symmetric]) simp
  finally show ?thesis by simp
qed

lemma ulp_power': "2 \<le> b \<Longrightarrow> 0 < p \<Longrightarrow> of_int (b ^ (p - 1)) * ulp b p a = of_int b powi expo b a"
proof -
  assume b: "2 \<le> b" and p: "0 < p"
  have "of_int (b ^ (p - 1)) * ulp b p a = of_int b powi int (p - 1) * of_int b powi (expo b a + 1 - int p)"
    by (simp add: ulp_def)
  also have "\<dots> = of_int b powi (int (p - 1) + (expo b a + 1 - int p))"
    using b by (intro power_int_add [symmetric]) simp
  also have "int (p - 1) + (expo b a + 1 - int p) = expo b a" using p by simp
  finally show ?thesis .
qed

lemma mag_round_upper:
  assumes b: "2 \<le> b" and x: "0 < x"
  shows "mag_round m b p x \<le> of_int b powi (expo b x + 1)"
proof -
  let ?u = "ulp b p x"
  have u: "0 < ?u" by (rule ulp_pos [OF b])
  have eq: "of_int (b ^ p) * ?u = of_int b powi (expo b x + 1)"
    using ulp_power [OF b, of p x] by simp
  have "x / ?u \<le> of_int (b ^ p)"
    using expo_bounds(2) [OF b x] u eq by (simp add: pos_divide_le_eq)
  from round_int_mono [OF this, of m] have "round_int m (x / ?u) \<le> (b ^ p)"
    by (simp only: round_int_of_int)
  then have "(of_int (round_int m (x / ?u)) :: rat) \<le> of_int (b ^ p)" by (simp only: of_int_le_iff)
  with u have "mag_round m b p x \<le> of_int (b ^ p) * ?u" by (intro mult_right_mono) auto
  with eq show ?thesis by simp
qed

lemma mag_round_lower:
  assumes b: "2 \<le> b" and p: "0 < p" and x: "0 < x"
  shows "of_int b powi (expo b x) \<le> mag_round m b p x"
proof -
  let ?u = "ulp b p x"
  have u: "0 < ?u" by (rule ulp_pos [OF b])
  have eq: "of_int (b ^ (p - 1)) * ?u = of_int b powi (expo b x)"
    using ulp_power' [OF b p, of x] by simp
  have "of_int (b ^ (p - 1)) \<le> x / ?u"
    using expo_bounds(1) [OF b x] u eq by (simp add: pos_le_divide_eq)
  from round_int_mono [OF this, of m] have "(b ^ (p - 1)) \<le> round_int m (x / ?u)"
    by (simp only: round_int_of_int)
  then have "(of_int (b ^ (p - 1)) :: rat) \<le> of_int (round_int m (x / ?u))" by (simp only: of_int_le_iff)
  with u have "of_int (b ^ (p - 1)) * ?u \<le> mag_round m b p x" by (intro mult_right_mono) auto
  with eq show ?thesis by simp
qed

lemma mag_round_mono:
  assumes b: "2 \<le> b" and p: "0 < p" and x: "0 < x" and xy: "x \<le> y"
  shows "mag_round m b p x \<le> mag_round m b p y"
proof (cases "expo b x = expo b y")
  case True
  then have u: "ulp b p x = ulp b p y" by (simp add: ulp_def)
  have "x / ulp b p y \<le> y / ulp b p y" using ulp_pos [OF b] xy by (simp add: divide_right_mono less_imp_le)
  then have "round_int m (x / ulp b p y) \<le> round_int m (y / ulp b p y)" by (rule round_int_mono)
  then show ?thesis unfolding u using ulp_pos [OF b, of p y] by (intro mult_right_mono) auto
next
  case False
  with expo_mono [OF b x xy] have "expo b x + 1 \<le> expo b y" by simp
  then have "(of_int b powi (expo b x + 1) :: rat) \<le> of_int b powi (expo b y)" by (rule powi_mono [OF b])
  with mag_round_upper [OF b x, of m p] mag_round_lower [OF b p, of y m] x xy show ?thesis by linarith
qed

lemma mag_round_nonneg: "2 \<le> b \<Longrightarrow> 0 < p \<Longrightarrow> 0 < x \<Longrightarrow> 0 \<le> mag_round m b p x"
proof -
  assume b: "2 \<le> b" and p: "0 < p" and x: "0 < x"
  have "0 \<le> (of_int b :: rat) powi expo b x" using b by simp
  also have "\<dots> \<le> mag_round m b p x" by (rule mag_round_lower [OF b p x])
  finally show ?thesis .
qed

lemma sig_round_mono:
  assumes b: "2 \<le> b" and p: "0 < p" and xy: "x \<le> y"
  shows "sig_round m b p x \<le> sig_round m b p y"
proof -
  have pos: "0 \<le> sig_round m b p z" if "0 \<le> z" for z
    using that mag_round_nonneg [OF b p, of z m] by (cases "z = 0") (auto simp: sig_round_pos)
  consider "0 < x" | "x \<le> 0" "0 \<le> y" | "y < 0" by linarith
  then show ?thesis
  proof cases
    case 1
    with xy mag_round_mono [OF b p 1 xy] show ?thesis by (simp add: sig_round_pos)
  next
    case 2
    from pos [OF 2(2)] pos [of "- x"] 2(1) show ?thesis by simp
  next
    case 3
    with xy mag_round_mono [OF b p, of "- y" "- x" m] have "sig_round m b p (- y) \<le> sig_round m b p (- x)"
      by (simp add: sig_round_pos del: sig_round_minus)
    then show ?thesis by simp
  qed
qed

text \<open>Integers of at most \<open>p\<close> digits are exact.\<close>

lemma mag_round_int:
  assumes b: "2 \<le> b" and p: "0 < p" and n: "0 < n" "n < b ^ p"
  shows "mag_round m b p (of_int n) = of_int n"
proof -
  let ?x = "of_int n :: rat"
  have x: "0 < ?x" using n(1) by simp
  have e: "expo b ?x + 1 \<le> int p"
  proof (rule ccontr)
    assume "\<not> ?thesis"
    then have "int p \<le> expo b ?x" by simp
    then have "(of_int b powi int p :: rat) \<le> of_int b powi expo b ?x" by (rule powi_mono [OF b])
    also have "\<dots> \<le> ?x" by (rule expo_bounds(1) [OF b x])
    finally have "(of_int (b ^ p) :: rat) \<le> of_int n" by simp
    then have "b ^ p \<le> n" by (simp only: of_int_le_iff)
    with n(2) show False by simp
  qed
  define k where "k = nat (int p - (expo b ?x + 1))"
  have "ulp b p ?x = of_int b powi (- int k)" using e by (simp add: ulp_def k_def)
  then have u: "ulp b p ?x = 1 / of_int (b ^ k)" by (simp add: power_int_minus divide_inverse)
  have "?x / ulp b p ?x = of_int (n * b ^ k)" by (simp add: u)
  then have "mag_round m b p ?x = of_int (n * b ^ k) / of_int (b ^ k)" by (simp only: round_int_of_int) (simp add: u)
  then show ?thesis using b by simp
qed

lemma sig_round_int:
  assumes b: "2 \<le> b" and p: "0 < p" and n: "\<bar>k\<bar> < (b ^ p)"
  shows "sig_round m b p (of_int k) = of_int k"
proof (cases "k = 0")
  case False
  have pos: "sig_round m b p (of_int j) = of_int j" if "0 < j" "j < (b ^ p)" for j :: int
  proof -
    from mag_round_int [OF b p that, of m] that show ?thesis by (simp add: sig_round_pos)
  qed
  show ?thesis
  proof (cases "0 < k")
    case True with n pos [of k] show ?thesis by simp
  next
    case neg: False
    with False n have "0 < - k" "- k < (b ^ p)" by auto
    from pos [OF this] show ?thesis by simp
  qed
qed simp

lemma sig_round_gt_0:
  assumes b: "2 \<le> b" and p: "0 < p" and x: "0 < x"
  shows "0 < sig_round m b p x"
proof -
  have "0 < (of_int b :: rat) powi expo b x" using b by simp
  also have "\<dots> \<le> sig_round m b p x" using mag_round_lower [OF b p x] x by (simp add: sig_round_pos)
  finally show ?thesis .
qed

section \<open>The interface of a rounding\<close>

text \<open>Rounding commutes with a shift by powers of the base, so it is exact on fixed-point numbers.\<close>

lemma expo_unique:
  assumes b: "2 \<le> b" and x: "0 < x" and e: "of_int b powi e \<le> x" "x < of_int b powi (e + 1)"
  shows "expo b x = e"
proof -
  note eb = expo_bounds [OF b x]
  have "\<not> expo b x + 1 \<le> e"
    using powi_mono [OF b, of "expo b x + 1" e] eb(2) e(1) by linarith
  moreover have "\<not> e + 1 \<le> expo b x"
    using powi_mono [OF b, of "e + 1" "expo b x"] eb(1) e(2) by linarith
  ultimately show ?thesis by simp
qed

lemma expo_shift:
  assumes b: "2 \<le> b" and x: "0 < x"
  shows "expo b (x * of_int b powi j) = expo b x + j"
proof (rule expo_unique [OF b])
  have bp: "(0::rat) < of_int b" using b by simp
  then have pos: "(0::rat) < of_int b powi j" by simp
  show "0 < x * of_int b powi j" using x pos by simp
  have "of_int b powi (expo b x + j) = of_int b powi expo b x * (of_int b powi j :: rat)"
    "of_int b powi (expo b x + j + 1) = of_int b powi (expo b x + 1) * (of_int b powi j :: rat)"
    using bp by (simp_all add: power_int_add algebra_simps)
  with expo_bounds [OF b x] pos
  show "of_int b powi (expo b x + j) \<le> x * of_int b powi j"
    "x * of_int b powi j < of_int b powi (expo b x + j + 1)" by (simp_all only: mult_le_cancel_right_pos mult_less_cancel_right_pos)
qed

lemma sig_round_shift:
  assumes b: "2 \<le> b"
  shows "sig_round m b p (x * of_int b powi j) = sig_round m b p x * of_int b powi j"
proof (cases "x = 0")
  case False
  have bp: "(0::rat) < of_int b" using b by simp
  then have pos: "(0::rat) < of_int b powi j" by simp
  have a: "\<bar>x * of_int b powi j\<bar> = \<bar>x\<bar> * of_int b powi j" using pos by (simp add: abs_mult)
  have "of_int b powi (expo b \<bar>x\<bar> + j + 1 - int p) = of_int b powi (expo b \<bar>x\<bar> + 1 - int p) * (of_int b powi j :: rat)"
    using bp by (simp add: power_int_add power_int_diff algebra_simps)
  then have u: "ulp b p (\<bar>x\<bar> * of_int b powi j) = ulp b p \<bar>x\<bar> * of_int b powi j"
    using False by (simp add: ulp_def expo_shift [OF b])
  have "sgn (x * of_int b powi j) = sgn x" using pos by (auto simp only: sgn_mult sgn_pos mult_1_right)
  with False pos show ?thesis by (simp add: sig_round_def Let_def a u)
qed simp

lemma sig_round_fixed_point:
  assumes "2 \<le> b" "0 < p" "\<bar>k\<bar> < b ^ p"
  shows "sig_round m b p (of_int k / of_int b ^ n) = of_int k / of_int b ^ n"
  using sig_round_shift [OF assms(1), of m p "of_int k" "- int n"] sig_round_int [OF assms, of m]
  by (simp add: power_int_minus field_simps)

text \<open>
  What the numeric code relies on: rounding is monotone and odd, never turns a positive result
  into zero, and leaves the integers below a limit alone.
\<close>

locale rounding =
  fixes rnd :: "rat \<Rightarrow> rat" and lim :: int
  assumes rnd_mono: "x \<le> y \<Longrightarrow> rnd x \<le> rnd y"
    and rnd_minus: "rnd (- x) = - rnd x"
    and rnd_gt_0: "0 < x \<Longrightarrow> 0 < rnd x"
    and rnd_int: "\<bar>k\<bar> < lim \<Longrightarrow> rnd (of_int k) = of_int k"
    and lim_gt: "10000000 < lim"
begin

lemma rnd_0 [simp]: "rnd 0 = 0"
  using rnd_int [of 0] lim_gt by simp

lemma rnd_numeral_le: "numeral n < lim \<Longrightarrow> rnd (numeral n) = numeral n"
  using rnd_int [of "numeral n"] by simp

lemma rnd_1 [simp]: "rnd 1 = 1"
  using rnd_int [of 1] lim_gt by simp

lemma rnd_ge_0: "0 \<le> x \<Longrightarrow> 0 \<le> rnd x"
  using rnd_mono [of 0 x] by simp

lemma rnd_le_0: "x \<le> 0 \<Longrightarrow> rnd x \<le> 0"
  using rnd_mono [of x 0] by simp

lemma rnd_le_0_iff: "rnd x \<le> 0 \<longleftrightarrow> x \<le> 0"
  using rnd_gt_0 [of x] rnd_le_0 [of x] by (cases "x \<le> 0") (simp, force)

lemma rnd_le_int: "x \<le> of_int k \<Longrightarrow> \<bar>k\<bar> < lim \<Longrightarrow> rnd x \<le> of_int k"
  using rnd_mono [of x "of_int k"] rnd_int [of k] by simp

lemma int_le_rnd: "of_int k \<le> x \<Longrightarrow> \<bar>k\<bar> < lim \<Longrightarrow> of_int k \<le> rnd x"
  using rnd_mono [of "of_int k" x] rnd_int [of k] by simp

lemma rnd_le_1: "x \<le> 1 \<Longrightarrow> rnd x \<le> 1"
  using rnd_mono [of x 1] by simp

end

text \<open>Amounts with eight decimal places and at most as many digits as fit.\<close>

definition fits8 :: "int \<Rightarrow> rat \<Rightarrow> bool" where
  "fits8 lims x \<longleftrightarrow> (\<exists>k. \<bar>k\<bar> < lims \<and> x = of_int k / 100000000)"

text \<open>Decimal arithmetic: also exact on amounts of money, which have eight decimal places in the database.\<close>

locale money_rounding = rounding +
  assumes rnd_8: "\<bar>k\<bar> < lim \<Longrightarrow> rnd (of_int k / 100000000) = of_int k / 100000000"
begin

lemma rnd_fits8: "fits8 lim x \<Longrightarrow> rnd x = x"
  unfolding fits8_def using rnd_8 by blast

end

definition f64 :: "rat \<Rightarrow> rat" where
  "f64 = sig_round HalfEven 2 53"

text \<open>The Prisma runtime's \<open>Decimal\<close> (defaults: 20 digits, half up) and the \<open>decimal.js\<close>
  context set in \<open>utils/decimalUtils.ts\<close> (28 digits, rounding down).\<close>

definition prisma_dec :: "rat \<Rightarrow> rat" where
  "prisma_dec = sig_round HalfUp 10 20"

definition money_dec :: "rat \<Rightarrow> rat" where
  "money_dec = sig_round Down 10 28"

lemma rounding_sig_round: "2 \<le> b \<Longrightarrow> 0 < p \<Longrightarrow> 10000000 < b ^ p \<Longrightarrow> rounding (sig_round m b p) (b ^ p)"
  by unfold_locales (auto simp: sig_round_mono sig_round_gt_0 sig_round_int)

interpretation f64: rounding f64 "2 ^ 53"
  unfolding f64_def by (rule rounding_sig_round) simp_all

interpretation prisma_dec: rounding prisma_dec "10 ^ 20"
  unfolding prisma_dec_def by (rule rounding_sig_round) simp_all

interpretation money_dec: rounding money_dec "10 ^ 28"
  unfolding money_dec_def by (rule rounding_sig_round) simp_all

interpretation prisma_money: money_rounding prisma_dec "10 ^ 20"
  using sig_round_fixed_point [of 10 20 _ HalfUp 8] by unfold_locales (simp add: prisma_dec_def)

interpretation money_money: money_rounding money_dec "10 ^ 28"
  using sig_round_fixed_point [of 10 28 _ Down 8] by unfold_locales (simp add: money_dec_def)

section \<open>Numbers with NaN and infinities\<close>

datatype jsnum = Fin rat | PosInf | NegInf | NaN

definition is_finite :: "jsnum \<Rightarrow> bool" where
  "is_finite n = (case n of Fin _ \<Rightarrow> True | _ \<Rightarrow> False)"

definition fin_val :: "jsnum \<Rightarrow> rat option" where
  "fin_val n = (case n of Fin q \<Rightarrow> Some q | _ \<Rightarrow> None)"

lemma is_finite_simps [simp]:
  "is_finite (Fin q)" "\<not> is_finite PosInf" "\<not> is_finite NegInf" "\<not> is_finite NaN"
  by (simp_all add: is_finite_def)

lemma is_finite_iff: "is_finite n \<longleftrightarrow> (\<exists>q. n = Fin q)"
  by (cases n) auto

text \<open>\<open>Math.round\<close> rounds halves towards plus infinity.\<close>

definition js_round :: "rat \<Rightarrow> int" where
  "js_round q = \<lfloor>q + 1 / 2\<rfloor>"

lemma js_round_of_int [simp]: "js_round (of_int k) = k"
  by (simp add: js_round_def floor_eq_iff)

lemma js_round_mono: "x \<le> y \<Longrightarrow> js_round x \<le> js_round y"
  unfolding js_round_def by (intro floor_mono) simp

lemma js_round_error: "\<bar>of_int (js_round q) - q\<bar> \<le> 1 / 2"
  unfolding js_round_def by linarith

end
