(* ===== verification/JsStr.thy ===== *)
theory JsStr
  imports JsNum "HOL-Library.Sublist"
begin

text \<open>
  The string operations of the JavaScript standard library that the source uses. A string
  is a \<open>char list\<close>; a \<open>char\<close> stands for one UTF-16 code unit below 256, so the model covers
  Latin-1 text, and \<open>length\<close> is the source's \<open>.length\<close>.
\<close>

section \<open>Characters\<close>

text \<open>White space and line terminators that \<open>trim\<close> removes, and \<open>\<backslash>s\<close> matches, below 256.\<close>

definition js_space :: "char \<Rightarrow> bool" where
  "js_space c \<longleftrightarrow> of_char c \<in> {9::int, 10, 11, 12, 13, 32, 160}"

definition is_digit :: "char \<Rightarrow> bool" where
  "is_digit c \<longleftrightarrow> 48 \<le> (of_char c :: int) \<and> (of_char c :: int) \<le> 57"

definition digit_val :: "char \<Rightarrow> int" where
  "digit_val c = of_char c - 48"

definition lower_char :: "char \<Rightarrow> char" where
  "lower_char c = (let n = of_char c :: nat in
     if 65 \<le> n \<and> n \<le> 90 \<or> 192 \<le> n \<and> n \<le> 222 \<and> n \<noteq> 215 then char_of (n + 32) else c)"

lemma digit_val_le: "is_digit c \<Longrightarrow> 0 \<le> digit_val c \<and> digit_val c \<le> 9"
  unfolding is_digit_def digit_val_def by simp

section \<open>Trimming, padding, splitting\<close>

definition trim_start :: "string \<Rightarrow> string" where
  "trim_start s = dropWhile js_space s"

definition trim_end :: "string \<Rightarrow> string" where
  "trim_end s = rev (dropWhile js_space (rev s))"

definition trim :: "string \<Rightarrow> string" where
  "trim s = trim_end (trim_start s)"

definition to_lower :: "string \<Rightarrow> string" where
  "to_lower s = map lower_char s"

definition pad_end :: "nat \<Rightarrow> char \<Rightarrow> string \<Rightarrow> string" where
  "pad_end n c s = s @ replicate (n - length s) c"

fun split_on :: "char \<Rightarrow> string \<Rightarrow> string list" where
  "split_on c [] = [[]]"
| "split_on c (x # xs) =
     (if x = c then [] # split_on c xs
      else (case split_on c xs of [] \<Rightarrow> [[x]] | w # ws \<Rightarrow> (x # w) # ws))"

lemma split_on_not_Nil [simp]: "split_on c s \<noteq> []"
  by (induction s) (auto split: list.splits)

lemma split_on_id: "c \<notin> set s \<Longrightarrow> split_on c s = [s]"
  by (induction s) auto

lemma split_on_append: "c \<notin> set w \<Longrightarrow> split_on c (w @ c # s) = w # split_on c s"
  by (induction w) auto

lemma trim_end_id: "s = [] \<or> \<not> js_space (last s) \<Longrightarrow> trim_end s = s"
  by (cases s rule: rev_cases) (auto simp: trim_end_def)

lemma trim_start_not_space: "trim_start s = [] \<or> \<not> js_space (hd (trim_start s))"
  unfolding trim_start_def by (metis hd_dropWhile)

lemma trim_id: "s = [] \<or> (\<not> js_space (hd s) \<and> \<not> js_space (last s)) \<Longrightarrow> trim s = s"
  by (cases s) (auto simp: trim_def trim_start_def trim_end_id)

lemma trim_end_append:
  "(\<exists>c \<in> set s. \<not> js_space c) \<Longrightarrow> hd (trim_end s) = hd s \<and> trim_end s \<noteq> []"
proof -
  assume ex: "\<exists>c \<in> set s. \<not> js_space c"
  have "s = trim_end s @ rev (takeWhile js_space (rev s))"
    unfolding trim_end_def by (metis rev_append rev_rev_ident takeWhile_dropWhile_id)
  moreover have ne: "trim_end s \<noteq> []"
    using ex unfolding trim_end_def by (auto simp: dropWhile_eq_Nil_conv)
  ultimately show ?thesis by (metis hd_append2)
qed

lemma trim_end_last: "trim_end s \<noteq> [] \<Longrightarrow> \<not> js_space (last (trim_end s))"
  unfolding trim_end_def by (metis hd_dropWhile last_rev rev_is_Nil_conv)

lemma trim_idem [simp]: "trim (trim s) = trim s"
proof (rule trim_id, cases "trim s = []")
  case False
  then have ne: "trim_start s \<noteq> []" by (auto simp: trim_def trim_end_def)
  then have "\<not> js_space (hd (trim_start s))" using trim_start_not_space [of s] by simp
  with ne have "\<exists>c \<in> set (trim_start s). \<not> js_space c" by (metis list.set_sel(1))
  then have "hd (trim s) = hd (trim_start s)" using trim_end_append by (simp add: trim_def)
  moreover have "\<not> js_space (last (trim s))" using False trim_end_last by (simp add: trim_def)
  ultimately show "trim s = [] \<or> \<not> js_space (hd (trim s)) \<and> \<not> js_space (last (trim s))"
    using \<open>\<not> js_space (hd (trim_start s))\<close> by simp
qed simp

section \<open>Decimal digits\<close>

fun digits_val :: "int \<Rightarrow> string \<Rightarrow> int" where
  "digits_val acc [] = acc"
| "digits_val acc (c # s) = digits_val (10 * acc + digit_val c) s"

lemma digits_val_acc: "digits_val acc s = acc * 10 ^ length s + digits_val 0 s"
proof (induction s arbitrary: acc)
  case (Cons c s)
  have "digits_val acc (c # s) = (10 * acc + digit_val c) * 10 ^ length s + digits_val 0 s"
    using Cons.IH [of "10 * acc + digit_val c"] by simp
  moreover have "digits_val 0 (c # s) = digit_val c * 10 ^ length s + digits_val 0 s"
    using Cons.IH [of "digit_val c"] by simp
  ultimately show ?case by (simp add: algebra_simps)
qed simp

lemma digits_val_append: "digits_val acc (s @ t) = digits_val (digits_val acc s) t"
  by (induction s arbitrary: acc) auto

lemma digits_val_bounds: "list_all is_digit s \<Longrightarrow> 0 \<le> digits_val 0 s \<and> digits_val 0 s < 10 ^ length s"
proof (induction s)
  case (Cons c s)
  then have IH: "0 \<le> digits_val 0 s" "digits_val 0 s < 10 ^ length s"
    and c: "0 \<le> digit_val c" "digit_val c \<le> 9" by (auto simp: digit_val_le)
  have "digit_val c * 10 ^ length s \<le> 9 * 10 ^ length s" using c by (intro mult_right_mono) auto
  with IH c have "0 \<le> digit_val c * 10 ^ length s + digits_val 0 s"
    and "digit_val c * 10 ^ length s + digits_val 0 s < 10 ^ Suc (length s)"
    by (simp, unfold power_Suc, linarith)
  with digits_val_acc [of "digit_val c" s] show ?case by simp
qed simp

lemma digits_val_zeros: "digits_val acc (replicate k (CHR ''0'')) = acc * 10 ^ k"
  by (induction k arbitrary: acc) (auto simp: digit_val_def algebra_simps)

text \<open>
  \<open>parseInt(s, 10)\<close>: leading white space, an optional sign, the longest run of digits; \<open>NaN\<close>
  when there is none. Whatever follows the digits is ignored.
\<close>

definition parse_int :: "string \<Rightarrow> jsnum" where
  "parse_int s =
     (let t = trim_start s;
          neg = (case t of c # _ \<Rightarrow> c = CHR ''-'' | [] \<Rightarrow> False);
          u = (case t of c # r \<Rightarrow> if c = CHR ''-'' \<or> c = CHR ''+'' then r else t | [] \<Rightarrow> []);
          ds = takeWhile is_digit u
      in if ds = [] then NaN
         else Fin (let v = f64 (of_int (digits_val 0 ds)) in if neg then - v else v))"

lemma digit_not_sign:
  "is_digit c \<Longrightarrow> c \<noteq> CHR ''-'' \<and> c \<noteq> CHR ''+'' \<and> \<not> js_space c \<and> c \<noteq> CHR ''.''"
  by (auto simp: is_digit_def js_space_def)

lemma takeWhile_all: "list_all P s \<Longrightarrow> takeWhile P s = s"
  by (simp add: list_all_iff takeWhile_eq_all_conv)

lemma parse_int_digits:
  assumes "s \<noteq> []" "list_all is_digit s"
  shows "parse_int s = Fin (f64 (of_int (digits_val 0 s)))"
proof -
  obtain c r where s: "s = c # r" using assms(1) by (cases s) auto
  with assms(2) have c: "is_digit c" by simp
  from digit_not_sign [OF c] s takeWhile_all [OF assms(2)] show ?thesis
    by (simp add: parse_int_def trim_start_def Let_def)
qed

text \<open>The pattern \<open>^\<backslash>d+(\<backslash>.\<backslash>d{1,n})?$\<close> (\<open>$\<close> without the \<open>m\<close> flag is the end of the input).\<close>

definition decimal_shape :: "nat \<Rightarrow> string \<Rightarrow> bool" where
  "decimal_shape n s =
     (let w = takeWhile is_digit s; r = dropWhile is_digit s in
      w \<noteq> [] \<and>
      (case r of [] \<Rightarrow> True
       | c # f \<Rightarrow> c = CHR ''.'' \<and> f \<noteq> [] \<and> length f \<le> n \<and> list_all is_digit f))"

text \<open>The number such a string denotes.\<close>

definition decimal_value :: "string \<Rightarrow> rat" where
  "decimal_value s =
     (let w = takeWhile is_digit s; f = tl (dropWhile is_digit s) in
      of_int (digits_val 0 w) + of_int (digits_val 0 f) / 10 ^ length f)"

lemma decimal_shapeE:
  assumes "decimal_shape n s"
  obtains (whole) "s \<noteq> []" "list_all is_digit s" "decimal_value s = of_int (digits_val 0 s)"
  | (frac) w f where "s = w @ CHR ''.'' # f" "w \<noteq> []" "list_all is_digit w" "f \<noteq> []"
      "length f \<le> n" "list_all is_digit f"
      "decimal_value s = of_int (digits_val 0 w) + of_int (digits_val 0 f) / 10 ^ length f"
proof -
  define w r where wr: "w = takeWhile is_digit s" "r = dropWhile is_digit s"
  have s: "s = w @ r" by (simp add: wr)
  have w: "list_all is_digit w" unfolding wr list_all_iff by (meson set_takeWhileD)
  show thesis
  proof (cases r)
    case Nil
    from Nil wr(2) have d: "dropWhile is_digit s = []" by simp
    from s Nil have sw: "w = s" by simp
    with wr(1) have t: "takeWhile is_digit s = s" by simp
    show thesis
    proof (rule whole)
      show "s \<noteq> []" using assms t by (simp add: decimal_shape_def Let_def)
      show "list_all is_digit s" using w sw by simp
      show "decimal_value s = of_int (digits_val 0 s)" by (simp add: decimal_value_def Let_def d t)
    qed
  next
    case (Cons c f)
    from Cons wr(2) have d: "dropWhile is_digit s = c # f" by simp
    have t: "takeWhile is_digit s = w" by (simp add: wr)
    from assms have g: "w \<noteq> []" "c = CHR ''.''" "f \<noteq> []" "length f \<le> n" "list_all is_digit f"
      by (simp_all add: decimal_shape_def Let_def d t)
    have v: "decimal_value s = of_int (digits_val 0 w) + of_int (digits_val 0 f) / 10 ^ length f"
      by (simp add: decimal_value_def Let_def d t)
    have "s = w @ CHR ''.'' # f" using s Cons g(2) by simp
    from frac [OF this g(1) w g(3-5) v] show thesis .
  qed
qed

lemma decimal_value_nonneg: "decimal_shape n s \<Longrightarrow> 0 \<le> decimal_value s"
  by (erule decimal_shapeE) (auto dest!: digits_val_bounds intro!: add_nonneg_nonneg)

definition str_includes :: "string \<Rightarrow> string \<Rightarrow> bool" where
  "str_includes s t = sublist t s"

definition starts_with :: "string \<Rightarrow> string \<Rightarrow> bool" where
  "starts_with s t = prefix t s"

section \<open>Numbers to strings and back\<close>

function int_str :: "int \<Rightarrow> string" where
  "int_str n = (if n < 10 then [char_of (48 + n)] else int_str (n div 10) @ [char_of (48 + n mod 10)])"
  by pat_completeness auto
termination
  by (relation "measure nat") auto

declare int_str.simps [simp del]

lemma digit_char:
  assumes "0 \<le> d" "d < 10"
  shows "is_digit (char_of (48 + d)) \<and> digit_val (char_of (48 + d)) = (d::int)"
proof -
  have "of_char (char_of (48 + d) :: char) = 48 + d" using assms by simp
  with assms show ?thesis by (simp add: is_digit_def digit_val_def)
qed

lemma int_str_digits: "0 \<le> n \<Longrightarrow> int_str n \<noteq> [] \<and> list_all is_digit (int_str n)"
proof (induction n rule: int_str.induct)
  case (1 n)
  then show ?case
    by (cases "n < 10") (simp_all add: int_str.simps [of n] digit_char)
qed

lemma digits_val_int_str: "0 \<le> n \<Longrightarrow> digits_val 0 (int_str n) = n"
proof (induction n rule: int_str.induct)
  case (1 n)
  show ?case
  proof (cases "n < 10")
    case True
    with "1.prems" digit_char [of n] show ?thesis by (simp add: int_str.simps [of n])
  next
    case False
    with 1 digit_char [of "n mod 10"] show ?thesis
      by (simp add: int_str.simps [of n] digits_val_append)
  qed
qed

text \<open>
  \<open>parseFloat\<close>: the longest prefix (after white space) that is a decimal literal, or
  \<open>Infinity\<close>; \<open>NaN\<close> when there is none.
\<close>

definition exponent_part :: "string \<Rightarrow> int" where
  "exponent_part r =
     (case r of [] \<Rightarrow> 0
      | c # u \<Rightarrow>
          if c = CHR ''e'' \<or> c = CHR ''E'' then
            (let neg = (case u of d # _ \<Rightarrow> d = CHR ''-'' | [] \<Rightarrow> False);
                 v = (case u of d # w \<Rightarrow> if d = CHR ''-'' \<or> d = CHR ''+'' then w else u | [] \<Rightarrow> []);
                 n = digits_val 0 (takeWhile is_digit v)
             in if neg then - n else n)
          else 0)"

definition parse_float :: "string \<Rightarrow> jsnum" where
  "parse_float s =
     (let t = trim_start s;
          neg = (case t of c # _ \<Rightarrow> c = CHR ''-'' | [] \<Rightarrow> False);
          u = (case t of c # r \<Rightarrow> if c = CHR ''-'' \<or> c = CHR ''+'' then r else t | [] \<Rightarrow> [])
      in if take 8 u = ''Infinity'' then (if neg then NegInf else PosInf)
         else
           (let w = takeWhile is_digit u;
                r = dropWhile is_digit u;
                f = (case r of c # v \<Rightarrow> if c = CHR ''.'' then takeWhile is_digit v else [] | [] \<Rightarrow> []);
                r' = (case r of c # v \<Rightarrow> if c = CHR ''.'' then dropWhile is_digit v else r | [] \<Rightarrow> []);
                m = of_int (digits_val 0 w) + of_int (digits_val 0 f) / 10 ^ length f :: rat
            in if w = [] \<and> f = [] then NaN
               else Fin (let v = f64 (m * 10 powi exponent_part r') in if neg then - v else v)))"

text \<open>
  \<open>String(x)\<close> for a finite \<open>x\<close> (ECMAScript \<open>Number::toString\<close>): the shortest digit string
  \<open>s\<close> of \<open>k\<close> digits with \<open>s * 10^(n - k)\<close> rounding to \<open>x\<close>, laid out by the position \<open>n\<close> of the
  decimal point. Seventeen digits always determine a double.
\<close>

definition round_near :: "rat \<Rightarrow> int" where
  "round_near q = round_int HalfEven q"

fun shortest_digits :: "nat \<Rightarrow> nat \<Rightarrow> int \<Rightarrow> rat \<Rightarrow> nat \<times> int \<times> int" where
  "shortest_digits 0 k n x = (k, n, round_near (x * 10 powi (int k - n)))"
| "shortest_digits (Suc fuel) k n x =
     (let s = round_near (x * 10 powi (int k - n)) in
      if f64 (of_int s * 10 powi (n - int k)) = x
      then (if s < 10 ^ k then (k, n, s) else (1, n + 1, 1))
      else shortest_digits fuel (Suc k) n x)"

definition js_num_str :: "rat \<Rightarrow> string" where
  "js_num_str x =
     (if x = 0 then ''0''
      else (let a = \<bar>x\<bar>; (k, n, s) = shortest_digits 16 1 (expo 10 a + 1) a; ds = int_str s;
                body =
                  (if int k \<le> n \<and> n \<le> 21 then ds @ replicate (nat (n - int k)) (CHR ''0'')
                   else if 0 < n \<and> n \<le> 21 then take (nat n) ds @ CHR ''.'' # drop (nat n) ds
                   else if - 6 < n \<and> n \<le> 0 then ''0.'' @ replicate (nat (- n)) (CHR ''0'') @ ds
                   else (let e = n - 1;
                             es = (if e < 0 then ''e-'' else ''e+'') @ int_str \<bar>e\<bar>
                         in if k = 1 then ds @ es else take 1 ds @ CHR ''.'' # drop 1 ds @ es))
            in (if x < 0 then CHR ''-'' # body else body)))"

text \<open>
  \<open>Number(s)\<close>: white space around is ignored, the empty string is 0, and the whole rest has to be a
  decimal literal, \<open>Infinity\<close> with a sign, or an unsigned literal with one of the prefixes 0x, 0o, 0b.
\<close>

definition exponent_shape :: "string \<Rightarrow> bool" where
  "exponent_shape r =
     (case r of [] \<Rightarrow> True
      | c # u \<Rightarrow>
          (c = CHR ''e'' \<or> c = CHR ''E'') \<and>
          (let v = (case u of d # w \<Rightarrow> if d = CHR ''-'' \<or> d = CHR ''+'' then w else u | [] \<Rightarrow> [])
           in v \<noteq> [] \<and> list_all is_digit v))"

definition number_shape :: "string \<Rightarrow> bool" where
  "number_shape t =
     (let u = (case t of c # r \<Rightarrow> if c = CHR ''-'' \<or> c = CHR ''+'' then r else t | [] \<Rightarrow> []);
          w = takeWhile is_digit u; r = dropWhile is_digit u;
          f = (case r of c # v \<Rightarrow> if c = CHR ''.'' then takeWhile is_digit v else [] | [] \<Rightarrow> []);
          r' = (case r of c # v \<Rightarrow> if c = CHR ''.'' then dropWhile is_digit v else r | [] \<Rightarrow> [])
      in u = ''Infinity'' \<or> (w \<noteq> [] \<or> f \<noteq> []) \<and> exponent_shape r')"

definition radix_digit :: "char \<Rightarrow> int" where
  "radix_digit c =
     (let n = of_char (lower_char c) in if is_digit c then n - 48 else if 97 \<le> n \<and> n \<le> 102 then n - 87 else 99)"

definition radix_value :: "int \<Rightarrow> string \<Rightarrow> jsnum" where
  "radix_value base ds =
     (if ds \<noteq> [] \<and> list_all (\<lambda>c. 0 \<le> radix_digit c \<and> radix_digit c < base) ds
      then Fin (f64 (of_int (foldl (\<lambda>acc c. base * acc + radix_digit c) 0 ds))) else NaN)"

definition js_number :: "string \<Rightarrow> jsnum" where
  "js_number s =
     (let t = trim s; pre = to_lower (take 2 t) in
      if t = [] then Fin 0
      else if pre = ''0x'' then radix_value 16 (drop 2 t)
      else if pre = ''0o'' then radix_value 8 (drop 2 t)
      else if pre = ''0b'' then radix_value 2 (drop 2 t)
      else if number_shape t then parse_float t
      else NaN)"

end
