(* ===== verification/TxStatus.thy ===== *)
theory TxStatus
  imports JsStr
begin

text \<open>
  \<open>src/utils/transactionStateMachine.ts\<close>: the statuses of a transaction row, the table of
  allowed transitions and the assertion that guards them. The interface of a ranked
  transition system (every step lowers a rank, so every run is finite) is a locale,
  interpreted on the table.
\<close>

section \<open>Statuses and transitions\<close>

datatype status = Pending | Processing | Completed | Failed | Refunded

definition status_name :: "status \<Rightarrow> string" where
  "status_name s = (case s of
     Pending \<Rightarrow> ''pending'' | Processing \<Rightarrow> ''processing'' | Completed \<Rightarrow> ''completed''
   | Failed \<Rightarrow> ''failed'' | Refunded \<Rightarrow> ''refunded'')"

definition TRANSACTION_STATUSES :: "status list" where
  "TRANSACTION_STATUSES = [Pending, Processing, Completed, Failed, Refunded]"

definition isTransactionStatus :: "string \<Rightarrow> bool" where
  "isTransactionStatus v = (v \<in> set (map status_name TRANSACTION_STATUSES))"

definition ALLOWED_TRANSITIONS :: "status \<Rightarrow> status list" where
  "ALLOWED_TRANSITIONS s = (case s of
     Pending \<Rightarrow> [Processing, Failed]
   | Processing \<Rightarrow> [Completed, Failed]
   | Completed \<Rightarrow> []
   | Failed \<Rightarrow> []
   | Refunded \<Rightarrow> [])"

datatype transition_error =
    UnknownSource string          \<comment> \<open>422\<close>
  | InvalidTransition string string  \<comment> \<open>409\<close>

definition transition_http :: "transition_error \<Rightarrow> nat" where
  "transition_http e = (case e of UnknownSource _ \<Rightarrow> 422 | InvalidTransition _ _ \<Rightarrow> 409)"

text \<open>The lookup \<open>ALLOWED_TRANSITIONS[from]\<close> is by the status's name; a name that is not a
  status has no entry.\<close>

definition status_of :: "string \<Rightarrow> status option" where
  "status_of v = find (\<lambda>s. status_name s = v) TRANSACTION_STATUSES"

definition assertValidTransition :: "string \<Rightarrow> string \<Rightarrow> transition_error + unit" where
  "assertValidTransition from_s to_s =
     (case status_of from_s of
        None \<Rightarrow> Inl (UnknownSource from_s)
      | Some s \<Rightarrow>
          if to_s \<notin> set (map status_name (ALLOWED_TRANSITIONS s))
          then Inl (InvalidTransition from_s to_s) else Inr ())"

definition isTerminalStatus :: "string \<Rightarrow> bool" where
  "isTerminalStatus v = (case status_of v of None \<Rightarrow> False | Some s \<Rightarrow> length (ALLOWED_TRANSITIONS s) = 0)"

lemma status_name_inj: "status_name s = status_name t \<Longrightarrow> s = t"
  by (cases s; cases t) (simp_all add: status_name_def)

lemma status_of_name [simp]: "status_of (status_name s) = Some s"
  by (cases s) (simp_all add: status_of_def TRANSACTION_STATUSES_def status_name_def)

lemma status_of_SomeD: "status_of v = Some s \<Longrightarrow> v = status_name s"
  unfolding status_of_def by (auto dest: find_SomeD)

lemma isTransactionStatus_iff: "isTransactionStatus v \<longleftrightarrow> (\<exists>s. v = status_name s)"
proof
  assume "isTransactionStatus v"
  then show "\<exists>s. v = status_name s" by (auto simp: isTransactionStatus_def)
next
  assume "\<exists>s. v = status_name s"
  then obtain s where "v = status_name s" by blast
  then show "isTransactionStatus v"
    by (cases s) (simp_all add: isTransactionStatus_def TRANSACTION_STATUSES_def)
qed

section \<open>Runs\<close>

text \<open>A step is a status update the assertion lets through.\<close>

inductive status_step :: "status \<Rightarrow> status \<Rightarrow> bool" where
  accepted: "assertValidTransition (status_name s) (status_name t) = Inr () \<Longrightarrow> status_step s t"

lemma assertValidTransition_iff:
  "assertValidTransition (status_name s) (status_name t) = Inr () \<longleftrightarrow> t \<in> set (ALLOWED_TRANSITIONS s)"
  by (auto simp: assertValidTransition_def dest: status_name_inj)

lemma status_step_iff: "status_step s t \<longleftrightarrow> t \<in> set (ALLOWED_TRANSITIONS s)"
  by (simp add: status_step.simps assertValidTransition_iff)

inductive_simps status_step_Pending: "status_step Pending t"
inductive_simps status_step_Completed: "status_step Completed t"

definition status_rank :: "status \<Rightarrow> nat" where
  "status_rank s = (case s of Pending \<Rightarrow> 2 | Processing \<Rightarrow> 1 | _ \<Rightarrow> 0)"

locale ranked_system =
  fixes step :: "'s \<Rightarrow> 's \<Rightarrow> bool" and rank :: "'s \<Rightarrow> nat"
  assumes rank_step: "step s t \<Longrightarrow> rank t < rank s"
begin

fun run :: "'s \<Rightarrow> 's list \<Rightarrow> bool" where
  "run s [] = True"
| "run s (t # ts) = (step s t \<and> run t ts)"

lemma run_length: "run s ts \<Longrightarrow> length ts \<le> rank s"
proof (induction ts arbitrary: s)
  case (Cons t ts)
  then have "length ts \<le> rank t" and "rank t < rank s" using rank_step by auto
  then show ?case by simp
qed simp

lemma rank_0_stuck: "rank s = 0 \<Longrightarrow> \<not> step s t"
  using rank_step [of s t] by auto

lemma run_from_stuck: "rank s = 0 \<Longrightarrow> run s ts \<Longrightarrow> ts = []"
  using run_length [of s ts] by simp

end

interpretation tx: ranked_system status_step status_rank
  by unfold_locales (auto simp: status_step_iff ALLOWED_TRANSITIONS_def status_rank_def split: status.splits)

text \<open>A sequence of statuses each of which is asserted from the one before.\<close>

fun status_run :: "status \<Rightarrow> status list \<Rightarrow> bool" where
  "status_run s [] = True"
| "status_run s (t # ts) =
     (is_ok (assertValidTransition (status_name s) (status_name t)) \<and> status_run t ts)"

lemma is_ok_unit: "is_ok (r :: 'e + unit) \<longleftrightarrow> r = Inr ()"
  by (cases r) auto

lemma status_run_eq: "status_run s ts \<longleftrightarrow> tx.run s ts"
  by (induction ts arbitrary: s) (auto simp: status_step.simps is_ok_unit)

lemma isTerminalStatus_iff: "isTerminalStatus (status_name s) \<longleftrightarrow> status_rank s = 0"
  by (cases s) (simp_all add: isTerminalStatus_def ALLOWED_TRANSITIONS_def status_rank_def)

lemma status_run_Pending:
  "status_run Pending ts \<longleftrightarrow>
   ts \<in> {[], [Failed], [Processing], [Processing, Completed], [Processing, Failed]}"
proof
  assume r: "status_run Pending ts"
  show "ts \<in> {[], [Failed], [Processing], [Processing, Completed], [Processing, Failed]}"
  proof (cases ts rule: remdups_adj.cases)
    case (3 s t us)
    with r have st: "s = Processing \<and> (t = Completed \<or> t = Failed)"
      by (auto simp: status_run_eq status_step_iff ALLOWED_TRANSITIONS_def)
    with r 3 have "us = []"
      by (intro tx.run_from_stuck [of t]) (auto simp: status_run_eq status_rank_def)
    with st 3 show ?thesis by auto
  qed (use r in \<open>auto simp: status_run_eq status_step_iff ALLOWED_TRANSITIONS_def\<close>)
qed (auto simp: status_run_eq status_step_iff ALLOWED_TRANSITIONS_def)

lemma status_run_Processing:
  "status_run Processing ts \<longleftrightarrow> ts \<in> {[], [Completed], [Failed]}"
proof
  assume r: "status_run Processing ts"
  then have "length ts \<le> 1" using tx.run_length [of Processing ts] by (simp add: status_run_eq status_rank_def)
  with r show "ts \<in> {[], [Completed], [Failed]}"
    by (cases ts) (auto simp: status_run_eq status_step_iff ALLOWED_TRANSITIONS_def)
qed (auto simp: status_run_eq status_step_iff ALLOWED_TRANSITIONS_def)

lemma status_run_settled:
  assumes "s = Completed \<or> s = Failed \<or> s = Refunded"
  shows "status_run s ts \<longleftrightarrow> ts = []"
  using assms tx.run_from_stuck [of s ts] by (auto simp: status_run_eq status_rank_def)

lemma isTerminalStatus_names: "isTerminalStatus v \<longleftrightarrow> v \<in> {''completed'', ''failed'', ''refunded''}"
proof (cases "status_of v")
  case None
  then have "\<forall>s. status_name s \<noteq> v" using status_of_name by fastforce
  then have "status_name Completed \<noteq> v" "status_name Failed \<noteq> v" "status_name Refunded \<noteq> v" by blast+
  with None show ?thesis by (auto simp: isTerminalStatus_def status_name_def)
next
  case (Some s)
  from status_of_SomeD [OF this] show ?thesis
    by (cases s) (simp_all add: isTerminalStatus_iff status_rank_def, simp_all add: status_name_def)
qed

lemma unknown_source_iff:
  "assertValidTransition v w = Inl (UnknownSource v)
     \<longleftrightarrow> v \<notin> {''pending'', ''processing'', ''completed'', ''failed'', ''refunded''}"
proof (cases "status_of v")
  case None
  then have "\<forall>s. status_name s \<noteq> v" using status_of_name by fastforce
  then have "status_name Pending \<noteq> v" "status_name Processing \<noteq> v" "status_name Completed \<noteq> v"
    "status_name Failed \<noteq> v" "status_name Refunded \<noteq> v" by blast+
  with None show ?thesis by (auto simp: assertValidTransition_def status_name_def)
next
  case (Some s)
  moreover from status_of_SomeD [OF Some] have "v \<in> {''pending'', ''processing'', ''completed'', ''failed'', ''refunded''}"
    by (cases s) (simp_all add: status_name_def)
  ultimately show ?thesis by (auto simp: assertValidTransition_def)
qed


text \<open>
  A row that starts as \<open>pending\<close> can become \<open>completed\<close> through asserted updates in exactly
  one way, by way of \<open>processing\<close>; it can never become \<open>refunded\<close> through them.
\<close>

theorem completed_only_via_processing:
  assumes "status_run Pending ts"
  shows "(Completed \<in> set ts \<longrightarrow> ts = [Processing, Completed]) \<and> Refunded \<notin> set ts"
  using assms by (auto simp: status_run_Pending)

theorem completed_only_via_processing_witness:
  "status_run Pending [Processing, Completed] \<and> Refunded \<notin> set [Processing, Completed]"
proof -
  have r: "status_run Pending [Processing, Completed]"
    by (simp add: assertValidTransition_def ALLOWED_TRANSITIONS_def)
  from r completed_only_via_processing [OF r] show ?thesis by blast
qed

end
