(* ===== verification/TxStore.thy ===== *)
theory TxStore
  imports TxStatus
begin

text \<open>
  The \<open>transactions\<close> table (\<open>model Transaction\<close> of \<open>prisma/schema.prisma\<close>) as the services
  see it through Prisma: the rows in insertion order, a generator of fresh ids, the unique
  index on \<open>idempotency_key\<close> (a violation is Prisma's error P2002), lookups and updates by id.
  The contract of a table with an optional unique key is the locale \<open>unique_table\<close>; the
  services' idempotency arguments are proved once inside it.
\<close>

section \<open>The contract of a table with a unique key\<close>

locale unique_table =
  fixes rows :: "'t \<Rightarrow> 'r list" and key :: "'r \<Rightarrow> 'k option"
    and insert_row :: "'r \<Rightarrow> 't \<Rightarrow> ('t \<times> 'r) option"
  assumes insert_fails:
      "insert_row r t = None \<longleftrightarrow> (\<exists>k. key r = Some k \<and> (\<exists>q \<in> set (rows t). key q = Some k))"
    and insert_rows: "insert_row r t = Some (t', r') \<Longrightarrow> rows t' = rows t @ [r']"
    and insert_key: "insert_row r t = Some (t', r') \<Longrightarrow> key r' = key r"
begin

definition lookup :: "'k \<Rightarrow> 't \<Rightarrow> 'r option" where
  "lookup k t = find (\<lambda>r. key r = Some k) (rows t)"

definition keys_unique :: "'t \<Rightarrow> bool" where
  "keys_unique t \<longleftrightarrow> distinct (List.map_filter key (rows t))"

lemma keys_in: "k \<in> set (List.map_filter key rs) \<longleftrightarrow> (\<exists>q \<in> set rs. key q = Some k)"
  by (force simp: List.map_filter_def)

lemma insert_keys_unique: "keys_unique t \<Longrightarrow> insert_row r t = Some (t', r') \<Longrightarrow> keys_unique t'"
  using insert_fails [of r t] insert_rows [of r t t' r'] insert_key [of r t t' r'] keys_in [of _ "rows t"]
  by (auto simp: keys_unique_def List.map_filter_def)

lemma lookup_None_insert: "lookup k t = None \<Longrightarrow> key r = Some k \<Longrightarrow> insert_row r t \<noteq> None"
  by (auto simp: insert_fails lookup_def find_None_iff')

lemma lookup_after_insert:
  "lookup k t = None \<Longrightarrow> insert_row r t = Some (t', r') \<Longrightarrow> key r = Some k \<Longrightarrow> lookup k t' = Some r'"
  using insert_rows [of r t t' r'] insert_key [of r t t' r'] by (simp add: lookup_def find_append)

lemma lookup_survives_insert:
  "lookup k t = Some q \<Longrightarrow> insert_row r t = Some (t', r') \<Longrightarrow> lookup k t' = Some q"
  using insert_rows [of r t t' r'] by (simp add: lookup_def find_append)

lemma insert_same_key_fails:
  "insert_row r t = Some (t', r') \<Longrightarrow> key r = Some k \<Longrightarrow> key r2 = Some k \<Longrightarrow> insert_row r2 t' = None"
  using insert_rows [of r t t' r'] insert_key [of r t t' r'] by (auto simp: insert_fails)

lemma count_key_le_1:
  assumes "keys_unique t"
  shows "length (filter (\<lambda>r. key r = Some k) (rows t)) \<le> 1"
proof -
  have "distinct (List.map_filter key rs) \<Longrightarrow> length (filter (\<lambda>r. key r = Some k) rs) \<le> 1" for rs
  proof (induction rs)
    case (Cons r rs)
    show ?case
    proof (cases "key r = Some k")
      case True
      with Cons.prems have "k \<notin> set (List.map_filter key rs)"
        by (simp add: List.map_filter_def)
      then have "\<forall>q \<in> set rs. key q \<noteq> Some k" by (simp add: keys_in)
      then show ?thesis using True by (simp add: filter_False)
    next
      case False
      with Cons show ?thesis by (auto simp: List.map_filter_def split: option.splits if_splits)
    qed
  qed simp
  with assms show ?thesis by (simp add: keys_unique_def)
qed

end

section \<open>Rows\<close>

datatype tx_type = TMint | TBurn | TTransfer | TBillPayment | TAccrual | TOther string

record txn =
  tx_id :: nat
  tx_user :: "string option"
  tx_org :: "string option"
  tx_key :: "string option"
  tx_type :: tx_type
  tx_status :: status
  usdc_amount :: "rat option"
  amount_usd :: "rat option"
  acbu_amount :: "rat option"
  acbu_burned :: "rat option"
  local_currency :: "string option"
  local_amount :: "rat option"
  recipient_address :: "string option"
  tx_hash :: "string option"
  fintech_provider :: "string option"
  created_at :: int
  completed_at :: "int option"

definition new_txn :: "tx_type \<Rightarrow> status \<Rightarrow> int \<Rightarrow> txn" where
  "new_txn ty st now = \<lparr>tx_id = 0, tx_user = None, tx_org = None, tx_key = None, tx_type = ty,
     tx_status = st, usdc_amount = None, amount_usd = None, acbu_amount = None, acbu_burned = None,
     local_currency = None, local_amount = None, recipient_address = None, tx_hash = None,
     fintech_provider = None, created_at = now, completed_at = None\<rparr>"

record txdb =
  tx_rows :: "txn list"
  tx_next :: nat

section \<open>Operations\<close>

text \<open>\<open>prisma.transaction.create\<close>: \<open>None\<close> is the unique violation P2002. Ids are generated by
  the database; the model numbers them.\<close>

definition create_tx :: "txn \<Rightarrow> txdb \<Rightarrow> (txdb \<times> txn) option" where
  "create_tx r db =
     (if tx_key r \<noteq> None \<and> (\<exists>q \<in> set (tx_rows db). tx_key q = tx_key r) then None
      else let r' = r\<lparr>tx_id := tx_next db\<rparr> in
        Some (\<lparr>tx_rows = tx_rows db @ [r'], tx_next = Suc (tx_next db)\<rparr>, r'))"

text \<open>\<open>prisma.transaction.findUnique({ where: { idempotencyKey } })\<close>, \<open>findFirst\<close> on other conditions,
  \<open>update({ where: { id } })\<close>.\<close>

definition find_tx_by_key :: "string \<Rightarrow> txdb \<Rightarrow> txn option" where
  "find_tx_by_key k db = find (\<lambda>r. tx_key r = Some k) (tx_rows db)"

definition find_tx :: "nat \<Rightarrow> txdb \<Rightarrow> txn option" where
  "find_tx i db = find (\<lambda>r. tx_id r = i) (tx_rows db)"

definition update_tx :: "nat \<Rightarrow> (txn \<Rightarrow> txn) \<Rightarrow> txdb \<Rightarrow> txdb" where
  "update_tx i f db = db\<lparr>tx_rows := map (\<lambda>r. if tx_id r = i then f r else r) (tx_rows db)\<rparr>"

interpretation txtab: unique_table tx_rows tx_key create_tx
  by unfold_locales (auto simp: create_tx_def Let_def split: if_splits)

text \<open>Ids are fresh: the table invariant of generated ids.\<close>

definition tx_inv :: "txdb \<Rightarrow> bool" where
  "tx_inv db \<longleftrightarrow> (\<forall>r \<in> set (tx_rows db). tx_id r < tx_next db) \<and> distinct (map tx_id (tx_rows db))
     \<and> txtab.keys_unique db"

definition empty_db :: txdb where
  "empty_db = \<lparr>tx_rows = [], tx_next = 0\<rparr>"

lemma tx_inv_empty: "tx_inv empty_db"
  by (simp add: tx_inv_def empty_db_def txtab.keys_unique_def List.map_filter_def)

lemma create_tx_rows [store_simps]:
  "create_tx r db = Some (db', r') \<Longrightarrow> tx_rows db' = tx_rows db @ [r'] \<and> r' = r\<lparr>tx_id := tx_next db\<rparr>
     \<and> tx_next db' = Suc (tx_next db)"
  by (auto simp: create_tx_def Let_def split: if_splits)

lemma create_tx_inv: "tx_inv db \<Longrightarrow> create_tx r db = Some (db', r') \<Longrightarrow> tx_inv db'"
proof -
  assume inv: "tx_inv db" and c: "create_tx r db = Some (db', r')"
  from inv c have "txtab.keys_unique db'" by (auto simp: tx_inv_def intro: txtab.insert_keys_unique)
  with inv create_tx_rows [OF c] show ?thesis by (fastforce simp: tx_inv_def)
qed

lemma create_tx_Some: "tx_key r = None \<Longrightarrow> create_tx r db = Some (\<lparr>tx_rows = tx_rows db @ [r\<lparr>tx_id := tx_next db\<rparr>], tx_next = Suc (tx_next db)\<rparr>, r\<lparr>tx_id := tx_next db\<rparr>)"
  by (simp add: create_tx_def Let_def)

lemma find_tx_by_key_lookup: "find_tx_by_key k db = txtab.lookup k db"
  by (simp add: find_tx_by_key_def txtab.lookup_def)

lemma update_tx_next [simp]: "tx_next (update_tx i f db) = tx_next db"
  by (simp add: update_tx_def)

lemma update_tx_length [simp]: "length (tx_rows (update_tx i f db)) = length (tx_rows db)"
  by (simp add: update_tx_def)

lemma update_tx_keys:
  assumes "\<And>r. tx_key (f r) = tx_key r" "\<And>r. tx_id (f r) = tx_id r"
  shows "map tx_key (tx_rows (update_tx i f db)) = map tx_key (tx_rows db)"
    and "map tx_id (tx_rows (update_tx i f db)) = map tx_id (tx_rows db)"
  using assms by (simp_all add: update_tx_def)

lemma update_tx_inv:
  assumes "tx_inv db" "\<And>r. tx_key (f r) = tx_key r" "\<And>r. tx_id (f r) = tx_id r"
  shows "tx_inv (update_tx i f db)"
proof -
  have mf: "List.map_filter tx_key rs = map the (filter (\<lambda>k. k \<noteq> None) (map tx_key rs))" for rs
    by (simp add: List.map_filter_def filter_map comp_def)
  have "List.map_filter tx_key (tx_rows (update_tx i f db)) = List.map_filter tx_key (tx_rows db)"
    by (simp only: mf update_tx_keys [OF assms(2,3)])
  moreover have "set (map tx_id (tx_rows (update_tx i f db))) = set (map tx_id (tx_rows db))"
    by (simp only: update_tx_keys [OF assms(2,3)])
  moreover have "\<forall>r \<in> set (tx_rows (update_tx i f db)). tx_id r < tx_next db"
    using assms(1,3) by (auto simp: update_tx_def tx_inv_def)
  ultimately show ?thesis
    using assms(1) update_tx_keys(2) [OF assms(2,3), of i db]
    by (simp add: tx_inv_def txtab.keys_unique_def)
qed

lemma find_update_other:
  assumes "\<And>r. tx_id (f r) = tx_id r" "i \<noteq> j"
  shows "find_tx j (update_tx i f db) = find_tx j db"
proof -
  have "find (\<lambda>r. tx_id r = j) (map (\<lambda>r. if tx_id r = i then f r else r) rs) = find (\<lambda>r. tx_id r = j) rs" for rs
    using assms by (induction rs) auto
  then show ?thesis by (simp add: find_tx_def update_tx_def)
qed

lemma find_update_same:
  assumes "\<And>r. tx_id (f r) = tx_id r"
  shows "find_tx i (update_tx i f db) = map_option f (find_tx i db)"
proof -
  have "find (\<lambda>r. tx_id r = i) (map (\<lambda>r. if tx_id r = i then f r else r) rs)
      = map_option f (find (\<lambda>r. tx_id r = i) rs)" for rs
    using assms by (induction rs) auto
  then show ?thesis by (simp add: find_tx_def update_tx_def)
qed

lemma find_created:
  "tx_inv db \<Longrightarrow> create_tx r db = Some (db', r') \<Longrightarrow> find_tx (tx_id r') db' = Some r'"
proof -
  assume inv: "tx_inv db" and c: "create_tx r db = Some (db', r')"
  from create_tx_rows [OF c] have eq: "tx_rows db' = tx_rows db @ [r']" "tx_id r' = tx_next db" by auto
  with inv have "find (\<lambda>q. tx_id q = tx_id r') (tx_rows db) = None"
    by (auto simp: find_None_iff' tx_inv_def)
  with eq show ?thesis by (simp add: find_tx_def find_append)
qed

lemma find_tx_old:
  "tx_inv db \<Longrightarrow> create_tx r db = Some (db', r') \<Longrightarrow> i \<noteq> tx_id r' \<Longrightarrow> find_tx i db' = find_tx i db"
  using create_tx_rows [of r db db' r'] by (auto simp: find_tx_def find_append split: option.splits)

section \<open>Rows persist\<close>

text \<open>
  No service deletes a transaction row or rewrites its identity: between two states of the table the
  old rows are a prefix, up to fields other than id, owner, key, type and amount.
\<close>

definition tx_ident :: "txn \<Rightarrow> nat \<times> string option \<times> string option \<times> tx_type \<times> rat option" where
  "tx_ident r = (tx_id r, tx_user r, tx_key r, tx_type r, acbu_amount r)"

definition tx_extends :: "txdb \<Rightarrow> txdb \<Rightarrow> bool" where
  "tx_extends db db' \<longleftrightarrow> (\<exists>new. map tx_ident (tx_rows db') = map tx_ident (tx_rows db) @ new)"

lemma tx_extends_refl [simp]: "tx_extends db db"
  by (simp add: tx_extends_def)

lemma tx_extends_trans: "tx_extends a b \<Longrightarrow> tx_extends b c \<Longrightarrow> tx_extends a c"
  by (auto simp: tx_extends_def)

lemma tx_extends_create: "create_tx r db = Some (db', r') \<Longrightarrow> tx_extends db db'"
  using create_tx_rows [of r db db' r'] by (auto simp: tx_extends_def)

lemma tx_extends_update:
  assumes "\<And>r. tx_ident (f r) = tx_ident r"
  shows "tx_extends db (update_tx i f db)"
proof -
  have "map tx_ident (tx_rows (update_tx i f db)) = map tx_ident (tx_rows db)"
    using assms by (simp add: update_tx_def)
  then show ?thesis by (simp add: tx_extends_def)
qed

lemma find_ident:
  assumes "\<And>r. P r = Q (tx_ident r)"
  shows "map_option tx_ident (find P rs) = find Q (map tx_ident rs)"
  using assms by (induction rs) auto

text \<open>A lookup that depends on the identity of rows only, once it has found a row, finds that row ever
  after.\<close>

lemma find_extends:
  assumes P: "\<And>r. P r = Q (tx_ident r)" and e: "tx_extends db db'" and f: "find P (tx_rows db) = Some r"
  shows "\<exists>r'. find P (tx_rows db') = Some r' \<and> tx_ident r' = tx_ident r"
proof -
  from e obtain new where "map tx_ident (tx_rows db') = map tx_ident (tx_rows db) @ new"
    by (auto simp: tx_extends_def)
  moreover have "find Q (map tx_ident (tx_rows db)) = Some (tx_ident r)"
    using find_ident [of P Q "tx_rows db"] P f by simp
  ultimately have "find Q (map tx_ident (tx_rows db')) = Some (tx_ident r)"
    by (simp add: find_append)
  then have "map_option tx_ident (find P (tx_rows db')) = Some (tx_ident r)"
    using find_ident [of P Q "tx_rows db'"] P by simp
  then show ?thesis by auto
qed

section \<open>Recording a hash\<close>

text \<open>
  \<open>prisma.transaction.update\<close> that sets \<open>blockchainTxHash\<close>: \<open>None\<close> when another row of the same type
  holds the hash (\<open>@@unique([type, blockchainTxHash])\<close>).
\<close>

definition complete_tx :: "nat \<Rightarrow> string \<Rightarrow> int \<Rightarrow> txdb \<Rightarrow> txdb option" where
  "complete_tx i h now db =
     (case find_tx i db of
        None \<Rightarrow> None
      | Some r \<Rightarrow>
          if \<exists>q \<in> set (tx_rows db). tx_id q \<noteq> i \<and> tx_type q = tx_type r \<and> tx_hash q = Some h then None
          else Some (update_tx i (\<lambda>r. r\<lparr>tx_status := Completed, tx_hash := Some h, completed_at := Some now\<rparr>) db))"

lemma complete_tx_SomeD:
  "complete_tx i h now db = Some db' \<Longrightarrow>
     db' = update_tx i (\<lambda>r. r\<lparr>tx_status := Completed, tx_hash := Some h, completed_at := Some now\<rparr>) db"
  by (auto simp: complete_tx_def split: option.splits if_splits)

lemma tx_extends_complete: "complete_tx i h now db = Some db' \<Longrightarrow> tx_extends db db'"
  by (auto dest!: complete_tx_SomeD intro!: tx_extends_update simp: tx_ident_def)

end
