(* ===== verification/Recipient.thy ===== *)
theory Recipient
  imports JsStr
begin

text \<open>
  The \<open>users\<close> table as far as the services read it, and
  \<open>src/services/recipient/recipientResolver.ts\<close>: normalisation of a recipient query, masking
  of contact data, alias resolution under the privacy flag. \<open>isValidStellarAddress\<close> (the
  checksum test of the Stellar SDK) is a parameter.
\<close>

record user =
  u_id :: string
  username :: "string option"
  phone_e164 :: "string option"
  email :: "string option"
  hide_from_search :: bool
  stellar_address :: "string option"
  wallet_version :: int
  kyc_status :: string
  encrypted_secret :: "string option"
  key_hint :: "string option"

definition find_user :: "string \<Rightarrow> user list \<Rightarrow> user option" where
  "find_user i us = find (\<lambda>u. u_id u = i) us"

text \<open>A JavaScript value that is \<open>null\<close>, \<open>undefined\<close> or the empty string is falsy.\<close>

definition truthy :: "string option \<Rightarrow> bool" where
  "truthy s = (case s of None \<Rightarrow> False | Some t \<Rightarrow> t \<noteq> [])"

section \<open>Queries\<close>

datatype query = QUsername string | QPhone string | QEmail string | QAddress string

datatype query_error = QueryRequired

definition strip_spaces :: "string \<Rightarrow> string" where
  "strip_spaces s = filter (\<lambda>c. \<not> js_space c) s"

text \<open>\<open>/^\<backslash>+[0-9]{10,15}$/\<close> and \<open>/^G[A-Z2-7]+$/\<close>.\<close>

definition e164 :: "string \<Rightarrow> bool" where
  "e164 s = (case s of [] \<Rightarrow> False
     | c # d \<Rightarrow> c = CHR ''+'' \<and> list_all is_digit d \<and> 10 \<le> length d \<and> length d \<le> 15)"

definition base32_char :: "char \<Rightarrow> bool" where
  "base32_char c \<longleftrightarrow> (let n = of_char c :: int in 65 \<le> n \<and> n \<le> 90 \<or> 50 \<le> n \<and> n \<le> 55)"

definition address_shape :: "string \<Rightarrow> bool" where
  "address_shape s = (case s of [] \<Rightarrow> False
     | c # d \<Rightarrow> c = CHR ''G'' \<and> d \<noteq> [] \<and> list_all base32_char d)"

definition STELLAR_ADDRESS_LENGTH :: nat where
  "STELLAR_ADDRESS_LENGTH = 56"

definition normalizeRecipientQuery :: "string \<Rightarrow> query_error + query" where
  "normalizeRecipientQuery q =
     (let trimmed = trim q in
      if trimmed = [] then Inl QueryRequired
      else
        let lower = to_lower trimmed in
        if starts_with lower ''@'' then Inr (QUsername (strip_spaces (drop 1 lower)))
        else if starts_with trimmed ''+'' \<and> e164 trimmed then Inr (QPhone trimmed)
        else if str_includes trimmed ''@'' \<and> str_includes trimmed ''.'' then Inr (QEmail lower)
        else if length trimmed = STELLAR_ADDRESS_LENGTH \<and> address_shape trimmed then Inr (QAddress trimmed)
        else Inr (QUsername (strip_spaces lower)))"

section \<open>Masking\<close>

definition maskPhone :: "string option \<Rightarrow> string option" where
  "maskPhone p = (case p of None \<Rightarrow> None
     | Some s \<Rightarrow> if length s < 6 then None
               else Some (take 4 s @ ''****'' @ drop (length s - 4) s))"

text \<open>\<open>const [local, domain] = email.split("@")\<close>: the first two parts.\<close>

definition maskEmail :: "string option \<Rightarrow> string option" where
  "maskEmail e = (case e of None \<Rightarrow> None
     | Some s \<Rightarrow>
         if s = [] \<or> \<not> str_includes s ''@'' then None
         else
           let parts = split_on (CHR ''@'') s; loc = hd parts; domain = parts ! 1 in
           if length loc \<le> 2 then Some (''**@'' @ domain)
           else Some (take 2 loc @ ''***@'' @ domain))"

section \<open>Resolution\<close>

record resolve_result =
  r_user_id :: string
  display_name :: string
  can_receive :: bool
  r_username :: "string option"
  masked_phone :: "string option"
  masked_email :: "string option"

definition matches :: "query \<Rightarrow> user \<Rightarrow> bool" where
  "matches qr u = (case qr of
     QUsername v \<Rightarrow> username u = Some v
   | QPhone v \<Rightarrow> phone_e164 u = Some v
   | QEmail v \<Rightarrow> email u = Some v
   | QAddress _ \<Rightarrow> False)"

text \<open>\<open>contacts\<close> holds the pairs (userId, contactUserId) of the \<open>user_contacts\<close> table.\<close>

definition resolveRecipient ::
  "user list \<Rightarrow> (string \<times> string) list \<Rightarrow> string \<Rightarrow> string option \<Rightarrow> query_error + resolve_result option" where
  "resolveRecipient users contacts q caller =
     bindR (normalizeRecipientQuery q) (\<lambda>parsed.
       case parsed of
         QAddress _ \<Rightarrow> Inr None
       | _ \<Rightarrow>
         (case find (matches parsed) users of
            None \<Rightarrow> Inr None
          | Some u \<Rightarrow>
            if hide_from_search u \<and> caller \<noteq> Some (u_id u)
               \<and> \<not> (truthy caller \<and> (u_id u, the caller) \<in> set contacts)
            then Inr None
            else Inr (Some \<lparr>
              r_user_id = u_id u,
              display_name =
                (if truthy (username u) then CHR ''@'' # the (username u)
                 else if truthy (phone_e164 u) then the (phone_e164 u)
                 else if truthy (email u) then the (email u)
                 else take 8 (u_id u)),
              can_receive = True,
              r_username = (if truthy (username u) then username u else None),
              masked_phone = (if truthy (phone_e164 u) then maskPhone (phone_e164 u) else None),
              masked_email = (if truthy (email u) then maskEmail (email u) else None)\<rparr>)))"

definition resolveRecipientToStellarAddress ::
  "(string \<Rightarrow> bool) \<Rightarrow> user list \<Rightarrow> (string \<times> string) list \<Rightarrow> string \<Rightarrow> string option
     \<Rightarrow> query_error + string option" where
  "resolveRecipientToStellarAddress valid users contacts q caller =
     bindR (normalizeRecipientQuery q) (\<lambda>parsed.
       case parsed of
         QAddress v \<Rightarrow> Inr (if valid v then Some v else None)
       | _ \<Rightarrow>
         bindR (resolveRecipient users contacts q caller) (\<lambda>res.
           case res of
             None \<Rightarrow> Inr None
           | Some r \<Rightarrow>
               (let address = Option.bind (find_user (r_user_id r) users) stellar_address in
                if \<not> truthy address then Inr None
                else if \<not> valid (the address) then Inr None
                else Inr address)))"

section \<open>Lemmas\<close>

lemma find_user_SomeD: "find_user i us = Some u \<Longrightarrow> u \<in> set us \<and> u_id u = i"
  unfolding find_user_def by (auto dest: find_SomeD)

lemma truthyE: "truthy s \<Longrightarrow> (\<And>t. s = Some t \<Longrightarrow> t \<noteq> [] \<Longrightarrow> P) \<Longrightarrow> P"
  by (cases s) (auto simp: truthy_def)

text \<open>What a non-empty answer says about the user it was made from.\<close>

lemma resolveRecipient_SomeD:
  assumes "resolveRecipient users contacts q caller = Inr (Some r)"
  obtains u parsed where "normalizeRecipientQuery q = Inr parsed" "u \<in> set users" "matches parsed u"
    "r_user_id r = u_id u"
    "hide_from_search u \<Longrightarrow> caller = Some (u_id u) \<or> (\<exists>c. caller = Some c \<and> (u_id u, c) \<in> set contacts)"
    "masked_phone r = (if truthy (phone_e164 u) then maskPhone (phone_e164 u) else None)"
    "masked_email r = (if truthy (email u) then maskEmail (email u) else None)"
proof -
  from assms obtain parsed where p: "normalizeRecipientQuery q = Inr parsed"
    by (auto simp: resolveRecipient_def bindR_Inr_iff)
  have na: "\<not> (\<exists>v. parsed = QAddress v)" using assms p by (auto simp: resolveRecipient_def)
  from assms p na obtain u where f: "find (matches parsed) users = Some u"
    by (cases parsed) (auto simp: resolveRecipient_def split: option.splits)
  from assms p na f have
    h: "hide_from_search u \<Longrightarrow> caller = Some (u_id u) \<or> (\<exists>c. caller = Some c \<and> (u_id u, c) \<in> set contacts)"
    and r: "r_user_id r = u_id u"
      "masked_phone r = (if truthy (phone_e164 u) then maskPhone (phone_e164 u) else None)"
      "masked_email r = (if truthy (email u) then maskEmail (email u) else None)"
    by (cases parsed; force simp: resolveRecipient_def elim!: truthyE split: if_splits)+
  from find_SomeD [OF f] show thesis by (intro that [OF p _ _ r(1) h r(2,3)]) auto
qed

text \<open>
  Privacy of alias resolution: a user who set \<open>privacyHideFromSearch\<close> is resolved only for
  themselves or for a caller listed among their contacts; every other caller, and an anonymous one,
  gets the same answer as for an alias that does not exist.
\<close>

theorem hidden_users_not_resolved:
  assumes "resolveRecipient users contacts q caller = Inr (Some r)"
  shows "\<exists>u \<in> set users. r_user_id r = u_id u \<and>
    (\<not> hide_from_search u \<or> caller = Some (u_id u) \<or>
     (\<exists>c. caller = Some c \<and> (u_id u, c) \<in> set contacts))"
  using assms by (rule resolveRecipient_SomeD) blast

definition sample_users :: "user list" where
  "sample_users =
     [\<lparr>u_id = ''u1'', username = Some ''jane'', phone_e164 = Some ''+2348012345678'', email = None,
       hide_from_search = True, stellar_address = Some ''GJANE'', wallet_version = 3,
       kyc_status = ''verified'', encrypted_secret = None, key_hint = None\<rparr>,
      \<lparr>u_id = ''u2'', username = Some ''bob'', phone_e164 = None, email = Some ''bob@x.org'',
       hide_from_search = False, stellar_address = Some ''GBOB'', wallet_version = 0,
       kyc_status = ''verified'', encrypted_secret = None, key_hint = None\<rparr>]"

theorem hidden_users_not_resolved_witness:
  "is_ok (resolveRecipient sample_users [(''u1'', ''u2'')] '' @Jane '' (Some ''u2''))
   \<and> resolveRecipient sample_users [] ''@jane'' (Some ''u2'') = Inr None
   \<and> (\<exists>u \<in> set sample_users. u_id u = ''u1'')"
proof -
  define r where "r = resolveRecipient sample_users [(''u1'', ''u2'')] '' @Jane '' (Some ''u2'')"
  have "case r of Inr (Some x) \<Rightarrow> r_user_id x = ''u1'' | _ \<Rightarrow> False" unfolding r_def by code_simp
  then have ok: "\<exists>x. r = Inr (Some x) \<and> r_user_id x = ''u1''" by (auto split: sum.splits option.splits)
  have none: "resolveRecipient sample_users [] ''@jane'' (Some ''u2'') = Inr None" by code_simp
  from ok obtain x where x: "r = Inr (Some x)" "r_user_id x = ''u1''" by blast
  from hidden_users_not_resolved [OF x(1) [unfolded r_def]] x none show ?thesis
    unfolding r_def [symmetric] by auto
qed

end
