(* ===== verification/Wallet.thy ===== *)
theory Wallet
  imports Recipient
begin

text \<open>
  Optimistic concurrency on wallets: \<open>src/utils/walletConcurrency.ts\<close> (ETag header values) and
  \<open>src/services/wallet/walletStateService.ts\<close> (version reservation, the balance cache, the
  balance read). Horizon's account lookup and the wall clock are parameters. The contract of a
  versioned record (compare-and-set on the version) is the locale \<open>version_lock\<close>.
\<close>

section \<open>ETags\<close>

abbreviation dquote :: char where
  "dquote \<equiv> CHR 0x22"

definition formatWalletEtag :: "int \<Rightarrow> string" where
  "formatWalletEtag version = dquote # int_str version @ [dquote]"

text \<open>The pattern \<open>^W/"(.+)"$|^"(.+)"$\<close>; a dot matches anything but a line terminator.\<close>

definition dot_char :: "char \<Rightarrow> bool" where
  "dot_char c \<longleftrightarrow> of_char c \<noteq> (10::int) \<and> of_char c \<noteq> (13::int)"

definition quoted_token :: "string \<Rightarrow> string option" where
  "quoted_token s =
     (case s of [] \<Rightarrow> None
      | c # r \<Rightarrow>
          if c = dquote \<and> r \<noteq> [] \<and> last r = dquote \<and> butlast r \<noteq> [] \<and> list_all dot_char (butlast r)
          then Some (butlast r) else None)"

definition etag_token :: "string \<Rightarrow> string option" where
  "etag_token raw = (if starts_with raw ''W/'' then quoted_token (drop 2 raw) else quoted_token raw)"

definition parseIfMatchHeader :: "string option \<Rightarrow> int option" where
  "parseIfMatchHeader h =
     (case h of None \<Rightarrow> None
      | Some hv \<Rightarrow>
          if hv = [] then None
          else (case find (\<lambda>part. part \<noteq> ''*'') (map trim (split_on (CHR '','') hv)) of
                  None \<Rightarrow> None
                | Some raw \<Rightarrow>
                    if raw = [] then None
                    else (case etag_token raw of
                            None \<Rightarrow> None
                          | Some token \<Rightarrow>
                              (case parse_int token of
                                 Fin v \<Rightarrow> if of_int \<lfloor>v\<rfloor> = v \<and> 0 \<le> v then Some \<lfloor>v\<rfloor> else None
                               | _ \<Rightarrow> None))))"

datatype wallet_error =
    PreconditionRequired   \<comment> \<open>428, no usable \<open>If-Match\<close> header\<close>
  | PreconditionFailed     \<comment> \<open>412, the version moved on\<close>
  | UserNotFound           \<comment> \<open>404\<close>
  | HorizonError           \<comment> \<open>any other failure of the account lookup\<close>

definition assertIfMatchHeaderPresent :: "string option \<Rightarrow> wallet_error + int" where
  "assertIfMatchHeaderPresent ifMatch =
     (case parseIfMatchHeader ifMatch of None \<Rightarrow> Inl PreconditionRequired | Some v \<Rightarrow> Inr v)"

lemma etag_body:
  assumes "0 \<le> v"
  shows "quoted_token (formatWalletEtag v) = Some (int_str v)"
proof -
  have d: "list_all is_digit (int_str v)" "int_str v \<noteq> []" using int_str_digits [OF assms] by auto
  have "list_all dot_char (int_str v)"
    using d(1) by (auto simp: list_all_iff is_digit_def dot_char_def)
  with d(2) show ?thesis by (simp add: quoted_token_def formatWalletEtag_def)
qed

lemma etag_no_comma: "0 \<le> v \<Longrightarrow> CHR '','' \<notin> set (formatWalletEtag v)"
proof -
  assume v: "0 \<le> v"
  have "c \<noteq> CHR '',''" if "is_digit c" for c using that by (auto simp: is_digit_def)
  then show ?thesis using int_str_digits [OF v] by (auto simp: formatWalletEtag_def list_all_iff)
qed

lemma etag_trim: "trim (formatWalletEtag v) = formatWalletEtag v"
  by (rule trim_id) (simp add: formatWalletEtag_def js_space_def)

text \<open>
  The ETag round trip: the header value the server sends for a wallet version is read back as
  that version, for every version a double holds exactly.
\<close>

theorem etag_roundtrip:
  assumes "0 \<le> v" "v < 2 ^ 53"
  shows "parseIfMatchHeader (Some (formatWalletEtag v)) = Some v"
proof -
  let ?e = "formatWalletEtag v"
  have ne: "?e \<noteq> []" "?e \<noteq> ''*''" "\<not> starts_with ?e ''W/''"
    by (auto simp: formatWalletEtag_def starts_with_def)
  have parts: "map trim (split_on (CHR '','') ?e) = [?e]"
    by (simp add: split_on_id [OF etag_no_comma [OF assms(1)]] etag_trim)
  have tok: "etag_token ?e = Some (int_str v)"
    using ne etag_body [OF assms(1)] by (simp add: etag_token_def)
  have "f64 (of_int v) = of_int v" using assms f64.rnd_int [of v] by simp
  then have "parse_int (int_str v) = Fin (of_int v)"
    using parse_int_digits int_str_digits [OF assms(1)] digits_val_int_str [OF assms(1)] by simp
  with ne parts tok assms(1) show ?thesis by (simp add: parseIfMatchHeader_def)
qed

theorem etag_roundtrip_witness: "parseIfMatchHeader (Some (formatWalletEtag 41)) = Some 41"
  using etag_roundtrip [of 41] by simp

section \<open>Versioned records\<close>

text \<open>A compare-and-set on the version of one record: it succeeds exactly when the caller's
  version is the current one, and then increments it.\<close>

locale version_lock =
  fixes inv :: "'s \<Rightarrow> bool"
    and version :: "'s \<Rightarrow> 'k \<Rightarrow> int option"
    and cas :: "'k \<Rightarrow> int \<Rightarrow> 'u \<Rightarrow> 's \<Rightarrow> 's option"
  assumes cas_iff: "inv s \<Longrightarrow> cas k v u s \<noteq> None \<longleftrightarrow> version s k = Some v"
    and cas_version: "inv s \<Longrightarrow> cas k v u s = Some s' \<Longrightarrow> version s' k = Some (v + 1)"
    and cas_frame: "inv s \<Longrightarrow> cas k v u s = Some s' \<Longrightarrow> k' \<noteq> k \<Longrightarrow> version s' k' = version s k'"
    and cas_inv: "inv s \<Longrightarrow> cas k v u s = Some s' \<Longrightarrow> inv s'"
begin

text \<open>A sequence of attempts by any number of clients, in the order in which the store serves
  them; the count of those on record \<open>k\<close> with version \<open>v\<close> that win.\<close>

fun wins :: "'k \<Rightarrow> int \<Rightarrow> ('k \<times> int \<times> 'u) list \<Rightarrow> 's \<Rightarrow> nat" where
  "wins k v [] s = 0"
| "wins k v ((k', v', u) # as) s =
     (case cas k' v' u s of
        None \<Rightarrow> wins k v as s
      | Some s' \<Rightarrow> (if k' = k \<and> v' = v then 1 else 0) + wins k v as s')"

lemma cas_twice: "inv s \<Longrightarrow> cas k v u s = Some s' \<Longrightarrow> cas k v u' s' = None"
  using cas_version [of s k v u s'] cas_iff [of s' k v u'] cas_inv [of s k v u s'] by auto

lemma wins_past:
  "inv s \<Longrightarrow> (\<forall>w. version s k = Some w \<longrightarrow> v < w) \<Longrightarrow> wins k v as s = 0"
proof (induction as arbitrary: s)
  case (Cons a as)
  obtain k' v' u where a: "a = (k', v', u)" by (cases a) auto
  show ?case
  proof (cases "cas k' v' u s")
    case None
    with Cons a show ?thesis by auto
  next
    case (Some s')
    note inv = Cons.prems(1)
    have vs: "version s k' = Some v'" using Some cas_iff [OF inv, of k' v' u] by simp
    have not: "\<not> (k' = k \<and> v' = v)" using vs Cons.prems(2) by auto
    have "\<forall>w. version s' k = Some w \<longrightarrow> v < w"
      using cas_version [OF inv Some] cas_frame [OF inv Some, of k] vs Cons.prems(2)
      by (cases "k = k'") fastforce+
    then have "wins k v as s' = 0" using Cons.IH cas_inv [OF inv Some] by auto
    with a Some not show ?thesis by auto
  qed
qed simp

lemma single_winner: "inv s \<Longrightarrow> wins k v as s \<le> 1"
proof (induction as arbitrary: s)
  case (Cons a as)
  obtain k' v' u where a: "a = (k', v', u)" by (cases a) auto
  show ?case
  proof (cases "cas k' v' u s")
    case None
    with Cons a show ?thesis by auto
  next
    case (Some s')
    note inv' = cas_inv [OF Cons.prems Some]
    show ?thesis
    proof (cases "k' = k \<and> v' = v")
      case True
      then have "wins k v as s' = 0"
        using cas_version [OF Cons.prems Some] by (intro wins_past [OF inv']) auto
      with a Some True show ?thesis by simp
    next
      case False
      with a Some Cons.IH [OF inv'] show ?thesis by auto
    qed
  qed
qed simp

end

section \<open>State\<close>

datatype balance_source = StellarSource | NoSource

record snapshot =
  balance :: string
  snap_address :: "string option"
  balance_stellar :: string
  source :: balance_source

record cache_entry =
  expires_at :: int
  cached_value :: snapshot
  cached_version :: int

record wstate =
  w_users :: "user list"
  w_cache :: "(string \<times> cache_entry) list"

text \<open>\<open>balanceCache.delete(key)\<close> for every key that starts with \<open>userId + "|"\<close>.\<close>

definition invalidateBalanceCache :: "string \<Rightarrow> wstate \<Rightarrow> wstate" where
  "invalidateBalanceCache uid st =
     st\<lparr>w_cache := filter (\<lambda>(k, _). \<not> starts_with k (uid @ ''|'')) (w_cache st)\<rparr>"

text \<open>\<open>raw\<close> is \<open>Number(process.env.BALANCE_CACHE_TTL_MS)\<close>, \<open>None\<close> when the variable is unset or empty.\<close>

definition getBalanceCacheTtlMs :: "jsnum option \<Rightarrow> int" where
  "getBalanceCacheTtlMs raw =
     (case raw of
        None \<Rightarrow> 15000
      | Some (Fin n) \<Rightarrow> if n < 0 then 15000 else min (max 0 \<lfloor>n\<rfloor>) 120000
      | Some _ \<Rightarrow> 15000)"

definition getWalletVersion :: "string \<Rightarrow> wstate \<Rightarrow> wallet_error + int" where
  "getWalletVersion uid st =
     (case find_user uid (w_users st) of None \<Rightarrow> Inl UserNotFound | Some u \<Rightarrow> Inr (wallet_version u))"

text \<open>\<open>prisma.user.updateMany({ where: { id, walletVersion }, data: { ..., increment } })\<close>: the count
  is 0 or 1, since ids are unique.\<close>

definition update_where :: "string \<Rightarrow> int \<Rightarrow> (user \<Rightarrow> user) \<Rightarrow> user list \<Rightarrow> nat \<times> user list" where
  "update_where uid v f us =
     (length (filter (\<lambda>u. u_id u = uid \<and> wallet_version u = v) us),
      map (\<lambda>u. if u_id u = uid \<and> wallet_version u = v
               then (f u)\<lparr>wallet_version := wallet_version u + 1\<rparr> else u) us)"

definition reserveWalletVersion :: "string \<Rightarrow> string option \<Rightarrow> wstate \<Rightarrow> wallet_error + (int \<times> wstate)" where
  "reserveWalletVersion uid ifMatch st =
     bindR (assertIfMatchHeaderPresent ifMatch) (\<lambda>expectedVersion.
       case update_where uid expectedVersion id (w_users st) of
         (count, us) \<Rightarrow>
           if count = 0 then Inl PreconditionFailed
           else Inr (expectedVersion + 1, invalidateBalanceCache uid (st\<lparr>w_users := us\<rparr>)))"

text \<open>An optional field of the update: \<open>None\<close> is \<open>undefined\<close> (left alone), \<open>Some None\<close> is \<open>null\<close>.\<close>

record wallet_patch =
  p_address :: "string option option"
  p_secret :: "string option option"
  p_hint :: "string option option"

definition apply_patch :: "wallet_patch \<Rightarrow> user \<Rightarrow> user" where
  "apply_patch p u =
     u\<lparr>stellar_address := (case p_address p of None \<Rightarrow> stellar_address u | Some v \<Rightarrow> v),
       encrypted_secret := (case p_secret p of None \<Rightarrow> encrypted_secret u | Some v \<Rightarrow> v),
       key_hint := (case p_hint p of None \<Rightarrow> key_hint u | Some v \<Rightarrow> v)\<rparr>"

definition updateWalletWithConcurrency ::
  "string \<Rightarrow> string option \<Rightarrow> wallet_patch \<Rightarrow> wstate \<Rightarrow> wallet_error + (int \<times> wstate)" where
  "updateWalletWithConcurrency uid ifMatch p st =
     bindR (assertIfMatchHeaderPresent ifMatch) (\<lambda>expectedVersion.
       case update_where uid expectedVersion (apply_patch p) (w_users st) of
         (count, us) \<Rightarrow>
           if count = 0 then Inl PreconditionFailed
           else Inr (expectedVersion + 1, invalidateBalanceCache uid (st\<lparr>w_users := us\<rparr>)))"

section \<open>The balance read\<close>

datatype balance_line = NativeLine string | AssetLine string string string | OtherLine

datatype account_load = Loaded "balance_line list" | NotFound404 | LoadFailed

record wallet_env =
  env_ttl :: "jsnum option"
  horizon_url :: string
  asset_code :: string
  asset_issuer :: "string option"
  load_account :: "string \<Rightarrow> account_load"
  now_check :: int
  now_store :: int

text \<open>\<open>[userId, horizonUrl, assetCode, assetIssuer].join("|")\<close>; \<open>join\<close> writes \<open>null\<close> as the empty string.\<close>

definition cache_key :: "wallet_env \<Rightarrow> string \<Rightarrow> string" where
  "cache_key e uid = uid @ ''|'' @ horizon_url e @ ''|'' @ asset_code e @ ''|''
     @ (case asset_issuer e of None \<Rightarrow> '''' | Some i \<Rightarrow> i)"

definition is_acbu_line :: "wallet_env \<Rightarrow> balance_line \<Rightarrow> bool" where
  "is_acbu_line e l = (case l of
     AssetLine c i _ \<Rightarrow> c = asset_code e \<and> Some i = asset_issuer e
   | _ \<Rightarrow> False)"

definition line_balance :: "balance_line \<Rightarrow> string" where
  "line_balance l = (case l of NativeLine b \<Rightarrow> b | AssetLine _ _ b \<Rightarrow> b | OtherLine \<Rightarrow> '''')"

definition display_num :: "balance_line option \<Rightarrow> rat" where
  "display_num l = (case l of None \<Rightarrow> 0
     | Some b \<Rightarrow> (case parse_float (line_balance b) of Fin q \<Rightarrow> q | _ \<Rightarrow> 0))"

definition cache_set :: "string \<Rightarrow> cache_entry \<Rightarrow> (string \<times> cache_entry) list \<Rightarrow> (string \<times> cache_entry) list" where
  "cache_set k c cs =
     (if k \<in> fst ` set cs then map (\<lambda>(k', c'). if k' = k then (k, c) else (k', c')) cs else cs @ [(k, c)])"

definition fetchWalletBalance ::
  "wallet_env \<Rightarrow> string \<Rightarrow> wstate \<Rightarrow> wallet_error + ((snapshot \<times> int) \<times> wstate)" where
  "fetchWalletBalance e uid st =
     (case find_user uid (w_users st) of
        None \<Rightarrow> Inl UserNotFound
      | Some u \<Rightarrow>
        let ver = wallet_version u;
            none_snap = (\<lambda>a. \<lparr>balance = ''0'', snap_address = a, balance_stellar = ''0'', source = NoSource\<rparr>)
        in if \<not> truthy (stellar_address u) then Inr ((none_snap None, ver), st)
        else
          let addr = the (stellar_address u); key = cache_key e uid;
              store = (\<lambda>s. st\<lparr>w_cache := cache_set key
                 \<lparr>expires_at = now_store e + getBalanceCacheTtlMs (env_ttl e), cached_value = s,
                   cached_version = ver\<rparr> (w_cache st)\<rparr>);
              miss =
                (case load_account e addr of
                   Loaded ls \<Rightarrow>
                     (let d = js_num_str (display_num (find (is_acbu_line e) ls));
                          s = \<lparr>balance = d, snap_address = Some addr, balance_stellar = d, source = StellarSource\<rparr>
                      in Inr ((s, ver), store s))
                 | NotFound404 \<Rightarrow> Inr ((none_snap (Some addr), ver), store (none_snap (Some addr)))
                 | LoadFailed \<Rightarrow> Inl HorizonError)
          in (case map_of (w_cache st) key of
                Some c \<Rightarrow> if now_check e < expires_at c \<and> cached_version c = ver
                          then Inr ((cached_value c, ver), st) else miss
              | None \<Rightarrow> miss))"

definition getWalletState :: "wallet_env \<Rightarrow> string \<Rightarrow> wstate \<Rightarrow> wallet_error + ((snapshot \<times> int) \<times> wstate)" where
  "getWalletState e uid st = fetchWalletBalance e uid st"

section \<open>One winner per version\<close>

definition wallet_cas :: "string \<Rightarrow> int \<Rightarrow> (user \<Rightarrow> user) \<Rightarrow> wstate \<Rightarrow> wstate option" where
  "wallet_cas uid v f st =
     (case update_where uid v f (w_users st) of
        (count, us) \<Rightarrow> if count = 0 then None else Some (invalidateBalanceCache uid (st\<lparr>w_users := us\<rparr>)))"

definition cas_result :: "int \<Rightarrow> wstate option \<Rightarrow> wallet_error + (int \<times> wstate)" where
  "cas_result v r = (case r of None \<Rightarrow> Inl PreconditionFailed | Some st' \<Rightarrow> Inr (v + 1, st'))"

lemma reserve_cas:
  "reserveWalletVersion uid h st
     = bindR (assertIfMatchHeaderPresent h) (\<lambda>v. cas_result v (wallet_cas uid v id st))"
  by (simp add: reserveWalletVersion_def wallet_cas_def cas_result_def split: prod.splits cong: if_cong)
     (rule arg_cong [where f = "bindR _"], auto simp: fun_eq_iff split: prod.splits)

lemma update_cas:
  "updateWalletWithConcurrency uid h p st
     = bindR (assertIfMatchHeaderPresent h) (\<lambda>v. cas_result v (wallet_cas uid v (apply_patch p) st))"
  by (simp add: updateWalletWithConcurrency_def wallet_cas_def cas_result_def)
     (rule arg_cong [where f = "bindR _"], auto simp: fun_eq_iff split: prod.splits)

definition users_inv :: "wstate \<Rightarrow> bool" where
  "users_inv st \<longleftrightarrow> distinct (map u_id (w_users st))"

definition w_version :: "wstate \<Rightarrow> string \<Rightarrow> int option" where
  "w_version st uid = map_option wallet_version (find_user uid (w_users st))"

lemma invalidate_users [simp]: "w_users (invalidateBalanceCache uid st) = w_users st"
  by (simp add: invalidateBalanceCache_def)

lemma update_where_find:
  assumes "\<And>u. u_id (f u) = u_id u"
  shows "find_user i (snd (update_where uid v f us)) =
     map_option (\<lambda>u. if u_id u = uid \<and> wallet_version u = v
                    then (f u)\<lparr>wallet_version := wallet_version u + 1\<rparr> else u) (find_user i us)"
  unfolding find_user_def update_where_def using assms by (induction us) auto

lemma update_where_ids:
  assumes "\<And>u. u_id (f u) = u_id u"
  shows "map u_id (snd (update_where uid v f us)) = map u_id us"
  unfolding update_where_def using assms by (induction us) auto

lemma update_where_count:
  "distinct (map u_id us) \<Longrightarrow>
   fst (update_where uid v f us) \<noteq> 0 \<longleftrightarrow> map_option wallet_version (find_user uid us) = Some v"
  unfolding find_user_def update_where_def
  by (induction us) (auto simp: filter_empty_conv find_None_iff' image_iff split: option.splits)

lemma apply_patch_id [simp]: "u_id (apply_patch p u) = u_id u"
  by (simp add: apply_patch_def)

definition patch_fun :: "wallet_patch option \<Rightarrow> user \<Rightarrow> user" where
  "patch_fun p = (case p of None \<Rightarrow> id | Some q \<Rightarrow> apply_patch q)"

lemma patch_fun_id [simp]: "u_id (patch_fun p u) = u_id u"
  by (simp add: patch_fun_def split: option.splits)

lemma wallet_cas_SomeD:
  "wallet_cas uid v f st = Some st' \<Longrightarrow>
     w_users st' = snd (update_where uid v f (w_users st)) \<and> fst (update_where uid v f (w_users st)) \<noteq> 0
     \<and> w_cache st' = filter (\<lambda>(k, _). \<not> starts_with k (uid @ ''|'')) (w_cache st)"
  by (auto simp: wallet_cas_def invalidateBalanceCache_def split: prod.splits if_splits)

lemma wallet_cas_iff:
  "users_inv st \<Longrightarrow> wallet_cas uid v f st \<noteq> None \<longleftrightarrow> w_version st uid = Some v"
  using update_where_count [of "w_users st" uid v f]
  by (auto simp: wallet_cas_def users_inv_def w_version_def split: prod.splits)

interpretation wallet: version_lock users_inv w_version "\<lambda>uid v p. wallet_cas uid v (patch_fun p)"
proof
  fix s s' :: wstate and k k' :: string and v :: int and p :: "wallet_patch option"
  assume inv: "users_inv s"
  show "wallet_cas k v (patch_fun p) s \<noteq> None \<longleftrightarrow> w_version s k = Some v"
    by (rule wallet_cas_iff [OF inv])
  assume c: "wallet_cas k v (patch_fun p) s = Some s'"
  then have v: "w_version s k = Some v" using wallet_cas_iff [OF inv, of k v "patch_fun p"] by simp
  note us = wallet_cas_SomeD [OF c]
  from v obtain u where u: "find_user k (w_users s) = Some u" "wallet_version u = v"
    by (auto simp: w_version_def)
  then have "u_id u = k" by (auto dest: find_user_SomeD)
  with us u show "w_version s' k = Some (v + 1)"
    by (simp add: w_version_def update_where_find)
  show "users_inv s'" using us inv by (simp add: users_inv_def update_where_ids)
  assume "k' \<noteq> k"
  then show "w_version s' k' = w_version s k'"
    using us by (cases "find_user k' (w_users s)") (auto simp: w_version_def update_where_find dest: find_user_SomeD)
qed

text \<open>Requests that reserve or update a wallet, served one after the other.\<close>

record wallet_request =
  req_user :: string
  req_etag :: "string option"
  req_patch :: "wallet_patch option"

definition serve_one :: "wallet_request \<Rightarrow> wstate \<Rightarrow> wallet_error + (int \<times> wstate)" where
  "serve_one r st = (case req_patch r of
     None \<Rightarrow> reserveWalletVersion (req_user r) (req_etag r) st
   | Some p \<Rightarrow> updateWalletWithConcurrency (req_user r) (req_etag r) p st)"

fun winners :: "string \<Rightarrow> int \<Rightarrow> wallet_request list \<Rightarrow> wstate \<Rightarrow> nat" where
  "winners uid v [] st = 0"
| "winners uid v (r # rs) st =
     (case serve_one r st of
        Inl _ \<Rightarrow> winners uid v rs st
      | Inr (_, st') \<Rightarrow>
          (if req_user r = uid \<and> parseIfMatchHeader (req_etag r) = Some v then 1 else 0)
          + winners uid v rs st')"

lemma serve_one_cas:
  "serve_one r st = (case parseIfMatchHeader (req_etag r) of
     None \<Rightarrow> Inl PreconditionRequired
   | Some v \<Rightarrow> cas_result v (wallet_cas (req_user r) v (patch_fun (req_patch r)) st))"
  by (auto simp: serve_one_def reserve_cas update_cas assertIfMatchHeaderPresent_def patch_fun_def
      split: option.splits)

lemma winners_wins:
  "winners uid v rs st = wallet.wins uid v
     (List.map_filter (\<lambda>r. map_option (\<lambda>w. (req_user r, w, req_patch r)) (parseIfMatchHeader (req_etag r))) rs) st"
  by (induction rs arbitrary: st)
     (auto simp: List.map_filter_def serve_one_cas cas_result_def split: option.splits)

text \<open>
  C19. Lost updates are impossible: whatever sequence of wallet reservations and updates the server
  handles, at most one of the requests that carry the same wallet's ETag for the same version
  succeeds; all the others are refused with 412.
\<close>

theorem one_winner_per_version:
  assumes "distinct (map u_id (w_users st))"
  shows "winners uid v rs st \<le> 1"
  unfolding winners_wins using assms by (intro wallet.single_winner) (simp add: users_inv_def)

definition sample_wallets :: wstate where
  "sample_wallets = \<lparr>w_users = sample_users, w_cache = []\<rparr>"

definition sample_request :: "string \<Rightarrow> wallet_request" where
  "sample_request uid = \<lparr>req_user = uid, req_etag = Some (formatWalletEtag 3), req_patch = None\<rparr>"

theorem one_winner_per_version_witness:
  "winners ''u1'' 3 [sample_request ''u1'', sample_request ''u1''] sample_wallets = 1"
proof -
  have d: "distinct (map u_id (w_users sample_wallets))"
    by (simp add: sample_wallets_def sample_users_def)
  have "winners ''u1'' 3 [sample_request ''u1'', sample_request ''u1''] sample_wallets \<le> 1"
    by (rule one_winner_per_version [OF d])
  moreover have "winners ''u1'' 3 [sample_request ''u1'', sample_request ''u1''] sample_wallets \<ge> 1"
    by code_simp
  ultimately show ?thesis by simp
qed

section \<open>No stale balance after a reservation\<close>

lemma reserve_cache_clear:
  assumes "reserveWalletVersion uid h st = Inr (v, st')"
  shows "map_of (w_cache st') (cache_key e uid) = None"
proof -
  from assms obtain w where "wallet_cas uid w id st = Some st'"
    by (auto simp: reserve_cas bindR_Inr_iff cas_result_def split: option.splits)
  from wallet_cas_SomeD [OF this] show ?thesis
    by (auto simp: map_of_eq_None_iff cache_key_def starts_with_def)
qed

text \<open>
  A balance read that follows a successful version reservation never comes from the cache: it
  gives the same answer as with an empty cache, whatever was cached for that user before, and it
  reports the reserved version.
\<close>

theorem balance_fresh_after_reserve:
  assumes "distinct (map u_id (w_users st))"
    and "reserveWalletVersion uid h st = Inr (v, st')"
    and "fetchWalletBalance e uid st' = Inr ((s, ver), st'')"
  shows "ver = v \<and> (\<exists>st3. fetchWalletBalance e uid (st'\<lparr>w_cache := []\<rparr>) = Inr ((s, ver), st3))"
proof -
  from assms(2) obtain w where w: "wallet_cas uid w id st = Some st'" "v = w + 1"
    by (auto simp: reserve_cas bindR_Inr_iff cas_result_def split: option.splits)
  have "w_version st' uid = Some v"
    using wallet.cas_version [of st uid w None st'] w assms(1) by (simp add: patch_fun_def users_inv_def)
  then obtain u where u: "find_user uid (w_users st') = Some u" "wallet_version u = v"
    by (auto simp: w_version_def)
  have none: "map_of (w_cache st') (cache_key e uid) = None" by (rule reserve_cache_clear [OF assms(2)])
  with assms(3) u show ?thesis
    by (auto simp: fetchWalletBalance_def Let_def split: if_splits account_load.splits)
qed

definition sample_env :: "string \<Rightarrow> wallet_env" where
  "sample_env b = \<lparr>env_ttl = None, horizon_url = ''https://h'', asset_code = ''ACBU'',
     asset_issuer = Some ''GI'', load_account = (\<lambda>_. Loaded [NativeLine ''10.0'', AssetLine ''ACBU'' ''GI'' b]),
     now_check = 1000, now_store = 1001\<rparr>"

theorem balance_fresh_after_reserve_witness:
  "case reserveWalletVersion ''u1'' (Some (formatWalletEtag 3)) sample_wallets of
     Inr (v, st') \<Rightarrow>
       (case fetchWalletBalance (sample_env ''25.5'') ''u1'' st' of
          Inr ((s, ver), _) \<Rightarrow> balance s = ''25.5'' \<and> ver = v \<and> v = 4
        | Inl _ \<Rightarrow> False)
   | Inl _ \<Rightarrow> False"
proof -
  have d: "distinct (map u_id (w_users sample_wallets))"
    by (simp add: sample_wallets_def sample_users_def)
  have run: "case reserveWalletVersion ''u1'' (Some (formatWalletEtag 3)) sample_wallets of
     Inr (v, st') \<Rightarrow>
       (case fetchWalletBalance (sample_env ''25.5'') ''u1'' st' of
          Inr ((s, ver), _) \<Rightarrow> balance s = ''25.5'' \<and> v = 4 | Inl _ \<Rightarrow> False)
   | Inl _ \<Rightarrow> False" by code_simp
  show ?thesis
    using run balance_fresh_after_reserve [OF d, of "''u1''" "Some (formatWalletEtag 3)"]
    by (auto split: sum.splits prod.splits)
qed

end
