(* ===== verification/FeeManager.thy ===== *)
theory FeeManager
  imports JsStr
begin

text \<open>
  Fees of Stellar transactions, \<open>src/services/stellar/feeManager.ts\<close>. The configuration
  section \<open>config.stellar\<close> and Horizon's answer to \<open>fetchBaseFee\<close> (\<open>None\<close> when the call fails)
  are arguments. Numbers are doubles: products and quotients are rounded by \<open>f64\<close>.
\<close>

record stellar_config =
  use_dynamic_fees :: bool
  base_fee_stroops :: jsnum
  soroban_min_fee :: rat
  soroban_max_fee :: rat
  fee_surge_buffer_bps :: "jsnum option"
  max_payment_fee_stroops :: "jsnum option"

datatype fee_error =
    InvalidBaseFee jsnum
  | InvalidMaxFee jsnum
  | InvalidSurgeBuffer jsnum
  | BaseFeeNotNumber string

text \<open>\<open>String(n)\<close>.\<close>

definition num_string :: "jsnum \<Rightarrow> string" where
  "num_string n = (case n of Fin q \<Rightarrow> js_num_str q | PosInf \<Rightarrow> ''Infinity'' | NegInf \<Rightarrow> ''-Infinity'' | NaN \<Rightarrow> ''NaN'')"

definition getBaseFee :: "stellar_config \<Rightarrow> jsnum option \<Rightarrow> string" where
  "getBaseFee cfg fetched =
     (if use_dynamic_fees cfg
      then (case fetched of Some fee \<Rightarrow> num_string fee | None \<Rightarrow> num_string (base_fee_stroops cfg))
      else num_string (base_fee_stroops cfg))"

text \<open>The live fee only; \<open>None\<close> is the exception that reaches the caller.\<close>

definition fetchDynamicBaseFee :: "jsnum option \<Rightarrow> jsnum option" where
  "fetchDynamicBaseFee fetched = fetched"

definition calculateSorobanFeeWithCap :: "stellar_config \<Rightarrow> rat \<Rightarrow> string" where
  "calculateSorobanFeeWithCap cfg totalFee =
     js_num_str (max (soroban_min_fee cfg) (min (soroban_max_fee cfg) totalFee))"

definition getFeeCapConfig :: "stellar_config \<Rightarrow> rat \<times> rat" where
  "getFeeCapConfig cfg = (soroban_min_fee cfg, soroban_max_fee cfg)"

definition DEFAULT_FEE_SURGE_BUFFER_BPS :: rat where
  "DEFAULT_FEE_SURGE_BUFFER_BPS = 2000"

definition DEFAULT_MAX_PAYMENT_FEE_STROOPS :: rat where
  "DEFAULT_MAX_PAYMENT_FEE_STROOPS = 1000000"

definition numericConfig :: "jsnum option \<Rightarrow> rat \<Rightarrow> rat" where
  "numericConfig v fallback = (case v of Some (Fin q) \<Rightarrow> q | _ \<Rightarrow> fallback)"

definition getFeeSurgeBufferBps :: "stellar_config \<Rightarrow> rat" where
  "getFeeSurgeBufferBps cfg = numericConfig (fee_surge_buffer_bps cfg) DEFAULT_FEE_SURGE_BUFFER_BPS"

definition getMaxPaymentFeeStroops :: "stellar_config \<Rightarrow> rat" where
  "getMaxPaymentFeeStroops cfg = numericConfig (max_payment_fee_stroops cfg) DEFAULT_MAX_PAYMENT_FEE_STROOPS"

record payment_fee_quote =
  fee_stroops :: rat
  network_fee_stroops :: rat
  is_buffered :: bool
  clamped_to_ceiling :: bool
  max_fee_stroops :: rat

definition valid_fee :: "jsnum \<Rightarrow> bool" where
  "valid_fee n = (case n of Fin q \<Rightarrow> 0 \<le> q | _ \<Rightarrow> False)"

text \<open>\<open>Math.ceil(networkFeeStroops * (1 + bufferBps / 10_000))\<close>, each operation rounded.\<close>

definition buffered_fee :: "rat \<Rightarrow> rat \<Rightarrow> rat" where
  "buffered_fee net bps = of_int \<lceil>f64 (net * f64 (1 + f64 (bps / 10000)))\<rceil>"

definition applyFeeSurgeBuffer :: "jsnum \<Rightarrow> jsnum \<Rightarrow> jsnum \<Rightarrow> fee_error + payment_fee_quote" where
  "applyFeeSurgeBuffer net mx bps =
     (if \<not> valid_fee net then Inl (InvalidBaseFee net)
      else if \<not> valid_fee mx then Inl (InvalidMaxFee mx)
      else if \<not> valid_fee bps then Inl (InvalidSurgeBuffer bps)
      else
        (case (net, mx, bps) of
           (Fin n, Fin m, Fin b) \<Rightarrow>
             (let buf = buffered_fee n b; fee = min buf m in
              Inr \<lparr>fee_stroops = fee, network_fee_stroops = n, is_buffered = (n < buf),
                   clamped_to_ceiling = (fee < buf), max_fee_stroops = m\<rparr>)
         | _ \<Rightarrow> Inl (InvalidBaseFee net)))"

definition getPaymentFee :: "stellar_config \<Rightarrow> jsnum option \<Rightarrow> fee_error + payment_fee_quote" where
  "getPaymentFee cfg fetched =
     (let raw = getBaseFee cfg fetched; net = parse_int raw in
      if \<not> is_finite net then Inl (BaseFeeNotNumber raw)
      else applyFeeSurgeBuffer net (Fin (getMaxPaymentFeeStroops cfg)) (Fin (getFeeSurgeBufferBps cfg)))"

section \<open>Properties\<close>

lemma valid_fee_iff: "valid_fee n \<longleftrightarrow> (\<exists>q. n = Fin q \<and> 0 \<le> q)"
  by (cases n) (auto simp: valid_fee_def)

lemma applyFeeSurgeBuffer_Inr:
  "applyFeeSurgeBuffer net mx bps = Inr q \<longleftrightarrow>
     (\<exists>n m b. net = Fin n \<and> mx = Fin m \<and> bps = Fin b \<and> 0 \<le> n \<and> 0 \<le> m \<and> 0 \<le> b \<and>
        q = \<lparr>fee_stroops = min (buffered_fee n b) m, network_fee_stroops = n,
             is_buffered = (n < buffered_fee n b),
             clamped_to_ceiling = (min (buffered_fee n b) m < buffered_fee n b), max_fee_stroops = m\<rparr>)"
  by (auto simp: applyFeeSurgeBuffer_def valid_fee_iff Let_def)

text \<open>The buffer never lowers an integral fee: rounding is monotone and exact on integers.\<close>

lemma buffered_fee_ge:
  assumes "0 \<le> k" "k < 2 ^ 53" "0 \<le> b"
  shows "of_int k \<le> buffered_fee (of_int k) b"
proof -
  have "0 \<le> f64 (b / 10000)" using assms(3) by (intro f64.rnd_ge_0) simp
  then have "1 \<le> f64 (1 + f64 (b / 10000))" using f64.int_le_rnd [of 1 "1 + f64 (b / 10000)"] by simp
  then have "of_int k * 1 \<le> of_int k * f64 (1 + f64 (b / 10000))"
    using assms(1) by (intro mult_left_mono) auto
  then have "of_int k \<le> f64 (of_int k * f64 (1 + f64 (b / 10000)))"
    using assms by (intro f64.int_le_rnd) auto
  then show ?thesis unfolding buffered_fee_def by (meson ceiling_correct of_int_le_iff order_trans le_of_int_ceiling)
qed

text \<open>
  The fee quoted for a payment never exceeds the configured ceiling, and for an integral network
  fee (below 2^53 stroops) it is at least the network's fee unless the ceiling cut it, in which case
  it equals the ceiling exactly.
\<close>

theorem fee_quote_bounds:
  assumes "applyFeeSurgeBuffer (Fin (of_int k)) mx bps = Inr q" and "k < 2 ^ 53"
  shows "fee_stroops q \<le> max_fee_stroops q
    \<and> (if clamped_to_ceiling q then fee_stroops q = max_fee_stroops q
       else network_fee_stroops q \<le> fee_stroops q)"
proof -
  from assms(1) obtain m b where q: "0 \<le> k" "0 \<le> b"
    "q = \<lparr>fee_stroops = min (buffered_fee (of_int k) b) m, network_fee_stroops = of_int k,
       is_buffered = (of_int k < buffered_fee (of_int k) b),
       clamped_to_ceiling = (min (buffered_fee (of_int k) b) m < buffered_fee (of_int k) b), max_fee_stroops = m\<rparr>"
    by (auto simp: applyFeeSurgeBuffer_Inr)
  from buffered_fee_ge [OF q(1) assms(2) q(2)] show ?thesis by (auto simp: q(3) min_def)
qed

theorem fee_quote_bounds_witness:
  "\<exists>q. applyFeeSurgeBuffer (Fin 100) (Fin 1000000) (Fin 2000) = Inr q \<and> fee_stroops q = 120
     \<and> network_fee_stroops q \<le> fee_stroops q"
proof -
  have b: "buffered_fee 100 2000 = 120" by code_simp
  define q where "q = \<lparr>fee_stroops = 120, network_fee_stroops = 100, is_buffered = True,
    clamped_to_ceiling = False, max_fee_stroops = 1000000\<rparr>"
  have r: "applyFeeSurgeBuffer (Fin (of_int 100)) (Fin 1000000) (Fin 2000) = Inr q"
    by (simp add: applyFeeSurgeBuffer_def valid_fee_def Let_def b q_def)
  from fee_quote_bounds [OF r] r show ?thesis by (auto simp: q_def)
qed

text \<open>
  \<open>clampedToCeiling\<close> does not imply that the quoted fee is below the network's base fee, although
  the field's comment says the transaction is then guaranteed to be rejected: with a network fee of
  900000 stroops and the default buffer and ceiling, the quote is clamped and still covers the
  network fee.
\<close>

theorem clamped_quote_can_cover_network_fee:
  "\<exists>q. applyFeeSurgeBuffer (Fin 900000) (Fin DEFAULT_MAX_PAYMENT_FEE_STROOPS)
          (Fin DEFAULT_FEE_SURGE_BUFFER_BPS) = Inr q
     \<and> clamped_to_ceiling q \<and> network_fee_stroops q < fee_stroops q"
proof -
  have b: "buffered_fee 900000 2000 = 1080000" by code_simp
  show ?thesis
    by (simp add: applyFeeSurgeBuffer_def valid_fee_def Let_def b
        DEFAULT_MAX_PAYMENT_FEE_STROOPS_def DEFAULT_FEE_SURGE_BUFFER_BPS_def)
qed

end
