(* ===== verification/Transfers.thy ===== *)
theory Transfers
  imports TxStore Wallet FeeManager
begin

text \<open>
  Transfers, \<open>src/services/transfer/transferService.ts\<close>. The file exports \<open>createTransfer\<close> twice:
  the first body (a payment loop that re-reads the fee) is \<open>createTransfer_payment\<close> here, the second
  \<open>createTransfer\<close>. \<open>submitStellarPayment\<close>, which the second calls, is defined nowhere in the
  repository and is a parameter. A handler returns its result and the state it leaves behind: what it
  has written stays written when a later step throws. The log holds the calls with effects outside the
  database: payments submitted, financial events, audit entries.
\<close>

section \<open>Requests, options, state\<close>

definition requireIdempotencyKey :: "string option \<Rightarrow> unit + string" where
  "requireIdempotencyKey k =
     (case k of None \<Rightarrow> Inl () | Some s \<Rightarrow> if trim s = [] then Inl () else Inr (trim s))"

text \<open>The products and sums are double operations; \<open>NaN\<close> propagates.\<close>

definition js_add :: "jsnum \<Rightarrow> jsnum \<Rightarrow> jsnum" where
  "js_add a b = (case (a, b) of (Fin x, Fin y) \<Rightarrow> Fin (f64 (x + y)) | _ \<Rightarrow> NaN)"

definition js_scale :: "jsnum \<Rightarrow> rat \<Rightarrow> jsnum" where
  "js_scale a k = (case a of Fin x \<Rightarrow> Fin (f64 (x * k)) | _ \<Rightarrow> NaN)"

definition js_lt :: "jsnum \<Rightarrow> jsnum \<Rightarrow> bool" where
  "js_lt a b = (case (a, b) of (Fin x, Fin y) \<Rightarrow> x < y | _ \<Rightarrow> False)"

definition amountToSmallestUnit :: "string \<Rightarrow> jsnum" where
  "amountToSmallestUnit amount =
     (let parts = split_on (CHR ''.'') amount;
          wholePart = hd parts;
          fracPart = (if length parts < 2 then '''' else parts ! 1)
      in js_add (js_scale (parse_int wholePart) 10000000)
           (parse_int (pad_end 7 (CHR ''0'') (take 7 fracPart))))"

datatype log_entry =
    Submitted string string            \<comment> \<open>a payment sent to Stellar: recipient, amount\<close>
  | FinancialEvent string nat
  | AuditEntry string nat

record tstate =
  t_wallet :: wstate
  t_contacts :: "(string \<times> string) list"
  t_db :: txdb
  t_log :: "log_entry list"

record travel_rule =
  threshold_acbu :: rat
  enforce :: bool
  tr_mode :: string

datatype submit_outcome = SubmitHash string | SubmitFeeSurge string | SubmitError string

datatype key_lookup = KeyError string | KeyNull | Key string

record transfer_env =
  te_wallet :: wallet_env
  te_travel :: travel_rule
  te_submit :: "string \<Rightarrow> string \<Rightarrow> string \<Rightarrow> submit_outcome"
  te_now :: int

record transfer_params =
  p_sender :: string
  p_to :: string
  p_amount :: string
  p_key :: "string option"

record transfer_options =
  o_if_match :: "string option"
  o_get_key :: "(string \<Rightarrow> key_lookup) option"
  o_submitted_hash :: "string option"

datatype transfer_error =
    AmountInvalid
  | SenderNotFound
  | KycRequired
  | WalletFailure wallet_error
  | InsufficientBalance
  | RecipientFailure query_error
  | RecipientNotFound
  | SelfTransfer
  | TravelRuleViolation
  | UniqueViolation
  | KeyLookupFailed string
  | FeeSurge string

section \<open>Guards\<close>

definition resolveRecipientAddress ::
  "user list \<Rightarrow> (string \<times> string) list \<Rightarrow> string \<Rightarrow> string \<Rightarrow> query_error + string option" where
  "resolveRecipientAddress users contacts dest caller =
     bindR (normalizeRecipientQuery dest) (\<lambda>parsed.
       case parsed of
         QAddress v \<Rightarrow> Inr (Some v)
       | _ \<Rightarrow> bindR (resolveRecipient users contacts dest (Some caller)) (\<lambda>res.
           case res of
             None \<Rightarrow> Inr None
           | Some r \<Rightarrow> Inr (Option.bind (find_user (r_user_id r) users) stellar_address)))"

text \<open>The comparison with \<open>NaN\<close> is false, so an unreadable amount counts as above the threshold.\<close>

definition checkTravelRuleCompliance :: "travel_rule \<Rightarrow> string \<Rightarrow> bool \<Rightarrow> bool" where
  "checkTravelRuleCompliance tr amountAcbu isVaspIntermediated =
     (if (case parse_float amountAcbu of Fin a \<Rightarrow> a \<le> threshold_acbu tr | NegInf \<Rightarrow> True | _ \<Rightarrow> False) then True
      else if tr_mode tr = ''allowlist'' \<and> \<not> isVaspIntermediated \<and> enforce tr then False
      else if tr_mode tr = ''strict'' \<and> \<not> isVaspIntermediated \<and> enforce tr then False
      else True)"

definition valid_transfer_amount :: "string \<Rightarrow> bool" where
  "valid_transfer_amount amount \<longleftrightarrow> decimal_shape 7 amount \<and> 0 < f64 (decimal_value amount)"

definition is_prior :: "string \<Rightarrow> string \<Rightarrow> txn \<Rightarrow> bool" where
  "is_prior k uid r \<longleftrightarrow> tx_key r = Some k \<and> tx_user r = Some uid \<and> tx_type r = TTransfer"

definition prior_transfer :: "string option \<Rightarrow> string \<Rightarrow> txdb \<Rightarrow> txn option" where
  "prior_transfer key uid db = (if truthy key then find (is_prior (the key) uid) (tx_rows db) else None)"

text \<open>The checks between the balance read and the insertion: balance, recipient, self-transfer,
  Travel Rule.\<close>

definition transfer_guards ::
  "transfer_env \<Rightarrow> transfer_params \<Rightarrow> string \<Rightarrow> user \<Rightarrow> snapshot \<Rightarrow> tstate \<Rightarrow> transfer_error + string" where
  "transfer_guards e p amount sender snap st =
     (let bal = (if balance snap = [] then ''0'' else balance snap) in
      if js_lt (amountToSmallestUnit bal) (amountToSmallestUnit amount) then Inl InsufficientBalance
      else bindR (map_err RecipientFailure
               (resolveRecipientAddress (w_users (t_wallet st)) (t_contacts st) (p_to p) (p_sender p)))
           (\<lambda>res. if \<not> truthy res then Inl RecipientNotFound
             else if truthy (stellar_address sender) \<and> res = stellar_address sender then Inl SelfTransfer
             else if \<not> checkTravelRuleCompliance (te_travel e) amount False then Inl TravelRuleViolation
             else Inr (the res)))"

section \<open>Settlement\<close>

definition transfer_row :: "transfer_env \<Rightarrow> transfer_params \<Rightarrow> string \<Rightarrow> string \<Rightarrow> txn" where
  "transfer_row e p amount recipient =
     (new_txn TTransfer Pending (te_now e))\<lparr>tx_user := Some (p_sender p), tx_key := p_key p,
        recipient_address := Some recipient, acbu_amount := Some (decimal_value amount)\<rparr>"

definition add_log :: "log_entry list \<Rightarrow> tstate \<Rightarrow> tstate" where
  "add_log es st = st\<lparr>t_log := t_log st @ es\<rparr>"

definition set_failed :: "nat \<Rightarrow> tstate \<Rightarrow> tstate" where
  "set_failed i st = add_log [FinancialEvent ''transfer.failed'' i, AuditEntry ''transfer_failed'' i]
     (st\<lparr>t_db := update_tx i (\<lambda>r. r\<lparr>tx_status := Failed\<rparr>) (t_db st)\<rparr>)"

definition set_completed :: "nat \<Rightarrow> txdb \<Rightarrow> tstate \<Rightarrow> tstate" where
  "set_completed i db st = add_log [FinancialEvent ''transfer.completed'' i, AuditEntry ''transfer_completed'' i]
     (st\<lparr>t_db := db\<rparr>)"

text \<open>Lines 584-636, a hash the client has submitted itself.\<close>

definition settle_submitted ::
  "transfer_env \<Rightarrow> nat \<Rightarrow> string \<Rightarrow> tstate \<Rightarrow> (transfer_error + (nat \<times> status)) \<times> tstate" where
  "settle_submitted e i h st =
     (case complete_tx i h (te_now e) (t_db st) of
        None \<Rightarrow> (Inl UniqueViolation, st)
      | Some db \<Rightarrow> (Inr (i, Completed), set_completed i db st))"

text \<open>Lines 642-770, the payment signed with the sender's key.\<close>

definition settle_signed ::
  "transfer_env \<Rightarrow> nat \<Rightarrow> string \<Rightarrow> string \<Rightarrow> string \<Rightarrow> tstate
     \<Rightarrow> (transfer_error + (nat \<times> status)) \<times> tstate" where
  "settle_signed e i secret recipient amount st =
     (let st1 = add_log [Submitted recipient amount] st in
      case te_submit e secret recipient amount of
        SubmitHash h \<Rightarrow>
          (case complete_tx i h (te_now e) (t_db st1) of
             Some db \<Rightarrow> (Inr (i, Completed), set_completed i db st1)
           | None \<Rightarrow> (Inr (i, Failed), set_failed i st1))
      | SubmitFeeSurge m \<Rightarrow> (Inl (FeeSurge m), set_failed i st1)
      | SubmitError _ \<Rightarrow> (Inr (i, Failed), set_failed i st1))"

definition settle_transfer ::
  "transfer_env \<Rightarrow> transfer_options \<Rightarrow> string \<Rightarrow> nat \<Rightarrow> string \<Rightarrow> string \<Rightarrow> tstate
     \<Rightarrow> (transfer_error + (nat \<times> status)) \<times> tstate" where
  "settle_transfer e opts uid i recipient amount st =
     (if truthy (o_submitted_hash opts) then settle_submitted e i (the (o_submitted_hash opts)) st
      else (case o_get_key opts of
              None \<Rightarrow> (Inr (i, Pending), st)
            | Some getKey \<Rightarrow>
                (case getKey uid of
                   KeyError m \<Rightarrow> (Inl (KeyLookupFailed m), st)
                 | KeyNull \<Rightarrow> (Inr (i, Pending), st)
                 | Key secret \<Rightarrow>
                     if secret = [] then (Inr (i, Pending), st)
                     else settle_signed e i secret recipient amount st)))"

text \<open>Lines 510-580: the insertion, with the P2002 path of a request that lost the race for its key.\<close>

definition record_transfer ::
  "transfer_env \<Rightarrow> transfer_options \<Rightarrow> transfer_params \<Rightarrow> string \<Rightarrow> string \<Rightarrow> tstate
     \<Rightarrow> (transfer_error + (nat \<times> status)) \<times> tstate" where
  "record_transfer e opts p amount recipient st =
     (case create_tx (transfer_row e p amount recipient) (t_db st) of
        None \<Rightarrow>
          (case prior_transfer (p_key p) (p_sender p) (t_db st) of
             Some r \<Rightarrow> (Inr (tx_id r, tx_status r), st)
           | None \<Rightarrow> (Inl UniqueViolation, st))
      | Some (db, tx) \<Rightarrow>
          settle_transfer e opts (p_sender p) (tx_id tx) recipient amount
            (add_log [FinancialEvent ''transfer.initiated'' (tx_id tx), AuditEntry ''transfer_initiated'' (tx_id tx)]
               (st\<lparr>t_db := db\<rparr>)))"

section \<open>The handler\<close>

definition createTransfer ::
  "transfer_env \<Rightarrow> transfer_options \<Rightarrow> transfer_params \<Rightarrow> tstate
     \<Rightarrow> (transfer_error + (nat \<times> status)) \<times> tstate" where
  "createTransfer e opts p st =
     (let amount = trim (p_amount p) in
      if \<not> valid_transfer_amount amount then (Inl AmountInvalid, st)
      else
        (case find_user (p_sender p) (w_users (t_wallet st)) of
           None \<Rightarrow> (Inl SenderNotFound, st)
         | Some sender \<Rightarrow>
           if kyc_status sender \<noteq> ''verified'' then (Inl KycRequired, st)
           else
             (case prior_transfer (p_key p) (p_sender p) (t_db st) of
                Some r \<Rightarrow> (Inr (tx_id r, tx_status r), st)
              | None \<Rightarrow>
                bail (map_err WalletFailure (reserveWalletVersion (p_sender p) (o_if_match opts) (t_wallet st))) st
                  (\<lambda>(_, w1). let st1 = st\<lparr>t_wallet := w1\<rparr> in
                     bail (map_err WalletFailure (fetchWalletBalance (te_wallet e) (p_sender p) w1)) st1
                       (\<lambda>((snap, _), w2). let st2 = st1\<lparr>t_wallet := w2\<rparr> in
                          bail (transfer_guards e p amount sender snap st2) st2
                            (\<lambda>recipient. record_transfer e opts p amount recipient st2))))))"

section \<open>What a call does to the state\<close>

lemma add_log_simps [simp]:
  "t_db (add_log es st) = t_db st" "t_wallet (add_log es st) = t_wallet st"
  "t_log (add_log es st) = t_log st @ es" "t_contacts (add_log es st) = t_contacts st"
  by (simp_all add: add_log_def)

lemma set_failed_simps [simp]:
  "t_db (set_failed i st) = update_tx i (\<lambda>r. r\<lparr>tx_status := Failed\<rparr>) (t_db st)"
  "t_wallet (set_failed i st) = t_wallet st"
  "t_log (set_failed i st) = t_log st @ [FinancialEvent ''transfer.failed'' i, AuditEntry ''transfer_failed'' i]"
  by (simp_all add: set_failed_def)

lemma set_completed_simps [simp]:
  "t_db (set_completed i db st) = db"
  "t_wallet (set_completed i db st) = t_wallet st"
  "t_log (set_completed i db st)
     = t_log st @ [FinancialEvent ''transfer.completed'' i, AuditEntry ''transfer_completed'' i]"
  by (simp_all add: set_completed_def)

lemma settle_extends: "tx_extends (t_db st) (t_db (snd (settle_transfer e opts uid i a amount st)))"
  by (auto simp: settle_transfer_def settle_submitted_def settle_signed_def Let_def tx_ident_def
      intro!: tx_extends_update dest: tx_extends_complete
      split: option.splits key_lookup.splits submit_outcome.splits)

lemma settle_id:
  "settle_transfer e opts uid i a amount st = (Inr (j, s), st') \<Longrightarrow> j = i"
  by (auto simp: settle_transfer_def settle_submitted_def settle_signed_def Let_def
      split: option.splits key_lookup.splits submit_outcome.splits if_splits)

definition is_submitted :: "log_entry \<Rightarrow> bool" where
  "is_submitted l = (case l of Submitted _ _ \<Rightarrow> True | _ \<Rightarrow> False)"

lemma is_submitted_simps [simp]:
  "is_submitted (Submitted a b)" "\<not> is_submitted (FinancialEvent n i)" "\<not> is_submitted (AuditEntry n i)"
  by (simp_all add: is_submitted_def)

text \<open>The settlement of an existing row: the status returned is stored, a payment is submitted at most
  once, and the row of a submitted payment does not stay pending.\<close>

lemma settle_outcome:
  assumes "settle_transfer e opts uid i a amount st = (res, st')" and "find_tx i (t_db st) = Some r"
    and "tx_status r = Pending"
  shows "\<exists>r'. find_tx i (t_db st') = Some r' \<and> tx_ident r' = tx_ident r
     \<and> recipient_address r' = recipient_address r
     \<and> (\<forall>j s. res = Inr (j, s) \<longrightarrow> tx_status r' = s)
     \<and> (\<exists>es. t_log st' = t_log st @ es \<and> filter is_submitted es \<in> {[], [Submitted a amount]}
          \<and> (filter is_submitted es \<noteq> [] \<longrightarrow> tx_status r' = Completed \<or> tx_status r' = Failed))
     \<and> (tx_status r' = Completed \<longrightarrow> tx_hash r' \<noteq> None)"
  using assms
  by (auto simp: settle_transfer_def settle_submitted_def settle_signed_def Let_def find_update_same
      tx_ident_def dest!: complete_tx_SomeD
      split: option.splits key_lookup.splits submit_outcome.splits if_splits)

lemma createTransfer_cases:
  assumes "createTransfer e opts p st = (res, st')"
  obtains (nothing) err where "res = Inl err" "t_db st' = t_db st" "t_log st' = t_log st"
  | (replay) r where "prior_transfer (p_key p) (p_sender p) (t_db st) = Some r"
      "res = Inr (tx_id r, tx_status r)" "st' = st"
  | (new) sender v w1 snap ver w2 recipient st2 where
      "prior_transfer (p_key p) (p_sender p) (t_db st) = None"
      "valid_transfer_amount (trim (p_amount p))"
      "find_user (p_sender p) (w_users (t_wallet st)) = Some sender" "kyc_status sender = ''verified''"
      "reserveWalletVersion (p_sender p) (o_if_match opts) (t_wallet st) = Inr (v, w1)"
      "fetchWalletBalance (te_wallet e) (p_sender p) w1 = Inr ((snap, ver), w2)"
      "st2 = st\<lparr>t_wallet := w2\<rparr>"
      "transfer_guards e p (trim (p_amount p)) sender snap st2 = Inr recipient"
      "record_transfer e opts p (trim (p_amount p)) recipient st2 = (res, st')"
proof (cases "\<exists>err. res = Inl err \<and> t_db st' = t_db st \<and> t_log st' = t_log st")
  case True
  then show thesis by (elim exE conjE) (rule nothing)
next
  case live: False
  note def = assms [unfolded createTransfer_def Let_def bail_def map_err_def]
  from def live obtain sender where s: "valid_transfer_amount (trim (p_amount p))"
    "find_user (p_sender p) (w_users (t_wallet st)) = Some sender" "kyc_status sender = ''verified''"
    by (auto split: option.splits if_splits)
  show thesis
  proof (cases "prior_transfer (p_key p) (p_sender p) (t_db st)")
    case (Some r)
    with def s show thesis by (intro replay) auto
  next
    case None
    with def s live obtain v w1 where rw:
      "reserveWalletVersion (p_sender p) (o_if_match opts) (t_wallet st) = Inr (v, w1)"
      by (auto split: sum.splits)
    with None def s live obtain snap ver w2 where fb:
      "fetchWalletBalance (te_wallet e) (p_sender p) w1 = Inr ((snap, ver), w2)"
      by (auto split: sum.splits)
    with rw None def s live obtain recipient where
      g: "transfer_guards e p (trim (p_amount p)) sender snap (st\<lparr>t_wallet := w2\<rparr>) = Inr recipient"
      by (auto split: sum.splits)
    with rw fb None def s show thesis by (intro new [OF None s rw fb refl g]) auto
  qed
qed

section \<open>Properties of a single call\<close>

lemma record_transfer_new:
  assumes "create_tx (transfer_row e p amount a) (t_db st) = Some (db, tx)"
  shows "record_transfer e opts p amount a st = settle_transfer e opts (p_sender p) (tx_id tx) a amount
     (add_log [FinancialEvent ''transfer.initiated'' (tx_id tx), AuditEntry ''transfer_initiated'' (tx_id tx)]
        (st\<lparr>t_db := db\<rparr>))"
  using assms by (simp add: record_transfer_def)

lemma transfer_row_simps [simp]:
  "tx_user (transfer_row e p amount a) = Some (p_sender p)" "tx_key (transfer_row e p amount a) = p_key p"
  "tx_type (transfer_row e p amount a) = TTransfer" "tx_status (transfer_row e p amount a) = Pending"
  "recipient_address (transfer_row e p amount a) = Some a"
  "acbu_amount (transfer_row e p amount a) = Some (decimal_value amount)"
  by (simp_all add: transfer_row_def new_txn_def)

lemma tx_id_upd [simp]: "tx_id (r\<lparr>tx_id := i\<rparr>) = i" "tx_status (r\<lparr>tx_id := i\<rparr>) = tx_status r"
  by simp_all

lemma prior_transfer_SomeD:
  "prior_transfer k uid db = Some r \<Longrightarrow> r \<in> set (tx_rows db) \<and> (\<exists>key. k = Some key \<and> is_prior key uid r)"
  by (auto simp: prior_transfer_def truthy_def dest: find_SomeD split: if_splits option.splits)

lemma find_tx_member:
  assumes "tx_inv db" "r \<in> set (tx_rows db)"
  shows "find_tx (tx_id r) db = Some r"
proof -
  have "distinct (map tx_id rs) \<Longrightarrow> r \<in> set rs \<Longrightarrow> find (\<lambda>q. tx_id q = tx_id r) rs = Some r" for rs
    by (induction rs) (auto simp: image_iff)
  with assms show ?thesis by (simp add: tx_inv_def find_tx_def)
qed

text \<open>A new row, settled: what \<open>settle_outcome\<close> gives for a call that got past the guards.\<close>

lemma record_transfer_outcome:
  assumes inv: "tx_inv (t_db st)" and r: "record_transfer e opts p amount a st = (res, st')"
    and c: "create_tx (transfer_row e p amount a) (t_db st) = Some (db, tx)"
  obtains r' es where "find_tx (tx_id tx) (t_db st') = Some r'" "tx_ident r' = tx_ident tx"
    "recipient_address r' = Some a" "\<And>j s. res = Inr (j, s) \<Longrightarrow> j = tx_id tx \<and> tx_status r' = s"
    "t_log st' = t_log st @ es" "filter is_submitted es \<in> {[], [Submitted a amount]}"
    "filter is_submitted es \<noteq> [] \<Longrightarrow> tx_status r' = Completed \<or> tx_status r' = Failed"
    "tx_status r' = Completed \<Longrightarrow> tx_hash r' \<noteq> None"
proof -
  define st1 where "st1 = add_log [FinancialEvent ''transfer.initiated'' (tx_id tx),
    AuditEntry ''transfer_initiated'' (tx_id tx)] (st\<lparr>t_db := db\<rparr>)"
  from r record_transfer_new [OF c] have s:
    "settle_transfer e opts (p_sender p) (tx_id tx) a amount st1 = (res, st')" by (simp add: st1_def)
  have f: "find_tx (tx_id tx) (t_db st1) = Some tx" using find_created [OF inv c] by (simp add: st1_def)
  have tx: "tx_status tx = Pending" "recipient_address tx = Some a"
    using create_tx_rows [OF c] by simp_all
  from settle_outcome [OF s f tx(1)] obtain r' es where
    o: "find_tx (tx_id tx) (t_db st') = Some r'" "tx_ident r' = tx_ident tx"
    "recipient_address r' = recipient_address tx" "\<forall>j s. res = Inr (j, s) \<longrightarrow> tx_status r' = s"
    "t_log st' = t_log st1 @ es" "filter is_submitted es \<in> {[], [Submitted a amount]}"
    "filter is_submitted es \<noteq> [] \<longrightarrow> tx_status r' = Completed \<or> tx_status r' = Failed"
    "tx_status r' = Completed \<longrightarrow> tx_hash r' \<noteq> None" by blast
  let ?es = "[FinancialEvent ''transfer.initiated'' (tx_id tx), AuditEntry ''transfer_initiated'' (tx_id tx)] @ es"
  have "t_log st' = t_log st @ ?es" using o(5) by (simp add: st1_def)
  moreover have "filter is_submitted ?es = filter is_submitted es" by simp
  ultimately show thesis using o s settle_id [of e opts "p_sender p" "tx_id tx" a amount st1]
    by (intro that [of r' ?es]) (auto simp: tx)
qed

text \<open>
  C23. The status \<open>createTransfer\<close> reports is the status stored: a successful call names a row of the
  table that belongs to the sender, is a transfer, and has the reported status; a row the call itself
  completed carries a transaction hash.
\<close>

theorem transfer_reports_stored_row:
  assumes "tx_inv (t_db st)" and "createTransfer e opts p st = (Inr (i, s), st')"
  shows "\<exists>r. find_tx i (t_db st') = Some r \<and> tx_status r = s \<and> tx_user r = Some (p_sender p)
     \<and> tx_type r = TTransfer \<and> (t_db st' \<noteq> t_db st \<and> s = Completed \<longrightarrow> tx_hash r \<noteq> None)"
  using assms(2)
proof (cases rule: createTransfer_cases)
  case (replay r)
  with assms(1) show ?thesis by (auto dest!: prior_transfer_SomeD simp: find_tx_member is_prior_def)
next
  case (new sender v w1 snap ver w2 a st2)
  have inv: "tx_inv (t_db st2)" and prior: "prior_transfer (p_key p) (p_sender p) (t_db st2) = None"
    using assms(1) new(1,7) by simp_all
  from new(9) prior obtain db tx where c: "create_tx (transfer_row e p (trim (p_amount p)) a) (t_db st2) = Some (db, tx)"
    by (auto simp: record_transfer_def split: option.splits)
  have tx: "tx_user tx = Some (p_sender p)" "tx_type tx = TTransfer" using create_tx_rows [OF c] by simp_all
  show ?thesis
    by (rule record_transfer_outcome [OF inv new(9) c]) (use tx assms(2) in \<open>auto simp: tx_ident_def\<close>)
qed simp

definition sample_tstate :: tstate where
  "sample_tstate = \<lparr>t_wallet = sample_wallets, t_contacts = [], t_db = empty_db, t_log = []\<rparr>"

definition sample_tenv :: "bool \<Rightarrow> submit_outcome \<Rightarrow> transfer_env" where
  "sample_tenv enf out = \<lparr>te_wallet = sample_env ''2000.5'',
     te_travel = \<lparr>threshold_acbu = 1000, enforce = enf, tr_mode = ''strict''\<rparr>,
     te_submit = (\<lambda>_ _ _. out), te_now = 77\<rparr>"

definition sample_params :: "string \<Rightarrow> transfer_params" where
  "sample_params amount = \<lparr>p_sender = ''u1'', p_to = ''@bob'', p_amount = amount, p_key = Some ''k1''\<rparr>"

definition sample_options :: transfer_options where
  "sample_options = \<lparr>o_if_match = Some (formatWalletEtag 3), o_get_key = Some (\<lambda>_. Key ''S''),
     o_submitted_hash = None\<rparr>"

lemma tx_inv_sample: "tx_inv (t_db sample_tstate)"
  by (simp add: sample_tstate_def tx_inv_empty)

lemma sample_transfer:
  "case createTransfer (sample_tenv True (SubmitHash ''h1'')) sample_options (sample_params ''12.5'') sample_tstate of (r, st1) \<Rightarrow>
     r = Inr (0, Completed) \<and> length (tx_rows (t_db st1)) = 1 \<and> length (filter is_submitted (t_log st1)) = 1 \<and>
     fst (createTransfer (sample_tenv True (SubmitHash ''h1'')) sample_options (sample_params ''12.5'') st1) = Inr (0, Completed)"
  by code_simp

theorem transfer_reports_stored_row_witness:
  "case createTransfer (sample_tenv True (SubmitHash ''h1'')) sample_options (sample_params '' 12.5 '') sample_tstate of
     (Inr (i, s), st') \<Rightarrow> s = Completed \<and> (\<exists>r. find_tx i (t_db st') = Some r \<and> tx_status r = Completed)
   | _ \<Rightarrow> False"
proof -
  let ?c = "createTransfer (sample_tenv True (SubmitHash ''h1'')) sample_options (sample_params '' 12.5 '') sample_tstate"
  have run: "case ?c of (Inr (i, s), st') \<Rightarrow> s = Completed | _ \<Rightarrow> False" by code_simp
  then obtain i st' where c: "?c = (Inr (i, Completed), st')" by (auto split: prod.splits sum.splits)
  from transfer_reports_stored_row [OF tx_inv_sample c] c show ?thesis by auto
qed

lemma prior_transfer_replays:
  assumes "createTransfer e opts p st = (res, st')" and "prior_transfer (p_key p) (p_sender p) (t_db st) = Some r"
  shows "st' = st"
  using assms by (auto simp: createTransfer_def Let_def split: if_splits option.splits)

text \<open>
  C1. Every guard holds whenever a transfer changes the state. A call that changes anything, the wallet
  version included, found no transfer of the sender under its idempotency key. And if it changes
  the transactions table, then the amount is a positive decimal with at most seven places, the sender exists and is
  verified, the wallet version named by the request was reserved, the balance read afterwards is not below the
  amount, the recipient resolved to an address other than the sender's, and the Travel Rule check
  passed.
\<close>

theorem transfer_changes_only_when_guarded:
  assumes "createTransfer e opts p st = (res, st')"
  shows "(st' \<noteq> st \<longrightarrow> prior_transfer (p_key p) (p_sender p) (t_db st) = None) \<and>
   (t_db st' \<noteq> t_db st \<longrightarrow> (\<exists>sender v w1 snap ver w2 a.
     valid_transfer_amount (trim (p_amount p))
   \<and> find_user (p_sender p) (w_users (t_wallet st)) = Some sender \<and> kyc_status sender = ''verified''
   \<and> reserveWalletVersion (p_sender p) (o_if_match opts) (t_wallet st) = Inr (v, w1)
   \<and> fetchWalletBalance (te_wallet e) (p_sender p) w1 = Inr ((snap, ver), w2)
   \<and> \<not> js_lt (amountToSmallestUnit (if balance snap = [] then ''0'' else balance snap))
          (amountToSmallestUnit (trim (p_amount p)))
   \<and> resolveRecipientAddress (w_users w2) (t_contacts st) (p_to p) (p_sender p) = Inr (Some a)
   \<and> a \<noteq> [] \<and> stellar_address sender \<noteq> Some a
   \<and> checkTravelRuleCompliance (te_travel e) (trim (p_amount p)) False))"
proof (intro conjI impI)
  show "prior_transfer (p_key p) (p_sender p) (t_db st) = None" if changed: "st' \<noteq> st"
    using prior_transfer_replays [OF assms] changed by (cases "prior_transfer (p_key p) (p_sender p) (t_db st)") auto
next
  assume changed: "t_db st' \<noteq> t_db st"
  from assms show "\<exists>sender v w1 snap ver w2 a.
     valid_transfer_amount (trim (p_amount p))
   \<and> find_user (p_sender p) (w_users (t_wallet st)) = Some sender \<and> kyc_status sender = ''verified''
   \<and> reserveWalletVersion (p_sender p) (o_if_match opts) (t_wallet st) = Inr (v, w1)
   \<and> fetchWalletBalance (te_wallet e) (p_sender p) w1 = Inr ((snap, ver), w2)
   \<and> \<not> js_lt (amountToSmallestUnit (if balance snap = [] then ''0'' else balance snap))
          (amountToSmallestUnit (trim (p_amount p)))
   \<and> resolveRecipientAddress (w_users w2) (t_contacts st) (p_to p) (p_sender p) = Inr (Some a)
   \<and> a \<noteq> [] \<and> stellar_address sender \<noteq> Some a
   \<and> checkTravelRuleCompliance (te_travel e) (trim (p_amount p)) False"
  proof (cases rule: createTransfer_cases)
    case (new sender v w1 snap ver w2 a st2)
    from new(8) have g: "\<not> js_lt (amountToSmallestUnit (if balance snap = [] then ''0'' else balance snap))
         (amountToSmallestUnit (trim (p_amount p)))"
      "resolveRecipientAddress (w_users w2) (t_contacts st) (p_to p) (p_sender p) = Inr (Some a)"
      "a \<noteq> []" "stellar_address sender \<noteq> Some a"
      "checkTravelRuleCompliance (te_travel e) (trim (p_amount p)) False"
      by (auto simp: transfer_guards_def Let_def new(7) bindR_Inr_iff truthy_def split: if_splits option.splits)
    show ?thesis by (intro exI conjI) (fact new g)+
  qed (use changed in auto)
qed

theorem transfer_changes_only_when_guarded_witness:
  "let amt = ''12.5''; e = sample_tenv True (SubmitHash ''h1'');
       st' = snd (createTransfer e sample_options (sample_params amt) sample_tstate) in
   length (tx_rows (t_db st')) = 1 \<and> checkTravelRuleCompliance (te_travel e) (trim amt) False
   \<and> prior_transfer (Some ''k1'') ''u1'' (t_db sample_tstate) = None"
proof -
  let ?st' = "snd (createTransfer (sample_tenv True (SubmitHash ''h1'')) sample_options (sample_params ''12.5'') sample_tstate)"
  have n: "length (tx_rows (t_db ?st')) = 1" using sample_transfer by (simp add: case_prod_beta)
  then have d: "t_db ?st' \<noteq> t_db sample_tstate" by (auto simp: sample_tstate_def empty_db_def)
  then have "?st' \<noteq> sample_tstate" by metis
  with transfer_changes_only_when_guarded [OF prod.collapse [symmetric],
      of "sample_tenv True (SubmitHash ''h1'')" sample_options "sample_params ''12.5''" sample_tstate] n d
  show ?thesis by (auto simp: sample_params_def)
qed

text \<open>
  C2. A call submits at most one payment, for the request's own amount, and never leaves it
  unaccounted: after a submission the row that names the recipient is completed (with its hash) or
  failed, whether the call returns or throws.
\<close>

theorem submitted_payment_is_settled:
  assumes "tx_inv (t_db st)" and "createTransfer e opts p st = (res, st')"
  shows "\<exists>es. t_log st' = t_log st @ es \<and>
     (filter is_submitted es = [] \<or>
      (\<exists>a r. filter is_submitted es = [Submitted a (trim (p_amount p))]
         \<and> r \<in> set (tx_rows (t_db st')) \<and> recipient_address r = Some a
         \<and> acbu_amount r = Some (decimal_value (trim (p_amount p)))
         \<and> (tx_status r = Completed \<and> tx_hash r \<noteq> None \<or> tx_status r = Failed)))"
  using assms(2)
proof (cases rule: createTransfer_cases)
  case (new sender v w1 snap ver w2 a st2)
  have inv: "tx_inv (t_db st2)" and prior: "prior_transfer (p_key p) (p_sender p) (t_db st2) = None"
    using assms(1) new(1,7) by simp_all
  show ?thesis
  proof (cases "create_tx (transfer_row e p (trim (p_amount p)) a) (t_db st2)")
    case None
    with new(9) prior new(7) show ?thesis by (auto simp: record_transfer_def)
  next
    case (Some dt)
    obtain db tx where c: "create_tx (transfer_row e p (trim (p_amount p)) a) (t_db st2) = Some (db, tx)"
      using Some by (cases dt) auto
    have tx: "acbu_amount tx = Some (decimal_value (trim (p_amount p)))" using create_tx_rows [OF c] by simp
    show ?thesis
    proof (rule record_transfer_outcome [OF inv new(9) c], goal_cases)
      case (1 r es)
      have "r \<in> set (tx_rows (t_db st'))" using "1"(1) by (auto simp: find_tx_def dest: find_SomeD)
      moreover have "acbu_amount r = Some (decimal_value (trim (p_amount p)))"
        using "1"(2) tx by (simp add: tx_ident_def)
      ultimately show ?case using "1"(3,5-8) new(7) by (intro exI [of _ es]) auto
    qed
  qed
qed auto

theorem submitted_payment_is_settled_witness:
  "let st' = snd (createTransfer (sample_tenv False (SubmitFeeSurge ''fee'')) sample_options (sample_params ''12.5'') sample_tstate)
   in filter is_submitted (t_log st') = [Submitted ''GBOB'' ''12.5'']
      \<and> (\<exists>r \<in> set (tx_rows (t_db st')). tx_status r = Failed)"
proof -
  define c where "c = createTransfer (sample_tenv False (SubmitFeeSurge ''fee'')) sample_options (sample_params ''12.5'') sample_tstate"
  have "case c of (_, st) \<Rightarrow> filter is_submitted (t_log st) = [Submitted ''GBOB'' ''12.5''] \<and>
      \<not> (\<exists>r \<in> set (tx_rows (t_db st)). tx_status r = Completed)" unfolding c_def by code_simp
  then have run: "filter is_submitted (t_log (snd c)) = [Submitted ''GBOB'' ''12.5'']"
    and nc: "\<not> (\<exists>r \<in> set (tx_rows (t_db (snd c))). tx_status r = Completed)" by (simp_all add: case_prod_beta)
  have "t_log sample_tstate = []" by (simp add: sample_tstate_def)
  with submitted_payment_is_settled [OF tx_inv_sample c_def [symmetric, THEN trans, OF prod.collapse [symmetric]]] run nc
  show ?thesis unfolding c_def [symmetric] Let_def by auto
qed

section \<open>Idempotency\<close>

text \<open>Calls served one after the other; whatever each returned is dropped.\<close>

fun run_transfers :: "(transfer_env \<times> transfer_options \<times> transfer_params) list \<Rightarrow> tstate \<Rightarrow> tstate" where
  "run_transfers [] st = st"
| "run_transfers ((e, opts, p) # cs) st = run_transfers cs (snd (createTransfer e opts p st))"

lemma record_transfer_extends:
  assumes "record_transfer e opts p amount a st = (res, st')"
  shows "tx_extends (t_db st) (t_db st')"
proof (cases "create_tx (transfer_row e p amount a) (t_db st)")
  case None
  with assms show ?thesis by (auto simp: record_transfer_def split: option.splits)
next
  case (Some dt)
  obtain db tx where c: "create_tx (transfer_row e p amount a) (t_db st) = Some (db, tx)"
    using Some by (cases dt) auto
  let ?st1 = "add_log [FinancialEvent ''transfer.initiated'' (tx_id tx), AuditEntry ''transfer_initiated'' (tx_id tx)]
        (st\<lparr>t_db := db\<rparr>)"
  from assms record_transfer_new [OF c] settle_extends [of ?st1 e opts "p_sender p" "tx_id tx" a amount]
  have "tx_extends db (t_db st')" by simp
  with tx_extends_create [OF c] show ?thesis by (rule tx_extends_trans)
qed

lemma createTransfer_extends:
  assumes "createTransfer e opts p st = (res, st')"
  shows "tx_extends (t_db st) (t_db st')"
  using assms by (cases rule: createTransfer_cases) (auto dest!: record_transfer_extends)

lemma run_transfers_extends: "tx_extends (t_db st) (t_db (run_transfers cs st))"
proof (induction cs arbitrary: st)
  case (Cons c cs)
  obtain e opts p where c: "c = (e, opts, p)" by (cases c) auto
  have "tx_extends (t_db st) (t_db (snd (createTransfer e opts p st)))"
    by (rule createTransfer_extends [OF prod.collapse [symmetric]])
  with Cons.IH c show ?case by (auto intro: tx_extends_trans)
qed simp

lemma is_prior_ident: "is_prior k uid r \<longleftrightarrow> (\<lambda>(i, u, key, ty, a). key = Some k \<and> u = Some uid \<and> ty = TTransfer) (tx_ident r)"
  by (auto simp: is_prior_def tx_ident_def)

lemma prior_extends:
  assumes "tx_extends db db'" "prior_transfer k uid db = Some r"
  shows "\<exists>r'. prior_transfer k uid db' = Some r' \<and> tx_id r' = tx_id r"
  using assms find_extends [of "is_prior (the k) uid", OF is_prior_ident, of db db' r]
  by (auto simp: prior_transfer_def tx_ident_def split: if_splits)

text \<open>After a call that returned, its key leads to the row it returned.\<close>

lemma prior_after:
  assumes "createTransfer e opts p st = (Inr (i, s), st')" and "truthy (p_key p)"
  shows "\<exists>r. prior_transfer (p_key p) (p_sender p) (t_db st') = Some r \<and> tx_id r = i"
  using assms(1)
proof (cases rule: createTransfer_cases)
  case (new sender v w1 snap ver w2 a st2)
  have prior: "prior_transfer (p_key p) (p_sender p) (t_db st2) = None" using new(1,7) by simp
  from new(9) prior obtain db tx where c: "create_tx (transfer_row e p (trim (p_amount p)) a) (t_db st2) = Some (db, tx)"
    by (auto simp: record_transfer_def split: option.splits)
  have rows: "tx_rows db = tx_rows (t_db st2) @ [tx]" "is_prior (the (p_key p)) (p_sender p) tx"
    using create_tx_rows [OF c] assms(2) by (auto simp: is_prior_def elim: truthyE)
  with prior assms(2) have "prior_transfer (p_key p) (p_sender p) db = Some tx"
    by (simp add: prior_transfer_def find_append)
  moreover have "tx_extends db (t_db st')" and "i = tx_id tx"
    using new(9) record_transfer_new [OF c] settle_id settle_extends [of "add_log
      [FinancialEvent ''transfer.initiated'' (tx_id tx), AuditEntry ''transfer_initiated'' (tx_id tx)]
      (st2\<lparr>t_db := db\<rparr>)" e opts "p_sender p" "tx_id tx" a "trim (p_amount p)"] by auto
  ultimately show ?thesis by (auto dest: prior_extends)
qed auto

text \<open>
  C3. Retries are harmless. Once a call with an idempotency key has returned a transaction, a later call
  of the same sender with the same key, after any number of calls by anyone, changes nothing (no row, no
  wallet version, no payment, no event) and, unless it is refused for its amount or its sender, returns
  the same transaction.
\<close>

theorem transfer_retry_harmless:
  assumes "createTransfer e opts p st = (Inr (i, s), st1)" and "truthy (p_key p)"
    and "p_sender p' = p_sender p" "p_key p' = p_key p"
    and "createTransfer e' opts' p' (run_transfers cs st1) = (res, st2)"
  shows "st2 = run_transfers cs st1
    \<and> (case res of Inr (j, _) \<Rightarrow> j = i | Inl err \<Rightarrow> err \<in> {AmountInvalid, SenderNotFound, KycRequired})"
proof -
  from prior_after [OF assms(1,2)] prior_extends [OF run_transfers_extends [of st1 cs]]
  obtain r where "prior_transfer (p_key p') (p_sender p') (t_db (run_transfers cs st1)) = Some r" "tx_id r = i"
    using assms(3,4) by fastforce
  with assms(5) show ?thesis by (auto simp: createTransfer_def Let_def split: if_splits option.splits)
qed

theorem transfer_retry_harmless_witness:
  "let e = sample_tenv True (SubmitHash ''h1''); p = sample_params ''12.5'';
       st1 = snd (createTransfer e sample_options p sample_tstate);
       (res, st2) = createTransfer e sample_options p st1
   in st2 = st1 \<and> res = Inr (0, Completed) \<and> length (filter is_submitted (t_log st2)) = 1"
proof -
  define e p where "e = sample_tenv True (SubmitHash ''h1'')" and "p = sample_params ''12.5''"
  obtain r1 st1 where c1: "createTransfer e sample_options p sample_tstate = (r1, st1)" by fastforce
  obtain r2 st2 where c2: "createTransfer e sample_options p st1 = (r2, st2)" by fastforce
  note run = sample_transfer [folded e_def p_def, unfolded c1 prod.case]
  then have c1': "createTransfer e sample_options p sample_tstate = (Inr (0, Completed), st1)" using c1 by simp
  have r2: "r2 = Inr (0, Completed)" using run c2 by simp
  have "length (filter is_submitted (t_log (snd (createTransfer e sample_options p sample_tstate)))) = 1" using run c1 by simp
  moreover have "st2 = st1"
    using transfer_retry_harmless [OF c1', of p e sample_options "[]" r2 st2] c2
    by (simp add: truthy_def p_def sample_params_def)
  ultimately show ?thesis using c1 c2 r2 by (simp add: Let_def flip: e_def p_def)
qed

section \<open>Amounts\<close>

lemma pad_frac:
  assumes "list_all is_digit f" "length f \<le> 7"
  shows "parse_int (pad_end 7 (CHR ''0'') f) = Fin (of_int (digits_val 0 f * 10 ^ (7 - length f)))"
    and "digits_val 0 f * 10 ^ (7 - length f) < 10000000" "0 \<le> digits_val 0 f * 10 ^ (7 - length f)"
proof -
  let ?g = "pad_end 7 (CHR ''0'') f"
  have d: "list_all is_digit ?g" "length ?g = 7" "?g \<noteq> []"
    using assms by (auto simp: pad_end_def is_digit_def list_all_iff)
  have v: "digits_val 0 ?g = digits_val 0 f * 10 ^ (7 - length f)"
    by (simp add: pad_end_def digits_val_append digits_val_zeros)
  have b: "0 \<le> digits_val 0 ?g" "digits_val 0 ?g < 10 ^ 7"
    using digits_val_bounds [OF d(1)] unfolding d(2) by auto
  from b v show "digits_val 0 f * 10 ^ (7 - length f) < 10000000" "0 \<le> digits_val 0 f * 10 ^ (7 - length f)"
    by auto
  have "f64 (of_int (digits_val 0 ?g)) = of_int (digits_val 0 ?g)" using b by (intro f64.rnd_int) auto
  with parse_int_digits [OF d(3,1)] v show "parse_int ?g = Fin (of_int (digits_val 0 f * 10 ^ (7 - length f)))" by simp
qed

lemma units_exact:
  assumes "w \<noteq> []" "list_all is_digit w" "list_all is_digit f" "length f \<le> 7" "digits_val 0 w < 900000000"
    and "amt = (if f = [] then w else w @ CHR ''.'' # f)"
  shows "amountToSmallestUnit amt = Fin (of_int (digits_val 0 w * 10000000 + digits_val 0 f * 10 ^ (7 - length f)))"
proof -
  let ?W = "digits_val 0 w" and ?F = "digits_val 0 f * 10 ^ (7 - length f)"
  have dot: "CHR ''.'' \<notin> set w" "CHR ''.'' \<notin> set f"
    using assms(2,3) digit_not_sign by (auto simp: list_all_iff)
  have parts: "hd (split_on (CHR ''.'') amt) = w"
     "(if length (split_on (CHR ''.'') amt) < 2 then '''' else split_on (CHR ''.'') amt ! 1) = f"
    by (simp_all add: assms(6) split_on_id dot split_on_append)
  have W: "0 \<le> ?W" using digits_val_bounds [OF assms(2)] by simp
  have "f64 (of_int ?W) = of_int ?W" using W assms(5) by (intro f64.rnd_int) auto
  then have pw: "parse_int w = Fin (of_int ?W)" using parse_int_digits [OF assms(1,2)] by simp
  have "f64 (of_int (?W * 10000000)) = of_int (?W * 10000000)" using W assms(5) by (intro f64.rnd_int) auto
  then have m: "js_scale (parse_int w) 10000000 = Fin (of_int (?W * 10000000))" by (simp add: js_scale_def pw)
  note F = pad_frac [OF assms(3,4)]
  have "f64 (of_int (?W * 10000000 + ?F)) = of_int (?W * 10000000 + ?F)"
    using W assms(5) F(2,3) by (intro f64.rnd_int) auto
  then have "js_add (Fin (of_int (?W * 10000000))) (Fin (of_int ?F)) = Fin (of_int (?W * 10000000 + ?F))"
    by (simp add: js_add_def)
  then show ?thesis
    using m F(1) assms(4) unfolding amountToSmallestUnit_def Let_def parts by simp
qed

text \<open>
  No float drift: for every amount the handler accepts, with an integral part below 900 million, the
  conversion to stroops is exact (the value times 10^7).
\<close>

theorem amountToSmallestUnit_exact:
  assumes "decimal_shape 7 amt" and "decimal_value amt < 900000000"
  shows "amountToSmallestUnit amt = Fin (decimal_value amt * 10000000)"
  using assms(1)
proof (cases rule: decimal_shapeE)
  case whole
  with assms(2) have "digits_val 0 amt < 900000000" by simp
  with units_exact [of amt "[]" amt] whole show ?thesis by simp
next
  case (frac w f)
  have nn: "0 \<le> digits_val 0 f" using digits_val_bounds [OF frac(6)] by simp
  have "of_int (digits_val 0 w) \<le> decimal_value amt" using nn by (simp add: frac(7))
  with assms(2) have "digits_val 0 w < 900000000" by linarith
  with units_exact [of w f amt] frac
  have "amountToSmallestUnit amt
      = Fin (of_int (digits_val 0 w * 10000000 + digits_val 0 f * 10 ^ (7 - length f)))" by simp
  moreover have "(10::rat) ^ (7 - length f) = 10 ^ 7 / 10 ^ length f"
    using frac(5) by (simp add: power_diff)
  ultimately show ?thesis by (simp add: frac(7) field_simps)
qed

theorem amountToSmallestUnit_exact_witness:
  "amountToSmallestUnit ''12.3456789'' = Fin (decimal_value ''12.3456789'' * 10000000)
   \<and> amountToSmallestUnit ''12.3456789'' = Fin 123456789"
proof -
  have d: "decimal_shape 7 ''12.3456789''" by code_simp
  have v: "decimal_value ''12.3456789'' = 123456789 / 10000000" by code_simp
  from amountToSmallestUnit_exact [OF d] v show ?thesis by simp
qed

definition one_stroop_env :: transfer_env where
  "one_stroop_env = \<lparr>te_wallet = sample_env ''0.0000001'',
     te_travel = \<lparr>threshold_acbu = 1000, enforce = True, tr_mode = ''strict''\<rparr>,
     te_submit = (\<lambda>_ _ _. SubmitHash ''h1''), te_now = 77\<rparr>"

text \<open>
  The conversion is not safe on the balance side: a balance of one stroop, which the wallet service
  prints with \<open>String(n)\<close> as "1e-7", is read as one whole ACBU, so a sender who owns 0.0000001 ACBU
  passes the balance guard for a transfer of 1 ACBU.
\<close>

theorem one_stroop_balance_reads_as_one_acbu:
  "amountToSmallestUnit (js_num_str (f64 (1 / 10000000))) = amountToSmallestUnit ''1''
   \<and> fst (createTransfer one_stroop_env sample_options (sample_params ''1'') sample_tstate)
       = Inr (0, Completed)"
proof (rule conjI)
  show "amountToSmallestUnit (js_num_str (f64 (1 / 10000000))) = amountToSmallestUnit ''1''" by code_simp
  show "fst (createTransfer one_stroop_env sample_options (sample_params ''1'') sample_tstate)
       = Inr (0, Completed)" by code_simp
qed

end
