(* ===== verification/TransferPayment.thy ===== *)
theory TransferPayment
  imports Transfers
begin

text \<open>
  The payment loop of \<open>src/services/transfer/transferService.ts\<close> (the first body of
  \<open>createTransfer\<close>, lines 299-427): price, build, re-validate the fee, submit, and retry an underpriced
  transaction at most \<open>MAX_SUBMIT_ATTEMPTS\<close> times. What Horizon answers during attempt \<open>n\<close> is a
  parameter, a function of \<open>n\<close>. \<open>new Prisma.Decimal(amount)\<close> is third party and a parameter.
\<close>

definition MAX_SUBMIT_ATTEMPTS :: nat where
  "MAX_SUBMIT_ATTEMPTS = 3"

section \<open>Fee rejections\<close>

text \<open>An error thrown by the submission: its message, when that is a string, and Horizon's result codes.
  \<open>rc_operations = None\<close> when the field is not an array.\<close>

record horizon_error =
  err_message :: "string option"
  rc_transaction :: "string option"
  rc_operations :: "string list option"
  rc_transactions :: "string list"
  extras_transactions :: "string list"

definition is_fee_code :: "string \<Rightarrow> bool" where
  "is_fee_code c \<longleftrightarrow> c = ''tx_insufficient_fee''"

definition isInsufficientFeeRejection :: "horizon_error \<Rightarrow> bool" where
  "isInsufficientFeeRejection e =
     (if (case err_message e of Some m \<Rightarrow> str_includes m ''tx_insufficient_fee'' | None \<Rightarrow> False) then True
      else if truthy (rc_transaction e) \<and> is_fee_code (the (rc_transaction e)) then True
      else if (case rc_operations e of Some cs \<Rightarrow> list_ex is_fee_code cs | None \<Rightarrow> False) then True
      else if rc_transaction e = Some ''tx_fee_bump_inner_failed''
        then list_ex is_fee_code (extras_transactions e @ rc_transactions e)
      else (case err_message e of Some m \<Rightarrow> is_fee_code (trim m) | None \<Rightarrow> False))"

text \<open>\<open>raw\<close> is what \<open>getBaseFee()\<close> answers, \<open>None\<close> when it throws.\<close>

definition revalidateFeeBeforeSubmit :: "payment_fee_quote \<Rightarrow> string option \<Rightarrow> bool \<times> rat option" where
  "revalidateFeeBeforeSubmit q raw =
     (case raw of
        None \<Rightarrow> (True, None)
      | Some s \<Rightarrow> (case parse_int s of
            Fin n \<Rightarrow> (n \<le> fee_stroops q, Some n)
          | _ \<Rightarrow> (True, None)))"

section \<open>The loop\<close>

record attempt =
  at_quote :: "fee_error + payment_fee_quote"
  at_build_error :: "string option"    \<comment> \<open>loading the account, building or signing throws\<close>
  at_base_fee :: "string option"
  at_submit :: "horizon_error + string"

datatype payment_error =
    KeyRequired
  | SenderWithoutAddress
  | QueryInvalid query_error
  | RecipientUnresolved
  | PaymentAmountInvalid
  | DecimalInvalid
  | DuplicateKey
  | KeyThrows string
  | QuoteFailed fee_error
  | BuildFailed string
  | SubmissionFailed horizon_error
  | EndedWithoutResult

fun submit_attempts ::
  "nat \<Rightarrow> nat \<Rightarrow> (nat \<Rightarrow> attempt) \<Rightarrow> nat \<Rightarrow> string \<Rightarrow> string \<Rightarrow> tstate
     \<Rightarrow> (payment_error + (nat \<times> status \<times> string option)) \<times> tstate" where
  "submit_attempts 0 n as i a amount st = (Inl EndedWithoutResult, st)"
| "submit_attempts (Suc k) n as i a amount st =
     (case at_quote (as n) of
        Inl fe \<Rightarrow> (Inl (QuoteFailed fe), st)
      | Inr q \<Rightarrow>
        (case at_build_error (as n) of
           Some m \<Rightarrow> (Inl (BuildFailed m), st)
         | None \<Rightarrow>
           if \<not> fst (revalidateFeeBeforeSubmit q (at_base_fee (as n)))
           then submit_attempts k (Suc n) as i a amount st
           else
             (let st1 = add_log [Submitted a amount] st in
              case at_submit (as n) of
                Inr h \<Rightarrow>
                  (Inr (i, Completed, Some h),
                   add_log [FinancialEvent ''transfer.completed'' i]
                     (st1\<lparr>t_db := update_tx i (\<lambda>r. r\<lparr>tx_status := Completed, tx_hash := Some h\<rparr>) (t_db st1)\<rparr>))
              | Inl e \<Rightarrow>
                  if \<not> isInsufficientFeeRejection e then (Inl (SubmissionFailed e), st1)
                  else submit_attempts k (Suc n) as i a amount st1)))"

record payment_params =
  pp_key :: "string option"
  pp_from :: string
  pp_to :: string
  pp_amount :: string

definition createTransfer_payment ::
  "(string \<Rightarrow> rat option) \<Rightarrow> int \<Rightarrow> (unit \<Rightarrow> string + string) option \<Rightarrow> (nat \<Rightarrow> attempt) \<Rightarrow> payment_params
     \<Rightarrow> tstate \<Rightarrow> (payment_error + (nat \<times> status \<times> string option)) \<times> tstate" where
  "createTransfer_payment decimal now getKey as p st =
     bail (map_err (\<lambda>_. KeyRequired) (requireIdempotencyKey (pp_key p))) st (\<lambda>key.
       let users = w_users (t_wallet st); address = Option.bind (find_user (pp_from p) users) stellar_address in
       if \<not> truthy address then (Inl SenderWithoutAddress, st)
       else
         bail (map_err QueryInvalid (resolveRecipientAddress users (t_contacts st) (pp_to p) (pp_from p))) st
           (\<lambda>res.
             if \<not> truthy res then (Inl RecipientUnresolved, st)
             else if \<not> js_lt (Fin 0) (amountToSmallestUnit (pp_amount p)) then (Inl PaymentAmountInvalid, st)
             else
               (case find_tx_by_key key (t_db st) of
                  Some r \<Rightarrow> (Inr (tx_id r, tx_status r, tx_hash r), st)
                | None \<Rightarrow>
                  (case decimal (pp_amount p) of
                     None \<Rightarrow> (Inl DecimalInvalid, st)
                   | Some d \<Rightarrow>
                     (case create_tx ((new_txn TTransfer Pending now)\<lparr>tx_user := Some (pp_from p), tx_key := Some key,
                              acbu_amount := Some d\<rparr>) (t_db st) of
                        None \<Rightarrow> (Inl DuplicateKey, st)
                      | Some (db, tx) \<Rightarrow>
                        (let st1 = st\<lparr>t_db := db\<rparr> in
                         case getKey of
                           None \<Rightarrow> (Inr (tx_id tx, Pending, None), st1)
                         | Some f \<Rightarrow>
                           (case f () of
                              Inl m \<Rightarrow> (Inl (KeyThrows m), st1)
                            | Inr _ \<Rightarrow> submit_attempts MAX_SUBMIT_ATTEMPTS 0 as (tx_id tx) (the res) (pp_amount p) st1)))))))"

section \<open>Properties\<close>

lemma trim_sublist: "sublist (trim m) m"
proof -
  have s: "sublist (trim_start m) m"
    unfolding trim_start_def by (metis sublist_append_leftI sublist_order.order_refl takeWhile_dropWhile_id)
  have e: "sublist (trim_end s) s" for s
  proof -
    have "s = trim_end s @ rev (takeWhile js_space (rev s))"
      unfolding trim_end_def by (metis rev_append rev_rev_ident takeWhile_dropWhile_id)
    then show ?thesis by (metis sublist_append_rightI sublist_order.order_refl)
  qed
  show ?thesis unfolding trim_def using s e sublist_order.order_trans by blast
qed

text \<open>The last test of \<open>isInsufficientFeeRejection\<close> never succeeds: it repeats the first.\<close>

lemma isInsufficientFeeRejection_eq:
  "isInsufficientFeeRejection e \<longleftrightarrow>
     (\<exists>m. err_message e = Some m \<and> str_includes m ''tx_insufficient_fee'')
   \<or> rc_transaction e = Some ''tx_insufficient_fee''
   \<or> (\<exists>cs. rc_operations e = Some cs \<and> ''tx_insufficient_fee'' \<in> set cs)
   \<or> rc_transaction e = Some ''tx_fee_bump_inner_failed''
       \<and> ''tx_insufficient_fee'' \<in> set (extras_transactions e @ rc_transactions e)"
proof -
  have "str_includes m ''tx_insufficient_fee''" if "trim m = ''tx_insufficient_fee''" for m
    using trim_sublist [of m] that by (simp add: str_includes_def)
  then show ?thesis
    by (auto simp: isInsufficientFeeRejection_def is_fee_code_def list_ex_iff truthy_def split: option.splits)
qed

text \<open>The loop's effect: at most one submission per attempt; the row is completed exactly when the call
  returns, and otherwise unchanged.\<close>

definition loop_effect ::
  "nat \<Rightarrow> nat \<Rightarrow> tstate \<Rightarrow> payment_error + (nat \<times> status \<times> string option) \<Rightarrow> tstate \<Rightarrow> bool" where
  "loop_effect k i st res st' \<longleftrightarrow>
     (\<exists>es. t_log st' = t_log st @ es \<and> length (filter is_submitted es) \<le> k \<and>
       (case res of
          Inr (j, s, h) \<Rightarrow> j = i \<and> s = Completed \<and> h \<noteq> None \<and> filter is_submitted es \<noteq> []
            \<and> t_db st' = update_tx i (\<lambda>r. r\<lparr>tx_status := Completed, tx_hash := h\<rparr>) (t_db st)
        | Inl _ \<Rightarrow> t_db st' = t_db st))"

lemma loop_effect_skip: "loop_effect k i st res st' \<Longrightarrow> loop_effect (Suc k) i st res st'"
  unfolding loop_effect_def by (elim exE conjE) (intro exI conjI, auto)

lemma loop_effect_retry:
  assumes "loop_effect k i (add_log [Submitted a amount] st) res st'"
  shows "loop_effect (Suc k) i st res st'"
proof -
  from assms obtain es where es: "t_log st' = t_log st @ [Submitted a amount] @ es"
      "length (filter is_submitted es) \<le> k"
      "case res of
        Inr (j, s, h) \<Rightarrow> j = i \<and> s = Completed \<and> h \<noteq> None \<and> filter is_submitted es \<noteq> []
          \<and> t_db st' = update_tx i (\<lambda>r. r\<lparr>tx_status := Completed, tx_hash := h\<rparr>) (t_db st)
      | Inl _ \<Rightarrow> t_db st' = t_db st"
    unfolding loop_effect_def add_log_simps append_assoc by blast
  show ?thesis unfolding loop_effect_def
    by (rule exI [of _ "Submitted a amount # es"]) (use es in \<open>auto split: sum.splits\<close>)
qed

lemma loop_effect_stop:
  "loop_effect k i st (Inl e) st"
  "loop_effect (Suc k) i st (Inl e) (add_log [Submitted a amount] st)"
  "loop_effect (Suc k) i st (Inr (i, Completed, Some h)) (add_log [FinancialEvent ev i]
     ((add_log [Submitted a amount] st)
        \<lparr>t_db := update_tx i (\<lambda>r. r\<lparr>tx_status := Completed, tx_hash := Some h\<rparr>) (t_db st)\<rparr>))"
  by (simp_all add: loop_effect_def)

lemma submit_attempts_effect:
  "submit_attempts k n as i a amount st = (res, st') \<Longrightarrow> loop_effect k i st res st'"
proof (induction k arbitrary: n st)
  case (Suc k)
  from Suc.prems show ?case
    by (auto simp: Let_def loop_effect_stop split: sum.splits option.splits if_splits
        intro: loop_effect_skip loop_effect_retry dest: Suc.IH)
qed (auto simp: loop_effect_stop)

text \<open>
  The payment loop submits at most three transactions, and the stored row tells the truth: when the
  loop returns, the row is completed with the returned hash and something was submitted; when it throws,
  no row has changed.
\<close>

theorem payment_loop_bounded:
  assumes "submit_attempts MAX_SUBMIT_ATTEMPTS 0 as i a amount st = (res, st')"
    and "find_tx i (t_db st) = Some r"
  shows "\<exists>es. t_log st' = t_log st @ es \<and> length (filter is_submitted es) \<le> 3 \<and>
     (case res of
        Inr (j, s, h) \<Rightarrow> j = i \<and> h \<noteq> None \<and> filter is_submitted es \<noteq> []
          \<and> find_tx i (t_db st') = Some (r\<lparr>tx_status := Completed, tx_hash := h\<rparr>)
      | Inl _ \<Rightarrow> t_db st' = t_db st)"
  using submit_attempts_effect [OF assms(1)] assms(2)
  by (auto simp: loop_effect_def MAX_SUBMIT_ATTEMPTS_def find_update_same split: sum.splits)

definition sample_quote :: "rat \<Rightarrow> payment_fee_quote" where
  "sample_quote f = \<lparr>fee_stroops = f, network_fee_stroops = f, is_buffered = False, clamped_to_ceiling = False,
     max_fee_stroops = 1000000\<rparr>"

definition fee_rejection :: horizon_error where
  "fee_rejection = \<lparr>err_message = None, rc_transaction = Some ''tx_insufficient_fee'', rc_operations = None,
     rc_transactions = [], extras_transactions = []\<rparr>"

text \<open>The base fee rises before the first submission, the second is rejected as underpriced, the third is
  accepted.\<close>

definition sample_attempts :: "nat \<Rightarrow> attempt" where
  "sample_attempts n =
     \<lparr>at_quote = Inr (sample_quote (100 * of_nat (Suc n))), at_build_error = None,
      at_base_fee = Some (if n = 0 then ''150'' else ''100''),
      at_submit = (if n = 1 then Inl fee_rejection else Inr ''h9'')\<rparr>"

definition sample_row_state :: tstate where
  "sample_row_state = sample_tstate\<lparr>t_db := \<lparr>tx_rows = [new_txn TTransfer Pending 5], tx_next = 1\<rparr>\<rparr>"

theorem payment_loop_bounded_witness:
  "let (res, st') = submit_attempts MAX_SUBMIT_ATTEMPTS 0 sample_attempts 0 ''GBOB'' ''5'' sample_row_state in
   res = Inr (0, Completed, Some ''h9'') \<and> length (filter is_submitted (t_log st')) = 2
   \<and> (\<exists>r. find_tx 0 (t_db st') = Some r \<and> tx_status r = Completed \<and> tx_hash r = Some ''h9'')"
proof -
  define c where "c = submit_attempts MAX_SUBMIT_ATTEMPTS 0 sample_attempts 0 ''GBOB'' ''5'' sample_row_state"
  obtain res st' where r: "c = (res, st')" by fastforce
  have "fst c = Inr (0, Completed, Some ''h9'')" unfolding c_def by code_simp
  with r have res: "res = Inr (0, Completed, Some ''h9'')" by simp
  have "length (filter is_submitted (t_log (snd c))) = 2" unfolding c_def by code_simp
  with r have n: "length (filter is_submitted (t_log st')) = 2" by simp
  have f: "find_tx 0 (t_db sample_row_state) = Some (new_txn TTransfer Pending 5)"
    by (simp add: sample_row_state_def find_tx_def new_txn_def)
  from payment_loop_bounded [OF c_def [symmetric, folded r, THEN trans, OF r] f] res n
  show ?thesis by (auto simp: r simp flip: c_def)
qed

text \<open>
  The comment after the loop ("unreachable: every iteration either returns a hash or throws") is
  wrong: when the fee rises before each submission the loop runs out, nothing was submitted, the error is
  the generic one, and the row stays pending.
\<close>

theorem payment_loop_end_is_reachable:
  "\<exists>as st'. submit_attempts MAX_SUBMIT_ATTEMPTS 0 as 0 ''GBOB'' ''5'' sample_row_state = (Inl EndedWithoutResult, st')
     \<and> filter is_submitted (t_log st') = []
     \<and> (\<exists>r. find_tx 0 (t_db st') = Some r \<and> tx_status r = Pending)"
proof -
  define as where "as n = (sample_attempts n)\<lparr>at_base_fee := Some ''900''\<rparr>" for n
  have p: "parse_int ''900'' = Fin 900" by code_simp
  have "submit_attempts MAX_SUBMIT_ATTEMPTS 0 as 0 ''GBOB'' ''5'' sample_row_state
      = (Inl EndedWithoutResult, sample_row_state)"
    by (simp add: MAX_SUBMIT_ATTEMPTS_def numeral_3_eq_3 as_def sample_attempts_def sample_quote_def
        revalidateFeeBeforeSubmit_def p)
  moreover have "find_tx 0 (t_db sample_row_state) = Some (new_txn TTransfer Pending 5)"
    "t_log sample_row_state = []" "tx_status (new_txn TTransfer Pending 5) = Pending"
    by (simp_all add: sample_row_state_def find_tx_def new_txn_def sample_tstate_def)
  ultimately show ?thesis by fastforce
qed

end
