(* ===== verification/Salary.thy ===== *)
theory Salary
  imports Transfers
begin

text \<open>
  Salary batches, \<open>src/services/salary/salaryService.ts\<close>: creation with an idempotency key and a checked
  total, and the background processing that makes one transfer per item. Decimals are third party:
  \<open>rnd\<close> rounds the result of an addition, \<open>dec\<close> is \<open>new Decimal(string)\<close> (\<open>None\<close> when it throws),
  \<open>dec_str\<close> is \<open>toString()\<close>. The transfers of a chunk run concurrently in the code; here they run one
  after the other in the order of the items.
\<close>

section \<open>Batches\<close>

datatype batch_status = BPending | BProcessing | BCompleted | BPartiallyCompleted | BFailed

datatype item_error = TransferPaymentFailed | Rejected transfer_error

record salary_item =
  si_id :: nat
  si_recipient :: string
  si_amount :: rat
  si_status :: status
  si_tx :: "nat option"
  si_error :: "item_error option"

record salary_batch =
  sb_id :: nat
  sb_org :: "string option"
  sb_user :: string
  sb_total :: rat
  sb_currency :: string
  sb_key :: "string option"
  sb_status :: batch_status
  sb_items :: "salary_item list"
  sb_completed_at :: "int option"

record salary_state =
  ss_batches :: "salary_batch list"
  ss_next :: nat
  ss_next_item :: nat
  ss_transfer :: tstate

datatype salary_error = TotalMismatch | DecimalThrows | BatchKeyTaken

record item_params =
  ip_recipient :: string
  ip_amount :: string

record batch_params =
  bp_org :: "string option"
  bp_user :: string
  bp_total :: "string option"
  bp_currency :: string
  bp_key :: "string option"
  bp_items :: "item_params list"

definition find_batch :: "nat \<Rightarrow> salary_state \<Rightarrow> salary_batch option" where
  "find_batch i st = find (\<lambda>b. sb_id b = i) (ss_batches st)"

definition find_batch_by_key :: "string \<Rightarrow> salary_state \<Rightarrow> salary_batch option" where
  "find_batch_by_key k st = find (\<lambda>b. sb_key b = Some k) (ss_batches st)"

text \<open>\<open>items.reduce((acc, item) => acc.add(new Decimal(item.amount)), new Decimal(0))\<close>.\<close>

fun sum_amounts :: "(rat \<Rightarrow> rat) \<Rightarrow> (string \<Rightarrow> rat option) \<Rightarrow> rat \<Rightarrow> item_params list \<Rightarrow> rat option" where
  "sum_amounts rnd dec acc [] = Some acc"
| "sum_amounts rnd dec acc (i # is) =
     (case dec (ip_amount i) of None \<Rightarrow> None | Some a \<Rightarrow> sum_amounts rnd dec (rnd (acc + a)) is)"

fun make_items :: "(string \<Rightarrow> rat option) \<Rightarrow> nat \<Rightarrow> item_params list \<Rightarrow> salary_item list" where
  "make_items dec n [] = []"
| "make_items dec n (i # is) =
     \<lparr>si_id = n, si_recipient = ip_recipient i, si_amount = the (dec (ip_amount i)), si_status = Pending,
      si_tx = None, si_error = None\<rparr> # make_items dec (Suc n) is"

definition createSalaryBatch ::
  "(rat \<Rightarrow> rat) \<Rightarrow> (string \<Rightarrow> rat option) \<Rightarrow> batch_params \<Rightarrow> salary_state
     \<Rightarrow> (salary_error + (nat \<times> batch_status)) \<times> salary_state" where
  "createSalaryBatch rnd dec p st =
     (case (if truthy (bp_key p) then find_batch_by_key (the (bp_key p)) st else None) of
        Some b \<Rightarrow> (Inr (sb_id b, sb_status b), st)
      | None \<Rightarrow>
        (case sum_amounts rnd dec 0 (bp_items p) of
           None \<Rightarrow> (Inl DecimalThrows, st)
         | Some calculatedTotal \<Rightarrow>
           (case (if truthy (bp_total p)
                  then (case dec (the (bp_total p)) of None \<Rightarrow> Some DecimalThrows
                        | Some t \<Rightarrow> if t \<noteq> calculatedTotal then Some TotalMismatch else None)
                  else None) of
              Some err \<Rightarrow> (Inl err, st)
            | None \<Rightarrow>
              if bp_key p \<noteq> None \<and> find_batch_by_key (the (bp_key p)) st \<noteq> None then (Inl BatchKeyTaken, st)
              else
                (Inr (ss_next st, BPending),
                 st\<lparr>ss_batches := ss_batches st @
                      [\<lparr>sb_id = ss_next st, sb_org = bp_org p, sb_user = bp_user p, sb_total = calculatedTotal,
                        sb_currency = (if bp_currency p = [] then ''ACBU'' else bp_currency p), sb_key = bp_key p,
                        sb_status = BPending, sb_items = make_items dec (ss_next_item st) (bp_items p),
                        sb_completed_at = None\<rparr>],
                    ss_next := Suc (ss_next st), ss_next_item := ss_next_item st + length (bp_items p)\<rparr>))))"

section \<open>Processing\<close>

text \<open>A payment function: what \<open>createTransfer\<close> does for one item.\<close>

type_synonym pay = "salary_item \<Rightarrow> tstate \<Rightarrow> (transfer_error + (nat \<times> status)) \<times> tstate"

definition BATCH_CONCURRENCY_PRED :: nat where
  "BATCH_CONCURRENCY_PRED = 9"

definition record_result :: "salary_item \<Rightarrow> transfer_error + (nat \<times> status) \<Rightarrow> salary_item" where
  "record_result item r =
     (case r of
        Inr (tid, s) \<Rightarrow> item\<lparr>si_status := s, si_tx := Some tid,
            si_error := (if s = Failed then Some TransferPaymentFailed else None)\<rparr>
      | Inl err \<Rightarrow> item\<lparr>si_status := Failed, si_error := Some (Rejected err)\<rparr>)"

fun pay_items :: "pay \<Rightarrow> salary_item list \<Rightarrow> tstate \<Rightarrow> salary_item list \<times> tstate" where
  "pay_items pay [] st = ([], st)"
| "pay_items pay (item # items) st =
     (case pay item st of
        (r, st1) \<Rightarrow> (case pay_items pay items st1 of (paid, st2) \<Rightarrow> (record_result item r # paid, st2)))"

fun pay_chunks :: "pay \<Rightarrow> salary_item list list \<Rightarrow> tstate \<Rightarrow> salary_item list \<times> tstate" where
  "pay_chunks pay [] st = ([], st)"
| "pay_chunks pay (chunk # chunks) st =
     (case pay_items pay chunk st of
        (paid, st1) \<Rightarrow> (case pay_chunks pay chunks st1 of (rest, st2) \<Rightarrow> (paid @ rest, st2)))"

definition is_completed :: "salary_item \<Rightarrow> bool" where
  "is_completed i \<longleftrightarrow> si_status i = Completed"

text \<open>The items after the run: those just processed replace the rows of the same id.\<close>

definition store_items :: "salary_item list \<Rightarrow> salary_item list \<Rightarrow> salary_item list" where
  "store_items paid items =
     map (\<lambda>i. case find (\<lambda>d. si_id d = si_id i) paid of Some d \<Rightarrow> d | None \<Rightarrow> i) items"

definition final_batch_status :: "salary_item list \<Rightarrow> salary_item list \<Rightarrow> batch_status" where
  "final_batch_status items paid =
     (let successCount = length (filter is_completed items) + length (filter is_completed paid);
          failCount = length (filter (\<lambda>d. \<not> is_completed d) paid);
          allSucceeded = (failCount = 0 \<and> successCount = length items) in
      if allSucceeded then BCompleted
      else if 0 < successCount then BPartiallyCompleted else BFailed)"

definition put_batch :: "nat \<Rightarrow> (salary_batch \<Rightarrow> salary_batch) \<Rightarrow> salary_state \<Rightarrow> salary_state" where
  "put_batch i f st = st\<lparr>ss_batches := map (\<lambda>b. if sb_id b = i then f b else b) (ss_batches st)\<rparr>"

definition run_batch :: "pay \<Rightarrow> int \<Rightarrow> salary_batch \<Rightarrow> tstate \<Rightarrow> salary_batch \<times> tstate" where
  "run_batch pay now b st =
     (case pay_chunks pay (batches BATCH_CONCURRENCY_PRED (filter (\<lambda>i. \<not> is_completed i) (sb_items b))) st of
        (paid, st') \<Rightarrow>
          (let s = final_batch_status (sb_items b) paid in
           (b\<lparr>sb_items := store_items paid (sb_items b), sb_status := s,
              sb_completed_at := (if s = BCompleted then Some now else None)\<rparr>, st')))"

text \<open>The transfer of one item: no idempotency key, no options.\<close>

definition salary_pay :: "transfer_env \<Rightarrow> (rat \<Rightarrow> string) \<Rightarrow> string \<Rightarrow> pay" where
  "salary_pay e dec_str uid item st =
     createTransfer e \<lparr>o_if_match = None, o_get_key = None, o_submitted_hash = None\<rparr>
       \<lparr>p_sender = uid, p_to = si_recipient item, p_amount = dec_str (si_amount item), p_key = None\<rparr> st"

definition processSalaryBatch :: "transfer_env \<Rightarrow> (rat \<Rightarrow> string) \<Rightarrow> nat \<Rightarrow> salary_state \<Rightarrow> salary_state" where
  "processSalaryBatch e dec_str i st =
     (case find_batch i st of
        None \<Rightarrow> st
      | Some b \<Rightarrow>
        if sb_status b \<noteq> BPending \<and> sb_status b \<noteq> BFailed then st
        else (case run_batch (salary_pay e dec_str (sb_user b)) (te_now e) b (ss_transfer st) of
                (b', t') \<Rightarrow> put_batch i (\<lambda>c. c\<lparr>sb_items := sb_items b', sb_status := sb_status b',
                    sb_completed_at := sb_completed_at b'\<rparr>) (st\<lparr>ss_transfer := t'\<rparr>)))"

section \<open>Lemmas on the run\<close>

lemma pay_items_append:
  "pay_items pay (xs @ ys) st =
     (case pay_items pay xs st of (d, st1) \<Rightarrow> (case pay_items pay ys st1 of (d', st2) \<Rightarrow> (d @ d', st2)))"
  by (induction xs arbitrary: st) (auto split: prod.splits)

lemma pay_chunks_concat: "pay_chunks pay chunks st = pay_items pay (concat chunks) st"
  by (induction chunks arbitrary: st) (auto simp: pay_items_append split: prod.splits)

lemma record_result_id [simp]: "si_id (record_result i r) = si_id i"
  by (auto simp: record_result_def split: sum.splits prod.splits)

lemma pay_items_ids: "pay_items pay items st = (paid, st') \<Longrightarrow> map si_id paid = map si_id items"
  by (induction items arbitrary: st paid) (auto split: prod.splits)

lemma find_by_id:
  assumes "distinct (map si_id paid)" "d \<in> set paid"
  shows "find (\<lambda>x. si_id x = si_id d) paid = Some d"
  using assms by (induction paid) (auto simp: image_iff)

text \<open>Items that were completed stay as they are; the others become their results, in order.\<close>

lemma store_items_split:
  assumes d: "distinct (map si_id items)" and m: "map si_id paid = map si_id (filter (\<lambda>i. \<not> is_completed i) items)"
  shows "set (store_items paid items) = set (filter is_completed items) \<union> set paid"
proof -
  have dd: "distinct (map si_id paid)" unfolding m using d distinct_map_filter by blast
  have keep: "find (\<lambda>x. si_id x = si_id i) paid = None" if "i \<in> set items" "is_completed i" for i
  proof -
    have "si_id i \<notin> set (map si_id paid)"
    proof
      assume "si_id i \<in> set (map si_id paid)"
      then obtain j where "j \<in> set items" "\<not> is_completed j" "si_id j = si_id i" unfolding m by auto
      with d that show False by (metis inj_onD distinct_map)
    qed
    then have "si_id x \<noteq> si_id i" if "x \<in> set paid" for x using that by (metis imageI list.set_map)
    then show ?thesis by (simp add: find_None_iff')
  qed
  show "set (store_items paid items) = set (filter is_completed items) \<union> set paid" (is "?L = ?R")
  proof (intro equalityI subsetI)
    fix x assume "x \<in> ?L"
    then obtain i where i: "i \<in> set items" "x = (case find (\<lambda>d. si_id d = si_id i) paid of Some d \<Rightarrow> d | None \<Rightarrow> i)"
      by (auto simp: store_items_def)
    show "x \<in> ?R"
    proof (cases "find (\<lambda>d. si_id d = si_id i) paid")
      case None
      have "is_completed i"
      proof (rule ccontr)
        assume "\<not> is_completed i"
        with i(1) have "si_id i \<in> set (map si_id paid)" unfolding m by auto
        with None show False by (auto simp: find_None_iff')
      qed
      with None i show ?thesis by simp
    next
      case (Some d)
      with i find_SomeD [OF Some] show ?thesis by simp
    qed
  next
    fix x assume "x \<in> ?R"
    then consider "x \<in> set items" "is_completed x" | "x \<in> set paid" by auto
    then show "x \<in> ?L"
    proof cases
      case 1
      with keep [OF 1] show ?thesis by (force simp: store_items_def)
    next
      case 2
      then have "si_id x \<in> set (map si_id (filter (\<lambda>i. \<not> is_completed i) items))" unfolding m [symmetric] by auto
      then obtain i where "i \<in> set items" "si_id i = si_id x" by auto
      with find_by_id [OF dd 2] show ?thesis by (force simp: store_items_def)
    qed
  qed
qed

section \<open>Properties\<close>

text \<open>
  The final status of a batch tells what became of its items: completed exactly when every item is
  completed, failed exactly when none is (and there is one), partially completed otherwise; whatever the
  payments do. Items completed before the run are kept as they were.
\<close>

theorem salary_batch_status_truthful:
  assumes "distinct (map si_id (sb_items b))" and "run_batch pay now b st = (b', st')"
  shows "(sb_status b' = BCompleted \<longleftrightarrow> (\<forall>i \<in> set (sb_items b'). is_completed i))
   \<and> (sb_status b' = BFailed \<longleftrightarrow> sb_items b' \<noteq> [] \<and> (\<forall>i \<in> set (sb_items b'). \<not> is_completed i))
   \<and> (sb_status b' = BPartiallyCompleted \<longleftrightarrow>
        (\<exists>i \<in> set (sb_items b'). is_completed i) \<and> (\<exists>i \<in> set (sb_items b'). \<not> is_completed i))
   \<and> {i \<in> set (sb_items b). is_completed i} \<subseteq> set (sb_items b')
   \<and> map si_id (sb_items b') = map si_id (sb_items b)"
proof -
  let ?pend = "filter (\<lambda>i. \<not> is_completed i) (sb_items b)"
  obtain paid t where p: "pay_items pay ?pend st = (paid, t)" by fastforce
  from assms(2) p have b': "sb_items b' = store_items paid (sb_items b)"
    "sb_status b' = final_batch_status (sb_items b) paid"
    by (auto simp: run_batch_def pay_chunks_concat Let_def split: prod.splits)
  note m = pay_items_ids [OF p]
  note sets = store_items_split [OF assms(1) m]
  have len: "length paid = length ?pend" using m by (metis length_map)
  have tot: "length (filter is_completed (sb_items b)) + length ?pend = length (sb_items b)"
    using sum_length_filter_compl [of is_completed "sb_items b"] by simp
  have c: "(length (filter (\<lambda>d. \<not> is_completed d) paid) = 0) \<longleftrightarrow> (\<forall>d \<in> set paid. is_completed d)"
    by (auto simp: filter_empty_conv)
  have all: "\<forall>d \<in> set paid. is_completed d \<Longrightarrow>
      length (filter is_completed (sb_items b)) + length (filter is_completed paid) = length (sb_items b)"
    using tot len by (simp add: filter_True)
  have some: "0 < length (filter is_completed (sb_items b)) + length (filter is_completed paid)
      \<longleftrightarrow> (\<exists>i \<in> set (sb_items b'). is_completed i)"
    by (auto simp: b'(1) sets filter_empty_conv length_greater_0_conv)
  have every: "(\<forall>d \<in> set paid. is_completed d) \<longleftrightarrow> (\<forall>i \<in> set (sb_items b'). is_completed i)"
    by (auto simp: b'(1) sets)
  have status: "sb_status b' = (if \<forall>i \<in> set (sb_items b'). is_completed i then BCompleted
      else if \<exists>i \<in> set (sb_items b'). is_completed i then BPartiallyCompleted else BFailed)"
    unfolding b'(2) final_batch_status_def Let_def c some [symmetric] every [symmetric] using all by auto
  have ids: "map si_id (store_items paid (sb_items b)) = map si_id (sb_items b)"
    by (auto simp: store_items_def dest: find_SomeD split: option.splits)
  have nonempty: "sb_items b' \<noteq> []" if "\<exists>i \<in> set (sb_items b'). \<not> is_completed i" using that by auto
  have kept: "{i \<in> set (sb_items b). is_completed i} \<subseteq> set (sb_items b')" by (auto simp: b'(1) sets)
  have ids': "map si_id (sb_items b') = map si_id (sb_items b)" using ids by (simp add: b'(1))
  show ?thesis
    by (intro conjI kept ids') (use status nonempty in \<open>auto split: if_splits\<close>)
qed

lemma reserve_without_version: "reserveWalletVersion uid None w = Inl PreconditionRequired"
  by (simp add: reserve_cas assertIfMatchHeaderPresent_def parseIfMatchHeader_def)

lemma salary_pay_refused: "\<exists>err. salary_pay e dec_str uid item st = (Inl err, st)"
  by (simp add: salary_pay_def createTransfer_def Let_def prior_transfer_def truthy_def reserve_without_version
      split: option.split)

lemma salary_items_refused:
  "pay_items (salary_pay e dec_str uid) items st = (paid, st') \<Longrightarrow> st' = st \<and> (\<forall>d \<in> set paid. \<not> is_completed d)"
proof (induction items arbitrary: paid)
  case (Cons item items)
  obtain err where "salary_pay e dec_str uid item st = (Inl err, st)" using salary_pay_refused by blast
  with Cons show ?case by (auto simp: record_result_def is_completed_def split: prod.splits)
qed simp

text \<open>
  Payroll cannot pay: the transfer made for an item carries no wallet version, so
  \<open>createTransfer\<close> always refuses it, whatever the state; no transaction row is ever created and a batch
  with an item that was not completed before never becomes completed.
\<close>

theorem salary_batches_never_pay:
  assumes "find_batch i st = Some b" and "\<not> list_all is_completed (sb_items b)"
    and "sb_status b \<noteq> BCompleted"
  shows "ss_transfer (processSalaryBatch e dec_str i st) = ss_transfer st
   \<and> (\<exists>b'. find_batch i (processSalaryBatch e dec_str i st) = Some b' \<and> sb_status b' \<noteq> BCompleted)"
proof -
  obtain b' t where r: "run_batch (salary_pay e dec_str (sb_user b)) (te_now e) b (ss_transfer st) = (b', t)" by fastforce
  obtain paid t' where p: "pay_items (salary_pay e dec_str (sb_user b)) (filter (\<lambda>i. \<not> is_completed i) (sb_items b))
      (ss_transfer st) = (paid, t')" by fastforce
  note ref = salary_items_refused [OF p]
  have "length paid = length (filter (\<lambda>i. \<not> is_completed i) (sb_items b))" using pay_items_ids [OF p] by (metis length_map)
  moreover have "filter (\<lambda>i. \<not> is_completed i) (sb_items b) \<noteq> []" using assms(2) by (auto simp: list_all_iff filter_empty_conv)
  ultimately have "paid \<noteq> []" by auto
  with ref have "\<not> (\<forall>d \<in> set paid. is_completed d)" by (cases paid) auto
  then have "final_batch_status (sb_items b) paid \<noteq> BCompleted"
    by (auto simp: final_batch_status_def Let_def filter_empty_conv)
  with r p ref have b': "t = ss_transfer st" "sb_status b' \<noteq> BCompleted" "sb_id b' = sb_id b"
    by (auto simp: run_batch_def pay_chunks_concat Let_def)
  have "sb_id b = i" using assms(1) by (auto simp: find_batch_def dest: find_SomeD)
  moreover have "find (\<lambda>x. sb_id x = i) (map (\<lambda>x. if sb_id x = i then f x else x) bs) = map_option f (find (\<lambda>x. sb_id x = i) bs)"
    if "\<And>x. sb_id (f x) = sb_id x" for f and bs :: "salary_batch list"
    using that by (induction bs) auto
  ultimately show ?thesis using assms b' r
    by (auto simp: processSalaryBatch_def put_batch_def find_batch_def)
qed

definition sample_dec :: "string \<Rightarrow> rat option" where
  "sample_dec s = (if decimal_shape 7 s then Some (decimal_value s) else None)"

definition sample_batch_params :: batch_params where
  "sample_batch_params = \<lparr>bp_org = None, bp_user = ''u1'', bp_total = Some ''30.5'', bp_currency = '''', bp_key = Some ''b1'',
     bp_items = [\<lparr>ip_recipient = ''@bob'', ip_amount = ''10.5''\<rparr>, \<lparr>ip_recipient = ''@ann'', ip_amount = ''20''\<rparr>]\<rparr>"

definition sample_salary :: salary_state where
  "sample_salary = snd (createSalaryBatch prisma_dec sample_dec sample_batch_params
     \<lparr>ss_batches = [], ss_next = 0, ss_next_item = 0, ss_transfer = sample_tstate\<rparr>)"

definition pay_even :: pay where
  "pay_even item st = (if even (si_id item) then (Inr (7, Completed), st) else (Inl InsufficientBalance, st))"

definition sample_batch :: salary_batch where
  "sample_batch = \<lparr>sb_id = 0, sb_org = None, sb_user = ''u1'', sb_total = 61 / 2, sb_currency = ''ACBU'', sb_key = Some ''b1'',
     sb_status = BPending, sb_items = make_items sample_dec 0 (bp_items sample_batch_params), sb_completed_at = None\<rparr>"

lemma sample_salary_find: "find_batch 0 sample_salary = Some sample_batch"
proof -
  have "sum_amounts prisma_dec sample_dec 0 (bp_items sample_batch_params) = Some (61 / 2)"
    "sample_dec ''30.5'' = Some (61 / 2)" by code_simp+
  then show ?thesis
    by (simp add: sample_salary_def createSalaryBatch_def sample_batch_params_def truthy_def find_batch_by_key_def
        find_batch_def sample_batch_def)
qed

theorem salary_batch_status_truthful_witness:
  "sb_status (fst (run_batch pay_even 5 sample_batch sample_tstate)) = BPartiallyCompleted
   \<and> (\<exists>i \<in> set (sb_items (fst (run_batch pay_even 5 sample_batch sample_tstate))). \<not> is_completed i)"
proof -
  have d: "distinct (map si_id (sb_items sample_batch))"
    by (simp add: sample_batch_def sample_batch_params_def)
  have s: "sb_status (fst (run_batch pay_even 5 sample_batch sample_tstate)) = BPartiallyCompleted" by code_simp
  from salary_batch_status_truthful [OF d prod.collapse [symmetric], of pay_even 5 sample_tstate] s show ?thesis by auto
qed

theorem salary_batches_never_pay_witness:
  "\<exists>b'. find_batch 0 (processSalaryBatch (sample_tenv False (SubmitHash ''h'')) js_num_str 0 sample_salary) = Some b'
     \<and> sb_status b' \<noteq> BCompleted"
proof -
  have n: "\<not> list_all is_completed (sb_items sample_batch)" "sb_status sample_batch \<noteq> BCompleted"
    by (simp_all add: sample_batch_def sample_batch_params_def is_completed_def)
  from salary_batches_never_pay [OF sample_salary_find n] show ?thesis by blast
qed

lemma processSalaryBatch_keys:
  "map (\<lambda>b. (sb_id b, sb_key b)) (ss_batches (processSalaryBatch e dec_str i st))
     = map (\<lambda>b. (sb_id b, sb_key b)) (ss_batches st)"
  by (simp add: processSalaryBatch_def put_batch_def split: option.split prod.split)

lemma find_key_ids:
  "map (\<lambda>b. (sb_id b, sb_key b)) bs = map (\<lambda>b. (sb_id b, sb_key b)) cs \<Longrightarrow>
   map_option sb_id (find (\<lambda>b. sb_key b = Some k) bs) = map_option sb_id (find (\<lambda>b. sb_key b = Some k) cs)"
proof (induction bs arbitrary: cs)
  case (Cons b bs)
  then obtain c cs' where "cs = c # cs'" by (cases cs) auto
  with Cons show ?case by auto
qed simp

definition salary_inv :: "salary_state \<Rightarrow> bool" where
  "salary_inv st \<longleftrightarrow> (\<forall>b \<in> set (ss_batches st). sb_id b < ss_next st)"

lemma make_items_facts:
  "length (make_items dec n is) = length is \<and> (\<forall>i \<in> set (make_items dec n is). si_status i = Pending)"
  by (induction "is" arbitrary: n) auto

text \<open>
  Batch creation is idempotent and balanced: an accepted batch is stored with one pending item per
  entry and, when a total was given, that total is the sum of the items; creating it again with the same
  key, also after it has been processed, returns the same batch and changes nothing.
\<close>

theorem salary_batch_creation:
  assumes "salary_inv st" and "truthy (bp_key p)" and "find_batch_by_key (the (bp_key p)) st = None"
    and "createSalaryBatch rnd dec p st = (Inr (i, s), st1)"
  shows "(\<exists>b. find_batch i st1 = Some b \<and> length (sb_items b) = length (bp_items p)
        \<and> (\<forall>x \<in> set (sb_items b). si_status x = Pending)
        \<and> Some (sb_total b) = sum_amounts rnd dec 0 (bp_items p)
        \<and> (truthy (bp_total p) \<longrightarrow> dec (the (bp_total p)) = Some (sb_total b)))
    \<and> (\<exists>s'. createSalaryBatch rnd dec p (processSalaryBatch e dec_str i st1)
            = (Inr (i, s'), processSalaryBatch e dec_str i st1))"
proof -
  from assms(2-4) obtain t where t: "sum_amounts rnd dec 0 (bp_items p) = Some t" "i = ss_next st"
      "truthy (bp_total p) \<longrightarrow> dec (the (bp_total p)) = Some t"
    and st1: "ss_batches st1 = ss_batches st @
       [\<lparr>sb_id = ss_next st, sb_org = bp_org p, sb_user = bp_user p, sb_total = t,
         sb_currency = (if bp_currency p = [] then ''ACBU'' else bp_currency p), sb_key = bp_key p,
         sb_status = BPending, sb_items = make_items dec (ss_next_item st) (bp_items p), sb_completed_at = None\<rparr>]"
    by (auto simp: createSalaryBatch_def split: option.splits if_splits)
  have none: "find (\<lambda>b. sb_id b = ss_next st) (ss_batches st) = None"
    using assms(1) by (auto simp: find_None_iff' salary_inv_def)
  obtain k where k: "bp_key p = Some k" using assms(2) by (cases "bp_key p") (auto simp: truthy_def)
  have fresh: "find (\<lambda>b. sb_key b = Some k) (ss_batches st) = None" using assms(3) k by (simp add: find_batch_by_key_def)
  let ?st2 = "processSalaryBatch e dec_str i st1"
  have "map_option sb_id (find_batch_by_key k st1) = Some i"
    using fresh k by (simp add: find_batch_by_key_def st1 find_append t(2))
  with find_key_ids [OF processSalaryBatch_keys, of k e dec_str i st1]
  have "\<exists>b. find_batch_by_key k ?st2 = Some b \<and> sb_id b = i"
    by (auto simp: find_batch_by_key_def)
  with assms(2) k have "\<exists>s'. createSalaryBatch rnd dec p ?st2 = (Inr (i, s'), ?st2)"
    by (auto simp: createSalaryBatch_def)
  with t st1 none make_items_facts [of dec "ss_next_item st" "bp_items p"] show ?thesis
    by (auto simp: find_batch_def find_append)
qed

theorem salary_batch_creation_witness:
  "\<exists>s'. createSalaryBatch prisma_dec sample_dec sample_batch_params
          (processSalaryBatch (sample_tenv False (SubmitHash ''h'')) js_num_str 0 sample_salary)
        = (Inr (0, s'), processSalaryBatch (sample_tenv False (SubmitHash ''h'')) js_num_str 0 sample_salary)"
proof -
  define st0 where "st0 = \<lparr>ss_batches = [], ss_next = 0, ss_next_item = 0, ss_transfer = sample_tstate\<rparr>"
  have h: "salary_inv st0" "truthy (bp_key sample_batch_params)"
    "find_batch_by_key (the (bp_key sample_batch_params)) st0 = None"
    by (simp_all add: st0_def salary_inv_def truthy_def sample_batch_params_def find_batch_by_key_def)
  have "fst (createSalaryBatch prisma_dec sample_dec sample_batch_params st0) = Inr (0, BPending)"
    unfolding st0_def by code_simp
  then have "createSalaryBatch prisma_dec sample_dec sample_batch_params st0 = (Inr (0, BPending), sample_salary)"
    unfolding sample_salary_def st0_def by (metis prod.collapse)
  from salary_batch_creation [OF h this] show ?thesis by blast
qed

end
