(* ===== verification/JobLock.thy ===== *)
theory JobLock
  imports Prelude
begin

text \<open>
  The lock that scheduled jobs take, \<open>src/utils/jobLock.ts\<close>: a document per job name in MongoDB, inserted
  when there is none, deleted on release and by the database once it has expired. \<open>up\<close> tells whether the database
  answers. \<open>run_locked\<close> is the body of the schedulers: acquire, work, release in the \<open>finally\<close>.
\<close>

section \<open>The lock\<close>

record job_lock =
  jl_name :: string
  jl_acquired :: int
  jl_expires :: int

type_synonym lock_table = "job_lock list"

definition held :: "string \<Rightarrow> lock_table \<Rightarrow> bool" where
  "held job t \<longleftrightarrow> job \<in> jl_name ` set t"

definition acquireJobLock :: "bool \<Rightarrow> string \<Rightarrow> int \<Rightarrow> int \<Rightarrow> lock_table \<Rightarrow> bool \<times> lock_table" where
  "acquireJobLock up job ttl_s now t =
     (if \<not> up then (True, t)
      else if held job t then (False, t)
      else (True, t @ [\<lparr>jl_name = job, jl_acquired = now, jl_expires = now + ttl_s * 1000\<rparr>]))"

definition releaseJobLock :: "bool \<Rightarrow> string \<Rightarrow> lock_table \<Rightarrow> lock_table" where
  "releaseJobLock up job t = (if up then filter (\<lambda>l. jl_name l \<noteq> job) t else t)"

text \<open>The index on \<open>expiresAt\<close> removes the documents that have expired.\<close>

definition expire_locks :: "int \<Rightarrow> lock_table \<Rightarrow> lock_table" where
  "expire_locks now t = filter (\<lambda>l. now < jl_expires l) t"

section \<open>A scheduled run\<close>

definition run_locked ::
  "bool \<Rightarrow> bool \<Rightarrow> string \<Rightarrow> int \<Rightarrow> int \<Rightarrow> ('s \<Rightarrow> 's) \<Rightarrow> lock_table \<times> 's \<Rightarrow> lock_table \<times> 's" where
  "run_locked up_before up_after job ttl_s now work st =
     (case acquireJobLock up_before job ttl_s now (fst st) of
        (False, t) \<Rightarrow> (t, snd st)
      | (True, t) \<Rightarrow> (releaseJobLock up_after job t, work (snd st)))"

section \<open>Instances of a job\<close>

text \<open>
  Several processes run the same job: each acquires, may be working, and releases. \<open>holders\<close> are the instances
  that have acquired and not yet released.
\<close>

record lock_world =
  lw_locks :: lock_table
  lw_holders :: "nat list"
  lw_now :: int

datatype lock_event = TryAcquire nat bool | Release nat bool | Tick int

definition lock_step :: "string \<Rightarrow> int \<Rightarrow> lock_event \<Rightarrow> lock_world \<Rightarrow> lock_world" where
  "lock_step job ttl_s ev w =
     (case ev of
        TryAcquire i up \<Rightarrow>
          if i \<in> set (lw_holders w) then w
          else
            (case acquireJobLock up job ttl_s (lw_now w) (lw_locks w) of
               (got, t) \<Rightarrow> w\<lparr>lw_locks := t, lw_holders := (if got then i # lw_holders w else lw_holders w)\<rparr>)
      | Release i up \<Rightarrow>
          if i \<in> set (lw_holders w)
          then w\<lparr>lw_locks := releaseJobLock up job (lw_locks w), lw_holders := removeAll i (lw_holders w)\<rparr>
          else w
      | Tick d \<Rightarrow> w\<lparr>lw_now := lw_now w + d, lw_locks := expire_locks (lw_now w + d) (lw_locks w)\<rparr>)"

definition lock_run :: "string \<Rightarrow> int \<Rightarrow> lock_event list \<Rightarrow> lock_world \<Rightarrow> lock_world" where
  "lock_run job ttl_s evs w = fold (lock_step job ttl_s) evs w"

section \<open>Mutual exclusion\<close>

text \<open>The database answers, and no event lets the time of a lock run out.\<close>

definition reliable :: "lock_event \<Rightarrow> bool" where
  "reliable ev = (case ev of TryAcquire i up \<Rightarrow> up | Release i up \<Rightarrow> up | Tick d \<Rightarrow> 0 \<le> d)"

definition elapsed :: "lock_event list \<Rightarrow> int" where
  "elapsed evs = sum_list (map (\<lambda>ev. case ev of Tick d \<Rightarrow> d | _ \<Rightarrow> 0) evs)"

text \<open>
  One holder at most, and exactly when the lock is there. The budget says that the lock of the holder outlives
  the rest of the run.
\<close>

definition lock_inv :: "string \<Rightarrow> int \<Rightarrow> lock_world \<Rightarrow> bool" where
  "lock_inv job budget w \<longleftrightarrow>
     (case lw_holders w of
        [] \<Rightarrow> \<not> held job (lw_locks w)
      | [i] \<Rightarrow> (\<exists>l\<in>set (lw_locks w). jl_name l = job \<and> lw_now w + budget < jl_expires l)
      | _ \<Rightarrow> False)"

lemma lock_inv_holds:
  "lock_inv job b w \<longleftrightarrow>
     lw_holders w = [] \<and> \<not> held job (lw_locks w) \<or>
     (\<exists>i l. lw_holders w = [i] \<and> l \<in> set (lw_locks w) \<and> jl_name l = job \<and> lw_now w + b < jl_expires l)"
  by (auto simp: lock_inv_def split: list.splits)

lemma held_release [simp]: "\<not> held job (releaseJobLock True job t)"
  by (auto simp: held_def releaseJobLock_def)

lemma held_expire: "held job (expire_locks now t) \<Longrightarrow> held job t"
  by (auto simp: held_def expire_locks_def)

lemma elapsed_nonneg: "list_all reliable evs \<Longrightarrow> 0 \<le> elapsed evs"
  by (induction evs) (auto simp: elapsed_def reliable_def split: lock_event.splits)

lemma lock_step_inv:
  assumes inv: "lock_inv job (elapsed (ev # evs)) w" and ev: "reliable ev" and rest: "list_all reliable evs"
    and ttl: "elapsed evs < ttl_s * 1000"
  shows "lock_inv job (elapsed evs) (lock_step job ttl_s ev w)"
proof (cases ev)
  case (TryAcquire i up)
  then have up: "up" using ev by (simp add: reliable_def)
  have b: "elapsed (ev # evs) = elapsed evs" using TryAcquire by (simp add: elapsed_def)
  show ?thesis
  proof (cases "lw_holders w = []")
    case True
    then have "\<not> held job (lw_locks w)" using inv by (simp add: lock_inv_def)
    then show ?thesis using TryAcquire True up ttl
      by (simp add: lock_step_def acquireJobLock_def lock_inv_def)
  next
    case False
    then obtain j l where l: "lw_holders w = [j]" "l \<in> set (lw_locks w)" "jl_name l = job"
      "lw_now w + elapsed evs < jl_expires l"
      using inv b unfolding lock_inv_holds by auto
    then have "held job (lw_locks w)" by (auto simp: held_def)
    then show ?thesis using TryAcquire l up by (auto simp: lock_step_def acquireJobLock_def lock_inv_def)
  qed
next
  case (Release i up)
  then have up: "up" using ev by (simp add: reliable_def)
  have b: "elapsed (ev # evs) = elapsed evs" using Release by (simp add: elapsed_def)
  show ?thesis
  proof (cases "i \<in> set (lw_holders w)")
    case True
    then have "lw_holders w = [i]" using inv unfolding lock_inv_holds by auto
    then show ?thesis using Release up by (simp add: lock_step_def lock_inv_def)
  next
    case False
    then show ?thesis using Release inv b by (simp add: lock_step_def)
  qed
next
  case (Tick d)
  then have d: "0 \<le> d" using ev by (simp add: reliable_def)
  have b: "elapsed (ev # evs) = d + elapsed evs" using Tick by (simp add: elapsed_def)
  show ?thesis
  proof (cases "lw_holders w = []")
    case True
    then show ?thesis using Tick inv held_expire by (auto simp: lock_step_def lock_inv_def)
  next
    case False
    then obtain j l where l: "lw_holders w = [j]" "l \<in> set (lw_locks w)" "jl_name l = job"
      "lw_now w + (d + elapsed evs) < jl_expires l"
      using inv b unfolding lock_inv_holds by auto
    then have "l \<in> set (expire_locks (lw_now w + d) (lw_locks w))"
      using elapsed_nonneg [OF rest] by (simp add: expire_locks_def)
    then show ?thesis using Tick l by (auto simp: lock_step_def lock_inv_def add.assoc)
  qed
qed

lemma lock_run_inv:
  "lock_inv job (elapsed evs) w \<Longrightarrow> list_all reliable evs \<Longrightarrow> elapsed evs < ttl_s * 1000 \<Longrightarrow>
   lock_inv job 0 (lock_run job ttl_s evs w)"
proof (induction evs arbitrary: w)
  case Nil
  then show ?case by (simp add: lock_run_def elapsed_def)
next
  case (Cons ev evs)
  have "elapsed evs \<le> elapsed (ev # evs)"
    using Cons.prems(2) by (auto simp: elapsed_def reliable_def split: lock_event.splits)
  then have ttl: "elapsed evs < ttl_s * 1000" using Cons.prems(3) by linarith
  have "lock_inv job (elapsed evs) (lock_step job ttl_s ev w)"
    using lock_step_inv [OF Cons.prems(1) _ _ ttl] Cons.prems(2) by simp
  from Cons.IH [OF this _ ttl] show ?case using Cons.prems(2) by (simp add: lock_run_def)
qed

definition free_world :: "int \<Rightarrow> lock_world" where
  "free_world now = \<lparr>lw_locks = [], lw_holders = [], lw_now = now\<rparr>"

section \<open>Properties\<close>

text \<open>
  C33. While the database answers and less time passes than the lifetime of a lock, at most one instance holds
  the lock of a job, in every interleaving of attempts and releases by any number of instances.
\<close>

theorem job_lock_excludes:
  assumes "list_all reliable evs" and "elapsed evs < ttl_s * 1000"
  shows "length (lw_holders (lock_run job ttl_s evs (free_world now))) \<le> 1"
proof -
  have "lock_inv job (elapsed evs) (free_world now)" by (simp add: lock_inv_def free_world_def held_def)
  from lock_run_inv [OF this assms] show ?thesis unfolding lock_inv_holds by auto
qed

theorem job_lock_excludes_witness:
  "length (lw_holders (lock_run ''daily-rebalancing'' 82800
     [TryAcquire 1 True, TryAcquire 2 True, Tick 60000, Release 1 True, TryAcquire 2 True] (free_world 0))) \<le> 1"
  by (rule job_lock_excludes) (simp_all add: reliable_def elapsed_def)

text \<open>
  An instance that cannot reach the database runs without the lock, and its release, once the database answers again,
  deletes the lock of the instance that holds it: a third instance then acquires the lock while the first still works.
\<close>

theorem outage_release_drops_lock:
  assumes "distinct [i, j, k]" and "0 < ttl_s"
  shows "set (lw_holders (lock_run job ttl_s
    [TryAcquire i True, TryAcquire j False, Release j True, TryAcquire k True] (free_world now))) = {i, k}"
  using assms by (auto simp: lock_run_def lock_step_def acquireJobLock_def releaseJobLock_def free_world_def held_def)

theorem outage_release_drops_lock_witness:
  "set (lw_holders (lock_run ''yield-accrual'' 82800
    [TryAcquire 1 True, TryAcquire 2 False, Release 2 True, TryAcquire 3 True] (free_world 0))) = {1, 3}"
  by (rule outage_release_drops_lock) simp_all

text \<open>
  The schedulers of daily jobs hold the lock while they work and release it at the end, so an instance whose timer
  fires after another one has finished does the day's work again.
\<close>

lemma run_locked_free: "\<not> held job t \<Longrightarrow> run_locked True True job ttl_s now work (t, s) = (t, work s)"
  by (auto simp: run_locked_def acquireJobLock_def releaseJobLock_def held_def filter_id_conv)

end
