(* ===== verification/Schedules.thy ===== *)
theory Schedules
  imports Salary JobLock
begin

text \<open>
  Recurring salary payments: the schedules of \<open>src/services/salary/salaryService.ts\<close> (creation, listing, triggering)
  and the job \<open>src/jobs/salaryScheduleJob.ts\<close> that looks for due ones. The business calendar of
  \<open>src/utils/dateUtils.ts\<close> is a parameter: the next midnight after an instant, and the first one that is not past.
\<close>

section \<open>Schedules\<close>

record amount_item =
  ai_recipient :: string
  ai_amount :: string              \<comment> \<open>\<open>String(item.amount)\<close>\<close>

record schedule =
  sc_id :: nat
  sc_org :: "string option"
  sc_user :: string
  sc_name :: string
  sc_cron :: string
  sc_items :: "amount_item list"
  sc_currency :: string
  sc_active :: bool
  sc_last :: "int option"
  sc_next :: "int option"
  sc_created :: int

record schedule_env =
  se_midnight :: "int \<Rightarrow> int"       \<comment> \<open>\<open>getNextDailyMidnight\<close>\<close>
  se_initial :: "int \<Rightarrow> int"        \<comment> \<open>\<open>getInitialDailyMidnight\<close>\<close>
  se_now :: int
  se_rnd :: "rat \<Rightarrow> rat"
  se_dec :: "string \<Rightarrow> rat option"
  se_str :: "rat \<Rightarrow> string"

record payroll =
  pr_schedules :: "schedule list"
  pr_next :: nat
  pr_salary :: salary_state

datatype schedule_error = InvalidCron | TriggerFailed salary_error

text \<open>\<open>cron.split(' ').length\<close>.\<close>

definition cron_parts :: "string \<Rightarrow> nat" where
  "cron_parts c = Suc (length (filter (\<lambda>ch. ch = CHR '' '') c))"

definition daily :: string where "daily = ''0 0 * * *''"

definition createSalarySchedule ::
  "schedule_env \<Rightarrow> string option \<Rightarrow> string \<Rightarrow> string \<Rightarrow> string \<Rightarrow> amount_item list \<Rightarrow> string \<Rightarrow> payroll \<Rightarrow> (schedule_error + schedule) \<times> payroll" where
  "createSalarySchedule e org user nm cron items cy st =
     (if cron = [] \<or> cron_parts cron < 5 then (Inl InvalidCron, st)
      else
        (let s = \<lparr>sc_id = pr_next st, sc_org = org, sc_user = user, sc_name = nm, sc_cron = cron, sc_items = items,
               sc_currency = cy, sc_active = True, sc_last = None,
               sc_next = Some (if cron = daily then se_initial e (se_now e) else se_now e + 60000), sc_created = se_now e\<rparr> in
         (Inr s, st\<lparr>pr_schedules := pr_schedules st @ [s], pr_next := Suc (pr_next st)\<rparr>)))"

text \<open>The owner filter of the listings: \<open>OR\<close> of the conditions that are given, which matches nothing when none is.\<close>

definition owned :: "string option \<Rightarrow> string option \<Rightarrow> schedule \<Rightarrow> bool" where
  "owned org user s \<longleftrightarrow> truthy org \<and> sc_org s = org \<or> truthy user \<and> Some (sc_user s) = user"

definition getSalarySchedules :: "string option \<Rightarrow> string option \<Rightarrow> nat \<Rightarrow> nat \<Rightarrow> payroll \<Rightarrow> schedule list" where
  "getSalarySchedules org user limit offset st =
     take limit (drop offset (sort_key (\<lambda>s. - sc_created s) (filter (owned org user) (pr_schedules st))))"

definition batch_owned :: "string option \<Rightarrow> string option \<Rightarrow> salary_batch \<Rightarrow> bool" where
  "batch_owned org user b \<longleftrightarrow> truthy org \<and> sb_org b = org \<or> truthy user \<and> Some (sb_user b) = user"

text \<open>\<open>newest\<close> is the order of creation of the batches, the latest first.\<close>

definition getSalaryBatches :: "string option \<Rightarrow> string option \<Rightarrow> nat \<Rightarrow> nat \<Rightarrow> salary_state \<Rightarrow> salary_batch list" where
  "getSalaryBatches org user limit offset st =
     take limit (drop offset (rev (filter (batch_owned org user) (ss_batches st))))"

definition getSalaryBatchById :: "nat \<Rightarrow> salary_state \<Rightarrow> salary_batch option" where
  "getSalaryBatchById i st = find_batch i st"

definition find_schedule :: "nat \<Rightarrow> payroll \<Rightarrow> schedule option" where
  "find_schedule i st = find (\<lambda>s. sc_id s = i) (pr_schedules st)"

definition put_schedule :: "nat \<Rightarrow> (schedule \<Rightarrow> schedule) \<Rightarrow> payroll \<Rightarrow> payroll" where
  "put_schedule i f st = st\<lparr>pr_schedules := map (\<lambda>s. if sc_id s = i then f s else s) (pr_schedules st)\<rparr>"

definition schedule_batch :: "schedule_env \<Rightarrow> schedule \<Rightarrow> rat \<Rightarrow> batch_params" where
  "schedule_batch e s t =
     \<lparr>bp_org = (if truthy (sc_org s) then sc_org s else None), bp_user = sc_user s, bp_total = Some (se_str e t),
      bp_currency = sc_currency s, bp_key = None,
      bp_items = map (\<lambda>i. \<lparr>ip_recipient = ai_recipient i, ip_amount = ai_amount i\<rparr>) (sc_items s)\<rparr>"

definition triggerSchedule :: "schedule_env \<Rightarrow> nat \<Rightarrow> payroll \<Rightarrow> (schedule_error + unit) \<times> payroll" where
  "triggerSchedule e i st =
     (case find_schedule i st of
        None \<Rightarrow> (Inr (), st)
      | Some s \<Rightarrow>
          if \<not> sc_active s then (Inr (), st)
          else
            (case sum_amounts (se_rnd e) (se_dec e) 0 (map (\<lambda>i. \<lparr>ip_recipient = ai_recipient i, ip_amount = ai_amount i\<rparr>) (sc_items s)) of
               None \<Rightarrow> (Inl (TriggerFailed DecimalThrows), st)
             | Some t \<Rightarrow>
                 (case createSalaryBatch (se_rnd e) (se_dec e) (schedule_batch e s t) (pr_salary st) of
                    (Inl err, sal) \<Rightarrow> (Inl (TriggerFailed err), st\<lparr>pr_salary := sal\<rparr>)
                  | (Inr _, sal) \<Rightarrow>
                      (Inr (), put_schedule i (\<lambda>s. s\<lparr>sc_last := Some (se_now e),
                           sc_next := Some (if sc_cron s = daily then se_midnight e (se_now e) else se_now e + 60000)\<rparr>)
                         (st\<lparr>pr_salary := sal\<rparr>)))))"

section \<open>The job\<close>

definition PAGE_SIZE :: nat where "PAGE_SIZE = 50"
definition MAX_PAGES :: nat where "MAX_PAGES = 100"
definition SCHEDULE_LOCK_TTL_S :: int where "SCHEDULE_LOCK_TTL_S = 55"

text \<open>
  \<open>query\<close> is the read of a page after a cursor, None where it throws, by page. \<open>computeNextRun\<close> is declared
  nowhere in the repository: the name evaluates to a ReferenceError, which \<open>next_run\<close> writes as None, and the handler
  catches it and leaves the schedule.
\<close>

type_synonym schedule_cursor = "(int \<times> nat) option"
type_synonym page_query = "nat \<Rightarrow> schedule_cursor \<Rightarrow> payroll \<Rightarrow> schedule list option"

definition computeNextRun :: "string \<Rightarrow> int \<Rightarrow> int option" where
  "computeNextRun cron now = None"

definition trigger_with_retry :: "schedule_env \<Rightarrow> nat \<Rightarrow> payroll \<Rightarrow> payroll" where
  "trigger_with_retry e i st =
     (case triggerSchedule e i st of
        (Inr _, st1) \<Rightarrow> st1
      | (Inl _, st1) \<Rightarrow> (case triggerSchedule e i st1 of (Inr _, st2) \<Rightarrow> st2 | (Inl _, st2) \<Rightarrow> snd (triggerSchedule e i st2)))"

definition process_schedule :: "(string \<Rightarrow> int \<Rightarrow> int option) \<Rightarrow> schedule_env \<Rightarrow> schedule \<Rightarrow> payroll \<Rightarrow> payroll" where
  "process_schedule next_run e s st =
     (case next_run (sc_cron s) (se_now e) of
        None \<Rightarrow> st
      | Some t \<Rightarrow> trigger_with_retry e (sc_id s) (put_schedule (sc_id s) (\<lambda>s. s\<lparr>sc_next := Some t\<rparr>) st))"

definition next_cursor :: "schedule list \<Rightarrow> schedule_cursor \<Rightarrow> schedule_cursor" where
  "next_cursor page cur =
     fold (\<lambda>s cur. map_option (\<lambda>t. (t, sc_id s)) (case sc_next s of Some t \<Rightarrow> Some t | None \<Rightarrow> map_option fst cur)) page cur"

text \<open>Pages until one is not full; \<open>fuel\<close> is the number of pages left. The flag tells whether a query threw.\<close>

fun schedule_pages ::
  "(string \<Rightarrow> int \<Rightarrow> int option) \<Rightarrow> schedule_env \<Rightarrow> page_query \<Rightarrow> nat \<Rightarrow> nat \<Rightarrow> schedule_cursor \<Rightarrow> payroll \<Rightarrow> bool \<times> payroll" where
  "schedule_pages next_run e query 0 n cur st = (True, st)"
| "schedule_pages next_run e query (Suc fuel) n cur st =
     (case query n cur st of
        None \<Rightarrow> (False, st)
      | Some page \<Rightarrow>
          (let st' = fold (process_schedule next_run e) page st in
           if length page < PAGE_SIZE then (True, st') else schedule_pages next_run e query fuel (Suc n) (next_cursor page cur) st'))"

definition processSalarySchedules ::
  "bool \<Rightarrow> bool \<Rightarrow> schedule_env \<Rightarrow> page_query \<Rightarrow> lock_table \<times> payroll \<Rightarrow> lock_table \<times> payroll" where
  "processSalarySchedules up_before up_after e query =
     run_locked up_before up_after ''salary-schedule'' SCHEDULE_LOCK_TTL_S (se_now e)
       (\<lambda>st. snd (schedule_pages computeNextRun e query MAX_PAGES 0 None st))"

section \<open>What the job does\<close>

lemma pages_without_next_run: "snd (schedule_pages computeNextRun e query fuel n cur st) = st"
proof (induction fuel arbitrary: n cur)
  case (Suc fuel)
  have "fold (process_schedule computeNextRun e) page st = st" for page
    by (induction page) (simp_all add: process_schedule_def computeNextRun_def)
  with Suc show ?case by (simp add: Let_def split: option.split)
qed simp

text \<open>
  No salary schedule is ever carried out: whatever is due and whatever the query of a page answers, a run of the job
  triggers no schedule, moves no schedule on and creates no batch, because the function that should compute the next
  run does not exist and its error skips the schedule.
\<close>

theorem salary_schedules_never_fire:
  "snd (processSalarySchedules up_before up_after e query st) = snd st"
  by (simp add: processSalarySchedules_def run_locked_def pages_without_next_run
      split: prod.split bool.split)

text \<open>
  The trigger itself works when it is called: an active schedule whose amounts are decimals, whose total prints as a
  decimal of the same value, gets one new pending batch for its owner with the exact items, and is moved on.
\<close>

theorem trigger_creates_batch:
  assumes "find_schedule i st = Some s" and "sc_active s"
    and "sum_amounts (se_rnd e) (se_dec e) 0 (map (\<lambda>i. \<lparr>ip_recipient = ai_recipient i, ip_amount = ai_amount i\<rparr>) (sc_items s)) = Some t"
    and "se_dec e (se_str e t) = Some t"
  shows "fst (triggerSchedule e i st) = Inr () \<and>
    map sb_total (ss_batches (pr_salary (snd (triggerSchedule e i st)))) = map sb_total (ss_batches (pr_salary st)) @ [t] \<and>
    map sc_last (filter (\<lambda>s. sc_id s = i) (pr_schedules (snd (triggerSchedule e i st)))) =
      map (\<lambda>_. Some (se_now e)) (filter (\<lambda>s. sc_id s = i) (pr_schedules st))"
proof -
  have last: "map sc_last (filter (\<lambda>s. sc_id s = i) (map (\<lambda>s. if sc_id s = i then s\<lparr>sc_last := Some a, sc_next := f s\<rparr> else s) xs)) =
      map (\<lambda>_. Some a) (filter (\<lambda>s. sc_id s = i) xs)" for a f xs
    by (induction xs) simp_all
  show ?thesis
    using assms by (simp add: triggerSchedule_def createSalaryBatch_def schedule_batch_def truthy_def put_schedule_def last)
qed

text \<open>Nothing of a schedule says which run a batch belongs to, so two triggers make two batches.\<close>

lemma schedule_batch_unkeyed: "bp_key (schedule_batch e s t) = None"
  by (simp add: schedule_batch_def)

text \<open>The cursor of the job goes to the last schedule of a page.\<close>

lemma next_cursor_last: "sc_next s = Some t \<Longrightarrow> next_cursor (page @ [s]) cur = Some (t, sc_id s)"
  by (simp add: next_cursor_def)

definition plain_schedule_env :: schedule_env where
  "plain_schedule_env = \<lparr>se_midnight = (\<lambda>t. t + 86400000), se_initial = (\<lambda>t. t + 86400000), se_now = 7, se_rnd = (\<lambda>q. q),
     se_dec = (\<lambda>s. if s = ''5'' then Some 5 else None), se_str = (\<lambda>q. if q = 5 then ''5'' else ''0'')\<rparr>"

definition sample_schedule :: schedule where
  "sample_schedule = \<lparr>sc_id = 2, sc_org = None, sc_user = ''u'', sc_name = ''pay'', sc_cron = daily,
     sc_items = [\<lparr>ai_recipient = ''r'', ai_amount = ''5''\<rparr>], sc_currency = ''ACBU'', sc_active = True, sc_last = None,
     sc_next = Some 3, sc_created = 1\<rparr>"

theorem trigger_creates_batch_witness:
  "fst (triggerSchedule plain_schedule_env 2
      \<lparr>pr_schedules = [sample_schedule], pr_next = 3,
       pr_salary = \<lparr>ss_batches = [], ss_next = 0, ss_next_item = 0, ss_transfer = sample_tstate\<rparr>\<rparr>) = Inr ()"
  by (rule conjunct1 [OF trigger_creates_batch [where s = sample_schedule and t = 5]])
    (simp_all add: find_schedule_def sample_schedule_def plain_schedule_env_def)

end
