(* ===== verification/Bulk.thy ===== *)
theory Bulk
  imports TxStore Recipient
begin

text \<open>
  Bulk transfers from a CSV file: \<open>src/services/enterpriseService.ts\<close> and
  \<open>src/validators/bulkTransferValidator.ts\<close>. SHA-256 (hex digest) is a parameter, as is where the database
  fails: in which rows the lookup of the key, the lookup of the sender or the insertion throws (apart from the
  unique key), what becomes of the transaction around each chunk, and the updates of the job.
  \<open>chunkSize\<close> is \<open>Suc k\<close>: with 0 the loop of the code does not advance. The text is the decoded
  file without its byte order mark.
\<close>

section \<open>CSV\<close>

abbreviation quote_char :: char where
  "quote_char \<equiv> CHR 0x22"

text \<open>\<open>csv_scan inQuotes current rest\<close> is the loop of \<open>parseCsvLine\<close> from one character on.\<close>

function csv_scan :: "bool \<Rightarrow> string \<Rightarrow> string \<Rightarrow> string list" where
  "csv_scan q cur [] = [cur]"
| "csv_scan q cur (c # cs) =
     (if c = quote_char then
        (if q \<and> cs \<noteq> [] \<and> hd cs = quote_char then csv_scan q (cur @ [quote_char]) (tl cs)
         else csv_scan (\<not> q) cur cs)
      else if c = CHR '','' \<and> \<not> q then cur # csv_scan q [] cs
      else csv_scan q (cur @ [c]) cs)"
  by pat_completeness auto
termination
  by (relation "measure (\<lambda>(q, cur, cs). length cs)") auto

definition parseCsvLine :: "string \<Rightarrow> string list" where
  "parseCsvLine line = csv_scan False [] line"

datatype bulk_error =
    CsvEmpty | CsvMissingHeaders "string list" | FileTooLarge | TooManyRows nat | UserKeyRequired
  | DatabaseFailed | TransactionFailed

type_synonym csv_row = "(string \<times> string) list"

text \<open>\<open>Object.fromEntries\<close>: a later column with the same header overwrites an earlier one.\<close>

definition row_field :: "csv_row \<Rightarrow> string \<Rightarrow> string option" where
  "row_field r h = map_of (rev r) h"

definition mk_row :: "string list \<Rightarrow> string \<Rightarrow> csv_row" where
  "mk_row headers line =
     (let vals = parseCsvLine line in
      map (\<lambda>i. (headers ! i, if i < length vals then trim (vals ! i) else [])) [0..<length headers])"

text \<open>A carriage return before the line feed is removed by the split or by \<open>trimEnd\<close>, with one result.\<close>

definition csv_lines :: "string \<Rightarrow> string list" where
  "csv_lines t = filter (\<lambda>l. l \<noteq> []) (map trim_end (split_on (CHR 0x0A) t))"

definition parseCsvBuffer :: "string \<Rightarrow> bulk_error + csv_row list" where
  "parseCsvBuffer t =
     (case csv_lines t of
        [] \<Rightarrow> Inl CsvEmpty
      | l # ls \<Rightarrow>
          (let headers = map trim (parseCsvLine l);
               missing = filter (\<lambda>h. h \<notin> set headers) [''to'', ''amount_acbu''] in
           if headers = [] then Inl CsvEmpty
           else if missing \<noteq> [] then Inl (CsvMissingHeaders missing)
           else Inr (map (mk_row headers) ls)))"

section \<open>Row validation\<close>

record row_input =
  ri_to :: string
  ri_amount :: string
  ri_reference :: "string option"
  ri_key :: "string option"

definition row_issues :: "csv_row \<Rightarrow> string list" where
  "row_issues r =
     (let dest = trim (case row_field r ''to'' of Some v \<Rightarrow> v | None \<Rightarrow> []);
          amt = trim (case row_field r ''amount_acbu'' of Some v \<Rightarrow> v | None \<Rightarrow> []) in
      (if dest = [] then [''to is required''] else [])
      @ (if amt = [] then [''amount_acbu is required''] else [])
      @ (if decimal_shape 7 amt \<and> 0 < f64 (decimal_value amt) then []
         else [''amount_acbu must be a positive number with up to 7 decimal places'']))"

definition safeParse :: "csv_row \<Rightarrow> string list + row_input" where
  "safeParse r =
     (if row_issues r = [] then
        Inr \<lparr>ri_to = trim (the (row_field r ''to'')), ri_amount = trim (the (row_field r ''amount_acbu'')),
             ri_reference = map_option trim (row_field r ''reference''),
             ri_key = map_option trim (row_field r ''idempotency_key'')\<rparr>
      else Inl (row_issues r))"

section \<open>Processing\<close>

definition or_empty :: "string option \<Rightarrow> string" where
  "or_empty s = (case s of Some t \<Rightarrow> t | None \<Rightarrow> [])"

definition deriveIdempotencyKey ::
  "(string \<Rightarrow> string) \<Rightarrow> string \<Rightarrow> string \<Rightarrow> string \<Rightarrow> string option \<Rightarrow> string option \<Rightarrow> string" where
  "deriveIdempotencyKey sha org recipient amount reference rowKey =
     sha (org @ ''|'' @ recipient @ ''|'' @ amount @ ''|'' @ or_empty reference @ ''|'' @ or_empty rowKey)"

datatype row_status = Success | Failure | Skipped

record row_result =
  row_index :: nat
  rr_key :: string
  rr_status :: row_status
  rr_tx :: "nat option"
  rr_error :: "string option"

text \<open>
  \<open>prisma.$transaction\<close> around a chunk. Its body works on the global client and not on the transaction's own, so the
  transaction holds none of the chunk's writes: it may not begin (\<open>ChunkRefused\<close>, the body does not run) or
  expire while the body runs (\<open>ChunkExpires\<close>, the commit throws and the writes stay).
  \<open>CountersFail\<close>: it commits, and the update of the job after it throws.
\<close>

datatype chunk_outcome = ChunkCommits | ChunkRefused | ChunkExpires | CountersFail

text \<open>The index of a row, or of the first row of a chunk, picks the answer; another upload of the same file is
  another environment.\<close>

record bulk_env =
  be_sha :: "string \<Rightarrow> string"
  be_lookup_fails :: "nat \<Rightarrow> bool"
  be_sender_fails :: "nat \<Rightarrow> string option"
  be_create_fails :: "nat \<Rightarrow> row_input \<Rightarrow> string option"
  be_chunk :: "nat \<Rightarrow> chunk_outcome"
  be_open_fails :: bool
  be_close_fails :: bool
  be_now :: int

record bulk_job =
  job_id :: nat
  job_org :: string
  job_total :: nat
  job_completed :: bool
  job_processed :: nat
  job_success :: nat
  job_failure :: nat
  job_report :: "row_result list option"

record bulk_state =
  b_tx :: txdb
  b_users :: "user list"
  b_jobs :: "bulk_job list"
  b_next_job :: nat

definition bulk_txn :: "bulk_env \<Rightarrow> string \<Rightarrow> string \<Rightarrow> row_input \<Rightarrow> string \<Rightarrow> txn" where
  "bulk_txn e org sender r key =
     (new_txn TTransfer Completed (be_now e))\<lparr>tx_user := Some sender, tx_org := Some org, tx_key := Some key,
        recipient_address := Some (ri_to r), acbu_amount := Some (decimal_value (ri_amount r)),
        completed_at := Some (be_now e)\<rparr>"

definition row_key :: "bulk_env \<Rightarrow> string \<Rightarrow> row_input \<Rightarrow> string" where
  "row_key e org r = deriveIdempotencyKey (be_sha e) org (ri_to r) (ri_amount r) (ri_reference r) (ri_key r)"

text \<open>The path after P2002 looks the key up again; between the lookup and the insertion of one sequential
  step nothing can have been inserted, so the second lookup is the race of two processes.\<close>

definition processRow ::
  "bulk_env \<Rightarrow> string \<Rightarrow> string option \<Rightarrow> row_input \<Rightarrow> nat \<Rightarrow> user list \<Rightarrow> txdb
     \<Rightarrow> (bulk_error + row_result) \<times> txdb" where
  "processRow e org sender r idx users db =
     (if \<not> truthy sender then (Inl UserKeyRequired, db)
      else if be_lookup_fails e idx then (Inl DatabaseFailed, db)
      else
        let key = row_key e org r;
            result = (\<lambda>st tx err. \<lparr>row_index = idx, rr_key = key, rr_status = st, rr_tx = tx, rr_error = err\<rparr>) in
        (case find_tx_by_key key db of
           Some q \<Rightarrow> (Inr (result Skipped (Some (tx_id q))
               (Some (if tx_status q = Failed then ''Duplicate transfer already failed previously''
                      else ''Duplicate transfer already processed previously''))), db)
         | None \<Rightarrow>
           (case be_sender_fails e idx of
              Some m \<Rightarrow> (Inr (result Failure None (Some m)), db)
            | None \<Rightarrow>
           (case find_user (the sender) users of
              None \<Rightarrow> (Inr (result Failure None (Some ''Sender user not found'')), db)
            | Some _ \<Rightarrow>
              (case be_create_fails e idx r of
                 Some m \<Rightarrow> (Inr (result Failure None (Some m)), db)
               | None \<Rightarrow>
                 (case create_tx (bulk_txn e org (the sender) r key) db of
                    Some (db', tx) \<Rightarrow> (Inr (result Success (Some (tx_id tx)) None), db')
                  | None \<Rightarrow>
                    (case find_tx_by_key key db of
                       Some q \<Rightarrow> (Inr (result Skipped (Some (tx_id q))
                           (Some ''Duplicate transfer already processed previously'')), db)
                     | None \<Rightarrow> (Inr (result Failure None (Some ''Unique constraint failed'')), db))))))))"

definition join_issues :: "string list \<Rightarrow> string" where
  "join_issues ms = (case ms of [] \<Rightarrow> [] | m # r \<Rightarrow> m @ concat (map (\<lambda>x. ''; '' @ x) r))"

definition process_raw_row ::
  "bulk_env \<Rightarrow> string \<Rightarrow> string option \<Rightarrow> csv_row \<Rightarrow> nat \<Rightarrow> user list \<Rightarrow> txdb
     \<Rightarrow> (bulk_error + row_result) \<times> txdb" where
  "process_raw_row e org sender raw idx users db =
     (case safeParse raw of
        Inl issues \<Rightarrow>
          (Inr \<lparr>row_index = idx,
             rr_key = deriveIdempotencyKey (be_sha e) org (or_empty (row_field raw ''to''))
               (or_empty (row_field raw ''amount_acbu'')) (row_field raw ''reference'') (row_field raw ''idempotency_key''),
             rr_status = Failure, rr_tx = None, rr_error = Some (join_issues issues)\<rparr>, db)
      | Inr r \<Rightarrow> processRow e org sender r idx users db)"

fun process_rows ::
  "bulk_env \<Rightarrow> string \<Rightarrow> string option \<Rightarrow> user list \<Rightarrow> nat \<Rightarrow> csv_row list \<Rightarrow> txdb
     \<Rightarrow> (bulk_error + row_result list) \<times> txdb" where
  "process_rows e org sender users idx [] db = (Inr [], db)"
| "process_rows e org sender users idx (raw # rows) db =
     (case process_raw_row e org sender raw idx users db of
        (Inl err, db1) \<Rightarrow> (Inl err, db1)
      | (Inr r, db1) \<Rightarrow>
          (case process_rows e org sender users (Suc idx) rows db1 of
             (Inl err, db2) \<Rightarrow> (Inl err, db2)
           | (Inr rs, db2) \<Rightarrow> (Inr (r # rs), db2)))"

definition count_status :: "row_status \<Rightarrow> row_result list \<Rightarrow> nat" where
  "count_status s rs = length (filter (\<lambda>r. rr_status r = s) rs)"

definition update_job :: "nat \<Rightarrow> (bulk_job \<Rightarrow> bulk_job) \<Rightarrow> bulk_state \<Rightarrow> bulk_state" where
  "update_job i f st = st\<lparr>b_jobs := map (\<lambda>j. if job_id j = i then f j else j) (b_jobs st)\<rparr>"

text \<open>The update of the job after a chunk (lines 292-304).\<close>

definition job_counters :: "row_result list \<Rightarrow> bulk_job \<Rightarrow> bulk_job" where
  "job_counters rs j = j\<lparr>job_processed := length rs, job_success := count_status Success rs,
     job_failure := count_status Failure rs\<rparr>"

text \<open>The loop over the chunks; \<open>acc\<close> is \<open>allResults\<close> and its length the start of the next chunk.\<close>

fun process_chunks ::
  "bulk_env \<Rightarrow> string \<Rightarrow> string option \<Rightarrow> nat \<Rightarrow> row_result list \<Rightarrow> csv_row list list \<Rightarrow> bulk_state
     \<Rightarrow> (bulk_error + row_result list) \<times> bulk_state" where
  "process_chunks e org sender job acc [] st = (Inr acc, st)"
| "process_chunks e org sender job acc (chunk # chunks) st =
     (if be_chunk e (length acc) = ChunkRefused then (Inl TransactionFailed, st)
      else case process_rows e org sender (b_users st) (length acc) chunk (b_tx st) of
        (Inl err, db) \<Rightarrow> (Inl err, st\<lparr>b_tx := db\<rparr>)
      | (Inr rs, db) \<Rightarrow>
          (let acc' = acc @ rs in
           if be_chunk e (length acc) = ChunkExpires then (Inl TransactionFailed, st\<lparr>b_tx := db\<rparr>)
           else if be_chunk e (length acc) = CountersFail then (Inl DatabaseFailed, st\<lparr>b_tx := db\<rparr>)
           else process_chunks e org sender job acc' chunks
             (update_job job (job_counters acc') (st\<lparr>b_tx := db\<rparr>))))"

record bulk_request =
  br_org :: string
  br_sender :: "string option"
  br_size :: nat
  br_text :: string

record bulk_limits =
  chunk_pred :: nat
  max_file_size :: nat
  max_rows :: nat

record job_result =
  jr_id :: nat
  jr_total :: nat
  jr_success :: nat
  jr_failure :: nat
  jr_skipped :: nat
  jr_completed :: bool
  jr_report :: "row_result list"

definition non_success :: "row_result list \<Rightarrow> row_result list" where
  "non_success rs = filter (\<lambda>r. rr_status r \<noteq> Success) rs"

definition open_job :: "string \<Rightarrow> nat \<Rightarrow> bulk_state \<Rightarrow> bulk_state" where
  "open_job org n st = st\<lparr>b_jobs := b_jobs st @ [\<lparr>job_id = b_next_job st, job_org = org, job_total = n,
        job_completed = (n = 0), job_processed = 0, job_success = 0, job_failure = 0, job_report = None\<rparr>],
     b_next_job := Suc (b_next_job st)\<rparr>"

definition processBulkTransfer ::
  "bulk_env \<Rightarrow> bulk_limits \<Rightarrow> bulk_request \<Rightarrow> bulk_state \<Rightarrow> (bulk_error + job_result) \<times> bulk_state" where
  "processBulkTransfer e lims rq st =
     (if max_file_size lims < br_size rq then (Inl FileTooLarge, st)
      else bail (parseCsvBuffer (br_text rq)) st (\<lambda>rows.
        if max_rows lims < length rows then (Inl (TooManyRows (length rows)), st)
        else if be_open_fails e then (Inl DatabaseFailed, st)
        else
          let job = b_next_job st; st1 = open_job (br_org rq) (length rows) st in
          (case process_chunks e (br_org rq) (br_sender rq) job [] (batches (chunk_pred lims) rows) st1 of
             (Inl err, st2) \<Rightarrow> (Inl err, st2)
           | (Inr rs, st2) \<Rightarrow>
               if be_close_fails e then (Inl DatabaseFailed, st2)
               else (Inr \<lparr>jr_id = job, jr_total = length rows, jr_success = count_status Success rs,
                   jr_failure = count_status Failure rs, jr_skipped = count_status Skipped rs, jr_completed = True,
                   jr_report = filter (\<lambda>r. rr_status r = Failure) rs\<rparr>,
                update_job job (\<lambda>j. j\<lparr>job_completed := True, job_success := count_status Success rs,
                   job_failure := count_status Failure rs, job_report := Some (non_success rs)\<rparr>) st2))))"

definition getBulkTransferJob :: "nat \<Rightarrow> string \<Rightarrow> bulk_state \<Rightarrow> job_result option" where
  "getBulkTransferJob i org st =
     map_option (\<lambda>j. \<lparr>jr_id = job_id j, jr_total = job_total j, jr_success = job_success j,
         jr_failure = job_failure j,
         jr_skipped = (case job_report j of None \<Rightarrow> 0 | Some rs \<Rightarrow> count_status Skipped rs),
         jr_completed = job_completed j,
         jr_report = (case job_report j of None \<Rightarrow> [] | Some rs \<Rightarrow> rs)\<rparr>)
       (find (\<lambda>j. job_id j = i \<and> job_org j = org) (b_jobs st))"

section \<open>CSV round trip\<close>

definition csv_quote :: "string \<Rightarrow> string" where
  "csv_quote f = quote_char # concat (map (\<lambda>c. if c = quote_char then [quote_char, quote_char] else [c]) f) @ [quote_char]"

fun csv_line :: "string list \<Rightarrow> string" where
  "csv_line [] = []"
| "csv_line [f] = csv_quote f"
| "csv_line (f # fs) = csv_quote f @ CHR '','' # csv_line fs"

lemma csv_scan_quoted:
  "rest = [] \<or> hd rest \<noteq> quote_char \<Longrightarrow>
   csv_scan True cur (concat (map (\<lambda>c. if c = quote_char then [quote_char, quote_char] else [c]) f) @ quote_char # rest)
     = csv_scan False (cur @ f) rest"
proof (induction f arbitrary: cur)
  case (Cons c f)
  show ?case
  proof (cases "c = quote_char")
    case True
    with Cons.IH [OF Cons.prems, of "cur @ [c]"] show ?thesis by simp
  next
    case False
    with Cons.IH [OF Cons.prems, of "cur @ [c]"] show ?thesis by simp
  qed
qed auto

text \<open>
  CSV round trip: a line written with every field quoted (quotes doubled) is read back field for
  field, whatever characters the fields hold, commas and quotes included.
\<close>

theorem csv_line_roundtrip:
  assumes "fs \<noteq> []"
  shows "parseCsvLine (csv_line fs) = fs"
proof -
  have start: "csv_scan False [] (csv_quote f @ rest) = csv_scan False f rest"
    if "rest = [] \<or> hd rest \<noteq> quote_char" for f rest
    using csv_scan_quoted [OF that, of "[]" f] by (simp add: csv_quote_def)
  from assms show ?thesis unfolding parseCsvLine_def
  proof (induction fs rule: csv_line.induct)
    case (2 f)
    show ?case using start [of "[]" f] by simp
  next
    case (3 f g fs)
    then show ?case using start [of "CHR '','' # csv_line (g # fs)" f] by simp
  qed simp
qed

theorem csv_line_roundtrip_witness:
  "parseCsvLine (csv_line [''@jane'', ''12.5'', [CHR ''a'', quote_char, CHR '','']])
     = [''@jane'', ''12.5'', [CHR ''a'', quote_char, CHR '','']]"
  by (rule csv_line_roundtrip) simp

section \<open>Rows\<close>

lemma process_rows_append:
  "process_rows e org sender users idx (xs @ ys) db =
     (case process_rows e org sender users idx xs db of
        (Inl err, db1) \<Rightarrow> (Inl err, db1)
      | (Inr rs, db1) \<Rightarrow>
          (case process_rows e org sender users (idx + length xs) ys db1 of
             (Inl err, db2) \<Rightarrow> (Inl err, db2) | (Inr rs', db2) \<Rightarrow> (Inr (rs @ rs'), db2)))"
  by (induction xs arbitrary: idx db) (auto split: sum.splits prod.splits)

lemma process_raw_row_cases:
  assumes "process_raw_row e org sender raw idx users db = (Inr r, db')"
  obtains (kept) "db' = db" "rr_status r \<noteq> Success" "row_index r = idx"
  | (made) v tx where "safeParse raw = Inr v" "sender \<noteq> None"
      "create_tx (bulk_txn e org (the sender) v (row_key e org v)) db = Some (db', tx)"
      "r = \<lparr>row_index = idx, rr_key = row_key e org v, rr_status = Success, rr_tx = Some (tx_id tx), rr_error = None\<rparr>"
  using assms
  by (auto simp: process_raw_row_def processRow_def Let_def truthy_def
      split: sum.splits option.splits if_splits)

lemma process_rows_facts:
  assumes "process_rows e org sender users idx rows db = (Inr rs, db')"
  shows "map row_index rs = [idx..<idx + length rows]"
    and "length (tx_rows db') = length (tx_rows db) + count_status Success rs"
    and "tx_extends db db'"
  using assms
proof (induction rows arbitrary: idx db rs)
  case (Cons raw rows)
  {
    case 1
    then obtain r db1 rs1 where s: "process_raw_row e org sender raw idx users db = (Inr r, db1)"
      "process_rows e org sender users (Suc idx) rows db1 = (Inr rs1, db')" "rs = r # rs1"
      by (auto split: sum.splits prod.splits)
    from s(1) have "row_index r = idx" by (cases rule: process_raw_row_cases) auto
    with Cons.IH(1) [OF s(2)] s(3) upt_conv_Cons [of idx "idx + length (raw # rows)"] show ?case
      by (simp del: upt_Suc)
  next
    case 2
    then obtain r db1 rs1 where s: "process_raw_row e org sender raw idx users db = (Inr r, db1)"
      "process_rows e org sender users (Suc idx) rows db1 = (Inr rs1, db')" "rs = r # rs1"
      by (auto split: sum.splits prod.splits)
    from s(1) show ?case using Cons.IH(2) [OF s(2)] s(3)
      by (cases rule: process_raw_row_cases) (auto simp: count_status_def dest: create_tx_rows)
  next
    case 3
    then obtain r db1 rs1 where s: "process_raw_row e org sender raw idx users db = (Inr r, db1)"
      "process_rows e org sender users (Suc idx) rows db1 = (Inr rs1, db')" "rs = r # rs1"
      by (auto split: sum.splits prod.splits)
    from s(1) have "tx_extends db db1" by (cases rule: process_raw_row_cases) (auto dest: tx_extends_create)
    with Cons.IH(3) [OF s(2)] show ?case by (rule tx_extends_trans [rotated])
  }
qed (auto simp: count_status_def)

lemma status_partition:
  "count_status Success rs + count_status Failure rs + count_status Skipped rs = length rs"
  unfolding count_status_def by (rule length_filter_partition3) (auto intro: row_status.exhaust)

lemma count_non_success: "count_status Skipped (non_success rs) = count_status Skipped rs"
  by (induction rs) (auto simp: count_status_def non_success_def)

section \<open>Chunks\<close>

lemma update_job_simps [simp]:
  "b_tx (update_job i f st) = b_tx st" "b_users (update_job i f st) = b_users st"
  "b_next_job (update_job i f st) = b_next_job st"
  by (simp_all add: update_job_def)

text \<open>All chunks commit in a run that returns; any run has processed some first rows of the file.\<close>

lemma process_rows_length:
  "process_rows e org sender users idx rows db = (Inr rs, db') \<Longrightarrow> length rs = length rows"
  using process_rows_facts(1) by (metis add_diff_cancel_left' length_map length_upt)

lemma process_chunks_commits:
  assumes "process_rows e org sender (b_users st) (length acc) c (b_tx st) = (Inr rs, db)"
    and "be_chunk e (length acc) = ChunkCommits"
  shows "process_chunks e org sender job acc (c # cs) st
    = process_chunks e org sender job (acc @ rs) cs (update_job job (job_counters (acc @ rs)) (st\<lparr>b_tx := db\<rparr>))"
  using assms by (simp add: Let_def)

lemma process_chunks_rows:
  assumes "process_chunks e org sender job acc chunks st = (Inr res, st')"
  shows "\<exists>rs. res = acc @ rs
     \<and> process_rows e org sender (b_users st) (length acc) (concat chunks) (b_tx st) = (Inr rs, b_tx st')"
  using assms
proof (induction chunks arbitrary: acc st)
  case (Cons c cs)
  from Cons.prems obtain rs db where c: "process_rows e org sender (b_users st) (length acc) c (b_tx st) = (Inr rs, db)"
    by (auto split: if_splits prod.splits sum.splits)
  from Cons.prems c have "be_chunk e (length acc) = ChunkCommits"
    by (cases "be_chunk e (length acc)") (simp_all add: Let_def)
  from Cons.IH [OF Cons.prems [unfolded process_chunks_commits [OF c this]]] process_rows_length [OF c] c
  show ?case by (auto simp: process_rows_append)
qed simp

lemma process_chunks_prefix:
  "\<exists>n res. process_rows e org sender (b_users st) (length acc) (take n (concat chunks)) (b_tx st)
     = (res, b_tx (snd (process_chunks e org sender job acc chunks st)))"
proof (induction chunks arbitrary: acc st)
  case Nil
  show ?case by simp
next
  case (Cons c cs)
  obtain r db where c: "process_rows e org sender (b_users st) (length acc) c (b_tx st) = (r, db)" by fastforce
  have stop: ?case if "b_tx (snd (process_chunks e org sender job acc (c # cs) st)) = db"
    using that c by (intro exI [of _ "length c"]) simp
  show ?case
  proof (cases "be_chunk e (length acc) = ChunkRefused")
    case True
    then show ?thesis by (intro exI [of _ 0]) simp
  next
    case False
    show ?thesis
    proof (cases r)
      case (Inl err)
      with c False show ?thesis by (intro stop) simp
    next
      case (Inr rs)
      show ?thesis
      proof (cases "be_chunk e (length acc)")
        case ChunkCommits
        note step = process_chunks_commits [OF c [unfolded Inr] ChunkCommits, of job cs]
        from Cons.IH [of "update_job job (job_counters (acc @ rs)) (st\<lparr>b_tx := db\<rparr>)" "acc @ rs"] obtain n res where
          "process_rows e org sender (b_users st) (length acc + length rs) (take n (concat cs)) db
             = (res, b_tx (snd (process_chunks e org sender job acc (c # cs) st)))"
          unfolding step by auto
        with c Inr process_rows_length [OF c [unfolded Inr]] show ?thesis
          by (intro exI [of _ "length c + n"])
             (auto simp: process_rows_append take_add split: sum.splits prod.splits)
      next
        case ChunkRefused
        with False show ?thesis by simp
      next
        case ChunkExpires
        with c Inr show ?thesis by (intro stop) (simp add: Let_def)
      next
        case CountersFail
        with c Inr show ?thesis by (intro stop) (simp add: Let_def)
      qed
    qed
  qed
qed

text \<open>Only the job being run is written to.\<close>

lemma process_chunks_jobs:
  "\<exists>f. b_jobs (snd (process_chunks e org sender job acc chunks st))
       = map (\<lambda>j. if job_id j = job then f j else j) (b_jobs st)
     \<and> (\<forall>j. job_id (f j) = job_id j \<and> job_org (f j) = job_org j \<and> job_total (f j) = job_total j
          \<and> job_completed (f j) = job_completed j)"
proof (induction chunks arbitrary: acc st)
  case Nil
  show ?case by (rule exI [of _ "\<lambda>j. j"]) simp
next
  case (Cons c cs)
  have stop: ?case if "b_jobs (snd (process_chunks e org sender job acc (c # cs) st)) = b_jobs st"
    using that by (intro exI [of _ "\<lambda>j. j"]) simp
  obtain r db where c: "process_rows e org sender (b_users st) (length acc) c (b_tx st) = (r, db)" by fastforce
  show ?case
  proof (cases "\<exists>rs. r = Inr rs \<and> be_chunk e (length acc) = ChunkCommits")
    case True
    then obtain rs where Inr: "r = Inr rs" "be_chunk e (length acc) = ChunkCommits" by blast
    define g where "g = job_counters (acc @ rs)"
    from Cons.IH [of "acc @ rs" "update_job job g (st\<lparr>b_tx := db\<rparr>)"] obtain f where f:
      "b_jobs (snd (process_chunks e org sender job (acc @ rs) cs (update_job job g (st\<lparr>b_tx := db\<rparr>))))
        = map (\<lambda>j. if job_id j = job then f j else j) (b_jobs (update_job job g (st\<lparr>b_tx := db\<rparr>)))"
      "\<forall>j. job_id (f j) = job_id j \<and> job_org (f j) = job_org j \<and> job_total (f j) = job_total j
         \<and> job_completed (f j) = job_completed j" by blast
    have "job_id (g j) = job_id j" "job_org (g j) = job_org j" "job_total (g j) = job_total j"
      "job_completed (g j) = job_completed j" for j
      by (simp_all add: g_def job_counters_def)
    moreover have "process_chunks e org sender job acc (c # cs) st
        = process_chunks e org sender job (acc @ rs) cs (update_job job g (st\<lparr>b_tx := db\<rparr>))"
      using process_chunks_commits [OF c [unfolded Inr] Inr(2)] by (simp add: g_def)
    ultimately show ?thesis using f
      by (intro exI [of _ "f \<circ> g"]) (simp add: update_job_def comp_def)
  next
    case False
    then show ?thesis
      by (intro stop) (cases r; cases "be_chunk e (length acc)"; simp add: c Let_def)
  qed
qed

section \<open>Properties\<close>

definition jobs_inv :: "bulk_state \<Rightarrow> bool" where
  "jobs_inv st \<longleftrightarrow> (\<forall>j \<in> set (b_jobs st). job_id j < b_next_job st)"

lemma find_unique_job:
  assumes "\<forall>j \<in> set js. job_id j \<noteq> i"
  shows "find (\<lambda>j. job_id j = i \<and> job_org j = org) (js @ [j])
    = (if job_id j = i \<and> job_org j = org then Some j else None)"
  using assms by (induction js) auto

text \<open>The successful run of a file, in terms of \<open>process_rows\<close> on all its rows.\<close>

lemma processBulkTransfer_InrE:
  assumes "processBulkTransfer e lims rq st = (Inr jr, st')"
  obtains (run) rows rs st1 st2 where "parseCsvBuffer (br_text rq) = Inr rows" "length rows \<le> max_rows lims"
    "st1 = open_job (br_org rq) (length rows) st"
    "process_chunks e (br_org rq) (br_sender rq) (b_next_job st) [] (batches (chunk_pred lims) rows) st1 = (Inr rs, st2)"
    "process_rows e (br_org rq) (br_sender rq) (b_users st) 0 rows (b_tx st) = (Inr rs, b_tx st')"
    "st' = update_job (b_next_job st) (\<lambda>j. j\<lparr>job_completed := True, job_success := count_status Success rs,
                   job_failure := count_status Failure rs, job_report := Some (non_success rs)\<rparr>) st2"
    "jr = \<lparr>jr_id = b_next_job st, jr_total = length rows, jr_success = count_status Success rs,
        jr_failure = count_status Failure rs, jr_skipped = count_status Skipped rs, jr_completed = True,
        jr_report = filter (\<lambda>r. rr_status r = Failure) rs\<rparr>"
proof -
  from assms obtain rows where p: "parseCsvBuffer (br_text rq) = Inr rows" "length rows \<le> max_rows lims"
    by (auto simp: processBulkTransfer_def bail_Inr_iff split: if_splits)
  define st1 where "st1 = open_job (br_org rq) (length rows) st"
  obtain r st2 where c: "process_chunks e (br_org rq) (br_sender rq) (b_next_job st) []
      (batches (chunk_pred lims) rows) st1 = (r, st2)" by fastforce
  note def = assms [unfolded processBulkTransfer_def Let_def p(1) bail_simps, folded st1_def]
  from def p(2) c obtain rs where r: "r = Inr rs" by (auto split: if_splits sum.splits)
  have "b_users st1 = b_users st" "b_tx st1 = b_tx st" by (simp_all add: st1_def open_job_def)
  then have "process_rows e (br_org rq) (br_sender rq) (b_users st) 0 rows (b_tx st) = (Inr rs, b_tx st2)"
    using process_chunks_rows [OF c [unfolded r]] by simp
  with def p c r show thesis by (intro run [OF p st1_def]) (auto split: if_splits)
qed

text \<open>
  The books of a bulk job balance: successes, failures and skipped rows add up to the rows of the
  file, exactly one transaction row is created per success, no row disappears, and the stored job, read
  back by its organization, reports the same counts.
\<close>

theorem bulk_job_accounts_for_every_row:
  assumes "jobs_inv st" and "processBulkTransfer e lims rq st = (Inr jr, st')"
  shows "jr_success jr + jr_failure jr + jr_skipped jr = jr_total jr
   \<and> length (tx_rows (b_tx st')) = length (tx_rows (b_tx st)) + jr_success jr
   \<and> tx_extends (b_tx st) (b_tx st')
   \<and> (\<exists>rep. getBulkTransferJob (jr_id jr) (br_org rq) st' = Some (jr\<lparr>jr_report := rep\<rparr>))"
  using assms(2)
proof (cases rule: processBulkTransfer_InrE)
  case (run rows rs st1 st2)
  note facts = process_rows_facts [OF run(5)]
  have len: "length rs = length rows" using facts(1) by (metis add_0 diff_zero length_map length_upt)
  from process_chunks_jobs [of e "br_org rq" "br_sender rq" "b_next_job st" "[]" "batches (chunk_pred lims) rows" st1]
  obtain f where f: "b_jobs st2 = map (\<lambda>j. if job_id j = b_next_job st then f j else j) (b_jobs st1)"
    "\<forall>j. job_id (f j) = job_id j \<and> job_org (f j) = job_org j \<and> job_total (f j) = job_total j
       \<and> job_completed (f j) = job_completed j"
    using run(4) by auto
  have old: "\<forall>j \<in> set (b_jobs st). job_id j \<noteq> b_next_job st" using assms(1) by (auto simp: jobs_inv_def)
  then have "map (\<lambda>j. if job_id j = b_next_job st then g j else j) (b_jobs st) = b_jobs st" for g
    by (simp add: map_idI)
  with f have "getBulkTransferJob (jr_id jr) (br_org rq) st' = Some (jr\<lparr>jr_report := non_success rs\<rparr>)"
    by (simp add: run(3,6,7) open_job_def getBulkTransferJob_def update_job_def find_unique_job [OF old] count_non_success comp_def)
  moreover have "jr_success jr + jr_failure jr + jr_skipped jr = jr_total jr"
    using status_partition [of rs] len by (simp add: run(7))
  ultimately show ?thesis using facts(2,3) by (auto simp: run(7))
qed

definition sample_bulk_env :: bulk_env where
  "sample_bulk_env = \<lparr>be_sha = (\<lambda>s. ''h:'' @ s), be_lookup_fails = (\<lambda>_. False),
     be_sender_fails = (\<lambda>_. None), be_create_fails = (\<lambda>_ _. None), be_chunk = (\<lambda>_. ChunkCommits),
     be_open_fails = False, be_close_fails = False, be_now = 9\<rparr>"

definition sample_limits :: "nat \<Rightarrow> bulk_limits" where
  "sample_limits k = \<lparr>chunk_pred = k, max_file_size = 1000, max_rows = 10\<rparr>"

text \<open>Three rows: a good one, the same again, and one with an amount in scientific notation.\<close>

definition sample_file :: string where
  "sample_file = ''to,amount_acbu'' @ [CHR 0x0A] @ ''@bob,5'' @ [CHR 0x0A] @ ''@bob,5'' @ [CHR 0x0A] @ ''@bob,1e3'' @ [CHR 0x0A]"

definition sample_bulk_request :: bulk_request where
  "sample_bulk_request = \<lparr>br_org = ''o1'', br_sender = Some ''u1'', br_size = 40, br_text = sample_file\<rparr>"

definition sample_bulk_state :: bulk_state where
  "sample_bulk_state = \<lparr>b_tx = empty_db, b_users = sample_users, b_jobs = [], b_next_job = 0\<rparr>"

lemma sample_bulk_run:
  "case processBulkTransfer sample_bulk_env (sample_limits 1) sample_bulk_request sample_bulk_state of
     (Inr jr, _) \<Rightarrow> jr_success jr = 1 \<and> jr_failure jr = 1 \<and> jr_skipped jr = 1 | _ \<Rightarrow> False"
  by code_simp

theorem bulk_job_accounts_for_every_row_witness:
  "case processBulkTransfer sample_bulk_env (sample_limits 1) sample_bulk_request sample_bulk_state of
     (Inr jr, st') \<Rightarrow> jr_total jr = 3 \<and> length (tx_rows (b_tx st')) = 1 | _ \<Rightarrow> False"
proof -
  have inv: "jobs_inv sample_bulk_state" by (simp add: jobs_inv_def sample_bulk_state_def)
  show ?thesis
    using sample_bulk_run bulk_job_accounts_for_every_row [OF inv, of sample_bulk_env "sample_limits 1" sample_bulk_request]
    by (auto simp: sample_bulk_state_def empty_db_def split: prod.splits sum.splits)
qed

section \<open>Running a file again\<close>

text \<open>What a processed row leaves behind: it is invalid, reported as a failure under its key, or its key is taken.\<close>

definition row_done :: "bulk_env \<Rightarrow> string \<Rightarrow> csv_row \<Rightarrow> row_result \<Rightarrow> txdb \<Rightarrow> bool" where
  "row_done e org raw r db =
     (case safeParse raw of
        Inl _ \<Rightarrow> True
      | Inr v \<Rightarrow> rr_key r = row_key e org v \<and> (rr_status r = Failure \<or> find_tx_by_key (rr_key r) db \<noteq> None))"

lemma find_by_key_extends:
  assumes "tx_extends db db'" "find_tx_by_key k db \<noteq> None"
  shows "find_tx_by_key k db' \<noteq> None"
  using assms find_extends [of "\<lambda>r. tx_key r = Some k" "\<lambda>(i, u, key, ty, a). key = Some k" db db']
  by (auto simp: find_tx_by_key_def tx_ident_def)

lemma row_done_extends: "row_done e org raw r db \<Longrightarrow> tx_extends db db' \<Longrightarrow> row_done e org raw r db'"
  using find_by_key_extends [of db db' "rr_key r"] by (auto simp: row_done_def split: sum.splits)

lemma find_created_key: "create_tx r db = Some (db', tx) \<Longrightarrow> tx_key r = Some k \<Longrightarrow> find_tx_by_key k db' \<noteq> None"
  using create_tx_rows [of r db db' tx] by (auto simp: find_tx_by_key_def find_append split: option.splits)

lemma bulk_txn_key [simp]: "tx_key (bulk_txn e org sender r key) = Some key"
  by (simp add: bulk_txn_def)

lemma bulk_create_ok:
  "find_tx_by_key key db = None \<Longrightarrow> create_tx (bulk_txn e org sender r key) db \<noteq> None"
  by (rule txtab.lookup_None_insert) (simp_all add: find_tx_by_key_lookup)

lemma processed_done:
  assumes "process_raw_row e org sender raw idx users db = (Inr r, db')"
  shows "row_done e org raw r db'"
  using assms
  by (auto simp: process_raw_row_def processRow_def row_done_def Let_def
      split: sum.splits option.splits if_splits dest: find_created_key [OF _ bulk_txn_key] bulk_create_ok [THEN notE])

text \<open>A row creates at most one transaction, under its key, and none when the key is taken.\<close>

lemma process_raw_row_creates:
  assumes "process_raw_row e org sender raw idx users db = (res, db')" and "db' \<noteq> db"
  obtains v tx where "safeParse raw = Inr v" "tx_rows db' = tx_rows db @ [tx]" "tx_key tx = Some (row_key e org v)"
    "find_tx_by_key (row_key e org v) db = None"
  using assms
  by (auto simp: process_raw_row_def processRow_def Let_def
      split: sum.splits option.splits if_splits dest: create_tx_rows)

lemma row_again:
  assumes "row_done e org raw r db" "be_sha e' = be_sha e"
    and "process_raw_row e' org sender raw idx users db = (res, db')"
  shows "db' = db \<or> rr_status r = Failure \<and> (\<exists>tx. tx_rows db' = tx_rows db @ [tx] \<and> tx_key tx = Some (rr_key r))"
proof (cases "db' = db")
  case False
  from process_raw_row_creates [OF assms(3) this] obtain v tx where v: "safeParse raw = Inr v"
    "tx_rows db' = tx_rows db @ [tx]" "tx_key tx = Some (row_key e' org v)" "find_tx_by_key (row_key e' org v) db = None"
    by blast
  with assms(1,2) show ?thesis by (auto simp: row_done_def row_key_def)
qed simp

lemma process_rows_done:
  assumes "process_rows e org sender users idx rows db = (Inr rs, db')"
  shows "list_all2 (\<lambda>raw r. row_done e org raw r db') rows rs"
  using assms
proof (induction rows arbitrary: idx db rs)
  case (Cons raw rows)
  from Cons.prems obtain r db1 rs1 where s: "process_raw_row e org sender raw idx users db = (Inr r, db1)"
    "process_rows e org sender users (Suc idx) rows db1 = (Inr rs1, db')" "rs = r # rs1"
    by (auto split: sum.splits prod.splits)
  from processed_done [OF s(1)] process_rows_facts(3) [OF s(2)] Cons.IH [OF s(2)] s(3)
  show ?case by (auto intro: row_done_extends)
qed simp

lemma tx_extends_rows: "tx_rows db' = tx_rows db @ new \<Longrightarrow> tx_extends db db'"
  by (simp add: tx_extends_def)

text \<open>Running rows again creates transactions for rows reported as failures only, at most one for each.\<close>

lemma process_rows_again:
  assumes "list_all2 (\<lambda>raw r. row_done e org raw r db) rows rs" "be_sha e' = be_sha e"
    and "process_rows e' org sender users idx rows db = (res, db')"
  shows "\<exists>new. tx_rows db' = tx_rows db @ new \<and> length new \<le> count_status Failure rs
    \<and> list_all (\<lambda>t. \<exists>r \<in> set (filter (\<lambda>r. rr_status r = Failure) rs). tx_key t = Some (rr_key r)) new"
  using assms
proof (induction rows arbitrary: idx rs db res db')
  case (Cons raw rows)
  from Cons.prems(1) obtain r rs1 where rs: "rs = r # rs1" "row_done e org raw r db"
    "list_all2 (\<lambda>raw r. row_done e org raw r db) rows rs1" by (auto simp: list_all2_Cons1)
  obtain res1 db1 where p: "process_raw_row e' org sender raw idx users db = (res1, db1)" by fastforce
  obtain new1 where n1: "tx_rows db1 = tx_rows db @ new1" "length new1 \<le> count_status Failure [r]"
    "list_all (\<lambda>t. \<exists>r \<in> set (filter (\<lambda>r. rr_status r = Failure) [r]). tx_key t = Some (rr_key r)) new1"
    using row_again [OF rs(2) Cons.prems(2) p] by (fastforce simp: count_status_def)
  have done1: "list_all2 (\<lambda>raw r. row_done e org raw r db1) rows rs1"
    using rs(3) by (rule list_all2_mono) (rule row_done_extends [OF _ tx_extends_rows [OF n1(1)]])
  show ?case
  proof (cases res1)
    case (Inl err)
    with Cons.prems(3) p have "db' = db1" by simp
    with n1 rs(1) show ?thesis by (intro exI [of _ new1]) (auto simp: count_status_def list_all_iff)
  next
    case (Inr q)
    obtain res2 db2 where p2: "process_rows e' org sender users (Suc idx) rows db1 = (res2, db2)" by fastforce
    with Cons.prems(3) p Inr have "db' = db2" by (auto split: sum.splits)
    moreover from Cons.IH [OF done1 Cons.prems(2) p2] obtain new2 where "tx_rows db2 = tx_rows db1 @ new2"
      "length new2 \<le> count_status Failure rs1"
      "list_all (\<lambda>t. \<exists>r \<in> set (filter (\<lambda>r. rr_status r = Failure) rs1). tx_key t = Some (rr_key r)) new2" by blast
    ultimately show ?thesis using n1 rs(1)
      by (intro exI [of _ "new1 @ new2"]) (auto simp: count_status_def list_all_iff)
  qed
qed simp

text \<open>Any run of a file, returning or not, is \<open>process_rows\<close> on some of its first rows.\<close>

lemma processBulkTransfer_prefix:
  assumes "processBulkTransfer e lims rq st = (res, st')" and "parseCsvBuffer (br_text rq) = Inr rows"
  shows "\<exists>n res. process_rows e (br_org rq) (br_sender rq) (b_users st) 0 (take n rows) (b_tx st) = (res, b_tx st')"
proof -
  define st1 where "st1 = open_job (br_org rq) (length rows) st"
  have s1: "b_users st1 = b_users st" "b_tx st1 = b_tx st" by (simp_all add: st1_def open_job_def)
  obtain r st2 where c: "process_chunks e (br_org rq) (br_sender rq) (b_next_job st) []
      (batches (chunk_pred lims) rows) st1 = (r, st2)" by fastforce
  have "b_tx st' = b_tx st \<or> b_tx st' = b_tx st2"
    using assms(1) [unfolded processBulkTransfer_def Let_def assms(2) bail_simps, folded st1_def] c
    by (auto split: if_splits sum.splits)
  moreover have "\<exists>n res. process_rows e (br_org rq) (br_sender rq) (b_users st) 0 (take n rows) (b_tx st) = (res, b_tx st2)"
    using process_chunks_prefix [of e "br_org rq" "br_sender rq" st1 "[]" "batches (chunk_pred lims) rows" "b_next_job st"] s1 c
    by simp
  moreover have "process_rows e (br_org rq) (br_sender rq) (b_users st) 0 (take 0 rows) (b_tx st) = (Inr [], b_tx st)"
    by simp
  ultimately show ?thesis by metis
qed

text \<open>
  C20. A bulk file can be uploaded again without paying twice. Once an upload of it has returned, a later
  upload of the same text for the same organization, by any user, with any limits, and however the database
  and the chunks' transactions then behave, whether it returns or throws, only adds transactions, each under the key
  of a row the first upload reported as a failure, and no more than it reported; after a first
  upload without failures it adds none.
\<close>

theorem bulk_rerun_creates_only_failures:
  assumes "processBulkTransfer e lims rq st = (Inr jr, st1)" and "tx_extends (b_tx st1) (b_tx st2)"
    and "br_text rq' = br_text rq" and "br_org rq' = br_org rq" and "be_sha e' = be_sha e"
    and "processBulkTransfer e' lims' rq' st2 = (res, st3)"
  shows "\<exists>new. tx_rows (b_tx st3) = tx_rows (b_tx st2) @ new \<and> length new \<le> jr_failure jr
    \<and> list_all (\<lambda>t. \<exists>r \<in> set (jr_report jr). tx_key t = Some (rr_key r)) new"
  using assms(1)
proof (cases rule: processBulkTransfer_InrE)
  case (run rows rs sta stb)
  let ?F = "\<lambda>rs. filter (\<lambda>r. rr_status r = Failure) rs"
  from processBulkTransfer_prefix [OF assms(6), unfolded assms(3,4), OF run(1)] obtain n res' where
    again: "process_rows e' (br_org rq) (br_sender rq') (b_users st2) 0 (take n rows) (b_tx st2) = (res', b_tx st3)" by blast
  have "list_all2 (\<lambda>raw r. row_done e (br_org rq) raw r (b_tx st2)) rows rs"
    using process_rows_done [OF run(5)] by (rule list_all2_mono) (rule row_done_extends [OF _ assms(2)])
  then have "list_all2 (\<lambda>raw r. row_done e (br_org rq) raw r (b_tx st2)) (take n rows) (take n rs)"
    by (rule list_all2_takeI)
  from process_rows_again [OF this assms(5) again] obtain new where new: "tx_rows (b_tx st3) = tx_rows (b_tx st2) @ new"
    "length new \<le> count_status Failure (take n rs)"
    "list_all (\<lambda>t. \<exists>r \<in> set (?F (take n rs)). tx_key t = Some (rr_key r)) new" by blast
  have "count_status Failure (take n rs) \<le> count_status Failure rs"
    using append_take_drop_id [of n rs] unfolding count_status_def by (metis filter_append le_add1 length_append)
  moreover have "list_all (\<lambda>t. \<exists>r \<in> set (?F rs). tx_key t = Some (rr_key r)) new"
    using new(3) by (rule list.pred_mono_strong) (auto dest: in_set_takeD)
  ultimately show ?thesis using new(1,2) run(7) by (intro exI [of _ new]) simp
qed

text \<open>The sample file again, in an environment where the first insertion fails.\<close>

definition flaky_bulk_env :: bulk_env where
  "flaky_bulk_env = sample_bulk_env\<lparr>be_create_fails := (\<lambda>i v. if i = 0 then Some ''Connection lost'' else None)\<rparr>"

theorem bulk_rerun_creates_only_failures_witness:
  "case processBulkTransfer flaky_bulk_env (sample_limits 1) sample_bulk_request sample_bulk_state of
     (Inr jr, st1) \<Rightarrow> jr_success jr = 1 \<and> jr_failure jr = 2 \<and>
       length (tx_rows (b_tx (snd (processBulkTransfer sample_bulk_env (sample_limits 0) sample_bulk_request st1))))
         \<le> length (tx_rows (b_tx st1)) + 2
   | _ \<Rightarrow> False"
proof -
  let ?run = "processBulkTransfer flaky_bulk_env (sample_limits 1) sample_bulk_request sample_bulk_state"
  have "case ?run of (Inr jr, _) \<Rightarrow> jr_success jr = 1 \<and> jr_failure jr = 2 | _ \<Rightarrow> False" by code_simp
  then obtain jr st1 where c: "?run = (Inr jr, st1)" "jr_success jr = 1" "jr_failure jr = 2"
    by (auto split: prod.splits sum.splits)
  have sha: "be_sha sample_bulk_env = be_sha flaky_bulk_env" by (simp add: flaky_bulk_env_def)
  from bulk_rerun_creates_only_failures [OF c(1) tx_extends_refl refl refl sha prod.collapse [symmetric], of "sample_limits 0"]
    c show ?thesis by auto
qed

text \<open>
  What an upload that returns leaves behind, over a table with unique keys (for instance after any
  number of interrupted uploads): every row of the file that passes validation has exactly one
  transaction under its key, or is reported as a failure under that key.
\<close>

theorem bulk_rows_recorded_once:
  assumes "tx_inv (b_tx st)" and "processBulkTransfer e lims rq st = (Inr jr, st')"
    and "parseCsvBuffer (br_text rq) = Inr rows" and "raw \<in> set rows" and "safeParse raw = Inr v"
  shows "length (filter (\<lambda>t. tx_key t = Some (row_key e (br_org rq) v)) (tx_rows (b_tx st'))) = 1
    \<or> row_key e (br_org rq) v \<in> set (map rr_key (jr_report jr))"
  using assms(2)
proof (cases rule: processBulkTransfer_InrE)
  case (run rows' rs sta stb)
  let ?k = "row_key e (br_org rq) v"
  have inv: "tx_inv db'" if rows: "process_rows e org sender users idx xs db = (Inr qs, db')" "tx_inv db" for org sender users idx xs db qs db'
    using rows
  proof (induction xs arbitrary: idx db qs)
    case (Cons x xs)
    from Cons.prems(1) obtain q db1 qs1 where s: "process_raw_row e org sender x idx users db = (Inr q, db1)"
      "process_rows e org sender users (Suc idx) xs db1 = (Inr qs1, db')"
      by (auto split: sum.splits prod.splits)
    from s(1) Cons.prems(2) have "tx_inv db1" by (cases rule: process_raw_row_cases) (auto intro: create_tx_inv)
    with Cons.IH [OF s(2)] show ?case by simp
  qed simp
  from inv [OF run(5) assms(1)] have u: "length (filter (\<lambda>t. tx_key t = Some ?k) (tx_rows (b_tx st'))) \<le> 1"
    using txtab.count_key_le_1 by (auto simp: tx_inv_def)
  from assms(3,4) run(1) obtain i where i: "i < length rows'" "rows' ! i = raw" by (auto simp: in_set_conv_nth)
  with process_rows_done [OF run(5)] have d: "row_done e (br_org rq) raw (rs ! i) (b_tx st')" "rs ! i \<in> set rs"
    by (auto simp: list_all2_conv_all_nth)
  show ?thesis
  proof (cases "rr_status (rs ! i) = Failure")
    case True
    with d assms(5) run(7) show ?thesis by (force simp: row_done_def)
  next
    case False
    with d(1) assms(5) have "\<exists>t \<in> set (tx_rows (b_tx st')). tx_key t = Some ?k"
      by (auto simp: row_done_def find_tx_by_key_def dest!: find_SomeD)
    then have "filter (\<lambda>t. tx_key t = Some ?k) (tx_rows (b_tx st')) \<noteq> []" by (auto simp: filter_empty_conv)
    with u show ?thesis by (cases "filter (\<lambda>t. tx_key t = Some ?k) (tx_rows (b_tx st'))") auto
  qed
qed

section \<open>A chunk whose transaction expires\<close>

lemma batches_split:
  assumes "c * Suc k < length xs"
  shows "\<exists>pre ch post. batches k xs = pre @ ch # post \<and> concat pre = take (c * Suc k) xs
    \<and> concat pre @ ch = take (Suc c * Suc k) xs"
  using assms
proof (induction c arbitrary: xs)
  case 0
  then show ?case
    by (intro exI [of _ "[]"] exI [of _ "take (Suc k) xs"] exI [of _ "batches k (drop (Suc k) xs)"])
       (auto intro: batches_unfold)
next
  case (Suc c)
  have step: "take (Suc n * Suc k) xs = take (Suc k) xs @ take (n * Suc k) (drop (Suc k) xs)" for n
    by (simp only: mult_Suc take_add)
  from Suc.prems have "c * Suc k < length (drop (Suc k) xs)" "xs \<noteq> []" by auto
  with Suc.IH obtain pre ch post where b: "batches k (drop (Suc k) xs) = pre @ ch # post"
    "concat pre = take (c * Suc k) (drop (Suc k) xs)" "concat pre @ ch = take (Suc c * Suc k) (drop (Suc k) xs)" by blast
  from \<open>xs \<noteq> []\<close> b(1) have "batches k xs = (take (Suc k) xs # pre) @ ch # post" by (simp add: batches_unfold)
  moreover from b(2) have "concat (take (Suc k) xs # pre) = take (Suc c * Suc k) xs" by (simp only: step concat.simps)
  moreover from b(3) have "concat (take (Suc k) xs # pre) @ ch = take (Suc (Suc c) * Suc k) xs"
    by (simp only: step [of "Suc c"] concat.simps append_assoc)
  ultimately show ?case by blast
qed

lemma process_chunks_expires:
  assumes "s = length acc + length (concat pre)"
    and "\<forall>n. length acc \<le> n \<and> n < s \<longrightarrow> be_chunk e n = ChunkCommits"
    and "[] \<notin> set pre" and "be_chunk e s = ChunkExpires"
    and "process_rows e org sender (b_users st) (length acc) (concat pre @ ch) (b_tx st) = (Inr rs, db)"
  shows "\<exists>f st'. process_chunks e org sender job acc (pre @ ch # post) st = (Inl TransactionFailed, st')
    \<and> b_tx st' = db \<and> b_jobs st' = map (\<lambda>j. if job_id j = job then f j else j) (b_jobs st)
    \<and> (\<forall>j. job_id (f j) = job_id j \<and> job_completed (f j) = job_completed j
         \<and> job_processed (f j) = (if pre = [] then job_processed j else s))"
  using assms
proof (induction pre arbitrary: acc st rs)
  case Nil
  then show ?case by (intro exI [of _ "\<lambda>j. j"] exI [of _ "st\<lparr>b_tx := db\<rparr>"]) (simp add: Let_def)
next
  case (Cons c cs)
  from Cons.prems(5) obtain rs1 db1 rs2 where
    c: "process_rows e org sender (b_users st) (length acc) c (b_tx st) = (Inr rs1, db1)" and
    cs: "process_rows e org sender (b_users st) (length acc + length c) (concat cs @ ch) db1 = (Inr rs2, db)"
    by (auto simp: process_rows_append split: sum.splits prod.splits)
  have "length rs1 = length c" by (rule process_rows_length [OF c])
  moreover have commits: "be_chunk e (length acc) = ChunkCommits"
    using Cons.prems(1-3) by (auto simp: neq_Nil_conv)
  ultimately obtain f st' where f: "process_chunks e org sender job (acc @ rs1) (cs @ ch # post)
        (update_job job (job_counters (acc @ rs1)) (st\<lparr>b_tx := db1\<rparr>)) = (Inl TransactionFailed, st')"
      "b_tx st' = db"
      "b_jobs st' = map (\<lambda>j. if job_id j = job then f j else j)
         (b_jobs (update_job job (job_counters (acc @ rs1)) (st\<lparr>b_tx := db1\<rparr>)))"
      "\<forall>j. job_id (f j) = job_id j \<and> job_completed (f j) = job_completed j
         \<and> job_processed (f j) = (if cs = [] then job_processed j else s)"
    using Cons.IH [of "acc @ rs1" "update_job job (job_counters (acc @ rs1)) (st\<lparr>b_tx := db1\<rparr>)" rs2] cs Cons.prems
    by auto
  define g where "g = job_counters (acc @ rs1)"
  have g: "job_id (g j) = job_id j" "job_completed (g j) = job_completed j" "job_processed (g j) = length acc + length c" for j
    using \<open>length rs1 = length c\<close> by (simp_all add: g_def job_counters_def)
  have "process_chunks e org sender job acc ((c # cs) @ ch # post) st = (Inl TransactionFailed, st')"
    unfolding append_Cons process_chunks_commits [OF c commits] by (rule f(1))
  moreover have "b_jobs st' = map (\<lambda>j. if job_id j = job then (f \<circ> g) j else j) (b_jobs st)"
    unfolding f(3) by (simp add: update_job_def g comp_def flip: g_def)
  moreover have "\<forall>j. job_id ((f \<circ> g) j) = job_id j \<and> job_completed ((f \<circ> g) j) = job_completed j
      \<and> job_processed ((f \<circ> g) j) = (if c # cs = [] then job_processed j else s)"
    using f(4) g Cons.prems(1) by simp
  ultimately show ?case using f(2) by blast
qed

lemma process_rows_Inr:
  assumes "truthy sender" "\<forall>n. \<not> be_lookup_fails e n"
  shows "\<exists>rs db'. process_rows e org sender users idx rows db = (Inr rs, db')"
proof (induction rows arbitrary: idx db)
  case (Cons raw rows)
  obtain res db1 where p: "process_raw_row e org sender raw idx users db = (res, db1)" by fastforce
  with assms obtain r where "res = Inr r"
    by (auto simp: process_raw_row_def processRow_def Let_def split: sum.splits option.splits if_splits)
  with p Cons.IH [of "Suc idx" db1] show ?case by auto
qed simp

text \<open>
  C21. A failed chunk is not undone. The first \<open>c\<close> chunks of an upload commit and the transaction around
  the next one expires while its rows are worked on. Then the upload throws, but the rows of the failed
  chunk stay, the transactions table being the one after all rows up to the end of that chunk, one transaction
  more for each success among them; the job stays unfinished and counts only the rows of the first
  \<open>c\<close> chunks.
\<close>

theorem failed_chunk_is_kept:
  assumes "parseCsvBuffer (br_text rq) = Inr rows" and "br_size rq \<le> max_file_size lims" and "length rows \<le> max_rows lims"
    and "truthy (br_sender rq)" and "\<not> be_open_fails e" and "\<forall>n. \<not> be_lookup_fails e n"
    and "s = c * Suc (chunk_pred lims)" and "s < length rows"
    and "\<forall>n < s. be_chunk e n = ChunkCommits" and "be_chunk e s = ChunkExpires"
  shows "\<exists>st' rs j. processBulkTransfer e lims rq st = (Inl TransactionFailed, st')
    \<and> process_rows e (br_org rq) (br_sender rq) (b_users st) 0 (take (s + Suc (chunk_pred lims)) rows) (b_tx st)
        = (Inr rs, b_tx st')
    \<and> length (tx_rows (b_tx st')) = length (tx_rows (b_tx st)) + count_status Success rs
    \<and> j \<in> set (b_jobs st') \<and> job_id j = b_next_job st \<and> \<not> job_completed j \<and> job_processed j = s"
proof -
  let ?k = "chunk_pred lims"
  define st1 where "st1 = open_job (br_org rq) (length rows) st"
  from batches_split [OF assms(8) [unfolded assms(7)]] obtain pre ch post where b: "batches ?k rows = pre @ ch # post"
    "concat pre = take s rows" "concat pre @ ch = take (s + Suc ?k) rows"
    unfolding assms(7) by (auto simp: algebra_simps)
  have ne: "[] \<notin> set pre"
  proof
    assume "[] \<in> set pre"
    with b(1) have "[] \<in> set (batches ?k rows)" by simp
    from batches_length [OF this] show False by simp
  qed
  have len: "length (concat pre) = s" using b(2) assms(8) by simp
  from process_rows_Inr [OF assms(4,6)] obtain rs db where
    rows: "process_rows e (br_org rq) (br_sender rq) (b_users st) 0 (take (s + Suc ?k) rows) (b_tx st) = (Inr rs, db)"
    by blast
  have s1: "b_users st1 = b_users st" "b_tx st1 = b_tx st" by (simp_all add: st1_def open_job_def)
  obtain f st' where f: "process_chunks e (br_org rq) (br_sender rq) (b_next_job st) [] (batches ?k rows) st1
      = (Inl TransactionFailed, st')" "b_tx st' = db"
    "b_jobs st' = map (\<lambda>j. if job_id j = b_next_job st then f j else j) (b_jobs st1)"
    "\<forall>j. job_id (f j) = job_id j \<and> job_completed (f j) = job_completed j
       \<and> job_processed (f j) = (if pre = [] then job_processed j else s)"
    using process_chunks_expires [of s "[]" pre e "br_org rq" "br_sender rq" st1 ch rs db "b_next_job st" post]
      ne len rows s1 assms(9,10) b(1,3) by auto
  define j0 where "j0 = \<lparr>job_id = b_next_job st, job_org = br_org rq, job_total = length rows,
        job_completed = (length rows = 0), job_processed = 0, job_success = 0, job_failure = 0, job_report = None\<rparr>"
  have "f j0 \<in> set (b_jobs st')" by (simp add: f(3) st1_def open_job_def j0_def)
  moreover have "job_id (f j0) = b_next_job st" "\<not> job_completed (f j0)" "job_processed (f j0) = s"
    using f(4) assms(8) len by (auto simp: j0_def)
  moreover have "processBulkTransfer e lims rq st = (Inl TransactionFailed, st')"
    using f(1) assms(1,2,3,5) by (simp add: processBulkTransfer_def Let_def flip: st1_def)
  ultimately show ?thesis using rows f(2) process_rows_facts(2) [OF rows] by blast
qed

text \<open>The sample file in chunks of one row, the second of which expires.\<close>

definition expiring_bulk_env :: bulk_env where
  "expiring_bulk_env = sample_bulk_env\<lparr>be_chunk := (\<lambda>n. if n = 1 then ChunkExpires else ChunkCommits)\<rparr>"

theorem failed_chunk_is_kept_witness:
  "case processBulkTransfer expiring_bulk_env (sample_limits 0) sample_bulk_request sample_bulk_state of
     (res, st') \<Rightarrow> res = Inl TransactionFailed \<and> length (tx_rows (b_tx st')) = 1"
proof -
  let ?rq = sample_bulk_request
  obtain rows where rows: "parseCsvBuffer (br_text ?rq) = Inr rows" "length rows = 3"
  proof -
    have "case parseCsvBuffer (br_text ?rq) of Inr rows \<Rightarrow> length rows = 3 | _ \<Rightarrow> False" by code_simp
    with that show thesis by (auto split: sum.splits)
  qed
  have one: "case process_rows expiring_bulk_env (br_org ?rq) (br_sender ?rq) (b_users sample_bulk_state) 0
      (take (1 + Suc 0) (projr (parseCsvBuffer (br_text ?rq)))) (b_tx sample_bulk_state) of
      (Inr rs, _) \<Rightarrow> count_status Success rs = 1 | _ \<Rightarrow> False" by code_simp
  have hyps: "br_size ?rq \<le> max_file_size (sample_limits 0)" "length rows \<le> max_rows (sample_limits 0)"
    "truthy (br_sender ?rq)" "\<not> be_open_fails expiring_bulk_env" "\<forall>n. \<not> be_lookup_fails expiring_bulk_env n"
    "1 = 1 * Suc (chunk_pred (sample_limits 0))" "1 < length rows"
    "\<forall>n < 1. be_chunk expiring_bulk_env n = ChunkCommits" "be_chunk expiring_bulk_env 1 = ChunkExpires"
    using rows by (simp_all add: sample_bulk_request_def sample_limits_def truthy_def expiring_bulk_env_def sample_bulk_env_def)
  from failed_chunk_is_kept [OF rows(1) hyps, of sample_bulk_state] one rows(1) show ?thesis
    by (auto simp: sample_limits_def sample_bulk_state_def empty_db_def)
qed

text \<open>The upload of an interrupted file, repeated with working transactions, records the good row once.\<close>

theorem bulk_rows_recorded_once_witness:
  "case processBulkTransfer expiring_bulk_env (sample_limits 0) sample_bulk_request sample_bulk_state of
     (_, st1) \<Rightarrow> (case processBulkTransfer sample_bulk_env (sample_limits 1) sample_bulk_request st1 of
        (Inr jr, st2) \<Rightarrow> length (filter (\<lambda>t. tx_key t = Some ''h:o1|@bob|5||'') (tx_rows (b_tx st2))) = 1
      | _ \<Rightarrow> False)"
proof -
  let ?st1 = "snd (processBulkTransfer expiring_bulk_env (sample_limits 0) sample_bulk_request sample_bulk_state)"
  let ?run = "processBulkTransfer sample_bulk_env (sample_limits 1) sample_bulk_request ?st1"
  have inv: "tx_inv (b_tx ?st1)"
  proof -
    have "tx_rows (b_tx ?st1) = [tx] \<Longrightarrow> tx_id tx < tx_next (b_tx ?st1) \<Longrightarrow> tx_inv (b_tx ?st1)" for tx
      by (auto simp: tx_inv_def txtab.keys_unique_def List.map_filter_def split: option.splits)
    moreover have "case tx_rows (b_tx ?st1) of [tx] \<Rightarrow> tx_id tx < tx_next (b_tx ?st1) | _ \<Rightarrow> False" by code_simp
    ultimately show ?thesis by (auto split: list.splits)
  qed
  have "case ?run of (Inr jr, _) \<Rightarrow> map rr_key (jr_report jr) = [''h:o1|@bob|1e3||''] | _ \<Rightarrow> False" by code_simp
  then obtain jr st2 where c: "?run = (Inr jr, st2)" "map rr_key (jr_report jr) = [''h:o1|@bob|1e3||'']"
    by (auto split: prod.splits sum.splits)
  define rows where "rows = projr (parseCsvBuffer (br_text sample_bulk_request))"
  have rows: "parseCsvBuffer (br_text sample_bulk_request) = Inr rows"
    unfolding rows_def by code_simp
  have "case rows of raw # _ \<Rightarrow> (case safeParse raw of Inr v \<Rightarrow> row_key sample_bulk_env ''o1'' v = ''h:o1|@bob|5||'' | _ \<Rightarrow> False)
      | [] \<Rightarrow> False" unfolding rows_def by code_simp
  then obtain raw v where "raw \<in> set rows" "safeParse raw = Inr v" "row_key sample_bulk_env ''o1'' v = ''h:o1|@bob|5||''"
    by (auto split: list.splits sum.splits)
  with bulk_rows_recorded_once [OF inv c(1) rows, of raw v] c show ?thesis
    by (simp add: case_prod_beta sample_bulk_request_def)
qed

text \<open>The pipe that joins the parts of a key is not escaped, so different rows can share a key.\<close>

lemma row_keys_collide:
  "deriveIdempotencyKey sha org dest amt (Some ''a'') (Some ''b|'') = deriveIdempotencyKey sha org dest amt (Some ''a|b'') (Some '''')"
  by (simp add: deriveIdempotencyKey_def or_empty_def)

end
