(* ===== verification/Breaker.thy ===== *)
theory Breaker
  imports Prelude
begin

text \<open>
  The circuit breaker of \<open>src/utils/circuitBreaker.ts\<close>. Times are \<open>Date.now()\<close> in milliseconds, an
  argument of the operations that read the clock. Metrics and log lines have no effect on the state.
\<close>

datatype circuit_state = CClosed | COpen | CHalfOpen

record breaker_options =
  failure_threshold :: int
  cooldown_ms :: int
  success_threshold :: int

definition default_options :: breaker_options where
  "default_options = \<lparr>failure_threshold = 5, cooldown_ms = 60000, success_threshold = 2\<rparr>"

record breaker =
  cb_state :: circuit_state
  failure_count :: int
  success_count :: int
  last_failure :: "int option"

definition new_breaker :: breaker where
  "new_breaker = \<lparr>cb_state = CClosed, failure_count = 0, success_count = 0, last_failure = None\<rparr>"

definition transitionTo :: "circuit_state \<Rightarrow> breaker \<Rightarrow> breaker" where
  "transitionTo s b =
     (if cb_state b = s then b
      else case s of
        CClosed \<Rightarrow> b\<lparr>cb_state := s, failure_count := 0, success_count := 0\<rparr>
      | CHalfOpen \<Rightarrow> b\<lparr>cb_state := s, success_count := 0\<rparr>
      | COpen \<Rightarrow> b\<lparr>cb_state := s\<rparr>)"

text \<open>\<open>lastFailureTime && now - lastFailureTime >= cooldownMs\<close>: the time 0 is falsy.\<close>

definition cooled_down :: "breaker_options \<Rightarrow> int \<Rightarrow> breaker \<Rightarrow> bool" where
  "cooled_down cfg now b = (case last_failure b of None \<Rightarrow> False
     | Some t \<Rightarrow> t \<noteq> 0 \<and> cooldown_ms cfg \<le> now - t)"

definition canExecute :: "breaker_options \<Rightarrow> int \<Rightarrow> breaker \<Rightarrow> bool \<times> breaker" where
  "canExecute cfg now b =
     (case cb_state b of
        CClosed \<Rightarrow> (True, b)
      | COpen \<Rightarrow> if cooled_down cfg now b then (True, transitionTo CHalfOpen b) else (False, b)
      | CHalfOpen \<Rightarrow> (True, b))"

definition recordSuccess :: "breaker_options \<Rightarrow> breaker \<Rightarrow> breaker" where
  "recordSuccess cfg b =
     (case cb_state b of
        CHalfOpen \<Rightarrow>
          (let b1 = b\<lparr>success_count := success_count b + 1\<rparr> in
           if success_threshold cfg \<le> success_count b1 then transitionTo CClosed b1 else b1)
      | CClosed \<Rightarrow> b\<lparr>failure_count := 0\<rparr>
      | COpen \<Rightarrow> b)"

definition recordFailure :: "breaker_options \<Rightarrow> int \<Rightarrow> breaker \<Rightarrow> breaker" where
  "recordFailure cfg now b =
     (let b1 = b\<lparr>failure_count := failure_count b + 1, last_failure := Some now\<rparr> in
      if cb_state b1 = CHalfOpen then transitionTo COpen b1
      else if cb_state b1 = CClosed \<and> failure_threshold cfg \<le> failure_count b1 then transitionTo COpen b1
      else b1)"

definition getState :: "breaker_options \<Rightarrow> int \<Rightarrow> breaker \<Rightarrow> circuit_state \<times> breaker" where
  "getState cfg now b =
     (let b1 = (if cb_state b = COpen \<and> cooled_down cfg now b then transitionTo CHalfOpen b else b)
      in (cb_state b1, b1))"

definition reset :: "breaker \<Rightarrow> breaker" where
  "reset b = (transitionTo CClosed b)\<lparr>failure_count := 0, success_count := 0, last_failure := None\<rparr>"

definition getMetrics :: "breaker_options \<Rightarrow> int \<Rightarrow> breaker \<Rightarrow> (circuit_state \<times> int \<times> int \<times> int option) \<times> breaker" where
  "getMetrics cfg now b =
     (case getState cfg now b of
        (s, b1) \<Rightarrow> ((s, failure_count b1, success_count b1, last_failure b1), b1))"

section \<open>Reachable breakers\<close>

inductive breaker_step :: "breaker_options \<Rightarrow> breaker \<Rightarrow> breaker \<Rightarrow> bool" for cfg where
  asked: "breaker_step cfg b (snd (canExecute cfg now b))"
| succeeded: "breaker_step cfg b (recordSuccess cfg b)"
| failed: "breaker_step cfg b (recordFailure cfg now b)"
| observed: "breaker_step cfg b (snd (getMetrics cfg now b))"
| restarted: "breaker_step cfg b (reset b)"

inductive breaker_reachable :: "breaker_options \<Rightarrow> breaker \<Rightarrow> bool" for cfg where
  fresh: "breaker_reachable cfg new_breaker"
| step: "breaker_reachable cfg b \<Longrightarrow> breaker_step cfg b b' \<Longrightarrow> breaker_reachable cfg b'"

definition breaker_inv :: "breaker_options \<Rightarrow> breaker \<Rightarrow> bool" where
  "breaker_inv cfg b \<longleftrightarrow>
     0 \<le> failure_count b \<and> 0 \<le> success_count b
   \<and> (cb_state b = CClosed \<longrightarrow> failure_count b < failure_threshold cfg \<and> success_count b = 0)
   \<and> (cb_state b = CHalfOpen \<longrightarrow> success_count b < success_threshold cfg \<and> last_failure b \<noteq> None)
   \<and> (cb_state b = COpen \<longrightarrow> last_failure b \<noteq> None)"

lemmas breaker_defs = canExecute_def recordSuccess_def recordFailure_def getMetrics_def getState_def
  reset_def transitionTo_def cooled_down_def

lemma breaker_step_inv:
  assumes "0 < failure_threshold cfg" "0 < success_threshold cfg" "breaker_inv cfg b" "breaker_step cfg b b'"
  shows "breaker_inv cfg b'"
  using assms(4)
proof (cases rule: breaker_step.cases)
  case asked
  with assms(1-3) show ?thesis
    by (cases "cb_state b"; cases "last_failure b") (auto simp: breaker_inv_def breaker_defs)
next
  case succeeded
  with assms(1-3) show ?thesis
    by (cases "cb_state b") (auto simp: breaker_inv_def breaker_defs Let_def)
next
  case failed
  with assms(1-3) show ?thesis
    by (cases "cb_state b") (auto simp: breaker_inv_def breaker_defs Let_def)
next
  case observed
  with assms(1-3) show ?thesis
    by (cases "cb_state b"; cases "last_failure b") (auto simp: breaker_inv_def breaker_defs Let_def)
next
  case restarted
  with assms(1-3) show ?thesis
    by (cases "cb_state b") (auto simp: breaker_inv_def breaker_defs)
qed

text \<open>
  In every reachable state the counters fit the state: a closed circuit has seen fewer consecutive
  failures than the threshold, a half-open one fewer successes than needed to close, and a circuit that
  is not closed knows when it last failed.
\<close>

theorem breaker_counters_bounded:
  assumes "breaker_reachable cfg b" and "0 < failure_threshold cfg" and "0 < success_threshold cfg"
  shows "(cb_state b = CClosed \<longrightarrow> 0 \<le> failure_count b \<and> failure_count b < failure_threshold cfg)
    \<and> (cb_state b = CHalfOpen \<longrightarrow> 0 \<le> success_count b \<and> success_count b < success_threshold cfg)
    \<and> (cb_state b \<noteq> CClosed \<longrightarrow> last_failure b \<noteq> None)"
proof -
  from assms(1) have "breaker_inv cfg b"
  proof (induction rule: breaker_reachable.induct)
    case fresh
    then show ?case using assms(2) by (simp add: breaker_inv_def new_breaker_def)
  next
    case (step b b')
    then show ?case using breaker_step_inv [OF assms(2,3)] by blast
  qed
  then show ?thesis by (cases "cb_state b") (auto simp: breaker_inv_def)
qed

theorem breaker_counters_bounded_witness:
  "let b = recordFailure default_options 7 new_breaker in
   cb_state b = CClosed \<and> failure_count b = 1 \<and> failure_count b < failure_threshold default_options"
proof -
  have r: "breaker_reachable default_options (recordFailure default_options 7 new_breaker)"
    by (rule breaker_reachable.step [OF breaker_reachable.fresh breaker_step.failed])
  have v: "cb_state (recordFailure default_options 7 new_breaker) = CClosed
      \<and> failure_count (recordFailure default_options 7 new_breaker) = 1" by code_simp
  from breaker_counters_bounded [OF r] v show ?thesis by (simp add: default_options_def Let_def)
qed

section \<open>Opening and closing\<close>

text \<open>Failures at the given times, nothing in between.\<close>

fun fail_at :: "breaker_options \<Rightarrow> int list \<Rightarrow> breaker \<Rightarrow> breaker" where
  "fail_at cfg [] b = b"
| "fail_at cfg (t # ts) b = fail_at cfg ts (recordFailure cfg t b)"

lemma fail_at_open: "cb_state b = COpen \<Longrightarrow> cb_state (fail_at cfg ts b) = COpen"
  by (induction ts arbitrary: b) (auto simp: recordFailure_def transitionTo_def Let_def)

lemma fail_at_last: "ts \<noteq> [] \<Longrightarrow> last_failure (fail_at cfg ts b) = Some (last ts)"
proof (induction ts arbitrary: b)
  case (Cons t ts)
  have "last_failure (recordFailure cfg t b) = Some t"
    by (auto simp: recordFailure_def transitionTo_def Let_def)
  with Cons show ?case by (cases ts) auto
qed simp

lemma fail_at_count:
  "cb_state b = CClosed \<Longrightarrow> failure_count b < failure_threshold cfg \<Longrightarrow>
   (if failure_count b + int (length ts) < failure_threshold cfg
    then cb_state (fail_at cfg ts b) = CClosed \<and> failure_count (fail_at cfg ts b) = failure_count b + int (length ts)
    else cb_state (fail_at cfg ts b) = COpen)"
proof (induction ts arbitrary: b)
  case (Cons t ts)
  let ?b = "recordFailure cfg t b"
  show ?case
  proof (cases "failure_threshold cfg \<le> failure_count b + 1")
    case True
    with Cons.prems have "cb_state ?b = COpen" by (simp add: recordFailure_def transitionTo_def Let_def)
    with True fail_at_open [of ?b cfg ts] show ?thesis by auto
  next
    case False
    with Cons.prems have "cb_state ?b = CClosed" "failure_count ?b = failure_count b + 1"
      by (simp_all add: recordFailure_def transitionTo_def Let_def)
    with Cons.IH [of ?b] False show ?thesis by (auto simp: algebra_simps)
  qed
qed simp

text \<open>
  A fresh circuit opens after exactly \<open>failureThreshold\<close> consecutive failures: with fewer it still
  lets requests through, and from the threshold on it refuses every request until \<open>cooldownMs\<close> have
  passed since the last failure, and then lets one through.
\<close>

theorem breaker_opens_at_threshold:
  assumes "0 < failure_threshold cfg" and "ts \<noteq> []" and "last ts \<noteq> 0"
  shows "fst (canExecute cfg now (fail_at cfg ts new_breaker)) \<longleftrightarrow>
     int (length ts) < failure_threshold cfg \<or> cooldown_ms cfg \<le> now - last ts"
proof -
  have "(if int (length ts) < failure_threshold cfg
    then cb_state (fail_at cfg ts new_breaker) = CClosed
    else cb_state (fail_at cfg ts new_breaker) = COpen)"
    using fail_at_count [of new_breaker cfg ts] assms(1) by (auto simp: new_breaker_def split: if_splits)
  with fail_at_last [OF assms(2), of cfg new_breaker] assms(3) show ?thesis
    by (auto simp: canExecute_def cooled_down_def split: if_splits)
qed

theorem breaker_opens_at_threshold_witness:
  "fst (canExecute default_options 900 (fail_at default_options [1, 2, 3, 4] new_breaker))
   \<and> \<not> fst (canExecute default_options 900 (fail_at default_options [1, 2, 3, 4, 5] new_breaker))
   \<and> fst (canExecute default_options 60005 (fail_at default_options [1, 2, 3, 4, 5] new_breaker))"
proof -
  have d: "failure_threshold default_options = 5" "cooldown_ms default_options = 60000"
    by (simp_all add: default_options_def)
  show ?thesis
    by (simp add: breaker_opens_at_threshold d del: fail_at.simps)
qed

end
