(* ===== verification/Withdrawal.thy ===== *)
theory Withdrawal
  imports TxStore Recipient
begin

text \<open>
  The withdrawal consumer, \<open>src/jobs/withdrawalProcessingJob.ts\<close>: one message of the
  WITHDRAWAL_PROCESSING queue leads to a payout through a fintech provider. The router and the providers
  are parameters; the log records every payout a provider accepted. A message is acknowledged, put back
  with its retry count incremented, or sent to the dead letter queue. A run of the handler is taken
  as a whole: a process that dies in mid-run is not modelled, and a provider whose answer is lost counts as refusing.
\<close>

section \<open>Messages and state\<close>

datatype wd_body = BadJson | Body "nat option" "string option"   \<comment> \<open>transactionId, txHash\<close>

datatype wd_log =
    Payout nat string rat string      \<comment> \<open>transaction, provider, amount, currency\<close>
  | WdEvent string nat
  | Notification nat string

type_synonym account_json = "(string \<times> string) list"

record wd_state =
  wd_db :: txdb
  wd_accounts :: "nat \<Rightarrow> account_json option"   \<comment> \<open>the \<open>recipientAccount\<close> column\<close>
  wd_log :: "wd_log list"

text \<open>\<open>we_provider simulate currency\<close>: the provider the router picks, \<open>None\<close> when it throws;
  \<open>simulate\<close> is the call that leaves the preferred provider out. \<open>we_pays n p\<close>: in run \<open>n\<close> of the
  message, provider \<open>p\<close> accepts the payout. \<open>we_reads\<close>, \<open>we_marks\<close> and \<open>we_finishes\<close> say in which runs
  the database answers: the lookup of the row, the updates to \<open>failed\<close>, and the update after the payout
  (which the unique index may still refuse).\<close>

record wd_env =
  we_provider :: "bool \<Rightarrow> string \<Rightarrow> string option"
  we_pays :: "nat \<Rightarrow> string \<Rightarrow> bool"
  we_reads :: "nat \<Rightarrow> bool"
  we_marks :: "nat \<Rightarrow> bool"
  we_finishes :: "nat \<Rightarrow> bool"
  we_max_retries :: nat
  we_now :: int

datatype wd_outcome = Ack | Requeue | DeadLetter

record disburse_recipient =
  account_number :: string
  bank_code :: string
  account_name :: string

definition json_pick :: "account_json \<Rightarrow> string \<Rightarrow> string \<Rightarrow> string" where
  "json_pick j a b = (case map_of j a of Some v \<Rightarrow> v
     | None \<Rightarrow> (case map_of j b of Some v \<Rightarrow> v | None \<Rightarrow> []))"

definition disburse_recipient :: "account_json \<Rightarrow> disburse_recipient" where
  "disburse_recipient j =
     \<lparr>account_number = json_pick j ''account_number'' ''accountNumber'',
      bank_code = json_pick j ''bank_code'' ''bankCode'',
      account_name = json_pick j ''account_name'' ''accountName''\<rparr>"

definition wd_log_add :: "wd_log list \<Rightarrow> wd_state \<Rightarrow> wd_state" where
  "wd_log_add es st = st\<lparr>wd_log := wd_log st @ es\<rparr>"

definition wd_fail :: "nat \<Rightarrow> wd_state \<Rightarrow> wd_state" where
  "wd_fail i st = st\<lparr>wd_db := update_tx i (\<lambda>r. r\<lparr>tx_status := Failed\<rparr>) (wd_db st)\<rparr>"

section \<open>The handler\<close>

text \<open>The two attempts at a payout (lines 120-135): the preferred provider, then another one.\<close>

definition disburse :: "wd_env \<Rightarrow> nat \<Rightarrow> string \<Rightarrow> string option" where
  "disburse e n currency =
     (let try = (\<lambda>sim. case we_provider e sim currency of None \<Rightarrow> None
                   | Some p \<Rightarrow> if we_pays e n p then Some p else None)
      in case try False of Some p \<Rightarrow> Some p | None \<Rightarrow> try True)"

text \<open>The update after the payout; \<open>None\<close> when it throws: the database does not answer (\<open>ok\<close> is false), or
  the unique index on type and hash refuses it.\<close>

definition finish_withdrawal ::
  "bool \<Rightarrow> nat \<Rightarrow> string option \<Rightarrow> string \<Rightarrow> int \<Rightarrow> txdb \<Rightarrow> txdb option" where
  "finish_withdrawal ok i h prov now db =
     (let done = (\<lambda>r. r\<lparr>tx_status := Completed, completed_at := Some now, fintech_provider := Some prov\<rparr>) in
      if \<not> ok then None
      else if truthy h then
        map_option (update_tx i done) (complete_tx i (the h) now db)
      else Some (update_tx i done db))"

text \<open>The outer catch (lines 222-239), which changes nothing.\<close>

definition retry_or_drop :: "wd_env \<Rightarrow> nat \<Rightarrow> wd_outcome" where
  "retry_or_drop e retries = (if we_max_retries e \<le> retries then DeadLetter else Requeue)"

text \<open>The catch of the payout (lines 172-220). Its own update may throw, into the outer catch.\<close>

definition payout_failed :: "wd_env \<Rightarrow> nat \<Rightarrow> nat \<Rightarrow> wd_state \<Rightarrow> wd_outcome \<times> wd_state" where
  "payout_failed e retries i st =
     (if we_max_retries e \<le> retries
      then (let st1 = wd_log_add [WdEvent ''withdrawal.failed'' i] st in
            if we_marks e retries then (DeadLetter, wd_log_add [Notification i ''failed''] (wd_fail i st1))
            else (retry_or_drop e retries, st1))
      else (Requeue, st))"

definition payable :: "txn \<Rightarrow> account_json option \<Rightarrow> bool" where
  "payable r acc =
     (truthy (local_currency r)
      \<and> (case local_amount r of None \<Rightarrow> False | Some a \<Rightarrow> 0 < f64 a)
      \<and> (case acc of None \<Rightarrow> False
         | Some j \<Rightarrow> account_number (disburse_recipient j) \<noteq> [] \<and> bank_code (disburse_recipient j) \<noteq> []))"

definition pay_out ::
  "wd_env \<Rightarrow> nat \<Rightarrow> nat \<Rightarrow> string option \<Rightarrow> string \<Rightarrow> rat \<Rightarrow> wd_state \<Rightarrow> wd_outcome \<times> wd_state" where
  "pay_out e retries i h currency amount st =
     (case disburse e retries currency of
        None \<Rightarrow> payout_failed e retries i st
      | Some p \<Rightarrow>
          (let st1 = wd_log_add [Payout i p amount currency] st in
           case finish_withdrawal (we_finishes e retries) i h p (we_now e) (wd_db st1) of
             None \<Rightarrow> payout_failed e retries i st1
           | Some db \<Rightarrow>
               (Ack, wd_log_add [WdEvent ''withdrawal.completed'' i, Notification i ''completed''] (st1\<lparr>wd_db := db\<rparr>))))"

definition handle_withdrawal :: "wd_env \<Rightarrow> nat \<Rightarrow> wd_body \<Rightarrow> wd_state \<Rightarrow> wd_outcome \<times> wd_state" where
  "handle_withdrawal e retries body st =
     (case body of
        BadJson \<Rightarrow> (retry_or_drop e retries, st)
      | Body None _ \<Rightarrow> (Ack, st)
      | Body (Some i) h \<Rightarrow>
          if \<not> we_reads e retries then (retry_or_drop e retries, st)
          else (case find_tx i (wd_db st) of
             None \<Rightarrow> (Ack, st)
           | Some r \<Rightarrow>
               if tx_type r \<noteq> TBurn then (Ack, st)
               else if tx_status r \<noteq> Processing \<and> tx_status r \<noteq> Pending then (Ack, st)
               else if \<not> payable r (wd_accounts st i) then
                 (if we_marks e retries then (Ack, wd_fail i st) else (retry_or_drop e retries, st))
               else pay_out e retries i h (the (local_currency r)) (f64 (the (local_amount r)))
                      (wd_log_add [WdEvent ''withdrawal.processing'' i] st)))"

section \<open>A message until it leaves the queue\<close>

lemma requeue_below_max:
  "handle_withdrawal e retries body st = (Requeue, st') \<Longrightarrow> retries < we_max_retries e"
  by (auto simp: handle_withdrawal_def pay_out_def payout_failed_def retry_or_drop_def Let_def
      split: wd_body.splits option.splits if_splits)

function run_message :: "wd_env \<Rightarrow> wd_body \<Rightarrow> nat \<Rightarrow> wd_state \<Rightarrow> wd_outcome \<times> wd_state" where
  "run_message e body retries st =
     (case handle_withdrawal e retries body st of
        (Requeue, st') \<Rightarrow> run_message e body (Suc retries) st'
      | (Ack, st') \<Rightarrow> (Ack, st')
      | (DeadLetter, st') \<Rightarrow> (DeadLetter, st'))"
  by pat_completeness auto
termination
  by (relation "measure (\<lambda>(e, body, retries, st). we_max_retries e - retries)")
     (auto dest!: requeue_below_max [OF sym])

declare run_message.simps [simp del]

section \<open>What a run does\<close>

definition payouts :: "nat \<Rightarrow> wd_state \<Rightarrow> nat" where
  "payouts i st = length (filter (\<lambda>l. case l of Payout j _ _ _ \<Rightarrow> j = i | _ \<Rightarrow> False) (wd_log st))"

definition final_status :: "status \<Rightarrow> bool" where
  "final_status s \<longleftrightarrow> s \<noteq> Processing \<and> s \<noteq> Pending"

lemma wd_simps [simp]:
  "wd_db (wd_log_add es st) = wd_db st" "wd_accounts (wd_log_add es st) = wd_accounts st"
  "payouts i (wd_log_add (WdEvent n j # es) st) = payouts i (wd_log_add es st)"
  "payouts i (wd_log_add (Notification j s # es) st) = payouts i (wd_log_add es st)"
  "payouts i (wd_log_add [] st) = payouts i st"
  "payouts i (wd_log_add [Payout j p a c] st) = payouts i st + (if j = i then 1 else 0)"
  "payouts i (st\<lparr>wd_db := db\<rparr>) = payouts i st"
  "wd_accounts (st\<lparr>wd_db := db\<rparr>) = wd_accounts st"
  by (simp_all add: wd_log_add_def payouts_def)

lemma wd_fail_simps [simp]:
  "wd_db (wd_fail i st) = update_tx i (\<lambda>r. r\<lparr>tx_status := Failed\<rparr>) (wd_db st)"
  "payouts j (wd_fail i st) = payouts j st" "wd_accounts (wd_fail i st) = wd_accounts st"
  by (simp_all add: wd_fail_def payouts_def)

text \<open>The hash of the message is free for the transaction: no other burn row holds it.\<close>

definition hash_free :: "nat \<Rightarrow> string option \<Rightarrow> txdb \<Rightarrow> bool" where
  "hash_free i h db \<longleftrightarrow> truthy h \<longrightarrow>
     (\<forall>q \<in> set (tx_rows db). tx_id q \<noteq> i \<longrightarrow> tx_type q = TBurn \<longrightarrow> tx_hash q \<noteq> h)"

lemma finish_withdrawal_Some:
  assumes "find_tx i db = Some r" "tx_type r = TBurn" "hash_free i h db"
  shows "finish_withdrawal True i h p now db \<noteq> None"
  using assms by (auto simp: finish_withdrawal_def complete_tx_def hash_free_def Let_def truthy_def split: option.splits)

lemma finish_withdrawal_find:
  assumes "finish_withdrawal ok i h p now db = Some db'" "find_tx i db = Some r"
  shows "\<exists>r'. find_tx i db' = Some r' \<and> tx_type r' = tx_type r \<and> tx_status r' = Completed"
  using assms
  by (auto simp: finish_withdrawal_def Let_def find_update_same split: if_splits dest!: complete_tx_SomeD)

text \<open>What a run leaves of the burn: completed after one more payout, failed or untouched after none.\<close>

definition ran_once :: "nat \<Rightarrow> wd_state \<Rightarrow> wd_state \<Rightarrow> bool" where
  "ran_once i st st' \<longleftrightarrow>
     wd_db st' = wd_db st \<and> payouts i st' = payouts i st
     \<or> (\<exists>r'. find_tx i (wd_db st') = Some r' \<and> tx_type r' = TBurn \<and> final_status (tx_status r')
          \<and> payouts i st' = payouts i st + (if tx_status r' = Completed then 1 else 0))"

lemma ran_once_refl [simp]: "ran_once i st st"
  by (simp add: ran_once_def)

lemma ran_once_completed:
  assumes "finish_withdrawal ok i h p now (wd_db st) = Some db" "find_tx i (wd_db st) = Some r" "tx_type r = TBurn"
    and "wd_db st' = db" "payouts i st' = payouts i st + 1"
  shows "ran_once i st st'"
  using finish_withdrawal_find [OF assms(1,2)] assms(3-) by (auto simp: ran_once_def final_status_def)

lemma ran_once_failed:
  assumes "find_tx i (wd_db st) = Some r" "tx_type r = TBurn"
    and "wd_db st' = update_tx i (\<lambda>r. r\<lparr>tx_status := Failed\<rparr>) (wd_db st)" "payouts i st' = payouts i st"
  shows "ran_once i st st'"
  using assms find_update_same [of "\<lambda>r. r\<lparr>tx_status := Failed\<rparr>" i "wd_db st"]
  by (auto simp: ran_once_def final_status_def)

lemma ran_once_trans:
  "ran_once i st st1 \<Longrightarrow> wd_db st1 = wd_db st \<Longrightarrow> payouts i st1 = payouts i st \<Longrightarrow> ran_once i st1 st2
     \<Longrightarrow> ran_once i st st2"
  by (simp add: ran_once_def)

lemma handle_final:
  assumes "find_tx i (wd_db st) = Some r" "tx_type r \<noteq> TBurn \<or> final_status (tx_status r)"
  shows "snd (handle_withdrawal e n (Body (Some i) h) st) = st"
  using assms by (auto simp: handle_withdrawal_def final_status_def)

text \<open>One run of the handler on a burn, with an update after the payout that works.\<close>

lemma payout_failed_once:
  assumes "find_tx i (wd_db st) = Some r" "tx_type r = TBurn"
  shows "ran_once i st (snd (payout_failed e n i st))"
proof (cases "we_max_retries e \<le> n \<and> we_marks e n")
  case True
  then show ?thesis by (intro ran_once_failed [OF assms]) (auto simp: payout_failed_def Let_def)
next
  case False
  then show ?thesis by (auto simp: payout_failed_def Let_def ran_once_def)
qed

lemma pay_out_once:
  assumes "find_tx i (wd_db st) = Some r" "tx_type r = TBurn" "hash_free i h (wd_db st)" "we_finishes e n"
  shows "ran_once i st (snd (pay_out e n i h c a st))"
proof (cases "disburse e n c")
  case None
  with payout_failed_once [OF assms(1,2)] show ?thesis by (simp add: pay_out_def)
next
  case (Some p)
  from finish_withdrawal_Some [OF assms(1-3)] assms(4)
  obtain db where db: "finish_withdrawal (we_finishes e n) i h p (we_now e) (wd_db st) = Some db" by auto
  show ?thesis
    by (rule ran_once_completed [OF db assms(1,2)]) (simp_all add: pay_out_def Some Let_def db)
qed

lemma handle_once:
  assumes "find_tx i (wd_db st) = Some r" "tx_type r = TBurn" "hash_free i h (wd_db st)" "we_finishes e n"
  shows "ran_once i st (snd (handle_withdrawal e n (Body (Some i) h) st))"
proof -
  let ?st0 = "wd_log_add [WdEvent ''withdrawal.processing'' i] st"
  have "ran_once i ?st0 (snd (pay_out e n i h c a ?st0))" for c a
    using assms by (intro pay_out_once [of _ _ r]) simp_all
  then have "ran_once i st (snd (pay_out e n i h c a ?st0))" for c a
    by (simp add: ran_once_def)
  moreover have "ran_once i st (wd_fail i st)"
    by (rule ran_once_failed [OF assms(1,2)]) simp_all
  ultimately show ?thesis using assms(1,2) by (simp add: handle_withdrawal_def)
qed

section \<open>Properties\<close>

lemma run_message_unfold:
  "handle_withdrawal e n b st = (out, st') \<Longrightarrow>
   run_message e b n st = (if out = Requeue then run_message e b (Suc n) st' else (out, st'))"
  by (subst run_message.simps) (cases out; simp)

text \<open>A message until it leaves the queue, from any retry count.\<close>

lemma run_message_not_requeued: "fst (run_message e b n st) \<noteq> Requeue"
proof (induction e b n st rule: run_message.induct)
  case (1 e b n st)
  then show ?case
    by (subst run_message.simps) (auto split: prod.splits wd_outcome.splits)
qed

lemma run_message_final:
  assumes "find_tx i (wd_db st) = Some r" "tx_type r \<noteq> TBurn \<or> final_status (tx_status r)"
  shows "snd (run_message e (Body (Some i) h) n st) = st"
proof (induction "we_max_retries e - n" arbitrary: n rule: less_induct)
  case less
  obtain out st' where h: "handle_withdrawal e n (Body (Some i) h) st = (out, st')" by fastforce
  with handle_final [OF assms, of e n h] have st': "st' = st" by simp
  show ?case
  proof (cases "out = Requeue")
    case True
    from requeue_below_max [OF h [unfolded True]] have "we_max_retries e - Suc n < we_max_retries e - n" by simp
    with less run_message_unfold [OF h] True st' show ?thesis by simp
  qed (simp add: run_message_unfold [OF h] st')
qed

lemma run_message_once:
  assumes "find_tx i (wd_db st) = Some r" "tx_type r = TBurn" "hash_free i h (wd_db st)" "\<forall>n. we_finishes e n"
  shows "ran_once i st (snd (run_message e (Body (Some i) h) n st))"
  using assms
proof (induction "we_max_retries e - n" arbitrary: n st rule: less_induct)
  case less
  obtain out st1 where h: "handle_withdrawal e n (Body (Some i) h) st = (out, st1)" by fastforce
  from handle_once [OF less.prems(1-3), of e n] less.prems(4) h have o: "ran_once i st st1" by simp
  show ?case
  proof (cases "out = Requeue")
    case True
    from requeue_below_max [OF h [unfolded True]] have lt: "we_max_retries e - Suc n < we_max_retries e - n" by simp
    show ?thesis
    proof (cases "wd_db st1 = wd_db st \<and> payouts i st1 = payouts i st")
      case same: True
      with less.hyps [OF lt, of st1] less.prems have "ran_once i st1 (snd (run_message e (Body (Some i) h) (Suc n) st1))"
        by simp
      with ran_once_trans [OF o] same run_message_unfold [OF h] True show ?thesis by simp
    next
      case False
      with o obtain r' where r': "find_tx i (wd_db st1) = Some r'" "final_status (tx_status r')"
        by (auto simp: ran_once_def)
      with run_message_final [of i st1 r' e h "Suc n"] o run_message_unfold [OF h] True show ?thesis by simp
    qed
  qed (simp add: run_message_unfold [OF h] o)
qed

text \<open>The broker may deliver a message more than once; every delivery meets its own circumstances.\<close>

definition deliver :: "wd_env \<Rightarrow> wd_body \<Rightarrow> wd_state \<Rightarrow> wd_state" where
  "deliver e body st = snd (run_message e body 0 st)"

definition deliver_all :: "wd_env list \<Rightarrow> wd_body \<Rightarrow> wd_state \<Rightarrow> wd_state" where
  "deliver_all es body st = fold (\<lambda>e. deliver e body) es st"

definition live_burn :: "nat \<Rightarrow> txn \<Rightarrow> wd_state \<Rightarrow> bool" where
  "live_burn i r st \<longleftrightarrow> find_tx i (wd_db st) = Some r \<and> tx_type r = TBurn
     \<and> (tx_status r = Pending \<or> tx_status r = Processing)"

lemma deliver_all_once:
  assumes "find_tx i (wd_db st) = Some r" "tx_type r = TBurn" "hash_free i h (wd_db st)"
    and "list_all (\<lambda>e. \<forall>n. we_finishes e n) es"
  shows "ran_once i st (deliver_all es (Body (Some i) h) st)"
  using assms
proof (induction es arbitrary: st)
  case (Cons e es)
  let ?st1 = "deliver e (Body (Some i) h) st"
  from Cons.prems have o: "ran_once i st ?st1" by (simp add: deliver_def run_message_once)
  show ?case
  proof (cases "wd_db ?st1 = wd_db st \<and> payouts i ?st1 = payouts i st")
    case True
    with Cons.prems Cons.IH [of ?st1] ran_once_trans [OF o] show ?thesis by (simp add: deliver_all_def)
  next
    case False
    with o obtain r' where r': "find_tx i (wd_db ?st1) = Some r'" "final_status (tx_status r')"
      by (auto simp: ran_once_def)
    have "fold (\<lambda>e. deliver e (Body (Some i) h)) es ?st1 = ?st1"
      by (induction es) (simp_all add: deliver_def [of _ _ "deliver e (Body (Some i) h) st"] run_message_final [OF r'(1)] r'(2))
    with o show ?thesis by (simp add: deliver_all_def)
  qed
qed (simp add: deliver_all_def)


text \<open>A run either leaves the queue with the burn settled or leaves the table as it was.\<close>

lemma handle_settles:
  assumes "live_burn i r st" "\<forall>n. we_reads e n \<and> we_marks e n"
    and "handle_withdrawal e n (Body (Some i) h) st = (out, st')"
  shows "if out = Requeue then wd_db st' = wd_db st
    else \<exists>r'. find_tx i (wd_db st') = Some r' \<and> tx_status r' \<in> {Completed, Failed}"
proof -
  from assms(1) have r: "find_tx i (wd_db st) = Some r" "tx_type r = TBurn" by (auto simp: live_burn_def)
  have f: "find_tx i (update_tx i g (wd_db st)) = Some (g r)" if "\<And>q. tx_id (g q) = tx_id q" for g
    using find_update_same [of g i "wd_db st"] that r(1) by simp
  note fin = finish_withdrawal_find [OF _ r(1)]
  show ?thesis
    using assms(3) [symmetric] assms(1,2)
    by (auto simp: handle_withdrawal_def live_burn_def pay_out_def payout_failed_def Let_def f
        split: option.splits if_splits dest!: fin)
qed

text \<open>
  Every withdrawal message settles its burn while the database answers its lookups and its updates to
  \<open>failed\<close>: whatever the providers do, and even when every update after a payout fails, the retry
  loop ends with the message out of the queue and the row completed or failed, never pending or processing.
\<close>

theorem withdrawal_always_settles:
  assumes "live_burn i r st" and "\<forall>n. we_reads e n \<and> we_marks e n"
  shows "\<exists>out st' r'. run_message e (Body (Some i) h) 0 st = (out, st') \<and> out \<noteq> Requeue
     \<and> find_tx i (wd_db st') = Some r' \<and> tx_status r' \<in> {Completed, Failed}"
proof -
  have "\<exists>r'. find_tx i (wd_db (snd (run_message e (Body (Some i) h) n st))) = Some r' \<and> tx_status r' \<in> {Completed, Failed}"
    for n using assms(1)
  proof (induction "we_max_retries e - n" arbitrary: n st rule: less_induct)
    case less
    obtain out st1 where h: "handle_withdrawal e n (Body (Some i) h) st = (out, st1)" by fastforce
    note settled = handle_settles [OF less.prems assms(2) h]
    show ?case
    proof (cases "out = Requeue")
      case True
      from requeue_below_max [OF h [unfolded True]] have "we_max_retries e - Suc n < we_max_retries e - n" by simp
      with less.hyps [of "Suc n" st1] settled True less.prems run_message_unfold [OF h] show ?thesis
        by (simp add: live_burn_def)
    qed (use settled run_message_unfold [OF h] in simp)
  qed
  from this [of 0] run_message_not_requeued [of e "Body (Some i) h" 0 st] show ?thesis
    by (metis prod.collapse)
qed

lemma finish_withdrawal_None:
  assumes "find_tx i db = Some r" "tx_type r = TBurn" "\<not> ok \<or> \<not> hash_free i h db"
  shows "finish_withdrawal ok i h p now db = None"
  using assms by (auto simp: finish_withdrawal_def complete_tx_def hash_free_def Let_def truthy_def split: option.splits)

text \<open>One run that pays and then fails to record it.\<close>

lemma handle_lost:
  assumes "live_burn i r st" "payable r (wd_accounts st i)" "we_reads e n"
    and "disburse e n (the (local_currency r)) \<noteq> None" "\<not> we_finishes e n \<or> \<not> hash_free i h (wd_db st)"
    and "handle_withdrawal e n (Body (Some i) h) st = (out, st')"
  shows "payouts i st' = payouts i st + 1 \<and> wd_accounts st' = wd_accounts st
    \<and> (if n < we_max_retries e then out = Requeue \<and> wd_db st' = wd_db st
       else out = DeadLetter \<and> wd_db st' = (if we_marks e n then wd_db (wd_fail i st) else wd_db st))"
proof -
  from assms(1) have r: "find_tx i (wd_db st) = Some r" "tx_type r = TBurn" "\<not> (tx_status r \<noteq> Processing \<and> tx_status r \<noteq> Pending)"
    by (auto simp: live_burn_def)
  from assms(4) obtain p where p: "disburse e n (the (local_currency r)) = Some p" by auto
  note none = finish_withdrawal_None [OF r(1,2) assms(5)]
  have "handle_withdrawal e n (Body (Some i) h) st
      = payout_failed e n i (wd_log_add [Payout i p (f64 (the (local_amount r))) (the (local_currency r))]
          (wd_log_add [WdEvent ''withdrawal.processing'' i] st))"
    using r assms(2,3) by (auto simp: handle_withdrawal_def pay_out_def p none Let_def)
  with assms(6) show ?thesis
    by (cases "n < we_max_retries e"; cases "we_marks e n") (auto simp: payout_failed_def retry_or_drop_def Let_def)
qed

text \<open>
  C6. A lost completion is paid again. The providers accept the payout in every run of a message about an
  open, payable burn, and the update after each payout fails: the database does not take it, or the
  message's hash is already on another burn, so that the unique index refuses it every time. Then the
  customer is paid once per run, one time more than there are retries, and the row ends failed (or
  as it was, when even that update is lost).
\<close>

theorem lost_completion_pays_every_run:
  assumes "live_burn i r st" and "payable r (wd_accounts st i)"
    and "\<forall>n \<le> we_max_retries e. we_reads e n \<and> disburse e n (the (local_currency r)) \<noteq> None"
    and "\<forall>n \<le> we_max_retries e. \<not> we_finishes e n \<or> \<not> hash_free i h (wd_db st)"
  shows "payouts i (deliver e (Body (Some i) h) st) = payouts i st + Suc (we_max_retries e)
     \<and> (\<exists>r'. find_tx i (wd_db (deliver e (Body (Some i) h) st)) = Some r'
          \<and> tx_status r' = (if we_marks e (we_max_retries e) then Failed else tx_status r))"
proof -
  have "payouts i (snd (run_message e (Body (Some i) h) n st)) = payouts i st + Suc (we_max_retries e - n)
      \<and> wd_db (snd (run_message e (Body (Some i) h) n st))
          = (if we_marks e (we_max_retries e) then wd_db (wd_fail i st) else wd_db st)"
    if "n \<le> we_max_retries e" for n using that assms
  proof (induction "we_max_retries e - n" arbitrary: n st)
    case 0
    obtain out st1 where h: "handle_withdrawal e n (Body (Some i) h) st = (out, st1)" by fastforce
    from 0 have n: "n = we_max_retries e" by simp
    have now: "we_reads e n" "disburse e n (the (local_currency r)) \<noteq> None"
        "\<not> we_finishes e n \<or> \<not> hash_free i h (wd_db st)"
      using "0.prems" by auto
    from handle_lost [OF "0.prems"(2,3) now h] n run_message_unfold [OF h] show ?case by simp
  next
    case (Suc k)
    obtain out st1 where h: "handle_withdrawal e n (Body (Some i) h) st = (out, st1)" by fastforce
    from Suc(2) have lt: "n < we_max_retries e" by simp
    have now: "we_reads e n" "disburse e n (the (local_currency r)) \<noteq> None"
        "\<not> we_finishes e n \<or> \<not> hash_free i h (wd_db st)"
      using Suc.prems by auto
    from handle_lost [OF Suc.prems(2,3) now h] lt
    have l: "payouts i st1 = payouts i st + 1" "wd_accounts st1 = wd_accounts st" "out = Requeue" "wd_db st1 = wd_db st"
      by simp_all
    with Suc.hyps(1) [of "Suc n" st1] Suc(2) Suc.prems lt run_message_unfold [OF h] show ?case
      by (simp add: live_burn_def)
  qed
  moreover from assms(1) have "find_tx i (wd_db st) = Some r" by (simp add: live_burn_def)
  ultimately show ?thesis
    by (simp add: deliver_def find_update_same)
qed

definition burn_row :: "nat \<Rightarrow> string option \<Rightarrow> status \<Rightarrow> txn" where
  "burn_row i h s = (new_txn TBurn s 3)\<lparr>tx_id := i, tx_user := Some ''u1'', local_currency := Some ''NGN'',
     local_amount := Some 5000, tx_hash := h\<rparr>"

definition sample_wd :: wd_state where
  "sample_wd = \<lparr>wd_db = \<lparr>tx_rows = [burn_row 0 (Some ''h0'') Completed, burn_row 1 None Processing], tx_next = 2\<rparr>,
     wd_accounts = (\<lambda>_. Some [(''account_number'', ''0123''), (''bankCode'', ''058'')]), wd_log = []\<rparr>"

definition sample_wd_env :: wd_env where
  "sample_wd_env = \<lparr>we_provider = (\<lambda>sim c. Some (if sim then ''flutterwave'' else ''paystack'')),
     we_pays = (\<lambda>n p. p = ''flutterwave''), we_reads = (\<lambda>_. True),
     we_marks = (\<lambda>_. True), we_finishes = (\<lambda>_. True), we_max_retries = 3, we_now = 50\<rparr>"

lemma sample_wd_find: "find_tx 1 (wd_db sample_wd) = Some (burn_row 1 None Processing)"
  by (simp add: sample_wd_def find_tx_def burn_row_def new_txn_def)

lemma sample_wd_live: "live_burn 1 (burn_row 1 None Processing) sample_wd"
  unfolding live_burn_def sample_wd_find by (simp add: burn_row_def new_txn_def)

theorem withdrawal_always_settles_witness:
  "\<exists>out st'. run_message sample_wd_env (Body (Some 1) (Some ''h1'')) 0 sample_wd = (out, st') \<and> out \<noteq> Requeue"
  using withdrawal_always_settles [OF sample_wd_live, of sample_wd_env "Some ''h1''"]
  by (auto simp: sample_wd_env_def)

text \<open>Two deliveries: in the first no update to \<open>failed\<close> works and no provider pays.\<close>

definition broken_wd_env :: wd_env where
  "broken_wd_env = sample_wd_env\<lparr>we_pays := (\<lambda>n p. False), we_marks := (\<lambda>_. False)\<rparr>"


theorem lost_completion_pays_every_run_witness:
  "payouts 1 (deliver sample_wd_env (Body (Some 1) (Some ''h0'')) sample_wd) = 4"
proof -
  have taken: "\<not> hash_free 1 (Some ''h0'') (wd_db sample_wd)"
    by (auto simp: hash_free_def sample_wd_def burn_row_def new_txn_def truthy_def)
  have p: "payable (burn_row 1 None Processing) (wd_accounts sample_wd 1)" by code_simp
  have d: "disburse sample_wd_env n (the (local_currency (burn_row 1 None Processing))) \<noteq> None" for n
    by (simp add: disburse_def sample_wd_env_def Let_def)
  have z: "payouts 1 sample_wd = 0" by (simp add: payouts_def sample_wd_def)
  from lost_completion_pays_every_run [OF sample_wd_live p, of sample_wd_env "Some ''h0''"] d taken z
  show ?thesis by (simp add: sample_wd_env_def)
qed

end
