(* ===== verification/Recovery.thy ===== *)
theory Recovery
  imports Recipient
begin

text \<open>
  Account recovery: \<open>src/services/recovery/rateLimitService.ts\<close> (attempts stored in the database, limits
  per identifier, per address and per user) and \<open>recoveryService.ts\<close> (passcode, then a one-time code).
  Tokens, bcrypt, SHA-256, the queue, the device checks and the failures of single database calls are
  parameters. Times are milliseconds; rows of a table are in the order of their creation.
\<close>

section \<open>Rate limits\<close>

record attempt_row =
  ra_user :: string
  ra_identifier :: string
  ra_success :: bool
  ra_reason :: "string option"
  ra_ip :: "string option"
  ra_time :: int

record rate_limit =
  max_attempts :: nat
  window_ms :: int

definition identifier_limit :: rate_limit where
  "identifier_limit = \<lparr>max_attempts = 5, window_ms = 15 * 60 * 1000\<rparr>"

definition ip_limit :: rate_limit where
  "ip_limit = \<lparr>max_attempts = 10, window_ms = 60 * 60 * 1000\<rparr>"

definition user_limit :: rate_limit where
  "user_limit = \<lparr>max_attempts = 3, window_ms = 24 * 60 * 60 * 1000\<rparr>"

definition RECOVERY_OTP_MAX_ATTEMPTS :: nat where
  "RECOVERY_OTP_MAX_ATTEMPTS = max_attempts identifier_limit"

definition RECOVERY_OTP_ATTEMPT_PREFIX :: string where
  "RECOVERY_OTP_ATTEMPT_PREFIX = ''recovery-otp''"

datatype limit_kind = IdentifierLimit | IpLimit | UserLimit

datatype rate_result = Allowed nat | Refused limit_kind int   \<comment> \<open>remaining attempts; reset time\<close>

definition reason_matches :: "string option \<Rightarrow> attempt_row \<Rightarrow> bool" where
  "reason_matches pre r =
     (if truthy pre then (case ra_reason r of Some s \<Rightarrow> starts_with s (the pre) | None \<Rightarrow> False) else True)"

definition count_attempts :: "string option \<Rightarrow> int \<Rightarrow> (attempt_row \<Rightarrow> bool) \<Rightarrow> attempt_row list \<Rightarrow> nat" where
  "count_attempts pre since P rows =
     length (filter (\<lambda>r. P r \<and> since \<le> ra_time r \<and> reason_matches pre r) rows)"

definition checkRecoveryRateLimit ::
  "int \<Rightarrow> attempt_row list \<Rightarrow> string \<Rightarrow> string option \<Rightarrow> string option \<Rightarrow> string option \<Rightarrow> rate_result" where
  "checkRecoveryRateLimit now rows identifier uid ip pre =
     (let ident = count_attempts pre (now - window_ms identifier_limit) (\<lambda>r. ra_identifier r = identifier) rows in
      if max_attempts identifier_limit \<le> ident then Refused IdentifierLimit (now + window_ms identifier_limit)
      else if truthy ip \<and> max_attempts ip_limit
             \<le> count_attempts pre (now - window_ms ip_limit) (\<lambda>r. ra_ip r = ip) rows
        then Refused IpLimit (now + window_ms ip_limit)
      else if truthy uid \<and> max_attempts user_limit
             \<le> count_attempts pre (now - window_ms user_limit) (\<lambda>r. Some (ra_user r) = uid) rows
        then Refused UserLimit (now + window_ms user_limit)
      else Allowed (max_attempts identifier_limit - ident))"

definition recordRecoveryAttempt ::
  "int \<Rightarrow> string \<Rightarrow> string \<Rightarrow> bool \<Rightarrow> string option \<Rightarrow> string option \<Rightarrow> attempt_row list \<Rightarrow> attempt_row list" where
  "recordRecoveryAttempt now uid identifier success reason ip rows =
     rows @ [\<lparr>ra_user = uid, ra_identifier = identifier, ra_success = success, ra_reason = reason,
              ra_ip = ip, ra_time = now\<rparr>]"

definition cleanupOldRecoveryAttempts :: "int \<Rightarrow> attempt_row list \<Rightarrow> attempt_row list" where
  "cleanupOldRecoveryAttempts now rows = filter (\<lambda>r. \<not> ra_time r < now - 30 * 24 * 60 * 60 * 1000) rows"

record recovery_stats =
  totalAttempts :: nat
  successfulAttempts :: nat
  failedAttempts :: nat
  uniqueUsers :: nat
  uniqueIdentifiers :: nat

definition getRecoveryStats :: "int \<Rightarrow> int \<Rightarrow> attempt_row list \<Rightarrow> recovery_stats" where
  "getRecoveryStats now timeframe rows =
     (let recent = filter (\<lambda>r. now - timeframe \<le> ra_time r) rows;
          good = length (filter ra_success recent) in
      \<lparr>totalAttempts = length recent, successfulAttempts = good, failedAttempts = length recent - good,
       uniqueUsers = length (remdups (map ra_user recent)),
       uniqueIdentifiers = length (remdups (map ra_identifier recent))\<rparr>)"

section \<open>State and environment\<close>

record otp_challenge =
  oc_id :: nat
  oc_user :: string
  oc_hash :: string
  oc_expires :: int
  oc_used :: "int option"

record challenge_payload =
  cp_user :: string
  cp_challenge :: "nat option"
  cp_jti :: "string option"

datatype recovery_log =
    PasscodeCompared string
  | Compared string              \<comment> \<open>a guess for this user was compared with the stored hash\<close>
  | RecoveryAudit string string
  | OtpSent string string string
  | SessionsRotated string
  | ApiKeyIssued string

record recovery_state =
  rv_users :: "user list"
  rv_attempts :: "attempt_row list"
  rv_challenges :: "otp_challenge list"
  rv_revoked :: "string list"
  rv_log :: "recovery_log list"

record fingerprint =
  fp_ip :: "string option"

record recovery_env =
  re_now :: int
  re_passcode_hash :: "string \<Rightarrow> string option"
  re_compare :: "string \<Rightarrow> string \<Rightarrow> bool option"    \<comment> \<open>\<open>None\<close>: bcrypt throws\<close>
  re_hash :: "string \<Rightarrow> string"
  re_code :: string
  re_publish_ok :: bool
  re_device_limited :: bool
  re_verify_token :: "string \<Rightarrow> challenge_payload option"
  re_sign_token :: "string \<Rightarrow> nat \<Rightarrow> string"
  re_sha :: "string \<Rightarrow> string"
  re_lookup_fails :: bool
  re_rate_fails :: bool
  re_record_fails :: bool
  re_mark_fails :: bool
  re_api_key :: string
  re_device_trusted :: bool

datatype recovery_error =
    IdentifierInvalid | RecoveryUserNotFound | RateLimited limit_kind | DeviceLimited | InvalidPasscode
  | ChannelNotConfigured | DeliveryUnavailable | BcryptThrows
  | InvalidChallenge | InvalidOrExpiredCode | Lockout | InvalidCode | Unavailable

definition rv_add :: "recovery_log list \<Rightarrow> recovery_state \<Rightarrow> recovery_state" where
  "rv_add es st = st\<lparr>rv_log := rv_log st @ es\<rparr>"

text \<open>The deny list forgets an identifier when its token has expired, and verification refuses the token from then on; the
  model keeps the identifier.\<close>

definition revokeRecoveryChallengeToken :: "challenge_payload \<Rightarrow> recovery_state \<Rightarrow> recovery_state" where
  "revokeRecoveryChallengeToken pl st =
     (if truthy (cp_jti pl) then st\<lparr>rv_revoked := the (cp_jti pl) # rv_revoked st\<rparr> else st)"

definition getRecoveryChallengeAttemptCount :: "nat \<Rightarrow> int" where
  "getRecoveryChallengeAttemptCount remaining = max 1 (int RECOVERY_OTP_MAX_ATTEMPTS - int remaining + 1)"

definition getRecoveryOtpAttemptKey :: "recovery_env \<Rightarrow> string \<Rightarrow> string" where
  "getRecoveryOtpAttemptKey e token = RECOVERY_OTP_ATTEMPT_PREFIX @ '':'' @ re_sha e token"

definition fp_or_unknown :: "fingerprint option \<Rightarrow> string" where
  "fp_or_unknown fp = (case fp of None \<Rightarrow> ''unknown''
     | Some f \<Rightarrow> if truthy (fp_ip f) then the (fp_ip f) else ''unknown'')"

text \<open>A failing write revokes the token and reports the service unavailable.\<close>

definition recordRecoveryOtpAttempt ::
  "recovery_env \<Rightarrow> challenge_payload \<Rightarrow> string \<Rightarrow> bool \<Rightarrow> string \<Rightarrow> fingerprint option \<Rightarrow> recovery_state
     \<Rightarrow> (recovery_error + unit) \<times> recovery_state" where
  "recordRecoveryOtpAttempt e pl key success reason fp st =
     (if re_record_fails e then (Inl Unavailable, revokeRecoveryChallengeToken pl st)
      else (Inr (), st\<lparr>rv_attempts := recordRecoveryAttempt (re_now e) (cp_user pl) key success
               (Some (RECOVERY_OTP_ATTEMPT_PREFIX @ reason)) (Some (fp_or_unknown fp)) (rv_attempts st)\<rparr>))"

definition markRecoveryChallengeUsed ::
  "recovery_env \<Rightarrow> challenge_payload \<Rightarrow> nat \<Rightarrow> recovery_state \<Rightarrow> (recovery_error + unit) \<times> recovery_state" where
  "markRecoveryChallengeUsed e pl cid st =
     (if re_mark_fails e then (Inl Unavailable, revokeRecoveryChallengeToken pl st)
      else (Inr (), st\<lparr>rv_challenges :=
              map (\<lambda>c. if oc_id c = cid then c\<lparr>oc_used := Some (re_now e)\<rparr> else c) (rv_challenges st)\<rparr>))"

text \<open>Sequencing of steps that change the state and may throw.\<close>

definition then_do ::
  "('e + 'a) \<times> 's \<Rightarrow> ('a \<Rightarrow> 's \<Rightarrow> ('e + 'b) \<times> 's) \<Rightarrow> ('e + 'b) \<times> 's" where
  "then_do r k = (case r of (Inl err, s) \<Rightarrow> (Inl err, s) | (Inr a, s) \<Rightarrow> k a s)"

lemma then_do_simps [simp]:
  "then_do (Inl err, s) k = (Inl err, s)"
  "then_do (Inr a, s) k = k a s"
  by (simp_all add: then_do_def)

section \<open>Step 1: passcode\<close>

definition recovery_where :: "string \<Rightarrow> (user \<Rightarrow> bool) option" where
  "recovery_where identifier =
     (let trimmed = to_lower (trim identifier) in
      if str_includes trimmed ''@'' \<and> str_includes trimmed ''.'' then Some (\<lambda>u. email u = Some trimmed)
      else if e164 (trim identifier) then Some (\<lambda>u. phone_e164 u = Some (trim identifier))
      else None)"

definition is_email :: "string \<Rightarrow> bool" where
  "is_email identifier =
     (let trimmed = to_lower (trim identifier) in str_includes trimmed ''@'' \<and> str_includes trimmed ''.'')"

definition add_attempt :: "recovery_env \<Rightarrow> string \<Rightarrow> string \<Rightarrow> bool \<Rightarrow> string \<Rightarrow> fingerprint \<Rightarrow> recovery_state \<Rightarrow> recovery_state" where
  "add_attempt e uid identifier success reason fp st =
     st\<lparr>rv_attempts := recordRecoveryAttempt (re_now e) uid identifier success (Some reason) (fp_ip fp) (rv_attempts st)\<rparr>"

definition limit_reason :: "limit_kind \<Rightarrow> string" where
  "limit_reason k = (case k of
     IdentifierLimit \<Rightarrow> ''Too many attempts for this identifier. Please try again later.''
   | IpLimit \<Rightarrow> ''Too many attempts from this IP address. Please try again later.''
   | UserLimit \<Rightarrow> ''Too many recovery attempts for this account. Please contact support.'')"

text \<open>Lines 259-297: the challenge, its delivery, the token.\<close>

definition issue_challenge ::
  "recovery_env \<Rightarrow> user \<Rightarrow> string \<Rightarrow> recovery_state \<Rightarrow> (recovery_error + string) \<times> recovery_state" where
  "issue_challenge e u identifier st =
     (let channel = (if is_email identifier then ''email'' else ''sms'');
          dest = (if is_email identifier then email u else phone_e164 u) in
      if \<not> truthy dest then (Inl ChannelNotConfigured, st)
      else
        let cid = length (rv_challenges st);
            st1 = st\<lparr>rv_challenges := rv_challenges st @
              [\<lparr>oc_id = cid, oc_user = u_id u, oc_hash = re_hash e (re_code e),
                oc_expires = re_now e + 10 * 60 * 1000, oc_used = None\<rparr>]\<rparr> in
        if \<not> re_publish_ok e then (Inl DeliveryUnavailable, st1)
        else (Inr (re_sign_token e (u_id u) cid),
              rv_add [OtpSent channel (the dest) (re_code e), RecoveryAudit ''recovery_initiated'' (u_id u)] st1))"

definition unlockApp ::
  "recovery_env \<Rightarrow> string \<Rightarrow> string \<Rightarrow> fingerprint \<Rightarrow> recovery_state \<Rightarrow> (recovery_error + string) \<times> recovery_state" where
  "unlockApp e identifier passcode fp st =
     (case recovery_where identifier of
        None \<Rightarrow> (Inl IdentifierInvalid, st)
      | Some P \<Rightarrow>
        (case find P (rv_users st) of
           None \<Rightarrow> (Inl RecoveryUserNotFound, st)
         | Some u \<Rightarrow>
           if \<not> truthy (re_passcode_hash e (u_id u)) then (Inl RecoveryUserNotFound, st)
           else
             (case checkRecoveryRateLimit (re_now e) (rv_attempts st) identifier (Some (u_id u)) (fp_ip fp) None of
                Refused k _ \<Rightarrow> (Inl (RateLimited k), add_attempt e (u_id u) identifier False (limit_reason k) fp st)
              | Allowed _ \<Rightarrow>
                if re_device_limited e
                then (Inl DeviceLimited, add_attempt e (u_id u) identifier False ''Device rate limited'' fp st)
                else
                  (case re_compare e passcode (the (re_passcode_hash e (u_id u))) of
                     None \<Rightarrow> (Inl BcryptThrows, rv_add [PasscodeCompared (u_id u)] st)
                   | Some False \<Rightarrow>
                       (Inl InvalidPasscode, add_attempt e (u_id u) identifier False ''Invalid passcode'' fp
                          (rv_add [PasscodeCompared (u_id u)] st))
                   | Some True \<Rightarrow>
                       issue_challenge e u identifier
                         (add_attempt e (u_id u) identifier True ''Passcode verified, OTP sent'' fp
                            (rv_add [PasscodeCompared (u_id u)] st))))))"

section \<open>Step 2: one-time code\<close>

text \<open>The challenge a token leads to: live, unused, of the token's user; the latest when no id is given.\<close>

definition find_challenge :: "recovery_env \<Rightarrow> challenge_payload \<Rightarrow> recovery_state \<Rightarrow> otp_challenge option" where
  "find_challenge e pl st =
     find (\<lambda>c. (case cp_challenge pl of Some i \<Rightarrow> oc_id c = i | None \<Rightarrow> True)
             \<and> oc_user c = cp_user pl \<and> re_now e < oc_expires c \<and> oc_used c = None)
       (rev (rv_challenges st))"

definition six_digits :: "string \<Rightarrow> bool" where
  "six_digits s \<longleftrightarrow> length s = 6 \<and> list_all is_digit s"

definition lock_challenge ::
  "recovery_env \<Rightarrow> challenge_payload \<Rightarrow> nat \<Rightarrow> bool \<Rightarrow> recovery_state \<Rightarrow> (recovery_error + unit) \<times> recovery_state" where
  "lock_challenge e pl cid locked st =
     (if locked then then_do (markRecoveryChallengeUsed e pl cid st) (\<lambda>_ s. (Inr (), revokeRecoveryChallengeToken pl s))
      else (Inr (), st))"

text \<open>\<open>rejectOtp\<close>.\<close>

definition reject_otp ::
  "recovery_env \<Rightarrow> challenge_payload \<Rightarrow> string \<Rightarrow> nat \<Rightarrow> bool \<Rightarrow> fingerprint option \<Rightarrow> recovery_state
     \<Rightarrow> (recovery_error + (string \<times> string)) \<times> recovery_state" where
  "reject_otp e pl key cid locked fp st =
     then_do (recordRecoveryOtpAttempt e pl key False '':invalid'' fp st) (\<lambda>_ s1.
       then_do (lock_challenge e pl cid locked s1) (\<lambda>_ s2.
         (Inl (if locked then Lockout else InvalidCode), rv_add [RecoveryAudit ''recovery_failed'' (cp_user pl)] s2)))"

text \<open>Lines 476-530, the code was right.\<close>

definition accept_otp ::
  "recovery_env \<Rightarrow> challenge_payload \<Rightarrow> string \<Rightarrow> nat \<Rightarrow> fingerprint option \<Rightarrow> bool \<Rightarrow> recovery_state
     \<Rightarrow> (recovery_error + (string \<times> string)) \<times> recovery_state" where
  "accept_otp e pl key cid fp trust st =
     then_do (recordRecoveryOtpAttempt e pl key True '':success'' fp st) (\<lambda>_ s1.
       then_do (markRecoveryChallengeUsed e pl cid s1) (\<lambda>_ s2.
         (Inr (re_api_key e, cp_user pl),
          rv_add ([SessionsRotated (cp_user pl), ApiKeyIssued (cp_user pl)]
              @ (if trust \<and> fp \<noteq> None \<and> \<not> re_device_trusted e then [RecoveryAudit ''device_trusted'' (cp_user pl)] else [])
              @ [RecoveryAudit ''recovery_completed'' (cp_user pl)])
            (revokeRecoveryChallengeToken pl s2))))"

definition check_otp ::
  "recovery_env \<Rightarrow> challenge_payload \<Rightarrow> string \<Rightarrow> otp_challenge \<Rightarrow> bool \<Rightarrow> string \<Rightarrow> fingerprint option \<Rightarrow> bool
     \<Rightarrow> recovery_state \<Rightarrow> (recovery_error + (string \<times> string)) \<times> recovery_state" where
  "check_otp e pl key c locked code fp trust st =
     (if \<not> six_digits code then reject_otp e pl key (oc_id c) locked fp st
      else
        let st1 = rv_add [Compared (cp_user pl)] st in
        (case re_compare e code (oc_hash c) of
           None \<Rightarrow>
             then_do (recordRecoveryOtpAttempt e pl key False '':verification_error'' fp st1) (\<lambda>_ s1.
               then_do (lock_challenge e pl (oc_id c) locked s1) (\<lambda>_ s2. (Inl Unavailable, s2)))
         | Some False \<Rightarrow> reject_otp e pl key (oc_id c) locked fp st1
         | Some True \<Rightarrow> accept_otp e pl key (oc_id c) fp trust st1))"

definition verifyRecoveryOtp ::
  "recovery_env \<Rightarrow> string \<Rightarrow> string \<Rightarrow> fingerprint option \<Rightarrow> bool \<Rightarrow> recovery_state
     \<Rightarrow> (recovery_error + (string \<times> string)) \<times> recovery_state" where
  "verifyRecoveryOtp e token code fp trust st =
     (case re_verify_token e token of
        None \<Rightarrow> (Inl InvalidChallenge, st)
      | Some pl \<Rightarrow>
        if cp_user pl = [] \<or> truthy (cp_jti pl) \<and> the (cp_jti pl) \<in> set (rv_revoked st) then (Inl InvalidChallenge, st)
        else if re_lookup_fails e then (Inl Unavailable, revokeRecoveryChallengeToken pl st)
        else
          (case find_challenge e pl st of
             None \<Rightarrow> (Inl InvalidOrExpiredCode,
                 rv_add [RecoveryAudit ''recovery_failed'' (cp_user pl)] (revokeRecoveryChallengeToken pl st))
           | Some c \<Rightarrow>
             if re_rate_fails e then (Inl Unavailable, revokeRecoveryChallengeToken pl st)
             else
               let key = getRecoveryOtpAttemptKey e token in
               (case checkRecoveryRateLimit (re_now e) (rv_attempts st) key (Some (cp_user pl))
                       (Some (fp_or_unknown fp)) (Some RECOVERY_OTP_ATTEMPT_PREFIX) of
                  Refused _ _ \<Rightarrow>
                    then_do (markRecoveryChallengeUsed e pl (oc_id c) st) (\<lambda>_ s1.
                      (Inl Lockout, rv_add [RecoveryAudit ''recovery_failed'' (cp_user pl)]
                         (revokeRecoveryChallengeToken pl s1)))
                | Allowed remaining \<Rightarrow>
                    let locked = (int RECOVERY_OTP_MAX_ATTEMPTS \<le> getRecoveryChallengeAttemptCount remaining) in
                    check_otp e pl key c locked code fp trust st)))"

section \<open>Sequences of requests\<close>

datatype recovery_op =
    Unlock recovery_env string string fingerprint
  | Verify recovery_env string string "fingerprint option" bool

definition recovery_exec :: "recovery_op \<Rightarrow> recovery_state \<Rightarrow> recovery_state" where
  "recovery_exec op st = (case op of
     Unlock e identifier passcode fp \<Rightarrow> snd (unlockApp e identifier passcode fp st)
   | Verify e token code fp trust \<Rightarrow> snd (verifyRecoveryOtp e token code fp trust st))"

definition recovery_run :: "recovery_op list \<Rightarrow> recovery_state \<Rightarrow> recovery_state" where
  "recovery_run ops st = fold recovery_exec ops st"

text \<open>
  What a limiter over recorded attempts promises, whatever it counts: an operation that makes a guess
  finds fewer than \<open>bound\<close> attempts and leaves one more behind.
\<close>

locale throttle =
  fixes exec :: "'op \<Rightarrow> 's \<Rightarrow> 's"
    and admissible :: "'op \<Rightarrow> bool"
    and attempts :: "'s \<Rightarrow> nat"
    and guesses :: "'s \<Rightarrow> nat"
    and bound :: nat
  assumes step: "admissible op \<Longrightarrow>
      guesses (exec op s) \<le> guesses s \<and> attempts s \<le> attempts (exec op s)
    \<or> guesses (exec op s) \<le> Suc (guesses s) \<and> Suc (attempts s) \<le> attempts (exec op s) \<and> attempts s < bound"
begin

lemma run_step:
  assumes "list_all admissible ops"
  shows "guesses (fold exec ops s) + attempts s \<le> guesses s + attempts (fold exec ops s)
       \<and> guesses (fold exec ops s) \<le> guesses s + (bound - attempts s)"
  using assms
proof (induction ops arbitrary: s)
  case Nil
  then show ?case by simp
next
  case (Cons op ops)
  have ih: "guesses (fold exec ops (exec op s)) + attempts (exec op s)
        \<le> guesses (exec op s) + attempts (fold exec ops (exec op s))
      \<and> guesses (fold exec ops (exec op s)) \<le> guesses (exec op s) + (bound - attempts (exec op s))"
    by (rule Cons.IH) (use Cons.prems in simp)
  have "admissible op" using Cons.prems by simp
  from step [OF this, of s] ih show ?case by (simp; linarith)
qed

lemma guesses_bounded:
  "list_all admissible ops \<Longrightarrow> guesses (fold exec ops s) \<le> guesses s + bound"
  using run_step [of ops s] by linarith

end

section \<open>Facts of the limiter and of the two steps\<close>

definition log_count :: "recovery_log \<Rightarrow> recovery_state \<Rightarrow> nat" where
  "log_count ev st = length (filter (\<lambda>x. x = ev) (rv_log st))"

definition user_attempts :: "string option \<Rightarrow> int \<Rightarrow> string \<Rightarrow> recovery_state \<Rightarrow> nat" where
  "user_attempts pre t uid st = count_attempts pre t (\<lambda>r. ra_user r = uid) (rv_attempts st)"

lemma filter_imp_length_le:
  "(\<And>x. x \<in> set xs \<Longrightarrow> P x \<Longrightarrow> Q x) \<Longrightarrow> length (filter P xs) \<le> length (filter Q xs)"
  by (induction xs) (auto simp: le_SucI)

lemma count_attempts_mono:
  assumes "s' \<le> s" and "\<And>r. r \<in> set rows \<Longrightarrow> reason_matches pre r \<Longrightarrow> P r \<Longrightarrow> Q r"
  shows "count_attempts pre s P rows \<le> count_attempts pre s' Q rows"
  unfolding count_attempts_def using assms by (intro filter_imp_length_le) auto

lemma count_attempts_append [simp]:
  "count_attempts pre s P (xs @ ys) = count_attempts pre s P xs + count_attempts pre s P ys"
  by (simp add: count_attempts_def)

lemma allowed_below_user_limit:
  assumes "checkRecoveryRateLimit now rows identifier (Some uid) ip pre = Allowed n" and "uid \<noteq> []"
  shows "count_attempts pre (now - window_ms user_limit) (\<lambda>r. ra_user r = uid) rows < max_attempts user_limit"
    and "n = max_attempts identifier_limit
           - count_attempts pre (now - window_ms identifier_limit) (\<lambda>r. ra_identifier r = identifier) rows"
  using assms by (auto simp: checkRecoveryRateLimit_def Let_def truthy_def split: if_splits)

lemma user_attempts_window:
  assumes "now \<le> t + window_ms user_limit"
    and "checkRecoveryRateLimit now (rv_attempts st) identifier (Some uid) ip pre = Allowed n" and "uid \<noteq> []"
  shows "user_attempts pre t uid st < max_attempts user_limit"
  using allowed_below_user_limit(1) [OF assms(2,3)] assms(1)
    count_attempts_mono [of "now - window_ms user_limit" t "rv_attempts st" pre "\<lambda>r. ra_user r = uid" "\<lambda>r. ra_user r = uid"]
  by (simp add: user_attempts_def)

lemma log_count_rv_add [simp]:
  "log_count ev (rv_add es st) = log_count ev st + length (filter (\<lambda>x. x = ev) es)"
  by (simp add: log_count_def rv_add_def)
definition otp_row :: "recovery_env \<Rightarrow> challenge_payload \<Rightarrow> string \<Rightarrow> bool \<Rightarrow> string \<Rightarrow> fingerprint option \<Rightarrow> attempt_row" where
  "otp_row e pl key success reason fp =
     \<lparr>ra_user = cp_user pl, ra_identifier = key, ra_success = success,
      ra_reason = Some (RECOVERY_OTP_ATTEMPT_PREFIX @ reason), ra_ip = Some (fp_or_unknown fp), ra_time = re_now e\<rparr>"

lemma revoke_keeps [simp]:
  "rv_attempts (revokeRecoveryChallengeToken pl st) = rv_attempts st"
  "rv_log (revokeRecoveryChallengeToken pl st) = rv_log st"
  "rv_challenges (revokeRecoveryChallengeToken pl st) = rv_challenges st"
  "rv_users (revokeRecoveryChallengeToken pl st) = rv_users st"
  by (simp_all add: revokeRecoveryChallengeToken_def)

lemma rv_add_keeps [simp]:
  "rv_attempts (rv_add es st) = rv_attempts st"
  "rv_challenges (rv_add es st) = rv_challenges st"
  "rv_revoked (rv_add es st) = rv_revoked st"
  "rv_users (rv_add es st) = rv_users st"
  "rv_log (rv_add es st) = rv_log st @ es"
  by (simp_all add: rv_add_def)

lemma mark_keeps [simp]:
  "rv_attempts (snd (markRecoveryChallengeUsed e pl cid st)) = rv_attempts st"
  "rv_log (snd (markRecoveryChallengeUsed e pl cid st)) = rv_log st"
  by (simp_all add: markRecoveryChallengeUsed_def)

lemma lock_keeps [simp]:
  "rv_attempts (snd (lock_challenge e pl cid locked st)) = rv_attempts st"
  "rv_log (snd (lock_challenge e pl cid locked st)) = rv_log st"
  by (auto simp: lock_challenge_def markRecoveryChallengeUsed_def)

lemma record_otp_ok [simp]:
  "\<not> re_record_fails e \<Longrightarrow> recordRecoveryOtpAttempt e pl key success reason fp st =
     (Inr (), st\<lparr>rv_attempts := rv_attempts st @ [otp_row e pl key success reason fp]\<rparr>)"
  by (simp add: recordRecoveryOtpAttempt_def recordRecoveryAttempt_def otp_row_def)

lemma log_count_cong: "rv_log s = rv_log t \<Longrightarrow> log_count ev s = log_count ev t"
  by (simp add: log_count_def)

lemma snd_then_do_log:
  assumes "rv_log (snd r) = rv_log st"
    and "\<And>a. log_count ev (snd (k a (snd r))) = log_count ev (snd r)"
  shows "log_count ev (snd (then_do r k)) = log_count ev st"
  using assms by (cases r; cases "fst r") (auto simp: log_count_def)

lemma snd_then_do_attempts:
  assumes "rv_attempts (snd r) = rows"
    and "\<And>a. rv_attempts (snd (k a (snd r))) = rows"
  shows "rv_attempts (snd (then_do r k)) = rows"
  using assms by (cases r; cases "fst r") auto

definition is_guess :: "recovery_log \<Rightarrow> bool" where
  "is_guess ev = (case ev of PasscodeCompared u \<Rightarrow> True | Compared u \<Rightarrow> True | _ \<Rightarrow> False)"

lemma is_guess_simps [simp]:
  "is_guess (PasscodeCompared u)" "is_guess (Compared u)"
  "\<not> is_guess (RecoveryAudit a u)" "\<not> is_guess (OtpSent a b c)"
  "\<not> is_guess (SessionsRotated u)" "\<not> is_guess (ApiKeyIssued u)"
  by (simp_all add: is_guess_def)

lemma guess_not_audit [simp]:
  "is_guess ev \<Longrightarrow> RecoveryAudit a u \<noteq> ev" "is_guess ev \<Longrightarrow> SessionsRotated u \<noteq> ev"
  "is_guess ev \<Longrightarrow> ApiKeyIssued u \<noteq> ev" "is_guess ev \<Longrightarrow> OtpSent a b c \<noteq> ev"
  by auto

lemma reject_effect:
  assumes "\<not> re_record_fails e" and g: "is_guess ev"
  shows "log_count ev (snd (reject_otp e pl key cid locked fp st)) = log_count ev st"
    and "rv_attempts (snd (reject_otp e pl key cid locked fp st))
           = rv_attempts st @ [otp_row e pl key False '':invalid'' fp]"
proof -
  show "log_count ev (snd (reject_otp e pl key cid locked fp st)) = log_count ev st"
    unfolding reject_otp_def record_otp_ok [OF assms(1)] then_do_simps
    by (rule snd_then_do_log) (simp_all add: g log_count_def)
  show "rv_attempts (snd (reject_otp e pl key cid locked fp st))
      = rv_attempts st @ [otp_row e pl key False '':invalid'' fp]"
    unfolding reject_otp_def record_otp_ok [OF assms(1)] then_do_simps
    by (rule snd_then_do_attempts) simp_all
qed

lemma accept_effect:
  assumes "\<not> re_record_fails e" and g: "is_guess ev"
  shows "log_count ev (snd (accept_otp e pl key cid fp trust st)) = log_count ev st"
    and "rv_attempts (snd (accept_otp e pl key cid fp trust st))
           = rv_attempts st @ [otp_row e pl key True '':success'' fp]"
proof -
  show "log_count ev (snd (accept_otp e pl key cid fp trust st)) = log_count ev st"
    unfolding accept_otp_def record_otp_ok [OF assms(1)] then_do_simps
    by (rule snd_then_do_log) (simp_all add: g log_count_def)
  show "rv_attempts (snd (accept_otp e pl key cid fp trust st))
      = rv_attempts st @ [otp_row e pl key True '':success'' fp]"
    unfolding accept_otp_def record_otp_ok [OF assms(1)] then_do_simps
    by (rule snd_then_do_attempts) simp_all
qed

text \<open>One check: at most one comparison, and always one recorded attempt.\<close>

lemma check_otp_effect:
  assumes "\<not> re_record_fails e" and g: "is_guess ev"
  shows "log_count ev (snd (check_otp e pl key c locked code fp trust st))
           \<le> log_count ev st + (if ev = Compared (cp_user pl) then 1 else 0)"
    and "\<exists>ok why. rv_attempts (snd (check_otp e pl key c locked code fp trust st))
           = rv_attempts st @ [otp_row e pl key ok why fp]"
proof -
  show "log_count ev (snd (check_otp e pl key c locked code fp trust st))
      \<le> log_count ev st + (if ev = Compared (cp_user pl) then 1 else 0)"
  proof (cases "six_digits code")
    case False
    then show ?thesis by (simp add: check_otp_def reject_effect [OF assms])
  next
    case True
    have err: "log_count ev (snd (then_do (lock_challenge e pl (oc_id c) locked s)
        (\<lambda>_ s2. (Inl Unavailable, s2)))) = log_count ev s" for s
      by (rule snd_then_do_log) simp_all
    let ?s = "rv_add [Compared (cp_user pl)] st"
    have "log_count ev (snd (check_otp e pl key c locked code fp trust st)) = log_count ev ?s"
    proof (cases "re_compare e code (oc_hash c)")
      case None
      then show ?thesis using True assms by (simp add: check_otp_def err del: log_count_rv_add) (simp add: log_count_def)
    next
      case (Some ok)
      then show ?thesis
        using True by (cases ok) (simp_all add: check_otp_def reject_effect [OF assms] accept_effect [OF assms] del: log_count_rv_add)
    qed
    then show ?thesis by auto
  qed
  show "\<exists>ok why. rv_attempts (snd (check_otp e pl key c locked code fp trust st))
      = rv_attempts st @ [otp_row e pl key ok why fp]"
  proof -
    have err: "rv_attempts (snd (then_do (lock_challenge e pl (oc_id c) locked s)
        (\<lambda>_ s2. (Inl Unavailable, s2)))) = rv_attempts s" for s
      by (rule snd_then_do_attempts) simp_all
    show ?thesis
      using assms
      by (auto simp: check_otp_def Let_def reject_effect [OF assms] accept_effect [OF assms] err
          split: option.split bool.split)
  qed
qed
lemma user_attempts_append:
  "rv_attempts st' = rv_attempts st @ rows \<Longrightarrow>
     user_attempts pre t uid st' = user_attempts pre t uid st + count_attempts pre t (\<lambda>r. ra_user r = uid) rows"
  by (simp add: user_attempts_def)

lemma starts_with_append [simp]: "starts_with (p @ s) p"
  by (simp add: starts_with_def)

lemma otp_row_counts:
  "count_attempts pre t (\<lambda>r. ra_user r = uid) [otp_row e pl key ok why fp] =
     (if cp_user pl = uid \<and> t \<le> re_now e
         \<and> reason_matches pre (otp_row e pl key ok why fp) then 1 else 0)"
  by (simp add: count_attempts_def otp_row_def)

lemma otp_row_matches [simp]:
  "reason_matches (Some RECOVERY_OTP_ATTEMPT_PREFIX) (otp_row e pl key ok why fp)"
  "reason_matches None r"
  by (simp_all add: reason_matches_def otp_row_def truthy_def)

text \<open>A request that verifies a code either reaches the check under an open limit, or compares nothing.\<close>

lemma verify_cases:
  obtains (idle) "\<And>ev. is_guess ev \<Longrightarrow> log_count ev (snd (verifyRecoveryOtp e token code fp trust st)) = log_count ev st"
      "rv_attempts (snd (verifyRecoveryOtp e token code fp trust st)) = rv_attempts st"
      "\<And>b. fst (verifyRecoveryOtp e token code fp trust st) \<noteq> Inr b"
  | (checked) pl c n where "re_verify_token e token = Some pl" "cp_user pl \<noteq> []" "find_challenge e pl st = Some c"
      "\<not> (truthy (cp_jti pl) \<and> the (cp_jti pl) \<in> set (rv_revoked st))"
      "checkRecoveryRateLimit (re_now e) (rv_attempts st) (getRecoveryOtpAttemptKey e token) (Some (cp_user pl))
         (Some (fp_or_unknown fp)) (Some RECOVERY_OTP_ATTEMPT_PREFIX) = Allowed n"
      "verifyRecoveryOtp e token code fp trust st =
         check_otp e pl (getRecoveryOtpAttemptKey e token) c
           (int RECOVERY_OTP_MAX_ATTEMPTS \<le> getRecoveryChallengeAttemptCount n) code fp trust st"
proof (cases "re_verify_token e token")
  case None
  then show ?thesis by (intro idle) (simp_all add: verifyRecoveryOtp_def)
next
  case (Some pl)
  note pl = this
  show ?thesis
  proof (cases "cp_user pl = [] \<or> truthy (cp_jti pl) \<and> the (cp_jti pl) \<in> set (rv_revoked st) \<or> re_lookup_fails e
      \<or> find_challenge e pl st = None \<or> re_rate_fails e")
    case True
    then show ?thesis using pl
      by (intro idle) (auto simp: verifyRecoveryOtp_def log_count_def split: option.split)
  next
    case False
    then obtain c where c: "find_challenge e pl st = Some c" by auto
    show ?thesis
    proof (cases "checkRecoveryRateLimit (re_now e) (rv_attempts st) (getRecoveryOtpAttemptKey e token)
        (Some (cp_user pl)) (Some (fp_or_unknown fp)) (Some RECOVERY_OTP_ATTEMPT_PREFIX)")
      case (Allowed n)
      show ?thesis
        by (rule checked [OF pl _ c _ Allowed]) (use False pl c Allowed in \<open>auto simp: verifyRecoveryOtp_def Let_def\<close>)
    next
      case (Refused k t)
      have v: "verifyRecoveryOtp e token code fp trust st =
          then_do (markRecoveryChallengeUsed e pl (oc_id c) st) (\<lambda>_ s1. (Inl Lockout,
            rv_add [RecoveryAudit ''recovery_failed'' (cp_user pl)] (revokeRecoveryChallengeToken pl s1)))"
        using False pl c Refused by (auto simp: verifyRecoveryOtp_def Let_def)
      show ?thesis
        by (rule idle; unfold v)
          ((rule snd_then_do_log; simp add: log_count_def), (rule snd_then_do_attempts; simp),
            (simp add: then_do_def split: prod.split sum.split))
    qed
  qed
qed

lemma verify_otp_throttled:
  assumes "\<not> re_record_fails e" and "t \<le> re_now e" and "re_now e \<le> t + window_ms user_limit"
  shows "log_count (Compared uid) (snd (verifyRecoveryOtp e token code fp trust st)) \<le> log_count (Compared uid) st
      \<and> user_attempts (Some RECOVERY_OTP_ATTEMPT_PREFIX) t uid st
          \<le> user_attempts (Some RECOVERY_OTP_ATTEMPT_PREFIX) t uid (snd (verifyRecoveryOtp e token code fp trust st))
    \<or> log_count (Compared uid) (snd (verifyRecoveryOtp e token code fp trust st)) \<le> Suc (log_count (Compared uid) st)
      \<and> Suc (user_attempts (Some RECOVERY_OTP_ATTEMPT_PREFIX) t uid st)
          \<le> user_attempts (Some RECOVERY_OTP_ATTEMPT_PREFIX) t uid (snd (verifyRecoveryOtp e token code fp trust st))
      \<and> user_attempts (Some RECOVERY_OTP_ATTEMPT_PREFIX) t uid st < max_attempts user_limit"
proof (cases rule: verify_cases [of e token code fp trust st])
  case idle
  then show ?thesis by (simp add: user_attempts_def)
next
  case (checked pl c n)
  note eff = check_otp_effect [OF assms(1), of "Compared uid" pl "getRecoveryOtpAttemptKey e token" c
      "int RECOVERY_OTP_MAX_ATTEMPTS \<le> getRecoveryChallengeAttemptCount n" code fp trust st, simplified]
  obtain ok why where rows: "rv_attempts (snd (verifyRecoveryOtp e token code fp trust st))
      = rv_attempts st @ [otp_row e pl (getRecoveryOtpAttemptKey e token) ok why fp]"
    using eff(2) checked(6) by auto
  note cnt = user_attempts_append [OF rows, unfolded otp_row_counts]
  show ?thesis
  proof (cases "cp_user pl = uid")
    case True
    then show ?thesis
      using eff(1) checked(2,5,6) cnt assms
        user_attempts_window [OF assms(3), of st "getRecoveryOtpAttemptKey e token" uid]
      by simp
  next
    case False
    then show ?thesis using eff(1) checked(6) cnt by simp
  qed
qed
lemma issue_challenge_keeps [simp]:
  "rv_attempts (snd (issue_challenge e u ident st)) = rv_attempts st"
  by (simp add: issue_challenge_def Let_def)

lemma issue_challenge_log:
  "is_guess ev \<Longrightarrow> log_count ev (snd (issue_challenge e u ident st)) = log_count ev st"
  by (simp add: issue_challenge_def Let_def log_count_def)

lemma add_attempt_keeps [simp]:
  "rv_log (add_attempt e uid ident ok why fp st) = rv_log st"
  "rv_challenges (add_attempt e uid ident ok why fp st) = rv_challenges st"
  "rv_revoked (add_attempt e uid ident ok why fp st) = rv_revoked st"
  "rv_users (add_attempt e uid ident ok why fp st) = rv_users st"
  by (simp_all add: add_attempt_def)

lemma add_attempt_rows:
  "rv_attempts (add_attempt e uid ident ok why fp st) = rv_attempts st @
     [\<lparr>ra_user = uid, ra_identifier = ident, ra_success = ok, ra_reason = Some why, ra_ip = fp_ip fp, ra_time = re_now e\<rparr>]"
  by (simp add: add_attempt_def recordRecoveryAttempt_def)

lemma log_count_add_attempt [simp]:
  "log_count ev (add_attempt e uid ident ok why fp st) = log_count ev st"
  by (simp add: log_count_def)

lemma unlock_cases:
  obtains (idle) rows where
      "\<And>ev. is_guess ev \<Longrightarrow> log_count ev (snd (unlockApp e ident passcode fp st)) = log_count ev st"
      "rv_attempts (snd (unlockApp e ident passcode fp st)) = rv_attempts st @ rows"
      "\<And>t. fst (unlockApp e ident passcode fp st) \<noteq> Inr t"
  | (compared) P u n row where "recovery_where ident = Some P" "find P (rv_users st) = Some u"
      "truthy (re_passcode_hash e (u_id u))"
      "checkRecoveryRateLimit (re_now e) (rv_attempts st) ident (Some (u_id u)) (fp_ip fp) None = Allowed n"
      "\<And>ev. is_guess ev \<Longrightarrow> log_count ev (snd (unlockApp e ident passcode fp st))
         = log_count ev st + (if ev = PasscodeCompared (u_id u) then 1 else 0)"
      "re_compare e passcode (the (re_passcode_hash e (u_id u))) \<noteq> None \<Longrightarrow>
         rv_attempts (snd (unlockApp e ident passcode fp st)) = rv_attempts st @ [row]
         \<and> ra_user row = u_id u \<and> ra_time row = re_now e"
      "rv_attempts (snd (unlockApp e ident passcode fp st)) \<in> {rv_attempts st, rv_attempts st @ [row]}"
      "re_compare e passcode (the (re_passcode_hash e (u_id u))) = Some True \<Longrightarrow>
         unlockApp e ident passcode fp st = issue_challenge e u ident
           (add_attempt e (u_id u) ident True ''Passcode verified, OTP sent'' fp (rv_add [PasscodeCompared (u_id u)] st))"
      "re_compare e passcode (the (re_passcode_hash e (u_id u))) \<noteq> Some True \<Longrightarrow>
         \<exists>err. fst (unlockApp e ident passcode fp st) = Inl err"
proof (cases "recovery_where ident")
  case None
  then show ?thesis by (intro idle [of "[]"]) (simp_all add: unlockApp_def)
next
  case (Some P)
  note P = this
  show ?thesis
  proof (cases "find P (rv_users st)")
    case None
    then show ?thesis using P by (intro idle [of "[]"]) (simp_all add: unlockApp_def)
  next
    case (Some u)
    note u = this
    show ?thesis
    proof (cases "truthy (re_passcode_hash e (u_id u))")
      case False
      then show ?thesis using P u by (intro idle [of "[]"]) (simp_all add: unlockApp_def)
    next
      case True
      note h = this
      show ?thesis
      proof (cases "checkRecoveryRateLimit (re_now e) (rv_attempts st) ident (Some (u_id u)) (fp_ip fp) None")
        case (Refused k t)
        then show ?thesis using P u h by (intro idle) (simp_all add: unlockApp_def add_attempt_rows)
      next
        case (Allowed n)
        note a = this
        show ?thesis
        proof (cases "re_device_limited e")
          case True
          then show ?thesis using P u h a by (intro idle) (simp_all add: unlockApp_def add_attempt_rows)
        next
          case False
          define ok where "ok = (re_compare e passcode (the (re_passcode_hash e (u_id u))) = Some True)"
          define row where "row = \<lparr>ra_user = u_id u, ra_identifier = ident, ra_success = ok,
            ra_reason = Some (if ok then ''Passcode verified, OTP sent'' else ''Invalid passcode''),
            ra_ip = fp_ip fp, ra_time = re_now e\<rparr>"
          note d = unlockApp_def P u h a False
          show ?thesis
            by (rule compared [OF P u h a, of row]; cases "re_compare e passcode (the (re_passcode_hash e (u_id u)))")
              (auto simp: d ok_def row_def issue_challenge_log add_attempt_rows split: bool.split)
        qed
      qed
    qed
  qed
qed

lemma unlock_throttled:
  assumes "uid \<noteq> []" and "t \<le> re_now e" and "re_now e \<le> t + window_ms user_limit"
    and "\<And>h. re_compare e passcode h \<noteq> None"
  shows "log_count (PasscodeCompared uid) (snd (unlockApp e ident passcode fp st)) \<le> log_count (PasscodeCompared uid) st
      \<and> user_attempts None t uid st \<le> user_attempts None t uid (snd (unlockApp e ident passcode fp st))
    \<or> log_count (PasscodeCompared uid) (snd (unlockApp e ident passcode fp st)) \<le> Suc (log_count (PasscodeCompared uid) st)
      \<and> Suc (user_attempts None t uid st) \<le> user_attempts None t uid (snd (unlockApp e ident passcode fp st))
      \<and> user_attempts None t uid st < max_attempts user_limit"
proof (cases rule: unlock_cases [of e ident passcode fp st])
  case (idle rows)
  then show ?thesis by (simp add: user_attempts_append)
next
  case (compared P u n row)
  then have rows: "rv_attempts (snd (unlockApp e ident passcode fp st)) = rv_attempts st @ [row]"
    "ra_user row = u_id u" "ra_time row = re_now e"
    using assms(4) by auto
  have more: "user_attempts None t uid (snd (unlockApp e ident passcode fp st))
      = user_attempts None t uid st + (if u_id u = uid then 1 else 0)"
    using user_attempts_append [OF rows(1), of None t uid] rows(2,3) assms(2) by (simp add: count_attempts_def)
  show ?thesis
  proof (cases "u_id u = uid")
    case True
    then show ?thesis
      using compared(4,5) more assms(1) user_attempts_window [OF assms(3), of st ident uid] by simp
  next
    case False
    then show ?thesis using compared(5) more by simp
  qed
qed

section \<open>The limiter bounds the guesses\<close>

definition otp_admissible :: "int \<Rightarrow> recovery_op \<Rightarrow> bool" where
  "otp_admissible t op = (case op of
     Unlock e _ _ _ \<Rightarrow> True
   | Verify e _ _ _ _ \<Rightarrow> \<not> re_record_fails e \<and> t \<le> re_now e \<and> re_now e \<le> t + window_ms user_limit)"

definition passcode_admissible :: "int \<Rightarrow> recovery_op \<Rightarrow> bool" where
  "passcode_admissible t op = (case op of
     Unlock e _ passcode _ \<Rightarrow> (\<forall>h. re_compare e passcode h \<noteq> None) \<and> t \<le> re_now e \<and> re_now e \<le> t + window_ms user_limit
   | Verify e _ _ _ _ \<Rightarrow> \<not> re_record_fails e)"
interpretation otp: throttle recovery_exec "otp_admissible t"
    "user_attempts (Some RECOVERY_OTP_ATTEMPT_PREFIX) t uid" "log_count (Compared uid)" "max_attempts user_limit"
  for t uid
proof (unfold_locales, goal_cases)
  case (1 op s)
  show ?case
  proof (cases op)
    case (Unlock e ident passcode fp)
    obtain rows where "rv_attempts (snd (unlockApp e ident passcode fp s)) = rv_attempts s @ rows"
        "log_count (Compared uid) (snd (unlockApp e ident passcode fp s)) = log_count (Compared uid) s"
    proof (cases rule: unlock_cases [of e ident passcode fp s])
      case (idle rows)
      then show ?thesis using that by simp
    next
      case (compared P u n row)
      have "log_count (Compared uid) (snd (unlockApp e ident passcode fp s)) = log_count (Compared uid) s"
        using compared(5) by simp
      with compared(7) show ?thesis using that [of "[]"] that [of "[row]"] by auto
    qed
    then show ?thesis using Unlock by (simp add: recovery_exec_def user_attempts_append)
  next
    case (Verify e token code fp trust)
    then show ?thesis
      using 1 verify_otp_throttled [of e t uid token code fp trust s] by (simp add: otp_admissible_def recovery_exec_def)
  qed
qed

lemma passcode_step:
  assumes "uid \<noteq> []" and "passcode_admissible t op"
  shows "log_count (PasscodeCompared uid) (recovery_exec op s) \<le> log_count (PasscodeCompared uid) s
      \<and> user_attempts None t uid s \<le> user_attempts None t uid (recovery_exec op s)
    \<or> log_count (PasscodeCompared uid) (recovery_exec op s) \<le> Suc (log_count (PasscodeCompared uid) s)
      \<and> Suc (user_attempts None t uid s) \<le> user_attempts None t uid (recovery_exec op s)
      \<and> user_attempts None t uid s < max_attempts user_limit"
proof (cases op)
  case (Unlock e ident passcode fp)
  then show ?thesis
    using assms(2) unlock_throttled [OF assms(1), of t e passcode ident fp s]
    by (simp add: passcode_admissible_def recovery_exec_def)
next
  case (Verify e token code fp trust)
  then have e: "\<not> re_record_fails e" using assms(2) by (simp add: passcode_admissible_def)
  show ?thesis
  proof (cases rule: verify_cases [of e token code fp trust s])
    case idle
    then show ?thesis using Verify by (simp add: recovery_exec_def user_attempts_def)
  next
    case (checked pl c n)
    note eff = check_otp_effect [OF e, of "PasscodeCompared uid" pl "getRecoveryOtpAttemptKey e token" c
      "int RECOVERY_OTP_MAX_ATTEMPTS \<le> getRecoveryChallengeAttemptCount n" code fp trust s, simplified]
    from eff(2) obtain ok why where rows: "rv_attempts (snd (verifyRecoveryOtp e token code fp trust s))
      = rv_attempts s @ [otp_row e pl (getRecoveryOtpAttemptKey e token) ok why fp]"
      using checked(6) by auto
    show ?thesis
      using Verify eff(1) checked(6) user_attempts_append [OF rows] by (simp add: recovery_exec_def)
  qed
qed

interpretation passcode: throttle recovery_exec "\<lambda>op. uid \<noteq> [] \<and> passcode_admissible t op"
    "user_attempts None t uid" "log_count (PasscodeCompared uid)" "max_attempts user_limit"
  for t uid
  by unfold_locales (use passcode_step in blast)

text \<open>
  C12. Brute force of the one-time code is bounded. Take any sequence of unlock and verify requests, for
  any tokens, codes, devices and addresses, whose verify requests fall within one 24-hour period in
  which attempts can be recorded. The guesses compared with a stored code of the user \<open>uid\<close> are at most
  three, whatever the interleaving and whatever the state before.
\<close>

theorem otp_guesses_bounded:
  assumes "list_all (otp_admissible t) ops"
  shows "log_count (Compared uid) (recovery_run ops st) \<le> log_count (Compared uid) st + 3"
  using otp.guesses_bounded [OF assms, of uid st] by (simp add: recovery_run_def user_limit_def)

text \<open>
  Brute force of the passcode is bounded in the same way: as long as bcrypt returns an answer and
  attempts can be recorded, at most three passcodes per user are compared within one 24-hour period,
  whatever identifier, address or device the requests name.
\<close>

theorem passcode_guesses_bounded:
  assumes "uid \<noteq> []" and "list_all (passcode_admissible t) ops"
  shows "log_count (PasscodeCompared uid) (recovery_run ops st) \<le> log_count (PasscodeCompared uid) st + 3"
  using passcode.guesses_bounded [of uid t ops st] assms
  by (simp add: recovery_run_def user_limit_def)
section \<open>Challenges are spent once and for all\<close>

text \<open>A challenge's id is its position: the table only grows at the end.\<close>

definition ids_ok :: "recovery_state \<Rightarrow> bool" where
  "ids_ok st \<longleftrightarrow> map oc_id (rv_challenges st) = [0..<length (rv_challenges st)]"

definition spent :: "nat \<Rightarrow> recovery_state \<Rightarrow> bool" where
  "spent cid st \<longleftrightarrow> cid < length (rv_challenges st)
     \<and> list_all (\<lambda>c. oc_id c = cid \<longrightarrow> oc_used c \<noteq> None) (rv_challenges st)"

definition rv_later :: "recovery_state \<Rightarrow> recovery_state \<Rightarrow> bool" where
  "rv_later st st' \<longleftrightarrow> (ids_ok st \<longrightarrow> ids_ok st') \<and> (\<forall>cid. ids_ok st \<and> spent cid st \<longrightarrow> spent cid st')
     \<and> set (rv_revoked st) \<subseteq> set (rv_revoked st')"

lemma rv_later_refl [simp, intro]: "rv_later st st"
  by (simp add: rv_later_def)

lemma rv_later_trans: "rv_later s t \<Longrightarrow> rv_later t u \<Longrightarrow> rv_later s u"
  by (auto simp: rv_later_def)

lemma rv_later_same:
  "rv_challenges s = rv_challenges t \<Longrightarrow> set (rv_revoked s) \<subseteq> set (rv_revoked t) \<Longrightarrow> rv_later s t"
  by (simp add: rv_later_def ids_ok_def spent_def)

lemma rv_later_revoke [simp, intro]: "rv_later st (revokeRecoveryChallengeToken pl st)"
  by (rule rv_later_same) (auto simp: revokeRecoveryChallengeToken_def)

lemma rv_later_mark [simp, intro]: "rv_later st (snd (markRecoveryChallengeUsed e pl cid st))"
proof (cases "re_mark_fails e")
  case True
  then show ?thesis by (simp add: markRecoveryChallengeUsed_def)
next
  case False
  have "oc_id \<circ> (\<lambda>c::otp_challenge. if oc_id c = cid then c\<lparr>oc_used := v\<rparr> else c) = oc_id" for v
    by auto
  then show ?thesis
    using False by (auto simp: markRecoveryChallengeUsed_def rv_later_def ids_ok_def spent_def list_all_iff)
qed

lemma rv_later_add [simp, intro]: "rv_later st (rv_add es st)"
  by (rule rv_later_same) auto

lemma rv_later_record [simp, intro]: "rv_later st (snd (recordRecoveryOtpAttempt e pl key ok why fp st))"
  by (auto simp: recordRecoveryOtpAttempt_def intro: rv_later_same)

lemma rv_later_then:
  "rv_later st (snd r) \<Longrightarrow> (\<And>a. rv_later (snd r) (snd (k a (snd r)))) \<Longrightarrow> rv_later st (snd (then_do r k))"
  by (cases r; cases "fst r") (auto intro: rv_later_trans)

lemma rv_later_lock [simp, intro]: "rv_later st (snd (lock_challenge e pl cid locked st))"
  by (auto simp: lock_challenge_def intro!: rv_later_then)

lemma rv_later_reject: "rv_later st (snd (reject_otp e pl key cid locked fp st))"
  unfolding reject_otp_def by (intro rv_later_then) simp_all

lemma rv_later_accept: "rv_later st (snd (accept_otp e pl key cid fp trust st))"
  unfolding accept_otp_def
  by (intro rv_later_then) (auto intro: rv_later_trans [OF rv_later_revoke rv_later_add])

lemma rv_later_check: "rv_later st (snd (check_otp e pl key c locked code fp trust st))"
proof -
  have err: "rv_later s (snd (then_do (recordRecoveryOtpAttempt e pl key False '':verification_error'' fp s) (\<lambda>_ s1.
      then_do (lock_challenge e pl (oc_id c) locked s1) (\<lambda>_ s2. (Inl Unavailable, s2)))))" for s
    by (intro rv_later_then) simp_all
  note via = rv_later_trans [OF rv_later_add]
  show ?thesis
    by (auto simp: check_otp_def Let_def rv_later_reject split: option.split bool.split
        intro: via [OF rv_later_reject] via [OF rv_later_accept] via [OF err])
qed

lemma rv_later_verify: "rv_later st (snd (verifyRecoveryOtp e token code fp trust st))"
proof -
  have lockout: "rv_later st (snd (then_do (markRecoveryChallengeUsed e pl cid st) (\<lambda>_ s1.
      (Inl Lockout, rv_add es (revokeRecoveryChallengeToken pl s1)))))" for pl cid es
    by (intro rv_later_then) (auto intro: rv_later_trans [OF rv_later_revoke rv_later_add])
  show ?thesis
    by (auto simp: verifyRecoveryOtp_def Let_def lockout rv_later_check split: option.split rate_result.split
        intro: rv_later_trans [OF rv_later_revoke rv_later_add])
qed

lemma rv_later_unlock: "rv_later st (snd (unlockApp e ident passcode fp st))"
proof -
  have add: "rv_later s (add_attempt e uid ident ok why fp s)" for s uid ok why
    by (rule rv_later_same) auto
  have issue: "rv_later s (snd (issue_challenge e u ident s))" for s u
    by (auto simp: issue_challenge_def Let_def rv_later_def ids_ok_def spent_def)
  note via = rv_later_trans [OF rv_later_add]
  show ?thesis
    by (auto simp: unlockApp_def add split: option.split rate_result.split bool.split
        intro: via [OF add] via [OF rv_later_trans [OF add issue]])
qed

lemma rv_later_exec: "rv_later st (recovery_exec op st)"
  by (cases op) (simp_all add: recovery_exec_def rv_later_verify rv_later_unlock)

lemma rv_later_run: "rv_later st (recovery_run ops st)"
  unfolding recovery_run_def
  by (induction ops arbitrary: st) (auto intro: rv_later_trans [OF rv_later_exec])
lemma then_do_Inr:
  assumes "then_do r k = (Inr b, s')"
  obtains a where "fst r = Inr a" and "k a (snd r) = (Inr b, s')"
  using assms by (cases r; cases "fst r") auto

lemma accept_Inr:
  assumes "accept_otp e pl key cid fp trust st = (Inr b, st')"
  shows "b = (re_api_key e, cp_user pl)"
    and "rv_challenges st' = map (\<lambda>c. if oc_id c = cid then c\<lparr>oc_used := Some (re_now e)\<rparr> else c) (rv_challenges st)"
    and "truthy (cp_jti pl) \<longrightarrow> the (cp_jti pl) \<in> set (rv_revoked st')"
    and "ApiKeyIssued (cp_user pl) \<in> set (rv_log st')" and "SessionsRotated (cp_user pl) \<in> set (rv_log st')"
  using assms
  by (auto simp: accept_otp_def recordRecoveryOtpAttempt_def markRecoveryChallengeUsed_def
      revokeRecoveryChallengeToken_def then_do_def split: if_splits)

lemma reject_never_Inr [simp]: "reject_otp e pl key cid locked fp st \<noteq> (Inr b, st')"
  by (auto simp: reject_otp_def then_do_def split: prod.splits sum.splits)

lemma check_Inr:
  assumes "check_otp e pl key c locked code fp trust st = (Inr b, st')"
  shows "six_digits code" and "re_compare e code (oc_hash c) = Some True"
    and "accept_otp e pl key (oc_id c) fp trust (rv_add [Compared (cp_user pl)] st) = (Inr b, st')"
proof -
  have err: "then_do (recordRecoveryOtpAttempt e pl key False why fp s) (\<lambda>_ s1.
      then_do (lock_challenge e pl (oc_id c) locked s1) (\<lambda>_ s2. (Inl Unavailable, s2))) \<noteq> (Inr b, st')" for s why
    by (auto simp: then_do_def split: prod.splits sum.splits)
  show "six_digits code" using assms by (auto simp: check_otp_def split: if_splits)
  with assms err show "re_compare e code (oc_hash c) = Some True"
    and "accept_otp e pl key (oc_id c) fp trust (rv_add [Compared (cp_user pl)] st) = (Inr b, st')"
    by (auto simp: check_otp_def Let_def split: option.splits bool.splits)
qed

text \<open>What a successful verification rests on.\<close>

lemma verify_Inr:
  assumes "verifyRecoveryOtp e token code fp trust st = (Inr b, st')"
  obtains pl c n where "re_verify_token e token = Some pl" "cp_user pl \<noteq> []" "find_challenge e pl st = Some c"
    "\<not> (truthy (cp_jti pl) \<and> the (cp_jti pl) \<in> set (rv_revoked st))"
    "checkRecoveryRateLimit (re_now e) (rv_attempts st) (getRecoveryOtpAttemptKey e token) (Some (cp_user pl))
       (Some (fp_or_unknown fp)) (Some RECOVERY_OTP_ATTEMPT_PREFIX) = Allowed n"
    "re_compare e code (oc_hash c) = Some True" "six_digits code"
    "accept_otp e pl (getRecoveryOtpAttemptKey e token) (oc_id c) fp trust (rv_add [Compared (cp_user pl)] st) = (Inr b, st')"
proof (cases rule: verify_cases [of e token code fp trust st])
  case idle
  then show ?thesis using assms by (metis fst_conv)
next
  case (checked pl c n)
  then show ?thesis using assms check_Inr [of e pl _ c _ code fp trust st b st'] that by metis
qed

lemma find_challengeD:
  assumes "find_challenge e pl st = Some c"
  shows "c \<in> set (rv_challenges st)" and "oc_user c = cp_user pl" and "re_now e < oc_expires c" and "oc_used c = None"
    and "\<And>i. cp_challenge pl = Some i \<Longrightarrow> oc_id c = i"
  using assms by (auto simp: find_challenge_def find_Some_iff split: option.splits) (metis nth_mem length_rev set_rev)+

text \<open>
  No recovery without the right code. When \<open>verifyRecoveryOtp\<close> returns an API key, the token was a
  valid, unrevoked challenge token of the user the key is for; a code challenge of that same user existed,
  unexpired and unused (the very one the token names, when it names one); the six-digit code matched that
  challenge's hash; the limits were not exhausted; the user's sessions were rotated, and the challenge is
  now marked as used.
\<close>

theorem recovery_needs_right_code:
  assumes "verifyRecoveryOtp e token code fp trust st = (Inr (api_key, uid), st')"
  shows "\<exists>pl c. re_verify_token e token = Some pl \<and> uid = cp_user pl \<and> uid \<noteq> [] \<and> api_key = re_api_key e
    \<and> (truthy (cp_jti pl) \<longrightarrow> the (cp_jti pl) \<notin> set (rv_revoked st))
    \<and> c \<in> set (rv_challenges st) \<and> oc_user c = uid \<and> re_now e < oc_expires c \<and> oc_used c = None
    \<and> (\<forall>i. cp_challenge pl = Some i \<longrightarrow> oc_id c = i)
    \<and> re_compare e code (oc_hash c) = Some True \<and> six_digits code
    \<and> count_attempts (Some RECOVERY_OTP_ATTEMPT_PREFIX) (re_now e - window_ms user_limit) (\<lambda>r. ra_user r = uid)
        (rv_attempts st) < max_attempts user_limit
    \<and> SessionsRotated uid \<in> set (rv_log st')
    \<and> c\<lparr>oc_used := Some (re_now e)\<rparr> \<in> set (rv_challenges st')"
  using assms
proof (rule verify_Inr, goal_cases)
  case (1 pl c n)
  then show ?case
    using find_challengeD [OF 1(3)] accept_Inr [OF 1(8)] allowed_below_user_limit(1) [OF 1(5) 1(2)]
    by (intro exI [of _ pl] exI [of _ c]) auto
qed
lemma spent_marked:
  assumes "ids_ok st" and "c \<in> set (rv_challenges st)"
    and "rv_challenges st' = map (\<lambda>x. if oc_id x = oc_id c then x\<lparr>oc_used := Some n\<rparr> else x) (rv_challenges st)"
  shows "spent (oc_id c) st'"
proof -
  have "oc_id c \<in> set [0..<length (rv_challenges st)]"
    using assms(1,2) by (metis ids_ok_def image_eqI list.set_map)
  then show ?thesis using assms(3) by (auto simp: spent_def list_all_iff)
qed

lemma spent_not_found:
  assumes "spent i st" and "cp_challenge pl = Some i"
  shows "find_challenge e pl st = None"
  using assms by (auto simp: find_challenge_def spent_def list_all_iff find_None_iff)

text \<open>
  C11. A code works once. After a successful verification, the same challenge token is refused for good:
  whatever unlock and verify requests follow, in any environment that reads the token the same way, and
  with whatever code, address and device, no second API key is issued for it. The token carries a
  challenge id or a jti, as every token signed here does.
\<close>

theorem recovery_code_single_use:
  assumes "ids_ok st" and "verifyRecoveryOtp e token code fp trust st = (Inr r, st')"
    and "re_verify_token e token = Some pl" and "cp_challenge pl \<noteq> None \<or> truthy (cp_jti pl)"
    and "re_verify_token e' token = Some pl"
  shows "\<exists>err. fst (verifyRecoveryOtp e' token code' fp' trust' (recovery_run ops st')) = Inl err"
  using assms(2)
proof (rule verify_Inr, goal_cases)
  case (1 pl' c n)
  then have pl: "pl' = pl" using assms(3) by simp
  note found = find_challengeD [OF 1(3)] and acc = accept_Inr [OF 1(8)]
  let ?st = "recovery_run ops st'"
  have refused: "\<nexists>b. fst (verifyRecoveryOtp e' token code' fp' trust' ?st) = Inr b"
  proof
    assume "\<exists>b. fst (verifyRecoveryOtp e' token code' fp' trust' ?st) = Inr b"
    then obtain b st2 where again: "verifyRecoveryOtp e' token code' fp' trust' ?st = (Inr b, st2)" by (metis prod.collapse)
    from again show False
    proof (rule verify_Inr, goal_cases)
      case (1 pl2 c2 n2)
      then have pl2: "pl2 = pl" using assms(5) by simp
      show False
      proof (cases "cp_challenge pl")
        case None
        then have "the (cp_jti pl) \<in> set (rv_revoked st')" "truthy (cp_jti pl)" using assms(4) acc(3) pl by auto
        then have "the (cp_jti pl) \<in> set (rv_revoked ?st)" using rv_later_run [of st' ops] by (auto simp: rv_later_def)
        then show False using 1(4) pl2 \<open>truthy (cp_jti pl)\<close> by simp
      next
        case (Some i)
        have "oc_id c = i" using found(5) Some pl by simp
        then have "spent i st'" using spent_marked [OF assms(1) found(1)] acc(2) by simp
        moreover have "ids_ok st'"
          using assms(1,2) rv_later_verify [of st e token code fp trust] by (simp add: rv_later_def)
        ultimately have "spent i ?st" using rv_later_run [of st' ops] by (simp add: rv_later_def)
        then show False using spent_not_found [of i ?st pl e'] Some 1(3) pl2 by simp
      qed
    qed
  qed
  show ?case
    by (cases "fst (verifyRecoveryOtp e' token code' fp' trust' ?st)") (use refused in auto)
qed

text \<open>Whatever is refused while the challenge is not locked leaves the challenges alone.\<close>

lemma unlocked_refusal:
  assumes "check_otp e pl key c False code fp trust st = (Inl err, st')"
  shows "err \<noteq> Lockout \<and> rv_challenges st' = rv_challenges st"
proof (cases "six_digits code")
  case False
  then show ?thesis
    using assms by (auto simp: check_otp_def reject_otp_def lock_challenge_def recordRecoveryOtpAttempt_def split: if_splits)
next
  case True
  then show ?thesis
    using assms
    by (auto simp: check_otp_def Let_def reject_otp_def accept_otp_def lock_challenge_def recordRecoveryOtpAttempt_def
        markRecoveryChallengeUsed_def split: if_splits option.splits bool.splits)
qed

lemma never_locked_below_user_limit:
  assumes "checkRecoveryRateLimit now rows key (Some uid) ip pre = Allowed n" and "uid \<noteq> []"
    and "\<And>r. r \<in> set rows \<Longrightarrow> ra_identifier r = key \<Longrightarrow> ra_user r = uid"
  shows "\<not> int RECOVERY_OTP_MAX_ATTEMPTS \<le> getRecoveryChallengeAttemptCount n"
proof -
  have "count_attempts pre (now - window_ms identifier_limit) (\<lambda>r. ra_identifier r = key) rows
      \<le> count_attempts pre (now - window_ms user_limit) (\<lambda>r. ra_user r = uid) rows"
    by (rule count_attempts_mono) (auto simp: assms(3) identifier_limit_def user_limit_def)
  with allowed_below_user_limit [OF assms(1,2)] show ?thesis
    by (simp add: getRecoveryChallengeAttemptCount_def RECOVERY_OTP_MAX_ATTEMPTS_def identifier_limit_def user_limit_def)
qed

text \<open>
  The five-attempt lockout of a code never fires. A challenge is to be locked when its own attempt
  count reaches \<open>RECOVERY_OTP_MAX_ATTEMPTS\<close> (five), yet the user limit admits three attempts a day. So, as
  long as the attempts recorded under a token's key are those of the token's user, every code that the
  rate limiter lets through and that is refused (malformed, wrong, not verifiable) leaves all challenges as
  they were and is never answered with the lockout error.
\<close>

theorem otp_lockout_unreachable:
  assumes "re_verify_token e token = Some pl"
    and "\<And>r. r \<in> set (rv_attempts st) \<Longrightarrow> ra_identifier r = getRecoveryOtpAttemptKey e token \<Longrightarrow> ra_user r = cp_user pl"
    and "checkRecoveryRateLimit (re_now e) (rv_attempts st) (getRecoveryOtpAttemptKey e token) (Some (cp_user pl))
           (Some (fp_or_unknown fp)) (Some RECOVERY_OTP_ATTEMPT_PREFIX) = Allowed n"
    and "verifyRecoveryOtp e token code fp trust st = (Inl err, st')"
  shows "err \<noteq> Lockout \<and> rv_challenges st' = rv_challenges st"
proof (cases "cp_user pl = [] \<or> truthy (cp_jti pl) \<and> the (cp_jti pl) \<in> set (rv_revoked st)")
  case True
  then show ?thesis using assms(1,4) by (auto simp: verifyRecoveryOtp_def split: if_splits)
next
  case False
  then have "\<not> int RECOVERY_OTP_MAX_ATTEMPTS \<le> getRecoveryChallengeAttemptCount n"
    using never_locked_below_user_limit [OF assms(3)] assms(2) by blast
  then show ?thesis
    using assms(1,3,4) False unlocked_refusal [of e pl "getRecoveryOtpAttemptKey e token" _ code fp trust st err st']
    by (auto simp: verifyRecoveryOtp_def Let_def split: if_splits option.splits)
qed

text \<open>
  Where the first step sends its code. When \<open>unlockApp\<close> succeeds, the identifier named a user with a
  stored passcode hash, the passcode matched it and the limits for the identifier, the address and the
  user were not exhausted; exactly one challenge was added, for that user, unused and expiring in ten
  minutes; and the code behind it went out on one channel, to an address taken from that user's record,
  never from the request.
\<close>

theorem unlock_sends_to_registered_address:
  assumes "unlockApp e ident passcode fp st = (Inr token, st')"
  shows "\<exists>P u channel dest. recovery_where ident = Some P \<and> find P (rv_users st) = Some u
    \<and> truthy (re_passcode_hash e (u_id u)) \<and> re_compare e passcode (the (re_passcode_hash e (u_id u))) = Some True
    \<and> (\<exists>n. checkRecoveryRateLimit (re_now e) (rv_attempts st) ident (Some (u_id u)) (fp_ip fp) None = Allowed n)
    \<and> rv_challenges st' = rv_challenges st @
        [\<lparr>oc_id = length (rv_challenges st), oc_user = u_id u, oc_hash = re_hash e (re_code e),
          oc_expires = re_now e + 600000, oc_used = None\<rparr>]
    \<and> token = re_sign_token e (u_id u) (length (rv_challenges st))
    \<and> dest \<noteq> [] \<and> (channel = ''email'' \<and> email u = Some dest \<or> channel = ''sms'' \<and> phone_e164 u = Some dest)
    \<and> filter (\<lambda>x. case x of OtpSent _ _ _ \<Rightarrow> True | _ \<Rightarrow> False) (rv_log st') =
        filter (\<lambda>x. case x of OtpSent _ _ _ \<Rightarrow> True | _ \<Rightarrow> False) (rv_log st) @ [OtpSent channel dest (re_code e)]"
proof (cases rule: unlock_cases [of e ident passcode fp st])
  case (idle rows)
  then show ?thesis using assms idle(3) [of token] by simp
next
  case (compared P u n row)
  then have ok: "re_compare e passcode (the (re_passcode_hash e (u_id u))) = Some True" using assms by force
  note run = compared(8) [OF ok]
  show ?thesis
    using assms compared(1-4) ok
    by (intro exI [of _ P] exI [of _ u] exI [of _ "if is_email ident then ''email'' else ''sms''"]
        exI [of _ "the (if is_email ident then email u else phone_e164 u)"])
      (auto simp: run issue_challenge_def Let_def truthy_def split: if_splits option.splits)
qed
section \<open>The properties at concrete inputs\<close>

definition alice :: user where
  "alice = \<lparr>u_id = ''u1'', username = None, phone_e164 = None, email = Some ''a@b.co'', hide_from_search = False,
     stellar_address = None, wallet_version = 0, kyc_status = ''none'', encrypted_secret = None, key_hint = None\<rparr>"

definition recovery_start :: recovery_state where
  "recovery_start = \<lparr>rv_users = [alice], rv_attempts = [], rv_challenges = [], rv_revoked = [], rv_log = []\<rparr>"

text \<open>A world where the code sent is 123456, hashes are the text itself and a token is its challenge number.\<close>

definition recovery_world :: "int \<Rightarrow> recovery_env" where
  "recovery_world now = \<lparr>re_now = now, re_passcode_hash = (\<lambda>u. Some ''pass''), re_compare = (\<lambda>a b. Some (a = b)),
     re_hash = (\<lambda>c. c), re_code = ''123456'', re_publish_ok = True, re_device_limited = False,
     re_verify_token = (\<lambda>t. Some \<lparr>cp_user = ''u1'', cp_challenge = Some (length t), cp_jti = Some t\<rparr>),
     re_sign_token = (\<lambda>u i. replicate i (CHR ''x'')), re_sha = (\<lambda>t. t), re_lookup_fails = False,
     re_rate_fails = False, re_record_fails = False, re_mark_fails = False, re_api_key = ''key'',
     re_device_trusted = False\<rparr>"

definition unlocked :: recovery_state where
  "unlocked = recovery_exec (Unlock (recovery_world 1000) ''A@b.co'' ''pass'' \<lparr>fp_ip = None\<rparr>) recovery_start"

definition wrong_guess :: recovery_op where
  "wrong_guess = Verify (recovery_world 2000) [] ''000000'' None False"

lemmas recovery_eval = unlocked_def wrong_guess_def recovery_start_def recovery_world_def alice_def

theorem otp_guesses_bounded_witness:
  "list_all (otp_admissible 2000) (replicate 5 wrong_guess)
   \<and> log_count (Compared ''u1'') (recovery_run (replicate 5 wrong_guess) unlocked) = 3
   \<and> log_count (Compared ''u1'') (recovery_run (replicate 5 wrong_guess) unlocked)
       \<le> log_count (Compared ''u1'') unlocked + 3"
proof -
  have adm: "list_all (otp_admissible 2000) (replicate 5 wrong_guess)" by code_simp
  have three: "log_count (Compared ''u1'') (recovery_run (replicate 5 wrong_guess) unlocked) = 3" by code_simp
  show ?thesis using adm three otp_guesses_bounded [OF adm, of "''u1''" unlocked] by simp
qed

definition wrong_passcode :: recovery_op where
  "wrong_passcode = Unlock (recovery_world 1000) ''A@b.co'' ''guess'' \<lparr>fp_ip = None\<rparr>"

theorem passcode_guesses_bounded_witness:
  "list_all (passcode_admissible 1000) (replicate 4 wrong_passcode)
   \<and> log_count (PasscodeCompared ''u1'') (recovery_run (replicate 4 wrong_passcode) recovery_start) = 3
   \<and> log_count (PasscodeCompared ''u1'') (recovery_run (replicate 4 wrong_passcode) recovery_start)
       \<le> log_count (PasscodeCompared ''u1'') recovery_start + 3"
proof -
  have adm: "list_all (passcode_admissible 1000) (replicate 4 wrong_passcode)"
    by (simp add: list_all_iff passcode_admissible_def wrong_passcode_def recovery_world_def user_limit_def)
  have three: "log_count (PasscodeCompared ''u1'') (recovery_run (replicate 4 wrong_passcode) recovery_start) = 3"
    by code_simp
  show ?thesis using adm three passcode_guesses_bounded [OF _ adm, of "''u1''" recovery_start] by simp
qed

definition recovered :: "(recovery_error + (string \<times> string)) \<times> recovery_state" where
  "recovered = verifyRecoveryOtp (recovery_world 2000) [] ''123456'' None False unlocked"

lemma recovered_eq: "recovered = (Inr (''key'', ''u1''), snd recovered)"
  by code_simp

theorem recovery_needs_right_code_witness:
  "\<exists>pl c. re_verify_token (recovery_world 2000) [] = Some pl \<and> ''u1'' = cp_user pl \<and> c \<in> set (rv_challenges unlocked)
     \<and> oc_hash c = ''123456'' \<and> SessionsRotated ''u1'' \<in> set (rv_log (snd recovered))"
proof -
  from recovery_needs_right_code [OF recovered_eq [unfolded recovered_def]]
  show ?thesis by (fold recovered_def) (auto simp: recovery_world_def)
qed

theorem recovery_code_single_use_witness:
  "ids_ok unlocked \<and> fst recovered = Inr (''key'', ''u1'')
   \<and> (\<exists>err. fst (verifyRecoveryOtp (recovery_world 3000) [] ''123456'' None True
        (recovery_run [Unlock (recovery_world 2500) ''a@b.co'' ''pass'' \<lparr>fp_ip = None\<rparr>] (snd recovered))) = Inl err)"
proof -
  have ids: "ids_ok unlocked" by code_simp
  have first: "fst recovered = Inr (''key'', ''u1'')" by code_simp
  have "\<exists>err. fst (verifyRecoveryOtp (recovery_world 3000) [] ''123456'' None True
        (recovery_run [Unlock (recovery_world 2500) ''a@b.co'' ''pass'' \<lparr>fp_ip = None\<rparr>] (snd recovered))) = Inl err"
    by (rule recovery_code_single_use [OF ids recovered_eq [unfolded recovered_def], folded recovered_def])
      (simp_all add: recovery_world_def)
  with ids first show ?thesis by simp
qed

theorem otp_lockout_unreachable_witness:
  "fst (verifyRecoveryOtp (recovery_world 2000) [] ''000000'' None False (recovery_run [wrong_guess, wrong_guess] unlocked))
     = Inl InvalidCode
   \<and> rv_challenges (snd (verifyRecoveryOtp (recovery_world 2000) [] ''000000'' None False
       (recovery_run [wrong_guess, wrong_guess] unlocked)))
     = rv_challenges (recovery_run [wrong_guess, wrong_guess] unlocked)"
proof -
  define s where "s = recovery_run [wrong_guess, wrong_guess] unlocked"
  define r where "r = verifyRecoveryOtp (recovery_world 2000) [] ''000000'' None False s"
  have fst_r: "fst r = Inl InvalidCode" unfolding r_def s_def by code_simp
  have mine: "list_all (\<lambda>x. ra_user x = ''u1'') (rv_attempts s)" unfolding s_def by code_simp
  have open_limit: "checkRecoveryRateLimit 2000 (rv_attempts s) (getRecoveryOtpAttemptKey (recovery_world 2000) []) (Some ''u1'')
      (Some (fp_or_unknown None)) (Some RECOVERY_OTP_ATTEMPT_PREFIX) = Allowed 3" unfolding s_def by code_simp
  have "InvalidCode \<noteq> Lockout \<and> rv_challenges (snd r) = rv_challenges s"
    by (rule otp_lockout_unreachable [of "recovery_world 2000" "[]"
          "\<lparr>cp_user = ''u1'', cp_challenge = Some 0, cp_jti = Some []\<rparr>" s None 3 "''000000''" False])
      (use mine open_limit fst_r in \<open>auto simp: recovery_world_def list_all_iff r_def intro: prod_eqI\<close>)
  with fst_r show ?thesis by (simp add: r_def s_def)
qed

theorem unlock_sends_to_registered_address_witness:
  "\<exists>P u channel dest. recovery_where ''A@b.co'' = Some P \<and> find P (rv_users recovery_start) = Some u
     \<and> re_compare (recovery_world 1000) ''pass'' (the (re_passcode_hash (recovery_world 1000) (u_id u))) = Some True
     \<and> (channel = ''email'' \<and> email u = Some dest \<or> channel = ''sms'' \<and> phone_e164 u = Some dest)"
proof -
  have "unlockApp (recovery_world 1000) ''A@b.co'' ''pass'' \<lparr>fp_ip = None\<rparr> recovery_start = (Inr [], unlocked)"
    by code_simp
  from unlock_sends_to_registered_address [OF this] show ?thesis by blast
qed

end
