(* ===== verification/Basket.thy ===== *)
theory Basket
  imports JsStr TxStore "HOL-Library.Multiset"
begin

text \<open>
  The basket of currencies: \<open>src/config/basket.ts\<close> (default weights, exact rounding of weights),
  \<open>src/services/basket/basketService.ts\<close> (the basket in force, from the table \<open>basket_config\<close>) and
  \<open>src/services/metrics/metricsService.ts\<close> (proposed weights from GDP, trade and liquidity). The World
  Bank client is a parameter. Maps keep their insertion order, as lists of pairs.
\<close>

section \<open>Decimal columns\<close>

text \<open>A column \<open>Decimal(p, s)\<close>: rounded half away from zero, \<open>None\<close> when the value does not fit.\<close>

definition decimal_column :: "nat \<Rightarrow> nat \<Rightarrow> rat \<Rightarrow> rat option" where
  "decimal_column p s x =
     (let a = of_int \<lfloor>\<bar>x\<bar> * 10 ^ s + 1 / 2\<rfloor> / 10 ^ s; v = (if x < 0 then - a else a) in
      if \<bar>v\<bar> < 10 ^ (p - s) then Some v else None)"

section \<open>Default basket\<close>

definition js_sum :: "rat list \<Rightarrow> rat" where
  "js_sum xs = foldl (\<lambda>s w. f64 (s + w)) 0 xs"

definition DEFAULT_WEIGHTS :: "(string \<times> rat) list" where
  "DEFAULT_WEIGHTS =
     [(''NGN'', 18), (''ZAR'', 15), (''KES'', 12), (''EGP'', 11), (''GHS'', 9),
      (''RWF'', 8), (''XOF'', 8), (''MAD'', 7), (''TZS'', 6), (''UGX'', 6)]"

definition BASKET_WEIGHTS_SUM :: rat where
  "BASKET_WEIGHTS_SUM = js_sum (map snd DEFAULT_WEIGHTS)"

definition BASKET_WEIGHT_BASIS_POINTS :: int where
  "BASKET_WEIGHT_BASIS_POINTS = 10000"

section \<open>Rounding to basis points\<close>

datatype basket_error = WeightsSum | InvalidWeight string | CannotAllocate int | InvalidActive int

record weight_entry =
  we_currency :: string
  we_scaled :: rat
  we_floored :: int
  we_remainder :: rat

definition weight_entry :: "string \<times> rat \<Rightarrow> weight_entry" where
  "weight_entry cw =
     (let scaled = f64 (snd cw * 100); fl = \<lfloor>scaled\<rfloor> in
      \<lparr>we_currency = fst cw, we_scaled = scaled, we_floored = fl, we_remainder = f64 (scaled - of_int fl)\<rparr>)"

definition bump :: "weight_entry \<Rightarrow> weight_entry" where
  "bump en = en\<lparr>we_floored := we_floored en + 1\<rparr>"

text \<open>The entries with their basis points, before they are turned back into percents.\<close>

definition allocate_basis_points :: "(string \<times> rat) list \<Rightarrow> basket_error + (string \<times> int) list" where
  "allocate_basis_points weights =
     (if f64 (1 / 100000000) < \<bar>f64 (js_sum (map snd weights) - BASKET_WEIGHTS_SUM)\<bar> then Inl WeightsSum
      else (case find (\<lambda>(c, w). w < 0 \<or> 100 < w) weights of
          Some (c, w) \<Rightarrow> Inl (InvalidWeight c)
        | None \<Rightarrow>
            let entries = map weight_entry weights;
                baseSum = sum_list (map we_floored entries);
                missing = BASKET_WEIGHT_BASIS_POINTS - baseSum in
            if missing < 0 \<or> int (length entries) < missing then Inl (CannotAllocate baseSum)
            else
              let sorted = sort_key (\<lambda>en. - we_remainder en) entries; k = nat missing in
              Inr (map (\<lambda>en. (we_currency en, we_floored en)) (map bump (take k sorted) @ drop k sorted))))"

text \<open>\<open>Number((bps / 100).toFixed(2))\<close> is the double nearest to \<open>bps / 100\<close>.\<close>

definition percent_of_bps :: "int \<Rightarrow> rat" where
  "percent_of_bps k = f64 (of_int k / 100)"

definition roundWeightsToExactBasisPoints :: "(string \<times> rat) list \<Rightarrow> basket_error + (string \<times> rat) list" where
  "roundWeightsToExactBasisPoints weights =
     (case allocate_basis_points weights of
        Inl err \<Rightarrow> Inl err
      | Inr ks \<Rightarrow> Inr (map (\<lambda>(c, k). (c, percent_of_bps k)) ks))"

section \<open>The basket in force\<close>

datatype basket_status = ProposedBasket | ApprovedBasket | ActiveBasket

record basket_row =
  br_from :: int
  br_currency :: string
  br_weight :: rat
  br_status :: basket_status

text \<open>The active rows with the latest date, checked to sum to 100 percent, and their weights.\<close>

definition active_basket :: "basket_row list \<Rightarrow> basket_error + (string \<times> rat) list" where
  "active_basket rows =
     (let latest = Max (set (map br_from rows));
          cur = filter (\<lambda>r. br_from r = latest) rows;
          sumBps = js_round (f64 (js_sum (map (\<lambda>r. f64 (br_weight r)) cur) * 100)) in
      if sumBps \<noteq> BASKET_WEIGHT_BASIS_POINTS then Inl (InvalidActive sumBps)
      else Inr (map (\<lambda>r. (br_currency r, f64 (of_int (js_round (f64 (f64 (br_weight r) * 100))) / 100))) cur))"

definition getCurrentBasket :: "basket_row list \<Rightarrow> basket_error + (string \<times> rat) list" where
  "getCurrentBasket table =
     (let rows = filter (\<lambda>r. br_status r = ActiveBasket) table in
      if rows = [] then Inr DEFAULT_WEIGHTS else active_basket rows)"

definition getBasketAsOf :: "int \<Rightarrow> basket_row list \<Rightarrow> basket_error + (string \<times> rat) list" where
  "getBasketAsOf date table =
     (let rows = filter (\<lambda>r. br_status r = ActiveBasket \<and> br_from r \<le> date) table in
      if rows = [] then Inr [] else active_basket rows)"

definition getTargetWeight :: "string \<Rightarrow> basket_row list \<Rightarrow> basket_error + rat" where
  "getTargetWeight currency table =
     bindR (getCurrentBasket table) (\<lambda>b. Inr (case map_of b currency of Some w \<Rightarrow> w | None \<Rightarrow> 0))"

definition getCurrencies :: "basket_row list \<Rightarrow> basket_error + string list" where
  "getCurrencies table = bindR (getCurrentBasket table) (\<lambda>b. Inr (map fst b))"

section \<open>Proposed weights\<close>

definition GDP_WEIGHT :: rat where "GDP_WEIGHT = f64 (4 / 10)"
definition TRADE_WEIGHT :: rat where "TRADE_WEIGHT = f64 (3 / 10)"
definition LIQUIDITY_WEIGHT :: rat where "LIQUIDITY_WEIGHT = f64 (3 / 10)"

definition normalizeToScores :: "(string \<times> rat) list \<Rightarrow> (string \<times> rat) list" where
  "normalizeToScores values =
     (let total = js_sum (map snd values) in
      if total \<le> 0 then values else map (\<lambda>(k, v). (k, f64 (f64 (v / total) * 100))) values)"

definition score_of :: "(string \<times> rat) list \<Rightarrow> string \<Rightarrow> rat" where
  "score_of scores c = (case map_of scores c of Some v \<Rightarrow> v | None \<Rightarrow> 0)"

definition burn_volume :: "txn \<Rightarrow> rat" where
  "burn_volume r = (case acbu_burned r of Some a \<Rightarrow> f64 a
     | None \<Rightarrow> (case local_amount r of Some a \<Rightarrow> f64 a | None \<Rightarrow> 0))"

text \<open>Completed burns since a moment, at most 50000, added up per basket currency.\<close>

definition getTradeVolumeByCurrency :: "int \<Rightarrow> txdb \<Rightarrow> (string \<times> rat) list" where
  "getTradeVolumeByCurrency since db =
     (let burns = take 50000 (filter (\<lambda>r. tx_type r = TBurn \<and> tx_status r = Completed
                     \<and> local_currency r \<noteq> None \<and> since \<le> created_at r) (tx_rows db)) in
      map (\<lambda>(c, _). (c, js_sum (map burn_volume (filter (\<lambda>r. local_currency r = Some c) burns)))) DEFAULT_WEIGHTS)"

record metrics_env =
  me_gdp :: "string \<Rightarrow> rat option"
  me_since :: int
  me_now :: int

definition proposed_raw :: "metrics_env \<Rightarrow> txdb \<Rightarrow> string list \<Rightarrow> (string \<times> rat) list" where
  "proposed_raw e db currencies =
     (let gdpRaw = concat (map (\<lambda>c. case me_gdp e c of Some g \<Rightarrow> if 0 < g then [(c, g)] else [] | None \<Rightarrow> []) currencies);
          tradeVol = getTradeVolumeByCurrency (me_since e) db;
          tradeRaw = tradeVol @ map (\<lambda>c. (c, 0)) (filter (\<lambda>c. c \<notin> fst ` set tradeVol) currencies);
          gdpScores = normalizeToScores gdpRaw;
          tradeScores = normalizeToScores tradeRaw;
          liquidityScores = normalizeToScores (map (\<lambda>c. (c, 1)) currencies) in
      map (\<lambda>c. (c, f64 (f64 (f64 (GDP_WEIGHT * score_of gdpScores c) + f64 (TRADE_WEIGHT * score_of tradeScores c))
                   + f64 (LIQUIDITY_WEIGHT * score_of liquidityScores c)))) currencies)"

definition proposed_rows :: "int \<Rightarrow> (string \<times> rat) list \<Rightarrow> basket_row list" where
  "proposed_rows now ws =
     map (\<lambda>(c, w). \<lparr>br_from = now, br_currency = c, br_weight = the (decimal_column 5 2 w), br_status = ProposedBasket\<rparr>) ws"

text \<open>Weights are at most 100 percent, so they fit the column.\<close>

definition ingestMetricsAndProposeWeights ::
  "metrics_env \<Rightarrow> txdb \<Rightarrow> basket_row list \<Rightarrow> (basket_error + unit) \<times> basket_row list" where
  "ingestMetricsAndProposeWeights e db table =
     (case getCurrencies table of
        Inl err \<Rightarrow> (Inl err, table)
      | Inr cs \<Rightarrow>
          let currencies = (if cs = [] then map fst DEFAULT_WEIGHTS else cs) in
          (case roundWeightsToExactBasisPoints (normalizeToScores (proposed_raw e db currencies)) of
             Inl err \<Rightarrow> (Inl err, table)
           | Inr ws \<Rightarrow> (Inr (), table @ proposed_rows (me_now e) ws)))"

section \<open>Rounding errors\<close>

text \<open>A double is next to every number: the error is at most the spacing of a binary grid that fits 53 bits.\<close>

lemma f64_grid:
  assumes "0 \<le> x" and "x * 2 ^ m < 2 ^ 53 - 1"
  shows "\<bar>f64 x - x\<bar> \<le> 1 / 2 ^ m"
proof -
  let ?k = "\<lfloor>x * 2 ^ m\<rfloor>"
  have k: "0 \<le> ?k" "of_int ?k \<le> x * 2 ^ m" "x * 2 ^ m < of_int ?k + 1" using assms(1) by (simp_all add: floor_less_cancel)
  have "(of_int ?k :: rat) < 2 ^ 53 - 1" using k(2) assms(2) by linarith
  then have lt: "?k < 2 ^ 53 - 1" by (simp only: of_int_less_iff [symmetric, where 'a = rat]) simp
  have exact: "f64 (of_int j / 2 ^ m) = of_int j / 2 ^ m" if "j = ?k \<or> j = ?k + 1" for j
    using sig_round_fixed_point [of 2 53 j HalfEven m] that lt k(1) unfolding f64_def by auto
  have x: "of_int ?k / 2 ^ m \<le> x" "x \<le> of_int (?k + 1) / 2 ^ m" using k(2,3) by (simp_all add: field_simps)
  have "of_int ?k / 2 ^ m \<le> f64 x" using f64.rnd_mono [OF x(1)] exact [of ?k] by simp
  moreover have "f64 x \<le> of_int (?k + 1) / 2 ^ m" using f64.rnd_mono [OF x(2)] exact [of "?k + 1"] by simp
  moreover have "of_int (?k + 1) / 2 ^ m = of_int ?k / 2 ^ m + (1 / 2 ^ m :: rat)" by (simp add: add_divide_distrib)
  ultimately show ?thesis using x unfolding abs_le_iff by linarith
qed

lemma sum_foldl_error:
  assumes "\<forall>x \<in> set xs. 0 \<le> x" and "0 \<le> s" and "s + sum_list xs + of_nat (length xs) / 2 ^ 44 \<le> 400"
  shows "\<bar>foldl (\<lambda>s w. f64 (s + w)) s xs - (s + sum_list xs)\<bar> \<le> of_nat (length xs) / 2 ^ 44"
  using assms
proof (induction xs arbitrary: s)
  case (Cons x xs)
  have xs: "0 \<le> sum_list xs" using Cons.prems(1) by (intro sum_list_nonneg) simp
  have small: "s + x \<le> 400"
  proof -
    have "(0::rat) \<le> of_nat (length (x # xs)) / 2 ^ 44" by simp
    then show ?thesis using Cons.prems(3) xs unfolding sum_list.Cons by linarith
  qed
  have err: "\<bar>f64 (s + x) - (s + x)\<bar> \<le> 1 / 2 ^ 44"
    by (rule f64_grid) (use Cons.prems small in simp_all)
  have nn: "0 \<le> f64 (s + x)" using Cons.prems by (intro f64.rnd_ge_0) simp
  have len: "of_nat (length (x # xs)) / 2 ^ 44 = of_nat (length xs) / 2 ^ 44 + (1 / 2 ^ 44 :: rat)" by (simp add: add_divide_distrib)
  have "f64 (s + x) + sum_list xs + of_nat (length xs) / 2 ^ 44 \<le> 400"
    using err Cons.prems(3) len unfolding sum_list.Cons abs_le_iff by linarith
  with Cons.IH [of "f64 (s + x)"] nn Cons.prems(1)
  have "\<bar>foldl (\<lambda>s w. f64 (s + w)) (f64 (s + x)) xs - (f64 (s + x) + sum_list xs)\<bar> \<le> of_nat (length xs) / 2 ^ 44" by simp
  then show ?case using err len unfolding sum_list.Cons foldl.simps abs_le_iff by linarith
qed simp

lemma js_sum_error:
  assumes "\<forall>x \<in> set xs. 0 \<le> x" and "sum_list xs + of_nat (length xs) / 2 ^ 44 \<le> 400"
  shows "\<bar>js_sum xs - sum_list xs\<bar> \<le> of_nat (length xs) / 2 ^ 44"
  using sum_foldl_error [OF assms(1), of 0] assms(2) by (simp add: js_sum_def)

lemma js_round_near: "\<bar>q - of_int k\<bar> < 1 / 2 \<Longrightarrow> js_round q = k"
  unfolding js_round_def floor_eq_iff abs_less_iff by linarith

section \<open>Basis points\<close>

lemma allocation_exact:
  assumes "allocate_basis_points ws = Inr ks"
  shows "sum_list (map snd ks) = 10000 \<and> mset (map fst ks) = mset (map fst ws)
     \<and> (\<forall>(c, k) \<in> set ks. \<exists>w. (c, w) \<in> set ws \<and> 0 \<le> w \<and> w \<le> 100
          \<and> \<lfloor>f64 (w * 100)\<rfloor> \<le> k \<and> k \<le> \<lfloor>f64 (w * 100)\<rfloor> + 1)"
proof -
  define es where "es = map weight_entry ws"
  define missing where "missing = BASKET_WEIGHT_BASIS_POINTS - sum_list (map we_floored es)"
  define ordered where "ordered = sort_key (\<lambda>en. - we_remainder en) es"
  from assms have ok: "find (\<lambda>(c, w). w < 0 \<or> 100 < w) ws = None" "0 \<le> missing" "missing \<le> int (length es)"
    and ks: "ks = map (\<lambda>en. (we_currency en, we_floored en)) (map bump (take (nat missing) ordered) @ drop (nat missing) ordered)"
    by (auto simp: allocate_basis_points_def Let_def es_def missing_def ordered_def split: if_splits option.splits)
  have ms: "mset ordered = mset es" by (simp add: ordered_def)
  have len: "length ordered = length es" using ms by (metis size_mset)
  have cut: "take (nat missing) ordered @ drop (nat missing) ordered = ordered" by simp
  have n: "length (take (nat missing) ordered) = nat missing" using ok len by simp
  have b: "sum_list (map (we_floored \<circ> bump) xs) = sum_list (map we_floored xs) + int (length xs)" for xs
    by (induction xs) (simp_all add: bump_def)
  have "sum_list (map snd ks) = sum_list (map we_floored (take (nat missing) ordered)) + missing + sum_list (map we_floored (drop (nat missing) ordered))"
    using n ok(2) by (simp add: ks comp_def b [unfolded comp_def])
  also have "\<dots> = sum_list (map we_floored ordered) + missing" by (metis cut map_append sum_list_append add.commute add.left_commute)
  also have "sum_list (map we_floored ordered) = sum_list (map we_floored es)" by (metis ms mset_map sum_mset_sum_list)
  finally have total: "sum_list (map snd ks) = 10000" by (simp add: missing_def BASKET_WEIGHT_BASIS_POINTS_def)
  have "map fst ks = map we_currency ordered"
    by (simp add: ks comp_def bump_def) (metis cut map_append)
  then have "mset (map fst ks) = mset (map we_currency es)" by (metis ms mset_map)
  moreover have "map we_currency es = map fst ws" by (simp add: es_def weight_entry_def Let_def)
  ultimately have currencies: "mset (map fst ks) = mset (map fst ws)" by simp
  have "\<exists>w. (c, w) \<in> set ws \<and> 0 \<le> w \<and> w \<le> 100 \<and> \<lfloor>f64 (w * 100)\<rfloor> \<le> k \<and> k \<le> \<lfloor>f64 (w * 100)\<rfloor> + 1"
    if "(c, k) \<in> set ks" for c k
  proof -
    from that obtain en where "en \<in> set ordered" "c = we_currency en" "k = we_floored en \<or> k = we_floored en + 1"
      by (auto simp: ks bump_def dest: in_set_takeD in_set_dropD)
    moreover have "set ordered = set es" by (simp add: ordered_def)
    ultimately obtain w where w: "(c, w) \<in> set ws" "k = \<lfloor>f64 (w * 100)\<rfloor> \<or> k = \<lfloor>f64 (w * 100)\<rfloor> + 1"
      by (auto simp: es_def weight_entry_def Let_def)
    moreover have "0 \<le> w \<and> w \<le> 100" using ok(1) w(1) by (fastforce simp: find_None_iff)
    ultimately show ?thesis by (intro exI [of _ w]) auto
  qed
  with total currencies show ?thesis by blast
qed

text \<open>
  The rounding is exact: the weights it hands out are whole basis points that add up to one hundred percent,
  one for every currency, each the weight asked for rounded down, or one basis point more.
\<close>

theorem basis_points_exact:
  assumes "allocate_basis_points ws = Inr ks"
  shows "sum_list (map snd ks) = 10000 \<and> mset (map fst ks) = mset (map fst ws)
     \<and> (\<forall>(c, k) \<in> set ks. \<exists>w. (c, w) \<in> set ws \<and> 0 \<le> w \<and> w \<le> 100
          \<and> \<lfloor>f64 (w * 100)\<rfloor> \<le> k \<and> k \<le> \<lfloor>f64 (w * 100)\<rfloor> + 1)"
  by (rule allocation_exact [OF assms])

section \<open>From a proposal to the basket in force\<close>

lemma f64_percent: "0 \<le> k \<Longrightarrow> k \<le> 20000 \<Longrightarrow> \<bar>percent_of_bps k - of_int k / 100\<bar> \<le> 1 / 2 ^ 44"
  unfolding percent_of_bps_def by (rule f64_grid) simp_all

lemma column_percent:
  assumes "0 \<le> k" and "k \<le> 20000"
  shows "decimal_column 5 2 (percent_of_bps k) = Some (of_int k / 100)"
proof -
  let ?x = "percent_of_bps k"
  have x: "0 \<le> ?x" unfolding percent_of_bps_def using assms(1) by (intro f64.rnd_ge_0) simp
  have "\<bar>?x * 100 - of_int k\<bar> < 1 / 2" using f64_percent [OF assms] unfolding abs_le_iff abs_less_iff by simp
  then have "\<lfloor>\<bar>?x\<bar> * 10 ^ 2 + 1 / 2\<rfloor> = k" using js_round_near [of "?x * 100" k] x by (simp add: js_round_def)
  then show ?thesis using assms x by (simp add: decimal_column_def Let_def)
qed

lemma percent_back:
  assumes "0 \<le> k" and "k \<le> 20000"
  shows "js_round (f64 (percent_of_bps k * 100)) = k"
proof -
  let ?x = "percent_of_bps k"
  have x: "0 \<le> ?x" unfolding percent_of_bps_def using assms(1) by (intro f64.rnd_ge_0) simp
  have near: "\<bar>?x * 100 - of_int k\<bar> \<le> 100 / 2 ^ 44" using f64_percent [OF assms] unfolding abs_le_iff by simp
  have k: "(of_int k :: rat) \<le> 20000" using assms(2) by simp
  have "?x * 100 \<le> 20001" using near k unfolding abs_le_iff by simp
  then have "\<bar>f64 (?x * 100) - ?x * 100\<bar> \<le> 1 / 2 ^ 30" by (intro f64_grid) (use x in simp_all)
  moreover have "(1 / 2 ^ 30 + 100 / 2 ^ 44 :: rat) < 1 / 2" by simp
  ultimately show ?thesis using near by (intro js_round_near, unfold abs_le_iff abs_less_iff) linarith
qed

text \<open>
  C24. What the metrics job proposes is usable as it is. Once the proposed rows are approved, whatever older
  baskets the table holds, the basket service accepts them, although it adds the weights up as doubles, and
  reads back exactly the weights the rounding handed out.
\<close>

theorem proposed_weights_accepted:
  assumes "roundWeightsToExactBasisPoints ws = Inr out" and "ws \<noteq> []" and "length ws \<le> 1000"
    and "\<forall>r \<in> set older. br_status r = ActiveBasket \<longrightarrow> br_from r < now"
  shows "getCurrentBasket (older @ map (\<lambda>r. r\<lparr>br_status := ActiveBasket\<rparr>) (proposed_rows now out)) = Inr out"
proof -
  from assms(1) obtain ks where ks: "allocate_basis_points ws = Inr ks" "out = map (\<lambda>(c, k). (c, percent_of_bps k)) ks"
    by (auto simp: roundWeightsToExactBasisPoints_def split: sum.splits)
  note exact = allocation_exact [OF ks(1)]
  have len: "length ks = length ws" using exact by (metis mset_eq_length length_map)
  have range: "0 \<le> k \<and> k \<le> 10001" if ck: "(c, k) \<in> set ks" for c k
  proof -
    from ck exact obtain w where w: "0 \<le> w" "w \<le> 100" "\<lfloor>f64 (w * 100)\<rfloor> \<le> k" "k \<le> \<lfloor>f64 (w * 100)\<rfloor> + 1" by blast
    have "0 \<le> f64 (w * 100)" using w(1) by (intro f64.rnd_ge_0) simp
    then have "0 \<le> \<lfloor>f64 (w * 100)\<rfloor>" by simp
    moreover have "f64 (w * 100) \<le> of_int 10000" using w(2) by (intro f64.rnd_le_int) simp_all
    then have "\<lfloor>f64 (w * 100)\<rfloor> \<le> 10000" by linarith
    ultimately show ?thesis using w(3,4) by linarith
  qed
  define row where "row = (\<lambda>(c, k :: int). \<lparr>br_from = now, br_currency = c, br_weight = of_int k / 100, br_status = ActiveBasket\<rparr>)"
  have rows: "map (\<lambda>r. r\<lparr>br_status := ActiveBasket\<rparr>) (proposed_rows now out) = map row ks"
  proof -
    have "the (decimal_column 5 2 (percent_of_bps k)) = of_int k / 100" if "(c, k) \<in> set ks" for c k
      using column_percent [of k] range [OF that] by simp
    then show ?thesis by (auto simp: proposed_rows_def ks(2) row_def)
  qed
  let ?act = "filter (\<lambda>r. br_status r = ActiveBasket) (older @ map row ks)"
  have row_act: "filter (\<lambda>r. br_status r = ActiveBasket) (map row ks) = map row ks"
    by (auto simp: row_def filter_id_conv)
  have "ks \<noteq> []" using assms(2) len by auto
  then have "now \<in> set (map br_from ?act)" by (cases ks) (auto simp: row_def)
  moreover have "\<forall>t \<in> set (map br_from ?act). t \<le> now" using assms(4) by (auto simp: row_def)
  ultimately have latest: "Max (set (map br_from ?act)) = now" by (intro Max_eqI) auto
  have cur: "filter (\<lambda>r. br_from r = now) ?act = map row ks"
  proof -
    have "filter (\<lambda>r. br_from r = now) (filter (\<lambda>r. br_status r = ActiveBasket) older) = []"
      using assms(4) by (auto simp: filter_empty_conv)
    moreover have "filter (\<lambda>r. br_from r = now) (map row ks) = map row ks" by (auto simp: row_def filter_id_conv)
    ultimately show ?thesis using row_act by simp
  qed
  define xs where "xs = map (\<lambda>r. f64 (br_weight r)) (map row ks)"
  have xs: "xs = map (\<lambda>(c, k). percent_of_bps k) ks" by (auto simp: xs_def row_def percent_of_bps_def)
  have nn: "\<forall>x \<in> set xs. 0 \<le> x" using range by (auto simp: xs percent_of_bps_def intro!: f64.rnd_ge_0)
  have "\<bar>(\<Sum>(c, k)\<leftarrow>ls. percent_of_bps k) - of_int (\<Sum>(c, k)\<leftarrow>ls. k) / 100\<bar> \<le> of_nat (length ls) / 2 ^ 44"
    if "set ls \<subseteq> set ks" for ls
    using that
  proof (induction ls)
    case (Cons p ls)
    obtain c k where p: "p = (c, k)" by (cases p)
    have one: "\<bar>percent_of_bps k - of_int k / 100\<bar> \<le> 1 / 2 ^ 44" using range [of c k] Cons.prems p by (intro f64_percent) auto
    have rest: "\<bar>(\<Sum>(c, k)\<leftarrow>ls. percent_of_bps k) - of_int (\<Sum>(c, k)\<leftarrow>ls. k) / 100\<bar> \<le> of_nat (length ls) / 2 ^ 44"
      using Cons by simp
    have len: "of_nat (length (p # ls)) / 2 ^ 44 = of_nat (length ls) / 2 ^ 44 + (1 / 2 ^ 44 :: rat)" by (simp add: add_divide_distrib)
    have step: "(\<Sum>(c, k)\<leftarrow>p # ls. percent_of_bps k) = percent_of_bps k + (\<Sum>(c, k)\<leftarrow>ls. percent_of_bps k)"
        "(of_int (\<Sum>(c, k)\<leftarrow>p # ls. k) / 100 :: rat) = of_int k / 100 + of_int (\<Sum>(c, k)\<leftarrow>ls. k) / 100"
      by (simp_all add: p add_divide_distrib)
    show ?case unfolding len step using one rest unfolding abs_le_iff by linarith
  qed simp
  from this [of ks] have near: "\<bar>sum_list xs - 100\<bar> \<le> of_nat (length ks) / 2 ^ 44"
    using exact by (simp add: xs split_def)
  have n: "(of_nat (length ks) :: rat) \<le> 1000" using assms(3) len by simp
  have n44: "of_nat (length ks) / 2 ^ 44 \<le> (1000 / 2 ^ 44 :: rat)" using n by (intro divide_right_mono) simp_all
  have lx: "length xs = length ks" by (simp add: xs)
  have js: "\<bar>js_sum xs - sum_list xs\<bar> \<le> of_nat (length ks) / 2 ^ 44"
  proof -
    have "(2000 / 2 ^ 44 :: rat) \<le> 300" by simp
    then have "sum_list xs + of_nat (length xs) / 2 ^ 44 \<le> 400" using near n44 unfolding lx abs_le_iff by linarith
    from js_sum_error [OF nn this] show ?thesis by (simp only: lx)
  qed
  have total: "\<bar>js_sum xs - 100\<bar> \<le> 2000 / 2 ^ 44" using js near n44 unfolding abs_le_iff by simp
  have "(2000 / 2 ^ 44 :: rat) \<le> 1" by simp
  with total have "99 \<le> js_sum xs" "js_sum xs \<le> 101" unfolding abs_le_iff by linarith+
  then have "\<bar>f64 (js_sum xs * 100) - js_sum xs * 100\<bar> \<le> 1 / 2 ^ 30" by (intro f64_grid) simp_all
  moreover have "(1 / 2 ^ 30 + 100 * (2000 / 2 ^ 44) :: rat) < 1 / 2" by simp
  ultimately have "\<bar>f64 (js_sum xs * 100) - of_int 10000\<bar> < 1 / 2" using total unfolding abs_le_iff abs_less_iff by simp
  then have sumBps: "js_round (f64 (js_sum xs * 100)) = 10000" by (rule js_round_near)
  have "?act \<noteq> []" using \<open>ks \<noteq> []\<close> row_act by (cases ks) (auto simp: row_def)
  have readback: "map (\<lambda>r. (br_currency r, f64 (of_int (js_round (f64 (f64 (br_weight r) * 100))) / 100))) (map row ks) = out"
  proof -
    have "js_round (f64 (f64 (of_int k / 100) * 100)) = k" if "(c, k) \<in> set ks" for c k
      using percent_back [of k] range [OF that] by (simp add: percent_of_bps_def)
    then show ?thesis by (auto simp: ks(2) row_def percent_of_bps_def)
  qed
  show ?thesis
    unfolding rows getCurrentBasket_def Let_def if_not_P [OF \<open>?act \<noteq> []\<close>] active_basket_def latest cur
    using sumBps readback by (simp add: xs_def BASKET_WEIGHT_BASIS_POINTS_def)
qed

section \<open>The properties at concrete inputs\<close>

definition sample_weights :: "(string \<times> rat) list" where
  "sample_weights = [(''NGN'', 50), (''KES'', 30), (''GHS'', 20)]"

lemma sample_allocation: "allocate_basis_points sample_weights = Inr [(''NGN'', 5000), (''KES'', 3000), (''GHS'', 2000)]"
proof -
  have v: "f64 50 = 50" "f64 80 = 80" "f64 100 = 100" "f64 5000 = 5000" "f64 3000 = 3000" "f64 2000 = 2000"
      "f64 18 = 18" "f64 33 = 33" "f64 45 = 45" "f64 56 = 56" "f64 65 = 65" "f64 73 = 73" "f64 81 = 81" "f64 88 = 88" "f64 94 = 94"
    using f64.rnd_numeral_le by simp_all
  have "0 \<le> f64 (1 / 100000000)" by (rule f64.rnd_ge_0) simp
  then show ?thesis
    by (simp add: allocate_basis_points_def sample_weights_def js_sum_def BASKET_WEIGHTS_SUM_def DEFAULT_WEIGHTS_def v weight_entry_def
        BASKET_WEIGHT_BASIS_POINTS_def Let_def)
qed

theorem basis_points_exact_witness:
  "allocate_basis_points sample_weights = Inr [(''NGN'', 5000), (''KES'', 3000), (''GHS'', 2000)]
   \<and> sum_list (map snd [(''NGN'', 5000), (''KES'', 3000), (''GHS'', 2000 :: int)]) = 10000"
  using basis_points_exact [OF sample_allocation] sample_allocation by simp

theorem proposed_weights_accepted_witness:
  "getCurrentBasket ([] @ map (\<lambda>r. r\<lparr>br_status := ActiveBasket\<rparr>)
     (proposed_rows 7 [(''NGN'', percent_of_bps 5000), (''KES'', percent_of_bps 3000), (''GHS'', percent_of_bps 2000)]))
   = Inr [(''NGN'', percent_of_bps 5000), (''KES'', percent_of_bps 3000), (''GHS'', percent_of_bps 2000)]"
proof -
  have r: "roundWeightsToExactBasisPoints sample_weights
      = Inr [(''NGN'', percent_of_bps 5000), (''KES'', percent_of_bps 3000), (''GHS'', percent_of_bps 2000)]"
    by (simp add: roundWeightsToExactBasisPoints_def sample_allocation)
  have "sample_weights \<noteq> []" "length sample_weights \<le> 1000" by (simp_all add: sample_weights_def)
  from proposed_weights_accepted [OF r this, of "[]" 7] show ?thesis by simp
qed

end
