(* ===== verification/Rates.thy ===== *)
theory Rates
  imports JsStr Recipient
begin

text \<open>
  \<open>src/services/rates/acbuRateCache.ts\<close> (the latest row of \<open>acbu_rates\<close> behind a ten-second cache),
  \<open>src/services/rates/currencyConverter.ts\<close> (local currency to ACBU and to US dollars) and the money
  helpers of \<open>src/utils/decimalUtils.ts\<close>. The converter computes with Prisma's \<open>Decimal\<close> (20 digits,
  half up), the helpers with the \<open>decimal.js\<close> context of their file (28 digits, rounding down).
\<close>

section \<open>Numbers\<close>

text \<open>\<open>new Decimal(n)\<close> of a JavaScript number reads the shortest digits that denote it.\<close>

definition dec_of_num :: "rat \<Rightarrow> rat" where
  "dec_of_num x =
     (if x = 0 then 0
      else let a = \<bar>x\<bar>; (k, n, s) = shortest_digits 16 1 (expo 10 a + 1) a;
               v = of_int s * 10 powi (n - int k)
           in if x < 0 then - v else v)"

text \<open>\<open>parseMonetaryString\<close>.\<close>

datatype money_error = MoneyFormat | MoneyNotPositive

definition parseMonetaryString :: "string \<Rightarrow> money_error + rat" where
  "parseMonetaryString value =
     (let trimmed = trim value in
      if trimmed = [] \<or> \<not> decimal_shape 7 trimmed then Inl MoneyFormat
      else if decimal_value trimmed \<le> 0 then Inl MoneyNotPositive
      else Inr (decimal_value trimmed))"

text \<open>The context of the first argument rounds the product, 20 or 28 digits; then down to an integer.\<close>

definition decimalToContractNumber :: "(rat \<Rightarrow> rat) \<Rightarrow> rat \<Rightarrow> rat" where
  "decimalToContractNumber rnd d = f64 (of_int (round_int Down (rnd (d * 10000000))))"

definition contractNumberToDecimal :: "rat \<Rightarrow> rat" where
  "contractNumberToDecimal n = money_dec (dec_of_num n / 10000000)"

definition calculateFee :: "(rat \<Rightarrow> rat) \<Rightarrow> rat \<Rightarrow> rat \<Rightarrow> rat" where
  "calculateFee rnd amount feeBps = rnd (rnd (amount * feeBps) / 10000)"

definition decimalToNumber :: "rat option \<Rightarrow> rat" where
  "decimalToNumber v = (case v of None \<Rightarrow> 0 | Some d \<Rightarrow> f64 d)"

datatype range_error = BelowMin | AboveMax

definition validateAmountRange :: "rat \<Rightarrow> rat \<Rightarrow> rat \<Rightarrow> range_error + unit" where
  "validateAmountRange amount mn mx =
     (if amount < mn then Inl BelowMin else if mx < amount then Inl AboveMax else Inr ())"

lemma mag_round_form:
  assumes b: "2 \<le> b" and p: "0 < p" and x: "0 < x"
  obtains k where "0 \<le> k" "k \<le> b ^ p" "mag_round m b p x = of_int k * of_int b powi (expo b x + 1 - int p)"
proof -
  let ?u = "ulp b p x"
  have u: "0 < ?u" by (rule ulp_pos [OF b])
  define k where "k = round_int m (x / ?u)"
  have form: "mag_round m b p x = of_int k * ?u" by (simp add: k_def)
  have "of_int k * ?u \<le> of_int (b ^ p) * ?u"
    unfolding ulp_power [OF b] k_def by (rule mag_round_upper [OF b x])
  then have le: "k \<le> b ^ p" using u by (simp add: mult_le_cancel_right)
  have "0 \<le> of_int k * ?u" unfolding k_def by (rule mag_round_nonneg [OF b p x])
  then have "0 \<le> k" using u by (simp add: zero_le_mult_iff)
  from that [OF this le] form show thesis by (simp add: ulp_def)
qed

lemma sig_round_idem:
  assumes b: "2 \<le> b" and p: "0 < p"
  shows "sig_round m b p (sig_round m b p x) = sig_round m b p x"
proof -
  have pos: "sig_round m b p (sig_round m b p y) = sig_round m b p y" if y: "0 < y" for y
  proof -
    obtain k where k: "0 \<le> k" "k \<le> b ^ p" "sig_round m b p y = of_int k * of_int b powi (expo b y + 1 - int p)"
      using mag_round_form [OF b p y, of m] by (metis sig_round_pos [OF y])
    have "sig_round m b p (of_int k) = of_int k"
    proof (cases "k = b ^ p")
      case True
      then have "(of_int k :: rat) = of_int 1 * of_int b powi int p" by simp
      then show ?thesis using sig_round_shift [OF b, of m p "of_int 1" "int p"] sig_round_int [OF b p, of 1 m] b p
        by (simp add: one_less_power)
    next
      case False
      then show ?thesis using k by (intro sig_round_int [OF b p]) simp
    qed
    then show ?thesis by (simp only: k(3) sig_round_shift [OF b])
  qed
  show ?thesis
  proof (cases "x < 0")
    case True
    then show ?thesis using pos [of "- x"] by simp
  next
    case False
    then show ?thesis using pos by (cases "x = 0") auto
  qed
qed

lemma contract_number_exact:
  assumes "0 \<le> y" and "prisma_dec y = y" and "y * 10000000 < 2 ^ 53"
  shows "decimalToContractNumber prisma_dec y = of_int \<lfloor>y * 10000000\<rfloor>"
proof -
  have "prisma_dec (y * 10000000) = y * 10000000"
    using sig_round_shift [of 10 HalfUp 20 y 7] assms(2) by (simp add: prisma_dec_def)
  moreover have "round_int Down q = \<lfloor>q\<rfloor>" for q :: rat by (simp add: round_int_def Let_def)
  moreover have "f64 (of_int \<lfloor>y * 10000000\<rfloor>) = of_int \<lfloor>y * 10000000\<rfloor>"
  proof (rule f64.rnd_int)
    have "0 \<le> \<lfloor>y * 10000000\<rfloor>" using assms(1) by simp
    moreover have "\<lfloor>y * 10000000\<rfloor> < 2 ^ 53" using assms(3) by (simp only: floor_less_iff of_int_power of_int_numeral)
    ultimately show "\<bar>\<lfloor>y * 10000000\<rfloor>\<bar> < 2 ^ 53" by linarith
  qed
  ultimately show ?thesis by (simp only: decimalToContractNumber_def)
qed

section \<open>The rate row and its cache\<close>

text \<open>A row of \<open>acbu_rates\<close>: the dollar price of one ACBU, and per column the units of a currency per ACBU.\<close>

record acbu_rate =
  acbuUsd :: rat
  ar_field :: "string \<Rightarrow> rat option"

definition rate_column :: "acbu_rate \<Rightarrow> string \<Rightarrow> rat option" where
  "rate_column r field = (if field = ''acbuUsd'' then Some (acbuUsd r) else ar_field r field)"

definition RATE_TTL_MS :: int where
  "RATE_TTL_MS = 10000"

record rate_cache =
  rc_cached :: "acbu_rate option"
  rc_expires :: int

datatype rates_error = RatesNotAvailable

text \<open>
  \<open>rows\<close> are the rows of the table, latest first. Callers that miss share one query; a query takes no
  time in the model, so the query in flight is not part of the state.
\<close>

definition fetchFromDb :: "int \<Rightarrow> acbu_rate list \<Rightarrow> rate_cache \<Rightarrow> (rates_error + acbu_rate) \<times> rate_cache" where
  "fetchFromDb now rows c =
     (case rows of [] \<Rightarrow> (Inl RatesNotAvailable, c)
      | row # _ \<Rightarrow> (Inr row, \<lparr>rc_cached = Some row, rc_expires = now + RATE_TTL_MS\<rparr>))"

definition getLatestAcbuRate :: "int \<Rightarrow> acbu_rate list \<Rightarrow> rate_cache \<Rightarrow> (rates_error + acbu_rate) \<times> rate_cache" where
  "getLatestAcbuRate now rows c =
     (case rc_cached c of
        Some r \<Rightarrow> if now < rc_expires c then (Inr r, c) else fetchFromDb now rows c
      | None \<Rightarrow> fetchFromDb now rows c)"

definition invalidateAcbuRateCache :: "rate_cache \<Rightarrow> rate_cache" where
  "invalidateAcbuRateCache c = \<lparr>rc_cached = None, rc_expires = 0\<rparr>"

section \<open>Conversion\<close>

definition CURRENCY_TO_RATE_FIELD :: "(string \<times> string) list" where
  "CURRENCY_TO_RATE_FIELD =
     [(''NGN'', ''acbuNgn''), (''ZAR'', ''acbuZar''), (''KES'', ''acbuKes''), (''EGP'', ''acbuEgp''),
      (''GHS'', ''acbuGhs''), (''RWF'', ''acbuRwf''), (''XOF'', ''acbuXof''), (''MAD'', ''acbuMad''),
      (''TZS'', ''acbuTzs''), (''UGX'', ''acbuUgx''), (''EUR'', ''acbuEur''), (''GBP'', ''acbuGbp''),
      (''USD'', ''acbuUsd'')]"

datatype convert_error = CurrencyNotSupported | RatesUnavailable | RateInvalid | UsdRateInvalid

record conversion =
  usdAmountDecimal :: rat
  usdAmount :: rat
  originalAmount :: rat
  acbuEquivalent :: rat

text \<open>
  \<open>rate\<close> is what the cache answers, \<open>None\<close> when it throws. \<open>toNumber() <= 0\<close> is the sign test: rounding
  to a double keeps signs, and the columns are far from the smallest double.
\<close>

definition convertLocalToUsdWithPrecision :: "acbu_rate option \<Rightarrow> rat \<Rightarrow> string \<Rightarrow> convert_error + conversion" where
  "convertLocalToUsdWithPrecision rate localAmount currency =
     (case map_of CURRENCY_TO_RATE_FIELD currency of
        None \<Rightarrow> Inl CurrencyNotSupported
      | Some field \<Rightarrow>
        (case rate of
           None \<Rightarrow> Inl RatesUnavailable
         | Some latestRate \<Rightarrow>
           (case rate_column latestRate field of
              None \<Rightarrow> Inl RateInvalid
            | Some localRate \<Rightarrow>
                if f64 localRate \<le> 0 then Inl RateInvalid
                else if f64 (acbuUsd latestRate) \<le> 0 then Inl UsdRateInvalid
                else
                  let acbu = prisma_dec (localAmount / localRate);
                      usd = prisma_dec (acbu * acbuUsd latestRate) in
                  Inr \<lparr>usdAmountDecimal = usd, usdAmount = f64 usd, originalAmount = localAmount,
                       acbuEquivalent = acbu\<rparr>)))"

definition convertLocalToUsd :: "acbu_rate option \<Rightarrow> rat \<Rightarrow> string \<Rightarrow> convert_error + rat" where
  "convertLocalToUsd rate localAmount currency =
     (case map_of CURRENCY_TO_RATE_FIELD currency of
        None \<Rightarrow> Inl CurrencyNotSupported
      | Some field \<Rightarrow>
        (case rate of
           None \<Rightarrow> Inl RatesUnavailable
         | Some latestRate \<Rightarrow>
           (case rate_column latestRate field of
              None \<Rightarrow> Inl RateInvalid
            | Some localRate \<Rightarrow>
                if f64 localRate \<le> 0 then Inl RateInvalid
                else
                  let acbuAmount = prisma_dec (dec_of_num localAmount / localRate) in
                  if f64 (acbuUsd latestRate) \<le> 0 then Inl UsdRateInvalid
                  else Inr (f64 (prisma_dec (acbuAmount * acbuUsd latestRate))))))"

section \<open>Facts\<close>

lemma parseMonetary_Inr:
  "parseMonetaryString s = Inr a \<longleftrightarrow>
     trim s \<noteq> [] \<and> decimal_shape 7 (trim s) \<and> a = decimal_value (trim s) \<and> 0 < a"
  by (auto simp: parseMonetaryString_def Let_def)

lemma convert_Inr:
  assumes "convertLocalToUsdWithPrecision rate a currency = Inr c"
  obtains r field q where "rate = Some r" "map_of CURRENCY_TO_RATE_FIELD currency = Some field"
    "rate_column r field = Some q" "0 < q" "0 < acbuUsd r" "acbuEquivalent c = prisma_dec (a / q)"
    "usdAmountDecimal c = prisma_dec (prisma_dec (a / q) * acbuUsd r)" "originalAmount c = a"
  using assms f64.rnd_le_0_iff
  by (auto simp: convertLocalToUsdWithPrecision_def Let_def not_le split: option.splits if_splits)

lemma rate_cache_served:
  assumes "rc_cached c = Some r" and "now < rc_expires c"
  shows "getLatestAcbuRate now rows c = (Inr r, c)"
  using assms by (simp add: getLatestAcbuRate_def)

lemma rate_cache_after_invalidate:
  "0 \<le> now \<Longrightarrow> getLatestAcbuRate now rows (invalidateAcbuRateCache c) = fetchFromDb now rows (invalidateAcbuRateCache c)"
  by (simp add: getLatestAcbuRate_def invalidateAcbuRateCache_def)

end
