(* ===== verification/DepositLimits.thy ===== *)
theory DepositLimits
  imports TxStore Recipient
begin

text \<open>
  Deposit and withdrawal limits: \<open>src/config/limits.ts\<close> (the configured caps, with environment defaults,
  database overrides and a cache) and \<open>src/services/limits/limitsService.ts\<close> (the checks against the
  transactions table). The starts of the business day and month (\<open>utils/dateUtils.ts\<close>, which rests on
  \<open>Intl\<close>), the ACBU rate (\<open>utils/priceUtils.ts\<close> is not in the repository), the reserve status and Prisma's
  \<open>Decimal\<close> (\<open>rnd\<close> rounds a result, \<open>dec\<close> converts a number) are parameters.
\<close>

section \<open>Configuration\<close>

record limit_config =
  depositDailyUsd :: rat
  depositMonthlyUsd :: rat
  withdrawalDailyUsd :: rat
  withdrawalMonthlyUsd :: rat

record breaker_limits =
  reserveWeightThresholdPct :: rat
  minReserveRatio :: rat

datatype audience = Retail | Business | Government

record limits_snapshot =
  audiences :: "audience \<Rightarrow> limit_config"
  circuit_limits :: breaker_limits

definition nonneg :: "jsnum \<Rightarrow> rat option" where
  "nonneg n = (case n of Fin q \<Rightarrow> if 0 \<le> q then Some q else None | _ \<Rightarrow> None)"

text \<open>\<open>Number(undefined)\<close> is \<open>NaN\<close>, but \<open>Number("")\<close> is 0.\<close>

definition readNumber :: "(string \<Rightarrow> string option) \<Rightarrow> string \<Rightarrow> rat \<Rightarrow> rat" where
  "readNumber env name fallback =
     (case env name of None \<Rightarrow> fallback
      | Some s \<Rightarrow> (case nonneg (js_number s) of Some q \<Rightarrow> q | None \<Rightarrow> fallback))"

definition envLimits :: "(string \<Rightarrow> string option) \<Rightarrow> limits_snapshot" where
  "envLimits env =
     \<lparr>audiences = (\<lambda>a. case a of
        Retail \<Rightarrow>
          \<lparr>depositDailyUsd = readNumber env ''LIMIT_RETAIL_DEPOSIT_DAILY_USD'' 5000,
           depositMonthlyUsd = readNumber env ''LIMIT_RETAIL_DEPOSIT_MONTHLY_USD'' 50000,
           withdrawalDailyUsd = readNumber env ''LIMIT_RETAIL_WITHDRAWAL_DAILY_USD'' 10000,
           withdrawalMonthlyUsd = readNumber env ''LIMIT_RETAIL_WITHDRAWAL_MONTHLY_USD'' 80000\<rparr>
      | Business \<Rightarrow>
          \<lparr>depositDailyUsd = readNumber env ''LIMIT_BUSINESS_DEPOSIT_DAILY_USD'' 50000,
           depositMonthlyUsd = readNumber env ''LIMIT_BUSINESS_DEPOSIT_MONTHLY_USD'' 500000,
           withdrawalDailyUsd = readNumber env ''LIMIT_BUSINESS_WITHDRAWAL_DAILY_USD'' 100000,
           withdrawalMonthlyUsd = readNumber env ''LIMIT_BUSINESS_WITHDRAWAL_MONTHLY_USD'' 800000\<rparr>
      | Government \<Rightarrow>
          \<lparr>depositDailyUsd = readNumber env ''LIMIT_GOV_DEPOSIT_DAILY_USD'' 500000,
           depositMonthlyUsd = readNumber env ''LIMIT_GOV_DEPOSIT_MONTHLY_USD'' 5000000,
           withdrawalDailyUsd = readNumber env ''LIMIT_GOV_WITHDRAWAL_DAILY_USD'' 500000,
           withdrawalMonthlyUsd = readNumber env ''LIMIT_GOV_WITHDRAWAL_MONTHLY_USD'' 4000000\<rparr>),
      circuit_limits =
        \<lparr>reserveWeightThresholdPct = readNumber env ''LIMIT_CIRCUIT_BREAKER_RESERVE_WEIGHT_PCT'' 10,
         minReserveRatio = readNumber env ''LIMIT_CIRCUIT_BREAKER_MIN_RATIO'' (f64 (102 / 100))\<rparr>\<rparr>"

definition cacheTtlMs :: "(string \<Rightarrow> string option) \<Rightarrow> rat" where
  "cacheTtlMs env = readNumber env ''LIMIT_CONFIG_CACHE_TTL_MS'' 5000"

datatype json_val = JNumber rat | JString string | JOther

type_synonym json_obj = "(string \<times> json_val) list"

definition numberFromJson :: "json_val option \<Rightarrow> rat option" where
  "numberFromJson v =
     (case v of
        Some (JNumber q) \<Rightarrow> nonneg (Fin q)
      | Some (JString s) \<Rightarrow> nonneg (js_number s)
      | _ \<Rightarrow> None)"

definition override :: "json_obj \<Rightarrow> string \<Rightarrow> rat \<Rightarrow> rat" where
  "override vals name cur = (case numberFromJson (map_of vals name) of Some q \<Rightarrow> q | None \<Rightarrow> cur)"

definition applyLimitOverrides :: "limit_config \<Rightarrow> json_obj \<Rightarrow> limit_config" where
  "applyLimitOverrides c vals =
     \<lparr>depositDailyUsd = override vals ''depositDailyUsd'' (depositDailyUsd c),
      depositMonthlyUsd = override vals ''depositMonthlyUsd'' (depositMonthlyUsd c),
      withdrawalDailyUsd = override vals ''withdrawalSingleCurrencyDailyUsd'' (withdrawalDailyUsd c),
      withdrawalMonthlyUsd = override vals ''withdrawalSingleCurrencyMonthlyUsd'' (withdrawalMonthlyUsd c)\<rparr>"

definition applyCircuitBreakerOverrides :: "breaker_limits \<Rightarrow> json_obj \<Rightarrow> breaker_limits" where
  "applyCircuitBreakerOverrides c vals =
     \<lparr>reserveWeightThresholdPct = override vals ''reserveWeightThresholdPct'' (reserveWeightThresholdPct c),
      minReserveRatio = override vals ''minReserveRatio'' (minReserveRatio c)\<rparr>"

text \<open>The rows of \<open>limits_config\<close>: scope and JSON values (\<open>None\<close> when they are no object).\<close>

datatype config_rows = NoDelegate | QueryFails | ConfigRows "(string \<times> json_obj option) list"

definition audience_of :: "string \<Rightarrow> audience option" where
  "audience_of s = (if s = ''retail'' then Some Retail else if s = ''business'' then Some Business
     else if s = ''government'' then Some Government else None)"

fun apply_rows :: "(string \<times> json_obj option) list \<Rightarrow> limits_snapshot \<Rightarrow> limits_snapshot" where
  "apply_rows [] s = s"
| "apply_rows ((scope, vals) # rows) s =
     apply_rows rows
       (case vals of
          None \<Rightarrow> s
        | Some v \<Rightarrow>
            if scope = ''circuit_breaker''
            then s\<lparr>circuit_limits := applyCircuitBreakerOverrides (circuit_limits s) v\<rparr>
            else (case audience_of scope of
                    Some a \<Rightarrow> s\<lparr>audiences := (audiences s)(a := applyLimitOverrides (audiences s a) v)\<rparr>
                  | None \<Rightarrow> s))"

record limits_cache =
  cachedSnapshot :: "limits_snapshot option"
  cacheExpiresAt :: rat

definition loadLimitsSnapshot :: "(string \<Rightarrow> string option) \<Rightarrow> config_rows \<Rightarrow> limits_cache \<Rightarrow> limits_snapshot" where
  "loadLimitsSnapshot env rows cache =
     (case rows of
        NoDelegate \<Rightarrow> envLimits env
      | QueryFails \<Rightarrow> (case cachedSnapshot cache of Some s \<Rightarrow> s | None \<Rightarrow> envLimits env)
      | ConfigRows rs \<Rightarrow> apply_rows rs (envLimits env))"

definition invalidateLimitsConfigCache :: limits_cache where
  "invalidateLimitsConfigCache = \<lparr>cachedSnapshot = None, cacheExpiresAt = 0\<rparr>"

definition getLimitsSnapshot ::
  "(string \<Rightarrow> string option) \<Rightarrow> config_rows \<Rightarrow> rat \<Rightarrow> limits_cache \<Rightarrow> limits_snapshot \<times> limits_cache" where
  "getLimitsSnapshot env rows now cache =
     (case (if now < cacheExpiresAt cache then cachedSnapshot cache else None) of
        Some s \<Rightarrow> (s, cache)
      | None \<Rightarrow>
          (let s = loadLimitsSnapshot env rows cache in
           (s, \<lparr>cachedSnapshot = Some s, cacheExpiresAt = now + cacheTtlMs env\<rparr>)))"

definition getLimitConfig :: "limits_snapshot \<Rightarrow> audience \<Rightarrow> limit_config" where
  "getLimitConfig s a = audiences s a"

section \<open>Actors and aggregates\<close>

datatype actor = ByUser string | ByOrg string | Anonymous

definition buildActorWhere :: "string option \<Rightarrow> string option \<Rightarrow> actor" where
  "buildActorWhere uid org =
     (if truthy uid then ByUser (the uid) else if truthy org then ByOrg (the org) else Anonymous)"

text \<open>\<open>org_of\<close> is the organization of a user (the \<open>user\<close> relation of a row).\<close>

definition actor_matches :: "(string \<Rightarrow> string option) \<Rightarrow> actor \<Rightarrow> txn \<Rightarrow> bool" where
  "actor_matches org_of w r =
     (case w of
        ByUser u \<Rightarrow> tx_user r = Some u
      | ByOrg o' \<Rightarrow> tx_org r = Some o' \<or> (case tx_user r of Some u \<Rightarrow> org_of u = Some o' | None \<Rightarrow> False)
      | Anonymous \<Rightarrow> tx_user r = None)"

definition live_status :: "status \<Rightarrow> bool" where
  "live_status s \<longleftrightarrow> s = Pending \<or> s = Processing \<or> s = Completed"

text \<open>SQL \<open>SUM\<close> skips NULL and is \<open>NULL\<close> (here 0, by \<open>?? 0\<close>) when there is nothing to add.\<close>

definition sum_some :: "(txn \<Rightarrow> rat option) \<Rightarrow> txn list \<Rightarrow> rat" where
  "sum_some f rs = (\<Sum>r\<leftarrow>rs. case f r of Some x \<Rightarrow> x | None \<Rightarrow> 0)"

record limits_env =
  le_rnd :: "rat \<Rightarrow> rat"
  le_dec :: "rat \<Rightarrow> rat"
  le_day :: int
  le_month :: int
  le_org_of :: "string \<Rightarrow> string option"

definition mint_since :: "limits_env \<Rightarrow> int \<Rightarrow> actor \<Rightarrow> txn \<Rightarrow> bool" where
  "mint_since e since w r \<longleftrightarrow>
     tx_type r = TMint \<and> live_status (tx_status r) \<and> since \<le> created_at r \<and> actor_matches (le_org_of e) w r"

definition sumDepositsUsdSince :: "limits_env \<Rightarrow> int \<Rightarrow> actor \<Rightarrow> txdb \<Rightarrow> rat" where
  "sumDepositsUsdSince e since w db =
     le_rnd e (sum_some usdc_amount (filter (mint_since e since w) (tx_rows db))
       + sum_some amount_usd (filter (\<lambda>r. mint_since e since w r \<and> usdc_amount r = None) (tx_rows db)))"

datatype limit_error = DailyLimit | MonthlyLimit

definition checkDepositLimits ::
  "limits_env \<Rightarrow> limit_config \<Rightarrow> rat \<Rightarrow> string option \<Rightarrow> string option \<Rightarrow> txdb \<Rightarrow> limit_error + unit" where
  "checkDepositLimits e cfg amountUsd uid org db =
     (let w = buildActorWhere uid org;
          dailyUsd = le_rnd e (sumDepositsUsdSince e (le_day e) w db + amountUsd);
          monthlyUsd = le_rnd e (sumDepositsUsdSince e (le_month e) w db + amountUsd) in
      if le_dec e (depositDailyUsd cfg) < dailyUsd then Inl DailyLimit
      else if le_dec e (depositMonthlyUsd cfg) < monthlyUsd then Inl MonthlyLimit
      else Inr ())"

definition burn_since :: "limits_env \<Rightarrow> int \<Rightarrow> string \<Rightarrow> actor \<Rightarrow> txn \<Rightarrow> bool" where
  "burn_since e since currency w r \<longleftrightarrow>
     (tx_type r = TBurn \<or> tx_type r = TBillPayment) \<and> local_currency r = Some currency
     \<and> live_status (tx_status r) \<and> since \<le> created_at r \<and> actor_matches (le_org_of e) w r"

definition sum_burned :: "limits_env \<Rightarrow> int \<Rightarrow> string \<Rightarrow> actor \<Rightarrow> txdb \<Rightarrow> rat" where
  "sum_burned e since currency w db = sum_some acbu_burned (filter (burn_since e since currency w) (tx_rows db))"

definition checkWithdrawalLimits ::
  "limits_env \<Rightarrow> limit_config \<Rightarrow> rat \<Rightarrow> rat \<Rightarrow> string \<Rightarrow> string option \<Rightarrow> string option \<Rightarrow> txdb
     \<Rightarrow> limit_error + unit" where
  "checkWithdrawalLimits e cfg acbuUsdRate amountAcbu currency uid org db =
     (let w = buildActorWhere uid org;
          dailyAcbu = le_rnd e (sum_burned e (le_day e) currency w db + amountAcbu);
          monthlyAcbu = le_rnd e (sum_burned e (le_month e) currency w db + amountAcbu);
          dailyUsd = le_rnd e (dailyAcbu * acbuUsdRate);
          monthlyUsd = le_rnd e (monthlyAcbu * acbuUsdRate) in
      if le_dec e (withdrawalDailyUsd cfg) < dailyUsd then Inl DailyLimit
      else if le_dec e (withdrawalMonthlyUsd cfg) < monthlyUsd then Inl MonthlyLimit
      else Inr ())"

section \<open>Reserve protection\<close>

record currency_status =
  cs_currency :: string
  cs_target :: rat
  cs_actual :: rat

definition isCurrencyWithdrawalPaused :: "limits_env \<Rightarrow> limits_snapshot \<Rightarrow> currency_status list \<Rightarrow> string \<Rightarrow> bool" where
  "isCurrencyWithdrawalPaused e s currencies currency =
     (case find (\<lambda>c. cs_currency c = currency) currencies of
        None \<Rightarrow> False
      | Some c \<Rightarrow>
          let targetWeight = le_dec e (cs_target c); actualWeight = le_dec e (cs_actual c) in
          if targetWeight \<le> 0 then False
          else f64 (le_rnd e (le_rnd e (actualWeight / targetWeight) * 100))
                 < reserveWeightThresholdPct (circuit_limits s))"

definition isMintingPaused :: "limits_snapshot \<Rightarrow> rat \<Rightarrow> bool" where
  "isMintingPaused s ratio \<longleftrightarrow> ratio < minReserveRatio (circuit_limits s)"

section \<open>Properties\<close>

text \<open>The exact USD value of the live deposits of an actor since a moment.\<close>

definition deposited_usd :: "limits_env \<Rightarrow> int \<Rightarrow> actor \<Rightarrow> txn list \<Rightarrow> rat" where
  "deposited_usd e since w rows =
     (\<Sum>r\<leftarrow>filter (mint_since e since w) rows.
        case usdc_amount r of Some x \<Rightarrow> x | None \<Rightarrow> (case amount_usd r of Some y \<Rightarrow> y | None \<Rightarrow> 0))"

lemma deposited_split:
  "sum_some usdc_amount (filter (mint_since e since w) rows)
     + sum_some amount_usd (filter (\<lambda>r. mint_since e since w r \<and> usdc_amount r = None) rows)
   = deposited_usd e since w rows"
  by (induction rows) (auto simp: sum_some_def deposited_usd_def split: option.splits)

text \<open>No deposit is counted twice or left out, and the sum is exact when it fits.\<close>

lemma sumDeposits_exact:
  assumes "money_rounding (le_rnd e) lims" "fits8 lims (deposited_usd e since w (tx_rows db))"
  shows "sumDepositsUsdSince e since w db = deposited_usd e since w (tx_rows db)"
  using money_rounding.rnd_fits8 [OF assms] by (simp add: sumDepositsUsdSince_def deposited_split)


definition sample_limits_env :: limits_env where
  "sample_limits_env = \<lparr>le_rnd = prisma_dec, le_dec = (\<lambda>x. x), le_day = 1000, le_month = 100,
     le_org_of = (\<lambda>_. None)\<rparr>"

definition mint_row :: "nat \<Rightarrow> int \<Rightarrow> rat option \<Rightarrow> rat option \<Rightarrow> txn" where
  "mint_row i t usdc usd = (new_txn TMint Completed t)\<lparr>tx_id := i, tx_user := Some ''u1'', usdc_amount := usdc, amount_usd := usd\<rparr>"

text \<open>Today 4000 USDC, earlier this month 100.5 USD through another rail; then 999.5 more.\<close>

definition sample_mints :: txdb where
  "sample_mints = \<lparr>tx_rows = [mint_row 0 2000 (Some 4000) None, mint_row 1 500 None (Some (201 / 2))], tx_next = 2\<rparr>"

lemma fits8_half: "fits8 (10 ^ 20) (of_int k / 2)" if "\<bar>k\<bar> < 10 ^ 11"
  unfolding fits8_def using that by (intro exI [of _ "k * 50000000"]) auto


text \<open>An empty environment variable does not mean "unset": it sets the cap to 0.\<close>

lemma empty_variable_is_zero: "readNumber (\<lambda>_. Some '''') name fallback = 0"
  by (simp add: readNumber_def js_number_def trim_def trim_start_def trim_end_def nonneg_def)

definition caps_ok :: "limits_snapshot \<Rightarrow> bool" where
  "caps_ok s \<longleftrightarrow> (\<forall>a. 0 \<le> depositDailyUsd (audiences s a) \<and> 0 \<le> depositMonthlyUsd (audiences s a)
     \<and> 0 \<le> withdrawalDailyUsd (audiences s a) \<and> 0 \<le> withdrawalMonthlyUsd (audiences s a))"

definition cache_ok :: "limits_cache \<Rightarrow> bool" where
  "cache_ok c = (case cachedSnapshot c of None \<Rightarrow> True | Some s \<Rightarrow> caps_ok s)"

lemma readNumber_nonneg: "0 \<le> d \<Longrightarrow> 0 \<le> readNumber env name d"
  by (auto simp: readNumber_def nonneg_def split: option.splits jsnum.splits if_splits)

lemma override_nonneg: "0 \<le> c \<Longrightarrow> 0 \<le> override vals name c"
  by (auto simp: override_def numberFromJson_def nonneg_def
      split: option.splits json_val.splits jsnum.splits if_splits)

lemma envLimits_ok: "caps_ok (envLimits env)"
  by (auto simp: caps_ok_def envLimits_def readNumber_nonneg split: audience.splits)

lemma apply_rows_ok: "caps_ok s \<Longrightarrow> caps_ok (apply_rows rows s)"
proof (induction rows s rule: apply_rows.induct)
  case (2 scope vals rows s)
  show ?case
    using "2"
    by (simp only: apply_rows.simps)
       (rule "2"(1), auto simp: caps_ok_def applyLimitOverrides_def override_nonneg split: option.splits)
qed simp

text \<open>
  Caps are never negative: whatever the environment and the rows of \<open>limits_config\<close> hold, the snapshot
  served has non-negative caps for every audience, provided the cached one had.
\<close>

theorem caps_never_negative:
  assumes "cache_ok cache" and "getLimitsSnapshot env rows now cache = (s, cache')"
  shows "caps_ok s \<and> cache_ok cache'"
  using assms envLimits_ok [of env] apply_rows_ok [OF envLimits_ok]
  by (auto simp: getLimitsSnapshot_def loadLimitsSnapshot_def cache_ok_def Let_def
      split: option.splits config_rows.splits if_splits)

theorem caps_never_negative_witness:
  "let (s, c) = getLimitsSnapshot (\<lambda>_. Some ''-5'') (ConfigRows [(''retail'', Some [(''depositDailyUsd'', JString ''250'')])])
       9 invalidateLimitsConfigCache
   in caps_ok s \<and> depositDailyUsd (getLimitConfig s Retail) = 250 \<and> depositMonthlyUsd (getLimitConfig s Retail) = 50000"
proof -
  let ?rows = "ConfigRows [(''retail'', Some [(''depositDailyUsd'', JString ''250'')])]"
  obtain s c where r: "getLimitsSnapshot (\<lambda>_. Some ''-5'') ?rows 9 invalidateLimitsConfigCache = (s, c)" by fastforce
  have i: "cache_ok invalidateLimitsConfigCache" by (simp add: cache_ok_def invalidateLimitsConfigCache_def)
  have "depositDailyUsd (getLimitConfig (fst (getLimitsSnapshot (\<lambda>_. Some ''-5'') ?rows 9 invalidateLimitsConfigCache)) Retail) = 250
      \<and> depositMonthlyUsd (getLimitConfig (fst (getLimitsSnapshot (\<lambda>_. Some ''-5'') ?rows 9 invalidateLimitsConfigCache)) Retail) = 50000"
    by code_simp
  with caps_never_negative [OF i r] r show ?thesis by simp
qed

end
