(* ===== verification/Minting.thy ===== *)
theory Minting
  imports Rates DepositLimits
begin

text \<open>
  Minting: \<open>src/controllers/mintController.ts\<close> with \<open>src/config/basket.ts\<close> (deposit currencies),
  \<open>src/utils/idempotency.ts\<close>, the parts of \<open>src/services/contracts/acbuMinting.service.ts\<close> it calls, and
  the table \<open>on_ramp_swaps\<close>. The Soroban contracts, SHA-256, the HMAC of a request body and the
  failure of single database updates are parameters; the calls that reach a contract are events of
  the state's log.
\<close>

section \<open>Deposit currencies\<close>

definition BASKET_CURRENCIES :: "string list" where
  "BASKET_CURRENCIES =
     [''NGN'', ''ZAR'', ''KES'', ''EGP'', ''GHS'', ''RWF'', ''XOF'', ''MAD'', ''TZS'', ''UGX'']"

definition FORBIDDEN_DEPOSIT_CURRENCIES :: "string list" where
  "FORBIDDEN_DEPOSIT_CURRENCIES = [''USDC'', ''USDT'']"

definition upper_char :: "char \<Rightarrow> char" where
  "upper_char c = (let n = of_char c :: nat in if 97 \<le> n \<and> n \<le> 122 then char_of (n - 32) else c)"

definition to_upper :: "string \<Rightarrow> string" where
  "to_upper s = map upper_char s"

definition isAllowedDepositCurrency :: "string \<Rightarrow> bool" where
  "isAllowedDepositCurrency currency \<longleftrightarrow> currency \<in> set BASKET_CURRENCIES"

definition isForbiddenDepositCurrency :: "string \<Rightarrow> bool" where
  "isForbiddenDepositCurrency currency \<longleftrightarrow> to_upper currency \<in> set FORBIDDEN_DEPOSIT_CURRENCIES"

section \<open>Idempotency keys\<close>

definition IDEMPOTENCY_KEY_MAX_LENGTH :: nat where
  "IDEMPOTENCY_KEY_MAX_LENGTH = 255"

text \<open>\<open>sha\<close> is the hexadecimal SHA-256 digest.\<close>

definition scopeIdempotencyKey :: "(string \<Rightarrow> string) \<Rightarrow> string \<Rightarrow> string \<Rightarrow> string" where
  "scopeIdempotencyKey sha userId rawKey =
     (let scoped = userId @ '':'' @ rawKey in
      if length scoped \<le> IDEMPOTENCY_KEY_MAX_LENGTH then scoped
      else
        let hash = take 32 (sha rawKey); pre = userId @ '':'';
            maxKeyLen = int IDEMPOTENCY_KEY_MAX_LENGTH - int (length pre) - 1 in
        pre @ take (nat (max maxKeyLen 32)) hash)"

datatype mint_error =
    NoUserContext | InvalidBody | EmptyIdempotencyKey | IdempotencyKeyTooLong
  | WalletNotSet | WalletFormat | WalletMismatch
  | BadAmount money_error | MintingPaused | Limit limit_error | KeyConflict
  | ForbiddenCurrency | UnsupportedCurrency | Convert convert_error
  | MintingNotConfigured | NoSourceAccount | ChainFailed string | CompletionFailed
  | MintTxNotFound | WrongStatus status | OwnerWalletMissing | AmountNotFinite

definition extractIdempotencyKey :: "string option \<Rightarrow> mint_error + string option" where
  "extractIdempotencyKey header =
     (case header of
        None \<Rightarrow> Inr None
      | Some raw \<Rightarrow>
          let normalizedKey = trim raw in
          if normalizedKey = [] then Inl EmptyIdempotencyKey
          else if IDEMPOTENCY_KEY_MAX_LENGTH < length normalizedKey then Inl IdempotencyKeyTooLong
          else Inr (Some normalizedKey))"

section \<open>The swaps table\<close>

datatype swap_source = UsdcDeposit | XlmDeposit
datatype swap_status = PendingConvert | SwapProcessing | SwapCompleted | SwapFailed

record swap =
  sw_id :: nat
  sw_user :: string
  sw_key :: "string option"
  sw_address :: string
  sw_source :: swap_source
  sw_xlm :: "rat option"
  sw_usdc :: "rat option"
  sw_status :: swap_status
  sw_tx :: "nat option"
  sw_completed :: "int option"

record swapdb =
  sw_rows :: "swap list"
  sw_next :: nat

definition create_swap :: "swap \<Rightarrow> swapdb \<Rightarrow> (swapdb \<times> swap) option" where
  "create_swap r db =
     (if sw_key r \<noteq> None \<and> (\<exists>q \<in> set (sw_rows db). sw_key q = sw_key r) then None
      else let r' = r\<lparr>sw_id := sw_next db\<rparr> in
        Some (\<lparr>sw_rows = sw_rows db @ [r'], sw_next = Suc (sw_next db)\<rparr>, r'))"

interpretation swaptab: unique_table sw_rows sw_key create_swap
  by unfold_locales (auto simp: create_swap_def Let_def split: if_splits)

definition find_swap :: "nat \<Rightarrow> swapdb \<Rightarrow> swap option" where
  "find_swap i db = find (\<lambda>r. sw_id r = i) (sw_rows db)"

definition update_swap :: "nat \<Rightarrow> (swap \<Rightarrow> swap) \<Rightarrow> swapdb \<Rightarrow> swapdb" where
  "update_swap i f db = db\<lparr>sw_rows := map (\<lambda>r. if sw_id r = i then f r else r) (sw_rows db)\<rparr>"

section \<open>State and environment\<close>

datatype mint_event =
    ChainMinted string rat rat      \<comment> \<open>recipient, amount asked for, amount minted (seven decimals)\<close>
  | CompensationBurned rat          \<comment> \<open>amount, seven decimals\<close>
  | CompensationFailed
  | MintAudit string nat
  | SwapEnqueued nat
  | DexSwapped nat rat rat         \<comment> \<open>swap, USDC spent, XLM received\<close>
  | XlmEnqueued nat string string string "string option"   \<comment> \<open>swap, user, address, XLM, USDC\<close>

record mint_state =
  ms_db :: txdb
  ms_users :: "user list"
  ms_swaps :: swapdb
  ms_log :: "mint_event list"

datatype chain_outcome = ChainThrows string | ChainOk string rat   \<comment> \<open>hash, amount minted\<close>

record mint_env =
  mt_now :: int
  mt_limits :: limits_env
  mt_caps :: limits_snapshot
  mt_ratio :: rat                       \<comment> \<open>\<open>calculateReserveRatio\<close>\<close>
  mt_rate_check :: "acbu_rate option"   \<comment> \<open>the cached rate at the limit check\<close>
  mt_rate_mint :: "acbu_rate option"    \<comment> \<open>and when the amount is computed\<close>
  mt_sha :: "string \<Rightarrow> string"
  mt_address_ok :: "string \<Rightarrow> bool"
  mt_contract :: bool                   \<comment> \<open>the minting contract is configured\<close>
  mt_source :: "string option"
  mt_chain :: "string \<Rightarrow> rat \<Rightarrow> chain_outcome"
  mt_update_fails :: bool               \<comment> \<open>the update after the mint\<close>
  mt_update2_fails :: bool              \<comment> \<open>the update after the compensation\<close>
  mt_burn_fails :: bool

definition ms_add :: "mint_event list \<Rightarrow> mint_state \<Rightarrow> mint_state" where
  "ms_add es st = st\<lparr>ms_log := ms_log st @ es\<rparr>"

definition ms_tx :: "nat \<Rightarrow> (txn \<Rightarrow> txn) \<Rightarrow> mint_state \<Rightarrow> mint_state" where
  "ms_tx i f st = st\<lparr>ms_db := update_tx i f (ms_db st)\<rparr>"

definition fail_mint :: "nat \<Rightarrow> mint_state \<Rightarrow> mint_state" where
  "fail_mint i st = ms_tx i (\<lambda>r. r\<lparr>tx_status := Failed\<rparr>) st"

text \<open>The update that completes a mint; \<open>None\<close> when the database refuses it.\<close>

definition complete_mint :: "bool \<Rightarrow> int \<Rightarrow> nat \<Rightarrow> string \<Rightarrow> rat \<Rightarrow> mint_state \<Rightarrow> mint_state option" where
  "complete_mint fails now i h a st =
     (if fails then None
      else map_option (\<lambda>db. st\<lparr>ms_db := update_tx i (\<lambda>r. r\<lparr>acbu_amount := Some a\<rparr>) db\<rparr>)
             (complete_tx i h now (ms_db st)))"

section \<open>Contract calls\<close>

text \<open>\<open>BigInt(String(n))\<close> throws from 10 to the 21st on, where numbers print with an exponent.\<close>

definition contract_call :: "mint_env \<Rightarrow> string \<Rightarrow> rat \<Rightarrow> mint_state \<Rightarrow> (mint_error + (string \<times> rat)) \<times> mint_state" where
  "contract_call e recipient amount st =
     (if mt_source e = None then (Inl NoSourceAccount, st)
      else if 10 ^ 21 \<le> amount then (Inl (ChainFailed ''SyntaxError''), st)
      else (case mt_chain e recipient amount of
              ChainThrows m \<Rightarrow> (Inl (ChainFailed m), st)
            | ChainOk h n \<Rightarrow> (Inr (h, n), ms_add [ChainMinted recipient amount n] st)))"

text \<open>\<open>mintFromBasket\<close> and \<open>mintFromUsdc\<close> of the service: on a failure the row named by \<open>txId\<close> is marked.\<close>

definition service_mint ::
  "mint_env \<Rightarrow> nat option \<Rightarrow> string \<Rightarrow> rat \<Rightarrow> mint_state \<Rightarrow> (mint_error + (string \<times> rat)) \<times> mint_state" where
  "service_mint e txId recipient amount st =
     (case contract_call e recipient amount st of
        (Inl err, st1) \<Rightarrow> (Inl err, case txId of None \<Rightarrow> st1 | Some i \<Rightarrow> fail_mint i st1)
      | (Inr r, st1) \<Rightarrow> (Inr r, st1))"

section \<open>Guards\<close>

definition assertUserWalletAddress :: "mint_env \<Rightarrow> string \<Rightarrow> string \<Rightarrow> user list \<Rightarrow> mint_error + string" where
  "assertUserWalletAddress e userId provided users =
     (case Option.bind (find_user userId users) stellar_address of
        None \<Rightarrow> Inl WalletNotSet
      | Some a \<Rightarrow>
          if a = [] then Inl WalletNotSet
          else if \<not> mt_address_ok e a then Inl WalletFormat
          else if a \<noteq> provided then Inl WalletMismatch
          else Inr a)"

definition wallet_shape :: "string \<Rightarrow> bool" where
  "wallet_shape s \<longleftrightarrow> length s = 56 \<and> starts_with s ''G''"

text \<open>\<open>^\<backslash>d+(\<backslash>.\<backslash>d{1,7})?$\<close> after trimming, and \<open>parseFloat\<close> positive.\<close>

definition positive_amount :: "string \<Rightarrow> bool" where
  "positive_amount s \<longleftrightarrow> s \<noteq> [] \<and> decimal_shape 7 (trim s) \<and> 0 < f64 (decimal_value (trim s))"

definition mint_guards :: "mint_env \<Rightarrow> audience \<Rightarrow> rat \<Rightarrow> string \<Rightarrow> string option \<Rightarrow> txdb \<Rightarrow> mint_error + unit" where
  "mint_guards e aud amountUsd uid org db =
     (if isMintingPaused (mt_caps e) (mt_ratio e) then Inl MintingPaused
      else map_err Limit
             (checkDepositLimits (mt_limits e) (getLimitConfig (mt_caps e) aud) amountUsd (Some uid) org db))"

section \<open>POST /v1/mint/usdc\<close>

record usdc_body =
  ub_amount :: string
  ub_wallet :: string

definition usdc_body_ok :: "usdc_body \<Rightarrow> bool" where
  "usdc_body_ok b \<longleftrightarrow> positive_amount (ub_amount b) \<and> wallet_shape (ub_wallet b)"

definition find_own_swap :: "string \<Rightarrow> string \<Rightarrow> swapdb \<Rightarrow> swap option" where
  "find_own_swap key uid db = find (\<lambda>r. sw_key r = Some key \<and> sw_user r = uid) (sw_rows db)"

text \<open>Lines 119-159: the swap is created and enqueued, or an earlier one with the key is reported.\<close>

definition register_swap ::
  "string \<Rightarrow> string option \<Rightarrow> string \<Rightarrow> rat \<Rightarrow> mint_state \<Rightarrow> (mint_error + (nat \<times> swap_status)) \<times> mint_state" where
  "register_swap uid key address usdc st =
     (case create_swap \<lparr>sw_id = 0, sw_user = uid, sw_key = key, sw_address = address, sw_source = UsdcDeposit,
             sw_xlm = None, sw_usdc = Some usdc, sw_status = PendingConvert, sw_tx = None, sw_completed = None\<rparr>
             (ms_swaps st) of
        Some (db, r) \<Rightarrow>
          (Inr (sw_id r, PendingConvert), ms_add [SwapEnqueued (sw_id r)] (st\<lparr>ms_swaps := db\<rparr>))
      | None \<Rightarrow>
          (case key of
             None \<Rightarrow> (Inl KeyConflict, st)
           | Some k \<Rightarrow>
             (case find_own_swap k uid (ms_swaps st) of
                Some r \<Rightarrow> (Inr (sw_id r, sw_status r), st)
              | None \<Rightarrow> (Inl KeyConflict, st))))"

definition mintFromUsdc ::
  "mint_env \<Rightarrow> string option \<Rightarrow> string option \<Rightarrow> audience option \<Rightarrow> string option \<Rightarrow> usdc_body \<Rightarrow> mint_state
     \<Rightarrow> (mint_error + (nat \<times> swap_status)) \<times> mint_state" where
  "mintFromUsdc e uid org aud header b st =
     (if \<not> truthy uid then (Inl NoUserContext, st)
      else bail (extractIdempotencyKey header) st (\<lambda>key.
        let existing = (case key of None \<Rightarrow> None | Some k \<Rightarrow> find_own_swap k (the uid) (ms_swaps st)) in
        (case existing of
           Some r \<Rightarrow> (Inr (sw_id r, sw_status r), st)
         | None \<Rightarrow>
           if \<not> usdc_body_ok b then (Inl InvalidBody, st)
           else bail (assertUserWalletAddress e (the uid) (ub_wallet b) (ms_users st)) st (\<lambda>address.
             bail (map_err BadAmount (parseMonetaryString (ub_amount b))) st (\<lambda>usdc.
               bail (mint_guards e (case aud of Some a \<Rightarrow> a | None \<Rightarrow> Retail) usdc (the uid) org (ms_db st)) st (\<lambda>_.
                 register_swap (the uid) key address usdc st))))))"

section \<open>The mint behind the on-ramp\<close>

definition MINT_FEE_BPS :: rat where
  "MINT_FEE_BPS = 30"

definition pending_mint :: "int \<Rightarrow> string option \<Rightarrow> string option \<Rightarrow> string option \<Rightarrow> txn" where
  "pending_mint now uid org key = (new_txn TMint Pending now)\<lparr>tx_user := uid, tx_org := org, tx_key := key\<rparr>"

text \<open>
  Lines 247-269: \<open>redeemSingle\<close> takes its amount in the smallest unit, but is given the amount in ACBU:
  \<open>BigInt\<close> throws on a fraction, and an integral amount is burnt as that many stroops.
\<close>

definition compensate :: "mint_env \<Rightarrow> rat \<Rightarrow> mint_state \<Rightarrow> mint_state" where
  "compensate e acbu st =
     (if acbu = of_int \<lfloor>acbu\<rfloor> \<and> acbu < 10 ^ 21 \<and> \<not> mt_burn_fails e
      then ms_add [CompensationBurned acbu] st else ms_add [CompensationFailed] st)"

definition finish_usdc_mint ::
  "mint_env \<Rightarrow> nat \<Rightarrow> string \<Rightarrow> rat \<Rightarrow> mint_state \<Rightarrow> mint_state option" where
  "finish_usdc_mint e i h acbu st =
     (case complete_mint (mt_update_fails e) (mt_now e) i h acbu st of
        Some st1 \<Rightarrow> Some st1
      | None \<Rightarrow> complete_mint (mt_update2_fails e) (mt_now e) i h acbu (compensate e acbu st))"

definition mint_usdc_on_chain ::
  "mint_env \<Rightarrow> nat \<Rightarrow> rat \<Rightarrow> string \<Rightarrow> mint_state \<Rightarrow> (mint_error + (nat \<times> rat)) \<times> mint_state" where
  "mint_usdc_on_chain e i usdc wallet st =
     (case service_mint e None wallet (decimalToContractNumber prisma_dec usdc) st of
        (Inl err, st1) \<Rightarrow> (Inl err, ms_add [MintAudit ''mint_failed'' i] (fail_mint i st1))
      | (Inr (h, n), st1) \<Rightarrow>
          (case finish_usdc_mint e i h (contractNumberToDecimal (f64 n)) st1 of
             Some st2 \<Rightarrow> (Inr (i, contractNumberToDecimal (f64 n)), ms_add [MintAudit ''mint_completed'' i] st2)
           | None \<Rightarrow> (Inl CompletionFailed, ms_add [MintAudit ''mint_failed'' i]
                 (fail_mint i (compensate e (contractNumberToDecimal (f64 n)) st1)))))"

definition mintFromUsdcInternal ::
  "mint_env \<Rightarrow> rat \<Rightarrow> string \<Rightarrow> string option \<Rightarrow> string option \<Rightarrow> mint_state
     \<Rightarrow> (mint_error + (nat \<times> rat)) \<times> mint_state" where
  "mintFromUsdcInternal e usdcAmount wallet uid org st =
     (let usdc = dec_of_num usdcAmount in
      case create_tx ((pending_mint (mt_now e) uid org None)\<lparr>usdc_amount := Some usdc\<rparr>) (ms_db st) of
        None \<Rightarrow> (Inl KeyConflict, st)
      | Some (db, r) \<Rightarrow>
          let st1 = st\<lparr>ms_db := db\<rparr>; i = tx_id r in
          if \<not> mt_contract e then (Inl MintingNotConfigured, fail_mint i st1)
          else if mt_source e = None then (Inl NoSourceAccount, fail_mint i st1)
          else mint_usdc_on_chain e i usdc wallet st1)"

section \<open>POST /v1/mint/deposit\<close>

record deposit_body =
  db_currency :: string
  db_amount :: string
  db_wallet :: string
  db_fintech :: "string option"

definition fintech_id_ok :: "string \<Rightarrow> bool" where
  "fintech_id_ok s \<longleftrightarrow> s \<noteq> [] \<and> length s \<le> 255 \<and> \<not> list_ex js_space s"

definition parse_deposit :: "deposit_body \<Rightarrow> deposit_body option" where
  "parse_deposit b =
     (let currency = to_upper (db_currency b); fid = map_option trim (db_fintech b) in
      if length (db_currency b) = 3
         \<and> (isAllowedDepositCurrency currency \<or> isForbiddenDepositCurrency currency)
         \<and> positive_amount (db_amount b) \<and> wallet_shape (db_wallet b)
         \<and> (case fid of None \<Rightarrow> True | Some f \<Rightarrow> fintech_id_ok f)
      then Some (b\<lparr>db_currency := currency, db_fintech := fid\<rparr>) else None)"

text \<open>
  Lines 552-613, and 891-974 of the confirmation: the contract call, then the completing update; on
  any failure the row is failed, also when the contract had minted.
\<close>

definition settle_mint ::
  "mint_env \<Rightarrow> nat \<Rightarrow> string \<Rightarrow> rat \<Rightarrow> mint_state \<Rightarrow> (mint_error + rat) \<times> mint_state" where
  "settle_mint e i wallet amount st =
     (case service_mint e (Some i) wallet amount st of
        (Inl err, st1) \<Rightarrow> (Inl err, fail_mint i st1)
      | (Inr (h, n), st1) \<Rightarrow>
          (case complete_mint (mt_update_fails e) (mt_now e) i h (contractNumberToDecimal (f64 n)) st1 of
             Some st2 \<Rightarrow> (Inr (contractNumberToDecimal (f64 n)), st2)
           | None \<Rightarrow> (Inl CompletionFailed, fail_mint i st1)))"

definition mint_deposit ::
  "mint_env \<Rightarrow> nat \<Rightarrow> string \<Rightarrow> rat \<Rightarrow> string \<Rightarrow> mint_state \<Rightarrow> (mint_error + rat) \<times> mint_state" where
  "mint_deposit e i currency amount wallet st =
     (case convertLocalToUsdWithPrecision (mt_rate_mint e) amount currency of
        Inl err \<Rightarrow> (Inl (Convert err), fail_mint i st)
      | Inr info \<Rightarrow>
          if mt_source e = None then (Inl NoSourceAccount, fail_mint i st)
          else settle_mint e i wallet (decimalToContractNumber prisma_dec (acbuEquivalent info)) st)"

text \<open>Lines 495-635: the row, then the mint, then the audit entry.\<close>

definition run_deposit ::
  "mint_env \<Rightarrow> string \<Rightarrow> string option \<Rightarrow> string option \<Rightarrow> string \<Rightarrow> rat \<Rightarrow> string \<Rightarrow> mint_state
     \<Rightarrow> (mint_error + (nat \<times> status)) \<times> mint_state" where
  "run_deposit e uid org key currency amount wallet st =
     (case create_tx ((pending_mint (mt_now e) (Some uid) org key)
             \<lparr>local_currency := Some currency, local_amount := Some amount\<rparr>) (ms_db st) of
        None \<Rightarrow>
          (case Option.bind key (\<lambda>k. find_tx_by_key k (ms_db st)) of
             Some q \<Rightarrow> (Inr (tx_id q, tx_status q), st)
           | None \<Rightarrow> (Inl KeyConflict, st))
      | Some (db, r) \<Rightarrow>
          (case mint_deposit e (tx_id r) currency amount wallet (st\<lparr>ms_db := db\<rparr>) of
             (Inl err, st1) \<Rightarrow> (Inl err, ms_add [MintAudit ''deposit_failed'' (tx_id r)] st1)
           | (Inr _, st1) \<Rightarrow> (Inr (tx_id r, Completed), ms_add [MintAudit ''deposit_created'' (tx_id r)] st1)))"

definition deposit_key :: "mint_env \<Rightarrow> string \<Rightarrow> string option \<Rightarrow> string option \<Rightarrow> mint_error + string option" where
  "deposit_key e uid header fintech =
     bindR (extractIdempotencyKey header) (\<lambda>k.
       Inr (map_option (scopeIdempotencyKey (mt_sha e) uid) (case k of Some x \<Rightarrow> Some x | None \<Rightarrow> fintech)))"

definition depositFromBasketCurrency ::
  "mint_env \<Rightarrow> string option \<Rightarrow> string option \<Rightarrow> audience option \<Rightarrow> string option \<Rightarrow> deposit_body \<Rightarrow> mint_state
     \<Rightarrow> (mint_error + (nat \<times> status)) \<times> mint_state" where
  "depositFromBasketCurrency e uid org aud header body st =
     (case parse_deposit body of
        None \<Rightarrow> (Inl InvalidBody, st)
      | Some b \<Rightarrow>
        if isForbiddenDepositCurrency (db_currency b) then (Inl ForbiddenCurrency, st)
        else if \<not> isAllowedDepositCurrency (db_currency b) then (Inl UnsupportedCurrency, st)
        else bail (map_err BadAmount (parseMonetaryString (db_amount b))) st (\<lambda>amount.
          if \<not> truthy uid then (Inl NoUserContext, st)
          else bail (assertUserWalletAddress e (the uid) (db_wallet b) (ms_users st)) st (\<lambda>_.
            if isMintingPaused (mt_caps e) (mt_ratio e) then (Inl MintingPaused, st)
            else bail (map_err Convert (convertLocalToUsd (mt_rate_check e) (f64 amount) (db_currency b))) st (\<lambda>usd.
              bail (map_err Limit (checkDepositLimits (mt_limits e)
                     (getLimitConfig (mt_caps e) (case aud of Some a \<Rightarrow> a | None \<Rightarrow> Retail))
                     (dec_of_num usd) uid org (ms_db st))) st (\<lambda>_.
                bail (deposit_key e (the uid) header (db_fintech b)) st (\<lambda>key.
                  (case Option.bind key (\<lambda>k. find_tx_by_key k (ms_db st)) of
                     Some q \<Rightarrow> (Inr (tx_id q, tx_status q), st)
                   | None \<Rightarrow> run_deposit e (the uid) org key (db_currency b) amount (db_wallet b) st)))))))"

section \<open>POST /v1/mint/confirm\<close>

datatype signature_result =
    SignatureOk | SecretMissing | TimestampMissing | TimestampInvalid | TimestampExpired
  | SignatureMissing | RawBodyMissing | SignatureMismatch

text \<open>\<open>hex\<close> decodes a header, \<open>hmac\<close> is the keyed digest of the raw body.\<close>

definition verifyMintConfirmationSignature ::
  "(string \<Rightarrow> string) \<Rightarrow> (string \<Rightarrow> string \<Rightarrow> string) \<Rightarrow> string option \<Rightarrow> rat \<Rightarrow> string option \<Rightarrow> string option \<Rightarrow> string option
     \<Rightarrow> signature_result" where
  "verifyMintConfirmationSignature hex hmac secret nowS ts received rawBody =
     (if \<not> truthy secret then SecretMissing
      else if \<not> truthy ts then TimestampMissing
      else (case js_number (the ts) of
          Fin t \<Rightarrow>
            if 300 < \<bar>nowS - t\<bar> then TimestampExpired
            else if \<not> truthy received then SignatureMissing
            else (case rawBody of
                None \<Rightarrow> RawBodyMissing
              | Some raw \<Rightarrow> if hex (the received) = hmac (the secret) raw then SignatureOk else SignatureMismatch)
        | _ \<Rightarrow> TimestampInvalid))"

record confirm_body =
  cb_tx :: nat
  cb_reference :: string
  cb_amount :: string
  cb_currency :: string
  cb_confirmed_at :: int

definition parse_confirm :: "confirm_body \<Rightarrow> confirm_body option" where
  "parse_confirm b =
     (if cb_reference b \<noteq> [] \<and> length (cb_reference b) \<le> 255 \<and> \<not> list_ex js_space (cb_reference b)
         \<and> positive_amount (cb_amount b) \<and> length (cb_currency b) = 3 \<and> 0 < cb_confirmed_at b
      then Some (b\<lparr>cb_currency := to_upper (cb_currency b)\<rparr>) else None)"

definition confirm_on_chain ::
  "mint_env \<Rightarrow> nat \<Rightarrow> string \<Rightarrow> rat \<Rightarrow> mint_state \<Rightarrow> (mint_error + status) \<times> mint_state" where
  "confirm_on_chain e i wallet amount st =
     (case settle_mint e i wallet amount st of
        (Inl err, st1) \<Rightarrow> (Inl err, st1)
      | (Inr _, st1) \<Rightarrow> (Inr Completed, ms_add [MintAudit ''mint_confirmed'' i] st1))"

definition confirmMint :: "mint_env \<Rightarrow> confirm_body \<Rightarrow> mint_state \<Rightarrow> (mint_error + status) \<times> mint_state" where
  "confirmMint e body st =
     (case parse_confirm body of
        None \<Rightarrow> (Inl InvalidBody, st)
      | Some b \<Rightarrow>
        (case find_tx (cb_tx b) (ms_db st) of
           None \<Rightarrow> (Inl MintTxNotFound, st)
         | Some tx \<Rightarrow>
           if tx_status tx = Completed then (Inr Completed, st)
           else if tx_status tx \<noteq> Pending then (Inl (WrongStatus (tx_status tx)), st)
           else if isMintingPaused (mt_caps e) (mt_ratio e) then (Inl MintingPaused, st)
           else
             let wallet = Option.bind (find_user (case tx_user tx of Some u \<Rightarrow> u | None \<Rightarrow> []) (ms_users st)) stellar_address in
             if \<not> truthy wallet then (Inl OwnerWalletMissing, st)
             else bail (map_err BadAmount (parseMonetaryString (cb_amount b))) st (\<lambda>amount.
               bail (map_err Convert (convertLocalToUsdWithPrecision (mt_rate_mint e) amount (cb_currency b))) st (\<lambda>info.
                 if mt_source e = None then (Inl NoSourceAccount, st)
                 else confirm_on_chain e (cb_tx b) (the wallet)
                        (decimalToContractNumber prisma_dec (acbuEquivalent info))
                        (ms_tx (cb_tx b) (\<lambda>r. r\<lparr>tx_status := Processing\<rparr>) st)))))"

section \<open>Effects\<close>

text \<open>Updates of a mint row touch its status, hash, minted amount and completion time only.\<close>

definition deposit_fields :: "txn \<Rightarrow> nat \<times> string option \<times> string option \<times> string option \<times> tx_type \<times> rat option \<times> rat option \<times> int" where
  "deposit_fields r = (tx_id r, tx_user r, tx_org r, tx_key r, tx_type r, usdc_amount r, amount_usd r, created_at r)"

definition mint_update :: "nat \<Rightarrow> txdb \<Rightarrow> txdb \<Rightarrow> bool" where
  "mint_update i db db' \<longleftrightarrow> (\<exists>f. (\<forall>r. deposit_fields (f r) = deposit_fields r) \<and> db' = update_tx i f db)"

lemma mint_updateI: "(\<And>r. deposit_fields (f r) = deposit_fields r) \<Longrightarrow> mint_update i db (update_tx i f db)"
  unfolding mint_update_def by blast

lemma mint_update_refl [simp]: "mint_update i db db"
proof -
  have "update_tx i id db = db" by (simp add: update_tx_def map_idI)
  then show ?thesis by (metis id_apply mint_updateI)
qed

lemma mint_update_trans: "mint_update i a b \<Longrightarrow> mint_update i b c \<Longrightarrow> mint_update i a c"
proof -
  assume "mint_update i a b" "mint_update i b c"
  then obtain f g where fg: "\<forall>r. deposit_fields (f r) = deposit_fields r" "b = update_tx i f a"
      "\<forall>r. deposit_fields (g r) = deposit_fields r" "c = update_tx i g b"
    unfolding mint_update_def by auto
  have "tx_id (f r) = tx_id r" for r using fg(1) by (simp add: deposit_fields_def)
  then have "c = update_tx i (g \<circ> f) a" using fg(2,4) by (simp add: update_tx_def)
  moreover have "\<And>r. deposit_fields ((g \<circ> f) r) = deposit_fields r" using fg(1,3) by simp
  ultimately show ?thesis using mint_updateI [of "g \<circ> f"] by simp
qed

lemma mint_update_keeps:
  assumes "mint_update i db db'"
  shows "tx_inv db \<Longrightarrow> tx_inv db'" and "map deposit_fields (tx_rows db') = map deposit_fields (tx_rows db)"
    and "j \<noteq> i \<Longrightarrow> find_tx j db' = find_tx j db"
proof -
  from assms obtain f where f: "\<And>r. deposit_fields (f r) = deposit_fields r" "db' = update_tx i f db"
    unfolding mint_update_def by auto
  have k: "\<And>r. tx_key (f r) = tx_key r" "\<And>r. tx_id (f r) = tx_id r" using f(1) by (simp_all add: deposit_fields_def)
  show "tx_inv db \<Longrightarrow> tx_inv db'" unfolding f(2) by (rule update_tx_inv) (simp_all add: k)
  show "map deposit_fields (tx_rows db') = map deposit_fields (tx_rows db)"
    using f(1) by (simp add: f(2) update_tx_def)
  show "j \<noteq> i \<Longrightarrow> find_tx j db' = find_tx j db"
    unfolding f(2) by (rule find_update_other) (simp_all add: k)
qed

lemma fail_mint_keeps [simp]:
  "ms_log (fail_mint i st) = ms_log st" "ms_users (fail_mint i st) = ms_users st" "ms_swaps (fail_mint i st) = ms_swaps st"
  "mint_update i (ms_db st) (ms_db (fail_mint i st))"
  by (simp_all add: fail_mint_def ms_tx_def mint_updateI deposit_fields_def)

lemma fail_mint_find: "find_tx i (ms_db st) = Some r \<Longrightarrow> find_tx i (ms_db (fail_mint i st)) = Some (r\<lparr>tx_status := Failed\<rparr>)"
  by (simp add: fail_mint_def ms_tx_def find_update_same)

lemma ms_add_keeps [simp]:
  "ms_log (ms_add es st) = ms_log st @ es" "ms_users (ms_add es st) = ms_users st"
  "ms_swaps (ms_add es st) = ms_swaps st" "ms_db (ms_add es st) = ms_db st"
  by (simp_all add: ms_add_def)

lemma complete_mintD:
  assumes "complete_mint b now i h a st = Some st'" and "find_tx i (ms_db st) = Some r"
  shows "ms_log st' = ms_log st" and "ms_users st' = ms_users st" and "ms_swaps st' = ms_swaps st"
    and "mint_update i (ms_db st) (ms_db st')"
    and "find_tx i (ms_db st') = Some (r\<lparr>tx_status := Completed, tx_hash := Some h, completed_at := Some now, acbu_amount := Some a\<rparr>)"
proof -
  from assms(1) obtain db where db: "complete_tx i h now (ms_db st) = Some db"
      "st' = st\<lparr>ms_db := update_tx i (\<lambda>r. r\<lparr>acbu_amount := Some a\<rparr>) db\<rparr>"
    by (auto simp: complete_mint_def split: if_splits)
  from db(2) show "ms_log st' = ms_log st" "ms_users st' = ms_users st" "ms_swaps st' = ms_swaps st" by simp_all
  note eq = complete_tx_SomeD [OF db(1)]
  have "mint_update i (ms_db st) db" unfolding eq by (rule mint_updateI) (simp add: deposit_fields_def)
  moreover have "mint_update i db (ms_db st')" unfolding db(2) by (simp add: mint_updateI deposit_fields_def)
  ultimately show "mint_update i (ms_db st) (ms_db st')" by (rule mint_update_trans)
  show "find_tx i (ms_db st') = Some (r\<lparr>tx_status := Completed, tx_hash := Some h, completed_at := Some now, acbu_amount := Some a\<rparr>)"
    unfolding db(2) eq using assms(2) by (simp add: find_update_same)
qed

text \<open>
  What a settled mint leaves behind: only row \<open>i\<close> changed, it is completed or failed according to the
  outcome, the contract was called at most once, exactly once on success, and for a recipient and an
  amount that satisfy \<open>W\<close>.
\<close>

definition mint_settled :: "nat \<Rightarrow> (string \<Rightarrow> rat \<Rightarrow> bool) \<Rightarrow> mint_state \<Rightarrow> rat option \<Rightarrow> mint_state \<Rightarrow> bool" where
  "mint_settled i W st a st' \<longleftrightarrow>
     ms_users st' = ms_users st \<and> ms_swaps st' = ms_swaps st \<and> mint_update i (ms_db st) (ms_db st')
     \<and> (\<exists>r. find_tx i (ms_db st') = Some r \<and>
          (case a of Some x \<Rightarrow> tx_status r = Completed \<and> acbu_amount r = Some x | None \<Rightarrow> tx_status r = Failed))
     \<and> (case a of
          Some x \<Rightarrow> \<exists>w q n. W w q \<and> ms_log st' = ms_log st @ [ChainMinted w q n] \<and> x = contractNumberToDecimal (f64 n)
        | None \<Rightarrow> ms_log st' = ms_log st \<or> (\<exists>w q n. W w q \<and> ms_log st' = ms_log st @ [ChainMinted w q n]))"

definition outcome :: "'e + 'a \<Rightarrow> 'a option" where
  "outcome r = (case r of Inl _ \<Rightarrow> None | Inr a \<Rightarrow> Some a)"

lemma outcome_simps [simp]: "outcome (Inl err) = None" "outcome (Inr a) = Some a"
  by (simp_all add: outcome_def)

lemma settle_mint_settled:
  assumes "find_tx i (ms_db st) = Some r"
  shows "mint_settled i (\<lambda>w q. w = wallet \<and> q = amount) st (outcome (fst (settle_mint e i wallet amount st))) (snd (settle_mint e i wallet amount st))"
proof -
  have failed: "mint_settled i W s None (fail_mint i s)" if "find_tx i (ms_db s) = Some r" for s W
    using fail_mint_find [OF that] by (simp add: mint_settled_def)
  have twice: "mint_settled i W st None (fail_mint i (fail_mint i st))" for W
    using fail_mint_find [OF fail_mint_find [OF assms]] mint_update_trans [of i "ms_db st" "ms_db (fail_mint i st)"]
    by (simp add: mint_settled_def)
  show ?thesis
  proof (cases "contract_call e wallet amount st")
    case (Pair res s)
    show ?thesis
    proof (cases res)
      case (Inl err)
      then have "s = st" using Pair by (auto simp: contract_call_def split: if_splits chain_outcome.splits)
      then show ?thesis using Pair Inl twice by (simp add: settle_mint_def service_mint_def)
    next
      case (Inr hn)
      obtain h n where hn: "hn = (h, n)" by (cases hn)
      then have s: "s = ms_add [ChainMinted wallet amount n] st"
        using Pair Inr by (auto simp: contract_call_def split: if_splits chain_outcome.splits)
      have find_s: "find_tx i (ms_db s) = Some r" using assms s by simp
      show ?thesis
      proof (cases "complete_mint (mt_update_fails e) (mt_now e) i h (contractNumberToDecimal (f64 n)) s")
        case None
        then show ?thesis using Pair Inr hn failed [OF find_s, of "\<lambda>w q. True"] s
          by (auto simp: settle_mint_def service_mint_def mint_settled_def)
      next
        case (Some s')
        show ?thesis using Pair Inr hn Some complete_mintD [OF Some find_s] s
          by (auto simp: settle_mint_def service_mint_def mint_settled_def)
      qed
    qed
  qed
qed
definition deposit_asks :: "mint_env \<Rightarrow> string \<Rightarrow> rat \<Rightarrow> string \<Rightarrow> string \<Rightarrow> rat \<Rightarrow> bool" where
  "deposit_asks e currency amount wallet w q \<longleftrightarrow> w = wallet \<and>
     (\<exists>info. convertLocalToUsdWithPrecision (mt_rate_mint e) amount currency = Inr info
       \<and> q = decimalToContractNumber prisma_dec (acbuEquivalent info))"

lemma mint_settled_weaken: "mint_settled i W st a st' \<Longrightarrow> (\<And>w q. W w q \<Longrightarrow> V w q) \<Longrightarrow> mint_settled i V st a st'"
  unfolding mint_settled_def by (cases a) auto

lemma mint_deposit_settled:
  assumes "find_tx i (ms_db st) = Some r"
  shows "mint_settled i (deposit_asks e currency amount wallet) st (outcome (fst (mint_deposit e i currency amount wallet st)))
           (snd (mint_deposit e i currency amount wallet st))"
proof (cases "convertLocalToUsdWithPrecision (mt_rate_mint e) amount currency")
  case (Inl err)
  then show ?thesis using fail_mint_find [OF assms] by (simp add: mint_deposit_def mint_settled_def)
next
  case (Inr info)
  show ?thesis
  proof (cases "mt_source e")
    case None
    then show ?thesis using Inr fail_mint_find [OF assms] by (simp add: mint_deposit_def mint_settled_def)
  next
    case (Some a)
    have "mint_settled i (deposit_asks e currency amount wallet) st (outcome (fst (settle_mint e i wallet q st)))
        (snd (settle_mint e i wallet q st))" if "q = decimalToContractNumber prisma_dec (acbuEquivalent info)" for q
      by (rule mint_settled_weaken [OF settle_mint_settled [OF assms]]) (use Inr that in \<open>simp add: deposit_asks_def\<close>)
    then show ?thesis using Some Inr by (simp add: mint_deposit_def)
  qed
qed

definition minted :: "mint_state \<Rightarrow> mint_event list" where
  "minted st = filter (\<lambda>ev. case ev of ChainMinted _ _ _ \<Rightarrow> True | _ \<Rightarrow> False) (ms_log st)"

text \<open>
  A call that gets as far as \<open>run_deposit\<close> either finds the key taken and changes nothing, or creates one
  pending row and settles it.
\<close>

lemma run_deposit_cases:
  assumes "tx_inv (ms_db st)" and "run_deposit e uid org key currency amount wallet st = (res, st')"
  obtains (taken) "key \<noteq> None" "st' = st"
      "\<exists>q \<in> set (tx_rows (ms_db st)). tx_key q = key" "res = Inl KeyConflict \<or> (\<exists>q \<in> set (tx_rows (ms_db st)). tx_key q = key \<and> res = Inr (tx_id q, tx_status q))"
  | (ran) db r a st1 where
      "create_tx ((pending_mint (mt_now e) (Some uid) org key)\<lparr>local_currency := Some currency, local_amount := Some amount\<rparr>) (ms_db st) = Some (db, r)"
      "mint_settled (tx_id r) (deposit_asks e currency amount wallet) (st\<lparr>ms_db := db\<rparr>) a st1"
      "case a of Some x \<Rightarrow> res = Inr (tx_id r, Completed) \<and> st' = ms_add [MintAudit ''deposit_created'' (tx_id r)] st1
               | None \<Rightarrow> (\<exists>err. res = Inl err) \<and> st' = ms_add [MintAudit ''deposit_failed'' (tx_id r)] st1"
proof (cases "create_tx ((pending_mint (mt_now e) (Some uid) org key)\<lparr>local_currency := Some currency, local_amount := Some amount\<rparr>) (ms_db st)")
  case None
  then have k: "key \<noteq> None" "\<exists>q \<in> set (tx_rows (ms_db st)). tx_key q = key"
    by (auto simp: create_tx_def pending_mint_def Let_def split: if_splits)
  show thesis
  proof (rule taken)
    show "key \<noteq> None" "\<exists>q \<in> set (tx_rows (ms_db st)). tx_key q = key" by fact+
    show "st' = st" using assms(2) None by (auto simp: run_deposit_def split: option.splits)
    show "res = Inl KeyConflict \<or> (\<exists>q \<in> set (tx_rows (ms_db st)). tx_key q = key \<and> res = Inr (tx_id q, tx_status q))"
      using assms(2) None k(1)
      by (auto simp: run_deposit_def find_tx_by_key_def dest!: find_SomeD split: option.splits)
  qed
next
  case (Some dbr)
  obtain db r where dbr: "dbr = (db, r)" by (cases dbr)
  note c = Some [unfolded dbr]
  have "find_tx (tx_id r) (ms_db (st\<lparr>ms_db := db\<rparr>)) = Some r" using find_created [OF assms(1) c] by simp
  note settled = mint_deposit_settled [OF this, of e currency amount wallet]
  define out where "out = mint_deposit e (tx_id r) currency amount wallet (st\<lparr>ms_db := db\<rparr>)"
  obtain mres st1 where o: "out = (mres, st1)" by (cases out)
  show thesis
  proof (rule ran [OF c])
    show "mint_settled (tx_id r) (deposit_asks e currency amount wallet) (st\<lparr>ms_db := db\<rparr>) (outcome mres) st1"
      using settled o by (simp add: out_def)
    show "case outcome mres of Some x \<Rightarrow> res = Inr (tx_id r, Completed) \<and> st' = ms_add [MintAudit ''deposit_created'' (tx_id r)] st1
        | None \<Rightarrow> (\<exists>err. res = Inl err) \<and> st' = ms_add [MintAudit ''deposit_failed'' (tx_id r)] st1"
      using assms(2) c o by (cases mres) (auto simp: run_deposit_def out_def)
  qed
qed

lemma forbidden_not_three: "isForbiddenDepositCurrency c \<Longrightarrow> length c \<noteq> 3"
  by (auto simp: isForbiddenDepositCurrency_def FORBIDDEN_DEPOSIT_CURRENCIES_def to_upper_def dest!: arg_cong [of _ _ length])

text \<open>
  The branch for forbidden currencies is dead: \<open>USDC\<close> and \<open>USDT\<close> have four letters, the schema wants three.
\<close>

lemma deposit_never_forbidden:
  "fst (depositFromBasketCurrency e uid org aud header body st) \<noteq> Inl ForbiddenCurrency"
proof -
  have "\<not> isForbiddenDepositCurrency (db_currency b)" if "parse_deposit body = Some b" for b
    using that forbidden_not_three [of "db_currency b"]
    by (auto simp: parse_deposit_def Let_def to_upper_def split: if_splits)
  moreover have "fst (run_deposit e u org key c a w st) \<noteq> Inl ForbiddenCurrency" for u key c a w
    by (auto simp: run_deposit_def mint_deposit_def settle_mint_def service_mint_def contract_call_def
        split: option.split sum.split prod.split chain_outcome.split)
  ultimately show ?thesis
    by (auto simp: depositFromBasketCurrency_def deposit_key_def extractIdempotencyKey_def assertUserWalletAddress_def Let_def
        map_err_def bindR_def split: option.split sum.split bail_split)
qed

text \<open>Everything that is checked before a deposit touches the database.\<close>

definition deposit_cleared ::
  "mint_env \<Rightarrow> string \<Rightarrow> string option \<Rightarrow> audience option \<Rightarrow> string option \<Rightarrow> deposit_body \<Rightarrow> mint_state
     \<Rightarrow> deposit_body \<Rightarrow> rat \<Rightarrow> rat \<Rightarrow> string option \<Rightarrow> bool" where
  "deposit_cleared e u org aud header body st b amount usd key \<longleftrightarrow>
     parse_deposit body = Some b \<and> u \<noteq> [] \<and> parseMonetaryString (db_amount b) = Inr amount
     \<and> assertUserWalletAddress e u (db_wallet b) (ms_users st) = Inr (db_wallet b)
     \<and> \<not> isMintingPaused (mt_caps e) (mt_ratio e)
     \<and> convertLocalToUsd (mt_rate_check e) (f64 amount) (db_currency b) = Inr usd
     \<and> checkDepositLimits (mt_limits e) (getLimitConfig (mt_caps e) (case aud of Some a \<Rightarrow> a | None \<Rightarrow> Retail))
         (dec_of_num usd) (Some u) org (ms_db st) = Inr ()
     \<and> deposit_key e u header (db_fintech b) = Inr key
     \<and> (\<forall>k. key = Some k \<longrightarrow> find_tx_by_key k (ms_db st) = None)"

lemma assert_wallet_same: "assertUserWalletAddress e u w us = Inr a \<Longrightarrow> a = w"
  by (auto simp: assertUserWalletAddress_def split: option.splits if_splits)

lemma deposit_cases:
  assumes "depositFromBasketCurrency e uid org aud header body st = (res, st')"
  obtains (idle) "st' = st" "(\<exists>err. res = Inl err) \<or> (\<exists>q \<in> set (tx_rows (ms_db st)). res = Inr (tx_id q, tx_status q))"
  | (ran) u b amount usd key where "uid = Some u" "deposit_cleared e u org aud header body st b amount usd key"
      "run_deposit e u org key (db_currency b) amount (db_wallet b) st = (res, st')"
proof (cases "st' = st \<and> ((\<exists>err. res = Inl err) \<or> (\<exists>q \<in> set (tx_rows (ms_db st)). res = Inr (tx_id q, tx_status q)))")
  case True
  then show thesis using idle by blast
next
  case False
  show thesis
    using assms False
    by (auto simp: depositFromBasketCurrency_def bail_def truthy_def map_err_def find_tx_by_key_def
        bind_eq_None_conv bind_eq_Some_conv deposit_cleared_def
        split: option.splits sum.splits if_splits dest!: find_SomeD dest: assert_wallet_same intro!: ran)
qed
section \<open>Deposits\<close>

text \<open>
  C7. A deposit either changes nothing, or passes every guard and leaves exactly one new row, of the
  depositor, completed with the amount the contract minted into the depositor's own registered
  wallet when the call succeeds, and failed when it does not. The contract is called at most once.
\<close>

theorem deposit_settles:
  assumes "tx_inv (ms_db st)" and "depositFromBasketCurrency e uid org aud header body st = (res, st')" and "st' \<noteq> st"
  shows "\<exists>u b amount usd key db r r'. uid = Some u \<and> deposit_cleared e u org aud header body st b amount usd key
     \<and> create_tx ((pending_mint (mt_now e) (Some u) org key)
          \<lparr>local_currency := Some (db_currency b), local_amount := Some amount\<rparr>) (ms_db st) = Some (db, r)
     \<and> length (tx_rows (ms_db st')) = Suc (length (tx_rows (ms_db st)))
     \<and> (\<forall>j. j \<noteq> tx_id r \<longrightarrow> find_tx j (ms_db st') = find_tx j (ms_db st))
     \<and> find_tx (tx_id r) (ms_db st') = Some r'
     \<and> (res = Inr (tx_id r, Completed) \<and> tx_status r' = Completed
          \<and> (\<exists>w q n. deposit_asks e (db_currency b) amount (db_wallet b) w q \<and> minted st' = minted st @ [ChainMinted w q n] \<and> acbu_amount r' = Some (contractNumberToDecimal (f64 n)))
        \<or> (\<exists>err. res = Inl err) \<and> tx_status r' = Failed
          \<and> (minted st' = minted st \<or> (\<exists>w q n. deposit_asks e (db_currency b) amount (db_wallet b) w q \<and> minted st' = minted st @ [ChainMinted w q n])))"
  using assms(2)
proof (cases rule: deposit_cases)
  case idle
  then show ?thesis using assms(3) by simp
next
  case (ran u b amount usd key)
  from assms(1) ran(3) show ?thesis
  proof (cases rule: run_deposit_cases)
    case taken
    then show ?thesis using assms(3) by simp
  next
    case (ran db r a st1)
    note c = create_tx_rows [OF ran(1)] and up = ran(2) [unfolded mint_settled_def]
    have mu: "mint_update (tx_id r) db (ms_db st1)" using up by simp
    have same: "ms_db st' = ms_db st1" using ran(3) by (auto split: option.splits)
    have len: "length (tx_rows (ms_db st')) = Suc (length (tx_rows (ms_db st)))"
      using arg_cong [OF mint_update_keeps(2) [OF mu], of length] same c by simp
    have others: "\<forall>j. j \<noteq> tx_id r \<longrightarrow> find_tx j (ms_db st') = find_tx j (ms_db st)"
      using mint_update_keeps(3) [OF mu] find_tx_old [OF assms(1) ran(1)] same by simp
    from up obtain r' where r': "find_tx (tx_id r) (ms_db st1) = Some r'"
        "case a of Some x \<Rightarrow> tx_status r' = Completed \<and> acbu_amount r' = Some x | None \<Rightarrow> tx_status r' = Failed" by blast
    have "res = Inr (tx_id r, Completed) \<and> tx_status r' = Completed
          \<and> (\<exists>w q n. deposit_asks e (db_currency b) amount (db_wallet b) w q \<and> minted st' = minted st @ [ChainMinted w q n] \<and> acbu_amount r' = Some (contractNumberToDecimal (f64 n)))
        \<or> (\<exists>err. res = Inl err) \<and> tx_status r' = Failed
          \<and> (minted st' = minted st \<or> (\<exists>w q n. deposit_asks e (db_currency b) amount (db_wallet b) w q \<and> minted st' = minted st @ [ChainMinted w q n]))"
      using ran(3) up r'(2) by (cases a) (auto simp: minted_def)
    with r'(1) same len others ran(1) \<open>uid = Some u\<close> \<open>deposit_cleared _ _ _ _ _ _ _ _ _ _ _\<close>
    show ?thesis by (intro exI [of _ u] exI [of _ b] exI [of _ amount] exI [of _ usd] exI [of _ key] exI [of _ db] exI [of _ r] exI [of _ r']) simp
  qed
qed

text \<open>Retries: whatever is sent under one key of one user, the table has at most one row for it.\<close>

definition has_key :: "string \<Rightarrow> mint_state \<Rightarrow> bool" where
  "has_key k st \<longleftrightarrow> find_tx_by_key k (ms_db st) \<noteq> None"

lemma deposit_key_header:
  "deposit_key e u (Some raw) f = Inr key \<Longrightarrow> trim raw \<noteq> [] \<Longrightarrow> key = Some (scopeIdempotencyKey (mt_sha e) u (trim raw))"
  by (auto simp: deposit_key_def extractIdempotencyKey_def Let_def split: if_splits)

lemma deposit_keeps_inv:
  assumes "tx_inv (ms_db st)"
  shows "tx_inv (ms_db (snd (depositFromBasketCurrency e uid org aud header body st)))"
proof (cases "depositFromBasketCurrency e uid org aud header body st")
  case (Pair res st')
  from Pair show ?thesis
  proof (cases rule: deposit_cases)
    case idle
    then show ?thesis using Pair assms by simp
  next
    case (ran u b amount usd key)
    from assms ran(3) show ?thesis
    proof (cases rule: run_deposit_cases)
      case taken
      then show ?thesis using Pair assms by simp
    next
      case (ran db r a st1)
      have "tx_inv (ms_db st1)"
        using mint_update_keeps(1) ran(2) create_tx_inv [OF assms ran(1)] by (auto simp: mint_settled_def)
      then show ?thesis using Pair ran(3) by (auto split: option.splits)
    qed
  qed
qed

lemma deposit_key_row:
  assumes "tx_inv (ms_db st)" and "depositFromBasketCurrency e (Some u) org aud (Some raw) body st = (res, st')" and "trim raw \<noteq> []"
  shows "(has_key (scopeIdempotencyKey (mt_sha e) u (trim raw)) st \<longrightarrow> st' = st)
       \<and> (st' \<noteq> st \<longrightarrow> has_key (scopeIdempotencyKey (mt_sha e) u (trim raw)) st' \<and> length (minted st') \<le> Suc (length (minted st)))"
  using assms(2)
proof (cases rule: deposit_cases)
  case idle
  then show ?thesis by simp
next
  case (ran u' b amount usd key)
  then have key: "key = Some (scopeIdempotencyKey (mt_sha e) u (trim raw))"
    using deposit_key_header assms(3) by (auto simp: deposit_cleared_def)
  then have free: "\<not> has_key (scopeIdempotencyKey (mt_sha e) u (trim raw)) st"
    using ran(2) by (simp add: deposit_cleared_def has_key_def)
  from assms(1) ran(3) show ?thesis
  proof (cases rule: run_deposit_cases)
    case taken
    then show ?thesis by simp
  next
    case (ran db r a st1)
    have "tx_key r = key" using create_tx_rows [OF ran(1)] by (simp add: pending_mint_def)
    moreover have "r \<in> set (tx_rows db)" using create_tx_rows [OF ran(1)] by simp
    ultimately have "key \<in> set (map (\<lambda>d. fst (snd (snd (snd d)))) (map deposit_fields (tx_rows db)))"
      by (force simp: deposit_fields_def)
    moreover have "map deposit_fields (tx_rows (ms_db st1)) = map deposit_fields (tx_rows db)"
      using mint_update_keeps(2) ran(2) by (auto simp: mint_settled_def)
    ultimately have "key \<in> set (map (\<lambda>d. fst (snd (snd (snd d)))) (map deposit_fields (tx_rows (ms_db st1))))" by simp
    then have "has_key (scopeIdempotencyKey (mt_sha e) u (trim raw)) st1"
      using key by (auto simp: has_key_def find_tx_by_key_def find_None_iff deposit_fields_def)
    moreover have "ms_db st' = ms_db st1" using ran(3) by (auto split: option.splits)
    moreover have "length (minted st') \<le> Suc (length (minted st))"
      using ran(2,3) by (cases a) (auto simp: mint_settled_def minted_def)
    ultimately show ?thesis using free by (simp add: has_key_def)
  qed
qed

record deposit_call =
  dc_env :: mint_env
  dc_org :: "string option"
  dc_audience :: "audience option"
  dc_body :: deposit_body

definition deposit_calls :: "string \<Rightarrow> string \<Rightarrow> deposit_call list \<Rightarrow> mint_state \<Rightarrow> mint_state" where
  "deposit_calls u raw cs st =
     fold (\<lambda>c s. snd (depositFromBasketCurrency (dc_env c) (Some u) (dc_org c) (dc_audience c) (Some raw) (dc_body c) s)) cs st"

lemma deposit_calls_taken:
  assumes "tx_inv (ms_db st)" and "\<forall>c \<in> set cs. mt_sha (dc_env c) = sha" and "trim raw \<noteq> []"
    and "has_key (scopeIdempotencyKey sha u (trim raw)) st"
  shows "deposit_calls u raw cs st = st"
  using assms(2)
proof (induction cs)
  case (Cons c cs)
  have "snd (depositFromBasketCurrency (dc_env c) (Some u) (dc_org c) (dc_audience c) (Some raw) (dc_body c) st) = st"
    using deposit_key_row [OF assms(1) prod.collapse [symmetric] assms(3), of "dc_env c" u "dc_org c" "dc_audience c" "dc_body c"]
      assms(4) Cons.prems by simp
  then show ?case using Cons by (simp add: deposit_calls_def)
qed (simp add: deposit_calls_def)

text \<open>
  C8. Retries cannot mint twice: however often deposits are sent under one idempotency key of one user, with
  whatever bodies, rates and contract answers, the contract mints at most once.
\<close>

theorem deposit_key_mints_at_most_once:
  assumes "tx_inv (ms_db st)" and "\<forall>c \<in> set cs. mt_sha (dc_env c) = sha" and "trim raw \<noteq> []"
  shows "length (minted (deposit_calls u raw cs st)) \<le> Suc (length (minted st))"
  using assms(1,2)
proof (induction cs arbitrary: st)
  case (Cons c cs)
  let ?s = "snd (depositFromBasketCurrency (dc_env c) (Some u) (dc_org c) (dc_audience c) (Some raw) (dc_body c) st)"
  note row = deposit_key_row [OF Cons.prems(1) prod.collapse [symmetric] assms(3), of "dc_env c" u "dc_org c" "dc_audience c" "dc_body c"]
  have inv: "tx_inv (ms_db ?s)" by (rule deposit_keeps_inv [OF Cons.prems(1)])
  have step: "deposit_calls u raw (c # cs) st = deposit_calls u raw cs ?s" by (simp add: deposit_calls_def)
  show ?case
  proof (cases "?s = st")
    case True
    then show ?thesis using Cons step by simp
  next
    case False
    then have "deposit_calls u raw cs ?s = ?s"
      using deposit_calls_taken [OF inv _ assms(3), of cs sha u] row Cons.prems(2) by simp
    then show ?thesis using step row False by simp
  qed
qed (simp add: deposit_calls_def)
section \<open>What the deposit limits see\<close>

text \<open>A row that carries neither \<open>usdcAmount\<close> nor \<open>amountUsd\<close> adds nothing to the sums of the limits.\<close>

lemma mint_update_new_row:
  assumes "tx_inv db" and "create_tx r0 db = Some (db', r)" and "mint_update (tx_id r) db' db''"
  obtains r' where "tx_rows db'' = tx_rows db @ [r']" and "deposit_fields r' = deposit_fields r"
proof -
  from assms(3) obtain f where f: "\<And>q. deposit_fields (f q) = deposit_fields q" "db'' = update_tx (tx_id r) f db'"
    unfolding mint_update_def by auto
  note c = create_tx_rows [OF assms(2)]
  have "\<forall>q \<in> set (tx_rows db). tx_id q \<noteq> tx_id r" using assms(1) c by (auto simp: tx_inv_def)
  then have "map (\<lambda>q. if tx_id q = tx_id r then f q else q) (tx_rows db) = tx_rows db" by (simp add: map_idI)
  then have "tx_rows db'' = tx_rows db @ [f r]" using c f(2) by (simp add: update_tx_def)
  with f(1) that show thesis by blast
qed

lemma sumDeposits_unpriced_row:
  assumes "tx_rows db' = tx_rows db @ [r]" and "usdc_amount r = None" and "amount_usd r = None"
  shows "sumDepositsUsdSince le since w db' = sumDepositsUsdSince le since w db"
  using assms by (simp add: sumDepositsUsdSince_def sum_some_def)

text \<open>
  Basket deposits never count against the deposit caps. The limits add up \<open>usdcAmount\<close>, and for rows
  without it \<open>amountUsd\<close>; a deposit in a basket currency stores neither. So whatever deposits an actor
  makes, the sum every later check starts from is the sum before them.
\<close>

theorem basket_deposits_never_counted:
  assumes "tx_inv (ms_db st)"
  shows "sumDepositsUsdSince le since w (ms_db (snd (depositFromBasketCurrency e uid org aud header body st)))
       = sumDepositsUsdSince le since w (ms_db st)"
proof (cases "depositFromBasketCurrency e uid org aud header body st")
  case (Pair res st')
  from Pair show ?thesis
  proof (cases rule: deposit_cases)
    case idle
    then show ?thesis using Pair by simp
  next
    case (ran u b amount usd key)
    from assms ran(3) show ?thesis
    proof (cases rule: run_deposit_cases)
      case taken
      then show ?thesis using Pair by simp
    next
      case (ran db r a st1)
      have "mint_update (tx_id r) db (ms_db st1)" using ran(2) by (simp add: mint_settled_def)
      then obtain r' where r': "tx_rows (ms_db st1) = tx_rows (ms_db st) @ [r']" "deposit_fields r' = deposit_fields r"
        using mint_update_new_row [OF assms ran(1)] by blast
      have "usdc_amount r' = None" "amount_usd r' = None"
        using r'(2) create_tx_rows [OF ran(1)] by (simp_all add: deposit_fields_def pending_mint_def new_txn_def)
      moreover have "ms_db st' = ms_db st1" using ran(3) by (auto split: option.splits)
      ultimately show ?thesis using Pair sumDeposits_unpriced_row [OF r'(1)] by simp
    qed
  qed
qed

lemma mintFromUsdc_cases:
  assumes "mintFromUsdc e uid org aud header b st = (res, st')"
  shows "ms_db st' = ms_db st \<and> ms_users st' = ms_users st \<and> minted st' = minted st"
  using assms
  by (auto simp: mintFromUsdc_def register_swap_def bail_def Let_def minted_def
      split: option.splits sum.splits if_splits prod.splits)

text \<open>What an accepted request without a key does.\<close>

lemma mintFromUsdc_accepted:
  assumes "mintFromUsdc e (Some u) org aud None b st = (Inr x, st')"
  obtains a address where "u \<noteq> []" "usdc_body_ok b" "parseMonetaryString (ub_amount b) = Inr a"
    "assertUserWalletAddress e u (ub_wallet b) (ms_users st) = Inr address"
    "mint_guards e (case aud of Some c \<Rightarrow> c | None \<Rightarrow> Retail) a u org (ms_db st) = Inr ()"
    "map sw_usdc (sw_rows (ms_swaps st')) = map sw_usdc (sw_rows (ms_swaps st)) @ [Some a]"
  using assms
  by (auto simp: mintFromUsdc_def extractIdempotencyKey_def register_swap_def create_swap_def truthy_def bail_def Let_def
      split: option.splits sum.splits if_splits)

lemma mintFromUsdc_again:
  assumes "mintFromUsdc e (Some u) org aud None b st = (Inr x, st')"
    and "ms_db s = ms_db st" and "ms_users s = ms_users st"
  shows "\<exists>y. fst (mintFromUsdc e (Some u) org aud None b s) = Inr y"
  using assms(1)
proof (rule mintFromUsdc_accepted)
  fix a address
  assume "u \<noteq> []" "usdc_body_ok b" "parseMonetaryString (ub_amount b) = Inr a"
    "assertUserWalletAddress e u (ub_wallet b) (ms_users st) = Inr address"
    "mint_guards e (case aud of Some c \<Rightarrow> c | None \<Rightarrow> Retail) a u org (ms_db st) = Inr ()"
  then show ?thesis
    using assms(2,3)
    by (simp add: mintFromUsdc_def extractIdempotencyKey_def register_swap_def create_swap_def truthy_def Let_def)
qed

text \<open>
  Deposits of USDC that wait for conversion do not count either. The check looks at the transactions table,
  but an accepted request only adds a swap; the transaction appears when a job mints. So a request that was
  accepted once is accepted any number of times in a row, and the swaps it leaves exceed every cap.
\<close>

theorem usdc_requests_in_flight_not_counted:
  assumes "mintFromUsdc e (Some u) org aud None b st = (Inr x, st1)"
  shows "\<exists>a. parseMonetaryString (ub_amount b) = Inr a
     \<and> map sw_usdc (sw_rows (ms_swaps (((\<lambda>s. snd (mintFromUsdc e (Some u) org aud None b s)) ^^ n) st)))
        = map sw_usdc (sw_rows (ms_swaps st)) @ replicate n (Some a)"
proof -
  let ?step = "\<lambda>s. snd (mintFromUsdc e (Some u) org aud None b s)"
  from assms obtain a where a: "parseMonetaryString (ub_amount b) = Inr a" by (rule mintFromUsdc_accepted)
  have "ms_db ((?step ^^ n) st) = ms_db st \<and> ms_users ((?step ^^ n) st) = ms_users st
      \<and> map sw_usdc (sw_rows (ms_swaps ((?step ^^ n) st))) = map sw_usdc (sw_rows (ms_swaps st)) @ replicate n (Some a)"
  proof (induction n)
    case (Suc n)
    let ?s = "(?step ^^ n) st"
    obtain y where y: "fst (mintFromUsdc e (Some u) org aud None b ?s) = Inr y"
      using mintFromUsdc_again [OF assms, of ?s] Suc by auto
    have run: "mintFromUsdc e (Some u) org aud None b ?s = (Inr y, ?step ?s)" using y by (simp add: prod_eq_iff)
    from run obtain a' where "parseMonetaryString (ub_amount b) = Inr a'"
        "map sw_usdc (sw_rows (ms_swaps (?step ?s))) = map sw_usdc (sw_rows (ms_swaps ?s)) @ [Some a']"
      by (rule mintFromUsdc_accepted)
    then show ?case using Suc a mintFromUsdc_cases [OF run] by (simp add: replicate_append_same)
  qed simp
  with a show ?thesis by blast
qed

section \<open>Confirmations\<close>

lemma confirm_cases:
  assumes "confirmMint e body st = (res, st')"
  obtains (idle) "st' = st"
  | (ran) b tx w amount info where "parse_confirm body = Some b" "find_tx (cb_tx b) (ms_db st) = Some tx" "tx_status tx = Pending"
      "\<not> isMintingPaused (mt_caps e) (mt_ratio e)"
      "Option.bind (find_user (case tx_user tx of Some u \<Rightarrow> u | None \<Rightarrow> []) (ms_users st)) stellar_address = Some w"
      "parseMonetaryString (cb_amount b) = Inr amount"
      "convertLocalToUsdWithPrecision (mt_rate_mint e) amount (cb_currency b) = Inr info"
      "confirm_on_chain e (cb_tx b) w (decimalToContractNumber prisma_dec (acbuEquivalent info))
         (ms_tx (cb_tx b) (\<lambda>r. r\<lparr>tx_status := Processing\<rparr>) st) = (res, st')"
proof (cases "st' = st")
  case True
  then show thesis by (rule idle)
next
  case False
  with assms show thesis
    by (auto simp: confirmMint_def bail_def Let_def truthy_def map_err_def split: option.splits sum.splits if_splits intro!: ran)
qed

lemma parse_confirm_tx: "parse_confirm body = Some b \<Longrightarrow> cb_tx b = cb_tx body"
  by (auto simp: parse_confirm_def split: if_splits)

text \<open>
  A confirmation mints for a pending row only, into the stored wallet of the row's owner, at most once, and
  the row ends completed or failed.
\<close>

theorem confirmation_settles:
  assumes "confirmMint e body st = (res, st')" and "st' \<noteq> st"
  shows "\<exists>tx tx' w. find_tx (cb_tx body) (ms_db st) = Some tx \<and> tx_status tx = Pending
     \<and> \<not> isMintingPaused (mt_caps e) (mt_ratio e)
     \<and> Option.bind (find_user (case tx_user tx of Some u \<Rightarrow> u | None \<Rightarrow> []) (ms_users st)) stellar_address = Some w
     \<and> find_tx (cb_tx body) (ms_db st') = Some tx'
     \<and> (res = Inr Completed \<and> tx_status tx' = Completed \<and> (\<exists>q n. minted st' = minted st @ [ChainMinted w q n])
        \<or> (\<exists>err. res = Inl err) \<and> tx_status tx' = Failed
          \<and> (minted st' = minted st \<or> (\<exists>q n. minted st' = minted st @ [ChainMinted w q n])))"
  using assms(1)
proof (cases rule: confirm_cases)
  case idle
  then show ?thesis using assms(2) by simp
next
  case (ran b tx w amount info)
  let ?i = "cb_tx b" and ?q = "decimalToContractNumber prisma_dec (acbuEquivalent info)"
  let ?s = "ms_tx ?i (\<lambda>r. r\<lparr>tx_status := Processing\<rparr>) st"
  have "find_tx ?i (ms_db ?s) = Some (tx\<lparr>tx_status := Processing\<rparr>)"
    using ran(2) by (simp add: ms_tx_def find_update_same)
  note settled = settle_mint_settled [OF this, of w ?q e]
  obtain mres s1 where m: "settle_mint e ?i w ?q ?s = (mres, s1)" by (cases "settle_mint e ?i w ?q ?s")
  have log: "minted ?s = minted st" by (simp add: minted_def ms_tx_def)
  have out: "(res, st') = (case mres of Inl err \<Rightarrow> (Inl err, s1) | Inr a \<Rightarrow> (Inr Completed, ms_add [MintAudit ''mint_confirmed'' ?i] s1))"
    using ran(8) m by (simp add: confirm_on_chain_def split: sum.splits)
  show ?thesis
    using settled [unfolded m] out ran(2-5) log parse_confirm_tx [OF ran(1)]
    by (cases mres) (auto simp: mint_settled_def minted_def)
qed

definition confirm_calls :: "(mint_env \<times> confirm_body) list \<Rightarrow> mint_state \<Rightarrow> mint_state" where
  "confirm_calls cs st = fold (\<lambda>(e, b) s. snd (confirmMint e b s)) cs st"

lemma confirm_not_pending:
  assumes "find_tx (cb_tx body) (ms_db st) = Some tx" and "tx_status tx \<noteq> Pending"
  shows "snd (confirmMint e body st) = st"
proof (rule ccontr)
  assume "snd (confirmMint e body st) \<noteq> st"
  from confirmation_settles [OF prod.collapse [symmetric] this] assms show False by auto
qed

text \<open>
  C9. However often a transaction is confirmed, by requests one after the other, with any bodies and any answers of the
  contract, it mints for the transaction at most once.\<close>

theorem confirmation_mints_at_most_once:
  assumes "\<forall>(e, b) \<in> set cs. cb_tx b = i"
  shows "length (minted (confirm_calls cs st)) \<le> Suc (length (minted st))"
  using assms
proof (induction cs arbitrary: st)
  case (Cons c cs)
  obtain e b where c: "c = (e, b)" by (cases c)
  have i: "cb_tx b = i" using Cons.prems c by simp
  show ?case
  proof (cases "snd (confirmMint e b st) = st")
    case True
    then show ?thesis using Cons c by (simp add: confirm_calls_def)
  next
    case False
    let ?s = "snd (confirmMint e b st)"
    from confirmation_settles [OF prod.collapse [symmetric] False] obtain tx' where
      "find_tx i (ms_db ?s) = Some tx'" "tx_status tx' \<noteq> Pending" and len: "length (minted ?s) \<le> Suc (length (minted st))"
      using i by fastforce
    then have "confirm_calls ds ?s = ?s" if "\<forall>(e, b) \<in> set ds. cb_tx b = i" for ds
      using that by (induction ds) (auto simp: confirm_calls_def confirm_not_pending)
    then show ?thesis using Cons.prems c len by (simp add: confirm_calls_def)
  qed
qed (simp add: confirm_calls_def)
text \<open>The deposit's own amount and currency, of a row with a given id, replaced.\<close>

definition relabel :: "nat \<Rightarrow> string option \<Rightarrow> rat option \<Rightarrow> mint_state \<Rightarrow> mint_state" where
  "relabel i c a st = ms_tx i (\<lambda>r. r\<lparr>local_currency := c, local_amount := a\<rparr>) st"

lemma relabel_keeps [simp]:
  "ms_log (relabel i c a st) = ms_log st" "ms_users (relabel i c a st) = ms_users st" "ms_swaps (relabel i c a st) = ms_swaps st"
  by (simp_all add: relabel_def ms_tx_def)

lemma relabel_find: "find_tx i (ms_db (relabel i c a st)) = map_option (\<lambda>r. r\<lparr>local_currency := c, local_amount := a\<rparr>) (find_tx i (ms_db st))"
  by (simp add: relabel_def ms_tx_def find_update_same)

lemma relabel_update:
  assumes "\<And>r. tx_id (f r) = tx_id r"
    and "\<And>r. f (r\<lparr>local_currency := c, local_amount := a\<rparr>) = (f r)\<lparr>local_currency := c, local_amount := a\<rparr>"
  shows "ms_tx i f (relabel i c a st) = relabel i c a (ms_tx i f st)"
  using assms by (simp add: relabel_def ms_tx_def update_tx_def)

lemma relabel_add: "ms_add es (relabel i c a st) = relabel i c a (ms_add es st)"
  by (simp add: relabel_def ms_tx_def ms_add_def)

lemma relabel_fail: "fail_mint i (relabel i c a st) = relabel i c a (fail_mint i st)"
  unfolding fail_mint_def by (rule relabel_update) simp_all

lemma relabel_complete:
  "complete_mint b now i h x (relabel i c a st) = map_option (relabel i c a) (complete_mint b now i h x st)"
proof -
  let ?G = "\<lambda>r. r\<lparr>local_currency := c, local_amount := a\<rparr>"
  have taken: "(\<exists>q \<in> set (tx_rows (ms_db (relabel i c a st))). tx_id q \<noteq> i \<and> tx_type q = ty \<and> tx_hash q = Some h)
      \<longleftrightarrow> (\<exists>q \<in> set (tx_rows (ms_db st)). tx_id q \<noteq> i \<and> tx_type q = ty \<and> tx_hash q = Some h)" for ty
    by (auto simp: relabel_def ms_tx_def update_tx_def)
  show ?thesis
  proof (cases "b \<or> find_tx i (ms_db st) = None")
    case True
    then show ?thesis by (auto simp: complete_mint_def complete_tx_def relabel_find)
  next
    case False
    then obtain r where r: "find_tx i (ms_db st) = Some r" by auto
    show ?thesis
      using False r
      by (auto simp: complete_mint_def complete_tx_def relabel_find taken conj_commute)
        (auto simp: relabel_def ms_tx_def update_tx_def)
  qed
qed

lemma relabel_settle:
  "settle_mint e i w q (relabel i c a st) = map_prod id (relabel i c a) (settle_mint e i w q st)"
  by (simp add: settle_mint_def service_mint_def contract_call_def relabel_add relabel_fail relabel_complete
      split: chain_outcome.split option.split)

text \<open>
  A confirmation does not look at the deposit it confirms. The schema asks for the settled amount, which
  "must match the original deposit", but nothing compares it: replace the amount and the currency of
  the pending row by anything, and the confirmation answers the same, and the contract mints the same,
  computed from the amount and the currency of the confirmation alone.
\<close>

theorem confirmation_ignores_deposit:
  "confirmMint e body (relabel (cb_tx body) c a st) = map_prod id (relabel (cb_tx body) c a) (confirmMint e body st)"
proof (cases "parse_confirm body")
  case None
  then show ?thesis by (simp add: confirmMint_def)
next
  case (Some b)
  note i = parse_confirm_tx [OF Some]
  have proc: "ms_tx (cb_tx body) (\<lambda>r. r\<lparr>tx_status := Processing\<rparr>) (relabel (cb_tx body) c a st)
      = relabel (cb_tx body) c a (ms_tx (cb_tx body) (\<lambda>r. r\<lparr>tx_status := Processing\<rparr>) st)"
    by (rule relabel_update) simp_all
  show ?thesis
    using Some
    by (cases "find_tx (cb_tx body) (ms_db st)")
      (auto simp: confirmMint_def i relabel_find bail_def Let_def confirm_on_chain_def relabel_settle proc relabel_add
        map_prod_def split: sum.split prod.split)
qed

section \<open>Keys\<close>

lemma append_colon_inj:
  assumes "CHR '':'' \<notin> set u" and "CHR '':'' \<notin> set v" and "u @ CHR '':'' # x = v @ CHR '':'' # y"
  shows "u = v"
  using assms
proof (induction u arbitrary: v)
  case Nil
  then show ?case by (cases v) auto
next
  case (Cons c u)
  then show ?case by (cases v) auto
qed

lemma scope_shape: "\<exists>x. scopeIdempotencyKey sha u k = u @ CHR '':'' # x"
  by (simp add: scopeIdempotencyKey_def Let_def)

text \<open>
  Scoped keys of different users never collide: user ids are UUIDs and contain no colon, so whatever keys
  two users send, equal scoped keys mean equal users, also where the key is replaced by its hash.
  The scoped key fits the column as long as the user id has at most 222 characters.
\<close>

theorem scoped_keys_separate_users:
  assumes "CHR '':'' \<notin> set u" and "CHR '':'' \<notin> set v" and "length u \<le> 222"
  shows "(scopeIdempotencyKey sha u k = scopeIdempotencyKey sha' v k' \<longrightarrow> u = v)
       \<and> length (scopeIdempotencyKey sha u k) \<le> IDEMPOTENCY_KEY_MAX_LENGTH"
proof
  show "scopeIdempotencyKey sha u k = scopeIdempotencyKey sha' v k' \<longrightarrow> u = v"
    using scope_shape [of sha u k] scope_shape [of sha' v k'] append_colon_inj [OF assms(1,2)] by metis
  show "length (scopeIdempotencyKey sha u k) \<le> IDEMPOTENCY_KEY_MAX_LENGTH"
    using assms(3) by (auto simp: scopeIdempotencyKey_def Let_def IDEMPOTENCY_KEY_MAX_LENGTH_def min_def)
qed

section \<open>The amount asked for\<close>

text \<open>
  The contract is asked for the ACBU the deposit buys, rounded down to the seventh decimal: with the rate
  row in force (units of the currency per ACBU) and amounts below nine hundred million ACBU, it is the
  floor of the quotient, taken with twenty digits, times ten million. Nothing is lost in the number
  conversions on the way.
\<close>

theorem deposit_asks_floor:
  assumes "deposit_asks e currency amount wallet w n" and "0 \<le> amount"
    and "\<And>rate field q. mt_rate_mint e = Some rate \<Longrightarrow> map_of CURRENCY_TO_RATE_FIELD currency = Some field
           \<Longrightarrow> rate_column rate field = Some q \<Longrightarrow> prisma_dec (amount / q) \<le> 900000000"
  shows "\<exists>rate field q. mt_rate_mint e = Some rate \<and> map_of CURRENCY_TO_RATE_FIELD currency = Some field
     \<and> rate_column rate field = Some q \<and> 0 < q \<and> w = wallet \<and> n = of_int \<lfloor>prisma_dec (amount / q) * 10000000\<rfloor>"
proof -
  from assms(1) obtain info where info: "convertLocalToUsdWithPrecision (mt_rate_mint e) amount currency = Inr info"
      "n = decimalToContractNumber prisma_dec (acbuEquivalent info)" "w = wallet"
    by (auto simp: deposit_asks_def)
  from info(1) show ?thesis
  proof (rule convert_Inr)
    fix r field q
    assume r: "mt_rate_mint e = Some r" "map_of CURRENCY_TO_RATE_FIELD currency = Some field"
      "rate_column r field = Some q" "0 < q" "acbuEquivalent info = prisma_dec (amount / q)"
    have "prisma_dec (prisma_dec (amount / q)) = prisma_dec (amount / q)" by (simp add: prisma_dec_def sig_round_idem)
    moreover have "0 \<le> prisma_dec (amount / q)" using assms(2) r(4) by (intro prisma_dec.rnd_ge_0) simp
    moreover have "prisma_dec (amount / q) * 10000000 < 2 ^ 53" using assms(3) [OF r(1-3)] by simp
    ultimately have "n = of_int \<lfloor>prisma_dec (amount / q) * 10000000\<rfloor>"
      unfolding info(2) r(5) by (intro contract_number_exact)
    with r info(3) show ?thesis by blast
  qed
qed

section \<open>The properties at concrete inputs\<close>

definition wallet_g :: string where
  "wallet_g = CHR ''G'' # replicate 55 (CHR ''A'')"

definition depositor :: user where
  "depositor = \<lparr>u_id = ''u1'', username = None, phone_e164 = None, email = None, hide_from_search = False,
     stellar_address = Some wallet_g, wallet_version = 0, kyc_status = ''verified'', encrypted_secret = None, key_hint = None\<rparr>"

text \<open>One ACBU is 1 NGN and a dollar.\<close>

definition sample_rate :: acbu_rate where
  "sample_rate = \<lparr>acbuUsd = 1, ar_field = (\<lambda>f. if f = ''acbuNgn'' then Some 1 else None)\<rparr>"

definition mint_world :: "chain_outcome \<Rightarrow> mint_env" where
  "mint_world out = \<lparr>mt_now = 2000, mt_limits = sample_limits_env,
     mt_caps = \<lparr>audiences = (\<lambda>_. \<lparr>depositDailyUsd = 60, depositMonthlyUsd = 600, withdrawalDailyUsd = 60, withdrawalMonthlyUsd = 600\<rparr>),
                circuit_limits = \<lparr>reserveWeightThresholdPct = 10, minReserveRatio = 1\<rparr>\<rparr>,
     mt_ratio = 2, mt_rate_check = Some sample_rate, mt_rate_mint = Some sample_rate, mt_sha = (\<lambda>k. k),
     mt_address_ok = (\<lambda>_. True), mt_contract = True, mt_source = Some ''GOP'', mt_chain = (\<lambda>_ _. out),
     mt_update_fails = False, mt_update2_fails = False, mt_burn_fails = False\<rparr>"

definition mint_start :: mint_state where
  "mint_start = \<lparr>ms_db = empty_db, ms_users = [depositor], ms_swaps = \<lparr>sw_rows = [], sw_next = 0\<rparr>, ms_log = []\<rparr>"

definition ngn_deposit :: deposit_body where
  "ngn_deposit = \<lparr>db_currency = ''NGN'', db_amount = ''5'', db_wallet = wallet_g, db_fintech = None\<rparr>"

abbreviation ok_world :: mint_env where
  "ok_world \<equiv> mint_world (ChainOk ''h1'' 50000000)"

lemma mint_start_inv: "tx_inv (ms_db mint_start)"
  by (simp add: mint_start_def tx_inv_empty)

lemma five_rounds: "f64 5 = 5" "prisma_dec 5 = 5" "f64 50 = 50" "prisma_dec 50 = 50" "f64 1 = 1"
  using f64.rnd_int [of 5] prisma_dec.rnd_int [of 5] f64.rnd_int [of 50] prisma_dec.rnd_int [of 50] f64.rnd_int [of 1] by simp_all

lemma five_dec: "dec_of_num 5 = 5"
proof -
  have r: "round_near 5 = 5" by code_simp
  have l: "expo 10 5 = 0" by code_simp
  have "shortest_digits (Suc 15) 1 1 5 = (1, 1, 5)"
    by (subst shortest_digits.simps(2)) (simp add: Let_def r five_rounds)
  then show ?thesis by (simp add: dec_of_num_def l)
qed

lemma five_asks: "decimalToContractNumber prisma_dec 5 = 50000000"
  using contract_number_exact [of 5] by (simp add: five_rounds)

lemma five_parses: "parseMonetaryString ''5'' = Inr 5" "positive_amount ''5''" "parseMonetaryString ''50'' = Inr 50" "positive_amount ''50''"
proof -
  have t: "trim ''5'' = ''5''" "trim ''50'' = ''50''" "decimal_shape 7 ''5''" "decimal_shape 7 ''50''" by code_simp+
  have v: "decimal_value ''5'' = 5" "decimal_value ''50'' = 50" by (simp_all add: decimal_value_def is_digit_def digits_val.simps digit_val_def)
  show "parseMonetaryString ''5'' = Inr 5" "positive_amount ''5''" "parseMonetaryString ''50'' = Inr 50" "positive_amount ''50''"
    by (simp_all add: parseMonetaryString_def positive_amount_def t v five_rounds)
qed

lemma sample_wallet: "wallet_shape wallet_g" "wallet_g \<noteq> []"
  by (simp_all add: wallet_shape_def wallet_g_def starts_with_def)

lemma sample_parsed: "parse_deposit ngn_deposit = Some ngn_deposit"
proof -
  have "to_upper ''NGN'' = ''NGN''" "isAllowedDepositCurrency ''NGN''" by code_simp+
  then show ?thesis by (simp add: parse_deposit_def ngn_deposit_def five_parses sample_wallet)
qed

lemma sample_converts:
  "convertLocalToUsd (Some sample_rate) 5 ''NGN'' = Inr 5"
  "convertLocalToUsdWithPrecision (Some sample_rate) 5 ''NGN'' =
     Inr \<lparr>usdAmountDecimal = 5, usdAmount = 5, originalAmount = 5, acbuEquivalent = 5\<rparr>"
  by (simp_all add: convertLocalToUsd_def convertLocalToUsdWithPrecision_def CURRENCY_TO_RATE_FIELD_def rate_column_def
      sample_rate_def five_rounds five_dec)

lemmas world_simps = mint_world_def isMintingPaused_def getLimitConfig_def
lemma sample_owner: "assertUserWalletAddress (mint_world out) ''u1'' wallet_g [depositor] = Inr wallet_g"
  by (simp add: assertUserWalletAddress_def find_user_def depositor_def mint_world_def sample_wallet)

lemma sample_limits_pass:
  "checkDepositLimits sample_limits_env \<lparr>depositDailyUsd = 60, depositMonthlyUsd = 600, withdrawalDailyUsd = 60, withdrawalMonthlyUsd = 600\<rparr>
     5 (Some ''u1'') None empty_db = Inr ()"
  "checkDepositLimits sample_limits_env \<lparr>depositDailyUsd = 60, depositMonthlyUsd = 600, withdrawalDailyUsd = 60, withdrawalMonthlyUsd = 600\<rparr>
     50 (Some ''u1'') None empty_db = Inr ()"
  by (simp_all add: checkDepositLimits_def sumDepositsUsdSince_def sample_limits_env_def empty_db_def five_rounds Let_def sum_some_def)

definition deposited :: "(mint_error + (nat \<times> status)) \<times> mint_state" where
  "deposited = depositFromBasketCurrency ok_world (Some ''u1'') None None (Some ''k'') ngn_deposit mint_start"

lemma sample_key: "deposit_key (mint_world out) ''u1'' (Some ''k'') None = Inr (Some ''u1:k'')"
proof -
  have "trim ''k'' = ''k''" by code_simp
  then show ?thesis
    by (simp add: deposit_key_def extractIdempotencyKey_def IDEMPOTENCY_KEY_MAX_LENGTH_def scopeIdempotencyKey_def Let_def bindR_def)
qed

lemma sample_runs:
  "depositFromBasketCurrency (mint_world out) (Some ''u1'') None None (Some ''k'') ngn_deposit mint_start
     = run_deposit (mint_world out) ''u1'' None (Some ''u1:k'') ''NGN'' 5 wallet_g mint_start"
proof -
  have c: "isAllowedDepositCurrency ''NGN''" "\<not> isForbiddenDepositCurrency ''NGN''" by code_simp+
  have n: "db_currency ngn_deposit = ''NGN''" "db_amount ngn_deposit = ''5''" "db_wallet ngn_deposit = wallet_g" "db_fintech ngn_deposit = None"
    by (simp_all add: ngn_deposit_def)
  have w: "mt_caps (mint_world out) = mt_caps ok_world" "mt_ratio (mint_world out) = 2" "mt_rate_check (mint_world out) = Some sample_rate"
      "mt_limits (mint_world out) = sample_limits_env" "\<not> isMintingPaused (mt_caps ok_world) 2"
      "getLimitConfig (mt_caps ok_world) Retail = \<lparr>depositDailyUsd = 60, depositMonthlyUsd = 600, withdrawalDailyUsd = 60, withdrawalMonthlyUsd = 600\<rparr>"
    by (simp_all add: world_simps)
  have s: "ms_users mint_start = [depositor]" "ms_db mint_start = empty_db" "find_tx_by_key k empty_db = None" for k
    by (simp_all add: mint_start_def find_tx_by_key_def empty_db_def)
  show ?thesis
    by (simp add: depositFromBasketCurrency_def sample_parsed n c five_parses sample_owner w s sample_converts five_rounds five_dec
        sample_limits_pass sample_key truthy_def bail_def)
qed

lemma deposited_run:
  "fst deposited = Inr (0, Completed)" "ms_log (snd deposited) = [ChainMinted wallet_g 50000000 50000000, MintAudit ''deposit_created'' 0]"
  unfolding deposited_def sample_runs
  by (simp_all add: run_deposit_def create_tx_def mint_start_def empty_db_def Let_def mint_deposit_def
      settle_mint_def service_mint_def contract_call_def complete_mint_def complete_tx_def mint_world_def sample_converts
      pending_mint_def new_txn_def five_asks ms_add_def find_tx_def update_tx_def)
lemma deposited_eq:
  "depositFromBasketCurrency ok_world (Some ''u1'') None None (Some ''k'') ngn_deposit mint_start = (Inr (0, Completed), snd deposited)"
  using deposited_run(1) by (simp add: deposited_def prod_eq_iff)

lemma deposited_changed: "snd deposited \<noteq> mint_start"
  using deposited_run(2) by (auto simp: mint_start_def)

theorem deposit_settles_witness:
  "tx_inv (ms_db mint_start) \<and> snd deposited \<noteq> mint_start
   \<and> (\<exists>r. find_tx 0 (ms_db (snd deposited)) = Some r \<and> tx_status r = Completed)
   \<and> (\<exists>w q n. minted (snd deposited) = [ChainMinted w q n])"
proof -
  have "minted mint_start = []" by (simp add: minted_def mint_start_def)
  with deposit_settles [OF mint_start_inv deposited_eq deposited_changed] mint_start_inv deposited_changed
  show ?thesis by auto
qed

definition retry_calls :: "deposit_call list" where
  "retry_calls = [\<lparr>dc_env = ok_world, dc_org = None, dc_audience = None, dc_body = ngn_deposit\<rparr>,
     \<lparr>dc_env = mint_world (ChainOk ''h2'' 50000000), dc_org = None, dc_audience = None, dc_body = ngn_deposit\<rparr>]"

theorem deposit_key_mints_at_most_once_witness:
  "length (minted (deposit_calls ''u1'' ''k'' retry_calls mint_start)) \<le> Suc (length (minted mint_start))
   \<and> length (minted (deposit_calls ''u1'' ''k'' (take 1 retry_calls) mint_start)) = 1"
proof -
  have run: "length (minted (deposit_calls ''u1'' ''k'' (take 1 retry_calls) mint_start)) = 1"
    using deposited_run(2) by (simp add: retry_calls_def minted_def deposited_def deposit_calls_def)
  have sha: "\<forall>c \<in> set retry_calls. mt_sha (dc_env c) = (\<lambda>k. k)" by (simp add: retry_calls_def mint_world_def)
  have key: "trim ''k'' \<noteq> []" by code_simp
  from deposit_key_mints_at_most_once [OF mint_start_inv sha key] run show ?thesis by blast
qed

theorem basket_deposits_never_counted_witness:
  "fst deposited = Inr (0, Completed)
   \<and> sumDepositsUsdSince sample_limits_env 0 (ByUser ''u1'') (ms_db (snd deposited)) = 0"
proof -
  have "sumDepositsUsdSince sample_limits_env 0 (ByUser ''u1'') (ms_db mint_start) = 0"
    by (simp add: sumDepositsUsdSince_def sample_limits_env_def mint_start_def empty_db_def sum_some_def)
  then show ?thesis
    using deposited_run(1) basket_deposits_never_counted [OF mint_start_inv, of sample_limits_env 0 "ByUser ''u1''" ok_world "Some ''u1''" None None
        "Some ''k''" ngn_deposit]
    by (simp add: deposited_def)
qed

definition usdc_request :: usdc_body where
  "usdc_request = \<lparr>ub_amount = ''50'', ub_wallet = wallet_g\<rparr>"

lemma usdc_request_accepted: "fst (mintFromUsdc ok_world (Some ''u1'') None None None usdc_request mint_start) = Inr (0, PendingConvert)"
  by (simp add: mintFromUsdc_def usdc_request_def usdc_body_ok_def five_parses sample_wallet mint_start_def sample_owner truthy_def bail_def
      extractIdempotencyKey_def mint_guards_def register_swap_def create_swap_def Let_def)
     (simp add: mint_world_def isMintingPaused_def getLimitConfig_def sample_limits_pass)

text \<open>Five requests of 50 dollars each, under a daily cap of 60.\<close>

theorem usdc_requests_in_flight_not_counted_witness:
  "map sw_usdc (sw_rows (ms_swaps (((\<lambda>s. snd (mintFromUsdc ok_world (Some ''u1'') None None None usdc_request s)) ^^ 5) mint_start)))
     = replicate 5 (Some 50)"
proof -
  have run: "mintFromUsdc ok_world (Some ''u1'') None None None usdc_request mint_start
      = (Inr (0, PendingConvert), snd (mintFromUsdc ok_world (Some ''u1'') None None None usdc_request mint_start))"
    using usdc_request_accepted by (simp add: prod_eq_iff)
  have a: "parseMonetaryString (ub_amount usdc_request) = Inr 50" by (simp add: usdc_request_def five_parses)
  have none: "sw_rows (ms_swaps mint_start) = []" by (simp add: mint_start_def)
  from usdc_requests_in_flight_not_counted [OF run, of 5] a none show ?thesis by auto
qed
text \<open>A pending payout row, never a deposit, confirmed as a mint of 5 ACBU.\<close>

definition pending_burn :: mint_state where
  "pending_burn = mint_start\<lparr>ms_db := \<lparr>tx_rows = [(new_txn TBurn Pending 1000)\<lparr>tx_user := Some ''u1''\<rparr>], tx_next = 1\<rparr>\<rparr>"

definition confirmation :: confirm_body where
  "confirmation = \<lparr>cb_tx = 0, cb_reference = ''ref'', cb_amount = ''5'', cb_currency = ''NGN'', cb_confirmed_at = 1\<rparr>"

definition confirmed :: "(mint_error + status) \<times> mint_state" where
  "confirmed = confirmMint ok_world confirmation pending_burn"

lemma confirmation_parses: "parse_confirm confirmation = Some confirmation"
proof -
  have "to_upper ''NGN'' = ''NGN''" "\<not> list_ex js_space ''ref''" by code_simp+
  then show ?thesis by (simp add: parse_confirm_def confirmation_def five_parses)
qed

lemma pending_burn_row: "find_tx 0 (ms_db pending_burn) = Some ((new_txn TBurn Pending 1000)\<lparr>tx_user := Some ''u1''\<rparr>)"
  by (simp add: pending_burn_def find_tx_def new_txn_def)

lemma confirmed_run: "fst confirmed = Inr Completed" "minted (snd confirmed) = [ChainMinted wallet_g 50000000 50000000]"
proof -
  have cb: "cb_tx confirmation = 0" "cb_amount confirmation = ''5''" "cb_currency confirmation = ''NGN''" by (simp_all add: confirmation_def)
  have w: "\<not> isMintingPaused (mt_caps ok_world) (mt_ratio ok_world)" "mt_rate_mint ok_world = Some sample_rate" "mt_source ok_world \<noteq> None"
    by (simp_all add: world_simps)
  have o: "Option.bind (find_user ''u1'' (ms_users pending_burn)) stellar_address = Some wallet_g"
    by (simp add: pending_burn_def mint_start_def find_user_def depositor_def)
  have eq: "confirmed = confirm_on_chain ok_world 0 wallet_g 50000000 (ms_tx 0 (\<lambda>r. r\<lparr>tx_status := Processing\<rparr>) pending_burn)"
    unfolding confirmed_def confirmMint_def confirmation_parses
    by (simp add: cb pending_burn_row w o five_parses sample_converts five_asks truthy_def bail_def sample_wallet new_txn_def)
  show "fst confirmed = Inr Completed" "minted (snd confirmed) = [ChainMinted wallet_g 50000000 50000000]"
    unfolding eq
    by (simp_all add: confirm_on_chain_def settle_mint_def service_mint_def contract_call_def complete_mint_def complete_tx_def
        mint_world_def ms_add_def ms_tx_def find_tx_def update_tx_def pending_burn_def mint_start_def minted_def new_txn_def)
qed

theorem confirmation_settles_witness:
  "\<exists>tx tx' w. find_tx 0 (ms_db pending_burn) = Some tx \<and> tx_type tx = TBurn \<and> tx_status tx = Pending
     \<and> find_tx 0 (ms_db (snd confirmed)) = Some tx' \<and> tx_status tx' = Completed
     \<and> (\<exists>q n. minted (snd confirmed) = minted pending_burn @ [ChainMinted w q n])"
proof -
  have run: "confirmMint ok_world confirmation pending_burn = (Inr Completed, snd confirmed)"
    using confirmed_run(1) by (simp add: confirmed_def prod_eq_iff)
  have changed: "snd confirmed \<noteq> pending_burn"
    using confirmed_run(2) by (auto simp: pending_burn_def mint_start_def minted_def)
  from confirmation_settles [OF run changed] pending_burn_row show ?thesis
    by (auto simp: confirmation_def new_txn_def)
qed

theorem confirmation_mints_at_most_once_witness:
  "length (minted (confirm_calls (replicate 3 (ok_world, confirmation)) pending_burn)) \<le> 1"
proof -
  have "\<forall>(e, b) \<in> set (replicate 3 (ok_world, confirmation)). cb_tx b = 0" by (auto simp: confirmation_def)
  from confirmation_mints_at_most_once [OF this, of pending_burn] show ?thesis
    by (simp add: pending_burn_def mint_start_def minted_def)
qed

theorem scoped_keys_separate_users_witness:
  "scopeIdempotencyKey (\<lambda>k. k) ''u1'' ''k'' \<noteq> scopeIdempotencyKey (\<lambda>k. k) ''u2'' ''k''"
proof -
  have "CHR '':'' \<notin> set ''u1''" "CHR '':'' \<notin> set ''u2''" "length ''u1'' \<le> 222" by simp_all
  from scoped_keys_separate_users [OF this, of "\<lambda>k. k" "''k''" "\<lambda>k. k" "''k''"] show ?thesis by auto
qed

theorem deposit_asks_floor_witness:
  "deposit_asks ok_world ''NGN'' 5 wallet_g wallet_g 50000000
   \<and> (\<exists>q. 0 < q \<and> (50000000 :: rat) = of_int \<lfloor>prisma_dec (5 / q) * 10000000\<rfloor>)"
proof -
  have asks: "deposit_asks ok_world ''NGN'' 5 wallet_g wallet_g 50000000"
    by (simp add: deposit_asks_def mint_world_def sample_converts five_asks)
  have "\<exists>rate field q. mt_rate_mint ok_world = Some rate \<and> map_of CURRENCY_TO_RATE_FIELD ''NGN'' = Some field
     \<and> rate_column rate field = Some q \<and> 0 < q \<and> wallet_g = wallet_g
     \<and> (50000000 :: rat) = of_int \<lfloor>prisma_dec (5 / q) * 10000000\<rfloor>"
    using asks by (rule deposit_asks_floor)
      (auto simp: mint_world_def sample_rate_def CURRENCY_TO_RATE_FIELD_def rate_column_def five_rounds)
  with asks show ?thesis by blast
qed

end
