(* ===== verification/Reserves.thy ===== *)
theory Reserves
  imports Basket Minting
begin

text \<open>
  The reserve: \<open>src/services/reserve/ReserveTracker.ts\<close> (snapshots of the reserve per currency, total
  value, supply, ratio, health), \<open>src/services/reserve/RebalancingEngine.ts\<close> and
  \<open>src/services/feePolicy/feePolicyService.ts\<close>. Contract reads, providers, oracle rates and Horizon are
  parameters, indexed by the attempt where the code retries.
\<close>

section \<open>Snapshots\<close>

record reserve_row =
  rr_currency :: string
  rr_segment :: string
  rr_target :: rat
  rr_actual :: rat
  rr_amount :: rat
  rr_value :: rat

datatype reserve_event =
    ReservePushed string int int    \<comment> \<open>currency, amount and value in seven decimals\<close>
  | ReserveAlert

record reserve_state =
  rs_rows :: "reserve_row list"     \<comment> \<open>oldest first\<close>
  rs_log :: "reserve_event list"

datatype assets_answer = AssetsThrow | AssetRecords "rat list"

record tracker_env =
  te_onchain :: bool                                     \<comment> \<open>tracker, oracle and minting contract are configured\<close>
  te_custody :: "string \<Rightarrow> nat \<Rightarrow> (int \<times> int) option"      \<comment> \<open>balance and rate\<close>
  te_provider :: "string \<Rightarrow> nat \<Rightarrow> rat option"
  te_oracle :: "string \<Rightarrow> nat \<Rightarrow> rat option"
  te_keypair :: bool
  te_push :: "string \<Rightarrow> int \<Rightarrow> int \<Rightarrow> bool"
  te_issuer :: "string option"
  te_assets :: assets_answer
  te_targetRatio :: rat
  te_alertThreshold :: rat
  te_minRatio :: rat
  te_queue :: bool

definition SEGMENT_TRANSACTIONS :: string where
  "SEGMENT_TRANSACTIONS = ''transactions''"

definition SEGMENT_INVESTMENT_SAVINGS :: string where
  "SEGMENT_INVESTMENT_SAVINGS = ''investment_savings''"

definition RESERVE_TRACKER_RETRIES :: nat where
  "RESERVE_TRACKER_RETRIES = 3"

text \<open>The first attempt that succeeds, \<open>None\<close> when all of them throw.\<close>

definition withRetry :: "(nat \<Rightarrow> 'a option) \<Rightarrow> 'a option" where
  "withRetry f = (case filter (\<lambda>x. x \<noteq> None) (map f [1..<Suc RESERVE_TRACKER_RETRIES]) of [] \<Rightarrow> None | x # _ \<Rightarrow> x)"

text \<open>\<open>BigInt\<close> division truncates.\<close>

definition bigint_div :: "int \<Rightarrow> int \<Rightarrow> int" where
  "bigint_div a b = (if a < 0 then - ((- a) div b) else a div b)"

definition readOnChainCustody :: "tracker_env \<Rightarrow> string \<Rightarrow> nat \<Rightarrow> (int \<times> int) option" where
  "readOnChainCustody e c n =
     (case te_custody e c n of None \<Rightarrow> None | Some (amount, rate) \<Rightarrow> Some (amount, bigint_div (amount * rate) 10000000))"

text \<open>Balance and value of a currency, and the custody they come from when they come from the chain.\<close>

definition read_reserve :: "tracker_env \<Rightarrow> string \<Rightarrow> (rat \<times> rat \<times> (int \<times> int) option) option" where
  "read_reserve e c =
     (case (if te_onchain e then withRetry (readOnChainCustody e c) else None) of
        Some (a, v) \<Rightarrow> Some (prisma_dec (of_int a / 10000000), prisma_dec (of_int v / 10000000), Some (a, v))
      | None \<Rightarrow>
          (case (withRetry (te_provider e c), withRetry (te_oracle e c)) of
             (Some b, Some r) \<Rightarrow> Some (dec_of_num b, prisma_dec (dec_of_num b * dec_of_num r), None)
           | _ \<Rightarrow> None))"

definition latest_reserve :: "string \<Rightarrow> string \<Rightarrow> reserve_row list \<Rightarrow> reserve_row option" where
  "latest_reserve c seg rows = find (\<lambda>r. rr_currency r = c \<and> rr_segment r = seg) (rev rows)"

definition reserve_total :: "string list \<Rightarrow> string \<Rightarrow> reserve_row list \<Rightarrow> rat" where
  "reserve_total cs seg rows =
     foldl (\<lambda>t c. case latest_reserve c seg rows of None \<Rightarrow> t | Some r \<Rightarrow> prisma_dec (t + rr_value r)) 0 cs"

definition getTotalReserveValue :: "basket_row list \<Rightarrow> string \<Rightarrow> reserve_row list \<Rightarrow> basket_error + rat" where
  "getTotalReserveValue table seg rows = bindR (getCurrencies table) (\<lambda>cs. Inr (reserve_total cs seg rows))"

definition actual_weight :: "rat \<Rightarrow> rat \<Rightarrow> rat" where
  "actual_weight value tot = (if 0 < tot then prisma_dec (prisma_dec (value / tot) * 100) else 0)"

text \<open>The row of a snapshot; \<open>None\<close> when a value does not fit its column, which makes the insert throw.\<close>

definition reserve_row :: "string \<Rightarrow> rat \<Rightarrow> rat \<Rightarrow> rat \<Rightarrow> rat \<Rightarrow> reserve_row option" where
  "reserve_row c target actual balance value =
     (case (decimal_column 5 2 target, decimal_column 5 2 actual, decimal_column 20 2 balance, decimal_column 20 2 value) of
        (Some t, Some a, Some b, Some v) \<Rightarrow>
          Some \<lparr>rr_currency = c, rr_segment = SEGMENT_TRANSACTIONS, rr_target = t, rr_actual = a, rr_amount = b, rr_value = v\<rparr>
      | _ \<Rightarrow> None)"

definition push_reserve :: "tracker_env \<Rightarrow> string \<Rightarrow> (int \<times> int) option \<Rightarrow> reserve_event list" where
  "push_reserve e c custody =
     (case custody of
        None \<Rightarrow> []
      | Some (a, v) \<Rightarrow> if te_onchain e \<and> te_keypair e \<and> te_push e c a v then [ReservePushed c a v] else [])"

text \<open>One round of the loop; whatever throws leaves the currency as it was.\<close>

definition track_currency :: "tracker_env \<Rightarrow> basket_row list \<Rightarrow> string \<Rightarrow> reserve_state \<Rightarrow> reserve_state" where
  "track_currency e table c st =
     (case read_reserve e c of
        None \<Rightarrow> st
      | Some (balance, value, custody) \<Rightarrow>
        (case (getTargetWeight c table, getTotalReserveValue table SEGMENT_TRANSACTIONS (rs_rows st)) of
           (Inr target, Inr tot) \<Rightarrow>
             (case reserve_row c (dec_of_num target) (actual_weight value tot) balance value of
                None \<Rightarrow> st
              | Some row \<Rightarrow> st\<lparr>rs_rows := rs_rows st @ [row], rs_log := rs_log st @ push_reserve e c custody\<rparr>)
         | _ \<Rightarrow> st))"

section \<open>Supply, ratio and health\<close>

definition getTotalAcbuSupplyFromLedger :: "txdb \<Rightarrow> rat" where
  "getTotalAcbuSupplyFromLedger db =
     (let minted = f64 (sum_some acbu_amount (filter (\<lambda>r. tx_type r = TMint \<and> tx_status r = Completed) (tx_rows db)));
          burned = f64 (sum_some acbu_burned (filter (\<lambda>r. tx_type r = TBurn \<and> tx_status r = Completed) (tx_rows db))) in
      max 0 (f64 (minted - burned)))"

definition getTotalAcbuSupply :: "tracker_env \<Rightarrow> txdb \<Rightarrow> rat" where
  "getTotalAcbuSupply e db =
     (let ledger = getTotalAcbuSupplyFromLedger db in
      if \<not> truthy (te_issuer e) then ledger
      else (case te_assets e of AssetRecords (amount # _) \<Rightarrow> f64 amount | _ \<Rightarrow> ledger))"

definition calculateReserveRatio :: "tracker_env \<Rightarrow> basket_row list \<Rightarrow> string \<Rightarrow> reserve_row list \<Rightarrow> txdb \<Rightarrow> basket_error + rat" where
  "calculateReserveRatio e table seg rows db =
     bindR (getTotalReserveValue table seg rows) (\<lambda>tot.
       let supply = getTotalAcbuSupply e db in
       Inr (if supply = 0 then 0 else f64 (prisma_dec (tot / dec_of_num supply))))"

record reserve_status =
  ss_currency :: string
  ss_target :: rat
  ss_actual :: rat
  ss_amount :: rat
  ss_value :: rat
  ss_drift :: rat

datatype health = Healthy | Warning | Critical

record reserve_health =
  rh_supply :: rat
  rh_total :: rat
  rh_ratio :: rat
  rh_health :: health
  rh_currencies :: "reserve_status list"

definition currency_status :: "string \<Rightarrow> reserve_row list \<Rightarrow> string \<Rightarrow> reserve_status option" where
  "currency_status seg rows c =
     map_option (\<lambda>r. \<lparr>ss_currency = c, ss_target = rr_target r, ss_actual = rr_actual r, ss_amount = rr_amount r,
         ss_value = rr_value r, ss_drift = prisma_dec (rr_actual r - rr_target r)\<rparr>) (latest_reserve c seg rows)"

definition getReserveStatus :: "tracker_env \<Rightarrow> basket_row list \<Rightarrow> string \<Rightarrow> reserve_row list \<Rightarrow> txdb \<Rightarrow> basket_error + reserve_health" where
  "getReserveStatus e table seg rows db =
     bindR (getTotalReserveValue table seg rows) (\<lambda>tot. bindR (getCurrencies table) (\<lambda>cs.
       let supply = getTotalAcbuSupply e db;
           ratio = (if 0 < supply then prisma_dec (prisma_dec (tot / dec_of_num supply) * 100) else 0) in
       Inr \<lparr>rh_supply = supply, rh_total = tot, rh_ratio = ratio,
            rh_health = (if dec_of_num (f64 (te_targetRatio e * 100)) \<le> ratio then Healthy
                         else if dec_of_num (f64 (te_alertThreshold e * 100)) \<le> ratio then Warning else Critical),
            rh_currencies = List.map_filter (currency_status seg rows) cs\<rparr>))"

definition trackReserves :: "tracker_env \<Rightarrow> basket_row list \<Rightarrow> txdb \<Rightarrow> reserve_state \<Rightarrow> (basket_error + unit) \<times> reserve_state" where
  "trackReserves e table db st =
     (case getCurrentBasket table of
        Inl err \<Rightarrow> (Inl err, st)
      | Inr basket \<Rightarrow>
          let st1 = fold (track_currency e table) (map fst basket) st in
          (case getReserveStatus e table SEGMENT_TRANSACTIONS (rs_rows st1) db of
             Inl err \<Rightarrow> (Inl err, st1)
           | Inr h \<Rightarrow> (Inr (), if rh_health h = Critical \<and> te_queue e then st1\<lparr>rs_log := rs_log st1 @ [ReserveAlert]\<rparr> else st1)))"

section \<open>Fee policy\<close>

definition BASE_MINT_FEE_BPS :: rat where "BASE_MINT_FEE_BPS = 30"
definition STRESSED_MINT_FEE_BPS :: rat where "STRESSED_MINT_FEE_BPS = 50"
definition MAX_MINT_FEE_BPS :: rat where "MAX_MINT_FEE_BPS = 100"
definition BASE_BURN_FEE_BPS :: rat where "BASE_BURN_FEE_BPS = 30"
definition LOW_RESERVE_BURN_FEE_BPS :: rat where "LOW_RESERVE_BURN_FEE_BPS = 200"
definition HIGH_RESERVE_BURN_FEE_BPS :: rat where "HIGH_RESERVE_BURN_FEE_BPS = 5"
definition LOW_RESERVE_THRESHOLD_PCT :: rat where "LOW_RESERVE_THRESHOLD_PCT = 85"
definition HIGH_RESERVE_THRESHOLD_PCT :: rat where "HIGH_RESERVE_THRESHOLD_PCT = 115"
definition RESERVE_THRESHOLD_EPSILON :: rat where "RESERVE_THRESHOLD_EPSILON = f64 (1 / 10 ^ 9)"
definition MIN_SANITY_FEE_BPS :: rat where "MIN_SANITY_FEE_BPS = 1"
definition MAX_SANITY_FEE_BPS :: rat where "MAX_SANITY_FEE_BPS = 500"

datatype fee_error = FeeBasket basket_error | FeeOutOfRange rat | CurrencyNotTracked | InvalidTargetWeight

definition validateFeeSanity :: "rat \<Rightarrow> fee_error + unit" where
  "validateFeeSanity feeBps =
     (if feeBps < MIN_SANITY_FEE_BPS \<or> MAX_SANITY_FEE_BPS < feeBps then Inl (FeeOutOfRange feeBps) else Inr ())"

definition getMintFeeBps :: "tracker_env \<Rightarrow> basket_row list \<Rightarrow> reserve_row list \<Rightarrow> txdb \<Rightarrow> fee_error + rat" where
  "getMintFeeBps e table rows db =
     bindR (map_err FeeBasket (calculateReserveRatio e table SEGMENT_TRANSACTIONS rows db)) (\<lambda>ratio.
       let feeBps = min (if ratio < te_minRatio e then STRESSED_MINT_FEE_BPS else BASE_MINT_FEE_BPS) MAX_MINT_FEE_BPS in
       bindR (validateFeeSanity feeBps) (\<lambda>_. Inr feeBps))"

definition pct_of_target :: "reserve_status \<Rightarrow> rat" where
  "pct_of_target s = f64 (prisma_dec (prisma_dec (ss_actual s / ss_target s) * 100))"

definition burn_fee_tier :: "rat \<Rightarrow> rat" where
  "burn_fee_tier pct =
     (if pct < f64 (LOW_RESERVE_THRESHOLD_PCT - RESERVE_THRESHOLD_EPSILON) then LOW_RESERVE_BURN_FEE_BPS
      else if f64 (HIGH_RESERVE_THRESHOLD_PCT + RESERVE_THRESHOLD_EPSILON) < pct then HIGH_RESERVE_BURN_FEE_BPS
      else BASE_BURN_FEE_BPS)"

definition getBurnFeeBps :: "tracker_env \<Rightarrow> basket_row list \<Rightarrow> reserve_row list \<Rightarrow> txdb \<Rightarrow> string \<Rightarrow> fee_error + rat" where
  "getBurnFeeBps e table rows db currency =
     bindR (map_err FeeBasket (getReserveStatus e table SEGMENT_TRANSACTIONS rows db)) (\<lambda>status.
       (case find (\<lambda>c. ss_currency c = currency) (rh_currencies status) of
          None \<Rightarrow> Inl CurrencyNotTracked
        | Some cu \<Rightarrow>
            if ss_target cu \<le> 0 then Inl InvalidTargetWeight
            else let feeBps = burn_fee_tier (pct_of_target cu) in
              bindR (validateFeeSanity feeBps) (\<lambda>_. Inr feeBps)))"

text \<open>\<open>Number(process.env.SPREAD_BPS || "25")\<close>.\<close>

definition DEFAULT_SPREAD_BPS :: "string option \<Rightarrow> jsnum" where
  "DEFAULT_SPREAD_BPS env = js_number (if truthy env then the env else ''25'')"

record quote_rates =
  buyRate :: rat
  sellRate :: rat

definition applySpread :: "rat \<Rightarrow> rat \<Rightarrow> quote_rates" where
  "applySpread spreadBps midRate =
     (let half = f64 (f64 (spreadBps / 10000) / 2) in
      \<lparr>buyRate = f64 (midRate * f64 (1 - half)), sellRate = f64 (midRate * f64 (1 + half))\<rparr>)"

section \<open>Rebalancing\<close>

record rebalance_instruction =
  ri_from :: string
  ri_to :: string
  ri_amountUsd :: rat
  ri_rateFromUsd :: rat
  ri_rateToUsd :: rat
  ri_amountFrom :: rat
  ri_amountTo :: rat

text \<open>\<open>fx c\<close> is the rate of \<open>c\<close> in dollars, a positive number, \<open>None\<close> when the provider throws.\<close>

definition deficit_total :: "reserve_status list \<Rightarrow> rat" where
  "deficit_total us = foldl (\<lambda>s u. prisma_dec (s + - ss_drift u)) 0 us"

definition buy_instruction ::
  "(string \<Rightarrow> rat option) \<Rightarrow> reserve_status list \<Rightarrow> reserve_status \<Rightarrow> rat \<Rightarrow> rat \<Rightarrow> reserve_status \<Rightarrow> rebalance_instruction list" where
  "buy_instruction fx underweight ov excessUsd rateFromUsd u =
     (let share = prisma_dec (prisma_dec (- ss_drift u / deficit_total underweight) * excessUsd) in
      if share \<le> 0 then []
      else (case fx (ss_currency u) of
          None \<Rightarrow> []
        | Some rateToUsd \<Rightarrow>
            [\<lparr>ri_from = ss_currency ov, ri_to = ss_currency u, ri_amountUsd = f64 share, ri_rateFromUsd = rateFromUsd,
              ri_rateToUsd = rateToUsd, ri_amountFrom = f64 (prisma_dec (share / dec_of_num rateFromUsd)),
              ri_amountTo = f64 (prisma_dec (share / dec_of_num rateToUsd))\<rparr>]))"

definition generateInstructions ::
  "rat \<Rightarrow> (string \<Rightarrow> rat option) \<Rightarrow> reserve_status list \<Rightarrow> rat \<Rightarrow> rebalance_instruction list" where
  "generateInstructions threshold fx snapshot totalUsd =
     (let overweight = filter (\<lambda>c. dec_of_num threshold < ss_drift c) snapshot;
          underweight = filter (\<lambda>c. ss_drift c < - dec_of_num threshold) snapshot in
      if overweight = [] \<or> underweight = [] then []
      else concat (map (\<lambda>ov.
          let excessUsd = prisma_dec (prisma_dec (totalUsd * ss_drift ov) / 100) in
          if excessUsd \<le> 0 then []
          else (case fx (ss_currency ov) of
              None \<Rightarrow> []
            | Some rateFromUsd \<Rightarrow> concat (map (buy_instruction fx underweight ov excessUsd rateFromUsd) underweight))) overweight))"

datatype rebalance_status = RebalancePending | RebalanceCompleted

record rebalancing_event =
  re_status :: rebalance_status
  re_instructions :: "rebalance_instruction list"
  re_total :: rat
  re_completed :: "int option"

definition run_rebalancing ::
  "tracker_env \<Rightarrow> rat \<Rightarrow> (string \<Rightarrow> rat option) \<Rightarrow> int \<Rightarrow> basket_row list \<Rightarrow> txdb \<Rightarrow> reserve_row list \<Rightarrow> rebalancing_event list
     \<Rightarrow> (basket_error + rebalancing_event) \<times> rebalancing_event list" where
  "run_rebalancing e threshold fx now table db rows events =
     (case getReserveStatus e table SEGMENT_TRANSACTIONS rows db of
        Inl err \<Rightarrow> (Inl err, events)
      | Inr h \<Rightarrow>
          let ins = generateInstructions threshold fx (rh_currencies h) (rh_total h);
              ev = \<lparr>re_status = (if ins = [] then RebalanceCompleted else RebalancePending), re_instructions = ins,
                    re_total = rh_total h, re_completed = (if ins = [] then Some now else None)\<rparr> in
          (Inr ev, events @ [ev]))"

section \<open>Fees\<close>

lemma burn_fee_tiers: "burn_fee_tier pct \<in> {5, 30, 200}"
  by (simp add: burn_fee_tier_def LOW_RESERVE_BURN_FEE_BPS_def HIGH_RESERVE_BURN_FEE_BPS_def BASE_BURN_FEE_BPS_def)

lemma burn_fee_tier_antimono: "p \<le> q \<Longrightarrow> burn_fee_tier q \<le> burn_fee_tier p"
proof -
  assume "p \<le> q"
  moreover have "f64 (LOW_RESERVE_THRESHOLD_PCT - RESERVE_THRESHOLD_EPSILON) \<le> f64 (HIGH_RESERVE_THRESHOLD_PCT + RESERVE_THRESHOLD_EPSILON)"
  proof (rule f64.rnd_mono)
    have "0 \<le> RESERVE_THRESHOLD_EPSILON" unfolding RESERVE_THRESHOLD_EPSILON_def by (rule f64.rnd_ge_0) simp
    then show "LOW_RESERVE_THRESHOLD_PCT - RESERVE_THRESHOLD_EPSILON \<le> HIGH_RESERVE_THRESHOLD_PCT + RESERVE_THRESHOLD_EPSILON"
      by (simp add: LOW_RESERVE_THRESHOLD_PCT_def HIGH_RESERVE_THRESHOLD_PCT_def)
  qed
  ultimately show ?thesis
    by (simp add: burn_fee_tier_def LOW_RESERVE_BURN_FEE_BPS_def HIGH_RESERVE_BURN_FEE_BPS_def BASE_BURN_FEE_BPS_def)
qed

lemma pct_of_target_mono:
  assumes "ss_target s = ss_target s'" and "0 < ss_target s" and "ss_actual s \<le> ss_actual s'"
  shows "pct_of_target s \<le> pct_of_target s'"
proof -
  have "ss_actual s / ss_target s \<le> ss_actual s' / ss_target s'"
    using assms by (simp add: divide_right_mono)
  then show ?thesis unfolding pct_of_target_def by (intro f64.rnd_mono prisma_dec.rnd_mono mult_right_mono) simp_all
qed

lemma sane_fee: "f \<in> {5, 30, 50, 200} \<Longrightarrow> validateFeeSanity f = Inr ()"
  by (auto simp: validateFeeSanity_def MIN_SANITY_FEE_BPS_def MAX_SANITY_FEE_BPS_def)

lemma sane_burn_fee [simp]: "validateFeeSanity (burn_fee_tier pct) = Inr ()"
  by (rule sane_fee) (use burn_fee_tiers [of pct] in auto)

lemma getBurnFee_Inr:
  "getBurnFeeBps e table rows db c = Inr f \<longleftrightarrow>
     (\<exists>h s. getReserveStatus e table SEGMENT_TRANSACTIONS rows db = Inr h
        \<and> find (\<lambda>x. ss_currency x = c) (rh_currencies h) = Some s \<and> 0 < ss_target s \<and> f = burn_fee_tier (pct_of_target s))"
proof (cases "getReserveStatus e table SEGMENT_TRANSACTIONS rows db")
  case (Inr h)
  then show ?thesis
    by (cases "find (\<lambda>x. ss_currency x = c) (rh_currencies h)") (auto simp: getBurnFeeBps_def Let_def)
qed (simp add: getBurnFeeBps_def)

text \<open>
  Fees stay inside their tiers, and burning a scarcer currency never costs less: every fee the policy quotes
  is one of its tiers, so the sanity check behind it never fires; and when two reserve states have the same
  target for a currency, the one with the smaller actual weight quotes at least the fee of the other.
\<close>

theorem fees_tiered_and_monotone:
  "(getMintFeeBps e table rows db = Inr m \<longrightarrow> m \<in> {30, 50})
   \<and> getMintFeeBps e table rows db \<noteq> Inl (FeeOutOfRange y) \<and> getBurnFeeBps e table rows db c \<noteq> Inl (FeeOutOfRange y)
   \<and> (getBurnFeeBps e table rows db c = Inr f \<and> getBurnFeeBps e' table' rows' db' c = Inr f'
      \<and> getReserveStatus e table SEGMENT_TRANSACTIONS rows db = Inr h \<and> find (\<lambda>x. ss_currency x = c) (rh_currencies h) = Some s
      \<and> getReserveStatus e' table' SEGMENT_TRANSACTIONS rows' db' = Inr h' \<and> find (\<lambda>x. ss_currency x = c) (rh_currencies h') = Some s'
      \<and> ss_target s = ss_target s' \<and> ss_actual s \<le> ss_actual s'
      \<longrightarrow> f \<in> {5, 30, 200} \<and> f' \<le> f)"
proof (intro conjI impI)
  show "getMintFeeBps e table rows db = Inr m \<Longrightarrow> m \<in> {30, 50}"
    by (auto simp: getMintFeeBps_def bindR_Inr_iff Let_def BASE_MINT_FEE_BPS_def STRESSED_MINT_FEE_BPS_def MAX_MINT_FEE_BPS_def
        split: if_splits)
  show "getMintFeeBps e table rows db \<noteq> Inl (FeeOutOfRange y)"
    using sane_fee [of 30] sane_fee [of 50]
    by (auto simp: getMintFeeBps_def bindR_Inl_iff map_err_Inl_iff Let_def BASE_MINT_FEE_BPS_def STRESSED_MINT_FEE_BPS_def MAX_MINT_FEE_BPS_def
        split: if_splits)
  show "getBurnFeeBps e table rows db c \<noteq> Inl (FeeOutOfRange y)"
    by (auto simp: getBurnFeeBps_def bindR_Inl_iff map_err_Inl_iff Let_def split: option.splits if_splits)
next
  assume a: "getBurnFeeBps e table rows db c = Inr f \<and> getBurnFeeBps e' table' rows' db' c = Inr f'
      \<and> getReserveStatus e table SEGMENT_TRANSACTIONS rows db = Inr h \<and> find (\<lambda>x. ss_currency x = c) (rh_currencies h) = Some s
      \<and> getReserveStatus e' table' SEGMENT_TRANSACTIONS rows' db' = Inr h' \<and> find (\<lambda>x. ss_currency x = c) (rh_currencies h') = Some s'
      \<and> ss_target s = ss_target s' \<and> ss_actual s \<le> ss_actual s'"
  then have f: "f = burn_fee_tier (pct_of_target s)" "f' = burn_fee_tier (pct_of_target s')" "0 < ss_target s"
    by (auto simp: getBurnFee_Inr)
  show "f \<in> {5, 30, 200}" using f(1) burn_fee_tiers by simp
  show "f' \<le> f" unfolding f(1,2) using a f(3) by (intro burn_fee_tier_antimono pct_of_target_mono) auto
qed

section \<open>The circuit breaker at genesis\<close>

lemma ratio_without_supply:
  assumes "getTotalAcbuSupply e db = 0" and "calculateReserveRatio e table seg rows db = Inr r"
  shows "r = 0"
  using assms by (auto simp: calculateReserveRatio_def bindR_Inr_iff)

text \<open>
  The first unit of currency cannot be minted by a deposit. While no ACBU is in circulation the reserve ratio is
  reported as zero, whatever the reserve holds, and zero is below every positive minimum: minting counts as
  paused, and every basket deposit, USDC deposit and confirmation leaves the transactions as they are, which
  keeps the supply at zero.
\<close>

theorem no_supply_no_mint:
  assumes "getTotalAcbuSupply e (ms_db st) = 0" and "calculateReserveRatio e table SEGMENT_TRANSACTIONS rows (ms_db st) = Inr (mt_ratio m)"
    and "0 < minReserveRatio (circuit_limits (mt_caps m))"
  shows "snd (depositFromBasketCurrency m uid org aud header body st) = st
     \<and> snd (mintFromUsdc m uid org aud header b st) = st
     \<and> snd (confirmMint m cb st) = st"
proof -
  have paused: "isMintingPaused (mt_caps m) (mt_ratio m)"
    using assms(3) ratio_without_supply [OF assms(1,2)] by (simp add: isMintingPaused_def)
  show ?thesis
    using paused
    by (auto simp: depositFromBasketCurrency_def mintFromUsdc_def confirmMint_def mint_guards_def bail_def map_err_def Let_def
        split: option.split sum.split)
qed

section \<open>Tracking\<close>

lemma withRetry_Some: "withRetry f = Some x \<Longrightarrow> \<exists>n. 1 \<le> n \<and> n \<le> RESERVE_TRACKER_RETRIES \<and> f n = Some x"
proof -
  assume w: "withRetry f = Some x"
  let ?ys = "filter (\<lambda>x. x \<noteq> None) (map f [1..<Suc RESERVE_TRACKER_RETRIES])"
  from w obtain ys where "?ys = Some x # ys" by (auto simp: withRetry_def split: list.splits)
  then have "Some x \<in> set ?ys" by (metis list.set_intros(1))
  then show ?thesis by force
qed

definition custody_event :: "tracker_env \<Rightarrow> reserve_event \<Rightarrow> bool" where
  "custody_event e ev = (case ev of
      ReservePushed c a v \<Rightarrow> te_onchain e \<and> (\<exists>n r. 1 \<le> n \<and> n \<le> RESERVE_TRACKER_RETRIES \<and> te_custody e c n = Some (a, r)
          \<and> v = bigint_div (a * r) 10000000)
    | ReserveAlert \<Rightarrow> True)"

definition read_row :: "tracker_env \<Rightarrow> reserve_row \<Rightarrow> bool" where
  "read_row e r \<longleftrightarrow> rr_segment r = SEGMENT_TRANSACTIONS \<and> (\<exists>b v custody. read_reserve e (rr_currency r) = Some (b, v, custody)
      \<and> decimal_column 20 2 b = Some (rr_amount r) \<and> decimal_column 20 2 v = Some (rr_value r))"

lemma reserve_row_Some:
  "reserve_row c t a b v = Some row \<longleftrightarrow>
     (\<exists>t' a' b' v'. decimal_column 5 2 t = Some t' \<and> decimal_column 5 2 a = Some a' \<and> decimal_column 20 2 b = Some b'
        \<and> decimal_column 20 2 v = Some v' \<and> row = \<lparr>rr_currency = c, rr_segment = SEGMENT_TRANSACTIONS, rr_target = t',
             rr_actual = a', rr_amount = b', rr_value = v'\<rparr>)"
  by (auto simp: reserve_row_def split: option.splits)

lemma read_reserve_custody:
  assumes "read_reserve e c = Some (b, v, Some (a, w))"
  shows "\<exists>n r. 1 \<le> n \<and> n \<le> RESERVE_TRACKER_RETRIES \<and> te_custody e c n = Some (a, r) \<and> w = bigint_div (a * r) 10000000"
proof -
  from assms have "withRetry (readOnChainCustody e c) = Some (a, w)"
    by (auto simp: read_reserve_def split: option.splits if_splits)
  from withRetry_Some [OF this] show ?thesis
    by (auto simp: readOnChainCustody_def split: option.splits)
qed

lemma track_currency_appends:
  "\<exists>rows evs. rs_rows (track_currency e table c st) = rs_rows st @ rows \<and> rs_log (track_currency e table c st) = rs_log st @ evs
     \<and> (\<forall>ev \<in> set evs. custody_event e ev) \<and> (\<forall>r \<in> set rows. read_row e r \<and> rr_currency r = c)"
proof (cases "track_currency e table c st = st")
  case True
  then show ?thesis by (intro exI [of _ "[]"]) simp
next
  case False
  then obtain b v custody where r: "read_reserve e c = Some (b, v, custody)"
    by (cases "read_reserve e c") (auto simp: track_currency_def)
  with False obtain w where w: "getTargetWeight c table = Inr w"
    by (cases "getTargetWeight c table") (auto simp: track_currency_def)
  from False r w obtain t where t: "getTotalReserveValue table SEGMENT_TRANSACTIONS (rs_rows st) = Inr t"
    by (cases "getTotalReserveValue table SEGMENT_TRANSACTIONS (rs_rows st)") (auto simp: track_currency_def)
  from False r w t obtain row where row: "reserve_row c (dec_of_num w) (actual_weight v t) b v = Some row"
    by (cases "reserve_row c (dec_of_num w) (actual_weight v t) b v") (auto simp: track_currency_def)
  have "track_currency e table c st = st\<lparr>rs_rows := rs_rows st @ [row], rs_log := rs_log st @ push_reserve e c custody\<rparr>"
    by (simp add: track_currency_def r w t row)
  moreover have "\<forall>ev \<in> set (push_reserve e c custody). custody_event e ev"
    using read_reserve_custody [of e c b v] r
    by (cases custody) (auto simp: push_reserve_def custody_event_def)
  moreover have "read_row e row \<and> rr_currency row = c" using r row by (auto simp: read_row_def reserve_row_Some)
  ultimately show ?thesis by (intro exI [of _ "[row]"] exI [of _ "push_reserve e c custody"]) simp
qed

lemma track_all_appends:
  "\<exists>rows evs. rs_rows (fold (track_currency e table) cs st) = rs_rows st @ rows \<and> rs_log (fold (track_currency e table) cs st) = rs_log st @ evs
     \<and> (\<forall>ev \<in> set evs. custody_event e ev) \<and> (\<forall>r \<in> set rows. read_row e r \<and> rr_currency r \<in> set cs)"
proof (induction cs arbitrary: st)
  case (Cons c cs)
  obtain r1 e1 where one: "rs_rows (track_currency e table c st) = rs_rows st @ r1" "rs_log (track_currency e table c st) = rs_log st @ e1"
      "\<forall>ev \<in> set e1. custody_event e ev" "\<forall>r \<in> set r1. read_row e r \<and> rr_currency r = c"
    using track_currency_appends by metis
  obtain r2 e2 where two: "rs_rows (fold (track_currency e table) cs (track_currency e table c st)) = (rs_rows st @ r1) @ r2"
      "rs_log (fold (track_currency e table) cs (track_currency e table c st)) = (rs_log st @ e1) @ e2"
      "\<forall>ev \<in> set e2. custody_event e ev" "\<forall>r \<in> set r2. read_row e r \<and> rr_currency r \<in> set cs"
    using Cons.IH [of "track_currency e table c st"] one(1,2) by auto
  show ?case using one two by (intro exI [of _ "r1 @ r2"] exI [of _ "e1 @ e2"]) auto
qed simp

text \<open>
  Tracking never invents reserves. Snapshots are only added, each with the amount and the value that the
  chain or, when the chain cannot be read, the provider and the oracle reported for that currency in this run;
  and what is written to the reserve contract is the custody balance read from the chain, valued at the
  oracle's rate, never a fallback balance and never a zero made up for a failed read.
\<close>

theorem tracking_reports_what_was_read:
  assumes "trackReserves e table db st = (res, st')"
  shows "\<exists>rows evs. rs_rows st' = rs_rows st @ rows \<and> rs_log st' = rs_log st @ evs
     \<and> (\<forall>r \<in> set rows. read_row e r)
     \<and> (\<forall>c a v. ReservePushed c a v \<in> set evs \<longrightarrow> te_onchain e
          \<and> (\<exists>n r. 1 \<le> n \<and> n \<le> 3 \<and> te_custody e c n = Some (a, r) \<and> v = bigint_div (a * r) 10000000))"
proof (cases "getCurrentBasket table")
  case (Inl err)
  then show ?thesis using assms by (simp add: trackReserves_def)
next
  case (Inr basket)
  obtain rows evs where t: "rs_rows (fold (track_currency e table) (map fst basket) st) = rs_rows st @ rows"
      "rs_log (fold (track_currency e table) (map fst basket) st) = rs_log st @ evs"
      "\<forall>ev \<in> set evs. custody_event e ev" "\<forall>r \<in> set rows. read_row e r"
    using track_all_appends [of e table "map fst basket" st] by blast
  have "\<exists>alert. set alert \<subseteq> {ReserveAlert} \<and> rs_rows st' = rs_rows st @ rows \<and> rs_log st' = rs_log st @ evs @ alert"
    using assms Inr t(1,2)
    by (auto simp: trackReserves_def Let_def split: sum.splits if_splits intro: exI [of _ "[]"] exI [of _ "[ReserveAlert]"])
  then obtain alert where alert: "set alert \<subseteq> {ReserveAlert}" "rs_rows st' = rs_rows st @ rows" "rs_log st' = rs_log st @ evs @ alert" by blast
  have "te_onchain e \<and> (\<exists>n r. 1 \<le> n \<and> n \<le> 3 \<and> te_custody e c n = Some (a, r) \<and> v = bigint_div (a * r) 10000000)"
    if "ReservePushed c a v \<in> set (evs @ alert)" for c a v
  proof -
    from that alert(1) have "custody_event e (ReservePushed c a v)" using t(3) by auto
    then show ?thesis by (simp add: custody_event_def RESERVE_TRACKER_RETRIES_def)
  qed
  with t(4) alert(2,3) show ?thesis by (intro exI [of _ rows] exI [of _ "evs @ alert"]) blast
qed

section \<open>Rebalancing moves value\<close>

lemma round_near_nonneg: "0 \<le> q \<Longrightarrow> 0 \<le> round_near q"
  using round_int_mono [of 0 q HalfEven] round_int_of_int [of HalfEven 0] by (simp add: round_near_def)

lemma shortest_digits_nonneg: "0 \<le> x \<Longrightarrow> shortest_digits fuel k n x = (k', n', s) \<Longrightarrow> 0 \<le> s"
proof (induction fuel k n x rule: shortest_digits.induct)
  case (1 k n x)
  then show ?case by (auto intro!: round_near_nonneg)
next
  case (2 fuel k n x)
  have "0 \<le> round_near (x * 10 powi (int k - n))" using 2 by (intro round_near_nonneg) simp
  then show ?case using 2 by (auto simp: Let_def split: if_splits)
qed

lemma dec_of_num_nonneg: "0 \<le> x \<Longrightarrow> 0 \<le> dec_of_num x"
  by (auto simp: dec_of_num_def Let_def dest: shortest_digits_nonneg [rotated] split: prod.split)

text \<open>
  Rebalancing moves value from where there is too much to where there is too little: every instruction sells
  a currency whose drift is above the threshold, buys one whose drift is below its negative, and moves a
  positive amount. In particular it never trades a currency for itself.
\<close>

theorem rebalancing_direction:
  assumes "i \<in> set (generateInstructions threshold fx snapshot tot)" and "0 \<le> threshold" and "distinct (map ss_currency snapshot)"
  shows "\<exists>ov u. ov \<in> set snapshot \<and> u \<in> set snapshot \<and> ri_from i = ss_currency ov \<and> ri_to i = ss_currency u
     \<and> dec_of_num threshold < ss_drift ov \<and> ss_drift u < - dec_of_num threshold \<and> 0 < ri_amountUsd i
     \<and> ri_from i \<noteq> ri_to i"
proof -
  from assms(1) obtain ov u r excess where o: "ov \<in> set snapshot" "dec_of_num threshold < ss_drift ov" "u \<in> set snapshot"
      "ss_drift u < - dec_of_num threshold"
      "i \<in> set (buy_instruction fx (filter (\<lambda>c. ss_drift c < - dec_of_num threshold) snapshot) ov excess r u)"
    by (auto simp: generateInstructions_def Let_def split: if_splits option.splits)
  from o(5) have i: "ri_from i = ss_currency ov" "ri_to i = ss_currency u" "0 < ri_amountUsd i"
    by (auto simp: buy_instruction_def Let_def not_le split: if_splits option.splits intro: f64.rnd_gt_0)
  have diff: "ss_currency ov \<noteq> ss_currency u"
  proof
    assume "ss_currency ov = ss_currency u"
    then have "ov = u" using assms(3) o(1,3) by (metis distinct_map inj_on_eq_iff)
    then have "ss_drift ov = ss_drift u" by (rule arg_cong)
    with o(2,4) dec_of_num_nonneg [OF assms(2)] show False by linarith
  qed
  show ?thesis using i o(1-4) diff by (intro exI [of _ ov] exI [of _ u]) simp
qed

section \<open>The first run\<close>

lemma prisma_dec_100: "prisma_dec 100 = 100" "prisma_dec 1 = 1" "prisma_dec 200 = 200" "prisma_dec 2 = 2" "f64 200 = 200"
  using prisma_dec.rnd_int [of 100] prisma_dec.rnd_int [of 1] prisma_dec.rnd_int [of 200] prisma_dec.rnd_int [of 2] f64.rnd_int [of 200]
  by simp_all

lemma column_small: "decimal_column 5 2 0 = Some 0" "decimal_column 5 2 100 = Some 100" "decimal_column 5 2 50 = Some 50"
  by (simp_all add: decimal_column_def Let_def floor_eq_iff)

lemma tier_values: "burn_fee_tier 0 = 200" "burn_fee_tier 200 = 5"
proof -
  have eps: "0 \<le> RESERVE_THRESHOLD_EPSILON" "RESERVE_THRESHOLD_EPSILON \<le> 1"
    unfolding RESERVE_THRESHOLD_EPSILON_def by (rule f64.rnd_ge_0, simp) (rule f64.rnd_le_1, simp)
  have "0 < f64 (LOW_RESERVE_THRESHOLD_PCT - RESERVE_THRESHOLD_EPSILON)"
    using eps by (intro f64.rnd_gt_0) (simp add: LOW_RESERVE_THRESHOLD_PCT_def)
  then show "burn_fee_tier 0 = 200" by (simp add: burn_fee_tier_def LOW_RESERVE_BURN_FEE_BPS_def)
  have "f64 (LOW_RESERVE_THRESHOLD_PCT - RESERVE_THRESHOLD_EPSILON) \<le> of_int 100"
    using eps by (intro f64.rnd_le_int) (simp_all add: LOW_RESERVE_THRESHOLD_PCT_def)
  moreover have "f64 (HIGH_RESERVE_THRESHOLD_PCT + RESERVE_THRESHOLD_EPSILON) \<le> of_int 116"
    using eps by (intro f64.rnd_le_int) (simp_all add: HIGH_RESERVE_THRESHOLD_PCT_def)
  ultimately show "burn_fee_tier 200 = 5" by (simp add: burn_fee_tier_def HIGH_RESERVE_BURN_FEE_BPS_def)
qed

lemma fifty_dec: "dec_of_num 50 = 50"
proof -
  have r: "round_near 5 = 5" by code_simp
  have l: "expo 10 50 = 1" by code_simp
  have "shortest_digits (Suc 15) 1 2 50 = (1, 2, 5)"
    by (subst shortest_digits.simps(2)) (simp add: Let_def r five_rounds)
  then show ?thesis by (simp add: dec_of_num_def l)
qed

lemma first_run_weights:
  assumes "getCurrentBasket table = Inr [(c, 50), (c', 50)]" and "c \<noteq> c'" and "rs_rows st = []"
    and "read_reserve e c = Some (b, v, cu)" and "read_reserve e c' = Some (b', v, cu')"
    and "decimal_column 20 2 b \<noteq> None" and "decimal_column 20 2 b' \<noteq> None" and "decimal_column 20 2 v = Some v"
    and "0 < v" and "prisma_dec v = v"
    and "trackReserves e table db st = (res, st')"
  shows "map rr_actual (rs_rows st') = [0, 100] \<and> map rr_target (rs_rows st') = [50, 50] \<and> map rr_value (rs_rows st') = [v, v]
     \<and> getBurnFeeBps e table (rs_rows st') db c = Inr 200 \<and> getBurnFeeBps e table (rs_rows st') db c' = Inr 5
     \<and> (\<exists>h s s'. getReserveStatus e table SEGMENT_TRANSACTIONS (rs_rows st') db = Inr h \<and> rh_currencies h = [s, s']
        \<and> ss_currency s = c \<and> ss_currency s' = c' \<and> ss_target s = 50 \<and> ss_target s' = 50 \<and> ss_actual s = 0 \<and> ss_actual s' = 100)"
proof -
  let ?T = SEGMENT_TRANSACTIONS
  have cs: "getCurrencies table = Inr [c, c']" by (simp add: getCurrencies_def assms(1))
  have tw: "getTargetWeight c table = Inr 50" "getTargetWeight c' table = Inr 50"
    using assms(2) by (simp_all add: getTargetWeight_def assms(1))
  obtain q q' where q: "decimal_column 20 2 b = Some q" "decimal_column 20 2 b' = Some q'" using assms(6,7) by blast
  define r where "r = \<lparr>rr_currency = c, rr_segment = ?T, rr_target = 50, rr_actual = 0, rr_amount = q, rr_value = v\<rparr>"
  define r' where "r' = \<lparr>rr_currency = c', rr_segment = ?T, rr_target = 50, rr_actual = 100, rr_amount = q', rr_value = v\<rparr>"
  define st1 where "st1 = track_currency e table c st"
  define st2 where "st2 = track_currency e table c' st1"
  have t0: "getTotalReserveValue table ?T (rs_rows st) = Inr 0"
    by (simp add: getTotalReserveValue_def cs reserve_total_def latest_reserve_def assms(3))
  have "reserve_row c (dec_of_num 50) (actual_weight v 0) b v = Some r"
    by (simp add: reserve_row_def fifty_dec actual_weight_def column_small q assms(8) r_def)
  then have s1: "rs_rows st1 = [r]" by (simp add: st1_def track_currency_def assms(3,4) tw t0 [unfolded assms(3)])
  have t1: "getTotalReserveValue table ?T (rs_rows st1) = Inr v"
    using assms(2,10) by (simp add: getTotalReserveValue_def cs reserve_total_def latest_reserve_def s1 r_def)
  have "reserve_row c' (dec_of_num 50) (actual_weight v v) b' v = Some r'"
    using assms(9) by (simp add: reserve_row_def fifty_dec actual_weight_def column_small prisma_dec_100 q assms(8) r'_def)
  then have s2: "rs_rows st2 = [r, r']"
    using t1 by (simp add: st2_def track_currency_def assms(5) tw s1)
  have st': "rs_rows st' = [r, r']"
    using assms(11) s2 by (auto simp: trackReserves_def assms(1) Let_def st1_def [symmetric] st2_def [symmetric] split: sum.splits if_splits)
  have latest: "latest_reserve c ?T [r, r'] = Some r" "latest_reserve c' ?T [r, r'] = Some r'"
    using assms(2) by (simp_all add: latest_reserve_def r_def r'_def)
  obtain h where h: "getReserveStatus e table ?T [r, r'] db = Inr h"
      "rh_currencies h = List.map_filter (currency_status ?T [r, r']) [c, c']"
    by (simp add: getReserveStatus_def getTotalReserveValue_def cs Let_def)
  define s s' where "s = the (currency_status ?T [r, r'] c)" and "s' = the (currency_status ?T [r, r'] c')"
  have st: "currency_status ?T [r, r'] c = Some s" "currency_status ?T [r, r'] c' = Some s'"
    by (simp_all add: currency_status_def latest s_def s'_def)
  have sv: "s = \<lparr>ss_currency = c, ss_target = 50, ss_actual = 0, ss_amount = q, ss_value = v, ss_drift = prisma_dec (0 - 50)\<rparr>"
      "s' = \<lparr>ss_currency = c', ss_target = 50, ss_actual = 100, ss_amount = q', ss_value = v, ss_drift = prisma_dec (100 - 50)\<rparr>"
    using st unfolding currency_status_def latest by (simp_all add: r_def r'_def)
  have cur: "rh_currencies h = [s, s']" "ss_currency s = c" "ss_currency s' = c'" "ss_target s = 50" "ss_target s' = 50"
      "ss_actual s = 0" "ss_actual s' = 100"
    by (simp_all add: h(2) List.map_filter_def st sv)
  have pct: "pct_of_target s = 0" "pct_of_target s' = 200"
    by (simp_all add: pct_of_target_def cur prisma_dec_100)
  have "getBurnFeeBps e table [r, r'] db c = Inr 200" "getBurnFeeBps e table [r, r'] db c' = Inr 5"
    unfolding getBurnFee_Inr using h(1) cur assms(2) pct tier_values by auto
  moreover have "\<exists>h s s'. getReserveStatus e table ?T (rs_rows st') db = Inr h \<and> rh_currencies h = [s, s']
        \<and> ss_currency s = c \<and> ss_currency s' = c' \<and> ss_target s = 50 \<and> ss_target s' = 50 \<and> ss_actual s = 0 \<and> ss_actual s' = 100"
    unfolding st' using h(1) cur by blast
  ultimately show ?thesis using st' by (simp add: r_def r'_def)
qed

text \<open>
  The weights of a first run are wrong, and so are the fees that rest on them. A snapshot's weight is its value
  divided by the total of the snapshots recorded before it, not by the total of the run. Take a basket of
  two currencies with equal targets and equal reserves, and no snapshots yet: both hold half of the reserve,
  but the first is recorded with weight 0, the second with weight 100 percent, and burning the first costs
  the scarcity fee of 200 basis points, burning the second the surplus fee of 5. The values that are
  recorded are right.
\<close>

theorem first_run_weights_wrong:
  assumes "getCurrentBasket table = Inr [(c, 50), (c', 50)]" and "c \<noteq> c'" and "rs_rows st = []"
    and "read_reserve e c = Some (b, v, cu)" and "read_reserve e c' = Some (b', v, cu')"
    and "decimal_column 20 2 b \<noteq> None" and "decimal_column 20 2 b' \<noteq> None" and "decimal_column 20 2 v = Some v"
    and "0 < v" and "prisma_dec v = v"
    and "trackReserves e table db st = (res, st')"
  shows "map rr_actual (rs_rows st') = [0, 100] \<and> map rr_target (rs_rows st') = [50, 50] \<and> map rr_value (rs_rows st') = [v, v]
     \<and> getBurnFeeBps e table (rs_rows st') db c = Inr 200 \<and> getBurnFeeBps e table (rs_rows st') db c' = Inr 5"
  using first_run_weights [OF assms] by blast

section \<open>The properties at concrete inputs\<close>

definition even_basket :: "basket_row list" where
  "even_basket = [\<lparr>br_from = 1, br_currency = ''NGN'', br_weight = 50, br_status = ActiveBasket\<rparr>,
     \<lparr>br_from = 1, br_currency = ''KES'', br_weight = 50, br_status = ActiveBasket\<rparr>]"

text \<open>Half a million units of each currency in custody, at one dollar.\<close>

definition even_world :: tracker_env where
  "even_world = \<lparr>te_onchain = True, te_custody = (\<lambda>c n. if n = 2 then Some (50000000, 10000000) else None), te_provider = (\<lambda>_ _. None),
     te_oracle = (\<lambda>_ _. None), te_keypair = True, te_push = (\<lambda>_ _ _. True), te_issuer = None, te_assets = AssetsThrow,
     te_targetRatio = 1, te_alertThreshold = 1, te_minRatio = 1, te_queue = True\<rparr>"

definition no_reserve :: reserve_state where
  "no_reserve = \<lparr>rs_rows = [], rs_log = []\<rparr>"

lemma even_basket_current: "getCurrentBasket even_basket = Inr [(''NGN'', 50), (''KES'', 50)]"
proof -
  have v: "f64 50 = 50" "f64 100 = 100" "f64 5000 = 5000" "f64 10000 = 10000" using f64.rnd_numeral_le by simp_all
  have r: "js_round 5000 = 5000" "js_round 10000 = 10000" using js_round_of_int [of 5000] js_round_of_int [of 10000] by simp_all
  show ?thesis
    by (simp add: getCurrentBasket_def even_basket_def active_basket_def Let_def js_sum_def v r BASKET_WEIGHT_BASIS_POINTS_def)
qed

lemma even_reading: "read_reserve even_world c = Some (5, 5, Some (50000000, 50000000))"
proof -
  have "[1..<Suc 3] = [1, 2, 3]" by code_simp
  then have "withRetry (readOnChainCustody even_world c) = Some (50000000, 50000000)"
    by (simp add: withRetry_def RESERVE_TRACKER_RETRIES_def readOnChainCustody_def even_world_def bigint_div_def numeral_3_eq_3)
  then show ?thesis by (simp add: read_reserve_def even_world_def five_rounds)
qed

definition even_run :: reserve_state where
  "even_run = snd (trackReserves even_world even_basket empty_db no_reserve)"

lemma even_run_eq: "trackReserves even_world even_basket empty_db no_reserve = (fst (trackReserves even_world even_basket empty_db no_reserve), even_run)"
  by (simp add: even_run_def)

lemma even_facts: "''NGN'' \<noteq> ''KES''" "rs_rows no_reserve = []" "decimal_column 20 2 5 \<noteq> None" "decimal_column 20 2 5 = Some 5" "(0::rat) < 5"
  by (simp_all add: no_reserve_def decimal_column_def Let_def floor_eq_iff)

theorem first_run_weights_wrong_witness:
  "map rr_actual (rs_rows even_run) = [0, 100] \<and> map rr_value (rs_rows even_run) = [5, 5]
   \<and> getBurnFeeBps even_world even_basket (rs_rows even_run) empty_db ''NGN'' = Inr 200
   \<and> getBurnFeeBps even_world even_basket (rs_rows even_run) empty_db ''KES'' = Inr 5"
  using first_run_weights_wrong [OF even_basket_current even_facts(1,2) even_reading even_reading even_facts(3,3,4,5) five_rounds(2) even_run_eq]
  by blast

lemmas even_first = first_run_weights [OF even_basket_current even_facts(1,2) even_reading even_reading even_facts(3,3,4,5) five_rounds(2) even_run_eq]

theorem tracking_reports_what_was_read_witness:
  "rs_rows even_run \<noteq> [] \<and> list_all (read_row even_world) (rs_rows even_run)"
proof -
  have "map rr_value (rs_rows even_run) = [5, 5]" using even_first by blast
  with tracking_reports_what_was_read [OF even_run_eq] show ?thesis by (auto simp: no_reserve_def list_all_iff)
qed

text \<open>The same reserves listed the other way round: now NGN is the abundant one.\<close>

definition odd_basket :: "basket_row list" where
  "odd_basket = rev even_basket"

lemma odd_basket_current: "getCurrentBasket odd_basket = Inr [(''KES'', 50), (''NGN'', 50)]"
proof -
  have v: "f64 50 = 50" "f64 100 = 100" "f64 5000 = 5000" "f64 10000 = 10000" using f64.rnd_numeral_le by simp_all
  have r: "js_round 5000 = 5000" "js_round 10000 = 10000" using js_round_of_int [of 5000] js_round_of_int [of 10000] by simp_all
  show ?thesis
    by (simp add: getCurrentBasket_def odd_basket_def even_basket_def active_basket_def Let_def js_sum_def v r BASKET_WEIGHT_BASIS_POINTS_def)
qed

definition odd_run :: reserve_state where
  "odd_run = snd (trackReserves even_world odd_basket empty_db no_reserve)"

lemma odd_run_eq: "trackReserves even_world odd_basket empty_db no_reserve = (fst (trackReserves even_world odd_basket empty_db no_reserve), odd_run)"
  by (simp add: odd_run_def)

lemmas odd_first = first_run_weights [OF odd_basket_current even_facts(1) [symmetric] even_facts(2) even_reading even_reading
  even_facts(3,3,4,5) five_rounds(2) odd_run_eq]

theorem fees_tiered_and_monotone_witness:
  "\<exists>f f'. getBurnFeeBps even_world even_basket (rs_rows even_run) empty_db ''NGN'' = Inr f
     \<and> getBurnFeeBps even_world odd_basket (rs_rows odd_run) empty_db ''NGN'' = Inr f' \<and> f \<in> {5, 30, 200} \<and> f' \<le> f"
proof -
  let ?T = SEGMENT_TRANSACTIONS
  obtain h s s2 where h: "getReserveStatus even_world even_basket ?T (rs_rows even_run) empty_db = Inr h" "rh_currencies h = [s, s2]"
      "ss_currency s = ''NGN''" "ss_target s = 50" "ss_actual s = 0" using even_first by blast
  obtain k t2 t where k: "getReserveStatus even_world odd_basket ?T (rs_rows odd_run) empty_db = Inr k" "rh_currencies k = [t2, t]"
      "ss_currency t2 = ''KES''" "ss_currency t = ''NGN''" "ss_target t = 50" "ss_actual t = 100" using odd_first by blast
  have f: "getBurnFeeBps even_world even_basket (rs_rows even_run) empty_db ''NGN'' = Inr 200"
      "getBurnFeeBps even_world odd_basket (rs_rows odd_run) empty_db ''NGN'' = Inr 5"
    using even_first odd_first by blast+
  have "find (\<lambda>x. ss_currency x = ''NGN'') (rh_currencies h) = Some s" "find (\<lambda>x. ss_currency x = ''NGN'') (rh_currencies k) = Some t"
    using h(2,3) k(2-4) by simp_all
  with fees_tiered_and_monotone [of even_world even_basket "rs_rows even_run" empty_db 30 0 "''NGN''" 200 even_world odd_basket "rs_rows odd_run"
      empty_db 5 h s k t] f h k
  show ?thesis by auto
qed

theorem no_supply_no_mint_witness:
  "getTotalAcbuSupply even_world (ms_db mint_start) = 0
   \<and> snd (depositFromBasketCurrency (ok_world\<lparr>mt_ratio := 0\<rparr>) (Some ''u1'') None None (Some ''k'') ngn_deposit mint_start) = mint_start"
proof -
  have s: "getTotalAcbuSupply even_world (ms_db mint_start) = 0"
    by (simp add: getTotalAcbuSupply_def getTotalAcbuSupplyFromLedger_def even_world_def truthy_def mint_start_def empty_db_def sum_some_def)
  have "getCurrencies even_basket = Inr [''NGN'', ''KES'']" by (simp add: getCurrencies_def even_basket_current)
  then have r: "calculateReserveRatio even_world even_basket SEGMENT_TRANSACTIONS (rs_rows even_run) (ms_db mint_start)
      = Inr (mt_ratio (ok_world\<lparr>mt_ratio := 0\<rparr>))"
    using s by (simp add: calculateReserveRatio_def getTotalReserveValue_def)
  have "0 < minReserveRatio (circuit_limits (mt_caps (ok_world\<lparr>mt_ratio := 0\<rparr>)))" by (simp add: mint_world_def)
  from no_supply_no_mint [OF s r this] s show ?thesis by blast
qed

definition drifted :: "reserve_status list" where
  "drifted = [\<lparr>ss_currency = ''NGN'', ss_target = 50, ss_actual = 55, ss_amount = 5, ss_value = 5, ss_drift = 5\<rparr>,
     \<lparr>ss_currency = ''KES'', ss_target = 50, ss_actual = 45, ss_amount = 5, ss_value = 5, ss_drift = - 5\<rparr>]"

lemma drifted_instructions: "map ri_to (generateInstructions 0 (\<lambda>_. Some 1) drifted 100) = [''KES'']"
proof -
  have "prisma_dec 500 = 500" using prisma_dec.rnd_int [of 500] by simp
  moreover have "dec_of_num 0 = 0" by (simp add: dec_of_num_def)
  ultimately show ?thesis
    by (simp add: generateInstructions_def drifted_def Let_def buy_instruction_def deficit_total_def five_rounds prisma_dec_100)
qed

theorem rebalancing_direction_witness:
  "\<exists>i \<in> set (generateInstructions 0 (\<lambda>_. Some 1) drifted 100). 0 < ri_amountUsd i \<and> ri_from i \<noteq> ri_to i"
proof -
  obtain i where i: "i \<in> set (generateInstructions 0 (\<lambda>_. Some 1) drifted 100)"
    using drifted_instructions by (cases "generateInstructions 0 (\<lambda>_. Some 1) drifted 100") auto
  have "distinct (map ss_currency drifted)" by (simp add: drifted_def)
  from rebalancing_direction [OF i order_refl this] i show ?thesis by blast
qed

end
