(* ===== verification/Queue.thy ===== *)
theory Queue
  imports Prelude
begin

text \<open>
  Messages of the job queues: \<open>src/jobs/queueConfig.ts\<close> and the consumer loop that the jobs share. A
  message is acknowledged when its job returns; when the job throws, it is sent again with its retry
  count incremented, or to the dead letter queue once the count has reached the limit.
\<close>

section \<open>Retry limits\<close>

definition QUEUE_RETRY_LIMITS :: "(string \<times> nat) list" where
  "QUEUE_RETRY_LIMITS =
     [(''acbu_escrow_events'', 5), (''acbu_lending_pool_events'', 5), (''acbu_savings_vault_events'', 5),
      (''audit_logs'', 3), (''notifications'', 5), (''otp_send'', 5), (''rebalancing'', 5),
      (''stellar_event_failures'', 5), (''usdc_conversion'', 5), (''usdc_convert_and_mint'', 5),
      (''webhooks'', 5), (''withdrawal_processing'', 5), (''xlm_to_acbu'', 5)]"

definition DEFAULT_MAX_RETRIES :: nat where
  "DEFAULT_MAX_RETRIES = 5"

definition getQueueMaxRetries :: "string \<Rightarrow> nat" where
  "getQueueMaxRetries q = (case map_of QUEUE_RETRY_LIMITS q of Some n \<Rightarrow> n | None \<Rightarrow> DEFAULT_MAX_RETRIES)"

section \<open>A message until it leaves the queue\<close>

datatype delivery = Acked | Requeued | DeadLettered

text \<open>What a consumer does with a message after its job has returned or thrown.\<close>

definition settle_message :: "nat \<Rightarrow> nat \<Rightarrow> bool \<Rightarrow> delivery" where
  "settle_message maxRetries retries returned =
     (if returned then Acked else if maxRetries \<le> retries then DeadLettered else Requeued)"

function redeliver :: "nat \<Rightarrow> (nat \<Rightarrow> 's \<Rightarrow> bool \<times> 's) \<Rightarrow> nat \<Rightarrow> 's \<Rightarrow> delivery \<times> 's" where
  "redeliver maxRetries job retries st =
     (case job retries st of
        (returned, st') \<Rightarrow>
          (case settle_message maxRetries retries returned of
             Requeued \<Rightarrow> redeliver maxRetries job (Suc retries) st'
           | d \<Rightarrow> (d, st')))"
  by pat_completeness auto
termination
  by (relation "measure (\<lambda>(maxRetries, job, retries, st). maxRetries - retries)")
     (auto simp: settle_message_def split: if_splits)

declare redeliver.simps [simp del]

lemma redeliver_step:
  "redeliver m job n st =
     (if fst (job n st) then (Acked, snd (job n st))
      else if m \<le> n then (DeadLettered, snd (job n st))
      else redeliver m job (Suc n) (snd (job n st)))"
  by (subst redeliver.simps) (simp add: settle_message_def split: prod.split)

section \<open>The contract of a job\<close>

text \<open>What holds of a job on every attempt holds when its message has left the queue, and every message does.\<close>

locale retried_job =
  fixes job :: "nat \<Rightarrow> 's \<Rightarrow> bool \<times> 's" and inv :: "'s \<Rightarrow> bool"
  assumes job_keeps: "inv st \<Longrightarrow> inv (snd (job n st))"
begin

lemma message_keeps: "inv st \<Longrightarrow> inv (snd (redeliver m job n st))"
proof (induction "m - n" arbitrary: n st rule: less_induct)
  case less
  show ?case
  proof (cases "fst (job n st) \<or> m \<le> n")
    case True
    then show ?thesis using job_keeps [OF less.prems] by (subst redeliver_step) auto
  next
    case False
    then have "m - Suc n < m - n" by arith
    with False show ?thesis using less.hyps [of "Suc n" "snd (job n st)"] job_keeps [OF less.prems]
      by (subst redeliver_step) auto
  qed
qed

end

lemma message_leaves: "fst (redeliver m job n st) \<noteq> Requeued"
proof (induction "m - n" arbitrary: n st rule: less_induct)
  case less
  show ?case
  proof (cases "fst (job n st) \<or> m \<le> n")
    case False
    then have "m - Suc n < m - n" by arith
    with False show ?thesis using less.hyps [of "Suc n" "snd (job n st)"] by (subst redeliver_step) auto
  qed (subst redeliver_step, auto)
qed

end
