(* ===== verification/OnRamp.thy ===== *)
theory OnRamp
  imports Minting Queue
begin

text \<open>
  The on-ramp: \<open>src/controllers/onrampController.ts\<close> registers a deposit of XLM, \<open>src/jobs/xlmToAcbuJob.ts\<close>
  mints for it; \<open>src/jobs/usdcConvertAndMintJob.ts\<close> converts the deposits that \<open>POST /v1/mint/usdc\<close> registers
  through \<open>src/services/stellar/usdcSwap.ts\<close> and mints. Horizon is a parameter, and so is the failure of
  single database updates; a swap on the exchange is an event of the log. A submission whose answer is
  lost counts as refused.
\<close>

section \<open>The swap on the exchange\<close>

text \<open>Amounts with seven decimals, \<open>toFixed(7)\<close>, are integers here.\<close>

definition to_fixed7 :: "rat \<Rightarrow> int" where
  "to_fixed7 x = (if x < 0 then - \<lfloor>- x * 10000000 + 1 / 2\<rfloor> else \<lfloor>x * 10000000 + 1 / 2\<rfloor>)"

definition SLIPPAGE_BPS :: "string option \<Rightarrow> jsnum" where
  "SLIPPAGE_BPS env = parse_int (case env of Some s \<Rightarrow> s | None \<Rightarrow> ''50'')"

record dex_env =
  dx_issuer :: "string option"
  dx_keypair :: bool
  dx_slippage :: "string option"                                   \<comment> \<open>\<open>USDC_XLM_SLIPPAGE_BPS\<close>\<close>
  dx_paths :: "int \<Rightarrow> (string \<times> string) list option"              \<comment> \<open>asset type and amount; \<open>None\<close>: Horizon throws\<close>
  dx_submit :: "int \<Rightarrow> int \<Rightarrow> string option"                       \<comment> \<open>amount sent, least amount received\<close>

datatype swap_error = NoIssuer | NoKeypair | HorizonFailed | NoPath | BadAmountString | SubmitFailed

definition dest_min :: "rat \<Rightarrow> rat \<Rightarrow> int" where
  "dest_min expected bps = to_fixed7 (f64 (expected * f64 (1 - f64 (bps / 10000))))"

definition swapUsdcToXlm :: "dex_env \<Rightarrow> rat \<Rightarrow> swap_error + (rat \<times> string)" where
  "swapUsdcToXlm e usdcAmount =
     (if \<not> truthy (dx_issuer e) then Inl NoIssuer
      else if \<not> dx_keypair e then Inl NoKeypair
      else (case dx_paths e (to_fixed7 usdcAmount) of
          None \<Rightarrow> Inl HorizonFailed
        | Some records \<Rightarrow>
          (case find (\<lambda>r. fst r = ''native'') records of
             None \<Rightarrow> Inl NoPath
           | Some r \<Rightarrow>
             (case (parse_float (snd r), SLIPPAGE_BPS (dx_slippage e)) of
                (Fin expected, Fin bps) \<Rightarrow>
                  (case dx_submit e (to_fixed7 usdcAmount) (dest_min expected bps) of
                     None \<Rightarrow> Inl SubmitFailed
                   | Some h \<Rightarrow> Inr (expected, h))
              | _ \<Rightarrow> Inl BadAmountString))))"

section \<open>Jobs\<close>

record onramp_env =
  or_mint :: mint_env
  or_dex :: dex_env
  or_xlm_rate :: "rat option"           \<comment> \<open>\<open>fetchXlmRateUsd\<close>\<close>
  or_rate_env :: "string option"        \<comment> \<open>\<open>XLM_USD_RATE\<close>\<close>
  or_store_fails :: bool                \<comment> \<open>the update that stores the XLM amount\<close>
  or_finish_fails :: bool               \<comment> \<open>the update that completes the swap\<close>
  or_release_fails :: bool              \<comment> \<open>the update after a failure\<close>

definition set_swap :: "nat \<Rightarrow> (swap \<Rightarrow> swap) \<Rightarrow> mint_state \<Rightarrow> mint_state" where
  "set_swap i f st = st\<lparr>ms_swaps := update_swap i f (ms_swaps st)\<rparr>"

text \<open>The conditional update that claims a swap; \<open>None\<close> when it matches no row.\<close>

definition claim_swap :: "swap_source option \<Rightarrow> nat \<Rightarrow> mint_state \<Rightarrow> mint_state option" where
  "claim_swap src i st =
     (if \<exists>r \<in> set (sw_rows (ms_swaps st)).
           sw_id r = i \<and> sw_status r = PendingConvert \<and> (case src of None \<Rightarrow> True | Some s \<Rightarrow> sw_source r = s)
      then Some (set_swap i (\<lambda>r. r\<lparr>sw_status := SwapProcessing\<rparr>) st) else None)"

definition release_swap :: "onramp_env \<Rightarrow> bool \<Rightarrow> nat \<Rightarrow> mint_state \<Rightarrow> mint_state" where
  "release_swap e final i st =
     (if or_release_fails e then st
      else set_swap i (\<lambda>r. r\<lparr>sw_status := (if final then SwapFailed else PendingConvert)\<rparr>) st)"

definition convert_swap :: "onramp_env \<Rightarrow> nat \<Rightarrow> swap \<Rightarrow> rat \<Rightarrow> mint_state \<Rightarrow> bool \<times> mint_state" where
  "convert_swap e i sw usdc st =
     (case sw_xlm sw of
        Some _ \<Rightarrow> (True, st)
      | None \<Rightarrow>
        (case swapUsdcToXlm (or_dex e) usdc of
           Inl _ \<Rightarrow> (False, st)
         | Inr (xlm, h) \<Rightarrow>
             let st1 = ms_add [DexSwapped i usdc xlm] st in
             if or_store_fails e then (False, st1)
             else (True, set_swap i (\<lambda>r. r\<lparr>sw_xlm := Some (dec_of_num xlm)\<rparr>) st1)))"

text \<open>The mint, and the update that completes the swap.\<close>

definition mint_swap :: "onramp_env \<Rightarrow> nat \<Rightarrow> rat \<Rightarrow> string \<Rightarrow> string \<Rightarrow> mint_state \<Rightarrow> bool \<times> mint_state" where
  "mint_swap e i usdc address uid st =
     (case mintFromUsdcInternal (or_mint e) usdc address (Some uid) None st of
        (Inl _, st1) \<Rightarrow> (False, st1)
      | (Inr (t, _), st1) \<Rightarrow>
          if or_finish_fails e then (False, st1)
          else (True, set_swap i (\<lambda>r. r\<lparr>sw_status := SwapCompleted, sw_tx := Some t, sw_completed := Some (mt_now (or_mint e))\<rparr>) st1))"

text \<open>The flag of the result: the job returns, or throws.\<close>

definition processUsdcConvertAndMint :: "onramp_env \<Rightarrow> bool \<Rightarrow> nat \<Rightarrow> mint_state \<Rightarrow> bool \<times> mint_state" where
  "processUsdcConvertAndMint e final i st =
     (case claim_swap (Some UsdcDeposit) i st of
        None \<Rightarrow> (True, st)
      | Some st1 \<Rightarrow>
        (case find_swap i (ms_swaps st1) of
           None \<Rightarrow> (True, st1)
         | Some sw \<Rightarrow>
           let usdc = (case sw_usdc sw of None \<Rightarrow> 0 | Some u \<Rightarrow> f64 u) in
           if usdc \<le> 0 then (True, set_swap i (\<lambda>r. r\<lparr>sw_status := SwapFailed\<rparr>) st1)
           else (case convert_swap e i sw usdc st1 of
               (False, st2) \<Rightarrow> (False, release_swap e final i st2)
             | (True, st2) \<Rightarrow>
                 (case mint_swap e i usdc (sw_address sw) (sw_user sw) st2 of
                    (False, st3) \<Rightarrow> (False, release_swap e final i st3)
                  | (True, st3) \<Rightarrow> (True, st3)))))"

text \<open>A message of the queue; \<open>None\<close> is a body that does not parse. Attempt \<open>n\<close> meets the world \<open>es n\<close>.\<close>

definition usdc_message :: "(nat \<Rightarrow> onramp_env) \<Rightarrow> nat option \<Rightarrow> nat \<Rightarrow> mint_state \<Rightarrow> bool \<times> mint_state" where
  "usdc_message es body n st =
     (case body of
        None \<Rightarrow> (False, st)
      | Some i \<Rightarrow> processUsdcConvertAndMint (es n) (getQueueMaxRetries ''usdc_convert_and_mint'' - 1 \<le> n) i st)"

definition deliver_usdc :: "(nat \<Rightarrow> onramp_env) \<Rightarrow> nat option \<Rightarrow> mint_state \<Rightarrow> delivery \<times> mint_state" where
  "deliver_usdc es body st = redeliver (getQueueMaxRetries ''usdc_convert_and_mint'') (usdc_message es body) 0 st"

record xlm_payload =
  xp_swap :: nat
  xp_user :: string
  xp_address :: string
  xp_xlm :: string
  xp_usdc :: "string option"

text \<open>The amount to mint for; \<open>None\<close> when it is not a finite number, which the database refuses.\<close>

definition xlm_usdc_amount :: "onramp_env \<Rightarrow> xlm_payload \<Rightarrow> rat option" where
  "xlm_usdc_amount e p =
     (if truthy (xp_usdc p) then (case js_number (the (xp_usdc p)) of Fin u \<Rightarrow> Some u | _ \<Rightarrow> None)
      else
        let rate = (case or_xlm_rate e of
              Some r \<Rightarrow> Fin r
            | None \<Rightarrow> js_number (case or_rate_env e of Some s \<Rightarrow> s | None \<Rightarrow> ''0.2'')) in
        (case (js_number (xp_xlm p), rate) of (Fin x, Fin r) \<Rightarrow> Some (f64 (x * r)) | _ \<Rightarrow> None))"

definition processXlmToAcbu :: "onramp_env \<Rightarrow> xlm_payload \<Rightarrow> mint_state \<Rightarrow> bool \<times> mint_state" where
  "processXlmToAcbu e p st =
     (case claim_swap None (xp_swap p) st of
        None \<Rightarrow> (True, st)
      | Some st1 \<Rightarrow>
        (case find_swap (xp_swap p) (ms_swaps st1) of
           None \<Rightarrow> (True, st1)
         | Some _ \<Rightarrow>
           (case (case xlm_usdc_amount e p of
                    None \<Rightarrow> (False, st1)
                  | Some usdc \<Rightarrow> mint_swap e (xp_swap p) usdc (xp_address p) (xp_user p) st1) of
              (False, st2) \<Rightarrow> (False, release_swap e True (xp_swap p) st2)
            | (True, st2) \<Rightarrow> (True, st2))))"

definition xlm_message :: "(nat \<Rightarrow> onramp_env) \<Rightarrow> xlm_payload option \<Rightarrow> nat \<Rightarrow> mint_state \<Rightarrow> bool \<times> mint_state" where
  "xlm_message es body n st = (case body of None \<Rightarrow> (False, st) | Some p \<Rightarrow> processXlmToAcbu (es n) p st)"

definition deliver_xlm :: "(nat \<Rightarrow> onramp_env) \<Rightarrow> xlm_payload option \<Rightarrow> mint_state \<Rightarrow> delivery \<times> mint_state" where
  "deliver_xlm es body st = redeliver (getQueueMaxRetries ''xlm_to_acbu'') (xlm_message es body) 0 st"

section \<open>POST /v1/onramp/register\<close>

record onramp_body =
  ob_address :: string
  ob_xlm :: string
  ob_usdc :: "string option"

definition js_positive :: "jsnum \<Rightarrow> bool" where
  "js_positive n = (case n of Fin x \<Rightarrow> 0 < x | PosInf \<Rightarrow> True | _ \<Rightarrow> False)"

definition js_non_negative :: "jsnum \<Rightarrow> bool" where
  "js_non_negative n = (case n of Fin x \<Rightarrow> 0 \<le> x | PosInf \<Rightarrow> True | _ \<Rightarrow> False)"

definition onramp_body_ok :: "mint_env \<Rightarrow> onramp_body \<Rightarrow> bool" where
  "onramp_body_ok e b \<longleftrightarrow>
     wallet_shape (ob_address b) \<and> mt_address_ok e (ob_address b)
     \<and> ob_xlm b \<noteq> [] \<and> js_positive (js_number (ob_xlm b))
     \<and> (case ob_usdc b of None \<Rightarrow> True | Some s \<Rightarrow> s \<noteq> [] \<and> js_non_negative (js_number s))"

text \<open>The row to create; \<open>None\<close> when an amount is infinite, which the database refuses.\<close>

definition xlm_swap_row :: "string \<Rightarrow> string option \<Rightarrow> string \<Rightarrow> onramp_body \<Rightarrow> swap option" where
  "xlm_swap_row uid key address b =
     (case (js_number (ob_xlm b), map_option js_number (ob_usdc b)) of
        (Fin x, None) \<Rightarrow> Some \<lparr>sw_id = 0, sw_user = uid, sw_key = key, sw_address = address, sw_source = XlmDeposit,
           sw_xlm = Some (dec_of_num x), sw_usdc = None, sw_status = PendingConvert, sw_tx = None, sw_completed = None\<rparr>
      | (Fin x, Some (Fin u)) \<Rightarrow> Some \<lparr>sw_id = 0, sw_user = uid, sw_key = key, sw_address = address, sw_source = XlmDeposit,
           sw_xlm = Some (dec_of_num x), sw_usdc = Some (dec_of_num u), sw_status = PendingConvert, sw_tx = None, sw_completed = None\<rparr>
      | _ \<Rightarrow> None)"

definition create_xlm_swap ::
  "string \<Rightarrow> string option \<Rightarrow> string \<Rightarrow> onramp_body \<Rightarrow> mint_state \<Rightarrow> (mint_error + (nat \<times> swap_status)) \<times> mint_state" where
  "create_xlm_swap uid key address b st =
     (case xlm_swap_row uid key address b of
        None \<Rightarrow> (Inl AmountNotFinite, st)
      | Some row \<Rightarrow>
        (case create_swap row (ms_swaps st) of
           Some (db, r) \<Rightarrow>
             (Inr (sw_id r, PendingConvert),
              ms_add [XlmEnqueued (sw_id r) uid address (ob_xlm b) (ob_usdc b)] (st\<lparr>ms_swaps := db\<rparr>))
         | None \<Rightarrow>
             (case Option.bind key (\<lambda>k. find_own_swap k uid (ms_swaps st)) of
                Some r \<Rightarrow> (Inr (sw_id r, sw_status r), st)
              | None \<Rightarrow> (Inl KeyConflict, st))))"

definition registerOnRampSwap ::
  "mint_env \<Rightarrow> string option \<Rightarrow> string option \<Rightarrow> onramp_body \<Rightarrow> mint_state
     \<Rightarrow> (mint_error + (nat \<times> swap_status)) \<times> mint_state" where
  "registerOnRampSwap e uid header b st =
     (if \<not> truthy uid then (Inl NoUserContext, st)
      else if \<not> onramp_body_ok e b then (Inl InvalidBody, st)
      else bail (assertUserWalletAddress e (the uid) (ob_address b) (ms_users st)) st (\<lambda>address.
        bail (extractIdempotencyKey header) st (\<lambda>key.
          (case Option.bind key (\<lambda>k. find_own_swap k (the uid) (ms_swaps st)) of
             Some r \<Rightarrow> (Inr (sw_id r, sw_status r), st)
           | None \<Rightarrow> create_xlm_swap (the uid) key address b st))))"

section \<open>Effects\<close>

lemma find_update_swap:
  assumes "\<And>r. sw_id (f r) = sw_id r"
  shows "find_swap j (update_swap i f db) = (if i = j then map_option f (find_swap j db) else find_swap j db)"
proof -
  have "find (\<lambda>r. sw_id r = j) (map (\<lambda>r. if sw_id r = i then f r else r) rs)
      = (if i = j then map_option f (find (\<lambda>r. sw_id r = j) rs) else find (\<lambda>r. sw_id r = j) rs)" for rs
    by (induction rs) (auto simp: assms)
  then show ?thesis by (simp add: find_swap_def update_swap_def)
qed

definition dex_swaps :: "nat \<Rightarrow> mint_state \<Rightarrow> nat" where
  "dex_swaps i st = length (filter (\<lambda>ev. case ev of DexSwapped j _ _ \<Rightarrow> j = i | _ \<Rightarrow> False) (ms_log st))"

lemma set_swap_keeps [simp]:
  "ms_db (set_swap i f st) = ms_db st" "ms_users (set_swap i f st) = ms_users st" "ms_log (set_swap i f st) = ms_log st"
  "ms_swaps (set_swap i f st) = update_swap i f (ms_swaps st)"
  by (simp_all add: set_swap_def)

lemma release_swap_keeps [simp]:
  "ms_db (release_swap e final i st) = ms_db st" "ms_users (release_swap e final i st) = ms_users st"
  "ms_log (release_swap e final i st) = ms_log st"
  by (simp_all add: release_swap_def)

lemma counts_simps [simp]:
  "minted (set_swap i f st) = minted st" "dex_swaps j (set_swap i f st) = dex_swaps j st"
  "minted (release_swap e final i st) = minted st" "dex_swaps j (release_swap e final i st) = dex_swaps j st"
  "minted (fail_mint k st) = minted st" "dex_swaps j (fail_mint k st) = dex_swaps j st"
  "minted (ms_add [DexSwapped i u x] st) = minted st"
  "dex_swaps j (ms_add [DexSwapped i u x] st) = dex_swaps j st + (if i = j then 1 else 0)"
  "minted (ms_add [MintAudit a t] st) = minted st" "dex_swaps j (ms_add [MintAudit a t] st) = dex_swaps j st"
  "dex_swaps j (ms_add [ChainMinted w q n] st) = dex_swaps j st"
  "minted (ms_add [ChainMinted w q n] st) = minted st @ [ChainMinted w q n]"
  "minted (compensate e' q st) = minted st" "dex_swaps j (compensate e' q st) = dex_swaps j st"
  "minted (st\<lparr>ms_db := db\<rparr>) = minted st" "dex_swaps j (st\<lparr>ms_db := db\<rparr>) = dex_swaps j st"
  by (simp_all add: minted_def dex_swaps_def compensate_def)

lemma compensate_keeps [simp]:
  "ms_db (compensate e a st) = ms_db st" "ms_users (compensate e a st) = ms_users st" "ms_swaps (compensate e a st) = ms_swaps st"
  by (simp_all add: compensate_def)

text \<open>A transaction hash that a mint already carries.\<close>

definition mint_hash_used :: "string \<Rightarrow> mint_state \<Rightarrow> bool" where
  "mint_hash_used h st \<longleftrightarrow> (\<exists>r \<in> set (tx_rows (ms_db st)). tx_type r = TMint \<and> tx_hash r = Some h)"

lemma used_after_update:
  assumes "\<And>r. tx_type (f r) = tx_type r \<and> tx_hash (f r) = tx_hash r"
  shows "mint_hash_used h (ms_tx i f st) \<longleftrightarrow> mint_hash_used h st"
proof -
  define g where "g r = (if tx_id r = i then f r else r)" for r
  have "tx_rows (ms_db (ms_tx i f st)) = map g (tx_rows (ms_db st))" by (simp add: ms_tx_def update_tx_def g_def)
  moreover have "tx_type (g r) = tx_type r" "tx_hash (g r) = tx_hash r" for r using assms by (simp_all add: g_def)
  ultimately show ?thesis by (simp add: mint_hash_used_def)
qed

lemma used_after_fail [simp]: "mint_hash_used h (fail_mint i st) \<longleftrightarrow> mint_hash_used h st"
  unfolding fail_mint_def by (rule used_after_update) simp

lemma used_cong: "ms_db st' = ms_db st \<Longrightarrow> mint_hash_used h st' \<longleftrightarrow> mint_hash_used h st"
  by (simp add: mint_hash_used_def)

lemma used_simps [simp]:
  "mint_hash_used h (ms_add es st) \<longleftrightarrow> mint_hash_used h st"
  "mint_hash_used h (set_swap i f st) \<longleftrightarrow> mint_hash_used h st"
  "mint_hash_used h (release_swap e final i st) \<longleftrightarrow> mint_hash_used h st"
  by (simp_all add: mint_hash_used_def)

lemma used_after_create:
  assumes "create_tx r (ms_db st) = Some (db, r')" and "tx_hash r = None"
  shows "mint_hash_used h (st\<lparr>ms_db := db\<rparr>) \<longleftrightarrow> mint_hash_used h st"
  using create_tx_rows [OF assms(1)] assms(2) by (auto simp: mint_hash_used_def)

text \<open>What one run of the internal mint does, as long as its completing update goes through.\<close>

definition books_mints :: "mint_env \<Rightarrow> mint_state \<Rightarrow> bool" where
  "books_mints e st \<longleftrightarrow> \<not> mt_update_fails e
     \<and> (\<forall>w q h n. mt_chain e w q = ChainOk h n \<longrightarrow> \<not> mint_hash_used h st)"

lemma complete_mint_Some:
  assumes "find_tx i (ms_db st) = Some r" and "tx_type r = TMint" and "\<not> mint_hash_used h st"
  shows "\<exists>s. complete_mint False now i h a st = Some s"
  using assms by (auto simp: complete_mint_def complete_tx_def mint_hash_used_def)

lemma internal_mint_cases:
  assumes "mintFromUsdcInternal e usdc wallet uid org st = (res, st')"
    and "tx_inv (ms_db st)" and "books_mints e st"
  obtains (no) err where "res = Inl err" "minted st' = minted st" "dex_swaps i st' = dex_swaps i st"
      "ms_swaps st' = ms_swaps st" "tx_inv (ms_db st')" "\<And>h. mint_hash_used h st' \<longleftrightarrow> mint_hash_used h st"
  | (yes) t a n where "res = Inr (t, a)" "dex_swaps i st' = dex_swaps i st" "ms_swaps st' = ms_swaps st" "tx_inv (ms_db st')"
      "minted st' = minted st @ [ChainMinted wallet (decimalToContractNumber prisma_dec (dec_of_num usdc)) n]"
proof -
  let ?row = "(pending_mint (mt_now e) uid org None)\<lparr>usdc_amount := Some (dec_of_num usdc)\<rparr>"
  obtain db r where c: "create_tx ?row (ms_db st) = Some (db, r)"
    by (cases "create_tx ?row (ms_db st)") (auto simp: create_tx_def pending_mint_def new_txn_def Let_def)
  note rows = create_tx_rows [OF c]
  define st1 where "st1 = st\<lparr>ms_db := db\<rparr>"
  define k where "k = tx_id r"
  have r: "tx_type r = TMint" "tx_hash ?row = None" using rows by (simp_all add: pending_mint_def new_txn_def)
  have inv: "tx_inv (ms_db st1)" using create_tx_inv [OF assms(2) c] by (simp add: st1_def)
  have used: "mint_hash_used h st1 \<longleftrightarrow> mint_hash_used h st" for h
    unfolding st1_def by (rule used_after_create [OF c r(2)])
  have row: "find_tx k (ms_db st1) = Some r" unfolding k_def st1_def using find_created [OF assms(2) c] by simp
  have keep: "tx_inv (ms_db (fail_mint k s))" if "tx_inv (ms_db s)" for s
    by (rule mint_update_keeps(1) [OF fail_mint_keeps(4) that])
  have same: "minted st1 = minted st" "dex_swaps i st1 = dex_swaps i st" "ms_swaps st1 = ms_swaps st" by (simp_all add: st1_def)
  have failed: thesis if "res = Inl err" "st' = fail_mint k st1 \<or> st' = ms_add [MintAudit ''mint_failed'' k] (fail_mint k st1)" for err
    using that(2) by (elim disjE; intro no [OF that(1)]) (simp_all add: same used keep inv)
  show thesis
  proof (cases "mt_contract e \<and> mt_source e \<noteq> None")
    case False
    then show thesis
      using assms(1) c failed by (auto simp: mintFromUsdcInternal_def Let_def st1_def k_def split: if_splits)
  next
    case True
    let ?q = "decimalToContractNumber prisma_dec (dec_of_num usdc)"
    have run: "mint_usdc_on_chain e k (dec_of_num usdc) wallet st1 = (res, st')"
      using assms(1) True c by (simp add: mintFromUsdcInternal_def Let_def st1_def k_def)
    show thesis
    proof (cases "contract_call e wallet ?q st1")
      case (Pair cres s)
      show thesis
      proof (cases cres)
        case (Inl err)
        then have "s = st1" using Pair by (auto simp: contract_call_def split: if_splits chain_outcome.splits)
        with run Pair Inl failed show thesis by (auto simp: mint_usdc_on_chain_def service_mint_def)
      next
        case (Inr hn)
        obtain h n where hn: "hn = (h, n)" by (cases hn)
        then have s: "s = ms_add [ChainMinted wallet ?q n] st1" and "mt_chain e wallet ?q = ChainOk h n"
          using Pair Inr by (auto simp: contract_call_def split: if_splits chain_outcome.splits)
        with assms(3) have "\<not> mint_hash_used h st" unfolding books_mints_def by blast
        with used s have "\<not> mint_hash_used h s" by simp
        moreover have "find_tx k (ms_db s) = Some r" using row s by simp
        ultimately obtain s2 where s2: "complete_mint False (mt_now e) k h (contractNumberToDecimal (f64 n)) s = Some s2"
          using complete_mint_Some r(1) by blast
        note dn = complete_mintD [OF s2 \<open>find_tx k (ms_db s) = Some r\<close>]
        have out: "res = Inr (k, contractNumberToDecimal (f64 n))" "st' = ms_add [MintAudit ''mint_completed'' k] s2"
          using run Pair Inr hn s2 assms(3) by (simp_all add: mint_usdc_on_chain_def service_mint_def finish_usdc_mint_def books_mints_def)
        have "minted s2 = minted s" "dex_swaps i s2 = dex_swaps i s" using dn(1) by (simp_all add: minted_def dex_swaps_def)
        moreover have "tx_inv (ms_db s2)" by (rule mint_update_keeps(1) [OF dn(4)]) (simp add: s inv)
        ultimately show thesis
          using out dn(3) same by (intro yes [OF out(1)]) (simp_all add: s)
      qed
    qed
  qed
qed
section \<open>The job on a USDC deposit\<close>

definition swap_ids_distinct :: "mint_state \<Rightarrow> bool" where
  "swap_ids_distinct st \<longleftrightarrow> distinct (map sw_id (sw_rows (ms_swaps st)))"

lemma swap_ids_update [simp]:
  assumes "\<And>r. sw_id (f r) = sw_id r"
  shows "swap_ids_distinct (set_swap i f st) \<longleftrightarrow> swap_ids_distinct st"
proof -
  have "map sw_id (sw_rows (update_swap i f (ms_swaps st))) = map sw_id (sw_rows (ms_swaps st))"
    using assms by (simp add: update_swap_def)
  then show ?thesis by (simp add: swap_ids_distinct_def)
qed

lemma claim_of_find:
  assumes "swap_ids_distinct st" and "find_swap i (ms_swaps st) = Some r"
  shows "claim_swap src i st =
     (if sw_status r = PendingConvert \<and> (case src of None \<Rightarrow> True | Some s \<Rightarrow> sw_source r = s)
      then Some (set_swap i (\<lambda>r. r\<lparr>sw_status := SwapProcessing\<rparr>) st) else None)"
proof -
  have r: "r \<in> set (sw_rows (ms_swaps st))" "sw_id r = i"
    using find_SomeD assms(2) by (fastforce simp: find_swap_def)+
  have "q = r" if "q \<in> set (sw_rows (ms_swaps st))" "sw_id q = i" for q
    using assms(1) r that unfolding swap_ids_distinct_def by (metis inj_on_eq_iff distinct_map)
  with r have "(\<exists>q \<in> set (sw_rows (ms_swaps st)). sw_id q = i \<and> sw_status q = PendingConvert \<and> P q)
      \<longleftrightarrow> sw_status r = PendingConvert \<and> P r" for P by blast
  then show ?thesis by (simp only: claim_swap_def)
qed

text \<open>Attempts whose updates go through and whose contract call, when it succeeds, has a new hash.\<close>

definition clean_attempt :: "(string \<Rightarrow> bool) \<Rightarrow> onramp_env \<Rightarrow> bool" where
  "clean_attempt used e \<longleftrightarrow> \<not> or_store_fails e \<and> \<not> or_finish_fails e \<and> \<not> mt_update_fails (or_mint e)
     \<and> (\<forall>w q h n. mt_chain (or_mint e) w q = ChainOk h n \<longrightarrow> \<not> used h)"

text \<open>
  The books of swap \<open>i\<close>, a deposit of \<open>u\<close> USDC for \<open>address\<close>, when there were \<open>d\<close> swaps on the exchange
  for it and the mints \<open>ms\<close> at the start.
\<close>

definition usdc_minted :: "string \<Rightarrow> rat \<Rightarrow> rat \<Rightarrow> mint_event" where
  "usdc_minted address u n = ChainMinted address (decimalToContractNumber prisma_dec (dec_of_num (f64 u))) n"

definition swap_books ::
  "(string \<Rightarrow> bool) \<Rightarrow> nat \<Rightarrow> string \<Rightarrow> rat \<Rightarrow> nat \<Rightarrow> mint_event list \<Rightarrow> mint_state \<Rightarrow> bool" where
  "swap_books used i address u d ms st \<longleftrightarrow>
     tx_inv (ms_db st) \<and> swap_ids_distinct st
     \<and> (\<exists>r. find_swap i (ms_swaps st) = Some r \<and> sw_address r = address \<and> sw_usdc r = Some u
          \<and> dex_swaps i st = d + (if sw_xlm r = None then 0 else 1)
          \<and> (if sw_status r = SwapCompleted then \<exists>n. minted st = ms @ [usdc_minted address u n]
             else minted st = ms \<and> (\<forall>h. mint_hash_used h st \<longrightarrow> used h)))"

lemma swap_books_set:
  assumes "swap_books used i address u d ms st"
    and "\<And>r. sw_id (f r) = sw_id r \<and> sw_address (f r) = sw_address r \<and> sw_usdc (f r) = sw_usdc r \<and> sw_xlm (f r) = sw_xlm r"
    and "\<And>r. find_swap i (ms_swaps st) = Some r \<Longrightarrow> sw_status r \<noteq> SwapCompleted \<and> sw_status (f r) \<noteq> SwapCompleted"
  shows "swap_books used i address u d ms (set_swap i f st)"
  using assms by (auto simp: swap_books_def find_update_swap)

lemma convert_swap_books:
  assumes "convert_swap e i sw usdc st = (ok, st')" and "swap_books used i address u d ms st"
    and "find_swap i (ms_swaps st) = Some sw" and "sw_status sw = SwapProcessing" and "clean_attempt used e"
  obtains sw' where "swap_books used i address u d ms st'" "find_swap i (ms_swaps st') = Some sw'" "sw_status sw' = SwapProcessing"
proof (cases "sw_xlm sw")
  case (Some x)
  then have "st' = st" using assms(1) by (simp add: convert_swap_def)
  then show thesis using that [of sw] assms(2-4) by simp
next
  case None
  show thesis
  proof (cases "swapUsdcToXlm (or_dex e) usdc")
    case (Inl err)
    then have "st' = st" using assms(1) None by (simp add: convert_swap_def)
    then show thesis using that [of sw] assms(2-4) by simp
  next
    case (Inr xh)
    obtain x h where "xh = (x, h)" by (cases xh)
    then have st': "st' = set_swap i (\<lambda>r. r\<lparr>sw_xlm := Some (dec_of_num x)\<rparr>) (ms_add [DexSwapped i usdc x] st)"
      using assms(1,5) None Inr by (simp add: convert_swap_def clean_attempt_def Let_def)
    then have f: "find_swap i (ms_swaps st') = Some (sw\<lparr>sw_xlm := Some (dec_of_num x)\<rparr>)"
      using assms(3) by (simp add: find_update_swap)
    have "swap_ids_distinct (ms_add [DexSwapped i usdc x] st) = swap_ids_distinct st" by (simp add: swap_ids_distinct_def)
    then have "swap_books used i address u d ms st'"
      using assms(2-4) None f unfolding swap_books_def by (auto simp: st')
    then show thesis using that f assms(4) by simp
  qed
qed

lemma mint_swap_books:
  assumes "mint_swap e i (f64 u) address uid st = (ok, st')" and "swap_books used i address u d ms st"
    and "find_swap i (ms_swaps st) = Some sw" and "sw_status sw = SwapProcessing" and "clean_attempt used e"
  shows "swap_books used i address u d ms st' \<and> (\<not> ok \<longrightarrow> find_swap i (ms_swaps st') = Some sw)"
proof -
  have b: "tx_inv (ms_db st)" "swap_ids_distinct st" "sw_address sw = address" "sw_usdc sw = Some u"
      "dex_swaps i st = d + (if sw_xlm sw = None then 0 else 1)" "minted st = ms" "\<And>h. mint_hash_used h st \<Longrightarrow> used h"
    using assms(2-4) by (auto simp: swap_books_def)
  have bm: "books_mints (or_mint e) st" using assms(5) b(7) unfolding clean_attempt_def books_mints_def by blast
  obtain res s where m: "mintFromUsdcInternal (or_mint e) (f64 u) address (Some uid) None st = (res, s)" by fastforce
  from m b(1) bm show ?thesis
  proof (cases rule: internal_mint_cases [where i = i])
    case (no err)
    then have "st' = s" "\<not> ok" using assms(1) m by (simp_all add: mint_swap_def)
    then show ?thesis using no b assms(3,4) by (auto simp: swap_books_def swap_ids_distinct_def)
  next
    case (yes t a n)
    let ?f = "\<lambda>r. r\<lparr>sw_status := SwapCompleted, sw_tx := Some t, sw_completed := Some (mt_now (or_mint e))\<rparr>"
    have st': "st' = set_swap i ?f s" "ok" using yes(1) assms(1,5) m by (simp_all add: mint_swap_def clean_attempt_def)
    have "find_swap i (ms_swaps st') = Some (?f sw)" using yes(3) assms(3) by (simp add: st' find_update_swap)
    moreover have "swap_ids_distinct s" using b(2) yes(3) by (simp add: swap_ids_distinct_def)
    ultimately show ?thesis using yes b by (auto simp: swap_books_def st' usdc_minted_def)
  qed
qed

lemma release_swap_books:
  assumes "swap_books used i address u d ms st" and "find_swap i (ms_swaps st) = Some sw" and "sw_status sw = SwapProcessing"
  shows "swap_books used i address u d ms (release_swap e final i st)"
proof (cases "or_release_fails e")
  case True
  then show ?thesis using assms(1) by (simp add: release_swap_def)
next
  case False
  then show ?thesis unfolding release_swap_def if_not_P [OF False]
    by (intro swap_books_set [OF assms(1)]) (use assms(2,3) in auto)
qed

lemma usdc_job_books:
  assumes "swap_books used i address u d ms st" and "clean_attempt used e"
  shows "swap_books used i address u d ms (snd (processUsdcConvertAndMint e final i st))"
proof -
  from assms(1) obtain r where r: "find_swap i (ms_swaps st) = Some r" "sw_address r = address" "sw_usdc r = Some u"
      "swap_ids_distinct st" by (auto simp: swap_books_def)
  show ?thesis
  proof (cases "sw_status r = PendingConvert \<and> sw_source r = UsdcDeposit")
    case False
    then show ?thesis using assms(1) claim_of_find [OF r(4,1), of "Some UsdcDeposit"]
      by (auto simp: processUsdcConvertAndMint_def)
  next
    case True
    define st1 where "st1 = set_swap i (\<lambda>r. r\<lparr>sw_status := SwapProcessing\<rparr>) st"
    define sw where "sw = r\<lparr>sw_status := SwapProcessing\<rparr>"
    have c: "claim_swap (Some UsdcDeposit) i st = Some st1"
      using True claim_of_find [OF r(4,1), of "Some UsdcDeposit"] by (simp add: st1_def)
    have f: "find_swap i (ms_swaps st1) = Some sw" using r(1) by (simp add: st1_def sw_def find_update_swap)
    have sw: "sw_status sw = SwapProcessing" "sw_usdc sw = Some u" "sw_address sw = address" using r by (simp_all add: sw_def)
    have b: "swap_books used i address u d ms st1"
      unfolding st1_def by (intro swap_books_set [OF assms(1)]) (use r(1) True in auto)
    have fail: "swap_books used i address u d ms (set_swap i (\<lambda>r. r\<lparr>sw_status := SwapFailed\<rparr>) st1)"
      by (intro swap_books_set [OF b]) (use f sw(1) in auto)
    obtain ok st2 where cv: "convert_swap e i sw (f64 u) st1 = (ok, st2)" by fastforce
    obtain sw2 where b2: "swap_books used i address u d ms st2" "find_swap i (ms_swaps st2) = Some sw2" "sw_status sw2 = SwapProcessing"
      by (rule convert_swap_books [OF cv b f sw(1) assms(2)])
    obtain ok' st3 where mi: "mint_swap e i (f64 u) address (sw_user sw) st2 = (ok', st3)" by fastforce
    note b3 = mint_swap_books [OF mi b2 assms(2)]
    show ?thesis
      using c f sw fail cv mi b2 b3 release_swap_books [OF b2] release_swap_books [of used i address u d ms st3 sw2 e final]
      by (auto simp: processUsdcConvertAndMint_def Let_def split: if_splits bool.splits)
  qed
qed
interpretation usdc_job: retried_job "usdc_message es (Some i)"
    "\<lambda>st. (\<forall>n. clean_attempt used (es n)) \<longrightarrow> swap_books used i address u d ms st" for es i used address u d ms
  by unfold_locales (simp add: usdc_message_def usdc_job_books)

definition deliver_all :: "(nat \<Rightarrow> onramp_env) list \<Rightarrow> nat \<Rightarrow> mint_state \<Rightarrow> mint_state" where
  "deliver_all ess i st = fold (\<lambda>es s. snd (deliver_usdc es (Some i) s)) ess st"

lemma deliver_all_books:
  assumes "\<forall>es \<in> set ess. \<forall>n. clean_attempt used (es n)" and "swap_books used i address u d ms st"
  shows "swap_books used i address u d ms (deliver_all ess i st)"
  using assms
proof (induction ess arbitrary: st)
  case (Cons es ess)
  have "swap_books used i address u d ms (snd (deliver_usdc es (Some i) st))"
    using usdc_job.message_keeps [of used es i address u d ms st] Cons.prems by (simp add: deliver_usdc_def)
  then show ?case using Cons by (simp add: deliver_all_def)
qed (simp add: deliver_all_def)


section \<open>The dead letter queue\<close>

lemma claim_none_job: "claim_swap (Some UsdcDeposit) i st = None \<Longrightarrow> processUsdcConvertAndMint e final i st = (True, st)"
  by (simp add: processUsdcConvertAndMint_def)

definition claimable :: "nat \<Rightarrow> mint_state \<Rightarrow> bool" where
  "claimable i st \<longleftrightarrow> (\<exists>r \<in> set (sw_rows (ms_swaps st)). sw_id r = i \<and> sw_status r = PendingConvert \<and> sw_source r = UsdcDeposit)"

lemma not_claimable: "claim_swap (Some UsdcDeposit) i st = None \<longleftrightarrow> \<not> claimable i st"
  by (auto simp: claimable_def claim_swap_def)

lemma claimable_set:
  assumes "\<And>r. sw_id (f r) = sw_id r" and "\<And>r. sw_status (f r) \<noteq> PendingConvert"
  shows "\<not> claimable i (set_swap i f st)"
proof -
  define g where "g r = (if sw_id r = i then f r else r)" for r
  have "sw_rows (ms_swaps (set_swap i f st)) = map g (sw_rows (ms_swaps st))" by (simp add: update_swap_def g_def)
  moreover have "sw_id (g r) \<noteq> i \<or> sw_status (g r) \<noteq> PendingConvert" for r using assms by (simp add: g_def)
  ultimately show ?thesis by (auto simp: claimable_def)
qed

lemma claimable_cong: "ms_swaps st' = ms_swaps st \<Longrightarrow> claimable i st' = claimable i st"
  by (simp add: claimable_def)

lemma claimable_kept:
  assumes "\<not> claimable i st" and "\<And>r. sw_id (f r) = sw_id r" and "\<And>r. sw_status (f r) = PendingConvert \<Longrightarrow> sw_status r = PendingConvert"
    and "\<And>r. sw_source (f r) = sw_source r"
  shows "\<not> claimable i (set_swap i f st)"
proof -
  define g where "g r = (if sw_id r = i then f r else r)" for r
  have "sw_rows (ms_swaps (set_swap i f st)) = map g (sw_rows (ms_swaps st))" by (simp add: update_swap_def g_def)
  moreover have "sw_id (g r) = sw_id r" "sw_status (g r) = PendingConvert \<Longrightarrow> sw_status r = PendingConvert"
      "sw_source (g r) = sw_source r" for r
    using assms(2-4) by (auto simp: g_def split: if_splits)
  ultimately show ?thesis using assms(1) by (auto simp: claimable_def)
qed

lemma internal_mint_swaps: "ms_swaps (snd (mintFromUsdcInternal e usdc w uid org st)) = ms_swaps st"
proof -
  have chain: "ms_swaps (snd (contract_call e w q s)) = ms_swaps s" for q s
    by (simp add: contract_call_def split: chain_outcome.split)
  have call: "ms_swaps (snd (service_mint e None w q s)) = ms_swaps s" for q s
    using chain [of q s] by (cases "contract_call e w q s") (auto simp: service_mint_def split: sum.split)
  have fin: "finish_usdc_mint e i h a s = Some s' \<Longrightarrow> ms_swaps s' = ms_swaps s" for i h a s s'
    by (auto simp: finish_usdc_mint_def complete_mint_def split: option.splits if_splits)
  have "ms_swaps (snd (mint_usdc_on_chain e i d w s)) = ms_swaps s" for i d s
    using call [of "decimalToContractNumber prisma_dec d" s]
    by (cases "service_mint e None w (decimalToContractNumber prisma_dec d) s")
      (auto simp: mint_usdc_on_chain_def dest!: fin split: sum.split option.split)
  then show ?thesis by (simp add: mintFromUsdcInternal_def Let_def split: option.split)
qed

lemma convert_swap_claimable: "\<not> claimable i st \<Longrightarrow> \<not> claimable i (snd (convert_swap e i sw usdc st))"
  using claimable_kept [of i "ms_add es st" "\<lambda>r. r\<lparr>sw_xlm := v\<rparr>" for es v] claimable_cong [of "ms_add es st" st i for es]
  by (auto simp: convert_swap_def Let_def split: option.split sum.split)

lemma mint_swap_claimable: "\<not> claimable i st \<Longrightarrow> \<not> claimable i (snd (mint_swap e i usdc a u st))"
proof -
  assume n: "\<not> claimable i st"
  have "\<not> claimable i (snd (mintFromUsdcInternal (or_mint e) usdc a (Some u) None st))"
    using n internal_mint_swaps claimable_cong by metis
  then show ?thesis
    by (cases "mintFromUsdcInternal (or_mint e) usdc a (Some u) None st") (auto simp: mint_swap_def claimable_set split: sum.split)
qed

text \<open>An attempt told that it is the last never leaves the swap pending.\<close>

lemma last_attempt_parks: "\<not> claimable i (snd (processUsdcConvertAndMint e True i st))"
proof (cases "claim_swap (Some UsdcDeposit) i st")
  case None
  then have "\<not> claimable i st" using not_claimable by blast
  moreover have "processUsdcConvertAndMint e True i st = (True, st)" by (rule claim_none_job [OF None])
  ultimately show ?thesis by simp
next
  case (Some st1)
  then have st1: "\<not> claimable i st1" by (auto simp: claim_swap_def claimable_set split: if_splits)
  have rel: "\<not> claimable i s \<Longrightarrow> \<not> claimable i (release_swap e True i s)" for s
    by (simp add: release_swap_def claimable_set)
  have conv: "convert_swap e i sw u st1 = (ok, s) \<Longrightarrow> \<not> claimable i s" for sw u ok s
    using convert_swap_claimable [OF st1, of e sw u] by simp
  have mint: "\<not> claimable i s \<Longrightarrow> mint_swap e i u a w s = (ok, s') \<Longrightarrow> \<not> claimable i s'" for u a w s ok s'
    using mint_swap_claimable [of i s e u a w] by simp
  have both: "convert_swap e i sw u st1 = (ok, s) \<Longrightarrow> mint_swap e i v a w s = (ok', s') \<Longrightarrow> \<not> claimable i s'"
    for sw u ok s v a w ok' s' using conv mint by blast
  show ?thesis
    using Some st1
    by (auto simp: processUsdcConvertAndMint_def Let_def claimable_set dest: rel conv both split: option.split prod.split bool.split)
qed

lemma unclaimable_message: "\<not> claimable i st \<Longrightarrow> usdc_message es (Some i) n st = (True, st)"
  by (simp add: usdc_message_def claim_none_job not_claimable)

text \<open>
  The dead letter queue is never used. Whatever fails on whatever attempt, the message of a conversion ends
  acknowledged: the fifth attempt is told it is the last and parks the swap as failed (or leaves it claimed
  when even that update fails), so the redelivery after it finds nothing to claim and returns normally.
\<close>

theorem conversion_never_dead_lettered: "fst (deliver_usdc es (Some i) st) = Acked"
proof -
  have m: "getQueueMaxRetries ''usdc_convert_and_mint'' = 5" by code_simp
  let ?job = "usdc_message es (Some i)"
  have parked: "\<not> claimable i (snd (?job 4 s))" for s
    using last_attempt_parks [of i "es 4" s] by (simp add: usdc_message_def m)
  have end5: "fst (redeliver 5 ?job 5 (snd (?job 4 s))) = Acked" for s
    by (subst redeliver_step) (simp add: unclaimable_message [OF parked])
  have "fst (redeliver 5 ?job 4 s) = Acked" for s using end5 by (subst redeliver_step) simp
  then have "fst (redeliver 5 ?job 3 s) = Acked" for s by (subst redeliver_step) simp
  then have "fst (redeliver 5 ?job 2 s) = Acked" for s by (subst redeliver_step) (simp add: numeral_3_eq_3)
  then have "fst (redeliver 5 ?job 1 s) = Acked" for s by (subst redeliver_step) (simp add: numeral_2_eq_2)
  then have "fst (redeliver 5 ?job 0 s) = Acked" for s by (subst redeliver_step) simp
  then show ?thesis by (simp add: deliver_usdc_def m)
qed
section \<open>Deposits of XLM\<close>

text \<open>What the contract answers does not depend on the books: a call that goes through is one mint.\<close>

lemma internal_mint_minted:
  assumes "mt_contract e" and "mt_source e \<noteq> None" and "decimalToContractNumber prisma_dec (dec_of_num usdc) < 10 ^ 21"
    and "mt_chain e w (decimalToContractNumber prisma_dec (dec_of_num usdc)) = ChainOk h n"
  shows "minted (snd (mintFromUsdcInternal e usdc w uid org st))
       = minted st @ [ChainMinted w (decimalToContractNumber prisma_dec (dec_of_num usdc)) n]"
proof -
  let ?q = "decimalToContractNumber prisma_dec (dec_of_num usdc)"
  have fin: "finish_usdc_mint e i h a s = Some s' \<Longrightarrow> minted s' = minted s" for i a s s'
    by (auto simp: finish_usdc_mint_def complete_mint_def minted_def compensate_def split: option.splits if_splits)
  have chain: "minted (snd (mint_usdc_on_chain e i (dec_of_num usdc) w s)) = minted s @ [ChainMinted w ?q n]" for i s
    using assms(2-4) by (auto simp: mint_usdc_on_chain_def service_mint_def contract_call_def dest!: fin split: option.split)
  have "create_tx ((pending_mint (mt_now e) uid org None)\<lparr>usdc_amount := Some (dec_of_num usdc)\<rparr>) (ms_db st) \<noteq> None"
    by (simp add: create_tx_def pending_mint_def new_txn_def Let_def)
  then show ?thesis using chain assms(1,2) by (auto simp: mintFromUsdcInternal_def Let_def)
qed

lemma internal_mint_at_most_one:
  "length (minted (snd (mintFromUsdcInternal e usdc w uid org st))) \<le> Suc (length (minted st))"
proof (cases "\<exists>h n. mt_contract e \<and> mt_source e \<noteq> None \<and> decimalToContractNumber prisma_dec (dec_of_num usdc) < 10 ^ 21
    \<and> mt_chain e w (decimalToContractNumber prisma_dec (dec_of_num usdc)) = ChainOk h n")
  case True
  then show ?thesis using internal_mint_minted by fastforce
next
  case False
  let ?q = "decimalToContractNumber prisma_dec (dec_of_num usdc)"
  have refused: "mt_contract e \<Longrightarrow> mt_source e \<noteq> None \<Longrightarrow> \<exists>err. contract_call e w ?q s = (Inl err, s)" for s
    using False by (auto simp: contract_call_def not_less split: chain_outcome.split)
  have "minted (snd (mint_usdc_on_chain e i (dec_of_num usdc) w s)) = minted s" if "mt_contract e" "mt_source e \<noteq> None" for i s
  proof -
    from refused [OF that] obtain err where "contract_call e w ?q s = (Inl err, s)" by blast
    then show ?thesis by (simp add: mint_usdc_on_chain_def service_mint_def)
  qed
  then have "minted (snd (mintFromUsdcInternal e usdc w uid org st)) = minted st"
    by (auto simp: mintFromUsdcInternal_def Let_def split: option.split)
  then show ?thesis by simp
qed

definition pending_swap :: "nat \<Rightarrow> mint_state \<Rightarrow> bool" where
  "pending_swap i st \<longleftrightarrow> (\<exists>r \<in> set (sw_rows (ms_swaps st)). sw_id r = i \<and> sw_status r = PendingConvert)"

lemma claim_pending: "claim_swap None i st =
    (if pending_swap i st then Some (set_swap i (\<lambda>r. r\<lparr>sw_status := SwapProcessing\<rparr>) st) else None)"
  by (simp add: claim_swap_def pending_swap_def)

lemma pending_swap_set:
  assumes "\<And>r. sw_id (f r) = sw_id r" and "\<And>r. sw_status (f r) \<noteq> PendingConvert"
  shows "\<not> pending_swap i (set_swap i f st)"
proof -
  define g where "g r = (if sw_id r = i then f r else r)" for r
  have "sw_rows (ms_swaps (set_swap i f st)) = map g (sw_rows (ms_swaps st))" by (simp add: update_swap_def g_def)
  moreover have "sw_id (g r) \<noteq> i \<or> sw_status (g r) \<noteq> PendingConvert" for r using assms by (simp add: g_def)
  ultimately show ?thesis by (auto simp: pending_swap_def)
qed

lemma xlm_job_parks: "\<not> pending_swap (xp_swap p) (snd (processXlmToAcbu e p st))"
proof (cases "claim_swap None (xp_swap p) st")
  case None
  then show ?thesis by (simp add: processXlmToAcbu_def claim_pending split: if_splits)
next
  case (Some st1)
  let ?i = "xp_swap p"
  from Some have st1: "\<not> pending_swap ?i st1" by (auto simp: claim_pending pending_swap_set split: if_splits)
  have rel: "\<not> pending_swap ?i s \<Longrightarrow> \<not> pending_swap ?i (release_swap e True ?i s)" for s
    by (simp add: release_swap_def pending_swap_set)
  have mint: "\<not> pending_swap ?i s" if "mint_swap e ?i u a w st1 = (ok, s)" for u a w ok s
  proof -
    have "ms_swaps (snd (mintFromUsdcInternal (or_mint e) u a (Some w) None st1)) = ms_swaps st1" by (rule internal_mint_swaps)
    with st1 have "\<not> pending_swap ?i (snd (mintFromUsdcInternal (or_mint e) u a (Some w) None st1))" by (simp add: pending_swap_def)
    with that show ?thesis by (auto simp: mint_swap_def pending_swap_set split: prod.splits sum.splits if_splits)
  qed
  show ?thesis
    using Some st1 by (auto simp: processXlmToAcbu_def dest: rel mint split: option.split prod.split bool.split)
qed

lemma xlm_job_idle: "\<not> pending_swap (xp_swap p) st \<Longrightarrow> processXlmToAcbu e p st = (True, st)"
  by (simp add: processXlmToAcbu_def claim_pending)

lemma mint_swap_minted: "minted (snd (mint_swap e i u a w st)) = minted (snd (mintFromUsdcInternal (or_mint e) u a (Some w) None st))"
  by (auto simp: mint_swap_def split: prod.split sum.split)

lemma xlm_job_minted:
  "minted (snd (processXlmToAcbu e p st)) =
     (if pending_swap (xp_swap p) st then
        (case xlm_usdc_amount e p of
           None \<Rightarrow> minted st
         | Some u \<Rightarrow> minted (snd (mintFromUsdcInternal (or_mint e) u (xp_address p) (Some (xp_user p)) None
                        (set_swap (xp_swap p) (\<lambda>r. r\<lparr>sw_status := SwapProcessing\<rparr>) st))))
      else minted st)"
proof (cases "pending_swap (xp_swap p) st")
  case True
  then obtain r where "find_swap (xp_swap p) (ms_swaps st) = Some r"
    by (cases "find_swap (xp_swap p) (ms_swaps st)") (auto simp: pending_swap_def find_swap_def find_None_iff)
  then have "find_swap (xp_swap p) (update_swap (xp_swap p) (\<lambda>r. r\<lparr>sw_status := SwapProcessing\<rparr>) (ms_swaps st)) \<noteq> None"
    by (simp add: find_update_swap)
  then show ?thesis using True mint_swap_minted
    by (auto simp: processXlmToAcbu_def claim_pending split: option.split prod.split bool.split) (metis snd_conv)+
next
  case False
  then show ?thesis by (simp add: xlm_job_idle)
qed

lemma xlm_jobs_at_most_one:
  assumes "\<forall>(e, p) \<in> set jobs. xp_swap p = i"
  shows "length (minted (fold (\<lambda>(e, p) s. snd (processXlmToAcbu e p s)) jobs st)) \<le> Suc (length (minted st))"
proof (cases jobs)
  case (Cons j rest)
  obtain e p where j: "j = (e, p)" by (cases j)
  let ?s = "snd (processXlmToAcbu e p st)"
  have i: "xp_swap p = i" using assms Cons j by simp
  have one: "length (minted ?s) \<le> Suc (length (minted st))"
    using internal_mint_at_most_one [of _ _ _ _ _ "set_swap i f st" for f]
    by (auto simp: xlm_job_minted i split: option.split)
  have "fold (\<lambda>(e, p) s. snd (processXlmToAcbu e p s)) rest ?s = ?s"
    using assms xlm_job_parks [of p e st] unfolding Cons i
    by (induction rest) (auto simp: xlm_job_idle)
  with one Cons j show ?thesis by simp
qed simp
text \<open>
  The job for XLM deposits marks a swap failed as soon as its mint throws, so whatever is delivered for a swap,
  however often, the contract mints for it at most once.
\<close>

theorem xlm_deposit_minted_once:
  assumes "\<forall>(e, p) \<in> set jobs. xp_swap p = i"
  shows "length (minted (fold (\<lambda>(e, p) s. snd (processXlmToAcbu e p s)) jobs st)) \<le> Suc (length (minted st))"
  by (rule xlm_jobs_at_most_one [OF assms])

text \<open>What a registration that created a swap did.\<close>

lemma register_created:
  assumes "registerOnRampSwap e uid header b st = (res, st')" and "st' \<noteq> st"
  obtains u key row db r where "uid = Some u" "onramp_body_ok e b" "assertUserWalletAddress e u (ob_address b) (ms_users st) = Inr (ob_address b)"
    "xlm_swap_row u key (ob_address b) b = Some row" "create_swap row (ms_swaps st) = Some (db, r)" "res = Inr (sw_id r, PendingConvert)"
    "st' = ms_add [XlmEnqueued (sw_id r) u (ob_address b) (ob_xlm b) (ob_usdc b)] (st\<lparr>ms_swaps := db\<rparr>)"
proof -
  from assms obtain u key a row db r where c: "uid = Some u" "onramp_body_ok e b"
    "assertUserWalletAddress e u (ob_address b) (ms_users st) = Inr a"
    "xlm_swap_row u key a b = Some row" "create_swap row (ms_swaps st) = Some (db, r)" "res = Inr (sw_id r, PendingConvert)"
    "st' = ms_add [XlmEnqueued (sw_id r) u a (ob_xlm b) (ob_usdc b)] (st\<lparr>ms_swaps := db\<rparr>)"
    by (auto simp: registerOnRampSwap_def create_xlm_swap_def truthy_def bail_def split: option.splits sum.splits if_splits)
  moreover have "a = ob_address b" by (rule assert_wallet_same [OF c(3)])
  ultimately show thesis using that by blast
qed

text \<open>
  Nothing checks that the XLM arrived. A registration names an amount of USDC, and the job mints for that
  amount into the registered wallet: no payment is looked up, no deposit limit applies and the circuit breaker
  is not asked, whatever the caps and the reserve ratio are.
\<close>

theorem registered_deposit_minted_unverified:
  assumes "registerOnRampSwap e (Some u) header b st = (Inr (i, s), st1)" and "st1 \<noteq> st"
    and "ob_usdc b = Some d" and "js_number d = Fin q"
    and "mt_contract m" and "mt_source m \<noteq> None" and "decimalToContractNumber prisma_dec (dec_of_num q) < 10 ^ 21"
    and "mt_chain m (ob_address b) (decimalToContractNumber prisma_dec (dec_of_num q)) = ChainOk h n"
    and "or_mint e' = m\<lparr>mt_caps := caps, mt_ratio := ratio\<rparr>"
  shows "ms_log st1 = ms_log st @ [XlmEnqueued i u (ob_address b) (ob_xlm b) (Some d)]
     \<and> minted (snd (processXlmToAcbu e' \<lparr>xp_swap = i, xp_user = u, xp_address = ob_address b, xp_xlm = ob_xlm b, xp_usdc = Some d\<rparr> st1))
       = minted st1 @ [ChainMinted (ob_address b) (decimalToContractNumber prisma_dec (dec_of_num q)) n]"
  using assms(1,2)
proof (rule register_created)
  fix u' key row db r
  assume r: "Some u = Some u'" "onramp_body_ok e b" "xlm_swap_row u' key (ob_address b) b = Some row"
    "create_swap row (ms_swaps st) = Some (db, r)" "Inr (i, s) = Inr (sw_id r, PendingConvert)"
    "st1 = ms_add [XlmEnqueued (sw_id r) u' (ob_address b) (ob_xlm b) (ob_usdc b)] (st\<lparr>ms_swaps := db\<rparr>)"
  let ?p = "\<lparr>xp_swap = i, xp_user = u, xp_address = ob_address b, xp_xlm = ob_xlm b, xp_usdc = Some d\<rparr>"
  let ?q = "decimalToContractNumber prisma_dec (dec_of_num q)"
  have "sw_status r = PendingConvert" "r \<in> set (sw_rows db)"
    using r(3,4) by (auto simp: xlm_swap_row_def create_swap_def Let_def split: jsnum.splits option.splits if_splits)
  then have pending: "pending_swap i st1" using r(5,6) by (auto simp: pending_swap_def)
  have "d \<noteq> []" using r(2) assms(3) by (simp add: onramp_body_ok_def)
  then have amount: "xlm_usdc_amount e' ?p = Some q" by (simp add: xlm_usdc_amount_def truthy_def assms(4))
  have "minted (snd (mintFromUsdcInternal (or_mint e') q (ob_address b) (Some u) None st2)) = minted st2 @ [ChainMinted (ob_address b) ?q n]" for st2
    by (rule internal_mint_minted) (use assms(5-9) in simp_all)
  then show ?thesis using r assms(3) pending amount by (simp add: xlm_job_minted)
qed

section \<open>The properties at concrete inputs\<close>

definition usdc_swap :: swap where
  "usdc_swap = \<lparr>sw_id = 0, sw_user = ''u1'', sw_key = None, sw_address = wallet_g, sw_source = UsdcDeposit, sw_xlm = None,
     sw_usdc = Some 5, sw_status = PendingConvert, sw_tx = None, sw_completed = None\<rparr>"

definition onramp_start :: "rat option \<Rightarrow> mint_state" where
  "onramp_start x = mint_start\<lparr>ms_swaps := \<lparr>sw_rows = [usdc_swap\<lparr>sw_xlm := x\<rparr>], sw_next = 1\<rparr>\<rparr>"

definition onramp_world :: "bool \<Rightarrow> chain_outcome \<Rightarrow> onramp_env" where
  "onramp_world lost out = \<lparr>or_mint = mint_world out,
     or_dex = \<lparr>dx_issuer = Some ''GUSDC'', dx_keypair = True, dx_slippage = None,
               dx_paths = (\<lambda>_. Some [(''native'', ''25'')]), dx_submit = (\<lambda>_ _. Some ''d1'')\<rparr>,
     or_xlm_rate = None, or_rate_env = None, or_store_fails = False, or_finish_fails = lost, or_release_fails = False\<rparr>"


theorem xlm_deposit_minted_once_witness:
  "length (minted (fold (\<lambda>(e, p) s. snd (processXlmToAcbu e p s))
     (replicate 3 (onramp_world False (ChainOk ''h1'' 50000000),
        \<lparr>xp_swap = 0, xp_user = ''u1'', xp_address = wallet_g, xp_xlm = ''25'', xp_usdc = Some ''5''\<rparr>)) (onramp_start None))) \<le> 1"
proof -
  let ?jobs = "replicate 3 (onramp_world False (ChainOk ''h1'' 50000000),
        \<lparr>xp_swap = 0, xp_user = ''u1'', xp_address = wallet_g, xp_xlm = ''25'', xp_usdc = Some ''5''\<rparr>)"
  have "\<forall>(e, p) \<in> set ?jobs. xp_swap p = 0" by auto
  from xlm_deposit_minted_once [OF this, of "onramp_start None"] show ?thesis
    by (simp add: minted_def onramp_start_def mint_start_def)
qed

definition onramp_request :: onramp_body where
  "onramp_request = \<lparr>ob_address = wallet_g, ob_xlm = ''25'', ob_usdc = Some ''5''\<rparr>"

lemma five_number: "js_number ''5'' = Fin 5" "js_number ''25'' = Fin 25"
proof -
  have t: "trim ''5'' = ''5''" "trim ''25'' = ''25''" "to_lower ''5'' = ''5''" "to_lower ''25'' = ''25''"
    "number_shape ''5''" "number_shape ''25''" by code_simp+
  have "parse_float ''5'' = Fin (f64 5)" "parse_float ''25'' = Fin (f64 25)" by code_simp+
  moreover have "f64 25 = 25" using f64.rnd_int [of 25] by simp
  ultimately show "js_number ''5'' = Fin 5" "js_number ''25'' = Fin 25" by (simp_all add: js_number_def Let_def t five_rounds)
qed
lemma request_ok: "onramp_body_ok (mint_world out) onramp_request"
  by (simp add: onramp_body_ok_def onramp_request_def five_number sample_wallet mint_world_def js_positive_def js_non_negative_def)

lemma request_registered:
  "fst (registerOnRampSwap ok_world (Some ''u1'') None onramp_request mint_start) = Inr (0, PendingConvert)"
  "ms_log (snd (registerOnRampSwap ok_world (Some ''u1'') None onramp_request mint_start)) \<noteq> ms_log mint_start"
  using request_ok [of "ChainOk ''h1'' 50000000"] sample_owner [of "ChainOk ''h1'' 50000000"]
  by (simp_all add: registerOnRampSwap_def truthy_def bail_def onramp_request_def mint_start_def extractIdempotencyKey_def
      create_xlm_swap_def xlm_swap_row_def five_number create_swap_def Let_def ms_add_def)

text \<open>Minting is paused: the reserve ratio is zero.\<close>

theorem registered_deposit_minted_unverified_witness:
  "isMintingPaused (mt_caps ok_world) 0
   \<and> minted (snd (processXlmToAcbu ((onramp_world False (ChainOk ''h1'' 50000000))\<lparr>or_mint := ok_world\<lparr>mt_ratio := 0\<rparr>\<rparr>)
        \<lparr>xp_swap = 0, xp_user = ''u1'', xp_address = wallet_g, xp_xlm = ''25'', xp_usdc = Some ''5''\<rparr>
        (snd (registerOnRampSwap ok_world (Some ''u1'') None onramp_request mint_start))))
     = [ChainMinted wallet_g 50000000 50000000]"
proof -
  let ?st1 = "snd (registerOnRampSwap ok_world (Some ''u1'') None onramp_request mint_start)"
  let ?e = "(onramp_world False (ChainOk ''h1'' 50000000))\<lparr>or_mint := ok_world\<lparr>mt_ratio := 0\<rparr>\<rparr>"
  have run: "registerOnRampSwap ok_world (Some ''u1'') None onramp_request mint_start = (Inr (0, PendingConvert), ?st1)"
    using request_registered(1) by (simp add: prod_eq_iff)
  have new: "?st1 \<noteq> mint_start" using request_registered(2) by auto
  have b: "ob_usdc onramp_request = Some ''5''" "ob_address onramp_request = wallet_g" "ob_xlm onramp_request = ''25''"
    by (simp_all add: onramp_request_def)
  have q: "decimalToContractNumber prisma_dec (dec_of_num 5) = 50000000" by (simp add: five_dec five_asks)
  have w: "mt_contract ok_world" "mt_source ok_world \<noteq> None"
      "mt_chain ok_world (ob_address onramp_request) (decimalToContractNumber prisma_dec (dec_of_num 5)) = ChainOk ''h1'' 50000000"
      "or_mint ?e = ok_world\<lparr>mt_caps := mt_caps ok_world, mt_ratio := 0\<rparr>"
    by (simp_all add: mint_world_def)
  have paused: "isMintingPaused (mt_caps ok_world) 0" by (simp add: isMintingPaused_def mint_world_def)
  have "decimalToContractNumber prisma_dec (dec_of_num 5) < 10 ^ 21" by (simp add: q)
  from registered_deposit_minted_unverified [OF run new b(1) five_number(1) w(1,2) this w(3,4)]
  have log: "ms_log ?st1 = ms_log mint_start @ [XlmEnqueued 0 ''u1'' (ob_address onramp_request) (ob_xlm onramp_request) (Some ''5'')]"
    and run: "minted (snd (processXlmToAcbu ?e \<lparr>xp_swap = 0, xp_user = ''u1'', xp_address = ob_address onramp_request,
        xp_xlm = ob_xlm onramp_request, xp_usdc = Some ''5''\<rparr> ?st1))
      = minted ?st1 @ [ChainMinted (ob_address onramp_request) (decimalToContractNumber prisma_dec (dec_of_num 5)) 50000000]" by blast+
  have "minted ?st1 = []" using log by (simp add: minted_def mint_start_def)
  with run paused q show ?thesis by (simp only: b append_Nil)
qed

section \<open>A lost completion\<close>

text \<open>The contract mints on the attempt, and the update that completes the swap is lost.\<close>

definition lossy_attempt :: "string \<Rightarrow> rat \<Rightarrow> onramp_env \<Rightarrow> bool" where
  "lossy_attempt address u e \<longleftrightarrow> or_finish_fails e \<and> \<not> or_release_fails e
     \<and> mt_contract (or_mint e) \<and> mt_source (or_mint e) \<noteq> None
     \<and> decimalToContractNumber prisma_dec (dec_of_num (f64 u)) < 10 ^ 21
     \<and> (\<exists>h n. mt_chain (or_mint e) address (decimalToContractNumber prisma_dec (dec_of_num (f64 u))) = ChainOk h n)"

lemma lossy_mint:
  assumes "lossy_attempt address u e"
  shows "\<exists>n st'. mint_swap e i (f64 u) address uid st = (False, st')
    \<and> minted st' = minted st @ [usdc_minted address u n] \<and> ms_swaps st' = ms_swaps st"
proof -
  obtain h n where c: "mt_chain (or_mint e) address (decimalToContractNumber prisma_dec (dec_of_num (f64 u))) = ChainOk h n"
    using assms by (auto simp: lossy_attempt_def)
  obtain res st1 where m: "mintFromUsdcInternal (or_mint e) (f64 u) address (Some uid) None st = (res, st1)" by fastforce
  have "minted st1 = minted st @ [usdc_minted address u n]" "ms_swaps st1 = ms_swaps st"
    using internal_mint_minted [OF _ _ _ c, of "Some uid" None st] internal_mint_swaps [of "or_mint e" "f64 u" address "Some uid" None st]
      assms m by (auto simp: lossy_attempt_def usdc_minted_def)
  moreover have "mint_swap e i (f64 u) address uid st = (False, st1)"
    using assms m by (auto simp: mint_swap_def lossy_attempt_def split: sum.split)
  ultimately show ?thesis by blast
qed

text \<open>An attempt on a pending swap whose XLM amount is stored: it mints and hands the swap back, or parks it.\<close>

lemma lossy_job:
  assumes "swap_ids_distinct st" and "find_swap i (ms_swaps st) = Some r" and "sw_status r = PendingConvert"
    and "sw_source r = UsdcDeposit" and "sw_xlm r \<noteq> None" and "sw_usdc r = Some u" and "0 < f64 u"
    and "lossy_attempt (sw_address r) u e"
  shows "\<exists>n st'. processUsdcConvertAndMint e final i st = (False, st')
    \<and> minted st' = minted st @ [usdc_minted (sw_address r) u n] \<and> swap_ids_distinct st'
    \<and> find_swap i (ms_swaps st') = Some (r\<lparr>sw_status := (if final then SwapFailed else PendingConvert)\<rparr>)"
proof -
  define st1 where "st1 = set_swap i (\<lambda>r. r\<lparr>sw_status := SwapProcessing\<rparr>) st"
  have c: "claim_swap (Some UsdcDeposit) i st = Some st1"
    using claim_of_find [OF assms(1,2), of "Some UsdcDeposit"] assms(3,4) by (simp add: st1_def)
  have f: "find_swap i (ms_swaps st1) = Some (r\<lparr>sw_status := SwapProcessing\<rparr>)"
    using assms(2) by (simp add: st1_def find_update_swap)
  from lossy_mint [OF assms(8), of i "sw_user r" st1] obtain n st2 where
    m: "mint_swap e i (f64 u) (sw_address r) (sw_user r) st1 = (False, st2)" "ms_swaps st2 = ms_swaps st1"
    "minted st2 = minted st1 @ [usdc_minted (sw_address r) u n]" by blast
  have run: "processUsdcConvertAndMint e final i st = (False, release_swap e final i st2)"
    using c f assms(5-7) m(1) by (auto simp: processUsdcConvertAndMint_def convert_swap_def Let_def)
  have "\<not> or_release_fails e" using assms(8) by (simp add: lossy_attempt_def)
  then have rel: "release_swap e final i st2
      = set_swap i (\<lambda>r. r\<lparr>sw_status := (if final then SwapFailed else PendingConvert)\<rparr>) st2"
    by (simp add: release_swap_def)
  have "swap_ids_distinct st1" using assms(1) by (simp add: st1_def)
  then have "swap_ids_distinct st2" using m(2) by (simp add: swap_ids_distinct_def)
  then have "swap_ids_distinct (release_swap e final i st2)" unfolding rel by simp
  moreover have "find_swap i (ms_swaps (release_swap e final i st2))
      = Some (r\<lparr>sw_status := (if final then SwapFailed else PendingConvert)\<rparr>)"
    unfolding rel using f m(2) by (simp add: find_update_swap)
  moreover have "minted (release_swap e final i st2) = minted st @ [usdc_minted (sw_address r) u n]"
    using m(3) by (simp add: st1_def)
  ultimately show ?thesis using run by blast
qed

lemma lossy_attempts:
  assumes "swap_ids_distinct st" and "find_swap i (ms_swaps st) = Some r" and "sw_status r = PendingConvert"
    and "sw_source r = UsdcDeposit" and "sw_xlm r \<noteq> None" and "sw_usdc r = Some u" and "0 < f64 u"
    and "\<forall>n < 5. lossy_attempt (sw_address r) u (es n)" and "k < 5"
  shows "\<exists>ns st'. redeliver 5 (usdc_message es (Some i)) k st = (Acked, st') \<and> length ns = 5 - k
    \<and> minted st' = minted st @ map (usdc_minted (sw_address r) u) ns
    \<and> find_swap i (ms_swaps st') = Some (r\<lparr>sw_status := SwapFailed\<rparr>)"
  using assms
proof (induction "5 - k" arbitrary: k st rule: less_induct)
  case less
  have m: "getQueueMaxRetries ''usdc_convert_and_mint'' = 5" by code_simp
  from lossy_job [OF less.prems(1-7), of "es k" "4 \<le> k"] less.prems(8,9) obtain n st1 where
    j: "usdc_message es (Some i) k st = (False, st1)" "minted st1 = minted st @ [usdc_minted (sw_address r) u n]"
    "swap_ids_distinct st1" "find_swap i (ms_swaps st1) = Some (r\<lparr>sw_status := (if 4 \<le> k then SwapFailed else PendingConvert)\<rparr>)"
    by (auto simp: usdc_message_def m)
  have step: "redeliver 5 (usdc_message es (Some i)) k st = redeliver 5 (usdc_message es (Some i)) (Suc k) st1"
    using j(1) less.prems(9) by (subst redeliver_step) simp
  show ?case
  proof (cases "4 \<le> k")
    case True
    with less.prems(9) have k: "k = 4" by simp
    have "claim_swap (Some UsdcDeposit) i st1 = None"
      using claim_of_find [OF j(3,4)] True by simp
    then have "usdc_message es (Some i) (Suc k) st1 = (True, st1)" by (simp add: usdc_message_def claim_none_job)
    then have "redeliver 5 (usdc_message es (Some i)) (Suc k) st1 = (Acked, st1)" by (subst redeliver_step) simp
    then show ?thesis using step j k by (intro exI [of _ "[n]"] exI [of _ st1]) simp
  next
    case False
    have same: "r\<lparr>sw_status := PendingConvert\<rparr> = r" using less.prems(3) by simp
    have "\<exists>ns st'. redeliver 5 (usdc_message es (Some i)) (Suc k) st1 = (Acked, st') \<and> length ns = 5 - Suc k
      \<and> minted st' = minted st1 @ map (usdc_minted (sw_address r) u) ns
      \<and> find_swap i (ms_swaps st') = Some (r\<lparr>sw_status := SwapFailed\<rparr>)"
      using False j(3,4) same less.prems by (intro less.hyps) auto
    then obtain ns st' where "redeliver 5 (usdc_message es (Some i)) (Suc k) st1 = (Acked, st')" "length ns = 5 - Suc k"
      "minted st' = minted st1 @ map (usdc_minted (sw_address r) u) ns"
      "find_swap i (ms_swaps st') = Some (r\<lparr>sw_status := SwapFailed\<rparr>)" by blast
    then show ?thesis using step j(2) False by (intro exI [of _ "n # ns"] exI [of _ st']) simp
  qed
qed

text \<open>
  C26. A deposit whose completion is lost is minted again. Take any pending swap of a USDC deposit that is
  already converted, and attempts on each of which the contract mints and the update that completes the swap fails:
  the failure hands the swap back as pending, and the retry mints again, for the same wallet
  and amount, once for each of the attempts that may still claim the swap, five in all; the swap ends failed, its
  message acknowledged.
\<close>

theorem lost_completion_mints_again:
  assumes "swap_ids_distinct st" and "find_swap i (ms_swaps st) = Some r" and "sw_status r = PendingConvert"
    and "sw_source r = UsdcDeposit" and "sw_xlm r \<noteq> None" and "sw_usdc r = Some u" and "0 < f64 u"
    and "\<forall>n < getQueueMaxRetries ''usdc_convert_and_mint''. lossy_attempt (sw_address r) u (es n)"
  shows "\<exists>ns st'. deliver_usdc es (Some i) st = (Acked, st') \<and> length ns = 5
    \<and> minted st' = minted st @ map (usdc_minted (sw_address r) u) ns
    \<and> find_swap i (ms_swaps st') = Some (r\<lparr>sw_status := SwapFailed\<rparr>)"
proof -
  have m: "getQueueMaxRetries ''usdc_convert_and_mint'' = 5" by code_simp
  from lossy_attempts [OF assms(1-7) assms(8) [unfolded m], of 0] show ?thesis by (simp add: deliver_usdc_def m)
qed

theorem lost_completion_mints_again_witness:
  "length (minted (snd (deliver_usdc (\<lambda>_. onramp_world True (ChainOk ''h1'' 50000000)) (Some 0) (onramp_start (Some 25))))) = 5"
proof -
  let ?e = "onramp_world True (ChainOk ''h1'' 50000000)" and ?s = "onramp_start (Some 25)"
  let ?r = "usdc_swap\<lparr>sw_xlm := Some 25\<rparr>"
  have r: "swap_ids_distinct ?s" "find_swap 0 (ms_swaps ?s) = Some ?r" "sw_status ?r = PendingConvert"
    "sw_source ?r = UsdcDeposit" "sw_xlm ?r \<noteq> None" "sw_usdc ?r = Some 5" "0 < f64 (5::rat)"
    by (simp_all add: onramp_start_def swap_ids_distinct_def usdc_swap_def find_swap_def five_rounds)
  have "lossy_attempt (sw_address ?r) 5 ?e"
    by (simp add: lossy_attempt_def onramp_world_def mint_world_def five_rounds five_dec five_asks)
  then have "\<forall>n < getQueueMaxRetries ''usdc_convert_and_mint''. lossy_attempt (sw_address ?r) 5 ((\<lambda>_. ?e) n)" by blast
  from lost_completion_mints_again [OF r this] have
    "length (minted (snd (deliver_usdc (\<lambda>_. ?e) (Some 0) ?s))) = 5 + length (minted ?s)" by auto
  then show ?thesis by (simp add: minted_def onramp_start_def mint_start_def)
qed

end
