(* ===== verification/Tokens.thy ===== *)
theory Tokens
  imports Recipient
begin

text \<open>
  Challenge tokens: \<open>src/utils/jtiDenyList.ts\<close> (the deny list of token ids, a map per process in front of
  Redis) and \<open>src/utils/jwt.ts\<close>, \<open>src/middleware/authMiddleware.ts\<close> (signing and verifying). The JWT library
  and Redis are parameters. Times are milliseconds unless a name ends in \<open>_s\<close>.
\<close>

section \<open>Deny list\<close>

record deny_state =
  ds_local :: "nat \<Rightarrow> (string \<times> int) list"   \<comment> \<open>per process: token id and expiry\<close>
  ds_redis :: "(string \<times> int) list"

text \<open>
  How a Redis call of this request goes: it answers, it answers after the timeout of a second, by which time
  its effect has happened, or it fails.
\<close>

datatype redis_mode = RedisAnswers | RedisLate | RedisDown

record deny_env =
  de_process :: nat
  de_now :: int
  de_redis :: redis_mode

definition pruneExpired :: "'a deny_env_scheme \<Rightarrow> deny_state \<Rightarrow> deny_state" where
  "pruneExpired e st =
     st\<lparr>ds_local := (ds_local st)(de_process e := filter (\<lambda>(_, t). de_now e < t) (ds_local st (de_process e)))\<rparr>"

definition local_has :: "'a deny_env_scheme \<Rightarrow> string \<Rightarrow> deny_state \<Rightarrow> bool" where
  "local_has e jti st \<longleftrightarrow> jti \<in> fst ` set (ds_local st (de_process e))"

definition local_put :: "'a deny_env_scheme \<Rightarrow> string \<Rightarrow> int \<Rightarrow> deny_state \<Rightarrow> deny_state" where
  "local_put e jti t st =
     st\<lparr>ds_local := (ds_local st)(de_process e := (jti, t) # filter (\<lambda>(j, _). j \<noteq> jti) (ds_local st (de_process e)))\<rparr>"

text \<open>A key of Redis is there until its time to live is over.\<close>

definition redis_has :: "int \<Rightarrow> string \<Rightarrow> (string \<times> int) list \<Rightarrow> bool" where
  "redis_has now jti rs \<longleftrightarrow> list_ex (\<lambda>(j, t). j = jti \<and> now < t) rs"

definition redis_put :: "string \<Rightarrow> int \<Rightarrow> (string \<times> int) list \<Rightarrow> (string \<times> int) list" where
  "redis_put jti t rs = (jti, t) # filter (\<lambda>(j, _). j \<noteq> jti) rs"

text \<open>\<open>Math.ceil(exp - now / 1000)\<close>, at least one second.\<close>

definition ttlSeconds :: "int \<Rightarrow> int \<Rightarrow> int" where
  "ttlSeconds ex now = (let remaining = ex - now div 1000 in if 0 < remaining then remaining else 1)"

definition revokeJti :: "'a deny_env_scheme \<Rightarrow> string \<Rightarrow> int \<Rightarrow> deny_state \<Rightarrow> deny_state" where
  "revokeJti e jti ex st =
     (let st1 = local_put e jti (ex * 1000) st in
      if de_redis e = RedisDown then st1
      else st1\<lparr>ds_redis := redis_put jti (de_now e + ttlSeconds ex (de_now e) * 1000) (ds_redis st1)\<rparr>)"

text \<open>\<open>SET NX\<close> leaves a key that is there as it is.\<close>

definition redis_claim :: "'a deny_env_scheme \<Rightarrow> string \<Rightarrow> int \<Rightarrow> deny_state \<Rightarrow> deny_state" where
  "redis_claim e jti ex st =
     (if redis_has (de_now e) jti (ds_redis st) then st
      else st\<lparr>ds_redis := redis_put jti (de_now e + ttlSeconds ex (de_now e) * 1000) (ds_redis st)\<rparr>)"

definition consumeJti :: "'a deny_env_scheme \<Rightarrow> string \<Rightarrow> int \<Rightarrow> deny_state \<Rightarrow> bool \<times> deny_state" where
  "consumeJti e jti ex st =
     (let st1 = pruneExpired e st in
      if local_has e jti st1 then (False, st1)
      else (case de_redis e of
          RedisAnswers \<Rightarrow>
            if redis_has (de_now e) jti (ds_redis st1) then (False, st1)
            else (True, local_put e jti (ex * 1000) (redis_claim e jti ex st1))
        | RedisLate \<Rightarrow> (True, local_put e jti (ex * 1000) (redis_claim e jti ex st1))
        | RedisDown \<Rightarrow> (True, local_put e jti (ex * 1000) st1)))"

definition isJtiRevoked :: "'a deny_env_scheme \<Rightarrow> string \<Rightarrow> deny_state \<Rightarrow> bool \<times> deny_state" where
  "isJtiRevoked e jti st =
     (let st1 = pruneExpired e st in
      (local_has e jti st1 \<or> de_redis e = RedisAnswers \<and> redis_has (de_now e) jti (ds_redis st1), st1))"

section \<open>Challenge tokens\<close>

record claims =
  jc_user :: string
  jc_challenge :: "string option"
  jc_aud :: string
  jc_iss :: string
  jc_iat :: "int option"
  jc_exp :: "int option"
  jc_jti :: "string option"

record jwt_env = deny_env +
  jw_secret :: bool                                    \<comment> \<open>a secret is configured\<close>
  jw_typ :: "string \<Rightarrow> string option"                   \<comment> \<open>the \<open>typ\<close> header of a token\<close>
  jw_verify :: "int \<Rightarrow> string \<Rightarrow> claims option"          \<comment> \<open>the library's check at a time, \<open>None\<close>: it throws\<close>
  jw_sign :: "claims \<Rightarrow> string"
  jw_tolerance_s :: int

definition CHALLENGE_AUDIENCE :: string where "CHALLENGE_AUDIENCE = ''2fa_challenge''"
definition CHALLENGE_ISSUER :: string where "CHALLENGE_ISSUER = ''acbu/auth''"
definition CHALLENGE_EXPIRY_s :: int where "CHALLENGE_EXPIRY_s = 5 * 60"

text \<open>Upper case equal to \<open>JWT\<close> and lower case equal to \<open>jwt\<close> are the same thing in Latin-1.\<close>

definition typ_ok :: "string option \<Rightarrow> bool" where
  "typ_ok typ = (truthy typ \<and> to_lower (trim (the typ)) = ''jwt'')"

definition verifyJwt :: "'a jwt_env_scheme \<Rightarrow> string \<Rightarrow> claims option" where
  "verifyJwt e token = (if typ_ok (jw_typ e token) then jw_verify e (de_now e) token else None)"

definition signChallengeToken :: "'a jwt_env_scheme \<Rightarrow> string \<Rightarrow> string option \<Rightarrow> string" where
  "signChallengeToken e uid otp =
     (let iat = de_now e div 1000 in
      jw_sign e \<lparr>jc_user = uid, jc_challenge = (if truthy otp then otp else None), jc_aud = CHALLENGE_AUDIENCE,
        jc_iss = CHALLENGE_ISSUER, jc_iat = Some iat, jc_exp = Some (iat + CHALLENGE_EXPIRY_s),
        jc_jti = Some (''chal_'' @ uid @ ''_'' @ int_str (de_now e))\<rparr>)"

datatype token_error =
    SecretRequired | InvalidOrExpiredToken | WrongAudience | WrongIssuer | WrongIssuedAt | TokenUsed

definition claim_exp :: "'a jwt_env_scheme \<Rightarrow> claims \<Rightarrow> int" where
  "claim_exp e c = (case jc_exp c of Some t \<Rightarrow> t | None \<Rightarrow> de_now e div 1000 + 300)"

definition verifyChallengeToken ::
  "'a jwt_env_scheme \<Rightarrow> bool \<Rightarrow> string \<Rightarrow> deny_state \<Rightarrow> (token_error + claims) \<times> deny_state" where
  "verifyChallengeToken e consume token st =
     (if \<not> jw_secret e then (Inl SecretRequired, st)
      else (case verifyJwt e token of
          None \<Rightarrow> (Inl InvalidOrExpiredToken, st)
        | Some c \<Rightarrow>
            if jc_aud c \<noteq> CHALLENGE_AUDIENCE then (Inl WrongAudience, st)
            else if jc_iss c \<noteq> CHALLENGE_ISSUER then (Inl WrongIssuer, st)
            else if (case jc_iat c of Some iat \<Rightarrow> de_now e div 1000 + jw_tolerance_s e < iat | None \<Rightarrow> False)
              then (Inl WrongIssuedAt, st)
            else if \<not> truthy (jc_jti c) then (Inr c, st)
            else
              let jti = the (jc_jti c);
                  (first, st1) = (if consume then consumeJti e jti (claim_exp e c) st
                                  else (let (used, s) = isJtiRevoked e jti st in (\<not> used, s))) in
              (if first then Inr c else Inl TokenUsed, st1)))"

definition rejectIfChallengeToken :: "string \<Rightarrow> string \<Rightarrow> bool" where
  "rejectIfChallengeToken aud iss \<longleftrightarrow> aud = CHALLENGE_AUDIENCE \<and> iss = CHALLENGE_ISSUER"

section \<open>Single use\<close>

text \<open>
  Something that can be redeemed once: while the invariant holds, redeeming marks it spent, it stays spent, and
  what is spent is refused. How often a sequence of operations redeems it is then at most one.
\<close>

fun redemptions :: "('op \<Rightarrow> 's \<Rightarrow> bool \<times> 's) \<Rightarrow> ('op \<Rightarrow> bool) \<Rightarrow> 'op list \<Rightarrow> 's \<Rightarrow> nat" where
  "redemptions step redeems [] s = 0"
| "redemptions step redeems (x # xs) s =
     (if redeems x \<and> fst (step x s) then 1 else 0) + redemptions step redeems xs (snd (step x s))"

locale single_use =
  fixes step :: "'op \<Rightarrow> 's \<Rightarrow> bool \<times> 's"
    and redeems :: "'op \<Rightarrow> bool"
    and admissible :: "'op \<Rightarrow> bool"
    and inv :: "'s \<Rightarrow> bool"
    and spent :: "'s \<Rightarrow> bool"
  assumes inv_step: "inv s \<Longrightarrow> inv (snd (step x s))"
    and spent_step: "admissible x \<Longrightarrow> spent s \<Longrightarrow> spent (snd (step x s))"
    and spent_refuses: "admissible x \<Longrightarrow> spent s \<Longrightarrow> redeems x \<Longrightarrow> \<not> fst (step x s)"
    and redeem_spends: "admissible x \<Longrightarrow> inv s \<Longrightarrow> redeems x \<Longrightarrow> fst (step x s) \<Longrightarrow> spent (snd (step x s))"
begin

lemma spent_never_redeemed: "list_all admissible xs \<Longrightarrow> spent s \<Longrightarrow> redemptions step redeems xs s = 0"
  by (induction xs arbitrary: s) (auto dest: spent_refuses intro: spent_step)

lemma redeemed_once: "list_all admissible xs \<Longrightarrow> inv s \<Longrightarrow> redemptions step redeems xs s \<le> 1"
proof (induction xs arbitrary: s)
  case (Cons x xs)
  then have x: "admissible x" "list_all admissible xs" by simp_all
  show ?case
  proof (cases "redeems x \<and> fst (step x s)")
    case True
    then have "spent (snd (step x s))" using redeem_spends x(1) Cons.prems(2) by blast
    with True spent_never_redeemed [OF x(2)] show ?thesis by simp
  next
    case False
    have "redemptions step redeems xs (snd (step x s)) \<le> 1" by (rule Cons.IH [OF x(2) inv_step [OF Cons.prems(2)]])
    with False show ?thesis by auto
  qed
qed simp

end

section \<open>A token counts once\<close>

text \<open>A token id is spent for a process, or for every process that reaches Redis, up to a moment.\<close>

definition spent_local :: "nat \<Rightarrow> string \<Rightarrow> int \<Rightarrow> deny_state \<Rightarrow> bool" where
  "spent_local p jti ex st \<longleftrightarrow> (jti, ex * 1000) \<in> set (ds_local st p)"

definition spent_shared :: "string \<Rightarrow> int \<Rightarrow> deny_state \<Rightarrow> bool" where
  "spent_shared jti ex st \<longleftrightarrow> (\<exists>t. (jti, t) \<in> set (ds_redis st) \<and> ex * 1000 \<le> t)"

lemma spent_simps [simp]:
  "spent_local p jti ex (st\<lparr>ds_redis := rs\<rparr>) = spent_local p jti ex st"
  "spent_shared jti ex (st\<lparr>ds_local := ls\<rparr>) = spent_shared jti ex st"
  by (simp_all add: spent_local_def spent_shared_def)

lemma ds_simps [simp]:
  "ds_redis (pruneExpired e st) = ds_redis st"
  "ds_redis (local_put e jti t st) = ds_redis st"
  "ds_local (redis_claim e jti ex st) = ds_local st"
  by (simp_all add: pruneExpired_def local_put_def redis_claim_def)

lemma spent_local_prune: "spent_local p jti ex st \<Longrightarrow> de_now e < ex * 1000 \<Longrightarrow> spent_local p jti ex (pruneExpired e st)"
  by (auto simp: spent_local_def pruneExpired_def)

lemma spent_local_put: "spent_local p jti ex st \<Longrightarrow> j \<noteq> jti \<or> p \<noteq> de_process e \<Longrightarrow> spent_local p jti ex (local_put e j t st)"
  by (auto simp: spent_local_def local_put_def)

lemma spent_local_has: "spent_local (de_process e) jti ex st \<Longrightarrow> local_has e jti st"
  by (force simp: spent_local_def local_has_def)

lemma spent_shared_has: "spent_shared jti ex st \<Longrightarrow> de_now e < ex * 1000 \<Longrightarrow> redis_has (de_now e) jti (ds_redis st)"
proof -
  assume s: "spent_shared jti ex st" and now: "de_now e < ex * 1000"
  then obtain t where t: "(jti, t) \<in> set (ds_redis st)" "ex * 1000 \<le> t" by (auto simp: spent_shared_def)
  then have "de_now e < t" using now by linarith
  with t(1) show ?thesis unfolding redis_has_def list_ex_iff by blast
qed

lemma spent_shared_claim: "spent_shared jti ex st \<Longrightarrow> de_now e < ex * 1000 \<Longrightarrow> spent_shared jti ex (redis_claim e j x st)"
proof -
  assume s: "spent_shared jti ex st" and now: "de_now e < ex * 1000"
  show ?thesis
  proof (cases "redis_has (de_now e) j (ds_redis st)")
    case False
    then have "j \<noteq> jti" using spent_shared_has [OF s now] by blast
    with s show ?thesis by (auto simp: redis_claim_def redis_put_def spent_shared_def)
  qed (use s in \<open>simp add: redis_claim_def\<close>)
qed

lemma spent_shared_cong: "ds_redis st' = ds_redis st \<Longrightarrow> spent_shared jti ex st' = spent_shared jti ex st"
  by (simp add: spent_shared_def)

lemma ttl_covers: "ex * 1000 \<le> now + ttlSeconds ex now * 1000"
proof -
  have "now = now div 1000 * 1000 + now mod 1000" "0 \<le> now mod 1000" by simp_all
  moreover have "ex - now div 1000 \<le> ttlSeconds ex now" by (simp add: ttlSeconds_def)
  ultimately show ?thesis by linarith
qed

lemma claim_spends: "\<not> redis_has (de_now e) jti (ds_redis st) \<Longrightarrow> spent_shared jti ex (redis_claim e jti ex st)"
  using ttl_covers by (force simp: redis_claim_def spent_shared_def redis_put_def)

lemma consume_keeps:
  assumes "de_now e < ex * 1000"
  shows "spent_local p jti ex st \<Longrightarrow> spent_local p jti ex (snd (consumeJti e j x st))"
    and "spent_shared jti ex st \<Longrightarrow> spent_shared jti ex (snd (consumeJti e j x st))"
proof -
  have cl: "spent_local p jti ex (redis_claim e j x st) = spent_local p jti ex st" for st by (simp add: spent_local_def)
  { assume s: "spent_local p jti ex st"
    then have p: "spent_local p jti ex (pruneExpired e st)" using assms by (rule spent_local_prune)
    show "spent_local p jti ex (snd (consumeJti e j x st))"
    proof (cases "local_has e j (pruneExpired e st)")
      case False
      then have "j \<noteq> jti \<or> p \<noteq> de_process e" using spent_local_has [of e jti ex] p by blast
      with p False show ?thesis by (auto simp: consumeJti_def Let_def cl spent_local_put split: redis_mode.split)
    qed (simp add: consumeJti_def p) }
  assume s: "spent_shared jti ex st"
  have pr: "spent_shared jti ex (pruneExpired e st)" using s by (simp add: spent_shared_def)
  have put: "spent_shared jti ex (local_put e j t st') = spent_shared jti ex st'" for t st' by (simp add: spent_shared_def)
  show "spent_shared jti ex (snd (consumeJti e j x st))"
    using pr spent_shared_claim [OF pr assms] by (auto simp: consumeJti_def Let_def put split: redis_mode.split)
qed

lemma consume_refuses:
  assumes "spent_local (de_process e) jti ex st \<or> spent_shared jti ex st \<and> de_redis e = RedisAnswers" and "de_now e < ex * 1000"
  shows "\<not> fst (consumeJti e jti x st)"
proof (cases "local_has e jti (pruneExpired e st)")
  case False
  then have "spent_shared jti ex st" "de_redis e = RedisAnswers"
    using assms spent_local_has [OF spent_local_prune] by blast+
  then show ?thesis using spent_shared_has [OF _ assms(2)] False by (simp add: consumeJti_def)
qed (simp add: consumeJti_def)

lemma consume_spends:
  assumes "fst (consumeJti e jti ex st)"
  shows "spent_local (de_process e) jti ex (snd (consumeJti e jti ex st))"
    and "de_redis e = RedisAnswers \<Longrightarrow> spent_shared jti ex (snd (consumeJti e jti ex st))"
proof -
  have put: "spent_local (de_process e) jti ex (local_put e jti (ex * 1000) s)" for s by (simp add: spent_local_def local_put_def)
  show "spent_local (de_process e) jti ex (snd (consumeJti e jti ex st))"
    using assms put by (auto simp: consumeJti_def Let_def split: redis_mode.splits if_splits)
  assume "de_redis e = RedisAnswers"
  with assms claim_spends [of e jti "pruneExpired e st" ex]
  show "spent_shared jti ex (snd (consumeJti e jti ex st))"
    by (auto simp: consumeJti_def Let_def spent_shared_cong [OF ds_simps(2)] split: if_splits)
qed

text \<open>Verifications one after the other, on any processes.\<close>

fun verify_all :: "(jwt_env \<times> string) list \<Rightarrow> deny_state \<Rightarrow> (token_error + claims) list" where
  "verify_all [] st = []"
| "verify_all ((e, token) # rs) st =
     fst (verifyChallengeToken e True token st) # verify_all rs (snd (verifyChallengeToken e True token st))"

definition accepts_jti :: "string \<Rightarrow> token_error + claims \<Rightarrow> bool" where
  "accepts_jti jti r = (case r of Inl _ \<Rightarrow> False | Inr c \<Rightarrow> jc_jti c = Some jti)"

lemma verify_token_cases:
  "(\<exists>err. verifyChallengeToken e True token st = (Inl err, st))
   \<or> (\<exists>c. verifyJwt e token = Some c \<and> \<not> truthy (jc_jti c) \<and> verifyChallengeToken e True token st = (Inr c, st))
   \<or> (\<exists>c j. verifyJwt e token = Some c \<and> jc_jti c = Some j \<and> j \<noteq> []
        \<and> verifyChallengeToken e True token st
            = (if fst (consumeJti e j (claim_exp e c) st) then Inr c else Inl TokenUsed, snd (consumeJti e j (claim_exp e c) st)))"
proof (cases "\<exists>c. verifyJwt e token = Some c \<and> truthy (jc_jti c)")
  case True
  then obtain c j where c: "verifyJwt e token = Some c" "jc_jti c = Some j" "j \<noteq> []"
    by (auto simp: truthy_def split: option.splits)
  then show ?thesis
    by (simp add: verifyChallengeToken_def truthy_def split_beta)
next
  case False
  then show ?thesis
    by (cases "verifyJwt e token") (simp_all add: verifyChallengeToken_def)
qed

text \<open>Requests before the expiry of a token id, in one process or all reaching Redis.\<close>

definition token_request :: "bool \<Rightarrow> nat \<Rightarrow> string \<Rightarrow> int \<Rightarrow> jwt_env \<times> string \<Rightarrow> bool" where
  "token_request shared p jti ex r \<longleftrightarrow> jti \<noteq> [] \<and> de_now (fst r) < ex * 1000
     \<and> (\<forall>c. verifyJwt (fst r) (snd r) = Some c \<and> jc_jti c = Some jti \<longrightarrow> jc_exp c = Some ex)
     \<and> (if shared then de_redis (fst r) = RedisAnswers else de_process (fst r) = p)"

definition token_spent_for :: "bool \<Rightarrow> nat \<Rightarrow> string \<Rightarrow> int \<Rightarrow> deny_state \<Rightarrow> bool" where
  "token_spent_for shared p jti ex st \<longleftrightarrow> (if shared then spent_shared jti ex st else spent_local p jti ex st)"

definition verify_step :: "string \<Rightarrow> jwt_env \<times> string \<Rightarrow> deny_state \<Rightarrow> bool \<times> deny_state" where
  "verify_step jti r st =
     (accepts_jti jti (fst (verifyChallengeToken (fst r) True (snd r) st)), snd (verifyChallengeToken (fst r) True (snd r) st))"

lemma verify_all_redemptions:
  "length (filter (accepts_jti jti) (verify_all rs st)) = redemptions (verify_step jti) (\<lambda>_. True) rs st"
  by (induction rs st rule: verify_all.induct) (simp_all add: verify_step_def)

interpretation challenge: single_use "verify_step jti" "\<lambda>_. True" "token_request shared p jti ex" "\<lambda>_. True" "token_spent_for shared p jti ex"
  for jti shared p ex
proof
  fix r st assume r: "token_request shared p jti ex r" and s: "token_spent_for shared p jti ex st"
  then have now: "de_now (fst r) < ex * 1000" by (simp add: token_request_def)
  show "token_spent_for shared p jti ex (snd (verify_step jti r st))"
    using verify_token_cases [of "fst r" "snd r" st] consume_keeps [OF now] s
    by (auto simp: verify_step_def token_spent_for_def)
  have "\<not> fst (consumeJti (fst r) jti x st)" for x
    using r s now by (intro consume_refuses [where ex = ex]) (auto simp: token_request_def token_spent_for_def split: if_splits)
  then show "\<not> fst (verify_step jti r st)"
    using verify_token_cases [of "fst r" "snd r" st] r by (auto simp: verify_step_def accepts_jti_def token_request_def truthy_def split: if_splits)
next
  fix r st assume r: "token_request shared p jti ex r" and f: "fst (verify_step jti r st)"
  with verify_token_cases [of "fst r" "snd r" st]
  have "fst (consumeJti (fst r) jti ex st)" "snd (verify_step jti r st) = snd (consumeJti (fst r) jti ex st)"
    by (auto simp: verify_step_def accepts_jti_def truthy_def claim_exp_def token_request_def split: if_splits)
  with consume_spends r show "token_spent_for shared p jti ex (snd (verify_step jti r st))"
    by (auto simp: token_spent_for_def token_request_def split: if_splits)
qed simp

text \<open>
  A challenge token counts once. Take any verifications before a token expires, of this token and of others,
  with the deny list in any state: at most one of them accepts the token's id, whether all run in one
  process, with Redis up, slow or down, or they run in many processes that all reach Redis.
\<close>

theorem challenge_token_single_use:
  assumes "\<forall>(e, token) \<in> set rs. de_now e < ex * 1000"
    and "\<forall>(e, token) \<in> set rs. \<forall>c. verifyJwt e token = Some c \<and> jc_jti c = Some jti \<longrightarrow> jc_exp c = Some ex"
    and "jti \<noteq> []"
    and "(\<forall>(e, token) \<in> set rs. de_process e = p) \<or> (\<forall>(e, token) \<in> set rs. de_redis e = RedisAnswers)"
  shows "length (filter (accepts_jti jti) (verify_all rs st)) \<le> 1"
proof -
  have "(\<exists>p. list_all (token_request False p jti ex) rs) \<or> list_all (token_request True p jti ex) rs"
    using assms(4)
  proof
    assume "\<forall>(e, token) \<in> set rs. de_process e = p"
    then have "list_all (token_request False p jti ex) rs" using assms(1-3) by (fastforce simp: list_all_iff token_request_def)
    then show ?thesis by blast
  next
    assume "\<forall>(e, token) \<in> set rs. de_redis e = RedisAnswers"
    then have "list_all (token_request True p jti ex) rs" using assms(1-3) by (fastforce simp: list_all_iff token_request_def)
    then show ?thesis by blast
  qed
  then show ?thesis unfolding verify_all_redemptions using challenge.redeemed_once by blast
qed

text \<open>A token signed for a user and verified is that user's, when the library verifies what it signed.\<close>

lemma signed_token_verifies:
  assumes "jw_secret e" and "typ_ok (jw_typ e (signChallengeToken e uid otp))"
    and "\<And>c. jw_verify e (de_now e) (jw_sign e c) = Some c" and "0 \<le> jw_tolerance_s e"
    and "fst (consumeJti e (''chal_'' @ uid @ ''_'' @ int_str (de_now e)) (de_now e div 1000 + CHALLENGE_EXPIRY_s) st)"
  shows "\<exists>c. jc_user c = uid \<and> verifyChallengeToken e True (signChallengeToken e uid otp) st
     = (Inr c, snd (consumeJti e (''chal_'' @ uid @ ''_'' @ int_str (de_now e)) (de_now e div 1000 + CHALLENGE_EXPIRY_s) st))"
  using assms
  by (auto simp: verifyChallengeToken_def verifyJwt_def signChallengeToken_def Let_def truthy_def claim_exp_def split_beta)

text \<open>
  The deny list forgets a token before the library does. The library goes on accepting a token for the clock
  tolerance after its expiry, thirty seconds unless configured otherwise, but both the local map and Redis
  keep a used id no longer than a second past the expiry. A token that was consumed is accepted again, by any
  process, when it is presented in between.
\<close>

theorem used_token_accepted_in_tolerance:
  assumes "verifyChallengeToken e True token st = (Inr c, st1)" and "jc_jti c = Some jti" and "jti \<noteq> []" and "jc_exp c = Some ex"
    and "\<forall>p. jti \<notin> fst ` set (ds_local st p)" and "jti \<notin> fst ` set (ds_redis st)"
    and "de_now e < ex * 1000" and "(ex + 1) * 1000 \<le> de_now e'"
    and "verifyJwt e' token = Some c" and "jw_secret e'" and "jw_tolerance_s e' = jw_tolerance_s e"
  shows "fst (verifyChallengeToken e' True token st1) = Inr c"
proof -
  let ?c = "consumeJti e jti ex st"
  from assms(1-4) have first: "fst ?c" "st1 = snd ?c"
    and shape: "jc_aud c = CHALLENGE_AUDIENCE" "jc_iss c = CHALLENGE_ISSUER"
      "(case jc_iat c of Some iat \<Rightarrow> iat \<le> de_now e div 1000 + jw_tolerance_s e | None \<Rightarrow> True)"
    by (auto simp: verifyChallengeToken_def truthy_def claim_exp_def Let_def split: if_splits option.splits prod.splits)
  have absent: "(jti, t) \<notin> set (ds_local st p)" "(jti, t) \<notin> set (ds_redis st)" for p t
    using assms(5,6) by (metis fst_conv image_eqI)+
  have loc: "\<forall>p t. (jti, t) \<in> set (ds_local st1 p) \<longrightarrow> t \<le> ex * 1000"
    unfolding first(2)
    by (auto simp: absent consumeJti_def Let_def local_put_def pruneExpired_def split: redis_mode.split)
  have "de_now e + ttlSeconds ex (de_now e) * 1000 \<le> (ex + 1) * 1000"
  proof -
    have "0 < ex - de_now e div 1000" using assms(7) by linarith
    then have "ttlSeconds ex (de_now e) = ex - de_now e div 1000" by (simp add: ttlSeconds_def)
    moreover have "de_now e mod 1000 < 1000" by simp
    ultimately show ?thesis unfolding minus_div_mult_eq_mod [symmetric] by (simp add: algebra_simps)
  qed
  then have red: "\<forall>t. (jti, t) \<in> set (ds_redis st1) \<longrightarrow> t \<le> (ex + 1) * 1000"
    unfolding first(2)
    by (auto simp: absent consumeJti_def Let_def local_put_def pruneExpired_def redis_claim_def redis_put_def split: redis_mode.split)
  have "\<not> local_has e' jti (pruneExpired e' st1)"
    using loc assms(8) by (fastforce simp: local_has_def pruneExpired_def)
  moreover have "\<not> redis_has (de_now e') jti (ds_redis st1)"
    using red assms(8) by (fastforce simp: redis_has_def list_ex_iff)
  ultimately have again: "fst (consumeJti e' jti ex st1)" by (cases "de_redis e'") (simp_all add: consumeJti_def)
  have "de_now e div 1000 \<le> de_now e' div 1000" using assms(7,8) by (intro zdiv_mono1) simp_all
  with shape(3) have "\<not> (case jc_iat c of Some iat \<Rightarrow> de_now e' div 1000 + jw_tolerance_s e' < iat | None \<Rightarrow> False)"
    using assms(11) by (auto split: option.splits)
  with again shape(1,2) assms(2-4,9,10) show ?thesis
    by (simp add: verifyChallengeToken_def truthy_def claim_exp_def split_beta)
qed

section \<open>The properties at concrete inputs\<close>

text \<open>A library that accepts the token \<open>t\<close> until thirty seconds after its expiry.\<close>

definition sample_claims :: claims where
  "sample_claims = \<lparr>jc_user = ''u1'', jc_challenge = None, jc_aud = CHALLENGE_AUDIENCE, jc_iss = CHALLENGE_ISSUER,
     jc_iat = Some 0, jc_exp = Some 300, jc_jti = Some ''j''\<rparr>"

definition jwt_at :: "int \<Rightarrow> redis_mode \<Rightarrow> jwt_env" where
  "jwt_at now mode = \<lparr>de_process = 0, de_now = now, de_redis = mode, jw_secret = True, jw_typ = (\<lambda>_. Some ''JWT''),
     jw_verify = (\<lambda>t _. if t < 330 * 1000 then Some sample_claims else None), jw_sign = jc_user, jw_tolerance_s = 30\<rparr>"

definition no_denials :: deny_state where
  "no_denials = \<lparr>ds_local = (\<lambda>_. []), ds_redis = []\<rparr>"

lemma jwt_at_accepts: "now < 330000 \<Longrightarrow> verifyJwt (jwt_at now mode) token = Some sample_claims"
proof -
  have "typ_ok (Some ''JWT'')" by code_simp
  then show "now < 330000 \<Longrightarrow> verifyJwt (jwt_at now mode) token = Some sample_claims" by (simp add: verifyJwt_def jwt_at_def)
qed

theorem challenge_token_single_use_witness:
  "map is_ok (verify_all [(jwt_at 1000 RedisDown, ''t''), (jwt_at 2000 RedisAnswers, ''t'')] no_denials) = [True, False]
   \<and> length (filter (accepts_jti ''j'') (verify_all [(jwt_at 1000 RedisDown, ''t''), (jwt_at 2000 RedisAnswers, ''t'')] no_denials)) \<le> 1"
proof
  let ?rs = "[(jwt_at 1000 RedisDown, ''t''), (jwt_at 2000 RedisAnswers, ''t'')]"
  show "map is_ok (verify_all ?rs no_denials) = [True, False]"
    by (simp add: verifyChallengeToken_def jwt_at_accepts)
      (simp add: jwt_at_def sample_claims_def truthy_def consumeJti_def pruneExpired_def local_has_def local_put_def no_denials_def claim_exp_def)
  show "length (filter (accepts_jti ''j'') (verify_all ?rs no_denials)) \<le> 1"
    by (rule challenge_token_single_use [where ex = 300 and p = 0]) (simp_all add: jwt_at_accepts, simp_all add: jwt_at_def sample_claims_def)
qed

theorem used_token_accepted_in_tolerance_witness:
  "fst (verifyChallengeToken (jwt_at 310000 RedisAnswers) True ''t''
      (snd (verifyChallengeToken (jwt_at 1000 RedisAnswers) True ''t'' no_denials))) = Inr sample_claims"
proof -
  let ?v = "verifyChallengeToken (jwt_at 1000 RedisAnswers) True ''t'' no_denials"
  have "fst ?v = Inr sample_claims"
    by (simp add: verifyChallengeToken_def jwt_at_accepts)
      (simp add: jwt_at_def sample_claims_def truthy_def consumeJti_def pruneExpired_def local_has_def no_denials_def redis_has_def)
  then have v: "?v = (Inr sample_claims, snd ?v)" by (metis prod.collapse)
  show ?thesis
    by (rule used_token_accepted_in_tolerance [OF v, where jti = "''j''" and ex = 300])
      (simp_all add: jwt_at_accepts, simp_all add: jwt_at_def sample_claims_def no_denials_def)
qed

end
