(* ===== verification/ApiKeys.thy ===== *)
theory ApiKeys
  imports Recipient
begin

text \<open>
  API keys: \<open>src/middleware/auth.ts\<close> (generation, validation), \<open>segmentGuard.ts\<close>, \<open>optionalAuth.ts\<close>,
  \<open>adminAuth.ts\<close>, \<open>src/utils/secureCompare.ts\<close>, \<open>src/types/permissions.ts\<close> and sign-out of
  \<open>src/controllers/authController.ts\<close>. bcrypt, the random bytes and the JWT decoder are parameters. Express
  middleware returns the error it passes to \<open>next\<close>, or what it adds to the request.
\<close>

section \<open>Rows\<close>

record auth_user = user +
  au_passcode :: "string option"
  au_twofa :: "string option"
  au_totp :: "string option"
  au_failed :: int
  au_lockout :: "int option"
  au_actor :: string
  au_tier :: string
  au_org :: "string option"

datatype key_type = UserKey | AdminKey | BreakGlassKey

text \<open>The column \<open>permissions\<close> is JSON.\<close>

datatype json_item = JString string | JOther
datatype json_perms = PermsNull | PermsArray "json_item list" | PermsOther

record api_key_row =
  ak_id :: nat
  ak_user :: "string option"
  ak_org :: "string option"
  ak_type :: key_type
  ak_createdBy :: "string option"
  ak_reason :: "string option"
  ak_emergency :: "int option"
  ak_lookup :: string
  ak_hash :: string
  ak_perms :: json_perms
  ak_rate :: int
  ak_expires :: "int option"
  ak_revoked :: "int option"
  ak_used :: "int option"

text \<open>A property of a row object: missing, \<open>null\<close>, or a value.\<close>

datatype js_prop = JsUndefined | JsNull | JsValue

record key_env =
  ke_now :: int
  ke_lookup :: string                            \<comment> \<open>six random bytes in hexadecimal\<close>
  ke_secret :: string                            \<comment> \<open>32 random bytes in hexadecimal\<close>
  ke_bhash :: "string \<Rightarrow> string"
  ke_compare :: "string \<Rightarrow> string \<Rightarrow> bool"
  ke_decode :: "string \<Rightarrow> (string option \<times> string \<times> string) option"   \<comment> \<open>\<open>typ\<close>, \<open>aud\<close>, \<open>iss\<close> of a JWT\<close>
  ke_deletedAt :: "auth_user \<Rightarrow> js_prop"
  ke_isDisabled :: "auth_user \<Rightarrow> bool"

datatype key_error =
    KeyRequired | ChallengeTokenRefused | BadCredentialFormat | BadKeyFormat | InvalidKey
  | MalformedPermissions | AdminKeyRequired | MissingScope | InsufficientTier | InvalidTier
  | KeyNotUnique | KeyRowMissing | EndpointNotAvailable | Unauthorized

section \<open>Permissions\<close>

definition PermissionScopeEnum :: "string list" where
  "PermissionScopeEnum =
     [''p2p:read'', ''p2p:write'', ''p2p:admin'', ''sme:read'', ''sme:write'', ''sme:admin'',
      ''international:read'', ''international:write'', ''salary:read'', ''salary:write'',
      ''gateway:read'', ''gateway:write'', ''gateway:admin'', ''enterprise:read'', ''enterprise:write'',
      ''enterprise:admin'', ''savings:read'', ''savings:write'', ''lending:read'', ''lending:write'',
      ''bills:read'', ''bills:write'', ''payroll:read'', ''payroll:write'', ''government:read'',
      ''government:write'', ''investment:read'', ''investment:write'']"

definition valid_scope :: "json_item \<Rightarrow> string option" where
  "valid_scope p = (case p of JString s \<Rightarrow> if s \<in> set PermissionScopeEnum then Some s else None | JOther \<Rightarrow> None)"

definition validatePermissions :: "json_perms \<Rightarrow> key_error + string list" where
  "validatePermissions ps =
     (case ps of PermsNull \<Rightarrow> Inr [] | PermsOther \<Rightarrow> Inl MalformedPermissions
      | PermsArray xs \<Rightarrow> Inr (List.map_filter valid_scope xs))"

section \<open>Keys as strings\<close>

definition hex_char :: "char \<Rightarrow> bool" where
  "hex_char c \<longleftrightarrow> is_digit c \<or> (let n = of_char (lower_char c) :: int in 97 \<le> n \<and> n \<le> 102)"

definition API_KEY_LOOKUP_LENGTH :: nat where "API_KEY_LOOKUP_LENGTH = 12"
definition API_KEY_SECRET_LENGTH :: nat where "API_KEY_SECRET_LENGTH = 64"

text \<open>\<open>^acbu_([a-f0-9]{12})_([a-f0-9]{64})$\<close>, without regard to case.\<close>

definition parseApiKey :: "string \<Rightarrow> (string \<times> string) option" where
  "parseApiKey raw =
     (let s = trim raw; lookup = take API_KEY_LOOKUP_LENGTH (drop 5 s); rest = drop (5 + API_KEY_LOOKUP_LENGTH) s in
      if to_lower (take 5 s) = ''acbu_'' \<and> length lookup = API_KEY_LOOKUP_LENGTH \<and> list_all hex_char lookup
         \<and> take 1 rest = ''_'' \<and> length (drop 1 rest) = API_KEY_SECRET_LENGTH \<and> list_all hex_char (drop 1 rest)
      then Some (to_lower lookup, to_lower (drop 1 rest)) else None)"

definition api_key_string :: "string \<Rightarrow> string \<Rightarrow> string" where
  "api_key_string lookup secret = ''acbu_'' @ lookup @ ''_'' @ secret"

text \<open>A decodable token of three parts is refused, whatever it is.\<close>

definition rejectIfJwtToken :: "key_env \<Rightarrow> string \<Rightarrow> key_error + unit" where
  "rejectIfJwtToken e token =
     (if length (split_on (CHR ''.'') token) = 3 then
        (case ke_decode e token of
           None \<Rightarrow> Inr ()
         | Some (typ, aud, iss) \<Rightarrow>
             if \<not> (truthy typ \<and> to_lower (trim (the typ)) = ''jwt'') then Inl BadCredentialFormat
             else if aud = ''2fa_challenge'' \<and> iss = ''acbu/auth'' then Inl ChallengeTokenRefused
             else Inl BadCredentialFormat)
      else Inr ())"

section \<open>Generation\<close>

record key_options =
  ko_org :: "string option"
  ko_type :: "key_type option"
  ko_expires :: "int option"
  ko_reason :: "string option"
  ko_emergency :: "int option"
  ko_createdBy :: "string option"
  ko_rate :: "int option"

definition no_options :: key_options where
  "no_options = \<lparr>ko_org = None, ko_type = None, ko_expires = None, ko_reason = None, ko_emergency = None, ko_createdBy = None,
     ko_rate = None\<rparr>"

text \<open>Lookup key and hash are unique columns; 100 is the column's default.\<close>

definition generateApiKey ::
  "key_env \<Rightarrow> string option \<Rightarrow> string list \<Rightarrow> key_options \<Rightarrow> api_key_row list \<Rightarrow> (key_error + string) \<times> api_key_row list" where
  "generateApiKey e uid perms opt keys =
     (if ke_lookup e \<in> ak_lookup ` set keys \<or> ke_bhash e (ke_secret e) \<in> ak_hash ` set keys then (Inl KeyNotUnique, keys)
      else (Inr (api_key_string (ke_lookup e) (ke_secret e)), keys @
        [\<lparr>ak_id = length keys, ak_user = uid, ak_org = ko_org opt,
          ak_type = (case ko_type opt of Some t \<Rightarrow> t | None \<Rightarrow> UserKey), ak_createdBy = ko_createdBy opt,
          ak_reason = ko_reason opt, ak_emergency = ko_emergency opt, ak_lookup = ke_lookup e,
          ak_hash = ke_bhash e (ke_secret e), ak_perms = PermsArray (map JString perms), 
          ak_rate = (case ko_rate opt of Some n \<Rightarrow> n | None \<Rightarrow> 100),
          ak_expires = ko_expires opt, ak_revoked = None, ak_used = None\<rparr>]))"

section \<open>Validation\<close>

record key_ctx =
  kc_id :: nat
  kc_user :: "string option"
  kc_org :: "string option"
  kc_type :: key_type
  kc_createdBy :: "string option"
  kc_reason :: "string option"
  kc_emergency :: "int option"
  kc_permissions :: "string list"
  kc_rate :: int
  kc_tier :: "string option"

text \<open>\<open>s.replace(p, "")\<close> removes the first occurrence.\<close>

fun remove_first :: "string \<Rightarrow> string \<Rightarrow> string" where
  "remove_first p s = (if prefix p s then drop (length p) s else (case s of [] \<Rightarrow> [] | c # cs \<Rightarrow> c # remove_first p cs))"

definition credential :: "string option \<Rightarrow> string option \<Rightarrow> string option" where
  "credential xkey authz = (if truthy xkey then xkey else map_option (remove_first ''Bearer '') authz)"

definition key_live :: "int \<Rightarrow> api_key_row \<Rightarrow> bool" where
  "key_live now k \<longleftrightarrow> ak_revoked k = None \<and> (case ak_expires k of None \<Rightarrow> True | Some t \<Rightarrow> now < t)
     \<and> (ak_type k \<noteq> BreakGlassKey \<or> (case ak_emergency k of None \<Rightarrow> False | Some t \<Rightarrow> now < t))"

definition find_auth_user :: "string \<Rightarrow> auth_user list \<Rightarrow> auth_user option" where
  "find_auth_user i us = find (\<lambda>u. u_id u = i) us"

definition key_user :: "auth_user list \<Rightarrow> api_key_row \<Rightarrow> auth_user option" where
  "key_user us k = (case ak_user k of None \<Rightarrow> None | Some i \<Rightarrow> find_auth_user i us)"

definition user_refused :: "key_env \<Rightarrow> auth_user list \<Rightarrow> api_key_row \<Rightarrow> bool" where
  "user_refused e us k =
     (truthy (ak_user k) \<and> (case key_user us k of None \<Rightarrow> False | Some u \<Rightarrow> ke_deletedAt e u \<noteq> JsNull \<or> ke_isDisabled e u))"

definition touch_key :: "nat \<Rightarrow> int \<Rightarrow> api_key_row list \<Rightarrow> api_key_row list" where
  "touch_key i now keys = map (\<lambda>k. if ak_id k = i then k\<lparr>ak_used := Some now\<rparr> else k) keys"

definition key_context :: "auth_user list \<Rightarrow> api_key_row \<Rightarrow> string list \<Rightarrow> key_ctx" where
  "key_context us k perms =
     \<lparr>kc_id = ak_id k, kc_user = ak_user k, kc_org = ak_org k, kc_type = ak_type k, kc_createdBy = ak_createdBy k,
      kc_reason = ak_reason k, kc_emergency = ak_emergency k, kc_permissions = perms, kc_rate = ak_rate k,
      kc_tier = (case key_user us k of Some u \<Rightarrow> if au_tier u \<noteq> [] then Some (au_tier u) else None | None \<Rightarrow> None)\<rparr>"

definition validateApiKey ::
  "key_env \<Rightarrow> string option \<Rightarrow> string option \<Rightarrow> auth_user list \<Rightarrow> api_key_row list \<Rightarrow> (key_error + key_ctx) \<times> api_key_row list" where
  "validateApiKey e xkey authz us keys =
     (let cred = credential xkey authz in
      if \<not> truthy cred then (Inl KeyRequired, keys)
      else bail (rejectIfJwtToken e (the cred)) keys (\<lambda>_.
        (case parseApiKey (the cred) of
           None \<Rightarrow> (Inl BadKeyFormat, keys)
         | Some (lookup, secret) \<Rightarrow>
           (case find (\<lambda>k. ak_lookup k = lookup \<and> key_live (ke_now e) k) keys of
              None \<Rightarrow> (Inl InvalidKey, keys)
            | Some k \<Rightarrow>
                if user_refused e us k then (Inl InvalidKey, keys)
                else if \<not> ke_compare e secret (ak_hash k) then (Inl InvalidKey, keys)
                else bail (validatePermissions (ak_perms k)) (touch_key (ak_id k) (ke_now e) keys) (\<lambda>perms.
                  (Inr (key_context us k perms), touch_key (ak_id k) (ke_now e) keys))))))"

definition optionalApiKey ::
  "key_env \<Rightarrow> string option \<Rightarrow> string option \<Rightarrow> auth_user list \<Rightarrow> api_key_row list \<Rightarrow> (key_error + key_ctx option) \<times> api_key_row list" where
  "optionalApiKey e xkey authz us keys =
     (if \<not> truthy (credential xkey authz) then (Inr None, keys)
      else (case validateApiKey e xkey authz us keys of (Inl err, ks) \<Rightarrow> (Inl err, ks) | (Inr c, ks) \<Rightarrow> (Inr (Some c), ks)))"

definition ADMIN_KEY_TYPES :: "key_type list" where
  "ADMIN_KEY_TYPES = [AdminKey, BreakGlassKey]"

text \<open>The id that goes into the audit trail.\<close>

definition validateAdminKey ::
  "key_env \<Rightarrow> key_ctx option \<Rightarrow> string option \<Rightarrow> string option \<Rightarrow> auth_user list \<Rightarrow> api_key_row list
     \<Rightarrow> (key_error + (string + nat) \<times> key_ctx) \<times> api_key_row list" where
  "validateAdminKey e present xkey authz us keys =
     (let (r, ks) = (case present of Some c \<Rightarrow> (Inr c, keys) | None \<Rightarrow> validateApiKey e xkey authz us keys) in
      bail r ks (\<lambda>c.
        if kc_type c \<notin> set ADMIN_KEY_TYPES then (Inl AdminKeyRequired, ks)
        else (Inr (case kc_user c of Some u \<Rightarrow> Inl u | None \<Rightarrow> (case kc_createdBy c of Some u \<Rightarrow> Inl u | None \<Rightarrow> Inr (kc_id c)), c), ks)))"

definition requireSegmentScope :: "string list \<Rightarrow> key_ctx option \<Rightarrow> key_error + unit" where
  "requireSegmentScope scopes c =
     (case c of None \<Rightarrow> Inl KeyRequired
      | Some k \<Rightarrow> throw_if (\<not> list_ex (\<lambda>s. s \<in> set (kc_permissions k)) scopes) MissingScope)"

definition TIER_ORDER :: "string list" where
  "TIER_ORDER = [''free'', ''verified'', ''sme'', ''enterprise'']"

definition index_of :: "string \<Rightarrow> string list \<Rightarrow> int" where
  "index_of x xs = (if x \<in> set xs then int (length (takeWhile (\<lambda>y. y \<noteq> x) xs)) else -1)"

definition requireMinTier :: "string \<Rightarrow> string option \<Rightarrow> key_error + unit" where
  "requireMinTier minTier tier =
     (case tier of None \<Rightarrow> Inl InsufficientTier
      | Some t \<Rightarrow>
          if index_of t TIER_ORDER = -1 \<or> index_of minTier TIER_ORDER = -1 then Inl InvalidTier
          else throw_if (index_of t TIER_ORDER < index_of minTier TIER_ORDER) InsufficientTier)"

definition requireAdminKeyType :: "key_ctx option \<Rightarrow> key_error + unit" where
  "requireAdminKeyType c =
     (case c of None \<Rightarrow> Inl KeyRequired | Some k \<Rightarrow> throw_if (kc_type k \<notin> set ADMIN_KEY_TYPES) AdminKeyRequired)"

section \<open>Revocation and static admin keys\<close>

definition revoke_key :: "nat \<Rightarrow> int \<Rightarrow> api_key_row list \<Rightarrow> api_key_row list" where
  "revoke_key i now keys = map (\<lambda>k. if ak_id k = i then k\<lparr>ak_revoked := Some now\<rparr> else k) keys"

definition postSignout :: "key_env \<Rightarrow> key_ctx option \<Rightarrow> api_key_row list \<Rightarrow> (key_error + unit) \<times> api_key_row list" where
  "postSignout e c keys =
     (case c of None \<Rightarrow> (Inl KeyRequired, keys)
      | Some k \<Rightarrow> if kc_id k \<in> ak_id ` set keys then (Inr (), revoke_key (kc_id k) (ke_now e) keys) else (Inl KeyRowMissing, keys))"

text \<open>Both strings are hashed to the same length first; \<open>sha\<close> is the digest.\<close>

definition constantTimeEqual :: "(string \<Rightarrow> 'd) \<Rightarrow> string \<Rightarrow> string \<Rightarrow> bool" where
  "constantTimeEqual sha a b \<longleftrightarrow> sha a = sha b"

definition requireAdminApiKey ::
  "(string \<Rightarrow> 'd) \<Rightarrow> (string \<times> string) list \<Rightarrow> string option \<Rightarrow> string option \<Rightarrow> key_error + string" where
  "requireAdminApiKey sha configured single provided =
     (let keys = (if configured \<noteq> [] then configured
                  else if truthy single then [(''default_admin'', the single)] else []) in
      if keys = [] then Inl EndpointNotAvailable
      else if \<not> truthy provided then Inl Unauthorized
      else (case find (\<lambda>(i, k). constantTimeEqual sha (the provided) k) keys of
          None \<Rightarrow> Inl Unauthorized | Some (i, k) \<Rightarrow> Inr i))"

section \<open>Keys round trip\<close>

text \<open>What the random bytes look like in hexadecimal, as the library prints them.\<close>

definition hex_lower :: "string \<Rightarrow> bool" where
  "hex_lower s \<longleftrightarrow> list_all (\<lambda>c. hex_char c \<and> lower_char c = c) s"

lemma hex_not_space: "hex_char c \<Longrightarrow> \<not> js_space c"
proof
  assume "hex_char c" "js_space c"
  then have sp: "(of_char c :: int) \<in> set [9, 10, 11, 12, 13, 32, 160]" by (simp add: js_space_def)
  have "list_all (\<lambda>n. \<not> hex_char (char_of n)) [9 :: int, 10, 11, 12, 13, 32, 160]" by code_simp
  then have "\<not> hex_char (char_of (of_char c :: int))" using sp unfolding list_all_iff by blast
  with \<open>hex_char c\<close> show False by simp
qed

lemma hex_lower_simps: "hex_lower s \<Longrightarrow> list_all hex_char s" "hex_lower s \<Longrightarrow> to_lower s = s"
proof -
  show "hex_lower s \<Longrightarrow> list_all hex_char s" by (simp add: hex_lower_def list_all_iff)
  show "hex_lower s \<Longrightarrow> to_lower s = s" by (induction s) (simp_all add: hex_lower_def to_lower_def)
qed

lemma hex_not_dot: "hex_char c \<Longrightarrow> c \<noteq> CHR ''.''"
proof
  assume "hex_char c" "c = CHR ''.''"
  moreover have "\<not> hex_char (CHR ''.'')" by code_simp
  ultimately show False by simp
qed

text \<open>
  A generated key is read back as the lookup key and the secret it was made of: the format of generation and
  the regular expression of validation agree.
\<close>

theorem generated_key_parses:
  assumes "hex_lower lookup" and "length lookup = 12" and "hex_lower secret" and "length secret = 64"
  shows "parseApiKey (api_key_string lookup secret) = Some (lookup, secret) \<and> length (split_on (CHR ''.'') (api_key_string lookup secret)) = 1"
proof
  let ?s = "api_key_string lookup secret"
  have "secret \<noteq> []" using assms(4) by auto
  then have "last ?s = last secret" "hd ?s = CHR ''a''" by (simp_all add: api_key_string_def)
  moreover have "hex_char (last secret)" using hex_lower_simps(1) [OF assms(3)] \<open>secret \<noteq> []\<close> by (simp add: list_all_iff)
  moreover have "\<not> js_space (CHR ''a'')" by code_simp
  ultimately have trim: "trim ?s = ?s" using hex_not_space by (intro trim_id) simp
  have pre: "to_lower ''acbu_'' = ''acbu_''" by code_simp
  have "?s = ''acbu_'' @ (lookup @ ''_'' @ secret)" by (simp add: api_key_string_def)
  then have cut: "take 5 ?s = ''acbu_''" "take 12 (drop 5 ?s) = lookup" "drop 17 ?s = ''_'' @ secret" "drop 18 ?s = secret" "length ?s = 82"
    using assms(2,4) by (simp_all add: api_key_string_def)
  show "parseApiKey ?s = Some (lookup, secret)"
    using assms hex_lower_simps [OF assms(1)] hex_lower_simps [OF assms(3)]
    by (simp add: parseApiKey_def API_KEY_LOOKUP_LENGTH_def API_KEY_SECRET_LENGTH_def Let_def trim cut pre)
  have "CHR ''.'' \<notin> set ?s"
    using hex_lower_simps(1) [OF assms(1)] hex_lower_simps(1) [OF assms(3)] hex_not_dot
    by (auto simp: api_key_string_def list_all_iff)
  then show "length (split_on (CHR ''.'') ?s) = 1" by (simp add: split_on_id)
qed

section \<open>Accepted keys\<close>

lemma in_map_filter: "y \<in> set (List.map_filter f xs) \<longleftrightarrow> (\<exists>x \<in> set xs. f x = Some y)"
  by (induction xs) (auto simp: List.map_filter_simps split: option.splits)

lemma valid_scope_Some: "valid_scope p = Some s \<longleftrightarrow> p = JString s \<and> s \<in> set PermissionScopeEnum"
  by (cases p) (auto simp: valid_scope_def)

lemma validate_Inr:
  assumes "validateApiKey e xkey authz us keys = (Inr c, keys')"
  shows "\<exists>k lookup secret perms. parseApiKey (the (credential xkey authz)) = Some (lookup, secret)
     \<and> find (\<lambda>k. ak_lookup k = lookup \<and> key_live (ke_now e) k) keys = Some k \<and> \<not> user_refused e us k
     \<and> ke_compare e secret (ak_hash k) \<and> validatePermissions (ak_perms k) = Inr perms
     \<and> c = key_context us k perms \<and> keys' = touch_key (ak_id k) (ke_now e) keys"
  using assms by (auto simp: validateApiKey_def bail_Inr_iff Let_def split: if_splits option.splits)

text \<open>
  C14. A request is let in only with a live key: the lookup part names a row whose hash matches the secret, which
  is not revoked, not expired and, for a break-glass key, inside its emergency window, and whose user is
  neither deleted nor disabled. The request gets the row's own identity and never more permissions than the
  row lists, all of them known scopes.
\<close>

theorem accepted_key_is_live:
  assumes "validateApiKey e xkey authz us keys = (Inr c, keys')"
  shows "\<exists>k secret. k \<in> set keys \<and> parseApiKey (the (credential xkey authz)) = Some (ak_lookup k, secret)
     \<and> ke_compare e secret (ak_hash k) \<and> ak_revoked k = None
     \<and> (\<forall>t. ak_expires k = Some t \<longrightarrow> ke_now e < t)
     \<and> (ak_type k = BreakGlassKey \<longrightarrow> (\<exists>t. ak_emergency k = Some t \<and> ke_now e < t))
     \<and> (\<forall>u. key_user us k = Some u \<and> ak_user k \<noteq> Some [] \<longrightarrow> ke_deletedAt e u = JsNull \<and> \<not> ke_isDisabled e u)
     \<and> kc_id c = ak_id k \<and> kc_user c = ak_user k \<and> kc_type c = ak_type k
     \<and> set (kc_permissions c) \<subseteq> {s. ak_perms k \<noteq> PermsNull \<and> s \<in> set PermissionScopeEnum
          \<and> (\<exists>xs. ak_perms k = PermsArray xs \<and> JString s \<in> set xs)}"
proof -
  from validate_Inr [OF assms] obtain k lookup secret perms where k:
    "parseApiKey (the (credential xkey authz)) = Some (lookup, secret)"
    "find (\<lambda>k. ak_lookup k = lookup \<and> key_live (ke_now e) k) keys = Some k" "\<not> user_refused e us k"
    "ke_compare e secret (ak_hash k)" "validatePermissions (ak_perms k) = Inr perms" "c = key_context us k perms" by blast
  from k(2) have f: "k \<in> set keys" "ak_lookup k = lookup" "key_live (ke_now e) k"
    by (auto simp: find_Some_iff)
  have "set perms \<subseteq> {s. ak_perms k \<noteq> PermsNull \<and> s \<in> set PermissionScopeEnum
          \<and> (\<exists>xs. ak_perms k = PermsArray xs \<and> JString s \<in> set xs)}"
    using k(5) by (auto simp: validatePermissions_def in_map_filter valid_scope_Some split: json_perms.splits)
  with k f show ?thesis
    by (intro exI [of _ k] exI [of _ secret])
      (auto simp: key_live_def key_context_def user_refused_def key_user_def truthy_def split: option.splits)
qed

text \<open>
  C28. No key of a user is ever accepted. Validation refuses a user row whose \<open>deletedAt\<close> is not \<open>null\<close>, but the
  users table has no such column, so the property is \<open>undefined\<close> on every row: whatever the credential, a
  request is let in only with a key that belongs to no user of the table.
\<close>

theorem user_keys_never_accepted:
  assumes "\<forall>u. ke_deletedAt e u = JsUndefined" and "validateApiKey e xkey authz us keys = (Inr c, keys')"
    and "\<forall>k \<in> set keys. ak_user k \<noteq> Some []"
  shows "kc_user c = None \<or> find_auth_user (the (kc_user c)) us = None"
proof -
  from validate_Inr [OF assms(2)] obtain k where k: "k \<in> set keys" "\<not> user_refused e us k" "kc_user c = ak_user k"
    by (force simp: find_Some_iff key_context_def)
  then show ?thesis using assms(1,3)
    by (auto simp: user_refused_def key_user_def truthy_def split: option.splits)
qed

section \<open>The life of a key\<close>

text \<open>Ids are positions and the unique index on lookup keys holds; every operation keeps both.\<close>

definition keys_ok :: "api_key_row list \<Rightarrow> bool" where
  "keys_ok keys \<longleftrightarrow> distinct (map ak_lookup keys) \<and> map ak_id keys = [0..<length keys]"

lemma key_ops_map:
  "map ak_lookup (touch_key i now keys) = map ak_lookup keys" "map ak_id (touch_key i now keys) = map ak_id keys"
  "map ak_lookup (revoke_key i now keys) = map ak_lookup keys" "map ak_id (revoke_key i now keys) = map ak_id keys"
  "length (touch_key i now keys) = length keys" "length (revoke_key i now keys) = length keys"
  by (simp_all add: touch_key_def revoke_key_def)

lemma keys_ok_generate: "keys_ok keys \<Longrightarrow> keys_ok (snd (generateApiKey e uid perms opt keys))"
  by (auto simp: generateApiKey_def keys_ok_def)

lemma keys_ok_validate: "keys_ok keys \<Longrightarrow> keys_ok (snd (validateApiKey e x a us keys))"
  by (auto simp: validateApiKey_def Let_def keys_ok_def key_ops_map bail_def split: sum.split option.split prod.split)

lemma keys_ok_signout: "keys_ok keys \<Longrightarrow> keys_ok (snd (postSignout e c keys))"
  by (auto simp: postSignout_def keys_ok_def key_ops_map split: option.split)

lemma same_lookup: "distinct (map ak_lookup keys) \<Longrightarrow> k \<in> set keys \<Longrightarrow> k' \<in> set keys \<Longrightarrow> ak_lookup k = ak_lookup k' \<Longrightarrow> k = k'"
  by (metis distinct_map inj_on_eq_iff)

lemma find_lookup:
  assumes "distinct (map ak_lookup keys)" and "k \<in> set keys" and "key_live now k"
  shows "find (\<lambda>r. ak_lookup r = ak_lookup k \<and> key_live now r) keys = Some k"
proof (cases "find (\<lambda>r. ak_lookup r = ak_lookup k \<and> key_live now r) keys")
  case None
  then show ?thesis using assms(2,3) by (auto simp: find_None_iff)
next
  case (Some r)
  then have "r \<in> set keys" "ak_lookup r = ak_lookup k" by (auto simp: find_Some_iff)
  with same_lookup [OF assms(1) _ assms(2)] Some show ?thesis by simp
qed

lemma scopes_kept: "set perms \<subseteq> set PermissionScopeEnum \<Longrightarrow> List.map_filter valid_scope (map JString perms) = perms"
  by (induction perms) (simp_all add: List.map_filter_simps valid_scope_def)

lemma spent_key_refused:
  assumes "keys_ok keys" and "k \<in> set keys" and "ak_lookup k = lookup" and "ak_revoked k \<noteq> None"
    and "length lookup = 12" and "hex_lower lookup" and "hex_lower secret" and "length secret = 64"
  shows "fst (validateApiKey e (Some (api_key_string lookup secret)) a us keys) = Inl InvalidKey"
proof -
  have cred: "credential (Some (api_key_string lookup secret)) a = Some (api_key_string lookup secret)"
    by (simp add: credential_def truthy_def api_key_string_def)
  have "find (\<lambda>r. ak_lookup r = lookup \<and> key_live (ke_now e) r) keys = None"
  proof -
    have "ak_lookup r \<noteq> lookup \<or> \<not> key_live (ke_now e) r" if "r \<in> set keys" for r
      using same_lookup [of keys r k] that assms(1-4) by (cases "r = k") (auto simp: keys_ok_def key_live_def)
    then show ?thesis by (auto simp: find_None_iff)
  qed
  moreover have p: "parseApiKey (api_key_string lookup secret) = Some (lookup, secret)"
      "rejectIfJwtToken e (api_key_string lookup secret) = Inr ()"
    using generated_key_parses [OF assms(6,5,7,8)] by (simp_all add: rejectIfJwtToken_def)
  moreover have "api_key_string lookup secret \<noteq> []" by (simp add: api_key_string_def)
  ultimately show ?thesis by (simp add: validateApiKey_def cred truthy_def Let_def)
qed

text \<open>
  A key whose user is not refused works from the moment it is issued until it expires or is signed out. The string that
  generation returns is accepted with the permissions it was issued with, and once the request that carries it signs out,
  the same string is refused at every later time. (The keys of users are all refused, as shown above; this is about
  keys without a user.)
\<close>

theorem issued_key_works_until_signout:
  assumes "keys_ok keys" and "generateApiKey e uid perms opt keys = (Inr key, keys1)"
    and "hex_lower (ke_lookup e)" and "length (ke_lookup e) = 12" and "hex_lower (ke_secret e)" and "length (ke_secret e) = 64"
    and "ke_compare e' (ke_secret e) (ke_bhash e (ke_secret e))" and "set perms \<subseteq> set PermissionScopeEnum"
    and "key_live (ke_now e') (last keys1)" and "\<not> user_refused e' us (last keys1)"
  shows "\<exists>c keys2. validateApiKey e' (Some key) None us keys1 = (Inr c, keys2)
     \<and> kc_user c = uid \<and> kc_permissions c = perms
     \<and> fst (postSignout e'' (Some c) keys2) = Inr ()
     \<and> fst (validateApiKey e3 (Some key) None us' (snd (postSignout e'' (Some c) keys2))) = Inl InvalidKey"
proof -
  let ?k = "last keys1"
  from assms(2) have key: "key = api_key_string (ke_lookup e) (ke_secret e)"
    and k: "?k \<in> set keys1" "ak_lookup ?k = ke_lookup e" "ak_hash ?k = ke_bhash e (ke_secret e)" "ak_user ?k = uid"
      "ak_perms ?k = PermsArray (map JString perms)"
    by (auto simp: generateApiKey_def split: if_splits)
  have ok1: "keys_ok keys1" using keys_ok_generate [OF assms(1), of e uid perms opt] assms(2) by simp
  then have "distinct (map ak_lookup keys1)" by (simp add: keys_ok_def)
  from find_lookup [OF this k(1) assms(9)]
  have f: "find (\<lambda>r. ak_lookup r = ke_lookup e \<and> key_live (ke_now e') r) keys1 = Some ?k" by (simp add: k(2))
  have cred: "credential (Some key) None = Some key" by (simp add: credential_def truthy_def key api_key_string_def)
  let ?c = "key_context us ?k perms" and ?keys2 = "touch_key (ak_id ?k) (ke_now e') keys1"
  have p: "parseApiKey key = Some (ke_lookup e, ke_secret e)" "length (split_on (CHR ''.'') key) = 1"
    using generated_key_parses [OF assms(3-6)] by (simp_all add: key)
  have ne: "key \<noteq> []" by (simp add: key api_key_string_def)
  have "rejectIfJwtToken e' key = Inr ()" by (simp add: rejectIfJwtToken_def p)
  moreover have "validatePermissions (ak_perms ?k) = Inr perms" using assms(8) by (simp add: validatePermissions_def scopes_kept k(5))
  ultimately have v: "validateApiKey e' (Some key) None us keys1 = (Inr ?c, ?keys2)"
    using f assms(7,10) by (simp add: validateApiKey_def cred truthy_def ne p k(3) Let_def)
  let ?keys3 = "revoke_key (ak_id ?k) (ke_now e'') ?keys2"
  have "ak_id ?k \<in> ak_id ` set ?keys2"
    using k(1) key_ops_map(2) by (metis image_eqI image_set)
  then have out: "postSignout e'' (Some ?c) ?keys2 = (Inr (), ?keys3)" by (simp add: postSignout_def key_context_def)
  have ok3: "keys_ok ?keys3" using ok1 by (simp add: keys_ok_def key_ops_map)
  have "?k\<lparr>ak_used := Some (ke_now e'), ak_revoked := Some (ke_now e'')\<rparr> \<in> set ?keys3"
    using k(1) by (auto simp: revoke_key_def touch_key_def image_iff intro!: bexI [of _ ?k])
  from spent_key_refused [OF ok3 this, of "ke_lookup e" "ke_secret e" e3 None us'] assms(3-6) k(2)
  have "fst (validateApiKey e3 (Some key) None us' ?keys3) = Inl InvalidKey" by (simp add: key)
  with v out k(4) show ?thesis by (intro exI [of _ ?c] exI [of _ ?keys2]) (simp add: key_context_def)
qed

section \<open>The properties at concrete inputs\<close>

definition sample_key_env :: key_env where
  "sample_key_env = \<lparr>ke_now = 5, ke_lookup = replicate 12 (CHR ''a''), ke_secret = replicate 64 (CHR ''0''), ke_bhash = (\<lambda>s. ''h'' @ s),
     ke_compare = (\<lambda>s h. h = ''h'' @ s), ke_decode = (\<lambda>_. None), ke_deletedAt = (\<lambda>_. JsUndefined), ke_isDisabled = (\<lambda>_. False)\<rparr>"

definition sample_key :: string where
  "sample_key = api_key_string (ke_lookup sample_key_env) (ke_secret sample_key_env)"

definition one_key :: "api_key_row list" where
  "one_key = snd (generateApiKey sample_key_env None [''p2p:read''] no_options [])"

lemma sample_hex: "hex_lower (ke_lookup sample_key_env)" "length (ke_lookup sample_key_env) = 12"
    "hex_lower (ke_secret sample_key_env)" "length (ke_secret sample_key_env) = 64"
  by code_simp+

lemma one_key_facts:
  "generateApiKey sample_key_env None [''p2p:read''] no_options [] = (Inr sample_key, one_key)"
  "key_live 5 (last one_key)" "\<not> user_refused sample_key_env [] (last one_key)" "ak_user (last one_key) = None"
  by (simp_all add: one_key_def generateApiKey_def sample_key_def sample_key_env_def no_options_def key_live_def user_refused_def truthy_def)

theorem generated_key_parses_witness:
  "parseApiKey sample_key = Some (ke_lookup sample_key_env, ke_secret sample_key_env)"
  using generated_key_parses [OF sample_hex] by (simp add: sample_key_def)

theorem issued_key_works_until_signout_witness:
  "\<exists>c keys2. validateApiKey sample_key_env (Some sample_key) None [] one_key = (Inr c, keys2) \<and> kc_permissions c = [''p2p:read'']
     \<and> fst (validateApiKey sample_key_env (Some sample_key) None [] (snd (postSignout sample_key_env (Some c) keys2))) = Inl InvalidKey"
proof -
  have "keys_ok []" by (simp add: keys_ok_def)
  moreover have "ke_compare sample_key_env (ke_secret sample_key_env) (ke_bhash sample_key_env (ke_secret sample_key_env))"
    by (simp add: sample_key_env_def)
  moreover have "set [''p2p:read''] \<subseteq> set PermissionScopeEnum" by (simp add: PermissionScopeEnum_def)
  moreover have "key_live (ke_now sample_key_env) (last one_key)" using one_key_facts(2) by (simp add: sample_key_env_def)
  ultimately show ?thesis
    using issued_key_works_until_signout [OF _ one_key_facts(1) sample_hex, of sample_key_env "[]"] one_key_facts(3) by blast
qed

lemma sample_request: "\<exists>c. validateApiKey sample_key_env (Some sample_key) None [] one_key = (Inr c, touch_key 0 5 one_key) \<and> kc_user c = None"
proof -
  have cred: "credential (Some sample_key) None = Some sample_key" by (simp add: credential_def truthy_def sample_key_def api_key_string_def)
  have "parseApiKey sample_key = Some (replicate 12 (CHR ''a''), replicate 64 (CHR ''0''))"
      "length (split_on (CHR ''.'') sample_key) = 1" "sample_key \<noteq> []"
    using generated_key_parses [OF sample_hex] by (simp_all add: sample_key_def sample_key_env_def api_key_string_def)
  then show ?thesis
    by (simp add: validateApiKey_def cred truthy_def rejectIfJwtToken_def one_key_def generateApiKey_def)
      (simp add: sample_key_env_def no_options_def key_live_def user_refused_def truthy_def validatePermissions_def key_context_def)
qed

theorem accepted_key_is_live_witness:
  "\<exists>c k. validateApiKey sample_key_env (Some sample_key) None [] one_key = (Inr c, touch_key 0 5 one_key)
     \<and> k \<in> set one_key \<and> ak_revoked k = None \<and> kc_id c = ak_id k"
proof -
  obtain c where c: "validateApiKey sample_key_env (Some sample_key) None [] one_key = (Inr c, touch_key 0 5 one_key)" using sample_request by blast
  from accepted_key_is_live [OF c] c show ?thesis by blast
qed

theorem user_keys_never_accepted_witness:
  "\<exists>c. validateApiKey sample_key_env (Some sample_key) None [] one_key = (Inr c, touch_key 0 5 one_key)
     \<and> (kc_user c = None \<or> find_auth_user (the (kc_user c)) [] = None)"
proof -
  obtain c where c: "validateApiKey sample_key_env (Some sample_key) None [] one_key = (Inr c, touch_key 0 5 one_key)" using sample_request by blast
  have "\<forall>u. ke_deletedAt sample_key_env u = JsUndefined" by (simp add: sample_key_env_def)
  moreover have "\<forall>k \<in> set one_key. ak_user k \<noteq> Some []"
    by (simp add: one_key_def generateApiKey_def sample_key_env_def no_options_def)
  ultimately show ?thesis using user_keys_never_accepted [OF _ c] c by blast
qed

end
