(* ===== verification/Auth.thy ===== *)
theory Auth
  imports Tokens ApiKeys
begin

text \<open>
  Authentication: \<open>src/services/auth/authService.ts\<close> (sign-up, sign-in, second factor, privileged keys,
  refresh tokens) and \<open>src/utils/authBruteGuard.ts\<close>. bcrypt, TOTP, SHA-256, random values, the captcha service
  and the queue are parameters. A write to a row that does not exist throws, as the database client does.
\<close>

section \<open>State and environment\<close>

record otp_row =
  or_id :: nat
  or_user :: string
  or_hash :: string
  or_channel :: string
  or_expires :: int
  or_used :: "int option"

record refresh_row =
  rf_id :: nat
  rf_user :: string
  rf_family :: string
  rf_hash :: string
  rf_expires :: int
  rf_revoked :: "int option"
  rf_replaced :: "string option"

datatype auth_event =
    PasscodeChecked string         \<comment> \<open>a guess for this user id was compared with the stored hash\<close>
  | CodeChecked string             \<comment> \<open>a second-factor code for this user id was compared\<close>
  | OtpPublished string string string
  | AuthAudit string string

record auth_state =
  as_users :: "auth_user list"
  as_keys :: "api_key_row list"
  as_otps :: "otp_row list"
  as_refresh :: "refresh_row list"
  as_deny :: deny_state
  as_brute :: "(string \<times> (nat \<times> int)) list"
  as_log :: "auth_event list"

record auth_env = jwt_env +
  ae_key :: key_env
  ae_compare :: "string \<Rightarrow> string \<Rightarrow> bool"
  ae_hash :: "string \<Rightarrow> string"
  ae_totp :: "string \<Rightarrow> string \<Rightarrow> bool"
  ae_code :: string
  ae_publish :: bool
  ae_captcha :: "string \<Rightarrow> string \<Rightarrow> bool"
  ae_maxAttempts :: int
  ae_lockMs :: int
  ae_bruteMax :: nat
  ae_bruteMs :: int
  ae_sha :: "string \<Rightarrow> string"
  ae_token :: string
  ae_family :: string
  ae_newUser :: string

datatype auth_error =
    TooManyAttempts | CaptchaRequired | InvalidCredentials | DbThrows | ChannelMissing | PublishThrows
  | BadToken token_error | TotpNotConfigured | BadCode | BadOrExpiredCode | BadKey key_error
  | AdminTierRequired | OrganizationRequired | TwoFactorRequired | ReasonMissing | UnknownScope | AdminScopeRequired
  | TtlOutOfRange | BadChallenge | MethodNotSupported | PrivilegedKeyNotFound | BadRefreshToken
  | BadUsername | BadPasscode | UsernameTaken

section \<open>Brute-force guard\<close>

definition normalizeRateLimitIdentifier :: "string \<Rightarrow> string" where
  "normalizeRateLimitIdentifier identifier =
     (let trimmed = trim identifier; lower = to_lower trimmed in
      if trimmed = [] then ''anon''
      else if starts_with trimmed ''+'' \<and> e164 trimmed then trimmed
      else if starts_with lower ''@'' then strip_spaces (drop 1 lower)
      else if str_includes lower ''@'' \<and> str_includes lower ''.'' then lower
      else strip_spaces lower)"

definition sanitizeKey :: "string \<Rightarrow> string" where
  "sanitizeKey s = take 128 (map (\<lambda>c. if c = CHR '':'' \<or> c = CHR ''/'' \<or> c = CHR 0x5C \<or> js_space c then CHR ''_'' else c)
     (filter (\<lambda>c. c \<noteq> CHR 0x00) s))"

definition brute_key :: "string \<Rightarrow> string \<Rightarrow> string" where
  "brute_key identifier ip = ''brute:'' @ sanitizeKey (normalizeRateLimitIdentifier identifier) @ '':'' @ sanitizeKey ip"

record brute_status =
  bs_attempts :: nat
  bs_locked :: bool
  bs_captcha :: bool

text \<open>Entries expire; \<open>Math.ceil(max / 2)\<close> attempts ask for a captcha.\<close>

definition getStatus :: "auth_env \<Rightarrow> string \<Rightarrow> string \<Rightarrow> auth_state \<Rightarrow> brute_status" where
  "getStatus e identifier ip st =
     (case map_of (as_brute st) (brute_key identifier ip) of
        Some (n, t) \<Rightarrow> if de_now e < t
          then \<lparr>bs_attempts = n, bs_locked = ae_bruteMax e \<le> n, bs_captcha = (ae_bruteMax e + 1) div 2 \<le> n\<rparr>
          else \<lparr>bs_attempts = 0, bs_locked = False, bs_captcha = False\<rparr>
      | None \<Rightarrow> \<lparr>bs_attempts = 0, bs_locked = False, bs_captcha = False\<rparr>)"

text \<open>The cache increments whatever entry it still holds, and renews its expiry.\<close>

definition recordFailure :: "auth_env \<Rightarrow> string \<Rightarrow> string \<Rightarrow> auth_state \<Rightarrow> auth_state" where
  "recordFailure e identifier ip st =
     (let k = brute_key identifier ip; n = (case map_of (as_brute st) k of Some (n, _) \<Rightarrow> n | None \<Rightarrow> 0) in
      st\<lparr>as_brute := (k, (Suc n, de_now e + ae_bruteMs e)) # filter (\<lambda>(k', _). k' \<noteq> k) (as_brute st)\<rparr>)"

definition brute_reset :: "string \<Rightarrow> string \<Rightarrow> auth_state \<Rightarrow> auth_state" where
  "brute_reset identifier ip st =
     st\<lparr>as_brute := filter (\<lambda>(k', _). k' \<noteq> brute_key identifier ip) (as_brute st)\<rparr>"

section \<open>Users\<close>

definition au_log :: "auth_event list \<Rightarrow> auth_state \<Rightarrow> auth_state" where
  "au_log evs st = st\<lparr>as_log := as_log st @ evs\<rparr>"

definition user_of :: "string \<Rightarrow> auth_state \<Rightarrow> auth_user option" where
  "user_of i st = find_auth_user i (as_users st)"

definition update_user :: "string \<Rightarrow> (auth_user \<Rightarrow> auth_user) \<Rightarrow> auth_state \<Rightarrow> auth_state option" where
  "update_user i f st =
     (if i \<in> u_id ` set (as_users st)
      then Some (st\<lparr>as_users := map (\<lambda>u. if u_id u = i then f u else u) (as_users st)\<rparr>) else None)"

text \<open>The user a failed update throws for is an error of the database.\<close>

definition with_user :: "string \<Rightarrow> (auth_user \<Rightarrow> auth_user) \<Rightarrow> auth_state \<Rightarrow> (auth_state \<Rightarrow> (auth_error + 'a) \<times> auth_state) \<Rightarrow> (auth_error + 'a) \<times> auth_state" where
  "with_user i f st k = (case update_user i f st of None \<Rightarrow> (Inl DbThrows, st) | Some st' \<Rightarrow> k st')"

datatype ident_kind = IdUsername | IdEmail | IdPhone

definition normalizeIdentifier :: "string \<Rightarrow> ident_kind \<times> string" where
  "normalizeIdentifier s =
     (let trimmed = trim s; lower = to_lower trimmed in
      if starts_with lower ''@'' then (IdUsername, strip_spaces (drop 1 lower))
      else if starts_with trimmed ''+'' \<and> e164 trimmed then (IdPhone, trimmed)
      else if str_includes trimmed ''@'' \<and> str_includes trimmed ''.'' then (IdEmail, lower)
      else (IdUsername, strip_spaces lower))"

definition DUMMY_HASH :: string where
  "DUMMY_HASH = ''$2a$10$CwTycUXWue0Thq9StjUM0uEnOTWj2XOTl0pypEQuA7y2h2H6jX.m2''"

definition dummy_user :: auth_user where
  "dummy_user = \<lparr>u_id = ''dummy-id'', username = None, phone_e164 = None, email = None, hide_from_search = True,
     stellar_address = None, wallet_version = 0, kyc_status = [], encrypted_secret = None, key_hint = None,
     au_passcode = Some DUMMY_HASH, au_twofa = None, au_totp = None, au_failed = 0, au_lockout = None, au_actor = ''retail'',
     au_tier = [], au_org = None\<rparr>"

definition resolveUserByIdentifier :: "string \<Rightarrow> auth_state \<Rightarrow> auth_user" where
  "resolveUserByIdentifier identifier st =
     (let (kind, v) = normalizeIdentifier identifier in
      case find (\<lambda>u. case kind of IdUsername \<Rightarrow> username u = Some v | IdPhone \<Rightarrow> phone_e164 u = Some v | IdEmail \<Rightarrow> email u = Some v)
             (as_users st) of
        None \<Rightarrow> dummy_user | Some u \<Rightarrow> u)"

definition signup :: "auth_env \<Rightarrow> string \<Rightarrow> string \<Rightarrow> auth_state \<Rightarrow> (auth_error + string) \<times> auth_state" where
  "signup e name passcode st =
     (let uname = strip_spaces (to_lower (trim name)) in
      if uname = [] \<or> 64 < length uname then (Inl BadUsername, st)
      else if passcode = [] \<or> length passcode < 8 \<or> 64 < length passcode then (Inl BadPasscode, st)
      else if list_ex (\<lambda>u. username u = Some uname) (as_users st) then (Inl UsernameTaken, st)
      else
        let u = dummy_user\<lparr>u_id := ae_newUser e, username := Some uname, kyc_status := ''pending'', au_passcode := Some (ae_hash e passcode),
                  au_tier := ''free''\<rparr> in
        (Inr (u_id u), au_log [AuthAudit ''signup'' (u_id u)] (st\<lparr>as_users := as_users st @ [u]\<rparr>)))"

section \<open>Refresh tokens\<close>

definition REFRESH_TOKEN_EXPIRY_DAYS :: int where "REFRESH_TOKEN_EXPIRY_DAYS = 30"

definition refresh_expiry :: "auth_env \<Rightarrow> int" where
  "refresh_expiry e = de_now e + REFRESH_TOKEN_EXPIRY_DAYS * 24 * 60 * 60 * 1000"

text \<open>Token hashes are unique.\<close>

definition add_refresh :: "auth_env \<Rightarrow> string \<Rightarrow> auth_state \<Rightarrow> (auth_error + unit) \<times> auth_state" where
  "add_refresh e uid st =
     (if ae_sha e (ae_token e) \<in> rf_hash ` set (as_refresh st) then (Inl DbThrows, st)
      else (Inr (), st\<lparr>as_refresh := as_refresh st @ [\<lparr>rf_id = length (as_refresh st), rf_user = uid, rf_family = ae_family e,
              rf_hash = ae_sha e (ae_token e), rf_expires = refresh_expiry e, rf_revoked = None, rf_replaced = None\<rparr>]\<rparr>))"

definition bind_s :: "(auth_error + 'a) \<times> auth_state \<Rightarrow> ('a \<Rightarrow> auth_state \<Rightarrow> (auth_error + 'b) \<times> auth_state) \<Rightarrow> (auth_error + 'b) \<times> auth_state" where
  "bind_s r k = (case r of (Inl err, s) \<Rightarrow> (Inl err, s) | (Inr a, s) \<Rightarrow> k a s)"

definition issueRefreshToken :: "auth_env \<Rightarrow> string \<Rightarrow> auth_state \<Rightarrow> (auth_error + (string \<times> int)) \<times> auth_state" where
  "issueRefreshToken e uid st =
     bind_s (add_refresh e uid st) (\<lambda>_ s. (Inr (ae_token e, refresh_expiry e), au_log [AuthAudit ''refresh_token_issued'' uid] s))"

definition new_key ::
  "auth_env \<Rightarrow> string \<Rightarrow> string list \<Rightarrow> key_options \<Rightarrow> auth_state \<Rightarrow> (auth_error + string) \<times> auth_state" where
  "new_key e uid perms opt st =
     (case generateApiKey (ae_key e) (Some uid) perms opt (as_keys st) of
        (Inl err, ks) \<Rightarrow> (Inl (BadKey err), st\<lparr>as_keys := ks\<rparr>)
      | (Inr k, ks) \<Rightarrow> (Inr k, st\<lparr>as_keys := ks\<rparr>))"

text \<open>Revoking a family touches its rows that are not revoked yet.\<close>

definition revoke_row :: "string \<Rightarrow> int \<Rightarrow> string option \<Rightarrow> refresh_row \<Rightarrow> refresh_row" where
  "revoke_row fam now repl r =
     (if rf_family r = fam \<and> rf_revoked r = None
      then r\<lparr>rf_revoked := Some now, rf_replaced := (case repl of Some h \<Rightarrow> Some h | None \<Rightarrow> rf_replaced r)\<rparr> else r)"

definition revoke_family :: "string \<Rightarrow> int \<Rightarrow> string option \<Rightarrow> refresh_row list \<Rightarrow> refresh_row list" where
  "revoke_family fam now repl rows = map (revoke_row fam now repl) rows"

definition refreshAccessToken :: "auth_env \<Rightarrow> string \<Rightarrow> auth_state \<Rightarrow> (auth_error + (string \<times> string \<times> string)) \<times> auth_state" where
  "refreshAccessToken e token st =
     (case find (\<lambda>r. rf_hash r = ae_sha e token \<and> rf_revoked r = None \<and> de_now e < rf_expires r) (as_refresh st) of
        None \<Rightarrow> (Inl BadRefreshToken, st)
      | Some r \<Rightarrow>
          bind_s (new_key e (rf_user r) [] (no_options\<lparr>ko_type := Some UserKey\<rparr>)
            (st\<lparr>as_refresh := revoke_family (rf_family r) (de_now e) (Some (ae_sha e token)) (as_refresh st)\<rparr>)) (\<lambda>key s1.
          bind_s (add_refresh e (rf_user r) s1) (\<lambda>_ s2.
            (Inr (key, ae_token e, rf_user r), au_log [AuthAudit ''refresh_token_rotated'' (rf_user r)] s2))))"

definition revokeRefreshToken :: "auth_env \<Rightarrow> string \<Rightarrow> auth_state \<Rightarrow> (auth_error + unit) \<times> auth_state" where
  "revokeRefreshToken e token st =
     (case find (\<lambda>r. rf_hash r = ae_sha e token \<and> rf_revoked r = None) (as_refresh st) of
        None \<Rightarrow> (Inl BadRefreshToken, st)
      | Some r \<Rightarrow> (Inr (), au_log [AuthAudit ''refresh_token_revoked'' (rf_user r)]
            (st\<lparr>as_refresh := revoke_family (rf_family r) (de_now e) None (as_refresh st)\<rparr>)))"

section \<open>Sign-in\<close>

definition OTP_EXPIRY_MINUTES :: int where "OTP_EXPIRY_MINUTES = 10"

definition send_otp :: "auth_env \<Rightarrow> auth_user \<Rightarrow> string \<Rightarrow> bool \<Rightarrow> auth_state \<Rightarrow> (auth_error + unit) \<times> auth_state" where
  "send_otp e u chan must st =
     (let dest = (if chan = ''email'' then email u else phone_e164 u) in
      if \<not> truthy dest then (Inl ChannelMissing, st)
      else
        let st1 = st\<lparr>as_otps := as_otps st @ [\<lparr>or_id = length (as_otps st), or_user = u_id u, or_hash = ae_hash e (ae_code e),
                    or_channel = chan, or_expires = de_now e + OTP_EXPIRY_MINUTES * 60 * 1000, or_used = None\<rparr>]\<rparr> in
        if ae_publish e then (Inr (), au_log [OtpPublished chan (the dest) (ae_code e)] st1)
        else if must then (Inl PublishThrows, st1) else (Inr (), st1))"

definition fail_attempt :: "auth_env \<Rightarrow> int \<Rightarrow> auth_user \<Rightarrow> auth_user" where
  "fail_attempt e n u =
     u\<lparr>au_failed := n + 1, au_lockout := (if ae_maxAttempts e \<le> n + 1 then Some (de_now e + ae_lockMs e) else None)\<rparr>"

definition clear_attempts :: "auth_user \<Rightarrow> auth_user" where
  "clear_attempts u = u\<lparr>au_failed := 0, au_lockout := None\<rparr>"

definition locked_out :: "auth_env \<Rightarrow> auth_user \<Rightarrow> bool" where
  "locked_out e u = (case au_lockout u of None \<Rightarrow> False | Some t \<Rightarrow> de_now e < t)"

record signed_in =
  si_key :: string
  si_user :: string
  si_refresh :: "string option"

datatype signin_result = Challenge string | SignedIn signed_in

definition session :: "auth_env \<Rightarrow> auth_user \<Rightarrow> key_options \<Rightarrow> string \<Rightarrow> bool \<Rightarrow> auth_state \<Rightarrow> (auth_error + signed_in) \<times> auth_state" where
  "session e u opt action refresh st =
     bind_s (new_key e (u_id u) [] opt st) (\<lambda>key s1.
       let s2 = au_log [AuthAudit action (u_id u)] s1 in
       if refresh then bind_s (issueRefreshToken e (u_id u) s2) (\<lambda>(t, _) s3. (Inr \<lparr>si_key = key, si_user = u_id u, si_refresh = Some t\<rparr>, s3))
       else (Inr \<lparr>si_key = key, si_user = u_id u, si_refresh = None\<rparr>, s2))"

definition signin_challenge :: "auth_env \<Rightarrow> auth_user \<Rightarrow> string \<Rightarrow> auth_state \<Rightarrow> (auth_error + signin_result) \<times> auth_state" where
  "signin_challenge e u meth st =
     bind_s (if meth = ''sms'' \<or> meth = ''email'' then send_otp e u meth False st else (Inr (), st)) (\<lambda>_ s1.
       if \<not> jw_secret e then (Inl (BadToken SecretRequired), s1)
       else (Inr (Challenge (signChallengeToken e (u_id u) None)), au_log [AuthAudit ''signin_2fa_required'' (u_id u)] s1))"

definition signin :: "auth_env \<Rightarrow> string \<Rightarrow> string \<Rightarrow> string \<Rightarrow> string option \<Rightarrow> bool \<Rightarrow> auth_state \<Rightarrow> (auth_error + signin_result) \<times> auth_state" where
  "signin e identifier passcode ip captcha refresh st =
     (let status = getStatus e identifier ip st; u = resolveUserByIdentifier identifier st in
      if bs_locked status then (Inl TooManyAttempts, st)
      else if bs_captcha status \<and> \<not> truthy captcha then (Inl CaptchaRequired, st)
      else if truthy captcha \<and> \<not> ae_captcha e (the captcha) ip then (Inl CaptchaRequired, st)
      else if locked_out e u then (Inl TooManyAttempts, st)
      else if \<not> truthy (au_passcode u) then (Inl InvalidCredentials, st)
      else
        let st1 = au_log [PasscodeChecked (u_id u)] st in
        if \<not> ae_compare e passcode (the (au_passcode u))
        then with_user (u_id u) (fail_attempt e (au_failed u)) st1 (\<lambda>s. (Inl InvalidCredentials, s))
        else with_user (u_id u) clear_attempts st1 (\<lambda>s.
          if truthy (au_twofa u) then signin_challenge e u (the (au_twofa u)) s
          else bind_s (session e u (no_options\<lparr>ko_type := Some UserKey\<rparr>) ''signin_success'' refresh s) (\<lambda>r s'. (Inr (SignedIn r), s'))))"

section \<open>Second factor\<close>

definition challenge_claims :: "auth_env \<Rightarrow> string \<Rightarrow> auth_state \<Rightarrow> (auth_error + claims) \<times> auth_state" where
  "challenge_claims e token st =
     (let (r, d) = verifyChallengeToken e True token (as_deny st) in (map_err BadToken r, st\<lparr>as_deny := d\<rparr>))"

definition live_otp :: "auth_env \<Rightarrow> string \<Rightarrow> string \<Rightarrow> auth_state \<Rightarrow> otp_row option" where
  "live_otp e uid chan st =
     find (\<lambda>r. or_user r = uid \<and> or_channel r = chan \<and> de_now e < or_expires r \<and> or_used r = None) (rev (as_otps st))"

definition consume_claims :: "auth_env \<Rightarrow> claims \<Rightarrow> auth_state \<Rightarrow> auth_state" where
  "consume_claims e c st =
     (if truthy (jc_jti c) then st\<lparr>as_deny := revokeJti e (the (jc_jti c)) (claim_exp e c) (as_deny st)\<rparr> else st)"

text \<open>The code against the user's second factor; any other method is let through.\<close>

definition check_second_factor :: "auth_env \<Rightarrow> auth_user \<Rightarrow> string \<Rightarrow> auth_state \<Rightarrow> (auth_error + unit) \<times> auth_state" where
  "check_second_factor e u code st =
     (let meth = the (au_twofa u); st1 = au_log [CodeChecked (u_id u)] st in
      if meth = ''totp'' then
        (if \<not> truthy (au_totp u) then (Inl TotpNotConfigured, st)
         else if \<not> ae_totp e code (the (au_totp u)) then with_user (u_id u) (fail_attempt e (au_failed u)) st1 (\<lambda>s. (Inl BadCode, s))
         else (Inr (), st1))
      else if meth = ''sms'' \<or> meth = ''email'' then
        (case live_otp e (u_id u) meth st of
           None \<Rightarrow> (Inl BadOrExpiredCode, st)
         | Some r \<Rightarrow>
             if \<not> ae_compare e code (or_hash r) then with_user (u_id u) (fail_attempt e (au_failed u)) st1 (\<lambda>s. (Inl BadCode, s))
             else (Inr (), st1))
      else (Inr (), st))"

definition verify2fa :: "auth_env \<Rightarrow> string \<Rightarrow> string \<Rightarrow> string \<Rightarrow> bool \<Rightarrow> auth_state \<Rightarrow> (auth_error + signed_in) \<times> auth_state" where
  "verify2fa e token code ip refresh st =
     bind_s (challenge_claims e token st) (\<lambda>c s0.
       if bs_locked (getStatus e (jc_user c) ip s0) then (Inl TooManyAttempts, s0)
       else (case user_of (jc_user c) s0 of
          None \<Rightarrow> (Inl InvalidCredentials, s0)
        | Some u \<Rightarrow>
            if \<not> truthy (au_twofa u) then (Inl InvalidCredentials, s0)
            else if locked_out e u then (Inl TooManyAttempts, s0)
            else bind_s (check_second_factor e u code s0) (\<lambda>_ s1.
              with_user (u_id u) clear_attempts s1 (\<lambda>s2.
                session e u no_options ''verify_2fa_success'' refresh (consume_claims e c s2)))))"

section \<open>Privileged keys\<close>

definition ADMIN_TIER :: string where "ADMIN_TIER = ''enterprise''"
definition BREAK_GLASS_DEFAULT_TTL_MINUTES :: int where "BREAK_GLASS_DEFAULT_TTL_MINUTES = 15"
definition BREAK_GLASS_MAX_TTL_MINUTES :: int where "BREAK_GLASS_MAX_TTL_MINUTES = 60"

definition ADMIN_SCOPES :: "string list" where
  "ADMIN_SCOPES = [''p2p:admin'', ''sme:admin'', ''gateway:admin'', ''enterprise:admin'']"

definition validateAdminScopes :: "string list \<Rightarrow> auth_error + string list" where
  "validateAdminScopes scopes =
     (if \<not> set scopes \<subseteq> set PermissionScopeEnum then Inl UnknownScope
      else let adminOnly = filter (\<lambda>s. s \<in> set ADMIN_SCOPES) scopes in
        if adminOnly = [] then Inl AdminScopeRequired else Inr adminOnly)"

definition admin_user :: "string \<Rightarrow> auth_state \<Rightarrow> auth_error + auth_user" where
  "admin_user uid st =
     (case user_of uid st of
        Some u \<Rightarrow> if au_tier u = ADMIN_TIER then Inr u else Inl AdminTierRequired
      | None \<Rightarrow> Inl AdminTierRequired)"

definition requestAdminMfaChallenge :: "auth_env \<Rightarrow> string \<Rightarrow> auth_state \<Rightarrow> (auth_error + (string \<times> string)) \<times> auth_state" where
  "requestAdminMfaChallenge e uid st =
     bail (admin_user uid st) st (\<lambda>u.
       if \<not> truthy (au_org u) then (Inl OrganizationRequired, st)
       else if \<not> truthy (au_twofa u) then (Inl TwoFactorRequired, st)
       else
         let meth = the (au_twofa u) in
         bind_s (if meth = ''sms'' \<or> meth = ''email'' then send_otp e u meth True st else (Inr (), st)) (\<lambda>_ s1.
           if \<not> jw_secret e then (Inl (BadToken SecretRequired), s1)
           else (Inr (signChallengeToken e (u_id u) None, meth), au_log [AuthAudit ''admin_mfa_challenge_issued'' (u_id u)] s1)))"

definition use_otp :: "nat \<Rightarrow> int \<Rightarrow> auth_state \<Rightarrow> auth_state" where
  "use_otp i now st = st\<lparr>as_otps := map (\<lambda>r. if or_id r = i then r\<lparr>or_used := Some now\<rparr> else r) (as_otps st)\<rparr>"

definition verifyMfaChallengeForUser :: "auth_env \<Rightarrow> string \<Rightarrow> string \<Rightarrow> string \<Rightarrow> auth_state \<Rightarrow> (auth_error + string) \<times> auth_state" where
  "verifyMfaChallengeForUser e uid token code st =
     bind_s (challenge_claims e token st) (\<lambda>c s0.
       if jc_user c \<noteq> uid then (Inl BadChallenge, s0)
       else (case user_of uid s0 of
          None \<Rightarrow> (Inl TwoFactorRequired, s0)
        | Some u \<Rightarrow>
            if \<not> truthy (au_twofa u) then (Inl TwoFactorRequired, s0)
            else
              let meth = the (au_twofa u); s1 = au_log [CodeChecked uid] s0 in
              if meth = ''totp'' then
                (if \<not> truthy (au_totp u) then (Inl TotpNotConfigured, s0)
                 else if \<not> ae_totp e code (the (au_totp u)) then (Inl BadCode, s1)
                 else (Inr ''totp'', consume_claims e c s1))
              else if meth = ''sms'' \<or> meth = ''email'' then
                (case live_otp e uid meth s0 of
                   None \<Rightarrow> (Inl BadOrExpiredCode, s0)
                 | Some r \<Rightarrow> if \<not> ae_compare e code (or_hash r) then (Inl BadCode, s1)
                     else (Inr meth, consume_claims e c (use_otp (or_id r) (de_now e) s1)))
              else (Inl MethodNotSupported, s0)))"

definition issueAdminKey :: "auth_env \<Rightarrow> string \<Rightarrow> string \<Rightarrow> string \<Rightarrow> string list \<Rightarrow> string \<Rightarrow> auth_state \<Rightarrow> (auth_error + string) \<times> auth_state" where
  "issueAdminKey e uid token code permissions reason st =
     bail (admin_user uid st) st (\<lambda>u.
       if \<not> truthy (au_org u) then (Inl OrganizationRequired, st)
       else if trim reason = [] then (Inl ReasonMissing, st)
       else bail (validateAdminScopes permissions) st (\<lambda>perms.
         bind_s (verifyMfaChallengeForUser e (u_id u) token code st) (\<lambda>_ s1.
         bind_s (new_key e (u_id u) perms (no_options\<lparr>ko_type := Some AdminKey, ko_org := au_org u, ko_createdBy := Some (u_id u)\<rparr>) s1) (\<lambda>key s2.
           (Inr key, au_log [AuthAudit ''admin_key_issued'' (u_id u)] s2)))))"

definition issueBreakGlassKey ::
  "auth_env \<Rightarrow> string \<Rightarrow> string \<Rightarrow> string \<Rightarrow> string list \<Rightarrow> string \<Rightarrow> int option \<Rightarrow> auth_state \<Rightarrow> (auth_error + (string \<times> int)) \<times> auth_state" where
  "issueBreakGlassKey e uid token code permissions reason ttl st =
     bail (admin_user uid st) st (\<lambda>u.
       if \<not> truthy (au_org u) then (Inl OrganizationRequired, st)
       else if trim reason = [] then (Inl ReasonMissing, st)
       else
         let ttlMinutes = (case ttl of Some t \<Rightarrow> t | None \<Rightarrow> BREAK_GLASS_DEFAULT_TTL_MINUTES) in
         if ttlMinutes < 1 \<or> BREAK_GLASS_MAX_TTL_MINUTES < ttlMinutes then (Inl TtlOutOfRange, st)
         else bail (if permissions \<noteq> [] then validateAdminScopes permissions else Inr ADMIN_SCOPES) st (\<lambda>perms.
           bind_s (verifyMfaChallengeForUser e (u_id u) token code st) (\<lambda>_ s1.
             let expiresAt = de_now e + ttlMinutes * 60 * 1000 in
             bind_s (new_key e (u_id u) perms (\<lparr>ko_org = au_org u, ko_type = Some BreakGlassKey, ko_expires = Some expiresAt,
                 ko_reason = Some (trim reason), ko_emergency = Some expiresAt, ko_createdBy = Some (u_id u), ko_rate = None\<rparr>) s1) (\<lambda>key s2.
               (Inr (key, expiresAt), au_log [AuthAudit ''break_glass_key_issued'' (u_id u)] s2)))))"

definition privileged :: "string \<Rightarrow> api_key_row \<Rightarrow> bool" where
  "privileged uid k \<longleftrightarrow> ak_user k = Some uid \<and> ak_type k \<in> set ADMIN_KEY_TYPES"

definition listPrivilegedKeys :: "string \<Rightarrow> auth_state \<Rightarrow> auth_error + api_key_row list" where
  "listPrivilegedKeys uid st = bindR (admin_user uid st) (\<lambda>_. Inr (rev (filter (privileged uid) (as_keys st))))"

definition revokePrivilegedKey :: "auth_env \<Rightarrow> string \<Rightarrow> nat \<Rightarrow> string \<Rightarrow> auth_state \<Rightarrow> (auth_error + unit) \<times> auth_state" where
  "revokePrivilegedKey e uid kid reason st =
     bail (admin_user uid st) st (\<lambda>u.
       if trim reason = [] then (Inl ReasonMissing, st)
       else (case find (\<lambda>k. ak_id k = kid \<and> privileged uid k \<and> ak_revoked k = None) (as_keys st) of
          None \<Rightarrow> (Inl PrivilegedKeyNotFound, st)
        | Some k \<Rightarrow> (Inr (), au_log [AuthAudit ''privileged_key_revoked'' uid] (st\<lparr>as_keys := revoke_key kid (de_now e) (as_keys st)\<rparr>))))"

section \<open>Effects of the steps\<close>

lemma bind_s_simps [simp]: "bind_s (Inl err, s) k = (Inl err, s)" "bind_s (Inr a, s) k = k a s"
  by (simp_all add: bind_s_def)

lemma bind_s_Inr: "bind_s r k = (Inr b, s') \<longleftrightarrow> (\<exists>a s. r = (Inr a, s) \<and> k a s = (Inr b, s'))"
  by (cases r; cases "fst r") auto

lemma au_log_simps [simp]:
  "as_users (au_log evs st) = as_users st" "as_keys (au_log evs st) = as_keys st" "as_otps (au_log evs st) = as_otps st"
  "as_refresh (au_log evs st) = as_refresh st" "as_deny (au_log evs st) = as_deny st" "as_brute (au_log evs st) = as_brute st"
  "as_log (au_log evs st) = as_log st @ evs"
  by (simp_all add: au_log_def)

lemma user_of_log [simp]: "user_of i (au_log evs st) = user_of i st"
  by (simp add: user_of_def)

definition ids_unique :: "auth_state \<Rightarrow> bool" where
  "ids_unique st \<longleftrightarrow> distinct (map u_id (as_users st))"

definition keeps_id :: "(auth_user \<Rightarrow> auth_user) \<Rightarrow> bool" where
  "keeps_id f \<longleftrightarrow> (\<forall>u. u_id (f u) = u_id u)"

lemma keeps_id_attempts [simp]: "keeps_id (fail_attempt e n)" "keeps_id clear_attempts"
  by (simp_all add: keeps_id_def fail_attempt_def clear_attempts_def)

lemma find_map_id:
  "keeps_id f \<Longrightarrow> find (\<lambda>u. u_id u = j) (map (\<lambda>u. if u_id u = i then f u else u) us)
     = map_option (\<lambda>u. if u_id u = i then f u else u) (find (\<lambda>u. u_id u = j) us)"
  by (induction us) (auto simp: keeps_id_def)

lemma update_user_Some:
  assumes "update_user i f st = Some st'" and "keeps_id f"
  shows "user_of j st' = map_option (\<lambda>u. if u_id u = i then f u else u) (user_of j st)"
    and "ids_unique st' = ids_unique st" and "as_log st' = as_log st" and "as_keys st' = as_keys st" and "as_otps st' = as_otps st"
    and "as_refresh st' = as_refresh st" and "as_deny st' = as_deny st" and "as_brute st' = as_brute st"
proof -
  from assms(1) have st': "st' = st\<lparr>as_users := map (\<lambda>u. if u_id u = i then f u else u) (as_users st)\<rparr>"
    by (auto simp: update_user_def split: if_splits)
  show "user_of j st' = map_option (\<lambda>u. if u_id u = i then f u else u) (user_of j st)"
    using assms(2) by (simp add: st' user_of_def find_auth_user_def find_map_id)
  have "map u_id (as_users st') = map u_id (as_users st)" using assms(2) by (simp add: st' keeps_id_def)
  then show "ids_unique st' = ids_unique st" by (simp add: ids_unique_def)
qed (use assms(1) in \<open>auto simp: update_user_def split: if_splits\<close>)

lemma update_user_known: "user_of i st = Some u \<Longrightarrow> \<exists>st'. update_user i f st = Some st'"
  by (auto simp: update_user_def user_of_def find_auth_user_def find_Some_iff image_iff)

lemma user_of_id: "user_of i st = Some u \<Longrightarrow> u_id u = i"
  by (auto simp: user_of_def find_auth_user_def find_Some_iff)

lemma user_of_member: "ids_unique st \<Longrightarrow> u \<in> set (as_users st) \<Longrightarrow> user_of (u_id u) st = Some u"
proof -
  assume d: "ids_unique st" and u: "u \<in> set (as_users st)"
  then obtain v where v: "user_of (u_id u) st = Some v"
    by (cases "user_of (u_id u) st") (auto simp: user_of_def find_auth_user_def find_None_iff)
  then have "v \<in> set (as_users st)" "u_id v = u_id u"
    by (auto simp: user_of_def find_auth_user_def find_Some_iff)
  with d u v show ?thesis by (metis distinct_map ids_unique_def inj_on_eq_iff)
qed

lemma resolve_cases:
  "resolveUserByIdentifier identifier st = dummy_user \<or> resolveUserByIdentifier identifier st \<in> set (as_users st)"
  by (auto simp: resolveUserByIdentifier_def find_Some_iff split: prod.split option.split)

section \<open>Sign-in\<close>

definition passcode_guesses :: "string \<Rightarrow> auth_state \<Rightarrow> nat" where
  "passcode_guesses uid st = length (filter (\<lambda>ev. ev = PasscodeChecked uid) (as_log st))"

record signin_request =
  sr_env :: auth_env
  sr_identifier :: string
  sr_passcode :: string
  sr_ip :: string
  sr_captcha :: "string option"
  sr_refresh :: bool

definition run_signin :: "signin_request \<Rightarrow> auth_state \<Rightarrow> auth_state" where
  "run_signin r st = snd (signin (sr_env r) (sr_identifier r) (sr_passcode r) (sr_ip r) (sr_captcha r) (sr_refresh r) st)"

text \<open>What a request does to an account when its passcode is not the account's.\<close>

lemma log_keeps: "ids_unique (au_log evs st) = ids_unique st"
  by (simp add: ids_unique_def)

lemma other_writes:
  "snd (new_key e uid perms opt st) = st\<lparr>as_keys := snd (generateApiKey (ae_key e) (Some uid) perms opt (as_keys st))\<rparr>"
  "as_users (snd (add_refresh e uid st)) = as_users st" "as_log (snd (add_refresh e uid st)) = as_log st"
  by (auto simp: new_key_def add_refresh_def split: prod.split sum.split)

lemma session_keeps:
  "as_users (snd (session e u opt act refresh st)) = as_users st"
  "filter (\<lambda>ev. ev = PasscodeChecked uid) (as_log (snd (session e u opt act refresh st))) = filter (\<lambda>ev. ev = PasscodeChecked uid) (as_log st)"
  by (auto simp: session_def bind_s_def new_key_def issueRefreshToken_def add_refresh_def Let_def split: prod.split sum.split)

lemma signin_challenge_keeps:
  "as_users (snd (signin_challenge e u meth st)) = as_users st"
  "filter (\<lambda>ev. ev = PasscodeChecked uid) (as_log (snd (signin_challenge e u meth st))) = filter (\<lambda>ev. ev = PasscodeChecked uid) (as_log st)"
  by (auto simp: signin_challenge_def bind_s_def send_otp_def Let_def)

text \<open>A sign-in either is refused before the comparison, or compares one passcode and writes the account's counters.\<close>

lemma signin_cases:
  assumes "ids_unique st"
  shows "snd (signin e ident pass ip cap rf st) = st
    \<or> (let u = resolveUserByIdentifier ident st; st1 = au_log [PasscodeChecked (u_id u)] st in
         \<not> locked_out e u \<and> truthy (au_passcode u) \<and>
         (user_of (u_id u) st = None \<and> snd (signin e ident pass ip cap rf st) = st1
          \<or> (\<exists>f st2. update_user (u_id u) f st1 = Some st2
               \<and> f = (if ae_compare e pass (the (au_passcode u)) then clear_attempts else fail_attempt e (au_failed u))
               \<and> as_users (snd (signin e ident pass ip cap rf st)) = as_users st2
               \<and> (\<forall>i. passcode_guesses i (snd (signin e ident pass ip cap rf st)) = passcode_guesses i st2))))"
proof (cases "let status = getStatus e ident ip st; u = resolveUserByIdentifier ident st in
     bs_locked status \<or> bs_captcha status \<and> \<not> truthy cap \<or> truthy cap \<and> \<not> ae_captcha e (the cap) ip \<or> locked_out e u \<or> \<not> truthy (au_passcode u)")
  case True
  then show ?thesis by (auto simp: signin_def Let_def)
next
  case False
  let ?u = "resolveUserByIdentifier ident st" and ?st1 = "au_log [PasscodeChecked (u_id (resolveUserByIdentifier ident st))] st"
  let ?f = "if ae_compare e pass (the (au_passcode ?u)) then clear_attempts else fail_attempt e (au_failed ?u)"
  let ?r = "signin e ident pass ip cap rf st"
  show ?thesis
  proof (cases "update_user (u_id ?u) ?f ?st1")
    case None
    then have "user_of (u_id ?u) st = None"
      by (auto simp: update_user_def user_of_def find_auth_user_def find_None_iff image_iff split: if_splits)
    moreover have "snd ?r = ?st1" using None False by (auto simp: signin_def Let_def with_user_def)
    ultimately show ?thesis using False by (auto simp: Let_def)
  next
    case (Some st2)
    have "as_users (snd ?r) = as_users st2 \<and> (\<forall>i. passcode_guesses i (snd ?r) = passcode_guesses i st2)"
      using Some False signin_challenge_keeps [where e = e and u = ?u and meth = "the (au_twofa ?u)" and st = st2]
        session_keeps [where e = e and u = ?u and opt = "no_options\<lparr>ko_type := Some UserKey\<rparr>" and act = "''signin_success''" and refresh = rf and st = st2]
      by (cases "session e ?u (no_options\<lparr>ko_type := Some UserKey\<rparr>) ''signin_success'' rf st2")
        (auto simp: signin_def Let_def with_user_def passcode_guesses_def bind_s_def split: sum.split)
    then show ?thesis using Some False by (auto simp: Let_def)
  qed
qed

lemma guesses_simps:
  "passcode_guesses i (au_log [PasscodeChecked j] st) = passcode_guesses i st + (if j = i then 1 else 0)"
  by (auto simp: passcode_guesses_def)

lemma user_of_cong: "as_users st' = as_users st \<Longrightarrow> user_of i st' = user_of i st"
  by (simp add: user_of_def)

lemma signin_step:
  assumes "ids_unique st" and "user_of uid st = Some u" and "uid \<noteq> ''dummy-id''" and "au_passcode u = Some h"
    and "\<not> ae_compare (sr_env r) (sr_passcode r) h"
  shows "ids_unique (run_signin r st)
    \<and> (user_of uid (run_signin r st) = Some u \<and> passcode_guesses uid (run_signin r st) = passcode_guesses uid st
       \<or> \<not> locked_out (sr_env r) u \<and> user_of uid (run_signin r st) = Some (fail_attempt (sr_env r) (au_failed u) u)
         \<and> passcode_guesses uid (run_signin r st) = passcode_guesses uid st + 1)"
proof -
  let ?v = "resolveUserByIdentifier (sr_identifier r) st"
  let ?st1 = "au_log [PasscodeChecked (u_id ?v)] st"
  have v: "u_id ?v = uid \<Longrightarrow> ?v = u"
    using resolve_cases [of "sr_identifier r" st] user_of_member [OF assms(1)] assms(2,3) by (auto simp: dummy_user_def)
  note sc = signin_cases [OF assms(1), of "sr_env r" "sr_identifier r" "sr_passcode r" "sr_ip r" "sr_captcha r" "sr_refresh r",
      unfolded Let_def, folded run_signin_def]
  show ?thesis
    using sc
  proof (elim disjE exE conjE, goal_cases)
    case same: 1
    then show ?thesis using assms by simp
  next
    case missing: 2
    then have "u_id ?v \<noteq> uid" using assms(2) by auto
    with missing show ?thesis using assms by (simp add: log_keeps guesses_simps)
  next
    case written: (3 f st2)
    have f: "keeps_id f" using written(4) by simp
    note upd = update_user_Some [OF written(3) f]
    have users: "user_of uid (run_signin r st) = map_option (\<lambda>w. if u_id w = u_id ?v then f w else w) (user_of uid st)"
      using upd(1) [of uid] user_of_cong [OF written(5)] by simp
    have ids: "ids_unique (run_signin r st)"
      using upd(2) assms(1) written(5) by (simp add: ids_unique_def)
    have g: "passcode_guesses uid (run_signin r st) = passcode_guesses uid st + (if u_id ?v = uid then 1 else 0)"
      using written(6) upd(3) guesses_simps [of uid "u_id ?v" st] by (simp add: passcode_guesses_def)
    show ?thesis
    proof (cases "u_id ?v = uid")
      case True
      with v have "?v = u" by blast
      then have "f = fail_attempt (sr_env r) (au_failed u)" using written(4) assms(4,5) by simp
      with True \<open>?v = u\<close> users ids g assms(2) written(1) show ?thesis by simp
    qed (use users ids g assms(2) user_of_id [OF assms(2)] in auto)
  qed
qed

text \<open>
  Passcodes cannot be guessed without end. Over any sequence of sign-ins whose passcodes are not the account's,
  whatever identifiers they use, that fit into one lockout period, at most \<open>maxSigninAttempts\<close> of them are
  compared with the account's passcode.
\<close>

theorem signin_guesses_bounded:
  assumes "ids_unique st" and "user_of uid st = Some u" and "uid \<noteq> ''dummy-id''" and "au_passcode u = Some h" and "0 \<le> au_failed u"
    and "\<forall>r \<in> set rs. \<not> ae_compare (sr_env r) (sr_passcode r) h \<and> ae_maxAttempts (sr_env r) = m \<and> ae_lockMs (sr_env r) = lock
           \<and> t0 \<le> de_now (sr_env r) \<and> de_now (sr_env r) < t0 + lock"
    and "1 \<le> m"
  shows "int (passcode_guesses uid (fold run_signin rs st)) \<le> int (passcode_guesses uid st) + m"
proof -
  define g0 where "g0 = passcode_guesses uid st"
  let ?inv = "\<lambda>s. ids_unique s \<and> g0 \<le> passcode_guesses uid s \<and> (\<exists>w. user_of uid s = Some w \<and> au_passcode w = Some h \<and> 0 \<le> au_failed w
      \<and> int (passcode_guesses uid s) \<le> int g0 + m
      \<and> (g0 < passcode_guesses uid s \<longrightarrow> int (passcode_guesses uid s) - int g0 \<le> au_failed w
          \<and> (m \<le> au_failed w \<longrightarrow> (\<exists>t. au_lockout w = Some t \<and> t0 + lock \<le> t))))"
  have step: "?inv (run_signin r s)" if inv: "?inv s" and r: "r \<in> set rs" for r s
  proof -
    from inv obtain w where w: "ids_unique s" "g0 \<le> passcode_guesses uid s" "user_of uid s = Some w" "au_passcode w = Some h" "0 \<le> au_failed w"
        "int (passcode_guesses uid s) \<le> int g0 + m"
        "g0 < passcode_guesses uid s \<Longrightarrow> int (passcode_guesses uid s) - int g0 \<le> au_failed w
          \<and> (m \<le> au_failed w \<longrightarrow> (\<exists>t. au_lockout w = Some t \<and> t0 + lock \<le> t))" by blast
    from r assms(6) have e: "\<not> ae_compare (sr_env r) (sr_passcode r) h" "ae_maxAttempts (sr_env r) = m" "ae_lockMs (sr_env r) = lock"
        "t0 \<le> de_now (sr_env r)" "de_now (sr_env r) < t0 + lock" by blast+
    from signin_step [OF w(1,3) assms(3) w(4) e(1)]
    consider (same) "ids_unique (run_signin r s)" "user_of uid (run_signin r s) = Some w" "passcode_guesses uid (run_signin r s) = passcode_guesses uid s"
      | (fail) "ids_unique (run_signin r s)" "\<not> locked_out (sr_env r) w" "user_of uid (run_signin r s) = Some (fail_attempt (sr_env r) (au_failed w) w)"
        "passcode_guesses uid (run_signin r s) = passcode_guesses uid s + 1" by blast
    then show ?thesis
    proof cases
      case same
      then show ?thesis using w by auto
    next
      case fail
      have "int (passcode_guesses uid s) - int g0 < m \<and> int (passcode_guesses uid s) - int g0 \<le> au_failed w"
      proof (cases "g0 < passcode_guesses uid s")
        case True
        with w(7) fail(2) e(5) have "au_failed w < m" by (force simp: locked_out_def)
        with w(7) [OF True] show ?thesis by linarith
      qed (use w(2,5) assms(7) in linarith)
      then show ?thesis using w fail e by (auto simp: fail_attempt_def)
    qed
  qed
  have "?inv st" using assms(1,2,4,5,7) by (auto simp: g0_def)
  then have "?inv (fold run_signin rs' st)" if "set rs' \<subseteq> set rs" for rs'
    using that
  proof (induction rs' rule: rev_induct)
    case (snoc r rs')
    then show ?case using step [of "fold run_signin rs' st" r] by simp
  qed simp
  from this [OF order_refl] show ?thesis by (auto simp: g0_def)
qed

text \<open>
  Unknown accounts answer differently. To hide whether an account exists, an unknown identifier is compared
  with a dummy hash; but the counters of the dummy account are then updated in the database, where it does not
  exist. The request ends in a database error, whatever the passcode, where a known account answers that
  the credentials are invalid.
\<close>

theorem unknown_identifier_distinguishable:
  assumes "resolveUserByIdentifier ident st = dummy_user" and "user_of ''dummy-id'' st = None"
    and "\<not> bs_locked (getStatus e ident ip st)" and "\<not> bs_captcha (getStatus e ident ip st)"
    and "resolveUserByIdentifier known st = u" and "user_of (u_id u) st = Some u" and "truthy (au_passcode u)" and "\<not> locked_out e u"
    and "\<not> ae_compare e pass (the (au_passcode u))"
    and "\<not> bs_locked (getStatus e known ip st)" and "\<not> bs_captcha (getStatus e known ip st)"
  shows "fst (signin e ident any ip None rf st) = Inl DbThrows \<and> fst (signin e known pass ip None rf st) = Inl InvalidCredentials"
proof
  have d: "au_lockout dummy_user = None" "truthy (au_passcode dummy_user)" "u_id dummy_user = ''dummy-id''"
    by (simp_all add: dummy_user_def truthy_def DUMMY_HASH_def)
  have none: "update_user ''dummy-id'' f (au_log evs st) = None" for f evs
    using assms(2) by (auto simp: update_user_def user_of_def find_auth_user_def find_None_iff)
  show "fst (signin e ident any ip None rf st) = Inl DbThrows"
    using assms(1,3,4) d none by (simp add: signin_def Let_def locked_out_def with_user_def truthy_def)
  obtain st2 where "update_user (u_id u) (fail_attempt e (au_failed u)) (au_log [PasscodeChecked (u_id u)] st) = Some st2"
    using update_user_known [of "u_id u" "au_log [PasscodeChecked (u_id u)] st"] assms(6) by fastforce
  then show "fst (signin e known pass ip None rf st) = Inl InvalidCredentials"
    using assms(5,7-11) by (simp add: signin_def Let_def with_user_def) (simp add: truthy_def)
qed

section \<open>Refresh tokens\<close>

datatype refresh_op = Refresh auth_env string | RevokeRefresh auth_env string | IssueRefresh auth_env string

fun refresh_step :: "refresh_op \<Rightarrow> auth_state \<Rightarrow> bool \<times> auth_state" where
  "refresh_step (Refresh e t) st = (let (r, s) = refreshAccessToken e t st in (is_ok r, s))"
| "refresh_step (RevokeRefresh e t) st = (let (r, s) = revokeRefreshToken e t st in (is_ok r, s))"
| "refresh_step (IssueRefresh e uid) st = (let (r, s) = issueRefreshToken e uid st in (is_ok r, s))"

text \<open>How many refreshes with a token of this hash succeed.\<close>

fun redeems :: "string \<Rightarrow> refresh_op \<Rightarrow> bool" where
  "redeems h (Refresh e t) = (ae_sha e t = h)"
| "redeems h _ = False"

definition refresh_inv :: "auth_state \<Rightarrow> bool" where
  "refresh_inv st \<longleftrightarrow> distinct (map rf_hash (as_refresh st))"

text \<open>The token of this hash exists and is revoked.\<close>

definition token_spent :: "string \<Rightarrow> auth_state \<Rightarrow> bool" where
  "token_spent h st \<longleftrightarrow> (\<exists>r \<in> set (as_refresh st). rf_hash r = h) \<and> (\<forall>r \<in> set (as_refresh st). rf_hash r = h \<longrightarrow> rf_revoked r \<noteq> None)"

lemma revoke_row_simps [simp]:
  "rf_hash (revoke_row fam now repl r) = rf_hash r"
  "rf_revoked (revoke_row fam now repl r) = None \<longleftrightarrow> rf_revoked r = None \<and> rf_family r \<noteq> fam"
  by (auto simp: revoke_row_def)

lemma revoke_family_hashes [simp]: "map rf_hash (revoke_family fam now repl rows) = map rf_hash rows"
  by (simp add: revoke_family_def comp_def)

lemma revoke_family_set: "set (revoke_family fam now repl rows) = revoke_row fam now repl ` set rows"
  by (simp add: revoke_family_def)

lemma new_key_refresh [simp]: "as_refresh (snd (new_key e uid perms opt st)) = as_refresh st"
  by (simp add: other_writes)

lemma add_refresh_cases:
  "(add_refresh e uid st = (Inl DbThrows, st) \<and> ae_sha e (ae_token e) \<in> rf_hash ` set (as_refresh st))
   \<or> (\<exists>row. fst (add_refresh e uid st) = Inr () \<and> snd (add_refresh e uid st) = st\<lparr>as_refresh := as_refresh st @ [row]\<rparr>
        \<and> row = \<lparr>rf_id = length (as_refresh st), rf_user = uid, rf_family = ae_family e, rf_hash = ae_sha e (ae_token e),
             rf_expires = refresh_expiry e, rf_revoked = None, rf_replaced = None\<rparr>
        \<and> ae_sha e (ae_token e) \<notin> rf_hash ` set (as_refresh st))"
  by (auto simp: add_refresh_def)

text \<open>Every operation revokes some rows and adds at most one, with a new hash.\<close>

lemma refresh_rows:
  assumes "snd (refresh_step x st) = st'"
  shows "\<exists>fam now repl rows. (as_refresh st' = rows \<or> (\<exists>row. as_refresh st' = rows @ [row] \<and> rf_hash row \<notin> rf_hash ` set rows))
     \<and> (rows = as_refresh st \<or> rows = revoke_family fam now repl (as_refresh st))"
proof (cases x)
  case (Refresh e t)
  show ?thesis
  proof (cases "find (\<lambda>r. rf_hash r = ae_sha e t \<and> rf_revoked r = None \<and> de_now e < rf_expires r) (as_refresh st)")
    case None
    then show ?thesis using assms Refresh by (auto simp: refreshAccessToken_def)
  next
    case (Some r)
    let ?rows = "revoke_family (rf_family r) (de_now e) (Some (ae_sha e t)) (as_refresh st)"
    let ?st1 = "snd (new_key e (rf_user r) [] (no_options\<lparr>ko_type := Some UserKey\<rparr>) (st\<lparr>as_refresh := ?rows\<rparr>))"
    have st1: "as_refresh ?st1 = ?rows" by simp
    have "as_refresh st' = as_refresh ?st1 \<or> as_refresh st' = as_refresh (snd (add_refresh e (rf_user r) ?st1))"
      using assms Refresh Some
      by (cases "new_key e (rf_user r) [] (no_options\<lparr>ko_type := Some UserKey\<rparr>) (st\<lparr>as_refresh := ?rows\<rparr>)";
          cases "add_refresh e (rf_user r) ?st1")
        (auto simp: refreshAccessToken_def bind_s_def split: sum.splits)
    with st1 have "as_refresh st' = ?rows \<or> (\<exists>row. as_refresh st' = ?rows @ [row] \<and> rf_hash row \<notin> rf_hash ` set ?rows)"
      using add_refresh_cases [of e "rf_user r" ?st1] by auto
    then show ?thesis by blast
  qed
next
  case (RevokeRefresh e t)
  then have "as_refresh st' = as_refresh st \<or> (\<exists>fam now repl. as_refresh st' = revoke_family fam now repl (as_refresh st))"
  proof (cases "find (\<lambda>r. rf_hash r = ae_sha e t \<and> rf_revoked r = None) (as_refresh st)")
    case (Some r)
    then have "as_refresh st' = revoke_family (rf_family r) (de_now e) None (as_refresh st)"
      using assms RevokeRefresh by (auto simp: revokeRefreshToken_def)
    then show ?thesis by blast
  qed (use assms RevokeRefresh in \<open>auto simp: revokeRefreshToken_def\<close>)
  then show ?thesis by blast
next
  case (IssueRefresh e uid)
  have "as_refresh st' = as_refresh (snd (add_refresh e uid st))"
    using assms IssueRefresh by (cases "add_refresh e uid st") (auto simp: issueRefreshToken_def bind_s_def split: sum.splits)
  then have "as_refresh st' = as_refresh st \<or> (\<exists>row. as_refresh st' = as_refresh st @ [row] \<and> rf_hash row \<notin> rf_hash ` set (as_refresh st))"
    using add_refresh_cases [of e uid st] by auto
  then show ?thesis by blast
qed

lemma refresh_step_inv: "refresh_inv st \<Longrightarrow> refresh_inv (snd (refresh_step x st))"
proof -
  assume inv: "refresh_inv st"
  from refresh_rows [OF refl, of x st] obtain fam now repl rows where r:
    "as_refresh (snd (refresh_step x st)) = rows \<or> (\<exists>row. as_refresh (snd (refresh_step x st)) = rows @ [row] \<and> rf_hash row \<notin> rf_hash ` set rows)"
    "rows = as_refresh st \<or> rows = revoke_family fam now repl (as_refresh st)" by blast
  have "distinct (map rf_hash rows)" using r(2) inv by (auto simp: refresh_inv_def)
  with r(1) show ?thesis by (auto simp: refresh_inv_def)
qed

lemma token_spent_step: "token_spent h st \<Longrightarrow> token_spent h (snd (refresh_step x st))"
proof -
  assume s: "token_spent h st"
  from refresh_rows [OF refl, of x st] obtain fam now repl rows where r:
    "as_refresh (snd (refresh_step x st)) = rows \<or> (\<exists>row. as_refresh (snd (refresh_step x st)) = rows @ [row] \<and> rf_hash row \<notin> rf_hash ` set rows)"
    "rows = as_refresh st \<or> rows = revoke_family fam now repl (as_refresh st)" by blast
  have rows: "(\<exists>q \<in> set rows. rf_hash q = h) \<and> (\<forall>q \<in> set rows. rf_hash q = h \<longrightarrow> rf_revoked q \<noteq> None)"
  proof
    show "\<exists>q \<in> set rows. rf_hash q = h" using r(2) s by (auto simp: token_spent_def revoke_family_set)
    have "rf_revoked q \<noteq> None" if "q \<in> set rows" "rf_hash q = h" for q
    proof -
      from r(2) that(1) obtain p where "p \<in> set (as_refresh st)" "q = p \<or> q = revoke_row fam now repl p"
        by (auto simp: revoke_family_set)
      moreover from this that(2) s have "rf_revoked p \<noteq> None" by (auto simp: token_spent_def)
      ultimately show ?thesis by (metis revoke_row_simps(2))
    qed
    then show "\<forall>q \<in> set rows. rf_hash q = h \<longrightarrow> rf_revoked q \<noteq> None" by blast
  qed
  then have "h \<in> rf_hash ` set rows" by blast
  with r(1) rows show ?thesis unfolding token_spent_def by auto
qed

lemma spent_not_redeemed: "token_spent h st \<Longrightarrow> redeems h x \<Longrightarrow> \<not> fst (refresh_step x st)"
proof (cases x)
  case (Refresh e t)
  assume "token_spent h st" "redeems h x"
  then have "find (\<lambda>r. rf_hash r = ae_sha e t \<and> rf_revoked r = None \<and> de_now e < rf_expires r) (as_refresh st) = None"
    using Refresh by (auto simp: token_spent_def find_None_iff)
  then show ?thesis using Refresh by (simp add: refreshAccessToken_def)
qed simp_all

lemma redeemed_spends:
  assumes "redeems h x" and "fst (refresh_step x st)" and "refresh_inv st"
  shows "token_spent h (snd (refresh_step x st))"
proof -
  from assms(1) obtain e t where x: "x = Refresh e t" "ae_sha e t = h" by (cases x) auto
  with assms(2) obtain r where f: "find (\<lambda>r. rf_hash r = h \<and> rf_revoked r = None \<and> de_now e < rf_expires r) (as_refresh st) = Some r"
    by (cases "find (\<lambda>r. rf_hash r = h \<and> rf_revoked r = None \<and> de_now e < rf_expires r) (as_refresh st)") (auto simp: refreshAccessToken_def)
  then have r: "r \<in> set (as_refresh st)" "rf_hash r = h" "rf_revoked r = None" by (auto simp: find_Some_iff)
  let ?rows = "revoke_family (rf_family r) (de_now e) (Some h) (as_refresh st)"
  let ?st1 = "snd (new_key e (rf_user r) [] (no_options\<lparr>ko_type := Some UserKey\<rparr>) (st\<lparr>as_refresh := ?rows\<rparr>))"
  have "as_refresh (snd (refresh_step x st)) = as_refresh (snd (add_refresh e (rf_user r) ?st1))"
    using assms(2) x f
    by (cases "new_key e (rf_user r) [] (no_options\<lparr>ko_type := Some UserKey\<rparr>) (st\<lparr>as_refresh := ?rows\<rparr>)";
        cases "add_refresh e (rf_user r) ?st1")
      (auto simp: refreshAccessToken_def bind_s_def split: sum.splits)
  moreover have "as_refresh ?st1 = ?rows" by simp
  ultimately have rows: "as_refresh (snd (refresh_step x st)) = ?rows
      \<or> (\<exists>row. as_refresh (snd (refresh_step x st)) = ?rows @ [row] \<and> rf_hash row \<notin> rf_hash ` set ?rows)"
    using add_refresh_cases [of e "rf_user r" ?st1] by auto
  have same: "q = r" if "q \<in> set (as_refresh st)" "rf_hash q = h" for q
    using assms(3) that r(1,2) by (metis distinct_map inj_on_eq_iff refresh_inv_def)
  have one: "(\<exists>q \<in> set ?rows. rf_hash q = h) \<and> (\<forall>q \<in> set ?rows. rf_hash q = h \<longrightarrow> rf_revoked q \<noteq> None)"
  proof
    show "\<exists>q \<in> set ?rows. rf_hash q = h" using r(1,2) by (auto simp: revoke_family_set)
    show "\<forall>q \<in> set ?rows. rf_hash q = h \<longrightarrow> rf_revoked q \<noteq> None"
    proof (intro ballI impI)
      fix q assume "q \<in> set ?rows" "rf_hash q = h"
      then obtain p where p: "p \<in> set (as_refresh st)" "q = revoke_row (rf_family r) (de_now e) (Some h) p"
        unfolding revoke_family_set by blast
      with \<open>rf_hash q = h\<close> have "rf_hash p = h" by simp
      with p(1) have "p = r" using same by blast
      with p(2) show "rf_revoked q \<noteq> None" by (simp only: revoke_row_simps) simp
    qed
  qed
  then have "h \<in> rf_hash ` set ?rows" by blast
  with rows one show ?thesis unfolding token_spent_def by auto
qed

interpretation refresh: single_use refresh_step "redeems h" "\<lambda>_. True" refresh_inv "token_spent h" for h
  by unfold_locales (auto intro: refresh_step_inv token_spent_step redeemed_spends dest: spent_not_redeemed)

text \<open>
  C15. A refresh token is redeemed at most once. Over any sequence of refreshes, revocations and issues, by anyone,
  at most one refresh with a token of a given hash hands out a key; after that the token is refused for good.
\<close>

theorem refresh_token_single_use:
  assumes "refresh_inv st"
  shows "redemptions refresh_step (redeems h) xs st \<le> 1"
  by (rule refresh.redeemed_once [OF _ assms]) (simp add: list_all_iff)

text \<open>
  Rotation does not detect theft. When a thief redeems a stolen token first, the owner's attempt with the same
  token is refused but changes nothing: the thief's new token, which is in a family of its own, still
  works afterwards, although the reuse is the sign of theft the families are meant to catch. And the API
  keys handed out before stay as they were: none is retired.
\<close>

theorem reuse_revokes_nothing:
  assumes "refresh_inv st" and "refreshAccessToken e token st = (Inr (key, token', uid), st1)"
    and "ae_sha owner token = ae_sha e token" and "ae_sha thief token' = ae_sha e token'"
    and "de_now thief < de_now e + 30 * 24 * 60 * 60 * 1000"
    and "ae_sha thief (ae_token thief) \<notin> rf_hash ` set (as_refresh st1)"
    and "is_ok (fst (generateApiKey (ae_key thief) (Some uid) [] (no_options\<lparr>ko_type := Some UserKey\<rparr>) (as_keys st1)))"
  shows "refreshAccessToken owner token st1 = (Inl BadRefreshToken, st1)
     \<and> is_ok (fst (refreshAccessToken thief token' st1)) \<and> set (as_keys st) \<subseteq> set (as_keys st1)"
proof -
  have step: "snd (refresh_step (Refresh e token) st) = st1" "fst (refresh_step (Refresh e token) st)" using assms(2) by simp_all
  have "token_spent (ae_sha e token) st1"
    using redeemed_spends [of "ae_sha e token" "Refresh e token" st] step assms(1) by simp
  then have "find (\<lambda>r. rf_hash r = ae_sha owner token \<and> rf_revoked r = None \<and> de_now owner < rf_expires r) (as_refresh st1) = None"
    using assms(3) by (auto simp: token_spent_def find_None_iff)
  then have refused: "refreshAccessToken owner token st1 = (Inl BadRefreshToken, st1)" by (simp add: refreshAccessToken_def)
  from assms(2) obtain r where f: "find (\<lambda>r. rf_hash r = ae_sha e token \<and> rf_revoked r = None \<and> de_now e < rf_expires r) (as_refresh st) = Some r"
    by (auto simp: refreshAccessToken_def split: option.splits)
  let ?rows = "revoke_family (rf_family r) (de_now e) (Some (ae_sha e token)) (as_refresh st)"
  let ?new = "\<lparr>rf_id = length ?rows, rf_user = rf_user r, rf_family = ae_family e, rf_hash = ae_sha e (ae_token e),
      rf_expires = refresh_expiry e, rf_revoked = None, rf_replaced = None\<rparr>"
  from assms(2) f have st1: "as_refresh st1 = ?rows @ [?new]" "token' = ae_token e" "uid = rf_user r"
      "as_keys st1 = snd (generateApiKey (ae_key e) (Some (rf_user r)) [] (no_options\<lparr>ko_type := Some UserKey\<rparr>) (as_keys st))"
      "ae_sha e (ae_token e) \<notin> rf_hash ` set ?rows"
    by (auto simp: refreshAccessToken_def bind_s_Inr new_key_def add_refresh_def split: if_splits prod.splits sum.splits)
  have "find (\<lambda>r. rf_hash r = ae_sha thief token' \<and> rf_revoked r = None \<and> de_now thief < rf_expires r) ?rows = None"
  proof -
    have "rf_hash q \<noteq> ae_sha thief token'" if "q \<in> set ?rows" for q
      using that st1(2,5) assms(4) by (metis image_eqI)
    then show ?thesis by (auto simp: find_None_iff)
  qed
  then have found: "find (\<lambda>r. rf_hash r = ae_sha thief token' \<and> rf_revoked r = None \<and> de_now thief < rf_expires r) (as_refresh st1) = Some ?new"
    using assms(4,5) st1(2) by (simp add: st1(1) find_append refresh_expiry_def REFRESH_TOKEN_EXPIRY_DAYS_def)
  obtain k ks where g: "generateApiKey (ae_key thief) (Some uid) [] (no_options\<lparr>ko_type := Some UserKey\<rparr>) (as_keys st1) = (Inr k, ks)"
    using assms(7) by (cases "generateApiKey (ae_key thief) (Some uid) [] (no_options\<lparr>ko_type := Some UserKey\<rparr>) (as_keys st1)"; cases "fst (generateApiKey (ae_key thief) (Some uid) [] (no_options\<lparr>ko_type := Some UserKey\<rparr>) (as_keys st1))") auto
  have hashes: "rf_hash ` set (revoke_family fam now repl (as_refresh st1)) = rf_hash ` set (as_refresh st1)" for fam now repl
    using revoke_family_hashes [of fam now repl "as_refresh st1"] by (metis set_map)
  have "is_ok (fst (refreshAccessToken thief token' st1))"
    using found g st1(3) assms(6) by (simp add: refreshAccessToken_def new_key_def add_refresh_def hashes)
  moreover have "set (as_keys st) \<subseteq> set (as_keys st1)" using st1(4) by (auto simp: generateApiKey_def)
  ultimately show ?thesis using refused by blast
qed

section \<open>Privileged keys\<close>

lemma challenge_claims_Inr:
  assumes "challenge_claims e token st = (Inr c, st')"
  shows "verifyJwt e token = Some c \<and> jc_aud c = CHALLENGE_AUDIENCE \<and> jc_iss c = CHALLENGE_ISSUER \<and> (\<exists>d. st' = st\<lparr>as_deny := d\<rparr>)"
  using assms
  by (auto simp: challenge_claims_def verifyChallengeToken_def Let_def split: prod.splits if_splits option.splits)

text \<open>The second factor of a user as it was proved: by the authenticator, or by a code that is used up.\<close>

definition factor_proved :: "auth_env \<Rightarrow> string \<Rightarrow> string \<Rightarrow> auth_state \<Rightarrow> auth_state \<Rightarrow> bool" where
  "factor_proved e uid code st st' \<longleftrightarrow> (\<exists>u. user_of uid st = Some u \<and>
     (au_twofa u = Some ''totp'' \<and> truthy (au_totp u) \<and> ae_totp e code (the (au_totp u))
      \<or> (\<exists>r \<in> set (as_otps st). au_twofa u = Some (or_channel r) \<and> or_user r = uid \<and> de_now e < or_expires r \<and> or_used r = None
           \<and> ae_compare e code (or_hash r) \<and> (\<forall>q \<in> set (as_otps st'). or_id q = or_id r \<longrightarrow> or_used q = Some (de_now e)))))"

lemma live_otp_Some: "live_otp e uid chan st = Some r \<Longrightarrow>
    r \<in> set (as_otps st) \<and> or_user r = uid \<and> or_channel r = chan \<and> de_now e < or_expires r \<and> or_used r = None"
  unfolding live_otp_def by (auto simp: find_Some_iff) (metis nth_mem set_rev length_rev)

lemma consume_claims_keeps [simp]:
  "as_otps (consume_claims e c st) = as_otps st" "as_users (consume_claims e c st) = as_users st"
  "as_keys (consume_claims e c st) = as_keys st" "as_brute (consume_claims e c st) = as_brute st" "as_log (consume_claims e c st) = as_log st"
  by (simp_all add: consume_claims_def)

lemma mfa_Inr:
  assumes "verifyMfaChallengeForUser e uid token code st = (Inr m, st')"
  shows "factor_proved e uid code st st' \<and> (\<exists>c. verifyJwt e token = Some c \<and> jc_user c = uid \<and> jc_aud c = CHALLENGE_AUDIENCE)
    \<and> as_keys st' = as_keys st"
proof -
  from assms obtain c s0 where c: "challenge_claims e token st = (Inr c, s0)" and rest: "jc_user c = uid"
    by (auto simp: verifyMfaChallengeForUser_def bind_s_Inr split: if_splits)
  note cl = challenge_claims_Inr [OF c]
  then obtain d where s0: "s0 = st\<lparr>as_deny := d\<rparr>" by blast
  have users: "user_of uid s0 = user_of uid st" by (simp add: s0 user_of_def)
  from assms c rest obtain u where u: "user_of uid s0 = Some u" "truthy (au_twofa u)"
    by (auto simp: verifyMfaChallengeForUser_def split: option.splits if_splits)
  let ?s1 = "au_log [CodeChecked uid] s0"
  from u(2) obtain meth where m: "au_twofa u = Some meth" by (auto simp: truthy_def split: option.splits)
  show ?thesis
  proof (cases "meth = ''totp''")
    case True
    then have "truthy (au_totp u)" "ae_totp e code (the (au_totp u))" "st' = consume_claims e c ?s1"
      using assms c rest u m by (auto simp: verifyMfaChallengeForUser_def Let_def split: if_splits)
    moreover from this have "factor_proved e uid code st st'"
      unfolding factor_proved_def using u(1) users m True by (intro exI [of _ u]) simp
    moreover have "as_keys (consume_claims e c ?s1) = as_keys st" by (simp add: s0)
    ultimately show ?thesis using cl rest by metis
  next
    case False
    then obtain r where r: "live_otp e uid meth s0 = Some r" "ae_compare e code (or_hash r)"
        "st' = consume_claims e c (use_otp (or_id r) (de_now e) ?s1)"
      using assms c rest u m by (auto simp: verifyMfaChallengeForUser_def Let_def split: if_splits option.splits)
    note live = live_otp_Some [OF r(1)]
    have "\<forall>q \<in> set (as_otps st'). or_id q = or_id r \<longrightarrow> or_used q = Some (de_now e)" by (auto simp: r(3) use_otp_def)
    then have "factor_proved e uid code st st'"
      unfolding factor_proved_def using live u(1) users m r(2) by (intro exI [of _ u]) (auto simp: s0)
    moreover have "as_keys st' = as_keys st" by (simp add: r(3) use_otp_def s0)
    ultimately show ?thesis using cl rest by blast
  qed
qed

lemma admin_scopes_Inr: "validateAdminScopes ps = Inr qs \<Longrightarrow> qs \<noteq> [] \<and> set qs \<subseteq> set ADMIN_SCOPES \<inter> set ps"
  by (auto simp: validateAdminScopes_def Let_def split: if_splits)

lemma new_key_Inr:
  "new_key e uid perms opt st = (Inr k, st') \<Longrightarrow> \<exists>row. as_keys st' = as_keys st @ [row] \<and> ak_user row = Some uid
     \<and> ak_perms row = PermsArray (map JString perms) \<and> ak_emergency row = ko_emergency opt \<and> ak_expires row = ko_expires opt
     \<and> ak_type row = (case ko_type opt of Some t \<Rightarrow> t | None \<Rightarrow> UserKey)"
  by (auto simp: new_key_def generateApiKey_def split: prod.splits sum.splits if_splits)

lemma admin_user_Inr: "admin_user uid st = Inr u \<Longrightarrow> user_of uid st = Some u \<and> au_tier u = ADMIN_TIER \<and> u_id u = uid"
  by (auto simp: admin_user_def user_of_id split: option.splits if_splits)

text \<open>
  C13. Privileged keys are hard to get. An admin or break-glass key is issued only to an enterprise user of an
  organization who gives a reason, presents a challenge token of their own and proves the second factor, whose
  code is then used up. The key carries admin scopes only, at least one, and a break-glass key ends within the hour.
\<close>

theorem privileged_key_needs_mfa:
  assumes "issueAdminKey e uid token code permissions reason st = (Inr key, st')
     \<or> issueBreakGlassKey e uid token code permissions reason ttl st = (Inr (key, t), st')"
  shows "\<exists>u c row scopes. user_of uid st = Some u \<and> au_tier u = ''enterprise'' \<and> truthy (au_org u) \<and> trim reason \<noteq> []
     \<and> verifyJwt e token = Some c \<and> jc_user c = uid \<and> jc_aud c = ''2fa_challenge''
     \<and> factor_proved e uid code st st'
     \<and> as_keys st' = as_keys st @ [row] \<and> ak_user row = Some uid
     \<and> ak_perms row = PermsArray (map JString scopes) \<and> scopes \<noteq> [] \<and> set scopes \<subseteq> set ADMIN_SCOPES
     \<and> (ak_type row = AdminKey \<or> ak_type row = BreakGlassKey \<and> (\<exists>x. ak_emergency row = Some x \<and> ak_expires row = Some x
           \<and> de_now e < x \<and> x \<le> de_now e + 60 * 60 * 1000))"
  using assms
proof
  assume "issueAdminKey e uid token code permissions reason st = (Inr key, st')"
  then obtain u perms m s1 where u: "admin_user uid st = Inr u" "truthy (au_org u)" "trim reason \<noteq> []"
      "validateAdminScopes permissions = Inr perms" "verifyMfaChallengeForUser e (u_id u) token code st = (Inr m, s1)"
      and k: "\<exists>s2. new_key e (u_id u) perms (no_options\<lparr>ko_type := Some AdminKey, ko_org := au_org u, ko_createdBy := Some (u_id u)\<rparr>) s1 = (Inr key, s2)
           \<and> st' = au_log [AuthAudit ''admin_key_issued'' (u_id u)] s2"
    by (auto simp: issueAdminKey_def bail_Inr_iff bind_s_Inr split: if_splits)
  note a = admin_user_Inr [OF u(1)]
  note mf = mfa_Inr [OF u(5)]
  have otps: "as_otps st' = as_otps s1" using k by (auto simp: new_key_def split: prod.splits sum.splits)
  have fp: "factor_proved e uid code st st'" using mf a by (simp add: factor_proved_def otps)
  from k new_key_Inr obtain row where "as_keys st' = as_keys st @ [row] \<and> ak_user row = Some (u_id u) \<and> ak_perms row = PermsArray (map JString perms)
      \<and> ak_type row = AdminKey"
    using mf by fastforce
  then show ?thesis
    using a u(2,3) mf fp admin_scopes_Inr [OF u(4)]
    by (intro exI [of _ u] exI [of _ row] exI [of _ perms])
      (auto simp: ADMIN_TIER_def CHALLENGE_AUDIENCE_def)
next
  assume "issueBreakGlassKey e uid token code permissions reason ttl st = (Inr (key, t), st')"
  then obtain u perms m s1 n where u: "admin_user uid st = Inr u" "truthy (au_org u)" "trim reason \<noteq> []"
      "(if permissions \<noteq> [] then validateAdminScopes permissions else Inr ADMIN_SCOPES) = Inr perms"
      "verifyMfaChallengeForUser e (u_id u) token code st = (Inr m, s1)" "1 \<le> n" "n \<le> 60"
      and k: "\<exists>s2. new_key e (u_id u) perms (\<lparr>ko_org = au_org u, ko_type = Some BreakGlassKey, ko_expires = Some (de_now e + n * 60 * 1000),
                 ko_reason = Some (trim reason), ko_emergency = Some (de_now e + n * 60 * 1000), ko_createdBy = Some (u_id u),
                 ko_rate = None\<rparr>) s1 = (Inr key, s2)
           \<and> st' = au_log [AuthAudit ''break_glass_key_issued'' (u_id u)] s2"
    by (auto simp: issueBreakGlassKey_def bail_Inr_iff bind_s_Inr Let_def BREAK_GLASS_MAX_TTL_MINUTES_def not_less
        split: if_splits option.splits)
  note a = admin_user_Inr [OF u(1)]
  note mf = mfa_Inr [OF u(5)]
  have otps: "as_otps st' = as_otps s1" using k by (auto simp: new_key_def split: prod.splits sum.splits)
  have fp: "factor_proved e uid code st st'" using mf a by (simp add: factor_proved_def otps)
  from k new_key_Inr obtain row where row: "as_keys st' = as_keys st @ [row] \<and> ak_user row = Some (u_id u) \<and> ak_perms row = PermsArray (map JString perms)
      \<and> ak_type row = BreakGlassKey \<and> ak_emergency row = Some (de_now e + n * 60 * 1000) \<and> ak_expires row = Some (de_now e + n * 60 * 1000)"
    using mf by fastforce
  have "perms \<noteq> [] \<and> set perms \<subseteq> set ADMIN_SCOPES"
    using u(4) admin_scopes_Inr [of permissions perms] by (auto simp: ADMIN_SCOPES_def split: if_splits)
  then show ?thesis
    using a u(2,3,6,7) mf fp row
    by (intro exI [of _ u] exI [of _ row] exI [of _ perms])
      (auto simp: ADMIN_TIER_def CHALLENGE_AUDIENCE_def)
qed

section \<open>Codes of the second factor\<close>

lemma second_factor_Inr: "check_second_factor e u code st = (Inr (), st1) \<Longrightarrow> as_otps st1 = as_otps st \<and> as_users st1 = as_users st"
  by (auto simp: check_second_factor_def with_user_def Let_def split: if_splits option.splits)

lemma verify2fa_Inr:
  assumes "verify2fa e token code ip refresh st = (Inr s, st')"
  shows "\<exists>c u st1. challenge_claims e token st = (Inr c, st\<lparr>as_deny := as_deny st1\<rparr>) \<and> user_of (jc_user c) st = Some u \<and> truthy (au_twofa u)
     \<and> check_second_factor e u code (st\<lparr>as_deny := as_deny st1\<rparr>) = (Inr (), st1)
     \<and> (\<exists>st2. update_user (u_id u) clear_attempts st1 = Some st2 \<and> session e u no_options ''verify_2fa_success'' refresh (consume_claims e c st2) = (Inr s, st'))"
proof -
  from assms obtain c s0 where c: "challenge_claims e token st = (Inr c, s0)"
    by (auto simp: verify2fa_def bind_s_Inr)
  then obtain d where s0: "s0 = st\<lparr>as_deny := d\<rparr>" using challenge_claims_Inr by blast
  from assms c obtain u where u: "user_of (jc_user c) s0 = Some u" "truthy (au_twofa u)"
    by (auto simp: verify2fa_def split: option.splits if_splits)
  from assms c u obtain s1 where k: "check_second_factor e u code s0 = (Inr (), s1)"
      "with_user (u_id u) clear_attempts s1 (\<lambda>s2. session e u no_options ''verify_2fa_success'' refresh (consume_claims e c s2)) = (Inr s, st')"
    by (auto simp: verify2fa_def bind_s_Inr split: if_splits)
  from k(2) have "\<exists>st2. update_user (u_id u) clear_attempts s1 = Some st2 \<and> session e u no_options ''verify_2fa_success'' refresh (consume_claims e c st2) = (Inr s, st')"
    by (auto simp: with_user_def split: option.splits)
  moreover have "as_deny s1 = d"
    using k(1) s0 by (auto simp: check_second_factor_def with_user_def Let_def au_log_def split: if_splits option.splits)
  moreover have "user_of (jc_user c) s0 = user_of (jc_user c) st" by (simp add: s0 user_of_def)
  ultimately show ?thesis using c u k(1) s0 by (intro exI [of _ c] exI [of _ u] exI [of _ s1]) simp
qed

lemma session_otps: "session e u opt act refresh st = (r, st') \<Longrightarrow> as_otps st' = as_otps st \<and> as_users st' = as_users st \<and> as_brute st' = as_brute st"
  by (auto simp: session_def bind_s_def new_key_def issueRefreshToken_def add_refresh_def Let_def split: prod.splits sum.splits if_splits)

lemma session_no_refresh:
  "is_ok (fst (generateApiKey (ae_key e) (Some (u_id u)) [] opt (as_keys st))) \<Longrightarrow> is_ok (fst (session e u opt act False st))"
  by (auto simp: session_def bind_s_def new_key_def Let_def is_ok_def split: prod.splits sum.splits)

text \<open>
  A code sent by message works more than once. Signing in with the second factor leaves the code as it was:
  it is not marked as used, as issuing a privileged key would do. Whoever has another challenge token of the
  same user is let in with the same code again, until it expires.
\<close>

theorem message_code_reusable:
  assumes "verify2fa e token code ip refresh st = (Inr s, st')" and "user_of uid st = Some u" and "ids_unique st"
    and "au_twofa u = Some ''sms''" and "si_user s = uid" and "live_otp e uid ''sms'' st = Some r"
    and "ae_compare e' code (or_hash r)" and "de_now e \<le> de_now e'" and "\<forall>q \<in> set (as_otps st). de_now e' < or_expires q"
    and "challenge_claims e' token' st' = (Inr c', st'')" and "jc_user c' = uid"
    and "\<not> bs_locked (getStatus e' uid ip' st')"
    and "is_ok (fst (generateApiKey (ae_key e') (Some uid) [] no_options (as_keys st')))"
  shows "as_otps st' = as_otps st \<and> is_ok (fst (verify2fa e' token' code ip' False st'))"
proof -
  from verify2fa_Inr [OF assms(1)] obtain c v st1 st2 where v: "user_of (jc_user c) st = Some v"
      "check_second_factor e v code (st\<lparr>as_deny := as_deny st1\<rparr>) = (Inr (), st1)" "update_user (u_id v) clear_attempts st1 = Some st2"
      "session e v no_options ''verify_2fa_success'' refresh (consume_claims e c st2) = (Inr s, st')" by blast
  note upd = update_user_Some [OF v(3) keeps_id_attempts(2)]
  have st1: "as_otps st1 = as_otps st" "as_users st1 = as_users st"
    using second_factor_Inr [OF v(2)] by simp_all
  note ses = session_otps [OF v(4)]
  have otps: "as_otps st' = as_otps st" using ses upd st1 by simp
  have "si_user s = u_id v" using v(4)
    by (auto simp: session_def bind_s_Inr Let_def split: if_splits prod.splits)
  then have "u_id v = uid" using assms(5) by simp
  then have id: "jc_user c = uid" "v = u" using v(1) user_of_id assms(2) by force+
  have users': "as_users st' = as_users st2" using ses by simp
  have u': "user_of uid st' = Some (clear_attempts u)"
    using upd(1) [of uid] st1(2) assms(2) user_of_id [OF assms(2)] \<open>u_id v = uid\<close> users' by (simp add: user_of_def)
  obtain d where d: "st'' = st'\<lparr>as_deny := d\<rparr>" using challenge_claims_Inr [OF assms(10)] by blast
  let ?u = "clear_attempts u"
  have f: "au_twofa ?u = Some ''sms''" "u_id ?u = uid" "\<not> locked_out e' ?u"
    using assms(4) user_of_id [OF assms(2)] by (simp_all add: clear_attempts_def locked_out_def)
  have live: "live_otp e' uid ''sms'' st'' = Some r"
  proof -
    have "find (\<lambda>r. or_user r = uid \<and> or_channel r = ''sms'' \<and> de_now e < or_expires r \<and> or_used r = None) (rev (as_otps st))
        = find (\<lambda>r. or_user r = uid \<and> or_channel r = ''sms'' \<and> de_now e' < or_expires r \<and> or_used r = None) (rev (as_otps st))"
      using assms(8,9) by (intro find_cong) force+
    then show ?thesis using assms(6) otps by (simp add: live_otp_def d)
  qed
  have chk: "check_second_factor e' ?u code st'' = (Inr (), au_log [CodeChecked uid] st'')"
    using f live assms(7) by (simp add: check_second_factor_def)
  obtain st3 where st3: "update_user uid clear_attempts (au_log [CodeChecked uid] st'') = Some st3"
    using update_user_known [of uid "au_log [CodeChecked uid] st''" ?u clear_attempts] u' by (auto simp: user_of_def d)
  have "as_keys (consume_claims e' c' st3) = as_keys st'" using update_user_Some(4) [OF st3] by (simp add: d)
  then have ok: "is_ok (fst (session e' ?u no_options ''verify_2fa_success'' False (consume_claims e' c' st3)))"
    using assms(13) f(2) by (intro session_no_refresh) simp
  have "user_of uid st'' = Some ?u" "getStatus e' uid ip' st'' = getStatus e' uid ip' st'"
    using u' by (simp_all add: d user_of_def getStatus_def)
  then have "verify2fa e' token' code ip' False st' = session e' ?u no_options ''verify_2fa_success'' False (consume_claims e' c' st3)"
    using assms(10-12) f chk st3 by (simp add: verify2fa_def truthy_def with_user_def)
  with ok otps show ?thesis by simp
qed

section \<open>Guessing the second factor\<close>

record guess_round =
  gr_signin :: auth_env
  gr_verify :: auth_env
  gr_code :: string

definition play_round :: "string \<Rightarrow> string \<Rightarrow> string \<Rightarrow> guess_round \<Rightarrow> auth_state \<Rightarrow> auth_state" where
  "play_round ident pass ip r st =
     (case signin (gr_signin r) ident pass ip None False st of
        (Inr (Challenge t), s) \<Rightarrow> snd (verify2fa (gr_verify r) t (gr_code r) ip False s)
      | (_, s) \<Rightarrow> s)"

definition code_guesses :: "string \<Rightarrow> auth_state \<Rightarrow> nat" where
  "code_guesses uid st = length (filter (\<lambda>ev. ev = CodeChecked uid) (as_log st))"

definition round_jti :: "string \<Rightarrow> guess_round \<Rightarrow> string" where
  "round_jti uid r = ''chal_'' @ uid @ ''_'' @ int_str (de_now (gr_signin r))"

definition round_claims :: "string \<Rightarrow> guess_round \<Rightarrow> claims" where
  "round_claims uid r = \<lparr>jc_user = uid, jc_challenge = None, jc_aud = CHALLENGE_AUDIENCE, jc_iss = CHALLENGE_ISSUER,
     jc_iat = Some (de_now (gr_signin r) div 1000), jc_exp = Some (de_now (gr_signin r) div 1000 + CHALLENGE_EXPIRY_s),
     jc_jti = Some (round_jti uid r)\<rparr>"

lemma round_claims_simps [simp]:
  "jc_user (round_claims uid r) = uid" "jc_aud (round_claims uid r) = CHALLENGE_AUDIENCE" "jc_iss (round_claims uid r) = CHALLENGE_ISSUER"
  "jc_iat (round_claims uid r) = Some (de_now (gr_signin r) div 1000)"
  "jc_exp (round_claims uid r) = Some (de_now (gr_signin r) div 1000 + CHALLENGE_EXPIRY_s)"
  "jc_jti (round_claims uid r) = Some (round_jti uid r)" "round_jti uid r \<noteq> []"
  by (simp_all add: round_claims_def round_jti_def)

text \<open>
  The right passcode, then a wrong code while the challenge token is valid: the library accepts what was signed.
\<close>

definition round_ok :: "string \<Rightarrow> string \<Rightarrow> string \<Rightarrow> string \<Rightarrow> guess_round \<Rightarrow> bool" where
  "round_ok uid pass h secret r \<longleftrightarrow>
     ae_compare (gr_signin r) pass h \<and> \<not> ae_totp (gr_verify r) (gr_code r) secret
     \<and> jw_secret (gr_signin r) \<and> jw_secret (gr_verify r) \<and> 2 \<le> ae_maxAttempts (gr_verify r)
     \<and> 0 \<le> de_now (gr_signin r) \<and> de_now (gr_signin r) \<le> de_now (gr_verify r) \<and> 0 \<le> jw_tolerance_s (gr_verify r)
     \<and> verifyJwt (gr_verify r) (jw_sign (gr_signin r) (round_claims uid r)) = Some (round_claims uid r)"

definition unused_jti :: "string \<Rightarrow> deny_state \<Rightarrow> bool" where
  "unused_jti j st \<longleftrightarrow> (\<forall>p. j \<notin> fst ` set (ds_local st p)) \<and> j \<notin> fst ` set (ds_redis st)"

lemma unused_jti_iff: "unused_jti j st \<longleftrightarrow> (\<forall>p t. (j, t) \<notin> set (ds_local st p)) \<and> (\<forall>t. (j, t) \<notin> set (ds_redis st))"
  unfolding unused_jti_def by force

lemma consume_unused: "unused_jti j st \<Longrightarrow> fst (consumeJti e j ex st)"
proof -
  assume u: "unused_jti j st"
  then have "\<not> local_has e j (pruneExpired e st)" by (auto simp: unused_jti_iff local_has_def pruneExpired_def)
  moreover have "\<not> redis_has now j (ds_redis st)" for now using u by (auto simp: unused_jti_iff redis_has_def list_ex_iff)
  ultimately show ?thesis by (cases "de_redis e") (simp_all add: consumeJti_def)
qed

lemma consume_keeps_unused: "unused_jti j st \<Longrightarrow> j' \<noteq> j \<Longrightarrow> unused_jti j (snd (consumeJti e j' ex st))"
  by (auto simp: unused_jti_iff consumeJti_def Let_def pruneExpired_def local_put_def redis_claim_def redis_put_def split: redis_mode.split)

lemma int_str_inj: "0 \<le> a \<Longrightarrow> 0 \<le> b \<Longrightarrow> int_str a = int_str b \<Longrightarrow> a = b"
  by (metis digits_val_int_str)

lemma round_jti_inj:
  assumes "0 \<le> de_now (gr_signin r)" and "0 \<le> de_now (gr_signin q)" and "round_jti uid r = round_jti uid q"
  shows "de_now (gr_signin r) = de_now (gr_signin q)"
  using assms int_str_inj by (simp add: round_jti_def)

text \<open>Writing the counters of an account changes neither who it is nor how it is found.\<close>

definition same_account :: "auth_user \<Rightarrow> auth_user \<Rightarrow> bool" where
  "same_account u v \<longleftrightarrow> u_id u = u_id v \<and> username u = username v \<and> phone_e164 u = phone_e164 v \<and> email u = email v
     \<and> au_passcode u = au_passcode v \<and> au_twofa u = au_twofa v \<and> au_totp u = au_totp v"

lemma same_account_attempts [simp]:
  "same_account (clear_attempts u) v = same_account u v" "same_account (fail_attempt e n u) v = same_account u v"
  by (simp_all add: same_account_def clear_attempts_def fail_attempt_def)

lemma find_map_same: "(\<And>u. P (f u) = P u) \<Longrightarrow> find P (map f us) = map_option f (find P us)"
  by (induction us) auto

lemma resolve_update:
  assumes "update_user i f st = Some st'" and "\<And>u. same_account (f u) u" and "resolveUserByIdentifier ident st = u" and "u \<noteq> dummy_user"
  shows "resolveUserByIdentifier ident st' = (if u_id u = i then f u else u)"
proof -
  let ?g = "\<lambda>u. if u_id u = i then f u else u"
  have st': "as_users st' = map ?g (as_users st)" using assms(1) by (auto simp: update_user_def split: if_splits)
  obtain kind v where n: "normalizeIdentifier ident = (kind, v)" by (cases "normalizeIdentifier ident")
  let ?P = "\<lambda>u. case kind of IdUsername \<Rightarrow> username u = Some v | IdPhone \<Rightarrow> phone_e164 u = Some v | IdEmail \<Rightarrow> email u = Some v"
  have "?P (?g u) = ?P u" for u using assms(2) [of u] by (simp add: same_account_def split: ident_kind.split)
  then have "find ?P (map ?g (as_users st)) = map_option ?g (find ?P (as_users st))" by (rule find_map_same)
  then show ?thesis using assms(3,4)
    by (cases "find ?P (as_users st)") (simp_all add: resolveUserByIdentifier_def n st')
qed

text \<open>The account under attack, with at most one failed attempt on record.\<close>

definition attackable :: "string \<Rightarrow> auth_user \<Rightarrow> auth_state \<Rightarrow> bool" where
  "attackable ident u0 st \<longleftrightarrow> ids_unique st \<and> as_brute st = [] \<and>
     (\<exists>u. resolveUserByIdentifier ident st = u \<and> user_of (u_id u0) st = Some u \<and> same_account u u0 \<and> u \<noteq> dummy_user
        \<and> au_lockout u = None)"

lemma round_guesses:
  assumes a: "attackable ident u0 st" and u0: "au_twofa u0 = Some ''totp''" "au_totp u0 = Some secret" "secret \<noteq> []" "au_passcode u0 = Some h" "h \<noteq> []"
    and r: "round_ok (u_id u0) pass h secret r" and j: "unused_jti (round_jti (u_id u0) r) (as_deny st)"
    and no_dummy: "u_id u0 \<noteq> ''dummy-id''"
  shows "attackable ident u0 (play_round ident pass ip r st)
    \<and> code_guesses (u_id u0) (play_round ident pass ip r st) = code_guesses (u_id u0) st + 1
    \<and> as_deny (play_round ident pass ip r st) = snd (consumeJti (gr_verify r) (round_jti (u_id u0) r) (de_now (gr_signin r) div 1000 + CHALLENGE_EXPIRY_s) (as_deny st))"
proof -
  let ?uid = "u_id u0" and ?e = "gr_signin r" and ?e' = "gr_verify r" and ?c = "round_claims (u_id u0) r"
  from a obtain u where u: "ids_unique st" "as_brute st = []" "resolveUserByIdentifier ident st = u" "user_of ?uid st = Some u"
      "same_account u u0" "u \<noteq> dummy_user" "au_lockout u = None"
    unfolding attackable_def by blast
  have id: "u_id u = ?uid" using u(5) by (simp add: same_account_def)
  let ?st1 = "au_log [PasscodeChecked ?uid] st"
  obtain st2 where st2: "update_user ?uid clear_attempts ?st1 = Some st2"
    using update_user_known [of ?uid ?st1 u clear_attempts] u(4) by auto
  note up2 = update_user_Some [OF st2 keeps_id_attempts(2)]
  let ?st3 = "au_log [AuthAudit ''signin_2fa_required'' ?uid] st2"
  have nolock: "getStatus e i ip s = \<lparr>bs_attempts = 0, bs_locked = False, bs_captcha = False\<rparr>" if "as_brute s = []" for e i s
    using that by (simp add: getStatus_def)
  have sign: "signChallengeToken ?e ?uid None = jw_sign ?e ?c"
    by (simp add: signChallengeToken_def round_claims_def round_jti_def truthy_def Let_def)
  have in1: "signin ?e ident pass ip None False st = (Inr (Challenge (jw_sign ?e ?c)), ?st3)"
    using u u0 r st2 nolock [OF u(2)]
    by (simp add: signin_def Let_def locked_out_def truthy_def same_account_def round_ok_def with_user_def signin_challenge_def sign)
  have deny: "as_deny ?st3 = as_deny st" using up2 by simp
  let ?d = "snd (consumeJti ?e' (round_jti ?uid r) (de_now ?e div 1000 + CHALLENGE_EXPIRY_s) (as_deny st))"
  have "de_now ?e div 1000 \<le> de_now ?e' div 1000" using r by (intro zdiv_mono1) (simp_all add: round_ok_def)
  then have v: "verifyChallengeToken ?e' True (jw_sign ?e ?c) (as_deny st) = (Inr ?c, ?d)"
    using r consume_unused [OF j, of ?e' "de_now ?e div 1000 + CHALLENGE_EXPIRY_s"]
    by (simp add: verifyChallengeToken_def round_ok_def truthy_def claim_exp_def split_beta Let_def)
  let ?st4 = "?st3\<lparr>as_deny := ?d\<rparr>"
  have claims: "challenge_claims ?e' (jw_sign ?e ?c) ?st3 = (Inr ?c, ?st4)" using v deny by (simp add: challenge_claims_def)
  let ?u2 = "clear_attempts u"
  have u2: "user_of ?uid ?st4 = Some ?u2" using up2(1) [of ?uid] u(4) id by (simp add: user_of_def)
  let ?st5 = "au_log [CodeChecked ?uid] ?st4"
  obtain st6 where st6: "update_user ?uid (fail_attempt ?e' 0) ?st5 = Some st6"
    using update_user_known [of ?uid ?st5 ?u2 "fail_attempt ?e' 0"] u2 by auto
  note up6 = update_user_Some [OF st6 keeps_id_attempts(1)]
  have two: "au_twofa ?u2 = Some ''totp''" "au_totp ?u2 = Some secret" "u_id ?u2 = ?uid" "au_failed ?u2 = 0" "\<not> locked_out ?e' ?u2"
    using u(5) u0 by (simp_all add: clear_attempts_def same_account_def locked_out_def)
  have chk: "check_second_factor ?e' ?u2 (gr_code r) ?st4 = (Inl BadCode, st6)"
    using two r u0(3) st6 by (simp add: check_second_factor_def truthy_def round_ok_def with_user_def)
  have fin: "play_round ident pass ip r st = st6"
    using in1 claims u2 two chk nolock [of ?st4] up2(8) u(2)
    by (simp add: play_round_def verify2fa_def truthy_def)
  have res2: "resolveUserByIdentifier ident st2 = ?u2"
    using resolve_update [OF st2, of ident u] u(3,6) id
    by (simp add: same_account_def clear_attempts_def resolveUserByIdentifier_def)
  have nd: "?u2 \<noteq> dummy_user" using two(3) no_dummy by (auto simp: dummy_user_def)
  have "resolveUserByIdentifier ident ?st5 = ?u2" using res2 by (simp add: resolveUserByIdentifier_def)
  then have res6: "resolveUserByIdentifier ident st6 = fail_attempt ?e' 0 ?u2"
    using resolve_update [OF st6, of ident ?u2] nd two(3) by (simp add: same_account_def fail_attempt_def)
  have u6: "user_of ?uid st6 = Some (fail_attempt ?e' 0 ?u2)"
    using up6(1) [of ?uid] u2 two(3) by (simp add: user_of_def)
  have "u_id (fail_attempt ?e' 0 ?u2) = ?uid" using two(3) by (simp add: fail_attempt_def)
  then have "fail_attempt ?e' 0 ?u2 \<noteq> dummy_user" using no_dummy by (auto simp: dummy_user_def)
  moreover have "au_lockout (fail_attempt ?e' 0 ?u2) = None" using r by (simp add: fail_attempt_def round_ok_def)
  moreover have "ids_unique st6 \<and> as_brute st6 = []" using up6(2,8) up2(2,8) u(1,2) by (simp add: ids_unique_def)
  moreover have "same_account (fail_attempt ?e' 0 ?u2) u0" using u(5) by simp
  ultimately have att: "attackable ident u0 st6" unfolding attackable_def using res6 u6 by blast
  have "code_guesses ?uid st6 = code_guesses ?uid st + 1" using up6(3) up2(3) by (simp add: code_guesses_def)
  moreover have "as_deny st6 = ?d" using up6(7) by simp
  ultimately show ?thesis using att fin by simp
qed

text \<open>
  C27. The second factor can be guessed without end. A wrong code counts as a failed attempt and burns its challenge
  token, but signing in with the passcode starts a new token and sets the counter back to zero. Someone
  who knows the passcode and signs in before each guess has any number of codes compared, with the account never
  locked: the lockout after five attempts protects the passcode only.
\<close>

theorem second_factor_guesses_unbounded:
  assumes "attackable ident u0 st" and "u_id u0 \<noteq> ''dummy-id''" and "au_twofa u0 = Some ''totp''" and "au_totp u0 = Some secret"
    and "secret \<noteq> []" and "au_passcode u0 = Some h" and "h \<noteq> []"
    and "\<forall>r \<in> set rs. round_ok (u_id u0) pass h secret r \<and> unused_jti (round_jti (u_id u0) r) (as_deny st)"
    and "distinct (map (\<lambda>r. de_now (gr_signin r)) rs)"
  shows "code_guesses (u_id u0) (fold (play_round ident pass ip) rs st) = code_guesses (u_id u0) st + length rs
     \<and> (\<exists>u. user_of (u_id u0) (fold (play_round ident pass ip) rs st) = Some u \<and> au_lockout u = None)"
  using assms
proof (induction rs arbitrary: st)
  case Nil
  then show ?case by (auto simp: attackable_def)
next
  case (Cons r rs)
  let ?st = "play_round ident pass ip r st"
  have r: "round_ok (u_id u0) pass h secret r" "unused_jti (round_jti (u_id u0) r) (as_deny st)" using Cons.prems(8) by simp_all
  note one = round_guesses [OF Cons.prems(1,3-7) r Cons.prems(2), of ip]
  have "unused_jti (round_jti (u_id u0) q) (as_deny ?st)" if q: "q \<in> set rs" for q
  proof -
    have "round_ok (u_id u0) pass h secret q" "unused_jti (round_jti (u_id u0) q) (as_deny st)" using Cons.prems(8) q by simp_all
    moreover have "round_jti (u_id u0) r \<noteq> round_jti (u_id u0) q"
      using round_jti_inj [of r q "u_id u0"] r(1) calculation(1) Cons.prems(9) q by (force simp: round_ok_def)
    ultimately show ?thesis using one consume_keeps_unused by metis
  qed
  then have "code_guesses (u_id u0) (fold (play_round ident pass ip) rs ?st) = code_guesses (u_id u0) ?st + length rs
     \<and> (\<exists>u. user_of (u_id u0) (fold (play_round ident pass ip) rs ?st) = Some u \<and> au_lockout u = None)"
    using one Cons.prems by (intro Cons.IH) auto
  then show ?case using one by simp
qed

section \<open>The properties at concrete inputs\<close>

definition auth_at :: "int \<Rightarrow> claims \<Rightarrow> string \<Rightarrow> auth_env" where
  "auth_at now c token = \<lparr>de_process = 0, de_now = now, de_redis = RedisAnswers, jw_secret = True, jw_typ = (\<lambda>_. Some ''JWT''),
     jw_verify = (\<lambda>_ _. Some c), jw_sign = jc_user, jw_tolerance_s = 30,
     ae_key = sample_key_env\<lparr>ke_lookup := token, ke_secret := token\<rparr>, ae_compare = (\<lambda>p h. h = ''h'' @ p), ae_hash = (\<lambda>p. ''h'' @ p),
     ae_totp = (\<lambda>code s. code = s), ae_code = ''123456'', ae_publish = True, ae_captcha = (\<lambda>_ _. True), ae_maxAttempts = 5,
     ae_lockMs = 900000, ae_bruteMax = 10, ae_bruteMs = 900000, ae_sha = (\<lambda>t. ''s'' @ t), ae_token = token, ae_family = token,
     ae_newUser = ''u9''\<rparr>"

definition ada :: auth_user where
  "ada = dummy_user\<lparr>u_id := ''u1'', username := Some ''ada'', phone_e164 := Some ''+2348000000000'', au_passcode := Some ''hsecret'',
     au_twofa := Some ''totp'', au_totp := Some ''777'', au_tier := ''enterprise'', au_org := Some ''o1''\<rparr>"

definition ada_state :: auth_state where
  "ada_state = \<lparr>as_users = [ada], as_keys = [], as_otps = [], as_refresh = [], as_deny = no_denials, as_brute = [], as_log = []\<rparr>"

lemma ada_simps [simp]:
  "u_id ada = ''u1''" "username ada = Some ''ada''" "au_passcode ada = Some ''hsecret''" "au_twofa ada = Some ''totp''" "au_totp ada = Some ''777''"
  "au_failed ada = 0" "au_lockout ada = None" "au_tier ada = ''enterprise''" "au_org ada = Some ''o1''"
  by (simp_all add: ada_def dummy_user_def)

lemma ada_state_simps [simp]:
  "ids_unique ada_state" "user_of ''u1'' ada_state = Some ada" "user_of ''dummy-id'' ada_state = None"
  "as_brute ada_state = []" "as_deny ada_state = no_denials" "as_keys ada_state = []" "as_log ada_state = []" "as_refresh ada_state = []"
  by (simp_all add: ada_state_def ids_unique_def user_of_def find_auth_user_def)

lemma resolve_ada: "resolveUserByIdentifier ''Ada'' ada_state = ada" "resolveUserByIdentifier ''eve'' ada_state = dummy_user"
proof -
  have "normalizeIdentifier ''Ada'' = (IdUsername, ''ada'')" "normalizeIdentifier ''eve'' = (IdUsername, ''eve'')" by code_simp+
  then show "resolveUserByIdentifier ''Ada'' ada_state = ada" "resolveUserByIdentifier ''eve'' ada_state = dummy_user"
    by (simp_all add: resolveUserByIdentifier_def ada_state_def)
qed

lemma auth_at_simps [simp]:
  "de_now (auth_at now c t) = now" "ae_compare (auth_at now c t) p h = (h = ''h'' @ p)" "ae_maxAttempts (auth_at now c t) = 5"
  "ae_lockMs (auth_at now c t) = 900000" "jw_secret (auth_at now c t)" "ae_totp (auth_at now c t) code s = (code = s)"
  "jw_tolerance_s (auth_at now c t) = 30" "ae_sha (auth_at now c t) x = ''s'' @ x" "ae_token (auth_at now c t) = t" "ae_family (auth_at now c t) = t"
  "ae_key (auth_at now c t) = sample_key_env\<lparr>ke_lookup := t, ke_secret := t\<rparr>"
  by (simp_all add: auth_at_def)

lemma auth_at_verify [simp]: "verifyJwt (auth_at now c t) token = Some c"
proof -
  have "typ_ok (Some ''JWT'')" by code_simp
  then show ?thesis by (simp add: verifyJwt_def auth_at_def)
qed

lemma no_brute [simp]: "as_brute st = [] \<Longrightarrow> getStatus e i ip st = \<lparr>bs_attempts = 0, bs_locked = False, bs_captcha = False\<rparr>"
  by (simp add: getStatus_def)

definition bad_signin :: "int \<Rightarrow> signin_request" where
  "bad_signin now = \<lparr>sr_env = auth_at now sample_claims ''t'', sr_identifier = ''Ada'', sr_passcode = ''guess'', sr_ip = ''1'', sr_captcha = None, sr_refresh = False\<rparr>"

theorem signin_guesses_bounded_witness:
  "int (passcode_guesses ''u1'' (fold run_signin [bad_signin 0, bad_signin 1, bad_signin 2] ada_state)) \<le> int (passcode_guesses ''u1'' ada_state) + 5"
proof -
  have "ids_unique ada_state" "user_of ''u1'' ada_state = Some ada" by simp_all
  moreover have "''u1'' \<noteq> ''dummy-id''" "au_passcode ada = Some ''hsecret''" "0 \<le> au_failed ada" "(1::int) \<le> 5" by simp_all
  moreover have "\<forall>r \<in> set [bad_signin 0, bad_signin 1, bad_signin 2]. \<not> ae_compare (sr_env r) (sr_passcode r) ''hsecret''
      \<and> ae_maxAttempts (sr_env r) = 5 \<and> ae_lockMs (sr_env r) = 900000 \<and> 0 \<le> de_now (sr_env r) \<and> de_now (sr_env r) < 0 + 900000"
    by (simp add: bad_signin_def)
  ultimately show ?thesis by (intro signin_guesses_bounded)
qed

theorem unknown_identifier_distinguishable_witness:
  "fst (signin (auth_at 0 sample_claims ''t'') ''eve'' ''x'' ''1'' None False ada_state) = Inl DbThrows
   \<and> fst (signin (auth_at 0 sample_claims ''t'') ''Ada'' ''x'' ''1'' None False ada_state) = Inl InvalidCredentials"
  by (rule unknown_identifier_distinguishable [OF resolve_ada(2) _ _ _ resolve_ada(1)]) (simp_all add: truthy_def locked_out_def)

definition ada_round :: "int \<Rightarrow> guess_round" where
  "ada_round now = (let c = round_claims ''u1'' \<lparr>gr_signin = auth_at now sample_claims ''t'', gr_verify = auth_at now sample_claims ''t'', gr_code = []\<rparr> in
     \<lparr>gr_signin = auth_at now c ''t'', gr_verify = auth_at (now + 1) c ''t'', gr_code = ''000''\<rparr>)"

lemma ada_round_simps: "de_now (gr_signin (ada_round now)) = now" "0 \<le> now \<Longrightarrow> round_ok ''u1'' ''secret'' ''hsecret'' ''777'' (ada_round now)"
  by (simp_all add: ada_round_def Let_def round_ok_def) (simp add: round_claims_def round_jti_def)

theorem second_factor_guesses_unbounded_witness:
  "code_guesses ''u1'' (fold (play_round ''Ada'' ''secret'' ''1'') (map ada_round [1, 2, 3, 4, 5, 6, 7]) ada_state) = 7"
proof -
  have "attackable ''Ada'' ada ada_state"
    using resolve_ada(1) by (simp add: attackable_def same_account_def) (simp add: ada_def dummy_user_def)
  moreover have "\<forall>r \<in> set (map ada_round [1, 2, 3, 4, 5, 6, 7]). round_ok (u_id ada) ''secret'' ''hsecret'' ''777'' r
      \<and> unused_jti (round_jti (u_id ada) r) (as_deny ada_state)"
    by (simp add: ada_round_simps(2) unused_jti_def no_denials_def)
  moreover have "distinct (map (\<lambda>r. de_now (gr_signin r)) (map ada_round [1, 2, 3, 4, 5, 6, 7]))" by (simp add: ada_round_simps(1))
  ultimately have "code_guesses (u_id ada) (fold (play_round ''Ada'' ''secret'' ''1'') (map ada_round [1, 2, 3, 4, 5, 6, 7]) ada_state)
      = code_guesses (u_id ada) ada_state + length (map ada_round [1, 2, 3, 4, 5, 6, 7])"
    using second_factor_guesses_unbounded [of "''Ada''" ada ada_state "''777''" "''hsecret''" "map ada_round [1, 2, 3, 4, 5, 6, 7]" "''secret''" "''1''"]
    by (simp del: list.map)
  then show ?thesis by (simp add: code_guesses_def)
qed

text \<open>A token is issued, redeemed, and presented again.\<close>

definition issued :: auth_state where
  "issued = snd (issueRefreshToken (auth_at 0 sample_claims ''a'') ''u1'' ada_state)"

definition rotated :: auth_state where
  "rotated = snd (refreshAccessToken (auth_at 1 sample_claims ''b'') ''a'' issued)"

lemma issued_refresh: "as_refresh issued = [\<lparr>rf_id = 0, rf_user = ''u1'', rf_family = ''a'', rf_hash = ''sa'', rf_expires = 2592000000,
      rf_revoked = None, rf_replaced = None\<rparr>]" "as_keys issued = []" "refresh_inv issued"
  by (simp_all add: issued_def issueRefreshToken_def add_refresh_def refresh_expiry_def REFRESH_TOKEN_EXPIRY_DAYS_def refresh_inv_def)

lemma rotation: "\<exists>key. refreshAccessToken (auth_at 1 sample_claims ''b'') ''a'' issued = (Inr (key, ''b'', ''u1''), rotated)"
    "as_refresh rotated = [\<lparr>rf_id = 0, rf_user = ''u1'', rf_family = ''a'', rf_hash = ''sa'', rf_expires = 2592000000,
      rf_revoked = Some 1, rf_replaced = Some ''sa''\<rparr>, \<lparr>rf_id = 1, rf_user = ''u1'', rf_family = ''b'', rf_hash = ''sb'', rf_expires = 2592000001,
      rf_revoked = None, rf_replaced = None\<rparr>]" "map ak_lookup (as_keys rotated) = [''b'']" "map ak_hash (as_keys rotated) = [''hb'']"
  by (simp_all add: rotated_def refreshAccessToken_def issued_refresh new_key_def generateApiKey_def add_refresh_def revoke_family_def revoke_row_def
      refresh_expiry_def REFRESH_TOKEN_EXPIRY_DAYS_def sample_key_env_def)

theorem reuse_revokes_nothing_witness:
  "refreshAccessToken (auth_at 2 sample_claims ''x'') ''a'' rotated = (Inl BadRefreshToken, rotated)
   \<and> is_ok (fst (refreshAccessToken (auth_at 3 sample_claims ''c'') ''b'' rotated))"
proof -
  obtain key where k: "refreshAccessToken (auth_at 1 sample_claims ''b'') ''a'' issued = (Inr (key, ''b'', ''u1''), rotated)" using rotation(1) by blast
  have "is_ok (fst (generateApiKey (ae_key (auth_at 3 sample_claims ''c'')) (Some ''u1'') [] (no_options\<lparr>ko_type := Some UserKey\<rparr>) (as_keys rotated)))"
    using rotation(3,4) by (cases "as_keys rotated") (auto simp: generateApiKey_def sample_key_env_def)
  then show ?thesis
    using reuse_revokes_nothing [OF issued_refresh(3) k, of "auth_at 2 sample_claims ''x''" "auth_at 3 sample_claims ''c''"]
    by (simp add: rotation(2))
qed

theorem refresh_token_single_use_witness:
  "redemptions refresh_step (redeems ''sa'') [Refresh (auth_at 1 sample_claims ''b'') ''a'', Refresh (auth_at 2 sample_claims ''c'') ''a''] issued \<le> 1
   \<and> fst (refresh_step (Refresh (auth_at 1 sample_claims ''b'') ''a'') issued)"
  using refresh_token_single_use [OF issued_refresh(3), of "''sa''" "[Refresh (auth_at 1 sample_claims ''b'') ''a'', Refresh (auth_at 2 sample_claims ''c'') ''a'']"]
    rotation(1) by (auto simp del: redemptions.simps)

lemma accepted_claims:
  assumes "verifyJwt e token = Some c" and "jw_secret e" and "jc_aud c = CHALLENGE_AUDIENCE" and "jc_iss c = CHALLENGE_ISSUER"
    and "jc_iat c = Some iat" and "iat \<le> de_now e div 1000 + jw_tolerance_s e" and "jc_jti c = Some j" and "j \<noteq> []" and "jc_exp c = Some ex"
    and "unused_jti j (as_deny st)"
  shows "challenge_claims e token st = (Inr c, st\<lparr>as_deny := snd (consumeJti e j ex (as_deny st))\<rparr>)"
  using assms consume_unused [OF assms(10), of e ex]
  by (simp add: challenge_claims_def verifyChallengeToken_def truthy_def claim_exp_def split_beta Let_def)

definition admin_claims :: claims where
  "admin_claims = sample_claims\<lparr>jc_user := ''u1''\<rparr>"

theorem privileged_key_needs_mfa_witness:
  "\<exists>key st'. issueAdminKey (auth_at 0 admin_claims ''k'') ''u1'' ''tok'' ''777'' [''p2p:admin''] ''audit'' ada_state = (Inr key, st')
     \<and> factor_proved (auth_at 0 admin_claims ''k'') ''u1'' ''777'' ada_state st'"
proof -
  have a: "admin_user ''u1'' ada_state = Inr ada" by (simp add: admin_user_def ADMIN_TIER_def)
  have s: "validateAdminScopes [''p2p:admin''] = Inr [''p2p:admin'']" by code_simp
  have t: "trim ''audit'' \<noteq> []" by code_simp
  have v: "challenge_claims (auth_at 0 admin_claims ''k'') ''tok'' ada_state = (Inr admin_claims, ada_state\<lparr>as_deny :=
      snd (consumeJti (auth_at 0 admin_claims ''k'') ''j'' 300 no_denials)\<rparr>)"
    using accepted_claims [of "auth_at 0 admin_claims ''k''" "''tok''" admin_claims 0 "''j''" 300 ada_state]
    by (simp add: admin_claims_def sample_claims_def unused_jti_def no_denials_def)
  have u: "user_of ''u1'' (ada_state\<lparr>as_deny := d\<rparr>) = Some ada" for d using ada_state_simps(2) by (simp add: user_of_def)
  have j: "jc_user admin_claims = ''u1''" "jc_jti admin_claims = Some ''j''" by (simp_all add: admin_claims_def sample_claims_def)
  obtain key st' where k: "issueAdminKey (auth_at 0 admin_claims ''k'') ''u1'' ''tok'' ''777'' [''p2p:admin''] ''audit'' ada_state = (Inr key, st')"
    by (simp add: issueAdminKey_def a s t truthy_def verifyMfaChallengeForUser_def v u j new_key_def generateApiKey_def consume_claims_def)
  with privileged_key_needs_mfa [OF disjI1 [OF k]] show ?thesis by blast
qed

text \<open>Bea signs in with a code sent by message.\<close>

definition bea_state :: auth_state where
  "bea_state = ada_state\<lparr>as_users := [ada\<lparr>au_twofa := Some ''sms''\<rparr>], as_otps := [\<lparr>or_id = 0, or_user = ''u1'', or_hash = ''h123456'', or_channel = ''sms'',
     or_expires = 600000, or_used = None\<rparr>]\<rparr>"

definition bea_env :: "string \<Rightarrow> auth_env" where
  "bea_env j = auth_at 1000 (admin_claims\<lparr>jc_jti := Some j\<rparr>) j"

definition bea_signed_in :: auth_state where
  "bea_signed_in = snd (verify2fa (bea_env ''a'') ''tok'' ''123456'' ''1'' False bea_state)"

lemma bea_challenge:
  "j \<noteq> [] \<Longrightarrow> unused_jti j (as_deny st)
    \<Longrightarrow> challenge_claims (bea_env j) ''tok'' st = (Inr (admin_claims\<lparr>jc_jti := Some j\<rparr>), st\<lparr>as_deny := snd (consumeJti (bea_env j) j 300 (as_deny st))\<rparr>)"
  using accepted_claims [of "bea_env j" "''tok''" "admin_claims\<lparr>jc_jti := Some j\<rparr>" 0 j 300 st]
  by (simp add: bea_env_def admin_claims_def sample_claims_def)

lemma revoke_keeps_unused: "unused_jti j st \<Longrightarrow> j' \<noteq> j \<Longrightarrow> unused_jti j (revokeJti e j' ex st)"
  by (auto simp: unused_jti_iff revokeJti_def Let_def local_put_def redis_put_def)

lemma bea_facts:
  "user_of ''u1'' bea_state = Some (ada\<lparr>au_twofa := Some ''sms''\<rparr>)" "ids_unique bea_state" "as_brute bea_state = []"
  "as_deny bea_state = no_denials" "as_keys bea_state = []"
  "live_otp (bea_env j) ''u1'' ''sms'' (bea_state\<lparr>as_deny := d\<rparr>) = Some \<lparr>or_id = 0, or_user = ''u1'', or_hash = ''h123456'', or_channel = ''sms'', or_expires = 600000, or_used = None\<rparr>"
  by (simp_all add: bea_state_def user_of_def find_auth_user_def ids_unique_def live_otp_def bea_env_def ada_state_def)

lemma bea_env_simps [simp]:
  "de_now (bea_env j) = 1000" "ae_compare (bea_env j) p h = (h = ''h'' @ p)" "ae_key (bea_env j) = sample_key_env\<lparr>ke_lookup := j, ke_secret := j\<rparr>"
  by (simp_all add: bea_env_def)

lemma bea_signs_in: "\<exists>s. verify2fa (bea_env ''a'') ''tok'' ''123456'' ''1'' False bea_state = (Inr s, bea_signed_in) \<and> si_user s = ''u1''"
    "unused_jti ''b'' (as_deny bea_signed_in)" "map ak_lookup (as_keys bea_signed_in) = [''a'']" "map ak_hash (as_keys bea_signed_in) = [''ha'']" "as_brute bea_signed_in = []"
proof -
  let ?e = "bea_env ''a''" and ?u = "ada\<lparr>au_twofa := Some ''sms''\<rparr>" and ?c = "admin_claims\<lparr>jc_jti := Some ''a''\<rparr>"
  let ?d = "snd (consumeJti ?e ''a'' 300 no_denials)"
  have un: "unused_jti j no_denials" for j by (simp add: unused_jti_def no_denials_def)
  let ?st1 = "au_log [CodeChecked ''u1''] (bea_state\<lparr>as_deny := ?d\<rparr>)"
  have users: "as_users (bea_state\<lparr>as_deny := d\<rparr>) = [?u]" for d by (simp add: bea_state_def)
  have u: "user_of ''u1'' (bea_state\<lparr>as_deny := d\<rparr>) = Some ?u" "u_id ?u = ''u1''" for d by (simp_all add: user_of_def find_auth_user_def users)
  have chk: "check_second_factor ?e ?u ''123456'' (bea_state\<lparr>as_deny := ?d\<rparr>) = (Inr (), ?st1)"
    by (simp add: check_second_factor_def bea_facts(6))
  let ?st2 = "?st1\<lparr>as_users := [clear_attempts ?u]\<rparr>"
  have upd: "update_user ''u1'' clear_attempts ?st1 = Some ?st2" by (simp add: update_user_def users)
  have c: "jc_user ?c = ''u1''" "jc_jti ?c = Some ''a''" "jc_exp ?c = Some 300" by (simp_all add: admin_claims_def sample_claims_def)
  have run: "verify2fa ?e ''tok'' ''123456'' ''1'' False bea_state = session ?e ?u no_options ''verify_2fa_success'' False (consume_claims ?e ?c ?st2)"
    using bea_challenge [of "''a''" bea_state] un [of "''a''"] u chk upd
    by (simp add: verify2fa_def bea_facts c truthy_def locked_out_def with_user_def)
  have ses: "\<exists>s. session ?e ?u no_options ''verify_2fa_success'' False (consume_claims ?e ?c ?st2) = (Inr s, bea_signed_in) \<and> si_user s = ''u1''"
    unfolding bea_signed_in_def run by (simp add: session_def new_key_def generateApiKey_def bea_facts(5))
  then show "\<exists>s. verify2fa ?e ''tok'' ''123456'' ''1'' False bea_state = (Inr s, bea_signed_in) \<and> si_user s = ''u1''" by (simp add: run)
  have si: "bea_signed_in = snd (session ?e ?u no_options ''verify_2fa_success'' False (consume_claims ?e ?c ?st2))" by (simp add: bea_signed_in_def run)
  show "map ak_lookup (as_keys bea_signed_in) = [''a'']" "map ak_hash (as_keys bea_signed_in) = [''ha'']" "as_brute bea_signed_in = []"
    unfolding si by (simp_all add: session_def new_key_def generateApiKey_def sample_key_env_def Let_def bea_facts)
  have "as_deny bea_signed_in = as_deny (consume_claims ?e ?c ?st2)"
    unfolding si by (simp add: session_def new_key_def generateApiKey_def bea_facts)
  also have "\<dots> = revokeJti ?e ''a'' 300 ?d" by (simp add: consume_claims_def c truthy_def claim_exp_def)
  finally show "unused_jti ''b'' (as_deny bea_signed_in)"
    by (simp only:) (intro revoke_keeps_unused consume_keeps_unused un, simp_all)
qed

theorem message_code_reusable_witness:
  "is_ok (fst (verify2fa (bea_env ''a'') ''tok'' ''123456'' ''1'' False bea_state))
   \<and> is_ok (fst (verify2fa (bea_env ''b'') ''tok'' ''123456'' ''1'' False bea_signed_in))"
proof -
  obtain s where s: "verify2fa (bea_env ''a'') ''tok'' ''123456'' ''1'' False bea_state = (Inr s, bea_signed_in)" "si_user s = ''u1''"
    using bea_signs_in(1) by blast
  have live: "live_otp (bea_env ''a'') ''u1'' ''sms'' bea_state = Some \<lparr>or_id = 0, or_user = ''u1'', or_hash = ''h123456'', or_channel = ''sms'', or_expires = 600000, or_used = None\<rparr>"
    using bea_facts(6) [of "''a''" "as_deny bea_state"] by simp
  have "is_ok (fst (generateApiKey (ae_key (bea_env ''b'')) (Some ''u1'') [] no_options (as_keys bea_signed_in)))"
    using bea_signs_in(3,4) by (cases "as_keys bea_signed_in") (auto simp: generateApiKey_def sample_key_env_def)
  moreover have "\<forall>q \<in> set (as_otps bea_state). de_now (bea_env ''b'') < or_expires q" by (simp add: bea_state_def)
  moreover have "jc_user (admin_claims\<lparr>jc_jti := Some ''b''\<rparr>) = ''u1''" by (simp add: admin_claims_def)
  ultimately show ?thesis
    using message_code_reusable [OF s(1) bea_facts(1,2) _ s(2) live _ _ _ bea_challenge [of "''b''" bea_signed_in]] s(1) bea_signs_in(2,5)
    by simp
qed

end
