(* ===== verification/Messages.thy ===== *)
theory Messages
  imports Queue JsStr
begin

text \<open>
  The typed message queues: the payload schemas of \<open>src/types/rabbitmq-schemas.ts\<close>, the envelope, and
  \<open>src/utils/rabbitmq-validation.ts\<close> with the producer base class of \<open>src/jobs/producers/BaseProducer.ts\<close>.
  A schema is data, as it is in the source; \<open>zparse\<close> reads a JavaScript value with it the way the zod
  combinators used here are documented to. The formats of \<open>uuid()\<close> and \<open>datetime()\<close>
  are predicates of the environment.
\<close>

section \<open>Values\<close>

datatype json = JNull | JBool bool | JNum jsnum | JStr string | JArr "json list" | JObj "(string \<times> json) list"

text \<open>\<open>JSON.parse(JSON.stringify(v))\<close>: a number that is not finite is written as null.\<close>

fun wire :: "json \<Rightarrow> json" where
  "wire (JNum n) = (if is_finite n then JNum n else JNull)"
| "wire (JArr xs) = JArr (map wire xs)"
| "wire (JObj kv) = JObj (map (\<lambda>(k, v). (k, wire v)) kv)"
| "wire v = v"

text \<open>\<open>Number(v)\<close>: an array of one element is read as its element.\<close>

fun js_to_number :: "json option \<Rightarrow> jsnum" where
  "js_to_number None = NaN"
| "js_to_number (Some JNull) = Fin 0"
| "js_to_number (Some (JBool b)) = Fin (if b then 1 else 0)"
| "js_to_number (Some (JNum n)) = n"
| "js_to_number (Some (JStr s)) = js_number s"
| "js_to_number (Some (JArr [])) = Fin 0"
| "js_to_number (Some (JArr [JBool b])) = NaN"
| "js_to_number (Some (JArr [v])) = js_to_number (Some v)"
| "js_to_number (Some (JArr (v # w # vs))) = NaN"
| "js_to_number (Some (JObj kv)) = NaN"

text \<open>\<open>String(v)\<close>\<close>

definition num_str :: "jsnum \<Rightarrow> string" where
  "num_str n =
     (case n of Fin q \<Rightarrow> js_num_str q | PosInf \<Rightarrow> ''Infinity'' | NegInf \<Rightarrow> ''-Infinity'' | NaN \<Rightarrow> ''NaN'')"

fun js_string :: "json \<Rightarrow> string"
  and js_join :: "json list \<Rightarrow> string" where
  "js_string JNull = ''null''"
| "js_string (JBool b) = (if b then ''true'' else ''false'')"
| "js_string (JNum n) = num_str n"
| "js_string (JStr s) = s"
| "js_string (JArr xs) = js_join xs"
| "js_string (JObj kv) = ''[object Object]''"
| "js_join [] = []"
| "js_join [x] = (if x = JNull then [] else js_string x)"
| "js_join (x # y # xs) = (if x = JNull then [] else js_string x) @ '','' @ js_join (y # xs)"

text \<open>A property of a value; absent and null are the same to the operator \<open>??\<close>.\<close>

definition jget :: "json \<Rightarrow> string \<Rightarrow> json" where
  "jget v k = (case v of JObj kv \<Rightarrow> (case map_of kv k of Some w \<Rightarrow> w | None \<Rightarrow> JNull) | _ \<Rightarrow> JNull)"

definition nullish :: "json \<Rightarrow> json \<Rightarrow> json" where
  "nullish v d = (if v = JNull then d else v)"

section \<open>Schemas\<close>

datatype zod =
    ZString "string \<Rightarrow> bool"
  | ZLiteral json
  | ZNumber bool "jsnum \<Rightarrow> bool"               \<comment> \<open>coerced or not, and its checks\<close>
  | ZUnknown
  | ZRecord
  | ZArray zod
  | ZObject bool "(string \<times> zod) list"         \<comment> \<open>with \<open>passthrough\<close> or not\<close>
  | ZOptional zod
  | ZNullable zod
  | ZDefault json zod
  | ZUnion string "(string \<times> zod) list"        \<comment> \<open>discriminated by the literal of a field\<close>

text \<open>The outcome is None when the value is refused; the value read may be undefined.\<close>

fun zparse :: "zod \<Rightarrow> json option \<Rightarrow> json option option"
  and zfields :: "(string \<times> zod) list \<Rightarrow> (string \<times> json) list \<Rightarrow> (string \<times> json) list option"
  and zalts :: "(string \<times> zod) list \<Rightarrow> json option \<Rightarrow> json \<Rightarrow> json option option" where
  "zparse (ZString p) v = (case v of Some (JStr s) \<Rightarrow> if p s then Some v else None | _ \<Rightarrow> None)"
| "zparse (ZLiteral c) v = (if v = Some c then Some v else None)"
| "zparse (ZNumber coerced p) v =
     (case (if coerced then Some (JNum (js_to_number v)) else v) of
        Some (JNum n) \<Rightarrow> if n \<noteq> NaN \<and> p n then Some (Some (JNum n)) else None
      | _ \<Rightarrow> None)"
| "zparse ZUnknown v = Some v"
| "zparse ZRecord v = (case v of Some (JObj kv) \<Rightarrow> Some v | _ \<Rightarrow> None)"
| "zparse (ZArray s) v =
     (case v of
        Some (JArr xs) \<Rightarrow> map_option (\<lambda>ys. Some (JArr ys)) (those (map (\<lambda>x. Option.bind (zparse s (Some x)) id) xs))
      | _ \<Rightarrow> None)"
| "zparse (ZObject pass fs) v =
     (case v of
        Some (JObj kv) \<Rightarrow>
          map_option (\<lambda>out. Some (JObj (out @ (if pass then filter (\<lambda>(k, w). k \<notin> fst ` set fs) kv else []))))
            (zfields fs kv)
      | _ \<Rightarrow> None)"
| "zparse (ZOptional s) v = (case v of None \<Rightarrow> Some None | Some w \<Rightarrow> zparse s v)"
| "zparse (ZNullable s) v = (if v = Some JNull then Some v else zparse s v)"
| "zparse (ZDefault d s) v = zparse s (case v of None \<Rightarrow> Some d | Some w \<Rightarrow> v)"
| "zparse (ZUnion d alts) v =
     (case v of Some (JObj kv) \<Rightarrow> zalts alts (map_of kv d) (JObj kv) | _ \<Rightarrow> None)"
| "zfields [] kv = Some []"
| "zfields ((k, s) # fs) kv =
     (case zparse s (map_of kv k) of
        None \<Rightarrow> None
      | Some None \<Rightarrow> zfields fs kv
      | Some (Some w) \<Rightarrow> map_option ((#) (k, w)) (zfields fs kv))"
| "zalts [] tag v = None"
| "zalts ((lit, s) # alts) tag v = (if tag = Some (JStr lit) then zparse s (Some v) else zalts alts tag v)"

text \<open>A schema whose fields have distinct names and whose alternatives carry their tag.\<close>

fun zod_ok :: "zod \<Rightarrow> bool" where
  "zod_ok (ZArray s) = zod_ok s"
| "zod_ok (ZObject pass fs) = (distinct (map fst fs) \<and> list_all (\<lambda>(k, s). zod_ok s) fs)"
| "zod_ok (ZOptional s) = zod_ok s"
| "zod_ok (ZNullable s) = zod_ok s"
| "zod_ok (ZDefault d s) = zod_ok s"
| "zod_ok (ZUnion d alts) =
     list_all (\<lambda>(lit, s). zod_ok s \<and>
       (case s of ZObject pass fs \<Rightarrow> map_of fs d = Some (ZLiteral (JStr lit)) | _ \<Rightarrow> False)) alts"
| "zod_ok s = True"

section \<open>Reading a value that was read\<close>

lemma zparse_defined: "zparse s (Some x) = Some w \<Longrightarrow> w \<noteq> None"
proof (induction s arbitrary: x w)
  case (ZUnion d alts)
  have alts: "zalts as tag v = Some w' \<Longrightarrow> set as \<subseteq> set alts \<Longrightarrow> w' \<noteq> None" for as tag v w'
  proof (induction as)
    case (Cons a as)
    obtain lit s where a: "a = (lit, s)" by (cases a)
    show ?case
    proof (cases "tag = Some (JStr lit)")
      case True
      then have "zparse s (Some v) = Some w'" using Cons.prems a by simp
      moreover have "(lit, s) \<in> set alts" using Cons.prems a by simp
      ultimately show ?thesis using ZUnion.IH [of "(lit, s)" s v w'] by simp
    qed (use Cons a in auto)
  qed simp
  from ZUnion.prems obtain kv where "zalts alts (map_of kv d) (JObj kv) = Some w"
    by (auto split: json.splits)
  then show ?case using alts by blast
qed (auto split: json.splits if_splits option.splits)

lemma zfields_Cons:
  "zfields ((k, s) # fs) kv = Some out \<longleftrightarrow>
   (\<exists>w rest. zparse s (map_of kv k) = Some w \<and> zfields fs kv = Some rest \<and>
      out = (case w of None \<Rightarrow> rest | Some x \<Rightarrow> (k, x) # rest))"
  by (cases "zparse s (map_of kv k)"; cases "the (zparse s (map_of kv k))"; cases "zfields fs kv") auto

lemma zparse_ZArray:
  "zparse (ZArray s) v = Some w \<longleftrightarrow>
   (\<exists>xs ys. v = Some (JArr xs) \<and> w = Some (JArr ys) \<and>
      those (map (\<lambda>x. Option.bind (zparse s (Some x)) id) xs) = Some ys)"
  by (auto split: option.split json.split)

lemma zparse_ZObject:
  "zparse (ZObject pass fs) v = Some w \<longleftrightarrow>
   (\<exists>kv out. v = Some (JObj kv) \<and> zfields fs kv = Some out \<and>
      w = Some (JObj (out @ (if pass then filter (\<lambda>(k, w). k \<notin> fst ` set fs) kv else []))))"
  by (cases v; cases "the v") auto

lemma zparse_ZUnion:
  "zparse (ZUnion d alts) v = Some w \<longleftrightarrow> (\<exists>kv. v = Some (JObj kv) \<and> zalts alts (map_of kv d) (JObj kv) = Some w)"
  by (cases v; cases "the v") auto

lemma zfields_keys: "zfields fs kv = Some out \<Longrightarrow> fst ` set out \<subseteq> fst ` set fs"
proof (induction fs arbitrary: out)
  case (Cons a fs)
  obtain k s where a: "a = (k, s)" by (cases a)
  obtain w rest where w: "zfields fs kv = Some rest" "out = (case w of None \<Rightarrow> rest | Some x \<Rightarrow> (k, x) # rest)"
    using Cons.prems unfolding a zfields_Cons by blast
  then show ?case using Cons.IH [OF w(1)] unfolding a by (cases w) auto
qed simp

lemma map_of_not_key: "k \<notin> fst ` set kv \<Longrightarrow> map_of kv k = None"
  by (simp add: map_of_eq_None_iff)

lemma those_mapI:
  "those (map f xs) = Some ys \<Longrightarrow> (\<And>x y. x \<in> set xs \<Longrightarrow> f x = Some y \<Longrightarrow> f y = Some y) \<Longrightarrow> those (map f ys) = Some ys"
proof (induction xs arbitrary: ys)
  case (Cons x xs)
  then obtain y zs where y: "f x = Some y" "those (map f xs) = Some zs" "ys = y # zs"
    by (auto split: option.splits)
  have "f y = Some y" using Cons.prems(2) [of x y] y(1) by simp
  moreover have "those (map f zs) = Some zs" by (rule Cons.IH [OF y(2)]) (rule Cons.prems(2), simp_all)
  ultimately show ?case using y(3) by simp
qed simp

lemma zfields_field:
  "zfields fs kv = Some out \<Longrightarrow> distinct (map fst fs) \<Longrightarrow> map_of fs d = Some s \<Longrightarrow> zparse s (map_of kv d) = Some (map_of out d)"
proof (induction fs arbitrary: out)
  case (Cons a fs)
  obtain k r where a: "a = (k, r)" by (cases a)
  obtain w rest where w: "zparse r (map_of kv k) = Some w" "zfields fs kv = Some rest"
    "out = (case w of None \<Rightarrow> rest | Some x \<Rightarrow> (k, x) # rest)"
    using Cons.prems(1) unfolding a zfields_Cons by blast
  show ?case
  proof (cases "k = d")
    case True
    have "k \<notin> fst ` set rest" using zfields_keys [OF w(2)] Cons.prems(2) unfolding a by auto
    then have "map_of rest k = None" by (rule map_of_not_key)
    with w Cons.prems(3) True show ?thesis unfolding a by (cases w) auto
  next
    case False
    have "map_of out d = map_of rest d" using w(3) False by (cases w) auto
    then show ?thesis using Cons.IH [OF w(2)] Cons.prems False unfolding a by simp
  qed
qed simp

lemma zparse_again:
  "zod_ok s \<Longrightarrow> zparse s v = Some w \<Longrightarrow> zparse s w = Some w"
  and zfields_again:
  "list_all (\<lambda>(k, s). zod_ok s) fs \<Longrightarrow> distinct (map fst fs) \<Longrightarrow> zfields fs kv = Some out \<Longrightarrow>
   (\<forall>k\<in>fst ` set fs. map_of kv' k = map_of out k) \<Longrightarrow> zfields fs kv' = Some out"
  and zalts_again:
  "list_all (\<lambda>(lit, s). zod_ok s) alts \<Longrightarrow> zalts alts tag v' = Some w \<Longrightarrow> zalts alts tag (the w) = Some w"
proof (induction s v and fs kv and alts tag v' arbitrary: w and out kv' and w rule: zparse_zfields_zalts.induct)
  case (6 s v)
  then obtain xs ys where x: "v = Some (JArr xs)" "w = Some (JArr ys)"
    "those (map (\<lambda>x. Option.bind (zparse s (Some x)) id) xs) = Some ys"
    unfolding zparse_ZArray by blast
  have "those (map (\<lambda>x. Option.bind (zparse s (Some x)) id) ys) = Some ys"
  proof (rule those_mapI [OF x(3)])
    fix a b assume a: "a \<in> set xs" and "Option.bind (zparse s (Some a)) id = Some b"
    then have "zparse s (Some a) = Some (Some b)" by (simp add: bind_eq_Some_conv)
    then show "Option.bind (zparse s (Some b)) id = Some b"
      using 6 x(1) a by simp
  qed
  then show ?case using x(2) by simp
next
  case (7 pass fs v)
  then obtain kv out where x: "v = Some (JObj kv)" "zfields fs kv = Some out"
    and w: "w = Some (JObj (out @ (if pass then filter (\<lambda>(k, w). k \<notin> fst ` set fs) kv else [])))"
    unfolding zparse_ZObject by blast
  let ?new = "out @ (if pass then filter (\<lambda>(k, w). k \<notin> fst ` set fs) kv else [])"
  have same: "map_of ?new k = map_of out k" if "k \<in> fst ` set fs" for k
  proof -
    have "map_of (filter (\<lambda>(k, w). k \<notin> fst ` set fs) kv) k = None" using that by (intro map_of_not_key) force
    then show ?thesis by (cases "map_of out k") (auto simp: map_add_def)
  qed
  have ok: "list_all (\<lambda>(k, s). zod_ok s) fs" "distinct (map fst fs)" using 7(2) by simp_all
  have "zfields fs ?new = Some out" by (rule 7(1) [OF x(1) refl ok x(2)]) (use same in blast)
  moreover have "filter (\<lambda>(k, w). k \<notin> fst ` set fs) out = []"
    using zfields_keys [OF x(2)] by (force simp: filter_empty_conv)
  ultimately show ?case unfolding w by simp
next
  case (10 d s v)
  then have "zparse s (Some (case v of None \<Rightarrow> d | Some x \<Rightarrow> x)) = Some w" by (cases v) auto
  then obtain x where x: "w = Some x" using zparse_defined by blast
  have "zparse s w = Some w" using 10 by (cases v) auto
  then show ?case using x by simp
next
  case (11 d alts v)
  then obtain kv where v: "v = Some (JObj kv)" "zalts alts (map_of kv d) (JObj kv) = Some w"
    unfolding zparse_ZUnion by blast
  have tagged: "\<exists>kv'. w' = Some (JObj kv') \<and> map_of kv' d = tag"
    if "zalts as tag (JObj kv) = Some w'" "tag = map_of kv d" "zod_ok (ZUnion d as)" for as tag w'
    using that
  proof (induction as)
    case (Cons a as)
    obtain lit r where a: "a = (lit, r)" by (cases a)
    show ?case
    proof (cases "tag = Some (JStr lit)")
      case True
      obtain pass fs where r: "r = ZObject pass fs" "map_of fs d = Some (ZLiteral (JStr lit))" "zod_ok r"
        using Cons.prems(3) unfolding a by (auto split: zod.splits)
      obtain out where out: "zfields fs kv = Some out"
        "w' = Some (JObj (out @ (if pass then filter (\<lambda>(k, w). k \<notin> fst ` set fs) kv else [])))"
        using Cons.prems(1) True unfolding a r(1) by (auto simp del: zparse.simps simp: zparse_ZObject)
      have "distinct (map fst fs)" using r by simp
      then have "zparse (ZLiteral (JStr lit)) (map_of kv d) = Some (map_of out d)"
        using zfields_field [OF out(1) _ r(2)] by blast
      then have "map_of out d = Some (JStr lit)" by (auto split: if_splits)
      then show ?thesis using True out(2) by (simp add: map_add_def)
    next
      case False
      then show ?thesis using Cons unfolding a by simp
    qed
  qed simp
  obtain kv' where w: "w = Some (JObj kv')" "map_of kv' d = map_of kv d" using tagged [OF v(2) refl 11(2)] by blast
  have "list_all (\<lambda>(lit, s). zod_ok s) alts" using 11(2) by (auto elim: list.pred_mono_strong)
  then have "zalts alts (map_of kv d) (JObj kv') = Some w" using 11(1) [OF v(1) refl _ v(2)] w(1) by simp
  then show ?case using w by simp
next
  case (13 k s fs kv)
  obtain x rest where x: "zparse s (map_of kv k) = Some x" "zfields fs kv = Some rest"
    "out = (case x of None \<Rightarrow> rest | Some y \<Rightarrow> (k, y) # rest)"
    using 13(6) unfolding zfields_Cons by blast
  have k: "map_of rest k = None" using zfields_keys [OF x(2)] 13(5) by (intro map_of_not_key) auto
  have "map_of kv' k = x" using 13(7) x(3) k by (cases x) auto
  then have head: "zparse s (map_of kv' k) = Some x" using 13(1) [OF _ x(1)] 13(4) by simp
  have "zfields fs kv' = Some rest"
  proof -
    have "\<forall>j\<in>fst ` set fs. map_of kv' j = map_of rest j"
      using 13(7) 13(5) x(3) by (cases x) auto
    then show ?thesis using 13 x by (cases x) auto
  qed
  then show ?case using head x(3) by (auto split: option.splits)
next
  case (15 lit s alts tag v)
  show ?case
  proof (cases "tag = Some (JStr lit)")
    case True
    then have p: "zparse s (Some v) = Some w" using 15(4) by simp
    then obtain y where y: "w = Some y" using zparse_defined by blast
    have "zparse s w = Some w" using 15(1) [OF True _ p] 15(3) by simp
    then show ?thesis using True y by simp
  next
    case False
    then have p: "zalts alts tag v = Some w" using 15(4) by simp
    have "zalts alts tag (the w) = Some w" using 15(2) [OF False _ p] 15(3) by simp
    then show ?thesis using False by simp
  qed
next
  case (1 p v)
  then show ?case by (auto split: option.splits json.splits if_splits)
next
  case (2 c v)
  then show ?case by (auto split: if_splits)
next
  case (3 coerced p v)
  then obtain n where n: "n \<noteq> NaN" "p n" "w = Some (JNum n)"
    by (auto split: option.splits json.splits if_splits)
  then show ?case by simp
next
  case (5 v)
  then show ?case by (auto split: option.splits json.splits)
next
  case (8 s v)
  then show ?case using zparse_defined by (cases v) fastforce+
next
  case (9 s v)
  show ?case
  proof (cases "v = Some JNull")
    case False
    then have "zparse s v = Some w" "zparse s w = Some w" using 9 by simp_all
    then show ?thesis by simp
  qed (use 9 in simp)
qed simp_all

section \<open>The payload schemas\<close>

record mq_env =
  mq_uuid :: "string \<Rightarrow> bool"                 \<comment> \<open>the format of \<open>z.string().uuid()\<close>\<close>
  mq_datetime :: "string \<Rightarrow> bool"             \<comment> \<open>the format of \<open>z.string().datetime()\<close>\<close>

definition min_len :: "nat \<Rightarrow> string \<Rightarrow> bool" where
  "min_len n s \<longleftrightarrow> n \<le> length s"

definition z_string :: zod where
  "z_string = ZString (\<lambda>s. True)"

definition z_enum :: "string list \<Rightarrow> zod" where
  "z_enum names = ZString (\<lambda>s. s \<in> set names)"

definition nonnegative :: "jsnum \<Rightarrow> bool" where
  "nonnegative n = (case n of Fin q \<Rightarrow> 0 \<le> q | PosInf \<Rightarrow> True | _ \<Rightarrow> False)"

definition positive :: "jsnum \<Rightarrow> bool" where
  "positive n = (case n of Fin q \<Rightarrow> 0 < q | PosInf \<Rightarrow> True | _ \<Rightarrow> False)"

definition int_num :: "jsnum \<Rightarrow> bool" where
  "int_num n = (case n of Fin q \<Rightarrow> q \<in> \<int> | _ \<Rightarrow> False)"

text \<open>The regular expressions of transaction hashes and of amounts.\<close>

definition hash_shape :: "string \<Rightarrow> bool" where
  "hash_shape s \<longleftrightarrow>
     length s = 64 \<and> list_all (\<lambda>c. is_digit c \<or> (let n = of_char (lower_char c) :: int in 97 \<le> n \<and> n \<le> 102)) s"

definition amount_shape :: "string \<Rightarrow> bool" where
  "amount_shape s =
     (case split_on CHR ''.'' s of
        [a] \<Rightarrow> a \<noteq> [] \<and> list_all is_digit a
      | [a, b] \<Rightarrow> a \<noteq> [] \<and> b \<noteq> [] \<and> list_all is_digit a \<and> list_all is_digit b
      | _ \<Rightarrow> False)"

text \<open>\<open>extend\<close> replaces a field of the same name.\<close>

definition contract_event :: "mq_env \<Rightarrow> string list \<Rightarrow> zod" where
  "contract_event e names =
     ZObject False
       [(''contractId'', z_string), (''type'', z_enum [''contract_credited'', ''contract_debited'', ''contract_effect'']),
        (''data'', ZObject True (map (\<lambda>f. (f, ZOptional z_string)) names)),
        (''ledger'', ZNumber True (\<lambda>n. int_num n \<and> nonnegative n)), (''timestamp'', ZString (mq_datetime e))]"

definition EscrowEventSchema :: "mq_env \<Rightarrow> zod" where
  "EscrowEventSchema e =
     contract_event e [''amount'', ''account'', ''recipient'', ''to'', ''transaction_hash'', ''transaction_id'', ''tx_hash'']"

definition LendingPoolEventSchema :: "mq_env \<Rightarrow> zod" where
  "LendingPoolEventSchema e = contract_event e [''amount'', ''account'', ''recipient'', ''to'', ''transaction_hash'']"

definition SavingsVaultEventSchema :: "mq_env \<Rightarrow> zod" where
  "SavingsVaultEventSchema e = contract_event e [''amount'', ''account'', ''recipient'', ''to'', ''transaction_hash'']"

definition BurnEventSchema :: zod where
  "BurnEventSchema = ZObject False [(''transactionId'', ZOptional z_string), (''txHash'', ZString hash_shape)]"

definition MintEventSchema :: zod where
  "MintEventSchema =
     ZObject False
       [(''usdcAmount'', ZString amount_shape), (''recipient'', ZString (\<lambda>s. length s = 56)),
        (''txHash'', ZOptional (ZString hash_shape)), (''transactionId'', ZOptional z_string)]"

definition nullish_string :: zod where
  "nullish_string = ZNullable (ZOptional z_string)"

definition AuditLogSchema :: "mq_env \<Rightarrow> zod" where
  "AuditLogSchema e =
     ZObject False
       [(''eventType'', ZString (min_len 1)), (''entityType'', nullish_string), (''entityId'', nullish_string),
        (''action'', ZString (min_len 1)), (''oldValue'', ZUnknown), (''newValue'', ZUnknown),
        (''performedBy'', nullish_string), (''actorType'', nullish_string), (''keyType'', nullish_string),
        (''organizationId'', nullish_string), (''reason'', nullish_string),
        (''timestamp'', ZOptional (ZString (mq_datetime e)))]"

definition OtpSendSchema :: zod where
  "OtpSendSchema =
     ZObject False
       [(''channel'', z_enum [''email'', ''sms'']), (''to'', ZString (min_len 1)), (''code'', ZString (min_len 1))]"

definition ReserveAlertSchema :: zod where
  "ReserveAlertSchema =
     ZObject False
       [(''type'', ZLiteral (JStr ''reserve_alert'')), (''health'', z_string),
        (''overcollateralizationRatio'', ZNumber True nonnegative)]"

definition WithdrawalStatusSchema :: zod where
  "WithdrawalStatusSchema =
     ZObject False
       [(''type'', ZLiteral (JStr ''withdrawal_status'')), (''userId'', ZNullable z_string), (''status'', z_string),
        (''currency'', z_string), (''amount'', ZNumber True nonnegative),
        (''channel'', ZDefault (JArr [JStr ''email'']) (ZArray z_string))]"

definition InvestmentWithdrawalReadySchema :: "mq_env \<Rightarrow> zod" where
  "InvestmentWithdrawalReadySchema e =
     ZObject False
       [(''type'', ZLiteral (JStr ''investment_withdrawal_ready'')), (''userId'', nullish_string),
        (''organizationId'', nullish_string), (''amountAcbu'', ZDefault (JNum (Fin 0)) (ZNumber True nonnegative)),
        (''timestamp'', ZOptional (ZString (mq_datetime e)))]"

definition NotificationSchema :: "mq_env \<Rightarrow> zod" where
  "NotificationSchema e =
     ZUnion ''type''
       [(''reserve_alert'', ReserveAlertSchema), (''withdrawal_status'', WithdrawalStatusSchema),
        (''investment_withdrawal_ready'', InvestmentWithdrawalReadySchema e)]"

definition WebhookJobSchema :: "mq_env \<Rightarrow> zod" where
  "WebhookJobSchema e = ZObject False [(''webhookId'', ZString (mq_uuid e))]"

definition RebalancingInstructionSchema :: zod where
  "RebalancingInstructionSchema =
     ZObject False
       [(''fromCurrency'', ZString (min_len 1)), (''toCurrency'', ZString (min_len 1)),
        (''amountUsd'', ZNumber False nonnegative), (''rateFromUsd'', ZNumber False positive),
        (''rateToUsd'', ZNumber False positive), (''amountFrom'', ZNumber False nonnegative),
        (''amountTo'', ZNumber False nonnegative)]"

definition RebalancingPayloadSchema :: zod where
  "RebalancingPayloadSchema =
     ZObject False
       [(''eventId'', ZString (min_len 1)), (''instructions'', ZDefault (JArr []) (ZArray RebalancingInstructionSchema)),
        (''totalReserveValueUsd'', ZNumber False nonnegative)]"

definition XlmToAcbuPayloadSchema :: zod where
  "XlmToAcbuPayloadSchema =
     ZObject False
       [(''onRampSwapId'', ZString (min_len 1)), (''userId'', ZString (min_len 1)),
        (''stellarAddress'', ZString (min_len 1)), (''xlmAmount'', ZString (min_len 1)),
        (''usdcEquivalent'', ZOptional (ZString (min_len 1)))]"

definition UsdcConvertAndMintPayloadSchema :: zod where
  "UsdcConvertAndMintPayloadSchema = ZObject False [(''onRampSwapId'', ZString (min_len 1))]"

definition StellarEventFailureSchema :: "mq_env \<Rightarrow> zod" where
  "StellarEventFailureSchema e =
     ZObject True [(''reason'', z_enum [''parse_failure'', ''handler_failure'']), (''capturedAt'', ZString (mq_datetime e))]"

definition MessageEnvelopeSchema :: "mq_env \<Rightarrow> zod" where
  "MessageEnvelopeSchema e =
     ZObject False
       [(''version'', ZLiteral (JNum (Fin 1))), (''type'', ZString (min_len 1)), (''messageId'', ZString (mq_uuid e)),
        (''timestamp'', ZString (mq_datetime e)), (''payload'', ZRecord)]"

definition QUEUE_SCHEMAS :: "mq_env \<Rightarrow> (string \<times> zod) list" where
  "QUEUE_SCHEMAS e =
     [(''acbu_escrow_events'', EscrowEventSchema e), (''acbu_lending_pool_events'', LendingPoolEventSchema e),
      (''acbu_savings_vault_events'', SavingsVaultEventSchema e), (''audit_logs'', AuditLogSchema e),
      (''notifications'', NotificationSchema e), (''otp_send'', OtpSendSchema),
      (''rebalancing'', RebalancingPayloadSchema), (''stellar_event_failures'', StellarEventFailureSchema e),
      (''usdc_conversion'', MintEventSchema), (''usdc_convert_and_mint'', UsdcConvertAndMintPayloadSchema),
      (''webhooks'', WebhookJobSchema e), (''withdrawal_processing'', BurnEventSchema),
      (''xlm_to_acbu'', XlmToAcbuPayloadSchema)]"

section \<open>Publishing and reading\<close>

datatype mq_error = NoSchema string | ValidationFailed string | EnvelopeInvalid | NotJson

text \<open>\<open>content\<close> is what \<open>JSON.parse\<close> reads in a message, or None where it throws.\<close>

definition validateMessage :: "mq_env \<Rightarrow> string \<Rightarrow> json \<Rightarrow> mq_error + json" where
  "validateMessage e q payload =
     (case map_of (QUEUE_SCHEMAS e) q of
        None \<Rightarrow> Inl (NoSchema q)
      | Some s \<Rightarrow>
          (case zparse s (Some payload) of Some (Some w) \<Rightarrow> Inr w | _ \<Rightarrow> Inl (ValidationFailed q)))"

definition message_envelope :: "string \<Rightarrow> string \<Rightarrow> string \<Rightarrow> json \<Rightarrow> json" where
  "message_envelope q uuid sent payload =
     JObj [(''version'', JNum (Fin 1)), (''type'', JStr q), (''messageId'', JStr uuid), (''timestamp'', JStr sent),
       (''payload'', payload)]"

text \<open>\<open>uuid\<close> is the random message id, \<open>sent\<close> the time of publication.\<close>

definition publishValidatedMessage :: "mq_env \<Rightarrow> string \<Rightarrow> string \<Rightarrow> string \<Rightarrow> json \<Rightarrow> mq_error + json" where
  "publishValidatedMessage e q uuid sent payload =
     bindR (validateMessage e q payload) (\<lambda>p.
       if zparse (MessageEnvelopeSchema e) (Some (message_envelope q uuid sent p)) = None then Inl EnvelopeInvalid
       else Inr (wire (message_envelope q uuid sent p)))"

definition envelope_payload :: "json option \<Rightarrow> json" where
  "envelope_payload v =
     (case v of Some (JObj kv) \<Rightarrow> (case map_of kv ''payload'' of Some p \<Rightarrow> p | None \<Rightarrow> JNull) | _ \<Rightarrow> JNull)"

definition parseIncomingMessage :: "mq_env \<Rightarrow> string \<Rightarrow> json option \<Rightarrow> mq_error + json" where
  "parseIncomingMessage e q content =
     (case content of
        None \<Rightarrow> Inl NotJson
      | Some raw \<Rightarrow>
          (case zparse (MessageEnvelopeSchema e) (Some raw) of
             None \<Rightarrow> Inl (ValidationFailed q)
           | Some envelope \<Rightarrow> validateMessage e q (envelope_payload envelope)))"

text \<open>
  \<open>BaseProducer.publish\<close>: the hook of a subclass sees the validated payload, and what it returns is validated
  again.
\<close>

definition producer_publish ::
  "mq_env \<Rightarrow> (json \<Rightarrow> json) option \<Rightarrow> string \<Rightarrow> string \<Rightarrow> string \<Rightarrow> json \<Rightarrow> mq_error + json" where
  "producer_publish e hook q uuid sent payload =
     bindR (validateMessage e q payload) (\<lambda>p.
       publishValidatedMessage e q uuid sent (case hook of None \<Rightarrow> p | Some h \<Rightarrow> h p))"

definition hasSchema :: "mq_env \<Rightarrow> string \<Rightarrow> bool" where
  "hasSchema e q = (map_of (QUEUE_SCHEMAS e) q \<noteq> None)"

text \<open>
  The consumer of a validated queue: an invalid message goes to the dead letter queue at once, any other error
  sends the message again until its retries are used up.
\<close>

definition consume_validated ::
  "mq_env \<Rightarrow> string \<Rightarrow> (json \<Rightarrow> 's \<Rightarrow> bool \<times> 's) \<Rightarrow> nat \<Rightarrow> json option \<Rightarrow> 's \<Rightarrow> delivery \<times> 's" where
  "consume_validated e q job retries content st =
     (case parseIncomingMessage e q content of
        Inr p \<Rightarrow> (case job p st of (returned, st') \<Rightarrow> (settle_message (getQueueMaxRetries q) retries returned, st'))
      | Inl (ValidationFailed _) \<Rightarrow> (DeadLettered, st)
      | Inl _ \<Rightarrow> (settle_message (getQueueMaxRetries q) retries False, st))"

section \<open>Lemmas\<close>

lemmas schema_defs =
  EscrowEventSchema_def LendingPoolEventSchema_def SavingsVaultEventSchema_def BurnEventSchema_def MintEventSchema_def
  AuditLogSchema_def OtpSendSchema_def NotificationSchema_def ReserveAlertSchema_def WithdrawalStatusSchema_def
  InvestmentWithdrawalReadySchema_def WebhookJobSchema_def RebalancingPayloadSchema_def RebalancingInstructionSchema_def
  XlmToAcbuPayloadSchema_def UsdcConvertAndMintPayloadSchema_def StellarEventFailureSchema_def
  contract_event_def nullish_string_def z_string_def z_enum_def

lemma queue_schemas_ok: "list_all (\<lambda>(q, s). zod_ok s) (QUEUE_SCHEMAS e)"
  unfolding QUEUE_SCHEMAS_def schema_defs by simp

lemma queue_schema_ok:
  assumes "map_of (QUEUE_SCHEMAS e) q = Some s"
  shows "zod_ok s"
  using queue_schemas_ok [of e] map_of_SomeD [OF assms] by (auto simp: list_all_iff)

lemma queue_schema_object:
  assumes "map_of (QUEUE_SCHEMAS e) q = Some s" and "zparse s v = Some w"
  shows "\<exists>kv. w = Some (JObj kv)"
proof -
  have "list_all (\<lambda>(q, s). case s of ZObject _ _ \<Rightarrow> True | ZUnion _ alts \<Rightarrow>
      list_all (\<lambda>(l, r). case r of ZObject _ _ \<Rightarrow> True | _ \<Rightarrow> False) alts | _ \<Rightarrow> False) (QUEUE_SCHEMAS e)"
    unfolding QUEUE_SCHEMAS_def schema_defs by simp
  then consider (obj) pass fs where "s = ZObject pass fs"
    | (alt) d alts where "s = ZUnion d alts"
        "list_all (\<lambda>(l, r). case r of ZObject _ _ \<Rightarrow> True | _ \<Rightarrow> False) alts"
    using map_of_SomeD [OF assms(1)] by (auto simp: list_all_iff split: zod.splits)
  then show ?thesis
  proof cases
    case obj
    then show ?thesis using assms(2) zparse_ZObject by blast
  next
    case alt
    have "zalts as tag v = Some w \<Longrightarrow> list_all (\<lambda>(l, r). case r of ZObject _ _ \<Rightarrow> True | _ \<Rightarrow> False) as \<Longrightarrow>
      \<exists>kv. w = Some (JObj kv)" for as tag v
    proof (induction as)
      case (Cons a as)
      obtain l r where a: "a = (l, r)" by (cases a)
      show ?case
      proof (cases "tag = Some (JStr l)")
        case True
        then obtain pass fs where "zparse (ZObject pass fs) (Some v) = Some w"
          using Cons.prems unfolding a by (auto split: zod.splits simp del: zparse.simps)
        then show ?thesis using zparse_ZObject by blast
      qed (use Cons a in auto)
    qed simp
    then show ?thesis using assms(2) alt zparse_ZUnion by blast
  qed
qed

lemma validateMessage_Inr:
  "validateMessage e q payload = Inr w \<longleftrightarrow>
   (\<exists>s. map_of (QUEUE_SCHEMAS e) q = Some s \<and> zparse s (Some payload) = Some (Some w))"
  by (auto simp: validateMessage_def split: option.split)

lemma validate_again: "validateMessage e q payload = Inr w \<Longrightarrow> validateMessage e q w = Inr w"
  using zparse_again queue_schema_ok unfolding validateMessage_Inr by blast

lemma validated_object: "validateMessage e q payload = Inr w \<Longrightarrow> \<exists>kv. w = JObj kv"
  using queue_schema_object unfolding validateMessage_Inr by blast

lemma envelope_parse:
  "zparse (MessageEnvelopeSchema e) (Some (message_envelope q uuid sent p)) \<noteq> None \<longleftrightarrow>
   q \<noteq> [] \<and> mq_uuid e uuid \<and> mq_datetime e sent \<and> (\<exists>kv. p = JObj kv)"
  "zparse (MessageEnvelopeSchema e) (Some (message_envelope q uuid sent p)) \<noteq> None \<Longrightarrow>
   zparse (MessageEnvelopeSchema e) (Some (message_envelope q uuid sent p)) = Some (Some (message_envelope q uuid sent p))"
  by (auto simp: MessageEnvelopeSchema_def message_envelope_def min_len_def Suc_le_eq split: json.splits if_splits)

section \<open>What a queue carries\<close>

lemma wire_envelope: "wire p = p \<Longrightarrow> wire (message_envelope q uuid sent p) = message_envelope q uuid sent p"
  by (simp add: message_envelope_def)

lemma envelope_payload_of [simp]: "envelope_payload (Some (message_envelope q uuid sent p)) = p"
  by (simp add: envelope_payload_def message_envelope_def)

lemma publish_parses:
  assumes "validateMessage e q payload = Inr p" and "wire p = p" and "mq_uuid e uuid" and "mq_datetime e sent"
  shows "\<exists>content. publishValidatedMessage e q uuid sent payload = Inr content \<and> parseIncomingMessage e q (Some content) = Inr p"
proof -
  have "q \<noteq> []" using assms(1) by (auto simp: validateMessage_Inr QUEUE_SCHEMAS_def split: if_splits)
  then have env: "zparse (MessageEnvelopeSchema e) (Some (message_envelope q uuid sent p)) \<noteq> None"
    using validated_object [OF assms(1)] assms(3,4) envelope_parse(1) by blast
  then have "parseIncomingMessage e q (Some (message_envelope q uuid sent p)) = Inr p"
    using envelope_parse(2) [OF env] validate_again [OF assms(1)] by (simp add: parseIncomingMessage_def)
  then show ?thesis using assms env by (simp add: publishValidatedMessage_def wire_envelope)
qed

lemma unenveloped_message:
  assumes "map_of kv ''payload'' = None"
  shows "parseIncomingMessage e q (Some (JObj kv)) = Inl (ValidationFailed q)"
  using assms by (auto simp: parseIncomingMessage_def MessageEnvelopeSchema_def split: option.splits)

lemma unenveloped_dead_lettered:
  "map_of kv ''payload'' = None \<Longrightarrow> consume_validated e q job n (Some (JObj kv)) st = (DeadLettered, st)"
  by (simp add: consume_validated_def unenveloped_message)

section \<open>Properties\<close>

text \<open>
  C17. A payload that its queue's schema accepts and whose validated form survives JSON (\<open>wire p = p\<close>: its numbers
  are finite) can be published, given an identifier and a time of the right shape for the envelope, and the consumer of
  the queue reads exactly the payload that the producer validated: coerced numbers, filled defaults and stripped
  fields included. A payload the schema refuses is not published.
\<close>

theorem published_payload_is_read:
  assumes "\<And>p. validateMessage e q payload = Inr p \<Longrightarrow> wire p = p" and "mq_uuid e uuid" and "mq_datetime e sent"
  shows "case producer_publish e None q uuid sent payload of
           Inr content \<Rightarrow> (\<exists>p. validateMessage e q payload = Inr p \<and> parseIncomingMessage e q (Some content) = Inr p)
         | Inl err \<Rightarrow> validateMessage e q payload = Inl err"
proof (cases "validateMessage e q payload")
  case (Inl err)
  then show ?thesis by (simp add: producer_publish_def)
next
  case (Inr p)
  obtain content where "publishValidatedMessage e q uuid sent p = Inr content" "parseIncomingMessage e q (Some content) = Inr p"
    using publish_parses [OF validate_again [OF Inr]] assms Inr by blast
  then show ?thesis using Inr by (simp add: producer_publish_def)
qed

definition plain_env :: mq_env where
  "plain_env = \<lparr>mq_uuid = (\<lambda>s. length s = 36), mq_datetime = (\<lambda>s. str_includes s ''T'')\<rparr>"

definition sample_withdrawal_notice :: json where
  "sample_withdrawal_notice =
     JObj [(''type'', JStr ''withdrawal_status''), (''userId'', JNull), (''status'', JStr ''completed''),
       (''currency'', JStr ''NGN''), (''amount'', JStr ''12''), (''trace'', JBool True)]"

lemma sample_notice_validates:
  "validateMessage plain_env ''notifications'' sample_withdrawal_notice =
     Inr (JObj [(''type'', JStr ''withdrawal_status''), (''userId'', JNull), (''status'', JStr ''completed''),
       (''currency'', JStr ''NGN''), (''amount'', JNum (Fin 12)), (''channel'', JArr [JStr ''email''])])"
proof -
  have n: "js_number ''12'' = Fin 12" by code_simp
  show ?thesis
    by (simp add: validateMessage_def QUEUE_SCHEMAS_def NotificationSchema_def WithdrawalStatusSchema_def
        ReserveAlertSchema_def InvestmentWithdrawalReadySchema_def sample_withdrawal_notice_def z_string_def
        nonnegative_def n)
qed

lemma plain_formats:
  "mq_uuid plain_env ''123e4567-e89b-42d3-a456-426614174000''"
  "mq_datetime plain_env ''2026-01-01T00:00:00.000Z''"
  by code_simp+

theorem published_payload_is_read_witness:
  "case producer_publish plain_env None ''notifications'' ''123e4567-e89b-42d3-a456-426614174000'' ''2026-01-01T00:00:00.000Z''
       sample_withdrawal_notice of
     Inr content \<Rightarrow>
       (\<exists>p. validateMessage plain_env ''notifications'' sample_withdrawal_notice = Inr p \<and>
          parseIncomingMessage plain_env ''notifications'' (Some content) = Inr p)
   | Inl err \<Rightarrow> validateMessage plain_env ''notifications'' sample_withdrawal_notice = Inl err"
  by (rule published_payload_is_read [OF _ plain_formats]) (simp add: sample_notice_validates)

end
