(* ===== verification/AuditLog.thy ===== *)
theory AuditLog
  imports Messages
begin

text \<open>
  The audit trail: \<open>src/services/audit/auditService.ts\<close>, which queues an entry and falls back to an outbox
  and to a file, and \<open>src/jobs/auditConsumer.ts\<close>, which writes the queued entries to the table
  \<open>audit_trail\<close>. The outcome of every call to the broker, to MongoDB and to the file system is an argument.
\<close>

section \<open>Entries\<close>

datatype key_type = USER_KEY | ADMIN_KEY | BREAK_GLASS_KEY

record audit_entry =
  ae_event_type :: string
  ae_entity_type :: "string option"
  ae_entity_id :: "string option"
  ae_action :: string
  ae_old_value :: "json option"
  ae_new_value :: "json option"
  ae_performed_by :: "string option"
  ae_actor_type :: "string option"
  ae_key_type :: "key_type option"
  ae_organization :: "string option"
  ae_reason :: "string option"

definition key_type_name :: "key_type \<Rightarrow> string" where
  "key_type_name k =
     (case k of USER_KEY \<Rightarrow> ''USER_KEY'' | ADMIN_KEY \<Rightarrow> ''ADMIN_KEY'' | BREAK_GLASS_KEY \<Rightarrow> ''BREAK_GLASS_KEY'')"

definition falsy :: "string option \<Rightarrow> bool" where
  "falsy s \<longleftrightarrow> s = None \<or> s = Some []"

definition getMissingAdminAttributionFields :: "audit_entry \<Rightarrow> string list" where
  "getMissingAdminAttributionFields a =
     (if ae_key_type a \<noteq> Some ADMIN_KEY \<and> ae_key_type a \<noteq> Some BREAK_GLASS_KEY then []
      else
        (if falsy (ae_performed_by a) then [''performedBy''] else []) @
        (if falsy (ae_actor_type a) then [''actorType''] else []) @
        (if falsy (ae_organization a) then [''organizationId''] else []) @
        (if falsy (ae_reason a) then [''reason''] else []))"

fun join_comma :: "string list \<Rightarrow> string" where
  "join_comma [] = []"
| "join_comma [s] = s"
| "join_comma (s # ss) = s @ '', '' @ join_comma ss"

text \<open>What \<open>JSON.stringify\<close> writes of the payload: undefined properties are left out.\<close>

definition field :: "string \<Rightarrow> json option \<Rightarrow> (string \<times> json) list" where
  "field k v = (case v of None \<Rightarrow> [] | Some w \<Rightarrow> [(k, w)])"

definition audit_payload :: "string \<Rightarrow> audit_entry \<Rightarrow> json" where
  "audit_payload at_time a =
     JObj ([(''eventType'', JStr (ae_event_type a))] @ field ''entityType'' (map_option JStr (ae_entity_type a)) @
       field ''entityId'' (map_option JStr (ae_entity_id a)) @ [(''action'', JStr (ae_action a))] @
       field ''oldValue'' (ae_old_value a) @ field ''newValue'' (ae_new_value a) @
       field ''performedBy'' (map_option JStr (ae_performed_by a)) @
       field ''actorType'' (map_option JStr (ae_actor_type a)) @
       field ''keyType'' (map_option (JStr \<circ> key_type_name) (ae_key_type a)) @
       field ''organizationId'' (map_option JStr (ae_organization a)) @
       field ''reason'' (map_option JStr (ae_reason a)) @ [(''timestamp'', JStr at_time)] @
       (let missing = getMissingAdminAttributionFields a in
        if missing = [] then []
        else [(''attributionError'', JStr (''Missing required fields: '' @ join_comma missing))]))"

section \<open>Logging an entry\<close>

record audit_state =
  as_queue :: "json list"                \<comment> \<open>contents sent to \<open>audit_logs\<close>\<close>
  as_outbox :: "json list"               \<comment> \<open>collection \<open>audit_outbox\<close>\<close>
  as_file :: "json list"                 \<comment> \<open>lines of \<open>lost-audits.log\<close>\<close>
  as_alerts :: "string list"
  as_trail :: "json list"                \<comment> \<open>rows of \<open>audit_trail\<close>\<close>

text \<open>
  \<open>sendToQueue\<close> returns false when the write buffer is full; the message has been buffered all the same.
\<close>

datatype channel_try = NotConnected | BufferFull | Accepted

record audit_env =
  av_now :: string                       \<comment> \<open>\<open>new Date().toISOString()\<close>\<close>
  av_channel :: "nat \<Rightarrow> channel_try"      \<comment> \<open>outcome of each attempt, from 1\<close>
  av_mongo :: bool
  av_file :: bool
  av_alert_email :: "string option"

definition AUDIT_MAX_RETRIES :: nat where
  "AUDIT_MAX_RETRIES = 3"

definition queue_entry :: "json \<Rightarrow> audit_state \<Rightarrow> audit_state" where
  "queue_entry p st = st\<lparr>as_queue := as_queue st @ [p]\<rparr>"

function publish_from :: "audit_env \<Rightarrow> json \<Rightarrow> nat \<Rightarrow> audit_state \<Rightarrow> bool \<times> audit_state" where
  "publish_from e p attempt st =
     (if AUDIT_MAX_RETRIES < attempt then (False, st)
      else
        (case av_channel e attempt of
           Accepted \<Rightarrow> (True, queue_entry p st)
         | BufferFull \<Rightarrow> publish_from e p (Suc attempt) (queue_entry p st)
         | NotConnected \<Rightarrow> publish_from e p (Suc attempt) st))"
  by pat_completeness auto
termination by (relation "measure (\<lambda>(e, p, attempt, st). Suc AUDIT_MAX_RETRIES - attempt)") auto

declare publish_from.simps [simp del]

definition publishWithRetry :: "audit_env \<Rightarrow> json \<Rightarrow> audit_state \<Rightarrow> bool \<times> audit_state" where
  "publishWithRetry e p st = publish_from e p 1 st"

definition saveToFallbackFile :: "audit_env \<Rightarrow> json \<Rightarrow> audit_state \<Rightarrow> audit_state" where
  "saveToFallbackFile e p st = (if av_file e then st\<lparr>as_file := as_file st @ [p]\<rparr> else st)"

definition alertAdmin :: "audit_env \<Rightarrow> audit_state \<Rightarrow> audit_state" where
  "alertAdmin e st =
     (if falsy (av_alert_email e) then st else st\<lparr>as_alerts := as_alerts st @ [the (av_alert_email e)]\<rparr>)"

definition saveToOutbox :: "audit_env \<Rightarrow> json \<Rightarrow> audit_state \<Rightarrow> audit_state" where
  "saveToOutbox e p st =
     (if av_mongo e then st\<lparr>as_outbox := as_outbox st @ [p]\<rparr> else alertAdmin e (saveToFallbackFile e p st))"

text \<open>The promise of \<open>logAudit\<close> resolves in every case below.\<close>

definition logAudit :: "audit_env \<Rightarrow> audit_entry \<Rightarrow> audit_state \<Rightarrow> audit_state" where
  "logAudit e a st =
     (let p = audit_payload (av_now e) a in
      case publishWithRetry e p st of (sent, st1) \<Rightarrow> if sent then st1 else saveToOutbox e p st1)"

section \<open>The consumer\<close>

definition audit_column :: "(string \<times> json) list \<Rightarrow> string \<Rightarrow> (string \<times> json)" where
  "audit_column kv k = (k, case map_of kv k of Some v \<Rightarrow> v | None \<Rightarrow> JNull)"

definition audit_row :: "json \<Rightarrow> json" where
  "audit_row entry =
     (case entry of
        JObj kv \<Rightarrow>
          JObj (map (audit_column kv)
            [''eventType'', ''entityType'', ''entityId'', ''action'', ''oldValue'', ''newValue'', ''performedBy'',
             ''actorType'', ''keyType'', ''organizationId'', ''reason'', ''timestamp''])
      | v \<Rightarrow> v)"

text \<open>\<open>db_ok\<close> tells whether the insertion of each attempt succeeds, from 0.\<close>

function store_from :: "(nat \<Rightarrow> bool) \<Rightarrow> json \<Rightarrow> nat \<Rightarrow> audit_state \<Rightarrow> delivery \<times> audit_state" where
  "store_from db_ok entry attempt st =
     (if getQueueMaxRetries ''audit_logs'' < attempt then (DeadLettered, st)
      else if db_ok attempt then (Acked, st\<lparr>as_trail := as_trail st @ [audit_row entry]\<rparr>)
      else store_from db_ok entry (Suc attempt) st)"
  by pat_completeness auto
termination
  by (relation "measure (\<lambda>(db_ok, entry, attempt, st). Suc (getQueueMaxRetries ''audit_logs'') - attempt)") auto

declare store_from.simps [simp del]

definition audit_consumer :: "mq_env \<Rightarrow> (nat \<Rightarrow> bool) \<Rightarrow> json option \<Rightarrow> audit_state \<Rightarrow> delivery \<times> audit_state" where
  "audit_consumer q db_ok content st =
     (case parseIncomingMessage q ''audit_logs'' content of
        Inl _ \<Rightarrow> (DeadLettered, st)
      | Inr entry \<Rightarrow> store_from db_ok entry 0 st)"

section \<open>Lemmas\<close>

lemma audit_stores_simps [simp]:
  "as_queue (queue_entry p st) = as_queue st @ [p]" "as_outbox (queue_entry p st) = as_outbox st"
  "as_file (queue_entry p st) = as_file st" "as_trail (queue_entry p st) = as_trail st"
  "as_queue (alertAdmin e st) = as_queue st" "as_outbox (alertAdmin e st) = as_outbox st"
  "as_file (alertAdmin e st) = as_file st" "as_trail (alertAdmin e st) = as_trail st"
  by (simp_all add: queue_entry_def alertAdmin_def)

lemma publish_from_effect:
  "publish_from e p k st = (sent, st') \<Longrightarrow>
     \<exists>n. as_queue st' = as_queue st @ replicate n p \<and> n \<le> Suc AUDIT_MAX_RETRIES - k \<and> (sent \<longrightarrow> 0 < n) \<and>
       (0 < n \<longleftrightarrow> (\<exists>i\<ge>k. i \<le> AUDIT_MAX_RETRIES \<and> av_channel e i \<noteq> NotConnected)) \<and>
       as_trail st' = as_trail st \<and> as_outbox st' = as_outbox st \<and> as_file st' = as_file st"
proof (induction e p k st rule: publish_from.induct)
  case (1 e p k st)
  show ?case
  proof (cases "AUDIT_MAX_RETRIES < k")
    case True
    then show ?thesis using 1(3) by (intro exI [of _ 0]) (auto simp: publish_from.simps [of e p k])
  next
    case False
    then have split: "(\<exists>i\<ge>k. i \<le> AUDIT_MAX_RETRIES \<and> av_channel e i \<noteq> NotConnected) \<longleftrightarrow>
        av_channel e k \<noteq> NotConnected \<or> (\<exists>i\<ge>Suc k. i \<le> AUDIT_MAX_RETRIES \<and> av_channel e i \<noteq> NotConnected)"
      by (metis Suc_leD le_antisym not_less not_less_eq_eq)
    show ?thesis
    proof (cases "av_channel e k")
      case NotConnected
      then have step: "publish_from e p (Suc k) st = (sent, st')"
        using 1(3) False by (simp add: publish_from.simps [of e p k])
      obtain n where "as_queue st' = as_queue st @ replicate n p" "n \<le> Suc AUDIT_MAX_RETRIES - Suc k"
        "sent \<longrightarrow> 0 < n" "0 < n \<longleftrightarrow> (\<exists>i\<ge>Suc k. i \<le> AUDIT_MAX_RETRIES \<and> av_channel e i \<noteq> NotConnected)"
        "as_trail st' = as_trail st" "as_outbox st' = as_outbox st" "as_file st' = as_file st"
        using 1(1) [OF False NotConnected step] by blast
      then show ?thesis using split NotConnected by (intro exI [of _ n]) simp
    next
      case BufferFull
      then have step: "publish_from e p (Suc k) (queue_entry p st) = (sent, st')"
        using 1(3) False by (simp add: publish_from.simps [of e p k])
      obtain n where "as_queue st' = (as_queue st @ [p]) @ replicate n p" "n \<le> Suc AUDIT_MAX_RETRIES - Suc k"
          "as_trail st' = as_trail st" "as_outbox st' = as_outbox st" "as_file st' = as_file st"
        using 1(2) [OF False BufferFull step] by auto
      then show ?thesis using split BufferFull False by (intro exI [of _ "Suc n"]) auto
    next
      case Accepted
      then show ?thesis using 1(3) False split
        by (intro exI [of _ 1]) (auto simp: publish_from.simps [of e p k])
    qed
  qed
qed

lemma tries_list: "(\<exists>i\<ge>1. i \<le> AUDIT_MAX_RETRIES \<and> P i) \<longleftrightarrow> list_ex P [1, 2, 3]"
proof -
  have "1 \<le> i \<and> i \<le> AUDIT_MAX_RETRIES \<longleftrightarrow> i = 1 \<or> i = 2 \<or> i = 3" for i
    unfolding AUDIT_MAX_RETRIES_def by auto
  then have "(\<exists>i\<ge>1. i \<le> AUDIT_MAX_RETRIES \<and> P i) \<longleftrightarrow> (\<exists>i. (i = 1 \<or> i = 2 \<or> i = 3) \<and> P i)" by metis
  also have "\<dots> \<longleftrightarrow> P 1 \<or> P 2 \<or> P 3" by blast
  finally show ?thesis by simp
qed

text \<open>Where an entry is after \<open>logAudit\<close>.\<close>

definition audit_kept :: "json \<Rightarrow> audit_state \<Rightarrow> bool" where
  "audit_kept p st \<longleftrightarrow> p \<in> set (as_queue st) \<or> p \<in> set (as_outbox st) \<or> p \<in> set (as_file st)"

lemma logAudit_cases:
  assumes "p = audit_payload (av_now e) a"
  obtains n where "as_queue (logAudit e a st) = as_queue st @ replicate n p" and "n \<le> AUDIT_MAX_RETRIES"
    and "0 < n \<longleftrightarrow> list_ex (\<lambda>i. av_channel e i \<noteq> NotConnected) [1, 2, 3]"
    and "as_trail (logAudit e a st) = as_trail st"
    and "0 < n \<or> av_mongo e \<and> p \<in> set (as_outbox (logAudit e a st)) \<or>
      \<not> av_mongo e \<and> (av_file e \<longrightarrow> p \<in> set (as_file (logAudit e a st)))"
proof -
  obtain sent st1 where st1: "publishWithRetry e p st = (sent, st1)" by fastforce
  then obtain n where n: "as_queue st1 = as_queue st @ replicate n p" "n \<le> Suc AUDIT_MAX_RETRIES - 1"
    "sent \<longrightarrow> 0 < n" "0 < n \<longleftrightarrow> (\<exists>i\<ge>1. i \<le> AUDIT_MAX_RETRIES \<and> av_channel e i \<noteq> NotConnected)"
    "as_trail st1 = as_trail st"
    unfolding publishWithRetry_def by (blast dest: publish_from_effect)
  have log: "logAudit e a st = (if sent then st1 else saveToOutbox e p st1)"
    using st1 assms by (simp add: logAudit_def)
  show ?thesis
  proof (rule that)
    show "as_queue (logAudit e a st) = as_queue st @ replicate n p" "as_trail (logAudit e a st) = as_trail st"
      using n(1,5) by (simp_all add: log saveToOutbox_def saveToFallbackFile_def)
    show "0 < n \<or> av_mongo e \<and> p \<in> set (as_outbox (logAudit e a st)) \<or>
        \<not> av_mongo e \<and> (av_file e \<longrightarrow> p \<in> set (as_file (logAudit e a st)))"
      using n(3) by (auto simp: log saveToOutbox_def saveToFallbackFile_def)
  qed (use n in \<open>simp_all add: tries_list [simplified]\<close>)
qed

lemma field_key: "j \<noteq> k \<Longrightarrow> map_of (field k v) j = None"
  by (simp add: field_def split: option.split)

lemma audit_payload_keys: "\<exists>kv. audit_payload t a = JObj kv \<and> map_of kv ''payload'' = None"
  by (simp add: audit_payload_def Let_def field_key)

section \<open>Properties\<close>

text \<open>
  An entry that is logged while the broker, MongoDB or the log file can be written is kept in one of them, at
  most three times in the queue, and \<open>logAudit\<close> itself writes no row of the audit trail.
\<close>

theorem audit_entry_kept:
  assumes "list_ex (\<lambda>i. av_channel e i \<noteq> NotConnected) [1, 2, 3] \<or> av_mongo e \<or> av_file e"
  shows "audit_kept (audit_payload (av_now e) a) (logAudit e a st) \<and>
    (\<exists>n. as_queue (logAudit e a st) = as_queue st @ replicate n (audit_payload (av_now e) a) \<and> n \<le> AUDIT_MAX_RETRIES) \<and>
    as_trail (logAudit e a st) = as_trail st"
proof -
  define p where p: "p = audit_payload (av_now e) a"
  obtain n where n: "as_queue (logAudit e a st) = as_queue st @ replicate n p" "n \<le> AUDIT_MAX_RETRIES"
    "0 < n \<longleftrightarrow> list_ex (\<lambda>i. av_channel e i \<noteq> NotConnected) [1, 2, 3]" "as_trail (logAudit e a st) = as_trail st"
    "0 < n \<or> av_mongo e \<and> p \<in> set (as_outbox (logAudit e a st)) \<or>
      \<not> av_mongo e \<and> (av_file e \<longrightarrow> p \<in> set (as_file (logAudit e a st)))"
    using logAudit_cases [OF p] by blast
  have "audit_kept p (logAudit e a st)"
  proof (cases "0 < n")
    case True
    then show ?thesis using n(1) by (simp add: audit_kept_def)
  next
    case False
    then show ?thesis using n(3,5) assms by (auto simp: audit_kept_def)
  qed
  then show ?thesis using n(1,2,4) p by blast
qed

text \<open>
  The consumer stores no entry that \<open>logAudit\<close> has queued: the service sends the bare entry, the consumer
  requires the envelope of \<open>publishValidatedMessage\<close>, so the message goes to the dead letter queue and
  \<open>audit_trail\<close> stays as it is, whatever the database does.
\<close>

theorem logged_entries_never_stored:
  "audit_consumer q db_ok (Some (audit_payload t a)) st = (DeadLettered, st)"
proof -
  obtain kv where kv: "audit_payload t a = JObj kv" "map_of kv ''payload'' = None"
    using audit_payload_keys by blast
  show ?thesis using unenveloped_message [OF kv(2)] by (simp add: audit_consumer_def kv(1))
qed

lemma store_from_effect:
  "k \<le> 4 \<Longrightarrow> store_from db_ok entry k st =
     (if \<exists>i\<ge>k. i < 4 \<and> db_ok i then (Acked, st\<lparr>as_trail := as_trail st @ [audit_row entry]\<rparr>) else (DeadLettered, st))"
proof (induction "4 - k" arbitrary: k)
  case 0
  then have "k = 4" by simp
  then show ?case by (simp add: store_from.simps [of db_ok entry 4] getQueueMaxRetries_def QUEUE_RETRY_LIMITS_def)
next
  case (Suc n)
  then have k: "k < 4" by simp
  have m: "getQueueMaxRetries ''audit_logs'' = 3" by (simp add: getQueueMaxRetries_def QUEUE_RETRY_LIMITS_def)
  show ?case
  proof (cases "db_ok k")
    case True
    then show ?thesis using k m by (auto simp: store_from.simps [of db_ok entry k])
  next
    case False
    then have "(\<exists>i\<ge>k. i < 4 \<and> db_ok i) \<longleftrightarrow> (\<exists>i\<ge>Suc k. i < 4 \<and> db_ok i)" by (metis Suc_leD le_neq_implies_less Suc_leI)
    then show ?thesis using False k m Suc(1) [of "Suc k"] Suc(2) by (simp add: store_from.simps [of db_ok entry k])
  qed
qed

definition sample_entry :: audit_entry where
  "sample_entry =
     \<lparr>ae_event_type = ''auth'', ae_entity_type = Some ''user'', ae_entity_id = None, ae_action = ''signin'',
      ae_old_value = None, ae_new_value = Some (JBool True), ae_performed_by = Some ''u1'', ae_actor_type = None,
      ae_key_type = Some ADMIN_KEY, ae_organization = None, ae_reason = None\<rparr>"

definition sample_audit_env :: audit_env where
  "sample_audit_env =
     \<lparr>av_now = ''2026-01-01T00:00:00.000Z'', av_channel = (\<lambda>i. if i = 3 then Accepted else NotConnected),
      av_mongo = False, av_file = False, av_alert_email = None\<rparr>"

definition no_audits :: audit_state where
  "no_audits = \<lparr>as_queue = [], as_outbox = [], as_file = [], as_alerts = [], as_trail = []\<rparr>"

theorem audit_entry_kept_witness:
  "audit_kept (audit_payload (av_now sample_audit_env) sample_entry) (logAudit sample_audit_env sample_entry no_audits) \<and>
    (\<exists>n. as_queue (logAudit sample_audit_env sample_entry no_audits) =
       as_queue no_audits @ replicate n (audit_payload (av_now sample_audit_env) sample_entry) \<and> n \<le> AUDIT_MAX_RETRIES) \<and>
    as_trail (logAudit sample_audit_env sample_entry no_audits) = as_trail no_audits"
  by (rule audit_entry_kept) (simp add: sample_audit_env_def)

text \<open>
  An entry that is published through the audit producer of \<open>src/jobs/producers\<close>, with its envelope, is written to
  the audit trail by the consumer, once, with the columns of the validated entry, if one of the four insertions that
  the consumer tries succeeds; otherwise the message is dead-lettered and nothing is written.
\<close>

theorem produced_entry_stored:
  assumes "validateMessage q ''audit_logs'' payload = Inr p" and "wire p = p"
    and "mq_uuid q uuid" and "mq_datetime q sent"
  shows "\<exists>content. producer_publish q None ''audit_logs'' uuid sent payload = Inr content \<and>
    audit_consumer q db_ok (Some content) st =
      (if list_ex db_ok [0, 1, 2, 3] then (Acked, st\<lparr>as_trail := as_trail st @ [audit_row p]\<rparr>) else (DeadLettered, st))"
proof -
  obtain content where c: "publishValidatedMessage q ''audit_logs'' uuid sent p = Inr content"
    "parseIncomingMessage q ''audit_logs'' (Some content) = Inr p"
    using publish_parses [OF validate_again [OF assms(1)] assms(2-4)] by blast
  have four: "(\<exists>i\<ge>0. i < 4 \<and> db_ok i) \<longleftrightarrow> list_ex db_ok [0, 1, 2, 3]"
    by (auto simp: numeral_eq_Suc less_Suc_eq)
  have "audit_consumer q db_ok (Some content) st =
      (if list_ex db_ok [0, 1, 2, 3] then (Acked, st\<lparr>as_trail := as_trail st @ [audit_row p]\<rparr>) else (DeadLettered, st))"
    using store_from_effect [of 0 db_ok p st] unfolding four by (simp add: audit_consumer_def c(2))
  then show ?thesis using assms(1) c(1) by (simp add: producer_publish_def)
qed

definition sample_columns :: json where
  "sample_columns =
     JObj [(''eventType'', JStr ''auth''), (''entityType'', JStr ''user''), (''action'', JStr ''signin''),
       (''newValue'', JBool True), (''performedBy'', JStr ''u1''), (''keyType'', JStr ''ADMIN_KEY''),
       (''timestamp'', JStr ''2026-01-01T00:00:00.000Z'')]"

lemma sample_entry_validates:
  "validateMessage plain_env ''audit_logs'' (audit_payload ''2026-01-01T00:00:00.000Z'' sample_entry) = Inr sample_columns"
  using plain_formats(2)
  by (simp add: validateMessage_def QUEUE_SCHEMAS_def AuditLogSchema_def nullish_string_def z_string_def min_len_def
      audit_payload_def sample_entry_def field_def key_type_name_def sample_columns_def getMissingAdminAttributionFields_def falsy_def)

theorem produced_entry_stored_witness:
  "\<exists>content. producer_publish plain_env None ''audit_logs'' ''123e4567-e89b-42d3-a456-426614174000''
       ''2026-01-01T00:00:00.000Z'' (audit_payload ''2026-01-01T00:00:00.000Z'' sample_entry) = Inr content \<and>
     audit_consumer plain_env (\<lambda>i. i = 3) (Some content) no_audits =
       (Acked, no_audits\<lparr>as_trail := as_trail no_audits @ [audit_row sample_columns]\<rparr>)"
  using produced_entry_stored [OF sample_entry_validates _ plain_formats, of "\<lambda>i. i = 3" no_audits]
  by (simp add: sample_columns_def)

end
