(* ===== verification/Notifications.thy ===== *)
theory Notifications
  imports Messages
begin

text \<open>
  Messages to people: \<open>src/services/email/emailService.ts\<close> (the SMTP pool),
  \<open>src/services/notification/notificationService.ts\<close> (the providers and the texts) and
  \<open>src/jobs/notificationConsumer.ts\<close>, with the function of the authentication service that queues a code.
  A function that may throw returns a boolean, false for a throw, with the state it has reached.
\<close>

section \<open>State\<close>

datatype posted =
    SmtpMail string string string
  | SendGridPost "string list" string string
  | TwilioPost string string
  | AfricasTalkingPost string string
  | LoggedOnly string

record nt_state =
  nt_active :: int                       \<comment> \<open>\<open>poolMetrics\<close>\<close>
  nt_in_flight :: int
  nt_completed :: int
  nt_closed :: int
  nt_leaks :: int
  nt_sent :: "posted list"

record contact =
  co_id :: string
  co_email :: "string option"
  co_phone :: "string option"
  co_org :: "string option"

record nt_env =
  ne_email_provider :: string
  ne_smtp_host :: string
  ne_sendgrid_key :: string
  ne_ses_keys :: "string \<times> string"
  ne_sms_provider :: string
  ne_twilio :: "string \<times> string \<times> string"   \<comment> \<open>account, token, number\<close>
  ne_africas_talking :: "string \<times> string"      \<comment> \<open>key, user name\<close>
  ne_alert_email :: string
  ne_accepts :: "posted \<Rightarrow> bool"               \<comment> \<open>whether the provider takes it\<close>
  ne_closes :: bool                            \<comment> \<open>whether the SMTP transport closes\<close>
  ne_users :: "contact list"

definition then_send :: "bool \<times> 's \<Rightarrow> ('s \<Rightarrow> bool \<times> 's) \<Rightarrow> bool \<times> 's" where
  "then_send r k = (if fst r then k (snd r) else r)"

fun send_each :: "('a \<Rightarrow> 's \<Rightarrow> bool \<times> 's) \<Rightarrow> 'a list \<Rightarrow> 's \<Rightarrow> bool \<times> 's" where
  "send_each f [] st = (True, st)"
| "send_each f (x # xs) st = then_send (f x st) (send_each f xs)"

definition post :: "nt_env \<Rightarrow> posted \<Rightarrow> nt_state \<Rightarrow> bool \<times> nt_state" where
  "post e p st = (if ne_accepts e p then (True, st\<lparr>nt_sent := nt_sent st @ [p]\<rparr>) else (False, st))"

definition log_only :: "string \<Rightarrow> nt_state \<Rightarrow> bool \<times> nt_state" where
  "log_only kind st = (True, st\<lparr>nt_sent := nt_sent st @ [LoggedOnly kind]\<rparr>)"

section \<open>The SMTP pool\<close>

definition createSmtpTransport :: "nt_env \<Rightarrow> nt_state \<Rightarrow> bool \<times> nt_state" where
  "createSmtpTransport e st = (if ne_smtp_host e = [] then (False, st) else (True, st\<lparr>nt_active := nt_active st + 1\<rparr>))"

definition closeSmtpTransport :: "nt_env \<Rightarrow> nt_state \<Rightarrow> bool \<times> nt_state" where
  "closeSmtpTransport e st =
     (let release = (\<lambda>s. s\<lparr>nt_active := max 0 (nt_active s - 1)\<rparr>) in
      if ne_closes e then (True, release (st\<lparr>nt_closed := nt_closed st + 1\<rparr>))
      else (False, release (st\<lparr>nt_leaks := nt_leaks st + 1\<rparr>)))"

definition recordPoolLeakIfDetected :: "nt_state \<Rightarrow> nt_state" where
  "recordPoolLeakIfDetected st = (if 0 < nt_active st then st\<lparr>nt_leaks := nt_leaks st + 1\<rparr> else st)"

definition smtp_mail :: "nt_env \<Rightarrow> string \<times> string \<times> string \<Rightarrow> nt_state \<Rightarrow> bool \<times> nt_state" where
  "smtp_mail e m = (case m of (recipient, subject, body) \<Rightarrow> post e (SmtpMail recipient subject body))"

text \<open>The \<open>finally\<close> block: its own error replaces the outcome of the sending.\<close>

definition finish_batch :: "nt_env \<Rightarrow> bool \<times> nt_state \<Rightarrow> bool \<times> nt_state" where
  "finish_batch e r =
     (case closeSmtpTransport e (snd r) of
        (False, st) \<Rightarrow> (False, st)
      | (True, st) \<Rightarrow>
          (fst r, recordPoolLeakIfDetected
             (st\<lparr>nt_in_flight := nt_in_flight st - 1, nt_completed := nt_completed st + 1\<rparr>)))"

definition sendSmtpEmailBatch :: "nt_env \<Rightarrow> (string \<times> string \<times> string) list \<Rightarrow> nt_state \<Rightarrow> bool \<times> nt_state" where
  "sendSmtpEmailBatch e messages st =
     (if messages = [] then (True, st)
      else
        (case createSmtpTransport e (st\<lparr>nt_in_flight := nt_in_flight st + 1\<rparr>) of
           (False, st1) \<Rightarrow> (False, st1)
         | (True, st1) \<Rightarrow> finish_batch e (send_each (smtp_mail e) messages st1)))"

definition sendSmtpEmail :: "nt_env \<Rightarrow> string \<Rightarrow> string \<Rightarrow> string \<Rightarrow> nt_state \<Rightarrow> bool \<times> nt_state" where
  "sendSmtpEmail e recipient subject body = sendSmtpEmailBatch e [(recipient, subject, body)]"

section \<open>Providers\<close>

definition recipients_of :: "string \<Rightarrow> string list" where
  "recipients_of s = filter (\<lambda>a. a \<noteq> []) (map trim (split_on CHR '','' s))"

definition sendEmail :: "nt_env \<Rightarrow> string \<Rightarrow> string \<Rightarrow> string \<Rightarrow> nt_state \<Rightarrow> bool \<times> nt_state" where
  "sendEmail e recipient subject body st =
     (if ne_email_provider e = ''smtp'' then sendSmtpEmail e recipient subject body st
      else if ne_email_provider e = ''log'' then log_only ''email'' st
      else if ne_email_provider e = ''sendgrid'' \<and> ne_sendgrid_key e \<noteq> [] then
        post e (SendGridPost (recipients_of recipient) subject body) st
      else if ne_email_provider e = ''ses'' \<and> fst (ne_ses_keys e) \<noteq> [] \<and> snd (ne_ses_keys e) \<noteq> [] then (False, st)
      else log_only ''email'' st)"

definition sendEmailBatch :: "nt_env \<Rightarrow> (string \<times> string \<times> string) list \<Rightarrow> nt_state \<Rightarrow> bool \<times> nt_state" where
  "sendEmailBatch e messages st =
     (if messages = [] then (True, st)
      else if ne_email_provider e = ''smtp'' then sendSmtpEmailBatch e messages st
      else send_each (\<lambda>(recipient, subject, body). sendEmail e recipient subject body) messages st)"

definition sendSms :: "nt_env \<Rightarrow> string \<Rightarrow> string \<Rightarrow> nt_state \<Rightarrow> bool \<times> nt_state" where
  "sendSms e recipient body st =
     (if ne_sms_provider e = ''log'' then log_only ''sms'' st
      else if ne_sms_provider e = ''twilio'' \<and>
          (case ne_twilio e of (account, token, number) \<Rightarrow> account \<noteq> [] \<and> token \<noteq> [] \<and> number \<noteq> []) then
        post e (TwilioPost recipient body) st
      else if ne_sms_provider e = ''africas_talking'' then
        (if fst (ne_africas_talking e) = [] \<or> snd (ne_africas_talking e) = [] then (False, st)
         else post e (AfricasTalkingPost recipient body) st)
      else log_only ''sms'' st)"

section \<open>Texts\<close>

text \<open>\<open>toFixed(2)\<close>: the nearest multiple of 1/100, the larger of two.\<close>

definition to_fixed2 :: "jsnum \<Rightarrow> string" where
  "to_fixed2 n =
     (case n of
        Fin q \<Rightarrow>
          if 10 ^ 21 \<le> \<bar>q\<bar> then js_num_str q
          else
            (let h = \<lfloor>\<bar>q\<bar> * 100 + 1 / 2\<rfloor>; c = h mod 100 in
             (if q < 0 then ''-'' else []) @ int_str (h div 100) @ ''.'' @ (if c < 10 then ''0'' else []) @ int_str c)
      | _ \<Rightarrow> num_str n)"

definition renderOtpTemplate :: "string \<Rightarrow> string" where
  "renderOtpTemplate code = ''Your ACBU verification code is: '' @ code @ ''. Valid for 10 minutes.''"

definition renderWithdrawalStatusTemplate :: "string \<Rightarrow> string \<Rightarrow> jsnum \<Rightarrow> string" where
  "renderWithdrawalStatusTemplate status currency amount =
     ''Your ACBU withdrawal of '' @ num_str amount @ '' '' @ currency @ '' has been '' @ status @ ''.''"

definition renderInvestmentWithdrawalReadyTemplate :: "jsnum \<Rightarrow> string" where
  "renderInvestmentWithdrawalReadyTemplate amount =
     ''Your investment withdrawal of '' @ num_str amount @
     '' ACBU is now available. You can complete the transfer or burn from your wallet.''"

definition renderReserveAlertTemplate :: "string \<Rightarrow> jsnum \<Rightarrow> string" where
  "renderReserveAlertTemplate health ratio =
     ''ACBU reserve alert: health='' @ health @ '', overcollateralization ratio='' @ to_fixed2 ratio @ ''%.''"

section \<open>Processing a payload\<close>

definition jstr :: "json \<Rightarrow> string" where
  "jstr v = (case v of JStr s \<Rightarrow> s | _ \<Rightarrow> [])"

definition jnum :: "json \<Rightarrow> jsnum" where
  "jnum v = (case v of JNum n \<Rightarrow> n | _ \<Rightarrow> NaN)"

definition jhas :: "json \<Rightarrow> string \<Rightarrow> bool" where
  "jhas v s = (case v of JArr xs \<Rightarrow> JStr s \<in> set xs | _ \<Rightarrow> False)"

definition given :: "string option \<Rightarrow> bool" where
  "given s \<longleftrightarrow> s \<noteq> None \<and> s \<noteq> Some []"

definition find_contact :: "nt_env \<Rightarrow> string \<Rightarrow> contact option" where
  "find_contact e i = find (\<lambda>c. co_id c = i) (ne_users e)"

definition contact_email :: "contact option \<Rightarrow> string option" where
  "contact_email c = Option.bind c co_email"

definition contact_phone :: "contact option \<Rightarrow> string option" where
  "contact_phone c = Option.bind c co_phone"

definition processOtpSend :: "nt_env \<Rightarrow> json \<Rightarrow> nt_state \<Rightarrow> bool \<times> nt_state" where
  "processOtpSend e p st =
     (let body = renderOtpTemplate (jstr (jget p ''code'')); recipient = jstr (jget p ''to'') in
      if jget p ''channel'' = JStr ''email'' then sendEmail e recipient ''Your ACBU verification code'' body st
      else if jget p ''channel'' = JStr ''sms'' then sendSms e recipient body st
      else (True, st))"

definition send_when :: "bool \<Rightarrow> ('s \<Rightarrow> bool \<times> 's) \<Rightarrow> 's \<Rightarrow> bool \<times> 's" where
  "send_when c f st = (if c then f st else (True, st))"

definition notify_contact :: "nt_env \<Rightarrow> bool \<Rightarrow> bool \<Rightarrow> contact option \<Rightarrow> string \<Rightarrow> string \<Rightarrow> nt_state \<Rightarrow> bool \<times> nt_state" where
  "notify_contact e by_email by_sms c subject body st =
     then_send (send_when (by_email \<and> given (contact_email c)) (sendEmail e (the (contact_email c)) subject body) st)
       (send_when (by_sms \<and> given (contact_phone c)) (sendSms e (the (contact_phone c)) body))"

definition notify_organization :: "nt_env \<Rightarrow> string \<Rightarrow> string \<Rightarrow> nt_state \<Rightarrow> bool \<times> nt_state" where
  "notify_organization e org body st =
     (let members = filter (\<lambda>c. co_org c = Some org) (ne_users e) in
      then_send
        (sendEmailBatch e
           (map (\<lambda>c. (the (co_email c), ''Organization investment withdrawal is ready'', body))
              (filter (\<lambda>c. given (co_email c)) members)) st)
        (send_each (\<lambda>c. sendSms e (the (co_phone c)) body) (filter (\<lambda>c. given (co_phone c)) members)))"

definition processNotification :: "nt_env \<Rightarrow> json \<Rightarrow> nt_state \<Rightarrow> bool \<times> nt_state" where
  "processNotification e p st =
     (let user = jstr (jget p ''userId''); org = jstr (jget p ''organizationId'') in
      if jget p ''type'' = JStr ''reserve_alert'' then
        send_when (ne_alert_email e \<noteq> [])
          (sendEmail e (ne_alert_email e) ''ACBU Reserve Alert''
             (renderReserveAlertTemplate (jstr (jget p ''health'')) (jnum (jget p ''overcollateralizationRatio'')))) st
      else if jget p ''type'' = JStr ''withdrawal_status'' then
        send_when (user \<noteq> [])
          (notify_contact e (jhas (jget p ''channel'') ''email'') (jhas (jget p ''channel'') ''sms'') (find_contact e user)
             ''ACBU Withdrawal Update''
             (renderWithdrawalStatusTemplate (jstr (jget p ''status'')) (jstr (jget p ''currency'')) (jnum (jget p ''amount'')))) st
      else if jget p ''type'' = JStr ''investment_withdrawal_ready'' then
        (let body = renderInvestmentWithdrawalReadyTemplate (jnum (jget p ''amountAcbu'')) in
         then_send
           (send_when (user \<noteq> [])
              (notify_contact e True True (find_contact e user) ''Your investment withdrawal is ready'' body) st)
           (send_when (org \<noteq> []) (notify_organization e org body)))
      else (True, st))"

section \<open>The consumer\<close>

text \<open>
  \<open>notificationConsumer.ts\<close> calls \<open>parseIncomingMessage\<close> but imports only \<open>parseQueueMessage\<close>: the call
  throws a \<open>ReferenceError\<close> inside the \<open>try\<close>, which is not a validation error. \<open>imported\<close> tells whether the
  name is bound; in the source it is not.
\<close>

definition parse_imported :: bool where
  "parse_imported = False"

definition notification_job ::
  "bool \<Rightarrow> mq_env \<Rightarrow> string \<Rightarrow> (json \<Rightarrow> nt_state \<Rightarrow> bool \<times> nt_state) \<Rightarrow> json option \<Rightarrow> nat \<Rightarrow> nt_state \<Rightarrow> delivery \<times> nt_state" where
  "notification_job imported q queue process content retries st =
     (if imported then consume_validated q queue process retries content st
      else (settle_message (getQueueMaxRetries queue) retries False, st))"

definition otp_consumer :: "mq_env \<Rightarrow> nt_env \<Rightarrow> json option \<Rightarrow> nat \<Rightarrow> nt_state \<Rightarrow> delivery \<times> nt_state" where
  "otp_consumer q e = notification_job parse_imported q ''otp_send'' (processOtpSend e)"

definition notification_consumer :: "mq_env \<Rightarrow> nt_env \<Rightarrow> json option \<Rightarrow> nat \<Rightarrow> nt_state \<Rightarrow> delivery \<times> nt_state" where
  "notification_consumer q e = notification_job parse_imported q ''notifications'' (processNotification e)"

text \<open>A message is delivered again, with one more retry, until it is acknowledged or dead-lettered.\<close>

fun deliver_until :: "(nat \<Rightarrow> 's \<Rightarrow> delivery \<times> 's) \<Rightarrow> nat \<Rightarrow> nat \<Rightarrow> 's \<Rightarrow> delivery \<times> 's" where
  "deliver_until consume 0 retries st = (Requeued, st)"
| "deliver_until consume (Suc n) retries st =
     (case consume retries st of
        (Requeued, st1) \<Rightarrow> deliver_until consume n (Suc retries) st1
      | r \<Rightarrow> r)"

text \<open>\<open>publishOtp\<close> of the authentication service and \<open>publishOtpToQueue\<close> of the recovery service.\<close>

definition publishOtp :: "string \<Rightarrow> string \<Rightarrow> string \<Rightarrow> json" where
  "publishOtp channel recipient code = JObj [(''channel'', JStr channel), (''to'', JStr recipient), (''code'', JStr code)]"

section \<open>Lemmas\<close>

lemma then_send_simps [simp]: "then_send (True, st) k = k st" "then_send (False, st) k = (False, st)"
  by (simp_all add: then_send_def)

lemma smtp_each:
  "send_each (smtp_mail e) messages st =
     (list_all (\<lambda>(r, s, b). ne_accepts e (SmtpMail r s b)) messages,
      st\<lparr>nt_sent := nt_sent st @ takeWhile (ne_accepts e) (map (\<lambda>(r, s, b). SmtpMail r s b) messages)\<rparr>)"
  by (induction messages arbitrary: st) (auto simp: smtp_mail_def post_def split: prod.split)

lemma settle_throw: "settle_message m n False = (if m \<le> n then DeadLettered else Requeued)"
  by (simp add: settle_message_def)

section \<open>Properties\<close>

text \<open>
  A batch of mails takes one transport and gives it back. When a host is configured and the transport closes, the
  counters of transports and of batches in flight are what they were, the batch counts as completed whether or not a
  mail was refused, the mails before the first refusal have been sent, in order, and the call returns exactly when
  none was refused.
\<close>

theorem smtp_pool_balanced:
  assumes "ne_smtp_host e \<noteq> []" and "ne_closes e" and "0 \<le> nt_active st" and "messages \<noteq> []"
    and "sendSmtpEmailBatch e messages st = (returned, st')"
  shows "nt_active st' = nt_active st \<and> nt_in_flight st' = nt_in_flight st \<and> nt_completed st' = nt_completed st + 1 \<and>
    nt_closed st' = nt_closed st + 1 \<and> nt_leaks st' = nt_leaks st + (if nt_active st = 0 then 0 else 1) \<and>
    nt_sent st' = nt_sent st @ takeWhile (ne_accepts e) (map (\<lambda>(r, s, b). SmtpMail r s b) messages) \<and>
    (returned \<longleftrightarrow> list_all (\<lambda>(r, s, b). ne_accepts e (SmtpMail r s b)) messages)"
  using assms
  by (auto simp: sendSmtpEmailBatch_def createSmtpTransport_def finish_batch_def closeSmtpTransport_def
      recordPoolLeakIfDetected_def smtp_each Let_def)

definition sample_nt_env :: nt_env where
  "sample_nt_env =
     \<lparr>ne_email_provider = ''smtp'', ne_smtp_host = ''smtp.example.com'', ne_sendgrid_key = [], ne_ses_keys = ([], []),
      ne_sms_provider = ''log'', ne_twilio = ([], [], []), ne_africas_talking = ([], []), ne_alert_email = [],
      ne_accepts = (\<lambda>p. p \<noteq> SmtpMail ''b@x'' ''s'' ''t''), ne_closes = True, ne_users = []\<rparr>"

definition nt_start :: nt_state where
  "nt_start = \<lparr>nt_active = 0, nt_in_flight = 0, nt_completed = 0, nt_closed = 0, nt_leaks = 0, nt_sent = []\<rparr>"

definition two_mails :: "(string \<times> string \<times> string) list" where
  "two_mails = [(''a@x'', ''s'', ''t''), (''b@x'', ''s'', ''t'')]"

lemma sample_batch:
  "sendSmtpEmailBatch sample_nt_env two_mails nt_start =
     (False, nt_start\<lparr>nt_completed := 1, nt_closed := 1, nt_sent := [SmtpMail ''a@x'' ''s'' ''t'']\<rparr>)"
  by (simp add: sendSmtpEmailBatch_def createSmtpTransport_def finish_batch_def closeSmtpTransport_def
      recordPoolLeakIfDetected_def smtp_mail_def post_def Let_def sample_nt_env_def nt_start_def two_mails_def)

theorem smtp_pool_balanced_witness:
  "nt_active (nt_start\<lparr>nt_completed := 1, nt_closed := 1, nt_sent := [SmtpMail ''a@x'' ''s'' ''t'']\<rparr>) = nt_active nt_start \<and>
   \<not> list_all (\<lambda>(r, s, b). ne_accepts sample_nt_env (SmtpMail r s b)) two_mails"
proof -
  have "ne_smtp_host sample_nt_env \<noteq> []" "ne_closes sample_nt_env" "0 \<le> nt_active nt_start" "two_mails \<noteq> []"
    by (simp_all add: sample_nt_env_def nt_start_def two_mails_def)
  from smtp_pool_balanced [OF this sample_batch] show ?thesis by blast
qed

text \<open>
  A call of the SMTP pool without a configured host throws after it has counted a batch in flight and before the
  block that would take it back, so every such call leaves the counter of batches in flight one higher, for good.
\<close>

theorem smtp_batches_leak:
  assumes "ne_smtp_host e = []" and "messages \<noteq> []"
  shows "nt_in_flight (((\<lambda>s. snd (sendSmtpEmailBatch e messages s)) ^^ n) st) = nt_in_flight st + int n"
  using assms by (induction n) (simp_all add: sendSmtpEmailBatch_def createSmtpTransport_def)

theorem smtp_batches_leak_witness:
  "nt_in_flight (((\<lambda>s. snd (sendSmtpEmailBatch (sample_nt_env\<lparr>ne_smtp_host := []\<rparr>) two_mails s)) ^^ 3) nt_start) =
     nt_in_flight nt_start + int 3"
  by (rule smtp_batches_leak) (simp_all add: two_mails_def)

text \<open>
  No queued one-time code is ever sent. The consumer throws on every message, so after its six deliveries the
  message is dead-lettered and no provider has been called. Binding the parser it calls would not help: the
  authentication and recovery services queue the code without the envelope, and the message would be
  dead-lettered at its first delivery.
\<close>

theorem queued_codes_never_sent:
  "deliver_until (otp_consumer q e (Some (publishOtp channel recipient code))) 6 0 st = (DeadLettered, st) \<and>
   notification_job True q ''otp_send'' (processOtpSend e) (Some (publishOtp channel recipient code)) n st = (DeadLettered, st)"
proof
  have "getQueueMaxRetries ''otp_send'' = 5" by (simp add: getQueueMaxRetries_def QUEUE_RETRY_LIMITS_def)
  then show "deliver_until (otp_consumer q e (Some (publishOtp channel recipient code))) 6 0 st = (DeadLettered, st)"
    by (simp add: numeral_eq_Suc otp_consumer_def notification_job_def parse_imported_def settle_throw)
  show "notification_job True q ''otp_send'' (processOtpSend e) (Some (publishOtp channel recipient code)) n st = (DeadLettered, st)"
    by (simp add: notification_job_def publishOtp_def unenveloped_dead_lettered)
qed

end
