(* ===== verification/Webhooks.thy ===== *)
theory Webhooks
  imports Messages
begin

text \<open>
  Outgoing webhooks: \<open>src/services/webhook/webhookService.ts\<close>, which stores an event, queues it and delivers
  it with the retry policy of the endpoint, and \<open>src/jobs/webhookConsumer.ts\<close>. The URL parser, the text that
  \<open>JSON.stringify\<close> writes, the HMAC and the outcomes of the endpoint and of the database are arguments.
\<close>

section \<open>Retry policies\<close>

record retry_policy =
  rp_max_attempts :: nat
  rp_initial_ms :: nat
  rp_max_ms :: nat
  rp_multiplier :: nat

definition DEFAULT_RETRY_POLICY :: retry_policy where
  "DEFAULT_RETRY_POLICY = \<lparr>rp_max_attempts = 5, rp_initial_ms = 1000, rp_max_ms = 60000, rp_multiplier = 2\<rparr>"

definition ENDPOINT_RETRY_POLICIES :: "((string \<Rightarrow> bool) \<times> retry_policy) list" where
  "ENDPOINT_RETRY_POLICIES =
     [(\<lambda>h. str_includes h ''partner'' \<or> str_includes h ''api'',
       \<lparr>rp_max_attempts = 8, rp_initial_ms = 2500, rp_max_ms = 60000, rp_multiplier = 2\<rparr>)]"

text \<open>\<open>hostname\<close> is None where the constructor of \<open>URL\<close> throws.\<close>

definition getRetryPolicyForUrl :: "(string \<Rightarrow> string option) \<Rightarrow> string \<Rightarrow> retry_policy" where
  "getRetryPolicyForUrl hostname url =
     (if url = [] then DEFAULT_RETRY_POLICY
      else
        (case hostname url of
           None \<Rightarrow> DEFAULT_RETRY_POLICY
         | Some h \<Rightarrow>
             (case find (\<lambda>(matches, p). matches (to_lower h)) ENDPOINT_RETRY_POLICIES of
                Some (matches, p) \<Rightarrow> p
              | None \<Rightarrow> DEFAULT_RETRY_POLICY)))"

definition retry_delay :: "retry_policy \<Rightarrow> nat \<Rightarrow> nat" where
  "retry_delay p attempts = min (rp_initial_ms p * rp_multiplier p ^ (attempts - 1)) (rp_max_ms p)"

section \<open>State\<close>

datatype hook_status = HPending | HCompleted | HFailed

record webhook_row =
  wr_id :: string
  wr_event :: string
  wr_payload :: json
  wr_signature :: "string option"
  wr_status :: hook_status
  wr_attempts :: nat
  wr_last :: "int option"
  wr_txn :: "string option"

record hook_post =
  hp_url :: string
  hp_payload :: json
  hp_key :: string                        \<comment> \<open>header \<open>Idempotency-Key\<close>\<close>
  hp_signature :: "string option"

record wh_state =
  wh_rows :: "webhook_row list"
  wh_queue :: "json list"                 \<comment> \<open>contents sent to the queue \<open>webhooks\<close>\<close>
  wh_posts :: "hook_post list"
  wh_waits :: "nat list"

record wh_env =
  wv_url :: string
  wv_secret :: string
  wv_hostname :: "string \<Rightarrow> string option"
  wv_text :: "json \<Rightarrow> string"
  wv_hmac :: "string \<Rightarrow> string \<Rightarrow> string"   \<comment> \<open>of a payload under a secret\<close>
  wv_iso :: string
  wv_now :: int
  wv_posted :: "nat \<Rightarrow> bool"              \<comment> \<open>whether the endpoint takes the n-th request\<close>
  wv_saved :: "nat \<Rightarrow> bool"               \<comment> \<open>whether the update after it succeeds\<close>
  wv_marked :: "nat \<Rightarrow> bool"              \<comment> \<open>whether the update in the \<open>catch\<close> succeeds\<close>

definition find_hook :: "string \<Rightarrow> wh_state \<Rightarrow> webhook_row option" where
  "find_hook i st = find (\<lambda>r. wr_id r = i) (wh_rows st)"

definition update_hook :: "string \<Rightarrow> (webhook_row \<Rightarrow> webhook_row) \<Rightarrow> wh_state \<Rightarrow> wh_state" where
  "update_hook i f st = st\<lparr>wh_rows := map (\<lambda>r. if wr_id r = i then f r else r) (wh_rows st)\<rparr>"

section \<open>Enqueueing\<close>

definition buildPayload :: "string \<Rightarrow> string \<Rightarrow> json \<Rightarrow> json" where
  "buildPayload stamp eventType payload =
     JObj [(''event'', JStr eventType), (''timestamp'', JStr stamp), (''data'', payload)]"

definition signature_of :: "wh_env \<Rightarrow> json \<Rightarrow> string option" where
  "signature_of e payload = (if wv_secret e = [] then None else Some (wv_hmac e (wv_text e payload) (wv_secret e)))"

text \<open>\<open>new_id\<close> is the generated key of the row.\<close>

definition webhook_message :: "string \<Rightarrow> json" where
  "webhook_message i = JObj [(''webhookId'', JStr i)]"

definition enqueueWebhook :: "wh_env \<Rightarrow> string \<Rightarrow> string \<Rightarrow> json \<Rightarrow> string option \<Rightarrow> wh_state \<Rightarrow> string option \<times> wh_state" where
  "enqueueWebhook e new_id eventType payload txn st =
     (if wv_url e = [] then (None, st)
      else
        (let p = buildPayload (wv_iso e) eventType payload;
             row = \<lparr>wr_id = new_id, wr_event = eventType, wr_payload = p, wr_signature = signature_of e p,
                    wr_status = HPending, wr_attempts = 0, wr_last = None, wr_txn = txn\<rparr>
         in (Some new_id,
             st\<lparr>wh_rows := wh_rows st @ [row], wh_queue := wh_queue st @ [webhook_message new_id]\<rparr>)))"

section \<open>Delivery\<close>

datatype delivery_error = DatabaseError

text \<open>
  The loop of \<open>deliverWebhook\<close>. When the endpoint takes the request but the row cannot be updated, the \<open>catch\<close>
  counts the attempt a second time and the request is sent again.
\<close>

definition failed_attempts :: "wh_env \<Rightarrow> nat \<Rightarrow> nat \<Rightarrow> nat" where
  "failed_attempts e n attempts = (if wv_posted e n then attempts + 2 else attempts + 1)"

function deliver_loop ::
  "wh_env \<Rightarrow> retry_policy \<Rightarrow> hook_post \<Rightarrow> nat \<Rightarrow> wh_state \<Rightarrow> (delivery_error + bool \<times> bool) \<times> wh_state" where
  "deliver_loop e pol hp attempts st =
     (if rp_max_attempts pol \<le> attempts then (Inr (False, True), st)
      else
        (let n = length (wh_posts st); st1 = st\<lparr>wh_posts := wh_posts st @ [hp]\<rparr> in
         if wv_posted e n \<and> wv_saved e n then
           (Inr (True, False),
            update_hook (hp_key hp)
              (\<lambda>r. r\<lparr>wr_status := HCompleted, wr_attempts := attempts + 1, wr_last := Some (wv_now e)\<rparr>) st1)
         else
           (let a = failed_attempts e n attempts; final = (rp_max_attempts pol \<le> a) in
            if \<not> wv_marked e n then (Inl DatabaseError, st1)
            else
              (let st2 = update_hook (hp_key hp)
                     (\<lambda>r. r\<lparr>wr_status := (if final then HFailed else HPending), wr_attempts := a, wr_last := Some (wv_now e)\<rparr>) st1 in
               if final then (Inr (False, True), st2)
               else deliver_loop e pol hp a (st2\<lparr>wh_waits := wh_waits st2 @ [retry_delay pol a]\<rparr>)))))"
  by pat_completeness auto
termination
  by (relation "measure (\<lambda>(e, pol, hp, attempts, st). rp_max_attempts pol - attempts)")
     (auto simp: failed_attempts_def split: if_splits)

declare deliver_loop.simps [simp del]

definition hook_request :: "wh_env \<Rightarrow> webhook_row \<Rightarrow> hook_post" where
  "hook_request e r =
     \<lparr>hp_url = wv_url e, hp_payload = wr_payload r, hp_key = wr_id r,
      hp_signature = (case wr_signature r of Some s \<Rightarrow> Some s | None \<Rightarrow> signature_of e (wr_payload r))\<rparr>"

definition deliverWebhook :: "wh_env \<Rightarrow> string \<Rightarrow> wh_state \<Rightarrow> (delivery_error + bool \<times> bool) \<times> wh_state" where
  "deliverWebhook e i st =
     (case find_hook i st of
        None \<Rightarrow> (Inr (False, True), st)
      | Some r \<Rightarrow>
          if wr_status r = HCompleted then (Inr (True, False), st)
          else if wr_status r = HFailed then (Inr (False, True), st)
          else if wv_url e = [] then (Inr (False, True), update_hook i (\<lambda>r. r\<lparr>wr_status := HFailed\<rparr>) st)
          else
            deliver_loop e (getRetryPolicyForUrl (wv_hostname e) (wv_url e)) (hook_request e r) (wr_attempts r) st)"

section \<open>The consumer\<close>

definition webhook_consumer :: "mq_env \<Rightarrow> wh_env \<Rightarrow> json option \<Rightarrow> nat \<Rightarrow> wh_state \<Rightarrow> delivery \<times> wh_state" where
  "webhook_consumer q e content retries st =
     (let m = getQueueMaxRetries ''webhooks'' in
      case parseIncomingMessage q ''webhooks'' content of
        Inl (ValidationFailed _) \<Rightarrow> (DeadLettered, st)
      | Inl _ \<Rightarrow> (settle_message m retries False, st)
      | Inr p \<Rightarrow>
          (case p of
             JObj [(k, JStr i)] \<Rightarrow>
               if i = [] then (Acked, st)
               else
                 (case deliverWebhook e i st of
                    (Inl _, st1) \<Rightarrow> (settle_message m retries False, st1)
                  | (Inr (success, final), st1) \<Rightarrow>
                      (if success then Acked else if final \<or> m \<le> retries then DeadLettered else Requeued, st1))
           | _ \<Rightarrow> (Acked, st)))"

section \<open>Lemmas\<close>

lemma update_hook_simps [simp]:
  "wh_queue (update_hook i f st) = wh_queue st" "wh_posts (update_hook i f st) = wh_posts st"
  "wh_waits (update_hook i f st) = wh_waits st"
  by (simp_all add: update_hook_def)

definition keeps_hook_id :: "(webhook_row \<Rightarrow> webhook_row) \<Rightarrow> bool" where
  "keeps_hook_id f \<longleftrightarrow> (\<forall>r. wr_id (f r) = wr_id r)"

lemma find_update_hook:
  assumes "keeps_hook_id f"
  shows "find_hook j (update_hook i f st) = (if j = i then map_option f (find_hook j st) else find_hook j st)"
proof -
  have "find (\<lambda>r. wr_id r = j) (map (\<lambda>r. if wr_id r = i then f r else r) rows) =
      (if j = i then map_option f (find (\<lambda>r. wr_id r = j) rows) else find (\<lambda>r. wr_id r = j) rows)" for rows
    using assms by (induction rows) (auto simp: keeps_hook_id_def)
  then show ?thesis by (simp add: find_hook_def update_hook_def)
qed

lemma keeps_hook_id_upd [simp]: "keeps_hook_id (\<lambda>r. r\<lparr>wr_status := s, wr_attempts := a, wr_last := l\<rparr>)"
  by (simp add: keeps_hook_id_def)

lemma find_hook_cong [simp]:
  "find_hook i (st\<lparr>wh_posts := ps\<rparr>) = find_hook i st" "find_hook i (st\<lparr>wh_waits := ws\<rparr>) = find_hook i st"
  by (simp_all add: find_hook_def)

text \<open>Every request of a delivery is the same request, and there are no more of them than attempts left.\<close>

lemma deliver_loop_posts:
  "\<exists>n. wh_posts (snd (deliver_loop e pol hp a st)) = wh_posts st @ replicate n hp \<and> n \<le> rp_max_attempts pol - a"
proof (induction "rp_max_attempts pol - a" arbitrary: a st rule: less_induct)
  case less
  let ?n = "length (wh_posts st)"
  let ?a = "failed_attempts e ?n a"
  have more: "a < ?a" by (simp add: failed_attempts_def)
  consider (stop) "rp_max_attempts pol \<le> a" | (sent) "a < rp_max_attempts pol" "wv_posted e ?n \<and> wv_saved e ?n"
    | (last) "a < rp_max_attempts pol" "\<not> (wv_posted e ?n \<and> wv_saved e ?n)" "\<not> wv_marked e ?n \<or> rp_max_attempts pol \<le> ?a"
    | (again) "a < rp_max_attempts pol" "\<not> (wv_posted e ?n \<and> wv_saved e ?n)" "wv_marked e ?n" "?a < rp_max_attempts pol"
    by fastforce
  then show ?case
  proof cases
    case stop
    then show ?thesis by (intro exI [of _ 0]) (simp add: deliver_loop.simps [of e pol hp a])
  next
    case sent
    then show ?thesis by (intro exI [of _ 1]) (simp add: deliver_loop.simps [of e pol hp a] Let_def)
  next
    case last
    then show ?thesis by (intro exI [of _ 1]) (auto simp: deliver_loop.simps [of e pol hp a] Let_def)
  next
    case again
    define st2 where "st2 = update_hook (hp_key hp)
        (\<lambda>r. r\<lparr>wr_status := HPending, wr_attempts := ?a, wr_last := Some (wv_now e)\<rparr>) (st\<lparr>wh_posts := wh_posts st @ [hp]\<rparr>)"
    have step: "deliver_loop e pol hp a st = deliver_loop e pol hp ?a (st2\<lparr>wh_waits := wh_waits st2 @ [retry_delay pol ?a]\<rparr>)"
      using again by (auto simp: deliver_loop.simps [of e pol hp a] Let_def st2_def)
    obtain n where "wh_posts (snd (deliver_loop e pol hp ?a (st2\<lparr>wh_waits := wh_waits st2 @ [retry_delay pol ?a]\<rparr>))) =
        wh_posts (st2\<lparr>wh_waits := wh_waits st2 @ [retry_delay pol ?a]\<rparr>) @ replicate n hp" "n \<le> rp_max_attempts pol - ?a"
      using less.hyps [of ?a] again more by (meson diff_less_mono2 less_trans)
    then show ?thesis using step more again by (intro exI [of _ "Suc n"]) (simp add: st2_def)
  qed
qed

definition settled_hook :: "wh_env \<Rightarrow> bool \<Rightarrow> nat \<Rightarrow> webhook_row \<Rightarrow> webhook_row" where
  "settled_hook e ok attempts r =
     r\<lparr>wr_status := (if ok then HCompleted else HFailed), wr_attempts := attempts, wr_last := Some (wv_now e)\<rparr>"

lemma settled_hook_eq:
  "(\<lambda>r. r\<lparr>wr_status := HCompleted, wr_attempts := a, wr_last := Some (wv_now e)\<rparr>) = settled_hook e True a"
  "(\<lambda>r. r\<lparr>wr_status := HFailed, wr_attempts := a, wr_last := Some (wv_now e)\<rparr>) = settled_hook e False a"
  by (auto simp: settled_hook_def)

lemma keeps_settled [simp]: "keeps_hook_id (settled_hook e ok a)"
  by (simp add: keeps_hook_id_def settled_hook_def)

text \<open>What a delivery has done after \<open>n\<close> requests, when the database takes every update.\<close>

definition delivered_in ::
  "wh_env \<Rightarrow> retry_policy \<Rightarrow> hook_post \<Rightarrow> nat \<Rightarrow> wh_state \<Rightarrow> nat \<Rightarrow> (delivery_error + bool \<times> bool) \<times> wh_state \<Rightarrow> bool" where
  "delivered_in e pol hp a st n r \<longleftrightarrow>
     (let k = length (wh_posts st); ok = wv_posted e (k + n - 1) in
      0 < n \<and> n \<le> rp_max_attempts pol - a \<and> (\<forall>j. j + 1 < n \<longrightarrow> \<not> wv_posted e (k + j)) \<and>
      (ok \<or> n = rp_max_attempts pol - a) \<and> fst r = Inr (ok, \<not> ok) \<and>
      wh_posts (snd r) = wh_posts st @ replicate n hp \<and>
      wh_waits (snd r) = wh_waits st @ map (retry_delay pol) [a + 1..<a + n] \<and>
      find_hook (hp_key hp) (snd r) = map_option (settled_hook e ok (a + n)) (find_hook (hp_key hp) st) \<and>
      (\<forall>j. j \<noteq> hp_key hp \<longrightarrow> find_hook j (snd r) = find_hook j st))"

lemma delivered_inD:
  assumes "delivered_in e pol hp a st n r"
  shows "0 < n" and "n \<le> rp_max_attempts pol - a"
    and "\<forall>j. j + 1 < n \<longrightarrow> \<not> wv_posted e (length (wh_posts st) + j)"
    and "wv_posted e (length (wh_posts st) + n - 1) \<or> n = rp_max_attempts pol - a"
    and "fst r = Inr (wv_posted e (length (wh_posts st) + n - 1), \<not> wv_posted e (length (wh_posts st) + n - 1))"
    and "wh_posts (snd r) = wh_posts st @ replicate n hp"
    and "wh_waits (snd r) = wh_waits st @ map (retry_delay pol) [a + 1..<a + n]"
    and "find_hook (hp_key hp) (snd r) =
      map_option (settled_hook e (wv_posted e (length (wh_posts st) + n - 1)) (a + n)) (find_hook (hp_key hp) st)"
    and "j \<noteq> hp_key hp \<Longrightarrow> find_hook j (snd r) = find_hook j st"
  using assms unfolding delivered_in_def Let_def by blast+

lemma deliver_loop_settles:
  assumes "\<And>n. wv_saved e n" and "\<And>n. wv_marked e n" and "a < rp_max_attempts pol"
  shows "\<exists>n. delivered_in e pol hp a st n (deliver_loop e pol hp a st)"
  using assms(3)
proof (induction "rp_max_attempts pol - a" arbitrary: a st rule: less_induct)
  case less
  let ?k = "length (wh_posts st)"
  consider (ok) "wv_posted e ?k" | (last) "\<not> wv_posted e ?k" "rp_max_attempts pol = a + 1"
    | (again) "\<not> wv_posted e ?k" "a + 1 < rp_max_attempts pol"
    using less.prems by linarith
  then show ?case
  proof cases
    case ok
    then show ?thesis using less.prems assms(1)
      by (intro exI [of _ 1])
        (auto simp: delivered_in_def deliver_loop.simps [of e pol hp a] Let_def find_update_hook settled_hook_eq)
  next
    case last
    then show ?thesis using less.prems assms(2)
      by (intro exI [of _ 1])
        (auto simp: delivered_in_def deliver_loop.simps [of e pol hp a] Let_def find_update_hook settled_hook_eq
          failed_attempts_def)
  next
    case again
    define st2 where "st2 = update_hook (hp_key hp)
        (\<lambda>r. r\<lparr>wr_status := HPending, wr_attempts := a + 1, wr_last := Some (wv_now e)\<rparr>) (st\<lparr>wh_posts := wh_posts st @ [hp]\<rparr>)"
    define st3 where "st3 = st2\<lparr>wh_waits := wh_waits st2 @ [retry_delay pol (a + 1)]\<rparr>"
    have step: "deliver_loop e pol hp a st = deliver_loop e pol hp (a + 1) st3"
      using again assms(2) less.prems
      by (auto simp: deliver_loop.simps [of e pol hp a] Let_def st2_def st3_def failed_attempts_def)
    have st3: "wh_posts st3 = wh_posts st @ [hp]" "wh_waits st3 = wh_waits st @ [retry_delay pol (a + 1)]"
      "find_hook (hp_key hp) st3 = map_option
         (\<lambda>r. r\<lparr>wr_status := HPending, wr_attempts := a + 1, wr_last := Some (wv_now e)\<rparr>) (find_hook (hp_key hp) st)"
      "\<And>j. j \<noteq> hp_key hp \<Longrightarrow> find_hook j st3 = find_hook j st"
      by (simp_all add: st3_def st2_def find_update_hook)
    have "rp_max_attempts pol - (a + 1) < rp_max_attempts pol - a" using again by arith
    then obtain n where n: "delivered_in e pol hp (a + 1) st3 n (deliver_loop e pol hp (a + 1) st3)"
      using less.hyps again by blast
    define r where "r = deliver_loop e pol hp (a + 1) st3"
    note d = delivered_inD [OF n, folded r_def]
    have pos: "0 < n" by (rule d(1))
    have idx: "length (wh_posts st3) + n - 1 = ?k + Suc n - 1" using st3(1) pos by simp
    have "delivered_in e pol hp a st (Suc n) r"
      unfolding delivered_in_def Let_def
    proof (intro conjI)
      show "Suc n \<le> rp_max_attempts pol - a" using d(2) again by linarith
      show "\<forall>j. j + 1 < Suc n \<longrightarrow> \<not> wv_posted e (?k + j)"
      proof (intro allI impI)
        fix j assume j: "j + 1 < Suc n"
        show "\<not> wv_posted e (?k + j)"
        proof (cases j)
          case 0
          then show ?thesis using again by simp
        next
          case (Suc i)
          then have "\<not> wv_posted e (length (wh_posts st3) + i)" using d(3) j by simp
          then show ?thesis using st3(1) Suc by simp
        qed
      qed
      show "wv_posted e (?k + Suc n - 1) \<or> Suc n = rp_max_attempts pol - a"
        using d(4) again unfolding idx by linarith
      show "fst r = Inr (wv_posted e (?k + Suc n - 1), \<not> wv_posted e (?k + Suc n - 1))"
        using d(5) unfolding idx .
      show "wh_posts (snd r) = wh_posts st @ replicate (Suc n) hp" using d(6) st3(1) by simp
      show "wh_waits (snd r) = wh_waits st @ map (retry_delay pol) [a + 1..<a + Suc n]"
        using d(7) st3(2) pos by (simp add: upt_conv_Cons del: upt_Suc)
      have "settled_hook e ok m \<circ> (\<lambda>r. r\<lparr>wr_status := HPending, wr_attempts := a + 1, wr_last := Some (wv_now e)\<rparr>) =
          settled_hook e ok m" for ok m by (auto simp: settled_hook_def)
      then show "find_hook (hp_key hp) (snd r) =
          map_option (settled_hook e (wv_posted e (?k + Suc n - 1)) (a + Suc n)) (find_hook (hp_key hp) st)"
        using d(8) unfolding idx st3(3) by (simp add: option.map_comp)
      show "\<forall>j. j \<noteq> hp_key hp \<longrightarrow> find_hook j (snd r) = find_hook j st"
        using d(9) st3(4) by simp
    qed simp
    then show ?thesis using step r_def by auto
  qed
qed

section \<open>Properties\<close>

lemma policy_attempts: "rp_max_attempts (getRetryPolicyForUrl h url) \<in> {5, 8}"
  by (auto simp: getRetryPolicyForUrl_def DEFAULT_RETRY_POLICY_def ENDPOINT_RETRY_POLICIES_def split: option.split)

lemma retry_delay_at_most: "retry_delay p a \<le> rp_max_ms p"
  by (simp add: retry_delay_def)

lemma find_hook_id: "find_hook i st = Some r \<Longrightarrow> wr_id r = i"
  by (auto simp: find_hook_def find_Some_iff)

text \<open>
  C18. A delivery of a pending webhook ends after at most as many requests as its endpoint's policy has attempts
  left. When the database takes its updates, the requests are all the same (URL, payload, idempotency key and
  signature), every one but the last was refused, the waits between them are those of the policy, and the row ends
  as completed when the last was taken and as failed otherwise, with the requests counted; the result says the same,
  a failure is terminal, and no other row has changed.
\<close>

theorem webhook_delivery_settles:
  assumes "find_hook i st = Some r" and "wr_status r = HPending" and "wv_url e \<noteq> []"
    and "wr_attempts r < rp_max_attempts (getRetryPolicyForUrl (wv_hostname e) (wv_url e))"
    and "\<And>n. wv_saved e n" and "\<And>n. wv_marked e n"
  shows "\<exists>n. delivered_in e (getRetryPolicyForUrl (wv_hostname e) (wv_url e)) (hook_request e r) (wr_attempts r) st n
    (deliverWebhook e i st)"
proof -
  have "deliverWebhook e i st =
      deliver_loop e (getRetryPolicyForUrl (wv_hostname e) (wv_url e)) (hook_request e r) (wr_attempts r) st"
    using assms(1-3) by (simp add: deliverWebhook_def)
  then show ?thesis using deliver_loop_settles [OF assms(5,6,4)] by simp
qed

text \<open>
  Whatever the endpoint and the database do, a delivery sends at most eight requests, all of them the stored
  payload to the configured URL under the webhook's own idempotency key.
\<close>

theorem webhook_requests_bounded:
  "\<exists>n r. wh_posts (snd (deliverWebhook e i st)) = wh_posts st @ replicate n (hook_request e r) \<and> n \<le> 8 \<and>
     (0 < n \<longrightarrow> find_hook i st = Some r \<and> wr_status r = HPending \<and> hp_key (hook_request e r) = i)"
proof (cases "\<exists>r. find_hook i st = Some r \<and> wr_status r = HPending \<and> wv_url e \<noteq> []")
  case True
  then obtain r where r: "find_hook i st = Some r" "wr_status r = HPending" "wv_url e \<noteq> []" by blast
  obtain n where "wh_posts (snd (deliverWebhook e i st)) = wh_posts st @ replicate n (hook_request e r)"
    "n \<le> rp_max_attempts (getRetryPolicyForUrl (wv_hostname e) (wv_url e)) - wr_attempts r"
    using r deliver_loop_posts [of e _ "hook_request e r" "wr_attempts r" st] by (auto simp: deliverWebhook_def)
  moreover have "rp_max_attempts (getRetryPolicyForUrl (wv_hostname e) (wv_url e)) \<le> 8"
    using policy_attempts [of "wv_hostname e" "wv_url e"] by auto
  ultimately show ?thesis using r find_hook_id [OF r(1)]
    by (intro exI [of _ n] exI [of _ r]) (simp add: hook_request_def)
next
  case False
  have "wh_posts (snd (deliverWebhook e i st)) = wh_posts st"
  proof (cases "find_hook i st")
    case (Some r)
    then show ?thesis using False by (cases "wr_status r") (simp_all add: deliverWebhook_def)
  qed (simp add: deliverWebhook_def)
  then show ?thesis by (intro exI [of _ 0]) simp
qed

text \<open>
  A webhook that the service enqueues is never delivered: its message has no envelope, so the consumer puts
  it in the dead letter queue without a request to the endpoint, and the row stays pending with no attempt, in
  every state of the queue and whatever the endpoint would answer.
\<close>

theorem enqueued_webhook_never_delivered:
  assumes "enqueueWebhook e new_id eventType payload txn st = (Some i, st1)" and "find_hook new_id st = None"
  shows "\<exists>m r. wh_queue st1 = wh_queue st @ [m] \<and> webhook_consumer q e' (Some m) retries st1 = (DeadLettered, st1) \<and>
    find_hook i st1 = Some r \<and> wr_status r = HPending \<and> wr_attempts r = 0 \<and> wh_posts st1 = wh_posts st"
proof -
  have st1: "i = new_id" "wh_queue st1 = wh_queue st @ [webhook_message new_id]" "wh_posts st1 = wh_posts st"
    "\<exists>r. find_hook new_id st1 = Some r \<and> wr_status r = HPending \<and> wr_attempts r = 0"
    using assms by (auto simp: enqueueWebhook_def Let_def find_hook_def find_append split: if_splits)
  have "webhook_consumer q e' (Some (webhook_message new_id)) retries st1 = (DeadLettered, st1)"
    by (simp add: webhook_consumer_def webhook_message_def unenveloped_message Let_def)
  then show ?thesis using st1 by blast
qed

definition sample_wh_env :: wh_env where
  "sample_wh_env =
     \<lparr>wv_url = ''https://partner.example'', wv_secret = ''k'', wv_hostname = (\<lambda>u. Some (drop 8 u)), wv_text = (\<lambda>v. ''{}''),
      wv_hmac = (\<lambda>m k. k @ m), wv_iso = ''2026-01-01T00:00:00.000Z'', wv_now = 0, wv_posted = (\<lambda>n. n = 2),
      wv_saved = (\<lambda>n. True), wv_marked = (\<lambda>n. True)\<rparr>"

definition no_hooks :: wh_state where
  "no_hooks = \<lparr>wh_rows = [], wh_queue = [], wh_posts = [], wh_waits = []\<rparr>"

definition one_hook :: wh_state where
  "one_hook = snd (enqueueWebhook sample_wh_env ''w1'' ''mint.completed'' JNull None no_hooks)"

theorem enqueued_webhook_never_delivered_witness:
  "\<exists>m r. wh_queue one_hook = [m] \<and> webhook_consumer plain_env sample_wh_env (Some m) 0 one_hook = (DeadLettered, one_hook) \<and>
    find_hook ''w1'' one_hook = Some r \<and> wr_status r = HPending"
proof -
  have "enqueueWebhook sample_wh_env ''w1'' ''mint.completed'' JNull None no_hooks = (Some ''w1'', one_hook)"
    by (simp add: one_hook_def enqueueWebhook_def sample_wh_env_def Let_def)
  from enqueued_webhook_never_delivered [OF this, of plain_env sample_wh_env 0] show ?thesis
    by (auto simp: find_hook_def no_hooks_def)
qed

lemma one_hook_row:
  "find_hook ''w1'' one_hook =
     Some \<lparr>wr_id = ''w1'', wr_event = ''mint.completed'',
           wr_payload = buildPayload ''2026-01-01T00:00:00.000Z'' ''mint.completed'' JNull, wr_signature = Some ''k{}'',
           wr_status = HPending, wr_attempts = 0, wr_last = None, wr_txn = None\<rparr>"
  by (simp add: one_hook_def enqueueWebhook_def sample_wh_env_def Let_def find_hook_def no_hooks_def signature_of_def)

lemma sample_policy: "rp_max_attempts (getRetryPolicyForUrl (wv_hostname sample_wh_env) (wv_url sample_wh_env)) = 8"
proof -
  have "str_includes ''partner.example'' ''partner''" "to_lower ''partner.example'' = ''partner.example''" by code_simp+
  then show ?thesis
    by (simp add: getRetryPolicyForUrl_def ENDPOINT_RETRY_POLICIES_def sample_wh_env_def)
qed

definition one_row :: webhook_row where
  "one_row =
     \<lparr>wr_id = ''w1'', wr_event = ''mint.completed'',
      wr_payload = buildPayload ''2026-01-01T00:00:00.000Z'' ''mint.completed'' JNull, wr_signature = Some ''k{}'',
      wr_status = HPending, wr_attempts = 0, wr_last = None, wr_txn = None\<rparr>"

theorem webhook_delivery_settles_witness:
  "\<exists>n. delivered_in sample_wh_env (getRetryPolicyForUrl (wv_hostname sample_wh_env) (wv_url sample_wh_env))
     (hook_request sample_wh_env one_row) (wr_attempts one_row) one_hook n (deliverWebhook sample_wh_env ''w1'' one_hook)"
proof (rule webhook_delivery_settles)
  show "find_hook ''w1'' one_hook = Some one_row" by (simp add: one_hook_row one_row_def)
  show "wr_attempts one_row < rp_max_attempts (getRetryPolicyForUrl (wv_hostname sample_wh_env) (wv_url sample_wh_env))"
    by (simp add: sample_policy) (simp add: one_row_def)
qed (simp_all add: sample_wh_env_def one_row_def)

end
