(* ===== verification/Bills.thy ===== *)
theory Bills
  imports DepositLimits
begin

text \<open>
  Bill payments: \<open>src/services/bills/billsService.ts\<close>, \<open>types.ts\<close> and \<open>simulatedBillsPartner.ts\<close>.
  What the service relies on in a partner is the locale \<open>bills_partner\<close>, interpreted on the simulated
  partner. The log holds the calls to the partner and the events and webhooks sent out.
\<close>

section \<open>Catalog\<close>

record bill_field =
  bf_id :: string
  bf_label :: string
  bf_length :: "nat \<times> nat"

record bill_product =
  pr_id :: string
  pr_name :: string
  pr_currency :: string
  pr_min :: rat
  pr_max :: rat
  pr_fixed :: "rat option"

record biller =
  bi_id :: string
  bi_name :: string
  bi_category :: string
  bi_country :: string
  bi_fields :: "bill_field list"
  bi_products :: "bill_product list"

datatype webhook_status = WCompleted | WFailed | WRefunded

record bills_event =
  ev_provider :: string
  ev_tx :: nat
  ev_ref :: string
  ev_status :: webhook_status
  ev_amount :: rat
  ev_currency :: string
  ev_reason :: "string option"

datatype dispatch_status = DProcessing | DCompleted

record partner_payment =
  pp_tx :: nat
  pp_biller :: biller
  pp_product :: bill_product
  pp_reference :: string
  pp_amount :: rat

record partner_refund =
  pf_tx :: nat
  pf_ref :: string
  pf_amount :: rat
  pf_currency :: string
  pf_reason :: "string option"

datatype pay_outcome = PayThrows string | PayOk string dispatch_status "bills_event option"
datatype refund_outcome = RefundThrows string | RefundOk string bills_event

record bills_adapter =
  pt_id :: string
  pt_catalog :: "biller list"
  pt_pay :: "partner_payment \<Rightarrow> pay_outcome"
  pt_refund :: "partner_refund \<Rightarrow> refund_outcome"

section \<open>The simulated partner\<close>

definition SIMULATED_BILLERS :: "biller list" where
  "SIMULATED_BILLERS =
     [\<lparr>bi_id = ''ikeja-electric'', bi_name = ''Ikeja Electric'', bi_category = ''electricity'', bi_country = ''NGA'',
       bi_fields = [\<lparr>bf_id = ''meter_number'', bf_label = ''Meter Number'', bf_length = (11, 11)\<rparr>],
       bi_products = [\<lparr>pr_id = ''prepaid'', pr_name = ''Prepaid Token'', pr_currency = ''NGN'',
         pr_min = 500, pr_max = 50000, pr_fixed = None\<rparr>]\<rparr>,
      \<lparr>bi_id = ''mtn-airtime'', bi_name = ''MTN Airtime'', bi_category = ''airtime'', bi_country = ''NGA'',
       bi_fields = [\<lparr>bf_id = ''phone_number'', bf_label = ''Phone Number'', bf_length = (11, 11)\<rparr>],
       bi_products = [\<lparr>pr_id = ''topup'', pr_name = ''Airtime Top-up'', pr_currency = ''NGN'',
         pr_min = 100, pr_max = 10000, pr_fixed = None\<rparr>]\<rparr>,
      \<lparr>bi_id = ''dstv'', bi_name = ''DSTV'', bi_category = ''tv'', bi_country = ''NGA'',
       bi_fields = [\<lparr>bf_id = ''smartcard_number'', bf_label = ''Smartcard Number'', bf_length = (10, 10)\<rparr>],
       bi_products = [\<lparr>pr_id = ''compact'', pr_name = ''Compact Bouquet'', pr_currency = ''NGN'',
         pr_min = 15700, pr_max = 15700, pr_fixed = Some 15700\<rparr>]\<rparr>]"

text \<open>\<open>uuid\<close> is the random part of the reference.\<close>

definition simulated_pay :: "string \<Rightarrow> partner_payment \<Rightarrow> pay_outcome" where
  "simulated_pay uuid rq =
     (let ref = ''bill_'' @ uuid in
      PayOk ref DProcessing
        (Some \<lparr>ev_provider = ''simulated'', ev_tx = pp_tx rq, ev_ref = ref, ev_status = WCompleted,
               ev_amount = pp_amount rq, ev_currency = pr_currency (pp_product rq), ev_reason = None\<rparr>))"

definition simulated_refund :: "partner_refund \<Rightarrow> refund_outcome" where
  "simulated_refund rq =
     RefundOk (pf_ref rq)
       \<lparr>ev_provider = ''simulated'', ev_tx = pf_tx rq, ev_ref = pf_ref rq, ev_status = WRefunded,
        ev_amount = pf_amount rq, ev_currency = pf_currency rq, ev_reason = pf_reason rq\<rparr>"

definition simulatedBillsPartner :: "string \<Rightarrow> bills_adapter" where
  "simulatedBillsPartner uuid =
     \<lparr>pt_id = ''simulated'', pt_catalog = SIMULATED_BILLERS, pt_pay = simulated_pay uuid, pt_refund = simulated_refund\<rparr>"

section \<open>State and configuration\<close>

datatype bill_log =
    PartnerPaid nat rat
  | PartnerRefunded nat rat
  | BillEvent string nat
  | WebhookOut string nat

record bill_state =
  bl_db :: txdb
  bl_provider :: "(nat \<times> string) list"       \<comment> \<open>\<open>rateSnapshot.provider\<close> of a row\<close>
  bl_webhooks :: "(nat \<times> string) list"       \<comment> \<open>rows of the \<open>webhooks\<close> table: transaction, event type\<close>
  bl_log :: "bill_log list"

record bill_env =
  bv_providers :: "bills_adapter list"
  bv_configured :: "string option"           \<comment> \<open>\<open>process.env.BILLS_PROVIDER\<close>\<close>
  bv_limits :: limits_env
  bv_cfg :: "audience \<Rightarrow> limit_config"
  bv_rate :: rat
  bv_paused :: "string \<Rightarrow> bool"
  bv_dec :: "rat \<Rightarrow> rat"
  bv_now :: int

datatype bill_error =
    ProviderNotConfigured | BillerNotFound | ProductNotFound | AmountOutOfRange | FixedAmountMismatch
  | CurrencyPaused | LimitExceeded limit_error | PartnerFailed string | BillNotFound | NoProviderReference
  | NotCompleted | RefundFailed string

record bill_request =
  bq_user :: "string option"
  bq_org :: "string option"
  bq_audience :: "audience option"
  bq_biller :: string
  bq_product :: string
  bq_reference :: string
  bq_amount :: rat

definition getConfiguredBillsProviderId :: "bill_env \<Rightarrow> string" where
  "getConfiguredBillsProviderId e =
     to_lower (trim (if truthy (bv_configured e) then the (bv_configured e) else ''simulated''))"

definition getBillsProvider :: "bill_env \<Rightarrow> string \<Rightarrow> bill_error + bills_adapter" where
  "getBillsProvider e pid =
     (case find (\<lambda>p. pt_id p = pid) (bv_providers e) of None \<Rightarrow> Inl ProviderNotConfigured | Some p \<Rightarrow> Inr p)"

definition getBillsCatalog :: "bill_env \<Rightarrow> bill_error + (string \<times> biller list)" where
  "getBillsCatalog e =
     bindR (getBillsProvider e (getConfiguredBillsProviderId e)) (\<lambda>p. Inr (pt_id p, pt_catalog p))"

definition resolveCatalogSelection ::
  "bill_env \<Rightarrow> string \<Rightarrow> string \<Rightarrow> bill_error + (bills_adapter \<times> biller \<times> bill_product)" where
  "resolveCatalogSelection e billerId productId =
     bindR (getBillsProvider e (getConfiguredBillsProviderId e)) (\<lambda>p.
       case find (\<lambda>b. bi_id b = billerId) (pt_catalog p) of
         None \<Rightarrow> Inl BillerNotFound
       | Some b \<Rightarrow>
           (case find (\<lambda>r. pr_id r = productId) (bi_products b) of
              None \<Rightarrow> Inl ProductNotFound
            | Some r \<Rightarrow> Inr (p, b, r)))"

section \<open>Webhooks\<close>

definition webhook_name :: "webhook_status \<Rightarrow> string" where
  "webhook_name s = (case s of WCompleted \<Rightarrow> ''completed'' | WFailed \<Rightarrow> ''failed'' | WRefunded \<Rightarrow> ''refunded'')"

definition getWebhookEventType :: "string \<Rightarrow> webhook_status \<Rightarrow> string" where
  "getWebhookEventType provider s = ''bills:'' @ provider @ '':'' @ webhook_name s"

definition getTransactionStatusFromWebhook :: "webhook_status \<Rightarrow> status" where
  "getTransactionStatusFromWebhook s =
     (case s of WCompleted \<Rightarrow> Completed | WFailed \<Rightarrow> Failed | WRefunded \<Rightarrow> Refunded)"

definition createBillsWebhookRecord :: "bills_event \<Rightarrow> bill_state \<Rightarrow> bill_state" where
  "createBillsWebhookRecord ev st =
     st\<lparr>bl_webhooks := bl_webhooks st @ [(ev_tx ev, getWebhookEventType (ev_provider ev) (ev_status ev))]\<rparr>"

definition bl_add :: "bill_log list \<Rightarrow> bill_state \<Rightarrow> bill_state" where
  "bl_add es st = st\<lparr>bl_log := bl_log st @ es\<rparr>"

definition bl_update :: "nat \<Rightarrow> (txn \<Rightarrow> txn) \<Rightarrow> bill_state \<Rightarrow> bill_state" where
  "bl_update i f st = st\<lparr>bl_db := update_tx i f (bl_db st)\<rparr>"

definition reconcile_row :: "int \<Rightarrow> bills_event \<Rightarrow> txn \<Rightarrow> txn" where
  "reconcile_row now ev r =
     r\<lparr>tx_status := getTransactionStatusFromWebhook (ev_status ev), recipient_address := Some (ev_ref ev),
       completed_at := (if ev_status ev = WFailed then completed_at r else Some now)\<rparr>"

definition reconcileBillsWebhook ::
  "int \<Rightarrow> bills_event \<Rightarrow> bill_state \<Rightarrow> (bill_error + (nat \<times> status)) \<times> bill_state" where
  "reconcileBillsWebhook now ev st =
     (case find_tx (ev_tx ev) (bl_db st) of
        None \<Rightarrow> (Inl BillNotFound, st)
      | Some r \<Rightarrow>
          if tx_type r \<noteq> TBillPayment then (Inl BillNotFound, st)
          else
            (Inr (tx_id r, getTransactionStatusFromWebhook (ev_status ev)),
             bl_add ((case ev_status ev of
                        WCompleted \<Rightarrow> [WebhookOut ''transaction.completed'' (tx_id r)]
                      | WFailed \<Rightarrow> [WebhookOut ''transaction.failed'' (tx_id r)]
                      | WRefunded \<Rightarrow> []) @ [BillEvent ''webhook.reconciled'' (tx_id r)])
               (bl_update (tx_id r) (reconcile_row now ev) (createBillsWebhookRecord ev st))))"

section \<open>Payment\<close>

definition bill_row :: "bill_env \<Rightarrow> bill_request \<Rightarrow> bill_product \<Rightarrow> txn" where
  "bill_row e rq p =
     (new_txn TBillPayment Pending (bv_now e))\<lparr>tx_user := bq_user rq, acbu_burned := Some (bv_dec e (bq_amount rq)),
        local_currency := Some (pr_currency p), local_amount := Some (bv_dec e (bq_amount rq))\<rparr>"

definition bill_guards :: "bill_env \<Rightarrow> bill_request \<Rightarrow> bill_product \<Rightarrow> txdb \<Rightarrow> bill_error + unit" where
  "bill_guards e rq p db =
     (if bq_amount rq < pr_min p \<or> pr_max p < bq_amount rq then Inl AmountOutOfRange
      else if (case pr_fixed p of None \<Rightarrow> False
               | Some f \<Rightarrow> js_round (f64 (bq_amount rq * 100)) \<noteq> js_round (f64 (f * 100)))
        then Inl FixedAmountMismatch
      else if bv_paused e (pr_currency p) then Inl CurrencyPaused
      else map_err LimitExceeded
        (checkWithdrawalLimits (bv_limits e) (bv_cfg e (case bq_audience rq of Some a \<Rightarrow> a | None \<Rightarrow> Retail))
           (bv_rate e) (bv_dec e (bq_amount rq)) (pr_currency p) (bq_user rq) (bq_org rq) db))"

text \<open>The \<open>catch\<close> of \<open>payBill\<close>.\<close>

definition bill_failed :: "nat \<Rightarrow> bill_state \<Rightarrow> bill_state" where
  "bill_failed i st = bl_add [WebhookOut ''transaction.failed'' i] (bl_update i (\<lambda>r. r\<lparr>tx_status := Failed\<rparr>) st)"

definition dispatched :: "dispatch_status \<Rightarrow> status" where
  "dispatched d = (case d of DProcessing \<Rightarrow> Processing | DCompleted \<Rightarrow> Completed)"

definition dispatch_bill ::
  "bill_env \<Rightarrow> bills_adapter \<Rightarrow> partner_payment \<Rightarrow> bill_state \<Rightarrow> (bill_error + (nat \<times> status)) \<times> bill_state" where
  "dispatch_bill e p pay st =
     (let i = pp_tx pay in
      case pt_pay p pay of
        PayThrows m \<Rightarrow> (Inl (PartnerFailed m), bill_failed i st)
      | PayOk ref d event \<Rightarrow>
          (let st1 = bl_add [BillEvent ''bill.completed'' i]
                 (bl_update i (\<lambda>r. r\<lparr>tx_status := dispatched d, recipient_address := Some ref\<rparr>)
                    (bl_add [PartnerPaid i (pp_amount pay)] st)) in
           case event of
             None \<Rightarrow> (Inr (i, dispatched d), st1)
           | Some ev \<Rightarrow>
               (case reconcileBillsWebhook (bv_now e) ev st1 of
                  (Inl err, st2) \<Rightarrow> (Inl err, bill_failed i st2)
                | (Inr (_, s), st2) \<Rightarrow> (Inr (i, if s = Completed then Completed else dispatched d), st2))))"

definition payBill ::
  "bill_env \<Rightarrow> bill_request \<Rightarrow> bill_state \<Rightarrow> (bill_error + (nat \<times> status)) \<times> bill_state" where
  "payBill e rq st =
     bail (resolveCatalogSelection e (bq_biller rq) (bq_product rq)) st (\<lambda>(p, b, r).
       bail (bill_guards e rq r (bl_db st)) st (\<lambda>_.
         case create_tx (bill_row e rq r) (bl_db st) of
           None \<Rightarrow> (Inl (PartnerFailed ''unique constraint''), st)
         | Some (db, tx) \<Rightarrow>
             dispatch_bill e p
               \<lparr>pp_tx = tx_id tx, pp_biller = b, pp_product = r, pp_reference = bq_reference rq, pp_amount = bq_amount rq\<rparr>
               (bl_add [BillEvent ''bill.initiated'' (tx_id tx)]
                  (st\<lparr>bl_db := db, bl_provider := (tx_id tx, pt_id p) # bl_provider st\<rparr>))))"

section \<open>Refund\<close>

definition refundBillPayment ::
  "bill_env \<Rightarrow> nat \<Rightarrow> string option \<Rightarrow> bill_state \<Rightarrow> (bill_error + nat) \<times> bill_state" where
  "refundBillPayment e i reason st =
     (case find_tx i (bl_db st) of
        None \<Rightarrow> (Inl BillNotFound, st)
      | Some r \<Rightarrow>
          if tx_type r \<noteq> TBillPayment then (Inl BillNotFound, st)
          else if \<not> truthy (recipient_address r) then (Inl NoProviderReference, st)
          else if tx_status r \<noteq> Completed then (Inl NotCompleted, st)
          else
            (let pid = (case map_of (bl_provider st) i of Some q \<Rightarrow> if q = [] then ''simulated'' else q
                        | None \<Rightarrow> ''simulated'') in
             bail (getBillsProvider e pid) st (\<lambda>p.
               let amount = (case local_amount r of Some a \<Rightarrow> f64 a | None \<Rightarrow> 0);
                   currency = (case local_currency r of Some c \<Rightarrow> c | None \<Rightarrow> ''NGN'') in
               case pt_refund p \<lparr>pf_tx = i, pf_ref = the (recipient_address r), pf_amount = amount,
                      pf_currency = currency, pf_reason = reason\<rparr> of
                 RefundThrows m \<Rightarrow> (Inl (RefundFailed m), st)
               | RefundOk ref ev \<Rightarrow>
                   (case reconcileBillsWebhook (bv_now e) ev (bl_add [PartnerRefunded i amount] st) of
                      (Inl err, st1) \<Rightarrow> (Inl err, st1)
                    | (Inr _, st1) \<Rightarrow> (Inr i, bl_add [BillEvent ''bill.refunded'' i] st1)))))"

section \<open>The partner's contract\<close>

text \<open>What the service relies on: the event that settles a payment is about that payment and says it is
  completed, the event that follows a refund is about the refunded payment and says so.\<close>

locale bills_partner =
  fixes pay :: "partner_payment \<Rightarrow> pay_outcome" and refund :: "partner_refund \<Rightarrow> refund_outcome"
  assumes pay_event: "pay rq = PayOk ref d (Some ev) \<Longrightarrow> ev_tx ev = pp_tx rq \<and> ev_status ev = WCompleted"
    and refund_event: "refund rf = RefundOk ref' ev' \<Longrightarrow> ev_tx ev' = pf_tx rf \<and> ev_status ev' = WRefunded"
begin

text \<open>The status a settled payment ends in, and the one a refund leads to.\<close>

lemma settled_status: "pay rq = PayOk ref d (Some ev) \<Longrightarrow> getTransactionStatusFromWebhook (ev_status ev) = Completed"
  using pay_event by (simp add: getTransactionStatusFromWebhook_def)

lemma refunded_status: "refund rf = RefundOk ref ev \<Longrightarrow> getTransactionStatusFromWebhook (ev_status ev) = Refunded"
  using refund_event by (simp add: getTransactionStatusFromWebhook_def)

end

interpretation simulated: bills_partner "simulated_pay uuid" simulated_refund for uuid
  by unfold_locales (auto simp: simulated_pay_def simulated_refund_def Let_def)

section \<open>Lemmas\<close>

lemma bl_simps [simp]:
  "bl_db (bl_add es st) = bl_db st" "bl_log (bl_add es st) = bl_log st @ es"
  "bl_provider (bl_add es st) = bl_provider st" "bl_webhooks (bl_add es st) = bl_webhooks st"
  "bl_db (bl_update i f st) = update_tx i f (bl_db st)" "bl_log (bl_update i f st) = bl_log st"
  "bl_provider (bl_update i f st) = bl_provider st" "bl_webhooks (bl_update i f st) = bl_webhooks st"
  "bl_db (createBillsWebhookRecord ev st) = bl_db st" "bl_log (createBillsWebhookRecord ev st) = bl_log st"
  "bl_provider (createBillsWebhookRecord ev st) = bl_provider st"
  by (simp_all add: bl_add_def bl_update_def createBillsWebhookRecord_def)

definition paid :: "bill_log \<Rightarrow> bool" where
  "paid l = (case l of PartnerPaid _ _ \<Rightarrow> True | _ \<Rightarrow> False)"

definition refunded_log :: "nat \<Rightarrow> bill_log \<Rightarrow> bool" where
  "refunded_log i l = (case l of PartnerRefunded j _ \<Rightarrow> j = i | _ \<Rightarrow> False)"

lemma reconcile_row_id [simp]: "tx_id (reconcile_row now ev r) = tx_id r"
  by (simp add: reconcile_row_def)

lemma reconcile_Inr:
  assumes "find_tx (ev_tx ev) (bl_db st) = Some r" "tx_type r = TBillPayment"
  obtains st' where "reconcileBillsWebhook now ev st
      = (Inr (ev_tx ev, getTransactionStatusFromWebhook (ev_status ev)), st')"
    "find_tx (ev_tx ev) (bl_db st') = Some (reconcile_row now ev r)"
    "filter paid (bl_log st') = filter paid (bl_log st)"
    "filter (refunded_log i) (bl_log st') = filter (refunded_log i) (bl_log st)"
    "bl_provider st' = bl_provider st"
proof -
  have "tx_id r = ev_tx ev" using assms(1) by (auto simp: find_tx_def dest: find_SomeD)
  with assms show thesis
    by (intro that [of "snd (reconcileBillsWebhook now ev st)"])
       (auto simp: reconcileBillsWebhook_def find_update_same paid_def refunded_log_def split: webhook_status.splits)
qed

lemma payBill_cases:
  assumes "payBill e rq st = (res, st')"
  obtains (refused) "\<not> is_ok res" "st' = st"
  | (made) p b r db tx where "resolveCatalogSelection e (bq_biller rq) (bq_product rq) = Inr (p, b, r)"
    "bill_guards e rq r (bl_db st) = Inr ()" "create_tx (bill_row e rq r) (bl_db st) = Some (db, tx)"
    "dispatch_bill e p \<lparr>pp_tx = tx_id tx, pp_biller = b, pp_product = r, pp_reference = bq_reference rq, pp_amount = bq_amount rq\<rparr>
       (bl_add [BillEvent ''bill.initiated'' (tx_id tx)]
          (st\<lparr>bl_db := db, bl_provider := (tx_id tx, pt_id p) # bl_provider st\<rparr>)) = (res, st')"
  using assms by (auto simp: payBill_def bail_def split: sum.splits prod.splits option.splits)

lemma provider_in: "resolveCatalogSelection e bid pid = Inr (p, b, r) \<Longrightarrow> p \<in> set (bv_providers e)"
  by (auto simp: resolveCatalogSelection_def getBillsProvider_def bindR_Inr_iff dest: find_SomeD split: option.splits)

definition contracted :: "bill_env \<Rightarrow> bool" where
  "contracted e \<longleftrightarrow> (\<forall>p \<in> set (bv_providers e). bills_partner (pt_pay p) (pt_refund p))"

text \<open>The settlement of a row that exists.\<close>

lemma dispatch_outcome_of:
  assumes "bills_partner (pt_pay p) (pt_refund p)" and "dispatch_bill e p pay st = (res, st')"
    and "find_tx (pp_tx pay) (bl_db st) = Some r" "tx_type r = TBillPayment"
  shows "\<exists>r'. find_tx (pp_tx pay) (bl_db st') = Some r'
     \<and> (case res of Inr (j, s) \<Rightarrow> j = pp_tx pay \<and> tx_status r' = s | Inl _ \<Rightarrow> tx_status r' = Failed)
     \<and> (\<exists>es. filter paid (bl_log st') = filter paid (bl_log st) @ es
          \<and> es \<in> {[], [PartnerPaid (pp_tx pay) (pp_amount pay)]} \<and> (is_ok res \<longrightarrow> es \<noteq> []))"
proof (cases "pt_pay p pay")
  case (PayThrows m)
  with assms(2) assms(3) show ?thesis
    by (auto simp: dispatch_bill_def Let_def bill_failed_def find_update_same paid_def)
next
  case (PayOk ref d event)
  let ?st1 = "bl_add [BillEvent ''bill.completed'' (pp_tx pay)]
     (bl_update (pp_tx pay) (\<lambda>r. r\<lparr>tx_status := dispatched d, recipient_address := Some ref\<rparr>)
        (bl_add [PartnerPaid (pp_tx pay) (pp_amount pay)] st))"
  have f: "find_tx (pp_tx pay) (bl_db ?st1) = Some (r\<lparr>tx_status := dispatched d, recipient_address := Some ref\<rparr>)"
    using assms(3) by (simp add: find_update_same)
  have l: "filter paid (bl_log ?st1) = filter paid (bl_log st) @ [PartnerPaid (pp_tx pay) (pp_amount pay)]"
    by (simp add: paid_def)
  show ?thesis
  proof (cases event)
    case None
    with assms(2) PayOk f l show ?thesis by (auto simp: dispatch_bill_def Let_def)
  next
    case (Some ev)
    note ev = bills_partner.pay_event [OF assms(1) PayOk [unfolded Some]]
    let ?r1 = "r\<lparr>tx_status := dispatched d, recipient_address := Some ref\<rparr>"
    have f': "find_tx (ev_tx ev) (bl_db ?st1) = Some ?r1" using f ev by simp
    have ty: "tx_type ?r1 = TBillPayment" using assms(4) by simp
    show ?thesis
    proof (rule reconcile_Inr [OF f' ty, of "bv_now e" 0], goal_cases)
      case (1 st2)
      have s: "getTransactionStatusFromWebhook (ev_status ev) = Completed"
        using ev by (simp add: getTransactionStatusFromWebhook_def)
      from assms(2) PayOk Some "1"(1) s ev have "res = Inr (pp_tx pay, Completed)" "st' = st2"
        by (simp_all add: dispatch_bill_def Let_def)
      with "1"(2,3) l ev s show ?case by (simp add: reconcile_row_def)
    qed
  qed
qed

lemma dispatch_outcome:
  assumes "bills_partner (pt_pay p) (pt_refund p)" and "dispatch_bill e p pay st = (res, st')"
    and "find_tx i (bl_db st) = Some r" "tx_type r = TBillPayment" and pay: "pp_tx pay = i" "pp_amount pay = amt"
  shows "\<exists>r'. find_tx i (bl_db st') = Some r'
     \<and> (case res of Inr (j, s) \<Rightarrow> j = i \<and> tx_status r' = s | Inl _ \<Rightarrow> tx_status r' = Failed)
     \<and> (\<exists>es. filter paid (bl_log st') = filter paid (bl_log st) @ es
          \<and> es \<in> {[], [PartnerPaid i amt]} \<and> (is_ok res \<longrightarrow> es \<noteq> []))"
  using dispatch_outcome_of [OF assms(1,2) assms(3) [folded pay(1)] assms(4)] unfolding pay .

text \<open>Dispatching rewrites the one row, and not its owner.\<close>

definition same_owner :: "(txn \<Rightarrow> txn) \<Rightarrow> bool" where
  "same_owner g \<longleftrightarrow> (\<forall>q. tx_id (g q) = tx_id q \<and> tx_user (g q) = tx_user q \<and> tx_org (g q) = tx_org q)"

lemma update_tx_twice: "same_owner g \<Longrightarrow> update_tx i f (update_tx i g db) = update_tx i (f \<circ> g) db"
  by (simp add: update_tx_def same_owner_def)

lemma same_owner_comp: "same_owner f \<Longrightarrow> same_owner g \<Longrightarrow> same_owner (f \<circ> g)"
  by (simp add: same_owner_def)

lemma dispatch_update:
  assumes "bills_partner (pt_pay p) (pt_refund p)" and "dispatch_bill e p pay st = (res, st')"
  shows "\<exists>g. same_owner g \<and> bl_db st' = update_tx (pp_tx pay) g (bl_db st)"
proof (cases "pt_pay p pay")
  case (PayThrows m)
  with assms(2) show ?thesis
    by (auto simp: dispatch_bill_def Let_def bill_failed_def same_owner_def
        intro!: exI [of _ "\<lambda>r. r\<lparr>tx_status := Failed\<rparr>"])
next
  case (PayOk ref d event)
  let ?f = "\<lambda>r. r\<lparr>tx_status := dispatched d, recipient_address := Some ref\<rparr>"
  have so: "same_owner ?f" "same_owner (\<lambda>r. r\<lparr>tx_status := Failed\<rparr>)" "\<And>ev. same_owner (reconcile_row (bv_now e) ev)"
    by (simp_all add: same_owner_def reconcile_row_def)
  show ?thesis
  proof (cases event)
    case None
    with assms(2) PayOk so(1) show ?thesis by (auto simp: dispatch_bill_def Let_def)
  next
    case (Some ev)
    have ev: "ev_tx ev = pp_tx pay" using bills_partner.pay_event [OF assms(1) PayOk [unfolded Some]] by simp
    have "bl_db st' = update_tx (pp_tx pay) ?f (bl_db st)
        \<or> bl_db st' = update_tx (pp_tx pay) (\<lambda>r. r\<lparr>tx_status := Failed\<rparr>) (update_tx (pp_tx pay) ?f (bl_db st))
        \<or> bl_db st' = update_tx (pp_tx pay) (reconcile_row (bv_now e) ev) (update_tx (pp_tx pay) ?f (bl_db st))"
      using assms(2) PayOk Some ev
      by (auto simp: dispatch_bill_def Let_def reconcileBillsWebhook_def bill_failed_def
          dest!: find_SomeD simp: find_tx_def split: option.splits if_splits)
    then show ?thesis using so update_tx_twice [OF so(1)] same_owner_comp by metis
  qed
qed

section \<open>Properties\<close>

text \<open>
  A bill payment either changes nothing and is refused, or creates one transaction whose stored status
  is what the caller is told: the reported status on success (and the partner was paid exactly once, for the
  requested amount), failed when the call throws (and the partner accepted at most one payment).
\<close>

theorem bill_payment_settles:
  assumes "tx_inv (bl_db st)" and "contracted e" and "payBill e rq st = (res, st')"
  shows "(\<not> is_ok res \<and> st' = st) \<or>
    (\<exists>i r es. find_tx i (bl_db st) = None \<and> find_tx i (bl_db st') = Some r
       \<and> (case res of Inr (j, s) \<Rightarrow> j = i \<and> tx_status r = s \<and> es = [PartnerPaid i (bq_amount rq)]
          | Inl _ \<Rightarrow> tx_status r = Failed)
       \<and> filter paid (bl_log st') = filter paid (bl_log st) @ es \<and> es \<in> {[], [PartnerPaid i (bq_amount rq)]})"
  using assms(3)
proof (cases rule: payBill_cases)
  case (made p b r db tx)
  note sel = made(1) and c = made(3) and d = made(4)
  have bp: "bills_partner (pt_pay p) (pt_refund p)"
    using assms(2) provider_in [OF sel] by (auto simp: contracted_def)
  have rows: "tx_id tx = tx_next (bl_db st)" "tx_type tx = TBillPayment"
    using create_tx_rows [OF c] by (simp_all add: bill_row_def new_txn_def)
  have fresh: "find_tx (tx_id tx) (bl_db st) = None"
    using assms(1) rows(1) by (auto simp: find_tx_def find_None_iff' tx_inv_def)
  let ?st0 = "bl_add [BillEvent ''bill.initiated'' (tx_id tx)]
     (st\<lparr>bl_db := db, bl_provider := (tx_id tx, pt_id p) # bl_provider st\<rparr>)"
  have f: "find_tx (tx_id tx) (bl_db ?st0) = Some tx" using find_created [OF assms(1) c] by simp
  have l: "filter paid (bl_log ?st0) = filter paid (bl_log st)" by (simp add: paid_def)
  from dispatch_outcome [OF bp d f rows(2), of "bq_amount rq", unfolded l] obtain r' es where
    "find_tx (tx_id tx) (bl_db st') = Some r'"
    "case res of Inr (j, s) \<Rightarrow> j = tx_id tx \<and> tx_status r' = s | Inl _ \<Rightarrow> tx_status r' = Failed"
    "filter paid (bl_log st') = filter paid (bl_log st) @ es"
    "es \<in> {[], [PartnerPaid (tx_id tx) (bq_amount rq)]}" "is_ok res \<longrightarrow> es \<noteq> []"
    by auto
  with fresh show ?thesis
    by (intro disjI2 exI [of _ "tx_id tx"] exI [of _ r'] exI [of _ es]) (auto split: sum.splits)
qed simp

definition sample_bill_env :: bill_env where
  "sample_bill_env = \<lparr>bv_providers = [simulatedBillsPartner ''7f''], bv_configured = Some '' Simulated '',
     bv_limits = sample_limits_env, bv_cfg = getLimitConfig (envLimits (\<lambda>_. None)), bv_rate = 1,
     bv_paused = (\<lambda>_. False), bv_dec = (\<lambda>x. x), bv_now = 3000\<rparr>"

definition sample_bill_request :: bill_request where
  "sample_bill_request = \<lparr>bq_user = Some ''u1'', bq_org = None, bq_audience = None, bq_biller = ''mtn-airtime'',
     bq_product = ''topup'', bq_reference = ''08012345678'', bq_amount = 500\<rparr>"

definition sample_bills :: bill_state where
  "sample_bills = \<lparr>bl_db = empty_db, bl_provider = [], bl_webhooks = [], bl_log = []\<rparr>"

lemma sample_contracted: "contracted sample_bill_env"
  by (simp add: contracted_def sample_bill_env_def simulatedBillsPartner_def simulated.bills_partner_axioms)

lemma sample_bills_inv: "tx_inv (bl_db sample_bills)"
  by (simp add: sample_bills_def tx_inv_empty)

lemma sample_bill_paid: "fst (payBill sample_bill_env sample_bill_request sample_bills) = Inr (0, Completed)"
  by code_simp

theorem bill_payment_settles_witness:
  "\<exists>r. find_tx 0 (bl_db (snd (payBill sample_bill_env sample_bill_request sample_bills))) = Some r
     \<and> tx_status r = Completed"
  using bill_payment_settles [OF sample_bills_inv sample_contracted, of sample_bill_request "Inr (0, Completed)"
      "snd (payBill sample_bill_env sample_bill_request sample_bills)"] sample_bill_paid
  by (cases "payBill sample_bill_env sample_bill_request sample_bills") auto

text \<open>
  C25. A refund is made once: a successful refund is of a bill payment that was completed, the partner
  refunds it once, the row ends refunded, and asking again right away (before any further webhook) is refused without a
  further refund.
\<close>

theorem bill_refund_once:
  assumes "contracted e" and "refundBillPayment e i reason st = (Inr j, st')"
  shows "\<exists>r r'. find_tx i (bl_db st) = Some r \<and> tx_type r = TBillPayment \<and> tx_status r = Completed
     \<and> find_tx i (bl_db st') = Some r' \<and> tx_status r' = Refunded \<and> j = i
     \<and> length (filter (refunded_log i) (bl_log st')) = Suc (length (filter (refunded_log i) (bl_log st)))
     \<and> (truthy (recipient_address r') \<longrightarrow> refundBillPayment e i reason' st' = (Inl NotCompleted, st'))"
proof -
  from assms(2) obtain r p amount currency ref ev where
    r: "find_tx i (bl_db st) = Some r" "tx_type r = TBillPayment" "tx_status r = Completed"
    and p: "p \<in> set (bv_providers e)"
    and rf: "pt_refund p \<lparr>pf_tx = i, pf_ref = the (recipient_address r), pf_amount = amount,
                      pf_currency = currency, pf_reason = reason\<rparr> = RefundOk ref ev"
    and rec: "(case reconcileBillsWebhook (bv_now e) ev (bl_add [PartnerRefunded i amount] st) of
                      (Inl err, st1) \<Rightarrow> (Inl err, st1)
                    | (Inr _, st1) \<Rightarrow> (Inr i, bl_add [BillEvent ''bill.refunded'' i] st1)) = (Inr j, st')"
    by (auto simp: refundBillPayment_def Let_def bail_def getBillsProvider_def
        dest!: find_SomeD split: option.splits if_splits sum.splits refund_outcome.splits)
  from assms(1) p have "bills_partner (pt_pay p) (pt_refund p)" by (simp add: contracted_def)
  from bills_partner.refund_event [OF this rf] have ev: "ev_tx ev = i" "ev_status ev = WRefunded" by simp_all
  have f: "find_tx (ev_tx ev) (bl_db (bl_add [PartnerRefunded i amount] st)) = Some r" using r(1) ev by simp
  show ?thesis
  proof (rule reconcile_Inr [OF f r(2), of "bv_now e" i], goal_cases)
    case (1 st1)
    with rec have s: "j = i" "st' = bl_add [BillEvent ''bill.refunded'' i] st1" by auto
    let ?r' = "reconcile_row (bv_now e) ev r"
    have f': "find_tx i (bl_db st') = Some ?r'" using "1"(2) ev s by simp
    have st: "tx_status ?r' = Refunded" "tx_type ?r' = TBillPayment"
      using ev r(2) by (simp_all add: reconcile_row_def getTransactionStatusFromWebhook_def)
    have again: "truthy (recipient_address ?r') \<longrightarrow> refundBillPayment e i reason' st' = (Inl NotCompleted, st')"
      using f' st by (simp add: refundBillPayment_def)
    have "length (filter (refunded_log i) (bl_log st')) = Suc (length (filter (refunded_log i) (bl_log st)))"
      using "1"(4) s by (simp add: refunded_log_def)
    with r f' st again s show ?case by blast
  qed
qed

lemma sample_refund: "fst (refundBillPayment sample_bill_env 0 None (snd (payBill sample_bill_env sample_bill_request sample_bills))) = Inr 0"
  by code_simp

theorem bill_refund_once_witness:
  "\<exists>r'. find_tx 0 (bl_db (snd (refundBillPayment sample_bill_env 0 None
        (snd (payBill sample_bill_env sample_bill_request sample_bills))))) = Some r' \<and> tx_status r' = Refunded"
proof -
  let ?st = "snd (payBill sample_bill_env sample_bill_request sample_bills)"
  have "refundBillPayment sample_bill_env 0 None ?st = (Inr 0, snd (refundBillPayment sample_bill_env 0 None ?st))"
    by (rule prod_eqI) (simp_all add: sample_refund)
  from bill_refund_once [OF sample_contracted this] show ?thesis by blast
qed

definition sample_completed_event :: bills_event where
  "sample_completed_event = \<lparr>ev_provider = ''simulated'', ev_tx = 0, ev_ref = ''bill_7f'', ev_status = WCompleted,
     ev_amount = 500, ev_currency = ''NGN'', ev_reason = None\<rparr>"

definition replayed_refund :: bill_state where
  "replayed_refund =
     (let st1 = snd (payBill sample_bill_env sample_bill_request sample_bills);
          st2 = snd (refundBillPayment sample_bill_env 0 None st1);
          st3 = snd (reconcileBillsWebhook 4000 sample_completed_event st2)
      in snd (refundBillPayment sample_bill_env 0 None st3))"

text \<open>
  The guard of the refund does not survive a repeated webhook: \<open>reconcileBillsWebhook\<close> writes the status
  of whatever event it is given, so after a refund a second delivery of the partner's "completed" event
  makes the payment refundable again, and the customer is refunded twice.
\<close>

theorem replayed_webhook_refunds_twice:
  "length (filter (refunded_log 0) (bl_log replayed_refund)) = 2 \<and> length (filter paid (bl_log replayed_refund)) = 1"
  by code_simp

section \<open>Organizations\<close>

lemma sum_burned_unowned:
  assumes "tx_inv db" "create_tx r db = Some (db', tx)" "tx_user r = None" "tx_org r = None" "same_owner g"
  shows "sum_burned le since cur (ByOrg o') (update_tx (tx_id tx) g db') = sum_burned le since cur (ByOrg o') db"
proof -
  note c = create_tx_rows [OF assms(2)]
  have "\<forall>q \<in> set (tx_rows db). tx_id q \<noteq> tx_id tx" using assms(1) c by (auto simp: tx_inv_def)
  then have "map (\<lambda>q. if tx_id q = tx_id tx then g q else q) (tx_rows db) = tx_rows db" by (simp add: map_idI)
  then have rows: "tx_rows (update_tx (tx_id tx) g db') = tx_rows db @ [g tx]"
    using c by (simp add: update_tx_def)
  have "tx_user (g tx) = None" "tx_org (g tx) = None"
    using assms(3-5) c by (simp_all add: same_owner_def)
  then have "\<not> burn_since le since cur (ByOrg o') (g tx)" by (simp add: burn_since_def actor_matches_def)
  then show ?thesis by (simp add: sum_burned_def rows)
qed

text \<open>
  Bill payments of an organization are never counted against its limits: the row of a payment made
  with an organization's key (no user) carries no organization, so the check made for the organization
  afterwards gives the same answer as before, whatever was paid.
\<close>

theorem org_bill_payments_not_counted:
  assumes "tx_inv (bl_db st)" and "contracted e" and "bq_user rq = None" and "payBill e rq st = (res, st')"
    and "org \<noteq> []"
  shows "checkWithdrawalLimits le cfg rate amt cur None (Some org) (bl_db st')
       = checkWithdrawalLimits le cfg rate amt cur None (Some org) (bl_db st)"
  using assms(4)
proof (cases rule: payBill_cases)
  case (made p b r db tx)
  have bp: "bills_partner (pt_pay p) (pt_refund p)"
    using assms(2) provider_in [OF made(1)] by (auto simp: contracted_def)
  from dispatch_update [OF bp made(4)] obtain g where g: "same_owner g" "bl_db st' = update_tx (tx_id tx) g db"
    by auto
  have o: "tx_user (bill_row e rq r) = None" "tx_org (bill_row e rq r) = None"
    using assms(3) by (simp_all add: bill_row_def new_txn_def)
  show ?thesis
    by (simp add: checkWithdrawalLimits_def Let_def buildActorWhere_def truthy_def g(2)
        assms(5) sum_burned_unowned [OF assms(1) made(3) o g(1)])
qed simp

definition sample_org_request :: bill_request where
  "sample_org_request = sample_bill_request\<lparr>bq_user := None, bq_org := Some ''o1'', bq_amount := 9000\<rparr>"

theorem org_bill_payments_not_counted_witness:
  "fst (payBill sample_bill_env sample_org_request sample_bills) = Inr (0, Completed)
   \<and> checkWithdrawalLimits sample_limits_env (bv_cfg sample_bill_env Retail) 1 9000 ''NGN'' None (Some ''o1'')
       (bl_db (snd (payBill sample_bill_env sample_org_request sample_bills))) = Inr ()"
proof -
  have paid: "fst (payBill sample_bill_env sample_org_request sample_bills) = Inr (0, Completed)" by code_simp
  have u: "bq_user sample_org_request = None" by (simp add: sample_org_request_def)
  have "checkWithdrawalLimits sample_limits_env (bv_cfg sample_bill_env Retail) 1 9000 ''NGN'' None (Some ''o1'')
      (bl_db sample_bills) = Inr ()" by code_simp
  with paid org_bill_payments_not_counted [OF sample_bills_inv sample_contracted u prod.collapse [symmetric],
      of "''o1''" sample_limits_env "bv_cfg sample_bill_env Retail" 1 9000 "''NGN''"]
  show ?thesis by simp
qed

end
