(* ===== verification/WebhookIn.thy ===== *)
theory WebhookIn
  imports Bills Messages
begin

text \<open>
  Incoming webhooks: \<open>src/controllers/webhookController.ts\<close>. The guards of the three providers run the same
  checks in the same order and differ in the secret, the HMAC and the answers, so they are one definition over a
  record of those; the handlers of the two deposit providers record an event, the handler of the bill
  payments reconciles the payment (theory Bills). The two HMACs and \<open>Date.parse\<close> are arguments.
\<close>

section \<open>Configuration\<close>

record wi_env =
  wi_bypass :: "string option"             \<comment> \<open>\<open>WEBHOOK_SIGNATURE_BYPASS\<close>\<close>
  wi_node_env :: "string option"           \<comment> \<open>\<open>NODE_ENV\<close>\<close>
  wi_config_env :: string                  \<comment> \<open>\<open>config.nodeEnv\<close>\<close>
  wi_app_env :: "string option"
  wi_app_profile :: "string option"
  wi_tolerance :: string                   \<comment> \<open>\<open>WEBHOOK_TIMESTAMP_TOLERANCE_S\<close>, empty when unset\<close>
  wi_now_ms :: int
  wi_date :: "string \<Rightarrow> jsnum"             \<comment> \<open>\<open>Date.parse\<close>\<close>
  wi_sha256 :: "string \<Rightarrow> string \<Rightarrow> string" \<comment> \<open>of a body under a secret, in hexadecimal\<close>
  wi_sha512 :: "string \<Rightarrow> string \<Rightarrow> string"
  wi_flutterwave_secret :: string
  wi_paystack_secret :: string
  wi_bills_secret :: string

definition bypassRequested :: "wi_env \<Rightarrow> bool" where
  "bypassRequested e \<longleftrightarrow> wi_bypass e = Some ''true''"

definition isExplicitTestProfile :: "wi_env \<Rightarrow> bool" where
  "isExplicitTestProfile e \<longleftrightarrow> wi_config_env e = ''test'' \<or> wi_app_profile e = Some ''test''"

definition bypassEnabled :: "wi_env \<Rightarrow> bool" where
  "bypassEnabled e \<longleftrightarrow> bypassRequested e \<and> isExplicitTestProfile e"

text \<open>The tolerance, an integer from 1 to 86400, or None where reading it throws.\<close>

definition tolerance_s :: "wi_env \<Rightarrow> rat option" where
  "tolerance_s e =
     (case js_number (if wi_tolerance e = [] then ''300'' else wi_tolerance e) of
        Fin q \<Rightarrow> if q \<in> \<int> \<and> 1 \<le> q \<and> q \<le> 86400 then Some q else None
      | _ \<Rightarrow> None)"

text \<open>Loading the module throws when the bypass is requested outside a test profile.\<close>

definition module_loads :: "wi_env \<Rightarrow> bool" where
  "module_loads e \<longleftrightarrow> \<not> (bypassRequested e \<and> \<not> isExplicitTestProfile e) \<and> tolerance_s e \<noteq> None"

definition looksLikeProduction :: "wi_env \<Rightarrow> bool" where
  "looksLikeProduction e \<longleftrightarrow>
     wi_node_env e = Some ''production'' \<or> wi_app_env e = Some ''production'' \<or> wi_app_profile e = Some ''production''"

text \<open>\<open>assertBypassNotInProduction\<close> throws\<close>

definition bypass_refused :: "wi_env \<Rightarrow> bool" where
  "bypass_refused e \<longleftrightarrow> bypassEnabled e \<and> looksLikeProduction e"

definition isTimestampValid :: "wi_env \<Rightarrow> string option \<Rightarrow> bool" where
  "isTimestampValid e raw =
     (case raw of
        None \<Rightarrow> False
      | Some s \<Rightarrow>
          s \<noteq> [] \<and>
          (case (case js_number s of
                   Fin q \<Rightarrow> Fin q
                 | _ \<Rightarrow> (case wi_date e s of Fin ms \<Rightarrow> Fin (f64 (ms / 1000)) | n \<Rightarrow> n)) of
             Fin event_s \<Rightarrow>
               (case tolerance_s e of
                  Some t \<Rightarrow> \<bar>f64 (f64 (of_int (wi_now_ms e) / 1000) - event_s)\<bar> \<le> t
                | None \<Rightarrow> False)
           | _ \<Rightarrow> False))"

section \<open>Signatures\<close>

record hook_request_in =
  hr_content_type :: "string option"
  hr_raw :: "string option"                \<comment> \<open>the bytes of the body\<close>
  hr_timestamp :: "string option"
  hr_signature :: "string option"
  hr_body :: json
  hr_request_id :: string                  \<comment> \<open>header \<open>x-request-id\<close>, or a random one\<close>

definition isContentTypeJson :: "hook_request_in \<Rightarrow> bool" where
  "isContentTypeJson rq =
     (case hr_content_type rq of None \<Rightarrow> False | Some c \<Rightarrow> c \<noteq> [] \<and> starts_with c ''application/json'')"

definition hex_digit :: "char \<Rightarrow> int option" where
  "hex_digit c =
     (let n = of_char (lower_char c) :: int in
      if is_digit c then Some (digit_val c) else if 97 \<le> n \<and> n \<le> 102 then Some (n - 87) else None)"

text \<open>\<open>Buffer.from(s, "hex")\<close>: the bytes up to the first pair that is not hexadecimal.\<close>

fun hex_bytes :: "string \<Rightarrow> int list" where
  "hex_bytes (a # b # s) =
     (case (hex_digit a, hex_digit b) of (Some x, Some y) \<Rightarrow> (16 * x + y) # hex_bytes s | _ \<Rightarrow> [])"
| "hex_bytes s = []"

datatype verdict = Passed | Answered nat | Threw nat

record hook_guard =
  hg_secret :: string
  hg_hmac :: "string \<Rightarrow> string \<Rightarrow> string"
  hg_reject :: "nat \<Rightarrow> verdict"              \<comment> \<open>answered or thrown, by status\<close>

definition verify_signed :: "wi_env \<Rightarrow> hook_guard \<Rightarrow> hook_request_in \<Rightarrow> verdict" where
  "verify_signed e g rq =
     (if bypassEnabled e then (if bypass_refused e then Threw 503 else Passed)
      else if \<not> isContentTypeJson rq then Answered 415
      else if hg_secret g = [] then Threw 503
      else
        (case hr_raw rq of
           None \<Rightarrow> hg_reject g 400
         | Some body \<Rightarrow>
             if \<not> isTimestampValid e (hr_timestamp rq) then Answered 401
             else if \<not> truthy (hr_signature rq) then hg_reject g 401
             else if hex_bytes (the (hr_signature rq)) = hex_bytes (hg_hmac g (hg_secret g) body) then Passed
             else hg_reject g 401))"

definition flutterwave_guard :: "wi_env \<Rightarrow> hook_guard" where
  "flutterwave_guard e = \<lparr>hg_secret = wi_flutterwave_secret e, hg_hmac = wi_sha256 e, hg_reject = Answered\<rparr>"

definition paystack_guard :: "wi_env \<Rightarrow> hook_guard" where
  "paystack_guard e = \<lparr>hg_secret = wi_paystack_secret e, hg_hmac = wi_sha512 e, hg_reject = Answered\<rparr>"

definition bills_guard :: "wi_env \<Rightarrow> hook_guard" where
  "bills_guard e = \<lparr>hg_secret = wi_bills_secret e, hg_hmac = wi_sha256 e, hg_reject = Threw\<rparr>"

definition verifyFlutterwaveSignature :: "wi_env \<Rightarrow> hook_request_in \<Rightarrow> verdict" where
  "verifyFlutterwaveSignature e = verify_signed e (flutterwave_guard e)"

definition verifyPaystackSignature :: "wi_env \<Rightarrow> hook_request_in \<Rightarrow> verdict" where
  "verifyPaystackSignature e = verify_signed e (paystack_guard e)"

definition verifyBillsWebhookSignature :: "wi_env \<Rightarrow> hook_request_in \<Rightarrow> verdict" where
  "verifyBillsWebhookSignature e = verify_signed e (bills_guard e)"

section \<open>Deposit events\<close>

record event_row =
  er_event_id :: "string option"           \<comment> \<open>unique where present\<close>
  er_event_type :: string
  er_payload :: json

record financial_event =
  fe_provider :: string
  fe_status :: string
  fe_transaction :: json
  fe_key :: json
  fe_amount :: json
  fe_currency :: json

record wi_state =
  wi_rows :: "event_row list"
  wi_log :: "financial_event list"

datatype hook_answer = Recorded | Duplicate | Failed500

definition getWebhookEventId :: "json \<Rightarrow> string option" where
  "getWebhookEventId payload =
     (case jget payload ''event_id'' of JStr s \<Rightarrow> if trim s = [] then None else Some (trim s) | _ \<Rightarrow> None)"

text \<open>The insertion: the unique index on the id, and the lengths of the columns.\<close>

datatype insert_outcome = Inserted | UniqueViolation | TooLong

definition insert_event :: "event_row \<Rightarrow> wi_state \<Rightarrow> insert_outcome" where
  "insert_event r st =
     (if 50 < length (er_event_type r) \<or> (case er_event_id r of None \<Rightarrow> False | Some i \<Rightarrow> 255 < length i) then TooLong
      else if er_event_id r \<noteq> None \<and> er_event_id r \<in> er_event_id ` set (wi_rows st) then UniqueViolation
      else Inserted)"

definition record_event :: "event_row \<Rightarrow> financial_event \<Rightarrow> wi_state \<Rightarrow> hook_answer \<times> wi_state" where
  "record_event r ev st =
     (case insert_event r st of
        Inserted \<Rightarrow> (Recorded, st\<lparr>wi_rows := wi_rows st @ [r], wi_log := wi_log st @ [ev]\<rparr>)
      | UniqueViolation \<Rightarrow> (if er_event_id r \<noteq> None then Duplicate else Failed500, st)
      | TooLong \<Rightarrow> (Failed500, st))"

definition key_of :: "string option \<Rightarrow> json \<Rightarrow> json \<Rightarrow> json" where
  "key_of event_id ref corr = (case event_id of Some i \<Rightarrow> JStr i | None \<Rightarrow> nullish ref corr)"

definition status_of_map :: "(string \<times> string) list \<Rightarrow> json \<Rightarrow> string" where
  "status_of_map m v =
     (case map_of m (js_string (nullish v (JStr []))) of Some s \<Rightarrow> s | None \<Rightarrow> ''pending'')"

definition handlePaystackWebhook :: "hook_request_in \<Rightarrow> wi_state \<Rightarrow> hook_answer \<times> wi_state" where
  "handlePaystackWebhook rq st =
     (let payload = hr_body rq; d = jget payload ''data''; corr = JStr (hr_request_id rq);
          eventId = getWebhookEventId payload; ref = jget d ''reference'' in
      record_event
        \<lparr>er_event_id = eventId, er_event_type = ''paystack:'' @ js_string (nullish (jget payload ''event'') (JStr ''unknown'')),
         er_payload = payload\<rparr>
        \<lparr>fe_provider = ''paystack'',
         fe_status = status_of_map [(''success'', ''success''), (''failed'', ''failed''), (''reversed'', ''reversed'')] (jget d ''status''),
         fe_transaction = nullish ref corr, fe_key = key_of eventId ref corr,
         fe_amount = nullish (jget d ''amount'') (JNum (Fin 0)), fe_currency = nullish (jget d ''currency'') (JStr ''NGN'')\<rparr> st)"

definition handleFlutterwaveWebhook :: "hook_request_in \<Rightarrow> wi_state \<Rightarrow> hook_answer \<times> wi_state" where
  "handleFlutterwaveWebhook rq st =
     (let payload = hr_body rq; d = jget payload ''data''; corr = JStr (hr_request_id rq);
          eventId = getWebhookEventId payload; ref = jget d ''tx_ref'' in
      record_event
        \<lparr>er_event_id = eventId,
         er_event_type = js_string (nullish (jget payload ''event'') (nullish (jget payload ''type'') (JStr ''unknown''))),
         er_payload = payload\<rparr>
        \<lparr>fe_provider = ''flutterwave'',
         fe_status = status_of_map [(''successful'', ''success''), (''success'', ''success''), (''failed'', ''failed''),
           (''reversed'', ''reversed'')] (jget d ''status''),
         fe_transaction = nullish ref corr, fe_key = key_of eventId ref corr,
         fe_amount = nullish (jget d ''amount'') (JNum (Fin 0)), fe_currency = nullish (jget d ''currency'') (JStr ''NGN'')\<rparr> st)"

section \<open>Bill payments\<close>

definition js_text :: "json \<Rightarrow> string" where
  "js_text v = trim (js_string (nullish v (JStr [])))"

definition to_upper_char :: "char \<Rightarrow> char" where
  "to_upper_char c = (let n = of_char c :: nat in if 97 \<le> n \<and> n \<le> 122 then char_of (n - 32) else c)"

definition bills_status :: "string \<Rightarrow> webhook_status option" where
  "bills_status s =
     (if s = ''completed'' then Some WCompleted else if s = ''failed'' then Some WFailed
      else if s = ''refunded'' then Some WRefunded else None)"

text \<open>
  \<open>tx_of\<close> finds the row number of a transaction id. The guard of the route has run before; the handler
  checks the timestamp again.
\<close>

definition handleBillsWebhook ::
  "wi_env \<Rightarrow> (string \<Rightarrow> nat option) \<Rightarrow> int \<Rightarrow> string \<Rightarrow> hook_request_in \<Rightarrow> bill_state \<Rightarrow> (nat + (nat \<times> status)) \<times> bill_state" where
  "handleBillsWebhook e tx_of now provider rq st =
     (let p = to_lower (trim provider); body = hr_body rq;
          tx = js_text (nullish (jget body ''transaction_id'') (jget body ''transactionId''));
          ref = js_text (nullish (jget body ''provider_reference'') (jget body ''providerReference''));
          amount = js_to_number (Some (nullish (jget body ''amount'') (JNum (Fin 0))));
          currency = map to_upper_char (js_text (nullish (jget body ''currency'') (JStr ''NGN'')));
          reason = js_text (jget body ''reason'') in
      if bypass_refused e then (Inl 503, st)
      else if p = [] then (Inl 400, st)
      else if \<not> isTimestampValid e (hr_timestamp rq) then (Inl 401, st)
      else if tx = [] then (Inl 400, st)
      else if ref = [] then (Inl 400, st)
      else
        (case bills_status (to_lower (js_text (jget body ''status''))) of
           None \<Rightarrow> (Inl 400, st)
         | Some s \<Rightarrow>
             (case amount of
                Fin a \<Rightarrow>
                  if a < 0 then (Inl 400, st)
                  else
                    (case tx_of tx of
                       None \<Rightarrow> (Inl 404, st)
                     | Some i \<Rightarrow>
                         (case reconcileBillsWebhook now
                             \<lparr>ev_provider = p, ev_tx = i, ev_ref = ref, ev_status = s, ev_amount = a, ev_currency = currency,
                              ev_reason = (if reason = [] then None else Some reason)\<rparr> st of
                            (Inl err, st1) \<Rightarrow> (Inl 404, st1)
                          | (Inr r, st1) \<Rightarrow> (Inr r, st1)))
              | _ \<Rightarrow> (Inl 400, st))))"

section \<open>Lemmas\<close>

text \<open>The three guarded routes.\<close>

datatype hook_route = FlutterwaveRoute | PaystackRoute | BillsRoute

definition guard_of :: "wi_env \<Rightarrow> hook_route \<Rightarrow> hook_guard" where
  "guard_of e r =
     (case r of FlutterwaveRoute \<Rightarrow> flutterwave_guard e | PaystackRoute \<Rightarrow> paystack_guard e | BillsRoute \<Rightarrow> bills_guard e)"

definition verify_route :: "wi_env \<Rightarrow> hook_route \<Rightarrow> hook_request_in \<Rightarrow> verdict" where
  "verify_route e r =
     (case r of FlutterwaveRoute \<Rightarrow> verifyFlutterwaveSignature e | PaystackRoute \<Rightarrow> verifyPaystackSignature e
      | BillsRoute \<Rightarrow> verifyBillsWebhookSignature e)"

lemma verify_route_eq: "verify_route e r = verify_signed e (guard_of e r)"
  by (cases r) (simp_all add: verify_route_def guard_of_def verifyFlutterwaveSignature_def verifyPaystackSignature_def
      verifyBillsWebhookSignature_def)

lemma reject_not_passed [simp]: "hg_reject (guard_of e r) n \<noteq> Passed"
  by (cases r) (simp_all add: guard_of_def flutterwave_guard_def paystack_guard_def bills_guard_def)

lemma verify_signed_cases:
  assumes "\<not> bypassEnabled e"
  shows "verify_route e r rq = Passed \<longleftrightarrow>
    isContentTypeJson rq \<and> hg_secret (guard_of e r) \<noteq> [] \<and> isTimestampValid e (hr_timestamp rq) \<and>
    (\<exists>body sig. hr_raw rq = Some body \<and> hr_signature rq = Some sig \<and> sig \<noteq> [] \<and>
       hex_bytes sig = hex_bytes (hg_hmac (guard_of e r) (hg_secret (guard_of e r)) body))"
  using assms by (auto simp: verify_route_eq verify_signed_def truthy_def split: option.split)

lemma guard_clock [simp]: "guard_of (e\<lparr>wi_now_ms := t\<rparr>) r = guard_of e r"
  by (cases r) (simp_all add: guard_of_def flutterwave_guard_def paystack_guard_def bills_guard_def)

lemma bypass_clock [simp]: "bypassEnabled (e\<lparr>wi_now_ms := t\<rparr>) = bypassEnabled e"
  by (simp add: bypassEnabled_def bypassRequested_def isExplicitTestProfile_def)

lemma tolerance_clock [simp]: "tolerance_s (e\<lparr>wi_now_ms := t\<rparr>) = tolerance_s e"
  by (simp add: tolerance_s_def)

section \<open>Properties of the guards\<close>

text \<open>
  C16. When the module has loaded and the deployment is not a test profile, or looks like production, a webhook passes
  the guard of its route only with a JSON content type, a configured secret, a timestamp within the tolerance, and a
  signature that decodes to the HMAC of the raw body under that secret.
\<close>

theorem accepted_webhook_is_signed:
  assumes "verify_route e r rq = Passed" and "module_loads e" and "\<not> isExplicitTestProfile e \<or> looksLikeProduction e"
  shows "isContentTypeJson rq \<and> hg_secret (guard_of e r) \<noteq> [] \<and> isTimestampValid e (hr_timestamp rq) \<and>
    (\<exists>body sig. hr_raw rq = Some body \<and> hr_signature rq = Some sig \<and>
       hex_bytes sig = hex_bytes (hg_hmac (guard_of e r) (hg_secret (guard_of e r)) body))"
proof -
  have "\<not> bypassEnabled e"
  proof
    assume on: "bypassEnabled e"
    then have "looksLikeProduction e" using assms(3) by (simp add: bypassEnabled_def)
    with on have "verify_route e r rq = Threw 503" by (simp add: verify_route_eq verify_signed_def bypass_refused_def)
    then show False using assms(1) by simp
  qed
  from verify_signed_cases [OF this] show ?thesis using assms(1) by blast
qed

definition sample_wi_env :: wi_env where
  "sample_wi_env =
     \<lparr>wi_bypass = None, wi_node_env = Some ''production'', wi_config_env = ''production'', wi_app_env = None,
      wi_app_profile = None, wi_tolerance = [], wi_now_ms = 1000000, wi_date = (\<lambda>s. NaN),
      wi_sha256 = (\<lambda>k m. if m = ''b'' then ''ab01'' else ''00''), wi_sha512 = (\<lambda>k m. ''ff''),
      wi_flutterwave_secret = ''f'', wi_paystack_secret = ''p'', wi_bills_secret = ''s''\<rparr>"

definition sample_hook :: hook_request_in where
  "sample_hook =
     \<lparr>hr_content_type = Some ''application/json'', hr_raw = Some ''b'', hr_timestamp = Some ''900'',
      hr_signature = Some ''AB01'', hr_body = JObj [(''event_id'', JStr ''e1'')], hr_request_id = ''q''\<rparr>"

lemma sample_tolerance: "tolerance_s sample_wi_env = Some 300"
proof -
  have "js_number ''300'' = Fin 300" by code_simp
  then show ?thesis by (simp add: tolerance_s_def sample_wi_env_def)
qed

lemma sample_hook_passes: "verify_route sample_wi_env BillsRoute sample_hook = Passed"
proof -
  have n: "js_number ''900'' = Fin 900" "f64 1000 = 1000" "f64 100 = 100" by code_simp+
  have h: "hex_bytes ''AB01'' = hex_bytes ''ab01''" "starts_with ''application/json'' ''application/json''" by code_simp+
  have t: "isTimestampValid sample_wi_env (Some ''900'')"
    using sample_tolerance by (simp add: isTimestampValid_def n) (simp add: sample_wi_env_def n)
  have off: "\<not> bypassEnabled sample_wi_env" by (simp add: bypassEnabled_def bypassRequested_def sample_wi_env_def)
  show ?thesis
    using t h by (simp add: verify_signed_cases [OF off])
      (simp add: isContentTypeJson_def sample_hook_def guard_of_def bills_guard_def sample_wi_env_def)
qed

theorem accepted_webhook_is_signed_witness:
  "isContentTypeJson sample_hook \<and> isTimestampValid sample_wi_env (hr_timestamp sample_hook)"
proof -
  have "module_loads sample_wi_env" using sample_tolerance
    by (simp add: module_loads_def) (simp add: bypassRequested_def sample_wi_env_def)
  moreover have "looksLikeProduction sample_wi_env" by (simp add: looksLikeProduction_def sample_wi_env_def)
  ultimately show ?thesis using accepted_webhook_is_signed [OF sample_hook_passes] by blast
qed

text \<open>
  The timestamp is not signed, so it does not stop a replay: a webhook that passed once passes again at any later
  time, with the same body and signature, once its timestamp header is replaced by a fresh one; only the request with
  the old header is refused.
\<close>

theorem replay_passes_with_fresh_timestamp:
  assumes "verify_route e r rq = Passed" and "\<not> bypassEnabled e"
    and "isTimestampValid (e\<lparr>wi_now_ms := later\<rparr>) (Some fresh)"
    and "\<not> isTimestampValid (e\<lparr>wi_now_ms := later\<rparr>) (hr_timestamp rq)"
  shows "verify_route (e\<lparr>wi_now_ms := later\<rparr>) r rq \<noteq> Passed \<and>
    verify_route (e\<lparr>wi_now_ms := later\<rparr>) r (rq\<lparr>hr_timestamp := Some fresh\<rparr>) = Passed"
proof -
  have off: "\<not> bypassEnabled (e\<lparr>wi_now_ms := later\<rparr>)" using assms(2) by simp
  show ?thesis
    using assms verify_signed_cases [OF assms(2), of r rq] verify_signed_cases [OF off, of r rq]
      verify_signed_cases [OF off, of r "rq\<lparr>hr_timestamp := Some fresh\<rparr>"]
    by (simp add: isContentTypeJson_def)
qed

theorem replay_passes_with_fresh_timestamp_witness:
  "verify_route (sample_wi_env\<lparr>wi_now_ms := 90000000\<rparr>) BillsRoute (sample_hook\<lparr>hr_timestamp := Some ''90000''\<rparr>) = Passed"
proof -
  have n: "js_number ''900'' = Fin 900" "js_number ''90000'' = Fin 90000" "f64 90000 = 90000" "f64 89100 = 89100" "f64 0 = 0"
    by code_simp+
  have "tolerance_s (sample_wi_env\<lparr>wi_now_ms := t\<rparr>) = Some 300" for t
    using sample_tolerance by simp
  then have "isTimestampValid (sample_wi_env\<lparr>wi_now_ms := 90000000\<rparr>) (Some ''90000'')"
    "\<not> isTimestampValid (sample_wi_env\<lparr>wi_now_ms := 90000000\<rparr>) (hr_timestamp sample_hook)"
    by (simp_all add: isTimestampValid_def n sample_hook_def)
  moreover have "\<not> bypassEnabled sample_wi_env" by (simp add: bypassEnabled_def bypassRequested_def sample_wi_env_def)
  ultimately show ?thesis using replay_passes_with_fresh_timestamp [OF sample_hook_passes] by blast
qed

section \<open>Properties of the deposit handlers\<close>

datatype deposit_call = PaystackCall hook_request_in | FlutterwaveCall hook_request_in

definition deposit_call :: "deposit_call \<Rightarrow> wi_state \<Rightarrow> hook_answer \<times> wi_state" where
  "deposit_call c = (case c of PaystackCall rq \<Rightarrow> handlePaystackWebhook rq | FlutterwaveCall rq \<Rightarrow> handleFlutterwaveWebhook rq)"

definition call_id :: "deposit_call \<Rightarrow> string option" where
  "call_id c = getWebhookEventId (hr_body (case c of PaystackCall rq \<Rightarrow> rq | FlutterwaveCall rq \<Rightarrow> rq))"

fun run_deposits :: "deposit_call list \<Rightarrow> wi_state \<Rightarrow> hook_answer list \<times> wi_state" where
  "run_deposits [] st = ([], st)"
| "run_deposits (c # cs) st =
     (case deposit_call c st of (a, st1) \<Rightarrow> (case run_deposits cs st1 of (as, st2) \<Rightarrow> (a # as, st2)))"

definition known_ids :: "wi_state \<Rightarrow> string set" where
  "known_ids st = {i. Some i \<in> er_event_id ` set (wi_rows st)}"

lemma deposit_call_effect:
  "deposit_call c st = (a, st') \<Longrightarrow>
     (a = Recorded \<longrightarrow> (\<exists>r ev. er_event_id r = call_id c \<and> wi_rows st' = wi_rows st @ [r] \<and> wi_log st' = wi_log st @ [ev]) \<and>
        (\<forall>i. call_id c = Some i \<longrightarrow> i \<notin> known_ids st)) \<and>
     (a \<noteq> Recorded \<longrightarrow> st' = st) \<and> (a = Duplicate \<longrightarrow> (\<exists>i. call_id c = Some i \<and> i \<in> known_ids st))"
  by (cases c)
    (auto simp: deposit_call_def call_id_def handlePaystackWebhook_def handleFlutterwaveWebhook_def record_event_def
      insert_event_def known_ids_def Let_def split: if_splits option.splits)

text \<open>How often an event id has been answered as recorded.\<close>

definition times_recorded :: "string \<Rightarrow> deposit_call list \<Rightarrow> hook_answer list \<Rightarrow> nat" where
  "times_recorded i cs as = length (filter (\<lambda>(c, a). call_id c = Some i \<and> a = Recorded) (zip cs as))"

lemma recorded_or_known:
  "run_deposits cs st = (as, st') \<Longrightarrow> times_recorded i cs as + (if i \<in> known_ids st then 1 else 0) \<le> 1"
proof (induction cs arbitrary: st as st')
  case (Cons c cs)
  obtain a st1 where a: "deposit_call c st = (a, st1)" by fastforce
  obtain bs st2 where b: "run_deposits cs st1 = (bs, st2)" by fastforce
  have as: "as = a # bs" using Cons.prems a b by simp
  have ih: "times_recorded i cs bs + (if i \<in> known_ids st1 then 1 else 0) \<le> 1" by (rule Cons.IH [OF b])
  show ?case
  proof (cases "a = Recorded")
    case True
    then obtain r where r: "er_event_id r = call_id c" "wi_rows st1 = wi_rows st @ [r]"
      "\<forall>j. call_id c = Some j \<longrightarrow> j \<notin> known_ids st"
      using deposit_call_effect [OF a] by blast
    show ?thesis
    proof (cases "call_id c = Some i")
      case True
      then have "i \<in> known_ids st1" "i \<notin> known_ids st" using r by (auto simp: known_ids_def)
      then show ?thesis using ih as True \<open>a = Recorded\<close> by (simp add: times_recorded_def)
    next
      case False
      then have "i \<in> known_ids st1 \<longleftrightarrow> i \<in> known_ids st" using r by (auto simp: known_ids_def)
      then show ?thesis using ih as False by (simp add: times_recorded_def)
    qed
  next
    case False
    then have "st1 = st" using deposit_call_effect [OF a] by blast
    then show ?thesis using ih as False by (simp add: times_recorded_def)
  qed
qed (simp add: times_recorded_def)

text \<open>
  In every sequence of deposit webhooks an event id is recorded at most once, not at all when it was there before,
  and a webhook is answered as a duplicate only when its id is in the table, whichever of the two providers it is from.
  So an event whose id the other provider has used is answered as a duplicate and dropped.
\<close>

theorem event_recorded_at_most_once:
  assumes "run_deposits cs st = (as, st')"
  shows "times_recorded i cs as + (if i \<in> known_ids st then 1 else 0) \<le> 1 \<and>
    length as = length cs \<and>
    (case cs of [] \<Rightarrow> True | c # _ \<Rightarrow> hd as = Duplicate \<longrightarrow> (\<exists>j. call_id c = Some j \<and> j \<in> known_ids st))"
proof -
  have "length as = length cs" using assms by (induction cs arbitrary: st as) (auto split: prod.splits)
  moreover have "case cs of [] \<Rightarrow> True | c # _ \<Rightarrow> hd as = Duplicate \<longrightarrow> (\<exists>j. call_id c = Some j \<and> j \<in> known_ids st)"
    using assms by (cases cs) (auto split: prod.splits dest!: deposit_call_effect)
  ultimately show ?thesis using recorded_or_known [OF assms] by blast
qed

definition no_events :: wi_state where
  "no_events = \<lparr>wi_rows = [], wi_log = []\<rparr>"

definition same_id_twice :: "deposit_call list" where
  "same_id_twice =
     [PaystackCall sample_hook, FlutterwaveCall (sample_hook\<lparr>hr_body := JObj [(''event_id'', JStr '' e1''), (''event'', JStr ''charge.completed'')]\<rparr>)]"

theorem event_recorded_at_most_once_witness:
  "fst (run_deposits same_id_twice no_events) = [Recorded, Duplicate] \<and>
   times_recorded ''e1'' same_id_twice (fst (run_deposits same_id_twice no_events)) \<le> 1"
proof
  show "fst (run_deposits same_id_twice no_events) = [Recorded, Duplicate]" by code_simp
  show "times_recorded ''e1'' same_id_twice (fst (run_deposits same_id_twice no_events)) \<le> 1"
    using event_recorded_at_most_once [of same_id_twice no_events "fst (run_deposits same_id_twice no_events)"
        "snd (run_deposits same_id_twice no_events)" "''e1''"] by simp
qed

end
