(* ===== verification/Investment.thy ===== *)
theory Investment
  imports Basket Rates JobLock
begin

text \<open>
  Investments: \<open>src/services/investment\<close> (allocation to strategies, yield accounting, timing of withdrawals),
  \<open>src/controllers/investmentController.ts\<close> (the withdrawal request), \<open>src/config/investment.ts\<close>,
  \<open>src/utils/retry.ts\<close> and the two jobs \<open>investmentWithdrawalJob.ts\<close> and \<open>yieldAccrualJob.ts\<close>. The functions of the
  decimal library on strings, the calendar of the business time zone and the outcomes of the database and of the
  broker are arguments.
\<close>

section \<open>State and configuration\<close>

record strategy =
  sg_id :: string
  sg_name :: string
  sg_status :: string
  sg_limit :: rat
  sg_deployed :: rat
  sg_apy_bps :: "int option"

datatype yield_source = ReserveYield | VaultYield | PoolYield

record yield_entry =
  ye_source :: yield_source
  ye_amount :: rat
  ye_currency :: "string option"
  ye_at :: int

record accrual_posting =
  po_strategy :: string
  po_amount :: rat
  po_at :: int

datatype inv_status = IRequested | IProcessing | IAvailable | ICompleted | IFailed

record withdrawal_request =
  iw_user :: "string option"
  iw_org :: "string option"
  iw_business :: bool
  iw_amount :: rat
  iw_status :: inv_status
  iw_forced :: bool
  iw_fee :: "rat option"
  iw_available_at :: int
  iw_created_at :: int
  iw_notified_at :: "int option"

record inv_state =
  iv_strategies :: "strategy list"
  iv_yields :: "yield_entry list"           \<comment> \<open>the array \<open>yieldLedger\<close>\<close>
  iv_postings :: "accrual_posting list"     \<comment> \<open>transactions of type \<open>accrual\<close>\<close>
  iv_requests :: "withdrawal_request list"  \<comment> \<open>by position\<close>
  iv_ready_sent :: "nat list"               \<comment> \<open>requests whose notification was published\<close>

record inv_env =
  ie_is_decimal :: "string \<Rightarrow> bool"         \<comment> \<open>\<open>Decimal.isDecimal\<close> on a string\<close>
  ie_decimal :: "string \<Rightarrow> jsnum option"    \<comment> \<open>\<open>new Decimal\<close>, None where it throws\<close>
  ie_fraction :: string                     \<comment> \<open>\<open>INVESTMENT_DEPLOYABLE_FRACTION\<close>\<close>
  ie_allowed_days :: string                 \<comment> \<open>\<open>INVESTMENT_BUSINESS_ALLOWED_DAYS\<close>\<close>
  ie_forced_fee :: string
  ie_day :: "int \<Rightarrow> int"                   \<comment> \<open>day of the month of an instant, in the business time zone\<close>
  ie_segment_value :: rat                   \<comment> \<open>value of the segment \<open>investment_savings\<close>\<close>
  ie_posted :: "string \<Rightarrow> bool"             \<comment> \<open>whether the posting of a strategy is stored\<close>

datatype inv_error =
    EmptyAmount | NotDecimal | NotFinite | NotPositive | StrategyNotFound | StrategyInactive | PolicyLimit
  | DatabaseFailed | YieldAmount | YieldTimestamp | YieldCurrency | NoContext | InvalidRequest | BusinessCalendar

section \<open>Allocation\<close>

definition parseFiniteAmountUsd :: "inv_env \<Rightarrow> string \<Rightarrow> inv_error + rat" where
  "parseFiniteAmountUsd e amount =
     (if trim amount = [] then Inl EmptyAmount
      else if \<not> ie_is_decimal e amount then Inl NotDecimal
      else
        (case ie_decimal e amount of
           None \<Rightarrow> Inl NotDecimal
         | Some (Fin q) \<Rightarrow> Inr q
         | Some _ \<Rightarrow> Inl NotFinite))"

definition find_strategy :: "string \<Rightarrow> inv_state \<Rightarrow> strategy option" where
  "find_strategy i st = find (\<lambda>s. sg_id s = i) (iv_strategies st)"

definition set_deployed :: "string \<Rightarrow> rat \<Rightarrow> inv_state \<Rightarrow> inv_state" where
  "set_deployed i v st =
     st\<lparr>iv_strategies := map (\<lambda>s. if sg_id s = i then s\<lparr>sg_deployed := v\<rparr> else s) (iv_strategies st)\<rparr>"

text \<open>The value that the column \<open>Decimal(20, 2)\<close> stores.\<close>

definition store_deployed :: "string \<Rightarrow> rat \<Rightarrow> inv_state \<Rightarrow> (inv_error + unit) \<times> inv_state" where
  "store_deployed i v st =
     (case decimal_column 20 2 v of None \<Rightarrow> (Inl DatabaseFailed, st) | Some w \<Rightarrow> (Inr (), set_deployed i w st))"

definition allocateToStrategy :: "inv_env \<Rightarrow> string \<Rightarrow> string \<Rightarrow> inv_state \<Rightarrow> (inv_error + unit) \<times> inv_state" where
  "allocateToStrategy e i amountUsd st =
     bail (parseFiniteAmountUsd e amountUsd) st (\<lambda>amount.
       if amount \<le> 0 then (Inl NotPositive, st)
       else
         (case find_strategy i st of
            None \<Rightarrow> (Inl StrategyNotFound, st)
          | Some s \<Rightarrow>
              if sg_status s \<noteq> ''active'' then (Inl StrategyInactive, st)
              else
                (let newDeployed = prisma_dec (sg_deployed s + amount) in
                 if sg_limit s < newDeployed then (Inl PolicyLimit, st) else store_deployed i newDeployed st)))"

definition deallocateFromStrategy :: "inv_env \<Rightarrow> string \<Rightarrow> string \<Rightarrow> inv_state \<Rightarrow> (inv_error + unit) \<times> inv_state" where
  "deallocateFromStrategy e i amountUsd st =
     bail (parseFiniteAmountUsd e amountUsd) st (\<lambda>amount.
       if amount \<le> 0 then (Inl NotPositive, st)
       else
         (case find_strategy i st of
            None \<Rightarrow> (Inl StrategyNotFound, st)
          | Some s \<Rightarrow> store_deployed i (max 0 (prisma_dec (sg_deployed s - amount))) st))"

text \<open>\<open>toFixed(2)\<close> of a decimal, half away from zero.\<close>

definition fixed_places :: "nat \<Rightarrow> rat \<Rightarrow> rat" where
  "fixed_places n x =
     (let a = of_int \<lfloor>\<bar>x\<bar> * 10 ^ n + 1 / 2\<rfloor> / 10 ^ n in if x < 0 then - a else a)"

text \<open>The fraction of the segment that may be deployed; not a number when the variable is not.\<close>

definition deployable_fraction :: "inv_env \<Rightarrow> rat option" where
  "deployable_fraction e =
     (case js_number (if ie_fraction e = [] then ''0.5'' else ie_fraction e) of
        Fin q \<Rightarrow> Some (dec_of_num (min 1 (max 0 q)))
      | PosInf \<Rightarrow> Some 1
      | NegInf \<Rightarrow> Some 0
      | NaN \<Rightarrow> None)"

record allocation_summary =
  al_total :: rat
  al_deployable :: rat
  al_deployed :: rat
  al_available :: rat

definition active_deployed :: "inv_state \<Rightarrow> rat" where
  "active_deployed st = sum_list (map sg_deployed (filter (\<lambda>s. sg_status s = ''active'') (iv_strategies st)))"

definition computeDeployableAllocation :: "inv_env \<Rightarrow> inv_state \<Rightarrow> allocation_summary option" where
  "computeDeployableAllocation e st =
     (case deployable_fraction e of
        None \<Rightarrow> None
      | Some f \<Rightarrow>
          (let deployable = prisma_dec (ie_segment_value e * f); deployed = active_deployed st in
           Some \<lparr>al_total = fixed_places 2 (ie_segment_value e), al_deployable = fixed_places 2 deployable,
             al_deployed = fixed_places 2 deployed,
             al_available = fixed_places 2 (max 0 (prisma_dec (deployable - deployed)))\<rparr>))"

record strategy_allocation =
  sa_limit :: rat
  sa_deployed :: rat
  sa_available :: rat
  sa_utilization :: rat

definition getStrategyAllocation :: "string \<Rightarrow> inv_state \<Rightarrow> inv_error + strategy_allocation" where
  "getStrategyAllocation i st =
     (case find_strategy i st of
        None \<Rightarrow> Inl StrategyNotFound
      | Some s \<Rightarrow>
          if sg_status s \<noteq> ''active'' then Inl StrategyInactive
          else
            Inr \<lparr>sa_limit = fixed_places 2 (sg_limit s), sa_deployed = fixed_places 2 (sg_deployed s),
              sa_available = fixed_places 2 (max 0 (prisma_dec (sg_limit s - sg_deployed s))),
              sa_utilization =
                (if sg_limit s = 0 then 0
                 else fixed_places 2 (prisma_dec (prisma_dec (sg_deployed s / sg_limit s) * 100)))\<rparr>)"

section \<open>Yield\<close>

definition MAX_LEDGER_ENTRIES :: nat where
  "MAX_LEDGER_ENTRIES = 10000"

definition normalizeAmountUsd :: "rat \<Rightarrow> rat" where
  "normalizeAmountUsd a = f64 (of_int (js_round (f64 (a * 100000000))) / 100000000)"

definition upper_char :: "char \<Rightarrow> char" where
  "upper_char c = (let n = of_char c :: nat in if 97 \<le> n \<and> n \<le> 122 then char_of (n - 32) else c)"

definition isValidCurrencyCode :: "string \<Rightarrow> bool" where
  "isValidCurrencyCode code \<longleftrightarrow>
     length code = 3 \<and> list_all (\<lambda>c. 65 \<le> (of_char c :: int) \<and> (of_char c :: int) \<le> 90) code"

record yield_credit =
  yc_source :: yield_source
  yc_amount :: jsnum
  yc_currency :: "string option"
  yc_at :: "int option"                     \<comment> \<open>None for an invalid date\<close>

definition assertValidCredit :: "yield_credit \<Rightarrow> inv_error + unit" where
  "assertValidCredit c =
     (if \<not> is_finite (yc_amount c) \<or> (case yc_amount c of Fin q \<Rightarrow> q \<le> 0 | _ \<Rightarrow> True) then Inl YieldAmount
      else if yc_at c = None then Inl YieldTimestamp
      else if (case yc_currency c of None \<Rightarrow> False | Some code \<Rightarrow> \<not> isValidCurrencyCode (map upper_char code))
        then Inl YieldCurrency
      else Inr ())"

definition push_yield :: "yield_entry \<Rightarrow> yield_entry list \<Rightarrow> yield_entry list" where
  "push_yield y ys = (let zs = ys @ [y] in if MAX_LEDGER_ENTRIES < length zs then tl zs else zs)"

definition recordYield :: "yield_credit \<Rightarrow> inv_state \<Rightarrow> (inv_error + unit) \<times> inv_state" where
  "recordYield c st =
     bail (assertValidCredit c) st (\<lambda>_.
       (Inr (),
        st\<lparr>iv_yields := push_yield
            \<lparr>ye_source = yc_source c, ye_amount = normalizeAmountUsd (case yc_amount c of Fin q \<Rightarrow> q | _ \<Rightarrow> 0),
             ye_currency = map_option (map upper_char) (yc_currency c), ye_at = the (yc_at c)\<rparr> (iv_yields st)\<rparr>))"

definition getYieldTotal :: "yield_source \<Rightarrow> inv_state \<Rightarrow> rat" where
  "getYieldTotal src st =
     foldl (\<lambda>s y. f64 (s + ye_amount y)) 0 (filter (\<lambda>y. ye_source y = src) (iv_yields st))"

definition getYieldTotals :: "inv_state \<Rightarrow> rat \<times> rat \<times> rat" where
  "getYieldTotals st = (getYieldTotal ReserveYield st, getYieldTotal VaultYield st, getYieldTotal PoolYield st)"

text \<open>The accrual of a strategy, None where the loop skips it.\<close>

definition strategy_accrual :: "rat \<Rightarrow> strategy \<Rightarrow> rat option" where
  "strategy_accrual days s =
     (case sg_apy_bps s of
        None \<Rightarrow> None
      | Some bps \<Rightarrow>
          if bps \<le> 0 \<or> sg_deployed s \<le> 0 then None
          else
            (let apy = prisma_dec (of_int bps / 10000);
                 accrual = prisma_dec (prisma_dec (prisma_dec (sg_deployed s * apy) * days) / 365);
                 amount = f64 (fixed_places 8 accrual) in
             if amount \<le> 0 then None else Some amount))"

definition accrue_one :: "inv_env \<Rightarrow> rat \<Rightarrow> int \<Rightarrow> strategy \<Rightarrow> inv_state \<Rightarrow> inv_state" where
  "accrue_one e days asOf s st =
     (case strategy_accrual days s of
        None \<Rightarrow> st
      | Some amount \<Rightarrow>
          (let st1 = snd (recordYield \<lparr>yc_source = VaultYield, yc_amount = Fin amount, yc_currency = None, yc_at = Some asOf\<rparr> st) in
           case decimal_column 20 8 (dec_of_num amount) of
             Some v \<Rightarrow>
               if ie_posted e (sg_id s)
               then st1\<lparr>iv_postings := iv_postings st1 @ [\<lparr>po_strategy = sg_id s, po_amount = v, po_at = asOf\<rparr>]\<rparr>
               else st1
           | None \<Rightarrow> st1))"

definition accrueFromStrategies :: "inv_env \<Rightarrow> rat \<Rightarrow> int \<Rightarrow> inv_state \<Rightarrow> inv_state" where
  "accrueFromStrategies e days asOf st =
     fold (accrue_one e days asOf) (filter (\<lambda>s. sg_status s = ''active'') (iv_strategies st)) st"

text \<open>A run of the accrual job by one instance.\<close>

definition yield_job :: "inv_env \<Rightarrow> int \<Rightarrow> lock_table \<times> inv_state \<Rightarrow> lock_table \<times> inv_state" where
  "yield_job e now = run_locked True True ''yield-accrual'' (23 * 60 * 60) now (accrueFromStrategies e 1 now)"

section \<open>Withdrawal requests\<close>

definition WITHDRAWAL_DELAY_HOURS :: int where
  "WITHDRAWAL_DELAY_HOURS = 24"

definition hour_ms :: int where
  "hour_ms = 3600000"

definition INVESTMENT_BUSINESS_ALLOWED_DAYS :: "inv_env \<Rightarrow> int list" where
  "INVESTMENT_BUSINESS_ALLOWED_DAYS e =
     List.map_filter (\<lambda>s. case parse_int (trim s) of Fin q \<Rightarrow> (if 1 \<le> q \<and> q \<le> 31 then Some \<lfloor>q\<rfloor> else None) | _ \<Rightarrow> None)
       (split_on CHR '','' (if ie_allowed_days e = [] then ''1,15'' else ie_allowed_days e))"

definition isBusinessWithdrawalAllowedDay :: "inv_env \<Rightarrow> int \<Rightarrow> bool" where
  "isBusinessWithdrawalAllowedDay e day \<longleftrightarrow> day \<in> set (INVESTMENT_BUSINESS_ALLOWED_DAYS e)"

record inv_request =
  ir_user :: "string option"
  ir_org :: "string option"
  ir_amount :: string
  ir_business :: bool
  ir_forced :: bool

definition positive_number :: "string \<Rightarrow> bool" where
  "positive_number s \<longleftrightarrow> (case js_number s of Fin q \<Rightarrow> 0 < q | PosInf \<Rightarrow> True | _ \<Rightarrow> False)"

text \<open>The fee column of a request; None where it does not fit.\<close>

definition recorded_fee :: "inv_env \<Rightarrow> inv_request \<Rightarrow> rat option option" where
  "recorded_fee e rq =
     (if ir_business rq \<and> ir_forced rq
      then (case js_number (if ie_forced_fee e = [] then ''1'' else ie_forced_fee e) of
              Fin f \<Rightarrow> map_option Some (decimal_column 5 2 (dec_of_num f))
            | _ \<Rightarrow> None)
      else Some None)"

definition new_request :: "int \<Rightarrow> inv_request \<Rightarrow> rat \<Rightarrow> rat option \<Rightarrow> withdrawal_request" where
  "new_request now rq amount fee =
     \<lparr>iw_user = ir_user rq, iw_org = ir_org rq, iw_business = ir_business rq, iw_amount = amount,
      iw_status = IRequested, iw_forced = (ir_business rq \<and> ir_forced rq), iw_fee = fee,
      iw_available_at = now + WITHDRAWAL_DELAY_HOURS * hour_ms, iw_created_at = now, iw_notified_at = None\<rparr>"

text \<open>\<open>now\<close> is the clock of the database.\<close>

definition postInvestmentWithdrawRequest ::
  "inv_env \<Rightarrow> int \<Rightarrow> inv_request \<Rightarrow> inv_state \<Rightarrow> (inv_error + nat) \<times> inv_state" where
  "postInvestmentWithdrawRequest e now rq st =
     (if \<not> truthy (ir_user rq) \<and> \<not> truthy (ir_org rq) then (Inl NoContext, st)
      else if ir_amount rq = [] \<or> \<not> positive_number (ir_amount rq) then (Inl InvalidRequest, st)
      else if ir_business rq \<and> \<not> isBusinessWithdrawalAllowedDay e (ie_day e now) \<and> \<not> ir_forced rq then (Inl BusinessCalendar, st)
      else
        (case ie_decimal e (ir_amount rq) of
           Some (Fin q) \<Rightarrow>
             (case (decimal_column 20 8 q, recorded_fee e rq) of
                (Some amount, Some fee) \<Rightarrow>
                  (Inr (length (iv_requests st)),
                   st\<lparr>iv_requests := iv_requests st @ [new_request now rq amount fee]\<rparr>)
              | _ \<Rightarrow> (Inl DatabaseFailed, st))
         | _ \<Rightarrow> (Inl DatabaseFailed, st)))"

section \<open>Making requests available\<close>

text \<open>\<open>retryWithBackoff\<close>: the number of the attempt that succeeds, if one of the first \<open>attempts\<close> does.\<close>

fun retry_from :: "(nat \<Rightarrow> bool) \<Rightarrow> nat \<Rightarrow> nat \<Rightarrow> bool" where
  "retry_from ok 0 k = False"
| "retry_from ok (Suc n) k = (ok k \<or> retry_from ok n (Suc k))"

definition retryWithBackoff :: "(nat \<Rightarrow> bool) \<Rightarrow> nat \<Rightarrow> bool" where
  "retryWithBackoff ok attempts = retry_from ok attempts 1"

definition ready :: "int \<Rightarrow> withdrawal_request \<Rightarrow> bool" where
  "ready now r \<longleftrightarrow> (iw_status r = IRequested \<or> iw_status r = IProcessing) \<and> iw_available_at r \<le> now"

definition READY_WITHDRAWAL_BATCH_SIZE :: nat where
  "READY_WITHDRAWAL_BATCH_SIZE = 100"

definition getReadyInvestmentWithdrawalBatch :: "int \<Rightarrow> inv_state \<Rightarrow> nat list" where
  "getReadyInvestmentWithdrawalBatch now st =
     take READY_WITHDRAWAL_BATCH_SIZE (filter (\<lambda>i. ready now (iv_requests st ! i)) [0..<length (iv_requests st)])"

text \<open>\<open>updated i k\<close> and \<open>published i k\<close>: whether attempt \<open>k\<close> to update and to publish for request \<open>i\<close> succeeds.\<close>

definition process_ready :: "(nat \<Rightarrow> nat \<Rightarrow> bool) \<Rightarrow> (nat \<Rightarrow> nat \<Rightarrow> bool) \<Rightarrow> int \<Rightarrow> nat \<Rightarrow> inv_state \<Rightarrow> inv_state" where
  "process_ready updated published now i st =
     (if \<not> retryWithBackoff (updated i) 3 then st
      else if length (iv_requests st) \<le> i \<or> \<not> ready now (iv_requests st ! i) then st
      else
        (let r = iv_requests st ! i;
             st1 = st\<lparr>iv_requests := (iv_requests st)[i := r\<lparr>iw_status := IAvailable, iw_notified_at := Some now\<rparr>]\<rparr> in
         if (truthy (iw_user r) \<or> truthy (iw_org r)) \<and> retryWithBackoff (published i) 3
         then st1\<lparr>iv_ready_sent := iv_ready_sent st1 @ [i]\<rparr>
         else st1))"

definition processInvestmentWithdrawalAvailability ::
  "(nat \<Rightarrow> nat \<Rightarrow> bool) \<Rightarrow> (nat \<Rightarrow> nat \<Rightarrow> bool) \<Rightarrow> int \<Rightarrow> inv_state \<Rightarrow> inv_state" where
  "processInvestmentWithdrawalAvailability updated published now st =
     fold (process_ready updated published now) (getReadyInvestmentWithdrawalBatch now st) st"

section \<open>Allocation: lemmas and properties\<close>

text \<open>Amounts in cents, within the column.\<close>

definition cents :: "rat \<Rightarrow> bool" where
  "cents x \<longleftrightarrow> (\<exists>k::int. 0 \<le> k \<and> k < 10 ^ 20 \<and> x = of_int k / 100)"

definition strategy_ok :: "strategy \<Rightarrow> bool" where
  "strategy_ok s \<longleftrightarrow> cents (sg_limit s) \<and> cents (sg_deployed s) \<and> sg_deployed s \<le> sg_limit s"

lemma column_cents:
  assumes "decimal_column 20 2 v = Some w" and "0 \<le> v" and "v \<le> l" and "cents l"
  shows "cents w \<and> w \<le> l"
proof -
  obtain k :: int where k: "0 \<le> k" "k < 10 ^ 20" "l = of_int k / 100" using assms(4) by (auto simp: cents_def)
  define j where "j = \<lfloor>v * 100 + 1 / 2\<rfloor>"
  have w: "w = of_int j / 100" using assms(1,2) by (simp add: decimal_column_def Let_def j_def split: if_splits)
  have "v * 100 + 1 / 2 \<le> of_int k + 1 / 2" using assms(3) k(3) by simp
  then have "j \<le> \<lfloor>of_int k + 1 / 2 :: rat\<rfloor>" unfolding j_def by (rule floor_mono)
  moreover have "\<lfloor>of_int k + 1 / 2 :: rat\<rfloor> = k" by (simp add: floor_eq_iff)
  moreover have "0 \<le> j" unfolding j_def using assms(2) by simp
  ultimately show ?thesis using w k by (auto simp: cents_def divide_right_mono)
qed

lemma prisma_cents:
  assumes "cents x"
  shows "prisma_dec x = x"
proof -
  obtain k :: int where k: "0 \<le> k" "k < 10 ^ 20" "x = of_int k / of_int 10 ^ 2" using assms by (auto simp: cents_def)
  then show ?thesis using sig_round_fixed_point [of 10 20 k HalfUp 2] unfolding prisma_dec_def k(3) by simp
qed

lemma find_strategy_ok:
  "find_strategy i st = Some s \<Longrightarrow> list_all strategy_ok (iv_strategies st) \<Longrightarrow> strategy_ok s"
  by (auto simp: find_strategy_def find_Some_iff list_all_length)

text \<open>The strategy that an allocation has read is the one it writes: ids are unique.\<close>

lemma store_deployed_ok:
  assumes ok: "list_all strategy_ok (iv_strategies st)" and ids: "distinct (map sg_id (iv_strategies st))"
    and s: "find_strategy i st = Some s" and v: "0 \<le> v" "v \<le> sg_limit s"
  shows "list_all strategy_ok (iv_strategies (snd (store_deployed i v st))) \<and>
    map sg_id (iv_strategies (snd (store_deployed i v st))) = map sg_id (iv_strategies st)"
proof (cases "decimal_column 20 2 v")
  case None
  then show ?thesis using ok by (simp add: store_deployed_def)
next
  case (Some w)
  have s': "s \<in> set (iv_strategies st)" "sg_id s = i" using s by (auto simp: find_strategy_def find_Some_iff)
  have lim: "cents (sg_limit s)" using find_strategy_ok [OF s ok] by (simp add: strategy_ok_def)
  have w: "cents w \<and> w \<le> sg_limit s" by (rule column_cents [OF Some v lim])
  have same: "r = s" if "r \<in> set (iv_strategies st)" "sg_id r = i" for r
    using ids that s' by (metis distinct_map inj_onD)
  have "strategy_ok (if sg_id r = i then r\<lparr>sg_deployed := w\<rparr> else r)" if r: "r \<in> set (iv_strategies st)" for r
  proof (cases "sg_id r = i")
    case True
    then show ?thesis using same [OF r] w lim by (simp add: strategy_ok_def)
  next
    case False
    then show ?thesis using ok r by (simp add: list_all_iff)
  qed
  then have "list_all strategy_ok (map (\<lambda>r. if sg_id r = i then r\<lparr>sg_deployed := w\<rparr> else r) (iv_strategies st))"
    unfolding list_all_iff set_map by blast
  then show ?thesis using Some by (simp add: store_deployed_def set_deployed_def)
qed

datatype alloc_op = Allocate string string | Deallocate string string

definition alloc_op :: "inv_env \<Rightarrow> alloc_op \<Rightarrow> inv_state \<Rightarrow> inv_state" where
  "alloc_op e op st =
     (case op of Allocate i a \<Rightarrow> snd (allocateToStrategy e i a st) | Deallocate i a \<Rightarrow> snd (deallocateFromStrategy e i a st))"

definition strategies_ok :: "inv_state \<Rightarrow> bool" where
  "strategies_ok st \<longleftrightarrow> list_all strategy_ok (iv_strategies st) \<and> distinct (map sg_id (iv_strategies st))"

lemma alloc_op_ok:
  assumes "strategies_ok st"
  shows "strategies_ok (alloc_op e op st)"
proof -
  have store: "strategies_ok (snd (store_deployed i v st))" if "find_strategy i st = Some s" "0 \<le> v" "v \<le> sg_limit s" for i v s
    using store_deployed_ok [of st i s v] assms that by (simp add: strategies_ok_def)
  show ?thesis
  proof (cases op)
    case (Allocate i amount)
    show ?thesis
    proof (cases "\<exists>a s. parseFiniteAmountUsd e amount = Inr a \<and> 0 < a \<and> find_strategy i st = Some s \<and>
        sg_status s = ''active'' \<and> prisma_dec (sg_deployed s + a) \<le> sg_limit s")
      case True
      then obtain a s where c: "parseFiniteAmountUsd e amount = Inr a" "0 < a" "find_strategy i st = Some s"
        "sg_status s = ''active''" "prisma_dec (sg_deployed s + a) \<le> sg_limit s" by blast
      have "0 \<le> sg_deployed s" using find_strategy_ok [OF c(3)] assms by (auto simp: strategies_ok_def strategy_ok_def cents_def)
      then have "0 \<le> prisma_dec (sg_deployed s + a)" using c(2) by (intro prisma_dec.rnd_ge_0) simp
      from store [OF c(3) this c(5)] show ?thesis using c Allocate
        by (simp add: alloc_op_def allocateToStrategy_def Let_def)
    next
      case False
      then have "snd (allocateToStrategy e i amount st) = st"
        unfolding allocateToStrategy_def Let_def
        by (cases "parseFiniteAmountUsd e amount") (force split: option.split)+
      then show ?thesis using Allocate assms by (simp add: alloc_op_def)
    qed
  next
    case (Deallocate i amount)
    show ?thesis
    proof (cases "\<exists>a s. parseFiniteAmountUsd e amount = Inr a \<and> 0 < a \<and> find_strategy i st = Some s")
      case True
      then obtain a s where c: "parseFiniteAmountUsd e amount = Inr a" "0 < a" "find_strategy i st = Some s" by blast
      have s: "cents (sg_deployed s)" "sg_deployed s \<le> sg_limit s" "0 \<le> sg_deployed s"
        using find_strategy_ok [OF c(3)] assms by (auto simp: strategies_ok_def strategy_ok_def cents_def)
      have "prisma_dec (sg_deployed s - a) \<le> prisma_dec (sg_deployed s)" using c(2) by (intro prisma_dec.rnd_mono) simp
      then have "max 0 (prisma_dec (sg_deployed s - a)) \<le> sg_limit s" using s prisma_cents [OF s(1)] by simp
      from store [OF c(3) _ this] show ?thesis using c Deallocate
        by (simp add: alloc_op_def deallocateFromStrategy_def)
    next
      case False
      then have "snd (deallocateFromStrategy e i amount st) = st"
        unfolding deallocateFromStrategy_def
        by (cases "parseFiniteAmountUsd e amount") (force split: option.split)+
      then show ?thesis using Deallocate assms by (simp add: alloc_op_def)
    qed
  qed
qed

text \<open>
  Every amount that is allocated to a strategy or released from it is a string, and \<open>Decimal.isDecimal\<close> accepts no
  string: both operations refuse every amount and change nothing.
\<close>

theorem allocation_always_refused:
  assumes "\<And>s. \<not> ie_is_decimal e s"
  shows "\<exists>err. allocateToStrategy e i amount st = (Inl err, st) \<and> deallocateFromStrategy e i amount st = (Inl err, st) \<and>
    (err = EmptyAmount \<or> err = NotDecimal)"
  using assms by (auto simp: allocateToStrategy_def deallocateFromStrategy_def parseFiniteAmountUsd_def)

text \<open>
  C30. Whatever strings the decimal library accepts, no sequence of allocations and releases lets a strategy hold more
  than its limit or less than nothing: the rounding of the library and of the column included.
\<close>

theorem strategies_stay_within_limit:
  assumes "strategies_ok st"
  shows "strategies_ok (fold (alloc_op e) ops st)"
  using assms by (induction ops arbitrary: st) (simp_all add: alloc_op_ok)

definition sample_inv_env :: inv_env where
  "sample_inv_env =
     \<lparr>ie_is_decimal = (\<lambda>s. False), ie_decimal = (\<lambda>s. if s = ''40'' then Some (Fin 40) else Some (Fin 5)), ie_fraction = [],
      ie_allowed_days = [], ie_forced_fee = [], ie_day = (\<lambda>t. 1), ie_segment_value = 1000, ie_posted = (\<lambda>i. True)\<rparr>"

definition one_strategy :: inv_state where
  "one_strategy =
     \<lparr>iv_strategies = [\<lparr>sg_id = ''a'', sg_name = ''A'', sg_status = ''active'', sg_limit = 50, sg_deployed = 20, sg_apy_bps = Some 250\<rparr>],
      iv_yields = [], iv_postings = [], iv_requests = [], iv_ready_sent = []\<rparr>"

lemma one_strategy_ok: "strategies_ok one_strategy"
proof -
  have "cents 50" unfolding cents_def by (rule exI [of _ 5000]) simp
  moreover have "cents 20" unfolding cents_def by (rule exI [of _ 2000]) simp
  ultimately show ?thesis by (simp add: strategies_ok_def strategy_ok_def one_strategy_def)
qed

theorem allocation_always_refused_witness:
  "\<exists>err. allocateToStrategy sample_inv_env ''a'' ''40'' one_strategy = (Inl err, one_strategy)"
  using allocation_always_refused [of sample_inv_env "''a''" "''40''" one_strategy] by (auto simp: sample_inv_env_def)

theorem strategies_stay_within_limit_witness:
  "strategies_ok (fold (alloc_op (sample_inv_env\<lparr>ie_is_decimal := \<lambda>s. True\<rparr>))
     [Allocate ''a'' ''5'', Allocate ''a'' ''40'', Deallocate ''a'' ''40''] one_strategy)"
  by (rule strategies_stay_within_limit [OF one_strategy_ok])

section \<open>Yield: lemmas and properties\<close>

text \<open>
  The ledger of yields keeps the newest ten thousand entries: after any number of recordings it is the end of the
  list of all that was recorded, so the totals of a source forget what was recorded before.
\<close>

theorem yield_ledger_keeps_newest:
  assumes "length ys \<le> MAX_LEDGER_ENTRIES"
  shows "fold push_yield new ys = drop (length (ys @ new) - MAX_LEDGER_ENTRIES) (ys @ new)"
  using assms
proof (induction new arbitrary: ys)
  case (Cons y new)
  have pos: "0 < MAX_LEDGER_ENTRIES" by (simp add: MAX_LEDGER_ENTRIES_def)
  show ?case
  proof (cases "length ys < MAX_LEDGER_ENTRIES")
    case True
    then have "push_yield y ys = ys @ [y]" by (simp add: push_yield_def Let_def)
    then show ?thesis using Cons.IH [of "ys @ [y]"] True by simp
  next
    case False
    then have full: "length ys = MAX_LEDGER_ENTRIES" using Cons.prems by simp
    then obtain z zs where ys: "ys = z # zs" using pos by (cases ys) auto
    then have "push_yield y ys = zs @ [y]" using full by (simp add: push_yield_def Let_def)
    moreover have "Suc (length zs + length new) - MAX_LEDGER_ENTRIES = length new" using full ys by simp
    then have "fold push_yield new (zs @ [y]) = drop (length new) (zs @ y # new)"
      using Cons.IH [of "zs @ [y]"] full ys by (simp del: drop_append)
    moreover have "length (ys @ y # new) - MAX_LEDGER_ENTRIES = Suc (length new)" using full by simp
    ultimately show ?thesis using ys by simp
  qed
qed simp

theorem yield_ledger_keeps_newest_witness:
  "fold push_yield [\<lparr>ye_source = VaultYield, ye_amount = 1, ye_currency = None, ye_at = 0\<rparr>] [] =
     [\<lparr>ye_source = VaultYield, ye_amount = 1, ye_currency = None, ye_at = 0\<rparr>]"
  using yield_ledger_keeps_newest [of "[]" "[\<lparr>ye_source = VaultYield, ye_amount = 1, ye_currency = None, ye_at = 0\<rparr>]"]
  by (simp add: MAX_LEDGER_ENTRIES_def)

text \<open>The postings of one run.\<close>

definition run_postings :: "inv_env \<Rightarrow> rat \<Rightarrow> int \<Rightarrow> strategy list \<Rightarrow> accrual_posting list" where
  "run_postings e days asOf ss =
     List.map_filter (\<lambda>s.
       case strategy_accrual days s of
         None \<Rightarrow> None
       | Some amount \<Rightarrow>
           (case decimal_column 20 8 (dec_of_num amount) of
              Some v \<Rightarrow> if ie_posted e (sg_id s) then Some \<lparr>po_strategy = sg_id s, po_amount = v, po_at = asOf\<rparr> else None
            | None \<Rightarrow> None)) ss"

lemma recordYield_keeps:
  "iv_strategies (snd (recordYield c st)) = iv_strategies st" "iv_postings (snd (recordYield c st)) = iv_postings st"
  "iv_requests (snd (recordYield c st)) = iv_requests st"
  by (simp_all add: recordYield_def split: bail_split)

lemma accrue_one_effect:
  "iv_strategies (accrue_one e days asOf s st) = iv_strategies st"
  "iv_postings (accrue_one e days asOf s st) = iv_postings st @ run_postings e days asOf [s]"
  by (simp_all add: accrue_one_def run_postings_def List.map_filter_def recordYield_keeps Let_def split: option.split)

lemma run_postings_Cons: "run_postings e days asOf (s # ss) = run_postings e days asOf [s] @ run_postings e days asOf ss"
  by (simp add: run_postings_def List.map_filter_def)

lemma accrue_fold:
  "iv_strategies (fold (accrue_one e days asOf) ss st) = iv_strategies st \<and>
   iv_postings (fold (accrue_one e days asOf) ss st) = iv_postings st @ run_postings e days asOf ss"
proof (induction ss arbitrary: st)
  case Nil
  then show ?case by (simp add: run_postings_def List.map_filter_def)
next
  case (Cons s ss)
  then show ?case by (simp add: accrue_one_effect run_postings_Cons [of e days asOf s ss])
qed

definition active_strategies :: "inv_state \<Rightarrow> strategy list" where
  "active_strategies st = filter (\<lambda>s. sg_status s = ''active'') (iv_strategies st)"

lemma accrue_effect:
  "iv_strategies (accrueFromStrategies e days asOf st) = iv_strategies st"
  "iv_postings (accrueFromStrategies e days asOf st) = iv_postings st @ run_postings e days asOf (active_strategies st)"
  using accrue_fold [of e days asOf] by (simp_all add: accrueFromStrategies_def active_strategies_def)

text \<open>
  The lock of the accrual job is released at the end of a run, so it does not make the run a daily one: a second
  instance (or a restarted one) that runs right afterwards finds the lock free and posts a full day's yield of every
  active strategy again.
\<close>

theorem second_instance_accrues_again:
  assumes "\<not> held ''yield-accrual'' locks"
  shows "iv_postings (snd (yield_job e later (yield_job e now (locks, st)))) =
    iv_postings st @ run_postings e 1 now (active_strategies st) @ run_postings e 1 later (active_strategies st)"
  using assms by (simp add: yield_job_def run_locked_free accrue_effect active_strategies_def)

definition daily_strategy :: inv_state where
  "daily_strategy =
     \<lparr>iv_strategies = [\<lparr>sg_id = ''a'', sg_name = ''A'', sg_status = ''active'', sg_limit = 2000, sg_deployed = 1825,
        sg_apy_bps = Some 10000\<rparr>],
      iv_yields = [], iv_postings = [], iv_requests = [], iv_ready_sent = []\<rparr>"

lemma five_column: "decimal_column 20 8 5 = Some 5" "fixed_places 8 5 = 5"
  by (simp_all add: decimal_column_def fixed_places_def Let_def floor_eq_iff)

lemma yield_dec: "dec_of_num 5 = 5"
proof -
  have r: "round_near 5 = 5" "expo 10 5 = 0" by code_simp+
  have "shortest_digits (Suc 15) 1 1 5 = (1, 1, 5)"
    by (subst shortest_digits.simps(2)) (simp add: Let_def r f64.rnd_numeral_le)
  then show ?thesis by (simp add: dec_of_num_def r)
qed

lemma daily_accrual: "run_postings sample_inv_env 1 t (active_strategies daily_strategy) = [\<lparr>po_strategy = ''a'', po_amount = 5, po_at = t\<rparr>]"
proof -
  have "prisma_dec 1825 = 1825" "f64 5 = 5" "prisma_dec 5 = 5"
    by (simp_all add: prisma_dec.rnd_numeral_le f64.rnd_numeral_le)
  then show ?thesis
    by (simp add: run_postings_def active_strategies_def daily_strategy_def List.map_filter_def strategy_accrual_def Let_def
        five_column yield_dec sample_inv_env_def)
qed

theorem second_instance_accrues_again_witness:
  "iv_postings (snd (yield_job sample_inv_env 60000 (yield_job sample_inv_env 0 ([], daily_strategy)))) =
     [\<lparr>po_strategy = ''a'', po_amount = 5, po_at = 0\<rparr>, \<lparr>po_strategy = ''a'', po_amount = 5, po_at = 60000\<rparr>]"
proof -
  have free: "\<not> held ''yield-accrual'' []" by (simp add: held_def)
  show ?thesis
    unfolding second_instance_accrues_again [OF free] daily_accrual by (simp add: daily_strategy_def)
qed

section \<open>Withdrawals: lemmas and properties\<close>

definition request_ok :: "withdrawal_request \<Rightarrow> bool" where
  "request_ok r \<longleftrightarrow>
     iw_available_at r = iw_created_at r + 24 * hour_ms \<and> (iw_forced r \<longleftrightarrow> iw_fee r \<noteq> None) \<and> (iw_forced r \<longrightarrow> iw_business r) \<and>
     (case iw_status r of
        IAvailable \<Rightarrow> (\<exists>t. iw_notified_at r = Some t \<and> iw_created_at r + 24 * hour_ms \<le> t)
      | s \<Rightarrow> iw_notified_at r = None)"

definition requests_ok :: "inv_state \<Rightarrow> bool" where
  "requests_ok st \<longleftrightarrow>
     list_all request_ok (iv_requests st) \<and> distinct (iv_ready_sent st) \<and>
     list_all (\<lambda>i. i < length (iv_requests st) \<and> iw_status (iv_requests st ! i) = IAvailable) (iv_ready_sent st)"

datatype inv_event =
    Request int inv_request
  | Tick "nat \<Rightarrow> nat \<Rightarrow> bool" "nat \<Rightarrow> nat \<Rightarrow> bool" int

definition inv_event :: "inv_env \<Rightarrow> inv_event \<Rightarrow> inv_state \<Rightarrow> inv_state" where
  "inv_event e ev st =
     (case ev of
        Request now rq \<Rightarrow> snd (postInvestmentWithdrawRequest e now rq st)
      | Tick updated published now \<Rightarrow> processInvestmentWithdrawalAvailability updated published now st)"

lemma recorded_fee_forced: "recorded_fee e rq = Some fee \<Longrightarrow> ir_business rq \<and> ir_forced rq \<longleftrightarrow> fee \<noteq> None"
  by (auto simp: recorded_fee_def split: jsnum.splits if_splits)

lemma post_request_effect:
  "snd (postInvestmentWithdrawRequest e now rq st) = st \<or>
   (\<exists>r. request_ok r \<and> iw_status r = IRequested \<and> iw_created_at r = now \<and>
      snd (postInvestmentWithdrawRequest e now rq st) = st\<lparr>iv_requests := iv_requests st @ [r]\<rparr>)"
proof (cases "\<exists>q amount fee. ie_decimal e (ir_amount rq) = Some (Fin q) \<and> decimal_column 20 8 q = Some amount \<and>
    recorded_fee e rq = Some fee")
  case True
  then obtain q amount fee where c: "ie_decimal e (ir_amount rq) = Some (Fin q)" "decimal_column 20 8 q = Some amount"
    "recorded_fee e rq = Some fee" by blast
  have "request_ok (new_request now rq amount fee)"
    using recorded_fee_forced [OF c(3)] by (auto simp: new_request_def request_ok_def WITHDRAWAL_DELAY_HOURS_def)
  moreover have "iw_status (new_request now rq amount fee) = IRequested" "iw_created_at (new_request now rq amount fee) = now"
    by (simp_all add: new_request_def)
  moreover have "snd (postInvestmentWithdrawRequest e now rq st) \<in> {st, st\<lparr>iv_requests := iv_requests st @ [new_request now rq amount fee]\<rparr>}"
    by (simp add: postInvestmentWithdrawRequest_def c)
  ultimately show ?thesis by blast
next
  case False
  then have "snd (case ie_decimal e (ir_amount rq) of
      Some (Fin q) \<Rightarrow> (case (decimal_column 20 8 q, recorded_fee e rq) of
        (Some amount, Some fee) \<Rightarrow> f amount fee | _ \<Rightarrow> (Inl DatabaseFailed, st))
    | _ \<Rightarrow> (Inl DatabaseFailed, st)) = st" for f :: "rat \<Rightarrow> rat option \<Rightarrow> (inv_error + nat) \<times> inv_state"
    by (auto split: option.split jsnum.split)
  then show ?thesis unfolding postInvestmentWithdrawRequest_def by simp
qed

lemma post_request_ok:
  assumes "requests_ok st"
  shows "requests_ok (snd (postInvestmentWithdrawRequest e now rq st))"
proof (cases "snd (postInvestmentWithdrawRequest e now rq st) = st")
  case False
  then obtain r where r: "request_ok r"
      "snd (postInvestmentWithdrawRequest e now rq st) = st\<lparr>iv_requests := iv_requests st @ [r]\<rparr>"
    using post_request_effect [of e now rq st] by blast
  have "list_all (\<lambda>i. i < length (iv_requests st @ [r]) \<and> iw_status ((iv_requests st @ [r]) ! i) = IAvailable) (iv_ready_sent st)"
    using assms unfolding requests_ok_def by (elim conjE list.pred_mono_strong) (simp add: nth_append)
  then show ?thesis using assms r by (simp add: requests_ok_def)
qed (use assms in simp)

lemma process_ready_cases:
  obtains (same) "process_ready updated published now i st = st"
  | (moved) r sent where "i < length (iv_requests st)" "r = iv_requests st ! i" "ready now r"
      "process_ready updated published now i st =
         st\<lparr>iv_requests := (iv_requests st)[i := r\<lparr>iw_status := IAvailable, iw_notified_at := Some now\<rparr>],
            iv_ready_sent := iv_ready_sent st @ (if sent then [i] else [])\<rparr>"
      "sent \<longleftrightarrow> (truthy (iw_user r) \<or> truthy (iw_org r)) \<and> retryWithBackoff (published i) 3"
proof (cases "retryWithBackoff (updated i) 3 \<and> i < length (iv_requests st) \<and> ready now (iv_requests st ! i)")
  case True
  then show ?thesis
    using moved [of "iv_requests st ! i"
        "(truthy (iw_user (iv_requests st ! i)) \<or> truthy (iw_org (iv_requests st ! i))) \<and> retryWithBackoff (published i) 3"]
    by (simp add: process_ready_def Let_def)
next
  case False
  then show ?thesis using same by (auto simp: process_ready_def)
qed

lemma process_ready_ok:
  assumes "requests_ok st"
  shows "requests_ok (process_ready updated published now i st)"
proof (cases rule: process_ready_cases [of updated published now i st])
  case same
  then show ?thesis using assms by simp
next
  case (moved r sent)
  let ?r = "r\<lparr>iw_status := IAvailable, iw_notified_at := Some now\<rparr>"
  have r: "request_ok r" using assms moved(1,2) by (simp add: requests_ok_def list_all_length)
  then have new: "request_ok ?r" using moved(3) by (auto simp: request_ok_def ready_def)
  have notin: "i \<notin> set (iv_ready_sent st)" using assms moved(2,3) by (auto simp: requests_ok_def list_all_iff ready_def)
  have "list_all request_ok ((iv_requests st)[i := ?r])"
    using assms new moved(1) by (auto simp: requests_ok_def list_all_length nth_list_update)
  then show ?thesis using assms moved(1,4) notin
    by (auto simp: requests_ok_def list_all_iff nth_list_update)
qed

lemma process_all_ok: "requests_ok st \<Longrightarrow> requests_ok (fold (process_ready updated published now) is st)"
  by (induction "is" arbitrary: st) (simp_all add: process_ready_ok)

lemma inv_event_ok: "requests_ok st \<Longrightarrow> requests_ok (inv_event e ev st)"
  by (cases ev) (simp_all add: inv_event_def post_request_ok processInvestmentWithdrawalAvailability_def process_all_ok)

text \<open>
  In every sequence of requests and runs of the job, with any failures of the database and of the broker, a
  withdrawal is made available no sooner than 24 hours after it was requested, a fee is recorded exactly for forced
  withdrawals, which only businesses make, and no request is announced twice or before it is available.
\<close>

theorem withdrawals_wait_a_day:
  assumes "requests_ok st"
  shows "requests_ok (fold (inv_event e) evs st)"
  using assms by (induction evs arbitrary: st) (simp_all add: inv_event_ok)

definition retail_request :: inv_request where
  "retail_request = \<lparr>ir_user = Some ''u'', ir_org = None, ir_amount = ''5'', ir_business = False, ir_forced = True\<rparr>"

theorem withdrawals_wait_a_day_witness:
  "requests_ok (fold (inv_event sample_inv_env)
     [Request 0 retail_request, Tick (\<lambda>i k. k = 2) (\<lambda>i k. True) 86400000] one_strategy)"
  by (rule withdrawals_wait_a_day) (simp add: requests_ok_def one_strategy_def)

text \<open>A request that has become available without an announcement.\<close>

definition unannounced :: "nat \<Rightarrow> inv_state \<Rightarrow> bool" where
  "unannounced i st \<longleftrightarrow>
     i < length (iv_requests st) \<and> iw_status (iv_requests st ! i) = IAvailable \<and> i \<notin> set (iv_ready_sent st)"

lemma process_ready_unannounced:
  "unannounced i st \<Longrightarrow> unannounced i (process_ready updated published now j st)"
  by (cases rule: process_ready_cases [of updated published now j st])
    (auto simp: unannounced_def nth_list_update ready_def)

lemma process_all_unannounced:
  "unannounced i st \<Longrightarrow> unannounced i (fold (process_ready updated published now) is st)"
  by (induction "is" arbitrary: st) (simp_all add: process_ready_unannounced)

lemma inv_event_unannounced: "unannounced i st \<Longrightarrow> unannounced i (inv_event e ev st)"
proof (cases ev)
  case (Request now rq)
  assume "unannounced i st"
  then show ?thesis using post_request_effect [of e now rq st] Request
    by (auto simp: inv_event_def unannounced_def nth_append)
qed (simp add: inv_event_def processInvestmentWithdrawalAvailability_def process_all_unannounced)

lemma inv_run_unannounced: "unannounced i st \<Longrightarrow> unannounced i (fold (inv_event e) evs st)"
  by (induction evs arbitrary: st) (simp_all add: inv_event_unannounced)

text \<open>
  The job marks a request as available before it announces it: when the three attempts to publish the
  announcement fail, the request is never announced, whatever happens later.
\<close>

theorem lost_announcement_stays_lost:
  assumes "i < length (iv_requests st)" and "ready now (iv_requests st ! i)" and "i \<notin> set (iv_ready_sent st)"
    and "retryWithBackoff (updated i) 3" and "\<not> retryWithBackoff (published i) 3"
  shows "unannounced i (fold (inv_event e) evs (process_ready updated published now i st))"
proof (rule inv_run_unannounced)
  show "unannounced i (process_ready updated published now i st)"
    using assms by (simp add: process_ready_def unannounced_def Let_def)
qed

definition waiting_request :: inv_state where
  "waiting_request =
     one_strategy\<lparr>iv_requests :=
       [\<lparr>iw_user = Some ''u'', iw_org = None, iw_business = False, iw_amount = 5, iw_status = IRequested, iw_forced = False,
         iw_fee = None, iw_available_at = 86400000, iw_created_at = 0, iw_notified_at = None\<rparr>]\<rparr>"

theorem lost_announcement_stays_lost_witness:
  "unannounced 0 (fold (inv_event sample_inv_env) [Tick (\<lambda>i k. True) (\<lambda>i k. True) 86460000]
     (process_ready (\<lambda>i k. True) (\<lambda>i k. False) 86400000 0 waiting_request))"
  by (rule lost_announcement_stays_lost)
    (simp_all add: waiting_request_def one_strategy_def ready_def retryWithBackoff_def numeral_eq_Suc)

end
