(* ===== verification/Ledger.thy ===== *)
theory Ledger
  imports JsStr
begin

text \<open>
  Two small stores: \<open>src/services/ledger/ledgerService.ts\<close>, which inserts ledger entries in chunks, each in a
  transaction of its own, and \<open>src/services/idempotency/idempotencyStore.ts\<close>, keys in MongoDB with a lifetime.
\<close>

section \<open>Ledger entries\<close>

definition DEFAULT_LEDGER_BATCH_SIZE :: nat where
  "DEFAULT_LEDGER_BATCH_SIZE = 100"

definition parsePositiveInt :: "string option \<Rightarrow> nat \<Rightarrow> nat" where
  "parsePositiveInt value fallback =
     (case parse_int (case value of None \<Rightarrow> [] | Some s \<Rightarrow> s) of
        Fin q \<Rightarrow> if 0 < q then nat \<lfloor>q\<rfloor> else fallback
      | _ \<Rightarrow> fallback)"

record ledger_result =
  lr_inserted :: nat
  lr_batches :: nat

text \<open>
  \<open>commits rows chunk\<close> tells whether the transaction of a chunk commits: a \<open>createMany\<close> inserts all of its rows
  or none. A failed chunk ends the loop; \<open>Inl\<close> carries what had been committed, which the code logs.
\<close>

fun insert_chunks :: "('a list \<Rightarrow> 'a list \<Rightarrow> bool) \<Rightarrow> 'a list list \<Rightarrow> ledger_result \<Rightarrow> 'a list \<Rightarrow> (ledger_result + ledger_result) \<times> 'a list" where
  "insert_chunks commits [] done_so_far rows = (Inr done_so_far, rows)"
| "insert_chunks commits (c # cs) done_so_far rows =
     (if commits rows c
      then insert_chunks commits cs
        \<lparr>lr_inserted = lr_inserted done_so_far + length c, lr_batches = lr_batches done_so_far + 1\<rparr> (rows @ c)
      else (Inl done_so_far, rows))"

text \<open>The chunk size is positive, so it is given as the successor of \<open>pred_size\<close>.\<close>

definition createLedgerEntries ::
  "('a list \<Rightarrow> 'a list \<Rightarrow> bool) \<Rightarrow> nat \<Rightarrow> 'a list \<Rightarrow> 'a list \<Rightarrow> (ledger_result + ledger_result) \<times> 'a list" where
  "createLedgerEntries commits pred_size entries rows =
     insert_chunks commits (batches pred_size entries) \<lparr>lr_inserted = 0, lr_batches = 0\<rparr> rows"

definition ledger_batch_pred :: "string option \<Rightarrow> nat" where
  "ledger_batch_pred env_value = parsePositiveInt env_value DEFAULT_LEDGER_BATCH_SIZE - 1"

lemma insert_chunks_effect:
  assumes "insert_chunks commits cs r0 rows = (out, rows')"
  shows "\<exists>k. rows' = rows @ concat (take k cs) \<and> k \<le> length cs \<and>
    (case out of
       Inr r \<Rightarrow> k = length cs \<and> r = \<lparr>lr_inserted = lr_inserted r0 + length (concat cs), lr_batches = lr_batches r0 + length cs\<rparr>
     | Inl r \<Rightarrow> k < length cs \<and> \<not> commits rows' (cs ! k) \<and>
         r = \<lparr>lr_inserted = lr_inserted r0 + length (concat (take k cs)), lr_batches = lr_batches r0 + k\<rparr>)"
  using assms
proof (induction cs arbitrary: r0 rows)
  case Nil
  then show ?case by auto
next
  case (Cons c cs)
  show ?case
  proof (cases "commits rows c")
    case True
    let ?r = "\<lparr>lr_inserted = lr_inserted r0 + length c, lr_batches = lr_batches r0 + 1\<rparr>"
    obtain k where k: "rows' = (rows @ c) @ concat (take k cs)" "k \<le> length cs"
      "case out of
         Inr r \<Rightarrow> k = length cs \<and> r = \<lparr>lr_inserted = lr_inserted ?r + length (concat cs), lr_batches = lr_batches ?r + length cs\<rparr>
       | Inl r \<Rightarrow> k < length cs \<and> \<not> commits rows' (cs ! k) \<and>
           r = \<lparr>lr_inserted = lr_inserted ?r + length (concat (take k cs)), lr_batches = lr_batches ?r + k\<rparr>"
      using Cons.IH [of ?r "rows @ c"] Cons.prems True by auto
    then show ?thesis by (intro exI [of _ "Suc k"]) (auto split: sum.splits)
  next
    case False
    then show ?thesis using Cons.prems by (intro exI [of _ 0]) auto
  qed
qed

lemma take_batches: "concat (take k (batches n xs)) = take (k * Suc n) xs"
proof (induction k arbitrary: xs)
  case (Suc k)
  show ?case
  proof (cases "xs = []")
    case False
    then have "concat (take (Suc k) (batches n xs)) = take (Suc n) xs @ take (k * Suc n) (drop (Suc n) xs)"
      using Suc by (simp add: batches_unfold del: take_Suc mult_Suc_right)
    also have "\<dots> = take (Suc n + k * Suc n) xs" by (rule take_add [symmetric])
    finally show ?thesis by (simp only: mult_Suc)
  qed simp
qed simp

lemma batches_count: "length (batches n xs) = (length xs + n) div Suc n"
proof (induction n xs rule: batches.induct)
  case (2 n x xs)
  have "length (batches n (x # xs)) = Suc ((length (x # xs) - Suc n + n) div Suc n)"
    using 2 by (simp add: batches_unfold)
  also have "\<dots> = (length (x # xs) + n) div Suc n"
  proof (cases "Suc n \<le> length (x # xs)")
    case True
    then have "length (x # xs) + n = (length (x # xs) - Suc n + n) + Suc n" by simp
    then show ?thesis by (metis Suc_eq_plus1 div_add_self2 nat.distinct(1))
  next
    case False
    then have "length (x # xs) + n = (length xs) + Suc n" "length xs < Suc n" by auto
    then show ?thesis using False by (simp only: div_add_self2) simp
  qed
  finally show ?case .
qed simp

text \<open>
  Bulk writes to the ledger are never partial within a chunk: what is in the table afterwards are the rows that were
  there, then the entries of the first chunks in order. On success that is every entry, counted, in
  \<open>length / size\<close> chunks rounded up, for every chunk size; on failure the counts say what was committed before the
  chunk that failed.
\<close>

theorem ledger_chunks_all_or_nothing:
  assumes "createLedgerEntries commits n entries rows = (out, rows')"
  shows "case out of
      Inr r \<Rightarrow> rows' = rows @ entries \<and> lr_inserted r = length entries \<and> lr_batches r = (length entries + n) div Suc n
    | Inl r \<Rightarrow> rows' = rows @ take (lr_inserted r) entries \<and> lr_inserted r < length entries \<and> lr_inserted r = lr_batches r * Suc n"
proof -
  obtain k where k: "rows' = rows @ concat (take k (batches n entries))" "k \<le> length (batches n entries)"
    "case out of
       Inr r \<Rightarrow> k = length (batches n entries) \<and> r = \<lparr>lr_inserted = length entries, lr_batches = length (batches n entries)\<rparr>
     | Inl r \<Rightarrow> k < length (batches n entries) \<and> \<not> commits rows' (batches n entries ! k) \<and>
         r = \<lparr>lr_inserted = length (concat (take k (batches n entries))), lr_batches = k\<rparr>"
    using insert_chunks_effect [OF assms [unfolded createLedgerEntries_def]]
    by (simp only: ledger_result.simps concat_batches add_0) blast
  show ?thesis
  proof (cases out)
    case (Inr r)
    then show ?thesis using k by (simp add: batches_count)
  next
    case (Inl r)
    then have "k < (length entries + n) div Suc n" using k(3) by (simp add: batches_count)
    then have "Suc k * Suc n \<le> length entries + n" by (metis Suc_leI less_eq_div_iff_mult_less_eq zero_less_Suc)
    then have "k * Suc n < length entries" by simp
    then show ?thesis using Inl k by (simp add: take_batches)
  qed
qed

theorem ledger_chunks_all_or_nothing_witness:
  "case (Inl \<lparr>lr_inserted = 4, lr_batches = 2\<rparr> :: ledger_result + ledger_result) of
      Inr r \<Rightarrow> [9, 1, 2, 3, 4] = [9] @ [1, 2, 3, 4, 5::nat] \<and> lr_inserted r = 5 \<and> lr_batches r = 3
    | Inl r \<Rightarrow> [9, 1, 2, 3, 4] = [9] @ take (lr_inserted r) [1, 2, 3, 4, 5::nat] \<and> lr_inserted r < 5 \<and> lr_inserted r = lr_batches r * 2"
proof -
  have "createLedgerEntries (\<lambda>rows c. 5 \<notin> set c) 1 [1, 2, 3, 4, 5::nat] [9] =
      (Inl \<lparr>lr_inserted = 4, lr_batches = 2\<rparr>, [9, 1, 2, 3, 4])"
    by (simp add: createLedgerEntries_def batches_unfold)
  from ledger_chunks_all_or_nothing [OF this] show ?thesis by simp
qed

section \<open>Idempotency keys\<close>

datatype 'a key_status = KeyPending | KeyResolved 'a

record 'a idem_record =
  ik_key :: string
  ik_status :: "'a key_status"
  ik_expires :: int

definition find_key :: "string \<Rightarrow> 'a idem_record list \<Rightarrow> 'a idem_record option" where
  "find_key k t = find (\<lambda>r. ik_key r = k) t"

text \<open>An unavailable database makes both operations throw.\<close>

definition acquireIdempotencyKey ::
  "bool \<Rightarrow> string \<Rightarrow> int \<Rightarrow> int \<Rightarrow> 'a idem_record list \<Rightarrow> (unit + 'a option) \<times> 'a idem_record list" where
  "acquireIdempotencyKey up k ttl_s now t =
     (if \<not> up then (Inl (), t)
      else
        (case find_key k t of
           None \<Rightarrow> (Inr None, t @ [\<lparr>ik_key = k, ik_status = KeyPending, ik_expires = now + ttl_s * 1000\<rparr>])
         | Some r \<Rightarrow> (Inr (case ik_status r of KeyResolved v \<Rightarrow> Some v | KeyPending \<Rightarrow> None), t)))"

definition resolveIdempotencyKey ::
  "bool \<Rightarrow> string \<Rightarrow> 'a \<Rightarrow> int \<Rightarrow> int \<Rightarrow> 'a idem_record list \<Rightarrow> (unit + unit) \<times> 'a idem_record list" where
  "resolveIdempotencyKey up k v ttl_s now t =
     (if \<not> up then (Inl (), t)
      else
        (Inr (),
         if find_key k t = None then t @ [\<lparr>ik_key = k, ik_status = KeyResolved v, ik_expires = now + ttl_s * 1000\<rparr>]
         else map (\<lambda>r. if ik_key r = k then r\<lparr>ik_status := KeyResolved v, ik_expires := now + ttl_s * 1000\<rparr> else r) t))"

definition expire_keys :: "int \<Rightarrow> 'a idem_record list \<Rightarrow> 'a idem_record list" where
  "expire_keys now t = filter (\<lambda>r. now < ik_expires r) t"


section \<open>Properties of the keys\<close>

datatype 'a key_op = Acquire string int | Resolve string 'a int | Pass int

text \<open>A sequence of calls while the database answers; time is the sum of the passes.\<close>

fun run_keys :: "'a key_op list \<Rightarrow> int \<times> 'a idem_record list \<Rightarrow> int \<times> 'a idem_record list" where
  "run_keys [] w = w"
| "run_keys (Acquire k ttl # ops) (now, t) = run_keys ops (now, snd (acquireIdempotencyKey True k ttl now t))"
| "run_keys (Resolve k v ttl # ops) (now, t) = run_keys ops (now, snd (resolveIdempotencyKey True k v ttl now t))"
| "run_keys (Pass d # ops) (now, t) = run_keys ops (now + d, expire_keys (now + d) t)"

definition resolves :: "string \<Rightarrow> 'a key_op \<Rightarrow> bool" where
  "resolves k op = (case op of Resolve j v ttl \<Rightarrow> j = k | _ \<Rightarrow> False)"

definition passed :: "'a key_op list \<Rightarrow> int" where
  "passed ops = sum_list (map (\<lambda>op. case op of Pass d \<Rightarrow> d | _ \<Rightarrow> 0) ops)"

definition forward :: "'a key_op \<Rightarrow> bool" where
  "forward op = (case op of Pass d \<Rightarrow> 0 \<le> d | _ \<Rightarrow> True)"

lemma find_key_append: "find_key k (t @ u) = (case find_key k t of None \<Rightarrow> find_key k u | Some r \<Rightarrow> Some r)"
  by (induction t) (simp_all add: find_key_def)

lemma find_key_expire:
  assumes "find_key k t = Some r" and "now < ik_expires r"
  shows "find_key k (expire_keys now t) = Some r"
  using assms by (induction t) (auto simp: find_key_def expire_keys_def split: if_splits)

lemma find_key_resolve_other:
  "j \<noteq> k \<Longrightarrow> find_key k (snd (resolveIdempotencyKey True j v ttl now t)) = find_key k t"
proof -
  assume jk: "j \<noteq> k"
  have "find_key k (map (\<lambda>r. if ik_key r = j then r\<lparr>ik_status := s, ik_expires := x\<rparr> else r) t) = find_key k t" for s x
    using jk by (induction t) (auto simp: find_key_def)
  then show ?thesis using jk by (simp add: resolveIdempotencyKey_def find_key_append) (simp add: find_key_def split: option.split)
qed

lemma find_key_acquire:
  "find_key k t = Some r \<Longrightarrow> find_key k (snd (acquireIdempotencyKey True j ttl now t)) = Some r"
  by (auto simp: acquireIdempotencyKey_def find_key_append split: option.split)

lemma find_key_resolved:
  "find_key k (snd (resolveIdempotencyKey True k v ttl now t)) =
     Some \<lparr>ik_key = k, ik_status = KeyResolved v, ik_expires = now + ttl * 1000\<rparr>"
proof (cases "find_key k t")
  case None
  then show ?thesis by (simp add: resolveIdempotencyKey_def find_key_append) (simp add: find_key_def)
next
  case (Some r)
  then have "find_key k (map (\<lambda>r. if ik_key r = k then r\<lparr>ik_status := s, ik_expires := x\<rparr> else r) t) =
      Some (r\<lparr>ik_status := s, ik_expires := x\<rparr>)" for s x
    by (induction t) (auto simp: find_key_def split: if_splits)
  moreover have "ik_key r = k" using Some by (auto simp: find_key_def find_Some_iff)
  ultimately show ?thesis using Some by (cases r) (simp add: resolveIdempotencyKey_def)
qed

lemma run_keys_find:
  "find_key k t = Some r \<Longrightarrow> now + passed ops < ik_expires r \<Longrightarrow> list_all forward ops \<Longrightarrow> list_all (\<lambda>op. \<not> resolves k op) ops \<Longrightarrow>
   find_key k (snd (run_keys ops (now, t))) = Some r"
proof (induction ops arbitrary: now t)
  case (Cons op ops)
  have nonneg: "0 \<le> passed ops" using Cons.prems(3)
    by (induction ops) (auto simp: passed_def forward_def split: key_op.splits)
  show ?case
  proof (cases op)
    case (Acquire j ttl)
    then show ?thesis using Cons find_key_acquire [OF Cons.prems(1)] by (simp add: passed_def)
  next
    case (Resolve j v ttl)
    then have "j \<noteq> k" using Cons.prems(4) by (simp add: resolves_def)
    then show ?thesis using Resolve Cons by (simp add: passed_def find_key_resolve_other)
  next
    case (Pass d)
    then have "now + d < ik_expires r" using Cons.prems(2) nonneg by (simp add: passed_def)
    then have "find_key k (expire_keys (now + d) t) = Some r" by (rule find_key_expire [OF Cons.prems(1)])
    then show ?thesis using Pass Cons by (simp add: passed_def add.assoc)
  qed
qed simp

text \<open>
  Once a key has been resolved, every acquisition of it returns the stored result and changes nothing, through any
  calls for any keys, until its lifetime is over or it is resolved again.
\<close>

theorem resolved_key_replays_result:
  assumes "list_all forward ops" and "list_all (\<lambda>op. \<not> resolves k op) ops" and "passed ops < ttl * 1000"
  shows "let (now', t') = run_keys ops (now, snd (resolveIdempotencyKey True k v ttl now t)) in
    acquireIdempotencyKey True k ttl2 now' t' = (Inr (Some v), t')"
proof -
  obtain now' t' where r: "run_keys ops (now, snd (resolveIdempotencyKey True k v ttl now t)) = (now', t')" by fastforce
  have "find_key k t' = Some \<lparr>ik_key = k, ik_status = KeyResolved v, ik_expires = now + ttl * 1000\<rparr>"
    using run_keys_find [OF find_key_resolved [of k v ttl now t], of now ops] assms r by simp
  then show ?thesis by (simp add: r acquireIdempotencyKey_def)
qed

theorem resolved_key_replays_result_witness:
  "let (now', t') = run_keys [Pass 1000, Resolve ''b'' (8::nat) 60, Acquire ''a'' 60] (0, snd (resolveIdempotencyKey True ''a'' 7 60 0 [])) in
    acquireIdempotencyKey True ''a'' 60 now' t' = (Inr (Some 7), t')"
  by (rule resolved_key_replays_result) (simp_all add: forward_def resolves_def passed_def)

text \<open>
  The answer to a second request cannot be told from the answer to the first: while the operation of the first is
  still running, every further acquisition of its key also returns nothing, which is the sign to proceed.
\<close>

theorem pending_key_looks_unclaimed:
  assumes "find_key k t = None"
  shows "fst (acquireIdempotencyKey True k ttl now t) = Inr None \<and>
    (let t1 = snd (acquireIdempotencyKey True k ttl now t) in
     find_key k t1 \<noteq> None \<and> acquireIdempotencyKey True k ttl2 now2 t1 = (Inr None, t1))"
  using assms by (simp add: acquireIdempotencyKey_def find_key_append Let_def) (simp add: find_key_def)

theorem pending_key_looks_unclaimed_witness:
  "fst (acquireIdempotencyKey True ''a'' 60 0 ([] :: nat idem_record list)) = Inr None"
  using pending_key_looks_unclaimed [of "''a''" "[] :: nat idem_record list" 60 0 60 1] by (simp add: find_key_def)

end
