(* ===== verification/FloatRevenue.thy ===== *)
theory FloatRevenue
  imports Rates
begin

text \<open>
  Interest on the reserves that partners hold, \<open>src/services/treasury/floatRevenueService.ts\<close>. The decimal library rounds
  to 20 digits half up unless \<open>src/utils/decimalUtils.ts\<close> has been loaded before, which sets 28 digits and truncation for
  the whole process: the rounding is a parameter, and the lemmas hold for both.
\<close>

section \<open>Model\<close>

record partner_reserve =
  pr_partner :: string
  pr_amount_usd :: rat
  pr_entitled :: bool           \<comment> \<open>\<open>hasContractualEntitlement\<close>\<close>
  pr_retention :: jsnum         \<comment> \<open>\<open>partnerRetentionBps\<close>\<close>
  pr_share :: jsnum             \<comment> \<open>\<open>protocolShareBps\<close>\<close>
  pr_yield_bps :: rat           \<comment> \<open>\<open>annualYieldRateBps\<close>, a finite number\<close>

record float_yield =
  fy_gross :: rat
  fy_protocol :: rat
  fy_partner :: rat

datatype revenue_error = InvalidSplit string | InvalidTakeRate

text \<open>\<open>new Decimal(bps).div(10000)\<close>.\<close>

definition bps_rate :: "(rat \<Rightarrow> rat) \<Rightarrow> rat \<Rightarrow> rat" where
  "bps_rate rnd bps = rnd (dec_of_num bps / 10000)"

definition valid_split :: "jsnum \<Rightarrow> jsnum \<Rightarrow> bool" where
  "valid_split retention share =
     (case (retention, share) of
        (Fin a, Fin b) \<Rightarrow> 2000 \<le> a \<and> a \<le> 3000 \<and> 7000 \<le> b \<and> b \<le> 8000 \<and> f64 (a + b) = 10000
      | _ \<Rightarrow> False)"

definition share_of :: "partner_reserve \<Rightarrow> rat" where
  "share_of r = (case pr_share r of Fin b \<Rightarrow> b | _ \<Rightarrow> 0)"

definition calculatePartnerFloatYield :: "(rat \<Rightarrow> rat) \<Rightarrow> partner_reserve \<Rightarrow> revenue_error + float_yield" where
  "calculatePartnerFloatYield rnd r =
     (let gross = rnd (pr_amount_usd r * bps_rate rnd (pr_yield_bps r)) in
      if \<not> pr_entitled r then Inr \<lparr>fy_gross = gross, fy_protocol = 0, fy_partner = gross\<rparr>
      else if \<not> valid_split (pr_retention r) (pr_share r) then Inl (InvalidSplit (pr_partner r))
      else
        (let protocol = rnd (gross * bps_rate rnd (share_of r)) in
         Inr \<lparr>fy_gross = gross, fy_protocol = protocol, fy_partner = rnd (gross - protocol)\<rparr>))"

datatype float_mode = Conservative | Contractual

record float_sums =
  fs_gross :: rat
  fs_recognized :: rat
  fs_retained :: rat

definition add_partner :: "(rat \<Rightarrow> rat) \<Rightarrow> float_mode \<Rightarrow> partner_reserve \<Rightarrow> float_sums \<Rightarrow> revenue_error + float_sums" where
  "add_partner rnd mode r s =
     bindR (calculatePartnerFloatYield rnd r) (\<lambda>y.
       let s1 = s\<lparr>fs_gross := rnd (fs_gross s + fy_gross y)\<rparr> in
       Inr (if mode = Conservative then s1\<lparr>fs_retained := rnd (fs_retained s1 + fy_gross y)\<rparr>
            else s1\<lparr>fs_recognized := rnd (fs_recognized s1 + fy_protocol y), fs_retained := rnd (fs_retained s1 + fy_partner y)\<rparr>))"

fun sum_partners :: "(rat \<Rightarrow> rat) \<Rightarrow> float_mode \<Rightarrow> partner_reserve list \<Rightarrow> float_sums \<Rightarrow> revenue_error + float_sums" where
  "sum_partners rnd mode [] s = Inr s"
| "sum_partners rnd mode (r # rs) s = bindR (add_partner rnd mode r s) (sum_partners rnd mode rs)"

record projection_inputs =
  pi_volume :: rat
  pi_take_bps :: rat
  pi_savings :: rat
  pi_partners :: "partner_reserve list"

record projection =
  pj_fees :: rat
  pj_savings :: rat
  pj_recognized :: rat
  pj_gross :: rat
  pj_retained :: rat
  pj_revenue :: rat
  pj_conservative :: bool

definition no_float :: float_sums where
  "no_float = \<lparr>fs_gross = 0, fs_recognized = 0, fs_retained = 0\<rparr>"

definition calculateRevenueProjection :: "(rat \<Rightarrow> rat) \<Rightarrow> projection_inputs \<Rightarrow> float_mode \<Rightarrow> revenue_error + projection" where
  "calculateRevenueProjection rnd i mode =
     (let fees = rnd (pi_volume i * bps_rate rnd (pi_take_bps i)) in
      bindR (sum_partners rnd mode (pi_partners i) no_float) (\<lambda>s.
        Inr \<lparr>pj_fees = fees, pj_savings = pi_savings i, pj_recognized = fs_recognized s, pj_gross = fs_gross s,
          pj_retained = fs_retained s, pj_revenue = rnd (rnd (fees + pi_savings i) + fs_recognized s),
          pj_conservative = (mode = Conservative \<or> fs_recognized s = 0)\<rparr>))"

record breakeven_inputs =
  bi_expenses :: rat
  bi_take_bps :: jsnum
  bi_float :: "rat option"
  bi_savings :: "rat option"

record breakeven =
  bk_net :: rat
  bk_volume :: rat

definition or_zero :: "rat option \<Rightarrow> rat" where
  "or_zero x = (case x of None \<Rightarrow> 0 | Some v \<Rightarrow> v)"

definition calculateBreakevenVolume :: "(rat \<Rightarrow> rat) \<Rightarrow> breakeven_inputs \<Rightarrow> revenue_error + breakeven" where
  "calculateBreakevenVolume rnd i =
     (let other = rnd (or_zero (bi_float i) + or_zero (bi_savings i));
          net = max 0 (rnd (bi_expenses i - other)) in
      case bi_take_bps i of
        Fin bps \<Rightarrow>
          if bps_rate rnd bps \<le> 0 then Inl InvalidTakeRate
          else Inr \<lparr>bk_net = net, bk_volume = rnd (net / bps_rate rnd bps)\<rparr>
      | _ \<Rightarrow> Inl InvalidTakeRate)"

section \<open>The contract of a decimal context\<close>

locale revenue = rounding +
  assumes rnd_idem: "rnd (rnd x) = rnd x"
begin

definition settled :: "float_sums \<Rightarrow> bool" where
  "settled s \<longleftrightarrow> rnd (fs_recognized s) = fs_recognized s"

lemma add_partner_recognized:
  "add_partner rnd mode r s = Inr s' \<Longrightarrow> settled s \<Longrightarrow>
   settled s' \<and> (mode = Conservative \<or> \<not> pr_entitled r \<longrightarrow> fs_recognized s' = fs_recognized s)"
  by (auto simp: add_partner_def bindR_Inr_iff calculatePartnerFloatYield_def settled_def Let_def rnd_idem split: if_splits)

lemma entitled_step:
  "add_partner rnd mode r s = Inr s' \<Longrightarrow> fs_recognized s = fs_recognized t \<Longrightarrow>
   \<exists>t'. add_partner rnd mode r t = Inr t' \<and> fs_recognized t' = fs_recognized s'"
  by (auto simp: add_partner_def bindR_Inr_iff Let_def)

lemma sum_entitled:
  "sum_partners rnd mode rs s = Inr s' \<Longrightarrow> settled s \<Longrightarrow> fs_recognized s = fs_recognized t \<Longrightarrow>
   \<exists>t'. sum_partners rnd mode (filter pr_entitled rs) t = Inr t' \<and> fs_recognized t' = fs_recognized s'"
proof (induction rs arbitrary: s t)
  case (Cons r rs)
  then obtain s1 where s1: "add_partner rnd mode r s = Inr s1" "sum_partners rnd mode rs s1 = Inr s'"
    by (auto simp: bindR_Inr_iff)
  note eff = add_partner_recognized [OF s1(1) Cons.prems(2)]
  show ?case
  proof (cases "pr_entitled r")
    case True
    obtain t1 where "add_partner rnd mode r t = Inr t1" "fs_recognized t1 = fs_recognized s1"
      using entitled_step [OF s1(1) Cons.prems(3)] by blast
    then show ?thesis using Cons.IH [OF s1(2), of t1] eff True by simp
  next
    case False
    then show ?thesis using Cons.IH [OF s1(2), of t] eff Cons.prems(3) by simp
  qed
qed simp

lemma conservative_sum:
  "sum_partners rnd Conservative rs s = Inr s' \<Longrightarrow> settled s \<Longrightarrow> fs_retained s = fs_gross s \<Longrightarrow>
   fs_recognized s' = fs_recognized s \<and> fs_retained s' = fs_gross s'"
proof (induction rs arbitrary: s)
  case (Cons r rs)
  then obtain s1 where s1: "add_partner rnd Conservative r s = Inr s1" "sum_partners rnd Conservative rs s1 = Inr s'"
    by (auto simp: bindR_Inr_iff)
  have "fs_retained s1 = fs_gross s1" using s1(1) Cons.prems(3) by (auto simp: add_partner_def bindR_Inr_iff Let_def)
  then show ?case using Cons.IH [OF s1(2)] add_partner_recognized [OF s1(1) Cons.prems(2)] by simp
qed simp

text \<open>The share of the protocol lies between the rounded bounds of the policy.\<close>

lemma protocol_share_bounds:
  assumes "calculatePartnerFloatYield rnd r = Inr y" and "pr_entitled r" and "0 \<le> fy_gross y"
    and "bps_rate rnd 7000 \<le> bps_rate rnd (share_of r)" and "bps_rate rnd (share_of r) \<le> bps_rate rnd 8000"
  shows "rnd (fy_gross y * bps_rate rnd 7000) \<le> fy_protocol y \<and> fy_protocol y \<le> rnd (fy_gross y * bps_rate rnd 8000)"
  using assms by (auto simp: calculatePartnerFloatYield_def Let_def split: if_splits intro!: rnd_mono mult_left_mono)

lemma breakeven_mono:
  assumes "calculateBreakevenVolume rnd (i\<lparr>bi_float := Some a\<rparr>) = Inr x"
    and "calculateBreakevenVolume rnd (i\<lparr>bi_float := Some b\<rparr>) = Inr y" and "a \<le> b"
  shows "bk_volume y \<le> bk_volume x \<and> 0 \<le> bk_volume y"
proof -
  let ?net = "\<lambda>v. max 0 (rnd (bi_expenses i - rnd (v + or_zero (bi_savings i))))"
  obtain bps where bps: "bi_take_bps i = Fin bps" "0 < bps_rate rnd bps"
    using assms(1) by (auto simp: calculateBreakevenVolume_def Let_def split: jsnum.splits if_splits)
  then have x: "bk_volume x = rnd (?net a / bps_rate rnd bps)" and y: "bk_volume y = rnd (?net b / bps_rate rnd bps)"
    using assms(1,2) by (auto simp: calculateBreakevenVolume_def Let_def or_zero_def)
  have "rnd (a + or_zero (bi_savings i)) \<le> rnd (b + or_zero (bi_savings i))" using assms(3) by (intro rnd_mono) simp
  then have "rnd (bi_expenses i - rnd (b + or_zero (bi_savings i))) \<le> rnd (bi_expenses i - rnd (a + or_zero (bi_savings i)))"
    by (intro rnd_mono) simp
  then have "?net b / bps_rate rnd bps \<le> ?net a / bps_rate rnd bps" using bps(2) by (intro divide_right_mono) auto
  then show ?thesis unfolding x y using bps(2) by (auto intro!: rnd_mono rnd_ge_0)
qed

end

interpretation prisma_revenue: revenue prisma_dec "10 ^ 20"
  by unfold_locales (simp add: prisma_dec_def sig_round_idem)

interpretation money_revenue: revenue money_dec "10 ^ 28"
  by unfold_locales (simp add: money_dec_def sig_round_idem)

section \<open>Properties\<close>

text \<open>The two contexts the process can be in.\<close>

definition revenue_context :: "bool \<Rightarrow> rat \<Rightarrow> rat" where
  "revenue_context money = (if money then money_dec else prisma_dec)"

lemma settled_no_float: "prisma_revenue.settled no_float" "money_revenue.settled no_float"
  by (simp_all add: prisma_revenue.settled_def money_revenue.settled_def no_float_def)

text \<open>
  Interest on the reserves of a partner without an agreement is never revenue of the protocol: in both modes
  and under both decimal contexts the recognised interest and the revenue are those of a projection from which such
  partners are left out, and the conservative mode recognises nothing and leaves all interest to the partners.
\<close>

theorem uncontracted_float_not_revenue:
  assumes "calculateRevenueProjection (revenue_context m) i mode = Inr p"
  shows "(\<exists>q. calculateRevenueProjection (revenue_context m) (i\<lparr>pi_partners := filter pr_entitled (pi_partners i)\<rparr>) mode = Inr q \<and>
      pj_recognized q = pj_recognized p \<and> pj_revenue q = pj_revenue p) \<and>
    (mode = Conservative \<longrightarrow> pj_recognized p = 0 \<and> pj_retained p = pj_gross p)"
proof -
  obtain s where s: "sum_partners (revenue_context m) mode (pi_partners i) no_float = Inr s"
    and p: "pj_recognized p = fs_recognized s" "pj_retained p = fs_retained s" "pj_gross p = fs_gross s"
      "pj_revenue p = revenue_context m (revenue_context m (revenue_context m
         (pi_volume i * bps_rate (revenue_context m) (pi_take_bps i)) + pi_savings i) + fs_recognized s)"
    using assms by (auto simp: calculateRevenueProjection_def Let_def bindR_Inr_iff)
  have "\<exists>t. sum_partners (revenue_context m) mode (filter pr_entitled (pi_partners i)) no_float = Inr t \<and> fs_recognized t = fs_recognized s"
    using s prisma_revenue.sum_entitled [OF _ settled_no_float(1) refl] money_revenue.sum_entitled [OF _ settled_no_float(2) refl]
    by (cases m) (simp_all add: revenue_context_def)
  moreover have "fs_recognized s = 0 \<and> fs_retained s = fs_gross s" if "mode = Conservative"
    using s that prisma_revenue.conservative_sum [OF _ settled_no_float(1)] money_revenue.conservative_sum [OF _ settled_no_float(2)]
    by (cases m) (simp_all add: revenue_context_def no_float_def)
  ultimately show ?thesis using p by (auto simp: calculateRevenueProjection_def Let_def)
qed

text \<open>
  The volume a year must bring to break even is never negative and never grows with the interest that is
  confirmed, under both decimal contexts.
\<close>

theorem breakeven_falls_with_float:
  assumes "calculateBreakevenVolume (revenue_context m) (i\<lparr>bi_float := Some a\<rparr>) = Inr x"
    and "calculateBreakevenVolume (revenue_context m) (i\<lparr>bi_float := Some b\<rparr>) = Inr y" and "a \<le> b"
  shows "0 \<le> bk_volume y \<and> bk_volume y \<le> bk_volume x"
  using assms prisma_revenue.breakeven_mono money_revenue.breakeven_mono by (cases m) (auto simp: revenue_context_def)

section \<open>Witnesses\<close>

lemma dec_100: "dec_of_num 100 = 100"
proof -
  have r: "round_near 1 = 1" "expo 10 100 = 2" by code_simp+
  have "shortest_digits (Suc 15) 1 3 100 = (1, 3, 1)"
    by (subst shortest_digits.simps(2)) (simp add: Let_def r f64.rnd_numeral_le)
  then show ?thesis by (simp add: dec_of_num_def r)
qed

lemma one_percent: "bps_rate prisma_dec 100 = 1 / 100"
proof -
  have "fits8 (10 ^ 20) (1 / 100)" unfolding fits8_def by (intro exI [of _ 1000000]) simp
  then show ?thesis using prisma_money.rnd_fits8 by (simp add: bps_rate_def dec_100)
qed

definition sample_breakeven :: breakeven_inputs where
  "sample_breakeven = \<lparr>bi_expenses = 100, bi_take_bps = Fin 100, bi_float = None, bi_savings = None\<rparr>"

theorem breakeven_falls_with_float_witness: "(0::rat) \<le> 5000 \<and> (5000::rat) \<le> 10000"
proof -
  have "calculateBreakevenVolume (revenue_context False) (sample_breakeven\<lparr>bi_float := Some 0\<rparr>) = Inr \<lparr>bk_net = 100, bk_volume = 10000\<rparr>"
    "calculateBreakevenVolume (revenue_context False) (sample_breakeven\<lparr>bi_float := Some 50\<rparr>) = Inr \<lparr>bk_net = 50, bk_volume = 5000\<rparr>"
    by (simp_all add: calculateBreakevenVolume_def revenue_context_def sample_breakeven_def Let_def or_zero_def one_percent
        prisma_dec.rnd_numeral_le)
  from breakeven_falls_with_float [OF this] show ?thesis by simp
qed

text \<open>A partner without an agreement, and a split outside the policy that is not looked at for it.\<close>

definition sample_projection :: projection_inputs where
  "sample_projection =
     \<lparr>pi_volume = 1000, pi_take_bps = 100, pi_savings = 2,
      pi_partners = [\<lparr>pr_partner = ''bank'', pr_amount_usd = 5000, pr_entitled = False, pr_retention = NaN, pr_share = NaN, pr_yield_bps = 100\<rparr>]\<rparr>"

theorem uncontracted_float_not_revenue_witness:
  "\<exists>p. calculateRevenueProjection prisma_dec sample_projection Contractual = Inr p \<and> pj_gross p = 50 \<and>
    (\<exists>q. calculateRevenueProjection prisma_dec (sample_projection\<lparr>pi_partners := []\<rparr>) Contractual = Inr q \<and> pj_revenue q = pj_revenue p)"
proof -
  obtain p where p: "calculateRevenueProjection (revenue_context False) sample_projection Contractual = Inr p" "pj_gross p = 50"
    by (simp add: calculateRevenueProjection_def revenue_context_def sample_projection_def Let_def add_partner_def
        calculatePartnerFloatYield_def one_percent no_float_def prisma_dec.rnd_numeral_le)
  from uncontracted_float_not_revenue [OF p(1)] p show ?thesis
    by (auto simp: revenue_context_def sample_projection_def)
qed

end
