(* ===== verification/Treasury.thy ===== *)
theory Treasury
  imports Reserves "HOL-Library.List_Lexorder" "HOL-Library.Char_ord"
begin

text \<open>
  The treasury view, \<open>src/services/treasury/TreasuryService.ts\<close>: the latest reserve of each currency and segment is
  joined with the transactions of the currency and with its latest oracle rate, and the two totals are reconciled.
  The maps of the code are association lists in insertion order, under the composed string key of the code. Sums
  are sums of doubles.
\<close>

section \<open>Inputs\<close>

record oracle_row =
  or_currency :: string
  or_rate :: rat
  or_at :: int

record treasury_db =
  td_reserves :: "reserve_row list"   \<comment> \<open>oldest first\<close>
  td_txs :: "txn list"
  td_rates :: "oracle_row list"
  td_up :: bool                       \<comment> \<open>whether the queries succeed\<close>

definition DEFAULT_TOLERANCE_PERCENTAGE :: rat where
  "DEFAULT_TOLERANCE_PERCENTAGE = f64 (1 / 100)"

definition DAYS_FOR_FX_FALLBACK :: int where
  "DAYS_FOR_FX_FALLBACK = 7"

definition day_ms :: int where
  "day_ms = 86400000"

text \<open>\<open>Map.set\<close>: a new key goes to the end, a present one keeps its place.\<close>

definition map_set :: "'k \<Rightarrow> 'v \<Rightarrow> ('k \<times> 'v) list \<Rightarrow> ('k \<times> 'v) list" where
  "map_set k v m = (if map_of m k = None then m @ [(k, v)] else map (\<lambda>(a, b). if a = k then (a, v) else (a, b)) m)"

section \<open>Reserves\<close>

definition reserve_id :: "reserve_row \<Rightarrow> string \<times> string" where
  "reserve_id r = (rr_currency r, rr_segment r)"

text \<open>\<open>distinct\<close> on currency and segment keeps the first row of each pair, newest first.\<close>

primrec first_rows :: "reserve_row list \<Rightarrow> reserve_row list" where
  "first_rows [] = []"
| "first_rows (r # rs) = r # filter (\<lambda>q. reserve_id q \<noteq> reserve_id r) (first_rows rs)"

definition getLatestReserves :: "reserve_row list \<Rightarrow> reserve_row list" where
  "getLatestReserves rows = first_rows (rev rows)"

record reserve_snapshot =
  sn_amount :: rat
  sn_value :: rat

definition reserve_key :: "string \<Rightarrow> string \<Rightarrow> string" where
  "reserve_key c seg = c @ CHR '':'' # seg"

definition snapshot_of :: "reserve_row \<Rightarrow> reserve_snapshot" where
  "snapshot_of r = \<lparr>sn_amount = decimalToNumber (Some (rr_amount r)), sn_value = decimalToNumber (Some (rr_value r))\<rparr>"

definition getLatestReservesBySegment :: "reserve_row list \<Rightarrow> (string \<times> reserve_snapshot) list" where
  "getLatestReservesBySegment rows =
     foldl (\<lambda>m r. map_set (reserve_key (rr_currency r) (rr_segment r)) (snapshot_of r) m) [] (getLatestReserves rows)"

section \<open>Transactions\<close>

record tx_aggregate =
  ag_minted :: rat
  ag_burned :: rat
  ag_transferred :: rat
  ag_count :: nat

definition no_transactions :: tx_aggregate where
  "no_transactions = \<lparr>ag_minted = 0, ag_burned = 0, ag_transferred = 0, ag_count = 0\<rparr>"

definition TREASURY_TX_CAP :: nat where
  "TREASURY_TX_CAP = 50000"

definition counted_tx :: "txn \<Rightarrow> bool" where
  "counted_tx t \<longleftrightarrow> tx_status t \<in> {Completed, Processing} \<and> tx_type t \<in> {TMint, TBurn, TTransfer}"

definition add_to_aggregate :: "txn \<Rightarrow> tx_aggregate \<Rightarrow> tx_aggregate" where
  "add_to_aggregate t a =
     (let usd = decimalToNumber (usdc_amount t);
          b = (case tx_type t of
                 TMint \<Rightarrow> a\<lparr>ag_minted := f64 (ag_minted a + usd)\<rparr>
               | TBurn \<Rightarrow> a\<lparr>ag_burned := f64 (ag_burned a + usd)\<rparr>
               | TTransfer \<Rightarrow> a\<lparr>ag_transferred := f64 (ag_transferred a + usd)\<rparr>
               | _ \<Rightarrow> a) in
      b\<lparr>ag_count := ag_count b + 1\<rparr>)"

definition aggregate_tx :: "(string \<times> tx_aggregate) list \<Rightarrow> txn \<Rightarrow> (string \<times> tx_aggregate) list" where
  "aggregate_tx m t =
     (case local_currency t of
        None \<Rightarrow> m
      | Some c \<Rightarrow>
          if c = [] then m
          else map_set c (add_to_aggregate t (case map_of m c of None \<Rightarrow> no_transactions | Some a \<Rightarrow> a)) m)"

text \<open>The query has no order: the rows the cap keeps are taken to be the first ones of the table.\<close>

definition aggregateTransactionsBySegment :: "txn list \<Rightarrow> (string \<times> tx_aggregate) list" where
  "aggregateTransactionsBySegment txs = foldl aggregate_tx [] (take TREASURY_TX_CAP (filter counted_tx txs))"

definition calculated_total :: "(string \<times> tx_aggregate) list \<Rightarrow> rat" where
  "calculated_total m =
     foldl (\<lambda>s (c, a). f64 (f64 (f64 (s + ag_minted a) - ag_burned a) + ag_transferred a)) 0 m"

section \<open>Rates\<close>

datatype fx_source = FxCurrent | FxFallback | FxZero

text \<open>The row of a currency with the latest timestamp, which is unique per currency.\<close>

definition newest_rate :: "oracle_row list \<Rightarrow> oracle_row option" where
  "newest_rate rows =
     foldl (\<lambda>best r. case best of None \<Rightarrow> Some r | Some b \<Rightarrow> if or_at b < or_at r then Some r else Some b) None rows"

definition getFxRateWithFallback :: "int \<Rightarrow> oracle_row list \<Rightarrow> string \<Rightarrow> (rat \<times> int \<times> fx_source) option" where
  "getFxRateWithFallback now rows c =
     (case newest_rate (filter (\<lambda>r. or_currency r = c) rows) of
        Some r \<Rightarrow> Some (decimalToNumber (Some (or_rate r)), or_at r, FxCurrent)
      | None \<Rightarrow>
          (case newest_rate (filter (\<lambda>r. or_currency r = c \<and> now - DAYS_FOR_FX_FALLBACK * day_ms \<le> or_at r) rows) of
             Some r \<Rightarrow> Some (decimalToNumber (Some (or_rate r)), or_at r, FxFallback)
           | None \<Rightarrow> None))"

record treasury_segment =
  ts_amount :: rat
  ts_value :: rat
  ts_rate :: rat
  ts_rate_at :: int
  ts_source :: fx_source

definition buildTreasurySegment :: "int \<Rightarrow> oracle_row list \<Rightarrow> string \<Rightarrow> reserve_snapshot option \<Rightarrow> treasury_segment" where
  "buildTreasurySegment now rates c reserve =
     (case reserve of
        None \<Rightarrow> \<lparr>ts_amount = 0, ts_value = 0, ts_rate = 1, ts_rate_at = now, ts_source = FxZero\<rparr>
      | Some s \<Rightarrow>
          (case getFxRateWithFallback now rates c of
             Some (rate, t, src) \<Rightarrow>
               \<lparr>ts_amount = sn_amount s, ts_value = sn_value s, ts_rate = rate, ts_rate_at = t, ts_source = src\<rparr>
           | None \<Rightarrow> \<lparr>ts_amount = sn_amount s, ts_value = sn_value s, ts_rate = 1, ts_rate_at = now, ts_source = FxZero\<rparr>))"

section \<open>Reconciliation\<close>

datatype treasury_warning = ReconciliationFailed | WithinTolerance

record reconciliation =
  rc_ledger :: rat
  rc_calculated :: rat
  rc_discrepancy :: rat
  rc_percentage :: rat
  rc_reconciled :: bool
  rc_tolerance :: rat
  rc_warnings :: "treasury_warning list"

definition reconcileTotals :: "rat \<Rightarrow> rat \<Rightarrow> rat \<Rightarrow> reconciliation" where
  "reconcileTotals ledger calculated tolerance =
     (let discrepancy = \<bar>f64 (ledger - calculated)\<bar>;
          pct = (if 0 < ledger then f64 (f64 (discrepancy / ledger) * 100) else 0);
          ok = (pct \<le> tolerance) in
      \<lparr>rc_ledger = ledger, rc_calculated = calculated, rc_discrepancy = discrepancy, rc_percentage = pct,
       rc_reconciled = ok, rc_tolerance = tolerance,
       rc_warnings = (if \<not> ok then [ReconciliationFailed] else if 0 < discrepancy then [WithinTolerance] else [])\<rparr>)"

section \<open>The treasury\<close>

record treasury_entry =
  en_currency :: string
  en_transactions :: treasury_segment
  en_savings :: treasury_segment
  en_amount :: rat
  en_value :: rat

record treasury_result =
  tr_balance :: rat
  tr_reserve_amount :: rat
  tr_transactions_usd :: rat
  tr_savings_usd :: rat
  tr_by_currency :: "treasury_entry list"
  tr_reconciliation :: reconciliation

definition treasury_currencies :: "(string \<times> reserve_snapshot) list \<Rightarrow> (string \<times> tx_aggregate) list \<Rightarrow> string list" where
  "treasury_currencies reserves txs =
     sort (remdups (map (\<lambda>(k, s). hd (split_on CHR '':'' k)) reserves @ map fst txs))"

definition build_entry :: "int \<Rightarrow> oracle_row list \<Rightarrow> (string \<times> reserve_snapshot) list \<Rightarrow> string \<Rightarrow> treasury_entry" where
  "build_entry now rates reserves c =
     (let t = buildTreasurySegment now rates c (map_of reserves (reserve_key c SEGMENT_TRANSACTIONS));
          s = buildTreasurySegment now rates c (map_of reserves (reserve_key c SEGMENT_INVESTMENT_SAVINGS)) in
      \<lparr>en_currency = c, en_transactions = t, en_savings = s, en_amount = f64 (ts_amount t + ts_amount s),
       en_value = f64 (ts_value t + ts_value s)\<rparr>)"

definition float_sum :: "rat list \<Rightarrow> rat" where
  "float_sum xs = foldl (\<lambda>s x. f64 (s + x)) 0 xs"

definition getEnterpriseTreasury :: "int \<Rightarrow> rat \<Rightarrow> treasury_db \<Rightarrow> treasury_result option" where
  "getEnterpriseTreasury now tolerance db =
     (if \<not> td_up db then None
      else
        (let reserves = getLatestReservesBySegment (td_reserves db);
             txs = aggregateTransactionsBySegment (td_txs db);
             entries = map (build_entry now (td_rates db) reserves) (treasury_currencies reserves txs);
             balance = float_sum (map en_value entries) in
         Some \<lparr>tr_balance = balance, tr_reserve_amount = float_sum (map en_amount entries),
           tr_transactions_usd = float_sum (map (\<lambda>en. ts_value (en_transactions en)) entries),
           tr_savings_usd = float_sum (map (\<lambda>en. ts_value (en_savings en)) entries),
           tr_by_currency = entries, tr_reconciliation = reconcileTotals balance (calculated_total txs) tolerance\<rparr>))"

record treasury_health =
  th_healthy :: bool
  th_balance :: rat
  th_warnings :: "treasury_warning list option"   \<comment> \<open>None: the check failed\<close>

definition getTreasuryHealth :: "int \<Rightarrow> treasury_db \<Rightarrow> treasury_health" where
  "getTreasuryHealth now db =
     (case getEnterpriseTreasury now DEFAULT_TOLERANCE_PERCENTAGE db of
        Some r \<Rightarrow> \<lparr>th_healthy = rc_reconciled (tr_reconciliation r), th_balance = tr_balance r,
          th_warnings = Some (rc_warnings (tr_reconciliation r))\<rparr>
      | None \<Rightarrow> \<lparr>th_healthy = False, th_balance = 0, th_warnings = None\<rparr>)"

section \<open>The join\<close>

lemma map_of_map_set [simp]: "map_of (map_set k v m) = (map_of m)(k \<mapsto> v)"
proof
  fix x
  have "map_of (map (\<lambda>(a, b). if a = k then (a, v) else (a, b)) m) x = (if x = k then map_option (\<lambda>_. v) (map_of m k) else map_of m x)"
    by (induction m) auto
  then show "map_of (map_set k v m) x = ((map_of m)(k \<mapsto> v)) x"
    by (cases "map_of m k") (auto simp: map_set_def map_add_def split: option.splits)
qed

lemma keys_map_set [simp]: "fst ` set (map_set k v m) = insert k (fst ` set m)"
proof (cases "map_of m k")
  case None
  then show ?thesis by (auto simp: map_set_def)
next
  case (Some w)
  then have "k \<in> fst ` set m" by (metis domI dom_map_of_conv_image_fst)
  then show ?thesis using Some by (force simp: map_set_def image_iff split: if_splits)
qed

lemma first_rows_find: "find (\<lambda>q. reserve_id q = k) (first_rows rs) = find (\<lambda>q. reserve_id q = k) rs"
proof (induction rs)
  case (Cons x rs)
  have "find (\<lambda>q. reserve_id q = k) (filter (\<lambda>q. reserve_id q \<noteq> reserve_id x) xs) = find (\<lambda>q. reserve_id q = k) xs"
    if "reserve_id x \<noteq> k" for xs
    using that by (induction xs) auto
  then show ?case using Cons by simp
qed simp

lemma first_rows_distinct: "distinct (map reserve_id (first_rows rs))"
  by (induction rs) (auto simp: distinct_map inj_on_def)

lemma first_rows_keys: "reserve_id ` set (first_rows rs) = reserve_id ` set rs"
proof (induction rs)
  case (Cons x rs)
  have "reserve_id ` set (first_rows (x # rs)) = insert (reserve_id x) (reserve_id ` set (first_rows rs))" by auto
  then show ?case using Cons by simp
qed simp

lemma foldl_map_set:
  "distinct (map key rs) \<Longrightarrow>
   map_of (foldl (\<lambda>m r. map_set (key r) (val r) m) m rs) k =
     (case find (\<lambda>r. key r = k) rs of None \<Rightarrow> map_of m k | Some r \<Rightarrow> Some (val r))"
proof (induction rs arbitrary: m)
  case (Cons x rs)
  show ?case
  proof (cases "key x = k")
    case True
    then have "find (\<lambda>r. key r = k) rs = None" using Cons.prems unfolding find_None_iff'
      by (metis distinct.simps(2) imageI list.set_map list.simps(9))
    then show ?thesis using Cons True by simp
  qed (use Cons in \<open>simp split: option.split\<close>)
qed simp

lemma foldl_map_set_keys: "fst ` set (foldl (\<lambda>m r. map_set (key r) (val r) m) m rs) = fst ` set m \<union> key ` set rs"
  by (induction rs arbitrary: m) auto

text \<open>Codes without a colon make the composed keys unambiguous.\<close>

definition plain_codes :: "reserve_row list \<Rightarrow> bool" where
  "plain_codes rows \<longleftrightarrow> list_all (\<lambda>r. CHR '':'' \<notin> set (rr_currency r) \<and> CHR '':'' \<notin> set (rr_segment r)) rows"

lemma key_currency: "CHR '':'' \<notin> set c \<Longrightarrow> hd (split_on CHR '':'' (reserve_key c seg)) = c"
  by (simp add: reserve_key_def split_on_append)

lemma append_sep_eq: "x \<notin> set as \<Longrightarrow> x \<notin> set bs \<Longrightarrow> as @ x # cs = bs @ x # ds \<longleftrightarrow> as = bs \<and> cs = ds"
proof (induction as arbitrary: bs)
  case Nil
  then show ?case by (cases bs) auto
next
  case (Cons a as)
  then show ?case by (cases bs) auto
qed

lemma append_sep_eq_right:
  assumes "x \<notin> set cs" and "x \<notin> set ds"
  shows "as @ x # cs = bs @ x # ds \<longleftrightarrow> as = bs \<and> cs = ds"
proof -
  have "as @ x # cs = bs @ x # ds \<longleftrightarrow> rev (as @ x # cs) = rev (bs @ x # ds)" by (simp only: rev_is_rev_conv)
  also have "\<dots> \<longleftrightarrow> rev cs @ x # rev as = rev ds @ x # rev bs" by simp
  finally show ?thesis using append_sep_eq [of x "rev cs" "rev ds" "rev as" "rev bs"] assms by auto
qed

lemma reserve_key_eq:
  "CHR '':'' \<notin> set seg \<Longrightarrow> CHR '':'' \<notin> set seg' \<Longrightarrow> reserve_key c seg = reserve_key c' seg' \<longleftrightarrow> c = c' \<and> seg = seg'"
  by (simp add: reserve_key_def append_sep_eq_right)

lemma first_rows_subset: "set (first_rows rs) \<subseteq> set rs"
  by (induction rs) auto

lemma find_cong': "(\<And>x. x \<in> set xs \<Longrightarrow> P x = Q x) \<Longrightarrow> find P xs = find Q xs"
  by (induction xs) auto

text \<open>The map under composed keys is the lookup of the latest row.\<close>

lemma latest_by_segment:
  assumes plain: "plain_codes rows" and seg: "CHR '':'' \<notin> set seg"
  shows "map_of (getLatestReservesBySegment rows) (reserve_key c seg) = map_option snapshot_of (latest_reserve c seg rows)"
proof -
  let ?key = "\<lambda>r. reserve_key (rr_currency r) (rr_segment r)"
  let ?ls = "getLatestReserves rows"
  have segs: "CHR '':'' \<notin> set (rr_segment r)" if "r \<in> set ?ls" for r
    using that plain first_rows_subset [of "rev rows"] by (auto simp: getLatestReserves_def plain_codes_def list_all_iff)
  have "distinct (map ?key ?ls)"
    using first_rows_distinct [of "rev rows"] segs
    by (auto simp: getLatestReserves_def distinct_map inj_on_def reserve_id_def reserve_key_eq)
  from foldl_map_set [OF this, of snapshot_of "[]" "reserve_key c seg"]
  have "map_of (getLatestReservesBySegment rows) (reserve_key c seg) =
      map_option snapshot_of (find (\<lambda>r. ?key r = reserve_key c seg) ?ls)"
    by (simp add: getLatestReservesBySegment_def split: option.splits)
  also have "find (\<lambda>r. ?key r = reserve_key c seg) ?ls = find (\<lambda>r. reserve_id r = (c, seg)) ?ls"
    by (rule find_cong') (simp add: segs seg reserve_key_eq reserve_id_def)
  also have "\<dots> = latest_reserve c seg rows"
    by (simp add: getLatestReserves_def first_rows_find latest_reserve_def) (simp add: reserve_id_def)
  finally show ?thesis .
qed

text \<open>The currencies of the transactions that the aggregation counts.\<close>

definition tx_currencies :: "txn list \<Rightarrow> string set" where
  "tx_currencies txs =
     (\<lambda>t. case local_currency t of None \<Rightarrow> [] | Some c \<Rightarrow> c) ` set (take TREASURY_TX_CAP (filter counted_tx txs)) - {[]}"

lemma aggregate_tx_keys:
  "fst ` set (aggregate_tx m t) = fst ` set m \<union> ({case local_currency t of None \<Rightarrow> [] | Some c \<Rightarrow> c} - {[]})"
  by (auto simp: aggregate_tx_def split: option.split)

lemma aggregate_keys: "fst ` set (aggregateTransactionsBySegment txs) = tx_currencies txs"
proof -
  have "fst ` set (foldl aggregate_tx m ts) =
      fst ` set m \<union> ((\<lambda>t. case local_currency t of None \<Rightarrow> [] | Some c \<Rightarrow> c) ` set ts - {[]})" for m ts
    by (induction ts arbitrary: m) (auto simp: aggregate_tx_keys)
  then show ?thesis by (simp add: aggregateTransactionsBySegment_def tx_currencies_def)
qed

lemma treasury_currencies_set:
  assumes "plain_codes rows"
  shows "set (treasury_currencies (getLatestReservesBySegment rows) (aggregateTransactionsBySegment txs)) =
    rr_currency ` set rows \<union> tx_currencies txs"
proof -
  have "fst ` set (getLatestReservesBySegment rows) = (\<lambda>r. reserve_key (rr_currency r) (rr_segment r)) ` set (getLatestReserves rows)"
    by (simp add: getLatestReservesBySegment_def foldl_map_set_keys)
  moreover have "hd (split_on CHR '':'' (reserve_key (rr_currency r) (rr_segment r))) = rr_currency r"
    if "r \<in> set (getLatestReserves rows)" for r
    using that assms first_rows_subset [of "rev rows"]
    by (auto simp: getLatestReserves_def plain_codes_def list_all_iff key_currency)
  ultimately have "(\<lambda>k. hd (split_on CHR '':'' k)) ` fst ` set (getLatestReservesBySegment rows) = rr_currency ` set (getLatestReserves rows)"
    by (auto simp: image_image)
  also have "\<dots> = fst ` reserve_id ` set (getLatestReserves rows)" by (auto simp: image_image reserve_id_def)
  also have "\<dots> = fst ` reserve_id ` set rows" by (simp add: getLatestReserves_def first_rows_keys)
  also have "\<dots> = rr_currency ` set rows" by (auto simp: image_image reserve_id_def)
  finally show ?thesis
    by (simp add: treasury_currencies_def aggregate_keys image_image case_prod_unfold)
qed

section \<open>Properties\<close>

definition segment_of :: "int \<Rightarrow> treasury_db \<Rightarrow> string \<Rightarrow> string \<Rightarrow> treasury_segment" where
  "segment_of now db c seg =
     buildTreasurySegment now (td_rates db) c (map_option snapshot_of (latest_reserve c seg (td_reserves db)))"

lemma segments_plain [simp]: "CHR '':'' \<notin> set SEGMENT_TRANSACTIONS" "CHR '':'' \<notin> set SEGMENT_INVESTMENT_SAVINGS"
  by (simp_all add: SEGMENT_TRANSACTIONS_def SEGMENT_INVESTMENT_SAVINGS_def)

text \<open>
  C31. The treasury lists every currency that has a reserve or a counted transaction exactly once, in the order of the
  codes, and for each of them both segments hold the latest snapshot of the currency, whatever the order in which
  snapshots and transactions were written: the join through composed string keys is a lookup of the latest row.
\<close>

theorem treasury_joins_latest_reserves:
  assumes "getEnterpriseTreasury now tolerance db = Some r" and "plain_codes (td_reserves db)"
  shows "map en_currency (tr_by_currency r) =
      sorted_list_of_set (rr_currency ` set (td_reserves db) \<union> tx_currencies (td_txs db)) \<and>
    list_all (\<lambda>en. en_transactions en = segment_of now db (en_currency en) SEGMENT_TRANSACTIONS \<and>
      en_savings en = segment_of now db (en_currency en) SEGMENT_INVESTMENT_SAVINGS) (tr_by_currency r)"
proof -
  let ?reserves = "getLatestReservesBySegment (td_reserves db)"
  let ?cs = "treasury_currencies ?reserves (aggregateTransactionsBySegment (td_txs db))"
  have r: "tr_by_currency r = map (build_entry now (td_rates db) ?reserves) ?cs"
    using assms(1) by (auto simp: getEnterpriseTreasury_def Let_def split: if_splits)
  have "?cs = sorted_list_of_set (set ?cs)" by (simp add: treasury_currencies_def flip: sorted_list_of_set_sort_remdups)
  moreover have "map en_currency (tr_by_currency r) = ?cs" by (simp add: r build_entry_def Let_def comp_def)
  ultimately show ?thesis
    using assms(2) by (simp add: r treasury_currencies_set list_all_iff build_entry_def Let_def latest_by_segment segment_of_def)
qed

definition sample_treasury :: treasury_db where
  "sample_treasury =
     (let row = (\<lambda>c seg v. \<lparr>rr_currency = c, rr_segment = seg, rr_target = 0, rr_actual = 0, rr_amount = v, rr_value = v\<rparr>) in
      \<lparr>td_reserves = [row ''NGN'' ''transactions'' 5, row ''KES'' ''investment_savings'' 3, row ''NGN'' ''transactions'' 7],
       td_txs = [(new_txn TMint Completed 0)\<lparr>local_currency := Some ''ZAR'', usdc_amount := Some 9\<rparr>],
       td_rates = [\<lparr>or_currency = ''NGN'', or_rate = 2, or_at = 0\<rparr>], td_up = True\<rparr>)"

theorem treasury_joins_latest_reserves_witness:
  "\<exists>r. getEnterpriseTreasury 1000 1 sample_treasury = Some r \<and> map en_currency (tr_by_currency r) = [''KES'', ''NGN'', ''ZAR'']"
proof -
  obtain r where r: "getEnterpriseTreasury 1000 1 sample_treasury = Some r"
    by (auto simp: getEnterpriseTreasury_def sample_treasury_def Let_def)
  have plain: "plain_codes (td_reserves sample_treasury)" by (simp add: plain_codes_def sample_treasury_def Let_def)
  have "sorted_list_of_set (rr_currency ` set (td_reserves sample_treasury) \<union> tx_currencies (td_txs sample_treasury)) =
      sort (remdups [''NGN'', ''KES'', ''NGN'', ''ZAR''])"
    unfolding sorted_list_of_set_sort_remdups [symmetric]
    by (simp add: sample_treasury_def Let_def tx_currencies_def counted_tx_def new_txn_def TREASURY_TX_CAP_def insert_commute)
  also have "\<dots> = [''KES'', ''NGN'', ''ZAR'']" by code_simp
  finally show ?thesis using treasury_joins_latest_reserves [OF r plain] r by auto
qed

lemma newest_rate_None [simp]: "newest_rate rows = None \<longleftrightarrow> rows = []"
proof -
  have "foldl (\<lambda>best r. case best of None \<Rightarrow> Some r | Some b \<Rightarrow> if or_at b < or_at r then Some r else Some b) (Some b) ys \<noteq> None" for b ys
    by (induction ys arbitrary: b) auto
  then show ?thesis by (cases rows) (simp_all add: newest_rate_def)
qed

text \<open>
  The fallback to a rate of the last seven days is never taken: it is tried only where the currency has no rate
  at all. A rate of any age is reported as the current one.
\<close>

theorem stale_rate_reported_current:
  "getFxRateWithFallback now rates c =
     map_option (\<lambda>r. (decimalToNumber (Some (or_rate r)), or_at r, FxCurrent)) (newest_rate (filter (\<lambda>r. or_currency r = c) rates))"
proof (cases "newest_rate (filter (\<lambda>r. or_currency r = c) rates)")
  case None
  then have "filter (\<lambda>r. or_currency r = c \<and> now - DAYS_FOR_FX_FALLBACK * day_ms \<le> or_at r) rates = []"
    by (auto simp: filter_empty_conv)
  then show ?thesis using None by (simp add: getFxRateWithFallback_def del: newest_rate_None) (simp add: newest_rate_def)
qed (simp add: getFxRateWithFallback_def)

lemma float_sum_zeros: "list_all (\<lambda>x. x = 0) xs \<Longrightarrow> float_sum xs = 0"
  unfolding float_sum_def by (induction xs rule: rev_induct) (simp_all add: list_all_iff)

text \<open>
  Without a single reserve the treasury is reported healthy, whatever has been minted: the discrepancy is taken
  relative to the ledger, and counts as none when the ledger is empty.
\<close>

theorem unbacked_supply_is_healthy:
  assumes "td_up db" and "td_reserves db = []"
  shows "th_healthy (getTreasuryHealth now db) \<and> th_balance (getTreasuryHealth now db) = 0"
proof -
  have "getLatestReservesBySegment (td_reserves db) = []" using assms by (simp add: getLatestReservesBySegment_def getLatestReserves_def)
  then have "float_sum (map en_value (map (build_entry now (td_rates db) (getLatestReservesBySegment (td_reserves db))) cs)) = 0" for cs
    by (intro float_sum_zeros) (simp add: list_all_iff build_entry_def buildTreasurySegment_def Let_def)
  then show ?thesis using assms
    by (simp add: getTreasuryHealth_def getEnterpriseTreasury_def Let_def reconcileTotals_def DEFAULT_TOLERANCE_PERCENTAGE_def
        f64.rnd_ge_0 del: map_map)
qed

definition unbacked_db :: treasury_db where
  "unbacked_db = sample_treasury\<lparr>td_reserves := []\<rparr>"

theorem unbacked_supply_is_healthy_witness:
  "th_healthy (getTreasuryHealth 1000 unbacked_db) \<and> calculated_total (aggregateTransactionsBySegment (td_txs unbacked_db)) = 9"
proof
  show "th_healthy (getTreasuryHealth 1000 unbacked_db)"
    using unbacked_supply_is_healthy [of unbacked_db 1000] by (simp add: unbacked_db_def sample_treasury_def Let_def)
  show "calculated_total (aggregateTransactionsBySegment (td_txs unbacked_db)) = 9"
    by (simp add: calculated_total_def aggregateTransactionsBySegment_def unbacked_db_def sample_treasury_def Let_def new_txn_def
        counted_tx_def TREASURY_TX_CAP_def aggregate_tx_def add_to_aggregate_def no_transactions_def map_set_def decimalToNumber_def
        f64.rnd_numeral_le)
qed

end
