(* ===== verification/DriftAudit.thy ===== *)
theory DriftAudit
  imports Treasury JobLock Notifications
begin

text \<open>
  Weekly audits of the basket weights: \<open>src/services/reserve/WeightDriftAuditService.ts\<close>,
  \<open>src/controllers/weightDriftAuditController.ts\<close> and \<open>src/jobs/weightDriftAuditJob.ts\<close>. The basket and the reserves
  come from \<open>Basket\<close> and \<open>Reserves\<close>; the uuid syntax of the database is a parameter. Log texts and the text of the
  mail are left out.
\<close>

section \<open>The report\<close>

datatype drift_error =
    DriftBasket basket_error | NotNormalized | ToFixedOfString | UndefinedDecimal | DriftDatabase | AuditNotFound
  | CannotApprove | CannotReject | ReasonRequired | ReferenceMissing string

definition DRIFT_THRESHOLD_PCT :: rat where
  "DRIFT_THRESHOLD_PCT = 2"

text \<open>
  The sum starts at the number 0 and adds decimals with \<open>+\<close>, which for an object is the addition of its
  \<open>valueOf\<close>, a string: from the first weight on the sum is a concatenation. A weight is the decimal of a double
  and prints as the double does.
\<close>

datatype js_total = NumTotal rat | StrTotal string

fun add_weight :: "js_total \<Rightarrow> rat \<Rightarrow> js_total" where
  "add_weight (NumTotal q) w = StrTotal (js_num_str q @ js_num_str (f64 w))"
| "add_weight (StrTotal s) w = StrTotal (s @ js_num_str (f64 w))"

definition policy_sum :: "rat list \<Rightarrow> js_total" where
  "policy_sum ws = foldl add_weight (NumTotal 0) ws"

definition far_from_100 :: "js_total \<Rightarrow> bool" where
  "far_from_100 t =
     (case (case t of NumTotal q \<Rightarrow> Fin q | StrTotal s \<Rightarrow> js_number s) of
        Fin q \<Rightarrow> f64 (1 / 10) < \<bar>f64 (q - 100)\<bar>
      | NaN \<Rightarrow> False
      | _ \<Rightarrow> True)"

datatype recommendation = NoAction | Overweight rat | Underweight rat

text \<open>An argument that is left out of a call is \<open>undefined\<close>, of which there is no decimal.\<close>

definition generateRecommendation :: "string \<Rightarrow> rat option \<Rightarrow> rat option \<Rightarrow> rat option \<Rightarrow> drift_error + recommendation" where
  "generateRecommendation currency policyWeight actualWeight driftPercent =
     (case (driftPercent, policyWeight) of
        (Some drift, Some policy) \<Rightarrow>
          Inr (if \<bar>drift\<bar> \<le> 1 / 2 then NoAction else if 0 < drift then Overweight drift else Underweight \<bar>drift\<bar>)
      | _ \<Rightarrow> Inl UndefinedDecimal)"

record drift_entry =
  de_currency :: string
  de_policy :: rat
  de_actual :: rat
  de_drift :: rat
  de_exceeds :: bool
  de_recommendation :: recommendation

definition drift_entry :: "(string \<times> rat) list \<Rightarrow> string \<times> rat \<Rightarrow> drift_error + drift_entry" where
  "drift_entry actual = (\<lambda>(c, policy).
     let a = (case map_of actual c of None \<Rightarrow> 0 | Some w \<Rightarrow> w); drift = prisma_dec (a - policy) in
     bindR (generateRecommendation c (Some policy) (Some drift) None) (\<lambda>rec.
       Inr \<lparr>de_currency = c, de_policy = policy, de_actual = a, de_drift = drift,
         de_exceeds = (DRIFT_THRESHOLD_PCT < \<bar>drift\<bar>), de_recommendation = rec\<rparr>))"

fun drift_entries :: "(string \<times> rat) list \<Rightarrow> (string \<times> rat) list \<Rightarrow> drift_error + drift_entry list" where
  "drift_entries actual [] = Inr []"
| "drift_entries actual (p # ps) =
     bindR (drift_entry actual p) (\<lambda>en. bindR (drift_entries actual ps) (\<lambda>es. Inr (en # es)))"

record drift_report =
  dr_start :: int
  dr_end :: int
  dr_currencies :: nat
  dr_exceeding :: nat
  dr_max :: rat
  dr_entries :: "drift_entry list"

text \<open>The period goes back seven calendar days; the zone of the server is taken to be UTC.\<close>

definition calculateDriftReport ::
  "tracker_env \<Rightarrow> basket_row list \<Rightarrow> reserve_row list \<Rightarrow> txdb \<Rightarrow> int \<Rightarrow> drift_error + drift_report" where
  "calculateDriftReport e table rows db now =
     bindR (map_err DriftBasket (getCurrentBasket table)) (\<lambda>basket.
       let policy = foldl (\<lambda>m (c, w). map_set c (dec_of_num w) m) [] basket;
           t = policy_sum (map snd policy) in
       if far_from_100 t then Inl (case t of NumTotal _ \<Rightarrow> NotNormalized | StrTotal _ \<Rightarrow> ToFixedOfString)
       else
         bindR (map_err DriftBasket (getReserveStatus e table SEGMENT_TRANSACTIONS rows db)) (\<lambda>health.
           let actual = foldl (\<lambda>m s. map_set (ss_currency s) (ss_actual s) m) [] (rh_currencies health) in
           bindR (drift_entries actual policy) (\<lambda>es.
             Inr \<lparr>dr_start = now - 7 * day_ms, dr_end = now, dr_currencies = card (set (map fst policy @ map fst actual)),
               dr_exceeding = length (filter de_exceeds es), dr_max = Max (set (0 # map (\<lambda>en. \<bar>de_drift en\<bar>) es)),
               dr_entries = es\<rparr>)))"

section \<open>Audits\<close>

datatype audit_status = APending | AApproved | ARejected

record drift_audit =
  da_id :: string
  da_report :: drift_report
  da_status :: audit_status
  da_created_by :: "string option"
  da_approved_by :: "string option"
  da_notes :: "string option"
  da_approved_at :: "int option"

datatype drift_log = AuditCreated string string | AuditApproved string string | AuditRejected string string

record audits =
  ad_rows :: "drift_audit list"      \<comment> \<open>oldest first\<close>
  ad_log :: "drift_log list"

record drift_env =
  dv_uuid :: "string \<Rightarrow> bool"           \<comment> \<open>what a uuid column accepts\<close>
  dv_columns :: "drift_report \<Rightarrow> bool"  \<comment> \<open>the figures fit their columns\<close>
  dv_tracker :: tracker_env
  dv_basket :: "basket_row list"
  dv_reserves :: "reserve_row list"
  dv_db :: txdb

definition find_audit :: "string \<Rightarrow> audits \<Rightarrow> drift_audit option" where
  "find_audit i st = find (\<lambda>a. da_id a = i) (ad_rows st)"

definition update_audit :: "string \<Rightarrow> (drift_audit \<Rightarrow> drift_audit) \<Rightarrow> audits \<Rightarrow> audits" where
  "update_audit i f st = st\<lparr>ad_rows := map (\<lambda>a. if da_id a = i then f a else a) (ad_rows st)\<rparr>"

text \<open>\<open>fresh\<close> is the id the database generates.\<close>

definition createAudit :: "drift_env \<Rightarrow> string \<Rightarrow> drift_report \<Rightarrow> string \<Rightarrow> audits \<Rightarrow> (drift_error + drift_audit) \<times> audits" where
  "createAudit e fresh report createdBy st =
     (if \<not> dv_uuid e createdBy \<or> \<not> dv_columns e report then (Inl DriftDatabase, st)
      else
        (let a = \<lparr>da_id = fresh, da_report = report, da_status = APending, da_created_by = Some createdBy,
                  da_approved_by = None, da_notes = None, da_approved_at = None\<rparr> in
         (Inr a, st\<lparr>ad_rows := ad_rows st @ [a], ad_log := ad_log st @ [AuditCreated fresh createdBy]\<rparr>)))"

text \<open>A decision reads the audit and checks its status, then updates it in a transaction that does not look again.\<close>

definition read_pending :: "drift_error \<Rightarrow> string \<Rightarrow> audits \<Rightarrow> drift_error + drift_audit" where
  "read_pending refused i st =
     (case find_audit i st of
        None \<Rightarrow> Inl AuditNotFound
      | Some a \<Rightarrow> if da_status a \<noteq> APending then Inl refused else Inr a)"

definition write_approval :: "drift_env \<Rightarrow> string \<Rightarrow> string \<Rightarrow> string option \<Rightarrow> int \<Rightarrow> audits \<Rightarrow> (drift_error + unit) \<times> audits" where
  "write_approval e i approvedBy notes now st =
     (if find_audit i st = None \<or> \<not> dv_uuid e approvedBy then (Inl DriftDatabase, st)
      else
        (Inr (),
         (update_audit i (\<lambda>a. a\<lparr>da_status := AApproved, da_approved_by := Some approvedBy,
              da_notes := (case notes of None \<Rightarrow> da_notes a | Some n \<Rightarrow> Some n), da_approved_at := Some now\<rparr>) st)
           \<lparr>ad_log := ad_log st @ [AuditApproved i approvedBy]\<rparr>))"

definition write_rejection :: "string \<Rightarrow> string \<Rightarrow> string \<Rightarrow> audits \<Rightarrow> (drift_error + unit) \<times> audits" where
  "write_rejection i rejectedBy reason st =
     (if find_audit i st = None then (Inl DriftDatabase, st)
      else
        (Inr (),
         (update_audit i (\<lambda>a. a\<lparr>da_status := ARejected, da_notes := Some reason\<rparr>) st)
           \<lparr>ad_log := ad_log st @ [AuditRejected i rejectedBy]\<rparr>))"

definition approveAudit :: "drift_env \<Rightarrow> string \<Rightarrow> string \<Rightarrow> string option \<Rightarrow> int \<Rightarrow> audits \<Rightarrow> (drift_error + unit) \<times> audits" where
  "approveAudit e i approvedBy notes now st =
     bail (read_pending CannotApprove i st) st (\<lambda>_. write_approval e i approvedBy notes now st)"

definition rejectAudit :: "string \<Rightarrow> string \<Rightarrow> string \<Rightarrow> audits \<Rightarrow> (drift_error + unit) \<times> audits" where
  "rejectAudit i rejectedBy reason st =
     bail (read_pending CannotReject i st) st (\<lambda>_. write_rejection i rejectedBy reason st)"

definition getAudit :: "string \<Rightarrow> audits \<Rightarrow> drift_error + drift_audit" where
  "getAudit i st = (case find_audit i st of None \<Rightarrow> Inl AuditNotFound | Some a \<Rightarrow> Inr a)"

definition listAudits :: "audit_status option \<Rightarrow> nat \<Rightarrow> nat \<Rightarrow> audits \<Rightarrow> drift_audit list \<times> nat" where
  "listAudits status n offset st =
     (let found = filter (\<lambda>a. case status of None \<Rightarrow> True | Some s \<Rightarrow> da_status a = s) (rev (ad_rows st)) in
      (take n (drop offset found), length found))"

section \<open>The controller\<close>

definition admin_of :: "string option \<Rightarrow> string" where
  "admin_of adminId = (case adminId of Some a \<Rightarrow> (if a = [] then ''system'' else a) | None \<Rightarrow> ''system'')"

definition createWeightDriftAudit :: "drift_env \<Rightarrow> string \<Rightarrow> string option \<Rightarrow> int \<Rightarrow> audits \<Rightarrow> (drift_error + drift_audit) \<times> audits" where
  "createWeightDriftAudit e fresh adminId now st =
     bail (calculateDriftReport (dv_tracker e) (dv_basket e) (dv_reserves e) (dv_db e) now) st
       (\<lambda>report. createAudit e fresh report (admin_of adminId) st)"

definition approveWeightDriftAudit ::
  "drift_env \<Rightarrow> string \<Rightarrow> string option \<Rightarrow> string option \<Rightarrow> int \<Rightarrow> audits \<Rightarrow> (drift_error + unit) \<times> audits" where
  "approveWeightDriftAudit e i adminId notes now st = approveAudit e i (admin_of adminId) notes now st"

definition rejectWeightDriftAudit :: "string \<Rightarrow> string option \<Rightarrow> string option \<Rightarrow> audits \<Rightarrow> (drift_error + unit) \<times> audits" where
  "rejectWeightDriftAudit i adminId reason st =
     (case reason of
        None \<Rightarrow> (Inl ReasonRequired, st)
      | Some r \<Rightarrow> if r = [] then (Inl ReasonRequired, st) else rejectAudit i (admin_of adminId) r st)"

section \<open>The job\<close>

definition MAX_TIMEOUT_MS :: int where
  "MAX_TIMEOUT_MS = 2147483647"

definition audit_lock_ttl_s :: int where
  "audit_lock_ttl_s = (6 * 24 + 22) * 60 * 60"

text \<open>Days since the epoch; the first one was a Thursday.\<close>

definition utc_day :: "int \<Rightarrow> int" where
  "utc_day t = (t div day_ms + 4) mod 7"

definition getNextMondayUtc :: "int \<Rightarrow> int" where
  "getNextMondayUtc now =
     (let dow = utc_day now;
          days = (if dow = 1 then 7 else let d = (8 - dow) mod 7 in if d = 0 then 7 else d) in
      (now div day_ms + days) * day_ms - now)"

text \<open>The timeouts a long sleep sets one after the other, while no stop is requested.\<close>

function longSleep :: "int \<Rightarrow> int list" where
  "longSleep ms = (if ms \<le> 0 then [] else (let d = min ms MAX_TIMEOUT_MS in d # longSleep (ms - d)))"
  by auto
termination by (relation "measure nat") (auto simp: MAX_TIMEOUT_MS_def)

declare longSleep.simps [simp del]

definition parseAlertRecipients :: "string option \<Rightarrow> string list" where
  "parseAlertRecipients raw =
     (case raw of
        None \<Rightarrow> []
      | Some s \<Rightarrow> if s = [] then [] else filter (\<lambda>a. a \<noteq> []) (map trim (split_on CHR '','' s)))"

fun join_addresses :: "string list \<Rightarrow> string" where
  "join_addresses [] = []"
| "join_addresses [a] = a"
| "join_addresses (a # b # as) = a @ CHR '','' # join_addresses (b # as)"

text \<open>The names the module of the job imports; the two functions of the lock are not among them.\<close>

definition audit_job_imports :: "string list" where
  "audit_job_imports = [''logger'', ''weightDriftAuditService'', ''sendEmail'', ''config'', ''Decimal'']"

record audit_world =
  aw_locks :: lock_table
  aw_audits :: audits
  aw_mails :: "string list"         \<comment> \<open>recipients of the reports sent\<close>

definition runWeightDriftAuditOnce ::
  "drift_env \<Rightarrow> string \<Rightarrow> string option \<Rightarrow> int \<Rightarrow> audit_world \<Rightarrow> (drift_error + unit) \<times> audit_world" where
  "runWeightDriftAuditOnce e fresh alertEmail now w =
     (if ''acquireJobLock'' \<notin> set audit_job_imports then (Inl (ReferenceMissing ''acquireJobLock''), w)
      else
        (case run_locked True True ''weight-drift-audit'' audit_lock_ttl_s now (\<lambda>w.
            case createWeightDriftAudit e fresh None now (aw_audits w) of
              (Inl err, st) \<Rightarrow> w\<lparr>aw_audits := st\<rparr>
            | (Inr a, st) \<Rightarrow>
                (let to = parseAlertRecipients alertEmail in
                 w\<lparr>aw_audits := st, aw_mails := aw_mails w @ (if to = [] then [] else [join_addresses to])\<rparr>))
          (aw_locks w, w) of (t, w1) \<Rightarrow> (Inr (), w1\<lparr>aw_locks := t\<rparr>)))"

text \<open>One turn of the scheduler: how long it sleeps and what it leaves behind.\<close>

definition scheduler_turn ::
  "drift_env \<Rightarrow> string \<Rightarrow> string option \<Rightarrow> bool \<Rightarrow> int \<Rightarrow> audit_world \<Rightarrow> int \<times> audit_world" where
  "scheduler_turn e fresh alertEmail run_on_startup now w =
     (case (if run_on_startup then runWeightDriftAuditOnce e fresh alertEmail now w else (Inr (), w)) of
        (Inl err, w1) \<Rightarrow> (5 * 60 * 1000, w1)
      | (Inr _, w1) \<Rightarrow>
          (let d = getNextMondayUtc now in
           case runWeightDriftAuditOnce e fresh alertEmail (now + d) w1 of
             (Inl err, w2) \<Rightarrow> (d + 5 * 60 * 1000, w2)
           | (Inr _, w2) \<Rightarrow> (d, w2)))"

section \<open>Properties of reports and audits\<close>

lemma drift_entry_fails: "drift_entry actual p = Inl UndefinedDecimal"
  by (cases p) (simp add: drift_entry_def generateRecommendation_def Let_def)

text \<open>
  No report is ever produced: the sum of the weights is a string, on which the message of the failed check calls
  \<open>toFixed\<close>, and where the check passes, the recommendation of the first currency is computed from an argument that the
  call leaves out.
\<close>

theorem drift_report_always_fails:
  "\<exists>err. calculateDriftReport e table rows db now = Inl err"
proof (cases "getCurrentBasket table")
  case (Inr basket)
  let ?policy = "foldl (\<lambda>m (c, w). map_set c (dec_of_num w) m) [] basket"
  show ?thesis
  proof (cases ?policy)
    case Nil
    have "f64 (1 / 10) < \<bar>f64 (- 100)\<bar>"
      using f64.rnd_le_1 [of "1 / 10"] f64.rnd_minus [of 100] by (simp add: f64.rnd_numeral_le)
    then have "far_from_100 (policy_sum (map snd ?policy))" by (simp add: Nil far_from_100_def policy_sum_def)
    then show ?thesis by (simp add: calculateDriftReport_def Inr Let_def)
  next
    case (Cons p ps)
    then have "drift_entries actual ?policy = Inl UndefinedDecimal" for actual by (simp add: drift_entry_fails)
    then show ?thesis
      by (cases "getReserveStatus e table SEGMENT_TRANSACTIONS rows db") (simp_all add: calculateDriftReport_def Inr Let_def)
  qed
qed (simp add: calculateDriftReport_def)

text \<open>Requests on the audits; audits are also stored directly, whatever report there is.\<close>

datatype drift_op =
    CreateOp string "string option" int
  | StoreOp string drift_report string
  | ApproveOp string "string option" "string option" int
  | RejectOp string "string option" "string option"

definition drift_op :: "drift_env \<Rightarrow> drift_op \<Rightarrow> audits \<Rightarrow> audits" where
  "drift_op e op st =
     (case op of
        CreateOp fresh admin now \<Rightarrow> snd (createWeightDriftAudit e fresh admin now st)
      | StoreOp fresh report who \<Rightarrow> snd (createAudit e fresh report who st)
      | ApproveOp i admin notes now \<Rightarrow> snd (approveWeightDriftAudit e i admin notes now st)
      | RejectOp i admin reason \<Rightarrow> snd (rejectWeightDriftAudit i admin reason st))"

lemma create_keeps: "snd (createWeightDriftAudit e fresh admin now st) = st"
  using drift_report_always_fails [of "dv_tracker e" "dv_basket e" "dv_reserves e" "dv_db e" now]
  by (auto simp: createWeightDriftAudit_def)

lemma find_update:
  assumes "find_audit j st = Some a" and "\<And>x. da_id (f x) = da_id x"
  shows "find_audit j (update_audit i f st) = Some (if i = j then f a else a)"
proof -
  have "find (\<lambda>a. da_id a = j) xs = Some a \<Longrightarrow>
      find (\<lambda>a. da_id a = j) (map (\<lambda>a. if da_id a = i then f a else a) xs) = Some (if i = j then f a else a)" for xs
    by (induction xs) (auto simp: assms(2) split: if_splits)
  then show ?thesis using assms(1) by (simp add: find_audit_def update_audit_def)
qed

lemma find_audit_log [simp]: "find_audit j (st\<lparr>ad_log := l\<rparr>) = find_audit j st"
  by (simp add: find_audit_def)

lemma drift_op_keeps_decided:
  assumes "find_audit j st = Some a" and "da_status a \<noteq> APending"
  shows "find_audit j (drift_op e op st) = Some a"
proof (cases op)
  case (CreateOp fresh admin now)
  then show ?thesis using assms by (simp add: drift_op_def create_keeps)
next
  case (StoreOp fresh report who)
  then show ?thesis using assms
    by (simp add: drift_op_def createAudit_def Let_def find_audit_def find_append)
next
  case (ApproveOp i admin remark now)
  show ?thesis
  proof (cases "i = j")
    case True
    then show ?thesis using assms ApproveOp
      by (simp add: drift_op_def approveWeightDriftAudit_def approveAudit_def read_pending_def)
  next
    case False
    have "find_audit j (snd (write_approval e i who remark now st)) = Some a" for who
      using find_update [OF assms(1)] False assms(1) by (simp add: write_approval_def)
    then show ?thesis using assms ApproveOp
      by (simp add: drift_op_def approveWeightDriftAudit_def approveAudit_def split: bail_split)
  qed
next
  case (RejectOp i admin reason)
  show ?thesis
  proof (cases "i = j")
    case True
    then show ?thesis using assms RejectOp
      by (simp add: drift_op_def rejectWeightDriftAudit_def rejectAudit_def read_pending_def split: option.split)
  next
    case False
    have "find_audit j (snd (write_rejection i who r st)) = Some a" for who r
      using find_update [OF assms(1)] False assms(1) by (simp add: write_rejection_def)
    then show ?thesis using assms RejectOp
      by (simp add: drift_op_def rejectWeightDriftAudit_def rejectAudit_def split: bail_split option.split)
  qed
qed

text \<open>
  A decision on an audit is final over every sequence of requests that are handled one after the other: an approved
  or rejected audit keeps its status, approver and notes.
\<close>

theorem audit_decision_final:
  assumes "find_audit j st = Some a" and "da_status a \<noteq> APending"
  shows "find_audit j (fold (drift_op e) ops st) = Some a"
  using assms by (induction ops arbitrary: st) (simp_all add: drift_op_keeps_decided)

definition sample_audit :: "audit_status \<Rightarrow> drift_audit" where
  "sample_audit s =
     \<lparr>da_id = ''a1'', da_report = \<lparr>dr_start = 0, dr_end = 0, dr_currencies = 0, dr_exceeding = 0, dr_max = 0, dr_entries = []\<rparr>,
      da_status = s, da_created_by = Some ''u1'', da_approved_by = None, da_notes = None, da_approved_at = None\<rparr>"

theorem audit_decision_final_witness:
  "find_audit ''a1'' (fold (drift_op e) [ApproveOp ''a1'' (Some ''u1'') None 5, RejectOp ''a1'' None (Some ''no'')]
     \<lparr>ad_rows = [sample_audit ARejected], ad_log = []\<rparr>) = Some (sample_audit ARejected)"
  by (rule audit_decision_final) (simp_all add: find_audit_def sample_audit_def)

text \<open>
  Two decisions that are handled at the same time both succeed: each has read the audit as pending, and the update does
  not look at the status again. The approval that is written last turns a rejected audit into an approved one that still
  carries the reason of the rejection.
\<close>

theorem simultaneous_decisions_both_succeed:
  assumes "find_audit i st = Some a" and "da_status a = APending" and "dv_uuid e approver"
  shows "read_pending CannotReject i st = Inr a \<and> read_pending CannotApprove i st = Inr a \<and>
    (case write_rejection i rejecter reason st of
       (r1, st1) \<Rightarrow>
         (case write_approval e i approver None now st1 of
            (r2, st2) \<Rightarrow> r1 = Inr () \<and> r2 = Inr () \<and>
              (\<exists>b. find_audit i st2 = Some b \<and> da_status b = AApproved \<and> da_notes b = Some reason)))"
proof -
  let ?st = "(update_audit i (\<lambda>a. a\<lparr>da_status := ARejected, da_notes := Some reason\<rparr>) st)"
  have f: "find_audit i ?st = Some (a\<lparr>da_status := ARejected, da_notes := Some reason\<rparr>)"
    using find_update [OF assms(1), of "\<lambda>a. a\<lparr>da_status := ARejected, da_notes := Some reason\<rparr>" i] by simp
  then show ?thesis using assms
    by (simp add: read_pending_def write_rejection_def write_approval_def find_update [where f = "da_status_update _"]
        find_update)
qed

definition sample_drift_env :: drift_env where
  "sample_drift_env =
     \<lparr>dv_uuid = (\<lambda>s. s = ''u1''), dv_columns = (\<lambda>r. True), dv_tracker = even_world, dv_basket = [], dv_reserves = [],
      dv_db = \<lparr>tx_rows = [], tx_next = 0\<rparr>\<rparr>"

theorem simultaneous_decisions_both_succeed_witness:
  "\<exists>b. find_audit ''a1'' (snd (write_approval sample_drift_env ''a1'' ''u1'' None 9
       (snd (write_rejection ''a1'' ''u2'' ''bad data'' \<lparr>ad_rows = [sample_audit APending], ad_log = []\<rparr>)))) = Some b \<and>
     da_status b = AApproved \<and> da_notes b = Some ''bad data''"
proof -
  have "find_audit ''a1'' \<lparr>ad_rows = [sample_audit APending], ad_log = []\<rparr> = Some (sample_audit APending)"
    "da_status (sample_audit APending) = APending" "dv_uuid sample_drift_env ''u1''"
    by (simp_all add: find_audit_def sample_audit_def sample_drift_env_def)
  from simultaneous_decisions_both_succeed [OF this, where rejecter = "''u2''" and reason = "''bad data''" and now = 9]
  show ?thesis by (auto split: prod.splits)
qed

text \<open>The administrator of a deployment with a single key is no uuid, so none of the decisions of that key is stored.\<close>

lemma default_admin_cannot_approve:
  assumes "\<not> dv_uuid e ''default_admin''"
  shows "snd (approveWeightDriftAudit e i (Some ''default_admin'') notes now st) = st"
  using assms
  by (auto simp: approveWeightDriftAudit_def approveAudit_def admin_of_def write_approval_def split: bail_split)

section \<open>Properties of the job\<close>

lemma day_pos [simp]: "0 < day_ms"
  by (simp add: day_ms_def)

text \<open>
  The scheduler sleeps until the first instant of a Monday in UTC, never for no time at all and never longer than a
  week, from whatever instant it starts.
\<close>

theorem next_run_is_monday_midnight:
  "0 < getNextMondayUtc now \<and> getNextMondayUtc now \<le> 7 * day_ms \<and>
   utc_day (now + getNextMondayUtc now) = 1 \<and> (now + getNextMondayUtc now) mod day_ms = 0"
proof -
  define day where "day = now div day_ms"
  define part where "part = now mod day_ms"
  define days where "days = getNextMondayUtc now + part"
  have now: "now = day * day_ms + part" by (simp add: day_def part_def)
  have part: "0 \<le> part" "part < day_ms" by (simp_all add: part_def)
  define n where "n = (if utc_day now = 1 then 7 else let d = (8 - utc_day now) mod 7 in if d = 0 then 7 else d)"
  have delay: "getNextMondayUtc now = n * day_ms - part"
    by (simp add: getNextMondayUtc_def n_def Let_def day_def part_def algebra_simps minus_mod_eq_mult_div [symmetric])
  have dow: "utc_day now = (day + 4) mod 7" by (simp add: utc_day_def day_def)
  have n: "1 \<le> n" "n \<le> 7" "(day + n + 4) mod 7 = 1"
  proof -
    define r where "r = (day + 4) mod 7"
    have "0 \<le> r" "r < 7" by (simp_all add: r_def)
    then consider "r = 0" | "r = 1" | "r = 2" | "r = 3" | "r = 4" | "r = 5" | "r = 6" by linarith
    then have "1 \<le> n \<and> n \<le> 7 \<and> (r + n) mod 7 = 1"
      unfolding n_def dow Let_def r_def [symmetric] by cases simp_all
    moreover have "(day + n + 4) mod 7 = (r + n) mod 7" unfolding r_def by (simp add: mod_simps ac_simps)
    ultimately show "1 \<le> n" "n \<le> 7" "(day + n + 4) mod 7 = 1" by simp_all
  qed
  have sum: "now + getNextMondayUtc now = (day + n) * day_ms" using now delay by (simp add: algebra_simps)
  have "1 * day_ms \<le> n * day_ms" "n * day_ms \<le> 7 * day_ms" using n by (simp_all add: day_ms_def)
  then have "part < n * day_ms" "n * day_ms - part \<le> 7 * day_ms" using part by linarith+
  then show ?thesis unfolding sum using delay part n(3) by (simp add: utc_day_def)
qed

text \<open>
  A long sleep is a finite sequence of timeouts that the timer accepts and that add up to it.
\<close>

theorem long_sleep_adds_up:
  "sum_list (longSleep ms) = max 0 ms \<and> list_all (\<lambda>d. 0 < d \<and> d \<le> MAX_TIMEOUT_MS) (longSleep ms)"
proof (induction ms rule: longSleep.induct)
  case (1 ms)
  show ?case
  proof (cases "ms \<le> 0")
    case True
    then show ?thesis by (simp add: longSleep.simps [of ms])
  next
    case False
    have "0 < MAX_TIMEOUT_MS" by (simp add: MAX_TIMEOUT_MS_def)
    then show ?thesis using False 1 [OF False refl] by (simp add: longSleep.simps [of ms] Let_def)
  qed
qed

lemma split_on_pieces: "w \<in> set (split_on c s) \<Longrightarrow> c \<notin> set w"
proof (induction s arbitrary: w)
  case (Cons x s)
  obtain v vs where vs: "split_on c s = v # vs" by (cases "split_on c s") simp_all
  then show ?case using Cons by (auto split: if_splits)
qed simp

lemma set_trim: "set (trim s) \<subseteq> set s"
  unfolding trim_def trim_end_def trim_start_def by (auto dest!: set_dropWhileD)

lemma split_join: "as \<noteq> [] \<Longrightarrow> list_all (\<lambda>a. CHR '','' \<notin> set a) as \<Longrightarrow> split_on CHR '','' (join_addresses as) = as"
  by (induction as rule: join_addresses.induct) (simp_all add: split_on_id split_on_append)

text \<open>
  The mail service reads back exactly the recipients that the job has read from its configuration, whatever the
  configured text is: commas and white space do not get lost or become recipients.
\<close>

theorem alert_recipients_read_back:
  "recipients_of (join_addresses (parseAlertRecipients raw)) = parseAlertRecipients raw"
proof -
  let ?as = "parseAlertRecipients raw"
  have as: "a \<noteq> [] \<and> trim a = a \<and> CHR '','' \<notin> set a" if "a \<in> set ?as" for a
    using that split_on_pieces set_trim
    by (auto simp: parseAlertRecipients_def split: option.splits if_splits) blast
  show ?thesis
  proof (cases "?as = []")
    case True
    then show ?thesis by (simp add: recipients_of_def trim_def trim_start_def trim_end_def)
  next
    case False
    then have "split_on CHR '','' (join_addresses ?as) = ?as" using as by (intro split_join) (auto simp: list_all_iff)
    moreover have "map trim ?as = ?as" using as by (simp add: map_idI)
    ultimately show ?thesis using as by (simp add: recipients_of_def filter_id_conv)
  qed
qed

end
