(* ===== verification/Conversion.thy ===== *)
theory Conversion
  imports Basket Queue Rates TxStore "HOL-Library.Product_Lexorder"
begin

text \<open>
  \<open>src/jobs/usdcConversionJob.ts\<close>: the dollars credited by a mint are distributed over the basket in units of
  10^-7 and converted currency by currency; the job runs under a claim on the transaction. The conversions of the
  providers and the outcomes of the database are functions of the attempt.
\<close>

section \<open>Distribution\<close>

definition USDC_CONVERSION_DECIMALS :: nat where
  "USDC_CONVERSION_DECIMALS = 7"

text \<open>\<open>BigInt(d.toFixed(0, ROUND_DOWN))\<close> and the division of big integers, which truncates.\<close>

definition whole :: "rat \<Rightarrow> int" where
  "whole q = (if q < 0 then - \<lfloor>- q\<rfloor> else \<lfloor>q\<rfloor>)"

definition big_div :: "int \<Rightarrow> int \<Rightarrow> int" where
  "big_div a b = (if a < 0 then - ((- a) div b) else a div b)"

record share =
  sh_currency :: string
  sh_weight :: rat
  sh_atomic :: int
  sh_decimal :: rat
  sh_amount :: rat

record share_part =
  sp_currency :: string
  sp_weight :: rat
  sp_int :: int
  sp_base :: int
  sp_rem :: int

definition weight_int :: "rat \<Rightarrow> int" where
  "weight_int w = whole (prisma_dec (dec_of_num w * 10000))"

definition share_part :: "int \<Rightarrow> int \<Rightarrow> string \<times> rat \<Rightarrow> share_part" where
  "share_part t tw = (\<lambda>(c, w).
     let p = t * weight_int w in
     \<lparr>sp_currency = c, sp_weight = w, sp_int = weight_int w, sp_base = big_div p tw, sp_rem = p - big_div p tw * tw\<rparr>)"

text \<open>Positions in the order of falling remainders, then falling weights; the sort is stable.\<close>

definition residual_order :: "share_part list \<Rightarrow> nat list" where
  "residual_order ps = sort_key (\<lambda>i. (- sp_rem (ps ! i), - sp_int (ps ! i))) [0..<length ps]"

definition add_unit :: "nat list \<Rightarrow> nat \<Rightarrow> int list \<Rightarrow> int list" where
  "add_unit order k xs = (let i = order ! (k mod length order) in xs[i := xs ! i + 1])"

definition final_units :: "int \<Rightarrow> share_part list \<Rightarrow> int list" where
  "final_units t ps =
     (let base = map sp_base ps; residual = t - sum_list base in
      if 0 < residual then fold (add_unit (residual_order ps)) [0..<nat residual] base else base)"

definition unit_share :: "nat \<Rightarrow> share_part \<times> int \<Rightarrow> share" where
  "unit_share decimals = (\<lambda>(p, u).
     let d = prisma_dec (of_int u / 10 ^ decimals) in
     \<lparr>sh_currency = sp_currency p, sh_weight = sp_weight p, sh_atomic = u, sh_decimal = d, sh_amount = f64 d\<rparr>)"

datatype conv_error = TotalWeight | ConvBasket basket_error | HistoryFailed | CompletionFailed

definition calculateBasketDistribution :: "jsnum \<Rightarrow> (string \<times> rat) list \<Rightarrow> nat \<Rightarrow> conv_error + share list" where
  "calculateBasketDistribution amount basket decimals =
     (if basket = [] then Inr []
      else
        (case amount of
           Fin q \<Rightarrow>
             if q \<le> 0 then Inr []
             else
               (let t = whole (prisma_dec (q * 10 ^ decimals)) in
                if t \<le> 0 then Inr []
                else
                  (case basket of
                     [(c, w)] \<Rightarrow> Inr [\<lparr>sh_currency = c, sh_weight = w, sh_atomic = t, sh_decimal = q, sh_amount = f64 q\<rparr>]
                   | _ \<Rightarrow>
                       (let tw = sum_list (map (\<lambda>(c, w). weight_int w) basket) in
                        if tw \<le> 0 then Inl TotalWeight
                        else
                          (let ps = map (share_part t tw) basket in
                           Inr (map (unit_share decimals) (zip ps (final_units t ps)))))))
         | _ \<Rightarrow> Inr []))"

section \<open>The job\<close>

record conversion_payload =
  cp_amount :: "jsnum option"         \<comment> \<open>\<open>new Decimal(usdcAmount)\<close>, None where it throws\<close>
  cp_recipient :: string
  cp_hash :: string
  cp_tx :: "nat option"

record conv_env =
  ce_basket :: "basket_row list"
  ce_convert :: "nat \<Rightarrow> string \<Rightarrow> bool"    \<comment> \<open>by attempt and currency\<close>
  ce_history :: "nat \<Rightarrow> string \<Rightarrow> bool"    \<comment> \<open>whether the database stores the entry\<close>
  ce_complete :: "nat \<Rightarrow> bool"
  ce_now :: int

record conv_state =
  cv_db :: txdb
  cv_bought :: "(string \<times> rat) list"    \<comment> \<open>conversions carried out by providers\<close>
  cv_history :: "(string \<times> rat) list"   \<comment> \<open>entries of the reserve history, in cents, with no transaction\<close>

definition convert_share :: "conv_env \<Rightarrow> nat \<Rightarrow> share \<Rightarrow> conv_state \<Rightarrow> (conv_error + unit) \<times> conv_state" where
  "convert_share e n s st =
     (if \<not> ce_convert e n (sh_currency s) then (Inr (), st)
      else
        (let st1 = st\<lparr>cv_bought := cv_bought st @ [(sh_currency s, sh_amount s)]\<rparr> in
         case decimal_column 20 2 (sh_decimal s) of
           None \<Rightarrow> (Inl HistoryFailed, st1)
         | Some v \<Rightarrow>
             if ce_history e n (sh_currency s) then (Inr (), st1\<lparr>cv_history := cv_history st1 @ [(sh_currency s, v)]\<rparr>)
             else (Inl HistoryFailed, st1)))"

fun convert_shares :: "conv_env \<Rightarrow> nat \<Rightarrow> share list \<Rightarrow> conv_state \<Rightarrow> (conv_error + unit) \<times> conv_state" where
  "convert_shares e n [] st = (Inr (), st)"
| "convert_shares e n (s # ss) st =
     (case convert_share e n s st of (Inl err, st1) \<Rightarrow> (Inl err, st1) | (Inr _, st1) \<Rightarrow> convert_shares e n ss st1)"

definition finish_conversion :: "conv_env \<Rightarrow> nat \<Rightarrow> conversion_payload \<Rightarrow> conv_state \<Rightarrow> (conv_error + unit) \<times> conv_state" where
  "finish_conversion e n p st =
     (case cp_tx p of
        None \<Rightarrow> (Inr (), st)
      | Some i \<Rightarrow>
          (case (if ce_complete e n then complete_tx i (cp_hash p) (ce_now e) (cv_db st) else None) of
             None \<Rightarrow> (Inl CompletionFailed, st)
           | Some db \<Rightarrow> (Inr (), st\<lparr>cv_db := db\<rparr>)))"

definition processUsdcConversion :: "conv_env \<Rightarrow> nat \<Rightarrow> conversion_payload \<Rightarrow> conv_state \<Rightarrow> (conv_error + unit) \<times> conv_state" where
  "processUsdcConversion e n p st =
     (case cp_amount p of
        Some (Fin q) \<Rightarrow>
          if q \<le> 0 then (Inr (), st)
          else
            (case getCurrentBasket (ce_basket e) of
               Inl err \<Rightarrow> (Inl (ConvBasket err), st)
             | Inr basket \<Rightarrow>
                 if basket = [] then (Inr (), st)
                 else
                   (case calculateBasketDistribution (Fin q) basket USDC_CONVERSION_DECIMALS of
                      Inl err \<Rightarrow> (Inl err, st)
                    | Inr shares \<Rightarrow>
                        (case convert_shares e n shares st of
                           (Inl err, st1) \<Rightarrow> (Inl err, st1)
                         | (Inr _, st1) \<Rightarrow> finish_conversion e n p st1)))
      | _ \<Rightarrow> (Inr (), st))"

definition claimTransaction :: "nat \<Rightarrow> txdb \<Rightarrow> bool \<times> txdb" where
  "claimTransaction i db =
     (case find_tx i db of
        None \<Rightarrow> (False, db)
      | Some r \<Rightarrow>
          if tx_status r = Pending then (True, update_tx i (\<lambda>r. r\<lparr>tx_status := Processing\<rparr>) db) else (False, db))"

definition releaseClaim :: "nat \<Rightarrow> txdb \<Rightarrow> txdb" where
  "releaseClaim i db =
     update_tx i (\<lambda>r. if tx_status r = Processing then r\<lparr>tx_status := Pending\<rparr> else r) db"

text \<open>One delivery of a message: whether it is acknowledged, and the state it leaves.\<close>

definition conversion_attempt :: "conv_env \<Rightarrow> conversion_payload \<Rightarrow> nat \<Rightarrow> conv_state \<Rightarrow> bool \<times> conv_state" where
  "conversion_attempt e p n st =
     (case cp_tx p of
        None \<Rightarrow> (case processUsdcConversion e n p st of (Inl err, st1) \<Rightarrow> (False, st1) | (Inr _, st1) \<Rightarrow> (True, st1))
      | Some i \<Rightarrow>
          (case claimTransaction i (cv_db st) of
             (False, db) \<Rightarrow> (True, st)
           | (True, db) \<Rightarrow>
               (case processUsdcConversion e n p (st\<lparr>cv_db := db\<rparr>) of
                  (Inl err, st1) \<Rightarrow> (False, st1\<lparr>cv_db := releaseClaim i (cv_db st1)\<rparr>)
                | (Inr _, st1) \<Rightarrow> (True, st1))))"

definition conversion_message :: "conv_env \<Rightarrow> conversion_payload \<Rightarrow> conv_state \<Rightarrow> delivery \<times> conv_state" where
  "conversion_message e p st = redeliver (getQueueMaxRetries ''usdc_conversion'') (conversion_attempt e p) 0 st"

section \<open>The distribution is exact\<close>

lemma int_sum_update: "k < length xs \<Longrightarrow> sum_list (xs[k := y]) = sum_list xs + y - (xs ! k :: int)"
  by (induction xs arbitrary: k) (auto split: nat.split)

lemma fold_add_unit:
  assumes "order \<noteq> []" and "set order \<subseteq> {..<length xs}"
  shows "length (fold (add_unit order) ks xs) = length xs \<and> sum_list (fold (add_unit order) ks xs) = sum_list xs + int (length ks)"
  using assms(2)
proof (induction ks arbitrary: xs)
  case (Cons k ks)
  let ?i = "order ! (k mod length order)"
  have "?i \<in> set order" using assms(1) by simp
  then have i: "?i < length xs" using Cons.prems by auto
  have "sum_list (add_unit order k xs) = sum_list xs + 1" "length (add_unit order k xs) = length xs"
    using i by (simp_all add: add_unit_def Let_def int_sum_update)
  then show ?case using Cons.IH [of "add_unit order k xs"] Cons.prems by simp
qed simp

lemma fold_add_unit_nth:
  assumes "distinct order" and "set order \<subseteq> {..<length xs}" and "n \<le> length order" and "j < length xs"
  shows "fold (add_unit order) [0..<n] xs ! j = xs ! j + (if j \<in> set (take n order) then 1 else 0)"
  using assms(3)
proof (induction n)
  case (Suc n)
  let ?ys = "fold (add_unit order) [0..<n] xs"
  have ne: "order \<noteq> []" using Suc.prems by auto
  have len: "length ?ys = length xs" using fold_add_unit [OF ne assms(2)] by simp
  have n: "n < length order" using Suc.prems by simp
  have in_range: "order ! n < length xs" using n assms(2) nth_mem by blast
  have tk: "take (Suc n) order = take n order @ [order ! n]" using n by (rule take_Suc_conv_app_nth)
  have notin: "order ! n \<notin> set (take n order)"
    using assms(1) n by (metis distinct_take not_distinct_conv_prefix take_Suc_conv_app_nth)
  have "fold (add_unit order) [0..<Suc n] xs = add_unit order n ?ys" by simp
  also have "\<dots> = ?ys[order ! n := ?ys ! (order ! n) + 1]" using n by (simp add: add_unit_def Let_def)
  finally have step: "fold (add_unit order) [0..<Suc n] xs ! j = (if order ! n = j then ?ys ! j + 1 else ?ys ! j)"
    using len in_range by (auto simp: nth_list_update)
  have "?ys ! j = xs ! j + (if j \<in> set (take n order) then 1 else 0)" using Suc by simp
  then show ?case using notin unfolding step tk by auto
qed simp

lemma residual_order_facts:
  "distinct (residual_order ps)" "set (residual_order ps) = {..<length ps}" "length (residual_order ps) = length ps"
  by (auto simp: residual_order_def)

lemma sum_base_le:
  fixes ws :: "int list"
  assumes "0 < tw" and "tw = sum_list ws" and "list_all (\<lambda>w. 0 \<le> w) ws" and "0 \<le> t"
  shows "0 \<le> t - sum_list (map (\<lambda>w. t * w div tw) ws) \<and> (ws \<noteq> [] \<longrightarrow> t - sum_list (map (\<lambda>w. t * w div tw) ws) < int (length ws))"
proof -
  have split: "sum_list (map (\<lambda>w. t * w div tw) ws) * tw + sum_list (map (\<lambda>w. t * w mod tw) ws) = t * sum_list ws" for ws
    by (induction ws) (simp_all add: algebra_simps)
  have bounds: "0 \<le> sum_list (map (\<lambda>w. t * w mod tw) ws) \<and>
      (ws \<noteq> [] \<longrightarrow> sum_list (map (\<lambda>w. t * w mod tw) ws) < int (length ws) * tw)" for ws
  proof (induction ws)
    case (Cons w ws)
    have "0 \<le> t * w mod tw" "t * w mod tw < tw" using assms(1) by simp_all
    then show ?case using Cons by (cases "ws = []") (auto simp: algebra_simps)
  qed simp
  let ?b = "sum_list (map (\<lambda>w. t * w div tw) ws)"
  have eq: "(t - ?b) * tw = sum_list (map (\<lambda>w. t * w mod tw) ws)"
    using split [of ws] assms(2) by (simp add: algebra_simps)
  have "0 \<le> (t - ?b) * tw" using eq bounds [of ws] by simp
  then have "0 \<le> t - ?b" using assms(1) zero_le_mult_iff [of "t - ?b" tw] by linarith
  moreover have "t - ?b < int (length ws)" if "ws \<noteq> []"
  proof -
    have "(t - ?b) * tw < int (length ws) * tw" using eq bounds [of ws] that by simp
    then show ?thesis using mult_right_less_imp_less [OF _ less_imp_le [OF assms(1)]] by blast
  qed
  ultimately show ?thesis by blast
qed

lemma final_units_exact:
  assumes ws: "list_all (\<lambda>w. 0 \<le> weight_int w) (map snd basket)" and t: "0 \<le> t"
    and tw: "tw = sum_list (map (\<lambda>(c, w). weight_int w) basket)" "0 < tw"
  defines "ps \<equiv> map (share_part t tw) basket"
  shows "length (final_units t ps) = length basket \<and> sum_list (final_units t ps) = t \<and>
    (\<forall>j < length basket. (let k = t * weight_int (snd (basket ! j)) div tw; u = final_units t ps ! j in k \<le> u \<and> u \<le> k + 1))"
proof -
  let ?ws = "map (\<lambda>(c, w). weight_int w) basket"
  have base: "map sp_base ps = map (\<lambda>w. t * w div tw) ?ws"
  proof (simp add: ps_def, rule ballI)
    fix x assume "x \<in> set basket"
    then have "0 \<le> t * weight_int (snd x)" using ws t by (auto simp: list_all_iff)
    then show "sp_base (share_part t tw x) = t * (case x of (c, w) \<Rightarrow> weight_int w) div tw"
      by (cases x) (simp add: share_part_def Let_def big_div_def)
  qed
  have ne: "basket \<noteq> []" using tw by auto
  have "list_all (\<lambda>w. 0 \<le> w) ?ws" using ws by (auto simp: list_all_iff)
  note res = sum_base_le [OF tw(2) tw(1) this t]
  define r where "r = t - sum_list (map sp_base ps)"
  have r: "0 \<le> r" "r < int (length basket)" using res ne by (simp_all add: r_def base)
  have lenp: "length ps = length basket" by (simp add: ps_def)
  have "residual_order ps \<noteq> []"
  proof
    assume "residual_order ps = []"
    then have "length ps = 0" using residual_order_facts(3) [of ps] by simp
    then show False using ne lenp by simp
  qed
  moreover have "set (residual_order ps) \<subseteq> {..<length (map sp_base ps)}" by (simp add: residual_order_facts)
  ultimately have ord: "residual_order ps \<noteq> []" "set (residual_order ps) \<subseteq> {..<length (map sp_base ps)}" .
  have fin: "final_units t ps = fold (add_unit (residual_order ps)) [0..<nat r] (map sp_base ps)"
  proof (cases "r = 0")
    case False
    then have "0 < t - sum_list (map sp_base ps)" using r(1) by (simp add: r_def)
    then show ?thesis unfolding final_units_def Let_def r_def by (rule if_P)
  qed (simp add: final_units_def Let_def r_def)
  have nth: "fold (add_unit (residual_order ps)) [0..<nat r] (map sp_base ps) ! j =
      map sp_base ps ! j + (if j \<in> set (take (nat r) (residual_order ps)) then 1 else 0)" if "j < length basket" for j
    using r that by (intro fold_add_unit_nth residual_order_facts(1) ord(2)) (simp_all add: residual_order_facts lenp)
  have "sp_base (ps ! j) = t * weight_int (snd (basket ! j)) div tw" if "j < length basket" for j
    using arg_cong [OF base, of "\<lambda>xs. xs ! j"] that by (simp add: ps_def case_prod_unfold)
  then have each: "let k = t * weight_int (snd (basket ! j)) div tw; u = final_units t ps ! j in k \<le> u \<and> u \<le> k + 1"
    if "j < length basket" for j
    using nth [OF that] that by (simp add: fin lenp)
  show ?thesis
    using fold_add_unit [OF ord, of "[0..<nat r]"] r(1) each by (simp add: fin lenp r_def)
qed

section \<open>Properties\<close>

text \<open>
  C29. The distribution loses nothing: over a basket of at least two currencies with weights that are not negative, the
  shares in units of 10^-7 add up to the amount truncated to seven decimals, and every share is the exact one rounded
  down or that plus one unit, in the order of the basket.
\<close>

theorem basket_distribution_exact:
  assumes "calculateBasketDistribution (Fin q) basket decimals = Inr shares" and "shares \<noteq> []" and "2 \<le> length basket"
    and "list_all (\<lambda>w. 0 \<le> weight_int w) (map snd basket)"
  shows "sum_list (map sh_atomic shares) = whole (prisma_dec (q * 10 ^ decimals)) \<and> map sh_currency shares = map fst basket \<and>
    list_all2 (\<lambda>s (c, w).
      let k = whole (prisma_dec (q * 10 ^ decimals)) * weight_int w div sum_list (map weight_int (map snd basket)) in
      k \<le> sh_atomic s \<and> sh_atomic s \<le> k + 1) shares basket"
proof -
  let ?t = "whole (prisma_dec (q * 10 ^ decimals))"
  let ?tw = "sum_list (map (\<lambda>(c, w). weight_int w) basket)"
  let ?ps = "map (share_part ?t ?tw) basket"
  obtain b1 b2 bs where b: "basket = b1 # b2 # bs" using assms(3) by (cases basket; cases "tl basket") auto
  have t: "0 < ?t" and tw: "0 < ?tw" and sh: "shares = map (unit_share decimals) (zip ?ps (final_units ?t ?ps))"
    using assms(1,2) unfolding calculateBasketDistribution_def Let_def b by (auto split: if_splits prod.splits)
  note ex = final_units_exact [OF assms(4) less_imp_le [OF t] refl tw]
  have len: "length (final_units ?t ?ps) = length basket" using ex by blast
  have mk: "sh_atomic (unit_share decimals x) = snd x" "sh_currency (unit_share decimals x) = sp_currency (fst x)" for x
    by (simp_all add: unit_share_def Let_def case_prod_unfold)
  have "map sh_atomic shares = map snd (zip ?ps (final_units ?t ?ps))" by (simp add: sh mk comp_def)
  then have at: "map sh_atomic shares = final_units ?t ?ps" using len by simp
  have "map sh_currency shares = map sp_currency (map fst (zip ?ps (final_units ?t ?ps)))" by (simp add: sh mk comp_def)
  then have cu: "map sh_currency shares = map sp_currency ?ps" using len by simp
  have nth: "sh_atomic (shares ! j) = final_units ?t ?ps ! j" if "j < length basket" for j
    using that len by (simp add: sh mk)
  have eq: "?tw = sum_list (map weight_int (map snd basket))" by (simp add: case_prod_unfold comp_def)
  show ?thesis
  proof (intro conjI)
    show "sum_list (map sh_atomic shares) = ?t" using at ex by simp
    show "map sh_currency shares = map fst basket" by (simp add: cu share_part_def Let_def case_prod_unfold)
    have "length shares = length basket" using len by (simp add: sh)
    then show "list_all2 (\<lambda>s (c, w). let k = ?t * weight_int w div sum_list (map weight_int (map snd basket)) in
        k \<le> sh_atomic s \<and> sh_atomic s \<le> k + 1) shares basket"
      using ex nth by (simp add: list_all2_conv_all_nth case_prod_unfold Let_def eq comp_def)
  qed
qed

text \<open>A state in which a transaction has been converted.\<close>

definition converted :: "nat \<Rightarrow> conv_state \<Rightarrow> bool" where
  "converted i st \<longleftrightarrow> (\<exists>r. find_tx i (cv_db st) = Some r \<and> tx_status r = Completed)"

lemma claim_converted: "converted i st \<Longrightarrow> claimTransaction i (cv_db st) = (False, cv_db st)"
  by (auto simp: converted_def claimTransaction_def)

lemma convert_share_db: "cv_db (snd (convert_share e n s st)) = cv_db st"
  by (simp add: convert_share_def Let_def split: option.split)

lemma convert_shares_db: "cv_db (snd (convert_shares e n ss st)) = cv_db st"
proof (induction ss arbitrary: st)
  case (Cons s ss)
  then show ?case using convert_share_db [of e n s st] by (auto split: prod.split sum.split)
qed simp

text \<open>
  A transaction is converted at most once: when its message has been handled to the end, every further message about
  it, with any payload and any failures, is acknowledged without a conversion and without an entry in the history.
\<close>

theorem conversion_not_repeated:
  assumes "converted i st" and "cp_tx p = Some i"
  shows "conversion_message e p st = (Acked, st)"
  using assms by (subst conversion_message_def) (simp add: redeliver_step conversion_attempt_def claim_converted)

text \<open>What a run buys and records when nothing fails before the transaction is completed.\<close>

definition purchases :: "share list \<Rightarrow> (string \<times> rat) list" where
  "purchases ss = map (\<lambda>s. (sh_currency s, sh_amount s)) ss"

definition entries :: "share list \<Rightarrow> (string \<times> rat) list" where
  "entries ss = map (\<lambda>s. (sh_currency s, the (decimal_column 20 2 (sh_decimal s)))) ss"

definition smooth :: "conv_env \<Rightarrow> share list \<Rightarrow> bool" where
  "smooth e ss \<longleftrightarrow> (\<forall>n c. ce_convert e n c \<and> ce_history e n c) \<and> list_all (\<lambda>s. decimal_column 20 2 (sh_decimal s) \<noteq> None) ss"

lemma convert_shares_smooth:
  "smooth e ss \<Longrightarrow> convert_shares e n ss st =
     (Inr (), st\<lparr>cv_bought := cv_bought st @ purchases ss, cv_history := cv_history st @ entries ss\<rparr>)"
proof (induction ss arbitrary: st)
  case (Cons s ss)
  have "convert_share e n s st =
      (Inr (), st\<lparr>cv_bought := cv_bought st @ purchases [s], cv_history := cv_history st @ entries [s]\<rparr>)"
    using Cons.prems by (auto simp: convert_share_def smooth_def Let_def purchases_def entries_def)
  moreover have "smooth e ss" using Cons.prems by (simp add: smooth_def)
  ultimately show ?case using Cons.IH by (simp add: purchases_def entries_def)
qed (simp add: purchases_def entries_def)

text \<open>
  The claim does not protect the conversion itself: when the update that completes the transaction fails, the claim is
  released and the retry converts every currency again, so providers convert twice the credited amount and the history
  records it twice, while the transaction is completed once.
\<close>

theorem lost_completion_converts_again:
  assumes "cp_amount p = Some (Fin q)" and "0 < q" and "cp_tx p = Some i"
    and "find_tx i (cv_db st) = Some r" and "tx_status r = Pending"
    and "getCurrentBasket (ce_basket e) = Inr basket" and "basket \<noteq> []"
    and "calculateBasketDistribution (Fin q) basket USDC_CONVERSION_DECIMALS = Inr shares" and "smooth e shares"
    and "\<not> ce_complete e 0" and "ce_complete e 1"
    and "list_all (\<lambda>t. tx_hash t \<noteq> Some (cp_hash p)) (tx_rows (cv_db st))"
  shows "fst (conversion_message e p st) = Acked \<and> converted i (snd (conversion_message e p st)) \<and>
    cv_bought (snd (conversion_message e p st)) = cv_bought st @ purchases shares @ purchases shares \<and>
    cv_history (snd (conversion_message e p st)) = cv_history st @ entries shares @ entries shares"
proof -
  let ?up = "\<lambda>st. st\<lparr>cv_bought := cv_bought st @ purchases shares, cv_history := cv_history st @ entries shares\<rparr>"
  have run: "processUsdcConversion e n p s = finish_conversion e n p (?up s)" for n s
    using assms(1,2,6-9) by (simp add: processUsdcConversion_def convert_shares_smooth)
  define db1 where "db1 = update_tx i (\<lambda>r. r\<lparr>tx_status := Processing\<rparr>) (cv_db st)"
  define db2 where "db2 = releaseClaim i db1"
  define db3 where "db3 = update_tx i (\<lambda>r. r\<lparr>tx_status := Processing\<rparr>) db2"
  have c1: "claimTransaction i (cv_db st) = (True, db1)" using assms(4,5) by (simp add: claimTransaction_def db1_def)
  have f1: "find_tx i db1 = Some (r\<lparr>tx_status := Processing\<rparr>)" using assms(4) by (simp add: db1_def find_update_same)
  have f2: "find_tx i db2 = Some (r\<lparr>tx_status := Pending\<rparr>)" using f1 by (simp add: db2_def releaseClaim_def find_update_same)
  have f3: "find_tx i db3 = Some (r\<lparr>tx_status := Processing\<rparr>)" using f2 by (simp add: db3_def find_update_same)
  have a1: "conversion_attempt e p 0 st = (False, (?up st)\<lparr>cv_db := db2\<rparr>)"
    using assms(3,10) c1 by (simp add: conversion_attempt_def run finish_conversion_def db2_def)
  have "map tx_hash (tx_rows db3) = map tx_hash (tx_rows (cv_db st))"
    by (simp add: db1_def db2_def db3_def releaseClaim_def update_tx_def comp_def)
  then have "set (map tx_hash (tx_rows db3)) = set (map tx_hash (tx_rows (cv_db st)))" by (simp only:)
  then have free: "\<forall>t\<in>set (tx_rows db3). tx_hash t \<noteq> Some (cp_hash p)"
    using assms(12) by (force simp: list_all_iff)
  define db4 where "db4 = update_tx i (\<lambda>r. r\<lparr>tx_status := Completed, tx_hash := Some (cp_hash p), completed_at := Some (ce_now e)\<rparr>) db3"
  have fin: "complete_tx i (cp_hash p) (ce_now e) db3 = Some db4"
    using f3 free by (auto simp: complete_tx_def db4_def)
  have c2: "claimTransaction i db2 = (True, db3)" using f2 by (simp add: claimTransaction_def db3_def)
  have a2: "conversion_attempt e p 1 ((?up st)\<lparr>cv_db := db2\<rparr>) = (True, (?up (?up st))\<lparr>cv_db := db4\<rparr>)"
    using assms(3,11) c2 fin by (simp add: conversion_attempt_def run finish_conversion_def)
  have "0 < getQueueMaxRetries ''usdc_conversion''" by (simp add: getQueueMaxRetries_def QUEUE_RETRY_LIMITS_def)
  then have msg: "conversion_message e p st = (Acked, (?up (?up st))\<lparr>cv_db := db4\<rparr>)"
    using a1 a2 by (subst conversion_message_def, subst redeliver_step) (simp add: redeliver_step)
  have "find_tx i db4 = Some (r\<lparr>tx_status := Completed, tx_hash := Some (cp_hash p), completed_at := Some (ce_now e)\<rparr>)"
    using f3 by (simp add: db4_def find_update_same)
  then show ?thesis by (simp add: msg converted_def)
qed

section \<open>Witnesses\<close>

definition naira_basket :: "basket_row list" where
  "naira_basket = [\<lparr>br_from = 0, br_currency = ''NGN'', br_weight = 100, br_status = ActiveBasket\<rparr>]"

definition sample_conv_env :: conv_env where
  "sample_conv_env =
     \<lparr>ce_basket = naira_basket, ce_convert = (\<lambda>n c. True), ce_history = (\<lambda>n c. True), ce_complete = (\<lambda>n. 0 < n), ce_now = 9\<rparr>"

definition sample_conv :: conv_state where
  "sample_conv =
     \<lparr>cv_db = \<lparr>tx_rows = [(new_txn TMint Pending 0)\<lparr>tx_id := 3\<rparr>], tx_next = 4\<rparr>, cv_bought = [], cv_history = []\<rparr>"

definition sample_payload :: conversion_payload where
  "sample_payload = \<lparr>cp_amount = Some (Fin 5), cp_recipient = ''G'', cp_hash = ''h'', cp_tx = Some 3\<rparr>"

lemma naira_current: "getCurrentBasket naira_basket = Inr [(''NGN'', 100)]"
proof -
  have "js_round 10000 = 10000" by code_simp
  then show ?thesis
    by (simp add: getCurrentBasket_def active_basket_def naira_basket_def f64.rnd_numeral_le Let_def js_sum_def
        BASKET_WEIGHT_BASIS_POINTS_def)
qed

lemma five_shares:
  "calculateBasketDistribution (Fin 5) [(''NGN'', 100)] USDC_CONVERSION_DECIMALS =
     Inr [\<lparr>sh_currency = ''NGN'', sh_weight = 100, sh_atomic = 50000000, sh_decimal = 5, sh_amount = 5\<rparr>]"
  by (simp add: calculateBasketDistribution_def USDC_CONVERSION_DECIMALS_def prisma_dec.rnd_numeral_le f64.rnd_numeral_le whole_def)

lemma five_cents: "decimal_column 20 2 5 = Some 5"
  by (simp add: decimal_column_def Let_def floor_eq_iff)

theorem lost_completion_converts_again_witness:
  "cv_bought (snd (conversion_message sample_conv_env sample_payload sample_conv)) = [(''NGN'', 5), (''NGN'', 5)]"
proof -
  have "smooth sample_conv_env [\<lparr>sh_currency = ''NGN'', sh_weight = 100, sh_atomic = 50000000, sh_decimal = 5, sh_amount = 5\<rparr>]"
    by (simp add: smooth_def sample_conv_env_def five_cents)
  note * = lost_completion_converts_again [OF _ _ _ _ _ _ _ five_shares this]
  show ?thesis
    using * [of sample_payload 3 sample_conv "(new_txn TMint Pending 0)\<lparr>tx_id := 3\<rparr>"]
    by (simp add: sample_payload_def sample_conv_def sample_conv_env_def find_tx_def new_txn_def naira_current purchases_def)
qed

theorem conversion_not_repeated_witness:
  "conversion_message sample_conv_env sample_payload
     (sample_conv\<lparr>cv_db := \<lparr>tx_rows = [(new_txn TMint Completed 0)\<lparr>tx_id := 3\<rparr>], tx_next = 4\<rparr>\<rparr>) =
   (Acked, sample_conv\<lparr>cv_db := \<lparr>tx_rows = [(new_txn TMint Completed 0)\<lparr>tx_id := 3\<rparr>], tx_next = 4\<rparr>\<rparr>)"
  by (rule conversion_not_repeated [where i = 3]) (simp_all add: converted_def sample_payload_def find_tx_def new_txn_def)

lemma dec_5: "dec_of_num 5 = 5"
proof -
  have r: "round_near 5 = 5" "expo 10 5 = 0" by code_simp+
  have "shortest_digits (Suc 15) 1 1 5 = (1, 1, 5)"
    by (subst shortest_digits.simps(2)) (simp add: Let_def r f64.rnd_numeral_le)
  then show ?thesis by (simp add: dec_of_num_def r)
qed

lemma weight_5: "weight_int 5 = 50000"
  by (simp add: weight_int_def dec_5 prisma_dec.rnd_numeral_le whole_def)

theorem basket_distribution_exact_witness:
  "\<exists>shares. calculateBasketDistribution (Fin (3 / 10000000)) [(''NGN'', 5), (''KES'', 5)] 7 = Inr shares \<and>
     sum_list (map sh_atomic shares) = 3 \<and> map sh_currency shares = [''NGN'', ''KES'']"
proof -
  let ?b = "[(''NGN'', 5), (''KES'', 5)] :: (string \<times> rat) list"
  have t: "whole (prisma_dec ((3 / 10000000) * 10 ^ 7)) = 3" by (simp add: prisma_dec.rnd_numeral_le whole_def)
  have tw: "(\<Sum>(c, w)\<leftarrow>?b. weight_int w) = 100000" by (simp add: weight_5)
  define ps where "ps = map (share_part 3 100000) ?b"
  define shares where "shares = map (unit_share 7) (zip ps (final_units 3 ps))"
  have sh: "calculateBasketDistribution (Fin (3 / 10000000)) ?b 7 = Inr shares"
    unfolding calculateBasketDistribution_def Let_def jsnum.case t tw shares_def ps_def by simp
  have "length (final_units 3 ps) = 2"
    using final_units_exact [of ?b 3 100000] by (simp add: weight_5 ps_def)
  then have "shares \<noteq> []" by (auto simp: shares_def ps_def dest: arg_cong [of _ _ length])
  from basket_distribution_exact [OF sh this] sh t show ?thesis by (simp add: weight_5)
qed

end
