(* ===== verification/Events.thy ===== *)
theory Events
  imports Messages Conversion Treasury
begin

text \<open>
  Contract events: \<open>src/services/stellar/eventListener.ts\<close> (polling of Horizon, cursors, handlers with retries),
  \<open>src/services/stellar/txHashValidation.ts\<close> and the listeners \<open>src/jobs/acbu_*_event_listener.ts\<close>. Horizon, the
  clock and the broker are parameters. A handler is a function of the event, the attempt and the world, and tells
  whether it returned or threw.
\<close>

section \<open>Transaction hashes\<close>

definition isValidStellarTxHash :: "string \<Rightarrow> bool" where
  "isValidStellarTxHash s = hash_shape s"

text \<open>A slash and 64 hexadecimal digits at the end.\<close>

definition link_hash :: "string \<Rightarrow> string option" where
  "link_hash s =
     (let h = drop (length s - 64) s in
      if 65 \<le> length s \<and> s ! (length s - 65) = CHR ''/'' \<and> hash_shape h then Some h else None)"

definition jlink :: "json \<Rightarrow> string \<Rightarrow> json" where
  "jlink d name = jget (jget (jget d ''_links'') name) ''href''"

definition extractTxHashFromEffect :: "json \<Rightarrow> string option" where
  "extractTxHashFromEffect d =
     (let from_link = (case jlink d ''transaction'' of JStr s \<Rightarrow> link_hash s | _ \<Rightarrow> None) in
      case nullish (jget d ''transaction_hash'') (nullish (jget d ''transaction_id'') (jget d ''tx_hash'')) of
        JStr s \<Rightarrow> if isValidStellarTxHash s then Some s else from_link
      | _ \<Rightarrow> from_link)"

definition extractAndValidateTxHash :: "json \<Rightarrow> string option \<times> bool" where
  "extractAndValidateTxHash d =
     (case extractTxHashFromEffect d of None \<Rightarrow> (None, True) | Some h \<Rightarrow> (Some h, isValidStellarTxHash h))"

definition getOperationIdFromEffectData :: "json \<Rightarrow> string option" where
  "getOperationIdFromEffectData d =
     (case jlink d ''operation'' of
        JStr href \<Rightarrow>
          (case rev (filter (\<lambda>p. p \<noteq> []) (split_on CHR ''/'' href)) of
             [] \<Rightarrow> None
           | i # _ \<Rightarrow> if list_all is_digit i then Some i else None)
      | _ \<Rightarrow> None)"

text \<open>\<open>operation\<close> is the lookup in Horizon, None where it throws.\<close>

definition resolveTxHashFromOperation :: "(string \<Rightarrow> json option) \<Rightarrow> string \<Rightarrow> string option" where
  "resolveTxHashFromOperation operation i =
     (case operation i of
        None \<Rightarrow> None
      | Some op \<Rightarrow> (case jget op ''transaction_hash'' of JStr h \<Rightarrow> if isValidStellarTxHash h then Some h else None | _ \<Rightarrow> None))"

definition resolveTxHash :: "(string \<Rightarrow> json option) \<Rightarrow> json \<Rightarrow> string option \<times> bool" where
  "resolveTxHash operation d =
     (case extractTxHashFromEffect d of
        Some h \<Rightarrow> (Some h, True)
      | None \<Rightarrow>
          (case getOperationIdFromEffectData d of
             None \<Rightarrow> (None, False)
           | Some i \<Rightarrow> (case resolveTxHashFromOperation operation i of Some h \<Rightarrow> (Some h, True) | None \<Rightarrow> (None, False))))"

definition verifyTxHashOnChain :: "(string \<Rightarrow> bool) \<Rightarrow> string \<Rightarrow> bool" where
  "verifyTxHashOnChain on_chain h \<longleftrightarrow> isValidStellarTxHash h \<and> on_chain h"

section \<open>Events\<close>

record chain_event =
  ev_contract :: string
  ev_type :: string
  ev_version :: nat
  ev_data :: json
  ev_ledger :: rat
  ev_time :: rat

datatype effect_error = EffectNotObject | EffectNoType | EffectNoContract

definition CONTRACT_EVENT_PAYLOAD_VERSION :: nat where
  "CONTRACT_EVENT_PAYLOAD_VERSION = 1"

definition parse_ledger :: "json \<Rightarrow> rat" where
  "parse_ledger v =
     (case (case v of JNum n \<Rightarrow> n | _ \<Rightarrow> parse_int (js_string (nullish v (JStr ''0'')))) of Fin q \<Rightarrow> q | _ \<Rightarrow> 0)"

text \<open>\<open>date\<close> reads a date string, None where it is invalid.\<close>

definition parseEffect :: "(string \<Rightarrow> rat option) \<Rightarrow> rat \<Rightarrow> string \<Rightarrow> json \<Rightarrow> effect_error + chain_event" where
  "parseEffect date now registered eff =
     (case eff of
        JObj _ \<Rightarrow>
          (case jget eff ''type'' of
             JStr ty \<Rightarrow>
               if trim ty = [] then Inl EffectNoType
               else
                 (let c = (case jget eff ''contract'' of JStr c \<Rightarrow> if trim c \<noteq> [] then c else registered | _ \<Rightarrow> registered);
                      t = (case jget eff ''created_at'' of JStr s \<Rightarrow> date s | _ \<Rightarrow> None) in
                  if c = [] then Inl EffectNoContract
                  else Inr \<lparr>ev_contract = c, ev_type = ty, ev_version = CONTRACT_EVENT_PAYLOAD_VERSION, ev_data = eff,
                    ev_ledger = parse_ledger (jget eff ''ledger''), ev_time = (case t of None \<Rightarrow> now | Some x \<Rightarrow> x)\<rparr>)
           | _ \<Rightarrow> Inl EffectNoType)
      | JArr _ \<Rightarrow> Inl EffectNoType
      | _ \<Rightarrow> Inl EffectNotObject)"

section \<open>The listener\<close>

text \<open>A registered handler, as it is or behind the filter of \<open>listenToContractEvents\<close>.\<close>

datatype handler = Plain nat | Filtered string "string list" nat

record listener =
  ln_handlers :: "(string \<times> handler list) list"
  ln_contracts :: "string list"
  ln_cursors :: "(string \<times> string option) list"
  ln_default :: "string option"
  ln_up :: bool
  ln_reconnects :: nat

datatype failure = ParseFailure string json effect_error | HandlerFailure chain_event

record 'w listener_env =
  le_fetch :: "nat \<Rightarrow> string \<Rightarrow> string option \<Rightarrow> nat \<Rightarrow> json list option"   \<comment> \<open>attempt, contract, cursor, page size\<close>
  le_probe :: "nat \<Rightarrow> bool"                                       \<comment> \<open>whether an attempt to reconnect succeeds\<close>
  le_run :: "nat \<Rightarrow> chain_event \<Rightarrow> nat \<Rightarrow> 'w \<Rightarrow> bool \<times> 'w"
  le_capture :: bool                                           \<comment> \<open>whether the failure queue accepts a message\<close>
  le_date :: "string \<Rightarrow> rat option"
  le_now :: rat

record 'w listening =
  ls_app :: 'w
  ls_failures :: "failure list"

definition FETCH_ATTEMPTS :: nat where "FETCH_ATTEMPTS = 3"
definition HANDLER_ATTEMPTS :: nat where "HANDLER_ATTEMPTS = 3"
definition RECONNECT_MAX_ATTEMPTS :: nat where "RECONNECT_MAX_ATTEMPTS = 5"

definition handlers_of :: "string \<Rightarrow> listener \<Rightarrow> handler list" where
  "handlers_of k li = (case map_of (ln_handlers li) k of None \<Rightarrow> [] | Some hs \<Rightarrow> hs)"

definition on_event :: "string \<Rightarrow> handler \<Rightarrow> listener \<Rightarrow> listener" where
  "on_event k h li = li\<lparr>ln_handlers := map_set k (handlers_of k li @ [h]) (ln_handlers li)\<rparr>"

definition off_event :: "string \<Rightarrow> handler \<Rightarrow> listener \<Rightarrow> listener" where
  "off_event k h li =
     (if map_of (ln_handlers li) k = None then li
      else li\<lparr>ln_handlers := map_set k (remove1 h (handlers_of k li)) (ln_handlers li)\<rparr>)"

definition listenToContractEvents :: "string \<Rightarrow> string list \<Rightarrow> nat \<Rightarrow> listener \<Rightarrow> listener" where
  "listenToContractEvents c types h li =
     (if c = [] then li
      else
        (let li1 = li\<lparr>ln_contracts := (if c \<in> set (ln_contracts li) then ln_contracts li else ln_contracts li @ [c]),
               ln_cursors := (if map_of (ln_cursors li) c = None then map_set c (ln_default li) (ln_cursors li) else ln_cursors li)\<rparr> in
         on_event ''*'' (Filtered c types h) li1))"

text \<open>\<open>start\<close> takes one cursor for all contracts, or one per contract, or none.\<close>

datatype start_cursor = NoCursor | OneCursor string | Cursors "(string \<times> string) list"

definition start_listener :: "start_cursor \<Rightarrow> listener \<Rightarrow> listener" where
  "start_listener sc li =
     (case sc of
        NoCursor \<Rightarrow> li
      | OneCursor t \<Rightarrow> li\<lparr>ln_default := Some t\<rparr>
      | Cursors ts \<Rightarrow> li\<lparr>ln_cursors := fold (\<lambda>(c, t). map_set c (Some t)) ts (ln_cursors li)\<rparr>)"

fun first_success :: "nat \<Rightarrow> nat \<Rightarrow> (nat \<Rightarrow> 'a option) \<Rightarrow> 'a option" where
  "first_success 0 k f = None"
| "first_success (Suc n) k f = (case f k of Some x \<Rightarrow> Some x | None \<Rightarrow> first_success n (Suc k) f)"

fun try_handler :: "nat \<Rightarrow> nat \<Rightarrow> (nat \<Rightarrow> 'w \<Rightarrow> bool \<times> 'w) \<Rightarrow> 'w \<Rightarrow> bool \<times> 'w" where
  "try_handler 0 k f w = (False, w)"
| "try_handler (Suc n) k f w = (case f k w of (True, w') \<Rightarrow> (True, w') | (False, w') \<Rightarrow> try_handler n (Suc k) f w')"

definition run_handler :: "'w listener_env \<Rightarrow> handler \<Rightarrow> chain_event \<Rightarrow> nat \<Rightarrow> 'w \<Rightarrow> bool \<times> 'w" where
  "run_handler e h ev k w =
     (case h of
        Plain i \<Rightarrow> le_run e i ev k w
      | Filtered c types i \<Rightarrow> if ev_contract ev = c \<and> ev_type ev \<in> set types then le_run e i ev k w else (True, w))"

definition captureFailure :: "'w listener_env \<Rightarrow> failure \<Rightarrow> 'w listening \<Rightarrow> 'w listening" where
  "captureFailure e f w = (if le_capture e then w\<lparr>ls_failures := ls_failures w @ [f]\<rparr> else w)"

definition invokeHandlerWithRetry :: "'w listener_env \<Rightarrow> chain_event \<Rightarrow> handler \<Rightarrow> 'w listening \<Rightarrow> 'w listening" where
  "invokeHandlerWithRetry e ev h w =
     (case try_handler HANDLER_ATTEMPTS 1 (run_handler e h ev) (ls_app w) of
        (True, a) \<Rightarrow> w\<lparr>ls_app := a\<rparr>
      | (False, a) \<Rightarrow> captureFailure e (HandlerFailure ev) (w\<lparr>ls_app := a\<rparr>))"

definition dispatchEvent :: "'w listener_env \<Rightarrow> listener \<Rightarrow> chain_event \<Rightarrow> 'w listening \<Rightarrow> 'w listening" where
  "dispatchEvent e li ev w = fold (invokeHandlerWithRetry e ev) (handlers_of (ev_type ev) li @ handlers_of ''*'' li) w"

definition dispatchRawEffect :: "'w listener_env \<Rightarrow> listener \<Rightarrow> string \<Rightarrow> json \<Rightarrow> 'w listening \<Rightarrow> 'w listening" where
  "dispatchRawEffect e li c eff w =
     (case parseEffect (le_date e) (le_now e) c eff of
        Inl err \<Rightarrow> captureFailure e (ParseFailure c eff err) w
      | Inr ev \<Rightarrow> dispatchEvent e li ev w)"

definition paging_token :: "json \<Rightarrow> string option" where
  "paging_token eff = (case jget eff ''paging_token'' of JStr t \<Rightarrow> if t = [] then None else Some t | _ \<Rightarrow> None)"

definition updateCursor :: "string \<Rightarrow> json \<Rightarrow> listener \<Rightarrow> listener" where
  "updateCursor c eff li =
     (case paging_token eff of None \<Rightarrow> li | Some t \<Rightarrow> li\<lparr>ln_cursors := map_set c (Some t) (ln_cursors li)\<rparr>)"

definition cursor_of :: "string \<Rightarrow> listener \<Rightarrow> string option" where
  "cursor_of c li =
     (let cur = (case map_of (ln_cursors li) c of Some (Some t) \<Rightarrow> Some t | _ \<Rightarrow> ln_default li) in
      if cur = Some [] then None else cur)"

fun reconnect :: "nat \<Rightarrow> nat \<Rightarrow> (nat \<Rightarrow> bool) \<Rightarrow> listener \<Rightarrow> listener" where
  "reconnect 0 k probe li = li"
| "reconnect (Suc n) k probe li =
     (let li1 = li\<lparr>ln_reconnects := ln_reconnects li + 1\<rparr> in
      if probe k then li1\<lparr>ln_up := True\<rparr> else reconnect n (Suc k) probe (li1\<lparr>ln_up := False\<rparr>))"

definition poll_effects :: "'w listener_env \<Rightarrow> string \<Rightarrow> json list \<Rightarrow> listener \<times> 'w listening \<Rightarrow> listener \<times> 'w listening" where
  "poll_effects e c effs st =
     fold (\<lambda>eff (li, w). (updateCursor c eff li, dispatchRawEffect e li c eff w)) effs st"

definition pollContractOnce :: "'w listener_env \<Rightarrow> string \<Rightarrow> listener \<times> 'w listening \<Rightarrow> bool \<times> listener \<times> 'w listening" where
  "pollContractOnce e c st =
     (case first_success FETCH_ATTEMPTS 1 (\<lambda>k. le_fetch e k c (cursor_of c (fst st)) 200) of
        None \<Rightarrow> (False, reconnect RECONNECT_MAX_ATTEMPTS 1 (le_probe e) ((fst st)\<lparr>ln_up := False\<rparr>), snd st)
      | Some effs \<Rightarrow> (effs \<noteq> [], poll_effects e c effs ((fst st)\<lparr>ln_up := True\<rparr>, snd st)))"

definition pollOnce :: "'w listener_env \<Rightarrow> listener \<times> 'w listening \<Rightarrow> bool \<times> listener \<times> 'w listening" where
  "pollOnce e st =
     fold (\<lambda>c (any, st). case pollContractOnce e c st of (p, st') \<Rightarrow> (any \<or> p, st')) (ln_contracts (fst st)) (False, st)"

definition getContractEvents :: "'w listener_env \<Rightarrow> string \<Rightarrow> rat option \<Rightarrow> nat option \<Rightarrow> effect_error option + chain_event list" where
  "getContractEvents e c toLedger n =
     (case le_fetch e 1 c None (case n of None \<Rightarrow> 200 | Some m \<Rightarrow> m) of
        None \<Rightarrow> Inl None
      | Some effs \<Rightarrow>
          foldr (\<lambda>eff r. bindR (map_err Some (parseEffect (le_date e) (le_now e) c eff)) (\<lambda>ev.
              bindR r (\<lambda>evs. Inr (if (case toLedger of None \<Rightarrow> False | Some t \<Rightarrow> t < ev_ledger ev) then evs else ev # evs))))
            effs (Inr []))"

section \<open>The listeners of the contracts\<close>

record chain_env =
  ch_operation :: "string \<Rightarrow> json option"
  ch_on_chain :: "string \<Rightarrow> bool"
  ch_broker :: "nat \<Rightarrow> bool"          \<comment> \<open>whether the broker takes a message, by attempt of the handler\<close>
  ch_mq :: mq_env
  ch_uuid :: string
  ch_sent :: string
  ch_iso :: "rat \<Rightarrow> string"
  ch_now :: rat

record conversion_job =
  cj_amount :: string
  cj_recipient :: string
  cj_hash :: string
  cj_tx :: nat

record chain_world =
  cw_db :: txdb
  cw_conversions :: "conversion_job list"
  cw_withdrawals :: "(nat \<times> string) list"
  cw_published :: "(string \<times> json) list"

definition parseAmountFromEffect :: "json \<Rightarrow> string option" where
  "parseAmountFromEffect d =
     (case nullish (jget d ''amount'') (jget d ''value'') of JStr s \<Rightarrow> Some s | JNum n \<Rightarrow> Some (num_str n) | _ \<Rightarrow> None)"

definition parseRecipientFromEffect :: "json \<Rightarrow> string option" where
  "parseRecipientFromEffect d =
     (case nullish (jget d ''account'') (nullish (jget d ''recipient'') (jget d ''to'')) of
        JStr s \<Rightarrow> if length s = 56 then Some s else None
      | _ \<Rightarrow> None)"

definition findTransactionByBlockchainHash :: "tx_type \<Rightarrow> string \<Rightarrow> txdb \<Rightarrow> nat option" where
  "findTransactionByBlockchainHash ty h db =
     map_option tx_id (find (\<lambda>r. tx_type r = ty \<and> tx_hash r = Some h \<and> tx_status r \<in> {Pending, Processing}) (tx_rows db))"

definition positive_amount :: "string \<Rightarrow> bool" where
  "positive_amount s = (case parse_float s of Fin q \<Rightarrow> 0 < q | _ \<Rightarrow> False)"

text \<open>The job a credit leads to, None where the handler returns without one.\<close>

definition mint_job :: "chain_env \<Rightarrow> txdb \<Rightarrow> json \<Rightarrow> conversion_job option" where
  "mint_job ce db d =
     (case parseAmountFromEffect d of
        None \<Rightarrow> None
      | Some amount \<Rightarrow>
          (case parseRecipientFromEffect d of
             None \<Rightarrow> None
           | Some recipient \<Rightarrow>
               if amount = [] \<or> \<not> positive_amount amount then None
               else
                 (case fst (resolveTxHash (ch_operation ce) d) of
                    None \<Rightarrow> None
                  | Some h \<Rightarrow>
                      if \<not> snd (resolveTxHash (ch_operation ce) d) \<or> \<not> verifyTxHashOnChain (ch_on_chain ce) h then None
                      else
                        (case findTransactionByBlockchainHash TMint h db of
                           None \<Rightarrow> None
                         | Some i \<Rightarrow> Some \<lparr>cj_amount = amount, cj_recipient = recipient, cj_hash = h, cj_tx = i\<rparr>))))"

definition mint_handler :: "chain_env \<Rightarrow> chain_event \<Rightarrow> nat \<Rightarrow> chain_world \<Rightarrow> bool \<times> chain_world" where
  "mint_handler ce ev k w =
     (case mint_job ce (cw_db w) (ev_data ev) of
        None \<Rightarrow> (True, w)
      | Some j \<Rightarrow> if ch_broker ce k then (True, w\<lparr>cw_conversions := cw_conversions w @ [j]\<rparr>) else (False, w))"

definition burn_handler :: "chain_env \<Rightarrow> chain_event \<Rightarrow> nat \<Rightarrow> chain_world \<Rightarrow> bool \<times> chain_world" where
  "burn_handler ce ev k w =
     (case fst (resolveTxHash (ch_operation ce) (ev_data ev)) of
        None \<Rightarrow> (True, w)
      | Some h \<Rightarrow>
          if \<not> snd (resolveTxHash (ch_operation ce) (ev_data ev)) \<or> \<not> verifyTxHashOnChain (ch_on_chain ce) h then (True, w)
          else
            (case findTransactionByBlockchainHash TBurn h (cw_db w) of
               None \<Rightarrow> (True, w)
             | Some i \<Rightarrow>
                 if ch_broker ce k then (True, w\<lparr>cw_withdrawals := cw_withdrawals w @ [(i, h)]\<rparr>) else (False, w)))"

definition hash_fields :: "string list" where
  "hash_fields = [''transaction_hash'', ''transaction_id'', ''tx_hash'']"

definition sanitizeEventData :: "json \<Rightarrow> json" where
  "sanitizeEventData d =
     (case extractAndValidateTxHash d of
        (Some h, True) \<Rightarrow> d
      | _ \<Rightarrow> (case d of JObj kv \<Rightarrow> JObj (filter (\<lambda>(key, v). key \<notin> set hash_fields) kv) | _ \<Rightarrow> d))"

definition CONTRACT_EFFECT_TYPES :: "string list" where
  "CONTRACT_EFFECT_TYPES = [''contract_credited'', ''contract_debited'', ''contract_effect'']"

text \<open>The handler of the escrow, savings and lending listeners, which differ in their queue. It catches every error.\<close>

definition contract_handler :: "string \<Rightarrow> chain_env \<Rightarrow> chain_event \<Rightarrow> nat \<Rightarrow> chain_world \<Rightarrow> bool \<times> chain_world" where
  "contract_handler q ce ev k w =
     (if ev_type ev \<notin> set CONTRACT_EFFECT_TYPES then (True, w)
      else
        (case extractAndValidateTxHash (ev_data ev) of
           (Some h, False) \<Rightarrow> (True, w)
         | _ \<Rightarrow>
             (let payload = JObj [(''contractId'', JStr (ev_contract ev)), (''type'', JStr (ev_type ev)),
                    (''data'', sanitizeEventData (ev_data ev)), (''ledger'', JNum (Fin (ev_ledger ev))),
                    (''timestamp'', JStr (ch_iso ce (if ev_time ev = 0 then ch_now ce else ev_time ev)))] in
              case (if ch_broker ce k then producer_publish (ch_mq ce) None q (ch_uuid ce) (ch_sent ce) payload else Inl NotJson) of
                Inl err \<Rightarrow> (True, w)
              | Inr m \<Rightarrow> (True, w\<lparr>cw_published := cw_published w @ [(q, m)]\<rparr>))))"

definition escrow_handler :: "chain_env \<Rightarrow> chain_event \<Rightarrow> nat \<Rightarrow> chain_world \<Rightarrow> bool \<times> chain_world" where
  "escrow_handler = contract_handler ''acbu_escrow_events''"

definition savings_handler :: "chain_env \<Rightarrow> chain_event \<Rightarrow> nat \<Rightarrow> chain_world \<Rightarrow> bool \<times> chain_world" where
  "savings_handler = contract_handler ''acbu_savings_vault_events''"

definition lending_handler :: "chain_env \<Rightarrow> chain_event \<Rightarrow> nat \<Rightarrow> chain_world \<Rightarrow> bool \<times> chain_world" where
  "lending_handler = contract_handler ''acbu_lending_pool_events''"

lemmas contract_handlers = escrow_handler_def savings_handler_def lending_handler_def

definition chain_run :: "chain_env \<Rightarrow> nat \<Rightarrow> chain_event \<Rightarrow> nat \<Rightarrow> chain_world \<Rightarrow> bool \<times> chain_world" where
  "chain_run ce i =
     (if i = 0 then mint_handler ce else if i = 1 then burn_handler ce else if i = 2 then escrow_handler ce
      else if i = 3 then savings_handler ce else lending_handler ce)"

text \<open>
  What \<open>index.ts\<close> starts: the minting, burning, savings and lending listeners, on the contract ids that are configured
  (minting, burning, escrow, savings, lending); none is registered for an empty id.
\<close>

definition start_listeners :: "string list \<Rightarrow> listener \<Rightarrow> listener" where
  "start_listeners ids li =
     fold (\<lambda>i. listenToContractEvents (ids ! i)
         (if i = 0 then [''contract_credited'', ''contract_effect''] else if i = 1 then [''contract_debited'', ''contract_effect'']
          else CONTRACT_EFFECT_TYPES) i)
       [0, 1, 3, 4] li"

section \<open>Invariants of handlers\<close>

text \<open>What every handler keeps, the listener keeps, whatever Horizon answers.\<close>

locale event_handlers =
  fixes e :: "'w listener_env" and inv :: "'w \<Rightarrow> bool"
  assumes run_keeps: "inv w \<Longrightarrow> inv (snd (le_run e i ev k w))"
begin

lemma try_keeps: "(\<And>k w. inv w \<Longrightarrow> inv (snd (f k w))) \<Longrightarrow> inv w \<Longrightarrow> inv (snd (try_handler n k f w))"
proof (induction n arbitrary: k w)
  case (Suc n)
  then show ?case by (auto split: prod.split bool.split) (metis snd_conv)+
qed simp

lemma handler_keeps: "inv w \<Longrightarrow> inv (snd (run_handler e h ev k w))"
  by (simp add: run_handler_def run_keeps split: handler.split)

lemma capture_app [simp]: "ls_app (captureFailure e f w) = ls_app w"
  by (simp add: captureFailure_def)

lemma invoke_keeps: "inv (ls_app w) \<Longrightarrow> inv (ls_app (invokeHandlerWithRetry e ev h w))"
  using try_keeps [of "run_handler e h ev" "ls_app w" HANDLER_ATTEMPTS 1] handler_keeps
  by (auto simp: invokeHandlerWithRetry_def split: prod.split bool.split)

lemma dispatch_keeps: "inv (ls_app w) \<Longrightarrow> inv (ls_app (dispatchRawEffect e li c eff w))"
proof -
  have "inv (ls_app w) \<Longrightarrow> inv (ls_app (fold (invokeHandlerWithRetry e ev) hs w))" for hs w ev
    by (induction hs arbitrary: w) (simp_all add: invoke_keeps)
  then show "inv (ls_app w) \<Longrightarrow> ?thesis" by (simp add: dispatchRawEffect_def dispatchEvent_def split: sum.split)
qed

lemma poll_effects_keeps: "inv (ls_app (snd st)) \<Longrightarrow> inv (ls_app (snd (poll_effects e c effs st)))"
proof (induction effs arbitrary: st)
  case (Cons eff effs)
  obtain li w where st: "st = (li, w)" by (cases st)
  have "inv (ls_app (snd (updateCursor c eff li, dispatchRawEffect e li c eff w)))" using Cons.prems by (simp add: st dispatch_keeps)
  from Cons.IH [OF this] show ?case by (simp add: poll_effects_def st)
qed (simp add: poll_effects_def)

lemma poll_contract_keeps: "inv (ls_app (snd st)) \<Longrightarrow> inv (ls_app (snd (snd (pollContractOnce e c st))))"
  by (simp add: pollContractOnce_def poll_effects_keeps split: option.split)

lemma poll_keeps: "inv (ls_app (snd st)) \<Longrightarrow> inv (ls_app (snd (snd (pollOnce e st))))"
proof -
  have "inv (ls_app (snd st)) \<Longrightarrow>
      inv (ls_app (snd (snd (fold (\<lambda>c (any, st). case pollContractOnce e c st of (p, st') \<Rightarrow> (any \<or> p, st')) cs (b, st)))))" for cs b st
  proof (induction cs arbitrary: b st)
    case (Cons c cs)
    then show ?case using poll_contract_keeps [of st c] by (auto split: prod.split) 
  qed simp
  then show "inv (ls_app (snd st)) \<Longrightarrow> ?thesis" by (simp add: pollOnce_def)
qed

end

section \<open>Conversions are correlated\<close>

definition correlated :: "chain_env \<Rightarrow> txdb \<Rightarrow> conversion_job \<Rightarrow> bool" where
  "correlated ce db j \<longleftrightarrow>
     verifyTxHashOnChain (ch_on_chain ce) (cj_hash j) \<and> findTransactionByBlockchainHash TMint (cj_hash j) db = Some (cj_tx j) \<and>
     positive_amount (cj_amount j) \<and> length (cj_recipient j) = 56"

definition correlated_world :: "chain_env \<Rightarrow> txdb \<Rightarrow> chain_world \<Rightarrow> bool" where
  "correlated_world ce db w \<longleftrightarrow> cw_db w = db \<and> list_all (correlated ce db) (cw_conversions w)"

lemma recipient_length: "parseRecipientFromEffect d = Some s \<Longrightarrow> length s = 56"
  by (auto simp: parseRecipientFromEffect_def split: json.splits if_splits)

lemma mint_job_correlated: "mint_job ce db d = Some j \<Longrightarrow> correlated ce db j"
  by (auto simp: mint_job_def correlated_def dest: recipient_length split: option.splits if_splits)

lemma burn_handler_keeps: "cw_db (snd (burn_handler ce ev k w)) = cw_db w \<and> cw_conversions (snd (burn_handler ce ev k w)) = cw_conversions w"
  by (simp add: burn_handler_def split: option.split prod.split bool.split)

lemma contract_handler_returns: "fst (contract_handler q ce ev k w)"
  by (simp add: contract_handler_def Let_def split: option.split prod.split bool.split sum.split)

lemma contract_handler_keeps:
  "cw_db (snd (contract_handler q ce ev k w)) = cw_db w \<and> cw_conversions (snd (contract_handler q ce ev k w)) = cw_conversions w"
  by (simp add: contract_handler_def Let_def split: option.split prod.split bool.split sum.split)

lemma chain_run_correlated: "correlated_world ce db w \<Longrightarrow> correlated_world ce db (snd (chain_run ce i ev k w))"
  by (auto simp: chain_run_def contract_handlers correlated_world_def burn_handler_keeps contract_handler_keeps mint_handler_def
      dest: mint_job_correlated split: option.split)

interpretation mint_events: event_handlers "e\<lparr>le_run := chain_run ce\<rparr>" "correlated_world ce db"
  for e :: "chain_world listener_env" and ce db
  by unfold_locales (simp add: chain_run_correlated)

section \<open>Polling\<close>

text \<open>
  What Horizon documents of the effects of a contract: in ascending order, after the one the cursor names, at most
  as many as asked for.
\<close>

definition after_token :: "string option \<Rightarrow> json list \<Rightarrow> json list" where
  "after_token cur es = (case cur of None \<Rightarrow> es | Some t \<Rightarrow> tl (dropWhile (\<lambda>x. paging_token x \<noteq> Some t) es))"

definition horizon_page :: "nat \<Rightarrow> json list \<Rightarrow> string option \<Rightarrow> json list" where
  "horizon_page n es cur = take n (after_token cur es)"

definition tokens_ok :: "json list \<Rightarrow> bool" where
  "tokens_ok es \<longleftrightarrow> list_all (\<lambda>x. paging_token x \<noteq> None) es \<and> distinct (map paging_token es)"

definition polls :: "'w listener_env \<Rightarrow> string \<Rightarrow> nat \<Rightarrow> listener \<times> 'w listening \<Rightarrow> listener \<times> 'w listening" where
  "polls e c n = (\<lambda>st. snd (pollContractOnce e c st)) ^^ n"

lemma update_cursor_handlers [simp]: "ln_handlers (updateCursor c eff li) = ln_handlers li"
  by (simp add: updateCursor_def split: option.split)

lemma dispatch_cong: "ln_handlers li = ln_handlers li' \<Longrightarrow> dispatchRawEffect e li = dispatchRawEffect e li'"
  by (intro ext) (auto simp: dispatchRawEffect_def dispatchEvent_def handlers_of_def split: sum.split)

lemma poll_effects_eq:
  "poll_effects e c effs (li, w) = (fold (updateCursor c) effs li, fold (dispatchRawEffect e li c) effs w)"
proof (induction effs arbitrary: li w)
  case (Cons eff effs)
  have "dispatchRawEffect e (updateCursor c eff li) = dispatchRawEffect e li" by (rule dispatch_cong) simp
  then show ?case using Cons by (simp add: poll_effects_def)
qed (simp add: poll_effects_def)

lemma fold_update_handlers [simp]: "ln_handlers (fold (updateCursor c) effs li) = ln_handlers li"
  by (induction effs arbitrary: li) simp_all

lemma fold_update_cursor:
  assumes "list_all (\<lambda>x. paging_token x \<noteq> None) effs"
  shows "cursor_of c (fold (updateCursor c) effs li) = (if effs = [] then cursor_of c li else paging_token (last effs))"
proof (cases effs rule: rev_cases)
  case (snoc xs x)
  then obtain t where "paging_token x = Some t" "t \<noteq> []"
    using assms by (auto simp: paging_token_def split: json.splits if_splits)
  then show ?thesis by (simp add: snoc updateCursor_def cursor_of_def Let_def)
qed simp

lemma after_take:
  assumes "tokens_ok es" and "0 < m" and "es \<noteq> []"
  shows "after_token (paging_token (last (take m es))) es = drop m es"
proof -
  define j where "j = min m (length es) - 1"
  have j: "j < length es" "min m (length es) = Suc j"
  proof -
    have "0 < length es" using assms(3) by simp
    then show "j < length es" "min m (length es) = Suc j" using assms(2) unfolding j_def by linarith+
  qed
  have "take m es = take (Suc j) es" by (metis j(2) min_def take_all_iff nat_le_linear)
  then have last: "last (take m es) = es ! j" using j(1) by (simp add: take_Suc_conv_app_nth)
  obtain t where t: "paging_token (es ! j) = Some t"
    using assms(1) j(1) by (auto simp: tokens_ok_def list_all_length)
  have "paging_token x \<noteq> Some t" if "x \<in> set (take j es)" for x
  proof -
    from that obtain i where "i < j" "x = es ! i" using j(1) by (auto simp: in_set_conv_nth)
    then show ?thesis
      using t j(1) assms(1) nth_eq_iff_index_eq [of "map paging_token es" i j] by (auto simp: tokens_ok_def)
  qed
  then have "dropWhile (\<lambda>x. paging_token x \<noteq> Some t) (take j es @ es ! j # drop (Suc j) es) = es ! j # drop (Suc j) es"
    by (subst dropWhile_append2) (auto simp: t)
  then have "after_token (paging_token (last (take m es))) es = drop (Suc j) es"
    by (simp add: after_token_def last t id_take_nth_drop [OF j(1), symmetric])
  moreover have "drop (Suc j) es = drop m es" using j(2) by (cases "m \<le> length es") simp_all
  ultimately show ?thesis by simp
qed

lemma cursor_up [simp]: "cursor_of c (li\<lparr>ln_up := b\<rparr>) = cursor_of c li"
  by (simp add: cursor_of_def cong: option.case_cong)

text \<open>Horizon answers, and a fetch at a cursor is the page after it.\<close>

definition horizon_serves :: "'w listener_env \<Rightarrow> string \<Rightarrow> json list \<Rightarrow> bool" where
  "horizon_serves e c es \<longleftrightarrow> (\<forall>k cur n. le_fetch e k c cur n = Some (horizon_page n es cur))"

lemma poll_served:
  assumes "horizon_serves e c es"
  shows "snd (pollContractOnce e c (li, w)) = poll_effects e c (horizon_page 200 es (cursor_of c li)) (li\<lparr>ln_up := True\<rparr>, w)"
proof -
  have "first_success FETCH_ATTEMPTS 1 (\<lambda>k. le_fetch e k c (cursor_of c li) 200) = Some (horizon_page 200 es (cursor_of c li))"
    using assms by (simp add: FETCH_ATTEMPTS_def horizon_serves_def numeral_eq_Suc)
  then show ?thesis by (simp add: pollContractOnce_def)
qed

lemma polls_state:
  assumes served: "horizon_serves e c es" and ok: "tokens_ok es" and new: "cursor_of c li = None"
  shows "\<exists>li'. polls e c n (li, w) = (li', fold (dispatchRawEffect e li c) (take (200 * n) es) w) \<and>
    ln_handlers li' = ln_handlers li \<and> after_token (cursor_of c li') es = drop (200 * n) es"
proof (induction n)
  case 0
  then show ?case by (simp add: polls_def new after_token_def)
next
  case (Suc n)
  then obtain li' where li': "polls e c n (li, w) = (li', fold (dispatchRawEffect e li c) (take (200 * n) es) w)"
      "ln_handlers li' = ln_handlers li" "after_token (cursor_of c li') es = drop (200 * n) es" by blast
  define page where "page = take 200 (drop (200 * n) es)"
  have page: "horizon_page 200 es (cursor_of c li') = page" by (simp add: horizon_page_def li'(3) page_def)
  have all: "take (200 * Suc n) es = take (200 * n) es @ page" by (simp add: page_def take_add [symmetric] add.commute)
  define l2 where "l2 = fold (updateCursor c) page (li'\<lparr>ln_up := True\<rparr>)"
  have "dispatchRawEffect e (li'\<lparr>ln_up := True\<rparr>) = dispatchRawEffect e li" by (rule dispatch_cong) (simp add: li'(2))
  then have "polls e c (Suc n) (li, w) = (l2, fold (dispatchRawEffect e li c) (take (200 * Suc n) es) w)"
    using li'(1) by (simp only: polls_def funpow.simps o_apply poll_served [OF served] page poll_effects_eq l2_def all fold_append)
  moreover have "ln_handlers l2 = ln_handlers li" by (simp add: l2_def li'(2))
  moreover have "after_token (cursor_of c l2) es = drop (200 * Suc n) es"
  proof (cases "page = []")
    case True
    then have "drop (200 * n) es = []" by (cases "drop (200 * n) es") (simp_all add: page_def)
    then show ?thesis using True li'(3) by (simp add: l2_def)
  next
    case False
    then have "es \<noteq> []" by (auto simp: page_def)
    have "list_all (\<lambda>x. paging_token x \<noteq> None) page"
      using ok set_take_subset [of 200 "drop (200 * n) es"] set_drop_subset [of "200 * n" es]
      by (auto simp: tokens_ok_def page_def list_all_iff)
    moreover have "last (take (200 * Suc n) es) = last page" unfolding all using False by simp
    ultimately have "cursor_of c l2 = paging_token (last (take (200 * Suc n) es))"
      using False by (simp add: l2_def fold_update_cursor)
    then show ?thesis using after_take [OF ok _ \<open>es \<noteq> []\<close>, of "200 * Suc n"] by simp
  qed
  ultimately show ?case by blast
qed

text \<open>
  C32. As long as Horizon answers and pages its effects by the cursor (\<open>horizon_serves\<close>), every effect of a contract
  reaches the handlers exactly once and in Horizon's order: after n polls with no cursor the first 200 n effects have been dispatched, each by the handlers registered at the
  start, whatever the handlers did to the state.
\<close>

theorem polls_dispatch_in_order:
  assumes "horizon_serves e c es" and "tokens_ok es" and "cursor_of c li = None"
  shows "snd (polls e c n (li, w)) = fold (dispatchRawEffect e li c) (take (200 * n) es) w"
  using polls_state [OF assms, of n w] by fastforce

text \<open>
  The cursors live in memory only and the listener is started without one, so a restart replays the contract's whole
  history: what the second process dispatches is again the beginning of the effects, after all that the first one
  dispatched.
\<close>

theorem restart_replays_events:
  assumes "horizon_serves e c es" and "tokens_ok es" and "cursor_of c li = None"
  shows "snd (polls e c n (start_listener NoCursor li, snd (polls e c m (start_listener NoCursor li, w)))) =
    fold (dispatchRawEffect e li c) (take (200 * m) es @ take (200 * n) es) w"
proof -
  obtain l1 where l1: "polls e c m (li, w) = (l1, fold (dispatchRawEffect e li c) (take (200 * m) es) w)"
    using polls_state [OF assms, of m w] by blast
  show ?thesis using polls_state [OF assms, of n "snd (polls e c m (li, w))"] by (auto simp: start_listener_def l1)
qed

section \<open>What the contract listeners promise\<close>

text \<open>Polling over time, under the environments of each cycle.\<close>

definition listened :: "chain_env \<Rightarrow> chain_world listener_env list \<Rightarrow> listener \<times> chain_world listening \<Rightarrow> listener \<times> chain_world listening" where
  "listened ce es st = fold (\<lambda>e st. snd (pollOnce (e\<lparr>le_run := chain_run ce\<rparr>) st)) es st"

lemma listened_correlated:
  "correlated_world ce db (ls_app (snd st)) \<Longrightarrow> correlated_world ce db (ls_app (snd (listened ce es st)))"
  by (induction es arbitrary: st) (simp_all add: listened_def mint_events.poll_keeps)

text \<open>
  Every conversion the listeners ask for stands for a payment that happened: whatever Horizon returned over any number
  of polls, failed ones included, its hash names a transaction on the chain, that of a mint which is still open, its
  amount is positive and its recipient has the length of an account.
\<close>

theorem conversions_correlated:
  assumes "cw_conversions (ls_app w) = []"
  shows "list_all (correlated ce (cw_db (ls_app w))) (cw_conversions (ls_app (snd (listened ce es (li, w)))))"
  using listened_correlated [of ce "cw_db (ls_app w)" "(li, w)" es] assms by (simp add: correlated_world_def)

text \<open>
  While the transaction of a mint is being converted a further credit with its hash still asks for a conversion, and
  the consumer of that message acknowledges it without converting.
\<close>

theorem claimed_mint_not_converted_again:
  assumes "mint_job ce (cv_db st) d = Some j" and "find_tx (cj_tx j) (cv_db st) = Some r" and "tx_status r = Processing"
    and "cp_tx p = Some (cj_tx j)"
  shows "conversion_message e p st = (Acked, st)"
  using assms by (subst conversion_message_def) (simp add: redeliver_step conversion_attempt_def claimTransaction_def)

text \<open>
  The listeners of the savings and lending contracts catch the error of an unreachable broker themselves, so the
  retries and the failure queue of the listener never see it: the event changes nothing and is gone.
\<close>

theorem outage_loses_contract_event:
  assumes "le_run e = chain_run ce" and "\<not> ch_broker ce 1" and "2 \<le> i"
  shows "invokeHandlerWithRetry e ev (Filtered c types i) w = w"
proof -
  have "contract_handler q ce ev 1 (ls_app w) = (True, ls_app w)" for q
    using assms(2) by (simp add: contract_handler_def Let_def split: option.split prod.split bool.split)
  then have "run_handler e (Filtered c types i) ev 1 (ls_app w) = (True, ls_app w)"
    using assms by (simp add: run_handler_def chain_run_def contract_handlers)
  then show ?thesis by (simp add: invokeHandlerWithRetry_def HANDLER_ATTEMPTS_def numeral_eq_Suc)
qed

text \<open>
  A credit that the minting listener cannot hand to the broker in three attempts goes to the failure queue and leaves
  the rest of the state as it was.
\<close>

theorem mint_outage_captured:
  assumes "le_run e = chain_run ce" and "\<And>k. \<not> ch_broker ce k" and "le_capture e"
    and "mint_job ce (cw_db (ls_app w)) (ev_data ev) = Some j"
  shows "invokeHandlerWithRetry e ev (Plain 0) w = w\<lparr>ls_failures := ls_failures w @ [HandlerFailure ev]\<rparr>"
proof -
  have "run_handler e (Plain 0) ev k (ls_app w) = (False, ls_app w)" for k
    using assms by (simp add: run_handler_def chain_run_def mint_handler_def)
  then have "try_handler n k (run_handler e (Plain 0) ev) (ls_app w) = (False, ls_app w)" for n k
    by (induction n arbitrary: k) simp_all
  then show ?thesis using assms(3) by (simp add: invokeHandlerWithRetry_def captureFailure_def)
qed

text \<open>The validity flag of a hash never rejects: a valid link lets other hash fields through unchanged.\<close>

lemma extracted_hash_shape: "extractTxHashFromEffect d = Some h \<Longrightarrow> isValidStellarTxHash h"
proof -
  assume h: "extractTxHashFromEffect d = Some h"
  have field: "(case v of JStr s \<Rightarrow> if isValidStellarTxHash s then Some s else l | _ \<Rightarrow> l) = Some h \<Longrightarrow>
      isValidStellarTxHash h \<or> l = Some h" for v l by (cases v) (auto split: if_splits)
  have link: "(case v of JStr s \<Rightarrow> link_hash s | _ \<Rightarrow> None) = Some h \<Longrightarrow> isValidStellarTxHash h" for v
    by (cases v) (auto simp: link_hash_def isValidStellarTxHash_def Let_def split: if_splits)
  show ?thesis using h unfolding extractTxHashFromEffect_def Let_def by (blast dest: field link)
qed

lemma extract_valid [simp]: "snd (extractAndValidateTxHash d)"
  by (simp add: extractAndValidateTxHash_def extracted_hash_shape split: option.split)

lemma sanitize_keeps_linked: "extractTxHashFromEffect d \<noteq> None \<Longrightarrow> sanitizeEventData d = d"
  using extract_valid [of d] by (auto simp: sanitizeEventData_def extractAndValidateTxHash_def split: option.splits)

lemma listen_contracts: "set (ln_contracts (listenToContractEvents c ts h li)) \<subseteq> insert c (set (ln_contracts li))"
  by (auto simp: listenToContractEvents_def on_event_def Let_def)

lemma listeners_contracts:
  "set (ln_contracts (fold (\<lambda>i. listenToContractEvents (ids ! i) (f i) i) js li)) \<subseteq> (!) ids ` set js \<union> set (ln_contracts li)"
proof (induction js arbitrary: li)
  case (Cons j js)
  then show ?case using listen_contracts [of "ids ! j" "f j" j li] by fastforce
qed simp

text \<open>
  The escrow contract is not watched: although it has a listener, the listeners the process starts register no poll of
  it, unless it shares its address with another contract.
\<close>

theorem escrow_never_watched:
  assumes "ids ! 2 \<notin> {ids ! 0, ids ! 1, ids ! 3, ids ! 4}" and "ids ! 2 \<notin> set (ln_contracts li)"
  shows "ids ! 2 \<notin> set (ln_contracts (start_listeners ids li))"
  using listeners_contracts [of ids _ "[0, 1, 3, 4]" li] assms unfolding start_listeners_def by fastforce

section \<open>Concrete inputs\<close>

definition sample_effect :: json where
  "sample_effect = JObj [(''type'', JStr ''contract_credited''), (''paging_token'', JStr ''7''), (''amount'', JStr ''5''),
     (''account'', JStr (replicate 56 (CHR ''G''))), (''transaction_hash'', JStr (replicate 64 (CHR ''a'')))]"

definition sample_chain :: "bool \<Rightarrow> chain_env" where
  "sample_chain broker = \<lparr>ch_operation = (\<lambda>i. None), ch_on_chain = (\<lambda>h. True), ch_broker = (\<lambda>k. broker), ch_mq = plain_env,
     ch_uuid = ''u'', ch_sent = ''s'', ch_iso = (\<lambda>t. ''T''), ch_now = 0\<rparr>"

definition sample_listener_env :: "bool \<Rightarrow> chain_world listener_env" where
  "sample_listener_env broker = \<lparr>le_fetch = (\<lambda>k c cur n. Some (horizon_page n [sample_effect] cur)), le_probe = (\<lambda>k. True),
     le_run = chain_run (sample_chain broker), le_capture = True, le_date = (\<lambda>s. None), le_now = 0\<rparr>"

definition sample_chain_db :: "status \<Rightarrow> txdb" where
  "sample_chain_db s = \<lparr>tx_rows = [(new_txn TMint s 0)\<lparr>tx_id := 3, tx_hash := Some (replicate 64 (CHR ''a''))\<rparr>], tx_next = 4\<rparr>"

definition sample_world :: "status \<Rightarrow> chain_world listening" where
  "sample_world s = \<lparr>ls_app = \<lparr>cw_db = sample_chain_db s, cw_conversions = [], cw_withdrawals = [], cw_published = []\<rparr>,
     ls_failures = []\<rparr>"

definition sample_listener :: listener where
  "sample_listener = start_listeners [''M'', [], ''E'', [], []]
     \<lparr>ln_handlers = [], ln_contracts = [], ln_cursors = [], ln_default = None, ln_up = True, ln_reconnects = 0\<rparr>"

definition sample_job :: conversion_job where
  "sample_job = \<lparr>cj_amount = ''5'', cj_recipient = replicate 56 (CHR ''G''), cj_hash = replicate 64 (CHR ''a''), cj_tx = 3\<rparr>"

lemma sample_mint_job: "s \<in> {Pending, Processing} \<Longrightarrow> mint_job (sample_chain b) (sample_chain_db s) sample_effect = Some sample_job"
proof -
  assume s: "s \<in> {Pending, Processing}"
  have r: "resolveTxHash (\<lambda>i. None) sample_effect = (Some (replicate 64 (CHR ''a'')), True)"
    "parseAmountFromEffect sample_effect = Some ''5''" "parseRecipientFromEffect sample_effect = Some (replicate 56 (CHR ''G''))"
    "positive_amount ''5''" "isValidStellarTxHash (replicate 64 (CHR ''a''))"
    by code_simp+
  show ?thesis
    using s by (auto simp: mint_job_def r sample_chain_def verifyTxHashOnChain_def findTransactionByBlockchainHash_def
        sample_chain_db_def new_txn_def sample_job_def)
qed

lemma sample_serves: "horizon_serves (sample_listener_env b) c [sample_effect]"
  by (simp add: horizon_serves_def sample_listener_env_def)

lemma sample_tokens: "tokens_ok [sample_effect]"
  by code_simp

lemmas sample_page = sample_serves sample_tokens

lemma sample_cursor: "cursor_of ''M'' sample_listener = None"
  by code_simp

theorem polls_dispatch_in_order_witness:
  "snd (polls (sample_listener_env True) ''M'' 2 (sample_listener, sample_world Pending)) =
     dispatchRawEffect (sample_listener_env True) sample_listener ''M'' sample_effect (sample_world Pending)"
  using polls_dispatch_in_order [OF sample_page sample_cursor, of True 2 "sample_world Pending"] by simp

theorem restart_replays_events_witness:
  "snd (polls (sample_listener_env True) ''M'' 1 (start_listener NoCursor sample_listener,
      snd (polls (sample_listener_env True) ''M'' 1 (start_listener NoCursor sample_listener, sample_world Pending)))) =
   fold (dispatchRawEffect (sample_listener_env True) sample_listener ''M'') [sample_effect, sample_effect] (sample_world Pending)"
  using restart_replays_events [OF sample_page sample_cursor, of True 1 1 "sample_world Pending"] by simp

lemma sample_listened:
  "cw_conversions (ls_app (snd (listened (sample_chain True) [sample_listener_env True] (sample_listener, sample_world Pending)))) = [sample_job]"
  by code_simp

theorem conversions_correlated_witness: "correlated (sample_chain True) (sample_chain_db Pending) sample_job"
proof -
  have "cw_conversions (ls_app (sample_world Pending)) = []" "cw_db (ls_app (sample_world Pending)) = sample_chain_db Pending"
    by (simp_all add: sample_world_def)
  then show ?thesis
    using conversions_correlated [of "sample_world Pending" "sample_chain True" "[sample_listener_env True]" sample_listener]
    by (simp add: sample_listened)
qed

theorem claimed_mint_not_converted_again_witness:
  "conversion_message sample_conv_env (sample_payload\<lparr>cp_tx := Some 3\<rparr>) (sample_conv\<lparr>cv_db := sample_chain_db Processing\<rparr>) =
     (Acked, sample_conv\<lparr>cv_db := sample_chain_db Processing\<rparr>)"
  by (rule claimed_mint_not_converted_again [where ce = "sample_chain True" and d = sample_effect and j = sample_job
        and r = "(new_txn TMint Processing 0)\<lparr>tx_id := 3, tx_hash := Some (replicate 64 (CHR ''a''))\<rparr>"])
    (simp add: sample_mint_job, simp_all add: sample_job_def sample_chain_db_def find_tx_def new_txn_def)

definition sample_event :: chain_event where
  "sample_event = \<lparr>ev_contract = ''M'', ev_type = ''contract_credited'', ev_version = 1, ev_data = sample_effect, ev_ledger = 0,
     ev_time = 0\<rparr>"

theorem outage_loses_contract_event_witness:
  "invokeHandlerWithRetry (sample_listener_env False) sample_event (Filtered ''M'' CONTRACT_EFFECT_TYPES 3) (sample_world Pending) =
     sample_world Pending"
  by (rule outage_loses_contract_event [where ce = "sample_chain False"]) (simp_all add: sample_listener_env_def sample_chain_def)

theorem mint_outage_captured_witness:
  "ls_failures (invokeHandlerWithRetry (sample_listener_env False) sample_event (Plain 0) (sample_world Pending)) = [HandlerFailure sample_event]"
  by (subst mint_outage_captured [where ce = "sample_chain False" and j = sample_job])
    (simp_all add: sample_listener_env_def sample_world_def sample_event_def sample_mint_job, simp add: sample_chain_def)

theorem escrow_never_watched_witness: "''E'' \<notin> set (ln_contracts sample_listener)"
  using escrow_never_watched [of "[''M'', [], ''E'', [], []]"] by (simp add: sample_listener_def)

end
