(* ===== verification/Oracle.thy ===== *)
theory Oracle
  imports Basket Minting Messages JobLock
begin

text \<open>
  The price oracle: \<open>src/services/oracle/\<close> (the layers, outliers, the deviation limit, the circuit breaker, the
  synthetic basket), \<open>src/services/rates/exchangeRateService.ts\<close> (the forex feed behind its cache),
  \<open>src/services/metrics/worldBankClient.ts\<close> and the routing of \<open>src/services/fintech/\<close>. What the feeds answer, the
  clock and the contract are parameters; numbers read from JSON are doubles.
\<close>

section \<open>The forex feed\<close>

record fx_entry =
  fe_rate :: "rat option"
  fe_expires :: int

record fx_state =
  fs_cache :: "(string \<times> fx_entry) list"
  fs_calls :: nat

datatype fx_answer = FxData json | FxError "nat option" string     \<comment> \<open>status of the response if any, code\<close>

record fx_env =
  fx_key :: string
  fx_api :: "string \<Rightarrow> fx_answer"
  fx_positive :: int
  fx_negative :: int

definition MIN_REASONABLE_EXCHANGE_RATE :: rat where "MIN_REASONABLE_EXCHANGE_RATE = f64 (1 / 100000000)"
definition MAX_REASONABLE_EXCHANGE_RATE :: rat where "MAX_REASONABLE_EXCHANGE_RATE = 1000000"

definition isReasonableExchangeRate :: "jsnum \<Rightarrow> bool" where
  "isReasonableExchangeRate n =
     (case n of Fin q \<Rightarrow> 0 < q \<and> MIN_REASONABLE_EXCHANGE_RATE \<le> q \<and> q \<le> MAX_REASONABLE_EXCHANGE_RATE | _ \<Rightarrow> False)"

definition resolveExchangeRateCacheTtlMs :: "fx_env \<Rightarrow> bool \<Rightarrow> int" where
  "resolveExchangeRateCacheTtlMs e success = (if success then fx_positive e else fx_negative e)"

definition isRetryableRateApiError :: "nat option \<Rightarrow> string \<Rightarrow> bool" where
  "isRetryableRateApiError status code \<longleftrightarrow>
     (case status of
        None \<Rightarrow> True
      | Some s \<Rightarrow> 500 \<le> s \<or> s = 408 \<or> s = 429 \<or> code = ''ECONNABORTED'' \<or> code = ''ETIMEDOUT'')"

text \<open>None where nothing is cached; an expired entry is dropped on the way.\<close>

definition getCachedExchangeRate :: "int \<Rightarrow> string \<Rightarrow> fx_state \<Rightarrow> rat option option \<times> fx_state" where
  "getCachedExchangeRate now c st =
     (case map_of (fs_cache st) (to_upper c) of
        None \<Rightarrow> (None, st)
      | Some en \<Rightarrow>
          if fe_expires en \<le> now then (None, st\<lparr>fs_cache := filter (\<lambda>(k, v). k \<noteq> to_upper c) (fs_cache st)\<rparr>)
          else (Some (fe_rate en), st))"

definition setCachedExchangeRate :: "fx_env \<Rightarrow> int \<Rightarrow> string \<Rightarrow> rat option \<Rightarrow> bool \<Rightarrow> fx_state \<Rightarrow> fx_state" where
  "setCachedExchangeRate e now c rate success st =
     st\<lparr>fs_cache := (to_upper c, \<lparr>fe_rate = rate, fe_expires = now + resolveExchangeRateCacheTtlMs e success\<rparr>) #
       filter (\<lambda>(k, v). k \<noteq> to_upper c) (fs_cache st)\<rparr>"

definition invalidateExchangeRateCache :: "string option \<Rightarrow> fx_state \<Rightarrow> fx_state" where
  "invalidateExchangeRateCache c st =
     st\<lparr>fs_cache := (if truthy c then filter (\<lambda>(k, v). k \<noteq> to_upper (the c)) (fs_cache st) else [])\<rparr>"

definition fetchFromExternalApi :: "fx_env \<Rightarrow> string \<Rightarrow> (nat option \<times> string) + rat option" where
  "fetchFromExternalApi e c =
     (if fx_key e = [] then Inr None
      else
        (case fx_api e c of
           FxError status code \<Rightarrow> Inl (status, code)
         | FxData d \<Rightarrow>
             (case jget d ''conversion_rate'' of
                JNum n \<Rightarrow> Inr (if jget d ''result'' = JStr ''success'' \<and> isReasonableExchangeRate n then fin_val n else None)
              | _ \<Rightarrow> Inr None)))"

text \<open>Callers that miss at once share a request; a request takes no time here, so none is ever in flight.\<close>

definition fetchExchangeRateUsd :: "fx_env \<Rightarrow> int \<Rightarrow> string \<Rightarrow> fx_state \<Rightarrow> rat option \<times> fx_state" where
  "fetchExchangeRateUsd e now c st =
     (let key = to_upper c in
      case getCachedExchangeRate now key st of
        (Some r, st1) \<Rightarrow> (r, st1)
      | (None, st1) \<Rightarrow>
          (let st2 = (if fx_key e = [] then st1 else st1\<lparr>fs_calls := Suc (fs_calls st1)\<rparr>) in
           case fetchFromExternalApi e key of
             Inr rate \<Rightarrow>
               (let success = (case rate of Some q \<Rightarrow> 0 < q | None \<Rightarrow> False); r = (if success then rate else None) in
                (r, setCachedExchangeRate e now key r success st2))
           | Inl (status, code) \<Rightarrow>
               (None, if isRetryableRateApiError status code then setCachedExchangeRate e now key None False st2 else st2)))"

section \<open>The other layers\<close>

definition jnumber :: "json \<Rightarrow> rat option" where
  "jnumber v = (case v of JNum n \<Rightarrow> fin_val n | _ \<Rightarrow> None)"

definition extractRate :: "json \<Rightarrow> rat option" where
  "extractRate d =
     (case jnumber (jget d ''rate'') of
        Some r \<Rightarrow> Some r
      | None \<Rightarrow> (case jnumber (jget d ''conversion_rate'') of Some r \<Rightarrow> Some r | None \<Rightarrow> jnumber (jget (jget d ''data'') ''rate'')))"

text \<open>\<open>url\<close> is empty where none is configured, \<open>get\<close> is None where the request fails.\<close>

definition fetchCentralBankRateUsd :: "(string \<Rightarrow> string) \<Rightarrow> (string \<Rightarrow> json option) \<Rightarrow> string \<Rightarrow> rat option" where
  "fetchCentralBankRateUsd url get c =
     (if url c = [] then None else (case get (url c) of None \<Rightarrow> None | Some d \<Rightarrow> extractRate d))"

definition CURRENCY_TO_ISO2 :: "(string \<times> string) list" where
  "CURRENCY_TO_ISO2 =
     [(''NGN'', ''NG''), (''ZAR'', ''ZA''), (''KES'', ''KE''), (''EGP'', ''EG''), (''GHS'', ''GH''), (''RWF'', ''RW''),
      (''XOF'', ''SN''), (''MAD'', ''MA''), (''TZS'', ''TZ''), (''UGX'', ''UG'')]"

text \<open>\<open>bank\<close> is the answer of the World Bank for a country and an indicator, None where the request fails.\<close>

definition fetchIndicatorValue :: "(string \<Rightarrow> string \<Rightarrow> json option) \<Rightarrow> string \<Rightarrow> string \<Rightarrow> rat option" where
  "fetchIndicatorValue bank iso2 indicator =
     (case bank iso2 indicator of
        Some (JArr (_ # JArr records # _)) \<Rightarrow>
          (case find (\<lambda>r. jget r ''value'' \<noteq> JNull) records of None \<Rightarrow> None | Some r \<Rightarrow> jnumber (jget r ''value''))
      | _ \<Rightarrow> None)"

definition fetch_indicator :: "string \<Rightarrow> (string \<Rightarrow> string \<Rightarrow> json option) \<Rightarrow> string \<Rightarrow> rat option" where
  "fetch_indicator indicator bank c =
     (case map_of CURRENCY_TO_ISO2 c of None \<Rightarrow> None | Some iso2 \<Rightarrow> fetchIndicatorValue bank iso2 indicator)"

definition fetchGdpUsd :: "(string \<Rightarrow> string \<Rightarrow> json option) \<Rightarrow> string \<Rightarrow> rat option" where
  "fetchGdpUsd = fetch_indicator ''NY.GDP.MKTP.CD''"

definition fetchPopulation :: "(string \<Rightarrow> string \<Rightarrow> json option) \<Rightarrow> string \<Rightarrow> rat option" where
  "fetchPopulation = fetch_indicator ''SP.POP.TOTL''"

definition fetchExchangeRate :: "(string \<Rightarrow> string \<Rightarrow> json option) \<Rightarrow> string \<Rightarrow> rat option" where
  "fetchExchangeRate bank c =
     (case fetch_indicator ''PA.NUS.FCRF'' bank c of Some v \<Rightarrow> if 0 < v then Some (f64 (1 / v)) else None | None \<Rightarrow> None)"

section \<open>Providers\<close>

text \<open>A provider is the simulated one or one of the partners, which this build does not register.\<close>

datatype provider = Simulated | Partner string

record router =
  rt_providers :: "(string \<times> provider) list"
  rt_currencies :: "(string \<times> string list) list"

definition DEFAULT_CURRENCY_PROVIDERS :: "(string \<times> string list) list" where
  "DEFAULT_CURRENCY_PROVIDERS =
     [(''NGN'', [''paystack'', ''flutterwave'']), (''KES'', [''flutterwave'']), (''RWF'', [''mtn_momo'', ''flutterwave'']),
      (''ZAR'', [''flutterwave'']), (''GHS'', [''flutterwave'']), (''EGP'', [''flutterwave'']), (''MAD'', [''flutterwave'']),
      (''TZS'', [''flutterwave'']), (''UGX'', [''flutterwave'']), (''XOF'', [''flutterwave''])]"

definition new_router :: "(string \<times> string list) list option \<Rightarrow> router" where
  "new_router cs = \<lparr>rt_providers = [], rt_currencies = (case cs of None \<Rightarrow> DEFAULT_CURRENCY_PROVIDERS | Some m \<Rightarrow> m)\<rparr>"

definition register :: "string \<Rightarrow> provider \<Rightarrow> router \<Rightarrow> router" where
  "register i p r = r\<lparr>rt_providers := (i, p) # filter (\<lambda>(k, v). k \<noteq> i) (rt_providers r)\<rparr>"

definition boot_router :: router where
  "boot_router = register ''mtn_momo'' Simulated (register ''paystack'' Simulated (register ''flutterwave'' Simulated
     (register ''simulated'' Simulated (new_router (Some [])))))"

definition provider_ids :: "router \<Rightarrow> string \<Rightarrow> string list" where
  "provider_ids r c = (case map_of (rt_currencies r) c of Some is \<Rightarrow> is | None \<Rightarrow> [''flutterwave''])"

text \<open>The first provider in order that is registered and healthy, else flutterwave if it was not in the list.\<close>

definition getProvider :: "(provider \<Rightarrow> bool) \<Rightarrow> router \<Rightarrow> string option \<Rightarrow> string \<Rightarrow> provider option" where
  "getProvider healthy r outage c =
     (case find healthy (List.map_filter (\<lambda>i. if truthy outage \<and> outage = Some i then None else map_of (rt_providers r) i) (provider_ids r c)) of
        Some p \<Rightarrow> Some p
      | None \<Rightarrow> if ''flutterwave'' \<notin> set (provider_ids r c) then map_of (rt_providers r) ''flutterwave'' else None)"

definition getProviderById :: "router \<Rightarrow> string \<Rightarrow> provider option" where
  "getProviderById r i = map_of (rt_providers r) i"

definition getPreferredProviderId :: "router \<Rightarrow> string \<Rightarrow> string" where
  "getPreferredProviderId r c = (case map_of (rt_currencies r) c of Some (i # _) \<Rightarrow> i | _ \<Rightarrow> ''flutterwave'')"

section \<open>Stored rates\<close>

record oracle_rate =
  ox_currency :: string
  ox_rate :: rat
  ox_cb :: "rat option"
  ox_fintech :: "rat option"
  ox_forex :: "rat option"
  ox_median :: rat
  ox_world :: "rat option"
  ox_deviation :: "rat option"
  ox_review :: bool
  ox_at :: int

definition newest_oracle :: "string \<Rightarrow> oracle_rate list \<Rightarrow> oracle_rate option" where
  "newest_oracle c rows =
     (let rs = filter (\<lambda>r. ox_currency r = c) rows in find (\<lambda>r. list_all (\<lambda>q. ox_at q \<le> ox_at r) rs) rs)"

text \<open>The simulated provider converts at the stored rates; \<open>div\<close> and \<open>mul\<close> are the decimal's.\<close>

definition simulated_convert :: "oracle_rate list \<Rightarrow> rat \<Rightarrow> string \<Rightarrow> string \<Rightarrow> (rat \<times> rat) option" where
  "simulated_convert rows amount from into =
     (case (newest_oracle from rows, newest_oracle into rows) of
        (Some f, Some t) \<Rightarrow>
          if ox_rate f = 0 \<or> ox_rate t = 0 then None
          else (let rate = prisma_dec (ox_rate f / ox_rate t) in
            Some (f64 (prisma_dec (dec_of_num amount * rate)), f64 rate))
      | _ \<Rightarrow> None)"

definition getAverageRateOverHours :: "int \<Rightarrow> oracle_rate list \<Rightarrow> string \<Rightarrow> int \<Rightarrow> rat option" where
  "getAverageRateOverHours now rows c hours =
     (let rs = sort_key ox_at (filter (\<lambda>r. ox_currency r = c \<and> now - hours * 3600000 \<le> ox_at r) rows) in
      if rs = [] then None else Some (f64 (js_sum (map (\<lambda>r. f64 (ox_median r)) rs) / of_nat (length rs))))"

definition getTwap24h :: "int \<Rightarrow> oracle_rate list \<Rightarrow> string \<Rightarrow> rat option" where
  "getTwap24h now rows c = getAverageRateOverHours now rows c 24"

section \<open>Aggregation\<close>

definition OUTLIER_DEVIATION :: rat where "OUTLIER_DEVIATION = f64 (3 / 100)"

text \<open>The result: the deviation, None where there is no earlier rate, and whether a review is required.\<close>

definition assessRateDeviation :: "rat option \<Rightarrow> rat \<Rightarrow> rat \<Rightarrow> rat option \<times> bool" where
  "assessRateDeviation prev rate maxDeviation =
     (case prev of
        None \<Rightarrow> (None, False)
      | Some p \<Rightarrow> if p \<le> 0 then (None, False) else (let d = f64 (\<bar>f64 (rate - p)\<bar> / p) in (Some d, maxDeviation < d)))"

definition median :: "rat list \<Rightarrow> rat" where
  "median vs =
     (let s = sort vs; m = length s div 2 in
      if vs = [] then 0 else if odd (length s) then s ! m else f64 (f64 (s ! (m - 1) + s ! m) / 2))"

definition excludeOutliers :: "rat list \<Rightarrow> rat \<Rightarrow> rat list" where
  "excludeOutliers vs threshold =
     (let m = median vs in filter (\<lambda>v. f64 (\<bar>f64 (v - m)\<bar> / (if m = 0 then 1 else m)) \<le> threshold) vs)"

text \<open>The layers in their order, each of the same weight.\<close>

definition LAYER_WEIGHT :: rat where "LAYER_WEIGHT = 1 / 4"

definition compositeRate :: "rat option list \<Rightarrow> rat" where
  "compositeRate layers =
     (let parts = concat (map (\<lambda>l. case l of None \<Rightarrow> [] | Some v \<Rightarrow> [v]) layers); w = js_sum (map (\<lambda>_. LAYER_WEIGHT) parts) in
      if parts = [] then 0 else foldl (\<lambda>s v. f64 (s + f64 (f64 (LAYER_WEIGHT / w) * v))) 0 parts)"

definition positive_quotes :: "rat option list \<Rightarrow> rat list" where
  "positive_quotes layers = concat (map (\<lambda>l. case l of None \<Rightarrow> [] | Some v \<Rightarrow> if 0 < v then [v] else []) layers)"

text \<open>The rate of the four layers with outliers left out; None where no layer has a positive one.\<close>

definition aggregate_layers :: "rat option list \<Rightarrow> rat option" where
  "aggregate_layers layers =
     (let quotes = positive_quotes layers; inliers = excludeOutliers quotes OUTLIER_DEVIATION in
      if quotes = [] then None
      else if length inliers < length quotes \<and> 0 < length inliers
        then Some (compositeRate (map (\<lambda>l. case l of Some v \<Rightarrow> if v \<in> set inliers then Some v else None | None \<Rightarrow> None) layers))
      else Some (compositeRate layers))"

section \<open>The synthetic basket\<close>

record basket_leg =
  lg_currency :: string
  lg_weight :: rat
  lg_fraction :: rat
  lg_usd_per_local :: rat
  lg_local :: rat
  lg_value :: rat

definition make_leg :: "rat \<Rightarrow> rat \<Rightarrow> (string \<Rightarrow> rat) \<Rightarrow> string \<times> rat \<Rightarrow> basket_leg" where
  "make_leg v w rate = (\<lambda>(c, weight).
     let f = f64 (weight / w); value = f64 (v * f) in
     \<lparr>lg_currency = c, lg_weight = weight, lg_fraction = f, lg_usd_per_local = rate c, lg_local = f64 (value / rate c), lg_value = value\<rparr>)"

definition composeOneAcbuFromWeightsAndUsdRates :: "(string \<times> rat) list \<Rightarrow> (string \<Rightarrow> rat) \<Rightarrow> rat \<Rightarrow> basket_leg list option" where
  "composeOneAcbuFromWeightsAndUsdRates basket rate v =
     (let priced = filter (\<lambda>(c, w). 0 < w \<and> 0 < rate c) basket; w = js_sum (map snd priced) in
      if priced = [] \<or> w \<le> 0 then None else Some (map (make_leg v w rate) priced))"

definition usd_per_local :: "oracle_rate list \<Rightarrow> string \<Rightarrow> rat" where
  "usd_per_local rows c = (case newest_oracle c rows of None \<Rightarrow> 0 | Some r \<Rightarrow> f64 (ox_median r))"

definition computeSyntheticBasketOneAcbuForBasket :: "(string \<times> rat) list \<Rightarrow> oracle_rate list \<Rightarrow> rat \<Rightarrow> basket_leg list option" where
  "computeSyntheticBasketOneAcbuForBasket basket rows v = composeOneAcbuFromWeightsAndUsdRates basket (usd_per_local rows) v"

section \<open>An update\<close>

record acbu_row =
  aw_rate :: acbu_rate
  aw_change :: "rat option"
  aw_at :: int

record oracle_state =
  os_rates :: "oracle_rate list"
  os_acbu :: "acbu_row list"
  os_fx :: fx_state
  os_chain :: "(string \<times> int) list"

record oracle_env =
  oe_now :: int
  oe_fx :: fx_env
  oe_url :: "string \<Rightarrow> string"
  oe_get :: "string \<Rightarrow> json option"
  oe_bank :: "string \<Rightarrow> string \<Rightarrow> json option"
  oe_router :: router
  oe_healthy :: "provider \<Rightarrow> bool"
  oe_partner :: "string \<Rightarrow> string \<Rightarrow> rat option"
  oe_max :: rat
  oe_breaker :: rat
  oe_store :: "string \<Rightarrow> bool"
  oe_contract :: bool
  oe_account :: bool
  oe_chain :: "string \<Rightarrow> bool"
  oe_basket :: "basket_row list"

datatype oracle_error = OracleBasket basket_error | AcbuRateRefused

definition fintech_rate :: "oracle_env \<Rightarrow> string \<Rightarrow> rat option" where
  "fintech_rate e c =
     (case getProvider (oe_healthy e) (oe_router e) None c of Some (Partner i) \<Rightarrow> oe_partner e i c | _ \<Rightarrow> None)"

text \<open>Central bank, fintech, forex and World Bank, in this order.\<close>

definition fetch_layers :: "oracle_env \<Rightarrow> string \<Rightarrow> fx_state \<Rightarrow> rat option list \<times> fx_state" where
  "fetch_layers e c fx =
     (case fetchExchangeRateUsd (oe_fx e) (oe_now e) c fx of
        (forex, fx1) \<Rightarrow> ([fetchCentralBankRateUsd (oe_url e) (oe_get e) c, fintech_rate e c, forex, fetchExchangeRate (oe_bank e) c], fx1))"

definition rate_columns :: "rat option list \<Rightarrow> rat option list option" where
  "rate_columns = those \<circ> map (\<lambda>l. case l of None \<Rightarrow> Some None | Some v \<Rightarrow> map_option Some (decimal_column 20 8 (dec_of_num v)))"

text \<open>The rate after the circuit breaker, with the deviation and the flag of the raw move.\<close>

definition settle_rate :: "oracle_env \<Rightarrow> oracle_rate list \<Rightarrow> string \<Rightarrow> rat \<Rightarrow> rat \<times> rat option \<times> bool" where
  "settle_rate e rows c composite =
     (case assessRateDeviation (map_option (\<lambda>r. f64 (ox_median r)) (newest_oracle c rows)) composite (oe_max e) of
        (dev, review) \<Rightarrow>
          (case (if (case dev of None \<Rightarrow> False | Some d \<Rightarrow> oe_breaker e < d) then getAverageRateOverHours (oe_now e) rows c 48 else None) of
             Some avg \<Rightarrow> (avg, dev, review)
           | None \<Rightarrow> (composite, dev, review)))"

text \<open>The new row, None where a column does not hold it or the database refuses it.\<close>

definition rate_record :: "oracle_env \<Rightarrow> oracle_rate list \<Rightarrow> string \<Rightarrow> rat option list \<Rightarrow> rat \<times> rat option \<times> bool \<Rightarrow> oracle_rate option" where
  "rate_record e rows c layers = (\<lambda>(rate, dev, review).
     case (decimal_column 20 8 (dec_of_num rate), rate_columns (take 3 layers)) of
       (Some v, Some cols) \<Rightarrow>
         if \<not> oe_store e c \<or> (\<exists>r \<in> set rows. ox_currency r = c \<and> ox_at r = oe_now e) then None
         else Some \<lparr>ox_currency = c, ox_rate = v, ox_cb = cols ! 0, ox_fintech = cols ! 1, ox_forex = cols ! 2, ox_median = v,
           ox_world = layers ! 3, ox_deviation = dev, ox_review = review, ox_at = oe_now e\<rparr>
     | _ \<Rightarrow> None)"

definition update_currency :: "oracle_env \<Rightarrow> string \<Rightarrow> oracle_state \<Rightarrow> oracle_state" where
  "update_currency e c st =
     (case fetch_layers e c (os_fx st) of
        (layers, fx) \<Rightarrow>
          (let st1 = st\<lparr>os_fx := fx\<rparr> in
           case aggregate_layers layers of
             None \<Rightarrow> st1
           | Some composite \<Rightarrow>
               (let s = settle_rate e (os_rates st) c composite in
                case rate_record e (os_rates st) c layers s of
                  None \<Rightarrow> st1
                | Some r \<Rightarrow>
                    st1\<lparr>os_rates := os_rates st @ [r],
                      os_chain := (if oe_contract e \<and> oe_account e \<and> oe_chain e c
                        then os_chain st @ [(c, js_round (f64 (fst s * 10000000)))] else os_chain st)\<rparr>)))"

definition leg_local :: "basket_leg list \<Rightarrow> string \<Rightarrow> rat option" where
  "leg_local legs c = map_of (rev (map (\<lambda>l. (lg_currency l, lg_local l)) legs)) c"

definition basket_currencies :: "string list" where
  "basket_currencies = [''NGN'', ''KES'', ''ZAR'', ''RWF'', ''GHS'', ''EGP'', ''MAD'', ''TZS'', ''UGX'', ''XOF'']"

definition local_column :: "basket_leg list \<Rightarrow> string \<Rightarrow> rat option option" where
  "local_column legs c =
     (case leg_local legs c of None \<Rightarrow> Some None | Some q \<Rightarrow> map_option Some (decimal_column 20 2 (dec_of_num q)))"

text \<open>The change against the newest row of more than a day ago: None where the division by zero makes it no number.\<close>

definition change24h :: "int \<Rightarrow> acbu_row list \<Rightarrow> rat \<Rightarrow> rat option option" where
  "change24h now rows usd =
     (let old = filter (\<lambda>r. aw_at r < now - 86400000) rows in
      case find (\<lambda>r. list_all (\<lambda>q. aw_at q \<le> aw_at r) old) old of
        None \<Rightarrow> Some None
      | Some r \<Rightarrow>
          (let p = f64 (acbuUsd (aw_rate r)) in
           if usd \<le> 0 then Some None
           else if p = 0 then None
           else map_option Some (decimal_column 5 2 (dec_of_num (f64 (f64 (f64 (usd - p) / p) * 100))))))"

definition store_acbu_rate :: "int \<Rightarrow> rat \<Rightarrow> basket_leg list \<Rightarrow> acbu_row list \<Rightarrow> acbu_row list option" where
  "store_acbu_rate now usd legs rows =
     (case (decimal_column 20 8 (dec_of_num usd), change24h now rows usd, those (map (local_column legs) basket_currencies)) of
        (Some u, Some ch, Some cols) \<Rightarrow>
          Some (rows @ [\<lparr>aw_rate = \<lparr>acbuUsd = u,
             ar_field = (\<lambda>f. case find (\<lambda>(c, v). map_of CURRENCY_TO_RATE_FIELD c = Some f) (zip basket_currencies cols) of
               None \<Rightarrow> None | Some (c, v) \<Rightarrow> v)\<rparr>, aw_change = ch, aw_at = now\<rparr>])
      | _ \<Rightarrow> None)"

definition fetchAndStoreRates :: "oracle_env \<Rightarrow> oracle_state \<Rightarrow> (oracle_error + unit) \<times> oracle_state" where
  "fetchAndStoreRates e st =
     (case getCurrentBasket (oe_basket e) of
        Inl err \<Rightarrow> (Inl (OracleBasket err), st)
      | Inr basket \<Rightarrow>
          (let st1 = fold (update_currency e) (map fst basket) st in
           case computeSyntheticBasketOneAcbuForBasket basket (os_rates st1) 1 of
             None \<Rightarrow> (Inr (), st1)
           | Some legs \<Rightarrow>
               (case store_acbu_rate (oe_now e) 1 legs (os_acbu st1) of
                  None \<Rightarrow> (Inl AcbuRateRefused, st1)
                | Some rows \<Rightarrow> (Inr (), st1\<lparr>os_acbu := rows\<rparr>))))"

section \<open>The job\<close>

definition oracle_interval_ms :: "int \<Rightarrow> int" where
  "oracle_interval_ms hours = hours * 60 * 60 * 1000"

definition oracle_lock_ttl_s :: "int \<Rightarrow> int" where
  "oracle_lock_ttl_s hours = \<lfloor>f64 (f64 (of_int (oracle_interval_ms hours) * f64 (9 / 10)) / 1000)\<rfloor>"

definition oracle_delay :: "int \<Rightarrow> rat \<Rightarrow> rat" where
  "oracle_delay hours random =
     (let i = of_int (oracle_interval_ms hours) in f64 (i + f64 (f64 (f64 (f64 (random * 2) - 1) * i) * f64 (1 / 10))))"

definition oracle_tick :: "bool \<Rightarrow> bool \<Rightarrow> int \<Rightarrow> oracle_env \<Rightarrow> lock_table \<times> oracle_state \<Rightarrow> lock_table \<times> oracle_state" where
  "oracle_tick up_before up_after hours e =
     run_locked up_before up_after ''oracle-update'' (oracle_lock_ttl_s hours) (oe_now e) (\<lambda>st. snd (fetchAndStoreRates e st))"

section \<open>The price of ACBU\<close>

lemma dec_1: "dec_of_num 1 = 1"
proof -
  have r: "round_near 1 = 1" "expo 10 1 = 0" by code_simp+
  have "shortest_digits (Suc 15) 1 1 1 = (1, 1, 1)"
    by (subst shortest_digits.simps(2)) (simp add: Let_def r)
  then show ?thesis by (simp add: dec_of_num_def r)
qed

lemma dec_0 [simp]: "dec_of_num 0 = 0"
  by (simp add: dec_of_num_def)

lemma column_0: "decimal_column p s 0 = Some 0"
proof -
  have "\<lfloor>1 / 2 :: rat\<rfloor> = 0" by (simp add: floor_eq_iff)
  then show ?thesis by (simp add: decimal_column_def Let_def)
qed

lemma column_1: "decimal_column 20 8 1 = Some 1"
  by (simp add: decimal_column_def Let_def floor_eq_iff)

definition flat_price :: "acbu_row \<Rightarrow> bool" where
  "flat_price r \<longleftrightarrow> acbuUsd (aw_rate r) = 1 \<and> aw_change r \<in> {None, Some 0}"

lemma change_flat: "list_all flat_price rows \<Longrightarrow> change24h now rows 1 \<in> {Some None, Some (Some 0)}"
proof -
  assume flat: "list_all flat_price rows"
  let ?old = "filter (\<lambda>r. aw_at r < now - 86400000) rows"
  show ?thesis
  proof (cases "find (\<lambda>r. list_all (\<lambda>q. aw_at q \<le> aw_at r) ?old) ?old")
    case None
    then show ?thesis by (simp add: change24h_def)
  next
    case (Some r)
    then have "flat_price r" using flat find_SomeD [OF Some] by (auto simp: list_all_iff)
    then show ?thesis using Some by (simp add: change24h_def flat_price_def column_0)
  qed
qed

lemma store_flat:
  assumes "list_all flat_price rows" and "store_acbu_rate now 1 legs rows = Some rows'"
  shows "list_all flat_price rows'"
  using assms change_flat [OF assms(1), of now]
  by (auto simp: store_acbu_rate_def dec_1 column_1 flat_price_def split: option.splits)

lemma update_currency_acbu [simp]: "os_acbu (update_currency e c st) = os_acbu st"
  by (simp add: update_currency_def Let_def split: prod.split option.split)

lemma update_currencies_acbu [simp]: "os_acbu (fold (update_currency e) cs st) = os_acbu st"
  by (induction cs arbitrary: st) simp_all

text \<open>
  The oracle never reports a move of ACBU: whatever the layers quote for the currencies, every rate of ACBU that any
  sequence of updates stores is exactly one dollar with a change of zero or none over the last day, since the synthetic
  basket is always composed for a notional of one dollar.
\<close>

theorem acbu_price_never_moves:
  assumes "os_acbu st = []"
  shows "list_all flat_price (os_acbu (fold (\<lambda>e st. snd (fetchAndStoreRates e st)) es st))"
proof -
  have step: "list_all flat_price (os_acbu (snd (fetchAndStoreRates e st)))" if "list_all flat_price (os_acbu st)" for e st
    using that by (auto simp: fetchAndStoreRates_def Let_def dest: store_flat split: sum.split option.split)
  have "list_all flat_price (os_acbu st) \<Longrightarrow> ?thesis"
    by (induction es arbitrary: st) (simp_all add: step)
  then show ?thesis using assms by simp
qed

section \<open>Quotes that count\<close>

lemma mag_round_idem:
  assumes b: "2 \<le> b" and p: "0 < p" and x: "0 < x"
  shows "sig_round m b p (mag_round m b p x) = mag_round m b p x"
proof -
  define n j where "n = round_int m (x / ulp b p x)" and "j = expo b x + 1 - int p"
  have y: "mag_round m b p x = of_int n * of_int b powi j" by (simp add: n_def j_def ulp_def)
  have u: "(0::rat) < of_int b powi j" using b by simp
  have eq: "of_int (b ^ p) * (of_int b powi j :: rat) = of_int b powi (expo b x + 1)"
    using ulp_power [OF b, of p x] by (simp add: ulp_def j_def)
  have "of_int n * (of_int b powi j :: rat) \<le> of_int (b ^ p) * of_int b powi j"
    unfolding eq using mag_round_upper [OF b x, of m p] y by simp
  then have "(of_int n :: rat) \<le> of_int (b ^ p)" using u by (simp only: mult_le_cancel_right_pos)
  then have le: "n \<le> b ^ p" by (simp only: of_int_le_iff)
  have "0 < of_int n * (of_int b powi j :: rat)"
    using sig_round_gt_0 [OF b p x, of m] by (simp add: sig_round_pos [OF x] y)
  then have pos: "0 < n" using u by (simp add: zero_less_mult_iff)
  have "sig_round m b p (of_int n) = of_int n"
  proof (cases "n = b ^ p")
    case True
    have "sig_round m b p (of_int 1 * of_int b powi int p) = of_int 1 * of_int b powi int p"
      using sig_round_shift [OF b, of m p "of_int 1" "int p"] sig_round_int [OF b p, of 1 m] b p by simp
    then show ?thesis by (simp add: True)
  next
    case False
    then show ?thesis using sig_round_int [OF b p, of n m] pos le by simp
  qed
  then show ?thesis by (simp add: y sig_round_shift [OF b])
qed

lemma f64_idem [simp]: "f64 (f64 x) = f64 x"
proof -
  have pos: "f64 (f64 y) = f64 y" if "0 < y" for y
    using mag_round_idem [of 2 53 y HalfEven] that by (simp add: f64_def sig_round_pos)
  show ?thesis
  proof (cases "x < 0")
    case True
    then have "f64 (f64 (- x)) = f64 (- x)" by (intro pos) simp
    then show ?thesis by (simp add: f64.rnd_minus)
  next
    case False
    then show ?thesis using pos [of x] by (cases "x = 0") simp_all
  qed
qed

text \<open>
  A quote of zero counts in the composite: with a single positive quote and a central bank that answers zero the
  zero is left out of the sources and of the search for outliers, but the rate that is stored is half the quote.
\<close>

theorem zero_quote_halves_rate:
  assumes "0 < v"
  shows "aggregate_layers [Some 0, None, Some v, None] = Some (f64 (v / 2))"
proof -
  have q: "f64 (1 / 4) = 1 / 4" "f64 (1 / 2) = 1 / 2"
    using sig_round_fixed_point [of 2 53 1 HalfEven 2] sig_round_fixed_point [of 2 53 1 HalfEven 1] by (simp_all add: f64_def)
  have "0 \<le> OUTLIER_DEVIATION" by (simp add: OUTLIER_DEVIATION_def f64.rnd_ge_0)
  then show ?thesis
    using assms by (simp add: aggregate_layers_def positive_quotes_def excludeOutliers_def median_def compositeRate_def
        js_sum_def LAYER_WEIGHT_def Let_def q)
qed

section \<open>The fintech layer\<close>

lemma boot_provider: "getProvider healthy boot_router outage c \<in> {None, Some Simulated}"
  by (auto simp: getProvider_def boot_router_def register_def new_router_def provider_ids_def List.map_filter_def
      split: option.split)

definition no_fintech :: "oracle_rate \<Rightarrow> bool" where
  "no_fintech r \<longleftrightarrow> ox_fintech r = None"

text \<open>
  The fintech layer does not exist in this build: every provider the router knows is the simulated one, which the
  oracle skips, so whatever is healthy no update ever stores or uses a fintech rate.
\<close>

theorem fintech_layer_never_used:
  assumes "oe_router e = boot_router" and "list_all no_fintech (os_rates st)"
  shows "list_all no_fintech (os_rates (snd (fetchAndStoreRates e st)))"
proof -
  have none: "fintech_rate e c = None" for c
    using boot_provider [of "oe_healthy e" None c] assms(1) by (auto simp: fintech_rate_def)
  have cols: "cols ! Suc 0 = None" if "rate_columns [a, None, b] = Some cols" for a b cols
    using that by (auto simp: rate_columns_def split: option.splits)
  have row: "no_fintech r" if "fetch_layers e c fx = (ls, fx1)" "rate_record e rows c ls s = Some r" for c rows fx fx1 ls s r
    using that by (auto simp: rate_record_def fetch_layers_def none no_fintech_def dest: cols split: prod.splits option.splits if_splits)
  have step: "list_all no_fintech (os_rates (update_currency e c st))" if "list_all no_fintech (os_rates st)" for c st
    using that by (auto simp: update_currency_def Let_def dest: row split: prod.split option.split)
  have "list_all no_fintech (os_rates st) \<Longrightarrow> list_all no_fintech (os_rates (fold (update_currency e) cs st))" for cs st
    by (induction cs arbitrary: st) (simp_all add: step)
  then show ?thesis using assms(2) by (simp add: fetchAndStoreRates_def Let_def split: sum.split option.split)
qed

section \<open>The forex feed\<close>

definition reasonable :: "rat option \<Rightarrow> bool" where
  "reasonable r \<longleftrightarrow> (case r of None \<Rightarrow> True | Some q \<Rightarrow> isReasonableExchangeRate (Fin q))"

definition fx_ok :: "fx_state \<Rightarrow> bool" where
  "fx_ok st \<longleftrightarrow> list_all (\<lambda>(k, en). reasonable (fe_rate en)) (fs_cache st)"

lemma fetch_reasonable: "fetchFromExternalApi e c = Inr r \<Longrightarrow> reasonable r"
  by (auto simp: fetchFromExternalApi_def reasonable_def fin_val_def split: if_splits fx_answer.splits json.splits jsnum.splits option.splits)

text \<open>
  Every rate the forex feed hands out or keeps is within its sane bounds, whatever the API answers and however long
  entries stay in the cache.
\<close>

theorem forex_rates_reasonable:
  assumes "fx_ok st"
  shows "reasonable (fst (fetchExchangeRateUsd e now c st)) \<and> fx_ok (snd (fetchExchangeRateUsd e now c st))"
proof -
  obtain r st1 where get: "getCachedExchangeRate now (to_upper c) st = (r, st1)" by (cases "getCachedExchangeRate now (to_upper c) st")
  have ok: "fx_ok st1" "r = Some q \<Longrightarrow> reasonable q" for q
    using get assms map_of_SomeD [of "fs_cache st"]
    by (auto simp: getCachedExchangeRate_def fx_ok_def list_all_iff split: option.splits if_splits)
  have set_ok: "fx_ok (setCachedExchangeRate e now k v b s)" if "reasonable v" "fx_ok s" for k v b s
    using that by (auto simp: setCachedExchangeRate_def fx_ok_def list_all_iff)
  have calls: "fx_ok (if b then st1 else st1\<lparr>fs_calls := n\<rparr>)" for b n using ok(1) by (simp add: fx_ok_def)
  have none: "reasonable None" by (simp add: reasonable_def)
  show ?thesis
  proof (cases r)
    case (Some q)
    then show ?thesis using ok by (simp add: fetchExchangeRateUsd_def Let_def get)
  next
    case None
    show ?thesis
    proof (cases "fetchFromExternalApi e (to_upper c)")
      case (Inl er)
      then show ?thesis using None calls none set_ok by (cases er) (simp add: fetchExchangeRateUsd_def Let_def get)
    next
      case (Inr q)
      then show ?thesis using None calls none set_ok fetch_reasonable [OF Inr] by (simp add: fetchExchangeRateUsd_def Let_def get)
    qed
  qed
qed

text \<open>
  A failure that may pass is not asked again for a while: after the API answered with an error of the server, the
  same currency in any case gets no rate and makes no further call until the negative entry has expired.
\<close>

theorem failed_forex_not_retried:
  assumes "fx_key e \<noteq> []" and "fx_api e (to_upper c) = FxError status code" and "isRetryableRateApiError status code"
    and "map_of (fs_cache st) (to_upper c) = None" and "now2 < now + fx_negative e"
  shows "fetchExchangeRateUsd e2 now2 c (snd (fetchExchangeRateUsd e now c st)) = (None, snd (fetchExchangeRateUsd e now c st))"
proof -
  have "upper_char (upper_char ch) = upper_char ch" for ch
  proof (cases "97 \<le> (of_char ch :: nat) \<and> (of_char ch :: nat) \<le> 122")
    case True
    then have "(of_char ch - 32 :: nat) < 256" by linarith
    then have "(of_char ch - 32 :: nat) mod 256 = of_char ch - 32" by (rule mod_less)
    moreover have "\<not> 97 \<le> (of_char ch - 32 :: nat)" using True by linarith
    ultimately show ?thesis using True by (simp add: upper_char_def Let_def)
  qed (auto simp: upper_char_def Let_def)
  then have up: "to_upper (to_upper s) = to_upper s" for s by (simp add: to_upper_def)
  have "fst (fetchExchangeRateUsd e now c st) = None \<and> map_of (fs_cache (snd (fetchExchangeRateUsd e now c st))) (to_upper c) =
      Some \<lparr>fe_rate = None, fe_expires = now + fx_negative e\<rparr>"
    using assms(1-4) by (simp add: fetchExchangeRateUsd_def getCachedExchangeRate_def fetchFromExternalApi_def setCachedExchangeRate_def
        resolveExchangeRateCacheTtlMs_def Let_def up)
  then show ?thesis using assms(5) by (simp add: fetchExchangeRateUsd_def getCachedExchangeRate_def Let_def up)
qed

section \<open>The circuit breaker\<close>

text \<open>
  A move beyond the threshold is not stored while the last two days have a rate: what the update settles on is their
  average, and the deviation and the review flag it keeps are those of the raw move.
\<close>

theorem breaker_stores_average:
  assumes "newest_oracle c rows = Some r" and "0 < f64 (ox_median r)"
    and "oe_breaker e < f64 (\<bar>f64 (composite - f64 (ox_median r))\<bar> / f64 (ox_median r))"
    and "oe_now e - 48 * 3600000 \<le> ox_at r"
  shows "\<exists>avg. getAverageRateOverHours (oe_now e) rows c 48 = Some avg \<and> fst (settle_rate e rows c composite) = avg \<and>
    snd (settle_rate e rows c composite) = assessRateDeviation (Some (f64 (ox_median r))) composite (oe_max e)"
proof -
  have "r \<in> set rows" "ox_currency r = c"
    using find_SomeD [OF assms(1) [unfolded newest_oracle_def Let_def]] by simp_all
  then have "r \<in> set (sort_key ox_at (filter (\<lambda>r. ox_currency r = c \<and> oe_now e - 48 * 3600000 \<le> ox_at r) rows))"
    using assms(4) by simp
  then have "sort_key ox_at (filter (\<lambda>r. ox_currency r = c \<and> oe_now e - 48 * 3600000 \<le> ox_at r) rows) \<noteq> []"
    by (metis empty_iff empty_set)
  then obtain avg where "getAverageRateOverHours (oe_now e) rows c 48 = Some avg"
    by (simp add: getAverageRateOverHours_def Let_def)
  then show ?thesis using assms(1-3) by (simp add: settle_rate_def assessRateDeviation_def Let_def split: prod.split)
qed

section \<open>The synthetic basket\<close>

text \<open>
  The legs of one ACBU are worth the notional: their dollar values sum to one up to rounding, whatever currencies are
  priced and whatever the rates are.
\<close>

theorem basket_value_sums_to_one:
  assumes "composeOneAcbuFromWeightsAndUsdRates basket rate 1 = Some legs" and "length legs \<le> 100"
    and "1 \<le> sum_list (map lg_weight legs)" and "sum_list (map lg_weight legs) \<le> 300"
  shows "\<bar>sum_list (map lg_value legs) - 1\<bar> \<le> of_nat (length legs) / 2 ^ 42"
proof -
  obtain ps where ps: "legs = map (make_leg 1 (js_sum (map snd ps)) rate) ps" "\<forall>p\<in>set ps. 0 < snd p"
    using assms(1) by (auto simp: composeOneAcbuFromWeightsAndUsdRates_def Let_def split: if_splits)
  define w s n :: rat where "w = js_sum (map snd ps)" and "s = sum_list (map snd ps)" and "n = of_nat (length ps)"
  have weights: "map lg_weight legs = map snd ps"
    by (simp add: ps(1) make_leg_def Let_def case_prod_beta)
  have n: "0 \<le> n" "n \<le> 100" using assms(2) by (simp_all add: n_def ps(1))
  have s: "1 \<le> s" "s \<le> 300" using assms(3,4) by (simp_all add: weights s_def)
  have "\<bar>w - s\<bar> \<le> n / 2 ^ 44"
  proof -
    have "\<forall>x\<in>set (map snd ps). 0 \<le> x" using ps(2) by (auto intro: less_imp_le)
    moreover have "sum_list (map snd ps) + of_nat (length (map snd ps)) / 2 ^ 44 \<le> 400" using s(2) n by (simp add: s_def n_def)
    ultimately show ?thesis unfolding w_def s_def n_def using js_sum_error [of "map snd ps"] by simp
  qed
  then have abs: "w - s \<le> n / 2 ^ 44" "s - w \<le> n / 2 ^ 44" unfolding abs_le_iff by simp_all
  have "n / 2 ^ 44 \<le> 1 / 2" using n(2) by simp
  then have ws: "\<bar>s - w\<bar> \<le> n / 2 ^ 44" "1 / 2 \<le> w" using abs s(1) unfolding abs_le_iff by linarith+
  have part: "\<bar>f64 (x / w) - x / w\<bar> \<le> 1 / 2 ^ 43" if "x \<in> set (map snd ps)" for x
  proof -
    have nn: "0 \<le> y" if "y \<in> set (map snd ps)" for y using that ps(2) by (auto intro: less_imp_le)
    have x: "0 < x" using that ps(2) by auto
    have "x \<le> s" unfolding s_def using that nn by (rule member_le_sum_list)
    note x = x this
    then have "x / w \<le> 700" using ws(2) s(2) by (simp add: divide_le_eq)
    then have "x / w * 2 ^ 43 \<le> 700 * 2 ^ 43" by (intro mult_right_mono) simp_all
    also have "700 * 2 ^ 43 < (2 ^ 53 - 1 :: rat)" by simp
    finally show ?thesis using x ws(2) by (intro f64_grid) auto
  qed
  have "\<bar>sum_list (map (\<lambda>x. f64 (x / w)) xs) - sum_list (map (\<lambda>x. x / w) xs)\<bar> \<le> of_nat (length xs) / 2 ^ 43"
    if "set xs \<subseteq> set (map snd ps)" for xs
    using that
  proof (induction xs)
    case (Cons x xs)
    have len: "of_nat (length (x # xs)) / 2 ^ 43 = 1 / 2 ^ 43 + (of_nat (length xs) / 2 ^ 43 :: rat)" by (simp add: add_divide_distrib)
    have "\<bar>f64 (x / w) - x / w\<bar> \<le> 1 / 2 ^ 43" using Cons.prems by (intro part) simp
    moreover have "\<bar>sum_list (map (\<lambda>x. f64 (x / w)) xs) - sum_list (map (\<lambda>x. x / w) xs)\<bar> \<le> of_nat (length xs) / 2 ^ 43"
      using Cons by simp
    ultimately show ?case unfolding len list.map sum_list.Cons abs_le_iff by linarith
  qed simp
  moreover have "sum_list (map (\<lambda>x. x / w) (map snd ps)) = s / w"
    using sum_list_mult_const [of id "1 / w" "map snd ps"] by (simp add: s_def divide_inverse comp_def)
  ultimately have "\<bar>sum_list (map lg_value legs) - s / w\<bar> \<le> n / 2 ^ 43"
    using order_refl [of "set (map snd ps)"]
    by (fastforce simp: ps(1) make_leg_def Let_def case_prod_beta w_def [symmetric] n_def comp_def)
  moreover have "\<bar>s / w - 1\<bar> \<le> n / 2 ^ 43"
  proof -
    have "\<bar>s / w - 1\<bar> = \<bar>s - w\<bar> / w" using ws(2) by (simp add: abs_divide diff_divide_distrib [symmetric] divide_diff_eq_iff)
    also have "\<dots> \<le> (n / 2 ^ 44) / (1 / 2)" using ws n by (intro frac_le) auto
    finally show ?thesis by simp
  qed
  moreover have "n / 2 ^ 42 = n / 2 ^ 43 + n / 2 ^ 43" by simp
  ultimately have "\<bar>sum_list (map lg_value legs) - 1\<bar> \<le> n / 2 ^ 42" unfolding abs_le_iff by linarith
  then show ?thesis by (simp add: ps(1) n_def)
qed

text \<open>
  No rate is too old to price the basket: moving every stored rate any time into the past changes nothing, although
  the service speaks of fresh rates.
\<close>

theorem stale_rates_price_basket:
  "computeSyntheticBasketOneAcbuForBasket basket (map (\<lambda>r. r\<lparr>ox_at := ox_at r - d\<rparr>) rows) v =
   computeSyntheticBasketOneAcbuForBasket basket rows v"
proof -
  let ?f = "\<lambda>r. r\<lparr>ox_at := ox_at r - d\<rparr>"
  have find_map: "find P (map ?f xs) = map_option ?f (find (\<lambda>x. P (?f x)) xs)" for P xs by (induction xs) simp_all
  have "newest_oracle c (map ?f rows) = map_option ?f (newest_oracle c rows)" for c
    by (simp add: newest_oracle_def Let_def filter_map comp_def find_map list.pred_map)
  then have "usd_per_local (map ?f rows) = usd_per_local rows"
    by (intro ext) (simp add: usd_per_local_def split: option.split)
  then show ?thesis by (simp add: computeSyntheticBasketOneAcbuForBasket_def)
qed

section \<open>Concrete inputs\<close>

definition no_fx :: fx_env where
  "no_fx = \<lparr>fx_key = ''k'', fx_api = (\<lambda>c. FxError (Some 503) []), fx_positive = 60000, fx_negative = 30000\<rparr>"

definition plain_oracle :: oracle_env where
  "plain_oracle = \<lparr>oe_now = 200000000, oe_fx = no_fx, oe_url = (\<lambda>c. []), oe_get = (\<lambda>u. None), oe_bank = (\<lambda>a b. None),
     oe_router = boot_router, oe_healthy = (\<lambda>p. True), oe_partner = (\<lambda>a b. Some 5), oe_max = 0, oe_breaker = 0,
     oe_store = (\<lambda>c. True), oe_contract = True, oe_account = True, oe_chain = (\<lambda>c. True), oe_basket = []\<rparr>"

definition empty_oracle :: oracle_state where
  "empty_oracle = \<lparr>os_rates = [], os_acbu = [], os_fx = \<lparr>fs_cache = [], fs_calls = 0\<rparr>, os_chain = []\<rparr>"

definition sample_oracle_rate :: oracle_rate where
  "sample_oracle_rate = \<lparr>ox_currency = ''NGN'', ox_rate = 1, ox_cb = None, ox_fintech = None, ox_forex = Some 1, ox_median = 1,
     ox_world = None, ox_deviation = None, ox_review = False, ox_at = 199000000\<rparr>"

theorem acbu_price_never_moves_witness:
  "list_all flat_price (os_acbu (fold (\<lambda>e st. snd (fetchAndStoreRates e st)) [plain_oracle, plain_oracle] empty_oracle))"
  by (rule acbu_price_never_moves) (simp add: empty_oracle_def)

theorem zero_quote_halves_rate_witness: "aggregate_layers [Some 0, None, Some 2, None] = Some 1"
  using zero_quote_halves_rate [of 2] by simp

theorem fintech_layer_never_used_witness:
  "list_all no_fintech (os_rates (snd (fetchAndStoreRates plain_oracle (empty_oracle\<lparr>os_rates := [sample_oracle_rate]\<rparr>))))"
  by (rule fintech_layer_never_used) (simp_all add: plain_oracle_def no_fintech_def sample_oracle_rate_def empty_oracle_def)

theorem forex_rates_reasonable_witness:
  "reasonable (fst (fetchExchangeRateUsd no_fx 5 ''NGN'' \<lparr>fs_cache = [], fs_calls = 0\<rparr>)) \<and>
   fx_ok (snd (fetchExchangeRateUsd no_fx 5 ''NGN'' \<lparr>fs_cache = [], fs_calls = 0\<rparr>))"
  by (rule forex_rates_reasonable) (simp add: fx_ok_def)

theorem failed_forex_not_retried_witness:
  "fetchExchangeRateUsd no_fx 30004 ''NGN'' (snd (fetchExchangeRateUsd no_fx 5 ''NGN'' \<lparr>fs_cache = [], fs_calls = 0\<rparr>)) =
     (None, snd (fetchExchangeRateUsd no_fx 5 ''NGN'' \<lparr>fs_cache = [], fs_calls = 0\<rparr>))"
  by (rule failed_forex_not_retried [where status = "Some 503" and code = "[]"])
    (simp_all add: no_fx_def isRetryableRateApiError_def)

theorem breaker_stores_average_witness:
  "\<exists>avg. getAverageRateOverHours 200000000 [sample_oracle_rate] ''NGN'' 48 = Some avg \<and>
     fst (settle_rate plain_oracle [sample_oracle_rate] ''NGN'' 2) = avg"
proof -
  have "f64 2 = 2" by (simp add: f64.rnd_numeral_le)
  then show ?thesis
    using breaker_stores_average [of "''NGN''" "[sample_oracle_rate]" sample_oracle_rate plain_oracle 2]
    by (auto simp: newest_oracle_def sample_oracle_rate_def plain_oracle_def)
qed

theorem basket_value_sums_to_one_witness:
  "\<exists>legs. composeOneAcbuFromWeightsAndUsdRates [(''NGN'', 60), (''KES'', 30)] (\<lambda>c. 2) 1 = Some legs \<and>
     \<bar>sum_list (map lg_value legs) - 1\<bar> \<le> 2 / 2 ^ 42"
proof -
  have w: "js_sum [60, 30] = 90" by (simp add: js_sum_def f64.rnd_numeral_le)
  then obtain legs where legs: "composeOneAcbuFromWeightsAndUsdRates [(''NGN'', 60), (''KES'', 30)] (\<lambda>c. 2) 1 = Some legs"
      "map lg_weight legs = [60, 30]" "length legs = 2"
    by (simp add: composeOneAcbuFromWeightsAndUsdRates_def make_leg_def Let_def)
  then show ?thesis using basket_value_sums_to_one [OF legs(1)] by simp
qed

end
