(* ===== verification/Stellar.thy ===== *)
theory Stellar
  imports FeeManager Breaker Recipient "HOL-Library.Word"
begin

unbundle bit_operations_syntax

text \<open>
  The Stellar clients: \<open>src/services/stellar/client.ts\<close> (accounts and submission behind the circuit breaker, fee bumps,
  balances), \<open>operationSecurity.ts\<close> (the operations of the treasury account), \<open>contractClient.ts\<close> (calls of Soroban
  contracts, the encoding of their values) and \<open>sorobanInvokeErrors.ts\<close>. The SDK, Horizon and the RPC server are
  parameters: what each attempt answers, and the clock.
\<close>

section \<open>The operations of the treasury account\<close>

record stellar_op =
  op_type :: "string option"
  op_destination :: "string option"

datatype guard_error = ForbiddenOperation | OperationNotAllowed | DestinationNotApproved

definition FORBIDDEN_TREASURY_OPERATIONS :: "string list" where
  "FORBIDDEN_TREASURY_OPERATIONS = [''accountMerge'']"

definition ALLOWED_TREASURY_OPERATIONS :: "string list" where
  "ALLOWED_TREASURY_OPERATIONS =
     [''payment'', ''createAccount'', ''pathPaymentStrictReceive'', ''pathPaymentStrictSend'', ''changeTrust'', ''setOptions'', ''bumpSequence'']"

definition DESTINATION_OPERATION_TYPES :: "string list" where
  "DESTINATION_OPERATION_TYPES = [''payment'', ''createAccount'', ''pathPaymentStrictReceive'', ''pathPaymentStrictSend'']"

definition getTreasuryAllowedDestinations :: "string option \<Rightarrow> string list" where
  "getTreasuryAllowedDestinations raw =
     (if truthy raw then filter (\<lambda>s. s \<noteq> []) (map trim (split_on CHR '','' (the raw))) else [])"

definition operation_guard :: "string list \<Rightarrow> string \<Rightarrow> stellar_op \<Rightarrow> guard_error option" where
  "operation_guard approved treasury op =
     (if op_type op \<in> Some ` set FORBIDDEN_TREASURY_OPERATIONS then Some ForbiddenOperation
      else if op_type op \<notin> Some ` set ALLOWED_TREASURY_OPERATIONS then Some OperationNotAllowed
      else if truthy (op_destination op) \<and> op_type op \<in> Some ` set DESTINATION_OPERATION_TYPES \<and>
        the (op_destination op) \<noteq> treasury \<and> approved \<noteq> [] \<and> the (op_destination op) \<notin> set approved then Some DestinationNotApproved
      else None)"

fun first_error :: "('a \<Rightarrow> 'e option) \<Rightarrow> 'a list \<Rightarrow> 'e option" where
  "first_error f [] = None"
| "first_error f (x # xs) = (case f x of Some e \<Rightarrow> Some e | None \<Rightarrow> first_error f xs)"

definition validateOperationsForTreasuryAccount :: "string option \<Rightarrow> stellar_op list \<Rightarrow> string \<Rightarrow> string \<Rightarrow> guard_error option" where
  "validateOperationsForTreasuryAccount raw ops account treasury =
     (if account \<noteq> treasury then None else first_error (operation_guard (getTreasuryAllowedDestinations raw) treasury) ops)"

definition isTreasuryAccount :: "string \<Rightarrow> string \<Rightarrow> bool" where
  "isTreasuryAccount account treasury \<longleftrightarrow> account = treasury"

lemma first_error_None: "first_error f xs = None \<longleftrightarrow> list_all (\<lambda>x. f x = None) xs"
  by (induction xs) (simp_all split: option.split)

section \<open>Horizon behind the breaker\<close>

definition horizon_options :: breaker_options where
  "horizon_options = \<lparr>failure_threshold = 3, cooldown_ms = 30000, success_threshold = 2\<rparr>"

text \<open>A request at a time, with the answer Horizon would give: None where it throws or the breaker refuses.\<close>

definition horizon_request :: "int \<Rightarrow> 'a option \<Rightarrow> breaker \<Rightarrow> 'a option \<times> breaker" where
  "horizon_request now answer b =
     (case canExecute horizon_options now b of
        (False, b1) \<Rightarrow> (None, recordFailure horizon_options now b1)
      | (True, b1) \<Rightarrow>
          (case answer of
             Some x \<Rightarrow> (Some x, recordSuccess horizon_options b1)
           | None \<Rightarrow> (None, recordFailure horizon_options now b1)))"

fun load_account :: "(nat \<Rightarrow> int) \<Rightarrow> (nat \<Rightarrow> 'a option) \<Rightarrow> nat \<Rightarrow> nat \<Rightarrow> breaker \<Rightarrow> 'a option \<times> breaker" where
  "load_account clock answer i 0 b = (None, b)"
| "load_account clock answer i (Suc n) b =
     (case horizon_request (clock i) (answer i) b of
        (Some x, b1) \<Rightarrow> (Some x, b1)
      | (None, b1) \<Rightarrow> load_account clock answer (Suc i) n b1)"

definition getAccount :: "(nat \<Rightarrow> int) \<Rightarrow> (nat \<Rightarrow> 'a option) \<Rightarrow> breaker \<Rightarrow> 'a option \<times> breaker" where
  "getAccount clock answer b = load_account clock answer 0 3 b"

text \<open>\<open>account.balances\<close>: the native balance, or that of a credit asset.\<close>

record balance =
  ba_native :: bool
  ba_code :: "string option"
  ba_issuer :: "string option"
  ba_amount :: string

definition getBalance :: "balance list \<Rightarrow> string option \<Rightarrow> string option \<Rightarrow> jsnum" where
  "getBalance bs code issuer =
     (case (if \<not> truthy code \<or> code = Some ''XLM'' then find ba_native bs
            else find (\<lambda>b. ba_code b = code \<and> ba_issuer b \<noteq> None \<and> ba_issuer b = issuer) bs) of
        Some b \<Rightarrow> parse_float (ba_amount b)
      | None \<Rightarrow> Fin 0)"

section \<open>Building and submitting\<close>

record client_env =
  cl_treasury :: "string option"
  cl_allowed :: "string option"
  cl_config :: stellar_config
  cl_fee :: "jsnum option"         \<comment> \<open>Horizon's base fee\<close>

datatype build_error = GuardRefused guard_error | NoAccount

text \<open>The fee of the transaction is what the model keeps of it.\<close>

text \<open>Where no fee comes from Horizon an empty one that the caller gave stays: the last fallback is for a missing one.\<close>

definition build_fee :: "client_env \<Rightarrow> string option \<Rightarrow> int \<Rightarrow> breaker \<Rightarrow> string \<times> breaker" where
  "build_fee e given now b =
     (let configured = (case given of Some f \<Rightarrow> f | None \<Rightarrow> num_string (base_fee_stroops (cl_config e))) in
      if truthy given then (the given, b)
      else if use_dynamic_fees (cl_config e) then
        (case canExecute horizon_options now b of
           (False, b1) \<Rightarrow> (configured, b1)
         | (True, b1) \<Rightarrow>
             (case cl_fee e of
                Some f \<Rightarrow> (num_string f, recordSuccess horizon_options b1)
              | None \<Rightarrow> (configured, recordFailure horizon_options now b1)))
      else (configured, b))"

definition buildTransaction ::
  "client_env \<Rightarrow> (nat \<Rightarrow> int) \<Rightarrow> (nat \<Rightarrow> unit option) \<Rightarrow> string \<Rightarrow> stellar_op list \<Rightarrow> string option \<Rightarrow> breaker \<Rightarrow> (build_error + string) \<times> breaker" where
  "buildTransaction e clock answer account ops given b =
     (case (if truthy (cl_treasury e) then validateOperationsForTreasuryAccount (cl_allowed e) ops account (the (cl_treasury e)) else None) of
        Some err \<Rightarrow> (Inl (GuardRefused err), b)
      | None \<Rightarrow>
          (case getAccount clock answer b of
             (None, b1) \<Rightarrow> (Inl NoAccount, b1)
           | (Some _, b1) \<Rightarrow> (case build_fee e given (clock 3) b1 of (f, b2) \<Rightarrow> (Inr f, b2))))"

text \<open>What Horizon reports of a transaction it refuses: the code of the transaction, those of its operations, the message.\<close>

record submit_failure =
  sf_transaction :: string
  sf_operations :: "string list"
  sf_message :: string

definition is_bad_seq :: "submit_failure \<Rightarrow> bool" where
  "is_bad_seq f \<longleftrightarrow> (case sf_operations f of [] \<Rightarrow> False | c # _ \<Rightarrow> c = ''tx_bad_seq'') \<or> str_includes (sf_message f) ''tx_bad_seq''"

text \<open>\<open>attempt\<close> builds and submits, \<open>reload\<close> reads the account again; the count is of submissions.\<close>

definition buildAndSubmitTransaction :: "(nat \<Rightarrow> submit_failure + 'a) \<Rightarrow> bool \<Rightarrow> (submit_failure option + 'a) \<times> nat" where
  "buildAndSubmitTransaction attempt reload =
     (case attempt 0 of
        Inr x \<Rightarrow> (Inr x, 1)
      | Inl f \<Rightarrow>
          if is_bad_seq f then
            (if \<not> reload then (Inl None, 1)
             else (case attempt 1 of Inr x \<Rightarrow> (Inr x, 2) | Inl g \<Rightarrow> (Inl (Some g), 2)))
          else (Inl (Some f), 1))"

definition fee_bump_base_fee :: "rat \<Rightarrow> string option \<Rightarrow> string" where
  "fee_bump_base_fee configured given = (case given of Some f \<Rightarrow> f | None \<Rightarrow> js_num_str (max (f64 (configured * 10)) 1000))"

section \<open>Contract values\<close>

datatype sc_val =
    ScBool bool | ScVoid | ScU32 "32 word" | ScI32 "32 word" | ScU64 "64 word" | ScI64 "64 word"
  | ScU128 "64 word" "64 word" | ScI128 "64 word" "64 word"     \<comment> \<open>high and low part\<close>
  | ScString string | ScBytes "8 word list" | ScVec "sc_val list" | ScAddress string | ScOther string

datatype sc_input = InStr string | InNum jsnum | InBig int | InBool bool | InBytes "8 word list" | InArr "sc_input list"

datatype js_prim =
    PBool bool | PNull | PNum int | PStr string | PBig int | PBytes "8 word list" | PArr "js_prim list" | PScVal sc_val

text \<open>\<open>xdr.Int64.fromString\<close> throws outside the range, \<open>xdr.Uint64.fromString\<close> takes the 64 bits of the mask.\<close>

definition bigIntToI128 :: "int \<Rightarrow> sc_val option" where
  "bigIntToI128 b =
     (let lo = b AND mask 64; hi = drop_bit 64 b in
      if - (2 ^ 63) \<le> hi \<and> hi < 2 ^ 63 then Some (ScI128 (word_of_int hi) (word_of_int lo)) else None)"

definition base32_char :: "char \<Rightarrow> bool" where
  "base32_char c \<longleftrightarrow> (let n = of_char c :: int in 65 \<le> n \<and> n \<le> 90 \<or> 50 \<le> n \<and> n \<le> 55)"

definition address_shape :: "string \<Rightarrow> bool" where
  "address_shape s \<longleftrightarrow>
     length s = 56 \<and> (hd s = CHR ''G'' \<or> hd s = CHR ''C'') \<and> list_all base32_char (tl s)"

text \<open>\<open>valid\<close> is the check of \<open>Address.fromString\<close>.\<close>

fun toScVal :: "(string \<Rightarrow> bool) \<Rightarrow> sc_input \<Rightarrow> sc_val option" where
  "toScVal valid (InStr s) = Some (if address_shape s \<and> valid s then ScAddress s else ScString s)"
| "toScVal valid (InNum n) = (case n of Fin q \<Rightarrow> if of_int \<lfloor>q\<rfloor> = q then bigIntToI128 \<lfloor>q\<rfloor> else None | _ \<Rightarrow> None)"
| "toScVal valid (InBig b) = bigIntToI128 b"
| "toScVal valid (InBool b) = Some (ScBool b)"
| "toScVal valid (InBytes bs) = Some (ScBytes bs)"
| "toScVal valid (InArr vs) = map_option ScVec (those (map (toScVal valid) vs))"

definition signed_str :: "int \<Rightarrow> string" where
  "signed_str k = (if k < 0 then CHR ''-'' # int_str (- k) else int_str k)"

fun fromScVal :: "sc_val \<Rightarrow> js_prim" where
  "fromScVal (ScBool b) = PBool b"
| "fromScVal ScVoid = PNull"
| "fromScVal (ScU32 w) = PNum (uint w)"
| "fromScVal (ScI32 w) = PNum (sint w)"
| "fromScVal (ScU64 w) = PStr (signed_str (uint w))"
| "fromScVal (ScI64 w) = PStr (signed_str (sint w))"
| "fromScVal (ScU128 hi lo) = PBig (push_bit 64 (uint hi) OR uint lo)"
| "fromScVal (ScI128 hi lo) = PBig (push_bit 64 (sint hi) OR uint lo)"
| "fromScVal (ScString s) = PStr s"
| "fromScVal (ScBytes bs) = PBytes bs"
| "fromScVal (ScVec vs) = PArr (map fromScVal vs)"
| "fromScVal (ScAddress s) = PStr s"
| "fromScVal (ScOther t) = PScVal (ScOther t)"

section \<open>Contract calls\<close>

datatype sim_answer = SimThrows string | SimError | SimOk rat       \<comment> \<open>the fee of the assembled transaction\<close>

datatype get_answer = GetThrows | GetSuccess "sc_val option" nat | GetFailed | GetPending

record soroban_env =
  sb_simulate :: "nat \<Rightarrow> sim_answer"
  sb_config :: stellar_config
  sb_set_fee :: bool               \<comment> \<open>whether a built transaction takes another fee\<close>
  sb_send :: "nat \<Rightarrow> string option"
  sb_get :: "nat \<Rightarrow> get_answer"
  sb_parsed :: "sc_val option"     \<comment> \<open>the value parsed from the result where no return value comes with it\<close>
  sb_elapsed :: "nat \<Rightarrow> int"

datatype invoke_error =
    SimulationThrew string | SimulationFailed | FeeNotWritable | SendFailed | StatusFailed | InvokeFailed | InvokeTimedOut | ResultUnreadable

record invoke_result =
  ir_hash :: string
  ir_value :: sc_val
  ir_ledger :: nat

definition network_words :: "string list" where
  "network_words = [''enotfound'', ''econnreset'', ''etimedout'', ''econnrefused'', ''fetch failed'', ''socket hang up'']"

definition isRetryableSorobanNetworkError :: "string \<Rightarrow> bool" where
  "isRetryableSorobanNetworkError m \<longleftrightarrow> list_ex (str_includes (map lower_char m)) network_words"

definition simulateTransactionWithRetry :: "(nat \<Rightarrow> sim_answer) \<Rightarrow> sim_answer" where
  "simulateTransactionWithRetry sim =
     (case sim 1 of
        SimThrows m \<Rightarrow>
          if \<not> isRetryableSorobanNetworkError m then SimThrows m
          else
            (case sim 2 of
               SimThrows m2 \<Rightarrow> if \<not> isRetryableSorobanNetworkError m2 then SimThrows m2 else sim 3
             | r \<Rightarrow> r)
      | r \<Rightarrow> r)"

definition send_transaction :: "(nat \<Rightarrow> string option) \<Rightarrow> string option" where
  "send_transaction send = (case send 1 of Some h \<Rightarrow> Some h | None \<Rightarrow> (case send 2 of Some h \<Rightarrow> Some h | None \<Rightarrow> send 3))"

definition max_wait_ms :: int where "max_wait_ms = 120000"

text \<open>The poll: \<open>n\<close> counts the queries, and \<open>sb_elapsed e n\<close> is the time at the check after query \<open>n\<close>.\<close>

partial_function (option) poll_transaction :: "soroban_env \<Rightarrow> nat \<Rightarrow> (invoke_error + sc_val option \<times> nat) option" where
  "poll_transaction e n =
     (case sb_get e n of
        GetThrows \<Rightarrow> if max_wait_ms < sb_elapsed e n then Some (Inl StatusFailed) else poll_transaction e (Suc n)
      | GetSuccess v l \<Rightarrow> Some (Inr (v, l))
      | GetFailed \<Rightarrow> Some (Inl InvokeFailed)
      | GetPending \<Rightarrow> if max_wait_ms < sb_elapsed e n then Some (Inl InvokeTimedOut) else poll_transaction e (Suc n))"

definition fee_out_of_range :: "stellar_config \<Rightarrow> rat \<Rightarrow> bool" where
  "fee_out_of_range cfg fee \<longleftrightarrow> fee < fst (getFeeCapConfig cfg) \<or> snd (getFeeCapConfig cfg) < fee"

definition call_outcome :: "soroban_env \<Rightarrow> string \<Rightarrow> invoke_error + sc_val option \<times> nat \<Rightarrow> invoke_error + invoke_result" where
  "call_outcome e h r =
     (case r of
        Inl err \<Rightarrow> Inl err
      | Inr (v, l) \<Rightarrow>
          (case (case v of Some x \<Rightarrow> Some x | None \<Rightarrow> sb_parsed e) of
             None \<Rightarrow> Inl ResultUnreadable
           | Some x \<Rightarrow> Inr \<lparr>ir_hash = h, ir_value = x, ir_ledger = l\<rparr>))"

text \<open>
  \<open>wrapSorobanInvokeError\<close>: what the message of a failed call is extended by. The two patterns over the text are spelt out;
  \<open>at_some p s\<close> looks for \<open>p\<close> at every position, letters of either case.
\<close>

datatype invoke_hint = NoHint | TrustlineHint | ReserveHint | StaleDemoContract | StaleContract

definition blank :: "char \<Rightarrow> bool" where "blank c \<longleftrightarrow> c \<in> {CHR '' '', CHR 0x09, CHR 0x0A, CHR 0x0B, CHR 0x0C, CHR 0x0D}"

fun at_some :: "(string \<Rightarrow> bool) \<Rightarrow> string \<Rightarrow> bool" where
  "at_some p [] = p []"
| "at_some p (c # cs) = (p (c # cs) \<or> at_some p cs)"

definition then_blanks :: "string \<Rightarrow> string \<Rightarrow> string \<Rightarrow> bool" where
  "then_blanks a b s \<longleftrightarrow> take (length a) s = a \<and> take (length b) (dropWhile blank (drop (length a) s)) = b"

definition reserve_check_failed :: "string \<Rightarrow> bool" where
  "reserve_check_failed base \<longleftrightarrow>
     str_includes base ''is_reserve_sufficient'' \<and>
     (at_some (then_blanks ''data:'' ''false'') (map lower_char base)
      \<or> at_some (then_blanks (''contract call failed'' @ [CHR 0x22] @ '','') ''is_reserve_sufficient'') (map lower_char base)
      \<or> str_includes base ''UnreachableCodeReached'' \<and> str_includes (map lower_char base) ''is_reserve_sufficient'')"

definition wrapSorobanInvokeError :: "string \<Rightarrow> string \<Rightarrow> invoke_hint" where
  "wrapSorobanInvokeError base fn =
     (if fn = ''mint_from_demo_fiat'' \<and> str_includes base ''trustline entry is missing for account'' then TrustlineHint
      else if fn = ''mint_from_demo_fiat'' \<and> reserve_check_failed base then ReserveHint
      else if \<not> (str_includes base ''non-existent contract function'' \<and> str_includes base fn) then NoHint
      else if fn \<in> {''admin_drip_demo_fiat'', ''mint_from_demo_fiat''} then StaleDemoContract
      else StaleContract)"

text \<open>
  A call after its account is loaded: None where it never returns. The second component is the hash of the transaction
  that was handed to the network.
\<close>

definition invokeContract :: "soroban_env \<Rightarrow> ((invoke_error + invoke_result) \<times> string option) option" where
  "invokeContract e =
     (case simulateTransactionWithRetry (sb_simulate e) of
        SimThrows m \<Rightarrow> Some (Inl (SimulationThrew m), None)
      | SimError \<Rightarrow> Some (Inl SimulationFailed, None)
      | SimOk fee \<Rightarrow>
          if fee_out_of_range (sb_config e) fee \<and> \<not> sb_set_fee e then Some (Inl FeeNotWritable, None)
          else
            (case send_transaction (sb_send e) of
               None \<Rightarrow> Some (Inl SendFailed, None)
             | Some h \<Rightarrow>
                 map_option (\<lambda>r. (call_outcome e h r, Some h)) (poll_transaction e 0)))"

definition readContract :: "bool \<Rightarrow> (nat \<Rightarrow> sim_answer) \<Rightarrow> sc_val \<Rightarrow> (invoke_error + sc_val) option" where
  "readContract keypair sim v =
     (if \<not> keypair then None
      else (case simulateTransactionWithRetry sim of
        SimThrows m \<Rightarrow> Some (Inl (SimulationThrew m)) | SimError \<Rightarrow> Some (Inl SimulationFailed) | SimOk _ \<Rightarrow> Some (Inr v)))"

section \<open>Values read back\<close>

fun read_back :: "sc_input \<Rightarrow> js_prim" where
  "read_back (InStr s) = PStr s"
| "read_back (InNum n) = PBig (case n of Fin q \<Rightarrow> \<lfloor>q\<rfloor> | _ \<Rightarrow> 0)"
| "read_back (InBig b) = PBig b"
| "read_back (InBool b) = PBool b"
| "read_back (InBytes bs) = PBytes bs"
| "read_back (InArr vs) = PArr (map read_back vs)"

definition fits_i128 :: "int \<Rightarrow> bool" where
  "fits_i128 b \<longleftrightarrow> - (2 ^ 127) \<le> b \<and> b < 2 ^ 127"

fun encodable :: "sc_input \<Rightarrow> bool" where
  "encodable (InNum n) \<longleftrightarrow> (case n of Fin q \<Rightarrow> of_int \<lfloor>q\<rfloor> = q \<and> fits_i128 \<lfloor>q\<rfloor> | _ \<Rightarrow> False)"
| "encodable (InBig b) \<longleftrightarrow> fits_i128 b"
| "encodable (InArr vs) \<longleftrightarrow> list_all encodable vs"
| "encodable _ \<longleftrightarrow> True"

lemma split_bits: "push_bit 64 (drop_bit 64 b) OR (b AND mask 64) = (b :: int)"
  by (rule bit_eqI) (auto simp: bit_simps)

lemma i128_parts: "- (2 ^ 63) \<le> drop_bit 64 b \<and> drop_bit 64 b < 2 ^ 63 \<longleftrightarrow> fits_i128 b"
proof -
  have "drop_bit 64 b = b div 2 ^ 64" by (simp add: drop_bit_eq_div)
  then show ?thesis by (simp add: fits_i128_def) linarith
qed

lemma i128_roundtrip: "fits_i128 b \<Longrightarrow> \<exists>s. bigIntToI128 b = Some s \<and> fromScVal s = PBig b"
proof -
  assume fits: "fits_i128 b"
  then have hi: "- (2 ^ 63) \<le> drop_bit 64 b" "drop_bit 64 b < 2 ^ 63" using i128_parts by blast+
  have "sint (word_of_int (drop_bit 64 b) :: 64 word) = drop_bit 64 b"
    using hi by (simp add: sint_sbintrunc' signed_take_bit_int_eq_self)
  moreover have "uint (word_of_int (b AND mask 64) :: 64 word) = b AND mask 64"
    by (simp add: uint_word_of_int_eq take_bit_eq_mask)
  ultimately show ?thesis using hi split_bits [of b] by (simp add: bigIntToI128_def Let_def)
qed

text \<open>
  C34. What is written to a contract is read back: every value that has an encoding, arrays of arrays included, is encoded,
  and decoding gives the same text, bytes, truth value or integer; integers keep their value and sign over the whole
  range of 128 bits, whose two halves are words of 64.
\<close>

theorem contract_values_roundtrip:
  assumes "encodable v"
  shows "\<exists>s. toScVal valid v = Some s \<and> fromScVal s = read_back v"
  using assms
proof (induction valid v rule: toScVal.induct)
  case (2 valid n)
  then show ?case using i128_roundtrip by (auto split: jsnum.splits)
next
  case (3 valid b)
  then show ?case using i128_roundtrip by simp
next
  case (6 valid vs)
  have "\<exists>ss. those (map (toScVal valid) vs) = Some ss \<and> map fromScVal ss = map read_back vs"
    using "6.IH" "6.prems"
  proof (induction vs)
    case (Cons a vs)
    then obtain s where "toScVal valid a = Some s" "fromScVal s = read_back a" by auto
    moreover obtain ss where "those (map (toScVal valid) vs) = Some ss" "map fromScVal ss = map read_back vs" using Cons by auto
    ultimately show ?case by simp
  qed simp
  then show ?case by auto
qed auto

text \<open>Integers outside the range have no encoding: the conversion throws instead of wrapping around.\<close>

lemma i128_refuses: "\<not> fits_i128 b \<Longrightarrow> bigIntToI128 b = None"
  using i128_parts [of b] by (auto simp: bigIntToI128_def Let_def)

section \<open>Calls return\<close>

lemma poll_ends:
  assumes "\<And>n. 1500 * int n \<le> sb_elapsed e n" and "n \<le> 81"
  shows "poll_transaction e n \<noteq> None"
  using assms(2)
proof (induction "81 - n" arbitrary: n)
  case 0
  then have "max_wait_ms < sb_elapsed e n" using assms(1) [of n] by (simp add: max_wait_ms_def)
  then show ?case by (subst poll_transaction.simps) (simp split: get_answer.split)
next
  case (Suc k)
  then have "poll_transaction e (Suc n) \<noteq> None" by simp
  then show ?case by (subst poll_transaction.simps) (simp split: get_answer.split)
qed

text \<open>
  A contract call always returns: since every query but the last is followed by a pause of a second and a half at
  least, the wait for the transaction ends, whatever the RPC server answers.
\<close>

theorem contract_call_returns:
  assumes "\<And>n. 1500 * int n \<le> sb_elapsed e n"
  shows "\<exists>r. invokeContract e = Some r"
  using poll_ends [of e 0] assms by (auto simp: invokeContract_def split: sim_answer.split option.split)

lemma poll_value:
  assumes "poll_transaction e n = Some v"
  shows "case v of Inl err \<Rightarrow> err \<in> {StatusFailed, InvokeFailed, InvokeTimedOut} | Inr _ \<Rightarrow> True"
  by (rule poll_transaction.raw_induct [OF _ assms]) (auto split: get_answer.splits if_splits)

lemma poll_errors: "poll_transaction e n = Some (Inl err) \<Longrightarrow> err \<in> {StatusFailed, InvokeFailed, InvokeTimedOut}"
  using poll_value by fastforce

lemma call_handed:
  assumes "invokeContract e = Some (r, h)"
  shows "h \<noteq> None \<longleftrightarrow> (case r of Inl err \<Rightarrow> err \<in> {StatusFailed, InvokeFailed, InvokeTimedOut, ResultUnreadable} | Inr _ \<Rightarrow> True)"
proof -
  have polled: "err \<in> {StatusFailed, InvokeFailed, InvokeTimedOut, ResultUnreadable}"
    if "poll_transaction e 0 = Some r" "call_outcome e x r = Inl err" for r x err
    using that poll_errors [of e 0] by (auto simp: call_outcome_def split: sum.splits option.splits)
  show ?thesis
    using assms polled by (auto simp: invokeContract_def split: sim_answer.splits option.splits if_splits sum.splits)
qed

text \<open>
  An error does not mean that nothing happened: a call that times out or cannot read its result has handed its
  transaction to the network, which sets no limit to when it is applied; only the errors before that leave nothing.
\<close>

theorem failed_call_may_have_run:
  assumes "invokeContract e = Some (Inl err, h)"
  shows "(h \<noteq> None \<longleftrightarrow> err \<in> {StatusFailed, InvokeFailed, InvokeTimedOut, ResultUnreadable}) \<and>
    (h \<noteq> None \<longrightarrow> h \<in> sb_send e ` {1, 2, 3})"
proof -
  have sent: "Some x \<in> sb_send e ` {1, 2, 3}" if "send_transaction (sb_send e) = Some x" for x
    using that by (auto simp: send_transaction_def image_iff split: option.splits)
  show ?thesis
    using assms call_handed [OF assms] sent
    by (auto simp: invokeContract_def simp del: image_insert split: sim_answer.splits option.splits if_splits)
qed

section \<open>The breaker under load\<close>

fun horizon_requests :: "(int \<times> 'a option) list \<Rightarrow> breaker \<Rightarrow> 'a option list \<times> breaker" where
  "horizon_requests [] b = ([], b)"
| "horizon_requests ((t, a) # rs) b =
     (case horizon_request t a b of (r, b1) \<Rightarrow> (case horizon_requests rs b1 of (out, b2) \<Rightarrow> (r # out, b2)))"

fun busy :: "int \<Rightarrow> int list \<Rightarrow> bool" where
  "busy t0 [] = True"
| "busy t0 (t # ts) = (t - t0 < cooldown_ms horizon_options \<and> busy t ts)"

text \<open>
  A busy service never closes its breaker: each request that the open breaker refuses counts as a failure of Horizon
  and starts the cooldown again, so while requests keep coming less than the cooldown apart all of them fail, for however
  long, even if Horizon would answer every one.
\<close>

theorem refused_requests_keep_breaker_open:
  assumes "cb_state b = COpen" and "last_failure b = Some t0" and "busy t0 (map fst rs)"
  shows "list_all (\<lambda>r. r = None) (fst (horizon_requests rs b)) \<and> cb_state (snd (horizon_requests rs b)) = COpen"
  using assms
proof (induction rs arbitrary: b t0)
  case (Cons r rs)
  obtain t a where r: "r = (t, a)" by (cases r)
  have cool: "\<not> cooled_down horizon_options t b" using Cons.prems by (auto simp: cooled_down_def r)
  define b1 where "b1 = recordFailure horizon_options t b"
  have b1: "cb_state b1 = COpen" "last_failure b1 = Some t"
    using Cons.prems(1) by (simp_all add: b1_def recordFailure_def Let_def)
  have "horizon_request t a b = (None, b1)"
    using Cons.prems(1) cool by (simp add: horizon_request_def canExecute_def b1_def)
  then show ?case using Cons.IH [OF b1] Cons.prems(3) by (cases "horizon_requests rs b1") (simp add: r)
qed simp

section \<open>The guard of the treasury\<close>

text \<open>
  What the guard lets through for the treasury account is harmless: every operation is of a type on the allow-list, no
  account is merged, and where destinations are approved a payment goes to one of them or to the treasury itself.
\<close>

theorem treasury_guard_sound:
  assumes "validateOperationsForTreasuryAccount raw ops treasury treasury = None" and "op \<in> set ops"
  shows "op_type op \<in> Some ` set ALLOWED_TREASURY_OPERATIONS \<and> op_type op \<noteq> Some ''accountMerge'' \<and>
    (op_type op \<in> Some ` set DESTINATION_OPERATION_TYPES \<and> truthy (op_destination op) \<and> getTreasuryAllowedDestinations raw \<noteq> [] \<longrightarrow>
      the (op_destination op) \<in> set (treasury # getTreasuryAllowedDestinations raw))"
proof -
  have "operation_guard (getTreasuryAllowedDestinations raw) treasury op = None"
    using assms by (auto simp: validateOperationsForTreasuryAccount_def first_error_None list_all_iff)
  then show ?thesis
    by (auto simp: operation_guard_def FORBIDDEN_TREASURY_OPERATIONS_def ALLOWED_TREASURY_OPERATIONS_def split: if_splits)
qed

text \<open>Calls of contracts are not on the list: the client of contracts builds its transactions without the guard.\<close>

lemma contract_calls_refused:
  "op_type op = Some ''invokeHostFunction'' \<Longrightarrow> op \<in> set ops \<Longrightarrow> validateOperationsForTreasuryAccount raw ops t t \<noteq> None"
proof -
  assume op: "op_type op = Some ''invokeHostFunction''" "op \<in> set ops"
  have "operation_guard (getTreasuryAllowedDestinations raw) t op \<noteq> None"
    by (simp add: operation_guard_def op(1) ALLOWED_TREASURY_OPERATIONS_def FORBIDDEN_TREASURY_OPERATIONS_def)
  then have "first_error (operation_guard (getTreasuryAllowedDestinations raw) t) ops \<noteq> None"
    using op(2) unfolding first_error_None list_all_iff by auto
  then show ?thesis by (simp add: validateOperationsForTreasuryAccount_def)
qed

text \<open>
  A drifted sequence number is not retried: the network reports it as the code of the transaction, the retry looks for
  it among the codes of the operations and in a message that does not name it, so the first failure is final.
\<close>

theorem sequence_drift_not_retried:
  assumes "attempt 0 = Inl f" and "sf_transaction f = ''tx_bad_seq''" and "sf_operations f = []"
    and "\<not> str_includes (sf_message f) ''tx_bad_seq''"
  shows "buildAndSubmitTransaction attempt reload = (Inl (Some f), 1)"
  using assms by (simp add: buildAndSubmitTransaction_def is_bad_seq_def)

section \<open>Concrete inputs\<close>

theorem contract_values_roundtrip_witness:
  "\<exists>s. toScVal (\<lambda>a. True) (InArr [InBig (- 5), InStr ''NGN'']) = Some s \<and> fromScVal s = PArr [PBig (- 5), PStr ''NGN'']"
  using contract_values_roundtrip [of "InArr [InBig (- 5), InStr ''NGN'']" "\<lambda>a. True"] by (simp add: fits_i128_def)

definition slow_soroban :: soroban_env where
  "slow_soroban = \<lparr>sb_simulate = (\<lambda>n. SimOk 100),
     sb_config = \<lparr>use_dynamic_fees = False, base_fee_stroops = Fin 100, soroban_min_fee = 1, soroban_max_fee = 1000,
       fee_surge_buffer_bps = None, max_payment_fee_stroops = None\<rparr>,
     sb_set_fee = False, sb_send = (\<lambda>n. Some ''h''), sb_get = (\<lambda>n. GetPending), sb_parsed = None, sb_elapsed = (\<lambda>n. 200000 + 2000 * int n)\<rparr>"

theorem contract_call_returns_witness: "\<exists>r. invokeContract slow_soroban = Some r"
  by (rule contract_call_returns) (simp add: slow_soroban_def)

lemma slow_times_out: "invokeContract slow_soroban = Some (Inl InvokeTimedOut, Some ''h'')"
  by (simp add: invokeContract_def simulateTransactionWithRetry_def send_transaction_def slow_soroban_def fee_out_of_range_def getFeeCapConfig_def
      poll_transaction.simps [of _ 0] max_wait_ms_def call_outcome_def)

theorem failed_call_may_have_run_witness: "Some ''h'' \<in> sb_send slow_soroban ` {1, 2, 3}"
  using failed_call_may_have_run [OF slow_times_out] by simp

definition open_breaker :: breaker where
  "open_breaker = \<lparr>cb_state = COpen, failure_count = 3, success_count = 0, last_failure = Some 1000\<rparr>"

theorem refused_requests_keep_breaker_open_witness:
  "fst (horizon_requests [(20000, Some ''a''), (45000, Some ''b''), (70000, Some ''c'')] open_breaker) = [None, None, None]"
proof -
  have "list_all (\<lambda>r. r = None) (fst (horizon_requests [(20000, Some ''a''), (45000, Some ''b''), (70000, Some ''c'')] open_breaker))"
    using refused_requests_keep_breaker_open [of open_breaker 1000 "[(20000, Some ''a''), (45000, Some ''b''), (70000, Some ''c'')]"]
    by (simp add: open_breaker_def horizon_options_def)
  then show ?thesis by (auto split: prod.splits)
qed

definition sample_payment :: stellar_op where
  "sample_payment = \<lparr>op_type = Some ''payment'', op_destination = Some ''B''\<rparr>"

theorem treasury_guard_sound_witness: "''B'' \<in> set (''T'' # getTreasuryAllowedDestinations (Some ''A, B''))"
proof -
  have "trim ''A'' = ''A''" "trim '' B'' = ''B''" by code_simp+
  then have l: "getTreasuryAllowedDestinations (Some ''A, B'') = [''A'', ''B'']"
    by (simp add: getTreasuryAllowedDestinations_def truthy_def)
  then have "validateOperationsForTreasuryAccount (Some ''A, B'') [sample_payment] ''T'' ''T'' = None"
    by (simp add: validateOperationsForTreasuryAccount_def operation_guard_def sample_payment_def
        FORBIDDEN_TREASURY_OPERATIONS_def ALLOWED_TREASURY_OPERATIONS_def)
  then show ?thesis
    using l treasury_guard_sound [of "Some ''A, B''" "[sample_payment]" "''T''" sample_payment]
    by (simp add: sample_payment_def DESTINATION_OPERATION_TYPES_def truthy_def)
qed

definition drifted :: submit_failure where
  "drifted = \<lparr>sf_transaction = ''tx_bad_seq'', sf_operations = [], sf_message = ''Request failed with status code 400''\<rparr>"

theorem sequence_drift_not_retried_witness:
  "buildAndSubmitTransaction (\<lambda>n. if n = 0 then Inl drifted else Inr ''ok'') True = (Inl (Some drifted), 1)"
proof -
  have "\<not> str_includes (sf_message drifted) ''tx_bad_seq''" by code_simp
  then show ?thesis by (intro sequence_drift_not_retried) (simp_all add: drifted_def)
qed

end
