(* ===== verification/Calendar.thy ===== *)
theory Calendar
  imports JsStr
begin

text \<open>
  Dates in business time zones: \<open>src/utils/dateUtils.ts\<close>, and the calendar and yields of the savings,
  \<open>src/config/savings.ts\<close>. The calendar of JavaScript dates is modelled here (\<open>Date.UTC\<close> and the UTC fields, for years
  from 100 on and within the range of dates); what \<open>Intl\<close> answers for a zone is a parameter.
\<close>

section \<open>Dates of JavaScript\<close>

record cal =
  cl_year :: int
  cl_month :: int
  cl_day :: int

record zparts = cal +
  zp_hour :: int
  zp_minute :: int
  zp_second :: int

definition day_ms :: int where "day_ms = 86400000"

definition leap_year :: "int \<Rightarrow> bool" where
  "leap_year y \<longleftrightarrow> 4 dvd y \<and> (\<not> 100 dvd y \<or> 400 dvd y)"

definition day_from_year :: "int \<Rightarrow> int" where
  "day_from_year y = 365 * (y - 1970) + (y - 1969) div 4 - (y - 1901) div 100 + (y - 1601) div 400"

definition month_starts :: "int \<Rightarrow> int list" where
  "month_starts y = (let l = of_bool (leap_year y) in
     [0, 31, 59 + l, 90 + l, 120 + l, 151 + l, 181 + l, 212 + l, 243 + l, 273 + l, 304 + l, 334 + l])"

text \<open>The months of \<open>MakeDay\<close> count from zero and run over into other years, its days into other months.\<close>

definition make_day :: "int \<Rightarrow> int \<Rightarrow> int \<Rightarrow> int" where
  "make_day y m d = (let y' = y + m div 12 in day_from_year y' + month_starts y' ! nat (m mod 12) + d - 1)"

definition date_utc :: "int \<Rightarrow> int \<Rightarrow> int \<Rightarrow> int \<Rightarrow> int \<Rightarrow> int \<Rightarrow> int" where
  "date_utc y m d h mi s =
     make_day (if 0 \<le> y \<and> y \<le> 99 then 1900 + y else y) m d * day_ms + h * 3600000 + mi * 60000 + s * 1000"

lemma div_step: "0 < k \<Longrightarrow> (z + 1) div k = z div k + of_bool (k dvd z + 1)" for k z :: int
proof -
  assume k: "0 < k"
  have z: "z + 1 = k * (z div k) + (z mod k + 1)" by simp
  have r: "0 \<le> z mod k" "z mod k < k" using k by simp_all
  have d: "k dvd z + 1 \<longleftrightarrow> k dvd z mod k + 1" by (metis mod_0_imp_dvd dvd_imp_mod_0 mod_add_left_eq)
  show ?thesis
  proof (cases "z mod k + 1 = k")
    case True
    then have "z + 1 = k * (z div k + 1)" using z by (simp add: distrib_left)
    then show ?thesis using True d k by simp
  next
    case False
    then have "z mod k + 1 < k" using r by simp
    moreover from this have "\<not> k dvd z mod k + 1" using r zdvd_not_zless [of "z mod k + 1" k] by simp
    ultimately show ?thesis using int_div_pos_eq [OF z] r d by simp
  qed
qed

lemma day_from_year_Suc: "day_from_year (y + 1) = day_from_year y + 365 + of_bool (leap_year y)"
proof -
  have a: "(y + 1 - 1969) div 4 = (y - 1969) div 4 + of_bool (4 dvd y)"
    using div_step [of 4 "y - 1969"] by (simp add: dvd_diff_left_iff)
  have b: "(y + 1 - 1901) div 100 = (y - 1901) div 100 + of_bool (100 dvd y)"
    using div_step [of 100 "y - 1901"] by (simp add: dvd_diff_left_iff)
  have c: "(y + 1 - 1601) div 400 = (y - 1601) div 400 + of_bool (400 dvd y)"
    using div_step [of 400 "y - 1601"] by (simp add: dvd_diff_left_iff)
  have "400 dvd y \<Longrightarrow> 100 dvd y" "100 dvd y \<Longrightarrow> 4 dvd y" by (auto elim!: dvd_trans [rotated])
  then have d: "of_bool (leap_year y) = of_bool (4 dvd y) - of_bool (100 dvd y) + (of_bool (400 dvd y) :: int)"
    unfolding leap_year_def by (cases "4 dvd y"; cases "100 dvd y"; cases "400 dvd y") simp_all
  have "365 * (y + 1 - 1970) + (A + i) - (B + j) + (C + k) = 365 * (y - 1970) + A - B + C + 365 + (i - j + k)"
    for A B C i j k :: int by simp
  then show ?thesis unfolding day_from_year_def a b c d .
qed

function year_up :: "int \<Rightarrow> int \<Rightarrow> int" where
  "year_up n y = (if day_from_year (y + 1) \<le> n then year_up n (y + 1) else y)"
  by auto
termination
  by (relation "measure (\<lambda>(n, y). nat (n - day_from_year y))") (auto simp: day_from_year_Suc of_bool_def split: if_splits)

declare year_up.simps [simp del]

definition year_of :: "int \<Rightarrow> int" where
  "year_of n = year_up n (1970 + n div (if 0 \<le> n then 366 else 365))"

definition civil :: "int \<Rightarrow> cal" where
  "civil n =
     (let y = year_of n; yd = n - day_from_year y; m = length (filter (\<lambda>s. s \<le> yd) (month_starts y)) in
      \<lparr>cl_year = y, cl_month = int m, cl_day = yd - month_starts y ! (m - 1) + 1\<rparr>)"

text \<open>The UTC fields of a time in milliseconds.\<close>

definition utc_parts :: "int \<Rightarrow> zparts" where
  "utc_parts t =
     (let c = civil (t div day_ms); r = t mod day_ms in
      \<lparr>cl_year = cl_year c, cl_month = cl_month c, cl_day = cl_day c,
       zp_hour = r div 3600000, zp_minute = r div 60000 mod 60, zp_second = r div 1000 mod 60\<rparr>)"

section \<open>Time zones\<close>

record zone_env =
  ze_default :: string
  ze_accepts :: "string \<Rightarrow> bool"           \<comment> \<open>\<open>Intl\<close> knows the zone\<close>
  ze_parts :: "string \<Rightarrow> int \<Rightarrow> zparts"     \<comment> \<open>and formats a time in it\<close>

definition zone_char :: "char \<Rightarrow> bool" where
  "zone_char c \<longleftrightarrow> (let n = of_char c :: int in 65 \<le> n \<and> n \<le> 90 \<or> 97 \<le> n \<and> n \<le> 122 \<or> 47 \<le> n \<and> n \<le> 57) \<or>
     c \<in> {CHR ''_'', CHR ''+'', CHR ''-''}"

definition zone_pattern :: "string \<Rightarrow> bool" where
  "zone_pattern s \<longleftrightarrow> s \<noteq> [] \<and> list_all zone_char s"

definition isValidTimeZone :: "zone_env \<Rightarrow> string \<Rightarrow> bool" where
  "isValidTimeZone e tz \<longleftrightarrow> zone_pattern tz \<and> ze_accepts e tz"

definition resolveTimeZone :: "zone_env \<Rightarrow> string option \<Rightarrow> string" where
  "resolveTimeZone e preferred =
     (case preferred of Some tz \<Rightarrow> if tz \<noteq> [] \<and> isValidTimeZone e tz then tz else ze_default e | None \<Rightarrow> ze_default e)"

definition assertSafeSqlTimeZone :: "zone_env \<Rightarrow> string \<Rightarrow> string option" where
  "assertSafeSqlTimeZone e tz = (let r = resolveTimeZone e (Some tz) in if zone_pattern r then Some r else None)"

definition getZonedDayOfMonth :: "zone_env \<Rightarrow> int \<Rightarrow> string option \<Rightarrow> int" where
  "getZonedDayOfMonth e date tz = cl_day (ze_parts e (resolveTimeZone e tz) date)"

definition addCalendarDays :: "'a cal_scheme \<Rightarrow> int \<Rightarrow> zparts" where
  "addCalendarDays p k = utc_parts (date_utc (cl_year p) (cl_month p - 1) (cl_day p + k) 0 0 0)"

definition addCalendarMonths :: "'a cal_scheme \<Rightarrow> int \<Rightarrow> zparts" where
  "addCalendarMonths p k = utc_parts (date_utc (cl_year p) (cl_month p - 1 + k) (cl_day p) 0 0 0)"

definition wall_ms :: "zparts \<Rightarrow> int" where
  "wall_ms p = date_utc (cl_year p) (cl_month p - 1) (cl_day p) (zp_hour p) (zp_minute p) (zp_second p)"

definition zonedDateTimeToUtc :: "zone_env \<Rightarrow> int \<Rightarrow> int \<Rightarrow> int \<Rightarrow> int \<Rightarrow> int \<Rightarrow> int \<Rightarrow> string \<Rightarrow> int" where
  "zonedDateTimeToUtc e y m d h mi s tz =
     (let desired = date_utc y (m - 1) d h mi s in
      ((\<lambda>guess. guess + (desired - wall_ms (ze_parts e tz guess))) ^^ 3) desired)"

definition getStartOfZonedDay :: "zone_env \<Rightarrow> int \<Rightarrow> string option \<Rightarrow> int" where
  "getStartOfZonedDay e date zone =
     (let tz = resolveTimeZone e zone; p = ze_parts e tz date in zonedDateTimeToUtc e (cl_year p) (cl_month p) (cl_day p) 0 0 0 tz)"

definition getStartOfZonedMonth :: "zone_env \<Rightarrow> int \<Rightarrow> string option \<Rightarrow> int" where
  "getStartOfZonedMonth e date zone =
     (let tz = resolveTimeZone e zone; p = ze_parts e tz date in zonedDateTimeToUtc e (cl_year p) (cl_month p) 1 0 0 0 tz)"

definition pad2 :: "int \<Rightarrow> string" where
  "pad2 n = (let s = int_str n in replicate (2 - length s) (CHR ''0'') @ s)"

definition formatIsoDateInTimeZone :: "zone_env \<Rightarrow> int \<Rightarrow> string option \<Rightarrow> string" where
  "formatIsoDateInTimeZone e date zone =
     (let p = ze_parts e (resolveTimeZone e zone) date in
      int_str (cl_year p) @ ''-'' @ pad2 (cl_month p) @ ''-'' @ pad2 (cl_day p))"

definition getNextDailyMidnight :: "zone_env \<Rightarrow> int \<Rightarrow> string option \<Rightarrow> int" where
  "getNextDailyMidnight e now zone =
     (let tz = resolveTimeZone e zone; t = addCalendarDays (ze_parts e tz now) 1 in
      zonedDateTimeToUtc e (cl_year t) (cl_month t) (cl_day t) 0 0 0 tz)"

definition getInitialDailyMidnight :: "zone_env \<Rightarrow> int \<Rightarrow> string option \<Rightarrow> int" where
  "getInitialDailyMidnight e now zone =
     (let tz = resolveTimeZone e zone; p = ze_parts e tz now;
          today = zonedDateTimeToUtc e (cl_year p) (cl_month p) (cl_day p) 0 0 0 tz in
      if now < today then today else getNextDailyMidnight e now (Some tz))"

section \<open>The calendar of the savings\<close>

definition lock_day :: "string \<Rightarrow> int option" where
  "lock_day s =
     (case parse_int (trim s) of Fin d \<Rightarrow> if 1 \<le> d \<and> d \<le> 31 then Some \<lfloor>d\<rfloor> else None | _ \<Rightarrow> None)"

definition SAVINGS_LOCK_DAYS :: "string option \<Rightarrow> int list" where
  "SAVINGS_LOCK_DAYS raw =
     List.map_filter lock_day (split_on (CHR '','') (case raw of Some s \<Rightarrow> if s = [] then ''1,15'' else s | None \<Rightarrow> ''1,15''))"

text \<open>The table of yields: the parsed variable where it is set and parses, the default otherwise.\<close>

definition SAVINGS_APY_BY_TERM :: "(int \<rightharpoonup> rat) option \<Rightarrow> int \<rightharpoonup> rat" where
  "SAVINGS_APY_BY_TERM parsed =
     (case parsed of Some t \<Rightarrow> t | None \<Rightarrow> [7776000 \<mapsto> 2, 15552000 \<mapsto> 5 / 2, 31104000 \<mapsto> 3])"

definition isSavingsLockDate :: "zone_env \<Rightarrow> int list \<Rightarrow> int \<Rightarrow> string option \<Rightarrow> bool" where
  "isSavingsLockDate e locked date zone \<longleftrightarrow> getZonedDayOfMonth e date zone \<in> set locked"

definition getNextSavingsWithdrawalDate :: "zone_env \<Rightarrow> int list \<Rightarrow> int \<Rightarrow> string option \<Rightarrow> int" where
  "getNextSavingsWithdrawalDate e locked date zone =
     (let tz = resolveTimeZone e zone; p = ze_parts e tz date; ds = sort locked in
      case find (\<lambda>d. cl_day p < d) ds of
        Some d \<Rightarrow> zonedDateTimeToUtc e (cl_year p) (cl_month p) d 0 0 0 tz
      | None \<Rightarrow>
          (let n = addCalendarMonths p 1 in
           zonedDateTimeToUtc e (cl_year n) (cl_month n) (case ds of d # _ \<Rightarrow> d | [] \<Rightarrow> 1) 0 0 0 tz))"

definition getApyForTerm :: "(int \<rightharpoonup> rat) \<Rightarrow> int \<Rightarrow> rat" where
  "getApyForTerm tbl n = (case tbl n of Some a \<Rightarrow> a | None \<Rightarrow> 2)"

definition computeAccruedYield :: "rat \<Rightarrow> rat \<Rightarrow> rat \<Rightarrow> rat" where
  "computeAccruedYield amount apy days = f64 (f64 (f64 (amount * f64 (apy / 100)) * days) / 365)"

section \<open>The calendar is right\<close>

lemma day_from_year_le: "y \<le> z \<Longrightarrow> day_from_year y + 365 * (z - y) \<le> day_from_year z"
proof (induction "nat (z - y)" arbitrary: z)
  case (Suc k)
  then have "k = nat (z - 1 - y)" "y \<le> z - 1" by linarith+
  then have "day_from_year y + 365 * (z - 1 - y) \<le> day_from_year (z - 1)" by (rule Suc.hyps(1))
  then show ?case using day_from_year_Suc [of "z - 1"] by (auto simp: of_bool_def split: if_splits)
qed simp

lemma day_from_year_ge: "y \<le> z \<Longrightarrow> day_from_year z \<le> day_from_year y + 366 * (z - y)"
proof (induction "nat (z - y)" arbitrary: z)
  case (Suc k)
  then have "k = nat (z - 1 - y)" "y \<le> z - 1" by linarith+
  then have "day_from_year (z - 1) \<le> day_from_year y + 366 * (z - 1 - y)" by (rule Suc.hyps(1))
  then show ?case using day_from_year_Suc [of "z - 1"] by (auto simp: of_bool_def split: if_splits)
qed simp

lemma day_from_1970: "day_from_year 1970 = 0" by (simp add: day_from_year_def)

lemma year_up_bounds: "day_from_year y \<le> n \<Longrightarrow> day_from_year (year_up n y) \<le> n \<and> n < day_from_year (year_up n y + 1)"
  by (induction n y rule: year_up.induct) (subst (1 2) year_up.simps, auto)

lemma year_of_bounds: "day_from_year (year_of n) \<le> n \<and> n < day_from_year (year_of n + 1)"
proof -
  have "day_from_year (1970 + n div (if 0 \<le> n then 366 else 365)) \<le> n"
  proof (cases "0 \<le> n")
    case True
    then have "day_from_year (1970 + n div 366) \<le> 366 * (n div 366)"
      using day_from_year_ge [of 1970 "1970 + n div 366"] by (simp add: day_from_1970 pos_imp_zdiv_nonneg_iff)
    moreover have "366 * (n div 366) \<le> n" by presburger
    ultimately show ?thesis using True by simp
  next
    case False
    then have "n div 365 \<le> 0" by (simp add: div_nonpos_pos_le0)
    then have "day_from_year (1970 + n div 365) \<le> 365 * (n div 365)"
      using day_from_year_le [of "1970 + n div 365" 1970] by (simp add: day_from_1970)
    moreover have "365 * (n div 365) \<le> n" by presburger
    ultimately show ?thesis using False by simp
  qed
  then show ?thesis unfolding year_of_def by (rule year_up_bounds)
qed

lemma year_of_unique: "day_from_year y \<le> n \<Longrightarrow> n < day_from_year (y + 1) \<Longrightarrow> year_of n = y"
  using year_of_bounds [of n] day_from_year_le [of "y + 1" "year_of n"] day_from_year_le [of "year_of n + 1" y]
  by (cases "y < year_of n"; cases "year_of n < y") auto

definition month_length :: "int \<Rightarrow> int \<Rightarrow> int" where
  "month_length y m = (month_starts y @ [365 + of_bool (leap_year y)]) ! nat m - month_starts y ! nat (m - 1)"

definition valid_date :: "int \<Rightarrow> int \<Rightarrow> int \<Rightarrow> bool" where
  "valid_date y m d \<longleftrightarrow> 1 \<le> m \<and> m \<le> 12 \<and> 1 \<le> d \<and> d \<le> month_length y m"

lemma months_sorted: "sorted_wrt (<) (month_starts y @ [365 + of_bool (leap_year y)])"
  by (simp add: month_starts_def Let_def)

lemma months_12: "length (month_starts y) = 12"
  by (simp add: month_starts_def Let_def)

lemma months_first: "month_starts y ! 0 = 0"
  by (simp add: month_starts_def Let_def)

lemma sorted_filter_takeWhile: "sorted_wrt (<) xs \<Longrightarrow> filter (\<lambda>s. s \<le> v) xs = takeWhile (\<lambda>s. s \<le> (v :: int)) xs"
proof (induction xs)
  case (Cons a xs)
  have "filter (\<lambda>s. s \<le> v) xs = []" if "\<not> a \<le> v"
    unfolding filter_empty_conv using Cons.prems that by auto
  then show ?case using Cons by (cases "a \<le> v") simp_all
qed simp

lemma sorted_nth_le: "sorted_wrt (<) xs \<Longrightarrow> i \<le> j \<Longrightarrow> j < length xs \<Longrightarrow> xs ! i \<le> (xs ! j :: int)"
  by (cases "i = j") (auto simp: sorted_wrt_nth_less less_imp_le)

lemma month_sorted: "sorted_wrt (<) (month_starts y)"
  using months_sorted by (simp add: sorted_wrt_append)

lemma month_found:
  assumes "valid_date y m d"
  shows "length (filter (\<lambda>s. s \<le> month_starts y ! nat (m - 1) + d - 1) (month_starts y)) = nat m"
    and "month_starts y ! nat (m - 1) + d - 1 < 365 + of_bool (leap_year y)" and "0 \<le> month_starts y ! nat (m - 1)"
proof -
  let ?xs = "month_starts y" and ?v = "month_starts y ! nat (m - 1) + d - 1"
  have m: "1 \<le> m" "m \<le> 12" "1 \<le> d" "?v < (?xs @ [365 + of_bool (leap_year y)]) ! nat m"
    using assms by (auto simp: valid_date_def month_length_def)
  have before: "?xs ! i \<le> ?v" if "i < nat m" for i
  proof -
    have "i \<le> nat (m - 1)" "nat (m - 1) < 12" using that m(1,2) by linarith+
    then have "?xs ! i \<le> ?xs ! nat (m - 1)" by (intro sorted_nth_le month_sorted) (simp_all add: months_12)
    then show ?thesis using m(3) by linarith
  qed
  have "takeWhile (\<lambda>s. s \<le> ?v) ?xs = take (nat m) ?xs"
    using before m(4) by (intro takeWhile_eq_take_P_nth) (auto simp: nth_append)
  then show "length (filter (\<lambda>s. s \<le> ?v) ?xs) = nat m"
    using m(1,2) unfolding sorted_filter_takeWhile [OF month_sorted] by (simp only: length_take months_12)
  show "?v < 365 + of_bool (leap_year y)"
  proof -
    have "(?xs @ [365 + of_bool (leap_year y)]) ! nat m \<le> (?xs @ [365 + of_bool (leap_year y)]) ! 12"
      using m(2) by (intro sorted_nth_le months_sorted) (simp_all add: months_12)
    then show ?thesis using m(4) by (simp add: nth_append months_12)
  qed
  show "0 \<le> ?xs ! nat (m - 1)"
    using m sorted_nth_le [OF month_sorted, of 0 "nat (m - 1)" y] by (simp add: months_12 months_first)
qed

lemma civil_make_day:
  assumes "valid_date y m d"
  shows "civil (make_day y (m - 1) d) = \<lparr>cl_year = y, cl_month = m, cl_day = d\<rparr>"
proof -
  have m: "1 \<le> m" "m \<le> 12" "1 \<le> d" using assms by (auto simp: valid_date_def)
  have day: "make_day y (m - 1) d = day_from_year y + (month_starts y ! nat (m - 1) + d - 1)"
    using m by (simp add: make_day_def Let_def)
  then have "year_of (make_day y (m - 1) d) = y"
    using month_found(2,3) [OF assms] m by (intro year_of_unique) (simp_all add: day_from_year_Suc)
  then show ?thesis using m day month_found(1) [OF assms] by (simp add: civil_def Let_def nat_diff_distrib)
qed

lemma civil_valid:
  shows "valid_date (cl_year (civil n)) (cl_month (civil n)) (cl_day (civil n))"
    and "make_day (cl_year (civil n)) (cl_month (civil n) - 1) (cl_day (civil n)) = n"
proof -
  define y where "y = year_of n"
  define yd where "yd = n - day_from_year y"
  have yd: "0 \<le> yd" "yd < 365 + of_bool (leap_year y)" unfolding yd_def y_def using year_of_bounds [of n] day_from_year_Suc [of "year_of n"] by linarith+
  define m where "m = length (filter (\<lambda>s. s \<le> yd) (month_starts y))"
  have facts: "1 \<le> m \<and> m \<le> 12 \<and> month_starts y ! (m - 1) \<le> yd \<and> yd < (month_starts y @ [365 + of_bool (leap_year y)]) ! m"
  proof -
    have tw: "m = length (takeWhile (\<lambda>s. s \<le> yd) (month_starts y))" by (simp add: m_def sorted_filter_takeWhile [OF month_sorted])
    have "0 < m" using yd(1) by (auto simp: tw month_starts_def Let_def)
    moreover have le: "m \<le> 12" using length_takeWhile_le [of "\<lambda>s. s \<le> yd" "month_starts y"] by (simp add: tw months_12)
    moreover have "month_starts y ! (m - 1) \<le> yd"
      using \<open>0 < m\<close> nth_mem [of "m - 1" "takeWhile (\<lambda>s. s \<le> yd) (month_starts y)"]
      by (auto simp: tw takeWhile_nth dest: set_takeWhileD)
    moreover have "yd < (month_starts y @ [365 + of_bool (leap_year y)]) ! m"
      using yd(2) le nth_length_takeWhile [of "\<lambda>s. s \<le> yd" "month_starts y"] by (auto simp: tw nth_append months_12)
    ultimately show ?thesis by simp
  qed
  have c: "civil n = \<lparr>cl_year = y, cl_month = int m, cl_day = yd - month_starts y ! (m - 1) + 1\<rparr>"
    by (simp add: civil_def Let_def y_def yd_def m_def)
  have i: "nat (int m - 1) = m - 1" using facts by simp
  show "valid_date (cl_year (civil n)) (cl_month (civil n)) (cl_day (civil n))"
    using facts by (simp add: c valid_date_def month_length_def i)
  show "make_day (cl_year (civil n)) (cl_month (civil n) - 1) (cl_day (civil n)) = n"
    using facts by (simp add: c make_day_def Let_def i yd_def)
qed

lemma month_28: "1 \<le> m \<Longrightarrow> m \<le> 12 \<Longrightarrow> 1 \<le> d \<Longrightarrow> d \<le> 28 \<Longrightarrow> valid_date y m d"
proof -
  assume m: "1 \<le> m" "m \<le> 12" and d: "1 \<le> d" "d \<le> 28"
  have "m = 1 \<or> m = 2 \<or> m = 3 \<or> m = 4 \<or> m = 5 \<or> m = 6 \<or> m = 7 \<or> m = 8 \<or> m = 9 \<or> m = 10 \<or> m = 11 \<or> m = 12"
    using m by presburger
  then have "28 \<le> month_length y m" by (elim disjE) (simp_all add: month_length_def month_starts_def Let_def)
  then show ?thesis using m d by (simp add: valid_date_def)
qed

section \<open>Wall clocks\<close>

lemma recent_year: "- 365 \<le> n \<Longrightarrow> 1969 \<le> cl_year (civil n)"
proof -
  assume n: "- 365 \<le> n"
  have "1969 \<le> year_of n"
  proof (rule ccontr)
    assume "\<not> 1969 \<le> year_of n"
    then have "day_from_year (year_of n + 1) \<le> day_from_year 1969" using day_from_year_le [of "year_of n + 1" 1969] by simp
    moreover have "day_from_year 1969 = - 365" by (simp add: day_from_year_def)
    ultimately show False using year_of_bounds [of n] n by simp
  qed
  then show ?thesis by (simp add: civil_def Let_def)
qed

lemma clock_fields:
  assumes "1000 dvd r"
  shows "r div 3600000 * 3600000 + r div 60000 mod 60 * 60000 + r div 1000 mod 60 * 1000 = (r :: int)"
proof -
  obtain q where q: "r = 1000 * q" using assms by (auto elim: dvdE)
  have parts: "r div 1000 = q" "r div 60000 = q div 60" "r div 3600000 = q div 60 div 60"
    using zdiv_zmult2_eq [of 60 r 1000] zdiv_zmult2_eq [of 3600 r 1000] zdiv_zmult2_eq [of 60 q 60] by (simp_all add: q)
  have q1: "q = 60 * (q div 60) + q mod 60" by (rule mult_div_mod_eq [symmetric])
  have q2: "q div 60 = 60 * (q div 60 div 60) + q div 60 mod 60" by (rule mult_div_mod_eq [symmetric])
  have "c * 3600000 + d * 60000 + b * 1000 = 1000 * q" if "q = 60 * a + b" "a = 60 * c + d" for a b c d :: int
    using that by simp
  from this [OF q1 q2] show ?thesis unfolding parts by (simp only: q)
qed

lemma date_utc_time: "date_utc y m d h mi s = date_utc y m d 0 0 0 + (h * 3600000 + mi * 60000 + s * 1000)"
  by (simp add: date_utc_def)

lemma date_utc_civil:
  "- 365 \<le> n \<Longrightarrow> date_utc (cl_year (civil n)) (cl_month (civil n) - 1) (cl_day (civil n) + k) 0 0 0 = (n + k) * day_ms"
  using civil_valid(2) [of n] recent_year [of n] by (simp add: date_utc_def make_day_def Let_def)

lemma wall_ms_utc: "- day_ms \<le> t \<Longrightarrow> 1000 dvd t \<Longrightarrow> wall_ms (utc_parts t) = t"
proof -
  assume t: "- day_ms \<le> t" "1000 dvd t"
  have "- 1 \<le> t div day_ms" using zdiv_mono1 [OF t(1), of day_ms] by (simp add: day_ms_def)
  then have "date_utc (cl_year (civil (t div day_ms))) (cl_month (civil (t div day_ms)) - 1) (cl_day (civil (t div day_ms))) 0 0 0
      = t div day_ms * day_ms" using date_utc_civil [of "t div day_ms" 0] by simp
  moreover have "1000 dvd t mod day_ms" using t(2) by (simp add: dvd_mod day_ms_def)
  note clock_fields [OF this]
  ultimately show ?thesis
    unfolding wall_ms_def utc_parts_def Let_def cal.select_convs zparts.select_convs
    by (subst date_utc_time) (simp only: div_mult_mod_eq)
qed

text \<open>A zone that keeps its distance to UTC, whole seconds and a day at most, from 1970 on.\<close>

definition steady :: "zone_env \<Rightarrow> string \<Rightarrow> int \<Rightarrow> bool" where
  "steady e tz k \<longleftrightarrow> 1000 dvd k \<and> \<bar>k\<bar> \<le> day_ms \<and> (\<forall>t \<ge> 0. ze_parts e tz t = utc_parts (t + k))"

lemma zoned_to_utc:
  assumes "steady e tz k" and "date_utc y (m - 1) d h mi s = w" and "2 * day_ms \<le> w" and "1000 dvd w"
  shows "zonedDateTimeToUtc e y m d h mi s tz = w - k"
proof -
  have step: "g + (w - wall_ms (ze_parts e tz g)) = w - k" if "0 \<le> g" "1000 dvd g" for g
  proof -
    have "- day_ms \<le> g + k" "1000 dvd g + k" using assms(1) that by (auto simp: steady_def)
    then show ?thesis using assms(1) that wall_ms_utc by (simp add: steady_def)
  qed
  have "0 \<le> w - k" "1000 dvd w - k" "0 \<le> w" using assms by (auto simp: steady_def day_ms_def)
  then have "w + (w - wall_ms (ze_parts e tz w)) = w - k"
    "w - k + (w - wall_ms (ze_parts e tz (w - k))) = w - k" using step assms(4) by blast+
  then show ?thesis unfolding zonedDateTimeToUtc_def Let_def assms(2) eval_nat_numeral funpow.simps o_apply id_apply by simp
qed

text \<open>
  Dates are read back: a wall-clock time of a zone without daylight saving, converted to an instant, is formatted in
  that zone as the same year, month, day, hour, minute and second, leap years included.
\<close>

theorem zoned_time_roundtrip:
  assumes "steady e tz k" and "1971 \<le> y" and "valid_date y m d"
    and "0 \<le> h \<and> h < 24" and "0 \<le> mi \<and> mi < 60" and "0 \<le> s \<and> s < 60"
  shows "ze_parts e tz (zonedDateTimeToUtc e y m d h mi s tz) =
    \<lparr>cl_year = y, cl_month = m, cl_day = d, zp_hour = h, zp_minute = mi, zp_second = s\<rparr>"
proof -
  define n where "n = make_day y (m - 1) d"
  define r where "r = h * 3600000 + mi * 60000 + s * 1000"
  have r: "0 \<le> r" "r < day_ms" using assms(4-6) by (simp_all add: r_def day_ms_def)
  have civ: "civil n = \<lparr>cl_year = y, cl_month = m, cl_day = d\<rparr>" using civil_make_day [OF assms(3)] by (simp add: n_def)
  have "day_from_year 1971 \<le> day_from_year y" using day_from_year_le [OF assms(2)] assms(2) by simp
  then have n: "365 \<le> n"
    using year_of_bounds [of n] civ by (simp add: civil_def Let_def day_from_year_def [of 1971])
  have w: "date_utc y (m - 1) d h mi s = n * day_ms + r"
    using assms(2) by (simp add: date_utc_def n_def r_def)
  have dv: "1000 dvd n * day_ms + r" by (auto simp: day_ms_def r_def)
  have big: "2 * day_ms \<le> n * day_ms + r" using n r by (simp add: day_ms_def)
  have "0 \<le> n * day_ms + r - k" using assms(1) big by (auto simp: steady_def day_ms_def)
  then have "ze_parts e tz (zonedDateTimeToUtc e y m d h mi s tz) = utc_parts (n * day_ms + r)"
    using assms(1) zoned_to_utc [OF assms(1) w big dv] by (simp add: steady_def)
  moreover have "(n * day_ms + r) div day_ms = n" by (rule int_div_pos_eq [of _ _ _ r]) (use r in simp_all)
  moreover have "(n * day_ms + r) mod day_ms = r" by (rule int_mod_pos_eq [of _ _ n]) (use r in simp_all)
  moreover have "r div 3600000 = h" "r div 60000 mod 60 = mi" "r div 1000 mod 60 = s"
  proof -
    have "r div 3600000 = h"
      by (rule int_div_pos_eq [of _ _ h "mi * 60000 + s * 1000"]) (use assms(5,6) in \<open>simp_all add: r_def\<close>)
    moreover have "r div 60000 = h * 60 + mi"
      by (rule int_div_pos_eq [of _ _ _ "s * 1000"]) (use assms(6) in \<open>simp_all add: r_def\<close>)
    moreover have "r div 1000 = (h * 60 + mi) * 60 + s" by (rule int_div_pos_eq [of _ _ _ 0]) (simp_all add: r_def)
    moreover have "((h * 60 + mi) * 60 + s) mod 60 = s" using assms(6) by (subst mod_mult_self3) simp
    moreover have "(h * 60 + mi) mod 60 = mi" using assms(5) by (subst mod_mult_self3) simp
    ultimately show "r div 3600000 = h" "r div 60000 mod 60 = mi" "r div 1000 mod 60 = s" by (simp_all only:)
  qed
  ultimately show ?thesis by (simp only: utc_parts_def civ Let_def cal.select_convs)
qed

section \<open>Midnights\<close>

lemma civil_of_parts: "cl_year (utc_parts t) = cl_year (civil (t div day_ms))" "cl_month (utc_parts t) = cl_month (civil (t div day_ms))"
  "cl_day (utc_parts t) = cl_day (civil (t div day_ms))"
  by (simp_all add: utc_parts_def Let_def)

lemma whole_day: "n * day_ms div day_ms = n" "n * day_ms mod day_ms = 0"
  by (simp_all add: day_ms_def)

lemma midnight_of:
  assumes "steady e tz k" and "2 \<le> n"
  shows "zonedDateTimeToUtc e (cl_year (civil n)) (cl_month (civil n)) (cl_day (civil n)) 0 0 0 tz = n * day_ms - k"
  using assms date_utc_civil [of n 0] by (intro zoned_to_utc) (simp_all add: day_ms_def)

lemma resolve_idem: "resolveTimeZone e (Some (resolveTimeZone e zone)) = resolveTimeZone e zone"
  by (auto simp: resolveTimeZone_def split: option.split)

lemma local_day:
  assumes "steady e tz k" and "3 * day_ms \<le> now"
  shows "ze_parts e tz now = utc_parts (now + k)" and "2 \<le> (now + k) div day_ms"
    and "(now + k) div day_ms * day_ms \<le> now + k" and "now + k < ((now + k) div day_ms + 1) * day_ms"
proof -
  have k: "\<bar>k\<bar> \<le> day_ms" using assms(1) by (simp add: steady_def)
  show "ze_parts e tz now = utc_parts (now + k)" using assms by (simp add: steady_def day_ms_def)
  have "2 * day_ms \<le> now + k" using k assms(2) by linarith
  from zdiv_mono1 [OF this, of day_ms] show "2 \<le> (now + k) div day_ms" by (simp add: day_ms_def)
  have "now + k = (now + k) div day_ms * day_ms + (now + k) mod day_ms" by simp
  moreover have "0 \<le> (now + k) mod day_ms" "(now + k) mod day_ms < day_ms" by (simp_all add: day_ms_def)
  ultimately show "(now + k) div day_ms * day_ms \<le> now + k" "now + k < ((now + k) div day_ms + 1) * day_ms"
    unfolding distrib_right by linarith+
qed

lemma next_midnight_is:
  assumes "steady e (resolveTimeZone e zone) k" and "3 * day_ms \<le> now"
  shows "getNextDailyMidnight e now zone = ((now + k) div day_ms + 1) * day_ms - k"
proof -
  note day = local_day [OF assms]
  define n where "n = (now + k) div day_ms"
  have n: "2 \<le> n" using day(2) by (simp add: n_def)
  have "addCalendarDays (utc_parts (now + k)) 1 = utc_parts ((n + 1) * day_ms)"
    using date_utc_civil [of n 1] n by (simp add: addCalendarDays_def civil_of_parts n_def)
  then show ?thesis
    using midnight_of [OF assms(1), of "n + 1"] n
    by (simp add: getNextDailyMidnight_def Let_def day(1) civil_of_parts whole_day n_def [symmetric])
qed

text \<open>
  C35. A daily schedule advances: the next midnight of a zone without daylight saving lies after the given time and a day
  later at most, it is midnight there, and the first run of a schedule is that midnight too, the midnight of today being
  never in the future.
\<close>

theorem next_midnight_advances:
  assumes "steady e (resolveTimeZone e zone) k" and "3 * day_ms \<le> now"
  shows "let t = getNextDailyMidnight e now zone; p = ze_parts e (resolveTimeZone e zone) t in
    now < t \<and> t \<le> now + day_ms \<and> zp_hour p = 0 \<and> zp_minute p = 0 \<and> zp_second p = 0 \<and>
    getInitialDailyMidnight e now zone = t"
proof -
  note day = local_day [OF assms]
  define n where "n = (now + k) div day_ms"
  have next_day: "getNextDailyMidnight e now zone = (n + 1) * day_ms - k" using next_midnight_is [OF assms] by (simp add: n_def)
  have after: "now < (n + 1) * day_ms - k" "(n + 1) * day_ms - k \<le> now + day_ms"
    using day(3,4) unfolding n_def [symmetric] distrib_right by linarith+
  have "ze_parts e (resolveTimeZone e zone) ((n + 1) * day_ms - k) = utc_parts ((n + 1) * day_ms)"
    using assms after(1) by (simp add: steady_def day_ms_def)
  moreover have "getInitialDailyMidnight e now zone = (n + 1) * day_ms - k"
  proof -
    have "zonedDateTimeToUtc e (cl_year (civil n)) (cl_month (civil n)) (cl_day (civil n)) 0 0 0 (resolveTimeZone e zone) = n * day_ms - k"
      using midnight_of [OF assms(1)] day(2) by (simp add: n_def)
    moreover have "\<not> now < n * day_ms - k" using day(3) unfolding n_def by linarith
    moreover have "getNextDailyMidnight e now (Some (resolveTimeZone e zone)) = getNextDailyMidnight e now zone"
      by (simp add: getNextDailyMidnight_def resolve_idem)
    ultimately show ?thesis
      by (simp add: getInitialDailyMidnight_def Let_def day(1) civil_of_parts n_def [symmetric] next_day)
  qed
  ultimately show ?thesis using after by (simp add: next_day utc_parts_def Let_def whole_day)
qed

section \<open>The next withdrawal\<close>

lemma make_day_ge: "1 \<le> d \<Longrightarrow> day_from_year (y + m div 12) \<le> make_day y m d"
proof -
  have "0 \<le> month_starts (y + m div 12) ! nat (m mod 12)"
    using sorted_nth_le [OF month_sorted, of 0 "nat (m mod 12)" "y + m div 12"] by (simp add: months_12 months_first)
  then show "1 \<le> d \<Longrightarrow> ?thesis" by (simp add: make_day_def Let_def)
qed

lemma year_1971: "1971 \<le> y \<Longrightarrow> 365 \<le> day_from_year y"
  using day_from_year_le [of 1971 y] by (simp add: day_from_year_def [of 1971])

lemma year_of_mono: "day_from_year y \<le> n \<Longrightarrow> y \<le> year_of n"
  using year_of_bounds [of n] day_from_year_le [of "year_of n + 1" y] by (cases "y \<le> year_of n") auto

lemma day_of_midnight:
  assumes "steady e tz k" and "valid_date y m d" and "1971 \<le> y"
  shows "cl_day (ze_parts e tz (zonedDateTimeToUtc e y m d 0 0 0 tz)) = d"
proof -
  define n where "n = make_day y (m - 1) d"
  have civ: "civil n = \<lparr>cl_year = y, cl_month = m, cl_day = d\<rparr>" using civil_make_day [OF assms(2)] by (simp add: n_def)
  have m: "(m - 1) div 12 = 0" "1 \<le> d" using assms(2) by (auto simp: valid_date_def)
  have n: "365 \<le> n" using make_day_ge [OF m(2), of y "m - 1"] year_1971 [OF assms(3)] by (simp add: n_def m)
  then have "zonedDateTimeToUtc e y m d 0 0 0 tz = n * day_ms - k"
    using midnight_of [OF assms(1), of n] civ by simp
  moreover have "0 \<le> n * day_ms - k" using assms(1) n by (auto simp: steady_def day_ms_def)
  ultimately show ?thesis using assms(1) civ by (simp add: steady_def civil_of_parts whole_day)
qed

lemma savings_defaults: "SAVINGS_LOCK_DAYS None = [1, 15]"
proof -
  have "trim ''1'' = ''1''" "trim ''15'' = ''15''" "parse_int ''1'' = Fin 1" "parse_int ''15'' = Fin 15" by code_simp+
  then have "lock_day ''1'' = Some 1" "lock_day ''15'' = Some 15" by (simp_all add: lock_day_def)
  then show ?thesis by (simp add: SAVINGS_LOCK_DAYS_def map_filter_simps)
qed

text \<open>
  The date announced as the next one for withdrawals is one on which they are refused: the search for the next
  allowed date returns the next locked day, in every month, for every list of locked days up to the twenty-eighth, the
  default (the first and the fifteenth) among them.
\<close>

theorem announced_withdrawal_date_is_locked:
  assumes "steady e (resolveTimeZone e zone) k" and "1000 * day_ms \<le> now"
    and "locked \<noteq> []" and "list_all (\<lambda>d. 1 \<le> d \<and> d \<le> 28) locked"
  shows "isSavingsLockDate e locked (getNextSavingsWithdrawalDate e locked now zone) zone"
proof -
  let ?tz = "resolveTimeZone e zone"
  have now: "3 * day_ms \<le> now" using assms(2) by (simp add: day_ms_def)
  note day = local_day [OF assms(1) now]
  define n where "n = (now + k) div day_ms"
  have "999 * day_ms \<le> now + k" using assms(1,2) by (auto simp: steady_def day_ms_def)
  from zdiv_mono1 [OF this, of day_ms] have n: "999 \<le> n" by (simp add: n_def day_ms_def)
  have y: "1971 \<le> cl_year (civil n)"
    using year_of_mono [of 1971 n] n by (simp add: civil_def Let_def day_from_year_def [of 1971])
  have ok: "valid_date y' m' d" if "d \<in> set locked" "1 \<le> m'" "m' \<le> 12" for y' m' d
    using that assms(4) by (intro month_28) (auto simp: list_all_iff)
  have cm: "1 \<le> cl_month (civil i) \<and> cl_month (civil i) \<le> 12" for i using civil_valid(1) [of i] by (simp add: valid_date_def)
  show ?thesis
  proof (cases "find (\<lambda>d. cl_day (civil n) < d) (sort locked)")
    case (Some d)
    then obtain i where "i < length (sort locked)" "d = sort locked ! i" by (auto simp: find_Some_iff)
    then have "d \<in> set locked" by (metis nth_mem set_sort)
    then show ?thesis
      using Some day_of_midnight [OF assms(1) ok y, of d "cl_month (civil n)"] cm [of n]
      by (simp add: isSavingsLockDate_def getZonedDayOfMonth_def getNextSavingsWithdrawalDate_def Let_def day(1)
          civil_of_parts n_def [symmetric])
  next
    case None
    define d where "d = hd (sort locked)"
    have sorted: "sort locked = d # tl (sort locked)"
      using assms(3) by (metis d_def list.collapse list.set(1) set_empty2 set_sort)
    then have d: "d \<in> set locked" by (metis list.set_intros(1) set_sort)
    have first: "(case sort locked of d # _ \<Rightarrow> d | [] \<Rightarrow> 1) = d" by (subst sorted) simp
    define N where "N = make_day (cl_year (civil n)) (cl_month (civil n)) (cl_day (civil n))"
    have "1 \<le> cl_day (civil n)" using civil_valid(1) [of n] by (simp add: valid_date_def)
    then have "day_from_year (cl_year (civil n) + cl_month (civil n) div 12) \<le> N" by (simp add: N_def make_day_ge)
    moreover have "0 \<le> cl_month (civil n) div 12" using cm [of n] by (simp add: pos_imp_zdiv_nonneg_iff)
    ultimately have yN: "1971 \<le> cl_year (civil N)"
      using year_of_mono [of "cl_year (civil n) + cl_month (civil n) div 12" N] y by (simp add: civil_def [of N] Let_def)
    have "addCalendarMonths (utc_parts (now + k)) 1 = utc_parts (N * day_ms)"
      using y by (simp add: addCalendarMonths_def civil_of_parts n_def [symmetric] date_utc_def N_def)
    then show ?thesis
      using None day_of_midnight [OF assms(1) ok yN, of d "cl_month (civil N)"] d cm [of N] first
      by (simp add: isSavingsLockDate_def getZonedDayOfMonth_def getNextSavingsWithdrawalDate_def Let_def day(1)
          civil_of_parts whole_day n_def [symmetric])
  qed
qed

text \<open>From the thirty-first of January the next month is March: the day runs over.\<close>

lemma month_skipped:
  "cl_month (addCalendarMonths \<lparr>cl_year = 2025, cl_month = 1, cl_day = 31\<rparr> 1) = 3"
  by code_simp

section \<open>Concrete inputs\<close>

definition lagos :: zone_env where
  "lagos = \<lparr>ze_default = ''Africa/Lagos'', ze_accepts = (\<lambda>tz. tz = ''Africa/Lagos''), ze_parts = (\<lambda>tz t. utc_parts (t + 3600000))\<rparr>"

lemma lagos_steady: "steady lagos tz 3600000"
  by (simp add: steady_def lagos_def day_ms_def)

theorem zoned_time_roundtrip_witness:
  "ze_parts lagos ''Africa/Lagos'' (zonedDateTimeToUtc lagos 2024 2 29 23 59 30 ''Africa/Lagos'') =
     \<lparr>cl_year = 2024, cl_month = 2, cl_day = 29, zp_hour = 23, zp_minute = 59, zp_second = 30\<rparr>"
proof -
  have "leap_year 2024" by code_simp
  then have "valid_date 2024 2 29" by (simp add: valid_date_def month_length_def month_starts_def Let_def)
  then show ?thesis using zoned_time_roundtrip [OF lagos_steady, of 2024 2 29 23 59 30 "''Africa/Lagos''"] by simp
qed

theorem next_midnight_advances_witness:
  "1700000000000 < getNextDailyMidnight lagos 1700000000000 None \<and>
     getInitialDailyMidnight lagos 1700000000000 None = getNextDailyMidnight lagos 1700000000000 None"
  using next_midnight_advances [OF lagos_steady, where zone = None and now = 1700000000000] by (simp add: Let_def day_ms_def)

theorem announced_withdrawal_date_is_locked_witness:
  "isSavingsLockDate lagos (SAVINGS_LOCK_DAYS None) (getNextSavingsWithdrawalDate lagos (SAVINGS_LOCK_DAYS None) 1700000000000 None) None"
  using announced_withdrawal_date_is_locked [OF lagos_steady, where zone = None and now = 1700000000000 and locked = "SAVINGS_LOCK_DAYS None"]
  by (simp add: savings_defaults day_ms_def)

end
