(* ===== verification/Contracts.thy ===== *)
theory Contracts
  imports Stellar Calendar Minting Conversion
begin

text \<open>
  The services of the Soroban contracts (\<open>src/services/contracts/\<close>), their addresses (\<open>src/config/contracts.ts\<close>), and
  the controllers that only check a request and call one: lending, gateway, savings, and the status of the reserves.
  What a call answers, and whether its transaction was handed to the network, comes from \<open>invokeContract\<close> of the client.
\<close>

section \<open>Addresses\<close>

definition contract_address :: "(string \<Rightarrow> string option) \<Rightarrow> string \<Rightarrow> string \<Rightarrow> string" where
  "contract_address env network name =
     (let own = env (''CONTRACT_'' @ name @ ''_'' @ to_upper network) in
      if truthy own then the own else (case env (''CONTRACT_'' @ name) of Some a \<Rightarrow> a | None \<Rightarrow> []))"

definition validateContractAddresses :: "(string \<Rightarrow> string option) \<Rightarrow> string \<Rightarrow> string list" where
  "validateContractAddresses env network =
     filter (\<lambda>name. contract_address env network name = []) [''ORACLE'', ''RESERVE_TRACKER'', ''MINTING'', ''BURNING'']"

section \<open>Values\<close>

text \<open>\<open>BigInt(s)\<close>; None where it throws.\<close>

definition radix_int :: "int \<Rightarrow> string \<Rightarrow> int option" where
  "radix_int base ds =
     (if ds \<noteq> [] \<and> list_all (\<lambda>c. 0 \<le> radix_digit c \<and> radix_digit c < base) ds
      then Some (foldl (\<lambda>acc c. base * acc + radix_digit c) 0 ds) else None)"

definition big_of_string :: "string \<Rightarrow> int option" where
  "big_of_string s =
     (let t = trim s; pre = to_lower (take 2 t) in
      if t = [] then Some 0
      else if pre = ''0x'' then radix_int 16 (drop 2 t)
      else if pre = ''0o'' then radix_int 8 (drop 2 t)
      else if pre = ''0b'' then radix_int 2 (drop 2 t)
      else (let ds = (if hd t = CHR ''-'' \<or> hd t = CHR ''+'' then tl t else t) in
        if ds \<noteq> [] \<and> list_all is_digit ds then Some (if hd t = CHR ''-'' then - digits_val 0 ds else digits_val 0 ds)
        else None))"

fun comma_list :: "string list \<Rightarrow> string" where
  "comma_list [] = []"
| "comma_list [s] = s"
| "comma_list (s # ss) = s @ '','' @ comma_list ss"

text \<open>
  The text of a decoded value as an element of a joined array (null is empty there); \<open>toString()\<close>, None where it throws;
  \<open>String\<close>; and \<open>Number\<close>. \<open>txt\<close> decodes bytes.
\<close>

fun element_text :: "(8 word list \<Rightarrow> string) \<Rightarrow> js_prim \<Rightarrow> string" where
  "element_text txt (PBool b) = (if b then ''true'' else ''false'')"
| "element_text txt PNull = []"
| "element_text txt (PNum n) = signed_str n"
| "element_text txt (PStr s) = s"
| "element_text txt (PBig n) = signed_str n"
| "element_text txt (PBytes bs) = txt bs"
| "element_text txt (PArr vs) = comma_list (map (element_text txt) vs)"
| "element_text txt (PScVal v) = ''[object Object]''"

definition to_string :: "(8 word list \<Rightarrow> string) \<Rightarrow> js_prim \<Rightarrow> string option" where
  "to_string txt v = (if v = PNull then None else Some (element_text txt v))"

definition string_of :: "(8 word list \<Rightarrow> string) \<Rightarrow> js_prim \<Rightarrow> string" where
  "string_of txt v = (if v = PNull then ''null'' else element_text txt v)"

definition number_of :: "(8 word list \<Rightarrow> string) \<Rightarrow> js_prim \<Rightarrow> jsnum" where
  "number_of txt v =
     (case v of
        PBool b \<Rightarrow> Fin (of_bool b) | PNull \<Rightarrow> Fin 0 | PNum n \<Rightarrow> Fin (of_int n) | PBig n \<Rightarrow> Fin (f64 (of_int n))
      | PScVal _ \<Rightarrow> NaN | _ \<Rightarrow> js_number (element_text txt v))"

section \<open>Calls\<close>

record ccall =
  cc_contract :: string
  cc_function :: string
  cc_args :: "sc_val list"

datatype contract_error =
    NoSource | BadInteger | BadValue | BadCurrency | KeyMissing | CallRefused invoke_error | ReadRefused | NoText | NotAnArray

text \<open>What \<open>Object.entries\<close> finds in a value that is not decoded, read as the reserve of a currency.\<close>

record reserve_entry =
  re_currency :: "string option"
  re_amount :: "string option"
  re_value :: "string option"
  re_time :: jsnum

record contracts_env =
  ce_source :: "string option"             \<comment> \<open>public key of the configured key pair\<close>
  ce_valid :: "string \<Rightarrow> bool"              \<comment> \<open>\<open>Address.fromString\<close> accepts\<close>
  ce_text :: "8 word list \<Rightarrow> string"
  ce_call :: "ccall \<Rightarrow> (invoke_error + invoke_result) \<times> string option"
  ce_read :: "ccall \<Rightarrow> sc_val option"
  ce_entries :: "sc_val \<Rightarrow> reserve_entry list"

definition sc_arg :: "contracts_env \<Rightarrow> sc_input \<Rightarrow> contract_error + sc_val" where
  "sc_arg e v = (case toScVal (ce_valid e) v of Some s \<Rightarrow> Inr s | None \<Rightarrow> Inl BadValue)"

definition big_arg :: "contracts_env \<Rightarrow> string \<Rightarrow> contract_error + sc_val" where
  "big_arg e s = (case big_of_string s of Some b \<Rightarrow> sc_arg e (InBig b) | None \<Rightarrow> Inl BadInteger)"

definition num_arg :: "contracts_env \<Rightarrow> string \<Rightarrow> contract_error + sc_val" where
  "num_arg e s = sc_arg e (InNum (js_number s))"

definition currencyCodeToScVal :: "string \<Rightarrow> contract_error + sc_val" where
  "currencyCodeToScVal code =
     (let c = to_upper (trim code) in if length c \<noteq> 3 then Inl BadCurrency else Inr (ScVec [ScVec [ScString c]]))"

fun call_args :: "(contract_error + sc_val) list \<Rightarrow> contract_error + sc_val list" where
  "call_args [] = Inr []"
| "call_args (a # as) = bindR a (\<lambda>v. bindR (call_args as) (\<lambda>vs. Inr (v # vs)))"

text \<open>
  A call of a service, with the hash of the transaction that was handed to the network: the key pair, the arguments, the
  call, and what is read from its result.
\<close>

definition invoke ::
  "contracts_env \<Rightarrow> string \<Rightarrow> string \<Rightarrow> contract_error + sc_val list \<Rightarrow> (invoke_result \<Rightarrow> contract_error + 'a)
     \<Rightarrow> (contract_error + 'a) \<times> string option" where
  "invoke e cid fn args parse =
     (if ce_source e = None then (Inl NoSource, None)
      else (case args of
        Inl err \<Rightarrow> (Inl err, None)
      | Inr vs \<Rightarrow>
          (case ce_call e \<lparr>cc_contract = cid, cc_function = fn, cc_args = vs\<rparr> of
             (Inl err, h) \<Rightarrow> (Inl (CallRefused err), h)
           | (Inr r, h) \<Rightarrow> (parse r, h))))"

definition read_call :: "contracts_env \<Rightarrow> string \<Rightarrow> string \<Rightarrow> contract_error + sc_val list \<Rightarrow> contract_error + js_prim" where
  "read_call e cid fn args =
     bindR args (\<lambda>vs.
       if ce_source e = None then Inl NoSource
       else (case ce_read e \<lparr>cc_contract = cid, cc_function = fn, cc_args = vs\<rparr> of
         None \<Rightarrow> Inl ReadRefused | Some v \<Rightarrow> Inr (fromScVal v)))"

definition hash_only :: "invoke_result \<Rightarrow> contract_error + string" where
  "hash_only r = Inr (ir_hash r)"

definition hash_and_text :: "contracts_env \<Rightarrow> invoke_result \<Rightarrow> contract_error + (string \<times> string)" where
  "hash_and_text e r =
     (case to_string (ce_text e) (fromScVal (ir_value r)) of Some s \<Rightarrow> Inr (ir_hash r, s) | None \<Rightarrow> Inl NoText)"

definition text_read :: "contracts_env \<Rightarrow> contract_error + js_prim \<Rightarrow> contract_error + string" where
  "text_read e r = bindR r (\<lambda>v. case to_string (ce_text e) v of Some s \<Rightarrow> Inr s | None \<Rightarrow> Inl NoText)"

definition number_read :: "contracts_env \<Rightarrow> contract_error + js_prim \<Rightarrow> contract_error + jsnum" where
  "number_read e r = bindR r (\<lambda>v. Inr (number_of (ce_text e) v))"

definition isPaused :: "contracts_env \<Rightarrow> string \<Rightarrow> contract_error + js_prim" where
  "isPaused e cid = read_call e cid ''is_paused'' (Inr [])"

definition getFeeRate :: "contracts_env \<Rightarrow> string \<Rightarrow> contract_error + jsnum" where
  "getFeeRate e cid = number_read e (read_call e cid ''get_fee_rate'' (Inr []))"

section \<open>Minting\<close>

text \<open>A failed call marks the row it was made for; \<open>refused\<close> is whether the database refuses that update.\<close>

definition markTransactionFailed :: "bool \<Rightarrow> nat option \<Rightarrow> txdb \<Rightarrow> txdb" where
  "markTransactionFailed refused txId db =
     (case txId of Some i \<Rightarrow> if refused then db else update_tx i (\<lambda>r. r\<lparr>tx_status := Failed\<rparr>) db | None \<Rightarrow> db)"

definition compensated ::
  "bool \<Rightarrow> nat option \<Rightarrow> (contract_error + 'a) \<times> string option \<Rightarrow> txdb \<Rightarrow> ((contract_error + 'a) \<times> string option) \<times> txdb" where
  "compensated refused txId r db = (r, case fst r of Inl _ \<Rightarrow> markTransactionFailed refused txId db | Inr _ \<Rightarrow> db)"

definition mintFromUsdc_call :: "contracts_env \<Rightarrow> string \<Rightarrow> bool \<Rightarrow> nat option \<Rightarrow> string \<Rightarrow> string \<Rightarrow> string \<Rightarrow> txdb
    \<Rightarrow> ((contract_error + (string \<times> string)) \<times> string option) \<times> txdb" where
  "mintFromUsdc_call e cid refused txId user usdcAmount recipient =
     compensated refused txId (invoke e cid ''mint_from_usdc''
       (call_args [sc_arg e (InStr user), big_arg e usdcAmount, sc_arg e (InStr recipient)]) (hash_and_text e))"

definition mintFromBasket_call :: "contracts_env \<Rightarrow> string \<Rightarrow> bool \<Rightarrow> nat option \<Rightarrow> string \<Rightarrow> string \<Rightarrow> string \<Rightarrow> txdb
    \<Rightarrow> ((contract_error + (string \<times> string)) \<times> string option) \<times> txdb" where
  "mintFromBasket_call e cid refused txId user recipient acbuAmount =
     compensated refused txId (invoke e cid ''mint_from_basket''
       (call_args [sc_arg e (InStr user), sc_arg e (InStr recipient), big_arg e acbuAmount]) (hash_and_text e))"

definition mintFromSingle_call :: "contracts_env \<Rightarrow> string \<Rightarrow> bool \<Rightarrow> nat option \<Rightarrow> string \<Rightarrow> string \<Rightarrow> string \<Rightarrow> string \<Rightarrow> txdb
    \<Rightarrow> ((contract_error + (string \<times> string)) \<times> string option) \<times> txdb" where
  "mintFromSingle_call e cid refused txId user recipient currency sTokenAmount =
     compensated refused txId (invoke e cid ''mint_from_single''
       (call_args [sc_arg e (InStr user), sc_arg e (InStr recipient), sc_arg e (InStr currency), big_arg e sTokenAmount])
       (hash_and_text e))"

definition mintFromDemoFiat_call :: "contracts_env \<Rightarrow> string \<Rightarrow> bool \<Rightarrow> nat option \<Rightarrow> string \<Rightarrow> string \<Rightarrow> string \<Rightarrow> string \<Rightarrow> txdb
    \<Rightarrow> ((contract_error + (string \<times> string)) \<times> string option) \<times> txdb" where
  "mintFromDemoFiat_call e cid refused txId operator recipient currency fiatAmount =
     compensated refused txId (invoke e cid ''mint_from_demo_fiat''
       (call_args [sc_arg e (InStr operator), sc_arg e (InStr recipient), currencyCodeToScVal currency, big_arg e fiatAmount])
       (hash_and_text e))"

definition adminDripDemoFiat_call :: "contracts_env \<Rightarrow> string \<Rightarrow> bool \<Rightarrow> nat option \<Rightarrow> string \<Rightarrow> string \<Rightarrow> string \<Rightarrow> txdb
    \<Rightarrow> ((contract_error + string) \<times> string option) \<times> txdb" where
  "adminDripDemoFiat_call e cid refused txId recipient currency amount =
     compensated refused txId (invoke e cid ''admin_drip_demo_fiat''
       (call_args [sc_arg e (InStr recipient), currencyCodeToScVal currency, big_arg e amount]) hash_only)"

definition getTotalSupply :: "contracts_env \<Rightarrow> string \<Rightarrow> contract_error + string" where
  "getTotalSupply e cid = text_read e (read_call e cid ''get_total_supply'' (Inr []))"

definition pause_call :: "contracts_env \<Rightarrow> string \<Rightarrow> bool \<Rightarrow> (contract_error + string) \<times> string option" where
  "pause_call e cid paused = invoke e cid (if paused then ''pause'' else ''unpause'') (Inr []) hash_only"

section \<open>Burning\<close>

text \<open>The key is taken first: without one nothing is called.\<close>

definition redeemSingle_call :: "contracts_env \<Rightarrow> string \<Rightarrow> string \<Rightarrow> string \<Rightarrow> string \<Rightarrow> string \<Rightarrow> string option
    \<Rightarrow> (contract_error + (string \<times> string)) \<times> string option" where
  "redeemSingle_call e cid user recipient acbuAmount currency key =
     (if \<not> truthy key then (Inl KeyMissing, None)
      else invoke e cid ''redeem_single''
        (call_args [sc_arg e (InStr user), sc_arg e (InStr recipient), big_arg e acbuAmount, sc_arg e (InStr currency),
           sc_arg e (InStr (the key))]) (hash_and_text e))"

definition redeemBasket_call :: "contracts_env \<Rightarrow> string \<Rightarrow> string \<Rightarrow> string \<Rightarrow> string \<Rightarrow> string option
    \<Rightarrow> (contract_error + (string \<times> string list)) \<times> string option" where
  "redeemBasket_call e cid user recipient acbuAmount key =
     (if \<not> truthy key then (Inl KeyMissing, None)
      else invoke e cid ''redeem_basket''
        (call_args [sc_arg e (InStr user), sc_arg e (InStr recipient), big_arg e acbuAmount, sc_arg e (InStr (the key))])
        (\<lambda>r. case fromScVal (ir_value r) of PArr vs \<Rightarrow> Inr (ir_hash r, map (string_of (ce_text e)) vs) | _ \<Rightarrow> Inl NotAnArray))"

section \<open>Oracle and reserve tracker\<close>

definition currency_arg :: "contracts_env \<Rightarrow> string \<Rightarrow> contract_error + sc_val" where
  "currency_arg e currency = sc_arg e (InArr [InArr [InStr currency]])"

definition updateRate_call :: "contracts_env \<Rightarrow> string \<Rightarrow> string \<Rightarrow> string \<Rightarrow> (contract_error + string) \<times> string option" where
  "updateRate_call e cid currency rate =
     invoke e cid ''set_rate_admin'' (call_args [currency_arg e currency, big_arg e rate]) hash_only"

definition getRate :: "contracts_env \<Rightarrow> string \<Rightarrow> string \<Rightarrow> contract_error + string" where
  "getRate e cid currency = text_read e (read_call e cid ''get_rate'' (call_args [currency_arg e currency]))"

definition getAcbuUsdRate :: "contracts_env \<Rightarrow> string \<Rightarrow> contract_error + string" where
  "getAcbuUsdRate e cid = text_read e (read_call e cid ''get_acbu_usd_rate'' (Inr []))"

text \<open>\<open>validators.map(v => v.toString())\<close>: anything but an array, or a null in it, throws.\<close>

definition getValidators :: "contracts_env \<Rightarrow> string \<Rightarrow> contract_error + string list" where
  "getValidators e cid =
     bindR (read_call e cid ''get_validators'' (Inr [])) (\<lambda>v.
       case v of
         PArr vs \<Rightarrow> (case those (map (to_string (ce_text e)) vs) of Some ss \<Rightarrow> Inr ss | None \<Rightarrow> Inl NoText)
       | _ \<Rightarrow> Inl NotAnArray)"

definition getMinSignatures :: "contracts_env \<Rightarrow> string \<Rightarrow> contract_error + jsnum" where
  "getMinSignatures e cid = number_read e (read_call e cid ''get_min_signatures'' (Inr []))"

definition addValidator_call :: "contracts_env \<Rightarrow> string \<Rightarrow> string \<Rightarrow> (contract_error + string) \<times> string option" where
  "addValidator_call e cid a = invoke e cid ''add_validator'' (call_args [sc_arg e (InStr a)]) hash_only"

definition updateReserve_call :: "contracts_env \<Rightarrow> string \<Rightarrow> string \<Rightarrow> string \<Rightarrow> string \<Rightarrow> string \<Rightarrow> (contract_error + string) \<times> string option" where
  "updateReserve_call e cid updater currency amount valueUsd =
     invoke e cid ''update_reserve''
       (bindR (currencyCodeToScVal currency) (\<lambda>c.
          call_args [sc_arg e (InStr updater), Inr c, big_arg e amount, big_arg e valueUsd])) hash_only"

record reserve_data =
  rd_amount :: string
  rd_value :: string
  rd_time :: jsnum

text \<open>
  The entries of the decoded answer: an array has its elements, an undecoded value what the SDK's object holds, all others
  none; only an entry with a currency counts, and no decoded element has one.
\<close>

definition answer_entries :: "contracts_env \<Rightarrow> js_prim \<Rightarrow> reserve_entry list" where
  "answer_entries e v =
     (case v of
        PScVal x \<Rightarrow> ce_entries e x
      | PArr vs \<Rightarrow> map (\<lambda>_. \<lparr>re_currency = None, re_amount = None, re_value = None, re_time = Fin 0\<rparr>) vs
      | _ \<Rightarrow> [])"

definition reserve_of :: "reserve_entry \<Rightarrow> (string \<times> reserve_data) option" where
  "reserve_of v =
     (if truthy (re_currency v) then
        Some (the (re_currency v),
          \<lparr>rd_amount = (case re_amount v of Some a \<Rightarrow> a | None \<Rightarrow> ''0''),
           rd_value = (case re_value v of Some a \<Rightarrow> a | None \<Rightarrow> ''0''), rd_time = re_time v\<rparr>)
      else None)"

definition getAllReserves :: "contracts_env \<Rightarrow> string \<Rightarrow> contract_error + (string \<rightharpoonup> reserve_data)" where
  "getAllReserves e cid =
     bindR (read_call e cid ''get_all_reserves'' (Inr [])) (\<lambda>v.
       Inr (foldl (\<lambda>m (c, d). m(c \<mapsto> d)) Map.empty (List.map_filter reserve_of (answer_entries e v))))"

definition verifyReserves :: "contracts_env \<Rightarrow> string \<Rightarrow> string \<Rightarrow> contract_error + js_prim" where
  "verifyReserves e cid supply = read_call e cid ''verify_reserves'' (call_args [big_arg e supply])"

definition getTotalReserveValue :: "contracts_env \<Rightarrow> string \<Rightarrow> contract_error + string" where
  "getTotalReserveValue e cid = text_read e (read_call e cid ''get_total_reserve_value'' (Inr []))"

section \<open>Lending pool, savings vault and escrow\<close>

definition lend_deposit_call :: "contracts_env \<Rightarrow> string \<Rightarrow> string \<Rightarrow> string \<Rightarrow> (contract_error + (string \<times> string)) \<times> string option" where
  "lend_deposit_call e cid lender amount =
     invoke e cid ''deposit'' (call_args [sc_arg e (InStr lender), num_arg e amount]) (hash_and_text e)"

definition lend_withdraw_call :: "contracts_env \<Rightarrow> string \<Rightarrow> string \<Rightarrow> string \<Rightarrow> (contract_error + string) \<times> string option" where
  "lend_withdraw_call e cid lender amount =
     invoke e cid ''withdraw'' (call_args [sc_arg e (InStr lender), num_arg e amount]) hash_only"

definition lend_balance :: "contracts_env \<Rightarrow> string \<Rightarrow> string \<Rightarrow> contract_error + string" where
  "lend_balance e cid lender = text_read e (read_call e cid ''get_balance'' (call_args [sc_arg e (InStr lender)]))"

definition borrow_call :: "contracts_env \<Rightarrow> string \<Rightarrow> string \<Rightarrow> string \<Rightarrow> string \<Rightarrow> jsnum \<Rightarrow> (contract_error + string) \<times> string option" where
  "borrow_call e cid borrower amount collateral loanId =
     invoke e cid ''borrow''
       (call_args [sc_arg e (InStr borrower), big_arg e amount, big_arg e collateral, sc_arg e (InNum loanId)]) hash_only"

definition repay_call :: "contracts_env \<Rightarrow> string \<Rightarrow> string \<Rightarrow> string \<Rightarrow> jsnum \<Rightarrow> (contract_error + string) \<times> string option" where
  "repay_call e cid borrower amount loanId =
     invoke e cid ''repay'' (call_args [sc_arg e (InStr borrower), big_arg e amount, sc_arg e (InNum loanId)]) hash_only"

definition vault_deposit_call :: "contracts_env \<Rightarrow> string \<Rightarrow> string \<Rightarrow> string \<Rightarrow> jsnum \<Rightarrow> (contract_error + (string \<times> string)) \<times> string option" where
  "vault_deposit_call e cid user amount term =
     invoke e cid ''deposit'' (call_args [sc_arg e (InStr user), num_arg e amount, sc_arg e (InNum term)]) (hash_and_text e)"

definition vault_withdraw_call :: "contracts_env \<Rightarrow> string \<Rightarrow> string \<Rightarrow> jsnum \<Rightarrow> string \<Rightarrow> (contract_error + string) \<times> string option" where
  "vault_withdraw_call e cid user term amount =
     invoke e cid ''withdraw'' (call_args [sc_arg e (InStr user), sc_arg e (InNum term), num_arg e amount]) hash_only"

definition vault_balance :: "contracts_env \<Rightarrow> string \<Rightarrow> string \<Rightarrow> jsnum \<Rightarrow> contract_error + string" where
  "vault_balance e cid user term =
     text_read e (read_call e cid ''get_balance'' (call_args [sc_arg e (InStr user), sc_arg e (InNum term)]))"

definition escrow_create_call :: "contracts_env \<Rightarrow> string \<Rightarrow> string \<Rightarrow> string \<Rightarrow> string \<Rightarrow> jsnum \<Rightarrow> (contract_error + string) \<times> string option" where
  "escrow_create_call e cid payer payee amount escrowId =
     invoke e cid ''create''
       (call_args [sc_arg e (InStr payer), sc_arg e (InStr payee), num_arg e amount, sc_arg e (InNum escrowId)]) hash_only"

definition escrow_close_call :: "contracts_env \<Rightarrow> string \<Rightarrow> bool \<Rightarrow> jsnum \<Rightarrow> string \<Rightarrow> (contract_error + string) \<times> string option" where
  "escrow_close_call e cid release escrowId payer =
     invoke e cid (if release then ''release'' else ''refund'') (call_args [sc_arg e (InNum escrowId), sc_arg e (InStr payer)]) hash_only"

section \<open>Controllers\<close>

datatype body_val = BStr string | BNum jsnum

datatype route_error =
    FieldsRequired | NotConfigured | UnknownAction | NotAuthenticated | InvalidRequest | LockedDate int | ServiceFailed contract_error

definition body_true :: "body_val option \<Rightarrow> bool" where
  "body_true v =
     (case v of None \<Rightarrow> False | Some (BStr s) \<Rightarrow> s \<noteq> [] | Some (BNum n) \<Rightarrow> (case n of Fin q \<Rightarrow> q \<noteq> 0 | NaN \<Rightarrow> False | _ \<Rightarrow> True))"

definition body_string :: "body_val option \<Rightarrow> string" where
  "body_string v = (case v of None \<Rightarrow> ''undefined'' | Some (BStr s) \<Rightarrow> s | Some (BNum n) \<Rightarrow> num_string n)"

definition body_number :: "body_val option \<Rightarrow> jsnum" where
  "body_number v = (case v of None \<Rightarrow> NaN | Some (BStr s) \<Rightarrow> js_number s | Some (BNum n) \<Rightarrow> n)"

definition answer :: "(contract_error + 'a) \<times> string option \<Rightarrow> (route_error + 'a) \<times> string option" where
  "answer r = (map_err ServiceFailed (fst r), snd r)"

definition refuse :: "route_error \<Rightarrow> (route_error + 'a) \<times> string option" where
  "refuse err = (Inl err, None)"

text \<open>The address is looked up where the request arrives; \<open>cid\<close> is the one the service was built with.\<close>

definition postLendingDeposit :: "contracts_env \<Rightarrow> string \<Rightarrow> string \<Rightarrow> string option \<Rightarrow> body_val option \<Rightarrow> (route_error + (string \<times> string)) \<times> string option" where
  "postLendingDeposit e configured cid lender amount =
     (if \<not> truthy lender \<or> \<not> body_true amount then refuse FieldsRequired
      else if configured = [] then refuse NotConfigured
      else answer (lend_deposit_call e cid (the lender) (body_string amount)))"

definition postLendingWithdraw :: "contracts_env \<Rightarrow> string \<Rightarrow> string option \<Rightarrow> body_val option \<Rightarrow> (route_error + string) \<times> string option" where
  "postLendingWithdraw e cid lender amount =
     (if \<not> truthy lender \<or> \<not> body_true amount then refuse FieldsRequired
      else answer (lend_withdraw_call e cid (the lender) (body_string amount)))"

definition getLendingBalance :: "contracts_env \<Rightarrow> string \<Rightarrow> string \<Rightarrow> string option \<Rightarrow> route_error + string" where
  "getLendingBalance e configured cid lender =
     (if \<not> truthy lender then Inl FieldsRequired
      else if configured = [] then Inl NotConfigured
      else map_err ServiceFailed (lend_balance e cid (the lender)))"

definition postGatewayCharge :: "contracts_env \<Rightarrow> string \<Rightarrow> string \<Rightarrow> string option \<Rightarrow> string option \<Rightarrow> body_val option \<Rightarrow> body_val option
    \<Rightarrow> (route_error + string) \<times> string option" where
  "postGatewayCharge e configured cid payer payee amount escrowId =
     (if \<not> truthy payer \<or> \<not> truthy payee \<or> \<not> body_true amount \<or> escrowId = None then refuse FieldsRequired
      else if configured = [] then refuse NotConfigured
      else answer (escrow_create_call e cid (the payer) (the payee) (body_string amount) (body_number escrowId)))"

definition postGatewayConfirm :: "contracts_env \<Rightarrow> string \<Rightarrow> string \<Rightarrow> body_val option \<Rightarrow> string \<Rightarrow> string option
    \<Rightarrow> (route_error + string) \<times> string option" where
  "postGatewayConfirm e configured cid escrowId action payer =
     (if escrowId = None then refuse FieldsRequired
      else if configured = [] then refuse NotConfigured
      else if action \<in> {''release'', ''refund''} then
        (if \<not> truthy payer then refuse FieldsRequired
         else answer (escrow_close_call e cid (action = ''release'') (body_number escrowId) (the payer)))
      else refuse UnknownAction)"

section \<open>Savings\<close>

record savings_env =
  sg_zone :: zone_env
  sg_locked :: "int list"
  sg_apy :: "int \<rightharpoonup> rat"
  sg_now :: int

text \<open>\<open>/^[0-9]+(?:\<backslash>.[0-9]+)?$/\<close>, and a term that the table of yields has.\<close>

definition amount_shape :: "string \<Rightarrow> bool" where
  "amount_shape s \<longleftrightarrow> decimal_shape (length s) s"

definition term_ok :: "(int \<rightharpoonup> rat) \<Rightarrow> jsnum \<Rightarrow> bool" where
  "term_ok apy n = (case n of Fin q \<Rightarrow> of_int \<lfloor>q\<rfloor> = q \<and> 0 < q \<and> apy \<lfloor>q\<rfloor> \<noteq> None | _ \<Rightarrow> False)"

definition postSavingsDeposit :: "savings_env \<Rightarrow> contracts_env \<Rightarrow> string \<Rightarrow> string \<Rightarrow> string option \<Rightarrow> string option \<Rightarrow> jsnum
    \<Rightarrow> (route_error + (string \<times> string)) \<times> string option" where
  "postSavingsDeposit g e configured cid userId amount term =
     (if \<not> truthy userId then refuse NotAuthenticated
      else case amount of
        None \<Rightarrow> refuse InvalidRequest
      | Some a \<Rightarrow>
          if \<not> amount_shape a \<or> \<not> term_ok (sg_apy g) term then refuse InvalidRequest
          else if configured = [] then refuse NotConfigured
          else answer (vault_deposit_call e cid (the userId) a term))"

definition postSavingsWithdraw :: "savings_env \<Rightarrow> contracts_env \<Rightarrow> string \<Rightarrow> string \<Rightarrow> string option \<Rightarrow> string option \<Rightarrow> jsnum
    \<Rightarrow> (route_error + string) \<times> string option" where
  "postSavingsWithdraw g e configured cid userId amount term =
     (if isSavingsLockDate (sg_zone g) (sg_locked g) (sg_now g) None
      then refuse (LockedDate (getNextSavingsWithdrawalDate (sg_zone g) (sg_locked g) (sg_now g) None))
      else if \<not> truthy userId then refuse NotAuthenticated
      else case amount of
        None \<Rightarrow> refuse InvalidRequest
      | Some a \<Rightarrow>
          if \<not> amount_shape a \<or> \<not> term_ok (sg_apy g) term then refuse InvalidRequest
          else if configured = [] then refuse NotConfigured
          else answer (vault_withdraw_call e cid (the userId) term a))"

record savings_position =
  sv_term :: "jsnum option"
  sv_balance :: string
  sv_apy :: rat
  sv_next :: "int option"

definition getSavingsPositions :: "savings_env \<Rightarrow> contracts_env \<Rightarrow> string \<Rightarrow> string \<Rightarrow> string option \<Rightarrow> jsnum option
    \<Rightarrow> route_error + savings_position" where
  "getSavingsPositions g e configured cid userId term =
     (if \<not> truthy userId then Inl NotAuthenticated
      else if (case term of Some n \<Rightarrow> \<not> term_ok (sg_apy g) n | None \<Rightarrow> False) then Inl InvalidRequest
      else if configured = [] then Inl NotConfigured
      else (let n = (case term of Some n \<Rightarrow> n | None \<Rightarrow> Fin 0) in
        bindR (map_err ServiceFailed (vault_balance e cid (the userId) n)) (\<lambda>b.
          Inr \<lparr>sv_term = term, sv_balance = b,
               sv_apy = getApyForTerm (sg_apy g) (case n of Fin q \<Rightarrow> \<lfloor>q\<rfloor> | _ \<Rightarrow> 0),
               sv_next = (if isSavingsLockDate (sg_zone g) (sg_locked g) (sg_now g) None
                          then Some (getNextSavingsWithdrawalDate (sg_zone g) (sg_locked g) (sg_now g) None) else None)\<rparr>)))"

section \<open>The status of the reserves\<close>

definition DRIFT_THRESHOLD_BPS_WARN_ONLY :: rat where
  "DRIFT_THRESHOLD_BPS_WARN_ONLY = 100"

record currency_status =
  cs_currency :: string
  cs_amount :: string
  cs_value :: string
  cs_rate :: string
  cs_target :: jsnum
  cs_actual :: rat
  cs_drift :: jsnum
  cs_warning :: bool

record reserve_status =
  rs_supply :: int
  rs_total :: int
  rs_acbu_rate :: string
  rs_ratio :: "rat option"
  rs_health :: string
  rs_compliant :: bool
  rs_currencies :: "currency_status list"

definition js_minus :: "rat \<Rightarrow> jsnum \<Rightarrow> jsnum" where
  "js_minus a n = (case n of Fin q \<Rightarrow> Fin (f64 (a - q)) | PosInf \<Rightarrow> NegInf | NegInf \<Rightarrow> PosInf | NaN \<Rightarrow> NaN)"

definition js_abs_above :: "rat \<Rightarrow> jsnum \<Rightarrow> bool" where
  "js_abs_above most n = (case n of Fin q \<Rightarrow> most < \<bar>q\<bar> | NaN \<Rightarrow> False | _ \<Rightarrow> True)"

definition or_zero :: "string \<Rightarrow> string" where
  "or_zero s = (if s = [] then ''0'' else s)"

definition big_read :: "string \<Rightarrow> contract_error + int" where
  "big_read s = (case big_of_string (or_zero s) of Some b \<Rightarrow> Inr b | None \<Rightarrow> Inl BadInteger)"

definition status_of_currency :: "contracts_env \<Rightarrow> string \<Rightarrow> (string \<rightharpoonup> reserve_data) \<Rightarrow> int \<Rightarrow> string \<Rightarrow> contract_error + currency_status" where
  "status_of_currency e oracle reserves whole_value currency =
     (let r = (case reserves currency of Some d \<Rightarrow> d | None \<Rightarrow> \<lparr>rd_amount = ''0'', rd_value = ''0'', rd_time = Fin 0\<rparr>);
          rate = (case getRate e oracle currency of Inr s \<Rightarrow> s | Inl _ \<Rightarrow> ''0'') in
      bindR (big_read (rd_value r)) (\<lambda>v.
        let actual = (if 0 < whole_value then f64 (of_int (big_div (v * 10000) whole_value)) else 0) in
        bindR (number_read e (read_call e oracle ''get_basket_weight'' (call_args [currency_arg e currency]))) (\<lambda>target.
          let drift = js_minus actual target in
          Inr \<lparr>cs_currency = currency, cs_amount = rd_amount r, cs_value = rd_value r, cs_rate = rate, cs_target = target,
               cs_actual = actual, cs_drift = drift, cs_warning = js_abs_above DRIFT_THRESHOLD_BPS_WARN_ONLY drift\<rparr>)))"

fun collect_status :: "(contract_error + 'a) list \<Rightarrow> contract_error + 'a list" where
  "collect_status [] = Inr []"
| "collect_status (a # as) = bindR a (\<lambda>v. bindR (collect_status as) (\<lambda>vs. Inr (v # vs)))"

definition reserve_health :: "rat \<Rightarrow> rat \<Rightarrow> rat option \<Rightarrow> string" where
  "reserve_health minRatio targetRatio ratio =
     (case ratio of
        Some q \<Rightarrow> if targetRatio \<le> q then ''healthy'' else if minRatio \<le> q then ''warning'' else ''critical''
      | None \<Rightarrow> ''unknown'')"

definition getReserveStatus :: "contracts_env \<Rightarrow> string \<Rightarrow> string \<Rightarrow> string \<Rightarrow> rat \<Rightarrow> rat \<Rightarrow> route_error + reserve_status" where
  "getReserveStatus e tracker oracle minting minRatio targetRatio =
     (if tracker = [] \<or> oracle = [] \<or> minting = [] then Inl NotConfigured
      else map_err ServiceFailed
        (bindR (getTotalReserveValue e tracker) (\<lambda>valueStr.
         bindR (getAcbuUsdRate e oracle) (\<lambda>acbu.
         bindR (getAllReserves e tracker) (\<lambda>reserves.
         bindR (text_read e (read_call e minting ''get_total_supply'' (Inr []))) (\<lambda>supplyStr.
         bindR (big_read valueStr) (\<lambda>v.
         bindR (big_read supplyStr) (\<lambda>supply.
           let ratio = (if 0 < supply then Some (f64 (f64 (of_int v) / f64 (of_int supply))) else None) in
           bindR (collect_status (map (status_of_currency e oracle reserves v) BASKET_CURRENCIES)) (\<lambda>rows.
             Inr \<lparr>rs_supply = supply, rs_total = v, rs_acbu_rate = acbu, rs_ratio = ratio,
                  rs_health = reserve_health minRatio targetRatio ratio,
                  rs_compliant = (filter cs_warning rows = []), rs_currencies = rows\<rparr>)))))))))"

section \<open>A failed mint may have been applied\<close>

text \<open>The answers are those of the client, whatever each call meets.\<close>

definition answered_by :: "contracts_env \<Rightarrow> (ccall \<Rightarrow> soroban_env) \<Rightarrow> bool" where
  "answered_by e s \<longleftrightarrow> (\<forall>c. invokeContract (s c) = Some (ce_call e c))"

definition after_sending :: "contract_error \<Rightarrow> bool" where
  "after_sending err \<longleftrightarrow> err \<in> CallRefused ` {StatusFailed, InvokeFailed, InvokeTimedOut, ResultUnreadable} \<or> err \<in> {NoText, NotAnArray}"

lemma call_args_errors:
  "call_args as = Inl err \<Longrightarrow> list_all (\<lambda>a. \<forall>x. a = Inl x \<longrightarrow> \<not> after_sending x) as \<Longrightarrow> \<not> after_sending err"
  by (induction as) (auto simp: bindR_Inl_iff)

lemma arg_errors:
  "sc_arg e v = Inl x \<Longrightarrow> \<not> after_sending x" "big_arg e s = Inl x \<Longrightarrow> \<not> after_sending x"
  "num_arg e s = Inl x \<Longrightarrow> \<not> after_sending x" "currencyCodeToScVal c = Inl x \<Longrightarrow> \<not> after_sending x"
  by (auto simp: sc_arg_def big_arg_def num_arg_def currencyCodeToScVal_def Let_def after_sending_def split: option.splits if_splits)

lemma invoke_handed:
  assumes "answered_by e s" and "invoke e cid fn args parse = (Inl err, h)"
    and "\<And>x. args = Inl x \<Longrightarrow> \<not> after_sending x" and "\<And>r x. parse r = Inl x \<Longrightarrow> x \<in> {NoText, NotAnArray}"
  shows "h \<noteq> None \<longleftrightarrow> after_sending err"
proof (cases "ce_source e")
  case None
  then show ?thesis using assms(2) by (auto simp: invoke_def after_sending_def)
next
  case (Some src)
  show ?thesis
  proof (cases args)
    case (Inl x)
    then show ?thesis using assms(2,3) Some by (auto simp: invoke_def)
  next
    case (Inr vs)
    define c where "c = \<lparr>cc_contract = cid, cc_function = fn, cc_args = vs\<rparr>"
    obtain r h' where call: "ce_call e c = (r, h')" by (cases "ce_call e c")
    then have "invokeContract (s c) = Some (r, h')" using assms(1) by (metis answered_by_def)
    from call_handed [OF this] show ?thesis
      using assms(2,4) Some Inr call
      by (cases r) (auto simp: invoke_def c_def [symmetric] after_sending_def)
  qed
qed

lemma text_errors: "hash_and_text e r = Inl x \<Longrightarrow> x \<in> {NoText, NotAnArray}"
  by (auto simp: hash_and_text_def split: option.splits)

text \<open>
  A mint that failed may still have happened: the compensation marks its row as failed on every error, and these
  include exactly the ones after the transaction was handed to the network - a wait that ended, a lost status, a result that
  could not be read - after which the contract may have minted.
\<close>

theorem compensated_mint_may_have_run:
  assumes "answered_by e s" and "mintFromBasket_call e cid False (Some i) user recipient amount db = ((Inl err, h), db')"
  shows "db' = update_tx i (\<lambda>r. r\<lparr>tx_status := Failed\<rparr>) db \<and> (h \<noteq> None \<longleftrightarrow> after_sending err)"
proof -
  let ?args = "call_args [sc_arg e (InStr user), sc_arg e (InStr recipient), big_arg e amount]"
  have run: "invoke e cid ''mint_from_basket'' ?args (hash_and_text e) = (Inl err, h)"
    and db: "db' = update_tx i (\<lambda>r. r\<lparr>tx_status := Failed\<rparr>) db"
    using assms(2) by (auto simp: mintFromBasket_call_def compensated_def markTransactionFailed_def)
  have "\<not> after_sending x" if "?args = Inl x" for x
    using that by (rule call_args_errors) (auto dest: arg_errors)
  then show ?thesis using db invoke_handed [OF assms(1) run] text_errors by blast
qed

section \<open>Amounts\<close>

lemma digits_number:
  assumes "ds \<noteq> []" and "list_all is_digit ds"
  shows "js_number ds = Fin (f64 (of_int (digits_val 0 ds)))" and "big_of_string ds = Some (digits_val 0 ds)"
proof -
  obtain c cs where ds: "ds = c # cs" using assms(1) by (cases ds) auto
  have c: "is_digit c" using assms(2) by (simp add: ds)
  have no_space: "is_digit d \<Longrightarrow> \<not> js_space d" for d by (auto simp: is_digit_def js_space_def)
  have trim: "trim ds = ds" "trim_start ds = ds"
    using no_space assms by (auto simp: ds list_all_iff trim_start_def intro!: trim_id)
  have lower: "lower_char d = d" if "is_digit d" for d
  proof -
    have "int (of_char d) = of_char d" by (rule of_nat_of_char)
    then have "(of_char d :: nat) \<le> 57" using that unfolding is_digit_def by linarith
    then show ?thesis by (simp add: lower_char_def Let_def)
  qed
  have "to_lower (take 2 ds) \<notin> {''0x'', ''0o'', ''0b''}"
  proof (cases cs)
    case (Cons d ts)
    then have "is_digit d" using assms(2) by (simp add: ds)
    moreover have "\<not> is_digit (CHR ''x'')" "\<not> is_digit (CHR ''o'')" "\<not> is_digit (CHR ''b'')" by (simp_all add: is_digit_def)
    ultimately show ?thesis using c by (auto simp: ds Cons to_lower_def lower)
  qed (simp add: ds to_lower_def)
  note pre = this
  have sign: "c \<noteq> CHR ''-''" "c \<noteq> CHR ''+''" "c \<noteq> CHR ''I''" using c by (auto simp: is_digit_def)
  have all: "takeWhile is_digit ds = ds" "dropWhile is_digit ds = []" using assms(2) by (simp_all add: list_all_iff)
  show "big_of_string ds = Some (digits_val 0 ds)"
    using pre assms sign by (simp add: big_of_string_def trim Let_def) (simp add: ds)
  have "number_shape ds" using all sign assms(1) by (simp add: number_shape_def Let_def ds exponent_shape_def)
  moreover have "parse_float ds = Fin (f64 (of_int (digits_val 0 ds)))"
  proof -
    have "(case ds of c # _ \<Rightarrow> c = CHR ''-'' | [] \<Rightarrow> False) = False"
      "(case ds of c # r \<Rightarrow> if c = CHR ''-'' \<or> c = CHR ''+'' then r else ds | [] \<Rightarrow> []) = ds"
      "take 8 ds \<noteq> ''Infinity''" using sign by (simp_all add: ds)
    then show ?thesis using assms(1) by (simp add: parse_float_def trim Let_def all exponent_part_def)
  qed
  ultimately show "js_number ds = Fin (f64 (of_int (digits_val 0 ds)))"
    using pre assms(1) by (simp add: js_number_def trim Let_def)
qed

text \<open>
  Amounts of the vault, the pool and the escrow keep their value below two to the fifty-third: there the detour over a
  double gives the same contract value as the big integer that loans use, and the value reads back as the amount.
\<close>

theorem contract_amount_exact:
  assumes "0 \<le> n" and "n < 2 ^ 53"
  shows "num_arg e (int_str n) = big_arg e (int_str n)"
    and "\<exists>s. num_arg e (int_str n) = Inr s \<and> fromScVal s = PBig n"
proof -
  note ds = int_str_digits [OF assms(1)] digits_val_int_str [OF assms(1)]
  have "f64 (of_int n) = of_int n" using assms f64.rnd_int [of n] by simp
  then have num: "js_number (int_str n) = Fin (of_int n)" using digits_number(1) [of "int_str n"] ds by simp
  have big: "big_of_string (int_str n) = Some n" using digits_number(2) [of "int_str n"] ds by simp
  show eq: "num_arg e (int_str n) = big_arg e (int_str n)" by (simp add: num_arg_def big_arg_def num big sc_arg_def)
  have "fits_i128 n" using assms by (simp add: fits_i128_def)
  from i128_roundtrip [OF this] show "\<exists>s. num_arg e (int_str n) = Inr s \<and> fromScVal s = PBig n"
    by (auto simp: num_arg_def num sc_arg_def)
qed

lemma f64_above: "f64 9007199254740993 = 9007199254740992" "f64 9007199254740992 = 9007199254740992"
proof -
  have "expo 2 9007199254740993 = 53" "expo 2 9007199254740992 = 53" by (rule expo_unique; simp add: power_int_def)+
  then have "ulp 2 53 9007199254740993 = 2" "ulp 2 53 9007199254740992 = 2" by (simp_all add: ulp_def)
  moreover have "\<lfloor>9007199254740993 / 2 :: rat\<rfloor> = 4503599627370496" by (rule floor_unique) simp_all
  ultimately show "f64 9007199254740993 = 9007199254740992" "f64 9007199254740992 = 9007199254740992"
    by (simp_all add: f64_def sig_round_def round_int_def Let_def)
qed

text \<open>One unit above that bound a deposit differs from what the caller asked for.\<close>

lemma deposit_loses_a_unit: "num_arg e ''9007199254740993'' = num_arg e ''9007199254740992''"
proof -
  have d: "js_number ''9007199254740993'' = Fin (f64 9007199254740993)" "js_number ''9007199254740992'' = Fin (f64 9007199254740992)"
    by (subst digits_number; simp add: is_digit_def digit_val_def)+
  then show ?thesis by (simp add: num_arg_def f64_above)
qed

lemma fraction_refused: "of_int \<lfloor>q\<rfloor> \<noteq> q \<Longrightarrow> js_number s = Fin q \<Longrightarrow> num_arg e s = Inl BadValue"
  by (simp add: num_arg_def sc_arg_def)

section \<open>Savings and the status\<close>

text \<open>
  The savings vault is never given an address: the user of a key is named by an identifier, which is not of the shape of
  an address, so every deposit, withdrawal and reading passes it to the contract as a plain text.
\<close>

theorem savings_user_is_plain_text:
  assumes "length uid \<noteq> 56" and "call_args [sc_arg e (InStr uid), num_arg e amount, sc_arg e (InNum term)] = Inr vs"
  shows "hd vs = ScString uid \<and>
    vault_deposit_call e cid uid amount term = invoke e cid ''deposit'' (Inr vs) (hash_and_text e)"
proof -
  have "sc_arg e (InStr uid) = Inr (ScString uid)" using assms(1) by (simp add: sc_arg_def address_shape_def)
  then show ?thesis using assms(2) by (auto simp: vault_deposit_call_def bindR_Inr_iff)
qed

lemma collect_status_all: "collect_status as = Inr vs \<Longrightarrow> list_all2 (\<lambda>a v. a = Inr v) as vs"
  by (induction as arbitrary: vs) (auto simp: bindR_Inr_iff)

lemma no_reserves:
  assumes "\<And>x. list_all (\<lambda>v. re_currency v = None) (ce_entries e x)" and "getAllReserves e cid = Inr m"
  shows "m = Map.empty"
proof -
  have "list_all (\<lambda>v. re_currency v = None) (answer_entries e v)" for v
    using assms(1) by (auto simp: answer_entries_def list_all_iff split: js_prim.split)
  then have "List.map_filter reserve_of (answer_entries e v) = []" for v
    by (induction "answer_entries e v") (auto simp: map_filter_simps reserve_of_def truthy_def map_filter_def list_all_iff filter_empty_conv)
  then show ?thesis using assms(2) by (auto simp: getAllReserves_def bindR_Inr_iff)
qed

lemma zero_read: "big_read ''0'' = Inr 0"
proof -
  have "big_of_string ''0'' = Some 0" by code_simp
  then show ?thesis by (simp add: big_read_def or_zero_def)
qed

lemma empty_status:
  assumes "status_of_currency e oracle Map.empty v c = Inr r"
  shows "cs_amount r = ''0'' \<and> cs_actual r = 0 \<and> cs_drift r = js_minus 0 (cs_target r) \<and>
    (cs_warning r \<longleftrightarrow> js_abs_above DRIFT_THRESHOLD_BPS_WARN_ONLY (cs_drift r))"
  using assms by (auto simp: status_of_currency_def Let_def bindR_Inr_iff zero_read big_div_def f64_def)

text \<open>
  The status of the reserves sees none of them: the map that the contract returns is not decoded and its entries carry
  no currency, so every currency is reported with no amount and no weight, and as drifted by its whole target weight -
  a warning wherever that is above one percent, however well the reserves match.
\<close>

theorem reserve_status_sees_no_reserves:
  assumes "\<And>x. list_all (\<lambda>v. re_currency v = None) (ce_entries e x)"
    and "getReserveStatus e tracker oracle minting minRatio targetRatio = Inr st"
  shows "length (rs_currencies st) = 10 \<and> list_all (\<lambda>r. cs_amount r = ''0'' \<and> cs_actual r = 0 \<and>
    cs_drift r = js_minus 0 (cs_target r) \<and> (cs_warning r \<longleftrightarrow> js_abs_above 100 (cs_drift r))) (rs_currencies st)"
proof -
  obtain m v where m: "getAllReserves e tracker = Inr m"
    and rows: "collect_status (map (status_of_currency e oracle m v) BASKET_CURRENCIES) = Inr (rs_currencies st)"
    using assms(2) by (auto simp: getReserveStatus_def bindR_Inr_iff Let_def split: if_splits)
  have "m = Map.empty" by (rule no_reserves [OF assms(1) m])
  from collect_status_all [OF rows] have all: "list_all2 (\<lambda>c r. status_of_currency e oracle m v c = Inr r) BASKET_CURRENCIES (rs_currencies st)"
    by (simp add: list_all2_map1)
  then have "length (rs_currencies st) = 10" by (auto dest: list_all2_lengthD simp: BASKET_CURRENCIES_def)
  moreover have "\<exists>c. status_of_currency e oracle Map.empty v c = Inr r" if "r \<in> set (rs_currencies st)" for r
    using all that \<open>m = Map.empty\<close> by (auto simp: list_all2_conv_all_nth in_set_conv_nth)
  ultimately show ?thesis using empty_status unfolding DRIFT_THRESHOLD_BPS_WARN_ONLY_def list_all_iff by blast
qed

section \<open>Concrete inputs\<close>

definition sample_contracts :: contracts_env where
  "sample_contracts = \<lparr>ce_source = Some ''G'', ce_valid = (\<lambda>a. True), ce_text = (\<lambda>bs. []),
     ce_call = (\<lambda>c. (Inl InvokeTimedOut, Some ''h'')), ce_read = (\<lambda>c. Some (ScU32 5000)), ce_entries = (\<lambda>x. [])\<rparr>"

lemma sample_text_arg: "length s \<noteq> 56 \<Longrightarrow> sc_arg sample_contracts (InStr s) = Inr (ScString s)"
  by (simp add: sc_arg_def address_shape_def)

lemma sample_amount: "\<exists>v. big_arg sample_contracts (int_str 1000000) = Inr v \<and> num_arg sample_contracts (int_str 1000000) = Inr v"
proof -
  note ds = int_str_digits [of 1000000] digits_val_int_str [of 1000000]
  have "f64 1000000 = 1000000" by (rule f64.rnd_numeral_le) simp
  then have "js_number (int_str 1000000) = Fin 1000000" "big_of_string (int_str 1000000) = Some 1000000"
    using digits_number [of "int_str 1000000"] ds by simp_all
  moreover have "fits_i128 1000000" by (simp add: fits_i128_def)
  note i128_roundtrip [OF this]
  ultimately show ?thesis by (auto simp: big_arg_def num_arg_def sc_arg_def)
qed

theorem contract_amount_exact_witness:
  "num_arg sample_contracts (int_str 1000000) = big_arg sample_contracts (int_str 1000000)"
  by (rule contract_amount_exact(1)) simp_all

theorem compensated_mint_may_have_run_witness:
  "\<exists>err db'. mintFromBasket_call sample_contracts ''C'' False (Some 1) ''u'' ''r'' (int_str 1000000) \<lparr>tx_rows = [], tx_next = 2\<rparr>
     = ((Inl err, Some ''h''), db') \<and> after_sending err"
proof -
  obtain v where v: "big_arg sample_contracts (int_str 1000000) = Inr v" using sample_amount by auto
  have ans: "answered_by sample_contracts (\<lambda>c. slow_soroban)" by (simp add: answered_by_def sample_contracts_def slow_times_out)
  have run: "mintFromBasket_call sample_contracts ''C'' False (Some 1) ''u'' ''r'' (int_str 1000000) \<lparr>tx_rows = [], tx_next = 2\<rparr>
     = ((Inl (CallRefused InvokeTimedOut), Some ''h''),
        update_tx 1 (\<lambda>r. r\<lparr>tx_status := Failed\<rparr>) \<lparr>tx_rows = [], tx_next = 2\<rparr>)"
    by (simp add: mintFromBasket_call_def compensated_def invoke_def sample_text_arg v)
      (simp add: sample_contracts_def markTransactionFailed_def)
  show ?thesis using compensated_mint_may_have_run [OF ans run] run by blast
qed

theorem savings_user_is_plain_text_witness:
  "\<exists>vs. call_args [sc_arg sample_contracts (InStr ''user-1''), num_arg sample_contracts (int_str 1000000),
      sc_arg sample_contracts (InNum (Fin 7776000))] = Inr vs \<and> hd vs = ScString ''user-1''"
proof -
  obtain v where v: "num_arg sample_contracts (int_str 1000000) = Inr v" using sample_amount by auto
  have "fits_i128 7776000" by (simp add: fits_i128_def)
  from i128_roundtrip [OF this] obtain w where w: "sc_arg sample_contracts (InNum (Fin 7776000)) = Inr w"
    by (auto simp: sc_arg_def)
  have "call_args [sc_arg sample_contracts (InStr ''user-1''), num_arg sample_contracts (int_str 1000000),
      sc_arg sample_contracts (InNum (Fin 7776000))] = Inr [ScString ''user-1'', v, w]"
    by (simp add: sample_text_arg v w)
  then show ?thesis using savings_user_is_plain_text [of "''user-1''" sample_contracts "int_str 1000000" "Fin 7776000"] by simp
qed

lemma sample_reads:
  "read_call sample_contracts cid fn (Inr vs) = Inr (PNum 5000)"
  by (simp add: read_call_def sample_contracts_def)

lemma sample_status: "\<exists>st. getReserveStatus sample_contracts ''T'' ''O'' ''M'' 1 (11 / 10) = Inr st"
proof -
  note ds = int_str_digits [of 5000] digits_val_int_str [of 5000]
  have texts: "text_read sample_contracts (Inr (PNum 5000)) = Inr (int_str 5000)"
    by (simp add: text_read_def to_string_def signed_str_def)
  have read: "big_read (int_str 5000) = Inr 5000"
    using digits_number(2) [of "int_str 5000"] ds by (simp add: big_read_def or_zero_def)
  have reserves: "getAllReserves sample_contracts ''T'' = Inr Map.empty"
    by (simp add: getAllReserves_def sample_reads answer_entries_def map_filter_simps)
  have arg: "currency_arg sample_contracts c = Inr (ScVec [ScVec [ScString c]])" if "length c = 3" for c
    using that by (simp add: currency_arg_def sc_arg_def address_shape_def)
  have "\<exists>r. status_of_currency sample_contracts ''O'' Map.empty 5000 c = Inr r" if "length c = 3" for c
    using that by (simp add: status_of_currency_def Let_def zero_read arg sample_reads number_read_def)
  then have "\<exists>rs. collect_status (map (status_of_currency sample_contracts ''O'' Map.empty 5000) cs) = Inr rs"
    if "list_all (\<lambda>c. length c = 3) cs" for cs
    using that
  proof (induction cs)
    case (Cons c cs)
    then obtain r rs where "status_of_currency sample_contracts ''O'' Map.empty 5000 c = Inr r"
      "collect_status (map (status_of_currency sample_contracts ''O'' Map.empty 5000) cs) = Inr rs" by fastforce
    then show ?case by simp
  qed simp
  moreover have "list_all (\<lambda>c. length c = 3) BASKET_CURRENCIES" by (simp add: BASKET_CURRENCIES_def)
  ultimately obtain rs where "collect_status (map (status_of_currency sample_contracts ''O'' Map.empty 5000) BASKET_CURRENCIES) = Inr rs"
    by blast
  then show ?thesis
    by (simp add: getReserveStatus_def getTotalReserveValue_def getAcbuUsdRate_def sample_reads texts reserves read Let_def)
qed

theorem reserve_status_sees_no_reserves_witness:
  "\<exists>st. getReserveStatus sample_contracts ''T'' ''O'' ''M'' 1 (11 / 10) = Inr st \<and> length (rs_currencies st) = 10"
proof -
  have "\<And>x. list_all (\<lambda>v. re_currency v = None) (ce_entries sample_contracts x)" by (simp add: sample_contracts_def)
  then show ?thesis using sample_status reserve_status_sees_no_reserves [of sample_contracts] by blast
qed

end
