(* ===== verification/Fiat.thy ===== *)
theory Fiat
  imports Contracts Rates
begin

text \<open>
  The demo ramps of the test network: \<open>src/services/fiat/fiatService.ts\<close> and the activation of accounts,
  \<open>src/services/stellar/activationService.ts\<close>. Horizon, the contracts and failures of the database are parameters.
\<close>

section \<open>Activation\<close>

datatype horizon_answer = AccountFound | AccountMissing | HorizonFails

record activation_env =
  av_account :: "string \<Rightarrow> horizon_answer"
  av_disabled :: bool
  av_keypair :: bool
  av_source_loads :: bool
  av_submit :: "string \<Rightarrow> string option"     \<comment> \<open>the hash of the transaction that creates the account\<close>

datatype activation_error = HorizonError | ActivationDisabled | NoActivationKey | SourceNotLoaded | ActivationNotSubmitted

definition ensureAccountActivated :: "activation_env \<Rightarrow> string \<Rightarrow> activation_error + string option" where
  "ensureAccountActivated v destination =
     (case av_account v destination of
        AccountFound \<Rightarrow> Inr None
      | HorizonFails \<Rightarrow> Inl HorizonError
      | AccountMissing \<Rightarrow>
          if av_disabled v then Inl ActivationDisabled
          else if \<not> av_keypair v then Inl NoActivationKey
          else if \<not> av_source_loads v then Inl SourceNotLoaded
          else (case av_submit v destination of Some h \<Rightarrow> Inr (Some h) | None \<Rightarrow> Inl ActivationNotSubmitted))"

section \<open>Amounts\<close>

definition DECIMALS_7 :: rat where "DECIMALS_7 = 10000000"
definition DECIMALS_7_BIGINT :: int where "DECIMALS_7_BIGINT = 10000000"
definition MIN_MINT_USD_7 :: int where "MIN_MINT_USD_7 = 10000000"
definition MAX_MINT_USD_7 :: int where "MAX_MINT_USD_7 = 1000000000000"

definition seven_decimals :: "rat \<Rightarrow> string" where
  "seven_decimals q = js_num_str (of_int (js_round (f64 (q * DECIMALS_7))))"

definition wholeFiatToI128 :: "jsnum \<Rightarrow> string option" where
  "wholeFiatToI128 amount = (case amount of Fin q \<Rightarrow> if q \<le> 0 then None else Some (seven_decimals q) | _ \<Rightarrow> None)"

definition divCeil :: "int \<Rightarrow> int \<Rightarrow> int" where
  "divCeil a b = big_div (a + b - 1) b"

text \<open>The limits that the refusal reports, in seven decimals of the currency.\<close>

record mint_range =
  mr_min :: int
  mr_max :: int

definition mint_range_of :: "int \<Rightarrow> mint_range" where
  "mint_range_of rate =
     \<lparr>mr_min = divCeil (MIN_MINT_USD_7 * DECIMALS_7_BIGINT) rate, mr_max = big_div (MAX_MINT_USD_7 * DECIMALS_7_BIGINT) rate\<rparr>"

definition usd_gross :: "int \<Rightarrow> int \<Rightarrow> int" where
  "usd_gross fiat rate = big_div (fiat * rate) DECIMALS_7_BIGINT"

text \<open>Everything but the refusal itself is swallowed: without a readable rate there is no check.\<close>

definition validateDemoMintAmount :: "contracts_env \<Rightarrow> string \<Rightarrow> string \<Rightarrow> string \<Rightarrow> mint_range + unit" where
  "validateDemoMintAmount c oracle currency fiatI128 =
     (case getRate c oracle currency of
        Inl _ \<Rightarrow> Inr ()
      | Inr s \<Rightarrow>
          (case (big_of_string s, big_of_string fiatI128) of
             (Some rate, Some fiat) \<Rightarrow>
               if rate \<le> 0 then Inr ()
               else if MIN_MINT_USD_7 \<le> usd_gross fiat rate \<and> usd_gross fiat rate \<le> MAX_MINT_USD_7 then Inr ()
               else Inl (mint_range_of rate)
           | _ \<Rightarrow> Inr ()))"

section \<open>Accounts\<close>

record fiat_account =
  fa_id :: string
  fa_currency :: string
  fa_balance :: string
  fa_usd :: "string option"
  fa_number :: string

definition account_suffix :: "user option \<Rightarrow> string" where
  "account_suffix u =
     (case u of
        None \<Rightarrow> ''user''
      | Some r \<Rightarrow>
          if truthy (username r) then the (username r)
          else if truthy (phone_e164 r) then the (phone_e164 r)
          else if take 8 (u_id r) \<noteq> [] then take 8 (u_id r) else ''user'')"

text \<open>\<open>drips\<close> are the completed faucet rows the query returns, \<open>rates\<close> the latest stored rates.\<close>

definition drip_balance :: "(string option \<times> rat option) list \<Rightarrow> string \<Rightarrow> rat" where
  "drip_balance drips c =
     foldl (\<lambda>b (cur, a). if cur = Some c \<and> a \<noteq> None then f64 (b + f64 (the a)) else b) 0 drips"

definition getBankAccounts :: "user option \<Rightarrow> string \<Rightarrow> (string option \<times> rat option) list \<Rightarrow> (string \<rightharpoonup> rat) \<Rightarrow> fiat_account list" where
  "getBankAccounts u userId drips rates =
     map (\<lambda>c. let balance = drip_balance (take 1000 drips) c; rate = (case rates c of Some r \<Rightarrow> f64 r | None \<Rightarrow> 0) in
       \<lparr>fa_id = c @ ''-'' @ userId, fa_currency = c, fa_balance = js_num_str balance,
        fa_usd = (if 0 < rate then Some (js_num_str (f64 (balance / rate))) else None),
        fa_number = account_suffix u @ ''-'' @ c\<rparr>) BASKET_CURRENCIES"

section \<open>Faucet\<close>

record fiat_env =
  fe_contracts :: contracts_env
  fe_minting :: string            \<comment> \<open>the configured addresses\<close>
  fe_oracle :: string
  fe_burning :: string
  fe_activation :: activation_env
  fe_users :: "user list option"  \<comment> \<open>None where the database cannot be reached\<close>
  fe_message :: "contract_error \<Rightarrow> string"
  fe_now :: int
  fe_update_fails :: bool         \<comment> \<open>the completing update\<close>
  fe_fail_fails :: bool           \<comment> \<open>the update that marks the row as failed\<close>
  fe_create_fails :: bool

datatype fiat_error =
    InvalidCurrency | InvalidAmount | MintingNotConfigured | WalletNotSet | Activation activation_error
  | TrustlineMissing | NonExistentFunction | ContractFailed contract_error | NoSourceKey | MintRange mint_range
  | UsersUnreachable | RowNotCreated | RowNotCompleted | RowNotFailed | RatesMissing | RateNotFound | BurningNotConfigured

definition contract_failure :: "fiat_env \<Rightarrow> contract_error \<Rightarrow> fiat_error" where
  "contract_failure e err =
     (if str_includes (fe_message e err) ''trustline entry is missing'' then TrustlineMissing
      else if str_includes (fe_message e err) ''non-existent contract function'' then NonExistentFunction
      else ContractFailed err)"

definition stored_wallet :: "fiat_env \<Rightarrow> string \<Rightarrow> string option" where
  "stored_wallet e userId = Option.bind (fe_users e) (\<lambda>us. Option.bind (find_user userId us) stellar_address)"

definition faucet_row :: "string \<Rightarrow> string \<Rightarrow> rat \<Rightarrow> string \<Rightarrow> int \<Rightarrow> txn" where
  "faucet_row userId currency amount h now =
     (new_txn TMint Completed now)\<lparr>tx_user := Some userId, local_currency := Some currency, local_amount := Some (dec_of_num amount),
        tx_hash := Some h, completed_at := Some now\<rparr>"

text \<open>The history is best effort: a row that the database refuses is dropped.\<close>

definition record_drip :: "fiat_env \<Rightarrow> txn \<Rightarrow> txdb \<Rightarrow> txdb" where
  "record_drip e r db =
     (if fe_create_fails e \<or> (\<exists>q \<in> set (tx_rows db). tx_type q = tx_type r \<and> tx_hash q = tx_hash r) then db
      else (case create_tx r db of Some (db', _) \<Rightarrow> db' | None \<Rightarrow> db))"

definition requestFaucet :: "fiat_env \<Rightarrow> string \<Rightarrow> string \<Rightarrow> jsnum \<Rightarrow> string option \<Rightarrow> txdb \<Rightarrow> (fiat_error + string) \<times> txdb" where
  "requestFaucet e userId currency amount recipient db =
     (if currency \<notin> set BASKET_CURRENCIES then (Inl InvalidCurrency, db)
      else case amount of
        NegInf \<Rightarrow> (Inl InvalidAmount, db)
      | PosInf \<Rightarrow> (Inl InvalidAmount, db)
      | _ \<Rightarrow>
          (if (case amount of Fin q \<Rightarrow> q \<le> 0 \<or> 10000000 < q | _ \<Rightarrow> False) then (Inl InvalidAmount, db)
           else if fe_minting e = [] then (Inl MintingNotConfigured, db)
           else (let address = (if truthy recipient then recipient else stored_wallet e userId) in
             if \<not> truthy address then (Inl WalletNotSet, db)
             else (case ensureAccountActivated (fe_activation e) (the address) of
               Inl err \<Rightarrow> (Inl (Activation err), db)
             | Inr _ \<Rightarrow>
                 (case wholeFiatToI128 amount of
                    None \<Rightarrow> (Inl InvalidAmount, db)
                  | Some i128 \<Rightarrow>
                      (case fst (fst (adminDripDemoFiat_call (fe_contracts e) (fe_minting e) False None (the address) currency i128 db)) of
                         Inl err \<Rightarrow> (Inl (contract_failure e err), db)
                       | Inr h \<Rightarrow>
                           (Inr h, record_drip e (faucet_row userId currency (case amount of Fin q \<Rightarrow> q | _ \<Rightarrow> 0) h (fe_now e)) db)))))))"

section \<open>On-ramp\<close>

definition on_ramp_row :: "string \<Rightarrow> int \<Rightarrow> txn" where
  "on_ramp_row userId now = (new_txn TMint Pending now)\<lparr>tx_user := Some userId\<rparr>"

definition fail_row :: "fiat_env \<Rightarrow> nat \<Rightarrow> fiat_error \<Rightarrow> txdb \<Rightarrow> (fiat_error + 'a) \<times> txdb" where
  "fail_row e i err db =
     (if fe_fail_fails e then (Inl RowNotFailed, db) else (Inl err, update_tx i (\<lambda>r. r\<lparr>tx_status := Failed\<rparr>) db))"

text \<open>The mint, the number read from its amount, the completing update: the database refuses an amount that is not finite.\<close>

definition settle_on_ramp :: "fiat_env \<Rightarrow> nat \<Rightarrow> string \<Rightarrow> string \<Rightarrow> string \<Rightarrow> string \<Rightarrow> txdb
    \<Rightarrow> ((fiat_error + jsnum \<times> string) \<times> txdb) \<times> string option" where
  "settle_on_ramp e i operator wallet currency i128 db =
     (case mintFromDemoFiat_call (fe_contracts e) (fe_minting e) False None operator wallet currency i128 db of
        ((Inl err, h), db1) \<Rightarrow> (fail_row e i (contract_failure e err) db1, h)
      | ((Inr (x, amountStr), h), db1) \<Rightarrow>
          (let acbu = (case js_number amountStr of Fin q \<Rightarrow> Fin (f64 (q / DECIMALS_7)) | n \<Rightarrow> n) in
           case (if fe_update_fails e \<or> \<not> is_finite acbu then None else complete_tx i x (fe_now e) db1) of
             Some db2 \<Rightarrow> ((Inr (acbu, x), update_tx i (\<lambda>r. r\<lparr>acbu_amount := map_option dec_of_num (fin_val acbu)\<rparr>) db2), h)
           | None \<Rightarrow> (fail_row e i RowNotCompleted db1, h)))"

definition simulateOnRamp :: "fiat_env \<Rightarrow> string \<Rightarrow> string \<Rightarrow> jsnum \<Rightarrow> txdb \<Rightarrow> ((fiat_error + jsnum \<times> string) \<times> txdb) \<times> string option" where
  "simulateOnRamp e userId currency fiatAmount db =
     (if fe_minting e = [] then ((Inl MintingNotConfigured, db), None)
      else if fe_users e = None then ((Inl UsersUnreachable, db), None)
      else if \<not> truthy (stored_wallet e userId) then ((Inl WalletNotSet, db), None)
      else if currency \<notin> set BASKET_CURRENCIES then ((Inl InvalidCurrency, db), None)
      else (case ce_source (fe_contracts e) of
        None \<Rightarrow> ((Inl NoSourceKey, db), None)
      | Some operator \<Rightarrow>
          (case wholeFiatToI128 fiatAmount of
             None \<Rightarrow> ((Inl InvalidAmount, db), None)
           | Some i128 \<Rightarrow>
               (case validateDemoMintAmount (fe_contracts e) (fe_oracle e) currency i128 of
                  Inl r \<Rightarrow> ((Inl (MintRange r), db), None)
                | Inr _ \<Rightarrow>
                    (case (if fe_create_fails e then None else create_tx (on_ramp_row userId (fe_now e)) db) of
                       None \<Rightarrow> ((Inl RowNotCreated, db), None)
                     | Some (db1, r) \<Rightarrow>
                         settle_on_ramp e (tx_id r) operator (the (stored_wallet e userId)) currency i128 db1)))))"

section \<open>Off-ramp\<close>

definition capitalised :: "string \<Rightarrow> string" where
  "capitalised s = (case s of [] \<Rightarrow> [] | c # cs \<Rightarrow> upper_char c # to_lower cs)"

record off_ramp =
  of_fiat :: rat
  of_acbu :: rat
  of_hash :: string

text \<open>\<open>redeemSingle\<close> is called without an idempotency key.\<close>

definition simulateOffRamp :: "fiat_env \<Rightarrow> rates_error + acbu_rate \<Rightarrow> string \<Rightarrow> string \<Rightarrow> rat \<Rightarrow> string option
    \<Rightarrow> (fiat_error + off_ramp) \<times> string option" where
  "simulateOffRamp e rate userId currency acbuAmount txHash =
     (if fe_users e = None then (Inl UsersUnreachable, None)
      else if \<not> truthy (stored_wallet e userId) then (Inl WalletNotSet, None)
      else (case rate of
        Inl _ \<Rightarrow> (Inl RatesMissing, None)
      | Inr row \<Rightarrow>
          (case rate_column row (''acbu'' @ capitalised currency) of
             None \<Rightarrow> (Inl RateNotFound, None)
           | Some perLocal \<Rightarrow>
               (let fiat = f64 (acbuAmount * f64 perLocal) in
                if fe_burning e = [] then (Inl BurningNotConfigured, None)
                else if truthy txHash then (Inr \<lparr>of_fiat = fiat, of_acbu = acbuAmount, of_hash = the txHash\<rparr>, None)
                else (case ce_source (fe_contracts e) of
                  None \<Rightarrow> (Inl NoSourceKey, None)
                | Some source \<Rightarrow>
                    (case redeemSingle_call (fe_contracts e) (fe_burning e) source source (seven_decimals acbuAmount) currency None of
                       (Inl err, h) \<Rightarrow> (Inl (ContractFailed err), h)
                     | (Inr (x, _), h) \<Rightarrow> (Inr \<lparr>of_fiat = fiat, of_acbu = acbuAmount, of_hash = x\<rparr>, h)))))))"

section \<open>The limits of a mint\<close>

lemma le_div_int: "0 < k \<Longrightarrow> a \<le> n div k \<longleftrightarrow> a * k \<le> n" for a n k :: int
proof
  assume k: "0 < k"
  show "a * k \<le> n" if "a \<le> n div k"
  proof -
    have "a * k \<le> n div k * k" using that k by simp
    also have "\<dots> \<le> n" using k pos_mod_sign [of k n] div_mult_mod_eq [of n k] by linarith
    finally show ?thesis .
  qed
  show "a \<le> n div k" if "a * k \<le> n" using zdiv_mono1 [OF that k] k by simp
qed

lemma gross_limits:
  assumes "0 < rate" and "0 \<le> fiat"
  shows "MIN_MINT_USD_7 \<le> usd_gross fiat rate \<longleftrightarrow> mr_min (mint_range_of rate) \<le> fiat"
    and "fiat \<le> mr_max (mint_range_of rate) \<Longrightarrow> usd_gross fiat rate \<le> MAX_MINT_USD_7"
proof -
  have prod: "0 \<le> fiat * rate" using assms by simp
  then have gross: "usd_gross fiat rate = fiat * rate div 10000000" by (simp add: usd_gross_def big_div_def DECIMALS_7_BIGINT_def)
  have low: "mr_min (mint_range_of rate) = (100000000000000 + rate - 1) div rate"
    using assms(1) by (simp add: mint_range_of_def divCeil_def big_div_def MIN_MINT_USD_7_def DECIMALS_7_BIGINT_def)
  have high: "mr_max (mint_range_of rate) = 10000000000000000000 div rate"
    using assms(1) by (simp add: mint_range_of_def big_div_def MAX_MINT_USD_7_def DECIMALS_7_BIGINT_def)
  have "mr_min (mint_range_of rate) \<le> fiat \<longleftrightarrow> \<not> fiat + 1 \<le> mr_min (mint_range_of rate)" by linarith
  also have "\<dots> \<longleftrightarrow> \<not> (fiat + 1) * rate \<le> 100000000000000 + rate - 1" unfolding low le_div_int [OF assms(1)] ..
  also have "\<dots> \<longleftrightarrow> 100000000000000 \<le> fiat * rate" unfolding distrib_right by linarith
  also have "\<dots> \<longleftrightarrow> 10000000 \<le> usd_gross fiat rate" unfolding gross by (subst le_div_int) simp_all
  finally show "MIN_MINT_USD_7 \<le> usd_gross fiat rate \<longleftrightarrow> mr_min (mint_range_of rate) \<le> fiat" by (simp add: MIN_MINT_USD_7_def)
  show "usd_gross fiat rate \<le> MAX_MINT_USD_7" if "fiat \<le> mr_max (mint_range_of rate)"
  proof -
    have "fiat * rate \<le> 10000000000000000000" using that unfolding high le_div_int [OF assms(1)] .
    from zdiv_mono1 [OF this, of 10000000] show ?thesis by (simp add: gross MAX_MINT_USD_7_def)
  qed
qed

text \<open>
  The limits that a refused on-ramp reports are usable: at a positive rate every amount from the reported minimum to the
  reported maximum passes the check, and every smaller amount is refused with exactly these limits.
\<close>

theorem reported_mint_range_accepted:
  assumes "getRate c oracle currency = Inr s" and "big_of_string s = Some rate" and "0 < rate"
    and "big_of_string amount = Some fiat" and "0 \<le> fiat"
  shows "(mr_min (mint_range_of rate) \<le> fiat \<and> fiat \<le> mr_max (mint_range_of rate) \<longrightarrow>
      validateDemoMintAmount c oracle currency amount = Inr ())
    \<and> (fiat < mr_min (mint_range_of rate) \<longrightarrow> validateDemoMintAmount c oracle currency amount = Inl (mint_range_of rate))"
  using assms gross_limits [OF assms(3,5)] by (auto simp: validateDemoMintAmount_def)

section \<open>The off-ramp\<close>

text \<open>
  The off-ramp never burns: without a transaction hash from the caller every request fails, the burn being asked for
  without its idempotency key, and with one it succeeds on any text, without a call, a check of the hash or a record of it;
  in no case is a transaction handed to the network.
\<close>

theorem off_ramp_never_burns:
  assumes "simulateOffRamp e rate userId currency acbu txHash = (r, h)"
  shows "h = None \<and> (\<forall>s. r = Inr s \<longrightarrow> truthy txHash \<and> of_hash s = the txHash \<and> of_acbu s = acbu)"
  using assms
  by (auto simp: simulateOffRamp_def redeemSingle_call_def truthy_def Let_def split: if_splits sum.splits option.splits)

text \<open>A mint that succeeded is recorded as failed where the completing update fails.\<close>

lemma minted_recorded_as_failed:
  assumes "mintFromDemoFiat_call (fe_contracts e) (fe_minting e) False None operator wallet currency i128 db = ((Inr (x, a), h), db1)"
    and "fe_update_fails e" and "\<not> fe_fail_fails e"
  shows "settle_on_ramp e i operator wallet currency i128 db
    = ((Inl RowNotCompleted, update_tx i (\<lambda>r. r\<lparr>tx_status := Failed\<rparr>) db1), h)"
  using assms by (simp add: settle_on_ramp_def fail_row_def Let_def)

section \<open>Concrete inputs\<close>

lemma sample_rate: "getRate sample_contracts ''O'' ''NGN'' = Inr (int_str 5000)"
  by (simp add: getRate_def currency_arg_def sc_arg_def address_shape_def sample_reads text_read_def to_string_def signed_str_def)

theorem reported_mint_range_accepted_witness:
  "validateDemoMintAmount sample_contracts ''O'' ''NGN'' (int_str 20000000000) = Inr () \<and>
   validateDemoMintAmount sample_contracts ''O'' ''NGN'' (int_str 19999999999) = Inl (mint_range_of 5000)"
proof -
  have n: "big_of_string (int_str n) = Some n" if "0 \<le> n" for n
    using digits_number(2) [of "int_str n"] int_str_digits [OF that] digits_val_int_str [OF that] by simp
  have "mr_min (mint_range_of 5000) = 20000000000" "mr_max (mint_range_of 5000) = 2000000000000000" by code_simp+
  then show ?thesis
    using reported_mint_range_accepted [OF sample_rate, of 5000 "int_str 20000000000" 20000000000]
      reported_mint_range_accepted [OF sample_rate, of 5000 "int_str 19999999999" 19999999999]
    by (simp add: n)
qed

definition demo_user :: user where
  "demo_user = \<lparr>u_id = ''u'', username = None, phone_e164 = None, email = None, hide_from_search = False,
     stellar_address = Some ''G'', wallet_version = 0, kyc_status = ''none'', encrypted_secret = None, key_hint = None\<rparr>"

definition sample_fiat :: fiat_env where
  "sample_fiat = \<lparr>fe_contracts = sample_contracts, fe_minting = ''M'', fe_oracle = ''O'', fe_burning = ''B'',
     fe_activation = \<lparr>av_account = (\<lambda>a. AccountFound), av_disabled = False, av_keypair = True, av_source_loads = True, av_submit = (\<lambda>a. None)\<rparr>,
     fe_users = Some [demo_user], fe_message = (\<lambda>err. []), fe_now = 0, fe_update_fails = False, fe_fail_fails = False, fe_create_fails = False\<rparr>"

theorem off_ramp_never_burns_witness:
  "\<exists>s. simulateOffRamp sample_fiat (Inr \<lparr>acbuUsd = 1, ar_field = (\<lambda>c. Some 1500)\<rparr>) ''u'' ''NGN'' 5 (Some ''made up'') = (Inr s, None)
     \<and> of_hash s = ''made up''"
proof -
  have "stored_wallet sample_fiat ''u'' = Some ''G''"
    by (simp add: stored_wallet_def sample_fiat_def find_user_def demo_user_def)
  moreover have "fe_users sample_fiat \<noteq> None" "fe_burning sample_fiat \<noteq> []" by (simp_all add: sample_fiat_def)
  moreover have "capitalised ''NGN'' = ''Ngn''" by code_simp
  ultimately have "\<exists>s. simulateOffRamp sample_fiat (Inr \<lparr>acbuUsd = 1, ar_field = (\<lambda>c. Some 1500)\<rparr>) ''u'' ''NGN'' 5 (Some ''made up'') = (Inr s, None)"
    by (simp add: simulateOffRamp_def truthy_def rate_column_def Let_def)
  then show ?thesis using off_ramp_never_burns by fastforce
qed

end
