(* ===== verification/Ids.thy ===== *)
theory Ids
  imports "HOL-Library.Word"
begin

unbundle bit_operations_syntax

text \<open>
  Identifiers: \<open>src/utils/idGenerator.ts\<close>. The state of the module is the last millisecond and the counter; the readings
  of the clock and the random bytes are inputs. An identifier is its sixteen bytes, and its text the hexadecimal form.
\<close>

section \<open>Bytes\<close>

definition be16 :: "16 word \<Rightarrow> 8 word list" where
  "be16 w = [ucast (drop_bit 8 w), ucast w]"

definition be32 :: "32 word \<Rightarrow> 8 word list" where
  "be32 w = [ucast (drop_bit 24 w), ucast (drop_bit 16 w), ucast (drop_bit 8 w), ucast w]"

definition hex_digit :: "int \<Rightarrow> char" where
  "hex_digit n = (if n < 10 then char_of (48 + n) else char_of (87 + n))"

definition hex_of :: "8 word list \<Rightarrow> string" where
  "hex_of bs = concat (map (\<lambda>b. [hex_digit (uint b div 16), hex_digit (uint b mod 16)]) bs)"

definition formatUuid :: "8 word list \<Rightarrow> string" where
  "formatUuid buf =
     (let h = hex_of buf in
      take 8 h @ ''-'' @ take 4 (drop 8 h) @ ''-'' @ take 4 (drop 12 h) @ ''-'' @ take 4 (drop 16 h) @ ''-'' @ drop 20 h)"

section \<open>The generator\<close>

record id_gen =
  ig_last :: int
  ig_seq :: int

definition SEQ_MAX :: int where "SEQ_MAX = 0xfff"

definition fresh_gen :: id_gen where "fresh_gen = \<lparr>ig_last = 0, ig_seq = 0\<rparr>"

text \<open>What one call reads: the clock (the first reading, those of the wait, the one after it), two seeds, ten bytes.\<close>

record id_input =
  ii_clock :: "nat \<Rightarrow> int"
  ii_seed :: "16 word"
  ii_seed2 :: "16 word"
  ii_random :: "8 word list"

definition seed_counter :: "16 word \<Rightarrow> int" where
  "seed_counter s = uint s AND SEQ_MAX"

text \<open>The wait for the clock: the number of the first reading beyond \<open>last\<close>.\<close>

partial_function (option) await_clock :: "(nat \<Rightarrow> int) \<Rightarrow> int \<Rightarrow> nat \<Rightarrow> nat option" where
  "await_clock clock t n = (if clock n \<le> t then await_clock clock t (Suc n) else Some n)"

definition id_bytes :: "int \<Rightarrow> int \<Rightarrow> 8 word list \<Rightarrow> 8 word list" where
  "id_bytes nowMs seq randB =
     be32 (word_of_int (drop_bit 16 nowMs AND mask 32)) @ be16 (word_of_int (nowMs AND mask 16)) @
     be16 (0x7000 OR word_of_int (seq AND 0xfff)) @ [(randB ! 0 AND 0x3f) OR 0x80] @ take 7 (drop 1 randB)"

definition next_gen :: "id_input \<Rightarrow> id_gen \<Rightarrow> id_gen option" where
  "next_gen i g =
     (if ig_last g < ii_clock i 0 then Some \<lparr>ig_last = ii_clock i 0, ig_seq = seed_counter (ii_seed i)\<rparr>
      else if ig_seq g + 1 \<le> SEQ_MAX then Some (g\<lparr>ig_seq := ig_seq g + 1\<rparr>)
      else map_option (\<lambda>n. \<lparr>ig_last = ii_clock i (Suc n), ig_seq = seed_counter (ii_seed2 i)\<rparr>)
             (await_clock (ii_clock i) (ig_last g) 1))"

definition generateId :: "id_input \<Rightarrow> id_gen \<Rightarrow> (8 word list \<times> id_gen) option" where
  "generateId i g = map_option (\<lambda>g'. (id_bytes (ii_clock i 0) (ig_seq g') (ii_random i), g')) (next_gen i g)"

definition generateCorrelationId :: "8 word list \<Rightarrow> string" where
  "generateCorrelationId buf =
     formatUuid (buf[6 := (buf ! 6 AND 0x0f) OR 0x40, 8 := (buf ! 8 AND 0x3f) OR 0x80])"

section \<open>The order of identifiers\<close>

text \<open>The order of the index on the key: byte by byte.\<close>

fun bytes_less :: "8 word list \<Rightarrow> 8 word list \<Rightarrow> bool" where
  "bytes_less (x # xs) (y # ys) = (x < y \<or> x = y \<and> bytes_less xs ys)"
| "bytes_less [] (y # ys) = True"
| "bytes_less xs [] = False"

fun be_value :: "8 word list \<Rightarrow> int" where
  "be_value [] = 0"
| "be_value (b # bs) = uint b * 256 ^ length bs + be_value bs"

lemma be_value_bounds: "0 \<le> be_value bs \<and> be_value bs < 256 ^ length bs"
proof (induction bs)
  case (Cons b bs)
  have "uint b < 256" using uint_lt2p [of b] by simp
  then have "uint b * 256 ^ length bs \<le> 255 * 256 ^ length bs" by (intro mult_right_mono) simp_all
  moreover have "0 \<le> uint b * 256 ^ length bs" by simp
  moreover have "(256 :: int) ^ length (b # bs) = 255 * 256 ^ length bs + 256 ^ length bs" by simp
  ultimately show ?case using Cons unfolding be_value.simps by linarith
qed simp

lemma value_less:
  "length xs = length ys \<Longrightarrow> be_value xs < be_value ys \<Longrightarrow> bytes_less (xs @ us) (ys @ vs)"
proof (induction xs ys rule: list_induct2)
  case (Cons x xs y ys)
  have bx: "0 \<le> be_value xs" "be_value ys < 256 ^ length ys" using be_value_bounds by auto
  have "\<not> uint y < uint x"
  proof
    assume "uint y < uint x"
    then have "(uint y + 1) * 256 ^ length ys \<le> uint x * 256 ^ length ys" by (intro mult_right_mono) simp_all
    then show False using Cons.prems Cons.hyps bx by (simp add: distrib_right)
  qed
  then show ?case using Cons by (cases "x = y") (auto simp: word_less_def word_uint_eq_iff)
qed simp

lemma be_value_append: "be_value (xs @ ys) = be_value xs * 256 ^ length ys + be_value ys"
  by (induction xs) (simp_all add: power_add distrib_right)

lemma uint_ucast_byte: "uint (ucast (w :: 'a::len word) :: 8 word) = uint w mod 256"
  by (simp add: uint_up_ucast unsigned_ucast_eq take_bit_eq_mod)

lemma uint_drop: "uint (drop_bit n w) = uint w div 2 ^ n"
  by (subst unsigned_drop_bit_eq) (simp add: take_bit_int_eq_self drop_bit_eq_div)

lemma byte_step: "(x :: int) mod 256 + 256 * (x div 256) = x"
  by simp

lemma be16_value: "be_value (be16 w) = uint w"
proof -
  have "uint w div 256 mod 256 = uint w div 256"
    using uint_lt2p [of w] zdiv_mono1 [of "uint w" 65535 256] by (intro mod_pos_pos_trivial) (simp_all add: pos_imp_zdiv_nonneg_iff)
  moreover have "uint w div 256 * 256 + uint w mod 256 = uint w" by simp
  ultimately show ?thesis
    unfolding be16_def be_value.simps uint_ucast_byte uint_drop by simp
qed

lemma be32_value: "be_value (be32 w) = uint w"
proof -
  have q: "uint w div 2 ^ 24 mod 256 = uint w div 2 ^ 24"
    using uint_lt2p [of w] zdiv_mono1 [of "uint w" 4294967295 "2 ^ 24"] by (intro mod_pos_pos_trivial) (simp_all add: pos_imp_zdiv_nonneg_iff)
  have a: "uint w div 2 ^ 16 = 256 * (uint w div 2 ^ 24) + uint w div 2 ^ 16 mod 256"
    using zdiv_zmult2_eq [of 256 "uint w" "2 ^ 16"] mult_div_mod_eq [of 256 "uint w div 2 ^ 16"] by simp
  have b: "uint w div 2 ^ 8 = 256 * (uint w div 2 ^ 16) + uint w div 2 ^ 8 mod 256"
    using zdiv_zmult2_eq [of 256 "uint w" "2 ^ 8"] mult_div_mod_eq [of 256 "uint w div 2 ^ 8"] by simp
  have c: "uint w = 256 * (uint w div 2 ^ 8) + uint w mod 256" using mult_div_mod_eq [of 256 "uint w"] by simp
  have "be_value (be32 w) = uint w div 2 ^ 24 * 16777216 + uint w div 2 ^ 16 mod 256 * 65536 + uint w div 2 ^ 8 mod 256 * 256 + uint w mod 256"
    unfolding be32_def be_value.simps uint_ucast_byte uint_drop q by simp
  moreover have "d * 16777216 + c2 * 65536 + c1 * 256 + c0 = x"
    if "u = 256 * d + c2" "v = 256 * u + c1" "x = 256 * v + c0" for d u v x c0 c1 c2 :: int using that by simp
  note this [OF a b c]
  ultimately show ?thesis by (rule trans)
qed

lemma seed_range: "0 \<le> seed_counter s \<and> seed_counter s \<le> SEQ_MAX"
  by (simp add: seed_counter_def SEQ_MAX_def and_nonnegative_int_iff AND_upper2)

lemma version_value: "0 \<le> seq \<Longrightarrow> seq \<le> SEQ_MAX \<Longrightarrow> uint (0x7000 OR word_of_int (seq AND 0xfff) :: 16 word) = 0x7000 + seq"
proof -
  assume seq: "0 \<le> seq" "seq \<le> SEQ_MAX"
  then have small: "take_bit 12 seq = seq" by (intro take_bit_int_eq_self) (simp_all add: SEQ_MAX_def)
  have m: "seq AND 0xfff = seq" using small by (simp add: take_bit_eq_mask mask_eq_exp_minus_1)
  have "uint (word_of_int seq :: 16 word) = seq" using seq by (simp add: uint_word_of_int_eq take_bit_int_eq_self SEQ_MAX_def)
  then have "uint (0x7000 OR word_of_int (seq AND 0xfff) :: 16 word) = 0x7000 OR seq" by (simp add: unsigned_or_eq m)
  also have "\<dots> = push_bit 12 7 OR take_bit 12 seq" by (simp add: small push_bit_eq_mult)
  also have "\<dots> = push_bit 12 7 + take_bit 12 seq"
    by (rule disjunctive_add [symmetric]) (unfold bit_push_bit_iff bit_take_bit_iff, auto)
  finally show ?thesis by (simp add: small push_bit_eq_mult)
qed

definition id_head :: "int \<Rightarrow> int \<Rightarrow> 8 word list" where
  "id_head now seq = be32 (word_of_int (drop_bit 16 now AND mask 32)) @ be16 (word_of_int (now AND mask 16)) @
     be16 (0x7000 OR word_of_int (seq AND 0xfff))"

lemma id_bytes_head: "id_bytes now seq r = id_head now seq @ [(r ! 0 AND 0x3f) OR 0x80] @ take 7 (drop 1 r)"
  by (simp add: id_bytes_def id_head_def)

lemma id_head_length: "length (id_head now seq) = 8"
  by (simp add: id_head_def be32_def be16_def)

lemma id_head_value:
  assumes "0 \<le> now" and "now < 2 ^ 48" and "0 \<le> seq" and "seq \<le> SEQ_MAX"
  shows "be_value (id_head now seq) = now * 65536 + 0x7000 + seq"
proof -
  have hi: "0 \<le> now div 65536" "now div 65536 < 2 ^ 32"
    using assms(1,2) zdiv_mono1 [of now "2 ^ 48 - 1" 65536] by (simp_all add: pos_imp_zdiv_nonneg_iff)
  have a: "uint (word_of_int (drop_bit 16 now AND mask 32) :: 32 word) = now div 65536"
    using hi by (simp add: uint_word_of_int_eq drop_bit_eq_div take_bit_int_eq_self flip: take_bit_eq_mask)
  have b: "uint (word_of_int (now AND mask 16) :: 16 word) = now mod 65536"
    by (simp add: uint_word_of_int_eq take_bit_eq_mod flip: take_bit_eq_mask)
  have l: "length (be16 w) = 2" for w by (simp add: be16_def)
  have "be_value (id_head now seq) = now div 65536 * 65536 * 65536 + now mod 65536 * 65536 + (0x7000 + seq)"
    unfolding id_head_def be_value_append be32_value be16_value a b version_value [OF assms(3,4)] length_append l by simp
  moreover have "now div 65536 * 65536 + now mod 65536 = now" by simp
  then have "now div 65536 * 65536 * 65536 + now mod 65536 * 65536 = now * 65536" by (metis distrib_right)
  ultimately show ?thesis by simp
qed

lemma id_less:
  assumes "0 \<le> now" and "now' < 2 ^ 48" and "0 \<le> seq" and "seq \<le> SEQ_MAX" and "0 \<le> seq'" and "seq' \<le> SEQ_MAX"
    and "now < now' \<or> now = now' \<and> seq < seq'"
  shows "bytes_less (id_bytes now seq r) (id_bytes now' seq' r')"
proof -
  have "be_value (id_head now seq) < be_value (id_head now' seq')"
    using assms by (auto simp: id_head_value SEQ_MAX_def)
  then show ?thesis unfolding id_bytes_head by (intro value_less) (simp_all add: id_head_length)
qed

fun ids :: "id_input list \<Rightarrow> id_gen \<Rightarrow> 8 word list list option" where
  "ids [] g = Some []"
| "ids (i # is) g = (case generateId i g of None \<Rightarrow> None | Some (b, g') \<Rightarrow> map_option (Cons b) (ids is g'))"

definition gen_ok :: "id_gen \<Rightarrow> bool" where
  "gen_ok g \<longleftrightarrow> 0 \<le> ig_last g \<and> 0 \<le> ig_seq g \<and> ig_seq g \<le> SEQ_MAX"

text \<open>Calls under a clock that does not go back, none of which meets a full counter.\<close>

fun calm :: "id_input list \<Rightarrow> id_gen \<Rightarrow> bool" where
  "calm [] g = True"
| "calm (i # is) g =
     (ig_last g \<le> ii_clock i 0 \<and> ii_clock i 0 < 2 ^ 48 \<and> (ig_last g < ii_clock i 0 \<or> ig_seq g < SEQ_MAX) \<and>
      (case next_gen i g of None \<Rightarrow> False | Some g' \<Rightarrow> calm is g'))"

definition key_after :: "int \<Rightarrow> int \<Rightarrow> 8 word list \<Rightarrow> bool" where
  "key_after t k b \<longleftrightarrow> (\<exists>t' k' r. b = id_bytes t' k' r \<and> t' < 2 ^ 48 \<and> 0 \<le> k' \<and> k' \<le> SEQ_MAX \<and> (t < t' \<or> t = t' \<and> k < k'))"

lemma calm_step:
  assumes "gen_ok g" and "ig_last g \<le> ii_clock i 0" and "ig_last g < ii_clock i 0 \<or> ig_seq g < SEQ_MAX"
  obtains g' where "next_gen i g = Some g'" "gen_ok g'" "ig_last g' = ii_clock i 0"
    "ig_last g < ii_clock i 0 \<or> ig_last g = ii_clock i 0 \<and> ig_seq g < ig_seq g'"
proof (cases "ig_last g < ii_clock i 0")
  case True
  then show ?thesis
    using assms(1) seed_range [of "ii_seed i"]
    by (intro that [of "\<lparr>ig_last = ii_clock i 0, ig_seq = seed_counter (ii_seed i)\<rparr>"]) (auto simp: next_gen_def gen_ok_def)
next
  case False
  then show ?thesis
    using assms by (intro that [of "g\<lparr>ig_seq := ig_seq g + 1\<rparr>"]) (auto simp: next_gen_def gen_ok_def)
qed

lemma ids_calm:
  "gen_ok g \<Longrightarrow> calm is g \<Longrightarrow>
     \<exists>bs. ids is g = Some bs \<and> length bs = length is \<and> sorted_wrt bytes_less bs \<and> list_all (key_after (ig_last g) (ig_seq g)) bs"
proof (induction "is" arbitrary: g)
  case (Cons i "is")
  let ?t = "ii_clock i 0"
  from Cons.prems obtain g' where g': "next_gen i g = Some g'" "gen_ok g'" "ig_last g' = ?t"
    "ig_last g < ?t \<or> ig_last g = ?t \<and> ig_seq g < ig_seq g'" and t: "?t < 2 ^ 48"
    by (auto elim: calm_step)
  from Cons.prems g' obtain bs where bs: "ids is g' = Some bs" "length bs = length is" "sorted_wrt bytes_less bs"
    "list_all (key_after ?t (ig_seq g')) bs" using Cons.IH [of g'] by auto
  define b where "b = id_bytes ?t (ig_seq g') (ii_random i)"
  have "key_after (ig_last g) (ig_seq g) b"
    using g' t by (auto simp: key_after_def b_def gen_ok_def)
  moreover have "bytes_less b c \<and> key_after (ig_last g) (ig_seq g) c" if "c \<in> set bs" for c
  proof -
    have "key_after ?t (ig_seq g') c" using bs(4) that by (simp add: list_all_iff)
    then obtain t' k' r where c: "c = id_bytes t' k' r" "t' < 2 ^ 48" "0 \<le> k'" "k' \<le> SEQ_MAX" "?t < t' \<or> ?t = t' \<and> ig_seq g' < k'"
      unfolding key_after_def by blast
    have "bytes_less b c" unfolding b_def c(1) using c g'(2,3) by (intro id_less) (auto simp: gen_ok_def)
    moreover have "key_after (ig_last g) (ig_seq g) c" unfolding key_after_def using c g'(4) by (intro exI [of _ t'] exI [of _ k'] exI [of _ r]) auto
    ultimately show ?thesis ..
  qed
  ultimately show ?case using bs g'(1) by (auto simp: generateId_def b_def list_all_iff)
qed simp

text \<open>
  C38. Identifiers of one process increase: while the clock does not go back and no counter overflows every call returns,
  and each identifier is greater, byte by byte, than all those before it, whatever the random bytes are, also within one
  millisecond.
\<close>

theorem ids_increase:
  assumes "gen_ok g" and "calm calls g"
  shows "\<exists>bs. ids calls g = Some bs \<and> length bs = length calls \<and> sorted_wrt bytes_less bs"
  using ids_calm [OF assms] by blast

text \<open>
  The order breaks where the counter is full: the call that waits for the next millisecond still writes the time it read
  before the wait, with a counter that starts again at random, so its identifier is smaller than the one before it.
\<close>

theorem overflow_breaks_order:
  assumes "generateId i g = Some (b, g')" and "gen_ok g" and "ig_last g \<le> ii_clock i 0" and "ii_clock i 0 < 2 ^ 48"
    and "ig_seq g' = SEQ_MAX" and "ig_last g' = ii_clock i 0"
    and "generateId j g' = Some (b', g'')" and "ii_clock j 0 = ii_clock i 0" and "seed_counter (ii_seed2 j) < SEQ_MAX"
  shows "bytes_less b' b"
proof -
  have "b = id_bytes (ii_clock i 0) SEQ_MAX (ii_random i)" using assms(1,5) by (auto simp: generateId_def)
  moreover have "b' = id_bytes (ii_clock i 0) (seed_counter (ii_seed2 j)) (ii_random j)"
    using assms(5-8) by (auto simp: generateId_def next_gen_def)
  moreover have "0 \<le> ii_clock i 0" using assms(2,3) by (simp add: gen_ok_def)
  ultimately show ?thesis
    using assms(4,9) seed_range [of "ii_seed2 j"] by (auto intro!: id_less simp: SEQ_MAX_def)
qed

text \<open>The wait ends where the clock advances.\<close>

lemma await_ends:
  assumes "t < clock (n + k)"
  shows "await_clock clock t n \<noteq> None"
  using assms
proof (induction k arbitrary: n)
  case 0
  then show ?case by (subst await_clock.simps) simp
next
  case (Suc k)
  then have "await_clock clock t (Suc n) \<noteq> None" by simp
  then show ?case by (subst await_clock.simps) simp
qed

lemma hex_length: "length (hex_of bs) = 2 * length bs"
  by (induction bs) (simp_all add: hex_of_def)

lemma uuid_length: "length buf = 16 \<Longrightarrow> length (formatUuid buf) = 36"
  by (simp add: formatUuid_def Let_def hex_length)

section \<open>Concrete inputs\<close>

definition id_call :: "int \<Rightarrow> 16 word \<Rightarrow> id_input" where
  "id_call t s = \<lparr>ii_clock = (\<lambda>n. if n = 0 then t else t + 1), ii_seed = s, ii_seed2 = 5, ii_random = replicate 10 7\<rparr>"

theorem ids_increase_witness:
  "\<exists>bs. ids [id_call 1000 16, id_call 1000 9, id_call 1001 3] fresh_gen = Some bs \<and> sorted_wrt bytes_less bs"
proof -
  have "calm [id_call 1000 16, id_call 1000 9, id_call 1001 3] fresh_gen" "gen_ok fresh_gen"
    by (simp_all add: id_call_def fresh_gen_def next_gen_def seed_counter_def SEQ_MAX_def gen_ok_def)
  then show ?thesis using ids_increase by blast
qed

theorem overflow_breaks_order_witness:
  "\<exists>b g' b' g''. generateId (id_call 1000 0xffff) fresh_gen = Some (b, g') \<and> generateId (id_call 1000 0) g' = Some (b', g'') \<and> bytes_less b' b"
proof -
  define g' where "g' = \<lparr>ig_last = 1000, ig_seq = SEQ_MAX\<rparr>"
  have one: "generateId (id_call 1000 0xffff) fresh_gen = Some (id_bytes 1000 SEQ_MAX (replicate 10 7), g')"
    by (simp add: generateId_def next_gen_def id_call_def fresh_gen_def seed_counter_def SEQ_MAX_def g'_def)
  have "await_clock (ii_clock (id_call 1000 0)) 1000 1 = Some 1"
    by (subst await_clock.simps) (simp add: id_call_def)
  then have two: "generateId (id_call 1000 0) g' = Some (id_bytes 1000 5 (replicate 10 7), \<lparr>ig_last = 1001, ig_seq = 5\<rparr>)"
    by (simp add: generateId_def next_gen_def g'_def) (simp add: id_call_def seed_counter_def SEQ_MAX_def)
  have "bytes_less (id_bytes 1000 5 (replicate 10 7)) (id_bytes 1000 SEQ_MAX (replicate 10 7))"
    by (rule overflow_breaks_order [OF one _ _ _ _ _ two])
      (simp_all add: fresh_gen_def gen_ok_def id_call_def g'_def SEQ_MAX_def seed_counter_def)
  then show ?thesis using one two by blast
qed

end
