(* ===== verification/Kyc.thy ===== *)
theory Kyc
  imports WebhookIn
begin

text \<open>
  Documents for the identity check: \<open>src/controllers/kycController.ts\<close> over \<open>src/services/storage/s3Service.ts\<close>, and the
  rewards of validators, \<open>src/services/kyc/kycValidatorRewardService.ts\<close> with its controller.

  The state holds the applications and documents of the database and, per object of the store, its tags. Signing of
  URLs, the digest of the scanner's message and the printing of JSON are parameters, and so is the configuration, whose
  module does not export the sections that the code reads. An application is named by its position in the table, a
  document by its identifier in lower case. What other spellings the database reads as an identifier is a parameter
  (\<open>kc_db_uuid\<close>, \<open>None\<close> when it refuses one), beside the narrower test of the request bodies (\<open>kc_uuid\<close>).
\<close>

section \<open>Configuration and state\<close>

datatype kyc_err = AppErr string nat | PlainErr string | BadBody | DbErr

record put_command =
  pc_bucket :: string
  pc_key :: string
  pc_type :: string
  pc_tagging :: string
  pc_metadata :: "(string \<times> string) list"

record kyc_env =
  kc_now :: int                            \<comment> \<open>seconds\<close>
  kc_now_iso :: string
  kc_mode :: string                        \<comment> \<open>\<open>config.nodeEnv\<close>\<close>
  kc_bucket :: "string option"
  kc_upload_ttl :: int
  kc_download_ttl :: int
  kc_model :: string
  kc_licensed :: "string list"
  kc_enforce :: bool
  kc_secret :: string
  kc_hmac :: "string \<Rightarrow> string \<Rightarrow> string"
  kc_stringify :: "json \<Rightarrow> string"
  kc_sha256 :: "string \<Rightarrow> string"
  kc_uuid :: "string \<Rightarrow> bool"
  kc_db_uuid :: "string \<Rightarrow> string option"
  kc_new_id :: string
  kc_uri_component :: "string \<Rightarrow> string"
  kc_sign_put :: "put_command \<Rightarrow> int \<Rightarrow> string option"
  kc_sign_get :: "string \<Rightarrow> string \<Rightarrow> int \<Rightarrow> string option"
  kc_store_reads :: bool                   \<comment> \<open>whether the store answers reads, and accepts tags\<close>
  kc_store_writes :: bool

record kyc_app =
  ka_user :: string
  ka_country :: string
  ka_status :: string

record kyc_doc =
  kd_id :: string
  kd_app :: nat
  kd_kind :: string
  kd_ref :: string
  kd_mime :: string
  kd_checksum :: "string option"
  kd_size :: "int option"
  kd_scan :: string

record kyc_db =
  ks_users :: "(string \<times> string option) list"
  ks_apps :: "kyc_app list"
  ks_docs :: "kyc_doc list"
  ks_objects :: "(string \<times> (string \<times> string) list) list"

section \<open>The object store\<close>

definition ALLOWED_MIME_TYPES :: "(string \<times> string list) list" where
  "ALLOWED_MIME_TYPES =
     (let three = [''image/jpeg'', ''image/png'', ''application/pdf''] in
      [(''passport'', three), (''national_id'', three), (''drivers_license'', three), (''proof_of_address'', three),
       (''selfie'', [''image/jpeg'', ''image/png''])])"

definition MAX_FILE_SIZE_BYTES :: int where
  "MAX_FILE_SIZE_BYTES = 10 * 1024 * 1024"

definition requireConfiguredS3Bucket :: "string option \<Rightarrow> kyc_err + string" where
  "requireConfiguredS3Bucket b =
     (case b of
        None \<Rightarrow> Inl (PlainErr ''S3 bucket is not configured'')
      | Some s \<Rightarrow> if trim s = [] then Inl (PlainErr ''S3 bucket is not configured'') else Inr (trim s))"

definition letter :: "char \<Rightarrow> bool" where
  "letter c = (let n = of_char c :: int in 65 \<le> n \<and> n \<le> 90 \<or> 97 \<le> n \<and> n \<le> 122)"

definition id_char :: "char \<Rightarrow> bool" where
  "id_char c \<longleftrightarrow> letter c \<or> is_digit c \<or> c = CHR ''-''"

definition kind_char :: "char \<Rightarrow> bool" where
  "kind_char c \<longleftrightarrow> letter c \<or> is_digit c \<or> c = CHR ''_''"

definition buildObjectKey :: "string \<Rightarrow> string \<Rightarrow> string \<Rightarrow> string" where
  "buildObjectKey userId documentKind documentId =
     ''kyc/'' @ filter id_char userId @ ''/'' @ filter kind_char documentKind @ ''/'' @ filter id_char documentId"

definition key_denied :: kyc_err where
  "key_denied = PlainErr ''Access denied: object does not belong to this user''"

definition assertKeyOwnership :: "string \<Rightarrow> string \<Rightarrow> kyc_err + unit" where
  "assertKeyOwnership objectKey userId =
     (let parts = split_on CHR ''/'' objectKey in
      throw_if (length parts < 4 \<or> parts ! 0 \<noteq> ''kyc'' \<or> parts ! 1 \<noteq> userId) key_denied)"

record upload_grant =
  ug_url :: string
  ug_key :: string
  ug_type :: string
  ug_expires :: int
  ug_key_checksum :: string

definition put_for :: "kyc_env \<Rightarrow> string \<Rightarrow> string \<Rightarrow> string \<Rightarrow> string \<Rightarrow> string \<Rightarrow> put_command" where
  "put_for e bucket userId documentKind documentId mimeType =
     \<lparr>pc_bucket = bucket, pc_key = buildObjectKey userId documentKind documentId, pc_type = mimeType,
      pc_tagging = ''scan-status=pending&owner='' @ kc_uri_component e userId,
      pc_metadata = [(''user-id'', userId), (''document-kind'', documentKind), (''document-id'', documentId),
        (''upload-initiated-at'', kc_now_iso e)]\<rparr>"

definition comma_join :: "string list \<Rightarrow> string" where
  "comma_join ws = (case ws of [] \<Rightarrow> [] | w # vs \<Rightarrow> w @ concat (map ((@) '', '') vs))"

definition generateUploadUrl :: "kyc_env \<Rightarrow> string \<Rightarrow> string \<Rightarrow> string \<Rightarrow> string \<Rightarrow> kyc_err + upload_grant" where
  "generateUploadUrl e userId documentKind documentId mimeType =
     (case map_of ALLOWED_MIME_TYPES documentKind of
        None \<Rightarrow>
          Inl (PlainErr (''Invalid document kind: '' @ documentKind @ ''. Allowed: '' @ comma_join (map fst ALLOWED_MIME_TYPES)))
      | Some allowed \<Rightarrow>
          if mimeType \<notin> set allowed then
            Inl (PlainErr (''MIME type '' @ mimeType @ '' is not allowed for '' @ documentKind @ ''. Allowed: '' @ comma_join allowed))
          else
            bindR (requireConfiguredS3Bucket (kc_bucket e)) (\<lambda>bucket.
              let c = put_for e bucket userId documentKind documentId mimeType in
              case kc_sign_put e c (kc_upload_ttl e) of
                None \<Rightarrow> Inl (PlainErr ''signing failed'')
              | Some url \<Rightarrow>
                  Inr \<lparr>ug_url = url, ug_key = pc_key c, ug_type = mimeType, ug_expires = kc_now e + kc_upload_ttl e,
                       ug_key_checksum = kc_sha256 e (pc_key c)\<rparr>))"

definition assertScanAllowsDownload :: "string \<Rightarrow> kyc_err + unit" where
  "assertScanAllowsDownload scanStatus =
     (if scanStatus = ''clean'' then Inr ()
      else if scanStatus = ''infected'' then
        Inl (PlainErr ''Document failed virus scan and cannot be downloaded. Contact support.'')
      else if scanStatus = ''pending'' then
        Inl (PlainErr ''Document is pending virus scan. Please try again in a few minutes.'')
      else Inl (PlainErr ''Document virus scan status could not be confirmed. Please try again later.''))"

text \<open>The object is asked for before its tags; only its absence is an error, every other failure reads as pending.\<close>

definition getObjectScanStatus :: "kyc_env \<Rightarrow> string \<Rightarrow> kyc_db \<Rightarrow> kyc_err + string" where
  "getObjectScanStatus e objectKey s =
     (if \<not> is_ok (requireConfiguredS3Bucket (kc_bucket e)) \<or> \<not> kc_store_reads e then Inr ''pending''
      else
        (case map_of (ks_objects s) objectKey of
           None \<Rightarrow> Inl (PlainErr ''Document not found in storage'')
         | Some tags \<Rightarrow>
             if kc_mode e = ''test'' \<or> kc_mode e = ''development'' then Inr ''clean''
             else
               (let status = (case map_of tags ''scan-status'' of None \<Rightarrow> ''pending'' | Some v \<Rightarrow> v) in
                Inr (if status \<in> set [''clean'', ''infected'', ''pending''] then status else ''pending''))))"

record download_grant =
  dg_url :: string
  dg_expires :: int
  dg_scan :: string

definition generateDownloadUrl :: "kyc_env \<Rightarrow> string \<Rightarrow> string \<Rightarrow> kyc_db \<Rightarrow> kyc_err + download_grant" where
  "generateDownloadUrl e userId objectKey s =
     bindR (assertKeyOwnership objectKey userId) (\<lambda>_.
     bindR (getObjectScanStatus e objectKey s) (\<lambda>scanStatus.
     bindR (assertScanAllowsDownload scanStatus) (\<lambda>_.
     bindR (requireConfiguredS3Bucket (kc_bucket e)) (\<lambda>bucket.
       case kc_sign_get e bucket objectKey (kc_download_ttl e) of
         None \<Rightarrow> Inl (PlainErr ''signing failed'')
       | Some url \<Rightarrow> Inr \<lparr>dg_url = url, dg_expires = kc_now e + kc_download_ttl e, dg_scan = scanStatus\<rparr>))))"

text \<open>The tags of an object are replaced as a whole.\<close>

definition mark_object :: "kyc_env \<Rightarrow> string \<Rightarrow> string \<Rightarrow> kyc_db \<Rightarrow> (kyc_err + unit) \<times> kyc_db" where
  "mark_object e value objectKey s =
     bail (requireConfiguredS3Bucket (kc_bucket e)) s (\<lambda>_.
       if \<not> kc_store_writes e \<or> map_of (ks_objects s) objectKey = None then (Inl (PlainErr ''store''), s)
       else (Inr (), s\<lparr>ks_objects := (objectKey, [(''scan-status'', value)]) # filter (\<lambda>(k, t). k \<noteq> objectKey) (ks_objects s)\<rparr>))"

definition markObjectClean :: "kyc_env \<Rightarrow> string \<Rightarrow> kyc_db \<Rightarrow> (kyc_err + unit) \<times> kyc_db" where
  "markObjectClean e = mark_object e ''clean''"

definition markObjectInfected :: "kyc_env \<Rightarrow> string \<Rightarrow> kyc_db \<Rightarrow> (kyc_err + unit) \<times> kyc_db" where
  "markObjectInfected e = mark_object e ''infected''"

section \<open>Schemas and applications\<close>

definition requestUploadUrlSchema :: "kyc_env \<Rightarrow> zod" where
  "requestUploadUrlSchema e =
     ZObject False
       [(''document_kind'', z_enum (map fst ALLOWED_MIME_TYPES)),
        (''mime_type'', ZString (\<lambda>s. 1 \<le> length s \<and> length s \<le> 100)),
        (''document_id'', ZOptional (ZString (kc_uuid e)))]"

definition checksum_shape :: "string \<Rightarrow> bool" where
  "checksum_shape s \<longleftrightarrow>
     length s = 64 \<and> list_all (\<lambda>c. is_digit c \<or> (let n = of_char c :: int in 97 \<le> n \<and> n \<le> 102)) s"

definition confirmUploadSchema :: zod where
  "confirmUploadSchema =
     ZObject False
       [(''checksum'', ZString checksum_shape),
        (''file_size_bytes'', ZNumber False (\<lambda>n. int_num n \<and> positive n \<and>
           (case n of Fin q \<Rightarrow> q \<le> of_int MAX_FILE_SIZE_BYTES | _ \<Rightarrow> False)))]"

definition scanWebhookSchema :: zod where
  "scanWebhookSchema =
     ZObject False
       [(''object_key'', ZString (min_len 1)), (''scan_result'', z_enum [''clean'', ''infected'']),
        (''threat_name'', ZOptional z_string)]"

definition str_field :: "json \<Rightarrow> string \<Rightarrow> string" where
  "str_field v k = (case jget v k of JStr s \<Rightarrow> s | _ \<Rightarrow> [])"

definition body_of :: "zod \<Rightarrow> json \<Rightarrow> json option" where
  "body_of z body = Option.bind (zparse z (Some body)) id"

definition to_upper_ascii :: "string \<Rightarrow> string" where
  "to_upper_ascii s = map (\<lambda>c. let n = of_char c :: int in if 97 \<le> n \<and> n \<le> 122 then char_of (n - 32) else c) s"

definition checkJurisdictionLicensing :: "kyc_env \<Rightarrow> string \<Rightarrow> bool" where
  "checkJurisdictionLicensing e countryCode \<longleftrightarrow>
     kc_model e = ''partner'' \<or> to_upper_ascii countryCode \<in> set (kc_licensed e) \<or> \<not> kc_enforce e"

definition open_app :: "string \<Rightarrow> kyc_app \<Rightarrow> bool" where
  "open_app userId a \<longleftrightarrow> ka_user a = userId \<and> ka_status a \<in> set [''pending'', ''submitted'']"

definition unlicensed :: "kyc_env \<Rightarrow> string \<Rightarrow> kyc_err" where
  "unlicensed e countryCode =
     AppErr (''KYC operations are not licensed for jurisdiction '' @ countryCode @ ''. '' @
       ''ACBU currently holds licenses for: '' @ comma_join (kc_licensed e) @ ''. '' @
       ''If this is a partner-operated KYC, set KYC_OPERATING_MODEL=partner. '' @
       ''Otherwise, contact legal/compliance to obtain the required license.'') 422"

text \<open>The database refuses an application of a user it does not have.\<close>

definition getOrCreateApplication :: "kyc_env \<Rightarrow> string \<Rightarrow> kyc_db \<Rightarrow> (kyc_err + nat) \<times> kyc_db" where
  "getOrCreateApplication e userId s =
     (case find (\<lambda>i. open_app userId (ks_apps s ! i)) [0..<length (ks_apps s)] of
        Some i \<Rightarrow> (Inr i, s)
      | None \<Rightarrow>
          (let country = (case map_of (ks_users s) userId of Some (Some c) \<Rightarrow> c | _ \<Rightarrow> ''XX'') in
           if \<not> checkJurisdictionLicensing e country then (Inl (unlicensed e country), s)
           else if map_of (ks_users s) userId = None \<or> 3 < length country then (Inl DbErr, s)
           else
             (Inr (length (ks_apps s)),
              s\<lparr>ks_apps := ks_apps s @ [\<lparr>ka_user = userId, ka_country = country, ka_status = ''pending''\<rparr>]\<rparr>)))"

section \<open>Handlers\<close>

text \<open>The user of the key; an empty identifier counts as none.\<close>

definition no_user :: kyc_err where
  "no_user = AppErr ''User-scoped API key required'' 401"

definition same_uuid :: "string \<Rightarrow> kyc_doc \<Rightarrow> bool" where
  "same_uuid i d \<longleftrightarrow> kd_id d = to_lower i"

definition upsert_doc :: "string \<Rightarrow> nat \<Rightarrow> string \<Rightarrow> string \<Rightarrow> string \<Rightarrow> kyc_doc list \<Rightarrow> kyc_doc list" where
  "upsert_doc i app kind ref mime ds =
     (if find (same_uuid i) ds = None
      then ds @ [\<lparr>kd_id = to_lower i, kd_app = app, kd_kind = kind, kd_ref = ref, kd_mime = mime, kd_checksum = None,
                  kd_size = None, kd_scan = ''pending''\<rparr>]
      else map (\<lambda>d. if same_uuid i d then d\<lparr>kd_ref := ref, kd_mime := mime\<rparr> else d) ds)"

definition requestUploadUrl ::
  "kyc_env \<Rightarrow> string option \<Rightarrow> json \<Rightarrow> kyc_db \<Rightarrow> (kyc_err + (string \<times> upload_grant)) \<times> kyc_db" where
  "requestUploadUrl e user body s =
     (if \<not> truthy user then (Inl no_user, s)
      else
        (case body_of (requestUploadUrlSchema e) body of
           None \<Rightarrow> (Inl BadBody, s)
         | Some v \<Rightarrow>
             (let userId = the user; kind = str_field v ''document_kind''; mime = str_field v ''mime_type'';
                  documentId = (if jget v ''document_id'' = JNull then kc_new_id e else str_field v ''document_id'') in
              bail (generateUploadUrl e userId kind documentId mime) s (\<lambda>result.
                case getOrCreateApplication e userId s of
                  (Inl err, s') \<Rightarrow> (Inl err, s')
                | (Inr app, s') \<Rightarrow>
                    (Inr (to_lower documentId, result),
                     s'\<lparr>ks_docs := upsert_doc documentId app kind (ug_key result) mime (ks_docs s')\<rparr>)))))"

definition owned_doc :: "kyc_env \<Rightarrow> string \<Rightarrow> string \<Rightarrow> kyc_db \<Rightarrow> kyc_err + kyc_doc" where
  "owned_doc e userId i s =
     (case kc_db_uuid e i of
        None \<Rightarrow> Inl DbErr
      | Some c \<Rightarrow>
        (case find (\<lambda>d. kd_id d = c) (ks_docs s) of
           None \<Rightarrow> Inl (AppErr ''Document not found'' 404)
         | Some d \<Rightarrow>
             if ka_user (ks_apps s ! kd_app d) \<noteq> userId then Inl (AppErr ''Access denied'' 403) else Inr d))"

definition confirmed_doc :: "json \<Rightarrow> kyc_doc \<Rightarrow> kyc_doc" where
  "confirmed_doc v d =
     d\<lparr>kd_checksum := Some (str_field v ''checksum''),
       kd_size := (case jget v ''file_size_bytes'' of JNum (Fin q) \<Rightarrow> Some \<lfloor>q\<rfloor> | _ \<Rightarrow> None)\<rparr>"

definition confirmUpload ::
  "kyc_env \<Rightarrow> string option \<Rightarrow> string \<Rightarrow> json \<Rightarrow> kyc_db \<Rightarrow> (kyc_err + kyc_doc) \<times> kyc_db" where
  "confirmUpload e user i body s =
     (if \<not> truthy user then (Inl no_user, s)
      else
        (case body_of confirmUploadSchema body of
           None \<Rightarrow> (Inl BadBody, s)
         | Some v \<Rightarrow>
             bail (owned_doc e (the user) i s) s (\<lambda>d.
             bail (assertKeyOwnership (kd_ref d) (the user)) s (\<lambda>_.
               (Inr (confirmed_doc v d), s\<lparr>ks_docs := map (\<lambda>x. if kd_id x = kd_id d then confirmed_doc v d else x) (ks_docs s)\<rparr>)))))"

definition surfaced :: "kyc_err \<Rightarrow> kyc_err" where
  "surfaced err =
     (case err of
        PlainErr m \<Rightarrow> if str_includes m ''virus scan'' \<or> str_includes m ''pending scan'' then AppErr m 422 else err
      | AppErr m c \<Rightarrow> if str_includes m ''virus scan'' \<or> str_includes m ''pending scan'' then AppErr m 422 else err
      | _ \<Rightarrow> err)"

definition requestDownloadUrl :: "kyc_env \<Rightarrow> string option \<Rightarrow> string \<Rightarrow> kyc_db \<Rightarrow> kyc_err + download_grant" where
  "requestDownloadUrl e user i s =
     map_err surfaced
       (if \<not> truthy user then Inl no_user
        else bindR (owned_doc e (the user) i s) (\<lambda>d. generateDownloadUrl e (the user) (kd_ref d) s))"

definition scan_guard :: "kyc_env \<Rightarrow> string option \<Rightarrow> json \<Rightarrow> kyc_err + unit" where
  "scan_guard e signature body =
     (if kc_secret e \<noteq> [] then
        (if \<not> truthy signature then Inl (AppErr ''Missing scan webhook signature'' 401)
         else throw_if (hex_bytes (the signature) \<noteq> hex_bytes (kc_hmac e (kc_secret e) (kc_stringify e body)))
                (AppErr ''Invalid scan webhook signature'' 401))
      else throw_if (kc_mode e = ''production'') (AppErr ''Scan webhook secret not configured'' 500))"

definition scanWebhook :: "kyc_env \<Rightarrow> string option \<Rightarrow> json \<Rightarrow> kyc_db \<Rightarrow> (kyc_err + string) \<times> kyc_db" where
  "scanWebhook e signature body s =
     bail (scan_guard e signature body) s (\<lambda>_.
       case body_of scanWebhookSchema body of
         None \<Rightarrow> (Inl BadBody, s)
       | Some v \<Rightarrow>
           (let key = str_field v ''object_key''; result = str_field v ''scan_result'';
                status = (if result = ''clean'' then ''clean'' else ''infected'') in
            case (if result = ''clean'' then markObjectClean e key s else markObjectInfected e key s) of
              (Inl err, s') \<Rightarrow> (Inl err, s')
            | (Inr u, s') \<Rightarrow>
                (Inr result, s'\<lparr>ks_docs := map (\<lambda>d. if kd_ref d = key then d\<lparr>kd_scan := status\<rparr> else d) (ks_docs s')\<rparr>)))"

section \<open>Rewards of validators\<close>

definition MAX_REWARD_ACBU :: int where "MAX_REWARD_ACBU = 1000"
definition REWARD_DECIMALS :: nat where "REWARD_DECIMALS = 7"
definition MAX_REWARD_PCT_OF_MINTED :: int where "MAX_REWARD_PCT_OF_MINTED = 5"

datatype reward_verdict = RewardValid | NotPositive | AboveMaximum | NothingMinted | AboveShare

definition validateRewardAmount :: "int \<Rightarrow> int \<Rightarrow> reward_verdict" where
  "validateRewardAmount onChainTotal rewardAmount =
     (if rewardAmount \<le> 0 then NotPositive
      else if MAX_REWARD_ACBU * 10 ^ REWARD_DECIMALS < rewardAmount then AboveMaximum
      else if onChainTotal \<le> 0 then NothingMinted
      else if onChainTotal * MAX_REWARD_PCT_OF_MINTED div 100 < rewardAmount then AboveShare
      else RewardValid)"

record reward_row =
  rw_validator :: string
  rw_application :: string
  rw_amount :: int
  rw_tx :: "string option"
  rw_status :: string

record reward_db =
  rd_validators :: "string list"
  rd_applications :: "string list"
  rd_rows :: "reward_row list"

record reward_request =
  rr_validator :: string
  rr_application :: string
  rr_amount :: string
  rr_tx :: "string option"

datatype reward_err = RewardRefused reward_verdict | RewardBadBody | SupplyUnreadable | NoSuchReference

text \<open>Creation, with the total that the contract answers, if it does. References must exist.\<close>

definition createValidatorReward ::
  "int option \<Rightarrow> reward_request \<Rightarrow> reward_db \<Rightarrow> (reward_err + (nat \<times> int)) \<times> reward_db" where
  "createValidatorReward supply p s =
     (case supply of
        None \<Rightarrow> (Inl SupplyUnreadable, s)
      | Some t \<Rightarrow>
          (let amount = digits_val 0 (rr_amount p); v = validateRewardAmount t amount in
           if v \<noteq> RewardValid then (Inl (RewardRefused v), s)
           else if rr_validator p \<notin> set (rd_validators s) \<or> rr_application p \<notin> set (rd_applications s)
           then (Inl NoSuchReference, s)
           else
             (Inr (length (rd_rows s), t),
              s\<lparr>rd_rows := rd_rows s @ [\<lparr>rw_validator = rr_validator p, rw_application = rr_application p, rw_amount = amount,
                rw_tx = rr_tx p, rw_status = ''pending''\<rparr>]\<rparr>)))"

definition positive_digits :: "string \<Rightarrow> bool" where
  "positive_digits s \<longleftrightarrow> (case s of [] \<Rightarrow> False | c # cs \<Rightarrow> is_digit c \<and> c \<noteq> CHR ''0'' \<and> list_all is_digit cs)"

definition createReward ::
  "(string \<Rightarrow> bool) \<Rightarrow> int option \<Rightarrow> reward_request \<Rightarrow> reward_db \<Rightarrow> (reward_err + (nat \<times> int)) \<times> reward_db" where
  "createReward uuid supply p s =
     (if \<not> uuid (rr_validator p) \<or> \<not> uuid (rr_application p) \<or> \<not> positive_digits (rr_amount p) then (Inl RewardBadBody, s)
      else createValidatorReward supply p s)"

definition getValidatorRewards :: "string \<Rightarrow> reward_db \<Rightarrow> reward_row list" where
  "getValidatorRewards v s = rev (filter (\<lambda>r. rw_validator r = v) (rd_rows s))"

section \<open>Ownership\<close>

text \<open>Identifiers without separators, as the users have: the characters of a key name are kept.\<close>

definition safe_id :: "string \<Rightarrow> bool" where
  "safe_id u \<longleftrightarrow> list_all id_char u"

lemma id_char_not_slash: "id_char c \<Longrightarrow> c \<noteq> CHR ''/''" "kind_char c \<Longrightarrow> c \<noteq> CHR ''/''"
  by (auto simp: id_char_def kind_char_def letter_def is_digit_def)

lemma slash_filtered: "CHR ''/'' \<notin> set (filter id_char u)" "CHR ''/'' \<notin> set (filter kind_char u)"
  by (auto dest: id_char_not_slash)

lemma key_parts:
  "split_on CHR ''/'' (buildObjectKey u k i) = [''kyc'', filter id_char u, filter kind_char k, filter id_char i]"
proof -
  have "buildObjectKey u k i = ''kyc'' @ CHR ''/'' # (filter id_char u @ CHR ''/'' # (filter kind_char k @ CHR ''/'' # filter id_char i))"
    by (simp add: buildObjectKey_def)
  then show ?thesis
    using slash_filtered [of u] slash_filtered [of k] slash_filtered [of i]
    by (simp only: split_on_append split_on_id set_append) (simp add: split_on_append split_on_id)
qed

lemma key_owner: "assertKeyOwnership (buildObjectKey u k i) v = (if filter id_char u = v then Inr () else Inl key_denied)"
  by (simp add: assertKeyOwnership_def key_parts throw_if_def)

lemma safe_filter: "safe_id u \<Longrightarrow> filter id_char u = u"
  by (simp add: safe_id_def list_all_iff)

lemma grant_key: "generateUploadUrl e u k i m = Inr g \<Longrightarrow> ug_key g = buildObjectKey u k i"
  by (auto simp: generateUploadUrl_def bindR_Inr_iff put_for_def Let_def split: option.splits if_splits)

lemma application_keeps:
  "getOrCreateApplication e u s = (r, s') \<Longrightarrow>
     ks_docs s' = ks_docs s \<and> ks_objects s' = ks_objects s \<and> (\<exists>as. ks_apps s' = ks_apps s @ as)"
  by (auto simp: getOrCreateApplication_def Let_def split: option.splits if_splits)

lemma find_upserted:
  "find (same_uuid i) (upsert_doc i app kind ref mime ds) =
     Some (case find (same_uuid i) ds of
       None \<Rightarrow> \<lparr>kd_id = to_lower i, kd_app = app, kd_kind = kind, kd_ref = ref, kd_mime = mime, kd_checksum = None,
         kd_size = None, kd_scan = ''pending''\<rparr>
     | Some d \<Rightarrow> d\<lparr>kd_ref := ref, kd_mime := mime\<rparr>)"
proof (cases "find (same_uuid i) ds")
  case None
  then show ?thesis by (simp add: upsert_doc_def find_append same_uuid_def)
next
  case (Some d)
  then have "find (same_uuid i) (map (\<lambda>d. if same_uuid i d then d\<lparr>kd_ref := ref, kd_mime := mime\<rparr> else d) ds)
      = Some (d\<lparr>kd_ref := ref, kd_mime := mime\<rparr>)"
    by (induction ds) (auto simp: same_uuid_def split: if_splits)
  with Some show ?thesis by (simp add: upsert_doc_def)
qed

text \<open>A successful request for an upload, with the document it named.\<close>

definition names_document :: "kyc_env \<Rightarrow> json \<Rightarrow> string \<Rightarrow> bool" where
  "names_document e body i \<longleftrightarrow>
     (\<exists>v. body_of (requestUploadUrlSchema e) body = Some v \<and> jget v ''document_id'' = JStr i)"

lemma upload_effect:
  assumes "requestUploadUrl e (Some u) body s = (Inr (j, g), s')"
  obtains i kind mime app s1 where "j = to_lower i" "ug_key g = buildObjectKey u kind i"
    "getOrCreateApplication e u s = (Inr app, s1)" "s' = s1\<lparr>ks_docs := upsert_doc i app kind (ug_key g) mime (ks_docs s1)\<rparr>"
    "\<And>i'. names_document e body i' \<Longrightarrow> i' = i"
proof -
  from assms obtain v where v: "body_of (requestUploadUrlSchema e) body = Some v"
    by (auto simp: requestUploadUrl_def split: if_splits option.splits)
  have t: "truthy (Some u)" using assms by (simp add: requestUploadUrl_def split: if_splits)
  define i where "i = (if jget v ''document_id'' = JNull then kc_new_id e else str_field v ''document_id'')"
  define kind where "kind = str_field v ''document_kind''"
  define mime where "mime = str_field v ''mime_type''"
  obtain r s1 where app: "getOrCreateApplication e u s = (r, s1)" by force
  have run: "bail (generateUploadUrl e u kind i mime) s (\<lambda>result.
      case r of Inl err \<Rightarrow> (Inl err, s1)
      | Inr app \<Rightarrow> (Inr (to_lower i, result), s1\<lparr>ks_docs := upsert_doc i app kind (ug_key result) mime (ks_docs s1)\<rparr>))
      = (Inr (j, g), s')"
    using assms v t unfolding requestUploadUrl_def by (simp add: app Let_def flip: i_def kind_def mime_def)
  then obtain a where "r = Inr a" "j = to_lower i" "generateUploadUrl e u kind i mime = Inr g"
    "s' = s1\<lparr>ks_docs := upsert_doc i a kind (ug_key g) mime (ks_docs s1)\<rparr>"
    by (cases r) (auto simp: bail_Inr_iff)
  moreover have "i' = i" if "names_document e body i'" for i' using that v by (simp add: names_document_def i_def str_field_def)
  ultimately show ?thesis using that [of i kind a s1 mime] app grant_key by blast
qed

definition doc_owner :: "string \<Rightarrow> kyc_db \<Rightarrow> string option" where
  "doc_owner i s = map_option (\<lambda>d. ka_user (ks_apps s ! kd_app d)) (find (same_uuid i) (ks_docs s))"

text \<open>Requests in their order, with any change of the object store between them.\<close>

datatype kyc_op =
    UploadOp kyc_env "string option" json
  | ConfirmOp kyc_env "string option" string json
  | ScanOp kyc_env "string option" json
  | StoreOp "(string \<times> (string \<times> string) list) list"

fun kyc_exec :: "kyc_op \<Rightarrow> kyc_db \<Rightarrow> kyc_db" where
  "kyc_exec (UploadOp e user body) s = snd (requestUploadUrl e user body s)"
| "kyc_exec (ConfirmOp e user i body) s = snd (confirmUpload e user i body s)"
| "kyc_exec (ScanOp e signature body) s = snd (scanWebhook e signature body s)"
| "kyc_exec (StoreOp objects) s = s\<lparr>ks_objects := objects\<rparr>"

definition kyc_run :: "kyc_op list \<Rightarrow> kyc_db \<Rightarrow> kyc_db" where
  "kyc_run ops s = fold kyc_exec ops s"

definition asked :: "kyc_op list \<Rightarrow> string \<Rightarrow> bool" where
  "asked ops key \<longleftrightarrow>
     (\<exists>e v body kind i. UploadOp e (Some v) body \<in> set ops \<and> key = buildObjectKey v kind i)"

definition asked_by :: "string \<Rightarrow> kyc_op list \<Rightarrow> string \<Rightarrow> bool" where
  "asked_by v ops key \<longleftrightarrow> (\<exists>e body kind i. UploadOp e (Some v) body \<in> set ops \<and> key = buildObjectKey v kind i)"

definition open_apps :: "string \<Rightarrow> kyc_db \<Rightarrow> nat" where
  "open_apps u s = length (filter (open_app u) (ks_apps s))"

definition kyc_inv :: "kyc_op list \<Rightarrow> kyc_db \<Rightarrow> bool" where
  "kyc_inv ops s \<longleftrightarrow>
     list_all (\<lambda>d. asked ops (kd_ref d) \<and> kd_app d < length (ks_apps s)) (ks_docs s) \<and> (\<forall>u. open_apps u s \<le> 1)"

lemma set_upsert:
  "d \<in> set (upsert_doc i app kind ref mime ds) \<Longrightarrow>
     kd_ref d = ref \<and> (kd_app d = app \<or> (\<exists>x \<in> set ds. kd_app d = kd_app x)) \<or> d \<in> set ds"
  by (auto simp: upsert_doc_def split: if_splits)

lemma application_inv:
  assumes "getOrCreateApplication e u s = (r, s')" and "\<forall>v. open_apps v s \<le> 1"
  shows "(\<forall>v. open_apps v s' \<le> 1) \<and> (\<forall>i. r = Inr i \<longrightarrow> i < length (ks_apps s') \<and> open_app u (ks_apps s' ! i))"
proof (cases "find (\<lambda>i. open_app u (ks_apps s ! i)) [0..<length (ks_apps s)]")
  case (Some i)
  then show ?thesis using assms by (auto simp: getOrCreateApplication_def dest!: find_SomeD)
next
  case None
  then have "\<not> open_app u (ks_apps s ! i)" if "i < length (ks_apps s)" for i using that by (auto simp: find_None_iff)
  then have none: "filter (open_app u) (ks_apps s) = []" by (auto simp: filter_empty_conv in_set_conv_nth)
  show ?thesis
  proof (cases r)
    case (Inl err)
    then show ?thesis using assms None by (auto simp: getOrCreateApplication_def Let_def split: if_splits)
  next
    case (Inr i)
    define country where "country = (case map_of (ks_users s) u of Some (Some c) \<Rightarrow> c | _ \<Rightarrow> ''XX'')"
    have s': "i = length (ks_apps s)" "ks_apps s' = ks_apps s @ [\<lparr>ka_user = u, ka_country = country, ka_status = ''pending''\<rparr>]"
      using assms(1) None Inr by (auto simp: getOrCreateApplication_def Let_def country_def split: if_splits)
    then show ?thesis using assms(2) none Inr by (auto simp: open_apps_def open_app_def)
  qed
qed

lemma mark_keeps_rows: "mark_object e v k s = (r, s') \<Longrightarrow> ks_docs s' = ks_docs s \<and> ks_apps s' = ks_apps s"
  by (auto simp: mark_object_def bail_def split: sum.splits if_splits)

lemma scan_rows:
  "ks_apps (snd (scanWebhook e signature body s)) = ks_apps s \<and>
   (\<exists>f. (\<forall>d. kd_ref (f d) = kd_ref d \<and> kd_app (f d) = kd_app d) \<and> ks_docs (snd (scanWebhook e signature body s)) = map f (ks_docs s))"
proof (cases "\<exists>v. scan_guard e signature body = Inr () \<and> body_of scanWebhookSchema body = Some v")
  case False
  then show ?thesis by (auto simp: scanWebhook_def bail_def split: sum.splits option.splits intro!: exI [of _ id])
next
  case True
  then obtain v where v: "scan_guard e signature body = Inr ()" "body_of scanWebhookSchema body = Some v" by blast
  define key status where "key = str_field v ''object_key''"
    and "status = (if str_field v ''scan_result'' = ''clean'' then ''clean'' else ''infected'')"
  obtain r s' where m: "mark_object e status key s = (r, s')" by force
  have "scanWebhook e signature body s =
      (case r of Inl err \<Rightarrow> (Inl err, s')
       | Inr u \<Rightarrow> (Inr (str_field v ''scan_result''),
           s'\<lparr>ks_docs := map (\<lambda>d. if kd_ref d = key then d\<lparr>kd_scan := status\<rparr> else d) (ks_docs s')\<rparr>))"
    using v m unfolding scanWebhook_def key_def status_def
    by (cases "str_field v ''scan_result'' = ''clean''"; cases r) (simp_all add: markObjectClean_def markObjectInfected_def Let_def)
  moreover have "\<exists>f. (\<forall>d. kd_ref (f d) = kd_ref d \<and> kd_app (f d) = kd_app d) \<and>
      map (\<lambda>d. if kd_ref d = key then d\<lparr>kd_scan := status\<rparr> else d) ds = map f ds" for ds
    by (intro exI [of _ "\<lambda>d. if kd_ref d = key then d\<lparr>kd_scan := status\<rparr> else d"]) simp
  moreover have "\<exists>f. (\<forall>d. kd_ref (f d) = kd_ref d \<and> kd_app (f d) = kd_app d) \<and> ds = map f ds" for ds :: "kyc_doc list"
    by (intro exI [of _ id]) simp
  ultimately show ?thesis using mark_keeps_rows [OF m] by (cases r) (simp_all del: map_eq_conv)
qed

lemma asked_mono: "asked ops k \<Longrightarrow> asked (ops @ later) k"
  unfolding asked_def by fastforce

lemma upload_refused_keeps:
  assumes "requestUploadUrl e user body s = (Inl err, s')"
  shows "ks_docs s' = ks_docs s \<and> ks_apps s' = ks_apps s"
proof -
  have app: "ks_docs t = ks_docs s \<and> ks_apps t = ks_apps s" if "getOrCreateApplication e u s = (Inl x, t)" for u x t
    using that by (auto simp: getOrCreateApplication_def Let_def split: option.splits if_splits)
  show ?thesis
  proof (cases "s' = s")
    case False
    then have t: "truthy user" using assms by (cases "truthy user") (simp_all add: requestUploadUrl_def)
    then obtain v where v: "body_of (requestUploadUrlSchema e) body = Some v"
      using False assms t by (cases "body_of (requestUploadUrlSchema e) body") (auto simp: requestUploadUrl_def)
    obtain r t where run: "getOrCreateApplication e (the user) s = (r, t)" by force
    from assms False t v run have "r = Inl err \<and> s' = t"
      by (cases r) (auto simp: requestUploadUrl_def Let_def bail_def split: sum.splits)
    then show ?thesis using app run by blast
  qed simp
qed

lemma upload_inv:
  assumes "kyc_inv ops s" and "requestUploadUrl e (Some u) body s = (Inr (j, g), s')"
  shows "kyc_inv (ops @ [UploadOp e (Some u) body]) s'"
proof -
  let ?ops = "ops @ [UploadOp e (Some u) body]"
  from upload_effect [OF assms(2)] obtain i kind mime app s1 where up:
    "ug_key g = buildObjectKey u kind i" "getOrCreateApplication e u s = (Inr app, s1)"
    "s' = s1\<lparr>ks_docs := upsert_doc i app kind (ug_key g) mime (ks_docs s1)\<rparr>" by metis
  have keeps: "ks_docs s1 = ks_docs s" "length (ks_apps s) \<le> length (ks_apps s1)"
    using application_keeps [OF up(2)] by auto
  have ok: "\<forall>v. open_apps v s1 \<le> 1" "app < length (ks_apps s1)"
    using application_inv [OF up(2)] assms(1) by (simp_all add: kyc_inv_def)
  have new: "asked ?ops (ug_key g)" unfolding asked_def up(1) by auto
  have old: "asked ?ops (kd_ref x) \<and> kd_app x < length (ks_apps s1)" if x: "x \<in> set (ks_docs s1)" for x
    using x assms(1) keeps by (auto simp: kyc_inv_def list_all_iff intro: asked_mono)
  have "asked ?ops (kd_ref d) \<and> kd_app d < length (ks_apps s1)"
    if d: "d \<in> set (upsert_doc i app kind (ug_key g) mime (ks_docs s1))" for d
    using set_upsert [OF d] new ok(2) old by auto
  then show ?thesis using ok(1) unfolding up(3) kyc_inv_def by (simp add: list_all_iff open_apps_def)
qed

lemma same_rows_inv:
  assumes "kyc_inv ops s" and "ks_apps s' = ks_apps s"
    and "\<And>d. d \<in> set (ks_docs s') \<Longrightarrow> \<exists>x \<in> set (ks_docs s). kd_ref d = kd_ref x \<and> kd_app d = kd_app x"
  shows "kyc_inv (ops @ later) s'"
proof -
  have "asked (ops @ later) (kd_ref d) \<and> kd_app d < length (ks_apps s')" if d: "d \<in> set (ks_docs s')" for d
    using assms(1,2) assms(3) [OF d] by (auto simp: kyc_inv_def list_all_iff intro: asked_mono)
  then show ?thesis using assms(1,2) by (simp add: kyc_inv_def list_all_iff open_apps_def)
qed

lemma confirm_rows:
  "ks_apps (snd (confirmUpload e user i body s)) = ks_apps s \<and>
   (\<forall>d \<in> set (ks_docs (snd (confirmUpload e user i body s))). \<exists>x \<in> set (ks_docs s). kd_ref d = kd_ref x \<and> kd_app d = kd_app x)"
proof -
  obtain r s' where run: "confirmUpload e user i body s = (r, s')" by force
  show ?thesis
  proof (cases "s' = s")
    case True
    then show ?thesis using run by auto
  next
    case False
    then have t: "truthy user" using run by (cases "truthy user") (simp_all add: confirmUpload_def)
    obtain v where v: "body_of confirmUploadSchema body = Some v"
      using False run t by (cases "body_of confirmUploadSchema body") (auto simp: confirmUpload_def)
    obtain d where d: "owned_doc e (the user) i s = Inr d"
      using False run t v by (cases "owned_doc e (the user) i s") (auto simp: confirmUpload_def)
    have s': "s' = s\<lparr>ks_docs := map (\<lambda>x. if kd_id x = kd_id d then confirmed_doc v d else x) (ks_docs s)\<rparr>"
      using False run t v d by (cases "assertKeyOwnership (kd_ref d) (the user)") (auto simp: confirmUpload_def)
    have d': "kd_ref (confirmed_doc v d) = kd_ref d" "kd_app (confirmed_doc v d) = kd_app d" by (simp_all add: confirmed_doc_def)
    have "d \<in> set (ks_docs s)" using d by (auto simp: owned_doc_def split: if_splits option.splits dest: find_SomeD)
    then show ?thesis using s' d' run by (auto split: if_splits)
  qed
qed

lemma kyc_step_inv:
  assumes "kyc_inv ops s"
  shows "kyc_inv (ops @ [op]) (kyc_exec op s)"
proof (cases op)
  case (UploadOp e user body)
  obtain r s' where run: "requestUploadUrl e user body s = (r, s')" by force
  show ?thesis
  proof (cases r)
    case (Inl err)
    then show ?thesis
      using upload_refused_keeps [of e user body s err s'] run by (intro same_rows_inv [OF assms]) (auto simp: UploadOp)
  next
    case (Inr jg)
    then have "truthy user" using run by (cases "truthy user") (simp_all add: requestUploadUrl_def)
    then obtain u where "user = Some u" by (cases user) (auto simp: truthy_def)
    then show ?thesis using upload_inv [OF assms, of e u body "fst jg" "snd jg" s'] run Inr by (simp add: UploadOp)
  qed
next
  case (ConfirmOp e user i body)
  then show ?thesis using confirm_rows [of e user i body s] by (intro same_rows_inv [OF assms]) simp_all
next
  case (ScanOp e signature body)
  obtain f where f: "\<And>d. kd_ref (f d) = kd_ref d \<and> kd_app (f d) = kd_app d"
    "ks_docs (snd (scanWebhook e signature body s)) = map f (ks_docs s)"
    using scan_rows [of e signature body s] by blast
  show ?thesis
    using scan_rows [of e signature body s] f by (intro same_rows_inv [OF assms]) (auto simp: ScanOp)
next
  case (StoreOp objects)
  then show ?thesis by (intro same_rows_inv [OF assms]) auto
qed

lemma kyc_run_inv: "ks_docs s = [] \<Longrightarrow> ks_apps s = [] \<Longrightarrow> kyc_inv ops (kyc_run ops s)"
proof (induction ops rule: rev_induct)
  case Nil
  then show ?case by (simp add: kyc_run_def kyc_inv_def open_apps_def)
next
  case (snoc op ops)
  then show ?case using kyc_step_inv [of ops "kyc_run ops s" op] by (simp add: kyc_run_def)
qed


lemma fold_ops_asked: "asked ops k \<Longrightarrow> list_all (\<lambda>op. case op of UploadOp e (Some v) b \<Rightarrow> safe_id v | _ \<Rightarrow> True) ops \<Longrightarrow>
    assertKeyOwnership k u = Inr () \<Longrightarrow> asked_by u ops k"
proof -
  assume "asked ops k" and safe: "list_all (\<lambda>op. case op of UploadOp e (Some v) b \<Rightarrow> safe_id v | _ \<Rightarrow> True) ops"
    and own: "assertKeyOwnership k u = Inr ()"
  then obtain e v body kind i where v: "UploadOp e (Some v) body \<in> set ops" "k = buildObjectKey v kind i"
    unfolding asked_def by blast
  then have "safe_id v" using safe by (force simp: list_all_iff)
  then have "v = u" using own v(2) by (simp add: key_owner safe_filter split: if_splits)
  with v show ?thesis unfolding asked_by_def by blast
qed

text \<open>
  C36. A user downloads only what the same user asked to upload: from empty tables, after any requests of users whose
  identifiers have no separators, and any changes of the object store, a download address that the server signs is for
  the object of a document of an application of the asking user, under a key issued to that user. Outside the modes of
  tests and development, where the code answers clean without reading the tag, the object carries the tag of a clean
  scan at that moment.
\<close>

theorem downloads_own_clean_uploads:
  assumes "ks_docs s = []" and "ks_apps s = []"
    and "list_all (\<lambda>op. case op of UploadOp e (Some v) b \<Rightarrow> safe_id v | _ \<Rightarrow> True) ops"
    and "requestDownloadUrl e (Some u) i (kyc_run ops s) = Inr g"
  shows "\<exists>c d bucket tags. kc_db_uuid e i = Some c \<and> find (\<lambda>d. kd_id d = c) (ks_docs (kyc_run ops s)) = Some d \<and>
      ka_user (ks_apps (kyc_run ops s) ! kd_app d) = u \<and> kd_app d < length (ks_apps (kyc_run ops s)) \<and>
      asked_by u ops (kd_ref d) \<and> kc_sign_get e bucket (kd_ref d) (kc_download_ttl e) = Some (dg_url g) \<and>
      map_of (ks_objects (kyc_run ops s)) (kd_ref d) = Some tags \<and>
      (kc_mode e \<notin> set [''test'', ''development''] \<longrightarrow> map_of tags ''scan-status'' = Some ''clean'')"
proof -
  let ?s = "kyc_run ops s"
  from assms(4) obtain d where d: "owned_doc e u i ?s = Inr d" and dl: "generateDownloadUrl e u (kd_ref d) ?s = Inr g"
    by (auto simp: requestDownloadUrl_def bindR_Inr_iff split: if_splits)
  from d obtain c where c: "kc_db_uuid e i = Some c"
    and f: "find (\<lambda>d. kd_id d = c) (ks_docs ?s) = Some d" "ka_user (ks_apps ?s ! kd_app d) = u"
    by (auto simp: owned_doc_def split: if_splits option.splits)
  have inv: "asked ops (kd_ref d)" "kd_app d < length (ks_apps ?s)"
    using kyc_run_inv [OF assms(1,2), of ops] find_SomeD [OF f(1)] by (auto simp: kyc_inv_def list_all_iff)
  from dl obtain st bucket where st: "assertKeyOwnership (kd_ref d) u = Inr ()" "getObjectScanStatus e (kd_ref d) ?s = Inr st"
    "st = ''clean''" "kc_sign_get e bucket (kd_ref d) (kc_download_ttl e) = Some (dg_url g)"
    by (auto simp: generateDownloadUrl_def bindR_Inr_iff assertScanAllowsDownload_def split: if_splits option.splits)
  from st(2,3) obtain tags where "map_of (ks_objects ?s) (kd_ref d) = Some tags"
    "kc_mode e \<notin> set [''test'', ''development''] \<longrightarrow> map_of tags ''scan-status'' = Some ''clean''"
    by (auto simp: getObjectScanStatus_def Let_def split: if_splits option.splits)
  moreover have "asked_by u ops (kd_ref d)" by (rule fold_ops_asked [OF inv(1) assms(3) st(1)])
  ultimately show ?thesis using c f inv(2) st(4) by blast
qed

lemma key_denied_stays: "surfaced key_denied = key_denied"
proof -
  have "\<not> str_includes ''Access denied: object does not belong to this user'' ''virus scan''"
    "\<not> str_includes ''Access denied: object does not belong to this user'' ''pending scan''"
    by code_simp+
  then show ?thesis by (simp add: surfaced_def key_denied_def)
qed

lemma access_denied_stays: "surfaced (AppErr ''Access denied'' 403) = AppErr ''Access denied'' 403"
proof -
  have "\<not> str_includes ''Access denied'' ''virus scan''" "\<not> str_includes ''Access denied'' ''pending scan''" by code_simp+
  then show ?thesis by (simp add: surfaced_def)
qed

text \<open>When the server grants a request for an upload: the body parses, its type of file suits its kind of document, and a bucket
  and signing are there; the user has an open application, or is known and may open one.\<close>

definition grantable :: "kyc_env \<Rightarrow> json \<Rightarrow> bool" where
  "grantable e body \<longleftrightarrow>
     (case body_of (requestUploadUrlSchema e) body of
        None \<Rightarrow> False
      | Some v \<Rightarrow>
          (case map_of ALLOWED_MIME_TYPES (str_field v ''document_kind'') of
             None \<Rightarrow> False | Some allowed \<Rightarrow> str_field v ''mime_type'' \<in> set allowed))
     \<and> is_ok (requireConfiguredS3Bucket (kc_bucket e)) \<and> (\<forall>c. kc_sign_put e c (kc_upload_ttl e) \<noteq> None)"

definition may_apply :: "kyc_env \<Rightarrow> string \<Rightarrow> kyc_db \<Rightarrow> bool" where
  "may_apply e u s \<longleftrightarrow> (\<exists>a \<in> set (ks_apps s). open_app u a) \<or>
     (case map_of (ks_users s) u of
        None \<Rightarrow> False
      | Some country \<Rightarrow>
          (let c = (case country of None \<Rightarrow> ''XX'' | Some c \<Rightarrow> c) in checkJurisdictionLicensing e c \<and> length c \<le> 3))"

lemma may_apply_gets:
  assumes "may_apply e u s"
  shows "\<exists>app s'. getOrCreateApplication e u s = (Inr app, s')"
proof (cases "find (\<lambda>i. open_app u (ks_apps s ! i)) [0..<length (ks_apps s)]")
  case None
  then have "\<not> (\<exists>a \<in> set (ks_apps s). open_app u a)" by (auto simp: find_None_iff in_set_conv_nth)
  with assms None show ?thesis
    by (auto simp: may_apply_def getOrCreateApplication_def Let_def split: option.splits)
qed (simp add: getOrCreateApplication_def)

lemma upload_granted:
  assumes "names_document e body i" and "grantable e body" and "may_apply e u s" and "u \<noteq> []"
  shows "\<exists>g s'. requestUploadUrl e (Some u) body s = (Inr (to_lower i, g), s')"
proof -
  from assms(1) obtain v where v: "body_of (requestUploadUrlSchema e) body = Some v" "jget v ''document_id'' = JStr i"
    by (auto simp: names_document_def)
  from assms(2) v(1) obtain allowed bucket where "map_of ALLOWED_MIME_TYPES (str_field v ''document_kind'') = Some allowed"
      "str_field v ''mime_type'' \<in> set allowed" "requireConfiguredS3Bucket (kc_bucket e) = Inr bucket"
      "\<forall>c. \<exists>url. kc_sign_put e c (kc_upload_ttl e) = Some url"
    by (cases "requireConfiguredS3Bucket (kc_bucket e)") (auto simp: grantable_def split: option.splits)
  then have "\<exists>g. generateUploadUrl e u (str_field v ''document_kind'') i (str_field v ''mime_type'') = Inr g"
    unfolding generateUploadUrl_def Let_def by (auto split: option.split)
  then obtain g where g: "generateUploadUrl e u (str_field v ''document_kind'') i (str_field v ''mime_type'') = Inr g" ..
  from may_apply_gets [OF assms(3)] obtain app s1 where "getOrCreateApplication e u s = (Inr app, s1)" by blast
  moreover have "str_field v ''document_id'' = i" using v(2) by (simp add: str_field_def)
  ultimately show ?thesis using v g assms(4) by (simp add: requestUploadUrl_def truthy_def Let_def)
qed

text \<open>
  C37. Any user can take the document of another away: a request for an upload that names the identifier of a document of
  another user, and that the server would grant for a new document, from a user (with an identifier without separators)
  who has an open application or is free to open one, is answered, and afterwards neither of them reaches the document, however they spell its identifier. For the owner
  both the confirmation and the download are refused, because the stored reference now points into the folder of the other user,
  and that user is no owner of the application.
\<close>

theorem named_document_is_taken_away:
  assumes "names_document e body i" and "grantable e body" and "may_apply e u s" and "u \<noteq> []"
    and "find (same_uuid i) (ks_docs s) = Some d" and "kd_app d < length (ks_apps s)"
    and "ka_user (ks_apps s ! kd_app d) = v" and "v \<noteq> u" and "v \<noteq> []" and "safe_id u"
    and "kc_db_uuid f k = Some (to_lower i)"
  shows "\<exists>g s'. requestUploadUrl e (Some u) body s = (Inr (to_lower i, g), s') \<and>
    requestDownloadUrl f (Some v) k s' = Inl key_denied \<and>
    fst (confirmUpload f (Some v) k b s') \<in> {Inl BadBody, Inl key_denied} \<and>
    requestDownloadUrl f (Some u) k s' = Inl (AppErr ''Access denied'' 403)"
proof -
  from upload_granted [OF assms(1-4)] obtain g s' where run: "requestUploadUrl e (Some u) body s = (Inr (to_lower i, g), s')"
    by blast
  from upload_effect [OF run] assms(1) obtain kind mime app s1 where up: "ug_key g = buildObjectKey u kind i"
    "getOrCreateApplication e u s = (Inr app, s1)" "s' = s1\<lparr>ks_docs := upsert_doc i app kind (ug_key g) mime (ks_docs s1)\<rparr>"
    by metis
  obtain as where s1: "ks_docs s1 = ks_docs s" "ks_apps s1 = ks_apps s @ as" using application_keeps [OF up(2)] by auto
  let ?d = "d\<lparr>kd_ref := ug_key g, kd_mime := mime\<rparr>"
  have "find (same_uuid i) (ks_docs s') = Some ?d" using assms(5) s1 by (simp add: up(3) find_upserted)
  then have found: "find (\<lambda>d. kd_id d = to_lower i) (ks_docs s') = Some ?d" by (simp add: same_uuid_def [abs_def])
  have owner: "ka_user (ks_apps s' ! kd_app ?d) = v" using assms(6,7) s1 by (simp add: up(3) nth_append)
  have v: "owned_doc f v k s' = Inr ?d" and u: "owned_doc f u k s' = Inl (AppErr ''Access denied'' 403)"
    using found owner assms(8,11) by (simp_all add: owned_doc_def)
  have denied: "assertKeyOwnership (kd_ref ?d) v = Inl key_denied"
    using assms(8,10) by (simp add: up(1) key_owner safe_filter)
  have "requestDownloadUrl f (Some v) k s' = Inl key_denied"
    using v denied assms(9) by (simp add: requestDownloadUrl_def generateDownloadUrl_def truthy_def key_denied_stays)
  moreover have "fst (confirmUpload f (Some v) k b s') \<in> {Inl BadBody, Inl key_denied}"
    using v denied assms(9) by (simp add: confirmUpload_def truthy_def split: option.splits)
  moreover have "requestDownloadUrl f (Some u) k s' = Inl (AppErr ''Access denied'' 403)"
    using u assms(4) by (simp add: requestDownloadUrl_def truthy_def access_denied_stays)
  ultimately show ?thesis using run by blast
qed

text \<open>A new upload under the same identifier keeps the verdict, the checksum and the kind of the file before it.\<close>

lemma new_upload_keeps_verdict:
  assumes "requestUploadUrl e (Some u) body s = (Inr (j, g), s')" and "names_document e body i"
    and "find (same_uuid i) (ks_docs s) = Some d"
  shows "\<exists>d'. find (same_uuid i) (ks_docs s') = Some d' \<and> kd_ref d' = ug_key g \<and> kd_scan d' = kd_scan d \<and>
    kd_checksum d' = kd_checksum d \<and> kd_kind d' = kd_kind d"
proof -
  from upload_effect [OF assms(1)] assms(2) obtain kind mime app s1 where up:
    "getOrCreateApplication e u s = (Inr app, s1)" "s' = s1\<lparr>ks_docs := upsert_doc i app kind (ug_key g) mime (ks_docs s1)\<rparr>"
    by metis
  then show ?thesis using application_keeps [OF up(1)] assms(3) by (simp add: find_upserted)
qed

text \<open>In production a result of the scanner changes nothing unless it is signed.\<close>

lemma unsigned_scan_changes_nothing:
  assumes "kc_mode e = ''production''" and "scanWebhook e signature body s = (r, s')" and "s' \<noteq> s"
  shows "kc_secret e \<noteq> [] \<and> hex_bytes (the signature) = hex_bytes (kc_hmac e (kc_secret e) (kc_stringify e body))"
  using assms
  by (auto simp: scanWebhook_def scan_guard_def bail_def throw_if_def split: sum.splits option.splits if_splits)

text \<open>The tag that names the owner is lost with the first result.\<close>

lemma scan_drops_owner_tag:
  "mark_object e value key s = (Inr (), s') \<Longrightarrow> map_of (ks_objects s') key = Some [(''scan-status'', value)]"
  by (auto simp: mark_object_def bail_Inr_iff split: if_splits)

section \<open>Rewards add up\<close>

fun create_rewards :: "nat \<Rightarrow> (string \<Rightarrow> bool) \<Rightarrow> int option \<Rightarrow> reward_request \<Rightarrow> reward_db \<Rightarrow> reward_db" where
  "create_rewards 0 uuid supply p s = s"
| "create_rewards (Suc n) uuid supply p s = create_rewards n uuid supply p (snd (createReward uuid supply p s))"

lemma reward_bounds:
  "validateRewardAmount t a = RewardValid \<longleftrightarrow> 0 < a \<and> a \<le> MAX_REWARD_ACBU * 10 ^ REWARD_DECIMALS \<and> 0 < t \<and> a \<le> t * 5 div 100"
  by (auto simp: validateRewardAmount_def MAX_REWARD_PCT_OF_MINTED_def)

lemma reward_accepted:
  assumes "createReward uuid (Some t) p s = (Inr r, s')"
  shows "validateRewardAmount t (digits_val 0 (rr_amount p)) = RewardValid \<and>
    s' = s\<lparr>rd_rows := rd_rows s @ [\<lparr>rw_validator = rr_validator p, rw_application = rr_application p,
      rw_amount = digits_val 0 (rr_amount p), rw_tx = rr_tx p, rw_status = ''pending''\<rparr>]\<rparr>"
  using assms by (auto simp: createReward_def createValidatorReward_def Let_def split: if_splits)

lemma reward_again:
  assumes "createReward uuid (Some t) p s = (Inr r, s')"
  shows "\<exists>r'. fst (createReward uuid (Some t) p s') = Inr r'"
  using assms by (auto simp: createReward_def createValidatorReward_def Let_def split: if_splits)

lemma rewards_rows:
  assumes "\<exists>r. fst (createReward uuid (Some t) p s) = Inr r"
  shows "sum_list (map rw_amount (rd_rows (create_rewards n uuid (Some t) p s))) =
    sum_list (map rw_amount (rd_rows s)) + int n * digits_val 0 (rr_amount p)"
  using assms
proof (induction n arbitrary: s)
  case (Suc n)
  then obtain r s' where run: "createReward uuid (Some t) p s = (Inr r, s')" by (metis prod.collapse)
  from Suc.IH [of s'] reward_again [OF run] reward_accepted [OF run] run show ?case by (simp add: algebra_simps)
qed simp

text \<open>
  The share of the supply bounds one reward, not the rewards: a reward that is created is at most a thousand units and at
  most five percent of the supply that was read, but the same request, for the same validator and application, is accepted
  again any number of times, so that the recorded rewards exceed every amount, the whole supply included.
\<close>

theorem rewards_exceed_supply:
  assumes "createReward uuid (Some t) p s = (Inr r, s')" and "list_all (\<lambda>w. 0 \<le> rw_amount w) (rd_rows s)"
  shows "digits_val 0 (rr_amount p) \<le> t * 5 div 100 \<and> digits_val 0 (rr_amount p) \<le> 10000000000 \<and>
    (\<exists>n. limit < sum_list (map rw_amount (rd_rows (create_rewards n uuid (Some t) p s))))"
proof -
  have ok: "0 < digits_val 0 (rr_amount p)" "digits_val 0 (rr_amount p) \<le> MAX_REWARD_ACBU * 10 ^ REWARD_DECIMALS"
    "digits_val 0 (rr_amount p) \<le> t * 5 div 100"
    using reward_accepted [OF assms(1)] by (auto simp: reward_bounds)
  have "0 \<le> sum_list (map rw_amount (rd_rows s))" using assms(2) by (intro sum_list_nonneg) (auto simp: list_all_iff)
  moreover have "limit < int (nat limit + 1) * digits_val 0 (rr_amount p)"
  proof -
    have "int (nat limit + 1) * 1 \<le> int (nat limit + 1) * digits_val 0 (rr_amount p)" using ok(1) by (intro mult_left_mono) simp_all
    moreover have "limit < int (nat limit + 1) * 1" by simp
    ultimately show ?thesis by (rule less_le_trans [rotated])
  qed
  ultimately have "limit < sum_list (map rw_amount (rd_rows (create_rewards (nat limit + 1) uuid (Some t) p s)))"
    using rewards_rows [of uuid t p s "nat limit + 1"] assms(1) by simp
  then have "\<exists>n. limit < sum_list (map rw_amount (rd_rows (create_rewards n uuid (Some t) p s)))" by blast
  moreover have "digits_val 0 (rr_amount p) \<le> 10000000000" using ok(2) by (simp add: MAX_REWARD_ACBU_def REWARD_DECIMALS_def)
  ultimately show ?thesis using ok(3) by blast
qed

section \<open>Concrete inputs\<close>

definition sample_kyc :: kyc_env where
  "sample_kyc = \<lparr>kc_now = 1700000000, kc_now_iso = ''now'', kc_mode = ''production'', kc_bucket = Some ''docs'',
     kc_upload_ttl = 900, kc_download_ttl = 300, kc_model = ''partner'', kc_licensed = [], kc_enforce = True,
     kc_secret = ''s'', kc_hmac = (\<lambda>k m. ''00''), kc_stringify = (\<lambda>j. []), kc_sha256 = (\<lambda>k. k), kc_uuid = (\<lambda>i. i \<noteq> []),
     kc_db_uuid = (\<lambda>i. if i = [] then None else Some (to_lower i)),
     kc_new_id = ''d9'', kc_uri_component = (\<lambda>u. u), kc_sign_put = (\<lambda>c ttl. Some (''put:'' @ pc_key c)),
     kc_sign_get = (\<lambda>b k ttl. Some (''get:'' @ k)), kc_store_reads = True, kc_store_writes = True\<rparr>"

definition two_users :: kyc_db where
  "two_users = \<lparr>ks_users = [(''ann'', Some ''KE''), (''bob'', None)], ks_apps = [], ks_docs = [], ks_objects = []\<rparr>"

definition selfie_body :: "string \<Rightarrow> json" where
  "selfie_body i =
     JObj [(''document_kind'', JStr ''selfie''), (''mime_type'', JStr ''image/png''), (''document_id'', JStr i)]"

lemma selfie_parses: "i \<noteq> [] \<Longrightarrow> body_of (requestUploadUrlSchema sample_kyc) (selfie_body i) = Some (selfie_body i)"
  by (simp add: body_of_def requestUploadUrlSchema_def selfie_body_def z_enum_def ALLOWED_MIME_TYPES_def sample_kyc_def Let_def)

lemma selfie_fields: "str_field (selfie_body i) ''document_kind'' = ''selfie''" "str_field (selfie_body i) ''mime_type'' = ''image/png''"
  "jget (selfie_body i) ''document_id'' = JStr i" "str_field (selfie_body i) ''document_id'' = i"
  by (simp_all add: str_field_def jget_def selfie_body_def)

definition selfie_key :: "string \<Rightarrow> string" where
  "selfie_key u = buildObjectKey u ''selfie'' ''d1''"

lemma selfie_granted:
  "\<exists>g. generateUploadUrl sample_kyc u ''selfie'' ''d1'' ''image/png'' = Inr g \<and> ug_key g = selfie_key u"
  by (simp add: generateUploadUrl_def ALLOWED_MIME_TYPES_def requireConfiguredS3Bucket_def sample_kyc_def put_for_def selfie_key_def
      trim_def trim_start_def trim_end_def js_space_def Let_def)

definition ann_row :: kyc_doc where
  "ann_row = \<lparr>kd_id = ''d1'', kd_app = 0, kd_kind = ''selfie'', kd_ref = selfie_key ''ann'', kd_mime = ''image/png'',
     kd_checksum = None, kd_size = None, kd_scan = ''pending''\<rparr>"

definition ann_uploaded :: kyc_db where
  "ann_uploaded = two_users\<lparr>ks_apps := [\<lparr>ka_user = ''ann'', ka_country = ''KE'', ka_status = ''pending''\<rparr>], ks_docs := [ann_row]\<rparr>"

lemma d1_lower: "to_lower ''d1'' = ''d1''"
  by (simp add: to_lower_def lower_char_def Let_def)

lemma ann_uploads: "\<exists>g. requestUploadUrl sample_kyc (Some ''ann'') (selfie_body ''d1'') two_users = (Inr (''d1'', g), ann_uploaded)"
proof -
  obtain g where g: "generateUploadUrl sample_kyc ''ann'' ''selfie'' ''d1'' ''image/png'' = Inr g" "ug_key g = selfie_key ''ann''"
    using selfie_granted by blast
  have "getOrCreateApplication sample_kyc ''ann'' two_users =
      (Inr 0, two_users\<lparr>ks_apps := [\<lparr>ka_user = ''ann'', ka_country = ''KE'', ka_status = ''pending''\<rparr>]\<rparr>)"
    by (simp add: getOrCreateApplication_def two_users_def checkJurisdictionLicensing_def sample_kyc_def Let_def)
  then show ?thesis
    using g by (simp add: requestUploadUrl_def truthy_def selfie_parses selfie_fields Let_def ann_uploaded_def two_users_def
        upsert_doc_def ann_row_def d1_lower)
qed

theorem named_document_is_taken_away_witness:
  "\<exists>g s. requestUploadUrl sample_kyc (Some ''bob'') (selfie_body ''d1'') ann_uploaded = (Inr (''d1'', g), s) \<and>
     requestDownloadUrl sample_kyc (Some ''ann'') ''d1'' s = Inl key_denied"
proof -
  have "names_document sample_kyc (selfie_body ''d1'') ''d1''" by (simp add: names_document_def selfie_parses selfie_fields)
  moreover have "grantable sample_kyc (selfie_body ''d1'')"
    by (simp add: grantable_def selfie_parses selfie_fields ALLOWED_MIME_TYPES_def Let_def)
       (simp add: requireConfiguredS3Bucket_def sample_kyc_def is_ok_def trim_def trim_start_def trim_end_def js_space_def Let_def)
  moreover have "may_apply sample_kyc ''bob'' ann_uploaded"
    by (simp add: may_apply_def ann_uploaded_def two_users_def checkJurisdictionLicensing_def sample_kyc_def Let_def)
  moreover have "find (same_uuid ''d1'') (ks_docs ann_uploaded) = Some ann_row"
    by (simp add: ann_uploaded_def same_uuid_def ann_row_def d1_lower)
  moreover have "safe_id ''bob''" by code_simp
  moreover have "kd_app ann_row < length (ks_apps ann_uploaded)" "ka_user (ks_apps ann_uploaded ! kd_app ann_row) = ''ann''"
    by (simp_all add: ann_uploaded_def ann_row_def)
  moreover have "kc_db_uuid sample_kyc ''d1'' = Some (to_lower ''d1'')" by (simp add: sample_kyc_def)
  ultimately show ?thesis
    using named_document_is_taken_away [of sample_kyc "selfie_body ''d1''" "''d1''" "''bob''" ann_uploaded ann_row "''ann''" sample_kyc "''d1''" JNull]
    by (auto simp: d1_lower)
qed

definition scanned :: kyc_op where
  "scanned = StoreOp [(selfie_key ''ann'', [(''scan-status'', ''clean'')])]"

theorem downloads_own_clean_uploads_witness:
  "\<exists>g. requestDownloadUrl sample_kyc (Some ''ann'') ''d1''
         (kyc_run [UploadOp sample_kyc (Some ''ann'') (selfie_body ''d1''), scanned] two_users) = Inr g \<and>
       asked_by ''ann'' [UploadOp sample_kyc (Some ''ann'') (selfie_body ''d1''), scanned] (selfie_key ''ann'')"
proof -
  let ?ops = "[UploadOp sample_kyc (Some ''ann'') (selfie_body ''d1''), scanned]"
  have s: "kyc_run ?ops two_users = ann_uploaded\<lparr>ks_objects := [(selfie_key ''ann'', [(''scan-status'', ''clean'')])]\<rparr>"
    using ann_uploads by (auto simp: kyc_run_def scanned_def)
  have safe: "safe_id ''ann''" by code_simp
  have "assertKeyOwnership (selfie_key ''ann'') ''ann'' = Inr ()"
    unfolding selfie_key_def key_owner safe_filter [OF safe] by (rule if_P [OF refl])
  then have "\<exists>g. requestDownloadUrl sample_kyc (Some ''ann'') ''d1'' (kyc_run ?ops two_users) = Inr g"
    unfolding s
    by (simp add: requestDownloadUrl_def truthy_def owned_doc_def ann_uploaded_def same_uuid_def ann_row_def d1_lower sample_kyc_def
        generateDownloadUrl_def getObjectScanStatus_def requireConfiguredS3Bucket_def assertScanAllowsDownload_def is_ok_def
        trim_def trim_start_def trim_end_def js_space_def Let_def)
  then obtain g where g: "requestDownloadUrl sample_kyc (Some ''ann'') ''d1'' (kyc_run ?ops two_users) = Inr g" by blast
  have "list_all (\<lambda>op. case op of UploadOp e (Some v) b \<Rightarrow> safe_id v | _ \<Rightarrow> True) ?ops" using safe by (simp add: scanned_def)
  from downloads_own_clean_uploads [OF _ _ this g] have "\<exists>c d. kc_db_uuid sample_kyc ''d1'' = Some c \<and>
      find (\<lambda>d. kd_id d = c) (ks_docs (kyc_run ?ops two_users)) = Some d \<and> asked_by ''ann'' ?ops (kd_ref d)"
    by (auto simp: two_users_def)
  then have "asked_by ''ann'' ?ops (selfie_key ''ann'')"
    unfolding s by (auto simp: ann_uploaded_def ann_row_def d1_lower sample_kyc_def)
  with g show ?thesis by blast
qed

definition reward_tables :: reward_db where
  "reward_tables = \<lparr>rd_validators = [''v''], rd_applications = [''a''], rd_rows = []\<rparr>"

definition sample_reward :: reward_request where
  "sample_reward = \<lparr>rr_validator = ''v'', rr_application = ''a'', rr_amount = ''50'', rr_tx = None\<rparr>"

theorem rewards_exceed_supply_witness:
  "\<exists>n. 1000 < sum_list (map rw_amount (rd_rows (create_rewards n (\<lambda>i. True) (Some 1000) sample_reward reward_tables)))"
proof -
  have "positive_digits ''50''" "digits_val 0 ''50'' = 50" by code_simp+
  then have "\<exists>r s'. createReward (\<lambda>i. True) (Some 1000) sample_reward reward_tables = (Inr r, s')"
    by (simp add: createReward_def createValidatorReward_def sample_reward_def reward_tables_def validateRewardAmount_def
        MAX_REWARD_ACBU_def REWARD_DECIMALS_def MAX_REWARD_PCT_OF_MINTED_def Let_def)
  then obtain r s' where "createReward (\<lambda>i. True) (Some 1000) sample_reward reward_tables = (Inr r, s')" by blast
  from rewards_exceed_supply [OF this, of 1000] show ?thesis by (simp add: reward_tables_def)
qed

end
