(* ===== verification/Devices.thy ===== *)
theory Devices
  imports ApiKeys Messages
begin

text \<open>
  Trusted devices and the audit of account recovery: \<open>src/services/recovery/deviceVerification.ts\<close> and
  \<open>auditService.ts\<close> of the same directory, and the steps of \<open>recoveryService.ts\<close> that call them. The digest and the printing
  of JSON are parameters, and so is the failure of a write that the code swallows. The audit rows are those this service
  writes, in their order.
\<close>

section \<open>Devices\<close>

record device_print =
  dp_agent :: string
  dp_ip :: string
  dp_language :: "string option"
  dp_encoding :: "string option"
  dp_platform :: "string option"

record device_row =
  dv_id :: nat
  dv_user :: string
  dv_print :: string
  dv_agent :: string
  dv_ip :: string
  dv_trusted :: bool
  dv_attempts :: int
  dv_trusted_at :: "int option"
  dv_seen :: int

record recovery_audit_row =
  ra_event :: string
  ra_user :: string
  ra_action :: string
  ra_identifier :: "string option"
  ra_ip :: "string option"
  ra_agent :: "string option"
  ra_device :: "string option"
  ra_details :: "json option"
  ra_risk :: string
  ra_time :: int

record device_state =
  ds_devices :: "device_row list"
  ds_next :: nat
  ds_audits :: "recovery_audit_row list"
  ds_keys :: "api_key_row list"

record device_env =
  de_now :: int
  de_sha256 :: "string \<Rightarrow> string"
  de_stringify :: "json \<Rightarrow> string"
  de_audit_fails :: bool
  de_keys_fail :: bool

datatype device_error = DeviceColumnTooLong | DeviceMissing

definition optional_field :: "string \<Rightarrow> string option \<Rightarrow> (string \<times> json) list" where
  "optional_field k v = (case v of None \<Rightarrow> [] | Some s \<Rightarrow> [(k, JStr s)])"

definition generateDeviceFingerprint :: "device_env \<Rightarrow> device_print \<Rightarrow> string" where
  "generateDeviceFingerprint e p =
     de_sha256 e (de_stringify e (JObj
       ([(''userAgent'', JStr (dp_agent p))] @ optional_field ''acceptLanguage'' (dp_language p)
        @ optional_field ''acceptEncoding'' (dp_encoding p) @ optional_field ''platform'' (dp_platform p)
        @ [(''ipHash'', if dp_ip p = [] then JNull else JStr (de_sha256 e (dp_ip p)))])))"

definition is_device :: "string \<Rightarrow> string \<Rightarrow> device_row \<Rightarrow> bool" where
  "is_device userId fp d \<longleftrightarrow> dv_user d = userId \<and> dv_print d = fp"

definition update_device :: "(device_row \<Rightarrow> bool) \<Rightarrow> (device_row \<Rightarrow> device_row) \<Rightarrow> device_state \<Rightarrow> device_state" where
  "update_device P f s = s\<lparr>ds_devices := map (\<lambda>d. if P d then f d else d) (ds_devices s)\<rparr>"

definition seen_now :: "device_env \<Rightarrow> device_print \<Rightarrow> device_row \<Rightarrow> device_row" where
  "seen_now e p d = d\<lparr>dv_seen := de_now e, dv_ip := dp_ip p\<rparr>"

definition new_device :: "device_env \<Rightarrow> string \<Rightarrow> device_print \<Rightarrow> nat \<Rightarrow> device_row" where
  "new_device e userId p i =
     \<lparr>dv_id = i, dv_user = userId, dv_print = generateDeviceFingerprint e p, dv_agent = dp_agent p, dv_ip = dp_ip p,
      dv_trusted = False, dv_attempts = 1, dv_trusted_at = None, dv_seen = de_now e\<rparr>"

text \<open>The answer: the row, whether it is trusted; it requires verification where it is not.\<close>

definition verifyDevice ::
  "device_env \<Rightarrow> string \<Rightarrow> device_print \<Rightarrow> device_state \<Rightarrow> (device_error + (nat \<times> bool)) \<times> device_state" where
  "verifyDevice e userId p s =
     (let fp = generateDeviceFingerprint e p in
      if 45 < length (dp_ip p) then (Inl DeviceColumnTooLong, s)
      else
        (case find (is_device userId fp) (ds_devices s) of
           Some d \<Rightarrow>
             if dv_trusted d then (Inr (dv_id d, True), update_device (is_device userId fp) (seen_now e p) s)
             else
               (Inr (dv_id d, False),
                update_device (is_device userId fp) (\<lambda>d. (seen_now e p d)\<lparr>dv_attempts := dv_attempts d + 1\<rparr>) s)
         | None \<Rightarrow>
             if 512 < length (dp_agent p) \<or> 64 < length fp then (Inl DeviceColumnTooLong, s)
             else
               (Inr (ds_next s, False),
                s\<lparr>ds_devices := ds_devices s @ [new_device e userId p (ds_next s)], ds_next := Suc (ds_next s)\<rparr>)))"

definition trustDevice :: "device_env \<Rightarrow> nat \<Rightarrow> device_state \<Rightarrow> (device_error + unit) \<times> device_state" where
  "trustDevice e i s =
     (if find (\<lambda>d. dv_id d = i) (ds_devices s) = None then (Inl DeviceMissing, s)
      else (Inr (), update_device (\<lambda>d. dv_id d = i) (\<lambda>d. d\<lparr>dv_trusted := True, dv_trusted_at := Some (de_now e)\<rparr>) s))"

definition hour_ms :: int where "hour_ms = 60 * 60 * 1000"

definition isDeviceRateLimited :: "device_env \<Rightarrow> string \<Rightarrow> device_print \<Rightarrow> device_state \<Rightarrow> bool" where
  "isDeviceRateLimited e userId p s =
     (let fp = generateDeviceFingerprint e p in
      if find (is_device userId fp) (ds_devices s) = None then False
      else
        0 < length (filter (\<lambda>d. is_device userId fp d \<and> 5 < dv_attempts d \<and> de_now e - hour_ms \<le> dv_seen d) (ds_devices s)))"

definition cleanupOldDevices :: "device_env \<Rightarrow> device_state \<Rightarrow> device_state" where
  "cleanupOldDevices e s =
     s\<lparr>ds_devices := filter (\<lambda>d. \<not> (dv_seen d < de_now e - 30 * 24 * hour_ms \<and> \<not> dv_trusted d)) (ds_devices s)\<rparr>"

section \<open>Audit\<close>

datatype recovery_event = RecoveryInitiated | RecoveryCompleted | RecoveryFailed | DeviceTrusted | SessionRotated

fun event_name :: "recovery_event \<Rightarrow> string" where
  "event_name RecoveryInitiated = ''recovery_initiated''"
| "event_name RecoveryCompleted = ''recovery_completed''"
| "event_name RecoveryFailed = ''recovery_failed''"
| "event_name DeviceTrusted = ''device_trusted''"
| "event_name SessionRotated = ''session_rotated''"

record audit_event =
  ae_type :: recovery_event
  ae_user :: string
  ae_identifier :: "string option"
  ae_ip :: "string option"
  ae_agent :: "string option"
  ae_device :: "string option"
  ae_details :: "json option"
  ae_risk :: string

definition masked_identifier :: "string option \<Rightarrow> string option" where
  "masked_identifier i =
     (if \<not> truthy i then None
      else if CHR ''@'' \<in> set (the i) then Some ''***@***'' else Some (take 6 (the i) @ ''***''))"

definition auditRecoveryEvent :: "device_env \<Rightarrow> audit_event \<Rightarrow> device_state \<Rightarrow> device_state" where
  "auditRecoveryEvent e ev s =
     (if de_audit_fails e then s
      else s\<lparr>ds_audits := ds_audits s @
        [\<lparr>ra_event = ''recovery_'' @ event_name (ae_type ev), ra_user = ae_user ev, ra_action = event_name (ae_type ev),
          ra_identifier = masked_identifier (ae_identifier ev), ra_ip = ae_ip ev, ra_agent = ae_agent ev,
          ra_device = ae_device ev, ra_details = ae_details ev, ra_risk = ae_risk ev, ra_time = de_now e\<rparr>]\<rparr>)"

definition getUserRecoveryAuditHistory :: "string \<Rightarrow> nat \<Rightarrow> device_state \<Rightarrow> recovery_audit_row list" where
  "getUserRecoveryAuditHistory userId limit s =
     take limit (rev (filter (\<lambda>r. ra_user r = userId \<and> starts_with (ra_event r) ''recovery_'') (ds_audits s)))"

definition distinct_count :: "string option list \<Rightarrow> nat" where
  "distinct_count vs = length (remdups (filter truthy vs))"

definition detectSuspiciousPatterns :: "device_env \<Rightarrow> string \<Rightarrow> device_state \<Rightarrow> string list" where
  "detectSuspiciousPatterns e userId s =
     (let since = (\<lambda>t. filter (\<lambda>r. ra_user r = userId \<and> t \<le> ra_time r) (ds_audits s));
          last24h = since (de_now e - 24 * hour_ms); last1h = since (de_now e - hour_ms);
          recentAttempts = length (filter (\<lambda>r. ra_event r = ''recovery_initiated'') last24h) in
      (if 5 < recentAttempts then [''High number of recovery attempts in 24 hours''] else []) @
      (if 3 < distinct_count (map ra_device last24h) then [''Multiple devices used for recovery''] else []) @
      (if 2 < distinct_count (map ra_ip last1h) then [''Multiple IP addresses used for recovery''] else []))"

definition rotateUserSessions :: "device_env \<Rightarrow> string \<Rightarrow> device_state \<Rightarrow> device_state" where
  "rotateUserSessions e userId s =
     (if de_keys_fail e then s
      else
        auditRecoveryEvent e
          \<lparr>ae_type = SessionRotated, ae_user = userId, ae_identifier = None, ae_ip = None, ae_agent = None, ae_device = None,
           ae_details = Some (JObj [(''allApiKeysRevoked'', JBool True)]), ae_risk = ''medium''\<rparr>
          (s\<lparr>ds_keys := map (\<lambda>k. if ak_user k = Some userId \<and> ak_revoked k = None then k\<lparr>ak_revoked := Some (de_now e)\<rparr> else k)
             (ds_keys s)\<rparr>))"

section \<open>The steps of a recovery\<close>

datatype unlock_outcome = DeviceRefused | WrongPasscode | DeviceError device_error | DeviceKnown nat bool string

text \<open>The first step: the device limit, the passcode, the device, the patterns and the risk they give.\<close>

definition unlock_device ::
  "device_env \<Rightarrow> string \<Rightarrow> device_print \<Rightarrow> bool \<Rightarrow> device_state \<Rightarrow> unlock_outcome \<times> device_state" where
  "unlock_device e userId p match s =
     (if isDeviceRateLimited e userId p s then (DeviceRefused, s)
      else if \<not> match then (WrongPasscode, s)
      else
        (case verifyDevice e userId p s of
           (Inl err, s') \<Rightarrow> (DeviceError err, s')
         | (Inr (i, trusted), s') \<Rightarrow>
             (DeviceKnown i trusted (if detectSuspiciousPatterns e userId s' \<noteq> [] then ''high'' else ''medium''), s')))"

text \<open>The end of a recovery: the sessions are rotated and, where the user asks for it, the device is trusted.\<close>

definition trust_after_recovery ::
  "device_env \<Rightarrow> string \<Rightarrow> device_print \<Rightarrow> device_state \<Rightarrow> (device_error + unit) \<times> device_state" where
  "trust_after_recovery e userId p s =
     (case verifyDevice e userId p s of
        (Inl err, s') \<Rightarrow> (Inl err, s')
      | (Inr (i, True), s') \<Rightarrow> (Inr (), s')
      | (Inr (i, False), s') \<Rightarrow>
          (case trustDevice e i s' of
             (Inl err, s'') \<Rightarrow> (Inl err, s'')
           | (Inr u, s'') \<Rightarrow>
               (Inr (),
                auditRecoveryEvent e
                  \<lparr>ae_type = DeviceTrusted, ae_user = userId, ae_identifier = None, ae_ip = Some (dp_ip p),
                   ae_agent = Some (dp_agent p), ae_device = Some (int_str (int i)),
                   ae_details = Some (JObj [(''deviceTrusted'', JBool True)]), ae_risk = ''low''\<rparr> s'')))"

section \<open>What the limits see\<close>

text \<open>Everything the service does, in any order.\<close>

datatype device_op =
    UnlockOp device_env string device_print bool
  | TrustOp device_env string device_print
  | AuditOp device_env audit_event
  | RotateOp device_env string
  | CleanupOp device_env

fun device_exec :: "device_op \<Rightarrow> device_state \<Rightarrow> device_state" where
  "device_exec (UnlockOp e u p m) s = snd (unlock_device e u p m s)"
| "device_exec (TrustOp e u p) s = snd (trust_after_recovery e u p s)"
| "device_exec (AuditOp e ev) s = auditRecoveryEvent e ev s"
| "device_exec (RotateOp e u) s = rotateUserSessions e u s"
| "device_exec (CleanupOp e) s = cleanupOldDevices e s"

definition device_run :: "device_op list \<Rightarrow> device_state \<Rightarrow> device_state" where
  "device_run ops s = fold device_exec ops s"

definition prefixed_rows :: "device_state \<Rightarrow> bool" where
  "prefixed_rows s \<longleftrightarrow> list_all (\<lambda>r. ra_event r \<noteq> ''recovery_initiated'') (ds_audits s)"

lemma update_keeps: "ds_audits (update_device P f s) = ds_audits s" "ds_keys (update_device P f s) = ds_keys s"
  "ds_next (update_device P f s) = ds_next s" "ds_devices (update_device P f s) = map (\<lambda>d. if P d then f d else d) (ds_devices s)"
  by (simp_all add: update_device_def)

lemma verify_audits: "verifyDevice e u p s = (r, s') \<Longrightarrow> ds_audits s' = ds_audits s \<and> ds_keys s' = ds_keys s"
  by (auto simp: verifyDevice_def Let_def update_keeps split: if_splits option.splits)

lemma trust_audits: "trustDevice e i s = (r, s') \<Longrightarrow> ds_audits s' = ds_audits s \<and> ds_keys s' = ds_keys s"
  by (auto simp: trustDevice_def update_keeps split: if_splits)

lemma unlock_audits: "ds_audits (snd (unlock_device e u p m s)) = ds_audits s"
  by (auto simp: unlock_device_def dest: verify_audits split: prod.splits sum.splits)

lemma audit_prefixed: "prefixed_rows s \<Longrightarrow> prefixed_rows (auditRecoveryEvent e ev s)"
  by (cases "ae_type ev") (simp_all add: auditRecoveryEvent_def prefixed_rows_def)

lemma trust_step_prefixed: "prefixed_rows s \<Longrightarrow> prefixed_rows (snd (trust_after_recovery e u p s))"
proof -
  assume ok: "prefixed_rows s"
  obtain r s1 where v: "verifyDevice e u p s = (r, s1)" by force
  have s1: "prefixed_rows s1" using verify_audits [OF v] ok by (simp add: prefixed_rows_def)
  have s2: "prefixed_rows s2" if "trustDevice e j s1 = (q, s2)" for j q s2
    using trust_audits [OF that] s1 by (simp add: prefixed_rows_def)
  show ?thesis
    using v s1 s2
    by (auto simp: trust_after_recovery_def intro!: audit_prefixed split: prod.splits sum.splits bool.splits)
qed

lemma device_step_prefixed: "prefixed_rows s \<Longrightarrow> prefixed_rows (device_exec op s)"
proof (cases op)
  case (UnlockOp e u p m)
  assume "prefixed_rows s"
  then show ?thesis by (simp add: UnlockOp prefixed_rows_def unlock_audits)
next
  case (RotateOp e u)
  assume ok: "prefixed_rows s"
  show ?thesis
  proof (cases "de_keys_fail e")
    case False
    have "prefixed_rows (s\<lparr>ds_keys := ks\<rparr>)" for ks using ok by (simp add: prefixed_rows_def)
    then show ?thesis using False by (simp add: RotateOp rotateUserSessions_def audit_prefixed)
  qed (use ok in \<open>simp add: RotateOp rotateUserSessions_def\<close>)
qed (simp_all add: audit_prefixed trust_step_prefixed, simp add: cleanupOldDevices_def prefixed_rows_def)

lemma device_run_prefixed: "prefixed_rows s \<Longrightarrow> prefixed_rows (device_run ops s)"
  by (induction ops arbitrary: s) (simp_all add: device_run_def device_step_prefixed)

lemma no_recent_attempts:
  "prefixed_rows s \<Longrightarrow> ''High number of recovery attempts in 24 hours'' \<notin> set (detectSuspiciousPatterns e u s)"
proof -
  assume "prefixed_rows s"
  then have none: "filter (\<lambda>r. ra_event r = ''recovery_initiated'') (filter P (ds_audits s)) = []" for P
    by (auto simp: prefixed_rows_def list_all_iff filter_empty_conv)
  show ?thesis unfolding detectSuspiciousPatterns_def Let_def none by simp
qed

text \<open>
  The alarm for repeated recovery attempts cannot ring: the events are stored under names with a second prefix, so
  whatever the service does, from an empty trail, no stored row is one that the check of the last day counts, and the
  pattern is never reported however many recoveries were begun.
\<close>

theorem attempt_alarm_never_rings:
  assumes "ds_audits s = []"
  shows "''High number of recovery attempts in 24 hours'' \<notin> set (detectSuspiciousPatterns e u (device_run ops s))"
  using assms by (intro no_recent_attempts device_run_prefixed) (simp add: prefixed_rows_def)

text \<open>Tries with a wrong passcode.\<close>

fun wrong_passcodes :: "(device_env \<times> device_print) list \<Rightarrow> string \<Rightarrow> device_state \<Rightarrow> unlock_outcome list \<times> device_state" where
  "wrong_passcodes [] u s = ([], s)"
| "wrong_passcodes ((e, p) # tries) u s =
     (case unlock_device e u p False s of (r, s') \<Rightarrow> (case wrong_passcodes tries u s' of (rs, s'') \<Rightarrow> (r # rs, s'')))"

text \<open>
  The device limit does not see wrong passcodes: a device is recorded only after a right passcode, so any number of wrong
  ones from one device, at any times, leaves the tables as they are and never meets the limit; every one of them is compared.
\<close>

theorem device_limit_ignores_wrong_passcodes:
  assumes "list_all (\<lambda>(e, p). find (is_device u (generateDeviceFingerprint e p)) (ds_devices s) = None) tries"
  shows "wrong_passcodes tries u s = (replicate (length tries) WrongPasscode, s)"
  using assms by (induction tries) (auto simp: unlock_device_def isDeviceRateLimited_def)

section \<open>The table of devices\<close>

text \<open>One row per user and fingerprint, and identifiers that are not used again.\<close>

definition devices_ok :: "device_state \<Rightarrow> bool" where
  "devices_ok s \<longleftrightarrow>
     distinct (map (\<lambda>d. (dv_user d, dv_print d)) (ds_devices s)) \<and> distinct (map dv_id (ds_devices s)) \<and>
     list_all (\<lambda>d. dv_id d < ds_next s) (ds_devices s)"

lemma map_update_keys:
  "(\<And>d. g (f d) = g d) \<Longrightarrow> map g (map (\<lambda>d. if P d then f d else d) ds) = map g ds"
  by (induction ds) auto

lemma update_ok:
  assumes "devices_ok s" and "\<And>d. dv_user (f d) = dv_user d \<and> dv_print (f d) = dv_print d \<and> dv_id (f d) = dv_id d"
  shows "devices_ok (update_device P f s)"
proof -
  have a: "map (\<lambda>d. (dv_user d, dv_print d)) (ds_devices (update_device P f s)) = map (\<lambda>d. (dv_user d, dv_print d)) (ds_devices s)"
    unfolding update_keeps by (rule map_update_keys) (simp add: assms(2))
  have b: "map dv_id (ds_devices (update_device P f s)) = map dv_id (ds_devices s)"
    unfolding update_keeps by (rule map_update_keys) (simp add: assms(2))
  have "list_all (\<lambda>i. i < ds_next s) (map dv_id (ds_devices s))" using assms(1) by (simp add: devices_ok_def list_all_iff)
  then have "list_all (\<lambda>d. dv_id d < ds_next s) (ds_devices (update_device P f s))"
    unfolding b [symmetric] by (simp add: list_all_iff)
  then show ?thesis using assms(1) unfolding devices_ok_def a b by (simp add: update_keeps)
qed

lemma verify_ok: "devices_ok s \<Longrightarrow> verifyDevice e u p s = (r, s') \<Longrightarrow> devices_ok s'"
proof -
  assume ok: "devices_ok s" and run: "verifyDevice e u p s = (r, s')"
  let ?fp = "generateDeviceFingerprint e p"
  show "devices_ok s'"
  proof (cases "45 < length (dp_ip p)")
    case True
    then show ?thesis using ok run by (simp add: verifyDevice_def Let_def)
  next
    case False
    show ?thesis
    proof (cases "find (is_device u ?fp) (ds_devices s)")
      case (Some d)
      then show ?thesis
        using run False ok by (auto simp: verifyDevice_def Let_def seen_now_def intro!: update_ok split: if_splits)
    next
      case None
      then have "(u, ?fp) \<notin> set (map (\<lambda>d. (dv_user d, dv_print d)) (ds_devices s))"
        by (auto simp: find_None_iff is_device_def)
      moreover have "ds_next s \<notin> set (map dv_id (ds_devices s))" using ok by (auto simp: devices_ok_def list_all_iff)
      ultimately show ?thesis
        using run False None ok by (auto simp: verifyDevice_def Let_def devices_ok_def new_device_def list_all_iff less_Suc_eq split: if_splits)
    qed
  qed
qed

lemma trust_ok: "devices_ok s \<Longrightarrow> trustDevice e i s = (r, s') \<Longrightarrow> devices_ok s'"
  by (auto simp: trustDevice_def intro!: update_ok split: if_splits)

lemma audit_devices: "ds_devices (auditRecoveryEvent e ev s) = ds_devices s" "ds_next (auditRecoveryEvent e ev s) = ds_next s"
  by (simp_all add: auditRecoveryEvent_def)

lemma audit_ok: "devices_ok s \<Longrightarrow> devices_ok (auditRecoveryEvent e ev s)"
  by (simp add: devices_ok_def audit_devices)

lemma device_step_ok: "devices_ok s \<Longrightarrow> devices_ok (device_exec op s)"
proof (cases op)
  case (UnlockOp e u p m)
  assume "devices_ok s"
  then show ?thesis by (auto simp: UnlockOp unlock_device_def dest: verify_ok split: prod.splits sum.splits)
next
  case (TrustOp e u p)
  assume "devices_ok s"
  then show ?thesis
    by (auto simp: TrustOp trust_after_recovery_def intro!: audit_ok dest: verify_ok trust_ok split: prod.splits sum.splits bool.splits)
next
  case (RotateOp e u)
  assume "devices_ok s"
  then show ?thesis by (simp add: RotateOp rotateUserSessions_def devices_ok_def audit_devices)
next
  case (CleanupOp e)
  assume "devices_ok s"
  then show ?thesis by (simp add: CleanupOp cleanupOldDevices_def devices_ok_def distinct_map_filter list_all_iff)
qed (simp add: audit_ok)

lemma devices_stay_ok: "devices_ok s \<Longrightarrow> devices_ok (device_run ops s)"
  by (induction ops arbitrary: s) (simp_all add: device_run_def device_step_ok)

text \<open>After the sixth right passcode an untrusted device is refused until an hour has passed, also with the right one.\<close>

lemma sixth_success_limits:
  assumes "devices_ok s" and "find (is_device u (generateDeviceFingerprint e p)) (ds_devices s) = Some d" and "\<not> dv_trusted d"
    and "5 \<le> dv_attempts d" and "length (dp_ip p) \<le> 45" and "verifyDevice e u p s = (r, s')"
    and "generateDeviceFingerprint f q = generateDeviceFingerprint e p" and "de_now f \<le> de_now e + hour_ms"
  shows "unlock_device f u q m s' = (DeviceRefused, s')"
proof -
  let ?fp = "generateDeviceFingerprint e p"
  let ?d = "(seen_now e p d)\<lparr>dv_attempts := dv_attempts d + 1\<rparr>"
  have s': "ds_devices s' = map (\<lambda>d. if is_device u ?fp d then (seen_now e p d)\<lparr>dv_attempts := dv_attempts d + 1\<rparr> else d) (ds_devices s)"
    using assms(2,3,5,6) by (auto simp: verifyDevice_def Let_def update_keeps)
  have d: "d \<in> set (ds_devices s)" "is_device u ?fp d" using assms(2) by (auto dest: find_SomeD)
  then have mem: "?d \<in> set (ds_devices s')" unfolding s' by (auto intro!: image_eqI [of _ _ d])
  have same: "is_device u ?fp ?d" using d(2) by (simp add: is_device_def seen_now_def)
  have "find (is_device u ?fp) (ds_devices s') \<noteq> None" using mem same by (auto simp: find_None_iff)
  moreover have "?d \<in> set (filter (\<lambda>d. is_device u ?fp d \<and> 5 < dv_attempts d \<and> de_now f - hour_ms \<le> dv_seen d) (ds_devices s'))"
    using mem same assms(4,8) by (simp add: seen_now_def)
  then have "0 < length (filter (\<lambda>d. is_device u ?fp d \<and> 5 < dv_attempts d \<and> de_now f - hour_ms \<le> dv_seen d) (ds_devices s'))"
    by (rule length_pos_if_in_set)
  ultimately show ?thesis by (simp add: unlock_device_def isDeviceRateLimited_def assms(7))
qed

text \<open>
  A failed rotation of the sessions goes unnoticed: the recovery goes on, no row of the audit tells of it, and every key
  the account had before stays valid beside the new one.
\<close>

lemma failed_rotation_keeps_keys:
  "de_keys_fail e \<Longrightarrow> ds_keys (snd (trust_after_recovery e u p (rotateUserSessions e u s))) = ds_keys s"
proof -
  assume fails: "de_keys_fail e"
  obtain r s1 where v: "verifyDevice e u p s = (r, s1)" by force
  have keys: "ds_keys (auditRecoveryEvent e ev t) = ds_keys t" for ev t by (simp add: auditRecoveryEvent_def)
  have "ds_keys s2 = ds_keys s1" if "trustDevice e j s1 = (q, s2)" for j q s2 using trust_audits [OF that] by simp
  then show ?thesis
    using fails v verify_audits [OF v]
    by (auto simp: rotateUserSessions_def trust_after_recovery_def keys split: prod.splits sum.splits bool.splits)
qed

lemma rotation_revokes:
  "\<not> de_keys_fail e \<Longrightarrow> k \<in> set (ds_keys (rotateUserSessions e u s)) \<Longrightarrow> ak_user k = Some u \<Longrightarrow> ak_revoked k \<noteq> None"
  by (auto simp: rotateUserSessions_def auditRecoveryEvent_def split: if_splits)

section \<open>Concrete inputs\<close>

definition sample_devices :: device_env where
  "sample_devices = \<lparr>de_now = 0, de_sha256 = (\<lambda>t. t), de_stringify = (\<lambda>j. ''fp''), de_audit_fails = False, de_keys_fail = False\<rparr>"

definition sample_print :: device_print where
  "sample_print = \<lparr>dp_agent = ''a'', dp_ip = ''1'', dp_language = None, dp_encoding = None, dp_platform = None\<rparr>"

definition no_devices :: device_state where
  "no_devices = \<lparr>ds_devices = [], ds_next = 0, ds_audits = [], ds_keys = []\<rparr>"

definition initiated :: audit_event where
  "initiated = \<lparr>ae_type = RecoveryInitiated, ae_user = ''u'', ae_identifier = None, ae_ip = None, ae_agent = None,
     ae_device = None, ae_details = None, ae_risk = ''medium''\<rparr>"

theorem attempt_alarm_never_rings_witness:
  "detectSuspiciousPatterns sample_devices ''u'' (device_run (replicate 9 (AuditOp sample_devices initiated)) no_devices) = [] \<and>
   ''High number of recovery attempts in 24 hours''
     \<notin> set (detectSuspiciousPatterns sample_devices ''u'' (device_run (replicate 9 (AuditOp sample_devices initiated)) no_devices))"
proof
  show "detectSuspiciousPatterns sample_devices ''u'' (device_run (replicate 9 (AuditOp sample_devices initiated)) no_devices) = []"
    by code_simp
  show "''High number of recovery attempts in 24 hours''
     \<notin> set (detectSuspiciousPatterns sample_devices ''u'' (device_run (replicate 9 (AuditOp sample_devices initiated)) no_devices))"
    by (rule attempt_alarm_never_rings) (simp add: no_devices_def)
qed

theorem device_limit_ignores_wrong_passcodes_witness:
  "wrong_passcodes (replicate 40 (sample_devices, sample_print)) ''u'' no_devices = (replicate 40 WrongPasscode, no_devices)"
proof -
  have "list_all (\<lambda>(e, p). find (is_device ''u'' (generateDeviceFingerprint e p)) (ds_devices no_devices) = None)
      (replicate 40 (sample_devices, sample_print))" by (simp add: no_devices_def list_all_iff)
  from device_limit_ignores_wrong_passcodes [OF this] show ?thesis by simp
qed

end
