(* ===== verification/AiGuard.thy ===== *)
theory AiGuard
  imports JsStr
begin

text \<open>
  The guard of the language model: \<open>src/services/ai/openaiGuard.ts\<close>. The prompt patterns, the monthly budget per
  organisation, the retries and the opening on failure, and the record of what was spent. The answers of the model are an
  input, one per attempt; the configuration, which its module does not export, is a parameter, and so are the failures of the
  document store. The state is the collection of spends and the requests sent.
\<close>

section \<open>Prompts\<close>

text \<open>The patterns, with their optional words written out; the third has its own test. All ignore case.\<close>

definition with_options :: "string \<Rightarrow> string list \<Rightarrow> string \<Rightarrow> string list" where
  "with_options before opts after = map (\<lambda>w. before @ w @ after) ([] # opts)"

definition DISALLOWED_PROMPT_TEXTS :: "string list" where
  "DISALLOWED_PROMPT_TEXTS =
     with_options ''ignore '' [''all '', ''previous '', ''prior ''] ''instructions'' @ [''you are now'', ''jailbreak'', ''disregard ''] @
     with_options ''forget '' [''your '', ''all '', ''prior ''] ''instructions'' @
     with_options ''reveal '' [''your '', ''the ''] ''system prompt'' @ with_options ''print '' [''your '', ''the ''] ''system prompt''"

text \<open>
  \<open>/act as (a |an )?(?!kyc|document|analyst)/\<close> at some place: the article is taken or left out, and what follows must not be one
  of the three words.
\<close>

definition not_role :: "string \<Rightarrow> bool" where
  "not_role rest \<longleftrightarrow> \<not> (starts_with rest ''kyc'' \<or> starts_with rest ''document'' \<or> starts_with rest ''analyst'')"

definition act_here :: "string \<Rightarrow> bool" where
  "act_here s \<longleftrightarrow>
     starts_with s ''act as '' \<and>
     (let rest = drop 7 s in
      (starts_with rest ''a '' \<and> not_role (drop 2 rest)) \<or> (starts_with rest ''an '' \<and> not_role (drop 3 rest)) \<or> not_role rest)"

definition act_as :: "string \<Rightarrow> bool" where
  "act_as s \<longleftrightarrow> list_ex (\<lambda>n. act_here (drop n s)) [0..<length s]"

record chat_message =
  cm_role :: string
  cm_content :: "string option"            \<comment> \<open>where it is a string\<close>

definition disallowed :: "string \<Rightarrow> bool" where
  "disallowed text \<longleftrightarrow> (let t = to_lower text in list_ex (str_includes t) DISALLOWED_PROMPT_TEXTS \<or> act_as t)"

definition assertPromptSafe :: "chat_message list \<Rightarrow> bool" where
  "assertPromptSafe ms \<longleftrightarrow>
     list_all (\<lambda>m. cm_role m = ''user'' \<longrightarrow> \<not> disallowed (case cm_content m of None \<Rightarrow> [] | Some t \<Rightarrow> t)) ms"

section \<open>Spend\<close>

record ai_env =
  ai_key :: bool
  ai_budget :: rat
  ai_retries :: "nat option"
  ai_fail_open :: bool
  ai_month :: string
  ai_store :: bool                         \<comment> \<open>\<open>getMongoDB\<close> does not throw\<close>
  ai_reads :: bool
  ai_writes :: bool

record ai_state =
  as_spend :: "((string \<times> string) \<times> rat) list"
  as_sent :: nat

definition spend_of :: "string \<Rightarrow> string \<Rightarrow> ai_state \<Rightarrow> rat" where
  "spend_of org month s = (case map_of (as_spend s) (org, month) of None \<Rightarrow> 0 | Some v \<Rightarrow> v)"

datatype api_status = NoStatus | NumStatus int | TextStatus string

record api_failure =
  af_status :: api_status
  af_message :: string

datatype ai_error = OrgRequired | PromptRejected | BudgetExceeded | NotConfigured | ApiFailed api_failure | StoreFailed

definition getMonthlySpend :: "ai_env \<Rightarrow> string \<Rightarrow> ai_state \<Rightarrow> ai_error + rat" where
  "getMonthlySpend e org s =
     (if \<not> ai_store e then Inr 0 else if \<not> ai_reads e then Inl StoreFailed else Inr (spend_of org (ai_month e) s))"

text \<open>The dollars per million tokens, in the order of the table.\<close>

definition pricing :: "(string \<times> (rat \<times> rat)) list" where
  "pricing =
     [(''gpt-4o'', (25 / 10, 10)), (''gpt-4o-mini'', (f64 (15 / 100), f64 (6 / 10))), (''gpt-4-turbo'', (10, 30)),
      (''gpt-3.5-turbo'', (1 / 2, 3 / 2))]"

definition model_price :: "string \<Rightarrow> rat \<times> rat" where
  "model_price model =
     (case find (\<lambda>(k, p). starts_with model k) pricing of
        Some (k, p) \<Rightarrow> p
      | None \<Rightarrow> (f64 (15 / 100), f64 (6 / 10)))"

definition estimateCostUsd :: "int \<Rightarrow> int \<Rightarrow> string \<Rightarrow> rat" where
  "estimateCostUsd promptTokens completionTokens model =
     (let p = model_price model in
      f64 (f64 (f64 (of_int promptTokens * fst p) + f64 (of_int completionTokens * snd p)) / 1000000))"

definition recordSpend :: "ai_env \<Rightarrow> string \<Rightarrow> rat \<Rightarrow> ai_state \<Rightarrow> (ai_error + unit) \<times> ai_state" where
  "recordSpend e org cost s =
     (if \<not> ai_store e then (Inr (), s)
      else if \<not> ai_writes e then (Inl StoreFailed, s)
      else
        (Inr (),
         s\<lparr>as_spend := ((org, ai_month e), f64 (spend_of org (ai_month e) s + cost)) #
             filter (\<lambda>(k, v). k \<noteq> (org, ai_month e)) (as_spend s)\<rparr>))"

section \<open>The call\<close>

record api_answer =
  aa_content :: "string option"
  aa_usage :: "(int \<times> int \<times> int) option"

datatype api_outcome = ApiAnswers api_answer | ApiRejects api_failure | ApiTooSlow

definition own_timeout :: api_failure where
  "own_timeout = \<lparr>af_status = NoStatus, af_message = ''OpenAI request timed out''\<rparr>"

definition isRetryableError :: "api_failure \<Rightarrow> bool" where
  "isRetryableError err \<longleftrightarrow>
     (case af_status err of NumStatus n \<Rightarrow> n = 429 \<or> 500 \<le> n \<and> n < 600 | _ \<Rightarrow> False) \<or>
     (let m = to_lower (af_message err) in str_includes m ''timeout'' \<or> str_includes m ''network'' \<or> str_includes m ''econnrefused'')"

text \<open>The race of the request with the guard's own timer.\<close>

definition raced :: "api_outcome \<Rightarrow> api_failure + api_answer" where
  "raced out = (case out of ApiAnswers a \<Rightarrow> Inr a | ApiRejects err \<Rightarrow> Inl err | ApiTooSlow \<Rightarrow> Inl own_timeout)"

text \<open>The loop over the attempts: \<open>left\<close> counts those after this one.\<close>

fun callWithRetries :: "(nat \<Rightarrow> api_outcome) \<Rightarrow> nat \<Rightarrow> nat \<Rightarrow> (api_failure + api_answer) \<times> nat" where
  "callWithRetries api attempt left =
     (case raced (api attempt) of
        Inr a \<Rightarrow> (Inr a, Suc attempt)
      | Inl err \<Rightarrow>
          (case left of
             0 \<Rightarrow> (Inl err, Suc attempt)
           | Suc n \<Rightarrow> if isRetryableError err then callWithRetries api (Suc attempt) n else (Inl err, Suc attempt)))"

record chat_result =
  cr_content :: string
  cr_prompt :: int
  cr_completion :: int
  cr_tokens :: int
  cr_cost :: rat

record chat_request =
  cq_org :: string
  cq_messages :: "chat_message list"
  cq_model :: "string option"

definition empty_result :: chat_result where
  "empty_result = \<lparr>cr_content = [], cr_prompt = 0, cr_completion = 0, cr_tokens = 0, cr_cost = 0\<rparr>"

definition model_of :: "chat_request \<Rightarrow> string" where
  "model_of p = (case cq_model p of None \<Rightarrow> ''gpt-4o-mini'' | Some m \<Rightarrow> m)"

definition retries_of :: "ai_env \<Rightarrow> nat" where
  "retries_of e = (case ai_retries e of None \<Rightarrow> 2 | Some n \<Rightarrow> n)"

definition settle_answer ::
  "ai_env \<Rightarrow> chat_request \<Rightarrow> api_answer \<Rightarrow> ai_state \<Rightarrow> (ai_error + chat_result) \<times> ai_state" where
  "settle_answer e p a s =
     (let u = (case aa_usage a of None \<Rightarrow> (0, 0, 0) | Some u \<Rightarrow> u);
          cost = estimateCostUsd (fst u) (fst (snd u)) (model_of p) in
      case recordSpend e (cq_org p) cost s of
        (Inl err, s') \<Rightarrow> (Inl err, s')
      | (Inr _, s') \<Rightarrow>
          (Inr \<lparr>cr_content = (case aa_content a of None \<Rightarrow> [] | Some t \<Rightarrow> t), cr_prompt = fst u, cr_completion = fst (snd u),
                cr_tokens = snd (snd u), cr_cost = cost\<rparr>, s'))"

definition guardedChat ::
  "ai_env \<Rightarrow> (nat \<Rightarrow> api_outcome) \<Rightarrow> chat_request \<Rightarrow> ai_state \<Rightarrow> (ai_error + chat_result) \<times> ai_state" where
  "guardedChat e api p s =
     (if cq_org p = [] then (Inl OrgRequired, s)
      else if \<not> assertPromptSafe (cq_messages p) then (Inl PromptRejected, s)
      else
        (case getMonthlySpend e (cq_org p) s of
           Inl err \<Rightarrow> (Inl err, s)
         | Inr spend \<Rightarrow>
             if ai_budget e \<le> spend then (Inl BudgetExceeded, s)
             else if \<not> ai_key e then (Inl NotConfigured, s)
             else
               (case callWithRetries api 0 (retries_of e) of
                  (Inl err, n) \<Rightarrow>
                    (if ai_fail_open e \<and> isRetryableError err then Inr empty_result else Inl (ApiFailed err),
                     s\<lparr>as_sent := as_sent s + n\<rparr>)
                | (Inr a, n) \<Rightarrow> settle_answer e p a (s\<lparr>as_sent := as_sent s + n\<rparr>))))"

definition getOrgMonthlySpend :: "ai_env \<Rightarrow> string \<Rightarrow> ai_state \<Rightarrow> ai_error + (rat \<times> rat \<times> rat)" where
  "getOrgMonthlySpend e org s =
     (case getMonthlySpend e org s of
        Inl err \<Rightarrow> Inl err
      | Inr spend \<Rightarrow> Inr (spend, ai_budget e, max 0 (f64 (ai_budget e - spend))))"

section \<open>Attempts\<close>

declare callWithRetries.simps [simp del]

lemma attempts_bounded:
  "callWithRetries api attempt left = (r, n) \<Longrightarrow> attempt < n \<and> n \<le> attempt + left + 1"
proof (induction left arbitrary: attempt r n)
  case 0
  then show ?case by (subst (asm) callWithRetries.simps) (auto split: sum.splits)
next
  case (Suc left)
  show ?case
  proof (cases "\<exists>err. raced (api attempt) = Inl err \<and> isRetryableError err")
    case True
    then have "callWithRetries api (Suc attempt) left = (r, n)"
      using Suc.prems by (subst (asm) callWithRetries.simps) auto
    from Suc.IH [OF this] show ?thesis by simp
  next
    case False
    then show ?thesis using Suc.prems by (subst (asm) callWithRetries.simps) (auto split: sum.splits if_splits)
  qed
qed

lemma own_timeout_not_retryable: "\<not> isRetryableError own_timeout"
  by code_simp

lemma slow_not_retried: "api 0 = ApiTooSlow \<Longrightarrow> callWithRetries api 0 n = (Inl own_timeout, 1)"
  by (subst callWithRetries.simps) (simp add: raced_def own_timeout_not_retryable split: nat.split)

text \<open>
  The guard's own time limit is not treated as a timeout: a request that takes too long is sent once, whatever the
  number of retries, and ends in an error also where the guard is told to let requests pass while the model is degraded,
  because the text of its own error does not have the word that the test looks for.
\<close>

theorem own_timeout_never_retried:
  assumes "cq_org p \<noteq> []" and "assertPromptSafe (cq_messages p)" and "getMonthlySpend e (cq_org p) s = Inr spend"
    and "spend < ai_budget e" and "ai_key e" and "api 0 = ApiTooSlow"
  shows "guardedChat e api p s = (Inl (ApiFailed own_timeout), s\<lparr>as_sent := as_sent s + 1\<rparr>)"
  using assms by (simp add: guardedChat_def slow_not_retried own_timeout_not_retryable)

section \<open>The budget\<close>

fun chats :: "(ai_env \<times> (nat \<Rightarrow> api_outcome) \<times> chat_request) list \<Rightarrow> ai_state \<Rightarrow> ai_state" where
  "chats [] s = s"
| "chats ((e, api, p) # ps) s = chats ps (snd (guardedChat e api p s))"

text \<open>No answer costs more than the bound.\<close>

definition cost_at_most :: "rat \<Rightarrow> chat_request \<Rightarrow> (nat \<Rightarrow> api_outcome) \<Rightarrow> bool" where
  "cost_at_most c p api \<longleftrightarrow>
     (\<forall>n a u. api n = ApiAnswers a \<and> aa_usage a = Some u \<longrightarrow> estimateCostUsd (fst u) (fst (snd u)) (model_of p) \<le> c)"

lemma calls_answer:
  "callWithRetries api attempt left = (Inr a, n) \<Longrightarrow> \<exists>i. api i = ApiAnswers a"
proof (induction left arbitrary: attempt n)
  case 0
  then show ?case by (subst (asm) callWithRetries.simps) (auto simp: raced_def split: sum.splits api_outcome.splits)
next
  case (Suc left)
  show ?case
  proof (cases "\<exists>err. raced (api attempt) = Inl err \<and> isRetryableError err")
    case True
    then have "callWithRetries api (Suc attempt) left = (Inr a, n)"
      using Suc.prems by (subst (asm) callWithRetries.simps) auto
    from Suc.IH [OF this] show ?thesis .
  next
    case False
    then show ?thesis
      using Suc.prems by (subst (asm) callWithRetries.simps) (auto simp: raced_def split: sum.splits if_splits api_outcome.splits)
  qed
qed

lemma spend_recorded:
  "recordSpend e org cost s = (r, s') \<Longrightarrow>
     s' = s \<or> ai_store e \<and> spend_of org (ai_month e) s' = f64 (spend_of org (ai_month e) s + cost) \<and>
       (\<forall>x y. (x, y) \<noteq> (org, ai_month e) \<longrightarrow> spend_of x y s' = spend_of x y s)"
proof -
  assume run: "recordSpend e org cost s = (r, s')"
  have other: "map_of (filter (\<lambda>(k, v). k \<noteq> x) kv) k = map_of kv k" if "k \<noteq> x" for k x :: "string \<times> string" and kv :: "((string \<times> string) \<times> rat) list"
    using that by (induction kv) auto
  show ?thesis using run by (auto simp: recordSpend_def spend_of_def other split: if_splits)
qed

lemma zero_cost: "estimateCostUsd 0 0 m = 0"
  by (simp add: estimateCostUsd_def Let_def f64.rnd_0)

lemma chat_spend:
  assumes "cost_at_most c p api" and "0 \<le> c" and "spend_of org m s \<le> f64 (b + c)" and "ai_budget e = b"
  shows "spend_of org m (snd (guardedChat e api p s)) \<le> f64 (b + c)"
proof (cases "\<exists>a n sp. callWithRetries api 0 (retries_of e) = (Inr a, n) \<and> getMonthlySpend e (cq_org p) s = Inr sp \<and> sp < b")
  case False
  then have "as_spend (snd (guardedChat e api p s)) = as_spend s"
    using assms(4) by (auto simp: guardedChat_def split: sum.splits prod.splits)
  then show ?thesis using assms(3) by (simp add: spend_of_def)
next
  case True
  then obtain a n sp where call: "callWithRetries api 0 (retries_of e) = (Inr a, n)"
    and sp: "getMonthlySpend e (cq_org p) s = Inr sp" "sp < b" by blast
  define cost where "cost = (let u = (case aa_usage a of None \<Rightarrow> (0, 0, 0) | Some u \<Rightarrow> u) in
    estimateCostUsd (fst u) (fst (snd u)) (model_of p))"
  have cost: "cost \<le> c"
  proof (cases "aa_usage a")
    case (Some u)
    from calls_answer [OF call] obtain i where "api i = ApiAnswers a" by blast
    with Some assms(1) have "estimateCostUsd (fst u) (fst (snd u)) (model_of p) \<le> c" unfolding cost_at_most_def by blast
    then show ?thesis by (simp add: cost_def Some)
  qed (use assms(2) in \<open>simp add: cost_def zero_cost\<close>)
  let ?s = "s\<lparr>as_sent := as_sent s + n\<rparr>"
  obtain r s' where rec: "recordSpend e (cq_org p) cost ?s = (r, s')" by force
  have same: "spend_of x y ?s = spend_of x y s" for x y by (simp add: spend_of_def)
  have "snd (guardedChat e api p s) \<in> {s, s'}"
    using call sp rec assms(4)
    by (auto simp: guardedChat_def settle_answer_def cost_def Let_def split: sum.splits)
  moreover have "spend_of org m s' \<le> f64 (b + c)"
  proof (cases "s' = ?s")
    case True
    then show ?thesis using assms(3) same by simp
  next
    case False
    with spend_recorded [OF rec] have st: "ai_store e"
      and new: "spend_of (cq_org p) (ai_month e) s' = f64 (spend_of (cq_org p) (ai_month e) s + cost)"
      and old: "\<forall>x y. (x, y) \<noteq> (cq_org p, ai_month e) \<longrightarrow> spend_of x y s' = spend_of x y s"
      unfolding same by blast+
    show ?thesis
    proof (cases "(org, m) = (cq_org p, ai_month e)")
      case True
      have "spend_of (cq_org p) (ai_month e) s = sp" using sp(1) st by (auto simp: getMonthlySpend_def split: if_splits)
      then show ?thesis using True new sp(2) cost by (auto intro!: f64.rnd_mono)
    next
      case False
      then show ?thesis using old assms(3) by simp
    qed
  qed
  ultimately show ?thesis using assms(3) by auto
qed

text \<open>
  The monthly budget bounds the recorded spend up to one request: requests that run one after the other under one budget,
  of any organisations, in any months, with any failures of the model and the store, leave no organisation with more than the
  budget and the cost of a single answer, as doubles.
\<close>

theorem budget_bounds_recorded_spend:
  assumes "list_all (\<lambda>(e, api, p). ai_budget e = b \<and> cost_at_most c p api) ps" and "0 \<le> c" and "0 \<le> b" and "as_spend s = []"
  shows "spend_of org m (chats ps s) \<le> f64 (b + c)"
proof -
  have "spend_of org m (chats ps t) \<le> f64 (b + c)" if "spend_of org m t \<le> f64 (b + c)" for t
    using assms(1) that
  proof (induction ps arbitrary: t)
    case (Cons x ps)
    then show ?case by (cases x) (simp add: chat_spend [OF _ assms(2)])
  qed simp
  moreover have "0 \<le> f64 (b + c)" using f64.rnd_mono [of 0 "b + c"] assms(2,3) f64.rnd_0 by simp
  ultimately show ?thesis using assms(4) by (simp add: spend_of_def)
qed

text \<open>Without the store there is no budget, and what is answered is not recorded.\<close>

lemma no_store_no_budget:
  assumes "\<not> ai_store e" and "cq_org p \<noteq> []" and "assertPromptSafe (cq_messages p)" and "0 < ai_budget e" and "ai_key e"
    and "api 0 = ApiAnswers a"
  shows "is_ok (fst (guardedChat e api p s)) \<and> as_spend (snd (guardedChat e api p s)) = as_spend s"
  using assms
  by (simp add: guardedChat_def getMonthlySpend_def callWithRetries.simps [of api 0] raced_def settle_answer_def recordSpend_def Let_def)

text \<open>The small model is priced as the large one, whose name is a prefix of its own and comes first.\<close>

lemma mini_priced_as_large: "model_price ''gpt-4o-mini'' = model_price ''gpt-4o'' \<and> model_price ''gpt-4o-mini'' = (5 / 2, 10)"
  by (simp add: model_price_def pricing_def starts_with_def)

text \<open>An exempted role with an article is refused all the same: the pattern may leave the article out.\<close>

lemma article_defeats_exemption:
  "\<not> disallowed ''act as kyc analyst''" "disallowed ''act as a kyc analyst''"
  by code_simp+

section \<open>Concrete inputs\<close>

definition sample_ai :: ai_env where
  "sample_ai = \<lparr>ai_key = True, ai_budget = 50, ai_retries = None, ai_fail_open = True, ai_month = ''2026-01'', ai_store = True,
     ai_reads = True, ai_writes = True\<rparr>"

definition no_spend :: ai_state where
  "no_spend = \<lparr>as_spend = [], as_sent = 0\<rparr>"

definition sample_chat :: chat_request where
  "sample_chat = \<lparr>cq_org = ''org'', cq_messages = [\<lparr>cm_role = ''system'', cm_content = Some ''read''\<rparr>], cq_model = None\<rparr>"

theorem own_timeout_never_retried_witness:
  "guardedChat sample_ai (\<lambda>n. if n = 0 then ApiTooSlow else ApiAnswers \<lparr>aa_content = None, aa_usage = None\<rparr>) sample_chat no_spend =
     (Inl (ApiFailed own_timeout), no_spend\<lparr>as_sent := 1\<rparr>)"
proof -
  have "guardedChat sample_ai (\<lambda>n. if n = 0 then ApiTooSlow else ApiAnswers \<lparr>aa_content = None, aa_usage = None\<rparr>) sample_chat no_spend =
     (Inl (ApiFailed own_timeout), no_spend\<lparr>as_sent := as_sent no_spend + 1\<rparr>)"
    by (rule own_timeout_never_retried [where spend = 0])
      (simp_all add: sample_chat_def assertPromptSafe_def getMonthlySpend_def sample_ai_def no_spend_def spend_of_def)
  then show ?thesis by (simp add: no_spend_def)
qed

theorem budget_bounds_recorded_spend_witness:
  "spend_of ''org'' ''2026-01'' (chats (replicate 3 (sample_ai, (\<lambda>n. ApiAnswers \<lparr>aa_content = None, aa_usage = None\<rparr>), sample_chat)) no_spend)
     \<le> f64 (50 + 1)"
  by (rule budget_bounds_recorded_spend) (simp_all add: list_all_iff cost_at_most_def sample_ai_def no_spend_def)

end
