(* ===== verification/Users.thy ===== *)
theory Users
  imports ApiKeys
begin

text \<open>
  The own account: \<open>src/controllers/userController.ts\<close> and \<open>src/services/user/userService.ts\<close>. The profile and its changes,
  contacts, guardians, the alias under which a user receives, and the deletion that keeps a tombstone. bcrypt, the format
  of email addresses and uuids and the random suffix are parameters. A write that breaks a unique index is refused as a
  whole. The picture of the alias (\<open>getReceiveQrcode\<close>) is made by a library from the same text.
\<close>

section \<open>Rows\<close>

record account = auth_user +
  ac_email_verified :: "int option"
  ac_phone_verified :: "int option"
  ac_country :: "string option"
  ac_created :: int

record contact_row =
  ct_id :: nat
  ct_user :: string
  ct_contact :: "string option"
  ct_created :: int

record guardian_row =
  gd_id :: nat
  gd_user :: string
  gd_guardian :: "string option"
  gd_email :: "string option"
  gd_phone :: "string option"
  gd_status :: string
  gd_order :: int
  gd_invited :: int
  gd_approved :: "int option"

record users_state =
  us_accounts :: "account list"
  us_contacts :: "contact_row list"
  us_guardians :: "guardian_row list"
  us_keys :: "api_key_row list"
  us_otps :: "string list"                 \<comment> \<open>the users of the rows\<close>
  us_passkeys :: "string list"
  us_refresh :: "string list"
  us_next :: nat

record users_env =
  ue_now :: int
  ue_compare :: "string \<Rightarrow> string \<Rightarrow> bool"
  ue_hash :: "string \<Rightarrow> string"
  ue_email_ok :: "string \<Rightarrow> bool"
  ue_uuid_ok :: "string \<Rightarrow> bool"
  ue_random_uuid :: string

datatype users_error =
    UserKeyRequired | BadUserBody | NoSuchUser | CurrentPasscodeRequired | WrongCurrentPasscode | UniqueIndex | ForeignKey
  | SelfAsContact | ContactMissing | GuardianExists | GuardianMissing

definition find_account :: "string \<Rightarrow> users_state \<Rightarrow> account option" where
  "find_account i s = find (\<lambda>a. u_id a = i) (us_accounts s)"

text \<open>The handlers begin with the user of the key.\<close>

definition with_user :: "string option \<Rightarrow> users_state \<Rightarrow> (string \<Rightarrow> (users_error + 'a) \<times> users_state) \<Rightarrow> (users_error + 'a) \<times> users_state" where
  "with_user key s k = (if truthy key then k (the key) else (Inl UserKeyRequired, s))"

section \<open>Profile\<close>

definition normalizeUsername :: "string \<Rightarrow> string" where
  "normalizeUsername s = strip_spaces (to_lower (trim s))"

text \<open>A body: the outer option says whether a field is present, the inner one whether it is null.\<close>

record patch_body =
  pb_username :: "string option"
  pb_email :: "string option option"
  pb_phone :: "string option option"
  pb_hide :: "bool option"
  pb_current :: "string option"
  pb_passcode :: "string option"

definition sized :: "nat \<Rightarrow> nat \<Rightarrow> string option \<Rightarrow> bool" where
  "sized lo hi v \<longleftrightarrow> (case v of None \<Rightarrow> True | Some s \<Rightarrow> lo \<le> length s \<and> length s \<le> hi)"

definition patchMeSchema :: "users_env \<Rightarrow> patch_body \<Rightarrow> patch_body option" where
  "patchMeSchema e b =
     (if sized 1 64 (pb_username b) \<and>
         (case pb_email b of Some (Some m) \<Rightarrow> ue_email_ok e m \<and> length m \<le> 255 | _ \<Rightarrow> True) \<and>
         (case pb_phone b of Some (Some p) \<Rightarrow> e164 p | _ \<Rightarrow> True) \<and> sized 1 64 (pb_current b) \<and> sized 8 64 (pb_passcode b)
      then Some (b\<lparr>pb_username := map_option normalizeUsername (pb_username b),
                   pb_email := map_option (map_option (\<lambda>m. to_lower (trim m))) (pb_email b)\<rparr>)
      else None)"

definition patch_contact :: "patch_body \<Rightarrow> account \<Rightarrow> account" where
  "patch_contact b a =
     (let a1 = (case pb_username b of None \<Rightarrow> a | Some n \<Rightarrow> a\<lparr>username := Some n\<rparr>);
          a2 = (case pb_email b of
                  None \<Rightarrow> a1
                | Some m \<Rightarrow> a1\<lparr>email := m, ac_email_verified := (if m \<noteq> email a \<or> m = None then None else ac_email_verified a)\<rparr>);
          a3 = (case pb_phone b of
                  None \<Rightarrow> a2
                | Some p \<Rightarrow> a2\<lparr>phone_e164 := p,
                    ac_phone_verified := (if p \<noteq> phone_e164 a \<or> p = None then None else ac_phone_verified a)\<rparr>) in
      case pb_hide b of None \<Rightarrow> a3 | Some h \<Rightarrow> a3\<lparr>hide_from_search := h\<rparr>)"

definition new_passcode :: "users_env \<Rightarrow> patch_body \<Rightarrow> account \<Rightarrow> users_error + string option" where
  "new_passcode e b a =
     (case pb_passcode b of
        None \<Rightarrow> Inr (au_passcode a)
      | Some p \<Rightarrow>
          if truthy (au_passcode a) then
            (if \<not> truthy (pb_current b) then Inl CurrentPasscodeRequired
             else if \<not> ue_compare e (the (pb_current b)) (the (au_passcode a)) then Inl WrongCurrentPasscode
             else Inr (Some (ue_hash e p)))
          else Inr (Some (ue_hash e p)))"

text \<open>The unique columns of the table; several rows may have none.\<close>

definition clash :: "('a \<Rightarrow> string option) \<Rightarrow> 'a \<Rightarrow> 'a \<Rightarrow> bool" where
  "clash f a b \<longleftrightarrow> f a \<noteq> None \<and> f a = f b"

definition account_clash :: "account \<Rightarrow> account \<Rightarrow> bool" where
  "account_clash a b \<longleftrightarrow> clash username a b \<or> clash phone_e164 a b \<or> clash email a b \<or> clash stellar_address a b"

definition put_account :: "account \<Rightarrow> users_state \<Rightarrow> (users_error + account) \<times> users_state" where
  "put_account a s =
     (if list_ex (\<lambda>b. u_id b \<noteq> u_id a \<and> account_clash a b) (us_accounts s) then (Inl UniqueIndex, s)
      else (Inr a, s\<lparr>us_accounts := map (\<lambda>b. if u_id b = u_id a then a else b) (us_accounts s)\<rparr>))"

definition getMe :: "string option \<Rightarrow> users_state \<Rightarrow> users_error + account" where
  "getMe key s =
     (if \<not> truthy key then Inl UserKeyRequired
      else (case find_account (the key) s of None \<Rightarrow> Inl NoSuchUser | Some a \<Rightarrow> Inr a))"

definition patchMe :: "users_env \<Rightarrow> string option \<Rightarrow> patch_body \<Rightarrow> users_state \<Rightarrow> (users_error + account) \<times> users_state" where
  "patchMe e key body s =
     with_user key s (\<lambda>userId.
       case patchMeSchema e body of
         None \<Rightarrow> (Inl BadUserBody, s)
       | Some b \<Rightarrow>
           (case find_account userId s of
              None \<Rightarrow> (Inl NoSuchUser, s)
            | Some a \<Rightarrow>
                bail (new_passcode e b a) s (\<lambda>h. put_account ((patch_contact b a)\<lparr>au_passcode := h\<rparr>) s)))"

section \<open>Contacts and guardians\<close>

definition postContacts :: "users_env \<Rightarrow> string option \<Rightarrow> string \<Rightarrow> users_state \<Rightarrow> (users_error + contact_row) \<times> users_state" where
  "postContacts e key other s =
     with_user key s (\<lambda>userId.
       if \<not> ue_uuid_ok e other then (Inl BadUserBody, s)
       else if other = userId then (Inl SelfAsContact, s)
       else
         (case find (\<lambda>c. ct_user c = userId \<and> ct_contact c = Some other) (us_contacts s) of
            Some c \<Rightarrow> (Inr c, s)
          | None \<Rightarrow>
              if find_account userId s = None \<or> find_account other s = None then (Inl ForeignKey, s)
              else
                (let c = \<lparr>ct_id = us_next s, ct_user = userId, ct_contact = Some other, ct_created = ue_now e\<rparr> in
                 (Inr c, s\<lparr>us_contacts := us_contacts s @ [c], us_next := Suc (us_next s)\<rparr>))))"

definition getContacts :: "string option \<Rightarrow> users_state \<Rightarrow> users_error + (contact_row \<times> string option) list" where
  "getContacts key s =
     (if \<not> truthy key then Inl UserKeyRequired
      else
        Inr (map (\<lambda>c. (c, Option.bind (find_account (the (ct_contact c)) s) username))
          (filter (\<lambda>c. ct_user c = the key \<and> ct_contact c \<noteq> None) (us_contacts s))))"

definition deleteContact :: "string option \<Rightarrow> nat \<Rightarrow> users_state \<Rightarrow> (users_error + unit) \<times> users_state" where
  "deleteContact key i s =
     with_user key s (\<lambda>userId.
       if find (\<lambda>c. ct_id c = i \<and> ct_user c = userId) (us_contacts s) = None then (Inl ContactMissing, s)
       else (Inr (), s\<lparr>us_contacts := filter (\<lambda>c. ct_id c \<noteq> i) (us_contacts s)\<rparr>))"

record guardian_body =
  gb_user :: "string option"
  gb_email :: "string option"
  gb_phone :: "string option"

definition addGuardianSchema :: "users_env \<Rightarrow> guardian_body \<Rightarrow> bool" where
  "addGuardianSchema e b \<longleftrightarrow>
     (case gb_user b of None \<Rightarrow> True | Some u \<Rightarrow> ue_uuid_ok e u) \<and>
     (case gb_email b of None \<Rightarrow> True | Some m \<Rightarrow> ue_email_ok e m \<and> length m \<le> 255) \<and>
     (case gb_phone b of None \<Rightarrow> True | Some p \<Rightarrow> e164 p) \<and>
     truthy (case gb_user b of Some u \<Rightarrow> Some u | None \<Rightarrow> (case gb_email b of Some m \<Rightarrow> Some m | None \<Rightarrow> gb_phone b))"

definition same_guardian :: "string \<Rightarrow> guardian_body \<Rightarrow> guardian_row \<Rightarrow> bool" where
  "same_guardian userId b g \<longleftrightarrow>
     gd_user g = userId \<and>
     (truthy (gb_user b) \<and> gd_guardian g = gb_user b \<or>
      truthy (gb_email b) \<and> gd_email g = map_option (\<lambda>m. to_lower (trim m)) (gb_email b) \<or>
      truthy (gb_phone b) \<and> gd_phone g = gb_phone b)"

definition postGuardians :: "users_env \<Rightarrow> string option \<Rightarrow> guardian_body \<Rightarrow> users_state \<Rightarrow> (users_error + guardian_row) \<times> users_state" where
  "postGuardians e key b s =
     with_user key s (\<lambda>userId.
       if \<not> addGuardianSchema e b then (Inl BadUserBody, s)
       else if find (same_guardian userId b) (us_guardians s) \<noteq> None then (Inl GuardianExists, s)
       else if find_account userId s = None \<or> gb_user b \<noteq> None \<and> find_account (the (gb_user b)) s = None then (Inl ForeignKey, s)
       else
         (let g = \<lparr>gd_id = us_next s, gd_user = userId, gd_guardian = gb_user b,
                    gd_email = map_option (\<lambda>m. to_lower (trim m)) (gb_email b), gd_phone = gb_phone b, gd_status = ''pending'',
                    gd_order = 0, gd_invited = ue_now e, gd_approved = None\<rparr> in
          (Inr g, s\<lparr>us_guardians := us_guardians s @ [g], us_next := Suc (us_next s)\<rparr>)))"

definition getGuardians :: "string option \<Rightarrow> users_state \<Rightarrow> users_error + guardian_row list" where
  "getGuardians key s =
     (if \<not> truthy key then Inl UserKeyRequired
      else Inr (sort_key gd_order (sort_key gd_invited (filter (\<lambda>g. gd_user g = the key) (us_guardians s)))))"

definition deleteGuardian :: "string option \<Rightarrow> nat \<Rightarrow> users_state \<Rightarrow> (users_error + unit) \<times> users_state" where
  "deleteGuardian key i s =
     with_user key s (\<lambda>userId.
       if find (\<lambda>g. gd_id g = i \<and> gd_user g = userId) (us_guardians s) = None then (Inl GuardianMissing, s)
       else (Inr (), s\<lparr>us_guardians := filter (\<lambda>g. gd_id g \<noteq> i) (us_guardians s)\<rparr>))"

section \<open>Deletion\<close>

definition tombstone :: "string \<Rightarrow> account \<Rightarrow> account" where
  "tombstone uuid a =
     a\<lparr>username := Some (''deleted_'' @ take 8 uuid), email := None, phone_e164 := None, stellar_address := None,
       kyc_status := ''deleted'', encrypted_secret := None, key_hint := None, au_passcode := None, au_twofa := None,
       au_totp := None, hide_from_search := True\<rparr>"

text \<open>One transaction: when the account is missing or the new name is taken, nothing is deleted.\<close>

definition tombstoneDeleteUser :: "users_env \<Rightarrow> string \<Rightarrow> users_state \<Rightarrow> (users_error + unit) \<times> users_state" where
  "tombstoneDeleteUser e userId s =
     (let s1 = s\<lparr>us_keys := filter (\<lambda>k. ak_user k \<noteq> Some userId) (us_keys s), us_otps := filter (\<lambda>u. u \<noteq> userId) (us_otps s),
                us_passkeys := filter (\<lambda>u. u \<noteq> userId) (us_passkeys s),
                us_contacts := filter (\<lambda>c. ct_user c \<noteq> userId \<and> ct_contact c \<noteq> Some userId) (us_contacts s),
                us_guardians := filter (\<lambda>g. gd_user g \<noteq> userId \<and> gd_guardian g \<noteq> Some userId) (us_guardians s)\<rparr> in
      case find_account userId s of
        None \<Rightarrow> (Inl NoSuchUser, s)
      | Some a \<Rightarrow>
          (case put_account (tombstone (ue_random_uuid e) a) s1 of
             (Inl err, s2) \<Rightarrow> (Inl err, s)
           | (Inr _, s2) \<Rightarrow> (Inr (), s2)))"

definition deleteMe :: "users_env \<Rightarrow> string option \<Rightarrow> users_state \<Rightarrow> (users_error + unit) \<times> users_state" where
  "deleteMe e key s = with_user key s (\<lambda>userId. tombstoneDeleteUser e userId s)"

section \<open>Receiving\<close>

definition receive_alias :: "account \<Rightarrow> string" where
  "receive_alias a =
     (if truthy (username a) then ''@'' @ the (username a)
      else (case phone_e164 a of Some p \<Rightarrow> p | None \<Rightarrow> (case email a of Some m \<Rightarrow> m | None \<Rightarrow> take 8 (u_id a))))"

definition getReceive :: "string option \<Rightarrow> users_state \<Rightarrow> users_error + (string \<times> string)" where
  "getReceive key s =
     (if \<not> truthy key then Inl UserKeyRequired
      else
        (case find_account (the key) s of
           None \<Rightarrow> Inl NoSuchUser
         | Some a \<Rightarrow> Inr (receive_alias a, ''acbu:'' @ receive_alias a)))"

section \<open>The tables stay consistent\<close>

definition accounts_ok :: "users_state \<Rightarrow> bool" where
  "accounts_ok s \<longleftrightarrow>
     distinct (map u_id (us_accounts s)) \<and>
     (\<forall>a \<in> set (us_accounts s). \<forall>b \<in> set (us_accounts s). u_id a \<noteq> u_id b \<longrightarrow> \<not> account_clash a b)"

lemma find_account_SomeD: "find_account i s = Some a \<Longrightarrow> a \<in> set (us_accounts s) \<and> u_id a = i"
  by (auto simp: find_account_def dest: find_SomeD)

lemma clash_sym: "account_clash a b \<longleftrightarrow> account_clash b a"
  unfolding account_clash_def clash_def by metis

lemma put_account_ids:
  "map u_id (map (\<lambda>b. if u_id b = u_id a then a else b) xs) = map u_id xs" for a :: account
  by (induction xs) auto

lemma put_account_ok:
  assumes "accounts_ok s" and "put_account a s = (Inr r, s')"
  shows "accounts_ok s'"
proof -
  have s': "us_accounts s' = map (\<lambda>b. if u_id b = u_id a then a else b) (us_accounts s)"
    and free: "\<And>b. b \<in> set (us_accounts s) \<Longrightarrow> u_id b \<noteq> u_id a \<Longrightarrow> \<not> account_clash a b"
    using assms(2) by (auto simp: put_account_def list_ex_iff split: if_splits)
  have "\<not> account_clash b c" if b: "b \<in> set (us_accounts s')" and c: "c \<in> set (us_accounts s')" and ne: "u_id b \<noteq> u_id c" for b c
  proof -
    have "b = a \<or> b \<in> set (us_accounts s) \<and> u_id b \<noteq> u_id a" "c = a \<or> c \<in> set (us_accounts s) \<and> u_id c \<noteq> u_id a"
      using b c by (auto simp: s' split: if_splits)
    then show ?thesis using ne free assms(1) clash_sym unfolding accounts_ok_def by metis
  qed
  then show ?thesis using assms(1) unfolding accounts_ok_def s' put_account_ids by blast
qed

lemma put_account_find:
  assumes "put_account a s = (Inr r, s')" and "b \<in> set (us_accounts s)" and "u_id b = u_id a"
  shows "find_account (u_id a) s' = Some a \<and> r = a"
proof -
  have "find (\<lambda>x. u_id x = u_id a) (map (\<lambda>b. if u_id b = u_id a then a else b) xs) = Some a"
    if "b \<in> set xs" for xs using that assms(3) by (induction xs) auto
  then show ?thesis using assms by (auto simp: put_account_def find_account_def split: if_splits)
qed

lemma patch_id: "u_id (patch_contact b a) = u_id a"
  by (simp add: patch_contact_def Let_def split: option.splits)

lemma patchMe_SomeE:
  assumes "patchMe e key body s = (Inr r, s')"
  obtains u b a h where "key = Some u" "patchMeSchema e body = Some b" "find_account u s = Some a" "new_passcode e b a = Inr h"
    "r = (patch_contact b a)\<lparr>au_passcode := h\<rparr>" "put_account r s = (Inr r, s')" "find_account u s' = Some r"
proof -
  from assms obtain u where u: "key = Some u"
    by (cases key) (auto simp: patchMe_def with_user_def truthy_def)
  have t: "truthy (Some u)" using assms u by (cases "truthy (Some u)") (simp_all add: patchMe_def with_user_def)
  from assms u t obtain b a h where b: "patchMeSchema e body = Some b" "find_account u s = Some a" "new_passcode e b a = Inr h"
    "put_account ((patch_contact b a)\<lparr>au_passcode := h\<rparr>) s = (Inr r, s')"
    by (auto simp: patchMe_def with_user_def bail_Inr_iff split: option.splits)
  have a: "a \<in> set (us_accounts s)" "u_id a = u" using find_account_SomeD [OF b(2)] by auto
  let ?a = "(patch_contact b a)\<lparr>au_passcode := h\<rparr>"
  have id: "u_id a = u_id ?a" by (simp add: patch_id)
  have "find_account u s' = Some ?a \<and> r = ?a" using put_account_find [OF b(4) a(1) id] a(2) id by simp
  with u b show ?thesis by (intro that) auto
qed

text \<open>
  A verified contact is the contact that was verified: after any change of the profile, an email or phone number that
  counts as verified is the one the account had, verified, before; a new or removed one is never taken as verified.
\<close>

theorem verified_contact_unchanged:
  assumes "patchMe e key body s = (Inr r, s')"
  shows "\<exists>a. find_account (u_id r) s = Some a \<and>
    (ac_email_verified r \<noteq> None \<longrightarrow> ac_email_verified r = ac_email_verified a \<and> email r = email a) \<and>
    (ac_phone_verified r \<noteq> None \<longrightarrow> ac_phone_verified r = ac_phone_verified a \<and> phone_e164 r = phone_e164 a) \<and>
    (au_passcode r = au_passcode a \<or> \<not> truthy (au_passcode a) \<or>
     (\<exists>c. pb_current body = Some c \<and> ue_compare e c (the (au_passcode a))))"
proof -
  from assms obtain u b a h where p: "patchMeSchema e body = Some b" "find_account u s = Some a" "new_passcode e b a = Inr h"
    "r = (patch_contact b a)\<lparr>au_passcode := h\<rparr>" by (rule patchMe_SomeE)
  have id: "u_id r = u" using find_account_SomeD [OF p(2)] by (simp add: p(4) patch_id)
  have cur: "pb_current b = pb_current body" using p(1) by (auto simp: patchMeSchema_def split: if_splits)
  have "ac_email_verified r \<noteq> None \<longrightarrow> ac_email_verified r = ac_email_verified a \<and> email r = email a"
    by (auto simp: p(4) patch_contact_def Let_def split: option.splits)
  moreover have "ac_phone_verified r \<noteq> None \<longrightarrow> ac_phone_verified r = ac_phone_verified a \<and> phone_e164 r = phone_e164 a"
    by (auto simp: p(4) patch_contact_def Let_def split: option.splits)
  moreover have "au_passcode r = au_passcode a \<or> \<not> truthy (au_passcode a) \<or>
      (\<exists>c. pb_current body = Some c \<and> ue_compare e c (the (au_passcode a)))"
    using p(3) by (auto simp: p(4) new_passcode_def cur truthy_def split: option.splits if_splits)
  ultimately show ?thesis using p(2) by (simp add: id)
qed

section \<open>The alias leads back\<close>

lemma lower_char_cases: "lower_char c = c \<or> (97 \<le> (of_char (lower_char c) :: nat) \<and> of_char (lower_char c) \<noteq> (160 :: nat))"
  by (auto simp: lower_char_def Let_def)

lemma js_space_nat: "js_space c \<longleftrightarrow> (of_char c :: nat) \<in> {9, 10, 11, 12, 13, 32, 160}"
proof -
  have "(of_char c :: int) = int (of_char c)" by (rule of_nat_of_char [symmetric])
  then show ?thesis unfolding js_space_def by (auto simp del: of_nat_of_char)
qed

lemma lower_char_idem: "lower_char (lower_char c) = lower_char c"
proof -
  have "(of_char c :: nat) < 256" by simp
  then show ?thesis by (auto simp: lower_char_def Let_def)
qed

lemma lower_char_space: "js_space (lower_char c) \<Longrightarrow> js_space c"
  using lower_char_cases [of c] by (auto simp: js_space_nat)

text \<open>Characters that normalisation leaves alone.\<close>

definition plain_char :: "char \<Rightarrow> bool" where
  "plain_char c \<longleftrightarrow> \<not> js_space c \<and> lower_char c = c"

lemma normalized_plain: "list_all plain_char (normalizeUsername s)"
  by (auto simp: normalizeUsername_def strip_spaces_def to_lower_def plain_char_def list_all_iff lower_char_idem)

lemma plain_lower: "list_all plain_char n \<Longrightarrow> to_lower n = n"
  by (induction n) (simp_all add: to_lower_def plain_char_def)

lemma plain_strip: "list_all plain_char n \<Longrightarrow> strip_spaces n = n"
  by (induction n) (simp_all add: strip_spaces_def plain_char_def)

lemma plain_trim: "list_all plain_char n \<Longrightarrow> trim n = n"
proof (cases n)
  case (Cons c cs)
  assume "list_all plain_char n"
  then have "\<not> js_space (hd n)" "\<not> js_space (last n)" using Cons by (auto simp: list_all_iff plain_char_def)
  then show ?thesis using Cons by (intro trim_id) auto
qed (simp add: trim_def trim_start_def trim_end_def)

lemma at_plain: "plain_char CHR ''@''"
  by code_simp

lemma at_alias:
  assumes "list_all plain_char n"
  shows "normalizeRecipientQuery (CHR ''@'' # n) = Inr (QUsername n)"
proof -
  have p: "list_all plain_char (CHR ''@'' # n)" using assms at_plain by simp
  show ?thesis
    using plain_trim [OF p] plain_lower [OF p] plain_strip [OF assms]
    by (simp add: normalizeRecipientQuery_def Let_def starts_with_def)
qed

definition users_of :: "users_state \<Rightarrow> user list" where
  "users_of s = map user.truncate (us_accounts s)"

definition contact_pairs :: "users_state \<Rightarrow> (string \<times> string) list" where
  "contact_pairs s = List.map_filter (\<lambda>c. map_option (Pair (ct_user c)) (ct_contact c)) (us_contacts s)"

lemma truncate_sel: "u_id (user.truncate a) = u_id a" "username (user.truncate a) = username a"
  "hide_from_search (user.truncate a) = hide_from_search a" for a :: account
  by (simp_all add: user.truncate_def)

lemma find_truncated: "find P (map user.truncate as) = map_option user.truncate (find (\<lambda>a. P (user.truncate a)) as)" for as :: "account list"
  by (induction as) simp_all

lemma username_found:
  assumes "accounts_ok s" and "find_account u s = Some a" and "username a = Some n"
  shows "find (matches (QUsername n)) (users_of s) = Some (user.truncate a)"
proof -
  have a: "a \<in> set (us_accounts s)" using find_account_SomeD [OF assms(2)] by simp
  have "find (\<lambda>x. username x = Some n) (us_accounts s) = Some a"
  proof (cases "find (\<lambda>x. username x = Some n) (us_accounts s)")
    case None
    then show ?thesis using a assms(3) by (auto simp: find_None_iff)
  next
    case (Some b)
    then have b: "b \<in> set (us_accounts s)" "username b = Some n" by (auto dest: find_SomeD)
    have "account_clash a b" using assms(3) b(2) by (simp add: account_clash_def clash_def)
    then have "u_id a = u_id b" using assms(1) a b(1) unfolding accounts_ok_def by blast
    then have "a = b" using assms(1) a b(1) by (auto simp: accounts_ok_def distinct_map inj_on_def)
    with Some show ?thesis by simp
  qed
  then show ?thesis by (simp add: users_of_def find_truncated matches_def truncate_sel)
qed

text \<open>
  C39. The alias under which a user asks to be paid leads to that user: after a change of the profile that sets a username that
  is not empty once normalized, the alias the server shows, given to the resolver of recipients by anyone who may see the user, resolves to exactly this user,
  whatever spaces and capitals the name was entered with.
\<close>

theorem shown_alias_resolves:
  assumes "accounts_ok s" and "patchMe e (Some u) body s = (Inr r, s')" and "pb_username body = Some raw"
    and "normalizeUsername raw \<noteq> []" and "getReceive (Some u) s' = Inr (alias, uri)"
    and "\<not> hide_from_search r \<or> caller = Some u \<or> truthy caller \<and> (u, the caller) \<in> set contacts"
  shows "\<exists>x. resolveRecipient (users_of s') contacts alias caller = Inr (Some x) \<and> r_user_id x = u"
proof -
  from assms(2) obtain b a h where p: "patchMeSchema e body = Some b" "find_account u s = Some a"
    "r = (patch_contact b a)\<lparr>au_passcode := h\<rparr>" "put_account r s = (Inr r, s')" "find_account u s' = Some r"
    by (rule patchMe_SomeE) auto
  define n where "n = normalizeUsername raw"
  have b: "pb_username b = Some n" using p(1) assms(3) by (auto simp: patchMeSchema_def n_def split: if_splits)
  have name: "username r = Some n" by (auto simp: p(3) patch_contact_def Let_def b split: option.splits)
  have n: "n \<noteq> []" "list_all plain_char n" using assms(4) normalized_plain by (simp_all add: n_def)
  have "alias = receive_alias r"
    using assms(5) p(5) by (cases "truthy (Some u)") (simp_all add: getReceive_def)
  then have shown: "alias = ''@'' @ n" using name n(1) by (simp add: receive_alias_def truthy_def)
  have id: "u_id r = u" using find_account_SomeD [OF p(5)] by simp
  have found: "find (matches (QUsername n)) (users_of s') = Some (user.truncate r)"
    by (rule username_found [OF put_account_ok [OF assms(1) p(4)] p(5) name])
  show ?thesis
    using found assms(6)
    by (auto simp: resolveRecipient_def shown at_alias [OF n(2)] truncate_sel id)
qed

section \<open>After a deletion\<close>

lemma tombstone_SomeE:
  assumes "tombstoneDeleteUser e u s = (Inr x, s')"
  obtains a where "find_account u s = Some a" "find_account u s' = Some (tombstone (ue_random_uuid e) a)"
    "us_keys s' = filter (\<lambda>k. ak_user k \<noteq> Some u) (us_keys s)" "us_otps s' = filter (\<lambda>v. v \<noteq> u) (us_otps s)"
    "us_passkeys s' = filter (\<lambda>v. v \<noteq> u) (us_passkeys s)"
    "us_contacts s' = filter (\<lambda>c. ct_user c \<noteq> u \<and> ct_contact c \<noteq> Some u) (us_contacts s)"
    "us_guardians s' = filter (\<lambda>g. gd_user g \<noteq> u \<and> gd_guardian g \<noteq> Some u) (us_guardians s)" "us_refresh s' = us_refresh s"
    "map u_id (us_accounts s') = map u_id (us_accounts s)"
proof -
  from assms obtain a where a: "find_account u s = Some a" by (auto simp: tombstoneDeleteUser_def Let_def split: option.splits)
  have mem: "a \<in> set (us_accounts s)" "u_id a = u" using find_account_SomeD [OF a] by auto
  let ?t = "tombstone (ue_random_uuid e) a"
  have id: "u_id ?t = u" using mem by (simp add: tombstone_def)
  define s1 where "s1 = s\<lparr>us_keys := filter (\<lambda>k. ak_user k \<noteq> Some u) (us_keys s), us_otps := filter (\<lambda>v. v \<noteq> u) (us_otps s),
    us_passkeys := filter (\<lambda>v. v \<noteq> u) (us_passkeys s),
    us_contacts := filter (\<lambda>c. ct_user c \<noteq> u \<and> ct_contact c \<noteq> Some u) (us_contacts s),
    us_guardians := filter (\<lambda>g. gd_user g \<noteq> u \<and> gd_guardian g \<noteq> Some u) (us_guardians s)\<rparr>"
  obtain r where put: "put_account ?t s1 = (Inr r, s')"
    using assms a by (auto simp: tombstoneDeleteUser_def Let_def s1_def split: prod.splits sum.splits)
  then have s': "s' = s1\<lparr>us_accounts := map (\<lambda>b. if u_id b = u_id ?t then ?t else b) (us_accounts s1)\<rparr>"
    by (auto simp: put_account_def split: if_splits)
  have "find_account u s' = Some ?t"
    using put_account_find [OF put, of a] mem id by (simp add: s1_def)
  moreover have "map u_id (us_accounts s') = map u_id (us_accounts s)"
    unfolding s' by (simp add: s1_def put_account_ids del: map_map)
  ultimately show ?thesis using a by (intro that) (simp_all add: s' s1_def)
qed

text \<open>
  C40. What a deletion leaves of an account: once it succeeds no key, code, passkey, contact or guardian row of
  the user is left in either direction, the account has no passcode, second factor, address or contact data, and no query of
  anyone else is resolved to it. The refresh tokens stay as they were.
\<close>

theorem deleted_account_unreachable:
  assumes "accounts_ok s" and "tombstoneDeleteUser e u s = (Inr (), s')"
  shows "list_all (\<lambda>k. ak_user k \<noteq> Some u) (us_keys s') \<and> u \<notin> set (us_otps s') \<and> u \<notin> set (us_passkeys s') \<and>
    list_all (\<lambda>c. ct_user c \<noteq> u \<and> ct_contact c \<noteq> Some u) (us_contacts s') \<and>
    list_all (\<lambda>g. gd_user g \<noteq> u \<and> gd_guardian g \<noteq> Some u) (us_guardians s') \<and>
    (\<exists>a. find_account u s' = Some a \<and> au_passcode a = None \<and> au_totp a = None \<and> email a = None \<and> phone_e164 a = None \<and>
       stellar_address a = None \<and> encrypted_secret a = None) \<and>
    us_refresh s' = us_refresh s \<and>
    (\<forall>q caller x. resolveRecipient (users_of s') (contact_pairs s') q caller = Inr (Some x) \<and> r_user_id x = u \<longrightarrow> caller = Some u)"
proof -
  from assms(2) obtain a where d: "find_account u s' = Some (tombstone (ue_random_uuid e) a)"
    "us_keys s' = filter (\<lambda>k. ak_user k \<noteq> Some u) (us_keys s)" "us_otps s' = filter (\<lambda>v. v \<noteq> u) (us_otps s)"
    "us_passkeys s' = filter (\<lambda>v. v \<noteq> u) (us_passkeys s)"
    "us_contacts s' = filter (\<lambda>c. ct_user c \<noteq> u \<and> ct_contact c \<noteq> Some u) (us_contacts s)"
    "us_guardians s' = filter (\<lambda>g. gd_user g \<noteq> u \<and> gd_guardian g \<noteq> Some u) (us_guardians s)"
    "map u_id (us_accounts s') = map u_id (us_accounts s)" "us_refresh s' = us_refresh s" by (rule tombstone_SomeE) auto
  have only: "caller = Some u" if res: "resolveRecipient (users_of s') (contact_pairs s') q caller = Inr (Some x)" "r_user_id x = u"
    for q caller x
  proof -
    from res(1) obtain v where v: "v \<in> set (users_of s')" "r_user_id x = u_id v"
      "hide_from_search v \<Longrightarrow> caller = Some (u_id v) \<or> (\<exists>c. caller = Some c \<and> (u_id v, c) \<in> set (contact_pairs s'))"
      by (rule resolveRecipient_SomeD) blast
    then obtain w where w: "w \<in> set (us_accounts s')" "v = user.truncate w" by (auto simp: users_of_def)
    have t: "tombstone (ue_random_uuid e) a \<in> set (us_accounts s')" "u_id (tombstone (ue_random_uuid e) a) = u"
      using find_account_SomeD [OF d(1)] by auto
    have "distinct (map u_id (us_accounts s'))" using assms(1) by (simp add: d(7) accounts_ok_def)
    then have "w = tombstone (ue_random_uuid e) a"
      using w t v(2) res(2) by (auto simp: distinct_map inj_on_def truncate_sel)
    then have "hide_from_search v" using w(2) by (simp add: truncate_sel tombstone_def)
    moreover have "(u, c) \<notin> set (contact_pairs s')" for c
      by (auto simp: contact_pairs_def List.map_filter_def d(5))
    ultimately show ?thesis using v(2,3) res(2) by auto
  qed
  then show ?thesis using d(1) by (auto simp: d(2-6,8) list_all_iff tombstone_def)
qed

text \<open>A user can be the own guardian; only contacts are checked against it.\<close>

lemma own_guardian:
  assumes "find_account u s = Some a" and "u \<noteq> []" and "ue_uuid_ok e u" and "us_guardians s = []"
  shows "is_ok (fst (postGuardians e (Some u) \<lparr>gb_user = Some u, gb_email = None, gb_phone = None\<rparr> s))"
  using assms by (simp add: postGuardians_def with_user_def truthy_def addGuardianSchema_def Let_def)

section \<open>Concrete inputs\<close>

definition sample_users_env :: users_env where
  "sample_users_env = \<lparr>ue_now = 0, ue_compare = (\<lambda>p h. p = h), ue_hash = (\<lambda>p. p), ue_email_ok = (\<lambda>m. True), ue_uuid_ok = (\<lambda>i. True),
     ue_random_uuid = ''0123456789''\<rparr>"

definition jane :: account where
  "jane = \<lparr>u_id = ''u1'', username = None, phone_e164 = None, email = Some ''j'', hide_from_search = True, stellar_address = None,
     wallet_version = 0, kyc_status = ''pending'', encrypted_secret = None, key_hint = None, au_passcode = Some ''p'',
     au_twofa = None, au_totp = None, au_failed = 0, au_lockout = None, au_actor = ''retail'', au_tier = ''free'', au_org = None,
     ac_email_verified = Some 5, ac_phone_verified = None, ac_country = None, ac_created = 0\<rparr>"

definition jane_only :: users_state where
  "jane_only = \<lparr>us_accounts = [jane], us_contacts = [], us_guardians = [], us_keys = [], us_otps = [''u1''], us_passkeys = [],
     us_refresh = [''u1''], us_next = 0\<rparr>"

definition rename_body :: patch_body where
  "rename_body = \<lparr>pb_username = Some '' Jane'', pb_email = None, pb_phone = None, pb_hide = Some False, pb_current = None, pb_passcode = None\<rparr>"

lemma jane_ok: "accounts_ok jane_only"
  by (simp add: accounts_ok_def jane_only_def)

lemma jane_name: "normalizeUsername '' Jane'' = ''jane''"
  by code_simp

definition renamed :: account where
  "renamed = jane\<lparr>username := Some ''jane'', hide_from_search := False\<rparr>"

lemma jane_renamed: "patchMe sample_users_env (Some ''u1'') rename_body jane_only = (Inr renamed, jane_only\<lparr>us_accounts := [renamed]\<rparr>)"
  by (simp add: patchMe_def with_user_def truthy_def patchMeSchema_def rename_body_def sized_def jane_name find_account_def jane_only_def
      new_passcode_def put_account_def patch_contact_def renamed_def jane_def Let_def)

theorem verified_contact_unchanged_witness:
  "\<exists>a. find_account ''u1'' jane_only = Some a \<and> ac_email_verified renamed = ac_email_verified a \<and> email renamed = email a"
  using verified_contact_unchanged [OF jane_renamed] by (auto simp: renamed_def jane_def)

theorem shown_alias_resolves_witness:
  "\<exists>x. resolveRecipient (users_of (jane_only\<lparr>us_accounts := [renamed]\<rparr>)) [] ''@jane'' (Some ''u2'') = Inr (Some x) \<and> r_user_id x = ''u1''"
proof (rule shown_alias_resolves [OF jane_ok jane_renamed])
  show "pb_username rename_body = Some '' Jane''" by (simp add: rename_body_def)
  show "normalizeUsername '' Jane'' \<noteq> []" by (simp add: jane_name)
  show "getReceive (Some ''u1'') (jane_only\<lparr>us_accounts := [renamed]\<rparr>) = Inr (''@jane'', ''acbu:@jane'')"
    by (simp add: getReceive_def truthy_def find_account_def receive_alias_def renamed_def jane_def)
  show "\<not> hide_from_search renamed \<or> Some ''u2'' = Some ''u1'' \<or> truthy (Some ''u2'') \<and> (''u1'', the (Some ''u2'')) \<in> set []"
    by (simp add: renamed_def)
qed

theorem deleted_account_unreachable_witness:
  "\<exists>s'. tombstoneDeleteUser sample_users_env ''u1'' jane_only = (Inr (), s') \<and> ''u1'' \<notin> set (us_otps s') \<and>
     (\<exists>a. find_account ''u1'' s' = Some a \<and> email a = None)"
proof -
  have "\<exists>s'. tombstoneDeleteUser sample_users_env ''u1'' jane_only = (Inr (), s')"
    by (simp add: tombstoneDeleteUser_def find_account_def jane_only_def jane_def put_account_def tombstone_def Let_def)
  then obtain s' where run: "tombstoneDeleteUser sample_users_env ''u1'' jane_only = (Inr (), s')" by blast
  from deleted_account_unreachable [OF jane_ok run] run show ?thesis by auto
qed

end
