(* ===== verification/Spec2Isabelle.thy ===== *)
theory Spec2Isabelle
  imports TransferPayment Schedules Bulk Breaker Withdrawal Recovery Reserves OnRamp Auth AuditLog Notifications Webhooks WebhookIn Investment Ledger FloatRevenue DriftAudit Events Oracle Stellar Fiat Ids Kyc Devices AiGuard Users
begin

text \<open>
  A model of the ACBU backend (TypeScript, \<open>src/\<close>), the server of a currency backed by a basket of
  currencies: accounts and wallets, transfers over Stellar, payouts, salaries, bill payments, limits.
  The services keep their state in a relational database; external parties (Horizon, payout providers,
  bill partners, bcrypt, token signing) are parameters of the model, as fields of an environment record.

  Conventions. A request handler is a function from an environment, its arguments and a state record to
  a result and the new state; the result is a sum, \<open>Inl\<close> an error datatype with one constructor per
  \<open>throw\<close>. Rows of a table are records in creation order, row ids are positions. JavaScript numbers are
  rationals rounded by \<open>f64\<close> where the code computes with them; \<open>Decimal\<close> columns are rationals under the
  rounding of the library. A handler runs to its end before the next one starts: interleavings inside
  a handler are not modelled, except where the code relies on a conditional update, which is one step
  in the database as well.

  Theories and sources.
  \<^item> \<open>Prelude\<close>: error sequencing, batches, collections of simplification rules. \<open>JsNum\<close>: doubles and decimal
    rounding, with the contract \<open>rounding\<close> and its interpretations for doubles and the two decimal
    contexts. \<open>JsStr\<close>: trimming, number parsing and printing of JavaScript.
  \<^item> \<open>TxStatus\<close> (\<open>utils/transactionStateMachine.ts\<close>): the transition table, its step relation, an interpretation
    of \<open>ranked_system\<close> that makes every status path finite.
  \<^item> \<open>TxStore\<close> (\<open>prisma/schema.prisma\<close>): the transactions table under its unique indexes; the interface
    \<open>unique_table\<close> and its interpretation.
  \<^item> \<open>Recipient\<close> (\<open>services/recipient\<close>), \<open>Wallet\<close> (\<open>services/wallet/walletStateService.ts\<close>,
    \<open>utils/walletConcurrency.ts\<close>): the contract \<open>version_lock\<close> of the compare-and-set, interpreted on the users
    table; \<open>FeeManager\<close> (\<open>services/stellar/feeManager.ts\<close>).
  \<^item> \<open>Transfers\<close> and \<open>TransferPayment\<close> (\<open>services/transfer/transferService.ts\<close>): the file declares \<open>createTransfer\<close> twice;
    the second, which also checks idempotency, is in \<open>Transfers\<close>, the first with its retry loop in
    \<open>TransferPayment\<close>. The loop makes at most three attempts, so it is a recursion on the attempts left.
  \<^item> \<open>Bulk\<close> (\<open>services/enterpriseService.ts\<close>), \<open>Salary\<close> (\<open>services/salary/salaryService.ts\<close>), \<open>Withdrawal\<close>
    (\<open>jobs/withdrawalProcessingJob.ts\<close>; a message is retried a bounded number of times, which bounds the recursion),
    \<open>Breaker\<close> (\<open>utils/circuitBreaker.ts\<close>).
  \<^item> \<open>DepositLimits\<close> (\<open>config/limits.ts\<close>, \<open>services/limits/limitsService.ts\<close>), \<open>Bills\<close> (\<open>services/bills\<close>; the contract
    \<open>bills_partner\<close> is what the service relies on in a partner, interpreted on the simulated partner).
  \<^item> \<open>Recovery\<close> (\<open>services/recovery\<close>): both steps of account recovery; the contract \<open>throttle\<close> bounds guesses by recorded
    attempts and is interpreted for passcodes and for one-time codes.
  \<^item> \<open>Rates\<close> (\<open>services/rates/acbuRateCache.ts\<close>, \<open>currencyConverter.ts\<close>, \<open>utils/decimalUtils.ts\<close>) and \<open>Minting\<close>
    (\<open>controllers/mintController.ts\<close>, \<open>utils/idempotency.ts\<close>): deposits, the mint behind the on-ramp, confirmations.
  \<^item> \<open>Queue\<close> (\<open>jobs/queueConfig.ts\<close>): how a message is acknowledged, retried and dead-lettered, with the contract
    \<open>retried_job\<close>; \<open>OnRamp\<close> (\<open>controllers/onrampController.ts\<close>, \<open>jobs/usdcConvertAndMintJob.ts\<close>,
    \<open>jobs/xlmToAcbuJob.ts\<close>, \<open>services/stellar/usdcSwap.ts\<close>): the swaps table and the jobs that mint for a swap.
  \<^item> \<open>Basket\<close> (\<open>config/basket.ts\<close>, \<open>services/basket\<close>, \<open>services/metrics\<close>): weights, their exact rounding to basis
    points, the basket in force and proposals. \<open>Reserves\<close> (\<open>services/reserve/ReserveTracker.ts\<close>, \<open>RebalancingEngine.ts\<close>,
    \<open>services/feePolicy\<close>): snapshots, ratio and health, rebalancing, fees.
  \<^item> \<open>Tokens\<close> (\<open>utils/jwt.ts\<close>, \<open>utils/jtiDenyList.ts\<close>): challenge tokens and the deny list, a map per process in
    front of Redis; the contract \<open>single_use\<close>, interpreted for challenge tokens and, in \<open>Auth\<close>, for refresh tokens.
    \<open>ApiKeys\<close> (\<open>middleware/auth.ts\<close> and the guards beside it): keys from generation to sign-out. \<open>Auth\<close>
    (\<open>services/auth\<close>, \<open>utils/authBruteGuard.ts\<close>): sign-in, second factor, privileged keys, refresh tokens.
  \<^item> \<open>Messages\<close> (\<open>types/rabbitmq-schemas.ts\<close>, \<open>utils/rabbitmq-validation.ts\<close>, \<open>jobs/producers\<close>): the payload schemas as
    data with a reader for them, the envelope, publishing and reading. Its clients: \<open>AuditLog\<close> (\<open>services/audit\<close>,
    \<open>jobs/auditConsumer.ts\<close>), \<open>Notifications\<close> (\<open>services/notification\<close>, \<open>services/email\<close>,
    \<open>jobs/notificationConsumer.ts\<close>), \<open>Webhooks\<close> (\<open>services/webhook\<close>, \<open>jobs/webhookConsumer.ts\<close>) for the outgoing
    webhooks. \<open>WebhookIn\<close> (\<open>controllers/webhookController.ts\<close>): the guards and handlers of the incoming ones.
    A loop that sends is a recursion on the attempts left; the policies allow at most eight.
  \<^item> \<open>JobLock\<close> (\<open>utils/jobLock.ts\<close>): the lock document of a job; \<open>Schedules\<close> (\<open>jobs/salaryScheduleJob.ts\<close>, the schedules of
    \<open>services/salary\<close>). \<open>Investment\<close> (\<open>services/investment\<close>, its controller and jobs): strategies, yield, withdrawals.
    \<open>Ledger\<close> (\<open>services/ledger\<close>, \<open>services/idempotency\<close>). \<open>Treasury\<close> and \<open>FloatRevenue\<close> (\<open>services/treasury\<close>):
    the join of reserves, transactions and rates, and the revenue of the float. \<open>DriftAudit\<close>
    (\<open>controllers/weightDriftAuditController.ts\<close>, \<open>jobs/weightDriftAuditJob.ts\<close>).
  \<^item> \<open>Conversion\<close> (\<open>jobs/usdcConversionJob.ts\<close>): the exact division of a deposit over the basket, the claim of a
    transaction and what a redelivery repeats. \<open>Events\<close> (\<open>services/stellar/eventListener.ts\<close>, the listeners of
    \<open>jobs\<close>): cursors, polls with retries, dispatch, the failure queue. \<open>Oracle\<close> (\<open>services/oracle\<close>, \<open>services/rates\<close>,
    \<open>services/fintech\<close>): layers, outliers, the deviation limit, the stored rates.
  \<^item> \<open>Stellar\<close> (\<open>services/stellar/client.ts\<close>, \<open>contractClient.ts\<close>): the requests to Horizon behind the breaker, the values
    of contracts, a contract call from simulation to its result. \<open>Calendar\<close> (\<open>utils/dateUtils.ts\<close>, \<open>config/savings.ts\<close>): dates,
    zones and the days of the savings. \<open>Contracts\<close> (\<open>services/contracts\<close>, \<open>config/contracts.ts\<close> and the controllers of
    lending, savings, reserves and the gateway): the calls of each contract. \<open>Fiat\<close> (\<open>services/fiat\<close>): the demonstration ramps.
    A wait for a submitted transaction polls at most as often as the configuration allows, which bounds its recursion.
  \<^item> \<open>Ids\<close> (\<open>utils/idGenerator.ts\<close>): ordered identifiers over bytes of eight bits; the wait for the clock may not end, so it
    is a partial function. \<open>Kyc\<close> (\<open>controllers/kycController.ts\<close>, \<open>services/storage/s3Service.ts\<close>, \<open>services/kyc\<close>): documents,
    scans and rewards. \<open>Devices\<close> (\<open>services/recovery/deviceVerification.ts\<close>, \<open>auditService.ts\<close>): the devices and the audit
    behind recovery. \<open>AiGuard\<close> (\<open>services/ai/openaiGuard.ts\<close>): budget, retries and prompts of the language model.
    \<open>Users\<close> (\<open>controllers/userController.ts\<close>, \<open>services/user\<close>): profile, contacts, guardians, alias and deletion.

  What the lemmas show. Each theory proves the effect of its operations on every branch, then an
  invariant or a contract of the component, then the properties. Several properties state what goes wrong
  in the code as it is: payroll transfers are always refused, a replayed webhook re-enables a refund, an
  update lost after a payout or a mint repeats it, a failed chunk of a bulk upload keeps its rows, the lockout of a recovery code is unreachable, basket deposits never count against
  the deposit caps, a confirmation does not look at the deposit it confirms, no deposit can mint the first
  unit of currency, a first run of the reserve tracker records wrong weights, no key of a user is accepted, the second
  factor can be guessed without end, no queued code, audit entry or webhook survives the check of its envelope,
  a webhook is replayed with a fresh timestamp, a failed mint marks its row although the contract may have run, the
  announced withdrawal date is locked, a named document is taken away from its owner, the rewards exceed the supply,
  the alarm for repeated recoveries cannot ring.

  Not modelled: the burn controller, which calls database models and functions that do not exist; the HTTP clients of the
  payment providers; web sockets and reports; metrics, monitoring and health checks; the helpers for caches and HTTP; the
  routes and most middleware and controllers, whose rate limiter is truncated in the repository; configuration and
  process start and stop, whose module does not export most of what the code reads from it, so that the theories take
  the configuration as a parameter; the jobs that only call modelled services on a timer.
\<close>

end
